(* ===== verification/Prelude.thy ===== *)
theory Prelude
  imports Main "HOL-Library.Word" "HOL-Library.Char_ord"
begin

text \<open>
  Vocabulary shared by every component: machine widths, the status codes of
  \<^verbatim>\<open>stack/include/nclink/ncl_common.h\<close>, C strings, the allocator's answers as
  seen by a caller, and the lemma collections the component proofs draw on.
\<close>

unbundle bit_operations_syntax

section \<open>Machine types\<close>

type_synonym u8 = "8 word"
type_synonym u16 = "16 word"
type_synonym u32 = "32 word"
type_synonym u64 = "64 word"

text \<open>
  \<open>size_t\<close> values are natural numbers below \<open>SIZE_MOD\<close>; every sum of the code that
  can pass the width is reduced with \<open>mod SIZE_MOD\<close> where it is written.
\<close>

definition SIZE_MOD :: nat where
  "SIZE_MOD = 2 ^ 64"

definition SIZE_MAX :: nat where
  "SIZE_MAX = 2 ^ 64 - 1"

lemma SIZE_MAX_Suc: "Suc SIZE_MAX = SIZE_MOD"
  by (simp add: SIZE_MAX_def SIZE_MOD_def)

text \<open>
  What an allocating operation is told: \<open>g n\<close> says whether the allocator serves a
  request of \<open>n\<close> bytes. The allocator itself is modelled in theory \<open>Mem_Pool\<close>;
  its callers only see the answer.
\<close>

type_synonym grant = "nat \<Rightarrow> bool"

definition grant_all :: grant where
  "grant_all n = True"

lemma grant_all: "grant_all n"
  by (simp add: grant_all_def)

section \<open>Status codes\<close>

datatype ncl_err =
    NCL_OK
  | NCL_ERR
  | NCL_ERR_NOMEM
  | NCL_ERR_PARSE
  | NCL_ERR_TIMEOUT
  | NCL_ERR_IO
  | NCL_ERR_NOT_FOUND
  | NCL_ERR_EXISTS
  | NCL_ERR_NOT_SUPPORTED
  | NCL_ERR_INVALID_ARG
  | NCL_ERR_STATE
  | NCL_ERR_RANGE
  | NCL_ERR_CONNECT
  | NCL_ERR_CLOSED
  | NCL_ERR_NO_CHANNEL
  | NCL_ERR_UNAVAILABLE
  | NCL_ERR_INVALID_CODE
  | NCL_ERR_INVALID_DATA_NAME
  | NCL_ERR_INVALID_DATA_TYPE
  | NCL_ERR_INVALID_DEVICE_ID
  | NCL_ERR_INVALID_ENCODING
  | NCL_ERR_INVALID_ID
  | NCL_ERR_INVALID_INDEX_RANGE
  | NCL_ERR_INVALID_ITEM
  | NCL_ERR_INVALID_KEY
  | NCL_ERR_INVALID_MESSAGE
  | NCL_ERR_INVALID_MESSAGE_ID
  | NCL_ERR_INVALID_MODEL
  | NCL_ERR_INVALID_NODE
  | NCL_ERR_INVALID_NUMBER
  | NCL_ERR_INVALID_REQUEST
  | NCL_ERR_INVALID_TYPE
  | NCL_ERR_INVALID_VALUE
  | NCL_ERR_INVALID_VERSION
  | NCL_DRV_ERR_TRANSPORT nat
  | NCL_DRV_ERR_PROTOCOL nat
  | NCL_DRV_ERR_BUSINESS nat

section \<open>C strings\<close>

text \<open>
  A C string is the list of its characters before the terminating NUL, so a
  well formed one holds no \<open>CHR 0x00\<close>; a \<open>char *\<close> that may be NULL is an option.
\<close>

definition NUL :: char where
  "NUL = CHR 0x00"

definition cstr_of :: "char list \<Rightarrow> string" where
  "cstr_of bs = takeWhile (\<lambda>c. c \<noteq> NUL) bs"

definition is_cstr :: "string \<Rightarrow> bool" where
  "is_cstr s \<longleftrightarrow> NUL \<notin> set s"

lemma cstr_of_id [simp]: "is_cstr s \<Longrightarrow> cstr_of s = s"
  by (auto simp: is_cstr_def cstr_of_def takeWhile_eq_all_conv)

lemma is_cstr_cstr_of [simp]: "is_cstr (cstr_of bs)"
  by (auto simp: is_cstr_def cstr_of_def dest: set_takeWhileD)

lemma is_cstr_append [simp]: "is_cstr (s @ t) \<longleftrightarrow> is_cstr s \<and> is_cstr t"
  by (auto simp: is_cstr_def)

lemma is_cstr_Cons [simp]: "is_cstr (c # s) \<longleftrightarrow> c \<noteq> NUL \<and> is_cstr s"
  by (auto simp: is_cstr_def)

lemma is_cstr_Nil [simp]: "is_cstr []"
  by (simp add: is_cstr_def)

section \<open>Lists\<close>

lemma take_append_exact [simp]: "n = length xs \<Longrightarrow> take n (xs @ ys) = xs"
  by simp

lemma drop_append_exact [simp]: "n = length xs \<Longrightarrow> drop n (xs @ ys) = ys"
  by simp

lemma nth_append_exact: "n = length xs \<Longrightarrow> (xs @ y # ys) ! n = y"
  by simp

lemma sum_list_map_filter_split:
  "sum_list (map f xs) = sum_list (map f (filter P xs)) + sum_list (map f (filter (\<lambda>x. \<not> P x) xs))"
  for f :: "'a \<Rightarrow> nat"
  by (induction xs) auto

lemma set_concat_map_nth: "set (concat (map f xs)) = (\<Union>i < length xs. set (f (xs ! i)))"
  by (induction xs) (simp_all add: lessThan_Suc_eq_insert_0)

section \<open>Bytes of a word\<close>

text \<open>Big endian splitting and joining, as the wire codecs write it out.\<close>

definition u16_bytes :: "u16 \<Rightarrow> u8 list" where
  "u16_bytes v = [ucast (drop_bit 8 v), ucast v]"

definition u16_join :: "u8 \<Rightarrow> u8 \<Rightarrow> u16" where
  "u16_join h l = push_bit 8 (ucast h) OR ucast l"

definition u32_bytes :: "u32 \<Rightarrow> u8 list" where
  "u32_bytes v = [ucast (drop_bit 24 v), ucast (drop_bit 16 v), ucast (drop_bit 8 v), ucast v]"

definition u32_join :: "u8 \<Rightarrow> u8 \<Rightarrow> u8 \<Rightarrow> u8 \<Rightarrow> u32" where
  "u32_join a b c d =
     push_bit 24 (ucast a) OR push_bit 16 (ucast b) OR push_bit 8 (ucast c) OR ucast d"

lemma u16_join_bytes [simp]: "u16_join (ucast (drop_bit 8 v)) (ucast v) = v"
  by (rule bit_word_eqI) (auto simp: u16_join_def bit_simps)

lemma u32_join_bytes [simp]:
  "u32_join (ucast (drop_bit 24 v)) (ucast (drop_bit 16 v)) (ucast (drop_bit 8 v)) (ucast v) = v"
proof (rule bit_word_eqI)
  fix n
  show "bit (u32_join (ucast (drop_bit 24 v)) (ucast (drop_bit 16 v)) (ucast (drop_bit 8 v)) (ucast v)) n
      = bit v n" if "n < LENGTH(32)"
    using that by (cases "n < 8"; cases "n < 16"; cases "n < 24") (auto simp: u32_join_def bit_simps)
qed

lemma u16_hi_join [simp]: "ucast (drop_bit 8 (u16_join h l)) = h"
  by (rule bit_word_eqI) (auto simp: u16_join_def bit_simps dest: bit_imp_le_length)

lemma u16_lo_join [simp]: "ucast (u16_join h l) = l"
  by (rule bit_word_eqI) (auto simp: u16_join_def bit_simps)

lemma u32_parts [simp]:
  "ucast (drop_bit 24 (u32_join a b c d)) = a"
  "ucast (drop_bit 16 (u32_join a b c d)) = b"
  "ucast (drop_bit 8 (u32_join a b c d)) = c"
  "ucast (u32_join a b c d) = d"
  by (rule bit_word_eqI; auto simp: u32_join_def bit_simps dest: bit_imp_le_length)+

lemma length_u16_bytes [simp]: "length (u16_bytes v) = 2"
  by (simp add: u16_bytes_def)

lemma length_u32_bytes [simp]: "length (u32_bytes v) = 4"
  by (simp add: u32_bytes_def)

text \<open>A property of bytes can be decided by trying them all.\<close>

lemma u8_all: "list_all P (map word_of_nat [0 ..< 256]) \<Longrightarrow> P (x :: u8)"
proof -
  assume all: "list_all P (map word_of_nat [0 ..< 256])"
  have "\<forall>k \<in> {0 ..< 256}. P (word_of_nat k)" using all by (simp add: list_all_iff)
  moreover have "unat x \<in> {0 ..< 256}" using unsigned_less [of x] by simp
  ultimately have "P (word_of_nat (unat x))" by blast
  then show ?thesis by simp
qed

end
