(* ===== verification/Mem_Pool.thy ===== *)
theory Mem_Pool
  imports Prelude
begin

text \<open>
  \<^verbatim>\<open>stack/src/core/ncl_mem.c\<close>, the static pool (\<^verbatim>\<open>NCL_STATIC_MEM\<close>, best fit, no
  \<^verbatim>\<open>NCL_MEM_STRICT\<close>, no \<^verbatim>\<open>NCL_MEM_REPORT\<close>): size classes in front of a general
  arena with in-band headers.

  Pointers are addresses, natural numbers with 0 for NULL. The memory of the pool is
  seen through three views: \<open>pl_hdr p\<close> is the block header that the bytes at \<open>p\<close>
  spell, \<open>pl_link p\<close> the pointer stored in the first word at \<open>p\<close> (the free list link
  of a class block) and \<open>pl_data p\<close> the byte at \<open>p\<close>. The allocator reads headers at
  block starts and links in free class blocks; at any other address the views are
  whatever the callers wrote there, and no property below depends on them. The lock is
  not modelled: every operation is one critical section, so an operation is one
  atomic function on the pool. Counters are natural numbers.
\<close>

section \<open>Configuration and state\<close>

record mem_cfg =
  g_pool :: nat        \<comment> \<open>address of the static array\<close>
  cfg_pool_bytes :: nat    \<comment> \<open>\<^verbatim>\<open>NCL_MEM_POOL_BYTES\<close>\<close>
  cfg_class_bytes :: nat   \<comment> \<open>\<^verbatim>\<open>NCL_MEM_CLASS_BYTES\<close>\<close>

definition NCL_MEM_ALIGN :: nat where
  "NCL_MEM_ALIGN = 16"

text \<open>\<open>sizeof(ncl_mem_block)\<close>: the union's byte array of two alignment units.\<close>

definition NCL_MEM_HDR :: nat where
  "NCL_MEM_HDR = 32"

definition g_class_block :: "nat list" where
  "g_class_block = [16, 32, 48, 64, 96, 128, 192, 256]"

definition g_class_share :: "nat list" where
  "g_class_share = [13, 2, 27, 36, 8, 11, 1, 2]"

record mem_block =
  h_total :: nat
  h_prev_total :: nat
  h_free_flag :: nat

record mem_class =
  mc_begin :: nat
  mc_end :: nat
  mc_block :: nat
  mc_live :: nat
  mc_free_blocks :: nat
  mc_head :: nat

definition unused_class :: mem_class where
  "unused_class =
     \<lparr>mc_begin = 0, mc_end = 0, mc_block = 0, mc_live = 0, mc_free_blocks = 0, mc_head = 0\<rparr>"

record pool =
  pl_ready :: bool
  pl_class :: "mem_class list"
  pl_arena_begin :: nat
  pl_hdr :: "nat \<Rightarrow> mem_block"
  pl_link :: "nat \<Rightarrow> nat"
  pl_data :: "nat \<Rightarrow> u8"
  g_in_use :: nat
  g_peak :: nat
  g_footprint :: nat
  g_peak_footprint :: nat
  g_live_blocks :: nat
  g_allocations :: nat
  g_failures :: nat
  g_foreign_frees :: nat
  g_bad_links :: nat
  g_largest_request :: nat
  g_failure_free :: nat
  g_failure_largest_free :: nat
  g_size_hist :: "nat list"

text \<open>The state before the first call: the static objects are zero, the bytes arbitrary.\<close>

definition pool_static :: "(nat \<Rightarrow> mem_block) \<Rightarrow> (nat \<Rightarrow> nat) \<Rightarrow> (nat \<Rightarrow> u8) \<Rightarrow> pool" where
  "pool_static h l d =
     \<lparr>pl_ready = False, pl_class = replicate 8 unused_class, pl_arena_begin = 0,
      pl_hdr = h, pl_link = l, pl_data = d,
      g_in_use = 0, g_peak = 0, g_footprint = 0, g_peak_footprint = 0, g_live_blocks = 0,
      g_allocations = 0, g_failures = 0, g_foreign_frees = 0, g_bad_links = 0,
      g_largest_request = 0, g_failure_free = 0, g_failure_largest_free = 0,
      g_size_hist = replicate 16 0\<rparr>"

section \<open>Geometry\<close>

definition pool_total :: "mem_cfg \<Rightarrow> nat" where
  "pool_total cfg = cfg_pool_bytes cfg div NCL_MEM_ALIGN * NCL_MEM_ALIGN"

definition pool_begin :: "mem_cfg \<Rightarrow> nat" where
  "pool_begin cfg = (g_pool cfg + (NCL_MEM_ALIGN - 1)) div NCL_MEM_ALIGN * NCL_MEM_ALIGN"

definition pool_end :: "mem_cfg \<Rightarrow> nat" where
  "pool_end cfg = pool_begin cfg + pool_total cfg"

definition pool_align_up :: "nat \<Rightarrow> nat" where
  "pool_align_up n = ((n + NCL_MEM_ALIGN - 1) mod SIZE_MOD) div NCL_MEM_ALIGN * NCL_MEM_ALIGN"

fun class_search :: "nat \<Rightarrow> nat \<Rightarrow> mem_class list \<Rightarrow> nat option" where
  "class_search want i [] = None"
| "class_search want i (c # cs) =
     (if mc_block c = 0 then class_search want (Suc i) cs
      else if want \<le> mc_block c then Some i
      else class_search want (Suc i) cs)"

definition pool_class_for :: "pool \<Rightarrow> nat \<Rightarrow> nat option" where
  "pool_class_for s sz =
     class_search (pool_align_up (if sz = 0 then 1 else sz)) 0 (pl_class s)"

fun region_search :: "nat \<Rightarrow> nat \<Rightarrow> mem_class list \<Rightarrow> nat option" where
  "region_search p i [] = None"
| "region_search p i (c # cs) =
     (if mc_block c \<noteq> 0 \<and> p \<ge> mc_begin c \<and> p < mc_end c \<and> (p - mc_begin c) mod mc_block c = 0
      then Some i else region_search p (Suc i) cs)"

definition pool_class_of :: "pool \<Rightarrow> nat \<Rightarrow> nat option" where
  "pool_class_of s p = (if p = 0 then None else region_search p 0 (pl_class s))"

section \<open>Arena blocks\<close>

text \<open>The arena functions work on the pair of \<open>g_arena_begin\<close> and the header view.\<close>

definition pool_block_at :: "mem_cfg \<Rightarrow> nat \<Rightarrow> (nat \<Rightarrow> mem_block) \<Rightarrow> nat \<Rightarrow> nat option" where
  "pool_block_at cfg a h p =
     (if a = 0 \<or> p < a \<or> p + NCL_MEM_HDR > pool_end cfg then None
      else if p mod NCL_MEM_ALIGN \<noteq> 0 then None
      else if h_total (h p) < NCL_MEM_HDR \<or> h_total (h p) > pool_end cfg - p then None
      else Some p)"

lemma pool_block_at_SomeD:
  "pool_block_at cfg a h p = Some q \<Longrightarrow>
     q = p \<and> 0 < h_total (h p) \<and> p + h_total (h p) \<le> pool_end cfg"
  by (auto simp: pool_block_at_def NCL_MEM_HDR_def split: if_splits)

definition pool_block_of :: "mem_cfg \<Rightarrow> nat \<Rightarrow> (nat \<Rightarrow> mem_block) \<Rightarrow> nat \<Rightarrow> nat option" where
  "pool_block_of cfg a h p =
     (if p = 0 \<or> a = 0 then None
      else if p < a + NCL_MEM_HDR \<or> p \<ge> pool_end cfg then None
      else if p mod NCL_MEM_ALIGN \<noteq> 0 then None
      else case pool_block_at cfg a h (p - NCL_MEM_HDR) of
          None \<Rightarrow> None
        | Some b \<Rightarrow> if h_free_flag (h b) \<noteq> 0 then None else Some b)"

definition pool_payload :: "(nat \<Rightarrow> mem_block) \<Rightarrow> nat \<Rightarrow> nat" where
  "pool_payload h b = h_total (h b) - NCL_MEM_HDR"

definition pool_fix_follower ::
  "mem_cfg \<Rightarrow> nat \<Rightarrow> (nat \<Rightarrow> mem_block) \<Rightarrow> nat \<Rightarrow> (nat \<Rightarrow> mem_block)" where
  "pool_fix_follower cfg a h b =
     (case pool_block_at cfg a h (b + h_total (h b)) of
        None \<Rightarrow> h
      | Some after \<Rightarrow> h(after := (h after)\<lparr>h_prev_total := h_total (h b)\<rparr>))"

lemma fix_follower_total [simp]: "h_total (pool_fix_follower cfg a h b p) = h_total (h p)"
  by (auto simp: pool_fix_follower_def split: option.splits)

function pool_merge_forward ::
  "mem_cfg \<Rightarrow> nat \<Rightarrow> (nat \<Rightarrow> mem_block) \<Rightarrow> nat \<Rightarrow> (nat \<Rightarrow> mem_block)" where
  "pool_merge_forward cfg a h b =
     (case pool_block_at cfg a h (b + h_total (h b)) of
        None \<Rightarrow> h
      | Some next \<Rightarrow>
          if h_free_flag (h next) = 0 then h
          else pool_merge_forward cfg a
                 (pool_fix_follower cfg a
                    (h(b := (h b)\<lparr>h_total := h_total (h b) + h_total (h next)\<rparr>)) b) b)"
  by pat_completeness auto
termination
  by (relation "measure (\<lambda>(cfg, a, h, b). pool_end cfg - (b + h_total (h b)))")
    (auto dest!: pool_block_at_SomeD)

declare pool_merge_forward.simps [simp del]

definition pool_split ::
  "mem_cfg \<Rightarrow> nat \<Rightarrow> (nat \<Rightarrow> mem_block) \<Rightarrow> nat \<Rightarrow> nat \<Rightarrow> (nat \<Rightarrow> mem_block)" where
  "pool_split cfg a h b need =
     (let rest = h_total (h b) - need
      in if rest < NCL_MEM_HDR + NCL_MEM_ALIGN then h
         else (let tail = b + need;
                   h1 = h(tail := \<lparr>h_total = rest, h_prev_total = need, h_free_flag = 1\<rparr>);
                   h2 = pool_merge_forward cfg a h1 tail;
                   h3 = pool_fix_follower cfg a h2 tail
               in h3(b := (h3 b)\<lparr>h_total := need\<rparr>)))"

section \<open>First use\<close>

text \<open>The free list of a class region, threaded from the back: slot \<open>j - 1\<close> points to
  the current head and becomes the head.\<close>

fun thread_slots :: "nat \<Rightarrow> nat \<Rightarrow> nat \<Rightarrow> (nat \<Rightarrow> nat) \<Rightarrow> nat \<Rightarrow> (nat \<Rightarrow> nat) \<times> nat" where
  "thread_slots cursor block 0 link head = (link, head)"
| "thread_slots cursor block (Suc j) link head =
     (let slot = cursor + j * block
      in thread_slots cursor block j (link(slot := head)) slot)"

text \<open>The class loop: \<open>cursor\<close> runs through the pool, a class that would get no whole
  block, or would leave no room for one arena block, is skipped.\<close>

fun carve :: "nat \<Rightarrow> nat \<Rightarrow> (nat \<times> nat) list \<Rightarrow> nat \<Rightarrow> (nat \<Rightarrow> nat)
    \<Rightarrow> mem_class list \<times> nat \<times> (nat \<Rightarrow> nat)" where
  "carve area limit [] cursor link = ([], cursor, link)"
| "carve area limit ((block, share) # rest) cursor link =
     (if \<not> area > 0
      then (case carve area limit rest cursor link of
              (cs, cur, l) \<Rightarrow> (unused_class # cs, cur, l))
      else
        (let want = area * share div 100 div block * block;
             blocks = want div block
         in if blocks = 0 \<or> limit - cursor < want + NCL_MEM_HDR + NCL_MEM_ALIGN
            then (case carve area limit rest cursor link of
                    (cs, cur, l) \<Rightarrow> (unused_class # cs, cur, l))
            else (case thread_slots cursor block blocks link 0 of
                    (link1, head) \<Rightarrow>
                      (case carve area limit rest (cursor + want) link1 of
                         (cs, cur, l) \<Rightarrow>
                           (\<lparr>mc_begin = cursor, mc_end = cursor + want, mc_block = block,
                             mc_live = 0, mc_free_blocks = blocks, mc_head = head\<rparr> # cs,
                            cur, l)))))"

definition class_area :: "mem_cfg \<Rightarrow> nat" where
  "class_area cfg =
     (if cfg_class_bytes cfg > pool_total cfg div 2 then pool_total cfg div 2
      else cfg_class_bytes cfg)"

definition pool_init_locked :: "mem_cfg \<Rightarrow> pool \<Rightarrow> pool" where
  "pool_init_locked cfg s =
     (if pl_ready s then s
      else (case carve (class_area cfg) (pool_end cfg) (zip g_class_block g_class_share)
                   (pool_begin cfg) (pl_link s) of
          (cs, cur, l) \<Rightarrow>
            (let cursor = (cur + (NCL_MEM_ALIGN - 1)) div NCL_MEM_ALIGN * NCL_MEM_ALIGN
             in s\<lparr>pl_class := cs, pl_link := l, pl_arena_begin := cursor,
                  pl_hdr := (pl_hdr s)(cursor :=
                     \<lparr>h_total = pool_end cfg - cursor, h_prev_total = 0, h_free_flag = 1\<rparr>),
                  pl_ready := True\<rparr>)))"

section \<open>Class blocks\<close>

definition pool_class_take :: "nat \<Rightarrow> pool \<Rightarrow> nat \<times> pool" where
  "pool_class_take index s =
     (let c = pl_class s ! index
      in if mc_head c = 0 then (0, s)
         else (let block = mc_head c;
                   c1 = c\<lparr>mc_head := pl_link s block, mc_free_blocks := mc_free_blocks c - 1,
                          mc_live := mc_live c + 1\<rparr>;
                   in_use = g_in_use s + mc_block c;
                   fp = g_footprint s + mc_block c
               in (block,
                   s\<lparr>pl_class := (pl_class s)[index := c1], g_in_use := in_use, g_footprint := fp,
                     g_peak := max (g_peak s) in_use,
                     g_peak_footprint := max (g_peak_footprint s) fp,
                     g_live_blocks := g_live_blocks s + 1,
                     g_allocations := g_allocations s + 1\<rparr>)))"

definition pool_class_give :: "nat \<Rightarrow> nat \<Rightarrow> pool \<Rightarrow> pool" where
  "pool_class_give index ptr s =
     (let c = pl_class s ! index
      in s\<lparr>pl_link := (pl_link s)(ptr := mc_head c),
           pl_class := (pl_class s)[index :=
             c\<lparr>mc_head := ptr, mc_free_blocks := mc_free_blocks c + 1, mc_live := mc_live c - 1\<rparr>],
           g_in_use := g_in_use s - mc_block c,
           g_footprint := g_footprint s - mc_block c,
           g_live_blocks := g_live_blocks s - 1\<rparr>)"

section \<open>Measuring and refusing\<close>

function measure_walk ::
  "mem_cfg \<Rightarrow> nat \<Rightarrow> (nat \<Rightarrow> mem_block) \<Rightarrow> nat \<Rightarrow> nat \<times> nat \<times> nat \<times> nat
     \<Rightarrow> nat \<times> nat \<times> nat \<times> nat" where
  "measure_walk cfg a h p (best, tot, holes, blocks) =
     (case pool_block_at cfg a h p of
        None \<Rightarrow> (best, tot, holes, blocks)
      | Some b \<Rightarrow>
          measure_walk cfg a h (b + h_total (h b))
            (if h_free_flag (h b) \<noteq> 0
             then (if pool_payload h b > best then pool_payload h b else best,
                   tot + pool_payload h b, holes + 1, blocks + 1)
             else (best, tot, holes, blocks + 1)))"
  by pat_completeness auto
termination
  by (relation "measure (\<lambda>(cfg, a, h, p, acc). pool_end cfg - p)") (auto dest!: pool_block_at_SomeD)

declare measure_walk.simps [simp del]

definition pool_measure_locked :: "mem_cfg \<Rightarrow> pool \<Rightarrow> nat \<times> nat \<times> nat \<times> nat" where
  "pool_measure_locked cfg s =
     (case measure_walk cfg (pl_arena_begin s) (pl_hdr s) (pl_arena_begin s) (0, 0, 0, 0) of
        (best, tot, holes, blocks) \<Rightarrow>
          (best, tot + (\<Sum>c\<leftarrow>pl_class s. mc_free_blocks c * mc_block c), holes, blocks))"

definition pool_note_failure_locked :: "mem_cfg \<Rightarrow> pool \<Rightarrow> pool" where
  "pool_note_failure_locked cfg s =
     (case pool_measure_locked cfg s of
        (largest, tot, _, _) \<Rightarrow> s\<lparr>g_failure_largest_free := largest, g_failure_free := tot\<rparr>)"

definition pool_note_refusal_locked :: "mem_cfg \<Rightarrow> pool \<Rightarrow> pool" where
  "pool_note_refusal_locked cfg s = pool_note_failure_locked cfg (s\<lparr>g_failures := g_failures s + 1\<rparr>)"

fun hist_bucket :: "nat \<Rightarrow> nat \<Rightarrow> nat \<Rightarrow> nat \<Rightarrow> nat" where
  "hist_bucket 0 i bound sz = i"
| "hist_bucket (Suc fuel) i bound sz =
     (if i < 15 \<and> sz > bound then hist_bucket fuel (i + 1) (bound * 2) sz else i)"

text \<open>The bucket loop runs at most fifteen times, the fuel it is given.\<close>

definition pool_note_request :: "nat \<Rightarrow> pool \<Rightarrow> pool" where
  "pool_note_request sz s =
     (let i = hist_bucket 15 0 2 sz
      in s\<lparr>g_size_hist := (g_size_hist s)[i := g_size_hist s ! i + 1]\<rparr>)"

section \<open>The allocator's interface\<close>

function best_fit ::
  "mem_cfg \<Rightarrow> nat \<Rightarrow> (nat \<Rightarrow> mem_block) \<Rightarrow> nat \<Rightarrow> nat \<Rightarrow> nat option \<Rightarrow> nat option" where
  "best_fit cfg a h need p best =
     (case pool_block_at cfg a h p of
        None \<Rightarrow> best
      | Some b \<Rightarrow>
          (if h_free_flag (h b) \<noteq> 0 \<and> h_total (h b) \<ge> need
           then (if best = None \<or> h_total (h b) < h_total (h (the best))
                 then (if h_total (h b) = need then Some b
                       else best_fit cfg a h need (b + h_total (h b)) (Some b))
                 else best_fit cfg a h need (b + h_total (h b)) best)
           else best_fit cfg a h need (b + h_total (h b)) best))"
  by pat_completeness auto
termination
  by (relation "measure (\<lambda>(cfg, a, h, need, p, best). pool_end cfg - p)")
    (auto dest!: pool_block_at_SomeD)

declare best_fit.simps [simp del]

text \<open>The second half of \<open>ncl_mem_alloc\<close>: the arena, when no class block was taken.\<close>

definition arena_alloc :: "mem_cfg \<Rightarrow> nat \<Rightarrow> pool \<Rightarrow> nat \<times> pool" where
  "arena_alloc cfg sz s =
     (let need = NCL_MEM_HDR + pool_align_up sz
      in case best_fit cfg (pl_arena_begin s) (pl_hdr s) need (pl_arena_begin s) None of
          None \<Rightarrow> (0, pool_note_refusal_locked cfg s)
        | Some b \<Rightarrow>
            (let h1 = pool_split cfg (pl_arena_begin s) (pl_hdr s) b need;
                 h2 = h1(b := (h1 b)\<lparr>h_free_flag := 0\<rparr>);
                 in_use = g_in_use s + pool_payload h2 b;
                 fp = g_footprint s + h_total (h2 b)
             in (b + NCL_MEM_HDR,
                 s\<lparr>pl_hdr := h2, g_in_use := in_use, g_footprint := fp,
                   g_peak := max (g_peak s) in_use,
                   g_peak_footprint := max (g_peak_footprint s) fp,
                   g_live_blocks := g_live_blocks s + 1,
                   g_allocations := g_allocations s + 1\<rparr>)))"

definition note_largest :: "nat \<Rightarrow> pool \<Rightarrow> pool" where
  "note_largest sz s =
     (if sz > g_largest_request s then s\<lparr>g_largest_request := sz\<rparr> else s)"

definition ncl_mem_alloc :: "mem_cfg \<Rightarrow> nat \<Rightarrow> pool \<Rightarrow> nat \<times> pool" where
  "ncl_mem_alloc cfg size0 s0 =
     (let sz = (if size0 = 0 then 1 else size0);
          s = pool_init_locked cfg s0
      in if sz > pool_total cfg then (0, pool_note_refusal_locked cfg s)
         else (let s1 = pool_note_request sz (note_largest sz s)
               in case pool_class_for s1 sz of
                   Some index \<Rightarrow>
                     (case pool_class_take index s1 of
                        (out, s2) \<Rightarrow> if out \<noteq> 0 then (out, s2) else arena_alloc cfg sz s2)
                 | None \<Rightarrow> arena_alloc cfg sz s1))"

definition mem_zero :: "nat \<Rightarrow> nat \<Rightarrow> (nat \<Rightarrow> u8) \<Rightarrow> (nat \<Rightarrow> u8)" where
  "mem_zero p n d = (\<lambda>x. if p \<le> x \<and> x < p + n then 0 else d x)"

definition mem_copy :: "nat \<Rightarrow> nat \<Rightarrow> nat \<Rightarrow> (nat \<Rightarrow> u8) \<Rightarrow> (nat \<Rightarrow> u8)" where
  "mem_copy dst src n d = (\<lambda>x. if dst \<le> x \<and> x < dst + n then d (src + (x - dst)) else d x)"

text \<open>On the overflow exit the pool may not be initialised yet, as in the code.\<close>

definition ncl_mem_calloc :: "mem_cfg \<Rightarrow> nat \<Rightarrow> nat \<Rightarrow> pool \<Rightarrow> nat \<times> pool" where
  "ncl_mem_calloc cfg count sz s =
     (if count \<noteq> 0 \<and> sz > SIZE_MAX div count then (0, pool_note_refusal_locked cfg s)
      else (case ncl_mem_alloc cfg ((count * sz) mod SIZE_MOD) s of
          (out, s1) \<Rightarrow>
            if out \<noteq> 0
            then (out, s1\<lparr>pl_data := mem_zero out ((count * sz) mod SIZE_MOD) (pl_data s1)\<rparr>)
            else (out, s1)))"

definition ncl_mem_free :: "mem_cfg \<Rightarrow> nat \<Rightarrow> pool \<Rightarrow> pool" where
  "ncl_mem_free cfg ptr s0 =
     (if ptr = 0 then s0
      else (let s = pool_init_locked cfg s0; a = pl_arena_begin s; h = pl_hdr s
            in case pool_class_of s ptr of
                Some index \<Rightarrow> pool_class_give index ptr s
              | None \<Rightarrow>
                  (case pool_block_of cfg a h ptr of
                     None \<Rightarrow> s\<lparr>g_foreign_frees := g_foreign_frees s + 1\<rparr>
                   | Some b \<Rightarrow>
                       (let s1 = s\<lparr>g_in_use := g_in_use s - pool_payload h b,
                                   g_footprint := g_footprint s - h_total (h b),
                                   g_live_blocks := g_live_blocks s - 1\<rparr>;
                            h1 = pool_merge_forward cfg a (h(b := (h b)\<lparr>h_free_flag := 1\<rparr>)) b
                        in if h_prev_total (h1 b) \<noteq> 0
                           then (case pool_block_at cfg a h1 (b - h_prev_total (h1 b)) of
                               None \<Rightarrow> s1\<lparr>pl_hdr := h1, g_bad_links := g_bad_links s + 1\<rparr>
                             | Some prev \<Rightarrow>
                                 if h_total (h1 prev) \<noteq> h_prev_total (h1 b)
                                 then s1\<lparr>pl_hdr := h1, g_bad_links := g_bad_links s + 1\<rparr>
                                 else if h_free_flag (h1 prev) \<noteq> 0
                                 then s1\<lparr>pl_hdr := pool_merge_forward cfg a h1 prev\<rparr>
                                 else s1\<lparr>pl_hdr := h1\<rparr>)
                           else s1\<lparr>pl_hdr := h1\<rparr>))))"

text \<open>The common tail of \<open>ncl_mem_realloc\<close>: a fresh block, the copy, the release.\<close>

definition realloc_move :: "mem_cfg \<Rightarrow> nat \<Rightarrow> nat \<Rightarrow> nat \<Rightarrow> pool \<Rightarrow> nat \<times> pool" where
  "realloc_move cfg ptr sz copy s =
     (case ncl_mem_alloc cfg sz s of
        (fresh, s1) \<Rightarrow>
          if fresh = 0 then (0, s1)
          else (fresh, ncl_mem_free cfg ptr (s1\<lparr>pl_data := mem_copy fresh ptr copy (pl_data s1)\<rparr>)))"

definition ncl_mem_realloc :: "mem_cfg \<Rightarrow> nat \<Rightarrow> nat \<Rightarrow> pool \<Rightarrow> nat \<times> pool" where
  "ncl_mem_realloc cfg ptr sz s0 =
     (if ptr = 0 then ncl_mem_alloc cfg sz s0
      else if sz = 0 then (0, ncl_mem_free cfg ptr s0)
      else (let s = pool_init_locked cfg s0; a = pl_arena_begin s; h = pl_hdr s
            in case pool_class_of s ptr of
                Some index \<Rightarrow>
                  (let block = mc_block (pl_class s ! index);
                       s1 = pool_note_request sz (note_largest sz s)
                   in if pool_align_up sz \<le> block then (ptr, s1)
                      else realloc_move cfg ptr sz (if block < sz then block else sz) s1)
              | None \<Rightarrow>
                  (case pool_block_of cfg a h ptr of
                     None \<Rightarrow> (0, s\<lparr>g_foreign_frees := g_foreign_frees s + 1\<rparr>)
                   | Some b \<Rightarrow>
                       if sz > pool_total cfg then (0, pool_note_refusal_locked cfg s)
                       else
                         (let s1 = pool_note_request sz (note_largest sz s);
                              need = NCL_MEM_HDR + pool_align_up sz;
                              before = h_total (h b)
                          in if need \<le> before
                             then (let h1 = pool_split cfg a h b need
                                   in (ptr, s1\<lparr>pl_hdr := h1,
                                        g_in_use := g_in_use s1 - (before - h_total (h1 b)),
                                        g_footprint := g_footprint s1 - (before - h_total (h1 b))\<rparr>))
                             else case pool_block_at cfg a h (b + before) of
                                 Some nxt \<Rightarrow>
                                   if h_free_flag (h nxt) \<noteq> 0 \<and> before + h_total (h nxt) \<ge> need
                                   then (let h1 = pool_split cfg a (pool_merge_forward cfg a h b) b need
                                         in (ptr, s1\<lparr>pl_hdr := h1,
                                              g_in_use := g_in_use s1 + (h_total (h1 b) - before),
                                              g_footprint := g_footprint s1 + (h_total (h1 b) - before)\<rparr>))
                                   else realloc_move cfg ptr sz
                                          (if sz < pool_payload h b then sz else pool_payload h b) s1
                               | None \<Rightarrow> realloc_move cfg ptr sz
                                          (if sz < pool_payload h b then sz else pool_payload h b) s1))))"

section \<open>Counters and the self check\<close>

record mem_stats =
  st_pool_bytes :: nat
  st_in_use_bytes :: nat
  st_peak_in_use_bytes :: nat
  st_footprint_bytes :: nat
  st_peak_footprint_bytes :: nat
  st_live_blocks :: nat
  st_largest_free_bytes :: nat
  st_free_bytes :: nat
  st_free_blocks :: nat
  st_meta_bytes :: nat
  st_class :: "(nat \<times> nat \<times> nat \<times> nat) list"
    \<comment> \<open>\<open>class_size\<close>, \<open>class_bytes\<close>, \<open>class_live\<close>, \<open>class_free\<close> of each class\<close>
  st_arena_bytes :: nat
  st_size_hist :: "nat list"
  st_allocations :: nat
  st_failures :: nat
  st_foreign_frees :: nat
  st_largest_request_bytes :: nat
  st_failure_free_bytes :: nat
  st_failure_largest_free_bytes :: nat
  st_bad_links :: nat

definition class_stats :: "mem_class \<Rightarrow> nat \<times> nat \<times> nat \<times> nat" where
  "class_stats c =
     (if mc_block c > 0
      then (mc_block c, mc_block c * (mc_live c + mc_free_blocks c), mc_live c, mc_free_blocks c)
      else (0, 0, 0, 0))"

definition ncl_mem_get_stats :: "mem_cfg \<Rightarrow> pool \<Rightarrow> mem_stats \<times> pool" where
  "ncl_mem_get_stats cfg s0 =
     (let s = pool_init_locked cfg s0
      in case pool_measure_locked cfg s of
          (largest, free_total, holes, arena_blocks) \<Rightarrow>
            (\<lparr>st_pool_bytes = pool_total cfg, st_in_use_bytes = g_in_use s,
              st_peak_in_use_bytes = g_peak s, st_footprint_bytes = g_footprint s,
              st_peak_footprint_bytes = g_peak_footprint s, st_live_blocks = g_live_blocks s,
              st_largest_free_bytes = largest, st_free_bytes = free_total, st_free_blocks = holes,
              st_meta_bytes = NCL_MEM_HDR * arena_blocks,
              st_class = map class_stats (pl_class s),
              st_arena_bytes = pool_total cfg
                 - (\<Sum>c\<leftarrow>pl_class s. if mc_block c > 0
                                      then mc_block c * (mc_live c + mc_free_blocks c) else 0),
              st_size_hist = g_size_hist s, st_allocations = g_allocations s,
              st_failures = g_failures s, st_foreign_frees = g_foreign_frees s,
              st_largest_request_bytes = g_largest_request s,
              st_failure_free_bytes = g_failure_free s,
              st_failure_largest_free_bytes = g_failure_largest_free s,
              st_bad_links = g_bad_links s\<rparr>, s))"

definition ncl_mem_reset_stats :: "pool \<Rightarrow> pool" where
  "ncl_mem_reset_stats s =
     s\<lparr>g_peak := g_in_use s, g_peak_footprint := g_footprint s, g_allocations := 0,
       g_failures := 0, g_failure_free := 0, g_failure_largest_free := 0, g_bad_links := 0,
       g_size_hist := map (\<lambda>_. 0) (g_size_hist s)\<rparr>"

text \<open>The accumulators of \<open>ncl_mem_check\<close>; its reports to \<open>stderr\<close> are not modelled.\<close>

record chk =
  ck_problems :: nat
  ck_covered :: nat
  ck_used :: nat
  ck_free :: nat
  ck_live :: nat
  ck_blocks :: nat

text \<open>The guarded walk of one free list: how many problems it adds (an entry outside the
  region stops it, so does running out of guard) and how many entries it has seen.\<close>

fun check_list :: "mem_class \<Rightarrow> (nat \<Rightarrow> nat) \<Rightarrow> nat \<Rightarrow> nat \<Rightarrow> nat \<Rightarrow> nat \<times> nat" where
  "check_list c link slot 0 seen = (if slot = 0 then (0, seen) else (1, seen))"
| "check_list c link slot (Suc guard) seen =
     (if slot = 0 then (0, seen)
      else if slot < mc_begin c \<or> slot \<ge> mc_end c \<or> (slot - mc_begin c) mod mc_block c \<noteq> 0
      then (1, seen)
      else check_list c link (link slot) guard (seen + 1))"

definition check_class :: "(nat \<Rightarrow> nat) \<Rightarrow> mem_class \<Rightarrow> chk \<Rightarrow> chk" where
  "check_class link c k =
     (if mc_block c = 0
      then (if mc_begin c \<noteq> 0 \<or> mc_live c \<noteq> 0 \<or> mc_free_blocks c \<noteq> 0
            then k\<lparr>ck_problems := ck_problems k + 1\<rparr> else k)
      else
        (let region_blocks = (mc_end c - mc_begin c) div mc_block c;
             p1 = (if mc_live c + mc_free_blocks c \<noteq> region_blocks then 1 else 0)
         in case check_list c link (mc_head c) (region_blocks + 1) 0 of
             (p2, seen) \<Rightarrow>
               k\<lparr>ck_problems := ck_problems k + p1 + p2
                    + (if seen \<noteq> mc_free_blocks c then 1 else 0),
                 ck_used := ck_used k + (region_blocks - seen) * mc_block c,
                 ck_free := ck_free k + seen * mc_block c,
                 ck_live := ck_live k + (region_blocks - seen),
                 ck_covered := ck_covered k + (mc_end c - mc_begin c)\<rparr>))"

function check_arena ::
  "mem_cfg \<Rightarrow> nat \<Rightarrow> (nat \<Rightarrow> mem_block) \<Rightarrow> nat \<Rightarrow> nat \<Rightarrow> bool \<Rightarrow> chk \<Rightarrow> chk" where
  "check_arena cfg a h p prev_total prev_free k =
     (case pool_block_at cfg a h p of
        None \<Rightarrow> k
      | Some b \<Rightarrow>
          (let k1 = k\<lparr>ck_problems := ck_problems k
                        + (if h_prev_total (h b) \<noteq> prev_total then 1 else 0)
                        + (if h_free_flag (h b) \<noteq> 0 \<and> prev_free then 1 else 0),
                      ck_covered := ck_covered k + h_total (h b),
                      ck_blocks := ck_blocks k + 1,
                      ck_free := ck_free k + (if h_free_flag (h b) \<noteq> 0 then pool_payload h b else 0),
                      ck_used := ck_used k + (if h_free_flag (h b) \<noteq> 0 then 0 else pool_payload h b),
                      ck_live := ck_live k + (if h_free_flag (h b) \<noteq> 0 then 0 else 1)\<rparr>
           in if ck_covered k1 > pool_total cfg
              then k1\<lparr>ck_problems := ck_problems k1 + 1\<rparr>
              else check_arena cfg a h (b + h_total (h b)) (h_total (h b))
                     (h_free_flag (h b) = 1) k1))"
  by pat_completeness auto
termination
  by (relation "measure (\<lambda>(cfg, a, h, p, rest). pool_end cfg - p)")
    (auto dest!: pool_block_at_SomeD)

declare check_arena.simps [simp del]

definition ncl_mem_check :: "mem_cfg \<Rightarrow> pool \<Rightarrow> nat \<times> pool" where
  "ncl_mem_check cfg s0 =
     (let s = pool_init_locked cfg s0; a = pl_arena_begin s;
          k0 = \<lparr>ck_problems = 0, ck_covered = 0, ck_used = 0, ck_free = 0, ck_live = 0, ck_blocks = 0\<rparr>;
          k1 = fold (check_class (pl_link s)) (pl_class s) k0;
          k2 = (if a = 0 then k1\<lparr>ck_problems := ck_problems k1 + 1\<rparr> else k1);
          k3 = check_arena cfg a (pl_hdr s) a 0 False k2
      in (ck_problems k3
            + (if ck_covered k3 \<noteq> pool_total cfg then 1 else 0)
            + (if ck_used k3 \<noteq> g_in_use s \<or> ck_live k3 \<noteq> g_live_blocks s then 1 else 0)
            + (if ck_used k3 + ck_free k3 + NCL_MEM_HDR * ck_blocks k3 \<noteq> pool_total cfg then 1 else 0),
          s))"

end
