(* ===== verification/Mem_Arena.thy ===== *)
theory Mem_Arena
  imports Mem_Pool
begin

text \<open>
  The arena as a list of blocks. \<open>tiles h p prev bs e\<close> says that the headers of
  \<open>h\<close> lay the blocks \<open>bs\<close> (size and whether free) end to end from address \<open>p\<close> to
  \<open>e\<close>, each with the right back link, the first one behind a block of \<open>prev\<close> bytes.
  The lemmas relate every pointer walk of \<open>Mem_Pool\<close> to a function on that list.
\<close>

section \<open>Layouts\<close>

type_synonym blocks = "(nat \<times> bool) list"

definition flag_of :: "bool \<Rightarrow> nat" where
  "flag_of f = (if f then 1 else 0)"

lemma flag_of_eq_0 [simp]: "flag_of f = 0 \<longleftrightarrow> \<not> f"
  by (simp add: flag_of_def)

lemma flag_of_eq_1 [simp]: "flag_of f = Suc 0 \<longleftrightarrow> f"
  by (simp add: flag_of_def)

lemma flag_of_True [simp]: "flag_of True = 1" and flag_of_False [simp]: "flag_of False = 0"
  by (simp_all add: flag_of_def)

fun tiles :: "(nat \<Rightarrow> mem_block) \<Rightarrow> nat \<Rightarrow> nat \<Rightarrow> blocks \<Rightarrow> nat \<Rightarrow> bool" where
  "tiles h p prev [] e \<longleftrightarrow> p = e"
| "tiles h p prev ((t, f) # bs) e \<longleftrightarrow>
     h p = \<lparr>h_total = t, h_prev_total = prev, h_free_flag = flag_of f\<rparr>
     \<and> NCL_MEM_HDR + NCL_MEM_ALIGN \<le> t \<and> NCL_MEM_ALIGN dvd t \<and> tiles h (p + t) t bs e"

definition sizes :: "blocks \<Rightarrow> nat" where
  "sizes bs = sum_list (map fst bs)"

lemma sizes_simps [simp]:
  "sizes [] = 0" "sizes (b # bs) = fst b + sizes bs" "sizes (bs @ cs) = sizes bs + sizes cs"
  by (simp_all add: sizes_def)

definition last_size :: "nat \<Rightarrow> blocks \<Rightarrow> nat" where
  "last_size prev bs = (if bs = [] then prev else fst (last bs))"

lemma last_size_simps [simp]:
  "last_size prev [] = prev" "last_size prev (bs @ [b]) = fst b"
  "last_size prev (b # bs) = last_size (fst b) bs"
  by (simp_all add: last_size_def)

lemma tiles_end: "tiles h p prev bs e \<Longrightarrow> e = p + sizes bs"
  by (induction h p prev bs e rule: tiles.induct) auto

lemma tiles_append:
  "tiles h p prev (xs @ ys) e \<longleftrightarrow>
     tiles h p prev xs (p + sizes xs) \<and> tiles h (p + sizes xs) (last_size prev xs) ys e"
  by (induction xs arbitrary: p prev) (auto simp: add.assoc)

text \<open>The addresses at which a layout has its headers.\<close>

fun starts :: "nat \<Rightarrow> blocks \<Rightarrow> nat list" where
  "starts p [] = []"
| "starts p ((t, f) # bs) = p # starts (p + t) bs"

lemma starts_append [simp]: "starts p (xs @ ys) = starts p xs @ starts (p + sizes xs) ys"
  by (induction p xs rule: starts.induct) (auto simp: add.assoc)

lemma starts_ge: "q \<in> set (starts p bs) \<Longrightarrow> p \<le> q"
  by (induction p bs rule: starts.induct) auto

lemma tiles_starts:
  "tiles h p prev bs e \<Longrightarrow> q \<in> set (starts p bs) \<Longrightarrow> p \<le> q \<and> q + NCL_MEM_HDR \<le> e"
proof (induction h p prev bs e rule: tiles.induct)
  case (2 h p prev t f bs e)
  then show ?case using tiles_end [of h "p + t" t bs e] by auto
qed simp

lemma tiles_cong:
  "(\<And>q. q \<in> set (starts p bs) \<Longrightarrow> h1 q = h q) \<Longrightarrow> tiles h p prev bs e \<Longrightarrow> tiles h1 p prev bs e"
  by (induction bs arbitrary: p prev) auto

lemma tiles_cong_eq:
  "(\<And>q. q \<in> set (starts p bs) \<Longrightarrow> h1 q = h q) \<Longrightarrow> tiles h1 p prev bs e = tiles h p prev bs e"
  using tiles_cong by metis

text \<open>A change below the first header does not matter, nor does one past the last.\<close>

lemma tiles_upd_below [simp]: "q < p \<Longrightarrow> tiles (h(q := b)) p prev bs e = tiles h p prev bs e"
  by (rule tiles_cong_eq) (auto dest: starts_ge)

lemma starts_less: "tiles h p prev bs e \<Longrightarrow> q \<in> set (starts p bs) \<Longrightarrow> q < e"
  by (drule tiles_starts, assumption) (simp add: NCL_MEM_HDR_def)

lemma tiles_upd_beyond: "tiles h p prev bs e \<Longrightarrow> e \<le> q \<Longrightarrow> tiles (h(q := b)) p prev bs e"
  by (rule tiles_cong [where h = h]) (auto dest: starts_less)

lemma tiles_prev:
  "tiles h p prev ((t, f) # bs) e \<Longrightarrow> tiles (h(p := (h p)\<lparr>h_prev_total := prev1\<rparr>)) p prev1 ((t, f) # bs) e"
  by (auto simp: NCL_MEM_HDR_def)

text \<open>No two neighbouring blocks are both free.\<close>

fun coalesced :: "blocks \<Rightarrow> bool" where
  "coalesced (b # c # bs) \<longleftrightarrow> \<not> (snd b \<and> snd c) \<and> coalesced (c # bs)"
| "coalesced _ = True"

lemma coalesced_Cons:
  "coalesced (b # bs) \<longleftrightarrow> (bs \<noteq> [] \<longrightarrow> \<not> (snd b \<and> snd (hd bs))) \<and> coalesced bs"
  by (cases bs) auto

lemma coalesced_append:
  "coalesced (xs @ ys) \<longleftrightarrow> coalesced xs \<and> coalesced ys
     \<and> (xs \<noteq> [] \<longrightarrow> ys \<noteq> [] \<longrightarrow> \<not> (snd (last xs) \<and> snd (hd ys)))"
proof (induction xs)
  case (Cons x xs)
  then show ?case by (cases xs) (auto simp: coalesced_Cons)
qed simp

lemma coalesced_dropWhile: "coalesced bs \<Longrightarrow> coalesced (dropWhile snd bs)"
  by (induction bs) (auto simp: coalesced_Cons)

lemma coalesced_run:
  assumes "coalesced ((t, True) # bs)" shows "takeWhile snd bs = []" and "dropWhile snd bs = bs"
  using assms by (cases bs; auto)+

lemma hd_dropWhile_not_free: "dropWhile snd bs \<noteq> [] \<Longrightarrow> \<not> snd (hd (dropWhile snd bs))"
  by (rule hd_dropWhile)

section \<open>An arena in place\<close>

text \<open>The arena region: it starts at an aligned address that is not NULL and ends with
  the pool, on an aligned address as well.\<close>

definition arena_geom :: "mem_cfg \<Rightarrow> nat \<Rightarrow> bool" where
  "arena_geom cfg a \<longleftrightarrow> 0 < a \<and> NCL_MEM_ALIGN dvd a \<and> a + NCL_MEM_HDR + NCL_MEM_ALIGN \<le> pool_end cfg"

lemma pool_end_aligned: "NCL_MEM_ALIGN dvd pool_end cfg"
  by (simp add: pool_end_def pool_begin_def pool_total_def)

lemma block_at_tiles:
  assumes "arena_geom cfg a" and "a \<le> p" and "NCL_MEM_ALIGN dvd p"
    and "tiles h p prev bs (pool_end cfg)"
  shows "pool_block_at cfg a h p = (if bs = [] then None else Some p)"
proof (cases bs)
  case Nil
  with assms show ?thesis by (simp add: pool_block_at_def NCL_MEM_HDR_def)
next
  case (Cons b bs')
  obtain t f where b: "b = (t, f)" by fastforce
  with assms Cons have "h_total (h p) = t" "NCL_MEM_HDR \<le> t" "pool_end cfg = p + t + sizes bs'"
    using tiles_end [of h "p + t" t bs' "pool_end cfg"] by auto
  with assms Cons show ?thesis
    by (auto simp: pool_block_at_def arena_geom_def)
qed

lemma block_at_end [simp]: "pool_block_at cfg a h (pool_end cfg) = None"
  by (simp add: pool_block_at_def NCL_MEM_HDR_def)

lemma arena_step_dvd:
  "NCL_MEM_ALIGN dvd p \<Longrightarrow> tiles h p prev bs e \<Longrightarrow> NCL_MEM_ALIGN dvd p + sizes bs"
  by (induction h p prev bs e rule: tiles.induct) (auto simp: add.assoc [symmetric])

lemma tiles_member:
  "tiles h p prev bs e \<Longrightarrow> (t, f) \<in> set bs \<Longrightarrow> NCL_MEM_HDR + NCL_MEM_ALIGN \<le> t \<and> NCL_MEM_ALIGN dvd t"
  by (induction bs arbitrary: p prev) auto

section \<open>Walks\<close>

lemma measure_walk_tiles:
  assumes "arena_geom cfg a" and "a \<le> p" and "NCL_MEM_ALIGN dvd p" and "tiles h p prev bs (pool_end cfg)"
  shows "measure_walk cfg a h p (best, tot, holes, blocks) =
    (fold max (map (\<lambda>b. fst b - NCL_MEM_HDR) (filter snd bs)) best,
     tot + sum_list (map (\<lambda>b. fst b - NCL_MEM_HDR) (filter snd bs)),
     holes + length (filter snd bs), blocks + length bs)"
  using assms
proof (induction bs arbitrary: p prev best tot holes blocks)
  case Nil
  then show ?case by (simp add: measure_walk.simps [of cfg a h "pool_end cfg"])
next
  case (Cons b bs)
  obtain t f where b: "b = (t, f)" by fastforce
  from Cons.prems b have hp: "h p = \<lparr>h_total = t, h_prev_total = prev, h_free_flag = flag_of f\<rparr>"
    and tl: "tiles h (p + t) t bs (pool_end cfg)" and al: "NCL_MEM_ALIGN dvd p + t" by auto
  from Cons.prems have at: "pool_block_at cfg a h p = Some p" by (simp add: block_at_tiles)
  note IH = Cons.IH [OF \<open>arena_geom cfg a\<close> _ al tl]
  show ?case
    using Cons.prems(2) b hp
    by (cases f)
      (simp_all add: measure_walk.simps [of cfg a h p] at IH pool_payload_def max_def)
qed

lemma best_fit_tiles:
  assumes "arena_geom cfg a" and "a \<le> p" and "NCL_MEM_ALIGN dvd p" and "tiles h p prev bs (pool_end cfg)"
    and "\<forall>b0. best = Some b0 \<longrightarrow> need \<le> h_total (h b0)"
  shows "(best_fit cfg a h need p best = None \<longleftrightarrow> best = None \<and> (\<forall>(t, f) \<in> set bs. f \<longrightarrow> t < need))
    \<and> (\<forall>b. best_fit cfg a h need p best = Some b \<longrightarrow>
          (best = Some b \<or> (b \<in> set (starts p bs) \<and> h_free_flag (h b) \<noteq> 0))
          \<and> need \<le> h_total (h b)
          \<and> (\<forall>(t, f) \<in> set bs. f \<longrightarrow> need \<le> t \<longrightarrow> h_total (h b) \<le> t)
          \<and> (\<forall>b0. best = Some b0 \<longrightarrow> h_total (h b) \<le> h_total (h b0)))"
  using assms
proof (induction bs arbitrary: p prev best)
  case Nil
  then show ?case by (auto simp: best_fit.simps [of cfg a h need "pool_end cfg"])
next
  case (Cons blk bs)
  obtain t f where b: "blk = (t, f)" by fastforce
  from Cons.prems b have hp: "h p = \<lparr>h_total = t, h_prev_total = prev, h_free_flag = flag_of f\<rparr>"
    and tl: "tiles h (p + t) t bs (pool_end cfg)" and al: "NCL_MEM_ALIGN dvd p + t"
    and le: "a \<le> p + t" by auto
  from Cons.prems have at: "pool_block_at cfg a h p = Some p" by (simp add: block_at_tiles)
  note step = best_fit.simps [of cfg a h need p best]
  note IH = Cons.IH [OF \<open>arena_geom cfg a\<close> le al tl]
  show ?case
  proof (cases "f \<and> need \<le> t \<and> (best = None \<or> t < h_total (h (the best)))")
    case take: True
    show ?thesis
    proof (cases "t = need")
      case True
      with take have "best_fit cfg a h need p best = Some p" by (simp add: step at hp)
      with True take Cons.prems(5) show ?thesis by (auto simp: b hp)
    next
      case False
      with take have eq: "best_fit cfg a h need p best = best_fit cfg a h need (p + t) (Some p)"
        by (simp add: step at hp)
      show ?thesis
        using IH [of "Some p"] take Cons.prems(5) unfolding eq by (auto simp: b hp)
    qed
  next
    case False
    then have eq: "best_fit cfg a h need p best = best_fit cfg a h need (p + t) best"
      by (auto simp: step at hp)
    show ?thesis
      using IH [of best] False Cons.prems(5) unfolding eq by (cases best) (auto simp: b hp)
  qed
qed

lemma starts_split:
  "b \<in> set (starts p bs) \<Longrightarrow> \<exists>xs t f ys. bs = xs @ (t, f) # ys \<and> b = p + sizes xs"
proof (induction p bs rule: starts.induct)
  case (2 p t f bs)
  show ?case
  proof (cases "b = p")
    case True
    then show ?thesis by (intro exI [of _ "[]"]) auto
  next
    case False
    with 2 obtain xs t1 f1 ys where "bs = xs @ (t1, f1) # ys" "b = p + t + sizes xs" by auto
    then show ?thesis by (intro exI [of _ "(t, f) # xs"]) auto
  qed
qed simp

section \<open>Updates\<close>

lemma fix_follower_tiles:
  assumes "arena_geom cfg a" and "a \<le> b" and "NCL_MEM_ALIGN dvd b + h_total (h b)"
    and "0 < h_total (h b)" and "tiles h (b + h_total (h b)) prev bs (pool_end cfg)"
  shows "tiles (pool_fix_follower cfg a h b) (b + h_total (h b)) (h_total (h b)) bs (pool_end cfg)
    \<and> (\<forall>q < b + h_total (h b). pool_fix_follower cfg a h b q = h q)"
proof (cases bs)
  case Nil
  with assms show ?thesis by (simp add: pool_fix_follower_def)
next
  case (Cons c cs)
  then have "pool_block_at cfg a h (b + h_total (h b)) = Some (b + h_total (h b))"
    using assms block_at_tiles [of cfg a "b + h_total (h b)" h prev bs] by simp
  moreover have "tiles (h(b + h_total (h b) := (h (b + h_total (h b)))\<lparr>h_prev_total := h_total (h b)\<rparr>))
      (b + h_total (h b)) (h_total (h b)) bs (pool_end cfg)"
    using assms(5) Cons by (cases c) (simp add: NCL_MEM_HDR_def)
  ultimately show ?thesis by (simp add: pool_fix_follower_def)
qed

lemma merge_forward_tiles:
  assumes "arena_geom cfg a" and "a \<le> b" and "NCL_MEM_ALIGN dvd b + h_total (h b)"
    and "0 < h_total (h b)" and "tiles h (b + h_total (h b)) prev bs (pool_end cfg)"
  defines "h1 \<equiv> pool_merge_forward cfg a h b" and "k \<equiv> sizes (takeWhile snd bs)"
  shows "h1 b = (h b)\<lparr>h_total := h_total (h b) + k\<rparr>
    \<and> tiles h1 (b + h_total (h b) + k) (if takeWhile snd bs = [] then prev else h_total (h b) + k)
        (dropWhile snd bs) (pool_end cfg)
    \<and> (\<forall>q < b. h1 q = h q)"
  using assms(1-5) unfolding h1_def k_def
proof (induction bs arbitrary: h prev)
  case Nil
  then show ?case by (simp add: pool_merge_forward.simps [of cfg a h b])
next
  case (Cons blk bs)
  obtain t f where blk: "blk = (t, f)" by fastforce
  let ?T = "h_total (h b)"
  have at: "pool_block_at cfg a h (b + ?T) = Some (b + ?T)"
    using Cons.prems block_at_tiles [of cfg a "b + ?T" h prev "blk # bs"] by simp
  have nx: "h (b + ?T) = \<lparr>h_total = t, h_prev_total = prev, h_free_flag = flag_of f\<rparr>"
    and tl: "tiles h (b + ?T + t) t bs (pool_end cfg)" and tal: "NCL_MEM_ALIGN dvd t" "0 < t"
    using Cons.prems(5) blk by (auto simp: NCL_MEM_HDR_def)
  show ?case
  proof (cases f)
    case False
    with at nx Cons.prems blk show ?thesis by (simp add: pool_merge_forward.simps [of cfg a h b])
  next
    case True
    let ?h0 = "h(b := (h b)\<lparr>h_total := ?T + t\<rparr>)"
    let ?h1 = "pool_fix_follower cfg a ?h0 b"
    have al: "NCL_MEM_ALIGN dvd b + (?T + t)" using Cons.prems(3) tal by (simp add: add.assoc [symmetric])
    have "tiles ?h0 (b + (?T + t)) t bs (pool_end cfg)" using tl tal by (simp add: add.assoc [symmetric])
    then have ff: "tiles ?h1 (b + (?T + t)) (?T + t) bs (pool_end cfg)" "\<forall>q < b + (?T + t). ?h1 q = ?h0 q"
      using fix_follower_tiles [of cfg a b ?h0 t bs] Cons.prems(1,2) al tal by auto
    then have hb: "?h1 b = (h b)\<lparr>h_total := ?T + t\<rparr>" using tal by simp
    have eq: "pool_merge_forward cfg a h b = pool_merge_forward cfg a ?h1 b"
      using at nx True by (simp add: pool_merge_forward.simps [of cfg a h b])
    show ?thesis
      using Cons.IH [of ?h1 "?T + t"] Cons.prems(1,2) al tal ff hb True
      unfolding eq by (cases "takeWhile snd bs = []") (auto simp: blk add.assoc)
  qed
qed

text \<open>What cutting a block of \<open>T\<close> bytes down to \<open>need\<close> leaves: its size and the blocks
  behind it.\<close>

definition split_blocks :: "nat \<Rightarrow> nat \<Rightarrow> blocks \<Rightarrow> nat \<times> blocks" where
  "split_blocks T need bs =
     (if T - need < NCL_MEM_HDR + NCL_MEM_ALIGN then (T, bs)
      else (need, (T - need + sizes (takeWhile snd bs), True) # dropWhile snd bs))"

lemma split_tiles:
  assumes geom: "arena_geom cfg a" and b: "a \<le> b" "NCL_MEM_ALIGN dvd b"
    and need: "NCL_MEM_ALIGN dvd need" "NCL_MEM_HDR + NCL_MEM_ALIGN \<le> need" "need \<le> h_total (h b)"
    and T: "NCL_MEM_ALIGN dvd h_total (h b)"
    and tl: "tiles h (b + h_total (h b)) (h_total (h b)) bs (pool_end cfg)"
    and sb: "split_blocks (h_total (h b)) need bs = (T1, bs1)"
  shows "pool_split cfg a h b need b = (h b)\<lparr>h_total := T1\<rparr>
    \<and> tiles (pool_split cfg a h b need) (b + T1) T1 bs1 (pool_end cfg)
    \<and> (\<forall>q < b. pool_split cfg a h b need q = h q)"
proof (cases "h_total (h b) - need < NCL_MEM_HDR + NCL_MEM_ALIGN")
  case True
  with sb tl show ?thesis by (simp add: split_blocks_def pool_split_def)
next
  case False
  let ?T = "h_total (h b)" and ?t = "b + need" and ?r = "h_total (h b) - need"
  let ?k = "sizes (takeWhile snd bs)"
  let ?h1 = "h(?t := \<lparr>h_total = ?r, h_prev_total = need, h_free_flag = 1\<rparr>)"
  let ?h2 = "pool_merge_forward cfg a ?h1 ?t"
  let ?h3 = "pool_fix_follower cfg a ?h2 ?t"
  have r: "0 < ?r" "NCL_MEM_HDR + NCL_MEM_ALIGN \<le> ?r" "NCL_MEM_ALIGN dvd ?r" "?t + ?r = b + ?T" "0 < need"
    using False need T by (auto simp: NCL_MEM_HDR_def NCL_MEM_ALIGN_def dvd_diff_nat)
  have al: "NCL_MEM_ALIGN dvd ?t + ?r" using b T r(4) by simp
  have bs0: "tiles ?h1 (?t + ?r) ?T bs (pool_end cfg)" using tl r by simp
  obtain pv where m: "?h2 ?t = \<lparr>h_total = ?r + ?k, h_prev_total = need, h_free_flag = 1\<rparr>"
    "tiles ?h2 (?t + (?r + ?k)) pv (dropWhile snd bs) (pool_end cfg)" "\<forall>q < ?t. ?h2 q = ?h1 q"
    using merge_forward_tiles [of cfg a ?t ?h1 ?T bs] geom b(1) al r(1) bs0 by (auto simp: add.assoc)
  have "tiles ?h1 (?t + ?r) ?T (takeWhile snd bs) (?t + ?r + ?k)"
    using bs0 tiles_append [of ?h1 "?t + ?r" ?T "takeWhile snd bs" "dropWhile snd bs" "pool_end cfg"]
    by simp
  from arena_step_dvd [OF al this] have al3: "NCL_MEM_ALIGN dvd ?t + (?r + ?k)" by (simp add: add.assoc)
  have m3: "tiles ?h3 (?t + (?r + ?k)) (?r + ?k) (dropWhile snd bs) (pool_end cfg)"
    "\<forall>q < ?t + (?r + ?k). ?h3 q = ?h2 q"
    using fix_follower_tiles [of cfg a ?t ?h2 pv "dropWhile snd bs"] geom b(1) al3 r(1) m by auto
  have eq: "pool_split cfg a h b need = ?h3(b := (?h3 b)\<lparr>h_total := need\<rparr>)"
    using False by (simp add: pool_split_def Let_def)
  have sb1: "T1 = need" "bs1 = (?r + ?k, True) # dropWhile snd bs"
    using sb False by (auto simp: split_blocks_def)
  have "?h3 ?t = \<lparr>h_total = ?r + ?k, h_prev_total = need, h_free_flag = 1\<rparr>" "?h3 b = h b"
    "\<forall>q < b. ?h3 q = h q" using m m3(2) r by auto
  moreover have "NCL_MEM_ALIGN dvd ?r + ?k" using al3 b(2) need(1) by (simp add: dvd_add_right_iff)
  ultimately show ?thesis
    using m3(1) r unfolding eq sb1 by (simp add: add.assoc)
qed

section \<open>The arena invariant and its operations on the block list\<close>

definition arena_inv :: "mem_cfg \<Rightarrow> nat \<Rightarrow> (nat \<Rightarrow> mem_block) \<Rightarrow> blocks \<Rightarrow> bool" where
  "arena_inv cfg a h bs \<longleftrightarrow> arena_geom cfg a \<and> tiles h a 0 bs (pool_end cfg) \<and> coalesced bs"

lemma arena_inv_nonempty: "arena_inv cfg a h bs \<Longrightarrow> bs \<noteq> []"
  by (auto simp: arena_inv_def arena_geom_def NCL_MEM_HDR_def)

text \<open>The payload address and size of every block handed out.\<close>

fun live_of :: "nat \<Rightarrow> blocks \<Rightarrow> (nat \<times> nat) list" where
  "live_of p [] = []"
| "live_of p ((t, f) # bs) =
     (if f then [] else [(p + NCL_MEM_HDR, t - NCL_MEM_HDR)]) @ live_of (p + t) bs"

lemma live_of_append [simp]: "live_of p (xs @ ys) = live_of p xs @ live_of (p + sizes xs) ys"
  by (induction p xs rule: live_of.induct) (auto simp: add.assoc)

lemma live_of_skip_free: "live_of (p + sizes (takeWhile snd bs)) (dropWhile snd bs) = live_of p bs"
proof (induction bs arbitrary: p)
  case (Cons b bs)
  then show ?case by (cases b) (auto simp: add.assoc [symmetric])
qed simp

lemma live_of_range: "(q, n) \<in> set (live_of p bs) \<Longrightarrow> tiles h p prev bs e \<Longrightarrow>
    p + NCL_MEM_HDR \<le> q \<and> q + n \<le> e"
proof (induction bs arbitrary: p prev)
  case (Cons b bs)
  obtain t f where b: "b = (t, f)" by fastforce
  then have "e = p + t + sizes bs" using Cons.prems tiles_end by fastforce
  with Cons.prems b Cons.IH [of "p + t" t] show ?case by (auto split: if_splits)
qed simp

lemma split_live:
  "split_blocks T need bs = (T1, bs1) \<Longrightarrow> need \<le> T \<Longrightarrow> live_of (p + T1) bs1 = live_of (p + T) bs"
  using live_of_skip_free [of "p + T" bs] by (auto simp: split_blocks_def add.assoc split: if_splits)

lemma split_coalesced: "split_blocks T need bs = (T1, bs1) \<Longrightarrow> coalesced bs \<Longrightarrow> coalesced bs1"
  by (auto simp: split_blocks_def coalesced_Cons coalesced_dropWhile hd_dropWhile split: if_splits)

lemma split_size:
  "split_blocks T need bs = (T1, bs1) \<Longrightarrow> need \<le> T \<Longrightarrow>
     need \<le> T1 \<and> T1 \<le> T \<and> T1 < need + NCL_MEM_HDR + NCL_MEM_ALIGN \<and> T1 + sizes bs1 = T + sizes bs"
proof -
  have "sizes (takeWhile snd bs) + sizes (dropWhile snd bs) = sizes bs"
    by (metis sizes_simps(3) takeWhile_dropWhile_id)
  then show "split_blocks T need bs = (T1, bs1) \<Longrightarrow> need \<le> T \<Longrightarrow> ?thesis"
    by (auto simp: split_blocks_def NCL_MEM_HDR_def split: if_splits)
qed

lemma tiles_replace:
  assumes "tiles h p prev (xs @ (t, f) # ys) e" and "\<forall>q < p + sizes xs. h1 q = h q"
    and "h1 (p + sizes xs) = \<lparr>h_total = T1, h_prev_total = last_size prev xs, h_free_flag = flag_of f1\<rparr>"
    and "NCL_MEM_HDR + NCL_MEM_ALIGN \<le> T1" and "NCL_MEM_ALIGN dvd T1" and "tiles h1 (p + sizes xs + T1) T1 ys1 e"
  shows "tiles h1 p prev (xs @ (T1, f1) # ys1) e"
proof -
  have "tiles h1 p prev xs (p + sizes xs)"
    by (rule tiles_cong [where h = h])
      (use assms(1,2) starts_less in \<open>auto simp: tiles_append\<close>)
  with assms show ?thesis by (simp add: tiles_append)
qed

lemma arena_at:
  assumes "arena_inv cfg a h (xs @ (t, f) # ys)" and "b = a + sizes xs"
  shows "h b = \<lparr>h_total = t, h_prev_total = last_size 0 xs, h_free_flag = flag_of f\<rparr>"
    "NCL_MEM_ALIGN dvd b" "a \<le> b" "NCL_MEM_HDR + NCL_MEM_ALIGN \<le> t" "NCL_MEM_ALIGN dvd t"
    "tiles h (b + t) t ys (pool_end cfg)" "pool_block_at cfg a h b = Some b" "pool_end cfg = b + t + sizes ys"
proof -
  from assms have tl: "tiles h a 0 xs b" "tiles h b (last_size 0 xs) ((t, f) # ys) (pool_end cfg)"
    and geom: "arena_geom cfg a" by (auto simp: arena_inv_def tiles_append)
  then show "h b = \<lparr>h_total = t, h_prev_total = last_size 0 xs, h_free_flag = flag_of f\<rparr>"
    "NCL_MEM_HDR + NCL_MEM_ALIGN \<le> t" "NCL_MEM_ALIGN dvd t" "tiles h (b + t) t ys (pool_end cfg)" by auto
  show al: "NCL_MEM_ALIGN dvd b"
    using arena_step_dvd [OF _ tl(1)] geom assms(2) by (simp add: arena_geom_def)
  show le: "a \<le> b" using assms(2) by simp
  show "pool_block_at cfg a h b = Some b" using block_at_tiles [OF geom le al tl(2)] by simp
  show "pool_end cfg = b + t + sizes ys" using tl(2) by (auto dest: tiles_end)
qed

text \<open>Setting the flag of the block being worked on.\<close>

lemma arena_split_hdr:
  assumes inv: "arena_inv cfg a h (xs @ (t, f) # ys)" and b: "b = a + sizes xs"
    and need: "NCL_MEM_ALIGN dvd need" "NCL_MEM_HDR + NCL_MEM_ALIGN \<le> need" "need \<le> t"
    and sb: "split_blocks t need ys = (T1, ys1)"
  defines "h1 \<equiv> pool_split cfg a h b need"
  shows "arena_inv cfg a (h1(b := (h1 b)\<lparr>h_free_flag := 0\<rparr>)) (xs @ (T1, False) # ys1)"
    and "h_total (h1 b) = T1" and "h_free_flag (h1 b) = flag_of f"
proof -
  note at = arena_at [OF inv b]
  have geom: "arena_geom cfg a" using inv by (simp add: arena_inv_def)
  have s: "h1 b = (h b)\<lparr>h_total := T1\<rparr>" "tiles h1 (b + T1) T1 ys1 (pool_end cfg)"
    "\<forall>q < b. h1 q = h q"
    using split_tiles [of cfg a b need h ys T1 ys1] geom at need sb by (auto simp: h1_def)
  then show "h_total (h1 b) = T1" "h_free_flag (h1 b) = flag_of f" by (simp_all add: at(1))
  have T1: "need \<le> T1" using split_size [OF sb need(3)] by simp
  have "NCL_MEM_ALIGN dvd T1" using sb need(1) at(5) by (auto simp: split_blocks_def split: if_splits)
  moreover have "coalesced (xs @ (T1, False) # ys1)"
    using inv split_coalesced [OF sb] by (auto simp: arena_inv_def coalesced_append coalesced_Cons)
  ultimately show "arena_inv cfg a (h1(b := (h1 b)\<lparr>h_free_flag := 0\<rparr>)) (xs @ (T1, False) # ys1)"
    using inv tiles_replace [of h a 0 xs t f ys "pool_end cfg" "h1(b := (h1 b)\<lparr>h_free_flag := 0\<rparr>)" T1 False ys1]
      s at need T1 b by (auto simp: arena_inv_def NCL_MEM_HDR_def)
qed

text \<open>Shrinking in place leaves the flag as it is.\<close>

lemma arena_shrink_hdr:
  assumes inv: "arena_inv cfg a h (xs @ (t, False) # ys)" and b: "b = a + sizes xs"
    and need: "NCL_MEM_ALIGN dvd need" "NCL_MEM_HDR + NCL_MEM_ALIGN \<le> need" "need \<le> t"
    and sb: "split_blocks t need ys = (T1, ys1)"
  shows "arena_inv cfg a (pool_split cfg a h b need) (xs @ (T1, False) # ys1)"
proof -
  let ?h1 = "pool_split cfg a h b need"
  have "(?h1 b)\<lparr>h_free_flag := 0\<rparr> = ?h1 b"
    using arena_split_hdr(3) [OF assms] by (cases "?h1 b") simp
  then show ?thesis using arena_split_hdr(1) [OF assms] by (simp add: fun_upd_idem)
qed

text \<open>Absorbing the free run behind an allocated block.\<close>

lemma arena_grow_hdr:
  assumes inv: "arena_inv cfg a h (xs @ (t, False) # ys)" and b: "b = a + sizes xs"
  defines "k \<equiv> sizes (takeWhile snd ys)"
  shows "arena_inv cfg a (pool_merge_forward cfg a h b) (xs @ (t + k, False) # dropWhile snd ys)"
proof -
  note at = arena_at [OF inv b]
  let ?h1 = "pool_merge_forward cfg a h b"
  have geom: "arena_geom cfg a" using inv by (simp add: arena_inv_def)
  have m: "?h1 b = (h b)\<lparr>h_total := t + k\<rparr>" "tiles ?h1 (b + (t + k)) (t + k) (dropWhile snd ys) (pool_end cfg)"
    "\<forall>q < b. ?h1 q = h q"
    using merge_forward_tiles [of cfg a b h t ys] geom at
    by (auto simp: k_def add.assoc NCL_MEM_HDR_def split: if_splits)
  have "tiles h (b + t) t (takeWhile snd ys) (b + t + k)"
    using at(6) tiles_append [of h "b + t" t "takeWhile snd ys" "dropWhile snd ys" "pool_end cfg"]
    by (simp add: k_def)
  then have "NCL_MEM_ALIGN dvd b + t + k" using arena_step_dvd [of "b + t"] at by (simp add: k_def)
  then have "NCL_MEM_ALIGN dvd t + k" using at(2) by (simp add: add.assoc dvd_add_right_iff)
  moreover have "coalesced (xs @ (t + k, False) # dropWhile snd ys)"
    using inv by (auto simp: arena_inv_def coalesced_append coalesced_Cons coalesced_dropWhile)
  ultimately show ?thesis
    using inv tiles_replace [of h a 0 xs t False ys "pool_end cfg" ?h1 "t + k" False "dropWhile snd ys"] m at b
    by (auto simp: arena_inv_def)
qed

text \<open>Releasing: the free run behind is absorbed, then the block goes to a free
  predecessor.\<close>

definition free_blocks :: "blocks \<Rightarrow> nat \<Rightarrow> blocks \<Rightarrow> blocks" where
  "free_blocks xs t ys =
     (let m = t + sizes (takeWhile snd ys); r = dropWhile snd ys
      in if xs \<noteq> [] \<and> snd (last xs) then butlast xs @ (fst (last xs) + m, True) # r
         else xs @ (m, True) # r)"

lemma free_blocks_live: "live_of p (free_blocks xs t ys) = live_of p xs @ live_of (p + sizes xs + t) ys"
proof (cases "xs \<noteq> [] \<and> snd (last xs)")
  case True
  then obtain zs t0 where "xs = zs @ [(t0, True)]"
    by (metis append_butlast_last_id prod.collapse)
  then show ?thesis
    using live_of_skip_free [of "p + sizes xs + t" ys] by (simp add: free_blocks_def add.assoc)
next
  case False
  then show ?thesis
    using live_of_skip_free [of "p + sizes xs + t" ys] by (auto simp: free_blocks_def Let_def add.assoc)
qed

lemma free_blocks_sizes: "sizes (free_blocks xs t ys) = sizes xs + t + sizes ys"
proof -
  have k: "sizes (takeWhile snd ys) + sizes (dropWhile snd ys) = sizes ys"
    by (metis sizes_simps(3) takeWhile_dropWhile_id)
  show ?thesis
  proof (cases "xs \<noteq> [] \<and> snd (last xs)")
    case True
    then obtain zs t0 where "xs = zs @ [(t0, True)]" by (metis append_butlast_last_id prod.collapse)
    with k show ?thesis by (simp add: free_blocks_def)
  next
    case False
    with k show ?thesis by (auto simp: free_blocks_def Let_def)
  qed
qed

lemma free_blocks_coalesced: "coalesced (xs @ (t, f) # ys) \<Longrightarrow> coalesced (free_blocks xs t ys)"
proof (cases "xs \<noteq> [] \<and> snd (last xs)")
  case True
  then obtain zs t0 where "xs = zs @ [(t0, True)]" by (metis append_butlast_last_id prod.collapse)
  then show "coalesced (xs @ (t, f) # ys) \<Longrightarrow> ?thesis"
    by (auto simp: free_blocks_def Let_def coalesced_append coalesced_Cons coalesced_dropWhile hd_dropWhile)
next
  case False
  then show "coalesced (xs @ (t, f) # ys) \<Longrightarrow> ?thesis"
    by (auto simp: free_blocks_def Let_def coalesced_append coalesced_Cons coalesced_dropWhile hd_dropWhile)
qed

text \<open>The header view that \<open>ncl_mem_free\<close> leaves for the arena block \<open>b\<close>, and what it
  counts as a bad link.\<close>

definition free_hdr :: "mem_cfg \<Rightarrow> nat \<Rightarrow> (nat \<Rightarrow> mem_block) \<Rightarrow> nat \<Rightarrow> (nat \<Rightarrow> mem_block) \<times> bool" where
  "free_hdr cfg a h b =
     (let h1 = pool_merge_forward cfg a (h(b := (h b)\<lparr>h_free_flag := 1\<rparr>)) b
      in if h_prev_total (h1 b) \<noteq> 0
         then (case pool_block_at cfg a h1 (b - h_prev_total (h1 b)) of
             None \<Rightarrow> (h1, True)
           | Some prev \<Rightarrow>
               if h_total (h1 prev) \<noteq> h_prev_total (h1 b) then (h1, True)
               else if h_free_flag (h1 prev) \<noteq> 0 then (pool_merge_forward cfg a h1 prev, False)
               else (h1, False))
         else (h1, False))"

lemma arena_free_hdr:
  assumes inv: "arena_inv cfg a h (xs @ (t, False) # ys)" and b: "b = a + sizes xs"
  shows "arena_inv cfg a (fst (free_hdr cfg a h b)) (free_blocks xs t ys)"
    and "\<not> snd (free_hdr cfg a h b)"
proof -
  note at = arena_at [OF inv b]
  let ?h0 = "h(b := (h b)\<lparr>h_free_flag := 1\<rparr>)"
  let ?h1 = "pool_merge_forward cfg a ?h0 b"
  let ?k = "sizes (takeWhile snd ys)" and ?r = "dropWhile snd ys"
  have geom: "arena_geom cfg a" using inv by (simp add: arena_inv_def)
  have t0: "0 < t" using at(4) by (simp add: NCL_MEM_HDR_def)
  have "NCL_MEM_ALIGN dvd b + h_total (?h0 b)" "0 < h_total (?h0 b)"
    "tiles ?h0 (b + h_total (?h0 b)) t ys (pool_end cfg)" using at t0 by auto
  from merge_forward_tiles [OF geom at(3) this] at(1)
  have m: "?h1 b = \<lparr>h_total = t + ?k, h_prev_total = last_size 0 xs, h_free_flag = 1\<rparr>"
    "tiles ?h1 (b + (t + ?k)) (t + ?k) ?r (pool_end cfg)" "\<forall>q < b. ?h1 q = h q"
    by (auto simp: add.assoc split: if_splits)
  have "tiles h (b + t) t (takeWhile snd ys) (b + t + ?k)"
    using at(6) tiles_append [of h "b + t" t "takeWhile snd ys" ?r "pool_end cfg"] by simp
  then have "NCL_MEM_ALIGN dvd b + t + ?k" using arena_step_dvd [of "b + t"] at by simp
  then have al: "NCL_MEM_ALIGN dvd t + ?k" using at(2) by (simp add: add.assoc dvd_add_right_iff)
  have tl1: "tiles ?h1 a 0 (xs @ (t + ?k, True) # ?r) (pool_end cfg)"
    using inv tiles_replace [of h a 0 xs t False ys "pool_end cfg" ?h1 "t + ?k" True ?r] m at al b
    by (auto simp: arena_inv_def)
  have co: "coalesced (free_blocks xs t ys)"
    using inv by (auto simp: arena_inv_def intro: free_blocks_coalesced)
  have "arena_inv cfg a (fst (free_hdr cfg a h b)) (free_blocks xs t ys) \<and> \<not> snd (free_hdr cfg a h b)"
  proof (cases xs rule: rev_cases)
    case Nil
    then show ?thesis
      using tl1 geom co m(1) by (simp add: free_hdr_def arena_inv_def free_blocks_def)
  next
    case (snoc zs pb)
    obtain tp fp where pb: "pb = (tp, fp)" by fastforce
    let ?p = "a + sizes zs"
    from tl1 snoc pb have tlz: "tiles ?h1 a 0 zs ?p"
      and tlp: "tiles ?h1 ?p (last_size 0 zs) ((tp, fp) # (t + ?k, True) # ?r) (pool_end cfg)"
      by (auto simp: tiles_append)
    then have hp: "?h1 ?p = \<lparr>h_total = tp, h_prev_total = last_size 0 zs, h_free_flag = flag_of fp\<rparr>"
      and tp: "NCL_MEM_HDR + NCL_MEM_ALIGN \<le> tp" "NCL_MEM_ALIGN dvd tp" by auto
    have tp0: "0 < tp" using tp by (simp add: NCL_MEM_HDR_def)
    have "NCL_MEM_ALIGN dvd a" using geom by (simp add: arena_geom_def)
    from arena_step_dvd [OF this tlz] have pal: "NCL_MEM_ALIGN dvd ?p" .
    have pb_at: "pool_block_at cfg a ?h1 ?p = Some ?p"
      using block_at_tiles [OF geom _ pal tlp] by simp
    have prev: "h_prev_total (?h1 b) = tp" "b - tp = ?p" using m(1) b snoc pb by auto
    show ?thesis
    proof (cases fp)
      case False
      then show ?thesis
        using tl1 geom co snoc pb hp tp0 prev pb_at
        by (simp add: free_hdr_def arena_inv_def free_blocks_def)
    next
      case True
      let ?h2 = "pool_merge_forward cfg a ?h1 ?p"
      have nr: "takeWhile snd ?r = []" "dropWhile snd ?r = ?r" by (induction ys) auto
      have "NCL_MEM_ALIGN dvd ?p + h_total (?h1 ?p)" "0 < h_total (?h1 ?p)"
        "tiles ?h1 (?p + h_total (?h1 ?p)) tp ((t + ?k, True) # ?r) (pool_end cfg)"
        using hp tp tp0 pal tlp by auto
      from merge_forward_tiles [OF geom _ this] hp nr
      have m2: "?h2 ?p = \<lparr>h_total = tp + (t + ?k), h_prev_total = last_size 0 zs, h_free_flag = 1\<rparr>"
        "tiles ?h2 (?p + (tp + (t + ?k))) (tp + (t + ?k)) ?r (pool_end cfg)" "\<forall>q < ?p. ?h2 q = ?h1 q"
        using True by (auto simp: add.assoc)
      have "tiles ?h2 a 0 (zs @ (tp + (t + ?k), True) # ?r) (pool_end cfg)"
        using tl1 tiles_replace [of ?h1 a 0 zs tp fp "(t + ?k, True) # ?r" "pool_end cfg" ?h2
            "tp + (t + ?k)" True ?r] m2 snoc pb tp al by simp
      then show ?thesis
        using geom co snoc pb hp tp0 prev pb_at True
        by (simp add: free_hdr_def arena_inv_def free_blocks_def)
    qed
  qed
  then show "arena_inv cfg a (fst (free_hdr cfg a h b)) (free_blocks xs t ys)"
    "\<not> snd (free_hdr cfg a h b)" by auto
qed

end
