(* ===== verification/Mem_Classes.thy ===== *)
theory Mem_Classes
  imports Mem_Arena
begin

text \<open>
  The size classes: regions laid end to end in front of the arena, each with a free list
  threaded through its free blocks.
\<close>

section \<open>Free lists\<close>

fun chain :: "(nat \<Rightarrow> nat) \<Rightarrow> nat \<Rightarrow> nat list \<Rightarrow> bool" where
  "chain link p [] \<longleftrightarrow> p = 0"
| "chain link p (x # xs) \<longleftrightarrow> p = x \<and> x \<noteq> 0 \<and> chain link (link x) xs"

lemma chain_cong: "(\<And>x. x \<in> set xs \<Longrightarrow> l x = link x) \<Longrightarrow> chain l p xs = chain link p xs"
  by (induction xs arbitrary: p) auto

lemma chain_head: "chain link p xs \<Longrightarrow> p = (if xs = [] then 0 else hd xs)"
  by (cases xs) auto

text \<open>Following the links of a list of known length.\<close>

fun follow :: "(nat \<Rightarrow> nat) \<Rightarrow> nat \<Rightarrow> nat \<Rightarrow> nat list" where
  "follow link p 0 = []"
| "follow link p (Suc n) = p # follow link (link p) n"

lemma follow_chain: "chain link p xs \<Longrightarrow> follow link p (length xs) = xs"
  by (induction xs arbitrary: p) auto

section \<open>One class\<close>

definition slot_of :: "mem_class \<Rightarrow> nat \<Rightarrow> bool" where
  "slot_of c p \<longleftrightarrow>
     mc_block c \<noteq> 0 \<and> mc_begin c \<le> p \<and> p < mc_end c \<and> (p - mc_begin c) mod mc_block c = 0"

definition class_count :: "mem_class \<Rightarrow> nat" where
  "class_count c = (mc_end c - mc_begin c) div mc_block c"

definition class_slots :: "mem_class \<Rightarrow> nat list" where
  "class_slots c = map (\<lambda>j. mc_begin c + j * mc_block c) [0 ..< class_count c]"

lemma length_class_slots [simp]: "length (class_slots c) = class_count c"
  by (simp add: class_slots_def)

lemma distinct_class_slots: "mc_block c \<noteq> 0 \<Longrightarrow> distinct (class_slots c)"
  by (simp add: class_slots_def distinct_map inj_on_def)

lemma set_class_slots:
  assumes "mc_block c \<noteq> 0" and "mc_begin c \<le> mc_end c" and "mc_block c dvd mc_end c - mc_begin c"
  shows "p \<in> set (class_slots c) \<longleftrightarrow> slot_of c p"
proof
  assume "p \<in> set (class_slots c)"
  then obtain j where j: "j < class_count c" "p = mc_begin c + j * mc_block c"
    by (auto simp: class_slots_def)
  have "j * mc_block c < class_count c * mc_block c" using j(1) assms(1) by simp
  also have "class_count c * mc_block c = mc_end c - mc_begin c" using assms(3) by (simp add: class_count_def)
  finally show "slot_of c p" using j(2) assms(1) by (simp add: slot_of_def)
next
  assume s: "slot_of c p"
  let ?j = "(p - mc_begin c) div mc_block c"
  have "p = mc_begin c + ?j * mc_block c" using s by (auto simp: slot_of_def)
  moreover have "?j < class_count c"
    using s assms by (auto simp: slot_of_def class_count_def less_mult_imp_div_less div_less_iff_less_mult)
  ultimately show "p \<in> set (class_slots c)" by (auto simp: class_slots_def)
qed

text \<open>The bookkeeping of one class against its free list \<open>fl\<close>.\<close>

definition class_ok :: "(nat \<Rightarrow> nat) \<Rightarrow> mem_class \<Rightarrow> nat list \<Rightarrow> bool" where
  "class_ok link c fl \<longleftrightarrow>
     (if mc_block c = 0 then c = unused_class \<and> fl = []
      else chain link (mc_head c) fl \<and> distinct fl \<and> (\<forall>p \<in> set fl. slot_of c p)
        \<and> length fl = mc_free_blocks c \<and> mc_live c + mc_free_blocks c = class_count c)"

definition class_live :: "mem_class \<Rightarrow> nat list \<Rightarrow> (nat \<times> nat) set" where
  "class_live c fl = {(p, mc_block c) | p. slot_of c p \<and> p \<notin> set fl}"

section \<open>The row of regions\<close>

fun carved :: "nat \<Rightarrow> mem_class list \<Rightarrow> nat \<Rightarrow> bool" where
  "carved cur [] fin \<longleftrightarrow> cur = fin"
| "carved cur (c # cs) fin \<longleftrightarrow>
     (if mc_block c = 0 then carved cur cs fin
      else mc_begin c = cur \<and> cur \<le> mc_end c \<and> mc_block c dvd mc_end c - cur
        \<and> NCL_MEM_ALIGN dvd mc_block c \<and> carved (mc_end c) cs fin)"

lemma carved_le: "carved cur cs fin \<Longrightarrow> cur \<le> fin"
  by (induction cs arbitrary: cur) (auto split: if_splits dest: order_trans)

lemma carved_nth:
  "carved cur cs fin \<Longrightarrow> i < length cs \<Longrightarrow> mc_block (cs ! i) \<noteq> 0 \<Longrightarrow>
     cur \<le> mc_begin (cs ! i) \<and> mc_begin (cs ! i) \<le> mc_end (cs ! i) \<and> mc_end (cs ! i) \<le> fin
     \<and> mc_block (cs ! i) dvd mc_end (cs ! i) - mc_begin (cs ! i) \<and> NCL_MEM_ALIGN dvd mc_block (cs ! i)"
proof (induction cs arbitrary: cur i)
  case (Cons c cs)
  show ?case
  proof (cases i)
    case 0
    with Cons.prems show ?thesis by (auto dest: carved_le)
  next
    case (Suc j)
    show ?thesis
    proof (cases "mc_block c = 0")
      case True
      with Cons.prems Cons.IH [of cur j] Suc show ?thesis by simp
    next
      case False
      with Cons.prems Cons.IH [of "mc_end c" j] Suc show ?thesis by auto
    qed
  qed
qed simp

lemma carved_order:
  "carved cur cs fin \<Longrightarrow> i < j \<Longrightarrow> j < length cs \<Longrightarrow> mc_block (cs ! i) \<noteq> 0 \<Longrightarrow> mc_block (cs ! j) \<noteq> 0
     \<Longrightarrow> mc_end (cs ! i) \<le> mc_begin (cs ! j)"
proof (induction cs arbitrary: cur i j)
  case (Cons c cs)
  show ?case
  proof (cases i)
    case 0
    with Cons.prems carved_nth [of "mc_end c" cs fin "j - 1"] show ?thesis by (cases j) auto
  next
    case (Suc k)
    with Cons.prems obtain m where m: "j = Suc m" by (cases j) auto
    show ?thesis
    proof (cases "mc_block c = 0")
      case True
      with Cons.prems Suc m show ?thesis by (simp, intro Cons.IH [of cur k m]) auto
    next
      case False
      with Cons.prems Suc m show ?thesis by (simp, intro Cons.IH [of "mc_end c" k m]) auto
    qed
  qed
qed simp

lemma carved_aligned:
  "carved cur cs fin \<Longrightarrow> NCL_MEM_ALIGN dvd cur \<Longrightarrow> i < length cs \<Longrightarrow> mc_block (cs ! i) \<noteq> 0 \<Longrightarrow>
     NCL_MEM_ALIGN dvd mc_begin (cs ! i)"
proof (induction cs arbitrary: cur i)
  case (Cons c cs)
  show ?case
  proof (cases "mc_block c = 0")
    case True
    with Cons.prems Cons.IH [of cur "i - 1"] show ?thesis by (cases i) auto
  next
    case False
    then have "NCL_MEM_ALIGN dvd mc_block c" "mc_block c dvd mc_end c - cur" "cur \<le> mc_end c"
      using Cons.prems by auto
    then have "NCL_MEM_ALIGN dvd mc_end c"
      using Cons.prems(2) by (metis dvd_trans dvd_diffD)
    with False Cons.prems Cons.IH [of "mc_end c" "i - 1"] show ?thesis by (cases i) auto
  qed
qed simp

lemma carved_slot_unique:
  assumes "carved cur cs fin" and "i < length cs" and "j < length cs"
    and "slot_of (cs ! i) p" and "slot_of (cs ! j) p"
  shows "i = j"
proof (rule ccontr)
  assume "i \<noteq> j"
  with assms carved_order [of cur cs fin i j] carved_order [of cur cs fin j i]
  show False by (cases "i < j") (auto simp: slot_of_def)
qed

lemma carved_sum:
  "carved cur cs fin \<Longrightarrow>
     (\<Sum>c\<leftarrow>cs. if mc_block c = 0 then 0 else mc_end c - mc_begin c) = fin - cur"
proof (induction cs arbitrary: cur)
  case (Cons c cs)
  show ?case
  proof (cases "mc_block c = 0")
    case False
    with Cons.prems carved_le [of "mc_end c" cs fin] Cons.IH [of "mc_end c"] show ?thesis by auto
  qed (use Cons in auto)
qed simp

text \<open>The shape of a row does not depend on the bookkeeping fields.\<close>

lemma carved_update:
  assumes "carved cur cs fin" and "i < length cs" and "mc_begin c = mc_begin (cs ! i)"
    and "mc_end c = mc_end (cs ! i)" and "mc_block c = mc_block (cs ! i)"
  shows "carved cur (cs[i := c]) fin"
  using assms
proof (induction cs arbitrary: cur i)
  case (Cons d cs)
  then show ?case by (cases i) (auto split: if_splits)
qed simp

lemma region_search_Some:
  "region_search p k cs = Some i \<Longrightarrow> k \<le> i \<and> i < k + length cs \<and> slot_of (cs ! (i - k)) p"
proof (induction p k cs rule: region_search.induct)
  case (2 p k c cs)
  show ?case
  proof (cases "slot_of c p")
    case True
    with 2 show ?thesis by (simp add: slot_of_def)
  next
    case False
    then have "region_search p (Suc k) cs = Some i" using 2 by (auto simp: slot_of_def split: if_splits)
    with 2 False have "Suc k \<le> i \<and> i < Suc k + length cs \<and> slot_of (cs ! (i - Suc k)) p"
      by (auto simp: slot_of_def split: if_splits)
    moreover from this have "i - k = Suc (i - Suc k)" by (metis Suc_diff_Suc Suc_le_eq)
    ultimately show ?thesis by simp
  qed
qed simp

lemma region_search_None:
  "region_search p k cs = None \<Longrightarrow> j < length cs \<Longrightarrow> \<not> slot_of (cs ! j) p"
proof (induction p k cs arbitrary: j rule: region_search.induct)
  case (2 p k c cs)
  then have "\<not> slot_of c p" "region_search p (Suc k) cs = None" by (auto simp: slot_of_def split: if_splits)
  with 2 show ?case by (cases j) (auto simp: slot_of_def)
qed simp

lemma region_search_unique:
  assumes "carved cur cs fin" and "i < length cs" and "slot_of (cs ! i) p"
  shows "region_search p 0 cs = Some i"
proof (cases "region_search p 0 cs")
  case None
  with assms region_search_None [of p 0 cs i] show ?thesis by simp
next
  case (Some j)
  with region_search_Some [of p 0 cs j] carved_slot_unique [OF assms(1,2) _ assms(3), of j]
  show ?thesis by simp
qed

lemma class_search_Some:
  "class_search want k cs = Some i \<Longrightarrow>
     k \<le> i \<and> i < k + length cs \<and> mc_block (cs ! (i - k)) \<noteq> 0 \<and> want \<le> mc_block (cs ! (i - k))"
proof (induction want k cs rule: class_search.induct)
  case (2 want k c cs)
  show ?case
  proof (cases "mc_block c \<noteq> 0 \<and> want \<le> mc_block c")
    case True
    with 2 show ?thesis by auto
  next
    case False
    then have "class_search want (Suc k) cs = Some i" using 2 by (auto split: if_splits)
    with 2 False have "Suc k \<le> i \<and> i < Suc k + length cs \<and> mc_block (cs ! (i - Suc k)) \<noteq> 0
        \<and> want \<le> mc_block (cs ! (i - Suc k))"
      by (auto split: if_splits)
    moreover from this have "i - k = Suc (i - Suc k)" by (metis Suc_diff_Suc Suc_le_eq)
    ultimately show ?thesis by simp
  qed
qed simp

section \<open>All classes\<close>

definition classes_ok :: "(nat \<Rightarrow> nat) \<Rightarrow> mem_class list \<Rightarrow> nat list list \<Rightarrow> bool" where
  "classes_ok link cs fls \<longleftrightarrow> list_all2 (class_ok link) cs fls"

lemma classes_okD: "classes_ok link cs fls \<Longrightarrow> i < length cs \<Longrightarrow> class_ok link (cs ! i) (fls ! i)"
  by (simp add: classes_ok_def list_all2_conv_all_nth)

lemma classes_ok_length: "classes_ok link cs fls \<Longrightarrow> length fls = length cs"
  by (simp add: classes_ok_def list_all2_lengthD)

lemma class_ok_cong:
  assumes "\<And>x. slot_of c x \<Longrightarrow> l x = link x" and "class_ok link c fl"
  shows "class_ok l c fl"
proof (cases "mc_block c = 0")
  case False
  with assms chain_cong [of fl l link "mc_head c"] show ?thesis by (auto simp: class_ok_def)
qed (use assms in \<open>auto simp: class_ok_def\<close>)

text \<open>One class and its region may change, the others stay in order.\<close>

lemma classes_ok_update:
  assumes "carved cur cs fin" and "classes_ok link cs fls" and "i < length cs"
    and "\<And>x. \<not> slot_of (cs ! i) x \<Longrightarrow> l x = link x" and "class_ok l c fl"
  shows "classes_ok l (cs[i := c]) (fls[i := fl])"
  unfolding classes_ok_def list_all2_conv_all_nth
proof (intro conjI allI impI)
  show "length (cs[i := c]) = length (fls[i := fl])"
    using assms(2) by (simp add: classes_ok_length)
  fix j assume j: "j < length (cs[i := c])"
  show "class_ok l (cs[i := c] ! j) (fls[i := fl] ! j)"
  proof (cases "j = i")
    case True
    with assms(3,5) classes_ok_length [OF assms(2)] show ?thesis by simp
  next
    case False
    have "class_ok l (cs ! j) (fls ! j)"
    proof (rule class_ok_cong)
      fix x assume "slot_of (cs ! j) x"
      with carved_slot_unique [OF assms(1), of i j x] assms(3) j False
      have "\<not> slot_of (cs ! i) x" by auto
      then show "l x = link x" by (rule assms(4))
    next
      show "class_ok link (cs ! j) (fls ! j)" using assms(2) j by (simp add: classes_okD)
    qed
    with False show ?thesis by simp
  qed
qed

definition classes_live :: "mem_class list \<Rightarrow> nat list list \<Rightarrow> (nat \<times> nat) set" where
  "classes_live cs fls = (\<Union>i < length cs. class_live (cs ! i) (fls ! i))"

lemma classes_live_iff:
  "(p, n) \<in> classes_live cs fls \<longleftrightarrow>
     (\<exists>i < length cs. slot_of (cs ! i) p \<and> p \<notin> set (fls ! i) \<and> n = mc_block (cs ! i))"
  by (auto simp: classes_live_def class_live_def)

lemma classes_live_update:
  assumes "carved cur cs fin" and "i < length cs" and "length fls = length cs"
    and "mc_begin c = mc_begin (cs ! i)" "mc_end c = mc_end (cs ! i)" "mc_block c = mc_block (cs ! i)"
  shows "classes_live (cs[i := c]) (fls[i := fl]) =
    (classes_live cs fls - {(p, n). slot_of (cs ! i) p}) \<union> class_live (cs ! i) fl"
proof -
  have sl: "slot_of c p = slot_of (cs ! i) p" for p using assms by (simp add: slot_of_def)
  have "(p, n) \<in> classes_live (cs[i := c]) (fls[i := fl]) \<longleftrightarrow>
    (p, n) \<in> (classes_live cs fls - {(p, n). slot_of (cs ! i) p}) \<union> class_live (cs ! i) fl" for p n
  proof (cases "slot_of (cs ! i) p")
    case True
    then have "slot_of (cs[i := c] ! j) p \<longleftrightarrow> j = i" if "j < length cs" for j
      using carved_slot_unique [OF assms(1,2), of j p] that sl by (cases "j = i") (auto simp: assms(2))
    then show ?thesis using True assms by (auto simp: classes_live_iff class_live_def intro!: exI [of _ i])
  next
    case False
    then have key: "slot_of (cs[i := c] ! j) p \<and> p \<notin> set (fls[i := fl] ! j) \<and> n = mc_block (cs[i := c] ! j)
        \<longleftrightarrow> slot_of (cs ! j) p \<and> p \<notin> set (fls ! j) \<and> n = mc_block (cs ! j)" for j
      using sl assms(2,3) by (cases "j = i") auto
    show ?thesis using False by (simp add: classes_live_iff key class_live_def)
  qed
  then show ?thesis by auto
qed

definition classes_in_use :: "mem_class list \<Rightarrow> nat" where
  "classes_in_use cs = (\<Sum>c\<leftarrow>cs. mc_live c * mc_block c)"

definition classes_live_count :: "mem_class list \<Rightarrow> nat" where
  "classes_live_count cs = (\<Sum>c\<leftarrow>cs. mc_live c)"

lemma sum_list_update_nat:
  "i < length xs \<Longrightarrow> sum_list (map f (xs[i := y])) + f (xs ! i) = sum_list (map f xs) + f y"
  for f :: "'a \<Rightarrow> nat"
proof (induction xs arbitrary: i)
  case (Cons x xs)
  then show ?case by (cases i) auto
qed simp

end
