(* ===== verification/Mem_Inv.thy ===== *)
theory Mem_Inv
  imports Mem_Classes
begin

text \<open>
  The invariant of the pool, established by the first call and kept by every operation,
  and what each operation does to the set of live blocks.
\<close>

section \<open>Live blocks\<close>

function walk_blocks :: "mem_cfg \<Rightarrow> nat \<Rightarrow> (nat \<Rightarrow> mem_block) \<Rightarrow> nat \<Rightarrow> blocks" where
  "walk_blocks cfg a h p =
     (case pool_block_at cfg a h p of
        None \<Rightarrow> []
      | Some b \<Rightarrow> (h_total (h b), h_free_flag (h b) \<noteq> 0) # walk_blocks cfg a h (b + h_total (h b)))"
  by pat_completeness auto
termination
  by (relation "measure (\<lambda>(cfg, a, h, p). pool_end cfg - p)") (auto dest!: pool_block_at_SomeD)

declare walk_blocks.simps [simp del]

lemma walk_blocks_tiles:
  assumes "arena_geom cfg a" and "a \<le> p" and "NCL_MEM_ALIGN dvd p" and "tiles h p prev bs (pool_end cfg)"
  shows "walk_blocks cfg a h p = bs"
  using assms
proof (induction bs arbitrary: p prev)
  case Nil
  then show ?case by (simp add: walk_blocks.simps [of cfg a h "pool_end cfg"])
next
  case (Cons b bs)
  obtain t f where b: "b = (t, f)" by fastforce
  from Cons.prems have "pool_block_at cfg a h p = Some p" by (simp add: block_at_tiles)
  with Cons.prems b Cons.IH [of "p + t" t] show ?case
    by (simp add: walk_blocks.simps [of cfg a h p])
qed

definition arena_blocks :: "mem_cfg \<Rightarrow> pool \<Rightarrow> blocks" where
  "arena_blocks cfg s = walk_blocks cfg (pl_arena_begin s) (pl_hdr s) (pl_arena_begin s)"

text \<open>Every block handed out, with the bytes its owner may use.\<close>

definition pool_live :: "mem_cfg \<Rightarrow> pool \<Rightarrow> (nat \<times> nat) list" where
  "pool_live cfg s =
     concat (map (\<lambda>c. if mc_block c = 0 then []
                      else map (\<lambda>p. (p, mc_block c))
                             (filter (\<lambda>p. p \<notin> set (follow (pl_link s) (mc_head c) (mc_free_blocks c)))
                                (class_slots c)))
                 (pl_class s))
     @ live_of (pl_arena_begin s) (arena_blocks cfg s)"

section \<open>The invariant\<close>

definition arena_in_use :: "blocks \<Rightarrow> nat" where
  "arena_in_use bs = (\<Sum>b\<leftarrow>bs. if snd b then 0 else fst b - NCL_MEM_HDR)"

definition arena_footprint :: "blocks \<Rightarrow> nat" where
  "arena_footprint bs = (\<Sum>b\<leftarrow>bs. if snd b then 0 else fst b)"

definition arena_live_count :: "blocks \<Rightarrow> nat" where
  "arena_live_count bs = length (filter (\<lambda>b. \<not> snd b) bs)"

lemmas arena_counts = arena_in_use_def arena_footprint_def arena_live_count_def

definition pool_inv :: "mem_cfg \<Rightarrow> pool \<Rightarrow> nat list list \<Rightarrow> blocks \<Rightarrow> bool" where
  "pool_inv cfg s fls bs \<longleftrightarrow>
     pl_ready s
     \<and> carved (pool_begin cfg) (pl_class s) (pl_arena_begin s)
     \<and> classes_ok (pl_link s) (pl_class s) fls
     \<and> arena_inv cfg (pl_arena_begin s) (pl_hdr s) bs
     \<and> g_in_use s = classes_in_use (pl_class s) + arena_in_use bs
     \<and> g_footprint s = classes_in_use (pl_class s) + arena_footprint bs
     \<and> g_live_blocks s = classes_live_count (pl_class s) + arena_live_count bs"

text \<open>The static array is a real object: not at NULL, not past the address space, and
  at least the size the build demands.\<close>

definition cfg_ok :: "mem_cfg \<Rightarrow> bool" where
  "cfg_ok cfg \<longleftrightarrow>
     0 < g_pool cfg \<and> 4096 \<le> cfg_pool_bytes cfg
     \<and> g_pool cfg + cfg_pool_bytes cfg + NCL_MEM_ALIGN < SIZE_MOD"

lemma pool_begin_props: "cfg_ok cfg \<Longrightarrow> 0 < pool_begin cfg \<and> NCL_MEM_ALIGN dvd pool_begin cfg"
  by (auto simp: cfg_ok_def pool_begin_def NCL_MEM_ALIGN_def)

lemma pool_total_props:
  "cfg_ok cfg \<Longrightarrow> 4096 \<le> pool_total cfg \<and> pool_total cfg + NCL_MEM_ALIGN < SIZE_MOD"
  by (auto simp: cfg_ok_def pool_total_def NCL_MEM_ALIGN_def SIZE_MOD_def)

lemma align_up_ok:
  assumes "cfg_ok cfg" and "n \<le> pool_total cfg"
  shows "n \<le> pool_align_up n" and "pool_align_up n < n + NCL_MEM_ALIGN" and "NCL_MEM_ALIGN dvd pool_align_up n"
proof -
  have "n + NCL_MEM_ALIGN < SIZE_MOD" using assms pool_total_props [OF assms(1)] by simp
  then have "(n + NCL_MEM_ALIGN - 1) mod SIZE_MOD = n + 15" by (simp add: NCL_MEM_ALIGN_def)
  then show "n \<le> pool_align_up n" "pool_align_up n < n + NCL_MEM_ALIGN"
    "NCL_MEM_ALIGN dvd pool_align_up n"
    by (auto simp: pool_align_up_def NCL_MEM_ALIGN_def)
qed

lemma init_ready [simp]: "pl_ready s \<Longrightarrow> pool_init_locked cfg s = s"
  by (simp add: pool_init_locked_def)

lemma pool_inv_ready: "pool_inv cfg s fls bs \<Longrightarrow> pl_ready s"
  by (simp add: pool_inv_def)

lemma arena_blocks_inv: "pool_inv cfg s fls bs \<Longrightarrow> arena_blocks cfg s = bs"
  by (auto simp: arena_blocks_def pool_inv_def arena_inv_def arena_geom_def intro: walk_blocks_tiles)

lemma class_inv:
  assumes "pool_inv cfg s fls bs" and "i < length (pl_class s)" and "mc_block (pl_class s ! i) \<noteq> 0"
  shows "class_ok (pl_link s) (pl_class s ! i) (fls ! i)"
    and "p \<in> set (class_slots (pl_class s ! i)) \<longleftrightarrow> slot_of (pl_class s ! i) p"
proof -
  show "class_ok (pl_link s) (pl_class s ! i) (fls ! i)"
    using assms classes_okD by (auto simp: pool_inv_def)
  show "p \<in> set (class_slots (pl_class s ! i)) \<longleftrightarrow> slot_of (pl_class s ! i) p"
    using assms carved_nth [of "pool_begin cfg" "pl_class s" "pl_arena_begin s" i]
    by (intro set_class_slots) (auto simp: pool_inv_def)
qed

lemma live_set:
  assumes inv: "pool_inv cfg s fls bs"
  shows "set (pool_live cfg s) = classes_live (pl_class s) fls \<union> set (live_of (pl_arena_begin s) bs)"
proof -
  let ?cs = "pl_class s"
  let ?f = "\<lambda>c. if mc_block c = 0 then [] else map (\<lambda>p. (p, mc_block c))
     (filter (\<lambda>p. p \<notin> set (follow (pl_link s) (mc_head c) (mc_free_blocks c))) (class_slots c))"
  have f: "set (?f (?cs ! i)) = class_live (?cs ! i) (fls ! i)" if i: "i < length ?cs" for i
  proof (cases "mc_block (?cs ! i) = 0")
    case True
    then show ?thesis by (simp add: class_live_def slot_of_def)
  next
    case False
    note ci = class_inv [OF inv i False]
    have "follow (pl_link s) (mc_head (?cs ! i)) (mc_free_blocks (?cs ! i)) = fls ! i"
      using ci(1) False by (metis class_ok_def follow_chain)
    with False ci(2) show ?thesis by (auto simp: class_live_def)
  qed
  have "set (concat (map ?f ?cs)) = (\<Union>i < length ?cs. set (?f (?cs ! i)))"
    by (rule set_concat_map_nth)
  also have "\<dots> = classes_live ?cs fls" using f by (simp add: classes_live_def)
  finally show ?thesis using arena_blocks_inv [OF inv] by (simp add: pool_live_def)
qed

section \<open>First use\<close>

lemma thread_slots_chain:
  assumes "thread_slots cursor block n link head = (l, hd1)" and "chain link head rest"
    and "0 < cursor" and "0 < block" and "\<forall>x \<in> set rest. cursor + n * block \<le> x"
  shows "chain l hd1 (map (\<lambda>j. cursor + j * block) [0 ..< n] @ rest)
    \<and> (\<forall>q < cursor. l q = link q)"
  using assms
proof (induction n arbitrary: link head rest)
  case (Suc n)
  let ?slot = "cursor + n * block"
  let ?l = "link(?slot := head)"
  have "\<forall>x \<in> set rest. x \<noteq> ?slot" using Suc.prems(4,5) by auto
  then have "chain ?l head rest" using Suc.prems(2) chain_cong [of rest ?l link head] by auto
  then have "chain ?l ?slot (?slot # rest)" using Suc.prems(3) by simp
  moreover have "\<forall>x \<in> set (?slot # rest). cursor + n * block \<le> x" using Suc.prems(5) by auto
  moreover have "thread_slots cursor block n ?l ?slot = (l, hd1)" using Suc.prems(1) by (simp add: Let_def)
  ultimately have "chain l hd1 (map (\<lambda>j. cursor + j * block) [0 ..< n] @ ?slot # rest)
      \<and> (\<forall>q < cursor. l q = ?l q)"
    using Suc.IH Suc.prems(3,4) by blast
  then show ?case by simp
qed simp

lemma carve_ok:
  assumes "carve area limit bss cursor link = (cs, cur, l)"
    and "\<forall>(b, sh) \<in> set bss. 0 < b \<and> NCL_MEM_ALIGN dvd b"
    and "0 < cursor" and "NCL_MEM_ALIGN dvd cursor" and "cursor + NCL_MEM_HDR + NCL_MEM_ALIGN \<le> limit"
  shows "carved cursor cs cur \<and> NCL_MEM_ALIGN dvd cur \<and> cur + NCL_MEM_HDR + NCL_MEM_ALIGN \<le> limit
    \<and> (\<forall>q < cursor. l q = link q) \<and> (\<exists>fls. classes_ok l cs fls) \<and> (\<forall>c \<in> set cs. mc_live c = 0)"
  using assms
proof (induction area limit bss cursor link arbitrary: cs cur l rule: carve.induct)
  case (1 area limit cursor link)
  then show ?case by (auto simp: classes_ok_def)
next
  case (2 area limit block share rest cursor link)
  let ?want = "area * share div 100 div block * block"
  have b: "0 < block" "NCL_MEM_ALIGN dvd block" using "2.prems"(2) by auto
  show ?case
  proof (cases "\<not> area > 0 \<or> ?want div block = 0 \<or> limit - cursor < ?want + NCL_MEM_HDR + NCL_MEM_ALIGN")
    case True
    then obtain cs1 where c: "carve area limit rest cursor link = (cs1, cur, l)" "cs = unused_class # cs1"
      using "2.prems"(1) by (auto simp: Let_def split: prod.splits if_splits)
    have ih: "carved cursor cs1 cur \<and> NCL_MEM_ALIGN dvd cur \<and> cur + NCL_MEM_HDR + NCL_MEM_ALIGN \<le> limit
      \<and> (\<forall>q < cursor. l q = link q) \<and> (\<exists>fls. classes_ok l cs1 fls) \<and> (\<forall>c \<in> set cs1. mc_live c = 0)"
    proof (cases "area > 0")
      case False
      then show ?thesis using "2.IH"(1) [OF False c(1)] "2.prems" by auto
    next
      case a: True
      then show ?thesis using "2.IH"(2) [OF _ refl refl _ c(1)] True "2.prems" by auto
    qed
    then obtain fls where "classes_ok l cs1 fls" by blast
    then have "classes_ok l cs ([] # fls)"
      by (simp add: c(2) classes_ok_def class_ok_def unused_class_def)
    with ih show ?thesis by (auto simp: c(2) unused_class_def)
  next
    case False
    define n where "n = area * share div 100 div block"
    have nd: "area * share div 100 div block * block div block = n" using b by (simp add: n_def)
    note nf = n_def [symmetric]
    obtain link1 hd1 where th: "thread_slots cursor block n link 0 = (link1, hd1)" by fastforce
    obtain cs1 where c: "carve area limit rest (cursor + n * block) link1 = (cs1, cur, l)"
      and cs: "cs = \<lparr>mc_begin = cursor, mc_end = cursor + n * block, mc_block = block,
                     mc_live = 0, mc_free_blocks = n, mc_head = hd1\<rparr> # cs1" (is "cs = ?c # cs1")
      using "2.prems"(1) False th unfolding nf nd by (auto simp: Let_def nd [unfolded nf] nf split: prod.splits if_splits)
    have wd: "NCL_MEM_ALIGN dvd n * block" using b by simp
    have lim: "cursor + n * block + NCL_MEM_HDR + NCL_MEM_ALIGN \<le> limit" "0 < area" "n \<noteq> 0"
      using False "2.prems"(5) b unfolding nf nd by auto
    have p2: "n * block = area * share div 100 div block * block" by (simp add: n_def)
    have p3: "n = n * block div block" using b by simp
    have p4: "\<not> (n = 0 \<or> limit - cursor < n * block + NCL_MEM_HDR + NCL_MEM_ALIGN)"
      using lim by auto
    have "carved (cursor + n * block) cs1 cur \<and> NCL_MEM_ALIGN dvd cur
      \<and> cur + NCL_MEM_HDR + NCL_MEM_ALIGN \<le> limit
      \<and> (\<forall>q < cursor + n * block. l q = link1 q) \<and> (\<exists>fls. classes_ok l cs1 fls) \<and> (\<forall>c \<in> set cs1. mc_live c = 0)"
      using "2.IH"(3) [OF _ p2 p3 p4 th [symmetric] c] lim wd "2.prems"(2-4) by auto
    then obtain fls where ih: "carved (cursor + n * block) cs1 cur" "NCL_MEM_ALIGN dvd cur"
      "cur + NCL_MEM_HDR + NCL_MEM_ALIGN \<le> limit" "\<forall>q < cursor + n * block. l q = link1 q"
      "\<forall>c \<in> set cs1. mc_live c = 0" and fls: "classes_ok l cs1 fls" by blast
    let ?fl = "map (\<lambda>j. cursor + j * block) [0 ..< n]"
    have ch: "chain link1 hd1 ?fl" "\<forall>q < cursor. link1 q = link q"
      using thread_slots_chain [OF th, of "[]"] "2.prems"(3) b by auto
    have fl: "?fl = class_slots ?c" using b(1) by (simp add: class_slots_def class_count_def)
    have sl: "slot_of ?c p" if "p \<in> set ?fl" for p
      using that set_class_slots [of ?c p] b(1) unfolding fl by simp
    have "class_ok l ?c ?fl"
    proof -
      have "l p = link1 p" if "p \<in> set ?fl" for p
        using sl [OF that] ih(4) by (simp add: slot_of_def)
      then have "chain l hd1 ?fl" using ch(1) chain_cong [of ?fl l link1 hd1] by simp
      moreover have "distinct ?fl" using distinct_class_slots [of ?c] b(1) unfolding fl by simp
      ultimately show ?thesis using sl b(1) by (simp add: class_ok_def class_count_def)
    qed
    with fls have "classes_ok l cs (?fl # fls)" by (simp add: classes_ok_def cs)
    then have "\<exists>fls. classes_ok l cs fls" by blast
    with ih ch(2) b show ?thesis by (simp add: cs)
  qed
qed

end
