(* ===== verification/Mem_Ops.thy ===== *)
theory Mem_Ops
  imports Mem_Inv
begin

text \<open>
  Each operation of the pool against the invariant: what it returns, and how the set of
  live blocks changes.
\<close>

section \<open>The part of the state the invariant reads\<close>

definition same_core :: "pool \<Rightarrow> pool \<Rightarrow> bool" where
  "same_core s r \<longleftrightarrow>
     pl_ready s = pl_ready r \<and> pl_class s = pl_class r \<and> pl_arena_begin s = pl_arena_begin r
     \<and> pl_hdr s = pl_hdr r \<and> pl_link s = pl_link r
     \<and> g_in_use s = g_in_use r \<and> g_footprint s = g_footprint r \<and> g_live_blocks s = g_live_blocks r"

lemma same_core_refl [simp]: "same_core s s"
  by (simp add: same_core_def)

lemma same_core_trans: "same_core s r \<Longrightarrow> same_core r q \<Longrightarrow> same_core s q"
  by (simp add: same_core_def)

lemma same_core_inv: "same_core s r \<Longrightarrow> pool_inv cfg s fls bs = pool_inv cfg r fls bs"
  by (simp add: same_core_def pool_inv_def)

lemma same_core_live: "same_core s r \<Longrightarrow> pool_live cfg s = pool_live cfg r"
  unfolding same_core_def pool_live_def arena_blocks_def by (elim conjE) (simp only:)

lemma note_core [simp]:
  "same_core (pool_note_request n s) s" "same_core (note_largest n s) s"
  "same_core (pool_note_failure_locked cfg s) s" "same_core (pool_note_refusal_locked cfg s) s"
  by (auto simp: same_core_def pool_note_request_def note_largest_def pool_note_failure_locked_def
      pool_note_refusal_locked_def Let_def split: prod.splits)

lemma note_both_core [simp]: "same_core (pool_note_request n (note_largest m s)) s"
  by (rule same_core_trans [OF note_core(1) note_core(2)])

section \<open>First use\<close>

lemma init_inv:
  assumes "cfg_ok cfg" and "\<not> pl_ready s" and "g_in_use s = 0" "g_footprint s = 0" "g_live_blocks s = 0"
  shows "\<exists>fls n. pool_inv cfg (pool_init_locked cfg s) fls [(n, True)]"
proof -
  obtain cs cur l where c: "carve (class_area cfg) (pool_end cfg) (zip g_class_block g_class_share)
      (pool_begin cfg) (pl_link s) = (cs, cur, l)" by (metis prod_cases3)
  have "pool_begin cfg + NCL_MEM_HDR + NCL_MEM_ALIGN \<le> pool_end cfg"
    using pool_total_props [OF assms(1)] by (simp add: pool_end_def NCL_MEM_HDR_def NCL_MEM_ALIGN_def)
  moreover have "\<forall>(b, sh) \<in> set (zip g_class_block g_class_share). 0 < b \<and> NCL_MEM_ALIGN dvd b"
    by (simp add: g_class_block_def g_class_share_def NCL_MEM_ALIGN_def)
  ultimately have k: "carved (pool_begin cfg) cs cur" "NCL_MEM_ALIGN dvd cur"
    "cur + NCL_MEM_HDR + NCL_MEM_ALIGN \<le> pool_end cfg" "\<exists>fls. classes_ok l cs fls"
    "\<forall>c \<in> set cs. mc_live c = 0"
    using carve_ok [OF c] pool_begin_props [OF assms(1)] by auto
  have cur: "(cur + (NCL_MEM_ALIGN - 1)) div NCL_MEM_ALIGN * NCL_MEM_ALIGN = cur"
    using k(2) by (auto simp: NCL_MEM_ALIGN_def)
  have geom: "arena_geom cfg cur"
    using k carved_le [OF k(1)] pool_begin_props [OF assms(1)] by (simp add: arena_geom_def)
  then have al: "NCL_MEM_ALIGN dvd pool_end cfg - cur"
    using k(2) pool_end_aligned by (simp add: dvd_diff_nat)
  have zero: "classes_in_use cs = 0" "classes_live_count cs = 0"
    using k(5) by (auto simp: classes_in_use_def classes_live_count_def)
  obtain fls where fls: "classes_ok l cs fls" using k(4) by blast
  have "NCL_MEM_HDR + NCL_MEM_ALIGN \<le> pool_end cfg - cur" "cur \<le> pool_end cfg" using k(3) by auto
  then have tl: "tiles ((pl_hdr s)(cur := \<lparr>h_total = pool_end cfg - cur, h_prev_total = 0, h_free_flag = 1\<rparr>))
      cur 0 [(pool_end cfg - cur, True)] (pool_end cfg)"
    using al by simp
  have "pool_init_locked cfg s = s\<lparr>pl_class := cs, pl_link := l, pl_arena_begin := cur,
      pl_hdr := (pl_hdr s)(cur := \<lparr>h_total = pool_end cfg - cur, h_prev_total = 0, h_free_flag = 1\<rparr>),
      pl_ready := True\<rparr>"
    using assms(2) by (simp only: pool_init_locked_def c cur Let_def prod.case if_False)
  then have "pool_inv cfg (pool_init_locked cfg s) fls [(pool_end cfg - cur, True)]"
    using assms k(1) geom tl zero fls
    by (simp add: pool_inv_def arena_inv_def arena_counts)
  then show ?thesis by blast
qed

section \<open>Geometry of the live blocks\<close>

definition separate :: "nat \<times> nat \<Rightarrow> nat \<times> nat \<Rightarrow> bool" where
  "separate x y \<longleftrightarrow> fst x + snd x \<le> fst y \<or> fst y + snd y \<le> fst x"

lemma slot_end:
  assumes "slot_of c p" and "mc_block c dvd mc_end c - mc_begin c"
  shows "p + mc_block c \<le> mc_end c"
proof -
  obtain k where k: "mc_end c - mc_begin c = mc_block c * k" using assms(2) by (auto simp: dvd_def)
  obtain j where j: "p - mc_begin c = mc_block c * j" using assms(1) by (auto simp: slot_of_def dvd_def mod_eq_0_iff_dvd)
  have "p - mc_begin c < mc_end c - mc_begin c" using assms(1) by (auto simp: slot_of_def)
  then have "mc_block c * j < mc_block c * k" using k j by simp
  then have "Suc j \<le> k" by (metis Suc_leI mult_less_cancel1)
  then have "mc_block c * Suc j \<le> mc_block c * k" by (rule mult_le_mono2)
  then show ?thesis using k j assms(1) by (auto simp: slot_of_def)
qed

lemma slot_apart:
  assumes "slot_of c p" and "slot_of c q" and "p < q"
  shows "p + mc_block c \<le> q"
proof -
  obtain j where j: "p - mc_begin c = mc_block c * j" using assms(1) by (auto simp: slot_of_def dvd_def mod_eq_0_iff_dvd)
  obtain k where k: "q - mc_begin c = mc_block c * k" using assms(2) by (auto simp: slot_of_def dvd_def mod_eq_0_iff_dvd)
  have "p - mc_begin c < q - mc_begin c" using assms by (auto simp: slot_of_def)
  then have "mc_block c * j < mc_block c * k" using k j by simp
  then have "Suc j \<le> k" by (metis Suc_leI mult_less_cancel1)
  then have "mc_block c * Suc j \<le> mc_block c * k" by (rule mult_le_mono2)
  then show ?thesis using k j assms by (auto simp: slot_of_def)
qed

lemma live_of_separate:
  "tiles h p prev bs e \<Longrightarrow> x \<in> set (live_of p bs) \<Longrightarrow> y \<in> set (live_of p bs) \<Longrightarrow> x = y \<or> separate x y"
proof (induction bs arbitrary: p prev)
  case (Cons b bs)
  obtain t f where b: "b = (t, f)" by fastforce
  then have tl: "tiles h (p + t) t bs e" and t: "NCL_MEM_HDR \<le> t" using Cons.prems by auto
  have "separate (p + NCL_MEM_HDR, t - NCL_MEM_HDR) z" "separate z (p + NCL_MEM_HDR, t - NCL_MEM_HDR)"
    if "z \<in> set (live_of (p + t) bs)" for z
    using live_of_range [OF _ tl, of "fst z" "snd z"] that t by (auto simp: separate_def)
  moreover have "x = (p + NCL_MEM_HDR, t - NCL_MEM_HDR) \<or> x \<in> set (live_of (p + t) bs)"
    "y = (p + NCL_MEM_HDR, t - NCL_MEM_HDR) \<or> y \<in> set (live_of (p + t) bs)"
    using Cons.prems(2,3) b by (auto split: if_splits)
  ultimately show ?case using Cons.IH [OF tl] by blast
qed simp

lemma classes_live_range:
  assumes "carved cur cs fin" and "(p, n) \<in> classes_live cs fls"
  shows "cur \<le> p \<and> p + n \<le> fin"
proof -
  obtain i where "i < length cs" "slot_of (cs ! i) p" "n = mc_block (cs ! i)"
    using assms(2) by (auto simp: classes_live_iff)
  with carved_nth [OF assms(1), of i] slot_end [of "cs ! i" p] show ?thesis by (auto simp: slot_of_def)
qed

lemma classes_live_separate:
  assumes "carved cur cs fin" and "x \<in> classes_live cs fls" and "y \<in> classes_live cs fls"
  shows "x = y \<or> separate x y"
proof -
  obtain p n q m where xy: "x = (p, n)" "y = (q, m)" by fastforce
  then obtain i j where i: "i < length cs" "slot_of (cs ! i) p" "n = mc_block (cs ! i)"
    and j: "j < length cs" "slot_of (cs ! j) q" "m = mc_block (cs ! j)"
    using assms(2,3) by (auto simp: classes_live_iff)
  note e = slot_end [OF i(2)] slot_end [OF j(2)] carved_nth [OF assms(1) i(1)] carved_nth [OF assms(1) j(1)]
  show ?thesis
  proof (cases "i = j")
    case True
    then show ?thesis
      using i j xy slot_apart [of "cs ! i" p q] slot_apart [of "cs ! i" q p]
      by (cases p q rule: linorder_cases) (auto simp: separate_def)
  next
    case False
    then have "i < j \<or> j < i" by auto
    then show ?thesis
      using carved_order [OF assms(1), of i j] carved_order [OF assms(1), of j i] i j e xy
      by (auto simp: separate_def slot_of_def)
  qed
qed

lemma inv_live_range:
  assumes "pool_inv cfg s fls bs" and "(p, n) \<in> set (pool_live cfg s)"
  shows "pool_begin cfg \<le> p \<and> p + n \<le> pool_end cfg"
proof -
  from assms have ca: "carved (pool_begin cfg) (pl_class s) (pl_arena_begin s)"
    and ar: "arena_inv cfg (pl_arena_begin s) (pl_hdr s) bs" by (auto simp: pool_inv_def)
  then have "pool_begin cfg \<le> pl_arena_begin s" "pl_arena_begin s \<le> pool_end cfg"
    by (auto dest: carved_le simp: arena_inv_def arena_geom_def)
  moreover have "(p, n) \<in> classes_live (pl_class s) fls \<or> (p, n) \<in> set (live_of (pl_arena_begin s) bs)"
    using assms live_set by blast
  ultimately show ?thesis
    using classes_live_range [OF ca, of p n fls] live_of_range [of p n "pl_arena_begin s" bs] ar
    by (fastforce simp: arena_inv_def)
qed

lemma inv_live_separate:
  assumes "pool_inv cfg s fls bs" and "x \<in> set (pool_live cfg s)" and "y \<in> set (pool_live cfg s)"
  shows "x = y \<or> separate x y"
proof -
  from assms have ca: "carved (pool_begin cfg) (pl_class s) (pl_arena_begin s)"
    and ar: "tiles (pl_hdr s) (pl_arena_begin s) 0 bs (pool_end cfg)" by (auto simp: pool_inv_def arena_inv_def)
  have mixed: "separate u v \<and> separate v u"
    if "u \<in> classes_live (pl_class s) fls" "v \<in> set (live_of (pl_arena_begin s) bs)" for u v
    using classes_live_range [OF ca, of "fst u" "snd u" fls]
      live_of_range [OF _ ar, of "fst v" "snd v"] that by (auto simp: separate_def)
  have "x \<in> classes_live (pl_class s) fls \<or> x \<in> set (live_of (pl_arena_begin s) bs)"
    "y \<in> classes_live (pl_class s) fls \<or> y \<in> set (live_of (pl_arena_begin s) bs)"
    using assms live_set by blast+
  then show ?thesis
    using classes_live_separate [OF ca] live_of_separate [OF ar] mixed by blast
qed

section \<open>Counters from the live blocks\<close>

lemma arena_in_use_live: "arena_in_use bs = sum_list (map snd (live_of p bs))"
  by (induction bs arbitrary: p) (auto simp: arena_in_use_def)

lemma arena_live_count_live: "arena_live_count bs = length (live_of p bs)"
  by (induction bs arbitrary: p) (auto simp: arena_live_count_def)

lemma arena_footprint_live:
  "tiles h q prev bs e \<Longrightarrow> arena_footprint bs = sum_list (map (\<lambda>x. snd x + NCL_MEM_HDR) (live_of p bs))"
  by (induction bs arbitrary: p q prev) (auto simp: arena_footprint_def)

end
