(* ===== verification/Mem_Step.thy ===== *)
theory Mem_Step
  imports Mem_Ops
begin

text \<open>
  The building blocks of the pool's operations against the invariant: taking and giving
  back a class block, allocating, releasing and resizing an arena block.
\<close>

section \<open>Class blocks\<close>

lemma class_free_room:
  assumes inv: "pool_inv cfg s fls bs" and i: "i < length (pl_class s)"
    and p: "slot_of (pl_class s ! i) p" "p \<notin> set (fls ! i)"
  shows "mc_free_blocks (pl_class s ! i) < class_count (pl_class s ! i)"
proof -
  let ?c = "pl_class s ! i"
  have nz: "mc_block ?c \<noteq> 0" using p by (simp add: slot_of_def)
  note ci = class_inv [OF inv i nz]
  then have ok: "distinct (fls ! i)" "\<forall>q \<in> set (fls ! i). slot_of ?c q" "length (fls ! i) = mc_free_blocks ?c"
    using nz by (auto simp: class_ok_def)
  have "set (p # fls ! i) \<subseteq> set (class_slots ?c)" using ok p ci(2) by auto
  then have "card (set (p # fls ! i)) \<le> card (set (class_slots ?c))" by (intro card_mono) auto
  moreover have "card (set (p # fls ! i)) = Suc (mc_free_blocks ?c)"
    using ok p by (simp add: distinct_card)
  moreover have "card (set (class_slots ?c)) = class_count ?c"
    using distinct_class_slots [OF nz] by (simp add: distinct_card)
  ultimately show ?thesis by simp
qed

lemma classes_counts_update:
  assumes "i < length cs" and "mc_block c = mc_block (cs ! i)"
  shows "classes_in_use (cs[i := c]) + mc_live (cs ! i) * mc_block (cs ! i)
      = classes_in_use cs + mc_live c * mc_block (cs ! i)"
    and "classes_live_count (cs[i := c]) + mc_live (cs ! i) = classes_live_count cs + mc_live c"
  using sum_list_update_nat [OF assms(1), of "\<lambda>c. mc_live c * mc_block c" c] assms(2)
    sum_list_update_nat [OF assms(1), of mc_live c]
  by (simp_all add: classes_in_use_def classes_live_count_def)

lemma arena_above_slots:
  assumes inv: "pool_inv cfg s fls bs" and i: "i < length (pl_class s)" and p: "slot_of (pl_class s ! i) p"
  shows "(p, n) \<notin> set (live_of (pl_arena_begin s) bs)" and "p < pl_arena_begin s"
proof -
  from inv have ca: "carved (pool_begin cfg) (pl_class s) (pl_arena_begin s)"
    and ar: "tiles (pl_hdr s) (pl_arena_begin s) 0 bs (pool_end cfg)" by (auto simp: pool_inv_def arena_inv_def)
  show "p < pl_arena_begin s"
    using carved_nth [OF ca i] p by (auto simp: slot_of_def)
  then show "(p, n) \<notin> set (live_of (pl_arena_begin s) bs)"
    using live_of_range [OF _ ar, of p n] by auto
qed

lemma classes_live_at:
  assumes "carved cur cs fin" and "i < length cs"
  shows "class_live (cs ! i) (fls ! i) \<subseteq> classes_live cs fls"
    and "x \<in> classes_live cs fls \<Longrightarrow> slot_of (cs ! i) (fst x) \<Longrightarrow> x \<in> class_live (cs ! i) (fls ! i)"
    and "x \<in> class_live (cs ! i) fl \<Longrightarrow> slot_of (cs ! i) (fst x)"
proof -
  show "class_live (cs ! i) (fls ! i) \<subseteq> classes_live cs fls"
    using assms(2) by (auto simp: classes_live_def)
  show "x \<in> class_live (cs ! i) (fls ! i)"
    if x: "x \<in> classes_live cs fls" "slot_of (cs ! i) (fst x)"
  proof -
    obtain p n j where "x = (p, n)" "j < length cs" "slot_of (cs ! j) p" "p \<notin> set (fls ! j)"
      "n = mc_block (cs ! j)" using x(1) by (cases x) (auto simp: classes_live_iff)
    moreover from this have "j = i" using carved_slot_unique [OF assms(1) _ assms(2), of j p] x(2) by simp
    ultimately show ?thesis by (auto simp: class_live_def)
  qed
qed (auto simp: class_live_def)

lemma take_inv:
  assumes inv: "pool_inv cfg s fls bs" and i: "i < length (pl_class s)" "mc_block (pl_class s ! i) \<noteq> 0"
    and hd: "mc_head (pl_class s ! i) \<noteq> 0" and t: "pool_class_take i s = (p, s1)"
  shows "pool_inv cfg s1 (fls[i := tl (fls ! i)]) bs" and "slot_of (pl_class s ! i) p" and "p \<noteq> 0"
    and "(p, n) \<notin> set (pool_live cfg s)"
    and "set (pool_live cfg s1) = insert (p, mc_block (pl_class s ! i)) (set (pool_live cfg s))"
proof -
  let ?c = "pl_class s ! i"
  from inv have ca: "carved (pool_begin cfg) (pl_class s) (pl_arena_begin s)"
    and ok: "classes_ok (pl_link s) (pl_class s) fls" by (auto simp: pool_inv_def)
  have co: "class_ok (pl_link s) ?c (fls ! i)" by (rule class_inv(1) [OF inv i])
  then have ch: "chain (pl_link s) (mc_head ?c) (fls ! i)" using i by (simp add: class_ok_def)
  have p: "p = mc_head ?c" using hd t by (simp add: pool_class_take_def Let_def)
  obtain rest where fl: "fls ! i = p # rest" using ch hd p by (cases "fls ! i") simp_all
  let ?c1 = "?c\<lparr>mc_head := pl_link s p, mc_free_blocks := mc_free_blocks ?c - 1, mc_live := mc_live ?c + 1\<rparr>"
  have s1: "s1 = s\<lparr>pl_class := (pl_class s)[i := ?c1], g_in_use := g_in_use s + mc_block ?c,
      g_footprint := g_footprint s + mc_block ?c, g_peak := max (g_peak s) (g_in_use s + mc_block ?c),
      g_peak_footprint := max (g_peak_footprint s) (g_footprint s + mc_block ?c),
      g_live_blocks := g_live_blocks s + 1, g_allocations := g_allocations s + 1\<rparr>"
    using t hd unfolding p by (simp add: pool_class_take_def Let_def)
  have co1: "class_ok (pl_link s) ?c1 rest"
    using co fl i by (auto simp: class_ok_def class_count_def slot_of_def)
  have cls: "classes_ok (pl_link s) ((pl_class s)[i := ?c1]) (fls[i := rest])"
    by (rule classes_ok_update [OF ca ok i(1) _ co1]) simp
  have ca1: "carved (pool_begin cfg) ((pl_class s)[i := ?c1]) (pl_arena_begin s)"
    by (rule carved_update [OF ca i(1)]) simp_all
  show inv1: "pool_inv cfg s1 (fls[i := tl (fls ! i)]) bs"
    using inv ca1 cls classes_counts_update [OF i(1), of ?c1] by (simp add: s1 fl pool_inv_def)
  show sp: "slot_of ?c p" using co fl i by (auto simp: class_ok_def)
  show "p \<noteq> 0" using hd p by simp
  have arena: "(p, n) \<notin> set (live_of (pl_arena_begin s) bs)" for n
    by (rule arena_above_slots [OF inv i(1) sp])
  show "(p, n) \<notin> set (pool_live cfg s)"
    using live_set [OF inv] arena fl carved_slot_unique [OF ca _ i(1) _ sp] by (auto simp: classes_live_iff)
  have len: "length fls = length (pl_class s)" using ok by (rule classes_ok_length)
  have "classes_live ((pl_class s)[i := ?c1]) (fls[i := rest])
      = (classes_live (pl_class s) fls - {(q, n). slot_of ?c q}) \<union> class_live ?c rest"
    by (rule classes_live_update [OF ca i(1) len]) simp_all
  moreover have "class_live ?c rest = insert (p, mc_block ?c) (class_live ?c (fls ! i))"
    using co fl sp i by (auto simp: class_live_def class_ok_def)
  ultimately have eq: "classes_live ((pl_class s)[i := ?c1]) (fls[i := rest])
      = (classes_live (pl_class s) fls - {(q, n). slot_of ?c q})
        \<union> insert (p, mc_block ?c) (class_live ?c (fls ! i))" by simp
  have "classes_live ((pl_class s)[i := ?c1]) (fls[i := rest])
      = insert (p, mc_block ?c) (classes_live (pl_class s) fls)"
    unfolding eq using classes_live_at(1,2) [OF ca i(1), where fls = fls] by fastforce
  then show "set (pool_live cfg s1) = insert (p, mc_block ?c) (set (pool_live cfg s))"
    using live_set [OF inv] live_set [OF inv1] by (simp add: s1 fl)
qed

lemma give_inv:
  assumes inv: "pool_inv cfg s fls bs" and i: "i < length (pl_class s)"
    and p: "slot_of (pl_class s ! i) p" "p \<notin> set (fls ! i)" and p0: "p \<noteq> 0"
  shows "pool_inv cfg (pool_class_give i p s) (fls[i := p # fls ! i]) bs"
    and "set (pool_live cfg (pool_class_give i p s)) = set (pool_live cfg s) - {(p, mc_block (pl_class s ! i))}"
proof -
  let ?c = "pl_class s ! i" and ?s1 = "pool_class_give i p s"
  from inv have ca: "carved (pool_begin cfg) (pl_class s) (pl_arena_begin s)"
    and ok: "classes_ok (pl_link s) (pl_class s) fls" by (auto simp: pool_inv_def)
  have nz: "mc_block ?c \<noteq> 0" using p by (simp add: slot_of_def)
  have co: "class_ok (pl_link s) ?c (fls ! i)" by (rule class_inv(1) [OF inv i nz])
  have room: "mc_free_blocks ?c < class_count ?c" by (rule class_free_room [OF inv i p])
  let ?c1 = "?c\<lparr>mc_head := p, mc_free_blocks := mc_free_blocks ?c + 1, mc_live := mc_live ?c - 1\<rparr>"
  let ?l = "(pl_link s)(p := mc_head ?c)"
  have live: "0 < mc_live ?c" using co room nz by (simp add: class_ok_def)
  have "\<And>x. x \<in> set (fls ! i) \<Longrightarrow> ?l x = pl_link s x" using p(2) by auto
  then have "chain ?l (mc_head ?c) (fls ! i) = chain (pl_link s) (mc_head ?c) (fls ! i)" by (rule chain_cong)
  then have "chain ?l (mc_head ?c) (fls ! i)" using co nz by (simp add: class_ok_def)
  then have co1: "class_ok ?l ?c1 (p # fls ! i)"
    using co nz p p0 live by (simp add: class_ok_def class_count_def slot_of_def)
  have cls: "classes_ok ?l ((pl_class s)[i := ?c1]) (fls[i := p # fls ! i])"
    by (rule classes_ok_update [OF ca ok i _ co1]) (use p in auto)
  have ca1: "carved (pool_begin cfg) ((pl_class s)[i := ?c1]) (pl_arena_begin s)"
    by (rule carved_update [OF ca i]) simp_all
  have le: "mc_block ?c \<le> mc_live ?c * mc_block ?c" using live by simp
  also have "mc_live ?c * mc_block ?c \<le> classes_in_use (pl_class s)"
    using elem_le_sum_list [of i "map (\<lambda>c. mc_live c * mc_block c) (pl_class s)"] i
    by (simp add: classes_in_use_def)
  finally have in_le: "mc_block ?c \<le> classes_in_use (pl_class s)" .
  have live_le: "mc_live ?c \<le> classes_live_count (pl_class s)"
    using elem_le_sum_list [of i "map mc_live (pl_class s)"] i by (simp add: classes_live_count_def)
  have cu: "classes_in_use ((pl_class s)[i := ?c1]) = classes_in_use (pl_class s) - mc_block ?c"
    "mc_block ?c \<le> classes_in_use (pl_class s)"
    "classes_live_count ((pl_class s)[i := ?c1]) = classes_live_count (pl_class s) - 1"
    "1 \<le> classes_live_count (pl_class s)"
    using classes_counts_update [OF i, of ?c1] live le in_le live_le by (simp_all add: diff_mult_distrib)
  show inv1: "pool_inv cfg ?s1 (fls[i := p # fls ! i]) bs"
    using inv ca1 cls cu by (simp add: pool_class_give_def Let_def pool_inv_def)
  have len: "length fls = length (pl_class s)" using ok by (rule classes_ok_length)
  have "classes_live ((pl_class s)[i := ?c1]) (fls[i := p # fls ! i])
      = (classes_live (pl_class s) fls - {(q, n). slot_of ?c q}) \<union> class_live ?c (p # fls ! i)"
    by (rule classes_live_update [OF ca i len]) simp_all
  moreover have "class_live ?c (p # fls ! i) = class_live ?c (fls ! i) - {(p, mc_block ?c)}"
    by (auto simp: class_live_def)
  ultimately have eq: "classes_live ((pl_class s)[i := ?c1]) (fls[i := p # fls ! i])
      = (classes_live (pl_class s) fls - {(q, n). slot_of ?c q}) \<union> (class_live ?c (fls ! i) - {(p, mc_block ?c)})"
    by simp
  have "classes_live ((pl_class s)[i := ?c1]) (fls[i := p # fls ! i])
      = classes_live (pl_class s) fls - {(p, mc_block ?c)}"
    unfolding eq using classes_live_at(1,2) [OF ca i, where fls = fls] p(1) by fastforce
  then show "set (pool_live cfg ?s1) = set (pool_live cfg s) - {(p, mc_block ?c)}"
    using live_set [OF inv] live_set [OF inv1] arena_above_slots(1) [OF inv i p(1)]
    by (auto simp: pool_class_give_def Let_def)
qed

section \<open>Arena blocks\<close>

lemma live_of_distinct: "tiles h p prev bs e \<Longrightarrow> distinct (map fst (live_of p bs))"
proof (induction bs arbitrary: p prev)
  case (Cons b bs)
  obtain t f where b: "b = (t, f)" by fastforce
  then have tl: "tiles h (p + t) t bs e" and t: "NCL_MEM_HDR \<le> t" using Cons.prems by auto
  have "p + NCL_MEM_HDR \<notin> fst ` set (live_of (p + t) bs)"
    using live_of_range [OF _ tl] t by (fastforce simp: NCL_MEM_HDR_def)
  with Cons.IH [OF tl] b show ?case by simp
qed simp

lemma arena_inv_counts:
  assumes "arena_inv cfg a h bs"
  shows "arena_in_use bs = sum_list (map snd (live_of a bs))"
    and "arena_footprint bs = sum_list (map (\<lambda>x. snd x + NCL_MEM_HDR) (live_of a bs))"
    and "arena_live_count bs = length (live_of a bs)"
  using assms arena_in_use_live arena_footprint_live arena_live_count_live
  unfolding arena_inv_def by blast+

text \<open>Replacing the part \<open>M\<close> of the live arena blocks by \<open>M1\<close>.\<close>

lemma arena_step:
  assumes inv: "pool_inv cfg s fls bs" and new: "arena_inv cfg (pl_arena_begin s) (pl_hdr s1) bs1"
    and old: "live_of (pl_arena_begin s) bs = L @ M @ R" and new_live: "live_of (pl_arena_begin s) bs1 = L @ M1 @ R"
    and same: "pl_ready s1 = pl_ready s" "pl_class s1 = pl_class s" "pl_arena_begin s1 = pl_arena_begin s"
      "pl_link s1 = pl_link s"
    and cnt: "g_in_use s1 + sum_list (map snd M) = g_in_use s + sum_list (map snd M1)"
      "g_footprint s1 + sum_list (map (\<lambda>x. snd x + NCL_MEM_HDR) M)
         = g_footprint s + sum_list (map (\<lambda>x. snd x + NCL_MEM_HDR) M1)"
      "g_live_blocks s1 + length M = g_live_blocks s + length M1"
  shows "pool_inv cfg s1 fls bs1" and "set (pool_live cfg s1) = (set (pool_live cfg s) - set M) \<union> set M1"
proof -
  have ai: "arena_inv cfg (pl_arena_begin s) (pl_hdr s) bs" using inv by (simp add: pool_inv_def)
  have g: "g_in_use s1 = classes_in_use (pl_class s) + arena_in_use bs1"
    "g_footprint s1 = classes_in_use (pl_class s) + arena_footprint bs1"
    "g_live_blocks s1 = classes_live_count (pl_class s) + arena_live_count bs1"
    using inv cnt unfolding pool_inv_def arena_inv_counts [OF ai] arena_inv_counts [OF new] old new_live
    by (simp_all add: sum_list_append)
  show inv1: "pool_inv cfg s1 fls bs1"
    using inv new same g unfolding pool_inv_def by simp
  have ca: "carved (pool_begin cfg) (pl_class s) (pl_arena_begin s)"
    and tl: "tiles (pl_hdr s) (pl_arena_begin s) 0 bs (pool_end cfg)"
    using inv by (auto simp: pool_inv_def arena_inv_def)
  have "x \<notin> classes_live (pl_class s) fls" if "x \<in> set M" for x
  proof
    assume "x \<in> classes_live (pl_class s) fls"
    then obtain i where "i < length (pl_class s)" "slot_of (pl_class s ! i) (fst x)"
      by (cases x) (auto simp: classes_live_iff)
    from arena_above_slots(1) [OF inv this, of "snd x"] that old show False by simp
  qed
  moreover have "set M \<inter> (set L \<union> set R) = {}"
    using live_of_distinct [OF tl] unfolding old by (auto simp: distinct_map)
  ultimately show "set (pool_live cfg s1) = (set (pool_live cfg s) - set M) \<union> set M1"
    using live_set [OF inv] live_set [OF inv1] old new_live same by auto
qed

lemma need_props:
  assumes "cfg_ok cfg" and "n \<le> pool_total cfg" and "need = NCL_MEM_HDR + pool_align_up n" and "0 < n"
  shows "NCL_MEM_ALIGN dvd need" "NCL_MEM_HDR + NCL_MEM_ALIGN \<le> need" "n + NCL_MEM_HDR \<le> need"
    "need < n + NCL_MEM_HDR + NCL_MEM_ALIGN"
proof -
  note au = align_up_ok [OF assms(1,2)]
  then have "NCL_MEM_ALIGN \<le> pool_align_up n" using assms(4) by (intro dvd_imp_le) auto
  with au assms(3) show "NCL_MEM_ALIGN dvd need" "NCL_MEM_HDR + NCL_MEM_ALIGN \<le> need"
    "n + NCL_MEM_HDR \<le> need" "need < n + NCL_MEM_HDR + NCL_MEM_ALIGN"
    by (auto simp: NCL_MEM_HDR_def NCL_MEM_ALIGN_def)
qed

lemma arena_alloc_none:
  assumes inv: "pool_inv cfg s fls bs" and al: "arena_alloc cfg n s = (0, s1)"
  shows "s1 = pool_note_refusal_locked cfg s"
    and "(t, True) \<in> set bs \<Longrightarrow> t < NCL_MEM_HDR + pool_align_up n"
proof -
  from inv have geom: "arena_geom cfg (pl_arena_begin s)"
    and tl: "tiles (pl_hdr s) (pl_arena_begin s) 0 bs (pool_end cfg)" by (auto simp: pool_inv_def arena_inv_def)
  have bf: "best_fit cfg (pl_arena_begin s) (pl_hdr s) (NCL_MEM_HDR + pool_align_up n) (pl_arena_begin s) None = None"
    using al by (auto simp: arena_alloc_def Let_def NCL_MEM_HDR_def split: option.splits)
  then show "s1 = pool_note_refusal_locked cfg s" using al by (simp add: arena_alloc_def Let_def)
  show "t < NCL_MEM_HDR + pool_align_up n" if "(t, True) \<in> set bs"
    using best_fit_tiles [OF geom _ _ tl, of None "NCL_MEM_HDR + pool_align_up n"] bf geom that
    by (fastforce simp: arena_geom_def)
qed

lemma arena_alloc_inv:
  assumes inv: "pool_inv cfg s fls bs" and cfg: "cfg_ok cfg" "n \<le> pool_total cfg" and n0: "0 < n"
    and al: "arena_alloc cfg n s = (p, s1)" and p: "p \<noteq> 0"
  shows "\<exists>bs1 k. pool_inv cfg s1 fls bs1 \<and> n \<le> k \<and> k < n + NCL_MEM_HDR + 2 * NCL_MEM_ALIGN
    \<and> NCL_MEM_ALIGN dvd p \<and> pl_arena_begin s \<le> p
    \<and> (\<forall>m. (p, m) \<notin> set (pool_live cfg s)) \<and> set (pool_live cfg s1) = insert (p, k) (set (pool_live cfg s))"
proof -
  let ?a = "pl_arena_begin s" and ?h = "pl_hdr s"
  define need where "need = NCL_MEM_HDR + pool_align_up n"
  from inv have ai: "arena_inv cfg ?a ?h bs" and geom: "arena_geom cfg ?a"
    and tl: "tiles ?h ?a 0 bs (pool_end cfg)" by (auto simp: pool_inv_def arena_inv_def)
  obtain b where bf: "best_fit cfg ?a ?h need ?a None = Some b"
    using al p by (cases "best_fit cfg ?a ?h need ?a None") (auto simp: arena_alloc_def need_def)
  have b: "b \<in> set (starts ?a bs)" "h_free_flag (?h b) \<noteq> 0" "need \<le> h_total (?h b)"
    using best_fit_tiles [OF geom _ _ tl, of None need] bf geom by (auto simp: arena_geom_def)
  then obtain xs t f ys where bs: "bs = xs @ (t, f) # ys" and ba: "b = ?a + sizes xs"
    using starts_split by blast
  note at = arena_at [OF ai [unfolded bs] ba]
  have f: "f" and nt: "need \<le> t" using b at(1) by auto
  obtain T1 ys1 where sb: "split_blocks t need ys = (T1, ys1)" by fastforce
  note np = need_props [OF cfg need_def n0]
  note sp = arena_split_hdr [OF ai [unfolded bs] ba np(1,2) nt sb]
  note sz = split_size [OF sb nt]
  let ?h1 = "pool_split cfg ?a ?h b need"
  let ?h2 = "?h1(b := (?h1 b)\<lparr>h_free_flag := 0\<rparr>)"
  have s1: "p = b + NCL_MEM_HDR" "pl_hdr s1 = ?h2" "g_in_use s1 = g_in_use s + (T1 - NCL_MEM_HDR)"
    "g_footprint s1 = g_footprint s + T1" "g_live_blocks s1 = g_live_blocks s + 1"
    "pl_ready s1 = pl_ready s" "pl_class s1 = pl_class s" "pl_arena_begin s1 = ?a" "pl_link s1 = pl_link s"
    using al bf sp(2) by (auto simp: arena_alloc_def need_def Let_def pool_payload_def)
  have l: "live_of ?a bs = live_of ?a xs @ [] @ live_of (b + t) ys"
    "live_of ?a (xs @ (T1, False) # ys1) = live_of ?a xs @ [(p, T1 - NCL_MEM_HDR)] @ live_of (b + t) ys"
    using f split_live [OF sb nt, of b] by (simp_all add: bs ba s1(1))
  have T1: "NCL_MEM_HDR \<le> T1" using sz np(2) by simp
  note st = arena_step [OF inv _ l, of s1, unfolded s1(2), OF sp(1)]
  have "pool_inv cfg s1 fls (xs @ (T1, False) # ys1)"
    "set (pool_live cfg s1) = insert (p, T1 - NCL_MEM_HDR) (set (pool_live cfg s))"
    using st s1 T1 by auto
  moreover have "(p, m) \<notin> set (pool_live cfg s)" for m
  proof
    assume "(p, m) \<in> set (pool_live cfg s)"
    then consider "(p, m) \<in> classes_live (pl_class s) fls" | "(p, m) \<in> set (live_of ?a bs)"
      using live_set [OF inv] by auto
    then show False
    proof cases
      case 1
      then obtain i where "i < length (pl_class s)" "slot_of (pl_class s ! i) p" by (auto simp: classes_live_iff)
      from arena_above_slots(2) [OF inv this] show False using at(3) s1(1) by simp
    next
      case 2
      have tx: "tiles ?h ?a 0 xs b" using tl by (simp add: bs ba tiles_append)
      show False
        using 2 live_of_range [OF _ tx, of p m] live_of_range [OF _ at(6), of p m] nt np(2) s1(1)
        by (auto simp: l NCL_MEM_HDR_def)
    qed
  qed
  moreover have "NCL_MEM_ALIGN dvd p" using at(2) by (simp add: s1(1) NCL_MEM_HDR_def NCL_MEM_ALIGN_def)
  moreover have "n \<le> T1 - NCL_MEM_HDR" "T1 - NCL_MEM_HDR < n + NCL_MEM_HDR + 2 * NCL_MEM_ALIGN"
    using sz np by (auto simp: NCL_MEM_HDR_def NCL_MEM_ALIGN_def)
  ultimately show ?thesis using at(3) s1(1) by (intro exI [of _ "xs @ (T1, False) # ys1"] exI [of _ "T1 - NCL_MEM_HDR"]) auto
qed

end
