(* ===== verification/Mem_Release.thy ===== *)
theory Mem_Release
  imports Mem_Step
begin

text \<open>
  \<open>ncl_mem_alloc\<close>, \<open>ncl_mem_free\<close> and the in-place and moving branches of
  \<open>ncl_mem_realloc\<close> on a pool in use.
\<close>

section \<open>Allocation\<close>

lemma align_up_pos: "cfg_ok cfg \<Longrightarrow> n \<le> pool_total cfg \<Longrightarrow> n \<le> pool_align_up n"
  by (rule align_up_ok(1))

lemma class_for_block:
  assumes "pool_class_for s n = Some i" and "0 < n"
  shows "i < length (pl_class s)" "mc_block (pl_class s ! i) \<noteq> 0" "pool_align_up n \<le> mc_block (pl_class s ! i)"
  using class_search_Some [of "pool_align_up n" 0 "pl_class s" i] assms by (auto simp: pool_class_for_def)

lemma slot_aligned:
  assumes "pool_inv cfg s fls bs" and "i < length (pl_class s)" and "slot_of (pl_class s ! i) p"
  shows "NCL_MEM_ALIGN dvd p"
proof -
  let ?c = "pl_class s ! i"
  have ca: "carved (pool_begin cfg) (pl_class s) (pl_arena_begin s)" using assms(1) by (simp add: pool_inv_def)
  have nz: "mc_block ?c \<noteq> 0" using assms(3) by (simp add: slot_of_def)
  have "NCL_MEM_ALIGN dvd pool_begin cfg" by (simp add: pool_begin_def)
  then have "NCL_MEM_ALIGN dvd mc_begin ?c" using carved_aligned [OF ca _ assms(2) nz] by simp
  moreover have "NCL_MEM_ALIGN dvd mc_block ?c" using carved_nth [OF ca assms(2) nz] by simp
  then have "NCL_MEM_ALIGN dvd p - mc_begin ?c" using assms(3) dvd_trans by (auto simp: slot_of_def)
  moreover have "mc_begin ?c \<le> p" using assms(3) by (simp add: slot_of_def)
  ultimately show ?thesis by (metis dvd_diffD)
qed

text \<open>What a successful allocation of \<open>n\<close> bytes guarantees.\<close>

definition handed_out :: "mem_cfg \<Rightarrow> nat \<Rightarrow> nat \<Rightarrow> pool \<Rightarrow> pool \<Rightarrow> bool" where
  "handed_out cfg n p s s1 \<longleftrightarrow>
     (\<exists>k. n \<le> k \<and> NCL_MEM_ALIGN dvd p \<and> (\<forall>m. (p, m) \<notin> set (pool_live cfg s))
        \<and> set (pool_live cfg s1) = insert (p, k) (set (pool_live cfg s)))"

lemma handed_out_core:
  "same_core s r \<Longrightarrow> handed_out cfg n p s s1 = handed_out cfg n p r s1"
  by (simp add: handed_out_def same_core_live [of s r])

lemma alloc_ready:
  assumes inv: "pool_inv cfg s fls bs" and cfg: "cfg_ok cfg" and al: "ncl_mem_alloc cfg n s = (p, s1)"
  shows "if p = 0 then \<exists>r. same_core r s \<and> s1 = pool_note_refusal_locked cfg r
         else (\<exists>fls1 bs1. pool_inv cfg s1 fls1 bs1) \<and> handed_out cfg n p s s1"
proof -
  define m where "m = (if n = 0 then 1 else n)"
  have m: "0 < m" "n \<le> m" by (auto simp: m_def)
  have rd: "pl_ready s" by (rule pool_inv_ready [OF inv])
  show ?thesis
  proof (cases "m > pool_total cfg")
    case True
    then have "p = 0 \<and> s1 = pool_note_refusal_locked cfg s"
      using al rd by (auto simp: ncl_mem_alloc_def m_def [symmetric] Let_def)
    then show ?thesis by (metis same_core_refl)
  next
    case False
    define r where "r = pool_note_request m (note_largest m s)"
    have core: "same_core r s" by (simp add: r_def)
    have ir: "pool_inv cfg r fls bs" using inv same_core_inv [OF core] by simp
    have mt: "m \<le> pool_total cfg" using False by simp
    have al1: "ncl_mem_alloc cfg n s = (case pool_class_for r m of
        Some index \<Rightarrow> (case pool_class_take index r of
            (out, s2) \<Rightarrow> if out \<noteq> 0 then (out, s2) else arena_alloc cfg m s2)
      | None \<Rightarrow> arena_alloc cfg m r)"
      using rd False unfolding ncl_mem_alloc_def m_def [symmetric] Let_def init_ready [OF rd] r_def [symmetric] by simp
    consider (slot) i where "pool_class_for r m = Some i" "pool_class_take i r = (p, s1)" "p \<noteq> 0"
      | (arena) "arena_alloc cfg m r = (p, s1)"
    proof (cases "pool_class_for r m")
      case (Some i)
      show ?thesis
      proof (cases "mc_head (pl_class r ! i) = 0")
        case True
        then have "pool_class_take i r = (0, r)" by (simp add: pool_class_take_def Let_def)
        then show ?thesis using that(2) al al1 Some by simp
      next
        case False
        then show ?thesis using that(1) [OF Some] al al1 Some
          by (cases "pool_class_take i r") (auto simp: pool_class_take_def Let_def)
      qed
    qed (use al al1 that(2) in auto)
    then show ?thesis
    proof cases
      case slot
      note cb = class_for_block [OF slot(1) m(1)]
      have hd: "mc_head (pl_class r ! i) \<noteq> 0" using slot(2,3) by (auto simp: pool_class_take_def Let_def split: if_splits)
      note tk = take_inv [OF ir cb(1,2) hd slot(2)]
      have "n \<le> mc_block (pl_class r ! i)"
        using m(2) align_up_pos [OF cfg mt] cb(3) by simp
      then have "handed_out cfg n p r s1"
        unfolding handed_out_def using slot_aligned [OF ir cb(1) tk(2)] tk(4,5) by blast
      then show ?thesis using tk(1) slot(3) handed_out_core [OF core] by auto
    next
      case arena
      show ?thesis
      proof (cases "p = 0")
        case True
        then show ?thesis using arena_alloc_none(1) [OF ir] arena core by auto
      next
        case False
        from arena_alloc_inv [OF ir cfg mt m(1) arena False] obtain bs1 k where
          "pool_inv cfg s1 fls bs1" "m \<le> k" "NCL_MEM_ALIGN dvd p" "\<forall>m. (p, m) \<notin> set (pool_live cfg r)"
          "set (pool_live cfg s1) = insert (p, k) (set (pool_live cfg r))" by blast
        then have "handed_out cfg n p r s1" "\<exists>fls1 bs1. pool_inv cfg s1 fls1 bs1"
          unfolding handed_out_def using m(2) order_trans by blast+
        then show ?thesis using False handed_out_core [OF core] by simp
      qed
    qed
  qed
qed

section \<open>Release\<close>

lemma live_of_split:
  "(p, k) \<in> set (live_of a bs) \<Longrightarrow>
     \<exists>xs t ys. bs = xs @ (t, False) # ys \<and> p = a + sizes xs + NCL_MEM_HDR \<and> k = t - NCL_MEM_HDR"
proof (induction bs arbitrary: a)
  case (Cons b bs)
  obtain t f where b: "b = (t, f)" by fastforce
  show ?case
  proof (cases "\<not> f \<and> p = a + NCL_MEM_HDR \<and> k = t - NCL_MEM_HDR")
    case True
    with b show ?thesis by (intro exI [of _ "[]"]) auto
  next
    case False
    then have "(p, k) \<in> set (live_of (a + t) bs)" using Cons.prems b by (auto split: if_splits)
    from Cons.IH [OF this] obtain xs t1 ys where
      "bs = xs @ (t1, False) # ys" "p = a + t + sizes xs + NCL_MEM_HDR" "k = t1 - NCL_MEM_HDR" by blast
    with b show ?thesis by (intro exI [of _ "(t, f) # xs"]) auto
  qed
qed simp

lemma live_cases:
  assumes inv: "pool_inv cfg s fls bs" and p: "(p, k) \<in> set (pool_live cfg s)"
  obtains (slot) i where "i < length (pl_class s)" "slot_of (pl_class s ! i) p" "p \<notin> set (fls ! i)"
      "k = mc_block (pl_class s ! i)" "pool_class_of s p = (if p = 0 then None else Some i)"
  | (arena) xs t ys b where "bs = xs @ (t, False) # ys" "b = pl_arena_begin s + sizes xs"
      "p = b + NCL_MEM_HDR" "k = t - NCL_MEM_HDR" "pool_class_of s p = None"
      "pool_block_of cfg (pl_arena_begin s) (pl_hdr s) p = Some b"
proof -
  from inv have ca: "carved (pool_begin cfg) (pl_class s) (pl_arena_begin s)"
    and ai: "arena_inv cfg (pl_arena_begin s) (pl_hdr s) bs" and geom: "arena_geom cfg (pl_arena_begin s)"
    by (auto simp: pool_inv_def arena_inv_def)
  from live_set [OF inv] p consider "(p, k) \<in> classes_live (pl_class s) fls"
    | "(p, k) \<in> set (live_of (pl_arena_begin s) bs)" by auto
  then show thesis
  proof cases
    case 1
    then obtain i where i: "i < length (pl_class s)" "slot_of (pl_class s ! i) p" "p \<notin> set (fls ! i)"
      "k = mc_block (pl_class s ! i)" by (auto simp: classes_live_iff)
    with slot region_search_unique [OF ca i(1,2)] show thesis by (simp add: pool_class_of_def)
  next
    case 2
    then obtain xs t ys where x: "bs = xs @ (t, False) # ys"
      "p = pl_arena_begin s + sizes xs + NCL_MEM_HDR" "k = t - NCL_MEM_HDR"
      using live_of_split by blast
    let ?b = "pl_arena_begin s + sizes xs"
    note at = arena_at [OF ai [unfolded x(1)] refl]
    have "pool_class_of s p = None"
    proof (cases "pool_class_of s p")
      case (Some i)
      then have "i < length (pl_class s)" "slot_of (pl_class s ! i) p"
        using region_search_Some [of p 0 "pl_class s" i] by (auto simp: pool_class_of_def split: if_splits)
      from arena_above_slots(2) [OF inv this] x(2) show ?thesis by simp
    qed
    moreover have "pool_block_of cfg (pl_arena_begin s) (pl_hdr s) p = Some ?b"
    proof -
      have "p mod NCL_MEM_ALIGN = 0" using at(2) by (simp add: x(2) NCL_MEM_HDR_def NCL_MEM_ALIGN_def mod_eq_0_iff_dvd)
      moreover have "p < pool_end cfg"
        using at(4,8) by (simp add: x(2) NCL_MEM_ALIGN_def)
      ultimately show ?thesis using geom at(1,7) x(2) by (simp add: pool_block_of_def arena_geom_def)
    qed
    ultimately show thesis using arena x by blast
  qed
qed

lemma free_arena_eq:
  assumes "pl_ready s" and "p \<noteq> 0" and "pool_class_of s p = None"
    and "pool_block_of cfg (pl_arena_begin s) (pl_hdr s) p = Some b"
  shows "ncl_mem_free cfg p s =
    s\<lparr>pl_hdr := fst (free_hdr cfg (pl_arena_begin s) (pl_hdr s) b),
      g_in_use := g_in_use s - pool_payload (pl_hdr s) b,
      g_footprint := g_footprint s - h_total (pl_hdr s b), g_live_blocks := g_live_blocks s - 1,
      g_bad_links := g_bad_links s + (if snd (free_hdr cfg (pl_arena_begin s) (pl_hdr s) b) then 1 else 0)\<rparr>"
  using assms by (simp add: ncl_mem_free_def free_hdr_def Let_def split: option.splits)

lemma free_ready:
  assumes inv: "pool_inv cfg s fls bs" and p: "(p, k) \<in> set (pool_live cfg s)" "p \<noteq> 0"
  shows "\<exists>fls1 bs1. pool_inv cfg (ncl_mem_free cfg p s) fls1 bs1"
    and "set (pool_live cfg (ncl_mem_free cfg p s)) = set (pool_live cfg s) - {(p, k)}"
    and "g_bad_links (ncl_mem_free cfg p s) = g_bad_links s"
proof -
  have rd: "pl_ready s" by (rule pool_inv_ready [OF inv])
  have "(\<exists>fls1 bs1. pool_inv cfg (ncl_mem_free cfg p s) fls1 bs1)
    \<and> set (pool_live cfg (ncl_mem_free cfg p s)) = set (pool_live cfg s) - {(p, k)}
    \<and> g_bad_links (ncl_mem_free cfg p s) = g_bad_links s"
    using inv p(1)
  proof (cases rule: live_cases)
    case (slot i)
    then have "ncl_mem_free cfg p s = pool_class_give i p s"
      using rd p(2) by (simp add: ncl_mem_free_def Let_def)
    then show ?thesis using give_inv [OF inv slot(1-3) p(2)] slot(4)
      by (auto simp: pool_class_give_def Let_def)
  next
    case (arena xs t ys b)
    from inv have ai: "arena_inv cfg (pl_arena_begin s) (pl_hdr s) bs" by (simp add: pool_inv_def)
    note eq = free_arena_eq [OF rd p(2) arena(5,6)]
    note at = arena_at [OF ai [unfolded arena(1)] arena(2)]
    note fh = arena_free_hdr [OF ai [unfolded arena(1)] arena(2)]
    have hb: "pool_payload (pl_hdr s) b = k" "h_total (pl_hdr s b) = k + NCL_MEM_HDR"
      using at(1,4) arena(4) by (auto simp: pool_payload_def)
    have l: "live_of (pl_arena_begin s) bs = live_of (pl_arena_begin s) xs @ [(p, k)] @ live_of (b + t) ys"
      "live_of (pl_arena_begin s) (free_blocks xs t ys)
         = live_of (pl_arena_begin s) xs @ [] @ live_of (b + t) ys"
      using arena by (auto simp: free_blocks_live)
    have cnt: "k \<le> g_in_use s" "k + NCL_MEM_HDR \<le> g_footprint s" "1 \<le> g_live_blocks s"
      using inv arena_inv_counts [OF ai] by (auto simp: pool_inv_def l)
    let ?s1 = "ncl_mem_free cfg p s"
    have hd: "pl_hdr ?s1 = fst (free_hdr cfg (pl_arena_begin s) (pl_hdr s) b)" by (simp add: eq)
    have "pool_inv cfg ?s1 fls (free_blocks xs t ys)
      \<and> set (pool_live cfg ?s1) = (set (pool_live cfg s) - set [(p, k)]) \<union> set []"
      by (intro conjI arena_step [OF inv _ l, of ?s1, unfolded hd, OF fh(1)]) (use cnt hb in \<open>simp_all add: eq\<close>)
    then show ?thesis using fh(2) by (auto simp: eq)
  qed
  then show "\<exists>fls1 bs1. pool_inv cfg (ncl_mem_free cfg p s) fls1 bs1"
    "set (pool_live cfg (ncl_mem_free cfg p s)) = set (pool_live cfg s) - {(p, k)}"
    "g_bad_links (ncl_mem_free cfg p s) = g_bad_links s" by blast+
qed

end
