(* ===== verification/Mem_Realloc.thy ===== *)
theory Mem_Realloc
  imports Mem_Release
begin

text \<open>\<open>ncl_mem_realloc\<close> on a live block of a pool in use, and the contents of live blocks.\<close>

lemma same_core_data: "pl_data (pool_note_request n s) = pl_data s" "pl_data (note_largest n s) = pl_data s"
  "pl_data (pool_note_refusal_locked cfg s) = pl_data s" "pl_data (pool_init_locked cfg s) = pl_data s"
  by (auto simp: pool_note_request_def note_largest_def pool_note_failure_locked_def
      pool_note_refusal_locked_def pool_init_locked_def Let_def split: prod.splits)

lemma take_data: "pl_data (snd (pool_class_take i s)) = pl_data s"
  by (simp add: pool_class_take_def Let_def)

lemma arena_alloc_data: "pl_data (snd (arena_alloc cfg n s)) = pl_data s"
  by (simp add: arena_alloc_def Let_def same_core_data split: option.split)

lemma alloc_data: "ncl_mem_alloc cfg n s = (p, s1) \<Longrightarrow> pl_data s1 = pl_data s"
  using take_data arena_alloc_data
  by (auto simp: ncl_mem_alloc_def Let_def same_core_data split: option.splits prod.splits if_splits;
      metis same_core_data snd_conv)

lemma free_data: "pl_data (ncl_mem_free cfg p s) = pl_data s"
  by (simp add: ncl_mem_free_def pool_class_give_def Let_def same_core_data split: option.split)

lemma data_inv: "pool_inv cfg (s\<lparr>pl_data := d\<rparr>) fls bs = pool_inv cfg s fls bs"
  by (simp add: pool_inv_def)

lemma data_live: "pool_live cfg (s\<lparr>pl_data := d\<rparr>) = pool_live cfg s"
  by (rule same_core_live) (simp add: same_core_def)

text \<open>The bytes of the live blocks in \<open>L\<close> are the same in two memories.\<close>

definition keeps :: "(nat \<times> nat) set \<Rightarrow> (nat \<Rightarrow> u8) \<Rightarrow> (nat \<Rightarrow> u8) \<Rightarrow> bool" where
  "keeps L d d1 \<longleftrightarrow> (\<forall>(r, n) \<in> L. \<forall>i < n. d1 (r + i) = d (r + i))"

definition resized :: "mem_cfg \<Rightarrow> nat \<Rightarrow> nat \<Rightarrow> nat \<Rightarrow> nat \<Rightarrow> pool \<Rightarrow> pool \<Rightarrow> bool" where
  "resized cfg p k n q s s1 \<longleftrightarrow>
     (\<exists>fls bs. pool_inv cfg s1 fls bs)
     \<and> keeps (set (pool_live cfg s) - {(p, k)}) (pl_data s) (pl_data s1)
     \<and> (if q = 0 then set (pool_live cfg s1) = set (pool_live cfg s) \<and> pl_data s1 = pl_data s
        else (\<exists>m \<ge> n. set (pool_live cfg s1) = insert (q, m) (set (pool_live cfg s) - {(p, k)}))
          \<and> (\<forall>i < min k n. pl_data s1 (q + i) = pl_data s (p + i)))"

lemma resized_core:
  assumes "same_core s r" and "pl_data s = pl_data r" and "resized cfg p k n q s s1"
  shows "resized cfg p k n q r s1"
  using assms(3) unfolding resized_def same_core_live [OF assms(1), of cfg] assms(2) .

lemma keeps_refl [simp]: "keeps L d d"
  by (simp add: keeps_def)

lemma keeps_copy:
  assumes "\<And>x. x \<in> L \<Longrightarrow> separate x (q, m)" and "c \<le> m"
  shows "keeps L d (mem_copy q p c d)"
  using assms by (fastforce simp: keeps_def mem_copy_def separate_def)

lemma realloc_move_ready:
  assumes inv: "pool_inv cfg s fls bs" and cfg: "cfg_ok cfg" and p: "(p, k) \<in> set (pool_live cfg s)" "p \<noteq> 0"
    and mv: "realloc_move cfg p n (min k n) s = (q, s1)"
  shows "resized cfg p k n q s s1"
proof -
  obtain fresh s2 where al: "ncl_mem_alloc cfg n s = (fresh, s2)" by fastforce
  note ar = alloc_ready [OF inv cfg al] and ad = alloc_data [OF al]
  show ?thesis
  proof (cases "fresh = 0")
    case True
    then have qs: "q = 0" "s1 = s2" using mv al by (simp_all add: realloc_move_def)
    from ar True obtain r where r: "same_core r s" "s2 = pool_note_refusal_locked cfg r" by auto
    then have "same_core s2 s" using same_core_trans [OF note_core(4) r(1)] by simp
    then show ?thesis using inv same_core_inv [of s2 s] same_core_live [of s2 s] ad qs
      by (auto simp: resized_def)
  next
    case False
    let ?s3 = "s2\<lparr>pl_data := mem_copy fresh p (min k n) (pl_data s2)\<rparr>"
    have qs: "q = fresh" "s1 = ncl_mem_free cfg p ?s3"
      using mv al False by (auto simp: realloc_move_def)
    from ar False obtain fls1 bs1 m where
      i2: "pool_inv cfg s2 fls1 bs1" and m: "n \<le> m" "\<And>j. (fresh, j) \<notin> set (pool_live cfg s)"
      "set (pool_live cfg s2) = insert (fresh, m) (set (pool_live cfg s))"
      by (auto simp: handed_out_def)
    have i3: "pool_inv cfg ?s3 fls1 bs1" and l3: "set (pool_live cfg ?s3) = insert (fresh, m) (set (pool_live cfg s))"
      using i2 m(3) by (simp_all add: data_inv data_live)
    have p3: "(p, k) \<in> set (pool_live cfg ?s3)" using p(1) l3 by simp
    note fr = free_ready [OF i3 p3 p(2)]
    have "(fresh, m) \<noteq> (p, k)" using m(2) p(1) by metis
    then have live: "set (pool_live cfg s1) = insert (q, m) (set (pool_live cfg s) - {(p, k)})"
      using fr(2) l3 qs by auto
    have "separate x (fresh, m)" if "x \<in> set (pool_live cfg s)" for x
    proof -
      have "x \<noteq> (fresh, m)" using that m(2) by auto
      then show ?thesis using inv_live_separate [OF i2, of x "(fresh, m)"] that m(3) by auto
    qed
    then have "keeps (set (pool_live cfg s) - {(p, k)}) (pl_data s) (pl_data s1)"
      using keeps_copy [of "set (pool_live cfg s) - {(p, k)}" fresh m "min k n" "pl_data s" p] m(1) ad
      by (simp add: qs free_data)
    moreover have "\<forall>i < min k n. pl_data s1 (q + i) = pl_data s (p + i)"
      using ad by (simp add: qs free_data mem_copy_def)
    ultimately show ?thesis using False fr(1) live m(1) qs by (auto simp: resized_def)
  qed
qed

lemma align_up_nowrap: "n + NCL_MEM_ALIGN \<le> SIZE_MOD \<Longrightarrow> n \<le> pool_align_up n"
  by (auto simp: pool_align_up_def NCL_MEM_ALIGN_def)

lemma realloc_arena_eq:
  assumes "pl_ready s" and "p \<noteq> 0" and "0 < n" and "pool_class_of s p = None"
    and "pool_block_of cfg (pl_arena_begin s) (pl_hdr s) p = Some b" and "n \<le> pool_total cfg"
    and "r = pool_note_request n (note_largest n s)" and "need = NCL_MEM_HDR + pool_align_up n"
  shows "ncl_mem_realloc cfg p n s =
    (let a = pl_arena_begin s; h = pl_hdr s; t = h_total (h b); k = pool_payload h b
     in if need \<le> t
        then (let h1 = pool_split cfg a h b need
              in (p, r\<lparr>pl_hdr := h1, g_in_use := g_in_use r - (t - h_total (h1 b)),
                     g_footprint := g_footprint r - (t - h_total (h1 b))\<rparr>))
        else case pool_block_at cfg a h (b + t) of
            Some nxt \<Rightarrow>
              if h_free_flag (h nxt) \<noteq> 0 \<and> t + h_total (h nxt) \<ge> need
              then (let h1 = pool_split cfg a (pool_merge_forward cfg a h b) b need
                    in (p, r\<lparr>pl_hdr := h1, g_in_use := g_in_use r + (h_total (h1 b) - t),
                           g_footprint := g_footprint r + (h_total (h1 b) - t)\<rparr>))
              else realloc_move cfg p n (if n < k then n else k) r
          | None \<Rightarrow> realloc_move cfg p n (if n < k then n else k) r)"
  unfolding assms(7,8) using assms(1-6) by (simp add: ncl_mem_realloc_def Let_def)

lemma realloc_ready:
  assumes inv: "pool_inv cfg s fls bs" and cfg: "cfg_ok cfg" and p: "(p, k) \<in> set (pool_live cfg s)" "p \<noteq> 0"
    and n: "0 < n" "n + NCL_MEM_ALIGN \<le> SIZE_MOD" and re: "ncl_mem_realloc cfg p n s = (q, s1)"
  shows "resized cfg p k n q s s1"
proof -
  define r where "r = pool_note_request n (note_largest n s)"
  have rd: "pl_ready s" by (rule pool_inv_ready [OF inv])
  have core: "same_core r s" and dat: "pl_data r = pl_data s" by (simp_all add: r_def same_core_data)
  have ir: "pool_inv cfg r fls bs" and lr: "pool_live cfg r = pool_live cfg s"
    using inv same_core_inv [OF core] same_core_live [OF core] by simp_all
  have move: "resized cfg p k n q s s1" if "realloc_move cfg p n (min k n) r = (q, s1)"
    using realloc_move_ready [OF ir cfg _ p(2) that] p(1) lr resized_core [OF core dat] by simp
  show ?thesis using inv p(1)
  proof (cases rule: live_cases)
    case (slot i)
    show ?thesis
    proof (cases "pool_align_up n \<le> k")
      case True
      then have "q = p" "s1 = r" using re slot rd p(2) n(1) unfolding r_def
        by (simp_all add: ncl_mem_realloc_def Let_def)
      moreover have "n \<le> k" using align_up_nowrap [OF n(2)] True by simp
      ultimately show ?thesis using ir lr dat p by (auto simp: resized_def)
    next
      case False
      then have "realloc_move cfg p n (min k n) r = (q, s1)" using re slot rd p(2) n(1) unfolding r_def
        by (simp add: ncl_mem_realloc_def Let_def min_def not_le split: if_splits)
      then show ?thesis by (rule move)
    qed
  next
    case (arena xs t ys b)
    let ?a = "pl_arena_begin s" and ?h = "pl_hdr s"
    from inv have ai: "arena_inv cfg ?a ?h bs" by (simp add: pool_inv_def)
    note aix = ai [unfolded arena(1)]
    note at = arena_at [OF aix arena(2)]
    define need where "need = NCL_MEM_HDR + pool_align_up n"
    have hb: "pool_payload ?h b = k" "h_total (?h b) = t" using at(1) arena(4) by (auto simp: pool_payload_def)
    have oldl: "live_of ?a bs = live_of ?a xs @ [(p, k)] @ live_of (b + t) ys"
      using arena by simp
    have cnt: "k \<le> g_in_use s" "k + NCL_MEM_HDR \<le> g_footprint s" "1 \<le> g_live_blocks s"
      using inv arena_inv_counts [OF ai] by (auto simp: pool_inv_def oldl)
    have rs: "g_in_use r = g_in_use s" "g_footprint r = g_footprint s" "g_live_blocks r = g_live_blocks s"
      "pl_ready r = pl_ready s" "pl_class r = pl_class s" "pl_arena_begin r = ?a" "pl_link r = pl_link s"
      using core by (simp_all add: same_core_def)
    have kt: "k + NCL_MEM_HDR = t" using arena(4) at(4) by simp
    show ?thesis
    proof (cases "n > pool_total cfg")
      case True
      then have "q = 0" "s1 = pool_note_refusal_locked cfg s"
        using re arena(5,6) rd p(2) n(1) by (simp_all add: ncl_mem_realloc_def Let_def)
      then show ?thesis using inv same_core_inv [OF note_core(4), of cfg cfg s]
          same_core_live [OF note_core(4), of cfg cfg s] by (auto simp: resized_def same_core_data)
    next
      case nt: False
      then have nt': "n \<le> pool_total cfg" by simp
      note np = need_props [OF cfg nt' need_def n(1)]
      have m: "(if n < k then n else k) = min k n" by auto
      note re1 = re [unfolded realloc_arena_eq [OF rd p(2) n(1) arena(5,6) nt' r_def need_def] hb m]
      show ?thesis
      proof (cases "need \<le> t")
        case True
        obtain T1 ys1 where sb: "split_blocks t need ys = (T1, ys1)" by fastforce
        note sz = split_size [OF sb True]
        note sh = arena_shrink_hdr [OF aix arena(2) np(1,2) True sb]
          and T = arena_split_hdr(2) [OF aix arena(2) np(1,2) True sb]
        have s1: "q = p" "s1 = r\<lparr>pl_hdr := pool_split cfg ?a ?h b need,
            g_in_use := g_in_use r - (t - T1), g_footprint := g_footprint r - (t - T1)\<rparr>"
          using re1 True T by (simp_all add: Let_def hb)
        have newl: "live_of ?a (xs @ (T1, False) # ys1)
            = live_of ?a xs @ [(p, T1 - NCL_MEM_HDR)] @ live_of (b + t) ys"
          using split_live [OF sb True, of b] arena by simp
        have "pool_inv cfg s1 fls (xs @ (T1, False) # ys1)
          \<and> set (pool_live cfg s1) = (set (pool_live cfg s) - set [(p, k)]) \<union> set [(p, T1 - NCL_MEM_HDR)]"
          by (intro conjI arena_step [OF inv _ oldl newl])
            (use sh sz np kt cnt rs in \<open>simp_all add: s1\<close>)
        moreover have "n \<le> T1 - NCL_MEM_HDR" using sz np by linarith
        ultimately show ?thesis using p(2) s1 dat by (auto simp: resized_def)
      next
        case False
        show ?thesis
        proof (cases "\<exists>nxt. pool_block_at cfg ?a ?h (b + t) = Some nxt \<and> h_free_flag (?h nxt) \<noteq> 0
            \<and> t + h_total (?h nxt) \<ge> need")
          case True
          then have nx: "pool_block_at cfg ?a ?h (b + t) = Some (b + t)" "h_free_flag (?h (b + t)) \<noteq> 0"
            "need \<le> t + h_total (?h (b + t))" using pool_block_at_SomeD by blast+
          obtain t2 ys2 where ys: "ys = (t2, True) # ys2" and t2: "need \<le> t + t2"
          proof (cases ys)
            case Nil
            then show ?thesis using nx(1) at(6) by (simp add: pool_block_at_def NCL_MEM_HDR_def split: if_splits)
          next
            case (Cons y ys2)
            then show ?thesis using nx at(6) that by (cases y) (auto simp: flag_of_def split: if_splits)
          qed
          define T where "T = t + sizes (takeWhile snd ys)"
          have T: "need \<le> T" using ys t2 by (simp add: T_def)
          note gr = arena_grow_hdr [OF aix arena(2), folded T_def]
          obtain T1 ys1 where sb: "split_blocks T need (dropWhile snd ys) = (T1, ys1)" by fastforce
          note sz = split_size [OF sb T]
          note sh = arena_shrink_hdr [OF gr arena(2) np(1,2) T sb]
            and TT = arena_split_hdr(2) [OF gr arena(2) np(1,2) T sb]
          have s1: "q = p" "s1 = r\<lparr>pl_hdr := pool_split cfg ?a (pool_merge_forward cfg ?a ?h b) b need,
              g_in_use := g_in_use r + (T1 - t), g_footprint := g_footprint r + (T1 - t)\<rparr>"
            using re1 False nx TT by (simp_all add: Let_def hb)
          have "live_of (b + T1) ys1 = live_of (b + t) ys"
            using split_live [OF sb T, of b] live_of_skip_free [of "b + t" ys] by (simp add: T_def add.assoc)
          then have newl: "live_of ?a (xs @ (T1, False) # ys1)
              = live_of ?a xs @ [(p, T1 - NCL_MEM_HDR)] @ live_of (b + t) ys"
            using arena by simp
          have "pool_inv cfg s1 fls (xs @ (T1, False) # ys1)
            \<and> set (pool_live cfg s1) = (set (pool_live cfg s) - set [(p, k)]) \<union> set [(p, T1 - NCL_MEM_HDR)]"
            by (intro conjI arena_step [OF inv _ oldl newl])
              (use sh sz np kt cnt rs False in \<open>simp_all add: s1\<close>)
          moreover have "n \<le> T1 - NCL_MEM_HDR" using sz np by linarith
          ultimately show ?thesis using p(2) s1 dat by (auto simp: resized_def)
        next
          case nomerge: False
          then have "realloc_move cfg p n (min k n) r = (q, s1)"
            using re1 False by (auto simp: Let_def hb m split: option.splits if_splits)
          then show ?thesis by (rule move)
        qed
      qed
    qed
  qed
qed

end
