(* ===== verification/Mem_Check.thy ===== *)
theory Mem_Check
  imports Mem_Realloc
begin

text \<open>
  \<open>ncl_mem_check\<close> and the counters of \<open>ncl_mem_get_stats\<close> against the invariant: the walks
  find nothing wrong, and the counters say exactly what is live.
\<close>

section \<open>The self check\<close>

lemma check_list_chain:
  "chain link slot fl \<Longrightarrow> \<forall>p \<in> set fl. slot_of c p \<Longrightarrow> length fl \<le> guard \<Longrightarrow>
     check_list c link slot guard seen = (0, seen + length fl)"
proof (induction fl arbitrary: slot guard seen)
  case Nil
  then show ?case by (cases guard) auto
next
  case (Cons x fl)
  then obtain g where g: "guard = Suc g" by (cases guard) auto
  have "check_list c link (link x) g (seen + 1) = (0, seen + 1 + length fl)"
    using Cons.prems g by (intro Cons.IH) auto
  with Cons.prems g show ?case by (auto simp: slot_of_def)
qed

lemma check_class_ok:
  assumes "class_ok link c fl"
  shows "check_class link c k =
    k\<lparr>ck_used := ck_used k + mc_live c * mc_block c, ck_free := ck_free k + mc_free_blocks c * mc_block c,
      ck_live := ck_live k + mc_live c,
      ck_covered := ck_covered k + (if mc_block c = 0 then 0 else mc_end c - mc_begin c)\<rparr>"
proof (cases "mc_block c = 0")
  case True
  with assms show ?thesis by (simp add: class_ok_def unused_class_def check_class_def)
next
  case False
  with assms have c: "chain link (mc_head c) fl" "\<forall>p \<in> set fl. slot_of c p" "length fl = mc_free_blocks c"
    "mc_live c + mc_free_blocks c = (mc_end c - mc_begin c) div mc_block c"
    by (auto simp: class_ok_def class_count_def)
  define n where "n = (mc_end c - mc_begin c) div mc_block c"
  have "check_list c link (mc_head c) (n + 1) 0 = (0, mc_free_blocks c)"
    using check_list_chain [OF c(1,2), of "n + 1" 0] c(3,4) by (simp add: n_def)
  moreover have "n - mc_free_blocks c = mc_live c" using c(4) by (simp add: n_def)
  ultimately show ?thesis using False c(4) unfolding check_class_def n_def [symmetric] Let_def by simp
qed

definition classes_free_bytes :: "mem_class list \<Rightarrow> nat" where
  "classes_free_bytes cs = (\<Sum>c\<leftarrow>cs. mc_free_blocks c * mc_block c)"

lemma check_classes_ok:
  "classes_ok link cs fls \<Longrightarrow> fold (check_class link) cs k =
    k\<lparr>ck_used := ck_used k + classes_in_use cs, ck_free := ck_free k + classes_free_bytes cs,
      ck_live := ck_live k + classes_live_count cs,
      ck_covered := ck_covered k + (\<Sum>c\<leftarrow>cs. if mc_block c = 0 then 0 else mc_end c - mc_begin c)\<rparr>"
proof (induction cs arbitrary: fls k)
  case (Cons c cs)
  then obtain fl fls1 where f: "fls = fl # fls1" "class_ok link c fl" "classes_ok link cs fls1"
    by (auto simp: classes_ok_def list_all2_Cons1)
  show ?case
    by (simp add: check_class_ok [OF f(2)] Cons.IH [OF f(3)] classes_in_use_def classes_free_bytes_def
        classes_live_count_def)
qed (simp add: classes_in_use_def classes_free_bytes_def classes_live_count_def)

definition arena_free_bytes :: "blocks \<Rightarrow> nat" where
  "arena_free_bytes bs = (\<Sum>b\<leftarrow>bs. if snd b then fst b - NCL_MEM_HDR else 0)"

lemma check_arena_tiles:
  assumes "arena_geom cfg a" and "a \<le> p" and "NCL_MEM_ALIGN dvd p" and "tiles h p prev bs (pool_end cfg)"
    and "coalesced bs" and "pf \<longrightarrow> bs \<noteq> [] \<longrightarrow> \<not> snd (hd bs)" and "ck_covered k + sizes bs \<le> pool_total cfg"
  shows "check_arena cfg a h p prev pf k =
    k\<lparr>ck_covered := ck_covered k + sizes bs, ck_blocks := ck_blocks k + length bs,
      ck_free := ck_free k + arena_free_bytes bs, ck_used := ck_used k + arena_in_use bs,
      ck_live := ck_live k + arena_live_count bs\<rparr>"
  using assms
proof (induction bs arbitrary: p prev pf k)
  case Nil
  then show ?case
    by (simp add: check_arena.simps [of cfg a h "pool_end cfg"] arena_counts arena_free_bytes_def)
next
  case (Cons b bs)
  obtain t f where b: "b = (t, f)" by fastforce
  have at: "pool_block_at cfg a h p = Some p" using Cons.prems by (simp add: block_at_tiles)
  have hp: "h p = \<lparr>h_total = t, h_prev_total = prev, h_free_flag = flag_of f\<rparr>"
    and tl: "tiles h (p + t) t bs (pool_end cfg)" and dv: "NCL_MEM_ALIGN dvd t" using Cons.prems b by auto
  have co: "coalesced bs" "f \<longrightarrow> bs \<noteq> [] \<longrightarrow> \<not> snd (hd bs)"
    using Cons.prems(5) b by (auto simp: coalesced_Cons)
  have pff: "\<not> (f \<and> pf)" using Cons.prems(6) b by auto
  let ?k1 = "k\<lparr>ck_covered := ck_covered k + t, ck_blocks := ck_blocks k + 1,
      ck_free := ck_free k + (if f then t - NCL_MEM_HDR else 0),
      ck_used := ck_used k + (if f then 0 else t - NCL_MEM_HDR),
      ck_live := ck_live k + (if f then 0 else 1)\<rparr>"
  have le: "ck_covered ?k1 + sizes bs \<le> pool_total cfg" using Cons.prems(7) b by simp
  have "check_arena cfg a h p prev pf k = check_arena cfg a h (p + t) t f ?k1"
    using at hp pff le by (cases f) (simp_all add: check_arena.simps [of cfg a h p] pool_payload_def Let_def)
  also have "\<dots> = ?k1\<lparr>ck_covered := ck_covered ?k1 + sizes bs, ck_blocks := ck_blocks ?k1 + length bs,
      ck_free := ck_free ?k1 + arena_free_bytes bs, ck_used := ck_used ?k1 + arena_in_use bs,
      ck_live := ck_live ?k1 + arena_live_count bs\<rparr>"
    by (rule Cons.IH) (use Cons.prems(1-3) tl dv co le in auto)
  finally show ?case using b by (simp add: arena_counts arena_free_bytes_def)
qed

lemma arena_bytes:
  "tiles h p prev bs e \<Longrightarrow> arena_in_use bs + arena_free_bytes bs + NCL_MEM_HDR * length bs = sizes bs"
proof (induction bs arbitrary: p prev)
  case (Cons b bs)
  obtain t f where b: "b = (t, f)" by fastforce
  then have "NCL_MEM_HDR \<le> t" "arena_in_use bs + arena_free_bytes bs + NCL_MEM_HDR * length bs = sizes bs"
    using Cons by auto
  with b show ?case by (simp add: arena_counts arena_free_bytes_def)
qed (simp add: arena_counts arena_free_bytes_def)

lemma carved_bytes:
  assumes "carved cur cs fin" and "classes_ok l cs fls"
  shows "classes_in_use cs + classes_free_bytes cs = fin - cur"
  using assms
proof (induction cs arbitrary: cur fls)
  case (Cons c cs)
  obtain fl fls1 where f: "fls = fl # fls1" "class_ok l c fl" "classes_ok l cs fls1"
    using Cons.prems(2) by (auto simp: classes_ok_def list_all2_Cons1)
  show ?case
  proof (cases "mc_block c = 0")
    case True
    with Cons.IH [OF _ f(3)] Cons.prems(1) show ?thesis
      by (simp add: classes_in_use_def classes_free_bytes_def)
  next
    case False
    with Cons.prems(1) have c: "mc_begin c = cur" "cur \<le> mc_end c" "mc_block c dvd mc_end c - cur"
      "carved (mc_end c) cs fin" by auto
    have "(mc_live c + mc_free_blocks c) * mc_block c = mc_end c - cur"
      using f(2) False c by (simp add: class_ok_def class_count_def)
    with Cons.IH [OF c(4) f(3)] c(2) carved_le [OF c(4)] show ?thesis
      by (simp add: classes_in_use_def classes_free_bytes_def add_mult_distrib)
  qed
qed (simp add: classes_in_use_def classes_free_bytes_def)

lemma check_ready:
  assumes inv: "pool_inv cfg s fls bs"
  shows "ncl_mem_check cfg s = (0, s)"
proof -
  from inv have ca: "carved (pool_begin cfg) (pl_class s) (pl_arena_begin s)"
    and ok: "classes_ok (pl_link s) (pl_class s) fls"
    and ai: "arena_inv cfg (pl_arena_begin s) (pl_hdr s) bs" by (auto simp: pool_inv_def)
  let ?a = "pl_arena_begin s"
  from ai have geom: "arena_geom cfg ?a" and tl: "tiles (pl_hdr s) ?a 0 bs (pool_end cfg)"
    and co: "coalesced bs" by (auto simp: arena_inv_def)
  have end_eq: "pool_end cfg = ?a + sizes bs" using tiles_end [OF tl] .
  have tot: "(?a - pool_begin cfg) + sizes bs = pool_total cfg"
    using carved_le [OF ca] end_eq by (simp add: pool_end_def)
  let ?k1 = "\<lparr>ck_problems = 0, ck_covered = ?a - pool_begin cfg, ck_used = classes_in_use (pl_class s),
      ck_free = classes_free_bytes (pl_class s), ck_live = classes_live_count (pl_class s), ck_blocks = 0\<rparr>"
  have k1: "fold (check_class (pl_link s)) (pl_class s)
      \<lparr>ck_problems = 0, ck_covered = 0, ck_used = 0, ck_free = 0, ck_live = 0, ck_blocks = 0\<rparr> = ?k1"
    by (simp add: check_classes_ok [OF ok] carved_sum [OF ca])
  have k3: "check_arena cfg ?a (pl_hdr s) ?a 0 False ?k1 =
      \<lparr>ck_problems = 0, ck_covered = pool_total cfg, ck_used = g_in_use s,
       ck_free = classes_free_bytes (pl_class s) + arena_free_bytes bs, ck_live = g_live_blocks s,
       ck_blocks = length bs\<rparr>"
    using check_arena_tiles [OF geom _ _ tl co, of False ?k1] geom tot inv
    by (simp add: arena_geom_def pool_inv_def)
  have bal: "g_in_use s + (classes_free_bytes (pl_class s) + arena_free_bytes bs) + NCL_MEM_HDR * length bs
      = pool_total cfg"
    using carved_bytes [OF ca ok] arena_bytes [OF tl] tot inv by (simp add: pool_inv_def)
  have a0: "?a \<noteq> 0" using geom by (simp add: arena_geom_def)
  show ?thesis
    using a0 bal unfolding ncl_mem_check_def Let_def init_ready [OF pool_inv_ready [OF inv]] k1
    by (simp add: k3)
qed

section \<open>The counters are those of the live blocks\<close>

lemma class_live_length:
  assumes "class_ok link c fl" and "mc_block c \<noteq> 0" and "\<And>p. p \<in> set (class_slots c) \<longleftrightarrow> slot_of c p"
  shows "length (filter (\<lambda>p. p \<notin> set fl) (class_slots c)) = mc_live c"
proof -
  have ok: "distinct fl" "set fl \<subseteq> set (class_slots c)" "length fl + mc_live c = class_count c"
    using assms by (auto simp: class_ok_def)
  have "length (filter (\<lambda>p. p \<in> set fl) (class_slots c)) = card ({p. p \<in> set fl} \<inter> set (class_slots c))"
    using distinct_length_filter [OF distinct_class_slots [OF assms(2)]] by auto
  also have "{p. p \<in> set fl} \<inter> set (class_slots c) = set fl" using ok(2) by auto
  finally have "length (filter (\<lambda>p. p \<in> set fl) (class_slots c)) = length fl"
    using ok(1) by (simp add: distinct_card)
  then show ?thesis
    using sum_length_filter_compl [of "\<lambda>p. p \<in> set fl" "class_slots c"] ok(3) by simp
qed

lemma class_part_counts:
  assumes "\<And>i. i < length cs \<Longrightarrow> mc_block (cs ! i) \<noteq> 0 \<Longrightarrow>
      length (filter (\<lambda>p. p \<notin> set (follow l (mc_head (cs ! i)) (mc_free_blocks (cs ! i)))) (class_slots (cs ! i)))
        = mc_live (cs ! i)"
    and "\<And>i. i < length cs \<Longrightarrow> mc_block (cs ! i) = 0 \<Longrightarrow> mc_live (cs ! i) = 0"
  defines "f \<equiv> \<lambda>c. if mc_block c = 0 then [] else map (\<lambda>p. (p, mc_block c))
     (filter (\<lambda>p. p \<notin> set (follow l (mc_head c) (mc_free_blocks c))) (class_slots c))"
  shows "length (concat (map f cs)) = classes_live_count cs
    \<and> sum_list (map snd (concat (map f cs))) = classes_in_use cs"
  using assms(1,2)
proof (induction cs)
  case (Cons c cs)
  have "length (f c) = mc_live c \<and> sum_list (map snd (f c)) = mc_live c * mc_block c"
    using Cons.prems(1,2) [of 0] by (auto simp: f_def o_def sum_list_triv)
  moreover have "length (concat (map f cs)) = classes_live_count cs
    \<and> sum_list (map snd (concat (map f cs))) = classes_in_use cs"
    using Cons.prems(1,2) [of "Suc i" for i] by (intro Cons.IH) auto
  ultimately show ?case by (simp add: classes_live_count_def classes_in_use_def)
qed (simp add: classes_live_count_def classes_in_use_def)

lemma live_counts:
  assumes inv: "pool_inv cfg s fls bs"
  shows "length (pool_live cfg s) = g_live_blocks s" and "sum_list (map snd (pool_live cfg s)) = g_in_use s"
proof -
  have ai: "arena_inv cfg (pl_arena_begin s) (pl_hdr s) bs"
    and ok: "classes_ok (pl_link s) (pl_class s) fls" using inv by (auto simp: pool_inv_def)
  have "length (concat (map (\<lambda>c. if mc_block c = 0 then [] else map (\<lambda>p. (p, mc_block c))
     (filter (\<lambda>p. p \<notin> set (follow (pl_link s) (mc_head c) (mc_free_blocks c))) (class_slots c))) (pl_class s)))
       = classes_live_count (pl_class s)
    \<and> sum_list (map snd (concat (map (\<lambda>c. if mc_block c = 0 then [] else map (\<lambda>p. (p, mc_block c))
     (filter (\<lambda>p. p \<notin> set (follow (pl_link s) (mc_head c) (mc_free_blocks c))) (class_slots c))) (pl_class s))))
       = classes_in_use (pl_class s)"
  proof (rule class_part_counts)
    fix i assume i: "i < length (pl_class s)" "mc_block (pl_class s ! i) \<noteq> 0"
    note ci = class_inv [OF inv i]
    have "follow (pl_link s) (mc_head (pl_class s ! i)) (mc_free_blocks (pl_class s ! i)) = fls ! i"
      using ci(1) i(2) by (metis class_ok_def follow_chain)
    then show "length (filter (\<lambda>p. p \<notin> set (follow (pl_link s) (mc_head (pl_class s ! i))
        (mc_free_blocks (pl_class s ! i)))) (class_slots (pl_class s ! i))) = mc_live (pl_class s ! i)"
      using class_live_length [OF ci(1) i(2) ci(2)] by simp
  next
    fix i assume "i < length (pl_class s)" "mc_block (pl_class s ! i) = 0"
    then show "mc_live (pl_class s ! i) = 0"
      using classes_okD [OF ok] by (fastforce simp: class_ok_def unused_class_def)
  qed
  then show "length (pool_live cfg s) = g_live_blocks s" "sum_list (map snd (pool_live cfg s)) = g_in_use s"
    using inv arena_blocks_inv [OF inv] arena_inv_counts [OF ai] by (simp_all add: pool_live_def pool_inv_def)
qed

end
