(* ===== verification/Mem_Reach.thy ===== *)
theory Mem_Reach
  imports Mem_Check "HOL-Library.Multiset"
begin

text \<open>
  Every state the pool can get into: the operations of the interface in any order on
  live pointers, and the owners of live blocks writing to them. The contract of an
  allocator as a locale, with the pool as its model.
\<close>

section \<open>Good states\<close>

text \<open>A pool that was never called, or one that satisfies the invariant.\<close>

definition pool_fresh :: "pool \<Rightarrow> bool" where
  "pool_fresh s \<longleftrightarrow>
     \<not> pl_ready s \<and> pl_class s = replicate 8 unused_class \<and> pl_arena_begin s = 0
     \<and> g_in_use s = 0 \<and> g_footprint s = 0 \<and> g_live_blocks s = 0"

definition pool_ok :: "mem_cfg \<Rightarrow> pool \<Rightarrow> bool" where
  "pool_ok cfg s \<longleftrightarrow> pool_fresh s \<or> (\<exists>fls bs. pool_inv cfg s fls bs)"

lemma pool_okI: "pool_inv cfg s fls bs \<Longrightarrow> pool_ok cfg s"
  by (auto simp: pool_ok_def)

lemma pool_ok_init:
  assumes "cfg_ok cfg" and "pool_ok cfg s"
  obtains fls bs where "pool_inv cfg (pool_init_locked cfg s) fls bs"
proof (cases "pool_fresh s")
  case True
  with assms(1) init_inv [of cfg s] that show thesis by (auto simp: pool_fresh_def)
next
  case False
  with assms(2) pool_inv_ready that show thesis by (auto simp: pool_ok_def)
qed

lemma fresh_live: "pool_fresh s \<Longrightarrow> pool_live cfg s = []"
  by (simp add: pool_live_def pool_fresh_def unused_class_def arena_blocks_def walk_blocks.simps [of cfg 0]
      pool_block_at_def)

lemma fresh_counts: "pool_fresh s \<Longrightarrow> g_live_blocks (pool_init_locked cfg s) = 0"
  by (auto simp: pool_fresh_def pool_init_locked_def Let_def split: prod.splits)

lemma init_live:
  assumes "cfg_ok cfg" and "pool_ok cfg s"
  shows "pool_live cfg (pool_init_locked cfg s) = pool_live cfg s"
proof (cases "pool_fresh s")
  case True
  obtain fls bs where "pool_inv cfg (pool_init_locked cfg s) fls bs" using pool_ok_init [OF assms] .
  from live_counts(1) [OF this] fresh_counts [OF True] fresh_live [OF True] show ?thesis by simp
next
  case False
  with assms(2) pool_inv_ready show ?thesis by (auto simp: pool_ok_def)
qed

lemma init_idem [simp]: "pool_init_locked cfg (pool_init_locked cfg s) = pool_init_locked cfg s"
  by (rule init_ready) (simp add: pool_init_locked_def Let_def split: prod.split)

lemma alloc_init: "ncl_mem_alloc cfg n (pool_init_locked cfg s) = ncl_mem_alloc cfg n s"
  by (simp add: ncl_mem_alloc_def)

lemma free_init: "p \<noteq> 0 \<Longrightarrow> ncl_mem_free cfg p (pool_init_locked cfg s) = ncl_mem_free cfg p s"
  unfolding ncl_mem_free_def init_idem by (simp only: if_False)

lemma realloc_init:
  "p \<noteq> 0 \<Longrightarrow> n \<noteq> 0 \<Longrightarrow> ncl_mem_realloc cfg p n (pool_init_locked cfg s) = ncl_mem_realloc cfg p n s"
  unfolding ncl_mem_realloc_def init_idem by (simp only: if_False)

lemma fresh_core: "same_core s r \<Longrightarrow> pool_fresh s = pool_fresh r"
  by (simp add: pool_fresh_def same_core_def)

lemma ok_core: "same_core s r \<Longrightarrow> pool_ok cfg r \<Longrightarrow> pool_ok cfg s"
  unfolding pool_ok_def using same_core_inv [of s r cfg] fresh_core [of s r] by blast

lemma live_nonnull:
  assumes "cfg_ok cfg" and "pool_ok cfg s" and "(p, k) \<in> set (pool_live cfg s)"
  shows "p \<noteq> 0"
proof -
  obtain fls bs where i: "pool_inv cfg (pool_init_locked cfg s) fls bs" using pool_ok_init [OF assms(1,2)] .
  from inv_live_range [OF i, of p k] init_live [OF assms(1,2)] assms(3) pool_begin_props [OF assms(1)]
  show ?thesis by auto
qed

section \<open>The contract of an allocator\<close>

fun alloc_list :: "(nat \<Rightarrow> 's \<Rightarrow> nat \<times> 's) \<Rightarrow> nat list \<Rightarrow> 's \<Rightarrow> nat list \<times> 's" where
  "alloc_list alloc [] s = ([], s)"
| "alloc_list alloc (n # ns) s =
     (case alloc n s of (p, s1) \<Rightarrow> (case alloc_list alloc ns s1 of (ps, s2) \<Rightarrow> (p # ps, s2)))"

locale block_allocator =
  fixes ok :: "'s \<Rightarrow> bool" and live :: "'s \<Rightarrow> (nat \<times> nat) set"
    and allocate :: "nat \<Rightarrow> 's \<Rightarrow> nat \<times> 's" and release :: "nat \<Rightarrow> 's \<Rightarrow> 's"
  assumes alloc_ok: "ok s \<Longrightarrow> allocate n s = (p, s1) \<Longrightarrow> ok s1"
    and alloc_null: "ok s \<Longrightarrow> allocate n s = (0, s1) \<Longrightarrow> live s1 = live s"
    and alloc_live: "ok s \<Longrightarrow> allocate n s = (p, s1) \<Longrightarrow> p \<noteq> 0 \<Longrightarrow>
      \<exists>k. n \<le> k \<and> (\<forall>m. (p, m) \<notin> live s) \<and> live s1 = insert (p, k) (live s)"
    and release_ok: "ok s \<Longrightarrow> (p, k) \<in> live s \<Longrightarrow> ok (release p s)"
    and release_live: "ok s \<Longrightarrow> (p, k) \<in> live s \<Longrightarrow> live (release p s) = live s - {(p, k)}"
    and apart: "ok s \<Longrightarrow> x \<in> live s \<Longrightarrow> y \<in> live s \<Longrightarrow> x = y \<or> separate x y"
begin

lemma one_size: "ok s \<Longrightarrow> (p, k) \<in> live s \<Longrightarrow> (p, m) \<in> live s \<Longrightarrow> 0 < k \<Longrightarrow> 0 < m \<Longrightarrow> k = m"
  using apart [of s "(p, k)" "(p, m)"] by (auto simp: separate_def)

text \<open>Any number of successful requests: the blocks are new, and nothing else changed.\<close>

lemma alloc_list_live:
  "ok s \<Longrightarrow> alloc_list allocate ns s = (ps, s1) \<Longrightarrow> 0 \<notin> set ps \<Longrightarrow>
     ok s1 \<and> length ps = length ns \<and> distinct ps \<and> (\<forall>p \<in> set ps. \<forall>m. (p, m) \<notin> live s)
     \<and> (\<exists>ks. list_all2 (\<le>) ns ks \<and> live s1 = live s \<union> set (zip ps ks))"
proof (induction ns arbitrary: s ps)
  case (Cons n ns)
  obtain p s2 qs where al: "allocate n s = (p, s2)" "alloc_list allocate ns s2 = (qs, s1)" "ps = p # qs"
    using Cons.prems(2) by (auto split: prod.splits)
  from alloc_live [OF Cons.prems(1) al(1)] al(3) Cons.prems(3) obtain k where
    k: "n \<le> k" "\<forall>m. (p, m) \<notin> live s" "live s2 = insert (p, k) (live s)" by auto
  have ih: "ok s1 \<and> length qs = length ns \<and> distinct qs \<and> (\<forall>q \<in> set qs. \<forall>m. (q, m) \<notin> live s2)
     \<and> (\<exists>ks. list_all2 (\<le>) ns ks \<and> live s1 = live s2 \<union> set (zip qs ks))"
    using Cons.IH [OF alloc_ok [OF Cons.prems(1) al(1)] al(2)] al(3) Cons.prems(3) by simp
  then obtain ks where ks: "list_all2 (\<le>) ns ks" "live s1 = live s2 \<union> set (zip qs ks)" by blast
  have "list_all2 (\<le>) (n # ns) (k # ks) \<and> live s1 = live s \<union> set (zip ps (k # ks))"
    using k ks al(3) by auto
  moreover have "p \<notin> set qs" using ih k(3) by blast
  ultimately show ?case using ih k al(3) by fastforce
qed auto

text \<open>Handing back blocks of the live set, in any order, removes exactly them.\<close>

lemma release_list_live:
  "ok s \<Longrightarrow> set (zip ps ks) \<subseteq> live s \<Longrightarrow> distinct ps \<Longrightarrow> length ps = length ks \<Longrightarrow>
     ok (fold release ps s) \<and> live (fold release ps s) = live s - set (zip ps ks)"
proof (induction ps arbitrary: s ks)
  case (Cons p ps)
  then obtain k ks1 where ks: "ks = k # ks1" by (cases ks) auto
  have pk: "(p, k) \<in> live s" using Cons.prems(2) ks by simp
  have "(p, k) \<notin> set (zip ps ks1)" using Cons.prems(3) by (auto dest: set_zip_leftD)
  then have "set (zip ps ks1) \<subseteq> live (release p s)"
    using release_live [OF Cons.prems(1) pk] Cons.prems(2) ks by auto
  from Cons.IH [OF release_ok [OF Cons.prems(1) pk] this] Cons.prems(3,4) ks
    release_live [OF Cons.prems(1) pk] show ?case by auto
qed simp

lemma alloc_release:
  assumes "ok s" and "alloc_list allocate ns s = (ps, s1)" and "0 \<notin> set ps" and "mset qs = mset ps"
  shows "ok (fold release qs s1) \<and> live (fold release qs s1) = live s"
proof -
  note al = alloc_list_live [OF assms(1-3)]
  then obtain ks where ks: "list_all2 (\<le>) ns ks" "live s1 = live s \<union> set (zip ps ks)" by blast
  have len: "length ps = length ks" using al ks(1) by (auto dest: list_all2_lengthD)
  have dq: "distinct qs" "set qs = set ps" using assms(4) al mset_eq_imp_distinct_iff mset_eq_setD by blast+
  define f where "f q = the (map_of (zip ps ks) q)" for q
  have zf: "set (zip qs (map f qs)) = set (zip ps ks)"
  proof -
    have "set (zip qs (map f qs)) = (\<lambda>q. (q, f q)) ` set ps" using dq by (simp add: zip_map2 zip_same_conv_map)
    also have "\<dots> = set (zip ps ks)"
    proof -
      have "map (\<lambda>q. (q, f q)) ps = zip ps ks"
        using al len by (intro nth_equalityI) (auto simp: f_def map_of_zip_nth)
      then show ?thesis by (metis set_map)
    qed
    finally show ?thesis .
  qed
  have "live s \<inter> set (zip ps ks) = {}" using al by (auto dest: set_zip_leftD)
  moreover have "set (zip qs (map f qs)) \<subseteq> live s1" using zf ks(2) by simp
  from release_list_live [OF _ this dq(1)] al zf
  have "ok (fold release qs s1) \<and> live (fold release qs s1) = live s1 - set (zip ps ks)" by simp
  ultimately show ?thesis using ks(2) by auto
qed

end

text \<open>The pool keeps the contract.\<close>

lemma pool_alloc_law:
  assumes "cfg_ok cfg" and "pool_ok cfg s" and "ncl_mem_alloc cfg n s = (p, s1)"
  shows "pool_ok cfg s1" and "p = 0 \<Longrightarrow> set (pool_live cfg s1) = set (pool_live cfg s)"
    and "p \<noteq> 0 \<Longrightarrow> handed_out cfg n p s s1"
proof -
  obtain fls bs where i: "pool_inv cfg (pool_init_locked cfg s) fls bs" using pool_ok_init [OF assms(1,2)] .
  have al: "ncl_mem_alloc cfg n (pool_init_locked cfg s) = (p, s1)" using assms(3) by (simp add: alloc_init)
  note ar = alloc_ready [OF i assms(1) al]
  show "pool_ok cfg s1"
  proof (cases "p = 0")
    case True
    with ar obtain r where r: "same_core r (pool_init_locked cfg s)" "s1 = pool_note_refusal_locked cfg r" by auto
    then have "same_core s1 (pool_init_locked cfg s)" using same_core_trans [OF note_core(4) r(1)] by simp
    then show ?thesis using pool_okI [OF i] by (rule ok_core)
  qed (use ar in \<open>auto simp: pool_ok_def\<close>)
  show "set (pool_live cfg s1) = set (pool_live cfg s)" if "p = 0"
  proof -
    from ar that obtain r where r: "same_core r (pool_init_locked cfg s)" "s1 = pool_note_refusal_locked cfg r" by auto
    then have "same_core s1 (pool_init_locked cfg s)" using same_core_trans [OF note_core(4) r(1)] by simp
    then show ?thesis using same_core_live init_live [OF assms(1,2)] by metis
  qed
  show "handed_out cfg n p s s1" if "p \<noteq> 0"
    using ar that init_live [OF assms(1,2)] by (simp add: handed_out_def)
qed

lemma pool_free_law:
  assumes "cfg_ok cfg" and "pool_ok cfg s" and "(p, k) \<in> set (pool_live cfg s)"
  shows "pool_ok cfg (ncl_mem_free cfg p s)"
    and "set (pool_live cfg (ncl_mem_free cfg p s)) = set (pool_live cfg s) - {(p, k)}"
proof -
  obtain fls bs where i: "pool_inv cfg (pool_init_locked cfg s) fls bs" using pool_ok_init [OF assms(1,2)] .
  have p0: "p \<noteq> 0" by (rule live_nonnull [OF assms])
  have pl: "(p, k) \<in> set (pool_live cfg (pool_init_locked cfg s))" using assms init_live by simp
  note fr = free_ready [OF i pl p0, unfolded free_init [OF p0] init_live [OF assms(1,2)]]
  show "pool_ok cfg (ncl_mem_free cfg p s)" using fr(1) by (auto simp: pool_ok_def)
  show "set (pool_live cfg (ncl_mem_free cfg p s)) = set (pool_live cfg s) - {(p, k)}" by (rule fr(2))
qed

lemma pool_apart:
  assumes "cfg_ok cfg" and "pool_ok cfg s" and "x \<in> set (pool_live cfg s)" "y \<in> set (pool_live cfg s)"
  shows "x = y \<or> separate x y"
  using assms init_live [OF assms(1,2)] inv_live_separate pool_ok_init by metis

interpretation pool_allocator: block_allocator "\<lambda>s. cfg_ok cfg \<and> pool_ok cfg s"
  "\<lambda>s. set (pool_live cfg s)" "ncl_mem_alloc cfg" "ncl_mem_free cfg" for cfg
proof (unfold_locales, goal_cases)
  case (1 s n p s1)
  then show ?case using pool_alloc_law(1) by blast
next
  case (2 s n s1)
  then show ?case using pool_alloc_law(2) [OF _ _ 2(2)] by simp
next
  case (3 s n p s1)
  then show ?case using pool_alloc_law(3) [of cfg s n p s1] by (auto simp: handed_out_def)
next
  case (4 s p k)
  then show ?case using pool_free_law(1) by simp
next
  case (5 s p k)
  then show ?case using pool_free_law(2) by simp
next
  case (6 s x y)
  then show ?case using pool_apart [of cfg s x y] by simp
qed

end
