(* ===== verification/Mem_Steps.thy ===== *)
theory Mem_Steps
  imports Mem_Reach
begin

text \<open>
  The pool as a state machine: its operations in any order, and the owners of live blocks
  writing to the bytes they were given. Every reachable state is a good one.
\<close>

text \<open>A write into the block \<open>(p, k)\<close>: bytes outside keep their value, and so do a header
  or a link that no byte of the block belongs to.\<close>

definition writes_block :: "nat \<Rightarrow> nat \<Rightarrow> pool \<Rightarrow> pool \<Rightarrow> bool" where
  "writes_block p k s s1 \<longleftrightarrow>
     (\<exists>h l d. s1 = s\<lparr>pl_hdr := h, pl_link := l, pl_data := d\<rparr>
        \<and> (\<forall>q. q + NCL_MEM_HDR \<le> p \<or> p + k \<le> q \<longrightarrow> h q = pl_hdr s q)
        \<and> (\<forall>q. q + NCL_MEM_ALIGN \<le> p \<or> p + k \<le> q \<longrightarrow> l q = pl_link s q)
        \<and> (\<forall>q. q < p \<or> p + k \<le> q \<longrightarrow> d q = pl_data s q))"

inductive pool_step :: "mem_cfg \<Rightarrow> pool \<Rightarrow> pool \<Rightarrow> bool" for cfg where
  step_alloc: "ncl_mem_alloc cfg n s = (p, s1) \<Longrightarrow> pool_step cfg s s1"
| step_calloc: "ncl_mem_calloc cfg c n s = (p, s1) \<Longrightarrow> pool_step cfg s s1"
| step_free: "p = 0 \<or> (p, k) \<in> set (pool_live cfg s) \<Longrightarrow> pool_step cfg s (ncl_mem_free cfg p s)"
| step_realloc: "p = 0 \<or> (p, k) \<in> set (pool_live cfg s) \<Longrightarrow> n + NCL_MEM_ALIGN \<le> SIZE_MOD \<Longrightarrow>
    ncl_mem_realloc cfg p n s = (q, s1) \<Longrightarrow> pool_step cfg s s1"
| step_stats: "ncl_mem_get_stats cfg s = (st, s1) \<Longrightarrow> pool_step cfg s s1"
| step_reset: "pool_step cfg s (ncl_mem_reset_stats s)"
| step_check: "ncl_mem_check cfg s = (n, s1) \<Longrightarrow> pool_step cfg s s1"
| step_write: "(p, k) \<in> set (pool_live cfg s) \<Longrightarrow> writes_block p k s s1 \<Longrightarrow> pool_step cfg s s1"

inductive pool_reach :: "mem_cfg \<Rightarrow> pool \<Rightarrow> bool" for cfg where
  reach_static: "pool_reach cfg (pool_static h l d)"
| reach_step: "pool_reach cfg s \<Longrightarrow> pool_step cfg s s1 \<Longrightarrow> pool_reach cfg s1"

lemma static_ok [simp]: "pool_ok cfg (pool_static h l d)"
  by (simp add: pool_ok_def pool_fresh_def pool_static_def)

section \<open>Writes\<close>

lemma slot_separate_live:
  assumes inv: "pool_inv cfg s fls bs" and i: "i < length (pl_class s)" "slot_of (pl_class s ! i) q"
    and q: "q \<in> set (fls ! i)" and p: "(p, k) \<in> set (pool_live cfg s)"
  shows "q + NCL_MEM_ALIGN \<le> p \<or> p + k \<le> q"
proof -
  let ?cs = "pl_class s" and ?none = "replicate (length (pl_class s)) []"
  have ca: "carved (pool_begin cfg) ?cs (pl_arena_begin s)"
    and tl: "tiles (pl_hdr s) (pl_arena_begin s) 0 bs (pool_end cfg)"
    using inv by (auto simp: pool_inv_def arena_inv_def)
  have nz: "mc_block (?cs ! i) \<noteq> 0" using i by (simp add: slot_of_def)
  have blk: "NCL_MEM_ALIGN \<le> mc_block (?cs ! i)"
    using carved_nth [OF ca i(1) nz] nz by (intro dvd_imp_le) auto
  have ql: "(q, mc_block (?cs ! i)) \<in> classes_live ?cs ?none" using i by (auto simp: classes_live_iff)
  from live_set [OF inv] p consider "(p, k) \<in> classes_live ?cs fls" | "(p, k) \<in> set (live_of (pl_arena_begin s) bs)"
    by auto
  then show ?thesis
  proof cases
    case 1
    then have "(p, k) \<in> classes_live ?cs ?none" by (auto simp: classes_live_iff)
    moreover have "(p, k) \<noteq> (q, mc_block (?cs ! i))"
      using 1 q carved_slot_unique [OF ca _ i(1) _ i(2)] by (auto simp: classes_live_iff)
    ultimately show ?thesis
      using classes_live_separate [OF ca _ ql, of "(p, k)"] blk by (auto simp: separate_def)
  next
    case 2
    from live_of_range [OF this tl] classes_live_range [OF ca ql] blk show ?thesis by simp
  qed
qed

lemma start_separate_live:
  assumes inv: "pool_inv cfg s fls bs" and q: "q \<in> set (starts (pl_arena_begin s) bs)"
    and p: "(p, k) \<in> set (pool_live cfg s)"
  shows "q + NCL_MEM_HDR \<le> p \<or> p + k \<le> q"
proof -
  let ?a = "pl_arena_begin s"
  have ca: "carved (pool_begin cfg) (pl_class s) ?a" and ai: "arena_inv cfg ?a (pl_hdr s) bs"
    using inv by (auto simp: pool_inv_def)
  from live_set [OF inv] p consider "(p, k) \<in> classes_live (pl_class s) fls" | "(p, k) \<in> set (live_of ?a bs)"
    by auto
  then show ?thesis
  proof cases
    case 1
    have "?a \<le> q" using starts_ge [OF q] .
    with classes_live_range [OF ca 1] show ?thesis by simp
  next
    case 2
    then obtain xs t ys where x: "bs = xs @ (t, False) # ys" "p = ?a + sizes xs + NCL_MEM_HDR" "k = t - NCL_MEM_HDR"
      using live_of_split by blast
    note at = arena_at [OF ai [unfolded x(1)] refl]
    have tx: "tiles (pl_hdr s) ?a 0 xs (?a + sizes xs)" using ai by (simp add: arena_inv_def x(1) tiles_append)
    have "q \<in> set (starts ?a xs) \<or> q = ?a + sizes xs \<or> q \<in> set (starts (?a + sizes xs + t) ys)"
      using q by (auto simp: x(1))
    with tiles_starts [OF tx, of q] tiles_starts [OF at(6), of q] x at(4) show ?thesis by auto
  qed
qed

lemma write_inv:
  assumes inv: "pool_inv cfg s fls bs" and p: "(p, k) \<in> set (pool_live cfg s)" and w: "writes_block p k s s1"
  shows "pool_inv cfg s1 fls bs" and "pool_live cfg s1 = pool_live cfg s"
    and "keeps (set (pool_live cfg s) - {(p, k)}) (pl_data s) (pl_data s1)"
proof -
  obtain h l d where s1: "s1 = s\<lparr>pl_hdr := h, pl_link := l, pl_data := d\<rparr>"
    and h: "\<And>q. q + NCL_MEM_HDR \<le> p \<or> p + k \<le> q \<Longrightarrow> h q = pl_hdr s q"
    and l: "\<And>q. q + NCL_MEM_ALIGN \<le> p \<or> p + k \<le> q \<Longrightarrow> l q = pl_link s q"
    and d: "\<And>q. q < p \<or> p + k \<le> q \<Longrightarrow> d q = pl_data s q" using w unfolding writes_block_def by metis
  have ok: "classes_ok (pl_link s) (pl_class s) fls" and tl: "tiles (pl_hdr s) (pl_arena_begin s) 0 bs (pool_end cfg)"
    using inv by (auto simp: pool_inv_def arena_inv_def)
  have ch: "class_ok l (pl_class s ! i) (fls ! i)" if i: "i < length (pl_class s)" for i
  proof (cases "mc_block (pl_class s ! i) = 0")
    case False
    have co: "class_ok (pl_link s) (pl_class s ! i) (fls ! i)" by (rule class_inv(1) [OF inv i False])
    have "l q = pl_link s q" if "q \<in> set (fls ! i)" for q
      using slot_separate_live [OF inv i _ that p] co that False l by (auto simp: class_ok_def)
    then have "chain l (mc_head (pl_class s ! i)) (fls ! i) = chain (pl_link s) (mc_head (pl_class s ! i)) (fls ! i)"
      by (rule chain_cong)
    with co False show ?thesis by (simp add: class_ok_def)
  qed (use classes_okD [OF ok i] in \<open>simp add: class_ok_def\<close>)
  then have "classes_ok l (pl_class s) fls"
    using ok by (simp add: classes_ok_def list_all2_conv_all_nth)
  moreover have "tiles h (pl_arena_begin s) 0 bs (pool_end cfg)"
    by (rule tiles_cong [where h = "pl_hdr s"])
      (use tl start_separate_live [OF inv _ p] h in auto)
  ultimately show i1: "pool_inv cfg s1 fls bs" using inv by (simp add: s1 pool_inv_def arena_inv_def)
  have fl: "follow l (mc_head c) (mc_free_blocks c) = follow (pl_link s) (mc_head c) (mc_free_blocks c)"
    if c: "c \<in> set (pl_class s)" "mc_block c \<noteq> 0" for c
  proof -
    obtain i where i: "i < length (pl_class s)" "c = pl_class s ! i" using c(1) by (auto simp: in_set_conv_nth)
    show ?thesis
      using ch [OF i(1)] class_inv(1) [OF inv i(1)] c(2) i(2) by (metis class_ok_def follow_chain)
  qed
  have "concat (map (\<lambda>c. if mc_block c = 0 then [] else map (\<lambda>p. (p, mc_block c))
      (filter (\<lambda>p. p \<notin> set (follow l (mc_head c) (mc_free_blocks c))) (class_slots c))) (pl_class s))
    = concat (map (\<lambda>c. if mc_block c = 0 then [] else map (\<lambda>p. (p, mc_block c))
      (filter (\<lambda>p. p \<notin> set (follow (pl_link s) (mc_head c) (mc_free_blocks c))) (class_slots c))) (pl_class s))"
    using fl by (intro arg_cong [where f = concat] map_cong) auto
  moreover have sel: "pl_link s1 = l" "pl_class s1 = pl_class s" "pl_arena_begin s1 = pl_arena_begin s"
    by (simp_all add: s1)
  ultimately show "pool_live cfg s1 = pool_live cfg s"
    unfolding pool_live_def arena_blocks_inv [OF inv] arena_blocks_inv [OF i1] sel by simp
  show "keeps (set (pool_live cfg s) - {(p, k)}) (pl_data s) (pl_data s1)"
    using inv_live_separate [OF inv p] d unfolding keeps_def separate_def by (fastforce simp: s1)
qed

section \<open>Every step keeps the pool good\<close>

lemma data_ok: "pool_ok cfg (s\<lparr>pl_data := d\<rparr>) = pool_ok cfg s"
  by (simp add: pool_ok_def data_inv pool_fresh_def)

lemma calloc_ok:
  assumes "cfg_ok cfg" and "pool_ok cfg s" and "ncl_mem_calloc cfg c n s = (p, s1)"
  shows "pool_ok cfg s1"
proof (cases "c \<noteq> 0 \<and> n > SIZE_MAX div c")
  case True
  then have "s1 = pool_note_refusal_locked cfg s" using assms(3) by (simp add: ncl_mem_calloc_def)
  with ok_core [OF note_core(4) assms(2)] show ?thesis by simp
next
  case False
  obtain q s2 where al: "ncl_mem_alloc cfg ((c * n) mod SIZE_MOD) s = (q, s2)" by fastforce
  have "s1 = s2 \<or> s1 = s2\<lparr>pl_data := mem_zero q ((c * n) mod SIZE_MOD) (pl_data s2)\<rparr>"
    using assms(3) False al unfolding ncl_mem_calloc_def by (auto split: if_splits)
  with pool_alloc_law(1) [OF assms(1,2) al] data_ok show ?thesis by auto
qed

lemma realloc_ok:
  assumes "cfg_ok cfg" and "pool_ok cfg s" and "p = 0 \<or> (p, k) \<in> set (pool_live cfg s)"
    and "n + NCL_MEM_ALIGN \<le> SIZE_MOD" and "ncl_mem_realloc cfg p n s = (q, s1)"
  shows "pool_ok cfg s1" and "p \<noteq> 0 \<Longrightarrow> 0 < n \<Longrightarrow> resized cfg p k n q s s1"
proof -
  consider "p = 0" | "p \<noteq> 0" "n = 0" | "p \<noteq> 0" "0 < n" by auto
  then have "pool_ok cfg s1 \<and> (p \<noteq> 0 \<and> 0 < n \<longrightarrow> resized cfg p k n q s s1)"
  proof cases
    case 1
    then have "ncl_mem_alloc cfg n s = (q, s1)" using assms(5) by (simp add: ncl_mem_realloc_def)
    from pool_alloc_law(1) [OF assms(1,2) this] 1 show ?thesis by simp
  next
    case 2
    then have "s1 = ncl_mem_free cfg p s" using assms(5) by (simp add: ncl_mem_realloc_def)
    with pool_free_law(1) [OF assms(1,2), of p k] assms(3) 2 show ?thesis by simp
  next
    case 3
    obtain fls bs where i: "pool_inv cfg (pool_init_locked cfg s) fls bs" using pool_ok_init [OF assms(1,2)] .
    note il = init_live [OF assms(1,2)]
    have "resized cfg p k n q (pool_init_locked cfg s) s1"
      using realloc_ready [OF i assms(1), of p k n q s1] assms(3-5) 3 il by (simp add: realloc_init)
    then have "resized cfg p k n q s s1" unfolding resized_def il same_core_data .
    moreover have "pool_ok cfg s1" using calculation by (auto simp: resized_def pool_ok_def)
    ultimately show ?thesis by simp
  qed
  then show "pool_ok cfg s1" "p \<noteq> 0 \<Longrightarrow> 0 < n \<Longrightarrow> resized cfg p k n q s s1" by blast+
qed

lemma init_ok: "cfg_ok cfg \<Longrightarrow> pool_ok cfg s \<Longrightarrow> pool_ok cfg (pool_init_locked cfg s)"
  using pool_ok_init pool_okI by metis

lemma step_ok: "pool_step cfg s s1 \<Longrightarrow> cfg_ok cfg \<Longrightarrow> pool_ok cfg s \<Longrightarrow> pool_ok cfg s1"
proof (induction rule: pool_step.induct)
  case (step_alloc n s p s1)
  then show ?case using pool_alloc_law(1) by blast
next
  case (step_calloc c n s p s1)
  then show ?case using calloc_ok by blast
next
  case (step_free p k s)
  then show ?case using pool_free_law(1) [of cfg s p k] by (auto simp: ncl_mem_free_def)
next
  case (step_realloc p k s n q s1)
  then show ?case using realloc_ok(1) by blast
next
  case (step_stats s st s1)
  then have "s1 = pool_init_locked cfg s" by (simp add: ncl_mem_get_stats_def Let_def split: prod.splits)
  then show ?case using init_ok step_stats by simp
next
  case (step_reset s)
  have "same_core (ncl_mem_reset_stats s) s" by (simp add: same_core_def ncl_mem_reset_stats_def)
  then show ?case using ok_core step_reset by blast
next
  case (step_check s n s1)
  then have "s1 = pool_init_locked cfg s" by (simp add: ncl_mem_check_def Let_def)
  then show ?case using init_ok step_check by simp
next
  case (step_write p k s s1)
  have "\<not> pool_fresh s" using fresh_live step_write(1) by auto
  then obtain fls bs where "pool_inv cfg s fls bs" using step_write(4) by (auto simp: pool_ok_def)
  from write_inv(1) [OF this step_write(1,2)] show ?case by (rule pool_okI)
qed

lemma reach_ok: "pool_reach cfg s \<Longrightarrow> cfg_ok cfg \<Longrightarrow> pool_ok cfg s"
  by (induction rule: pool_reach.induct) (simp_all add: step_ok)

inductive_cases pool_stepE: "pool_step cfg s s1"

end
