(* ===== verification/Mem_Props.thy ===== *)
theory Mem_Props
  imports Mem_Steps
begin

text \<open>
  What the pool promises, stated over its reachable states, each theorem with an instance
  on a small concrete pool.
\<close>

section \<open>A small pool\<close>

text \<open>4096 bytes at address 4096, room for one class block of 16 bytes.\<close>

definition ex_cfg :: mem_cfg where
  "ex_cfg = \<lparr>g_pool = 4096, cfg_pool_bytes = 4096, cfg_class_bytes = 128\<rparr>"

definition ex_static :: pool where
  "ex_static = pool_static (\<lambda>_. \<lparr>h_total = 0, h_prev_total = 0, h_free_flag = 0\<rparr>) (\<lambda>_. 0) (\<lambda>_. 0)"

lemma hist_bucket_numeral [simp]:
  "hist_bucket (numeral k) i b sz =
     (if i < 15 \<and> sz > b then hist_bucket (pred_numeral k) (i + 1) (b * 2) sz else i)"
  by (simp add: numeral_eq_Suc)

lemma ex_geometry:
  "pool_total ex_cfg = 4096" "pool_begin ex_cfg = 4096" "pool_end ex_cfg = 8192" "class_area ex_cfg = 128"
  by (simp_all add: ex_cfg_def pool_total_def pool_end_def pool_begin_def class_area_def NCL_MEM_ALIGN_def)

lemma ex_cfg_ok: "cfg_ok ex_cfg"
  by (simp add: cfg_ok_def ex_cfg_def NCL_MEM_ALIGN_def SIZE_MOD_def)

lemmas pool_eval = ex_geometry NCL_MEM_ALIGN_def NCL_MEM_HDR_def SIZE_MOD_def SIZE_MAX_def pool_align_up_def Let_def
  unused_class_def pool_note_request_def note_largest_def pool_class_for_def

definition ex_init :: pool where
  "ex_init =
     \<lparr>pl_ready = True,
      pl_class = [\<lparr>mc_begin = 4096, mc_end = 4112, mc_block = 16, mc_live = 0, mc_free_blocks = 1, mc_head = 4096\<rparr>,
          unused_class, unused_class, unused_class, unused_class, unused_class, unused_class, unused_class],
      pl_arena_begin = 4112,
      pl_hdr = (\<lambda>_. \<lparr>h_total = 0, h_prev_total = 0, h_free_flag = 0\<rparr>)
        (4112 := \<lparr>h_total = 4080, h_prev_total = 0, h_free_flag = 1\<rparr>),
      pl_link = (\<lambda>_. 0)(4096 := 0), pl_data = \<lambda>_. 0, g_in_use = 0, g_peak = 0, g_footprint = 0,
      g_peak_footprint = 0, g_live_blocks = 0, g_allocations = 0, g_failures = 0, g_foreign_frees = 0,
      g_bad_links = 0, g_largest_request = 0, g_failure_free = 0, g_failure_largest_free = 0,
      g_size_hist = replicate 16 0\<rparr>"

lemma ex_init_eq: "pool_init_locked ex_cfg ex_static = ex_init"
  by (simp add: pool_eval pool_init_locked_def ex_static_def pool_static_def g_class_block_def
      g_class_share_def ex_init_def)

text \<open>After a request of 100 bytes (from the arena) and of 10 bytes (from the class).\<close>

definition ex_arena :: pool where
  "ex_arena = snd (ncl_mem_alloc ex_cfg 100 ex_static)"

definition ex_class :: pool where
  "ex_class = snd (ncl_mem_alloc ex_cfg 10 ex_static)"

lemma ex_arena_eq:
  "ncl_mem_alloc ex_cfg 100 ex_static = (4144, ex_init\<lparr>
     pl_hdr := (pl_hdr ex_init)(4256 := \<lparr>h_total = 3936, h_prev_total = 144, h_free_flag = 1\<rparr>,
                                4112 := \<lparr>h_total = 144, h_prev_total = 0, h_free_flag = 0\<rparr>),
     g_in_use := 112, g_peak := 112, g_footprint := 144, g_peak_footprint := 144, g_live_blocks := 1,
     g_allocations := 1, g_largest_request := 100, g_size_hist := (replicate 16 0)[6 := 1]\<rparr>)"
  by (simp add: ncl_mem_alloc_def ex_init_eq pool_eval arena_alloc_def best_fit.simps pool_block_at_def
      pool_split_def pool_merge_forward.simps pool_fix_follower_def pool_payload_def ex_init_def)
    (simp add: eval_nat_numeral)

lemma ex_class_eq:
  "ncl_mem_alloc ex_cfg 10 ex_static = (4096, ex_init\<lparr>
     pl_class := [\<lparr>mc_begin = 4096, mc_end = 4112, mc_block = 16, mc_live = 1, mc_free_blocks = 0, mc_head = 0\<rparr>,
          unused_class, unused_class, unused_class, unused_class, unused_class, unused_class, unused_class],
     g_in_use := 16, g_peak := 16, g_footprint := 16, g_peak_footprint := 16, g_live_blocks := 1,
     g_allocations := 1, g_largest_request := 10, g_size_hist := (replicate 16 0)[3 := 1]\<rparr>)"
  by (simp add: ncl_mem_alloc_def ex_init_eq pool_eval pool_class_take_def ex_init_def)
    (simp add: eval_nat_numeral)

lemma ex_arena_live: "pool_live ex_cfg ex_arena = [(4144, 112)]"
  by (simp add: ex_arena_def ex_arena_eq pool_live_def ex_init_def pool_eval class_slots_def class_count_def
      arena_blocks_def walk_blocks.simps pool_block_at_def)

lemma ex_class_live: "pool_live ex_cfg ex_class = [(4096, 16)]"
  by (simp add: ex_class_def ex_class_eq pool_live_def ex_init_def pool_eval class_slots_def class_count_def
      arena_blocks_def walk_blocks.simps pool_block_at_def)

lemma ex_reach: "pool_reach ex_cfg ex_static" "pool_reach ex_cfg ex_arena" "pool_reach ex_cfg ex_class"
proof -
  show s: "pool_reach ex_cfg ex_static" unfolding ex_static_def by (rule reach_static)
  show "pool_reach ex_cfg ex_arena" "pool_reach ex_cfg ex_class"
    using reach_step [OF s step_alloc] ex_arena_eq ex_class_eq by (simp_all add: ex_arena_def ex_class_def)
qed

lemmas ex_facts = ex_cfg_ok ex_reach ex_arena_live ex_class_live ex_geometry

lemma reach_initE:
  assumes "cfg_ok cfg" and "pool_reach cfg s"
  obtains fls bs where "pool_inv cfg (pool_init_locked cfg s) fls bs"
    "pool_live cfg (pool_init_locked cfg s) = pool_live cfg s"
  using assms reach_ok pool_ok_init init_live by metis

section \<open>Properties\<close>

text \<open>C1. In every state the pool can reach, by any sequence of allocations, releases, resizes,
  statistics calls, self checks and writes of the owners into their blocks, the self check
  finds no problem and leaves the pool as it is.\<close>

theorem reachable_check_clean:
  assumes "cfg_ok cfg" and "pool_reach cfg s"
  shows "ncl_mem_check cfg s = (0, pool_init_locked cfg s)"
proof -
  obtain fls bs where i: "pool_inv cfg (pool_init_locked cfg s) fls bs" using reach_initE [OF assms] .
  have "ncl_mem_check cfg s = ncl_mem_check cfg (pool_init_locked cfg s)"
    unfolding ncl_mem_check_def init_idem ..
  with check_ready [OF i] show ?thesis by simp
qed

theorem reachable_check_clean_witness: "fst (ncl_mem_check ex_cfg ex_arena) = 0"
  using reachable_check_clean [OF ex_cfg_ok ex_reach(2)] by simp

text \<open>C13. A successful allocation of \<open>n\<close> bytes hands out a block of at least \<open>n\<close> bytes that is
  aligned, lies inside the pool, overlaps no block handed out before, and is the only
  change to the set of live blocks; no byte of memory the callers own changes.\<close>

theorem alloc_correct:
  assumes "cfg_ok cfg" and "pool_reach cfg s" and "ncl_mem_alloc cfg n s = (p, s1)" and "p \<noteq> 0"
  shows "\<exists>k. n \<le> k \<and> p mod NCL_MEM_ALIGN = 0 \<and> pool_begin cfg \<le> p \<and> p + k \<le> pool_end cfg
    \<and> list_all (\<lambda>x. fst x + snd x \<le> p \<or> p + k \<le> fst x) (pool_live cfg s)
    \<and> set (pool_live cfg s1) = insert (p, k) (set (pool_live cfg s)) \<and> pl_data s1 = pl_data s"
proof -
  have ok: "pool_ok cfg s" using assms(1,2) by (simp add: reach_ok)
  note law = pool_alloc_law [OF assms(1) ok assms(3)]
  from law(3) [OF assms(4)] obtain k where k: "n \<le> k" "NCL_MEM_ALIGN dvd p" "\<And>m. (p, m) \<notin> set (pool_live cfg s)"
    "set (pool_live cfg s1) = insert (p, k) (set (pool_live cfg s))" by (auto simp: handed_out_def)
  have "separate x (p, k)" if "x \<in> set (pool_live cfg s)" for x
    using pool_apart [OF assms(1) law(1), of x "(p, k)"] that k(3,4) by auto
  moreover obtain fls bs where "pool_inv cfg (pool_init_locked cfg s1) fls bs"
    "pool_live cfg (pool_init_locked cfg s1) = pool_live cfg s1"
    using pool_ok_init [OF assms(1) law(1)] init_live [OF assms(1) law(1)] by blast
  then have "pool_begin cfg \<le> p \<and> p + k \<le> pool_end cfg"
    using inv_live_range [of cfg "pool_init_locked cfg s1" fls bs p k] k(4) by simp
  ultimately show ?thesis
    using k alloc_data [OF assms(3)] by (intro exI [of _ k]) (auto simp: separate_def list_all_iff)
qed

theorem alloc_correct_witness:
  "\<exists>k\<ge>100. set (pool_live ex_cfg (snd (ncl_mem_alloc ex_cfg 100 ex_static))) = insert (4144, k) (set (pool_live ex_cfg ex_static))"
  using alloc_correct [OF ex_cfg_ok ex_reach(1) ex_arena_eq] unfolding ex_arena_eq snd_conv by auto




lemma ex_realloc: "fst (ncl_mem_realloc ex_cfg 4144 300 ex_arena) = 4144"
  by (simp add: ncl_mem_realloc_def ex_arena_def ex_arena_eq ex_init_def pool_eval pool_class_of_def pool_block_of_def
      pool_block_at_def pool_split_def pool_merge_forward.simps pool_fix_follower_def pool_payload_def)


lemma note_request_fields [simp]:
  "pl_class (pool_note_request m (note_largest m s)) = pl_class s"
  "pl_link (pool_note_request m (note_largest m s)) = pl_link s"
  "pool_class_for (pool_note_request m (note_largest m s)) n = pool_class_for s n"
  by (simp_all add: pool_note_request_def note_largest_def pool_class_for_def Let_def)

lemma refused_ready:
  assumes inv: "pool_inv cfg s fls bs" and n: "0 < n" "n \<le> pool_total cfg"
    and al: "ncl_mem_alloc cfg n s = (0, s1)"
  shows "pool_class_for s n = Some i \<Longrightarrow> mc_free_blocks (pl_class s ! i) = 0"
    and "(t, True) \<in> set bs \<Longrightarrow> t < NCL_MEM_HDR + pool_align_up n"
proof -
  define r where "r = pool_note_request n (note_largest n s)"
  have ir: "pool_inv cfg r fls bs"
    using inv same_core_inv [of r s cfg fls bs] by (simp add: r_def)
  have rf: "pl_class r = pl_class s" "pool_class_for r n = pool_class_for s n" by (simp_all add: r_def)
  have m: "(if n = 0 then 1 else n) = n" using n by simp
  have al1: "(case pool_class_for s n of
        Some index \<Rightarrow> (case pool_class_take index r of
            (out, s2) \<Rightarrow> if out \<noteq> 0 then (out, s2) else arena_alloc cfg n s2)
      | None \<Rightarrow> arena_alloc cfg n r) = (0, s1)"
    using al n unfolding ncl_mem_alloc_def Let_def init_ready [OF pool_inv_ready [OF inv]] m r_def [symmetric]
    by (simp add: rf)
  have tk: "pool_class_take i r = (0, r) \<and> mc_free_blocks (pl_class s ! i) = 0"
    if c: "pool_class_for s n = Some i" for i
  proof -
    note cb = class_for_block [OF c n(1)]
    have "mc_head (pl_class r ! i) = 0"
    proof (rule ccontr)
      assume nz: "mc_head (pl_class r ! i) \<noteq> 0"
      then have "fst (pool_class_take i r) \<noteq> 0" by (simp add: pool_class_take_def Let_def)
      with al1 c show False by (simp add: case_prod_beta)
    qed
    moreover have "class_ok (pl_link r) (pl_class s ! i) (fls ! i)"
      using class_inv(1) [OF ir, of i] cb rf by simp
    ultimately show ?thesis
      using cb(2) rf by (cases "fls ! i") (auto simp: class_ok_def pool_class_take_def Let_def)
  qed
  show "mc_free_blocks (pl_class s ! i) = 0" if "pool_class_for s n = Some i" using tk that by simp
  have "arena_alloc cfg n r = (0, s1)" using al1 tk by (cases "pool_class_for s n") auto
  from arena_alloc_none(2) [OF ir this] show "(t, True) \<in> set bs \<Longrightarrow> t < NCL_MEM_HDR + pool_align_up n" .
qed

text \<open>A request the pool could ever hold is refused for size alone: the class that serves
  it has no free block, and no free block of the arena is as large as the request with its
  header. The refusal changes neither the live blocks nor any byte.\<close>

theorem alloc_refused_for_size:
  assumes "cfg_ok cfg" and "pool_reach cfg s" and "0 < n" and "n \<le> pool_total cfg"
    and "ncl_mem_alloc cfg n s = (0, s1)"
  defines "s0 \<equiv> pool_init_locked cfg s"
  shows "(case pool_class_for s0 n of None \<Rightarrow> True | Some i \<Rightarrow> mc_free_blocks (pl_class s0 ! i) = 0)
    \<and> list_all (\<lambda>(t, f). \<not> f \<or> t < NCL_MEM_HDR + pool_align_up n) (arena_blocks cfg s0)
    \<and> set (pool_live cfg s1) = set (pool_live cfg s) \<and> pl_data s1 = pl_data s"
proof -
  have ok: "pool_ok cfg s" using assms(1,2) by (simp add: reach_ok)
  obtain fls bs where i: "pool_inv cfg s0 fls bs" using reach_initE [OF assms(1,2)] unfolding s0_def by blast
  have al: "ncl_mem_alloc cfg n s0 = (0, s1)" using assms(5) by (simp add: s0_def alloc_init)
  note rr = refused_ready [OF i assms(3,4) al]
  show ?thesis
    using rr pool_alloc_law(2) [OF assms(1) ok assms(5)] alloc_data [OF assms(5)] arena_blocks_inv [OF i]
    by (auto simp: list_all_iff split: option.split)
qed

lemma ex_refused: "fst (ncl_mem_alloc ex_cfg 4090 ex_static) = 0"
  by (simp add: ncl_mem_alloc_def ex_init_eq pool_eval arena_alloc_def best_fit.simps pool_block_at_def
      ex_init_def)

theorem alloc_refused_for_size_witness:
  "set (pool_live ex_cfg (snd (ncl_mem_alloc ex_cfg 4090 ex_static))) = set (pool_live ex_cfg ex_static)"
  using alloc_refused_for_size [of ex_cfg ex_static 4090 "snd (ncl_mem_alloc ex_cfg 4090 ex_static)"] ex_refused
  by (simp add: ex_facts prod_eq_iff)

lemma nothing_live_one_hole:
  assumes inv: "pool_inv cfg s fls bs" and "pool_live cfg s = []"
  shows "bs = [(pool_end cfg - pl_arena_begin s, True)]"
proof -
  have ai: "arena_inv cfg (pl_arena_begin s) (pl_hdr s) bs" using inv by (simp add: pool_inv_def)
  have free: "\<forall>b \<in> set bs. snd b"
  proof
    fix b assume "b \<in> set bs"
    then obtain xs ys where b: "bs = xs @ b # ys" by (auto dest: split_list)
    show "snd b"
      using live_set [OF inv] assms(2) by (cases b) (auto simp: b split: if_splits)
  qed
  have co: "coalesced bs" and ne: "bs \<noteq> []" using ai arena_inv_nonempty by (auto simp: arena_inv_def)
  obtain t cs where bs: "bs = (t, True) # cs" using ne free by (cases bs) auto
  have "cs = []" using co free unfolding bs by (cases cs) (auto simp: coalesced_Cons)
  moreover have "pool_end cfg = pl_arena_begin s + sizes bs"
    using ai tiles_end by (auto simp: arena_inv_def)
  ultimately show ?thesis by (simp add: bs)
qed

text \<open>C16. After any number of successful requests, giving the blocks back in any order restores
  the live blocks the pool had before; and when it had none, the arena is a single free
  block again, so no request history fragments it for good.\<close>

theorem alloc_release_any_order:
  assumes "cfg_ok cfg" and "pool_reach cfg s" and "alloc_list (ncl_mem_alloc cfg) ns s = (ps, s1)"
    and "0 \<notin> set ps" and "mset qs = mset ps"
  defines "s2 \<equiv> fold (ncl_mem_free cfg) qs s1"
  shows "set (pool_live cfg s2) = set (pool_live cfg s)
    \<and> (pool_live cfg s = [] \<longrightarrow> arena_blocks cfg (pool_init_locked cfg s2)
         = [(pool_end cfg - pl_arena_begin (pool_init_locked cfg s2), True)])"
proof -
  have ok: "cfg_ok cfg \<and> pool_ok cfg s" using assms(1,2) by (simp add: reach_ok)
  note rel = pool_allocator.alloc_release [OF ok assms(3-5), folded s2_def]
  obtain fls bs where i: "pool_inv cfg (pool_init_locked cfg s2) fls bs"
    using pool_ok_init rel by blast
  show ?thesis
    using rel nothing_live_one_hole [OF i] init_live [of cfg s2] arena_blocks_inv [OF i] by auto
qed

lemma ex_two: "alloc_list (ncl_mem_alloc ex_cfg) [100] ex_static = ([4144], ex_arena)"
  by (simp add: ex_arena_def ex_arena_eq)

theorem alloc_release_any_order_witness:
  "set (pool_live ex_cfg (fold (ncl_mem_free ex_cfg) [4144] ex_arena)) = set (pool_live ex_cfg ex_static)"
  using alloc_release_any_order [OF ex_cfg_ok ex_reach(1) ex_two, of "[4144]"] by simp

text \<open>The reported numbers are those of the blocks handed out: their count, the bytes their
  owners may use, and every byte of the pool is in use, free, or part of a header.\<close>

theorem stats_exact:
  assumes "cfg_ok cfg" and "pool_reach cfg s" and "ncl_mem_get_stats cfg s = (st, s1)"
  shows "st_live_blocks st = length (pool_live cfg s)
    \<and> st_in_use_bytes st = sum_list (map snd (pool_live cfg s))
    \<and> st_in_use_bytes st + st_free_bytes st + st_meta_bytes st = pool_total cfg"
proof -
  obtain fls bs where i: "pool_inv cfg (pool_init_locked cfg s) fls bs"
    "pool_live cfg (pool_init_locked cfg s) = pool_live cfg s" using reach_initE [OF assms(1,2)] .
  let ?s = "pool_init_locked cfg s"
  have ca: "carved (pool_begin cfg) (pl_class ?s) (pl_arena_begin ?s)" and cok: "classes_ok (pl_link ?s) (pl_class ?s) fls"
    and geom: "arena_geom cfg (pl_arena_begin ?s)" and tl: "tiles (pl_hdr ?s) (pl_arena_begin ?s) 0 bs (pool_end cfg)"
    using i(1) by (auto simp: pool_inv_def arena_inv_def)
  obtain big where m: "measure_walk cfg (pl_arena_begin ?s) (pl_hdr ?s) (pl_arena_begin ?s) (0, 0, 0, 0)
      = (big, arena_free_bytes bs, length (filter snd bs), length bs)"
    using measure_walk_tiles [OF geom _ _ tl, of 0 0 0 0] geom
    by (simp add: arena_geom_def arena_free_bytes_def sum_list_map_filter')
  have "st = fst (ncl_mem_get_stats cfg s)" by (simp add: assms(3))
  then have st: "st_live_blocks st = g_live_blocks ?s" "st_in_use_bytes st = g_in_use ?s"
    "st_free_bytes st = arena_free_bytes bs + classes_free_bytes (pl_class ?s)"
    "st_meta_bytes st = NCL_MEM_HDR * length bs"
    by (simp_all add: ncl_mem_get_stats_def pool_measure_locked_def m Let_def classes_free_bytes_def)
  have "pool_end cfg = pl_arena_begin ?s + sizes bs" using tiles_end [OF tl] .
  then have "(pl_arena_begin ?s - pool_begin cfg) + sizes bs = pool_total cfg"
    using carved_le [OF ca] by (simp add: pool_end_def)
  then have "g_in_use ?s + (arena_free_bytes bs + classes_free_bytes (pl_class ?s)) + NCL_MEM_HDR * length bs
      = pool_total cfg"
    using carved_bytes [OF ca cok] arena_bytes [OF tl] i(1) by (simp add: pool_inv_def)
  with st live_counts [OF i(1)] i(2) show ?thesis by simp
qed

theorem stats_exact_witness: "st_live_blocks (fst (ncl_mem_get_stats ex_cfg ex_arena)) = 1"
  using stats_exact [OF ex_cfg_ok ex_reach(2) surjective_pairing] by (simp add: ex_facts)

text \<open>C38. A request within 15 bytes of the largest size wraps when it is rounded up: resizing
  a live class block to such a size reports success with the block unchanged, although the
  block is smaller than the request.\<close>

theorem realloc_class_wraps:
  assumes "cfg_ok cfg" and "pool_reach cfg s" and "(p, k) \<in> set (pool_live cfg s)"
    and "pool_class_of (pool_init_locked cfg s) p = Some i" and "SIZE_MAX - 15 < n" and "n \<le> SIZE_MAX"
  shows "fst (ncl_mem_realloc cfg p n s) = p \<and> p \<noteq> 0 \<and> k < n
    \<and> set (pool_live cfg (snd (ncl_mem_realloc cfg p n s))) = set (pool_live cfg s)"
proof -
  have ok: "pool_ok cfg s" using assms(1,2) by (simp add: reach_ok)
  have p0: "p \<noteq> 0" by (rule live_nonnull [OF assms(1) ok assms(3)])
  obtain fls bs where inv: "pool_inv cfg (pool_init_locked cfg s) fls bs"
    "pool_live cfg (pool_init_locked cfg s) = pool_live cfg s" using reach_initE [OF assms(1,2)] .
  let ?s = "pool_init_locked cfg s"
  have n0: "n \<noteq> 0" using assms(5) by (simp add: SIZE_MAX_def SIZE_MOD_def)
  have "(n + NCL_MEM_ALIGN - 1) mod SIZE_MOD = n + 15 - SIZE_MOD"
    using assms(5,6) by (simp add: SIZE_MAX_def SIZE_MOD_def NCL_MEM_ALIGN_def mod_if)
  then have wrap: "pool_align_up n = 0"
    using assms(5,6) unfolding pool_align_up_def
    by (simp add: NCL_MEM_ALIGN_def SIZE_MAX_def SIZE_MOD_def del: mod_less)
  have re: "ncl_mem_realloc cfg p n s = (p, pool_note_request n (note_largest n ?s))"
    using p0 n0 assms(4) by (simp add: ncl_mem_realloc_def Let_def wrap)
  have "p + k \<le> pool_end cfg \<and> pool_begin cfg \<le> p"
    using inv_live_range [OF inv(1), of p k] inv(2) assms(3) by simp
  then have "k \<le> pool_total cfg" by (simp add: pool_end_def)
  then have "k < n"
    using pool_total_props [OF assms(1)] assms(5) by (simp add: SIZE_MAX_def SIZE_MOD_def NCL_MEM_ALIGN_def)
  moreover have "pool_live cfg (pool_note_request n (note_largest n ?s)) = pool_live cfg s"
    using same_core_live [OF note_both_core, of cfg n n ?s] inv(2) by simp
  ultimately show ?thesis using re p0 by simp
qed

lemma ex_class_ready: "pool_init_locked ex_cfg ex_class = ex_class"
  by (simp add: ex_class_def ex_class_eq ex_init_def)

lemma ex_class_of: "pool_class_of ex_class 4096 = Some 0"
  by (simp add: ex_class_def ex_class_eq ex_init_def pool_class_of_def)

theorem realloc_class_wraps_witness: "fst (ncl_mem_realloc ex_cfg 4096 (SIZE_MAX - 3) ex_class) = 4096"
  using realloc_class_wraps [of ex_cfg ex_class 4096 16 0 "SIZE_MAX - 3"]
  by (simp add: ex_facts ex_class_ready ex_class_of SIZE_MAX_def SIZE_MOD_def)

end
