(* ===== verification/Common.thy ===== *)
theory Common
  imports Prelude
begin

text \<open>
  \<^verbatim>\<open>stack/src/core/common.c\<close>: error names, string helpers, the growable buffer
  \<^verbatim>\<open>ncl_strbuf\<close> and the two vectors. A pointer that may be NULL is an option, a
  heap copy is \<open>None\<close> when the allocator refuses it. The \<open>printf\<close> family
  is not modelled (variadic formatting of the C library).
\<close>

section \<open>Error names\<close>

fun ncl_err_name :: "ncl_err \<Rightarrow> string" where
  "ncl_err_name NCL_OK = ''OK''"
| "ncl_err_name NCL_ERR = ''Error''"
| "ncl_err_name NCL_ERR_NOMEM = ''OutOfMemory''"
| "ncl_err_name NCL_ERR_PARSE = ''JsonParseException''"
| "ncl_err_name NCL_ERR_TIMEOUT = ''TimeoutException''"
| "ncl_err_name NCL_ERR_IO = ''IOException''"
| "ncl_err_name NCL_ERR_NOT_FOUND = ''NotFoundException''"
| "ncl_err_name NCL_ERR_EXISTS = ''AlreadyExistsException''"
| "ncl_err_name NCL_ERR_NOT_SUPPORTED = ''UnsupportedOperationException''"
| "ncl_err_name NCL_ERR_INVALID_ARG = ''IllegalArgumentException''"
| "ncl_err_name NCL_ERR_STATE = ''IllegalStateException''"
| "ncl_err_name NCL_ERR_RANGE = ''IndexOutOfBoundsException''"
| "ncl_err_name NCL_ERR_CONNECT = ''MqttException''"
| "ncl_err_name NCL_ERR_CLOSED = ''ClosedException''"
| "ncl_err_name NCL_ERR_NO_CHANNEL = ''NoFileChannelException''"
| "ncl_err_name NCL_ERR_UNAVAILABLE = ''UnavailableException''"
| "ncl_err_name NCL_ERR_INVALID_CODE = ''InvalidCodeException''"
| "ncl_err_name NCL_ERR_INVALID_DATA_NAME = ''InvalidDataNameException''"
| "ncl_err_name NCL_ERR_INVALID_DATA_TYPE = ''InvalidDataTypException''"
| "ncl_err_name NCL_ERR_INVALID_DEVICE_ID = ''InvalidDeviceIdException''"
| "ncl_err_name NCL_ERR_INVALID_ENCODING = ''InvalidEncodingException''"
| "ncl_err_name NCL_ERR_INVALID_ID = ''InvalidIdException''"
| "ncl_err_name NCL_ERR_INVALID_INDEX_RANGE = ''InvalidIndexRangeException''"
| "ncl_err_name NCL_ERR_INVALID_ITEM = ''InvalidItemException''"
| "ncl_err_name NCL_ERR_INVALID_KEY = ''InvalidKeyException''"
| "ncl_err_name NCL_ERR_INVALID_MESSAGE = ''InvalidMessageException''"
| "ncl_err_name NCL_ERR_INVALID_MESSAGE_ID = ''InvalidMessageIdException''"
| "ncl_err_name NCL_ERR_INVALID_MODEL = ''InvalidModelException''"
| "ncl_err_name NCL_ERR_INVALID_NODE = ''InvalidNodeException''"
| "ncl_err_name NCL_ERR_INVALID_NUMBER = ''InvalidNumberException''"
| "ncl_err_name NCL_ERR_INVALID_REQUEST = ''InvalidRequestException''"
| "ncl_err_name NCL_ERR_INVALID_TYPE = ''InvalidTypeException''"
| "ncl_err_name NCL_ERR_INVALID_VALUE = ''InvalidValueException''"
| "ncl_err_name NCL_ERR_INVALID_VERSION = ''InvalidVersionException''"
| "ncl_err_name _ = ''UnknownError''"

section \<open>String helpers\<close>

definition ncl_strdup :: "grant \<Rightarrow> string option \<Rightarrow> string option" where
  "ncl_strdup g s =
     (case s of None \<Rightarrow> None | Some t \<Rightarrow> if g (length t + 1) then Some t else None)"

text \<open>\<open>ncl_strndup\<close> copies \<open>len\<close> bytes and terminates them: read back as a C
  string, the copy ends at the first NUL among them.\<close>

definition ncl_strndup :: "grant \<Rightarrow> string option \<Rightarrow> nat \<Rightarrow> string option" where
  "ncl_strndup g s len =
     (case s of None \<Rightarrow> None
      | Some t \<Rightarrow> if g (len + 1) then Some (cstr_of (take len t)) else None)"

text \<open>ASCII case folding of \<^verbatim>\<open>strcasecmp\<close> / \<^verbatim>\<open>_stricmp\<close>.\<close>

definition ascii_lower :: "char \<Rightarrow> char" where
  "ascii_lower c =
     (if CHR ''A'' \<le> c \<and> c \<le> CHR ''Z'' then char_of (of_char c + 32 :: nat) else c)"

definition ncl_streq_ignore_case :: "string option \<Rightarrow> string option \<Rightarrow> bool" where
  "ncl_streq_ignore_case a b =
     (case (a, b) of
        (Some s, Some t) \<Rightarrow> map ascii_lower s = map ascii_lower t
      | _ \<Rightarrow> False)"

definition ncl_str_starts_with :: "string option \<Rightarrow> string option \<Rightarrow> bool" where
  "ncl_str_starts_with s prefix =
     (case (s, prefix) of (Some t, Some p) \<Rightarrow> take (length p) t = p | _ \<Rightarrow> False)"

definition ncl_str_ends_with :: "string option \<Rightarrow> string option \<Rightarrow> bool" where
  "ncl_str_ends_with s suffix =
     (case (s, suffix) of
        (Some t, Some f) \<Rightarrow>
          (if length f > length t then False else drop (length t - length f) t = f)
      | _ \<Rightarrow> False)"

definition ncl_str_is_empty :: "string option \<Rightarrow> bool" where
  "ncl_str_is_empty s = (case s of None \<Rightarrow> True | Some t \<Rightarrow> t = [])"

definition ncl_isspace_ascii :: "char \<Rightarrow> bool" where
  "ncl_isspace_ascii c \<longleftrightarrow>
     c = CHR '' '' \<or> c = CHR 0x09 \<or> c = CHR 0x0A \<or> c = CHR 0x0D \<or> c = CHR 0x0C \<or> c = CHR 0x0B"

fun all_blank :: "string \<Rightarrow> bool" where
  "all_blank [] = True"
| "all_blank (c # s) = (if \<not> ncl_isspace_ascii c then False else all_blank s)"

definition ncl_str_is_blank :: "string option \<Rightarrow> bool" where
  "ncl_str_is_blank s = (case s of None \<Rightarrow> True | Some t \<Rightarrow> all_blank t)"

text \<open>The two pointer loops of \<open>ncl_str_trim_dup\<close>: \<open>begin\<close> moves right over blanks,
  then \<open>end\<close> moves left over blanks but never before \<open>begin\<close>.\<close>

fun skip_blanks :: "string \<Rightarrow> string" where
  "skip_blanks [] = []"
| "skip_blanks (c # s) = (if ncl_isspace_ascii c then skip_blanks s else c # s)"

fun trim_end :: "string \<Rightarrow> nat \<Rightarrow> nat" where
  "trim_end s 0 = 0"
| "trim_end s (Suc e) = (if ncl_isspace_ascii (s ! e) then trim_end s e else Suc e)"

definition ncl_str_trim_dup :: "grant \<Rightarrow> string option \<Rightarrow> string option" where
  "ncl_str_trim_dup g s =
     (case s of None \<Rightarrow> None
      | Some t \<Rightarrow> (let b = skip_blanks t in ncl_strndup g (Some b) (trim_end b (length b))))"

definition uuid_hex :: string where
  "uuid_hex = ''0123456789abcdef''"

text \<open>The formatting loop of \<open>ncl_uuid4\<close> over the sixteen random bytes \<open>raw\<close>
  (from the platform's generator, \<open>None\<close> when it fails).\<close>

fun uuid_format :: "nat \<Rightarrow> u8 list \<Rightarrow> string" where
  "uuid_format i [] = []"
| "uuid_format i (r # rs) =
     (if i = 4 \<or> i = 6 \<or> i = 8 \<or> i = 10 then [CHR ''-''] else [])
     @ [uuid_hex ! unat (drop_bit 4 r AND 0x0F), uuid_hex ! unat (r AND 0x0F)]
     @ uuid_format (Suc i) rs"

definition ncl_uuid4 :: "u8 list option \<Rightarrow> nat \<Rightarrow> ncl_err + string" where
  "ncl_uuid4 random out_len =
     (if out_len < 37 then Inl NCL_ERR_INVALID_ARG
      else case random of None \<Rightarrow> Inl NCL_ERR
      | Some raw \<Rightarrow>
          (let raw = raw[6 := (raw ! 6 AND 0x0F) OR 0x40];
               raw = raw[8 := (raw ! 8 AND 0x3F) OR 0x80]
           in Inr (uuid_format 0 raw)))"

section \<open>The growable buffer\<close>

text \<open>
  \<open>sb_data\<close> is NULL before the first reservation; \<open>sb_bytes\<close> are the first
  \<open>len\<close> bytes of the block (the C field \<open>len\<close> is \<open>length sb_bytes\<close>).
\<close>

record strbuf =
  sb_null :: bool
  sb_bytes :: "u8 list"
  sb_cap :: nat

definition ncl_strbuf_init :: strbuf where
  "ncl_strbuf_init = \<lparr>sb_null = True, sb_bytes = [], sb_cap = 0\<rparr>"

definition ncl_strbuf_free :: "strbuf \<Rightarrow> strbuf" where
  "ncl_strbuf_free sb = sb\<lparr>sb_null := True, sb_bytes := [], sb_cap := 0\<rparr>"

definition ncl_strbuf_reset :: "strbuf \<Rightarrow> strbuf" where
  "ncl_strbuf_reset sb = sb\<lparr>sb_bytes := []\<rparr>"

text \<open>The doubling loop of \<open>ncl_strbuf_reserve\<close>; \<open>None\<close> is its overflow exit. It is
  entered with 64 or an existing capacity, so never with 0 (where it would not stop).\<close>

function grow_cap :: "nat \<Rightarrow> nat \<Rightarrow> nat option" where
  "grow_cap cap need =
     (if cap < need \<and> 0 < cap
      then (if cap > SIZE_MAX div 2 then None else grow_cap (cap * 2) need)
      else Some cap)"
  by pat_completeness auto
termination
  by (relation "measure (\<lambda>(cap, need). need - cap)") auto

declare grow_cap.simps [simp del]

definition ncl_strbuf_reserve :: "grant \<Rightarrow> strbuf \<Rightarrow> nat \<Rightarrow> ncl_err \<times> strbuf" where
  "ncl_strbuf_reserve g sb additional =
     (let need = (length (sb_bytes sb) + additional + 1) mod SIZE_MOD
      in if need \<le> sb_cap sb \<and> \<not> sb_null sb then (NCL_OK, sb)
         else case grow_cap (if sb_cap sb = 0 then 64 else sb_cap sb) need of
             None \<Rightarrow> (NCL_ERR_NOMEM, sb)
           | Some cap \<Rightarrow>
               if g cap then (NCL_OK, sb\<lparr>sb_null := False, sb_cap := cap\<rparr>)
               else (NCL_ERR_NOMEM, sb))"

definition ncl_strbuf_append :: "grant \<Rightarrow> strbuf \<Rightarrow> u8 list \<Rightarrow> ncl_err \<times> strbuf" where
  "ncl_strbuf_append g sb bs =
     (if length bs = 0 then (NCL_OK, sb)
      else case ncl_strbuf_reserve g sb (length bs) of
          (rc, sb1) \<Rightarrow>
            if rc \<noteq> NCL_OK then (rc, sb1)
            else (NCL_OK, sb1\<lparr>sb_bytes := sb_bytes sb1 @ bs\<rparr>))"

definition ncl_strbuf_puts :: "grant \<Rightarrow> strbuf \<Rightarrow> u8 list option \<Rightarrow> ncl_err \<times> strbuf" where
  "ncl_strbuf_puts g sb s =
     (case s of None \<Rightarrow> (NCL_OK, sb) | Some t \<Rightarrow> ncl_strbuf_append g sb t)"

definition ncl_strbuf_putc :: "grant \<Rightarrow> strbuf \<Rightarrow> u8 \<Rightarrow> ncl_err \<times> strbuf" where
  "ncl_strbuf_putc g sb c =
     (case ncl_strbuf_reserve g sb 1 of
        (rc, sb1) \<Rightarrow>
          if rc \<noteq> NCL_OK then (rc, sb1)
          else (NCL_OK, sb1\<lparr>sb_bytes := sb_bytes sb1 @ [c]\<rparr>))"

definition ncl_strbuf_detach :: "grant \<Rightarrow> strbuf \<Rightarrow> u8 list option \<times> strbuf" where
  "ncl_strbuf_detach g sb =
     ((if sb_null sb then (if g 1 then Some [] else None) else Some (sb_bytes sb)),
      sb\<lparr>sb_null := True, sb_bytes := [], sb_cap := 0\<rparr>)"

section \<open>Vectors\<close>

text \<open>\<open>items[0..len)\<close> is the list; a NULL element is \<open>None\<close>. \<open>pv_free\<close> says
  whether a free function is set; an operation that runs it returns the released elements.\<close>

record 'a ptrvec =
  pv_items :: "'a option list"
  pv_cap :: nat
  pv_free :: bool

definition ncl_ptrvec_init :: "bool \<Rightarrow> 'a ptrvec" where
  "ncl_ptrvec_init f = \<lparr>pv_items = [], pv_cap = 0, pv_free = f\<rparr>"

definition ncl_ptrvec_clear :: "'a ptrvec \<Rightarrow> 'a list \<times> 'a ptrvec" where
  "ncl_ptrvec_clear v =
     ((if pv_free v then map the (filter (\<lambda>x. x \<noteq> None) (pv_items v)) else []),
      v\<lparr>pv_items := []\<rparr>)"

definition ncl_ptrvec_free :: "'a ptrvec \<Rightarrow> 'a list \<times> 'a ptrvec" where
  "ncl_ptrvec_free v =
     (case ncl_ptrvec_clear v of (freed, v1) \<Rightarrow> (freed, v1\<lparr>pv_items := [], pv_cap := 0\<rparr>))"

definition PTR_SIZE :: nat where
  "PTR_SIZE = 8"

definition ncl_ptrvec_push :: "grant \<Rightarrow> 'a ptrvec \<Rightarrow> 'a option \<Rightarrow> ncl_err \<times> 'a ptrvec" where
  "ncl_ptrvec_push g v x =
     (if length (pv_items v) = pv_cap v
      then (let cap = (if pv_cap v = 0 then 8 else pv_cap v * 2)
            in if g (cap * PTR_SIZE)
               then (NCL_OK, v\<lparr>pv_cap := cap, pv_items := pv_items v @ [x]\<rparr>)
               else (NCL_ERR_NOMEM, v))
      else (NCL_OK, v\<lparr>pv_items := pv_items v @ [x]\<rparr>))"

definition ncl_ptrvec_push_owned ::
  "grant \<Rightarrow> 'a ptrvec \<Rightarrow> 'a option \<Rightarrow> ncl_err \<times> 'a list \<times> 'a ptrvec" where
  "ncl_ptrvec_push_owned g v x =
     (case ncl_ptrvec_push g v x of
        (rc, v1) \<Rightarrow>
          (rc, (if rc \<noteq> NCL_OK \<and> pv_free v1 then (case x of None \<Rightarrow> [] | Some y \<Rightarrow> [y]) else []), v1))"

definition ncl_ptrvec_at :: "'a ptrvec \<Rightarrow> nat \<Rightarrow> 'a option" where
  "ncl_ptrvec_at v i = (if i \<ge> length (pv_items v) then None else pv_items v ! i)"

definition ncl_ptrvec_len :: "'a ptrvec \<Rightarrow> nat" where
  "ncl_ptrvec_len v = length (pv_items v)"

definition ncl_ptrvec_take :: "'a ptrvec \<Rightarrow> nat \<Rightarrow> 'a option \<times> 'a ptrvec" where
  "ncl_ptrvec_take v i =
     (if i \<ge> length (pv_items v) then (None, v)
      else (pv_items v ! i,
            v\<lparr>pv_items := take i (pv_items v) @ drop (i + 1) (pv_items v)\<rparr>))"

record 's strvec =
  sv_items :: "'s list list"
  sv_cap :: nat

definition ncl_strvec_init :: "'s strvec" where
  "ncl_strvec_init = \<lparr>sv_items = [], sv_cap = 0\<rparr>"

definition ncl_strvec_clear :: "'s strvec \<Rightarrow> 's strvec" where
  "ncl_strvec_clear v = v\<lparr>sv_items := []\<rparr>"

definition ncl_strvec_free :: "'s strvec \<Rightarrow> 's strvec" where
  "ncl_strvec_free v = (ncl_strvec_clear v)\<lparr>sv_cap := 0\<rparr>"

definition ncl_strvec_push :: "grant \<Rightarrow> 's strvec \<Rightarrow> 's list option \<Rightarrow> ncl_err \<times> 's strvec" where
  "ncl_strvec_push g v s =
     (case s of None \<Rightarrow> (NCL_ERR_INVALID_ARG, v)
      | Some t \<Rightarrow>
          (let full = (length (sv_items v) = sv_cap v);
               cap = (if sv_cap v = 0 then 8 else sv_cap v * 2)
           in if full \<and> \<not> g (cap * PTR_SIZE) then (NCL_ERR_NOMEM, v)
              else (let v1 = (if full then v\<lparr>sv_cap := cap\<rparr> else v)
                    in if g (length t + 1)
                       then (NCL_OK, v1\<lparr>sv_items := sv_items v1 @ [t]\<rparr>)
                       else (NCL_ERR_NOMEM, v1))))"

definition ncl_strvec_at :: "'s strvec \<Rightarrow> nat \<Rightarrow> 's list option" where
  "ncl_strvec_at v i = (if i \<ge> length (sv_items v) then None else Some (sv_items v ! i))"

definition ncl_strvec_len :: "'s strvec \<Rightarrow> nat" where
  "ncl_strvec_len v = length (sv_items v)"

definition ncl_strvec_contains :: "'s strvec \<Rightarrow> 's list option \<Rightarrow> bool" where
  "ncl_strvec_contains v s = (case s of None \<Rightarrow> False | Some t \<Rightarrow> list_ex (\<lambda>x. x = t) (sv_items v))"

section \<open>String helper lemmas\<close>

lemma all_blank_iff: "all_blank s \<longleftrightarrow> (\<forall>c \<in> set s. ncl_isspace_ascii c)"
  by (induction s) auto

lemma skip_blanks_dropWhile: "skip_blanks s = dropWhile ncl_isspace_ascii s"
  by (induction s) auto

lemma trim_end_le: "trim_end s e \<le> e"
  by (induction e) auto

lemma trim_end_last: "0 < trim_end s e \<Longrightarrow> \<not> ncl_isspace_ascii (s ! (trim_end s e - 1))"
  by (induction e) (auto split: if_splits)

lemma trim_end_blank: "trim_end s e \<le> i \<Longrightarrow> i < e \<Longrightarrow> ncl_isspace_ascii (s ! i)"
proof (induction e)
  case (Suc e)
  then show ?case by (cases "i = e") (auto split: if_splits)
qed simp

lemma length_uuid_format: "length (uuid_format i rs) =
    2 * length rs + length (filter (\<lambda>j. j = 4 \<or> j = 6 \<or> j = 8 \<or> j = 10) [i ..< i + length rs])"
proof (induction i rs rule: uuid_format.induct)
  case (2 i r rs)
  have "[i ..< i + length (r # rs)] = i # [Suc i ..< Suc i + length rs]"
    by (simp add: upt_conv_Cons del: upt_Suc)
  with 2 show ?case by simp
qed simp

section \<open>The buffer: invariant, growth, contents\<close>

text \<open>The data pointer is NULL exactly when nothing is reserved, and a reserved block
  has room for the bytes and the terminating NUL.\<close>

definition strbuf_ok :: "strbuf \<Rightarrow> bool" where
  "strbuf_ok sb \<longleftrightarrow>
     (if sb_null sb then sb_bytes sb = [] \<and> sb_cap sb = 0
      else length (sb_bytes sb) + 1 \<le> sb_cap sb)"

lemma grow_cap_ge: "grow_cap cap need = Some c \<Longrightarrow> 0 < cap \<Longrightarrow> need \<le> c \<and> cap \<le> c"
proof (induction cap need rule: grow_cap.induct)
  case (1 cap need)
  show ?case
  proof (cases "cap < need")
    case True
    with 1 show ?thesis by (simp add: grow_cap.simps [of cap need] split: if_splits)
  next
    case False
    with 1 show ?thesis by (simp add: grow_cap.simps [of cap need])
  qed
qed

text \<open>The loop stops with a capacity unless a doubling would leave \<open>size_t\<close>, and never
  overshoots twice the need.\<close>

lemma grow_cap_Some:
  "0 < cap \<Longrightarrow> need \<le> 2 ^ 63 \<Longrightarrow> \<exists>c. grow_cap cap need = Some c \<and> c \<le> max cap (2 * need)"
proof (induction cap need rule: grow_cap.induct)
  case (1 cap need)
  show ?case
  proof (cases "cap < need")
    case True
    then have "\<not> cap > SIZE_MAX div 2" using 1 by (simp add: SIZE_MAX_def)
    moreover from this obtain c where "grow_cap (cap * 2) need = Some c" "c \<le> max (cap * 2) (2 * need)"
      using 1 True by auto
    ultimately show ?thesis using 1 True by (auto simp: grow_cap.simps [of cap need])
  next
    case False
    with 1 show ?thesis by (simp add: grow_cap.simps [of cap need])
  qed
qed

lemma strbuf_ok_init [simp]: "strbuf_ok ncl_strbuf_init"
  by (simp add: strbuf_ok_def ncl_strbuf_init_def)

lemma init_bytes [simp]: "sb_bytes ncl_strbuf_init = []"
  by (simp add: ncl_strbuf_init_def)

lemma reserve_bytes: "ncl_strbuf_reserve g sb n = (rc, sb1) \<Longrightarrow> sb_bytes sb1 = sb_bytes sb"
  by (auto simp: ncl_strbuf_reserve_def Let_def split: if_splits option.splits)

lemma reserve_fail: "ncl_strbuf_reserve g sb n = (rc, sb1) \<Longrightarrow> rc \<noteq> NCL_OK \<Longrightarrow> sb1 = sb"
  by (auto simp: ncl_strbuf_reserve_def Let_def split: if_splits option.splits)

lemma reserve_room:
  assumes "ncl_strbuf_reserve g sb n = (NCL_OK, sb1)" and "length (sb_bytes sb) + n + 1 < SIZE_MOD"
  shows "\<not> sb_null sb1 \<and> length (sb_bytes sb1) + n + 1 \<le> sb_cap sb1 \<and> sb_cap sb \<le> sb_cap sb1"
  using assms
  by (auto simp: ncl_strbuf_reserve_def Let_def split: if_splits option.splits dest!: grow_cap_ge)

lemma reserve_all:
  assumes "length (sb_bytes sb) + n + 1 \<le> 2 ^ 63" and "\<forall>c. g c"
  shows "fst (ncl_strbuf_reserve g sb n) = NCL_OK"
proof -
  have "(length (sb_bytes sb) + n + 1) mod SIZE_MOD \<le> 2 ^ 63"
    by (rule order_trans [OF mod_less_eq_dividend assms(1)])
  moreover have "0 < (if sb_cap sb = 0 then 64 else sb_cap sb)" by simp
  ultimately obtain c where "grow_cap (if sb_cap sb = 0 then 64 else sb_cap sb)
      ((length (sb_bytes sb) + n + 1) mod SIZE_MOD) = Some c"
    using grow_cap_Some by blast
  then show ?thesis
    using assms(2) by (simp add: ncl_strbuf_reserve_def Let_def)
qed

section \<open>The interface of an append-only sink\<close>

text \<open>
  What every writer of the library relies on: a successful \<open>put\<close> appends exactly its
  bytes, a refused one leaves the contents alone, and the representation stays well
  formed as long as the size stays in \<open>size_t\<close>.
\<close>

locale byte_sink =
  fixes put :: "'w \<Rightarrow> u8 list \<Rightarrow> ncl_err \<times> 'w"
    and contents :: "'w \<Rightarrow> u8 list"
    and wf :: "'w \<Rightarrow> bool"
  assumes put_ok: "put w bs = (NCL_OK, w1) \<Longrightarrow> contents w1 = contents w @ bs"
    and put_refused: "put w bs = (rc, w1) \<Longrightarrow> rc \<noteq> NCL_OK \<Longrightarrow> contents w1 = contents w"
    and put_wf: "wf w \<Longrightarrow> length (contents w) + length bs + 1 < SIZE_MOD \<Longrightarrow> wf (snd (put w bs))"
begin

lemma put_contents: "contents (snd (put w bs)) = contents w @ (if fst (put w bs) = NCL_OK then bs else [])"
  using put_ok [of w bs "snd (put w bs)"] put_refused [of w bs "fst (put w bs)" "snd (put w bs)"]
  by (cases "put w bs") auto

lemma put_prefix: "\<exists>rest. contents (snd (put w bs)) = contents w @ rest \<and> length rest \<le> length bs"
  by (auto simp: put_contents)

text \<open>A caller that ignores the status of a series of puts loses whole chunks, never
  part of one, and keeps their order.\<close>

lemma puts_wf:
  "wf w \<Longrightarrow> length (contents w) + length (concat css) + 1 < SIZE_MOD \<Longrightarrow>
     wf (fold (\<lambda>cs w. snd (put w cs)) css w)"
proof (induction css arbitrary: w)
  case (Cons cs css)
  have "length (contents (snd (put w cs))) \<le> length (contents w) + length cs"
    by (simp add: put_contents)
  moreover have "wf (snd (put w cs))" using Cons.prems by (intro put_wf) auto
  ultimately show ?case using Cons.prems by (simp, intro Cons.IH) auto
qed simp

end

locale total_sink = byte_sink put contents wf
  for put :: "'w \<Rightarrow> u8 list \<Rightarrow> ncl_err \<times> 'w" and contents wf +
  assumes put_total: "length (contents w) + length bs + 1 \<le> 2 ^ 63 \<Longrightarrow> fst (put w bs) = NCL_OK"
begin

lemma put_contents_total:
  "length (contents w) + length bs + 1 \<le> 2 ^ 63 \<Longrightarrow> contents (snd (put w bs)) = contents w @ bs"
  by (simp add: put_contents put_total)

text \<open>\<open>writes f bs\<close>: the writer \<open>f\<close> appends exactly \<open>bs\<close>, as long as they fit.\<close>

definition writes :: "('w \<Rightarrow> 'w) \<Rightarrow> u8 list \<Rightarrow> bool" where
  "writes f bs \<longleftrightarrow>
     (\<forall>w. length (contents w) + length bs + 1 \<le> 2 ^ 63 \<longrightarrow> contents (f w) = contents w @ bs)"

lemma writes_put: "writes (\<lambda>w. snd (put w bs)) bs"
  by (simp add: writes_def put_contents_total)

lemma writes_skip: "writes (\<lambda>w. w) []"
  by (simp add: writes_def)

lemma writes_seq:
  assumes "writes f bs" and "writes h cs"
  shows "writes (\<lambda>w. h (f w)) (bs @ cs)"
  using assms by (auto simp: writes_def)

lemma writes_fold:
  "list_all2 writes fs bss \<Longrightarrow> writes (fold (\<lambda>f. f) fs) (concat bss)"
proof (induction fs bss rule: list_all2_induct)
  case (Cons f fs bs bss)
  have "writes (\<lambda>w. fold (\<lambda>f. f) fs (f w)) (bs @ concat bss)"
    by (rule writes_seq [OF Cons(1) Cons(3)])
  then show ?case by (simp add: comp_def)
qed (simp add: writes_skip id_def)

lemma writes_result:
  "writes f bs \<Longrightarrow> length (contents w) + length bs + 1 \<le> 2 ^ 63 \<Longrightarrow> contents (f w) = contents w @ bs"
  by (simp add: writes_def)

end

lemma append_ok: "ncl_strbuf_append g sb bs = (NCL_OK, sb1) \<Longrightarrow> sb_bytes sb1 = sb_bytes sb @ bs"
  by (auto simp: ncl_strbuf_append_def split: if_splits prod.splits dest: reserve_bytes)

lemma append_refused:
  "ncl_strbuf_append g sb bs = (rc, sb1) \<Longrightarrow> rc \<noteq> NCL_OK \<Longrightarrow> sb_bytes sb1 = sb_bytes sb"
  by (auto simp: ncl_strbuf_append_def split: if_splits prod.splits dest: reserve_bytes)

lemma append_wf:
  assumes "strbuf_ok sb" and "length (sb_bytes sb) + length bs + 1 < SIZE_MOD"
  shows "strbuf_ok (snd (ncl_strbuf_append g sb bs))"
proof (cases "bs = []")
  case True
  with assms show ?thesis by (simp add: ncl_strbuf_append_def)
next
  case False
  obtain rc sb1 where r: "ncl_strbuf_reserve g sb (length bs) = (rc, sb1)" by fastforce
  show ?thesis
  proof (cases "rc = NCL_OK")
    case True
    with r reserve_room [of g sb "length bs" sb1] reserve_bytes [OF r] assms False
    show ?thesis by (auto simp: ncl_strbuf_append_def strbuf_ok_def)
  next
    case nok: False
    with r reserve_fail [OF r] assms False show ?thesis by (auto simp: ncl_strbuf_append_def)
  qed
qed

lemma append_all:
  "length (sb_bytes sb) + length bs + 1 \<le> 2 ^ 63 \<Longrightarrow> fst (ncl_strbuf_append grant_all sb bs) = NCL_OK"
  using reserve_all [of sb "length bs" grant_all]
  by (cases "ncl_strbuf_reserve grant_all sb (length bs)") (simp add: grant_all ncl_strbuf_append_def)

interpretation sb: byte_sink "ncl_strbuf_append g" sb_bytes strbuf_ok for g
  by unfold_locales (auto dest: append_ok append_refused simp: append_wf)

interpretation sba: total_sink "ncl_strbuf_append grant_all" sb_bytes strbuf_ok
  by unfold_locales (rule append_all, simp)

lemma putc_append: "ncl_strbuf_putc g sb c = ncl_strbuf_append g sb [c]"
  by (simp add: ncl_strbuf_putc_def ncl_strbuf_append_def)

lemma writes_append: "sba.writes (\<lambda>sb. snd (ncl_strbuf_append grant_all sb bs)) bs"
  by (rule sba.writes_put)

lemma writes_putc: "sba.writes (\<lambda>sb. snd (ncl_strbuf_putc grant_all sb c)) [c]"
  unfolding putc_append by (rule writes_append)

end
