(* ===== verification/Codec.thy ===== *)
theory Codec
  imports Common
begin

text \<open>
  \<^verbatim>\<open>stack/src/codec/codec.c\<close>: the hexadecimal payload codec and the loop that drives zlib.
  An \<open>ncl_buffer\<close> is the list of its bytes (the empty list is the NULL buffer of length 0),
  an \<open>ncl_buffer *\<close> that may be NULL an option. zlib itself is a parameter.
\<close>

section \<open>Buffers\<close>

definition ncl_buffer_free :: "u8 list option \<Rightarrow> u8 list option" where
  "ncl_buffer_free buf = (case buf of None \<Rightarrow> None | Some b \<Rightarrow> Some [])"

text \<open>The bytes of a fresh block are arbitrary; both callers overwrite every one.\<close>

definition ncl_buffer_alloc :: "grant \<Rightarrow> u8 list option \<Rightarrow> nat \<Rightarrow> ncl_err \<times> u8 list option" where
  "ncl_buffer_alloc g out n =
     (case out of
        None \<Rightarrow> (NCL_ERR_INVALID_ARG, None)
      | Some _ \<Rightarrow>
          if n = 0 then (NCL_OK, Some [])
          else if \<not> g n then (NCL_ERR_NOMEM, Some [])
          else (NCL_OK, Some (replicate n 0)))"

section \<open>Hexadecimal\<close>

definition ncl_hex_digits :: "u8 list" where
  "ncl_hex_digits = map (\<lambda>c. of_nat (of_char c)) ''0123456789ABCDEF''"

fun hex_encode_loop :: "nat \<Rightarrow> u8 list \<Rightarrow> u8 list \<Rightarrow> u8 list" where
  "hex_encode_loop i [] out = out"
| "hex_encode_loop i (x # src) out =
     hex_encode_loop (Suc i) src
       (out[2 * i := ncl_hex_digits ! unat (drop_bit 4 x AND 0x0F),
            2 * i + 1 := ncl_hex_digits ! unat (x AND 0x0F)])"

text \<open>\<open>src\<close> is \<open>None\<close> for a NULL pointer, and otherwise has \<open>src_len\<close> bytes.\<close>

definition ncl_codec_encode_hex ::
  "grant \<Rightarrow> u8 list option \<Rightarrow> nat \<Rightarrow> u8 list option \<Rightarrow> ncl_err \<times> u8 list option" where
  "ncl_codec_encode_hex g src src_len out =
     (if src = None \<and> src_len > 0 then (NCL_ERR_INVALID_ARG, out)
      else if src_len > SIZE_MAX div 2 then (NCL_ERR_NOMEM, out)
      else case ncl_buffer_alloc g out (src_len * 2) of
          (rc, out1) \<Rightarrow>
            if rc \<noteq> NCL_OK then (rc, out1)
            else (NCL_OK, map_option (hex_encode_loop 0 (case src of None \<Rightarrow> [] | Some xs \<Rightarrow> xs)) out1))"

text \<open>\<open>None\<close> when the flag \<open>ok\<close> is cleared.\<close>

definition ncl_hex_value :: "u8 \<Rightarrow> u8 option" where
  "ncl_hex_value c =
     (if 0x30 \<le> c \<and> c \<le> 0x39 then Some (c - 0x30)
      else if 0x41 \<le> c \<and> c \<le> 0x46 then Some (c - 0x41 + 10)
      else None)"

text \<open>The decoding loop; \<open>None\<close> is the exit that frees the buffer.\<close>

fun hex_decode_loop :: "nat \<Rightarrow> u8 list \<Rightarrow> u8 list \<Rightarrow> u8 list option" where
  "hex_decode_loop i (a # b # src) out =
     (case ncl_hex_value a of
        None \<Rightarrow> None
      | Some hi \<Rightarrow>
          (case ncl_hex_value b of
             None \<Rightarrow> None
           | Some lo \<Rightarrow> hex_decode_loop (Suc i) src (out[i := push_bit 4 hi OR lo])))"
| "hex_decode_loop i _ out = Some out"

definition ncl_codec_decode_hex ::
  "grant \<Rightarrow> u8 list option \<Rightarrow> nat \<Rightarrow> u8 list option \<Rightarrow> ncl_err \<times> u8 list option" where
  "ncl_codec_decode_hex g src src_len out =
     (if src = None \<and> src_len > 0 then (NCL_ERR_INVALID_ARG, out)
      else if src_len = 0 then ncl_buffer_alloc g out 0
      else if src_len mod 2 \<noteq> 0 then (NCL_ERR_INVALID_REQUEST, out)
      else case ncl_buffer_alloc g out (src_len div 2) of
          (rc, out1) \<Rightarrow>
            if rc \<noteq> NCL_OK then (rc, out1)
            else (case hex_decode_loop 0 (case src of None \<Rightarrow> [] | Some xs \<Rightarrow> xs) (the out1) of
                None \<Rightarrow> (NCL_ERR_INVALID_VALUE, ncl_buffer_free out1)
              | Some data \<Rightarrow> (NCL_OK, Some data)))"

section \<open>Driving zlib\<close>

datatype zstatus = Z_OK | Z_STREAM_END | Z_BUF_ERROR | Z_OTHER

text \<open>
  A zlib stream is a parameter: \<open>z_init\<close> builds its state over the input (\<open>None\<close> when the
  library refuses), \<open>z_step z n\<close> is one call of \<open>deflate\<close> or \<open>inflate\<close> with \<open>n\<close>
  bytes of room, giving the status, the bytes it wrote, and the new state; \<open>z_left\<close> is
  \<open>avail_in\<close>. \<open>avail_out\<close> is a 32 bit field.
\<close>

record 'z zlib =
  z_init :: "u8 list \<Rightarrow> 'z option"
  z_step :: "'z \<Rightarrow> nat \<Rightarrow> zstatus \<times> u8 list \<times> 'z"
  z_left :: "'z \<Rightarrow> nat"

definition write_at :: "nat \<Rightarrow> u8 list \<Rightarrow> (nat \<Rightarrow> u8) \<Rightarrow> (nat \<Rightarrow> u8)" where
  "write_at p bs buf = (\<lambda>q. if p \<le> q \<and> q < p + length bs then bs ! (q - p) else buf q)"

text \<open>The pump loop: \<open>Inl\<close> is an error exit, \<open>Inr\<close> the buffer and the number of bytes
  produced; a loop that never leaves is \<open>None\<close>.\<close>

partial_function (option) zlib_pump ::
  "grant \<Rightarrow> 'z zlib \<Rightarrow> bool \<Rightarrow> 'z \<Rightarrow> (nat \<Rightarrow> u8) \<Rightarrow> nat \<Rightarrow> nat
     \<Rightarrow> (ncl_err + (nat \<Rightarrow> u8) \<times> nat) option" where
  "zlib_pump g zl compress z buf capacity produced =
     (let next_cap = (capacity * 2) mod SIZE_MOD
      in if produced = capacity \<and> (next_cap \<le> capacity \<or> \<not> g next_cap) then Some (Inl NCL_ERR_NOMEM)
      else let cap = (if produced = capacity then next_cap else capacity);
               avail = (cap - produced) mod 2 ^ 32
           in case z_step zl z avail of
               (status, bs, z1) \<Rightarrow>
                 let buf1 = write_at produced bs buf;
                     produced1 = cap - (avail - length bs)
                 in if status = Z_STREAM_END then Some (Inr (buf1, produced1))
                    else if status = Z_OK \<or> status = Z_BUF_ERROR
                    then (if status = Z_BUF_ERROR \<and> z_left zl z1 = 0 \<and> produced1 \<noteq> cap
                          then Some (Inl (if compress then NCL_ERR else NCL_ERR_PARSE))
                          else zlib_pump g zl compress z1 buf1 cap produced1)
                    else Some (Inl (if compress then NCL_ERR else NCL_ERR_PARSE)))"

definition ncl_zlib_run ::
  "grant \<Rightarrow> 'z zlib \<Rightarrow> (nat \<Rightarrow> u8) \<Rightarrow> u8 list \<Rightarrow> nat \<Rightarrow> u8 list option \<Rightarrow> bool
     \<Rightarrow> (ncl_err \<times> u8 list option) option" where
  "ncl_zlib_run g zl junk src src_len out compress =
     (if out = None then Some (NCL_ERR_INVALID_ARG, None)
      else if src_len > 0xFFFFFFFF then Some (NCL_ERR_INVALID_ARG, Some [])
      else (let capacity = (if src_len > 128 then src_len * 2 else 256)
            in if \<not> g capacity then Some (NCL_ERR_NOMEM, Some [])
               else case z_init zl src of
                   None \<Rightarrow> Some (NCL_ERR, Some [])
                 | Some z \<Rightarrow>
                     map_option (\<lambda>r. case r of
                         Inl rc \<Rightarrow> (rc, Some [])
                       | Inr (buf, produced) \<Rightarrow> (NCL_OK, Some (map buf [0 ..< produced])))
                       (zlib_pump g zl compress z junk capacity 0)))"

text \<open>\<open>zdef\<close> and \<open>zinf\<close> are the two directions of zlib; without it both calls are refused.\<close>

definition ncl_codec_encode_compress where
  "ncl_codec_encode_compress g zlibs junk src src_len out =
     (case zlibs of
        None \<Rightarrow> Some (NCL_ERR_NOT_SUPPORTED, out)
      | Some (zdef, zinf) \<Rightarrow>
          if src = None \<and> src_len > 0 then Some (NCL_ERR_INVALID_ARG, out)
          else ncl_zlib_run g zdef junk (case src of None \<Rightarrow> [] | Some xs \<Rightarrow> xs) src_len out True)"

definition ncl_codec_decode_compress where
  "ncl_codec_decode_compress g zlibs junk src src_len out =
     (case zlibs of
        None \<Rightarrow> Some (NCL_ERR_NOT_SUPPORTED, out)
      | Some (zdef, zinf) \<Rightarrow>
          if src = None \<and> src_len > 0 then Some (NCL_ERR_INVALID_ARG, out)
          else ncl_zlib_run g zinf junk (case src of None \<Rightarrow> [] | Some xs \<Rightarrow> xs) src_len out False)"

definition ncl_codec_compress_available :: "('z zlib \<times> 'y zlib) option \<Rightarrow> bool" where
  "ncl_codec_compress_available zlibs = (zlibs \<noteq> None)"

section \<open>Dispatch\<close>

datatype ncl_codec_kind = NCL_CODEC_DEFAULT | NCL_CODEC_COMPRESS | NCL_CODEC_UNKNOWN

definition ncl_codec_encode where
  "ncl_codec_encode kind g zlibs junk src src_len out =
     (case kind of
        NCL_CODEC_DEFAULT \<Rightarrow> Some (ncl_codec_encode_hex g src src_len out)
      | NCL_CODEC_COMPRESS \<Rightarrow> ncl_codec_encode_compress g zlibs junk src src_len out
      | NCL_CODEC_UNKNOWN \<Rightarrow> Some (NCL_ERR_NOT_SUPPORTED, out))"

definition ncl_codec_decode where
  "ncl_codec_decode kind g zlibs junk src src_len out =
     (case kind of
        NCL_CODEC_DEFAULT \<Rightarrow> Some (ncl_codec_decode_hex g src src_len out)
      | NCL_CODEC_COMPRESS \<Rightarrow> ncl_codec_decode_compress g zlibs junk src src_len out
      | NCL_CODEC_UNKNOWN \<Rightarrow> Some (NCL_ERR_NOT_SUPPORTED, out))"

section \<open>Lemmas\<close>

definition hex_pair :: "u8 \<Rightarrow> u8 list" where
  "hex_pair x = [ncl_hex_digits ! unat (drop_bit 4 x AND 0x0F), ncl_hex_digits ! unat (x AND 0x0F)]"

lemma update_two: "length ys = Suc (Suc k) \<Longrightarrow>
    (xs @ ys)[length xs := a, Suc (length xs) := b] = xs @ a # b # drop 2 ys"
  by (cases ys; cases "tl ys") (auto simp: list_update_append)

lemma hex_encode_loop_eq:
  "length pre = 2 * i \<Longrightarrow> length rest = 2 * length src \<Longrightarrow>
     hex_encode_loop i src (pre @ rest) = pre @ concat (map hex_pair src)"
proof (induction src arbitrary: i pre rest)
  case (Cons x src)
  have "(pre @ rest)[2 * i := ncl_hex_digits ! unat (drop_bit 4 x AND 0x0F),
      2 * i + 1 := ncl_hex_digits ! unat (x AND 0x0F)] = (pre @ hex_pair x) @ drop 2 rest"
    using Cons.prems update_two [of rest "2 * length src" pre] by (simp add: hex_pair_def)
  then show ?case using Cons.prems Cons.IH [of "pre @ hex_pair x" "Suc i" "drop 2 rest"]
    by (simp add: hex_pair_def)
qed simp

lemma hex_digit_value:
  assumes "n < 16"
  shows "ncl_hex_value (ncl_hex_digits ! unat n) = Some n"
proof -
  have "n < 16 \<longrightarrow> ncl_hex_value (ncl_hex_digits ! unat n) = Some n" by (rule u8_all) code_simp
  with assms show ?thesis by simp
qed

lemma hex_value_digit:
  assumes "ncl_hex_value c = Some n"
  shows "n < 16 \<and> ncl_hex_digits ! unat n = c"
proof -
  have "case ncl_hex_value c of None \<Rightarrow> True | Some n \<Rightarrow> n < 16 \<and> ncl_hex_digits ! unat n = c"
    by (rule u8_all) code_simp
  with assms show ?thesis by simp
qed

lemma nibble [simp]: "x AND 0x0F = take_bit 4 (x :: u8)"
  by (simp add: take_bit_eq_mask mask_eq_exp_minus_1)

lemma nibbles_join: "push_bit 4 (take_bit 4 (drop_bit 4 x)) OR take_bit 4 x = (x :: u8)"
  by (rule bit_word_eqI) (auto simp: bit_simps)

lemma nibble_lt: "take_bit 4 x < (16 :: u8)"
  using take_bit_nat_less_exp [of 4 "unat x"] by (simp add: word_less_nat_alt unsigned_take_bit_eq)

lemma nibble_id:
  assumes "h < 16"
  shows "take_bit 4 h = (h :: u8)"
proof -
  have "unat h < 2 ^ 4" using assms by (simp add: word_less_nat_alt)
  then have "unat (take_bit 4 h) = unat h" by (simp add: unsigned_take_bit_eq take_bit_nat_eq_self)
  then show ?thesis by (rule unsigned_word_eqI)
qed

lemma nibbles_split:
  assumes "h < 16" and "l < (16 :: u8)"
  shows "take_bit 4 (drop_bit 4 (push_bit 4 h OR l)) = h" and "take_bit 4 (push_bit 4 h OR l) = l"
proof -
  have "take_bit 4 (drop_bit 4 (push_bit 4 (take_bit 4 h) OR take_bit 4 l)) = take_bit 4 h"
    "take_bit 4 (push_bit 4 (take_bit 4 h) OR take_bit 4 l) = take_bit 4 l"
    by (rule bit_word_eqI; auto simp: bit_simps)+
  with assms show "take_bit 4 (drop_bit 4 (push_bit 4 h OR l)) = h" "take_bit 4 (push_bit 4 h OR l) = l"
    by (simp_all add: nibble_id)
qed

lemma hex_decode_loop_pairs:
  "length pre = i \<Longrightarrow> length rest = length xs \<Longrightarrow>
     hex_decode_loop i (concat (map hex_pair xs)) (pre @ rest) = Some (pre @ xs)"
proof (induction xs arbitrary: i pre rest)
  case (Cons x xs)
  then obtain r rs where r: "rest = r # rs" by (cases rest) auto
  have v: "ncl_hex_value (ncl_hex_digits ! unat (take_bit 4 (drop_bit 4 x))) = Some (take_bit 4 (drop_bit 4 x))"
    "ncl_hex_value (ncl_hex_digits ! unat (take_bit 4 x)) = Some (take_bit 4 x)"
    by (rule hex_digit_value [OF nibble_lt])+
  have "hex_decode_loop i (concat (map hex_pair (x # xs))) (pre @ rest)
      = hex_decode_loop (Suc i) (concat (map hex_pair xs)) ((pre @ [x]) @ rs)"
    using Cons.prems v by (simp add: hex_pair_def nibbles_join r list_update_append)
  then show ?case using Cons.IH [of "pre @ [x]" "Suc i" rs] Cons.prems r by simp
qed simp

lemma hex_decode_loop_inv:
  "hex_decode_loop i t (pre @ rest) = Some d \<Longrightarrow> length pre = i \<Longrightarrow> length t = 2 * length rest \<Longrightarrow>
     \<exists>xs. d = pre @ xs \<and> length xs = length rest \<and> t = concat (map hex_pair xs)"
proof (induction t arbitrary: i pre rest rule: induct_list012)
  case (3 a b t)
  then obtain r rs where r: "rest = r # rs" by (cases rest) auto
  from 3 obtain h l where v: "ncl_hex_value a = Some h" "ncl_hex_value b = Some l"
    by (auto split: option.splits)
  let ?x = "push_bit 4 h OR l"
  have "hex_decode_loop (Suc i) t ((pre @ [?x]) @ rs) = Some d"
    using 3 v r by (simp add: list_update_append)
  from "3.IH"(1) [OF this] "3.prems" r obtain xs where
    xs: "d = (pre @ [?x]) @ xs" "length xs = length rs" "t = concat (map hex_pair xs)" by auto
  have "hex_pair ?x = [a, b]"
    using nibbles_split [of h l] hex_value_digit [OF v(1)] hex_value_digit [OF v(2)] by (simp add: hex_pair_def)
  with xs r show ?case by (intro exI [of _ "?x # xs"]) simp
qed auto

lemma length_hex_pairs [simp]: "length (concat (map hex_pair xs)) = 2 * length xs"
  by (induction xs) (simp_all add: hex_pair_def)

lemma encode_hex_eq:
  "length xs \<le> SIZE_MAX div 2 \<Longrightarrow>
     ncl_codec_encode_hex grant_all (Some xs) (length xs) (Some b) = (NCL_OK, Some (concat (map hex_pair xs)))"
  using hex_encode_loop_eq [of "[]" 0 "replicate (2 * length xs) 0" xs]
  by (simp add: grant_all ncl_codec_encode_hex_def ncl_buffer_alloc_def mult.commute)

lemma decode_hex_iff:
  "ncl_codec_decode_hex grant_all (Some t) (length t) (Some b) = (NCL_OK, Some xs) \<longleftrightarrow> t = concat (map hex_pair xs)"
proof
  assume "t = concat (map hex_pair xs)"
  then show "ncl_codec_decode_hex grant_all (Some t) (length t) (Some b) = (NCL_OK, Some xs)"
    using hex_decode_loop_pairs [of "[]" 0 "replicate (length xs) 0" xs]
    by (cases "xs = []") (simp_all add: grant_all ncl_codec_decode_hex_def ncl_buffer_alloc_def)
next
  assume a: "ncl_codec_decode_hex grant_all (Some t) (length t) (Some b) = (NCL_OK, Some xs)"
  show "t = concat (map hex_pair xs)"
  proof (cases "t = []")
    case True
    with a show ?thesis by (simp add: ncl_codec_decode_hex_def ncl_buffer_alloc_def)
  next
    case False
    with a have ev: "length t mod 2 = 0" and d: "hex_decode_loop 0 t ([] @ replicate (length t div 2) 0) = Some xs"
      by (auto simp: ncl_codec_decode_hex_def ncl_buffer_alloc_def split: if_splits option.splits)
    have "length t = 2 * length (replicate (length t div 2) (0 :: u8))" using ev by simp presburger
    from hex_decode_loop_inv [OF d _ this] show ?thesis by (metis append_Nil list.size(3))
  qed
qed

section \<open>What the zlib loop is told\<close>

text \<open>The documented behaviour of a stream that has \<open>out\<close> left to write: given room it
  writes as much as fits, and says so when everything is out.\<close>

inductive z_streams :: "('z \<Rightarrow> nat \<Rightarrow> zstatus \<times> u8 list \<times> 'z) \<Rightarrow> 'z \<Rightarrow> u8 list \<Rightarrow> bool" for step where
  "(\<forall>n > 0. (length out \<le> n \<and> (\<exists>z1. step z n = (Z_STREAM_END, out, z1)))
      \<or> (n < length out \<and> (\<exists>z1. step z n = (Z_OK, take n out, z1) \<and> z_streams step z1 (drop n out))))
     \<Longrightarrow> z_streams step z out"

text \<open>A stream that copies its input, for the instances.\<close>

definition copy_step :: "u8 list \<Rightarrow> nat \<Rightarrow> zstatus \<times> u8 list \<times> u8 list" where
  "copy_step z n = (if length z \<le> n then (Z_STREAM_END, z, []) else (Z_OK, take n z, drop n z))"

definition copy_zlib :: "u8 list zlib" where
  "copy_zlib = \<lparr>z_init = Some, z_step = copy_step, z_left = \<lambda>_. 0\<rparr>"

lemma copy_streams: "z_streams copy_step z z"
proof (induction "length z" arbitrary: z rule: less_induct)
  case less
  show ?case
    by (rule z_streams.intros) (auto simp: copy_step_def intro!: less)
qed

lemma write_at_prefix:
  "map (write_at p bs buf) [0 ..< p + length bs] = map buf [0 ..< p] @ bs"
  by (rule nth_equalityI) (auto simp: write_at_def nth_append)

lemma zlib_pump_delivers:
  assumes "z_streams (z_step zl) z out" and "produced \<le> capacity" and "0 < capacity" and "capacity < 2 ^ 32"
    and "produced + length out < 2 ^ 31"
  shows "\<exists>buf1. zlib_pump grant_all zl compress z buf capacity produced = Some (Inr (buf1, produced + length out))
    \<and> map buf1 [0 ..< produced + length out] = map buf [0 ..< produced] @ out"
  using assms
proof (induction arbitrary: produced capacity buf rule: z_streams.induct)
  case (1 out z)
  define cap where "cap = (if produced = capacity then capacity * 2 else capacity)"
  define avail where "avail = cap - produced"
  have cap: "produced < cap" "cap < 2 ^ 32" "0 < cap" "avail > 0" "cap - avail = produced" "avail \<le> cap"
    using "1.prems" by (auto simp: cap_def avail_def)
  have nowrap: "(capacity * 2) mod SIZE_MOD = capacity * 2" "(cap - produced) mod 2 ^ 32 = avail"
    using "1.prems" cap by (auto simp: SIZE_MOD_def avail_def)
  have room: "(produced = capacity \<and> (capacity * 2 \<le> capacity \<or> \<not> grant_all (capacity * 2))) = False"
    using "1.prems"(2) by (auto simp: grant_all)
  have pump: "zlib_pump grant_all zl compress z buf capacity produced =
      (case z_step zl z avail of (status, bs, z1) \<Rightarrow>
         let buf1 = write_at produced bs buf; produced1 = cap - (avail - length bs)
         in if status = Z_STREAM_END then Some (Inr (buf1, produced1))
            else if status = Z_OK \<or> status = Z_BUF_ERROR
            then (if status = Z_BUF_ERROR \<and> z_left zl z1 = 0 \<and> produced1 \<noteq> cap
                  then Some (Inl (if compress then NCL_ERR else NCL_ERR_PARSE))
                  else zlib_pump grant_all zl compress z1 buf1 cap produced1)
            else Some (Inl (if compress then NCL_ERR else NCL_ERR_PARSE)))"
    by (subst zlib_pump.simps) (simp only: nowrap Let_def room if_False flip: cap_def)
  from "1.IH" [rule_format, OF cap(4)] show ?case
  proof (elim disjE conjE exE)
    fix z1 assume fin: "length out \<le> avail" "z_step zl z avail = (Z_STREAM_END, out, z1)"
    have "cap - (avail - length out) = produced + length out" using fin(1) cap by simp
    then show ?thesis using fin write_at_prefix [of produced out buf] by (simp add: pump Let_def)
  next
    fix z1
    assume more: "avail < length out" "z_step zl z avail = (Z_OK, take avail out, z1)"
      and ih: "\<forall>p c. p \<le> c \<longrightarrow> 0 < c \<longrightarrow> c < 2 ^ 32 \<longrightarrow> p + length (drop avail out) < 2 ^ 31 \<longrightarrow>
        (\<forall>b. \<exists>buf1. zlib_pump grant_all zl compress z1 b c p = Some (Inr (buf1, p + length (drop avail out)))
          \<and> map buf1 [0 ..< p + length (drop avail out)] = map b [0 ..< p] @ drop avail out)"
    have len: "length (take avail out) = avail" "cap = produced + avail" using more(1) cap by auto
    have "zlib_pump grant_all zl compress z buf capacity produced
        = zlib_pump grant_all zl compress z1 (write_at produced (take avail out) buf) cap cap"
      using more(1,2) len by (simp add: pump Let_def)
    moreover obtain buf1 where "zlib_pump grant_all zl compress z1 (write_at produced (take avail out) buf) cap cap
        = Some (Inr (buf1, cap + length (drop avail out)))"
      "map buf1 [0 ..< cap + length (drop avail out)]
        = map (write_at produced (take avail out) buf) [0 ..< cap] @ drop avail out"
      using ih [rule_format, of cap cap "write_at produced (take avail out) buf"] cap more(1) "1.prems"(4) len(2)
      by auto
    moreover have "cap + length (drop avail out) = produced + length out" using len more(1) by simp
    moreover have "map (write_at produced (take avail out) buf) [0 ..< cap] = map buf [0 ..< produced] @ take avail out"
      using write_at_prefix [of produced "take avail out" buf] len by simp
    ultimately show ?thesis by (simp)
  qed
qed

section \<open>Properties\<close>

text \<open>A text decodes to the bytes \<open>xs\<close> exactly when it is what encoding \<open>xs\<close> gives:
  decoding inverts encoding, and nothing else is accepted (odd lengths, lower case digits
  and stray characters are refused).\<close>

theorem hex_codec_exact:
  assumes "length xs \<le> SIZE_MAX div 2"
  shows "ncl_codec_decode_hex grant_all (Some t) (length t) (Some b) = (NCL_OK, Some xs)
    \<longleftrightarrow> ncl_codec_encode_hex grant_all (Some xs) (length xs) (Some b) = (NCL_OK, Some t)"
  using decode_hex_iff [of t b xs] encode_hex_eq [OF assms, of b] by auto

lemma ex_hex: "concat (map hex_pair [0x3C]) = [0x33, 0x43]"
  by code_simp

theorem hex_codec_exact_witness:
  "ncl_codec_decode_hex grant_all (Some [0x33, 0x43]) (length [0x33, 0x43 :: u8]) (Some []) = (NCL_OK, Some [0x3C])"
  using hex_codec_exact [of "[0x3C]" "[0x33, 0x43]" "[]"] encode_hex_eq [of "[0x3C]" "[]"]
  unfolding ex_hex by (simp add: SIZE_MAX_def)

text \<open>Whatever zlib writes, in however many pieces, is delivered whole and in order: the
  loop that grows the output buffer ends, and its result is exactly the stream, as long as
  input and output stay below two gigabytes.\<close>

theorem zlib_run_delivers:
  assumes "z_init zl src = Some z" and "z_streams (z_step zl) z out"
    and "length src < 2 ^ 31" and "length out < 2 ^ 31"
  shows "ncl_zlib_run grant_all zl junk src (length src) (Some b) compress = Some (NCL_OK, Some out)"
proof -
  let ?cap = "if length src > 128 then length src * 2 else 256"
  have cap: "0 < ?cap" "?cap < 2 ^ 32" using assms(3) by auto
  obtain buf1 where "zlib_pump grant_all zl compress z junk ?cap 0 = Some (Inr (buf1, 0 + length out))"
    "map buf1 [0 ..< 0 + length out] = map junk [0 ..< 0] @ out"
    using zlib_pump_delivers [OF assms(2) _ cap, of 0 compress junk] assms(4) by auto
  then show ?thesis using assms(1,3) by (simp add: grant_all ncl_zlib_run_def)
qed

theorem zlib_run_delivers_witness:
  "ncl_zlib_run grant_all copy_zlib (\<lambda>_. 0) (replicate 300 7) 300 (Some []) True = Some (NCL_OK, Some (replicate 300 7))"
  using zlib_run_delivers [of copy_zlib "replicate 300 7" "replicate 300 7" "replicate 300 7" "\<lambda>_. 0" "[]" True]
    copy_streams by (simp add: copy_zlib_def)

text \<open>Above two gigabytes of input the room left no longer fits the 32 bit field it is
  stored in: a stream that fits comes back with 4 GiB of unwritten memory counted as output.\<close>

theorem zlib_run_over_reports:
  assumes "z_init zl src = Some z" and "z_streams (z_step zl) z out"
    and "2 ^ 31 < length src" and "length src \<le> 0xFFFFFFFF" and "length out \<le> 2 * length src - 2 ^ 32"
  shows "\<exists>data. ncl_zlib_run grant_all zl junk src (length src) (Some b) compress = Some (NCL_OK, Some data)
    \<and> length data = length out + 2 ^ 32"
proof -
  let ?cap = "length src * 2"
  have avail: "?cap mod 4294967296 = ?cap - 4294967296" using assms(3,4) by (simp add: mod_if)
  have ne: "src \<noteq> []" using assms(3) by auto
  have pos: "0 < ?cap - 2 ^ 32" using assms(3) by simp
  from assms(2) pos assms(5) obtain z1 where st: "z_step zl z (?cap - 2 ^ 32) = (Z_STREAM_END, out, z1)"
    by (cases rule: z_streams.cases) (auto simp: mult.commute dest: spec [of _ "?cap - 2 ^ 32"])
  have "zlib_pump grant_all zl compress z junk ?cap 0
      = Some (Inr (write_at 0 out junk, ?cap - (?cap - 2 ^ 32 - length out)))"
    using ne st by (subst zlib_pump.simps) (simp add: avail Let_def)
  then have "ncl_zlib_run grant_all zl junk src (length src) (Some b) compress
      = Some (NCL_OK, Some (map (write_at 0 out junk) [0 ..< ?cap - (?cap - 2 ^ 32 - length out)]))"
    using assms(1,3,4) by (simp add: grant_all Let_def ncl_zlib_run_def)
  moreover have "?cap - (?cap - 2 ^ 32 - length out) = length out + 2 ^ 32" using assms(3,5) by simp
  ultimately show ?thesis by simp
qed

definition zero_input :: "nat \<Rightarrow> u8 list" where
  "zero_input n = replicate n 0"

lemma length_zero_input [simp]: "length (zero_input n) = n"
  by (simp add: zero_input_def)

definition one_byte_zlib :: "u8 list zlib" where
  "one_byte_zlib = \<lparr>z_init = \<lambda>_. Some [1], z_step = copy_step, z_left = \<lambda>_. 0\<rparr>"

theorem zlib_run_over_reports_witness:
  "\<exists>data. ncl_zlib_run grant_all one_byte_zlib (\<lambda>_. 0) (zero_input 2147483649) 2147483649 (Some []) True
      = Some (NCL_OK, Some data) \<and> length data = 4294967297"
  using zlib_run_over_reports [of one_byte_zlib "zero_input 2147483649" "[1]" "[1]" "\<lambda>_. 0" "[]" True]
    copy_streams [of "[1]"] by (simp add: one_byte_zlib_def)

end
