(* ===== verification/General_Topic.thy ===== *)
theory General_Topic
  imports Common
begin

text \<open>
  \<^verbatim>\<open>stack/src/general/general.c\<close> (result codes, operations, validity helpers) and
  \<^verbatim>\<open>stack/src/general/topic.c\<close> (MQTT topic builders and the reverse direction).
\<close>

section \<open>Codes and operations\<close>

datatype ncl_code = NCL_CODE_OK | NCL_CODE_NG | NCL_CODE_PENDING

definition NCL_KW_CODE_OK :: string where
  "NCL_KW_CODE_OK = ''OK''"

definition NCL_KW_CODE_NG :: string where
  "NCL_KW_CODE_NG = ''NG''"

definition NCL_KW_CODE_PENDING :: string where
  "NCL_KW_CODE_PENDING = ''PENDING''"

lemmas code_words = NCL_KW_CODE_OK_def NCL_KW_CODE_NG_def NCL_KW_CODE_PENDING_def

fun ncl_code_to_string :: "ncl_code \<Rightarrow> string" where
  "ncl_code_to_string NCL_CODE_OK = NCL_KW_CODE_OK"
| "ncl_code_to_string NCL_CODE_NG = NCL_KW_CODE_NG"
| "ncl_code_to_string NCL_CODE_PENDING = NCL_KW_CODE_PENDING"

text \<open>\<open>None\<close> is the result \<open>false\<close>; the out pointer is taken to be given.\<close>

definition ncl_code_parse :: "string option \<Rightarrow> ncl_code option" where
  "ncl_code_parse text =
     (case text of None \<Rightarrow> None
      | Some t \<Rightarrow>
          if t = NCL_KW_CODE_OK then Some NCL_CODE_OK
          else if t = NCL_KW_CODE_NG then Some NCL_CODE_NG
          else if t = NCL_KW_CODE_PENDING then Some NCL_CODE_PENDING
          else None)"

datatype ncl_operation =
    NCL_OP_GET_VALUE
  | NCL_OP_GET_LENGTH
  | NCL_OP_GET_KEYS
  | NCL_OP_GET_ATTRIBUTES
  | NCL_OP_SET_VALUE
  | NCL_OP_ADD
  | NCL_OP_DELETE
  | NCL_OP_FUNC_CALL
  | NCL_OP_FUNC_STATUS
  | NCL_OP_FUNC_RESULT
  | NCL_OP_FUNC_CANCEL

fun ncl_operation_to_string :: "ncl_operation \<Rightarrow> string" where
  "ncl_operation_to_string NCL_OP_GET_VALUE = ''get_value''"
| "ncl_operation_to_string NCL_OP_GET_LENGTH = ''get_length''"
| "ncl_operation_to_string NCL_OP_GET_KEYS = ''get_keys''"
| "ncl_operation_to_string NCL_OP_GET_ATTRIBUTES = ''get_attributes''"
| "ncl_operation_to_string NCL_OP_SET_VALUE = ''set_value''"
| "ncl_operation_to_string NCL_OP_ADD = ''add''"
| "ncl_operation_to_string NCL_OP_DELETE = ''delete''"
| "ncl_operation_to_string NCL_OP_FUNC_CALL = ''call''"
| "ncl_operation_to_string NCL_OP_FUNC_STATUS = ''status''"
| "ncl_operation_to_string NCL_OP_FUNC_RESULT = ''result''"
| "ncl_operation_to_string NCL_OP_FUNC_CANCEL = ''cancel''"

text \<open>The operations in the order of their numbers, which is the order of the search.\<close>

definition all_operations :: "ncl_operation list" where
  "all_operations =
     [NCL_OP_GET_VALUE, NCL_OP_GET_LENGTH, NCL_OP_GET_KEYS, NCL_OP_GET_ATTRIBUTES, NCL_OP_SET_VALUE,
      NCL_OP_ADD, NCL_OP_DELETE, NCL_OP_FUNC_CALL, NCL_OP_FUNC_STATUS, NCL_OP_FUNC_RESULT, NCL_OP_FUNC_CANCEL]"

fun operation_search :: "string \<Rightarrow> ncl_operation list \<Rightarrow> ncl_operation option" where
  "operation_search t [] = None"
| "operation_search t (op # ops) =
     (if t = ncl_operation_to_string op then Some op else operation_search t ops)"

definition ncl_operation_parse :: "string option \<Rightarrow> ncl_operation option" where
  "ncl_operation_parse text =
     (case text of None \<Rightarrow> None | Some t \<Rightarrow> operation_search t all_operations)"

definition ncl_check_is_code_valid :: "string option \<Rightarrow> bool" where
  "ncl_check_is_code_valid code =
     (if code = None then False
      else ncl_streq_ignore_case code (Some NCL_KW_CODE_NG) \<or> ncl_streq_ignore_case code (Some NCL_KW_CODE_OK))"

definition ncl_check_is_code_ok :: "string option \<Rightarrow> bool" where
  "ncl_check_is_code_ok code \<longleftrightarrow> code \<noteq> None \<and> ncl_streq_ignore_case code (Some NCL_KW_CODE_OK)"

definition ncl_check_is_code_ng :: "string option \<Rightarrow> bool" where
  "ncl_check_is_code_ng code \<longleftrightarrow> code \<noteq> None \<and> ncl_streq_ignore_case code (Some NCL_KW_CODE_NG)"

definition ncl_check_is_pending :: "string option \<Rightarrow> bool" where
  "ncl_check_is_pending code \<longleftrightarrow> code \<noteq> None \<and> ncl_streq_ignore_case code (Some NCL_KW_CODE_PENDING)"

definition ncl_check_is_data_type_valid :: "string option \<Rightarrow> bool" where
  "ncl_check_is_data_type_valid data_type =
     (if data_type = None then True
      else ncl_streq_ignore_case data_type (Some ''HASH'') \<or> ncl_streq_ignore_case data_type (Some ''LIST''))"

section \<open>Topic builders\<close>

text \<open>\<open>ncl_asprintf\<close> of a text already spelled out: a heap copy of it.\<close>

definition ncl_asprintf_text :: "grant \<Rightarrow> string \<Rightarrow> string option" where
  "ncl_asprintf_text g t = (if g (length t + 1) then Some t else None)"

definition ncl_topic_build :: "grant \<Rightarrow> string option \<Rightarrow> string option \<Rightarrow> string option \<Rightarrow> string option" where
  "ncl_topic_build g prefix device_id client_id =
     (let p = (case prefix of None \<Rightarrow> [] | Some p \<Rightarrow> p);
          d = (case device_id of None \<Rightarrow> [] | Some d \<Rightarrow> d)
      in case client_id of
          None \<Rightarrow> ncl_asprintf_text g (p @ d)
        | Some c \<Rightarrow> ncl_asprintf_text g (p @ d @ ''/'' @ c))"

definition NCL_TOPIC_SAMPLE_PREFIX :: string where
  "NCL_TOPIC_SAMPLE_PREFIX = ''Sample/''"

datatype topic_kind =
    Ping | Pong | Probe_Query_Request | Probe_Query_Response | Probe_Set_Request | Probe_Set_Response
  | Query_Request | Query_Response | Set_Request | Set_Response | Sample | Probe_Version
  | Method_Call_Request | Method_Call_Response | Event | Method_Status_Request | Method_Status_Response
  | Method_Result_Request | Method_Result_Response

fun topic_prefix :: "topic_kind \<Rightarrow> string" where
  "topic_prefix Ping = ''Ping/''"
| "topic_prefix Pong = ''Pong/''"
| "topic_prefix Probe_Query_Request = ''Probe/Query/Request/''"
| "topic_prefix Probe_Query_Response = ''Probe/Query/Response/''"
| "topic_prefix Probe_Set_Request = ''Probe/Set/Request/''"
| "topic_prefix Probe_Set_Response = ''Probe/Set/Response/''"
| "topic_prefix Query_Request = ''Query/Request/''"
| "topic_prefix Query_Response = ''Query/Response/''"
| "topic_prefix Set_Request = ''Set/Request/''"
| "topic_prefix Set_Response = ''Set/Response/''"
| "topic_prefix Sample = NCL_TOPIC_SAMPLE_PREFIX"
| "topic_prefix Probe_Version = ''Probe/Version/''"
| "topic_prefix Method_Call_Request = ''Method/Call/Request/''"
| "topic_prefix Method_Call_Response = ''Method/Call/Response/''"
| "topic_prefix Event = ''Event/''"
| "topic_prefix Method_Status_Request = ''Method/Status/Request/''"
| "topic_prefix Method_Status_Response = ''Method/Status/Response/''"
| "topic_prefix Method_Result_Request = ''Method/Result/Request/''"
| "topic_prefix Method_Result_Response = ''Method/Result/Response/''"

text \<open>One builder per kind; \<open>ping\<close> and \<open>pong\<close> take no client.\<close>

definition ncl_topic :: "grant \<Rightarrow> topic_kind \<Rightarrow> string option \<Rightarrow> string option \<Rightarrow> string option" where
  "ncl_topic g kind device_id client_id =
     ncl_topic_build g (Some (topic_prefix kind)) device_id
       (if kind = Ping \<or> kind = Pong then None else client_id)"

definition ncl_topic_register_request :: "grant \<Rightarrow> string option" where
  "ncl_topic_register_request g = ncl_strdup g (Some ''Register/Request'')"

section \<open>The serial number of a topic\<close>

text \<open>The pointer loops over the text \<open>t\<close>, with positions for pointers: step back over
  separators, step back to the start of a segment.\<close>

fun back_seps :: "string \<Rightarrow> nat \<Rightarrow> nat" where
  "back_seps t 0 = 0"
| "back_seps t (Suc e) = (if t ! e = CHR ''/'' then back_seps t e else Suc e)"

fun back_segment :: "string \<Rightarrow> nat \<Rightarrow> nat" where
  "back_segment t 0 = 0"
| "back_segment t (Suc e) = (if t ! e \<noteq> CHR ''/'' then back_segment t e else Suc e)"

definition ncl_topic_extract_sn :: "grant \<Rightarrow> string option \<Rightarrow> string option" where
  "ncl_topic_extract_sn g topic =
     (case topic of None \<Rightarrow> None
      | Some t \<Rightarrow>
          (let end_pos = back_seps t (length t)
           in if end_pos = 0 then None
              else (let last_pos = back_segment t end_pos;
                        whole = ncl_strndup g (Some (drop last_pos t)) (end_pos - last_pos)
                    in if ncl_str_starts_with topic (Some NCL_TOPIC_SAMPLE_PREFIX) \<and> last_pos > 0
                       then (let prev_end = back_seps t (last_pos - 1)
                             in if prev_end > 0
                                then (let prev = back_segment t prev_end
                                      in ncl_strndup g (Some (drop prev t)) (prev_end - prev))
                                else whole)
                       else whole)))"

section \<open>Lemmas\<close>

definition segment :: "string \<Rightarrow> bool" where
  "segment s \<longleftrightarrow> s \<noteq> [] \<and> CHR ''/'' \<notin> set s \<and> is_cstr s"

lemma back_seps_none: "xs \<noteq> [] \<Longrightarrow> last xs \<noteq> CHR ''/'' \<Longrightarrow> back_seps (xs @ ys) (length xs) = length xs"
  by (cases xs rule: rev_cases) (simp_all add: nth_append)

lemma back_segment_run: "CHR ''/'' \<notin> set seg \<Longrightarrow>
    back_segment (xs @ seg @ ys) (length xs + length seg) = back_segment (xs @ seg @ ys) (length xs)"
proof (induction seg arbitrary: ys rule: rev_induct)
  case (snoc c seg)
  then show ?case using snoc.IH [of "c # ys"] by (auto simp: nth_append)
qed simp

lemma back_segment_stop: "xs = [] \<or> last xs = CHR ''/'' \<Longrightarrow> back_segment (xs @ ys) (length xs) = length xs"
  by (cases xs rule: rev_cases) (simp_all add: nth_append)

lemma back_segment_seg:
  assumes "segment seg" and "xs = [] \<or> last xs = CHR ''/''"
  shows "back_segment (xs @ seg @ ys) (length xs + length seg) = length xs"
  using assms back_segment_run [of seg xs ys] back_segment_stop [of xs "seg @ ys"] by (simp add: segment_def)

lemma segment_last: "segment s \<Longrightarrow> last s \<noteq> CHR ''/''"
  by (metis last_in_set segment_def)

lemma strndup_segment: "segment s \<Longrightarrow> ncl_strndup grant_all (Some (s @ ys)) (length s) = Some s"
  by (simp add: grant_all ncl_strndup_def segment_def)

lemma extract_last:
  assumes "segment s" and "xs = [] \<or> last xs = CHR ''/''"
    and "\<not> ncl_str_starts_with (Some (xs @ s)) (Some NCL_TOPIC_SAMPLE_PREFIX)"
  shows "ncl_topic_extract_sn grant_all (Some (xs @ s)) = Some s"
proof -
  have e: "back_seps (xs @ s) (length (xs @ s)) = length (xs @ s)"
    using back_seps_none [of "xs @ s" "[]"] segment_last [OF assms(1)] assms(1) by (simp add: segment_def)
  have l: "back_segment (xs @ s) (length (xs @ s)) = length xs"
    using back_segment_seg [OF assms(1,2), of "[]"] by simp
  show ?thesis
    using e l assms(1,3) strndup_segment [OF assms(1), of "[]"]
    unfolding ncl_topic_extract_sn_def Let_def by (simp add: segment_def)
qed

lemma extract_before_last:
  assumes "segment s" and "segment c" and "xs = [] \<or> last xs = CHR ''/''"
    and "ncl_str_starts_with (Some (xs @ s @ ''/'' @ c)) (Some NCL_TOPIC_SAMPLE_PREFIX)"
  shows "ncl_topic_extract_sn grant_all (Some (xs @ s @ ''/'' @ c)) = Some s"
proof -
  let ?t = "xs @ s @ ''/'' @ c" and ?pre = "xs @ s @ ''/''"
  have e: "back_seps ?t (length ?t) = length ?t"
    using back_seps_none [of ?t "[]"] segment_last [OF assms(2)] assms(2)
    by (simp add: segment_def add.assoc del: back_seps.simps)
  have l: "back_segment ?t (length ?t) = length ?pre"
    using back_segment_seg [OF assms(2), of ?pre "[]"] by (simp add: add.assoc del: back_segment.simps)
  have pe: "back_seps ?t (length ?pre - 1) = length (xs @ s)"
    using back_seps_none [of "xs @ s" "''/'' @ c"] segment_last [OF assms(1)] assms(1) by (simp add: segment_def)
  have p: "back_segment ?t (length (xs @ s)) = length xs"
    using back_segment_seg [OF assms(1,3), of "''/'' @ c"] by simp
  have "0 < length ?t" "0 < length ?pre" "0 < length (xs @ s)" using assms(1) by (auto simp: segment_def)
  moreover have "ncl_strndup grant_all (Some (drop (length xs) ?t)) (length (xs @ s) - length xs) = Some s"
    using strndup_segment [OF assms(1), of "''/'' @ c"] by simp
  ultimately show ?thesis
    using assms(4) unfolding ncl_topic_extract_sn_def option.case Let_def e l pe p by simp
qed

lemma prefix_slash: "last (topic_prefix k) = CHR ''/''" "topic_prefix k \<noteq> []"
  by (cases k; simp add: NCL_TOPIC_SAMPLE_PREFIX_def)+

lemma prefix_not_sample:
  "k \<noteq> Sample \<Longrightarrow> \<not> ncl_str_starts_with (Some (topic_prefix k @ s)) (Some NCL_TOPIC_SAMPLE_PREFIX)"
  by (cases k) (auto simp: ncl_str_starts_with_def NCL_TOPIC_SAMPLE_PREFIX_def)

section \<open>Properties\<close>

text \<open>Parsing an operation or a result code is the exact inverse of printing it: a text is
  accepted when and only when it is the name of the value returned.\<close>

theorem names_parse_exactly:
  "(ncl_operation_parse (Some t) = Some op \<longleftrightarrow> t = ncl_operation_to_string op)
    \<and> (ncl_code_parse (Some t) = Some code \<longleftrightarrow> t = ncl_code_to_string code)"
proof
  show "ncl_operation_parse (Some t) = Some op \<longleftrightarrow> t = ncl_operation_to_string op"
    by (cases op) (auto simp: ncl_operation_parse_def all_operations_def split: if_splits)
  show "ncl_code_parse (Some t) = Some code \<longleftrightarrow> t = ncl_code_to_string code"
    by (cases code) (auto simp: ncl_code_parse_def code_words split: if_splits)
qed

text \<open>A topic built for a serial number gives the serial number back: the last segment of
  every kind but samples, whose serial number stands before the client.\<close>

theorem topic_extract_build:
  assumes "segment sn" and "segment client"
  shows "Option.bind (ncl_topic grant_all kind (Some sn) (if kind = Sample then Some client else None))
      (\<lambda>t. ncl_topic_extract_sn grant_all (Some t)) = Some sn"
proof (cases "kind = Sample")
  case True
  then show ?thesis
    using extract_before_last [OF assms, of "topic_prefix Sample"] prefix_slash [of Sample]
    by (simp add: grant_all ncl_topic_def ncl_topic_build_def ncl_asprintf_text_def ncl_str_starts_with_def)
next
  case False
  then show ?thesis
    using extract_last [OF assms(1), of "topic_prefix kind"] prefix_slash [of kind] prefix_not_sample [of kind sn]
    by (simp add: grant_all Let_def ncl_topic_def ncl_topic_build_def ncl_asprintf_text_def)
qed

theorem topic_extract_build_witness:
  "Option.bind (ncl_topic grant_all Query_Request (Some ''CNC1'') None)
      (\<lambda>t. ncl_topic_extract_sn grant_all (Some t)) = Some ''CNC1''"
  using topic_extract_build [of "''CNC1''" "''app''" Query_Request] by (simp add: segment_def is_cstr_def NUL_def)

end
