(* ===== verification/Mqtt_Wire.thy ===== *)
theory Mqtt_Wire
  imports Common
begin

text \<open>
  \<^verbatim>\<open>stack/src/mqtt/packet.c\<close>, first part: the variable length integer, the field writers
  over \<open>ncl_strbuf\<close>, the fixed header, and the bounds checked reader. MQTT strings
  are byte lists; a C string among them has no zero byte.
\<close>

definition NCL_MQTT_MAX_REMAINING_LENGTH :: nat where
  "NCL_MQTT_MAX_REMAINING_LENGTH = 268435455"

section \<open>Variable length integers\<close>

fun varint_encode_loop :: "nat \<Rightarrow> nat \<Rightarrow> u8 list" where
  "varint_encode_loop 0 v = []"
| "varint_encode_loop (Suc room) v =
     (let byte = v mod 128; rest = v div 128
      in (if rest > 0 then of_nat byte OR 0x80 else of_nat byte)
         # (if rest > 0 then varint_encode_loop room rest else []))"

text \<open>The loop runs while bytes are left of the value and of the four of \<open>out\<close>.\<close>

definition ncl_mqtt_varint_encode :: "u32 \<Rightarrow> u8 list" where
  "ncl_mqtt_varint_encode v = varint_encode_loop 4 (unat v)"

text \<open>\<open>(0, _)\<close> is the refusal; \<open>value\<close> is written on success only.\<close>

fun varint_decode_loop :: "nat \<Rightarrow> nat \<Rightarrow> u32 \<Rightarrow> u32 \<Rightarrow> u8 list \<Rightarrow> (nat \<times> u32) option" where
  "varint_decode_loop 0 i multiplier result data = None"
| "varint_decode_loop (Suc room) i multiplier result [] = None"
| "varint_decode_loop (Suc room) i multiplier result (b # data) =
     (let result1 = result + ucast (b AND 0x7F) * multiplier
      in if b AND 0x80 = 0 then Some (i + 1, result1)
         else varint_decode_loop room (i + 1) (multiplier * 128) result1 data)"

definition ncl_mqtt_varint_decode :: "u8 list \<Rightarrow> (nat \<times> u32) option" where
  "ncl_mqtt_varint_decode data = varint_decode_loop 4 0 1 0 data"

section \<open>Field writers\<close>

type_synonym writer = "strbuf \<Rightarrow> ncl_err \<times> strbuf"

definition write_prefixed :: "grant \<Rightarrow> u8 list \<Rightarrow> writer" where
  "write_prefixed g s out =
     (if length s > 0xFFFF then (NCL_ERR_INVALID_ARG, out)
      else case ncl_strbuf_append g out (u16_bytes (of_nat (length s))) of
          (rc, out1) \<Rightarrow>
            if rc \<noteq> NCL_OK then (NCL_ERR_NOMEM, out1)
            else if length s > 0
            then (case ncl_strbuf_append g out1 s of
                (rc2, out2) \<Rightarrow> if rc2 \<noteq> NCL_OK then (NCL_ERR_NOMEM, out2) else (NCL_OK, out2))
            else (NCL_OK, out1))"

text \<open>A NULL string is written as the empty one.\<close>

definition ncl_mqtt_write_string :: "grant \<Rightarrow> u8 list option \<Rightarrow> writer" where
  "ncl_mqtt_write_string g s = write_prefixed g (case s of None \<Rightarrow> [] | Some t \<Rightarrow> t)"

definition ncl_mqtt_write_binary :: "grant \<Rightarrow> u8 list \<Rightarrow> writer" where
  "ncl_mqtt_write_binary g data = write_prefixed g data"

definition nomem_unless_ok :: "ncl_err \<times> strbuf \<Rightarrow> ncl_err \<times> strbuf" where
  "nomem_unless_ok r = (if fst r = NCL_OK then NCL_OK else NCL_ERR_NOMEM, snd r)"

definition ncl_mqtt_write_u16 :: "grant \<Rightarrow> u16 \<Rightarrow> writer" where
  "ncl_mqtt_write_u16 g v out = nomem_unless_ok (ncl_strbuf_append g out (u16_bytes v))"

definition ncl_mqtt_write_u32 :: "grant \<Rightarrow> u32 \<Rightarrow> writer" where
  "ncl_mqtt_write_u32 g v out = nomem_unless_ok (ncl_strbuf_append g out (u32_bytes v))"

definition ncl_mqtt_write_property_id :: "grant \<Rightarrow> u8 \<Rightarrow> writer" where
  "ncl_mqtt_write_property_id g i out = nomem_unless_ok (ncl_strbuf_putc g out i)"

text \<open>\<open>out\<close> is given; the status and the packet (on failure \<open>out\<close> keeps its value,
  which every caller has cleared).\<close>

definition ncl_mqtt_frame :: "grant \<Rightarrow> u8 \<Rightarrow> strbuf \<Rightarrow> ncl_err + u8 list" where
  "ncl_mqtt_frame g type_and_flags body =
     (if length (sb_bytes body) > NCL_MQTT_MAX_REMAINING_LENGTH then Inl NCL_ERR_RANGE
      else (let length_bytes = ncl_mqtt_varint_encode (of_nat (length (sb_bytes body)));
                tot = 1 + length length_bytes + length (sb_bytes body)
            in if \<not> g tot then Inl NCL_ERR_NOMEM
               else Inr (type_and_flags # length_bytes @ sb_bytes body)))"

section \<open>The reader\<close>

text \<open>The C field \<open>len\<close> is the length of \<open>rd_data\<close>.\<close>

record mqtt_reader =
  rd_data :: "u8 list"
  rd_pos :: nat
  rd_truncated :: bool

definition ncl_mqtt_reader_init :: "u8 list \<Rightarrow> mqtt_reader" where
  "ncl_mqtt_reader_init data = \<lparr>rd_data = data, rd_pos = 0, rd_truncated = False\<rparr>"

definition ncl_mqtt_read_u8 :: "mqtt_reader \<Rightarrow> u8 \<times> mqtt_reader" where
  "ncl_mqtt_read_u8 r =
     (if rd_pos r + 1 > length (rd_data r) then (0, r\<lparr>rd_truncated := True\<rparr>)
      else (rd_data r ! rd_pos r, r\<lparr>rd_pos := rd_pos r + 1\<rparr>))"

definition ncl_mqtt_read_u16 :: "mqtt_reader \<Rightarrow> u16 \<times> mqtt_reader" where
  "ncl_mqtt_read_u16 r =
     (if rd_pos r + 2 > length (rd_data r) then (0, r\<lparr>rd_truncated := True\<rparr>)
      else (u16_join (rd_data r ! rd_pos r) (rd_data r ! (rd_pos r + 1)), r\<lparr>rd_pos := rd_pos r + 2\<rparr>))"

definition ncl_mqtt_read_u32 :: "mqtt_reader \<Rightarrow> u32 \<times> mqtt_reader" where
  "ncl_mqtt_read_u32 r =
     (if rd_pos r + 4 > length (rd_data r) then (0, r\<lparr>rd_truncated := True\<rparr>)
      else (u32_join (rd_data r ! rd_pos r) (rd_data r ! (rd_pos r + 1))
              (rd_data r ! (rd_pos r + 2)) (rd_data r ! (rd_pos r + 3)),
            r\<lparr>rd_pos := rd_pos r + 4\<rparr>))"

definition ncl_mqtt_read_varint :: "mqtt_reader \<Rightarrow> u32 \<times> mqtt_reader" where
  "ncl_mqtt_read_varint r =
     (if rd_pos r \<ge> length (rd_data r) then (0, r\<lparr>rd_truncated := True\<rparr>)
      else case ncl_mqtt_varint_decode (drop (rd_pos r) (rd_data r)) of
          None \<Rightarrow> (0, r\<lparr>rd_truncated := True\<rparr>)
        | Some (used, v) \<Rightarrow> (v, r\<lparr>rd_pos := rd_pos r + used\<rparr>))"

text \<open>\<open>ncl_strndup\<close> on bytes: what the copy is as a C string.\<close>

definition bytes_strndup :: "grant \<Rightarrow> u8 list \<Rightarrow> u8 list option" where
  "bytes_strndup g bs = (if g (length bs + 1) then Some (takeWhile (\<lambda>b. b \<noteq> 0) bs) else None)"

definition ncl_mqtt_read_string :: "grant \<Rightarrow> mqtt_reader \<Rightarrow> u8 list option \<times> mqtt_reader" where
  "ncl_mqtt_read_string g r =
     (case ncl_mqtt_read_u16 r of
        (n, r1) \<Rightarrow>
          if rd_truncated r1 then (None, r1)
          else if rd_pos r1 + unat n > length (rd_data r1) then (None, r1\<lparr>rd_truncated := True\<rparr>)
          else (bytes_strndup g (take (unat n) (drop (rd_pos r1) (rd_data r1))),
                r1\<lparr>rd_pos := rd_pos r1 + unat n\<rparr>))"

text \<open>\<open>Inl\<close> keeps the reader for the truncation flag; an empty buffer is NULL.\<close>

definition ncl_mqtt_read_binary :: "grant \<Rightarrow> mqtt_reader \<Rightarrow> (ncl_err + u8 list) \<times> mqtt_reader" where
  "ncl_mqtt_read_binary g r =
     (case ncl_mqtt_read_u16 r of
        (n, r1) \<Rightarrow>
          if rd_truncated r1 then (Inl NCL_ERR_PARSE, r1)
          else if rd_pos r1 + unat n > length (rd_data r1) then (Inl NCL_ERR_PARSE, r1\<lparr>rd_truncated := True\<rparr>)
          else if unat n > 0 \<and> \<not> g (unat n) then (Inl NCL_ERR_NOMEM, r1)
          else (Inr (take (unat n) (drop (rd_pos r1) (rd_data r1))), r1\<lparr>rd_pos := rd_pos r1 + unat n\<rparr>))"

section \<open>What the writers append\<close>

definition prefixed_bytes :: "u8 list \<Rightarrow> u8 list" where
  "prefixed_bytes s = (if length s > 0xFFFF then [] else u16_bytes (of_nat (length s)) @ s)"

text \<open>A writer whose status is ignored, as a total function on the buffer.\<close>

definition run :: "writer \<Rightarrow> strbuf \<Rightarrow> strbuf" where
  "run w sb = snd (w sb)"

lemma writes_prefixed: "sba.writes (run (write_prefixed grant_all s)) (prefixed_bytes s)"
  unfolding sba.writes_def
proof (intro allI impI)
  fix w :: strbuf
  assume room: "length (sb_bytes w) + length (prefixed_bytes s) + 1 \<le> 2 ^ 63"
  show "sb_bytes (run (write_prefixed grant_all s) w) = sb_bytes w @ prefixed_bytes s"
  proof (cases "length s > 0xFFFF")
    case True
    then show ?thesis by (simp add: run_def write_prefixed_def prefixed_bytes_def)
  next
    case False
    let ?p = "u16_bytes (of_nat (length s))"
    obtain rc w1 where a: "ncl_strbuf_append grant_all w ?p = (rc, w1)" by fastforce
    have r1: "length (sb_bytes w) + length ?p + 1 \<le> 2 ^ 63" using room False by (simp add: prefixed_bytes_def)
    have rc: "rc = NCL_OK" using append_all [of w ?p] r1 a by simp
    have b1: "sb_bytes w1 = sb_bytes w @ ?p" using append_ok a rc by simp
    obtain rc2 w2 where a2: "ncl_strbuf_append grant_all w1 s = (rc2, w2)" by fastforce
    have rc2: "rc2 = NCL_OK" using append_all [of w1 s] room False a2 b1 by (simp add: prefixed_bytes_def)
    have b2: "sb_bytes w2 = sb_bytes w1 @ s" using append_ok a2 rc2 by simp
    show ?thesis using False a rc a2 rc2 b1 b2 by (simp add: run_def write_prefixed_def prefixed_bytes_def)
  qed
qed

lemma writes_string:
  "sba.writes (run (ncl_mqtt_write_string grant_all s)) (prefixed_bytes (case s of None \<Rightarrow> [] | Some t \<Rightarrow> t))"
  by (simp add: ncl_mqtt_write_string_def writes_prefixed)

lemma writes_binary: "sba.writes (run (ncl_mqtt_write_binary grant_all s)) (prefixed_bytes s)"
  by (simp add: ncl_mqtt_write_binary_def writes_prefixed)

lemma writes_u16: "sba.writes (run (ncl_mqtt_write_u16 grant_all v)) (u16_bytes v)"
  using writes_append [of "u16_bytes v"] by (simp add: run_def ncl_mqtt_write_u16_def nomem_unless_ok_def sba.writes_def)

lemma writes_u32: "sba.writes (run (ncl_mqtt_write_u32 grant_all v)) (u32_bytes v)"
  using writes_append [of "u32_bytes v"] by (simp add: run_def ncl_mqtt_write_u32_def nomem_unless_ok_def sba.writes_def)

lemma writes_property_id: "sba.writes (run (ncl_mqtt_write_property_id grant_all i)) [i]"
  using writes_append [of "[i]"]
  by (simp add: run_def ncl_mqtt_write_property_id_def nomem_unless_ok_def sba.writes_def putc_append)

lemmas field_writes = writes_string writes_binary writes_u16 writes_u32 writes_property_id writes_putc writes_append

section \<open>Variable length integers against each other\<close>

lemma seven_bits:
  assumes "k < 128"
  shows "(of_nat k :: u8) AND 0x7F = of_nat k" "(of_nat k :: u8) AND 0x80 = 0"
    "((of_nat k :: u8) OR 0x80) AND 0x7F = of_nat k" "((of_nat k :: u8) OR 0x80) AND 0x80 \<noteq> 0"
    "(ucast (of_nat k :: u8) :: u32) = of_nat k"
proof -
  let ?x = "of_nat k :: u8"
  have "?x < 128" using assms by (simp add: word_less_nat_alt unat_of_nat)
  moreover have "?x < 128 \<longrightarrow> ?x AND 0x7F = ?x \<and> ?x AND 0x80 = 0 \<and> (?x OR 0x80) AND 0x7F = ?x \<and> (?x OR 0x80) AND 0x80 \<noteq> 0"
    by (rule u8_all) code_simp
  ultimately show "?x AND 0x7F = ?x" "?x AND 0x80 = 0" "(?x OR 0x80) AND 0x7F = ?x" "(?x OR 0x80) AND 0x80 \<noteq> 0"
    by simp_all
  have "unat (ucast ?x :: u32) = unat (of_nat k :: u32)"
    using assms by (simp add: unsigned_ucast_eq unat_of_nat take_bit_eq_mod)
  then show "(ucast ?x :: u32) = of_nat k" by (rule unsigned_word_eqI)
qed

lemma varint_decode_encode:
  "v < 128 ^ room \<Longrightarrow> 0 < room \<Longrightarrow>
     varint_decode_loop room i m res (varint_encode_loop room v @ rest)
       = Some (i + length (varint_encode_loop room v), res + of_nat v * m)"
proof (induction room arbitrary: v i m res)
  case (Suc room)
  have k: "v mod 128 < 128" by simp
  note sb = seven_bits [OF k]
  have split: "(of_nat v :: u32) = of_nat (v mod 128) + of_nat (v div 128) * 128"
    by (metis add.commute div_mult_mod_eq of_nat_add of_nat_mult of_nat_numeral)
  show ?case
  proof (cases "v div 128 > 0")
    case True
    then have "v div 128 < 128 ^ room" "0 < room"
      using Suc.prems by (auto simp: less_mult_imp_div_less mult.commute intro: Nat.gr0I)
    from Suc.IH [OF this] True sb show ?thesis by (simp add: Let_def split algebra_simps)
  next
    case False
    then have "v mod 128 = v" by simp
    with False sb show ?thesis by (simp add: Let_def)
  qed
qed simp

lemma varint_refused:
  "128 ^ room \<le> v \<Longrightarrow> varint_decode_loop room i m res (varint_encode_loop room v @ rest) = None"
proof (induction room arbitrary: v i m res)
  case (Suc room)
  have k: "v mod 128 < 128" by simp
  have "128 ^ room \<le> v div 128" using Suc.prems by (simp add: less_eq_div_iff_mult_less_eq mult.commute)
  moreover from this have "0 < v div 128" by (metis le_zero_eq not_gr_zero power_not_zero zero_neq_numeral)
  ultimately show ?case using Suc.IH seven_bits [OF k] by (simp add: Let_def)
qed simp

lemma length_varint_loop: "length (varint_encode_loop room v) \<le> room"
  by (induction room arbitrary: v) (auto simp: Let_def)

lemma length_varint: "length (ncl_mqtt_varint_encode v) \<le> 4"
  by (simp add: ncl_mqtt_varint_encode_def length_varint_loop)

lemma varint_loop_nonempty: "0 < room \<Longrightarrow> varint_encode_loop room v \<noteq> []"
  by (cases room) (auto simp: Let_def)

lemma varint_nonempty: "ncl_mqtt_varint_encode v \<noteq> []"
  by (simp add: ncl_mqtt_varint_encode_def varint_loop_nonempty)

text \<open>A variable length integer decodes to itself, using exactly its own bytes, whatever
  follows it, up to 268435455; a larger value is written as four bytes no decoder accepts.\<close>

theorem varint_decode_of_encode:
  "ncl_mqtt_varint_decode (ncl_mqtt_varint_encode v @ rest)
     = (if unat v \<le> NCL_MQTT_MAX_REMAINING_LENGTH then Some (length (ncl_mqtt_varint_encode v), v) else None)
   \<and> length (ncl_mqtt_varint_encode v) \<le> 4"
proof (cases "unat v \<le> NCL_MQTT_MAX_REMAINING_LENGTH")
  case True
  then have "unat v < 128 ^ 4" by (simp add: NCL_MQTT_MAX_REMAINING_LENGTH_def)
  from varint_decode_encode [OF this, of 0 1 0 rest] True show ?thesis
    by (simp add: ncl_mqtt_varint_decode_def ncl_mqtt_varint_encode_def length_varint_loop)
next
  case False
  then have "128 ^ 4 \<le> unat v" by (simp add: NCL_MQTT_MAX_REMAINING_LENGTH_def)
  from varint_refused [OF this, of 0 1 0 rest] False show ?thesis
    by (simp add: ncl_mqtt_varint_decode_def ncl_mqtt_varint_encode_def length_varint_loop)
qed

lemma varint_roundtrip:
  "unat v \<le> NCL_MQTT_MAX_REMAINING_LENGTH \<Longrightarrow>
     ncl_mqtt_varint_decode (ncl_mqtt_varint_encode v @ rest) = Some (length (ncl_mqtt_varint_encode v), v)"
  using varint_decode_encode [of "unat v" 4 0 1 0 rest]
  by (simp add: ncl_mqtt_varint_decode_def ncl_mqtt_varint_encode_def NCL_MQTT_MAX_REMAINING_LENGTH_def)

section \<open>Reading what was written\<close>

definition reader_at :: "u8 list \<Rightarrow> u8 list \<Rightarrow> mqtt_reader" where
  "reader_at pre rest = \<lparr>rd_data = pre @ rest, rd_pos = length pre, rd_truncated = False\<rparr>"

lemma reader_at_sel [simp]:
  "rd_data (reader_at pre rest) = pre @ rest" "rd_pos (reader_at pre rest) = length pre"
  "rd_truncated (reader_at pre rest) = False"
  by (simp_all add: reader_at_def)

lemma reader_init_at: "ncl_mqtt_reader_init data = reader_at [] data"
  by (simp add: ncl_mqtt_reader_init_def reader_at_def)

lemma read_u8_at [simp]: "ncl_mqtt_read_u8 (reader_at pre (x # rest)) = (x, reader_at (pre @ [x]) rest)"
  by (simp add: ncl_mqtt_read_u8_def reader_at_def)

lemma read_u16_at: "ncl_mqtt_read_u16 (reader_at pre (u16_bytes v @ rest)) = (v, reader_at (pre @ u16_bytes v) rest)"
  by (simp add: ncl_mqtt_read_u16_def reader_at_def u16_bytes_def nth_append)

lemma read_u32_at: "ncl_mqtt_read_u32 (reader_at pre (u32_bytes v @ rest)) = (v, reader_at (pre @ u32_bytes v) rest)"
  by (simp add: ncl_mqtt_read_u32_def reader_at_def u32_bytes_def nth_append)

lemma read_varint_at:
  assumes "unat v \<le> NCL_MQTT_MAX_REMAINING_LENGTH"
  shows "ncl_mqtt_read_varint (reader_at pre (ncl_mqtt_varint_encode v @ rest))
    = (v, reader_at (pre @ ncl_mqtt_varint_encode v) rest)"
  using varint_roundtrip [OF assms, of rest] varint_nonempty [of v]
  by (simp add: ncl_mqtt_read_varint_def reader_at_def)

definition wire_string :: "u8 list \<Rightarrow> bool" where
  "wire_string s \<longleftrightarrow> length s \<le> 0xFFFF \<and> 0 \<notin> set s"

lemma takeWhile_no_zero: "0 \<notin> set s \<Longrightarrow> takeWhile (\<lambda>b. b \<noteq> 0) s = (s :: u8 list)"
  by (induction s) auto

lemma prefixed_split:
  "length s \<le> 0xFFFF \<Longrightarrow> prefixed_bytes s @ rest = u16_bytes (of_nat (length s)) @ s @ rest
     \<and> unat (of_nat (length s) :: u16) = length s"
  by (simp add: prefixed_bytes_def unat_of_nat)

lemma read_string_at:
  assumes "wire_string s"
  shows "ncl_mqtt_read_string grant_all (reader_at pre (prefixed_bytes s @ rest))
    = (Some s, reader_at (pre @ prefixed_bytes s) rest)"
proof -
  have len: "length s \<le> 0xFFFF" and nz: "0 \<notin> set s" using assms by (auto simp: wire_string_def)
  note ps = prefixed_split [OF len]
  have "ncl_mqtt_read_u16 (reader_at pre (prefixed_bytes s @ rest))
      = (of_nat (length s), reader_at (pre @ u16_bytes (of_nat (length s))) (s @ rest))"
    using ps read_u16_at by simp
  then show ?thesis
    using ps [of "[]"] takeWhile_no_zero [OF nz]
    by (simp add: grant_all ncl_mqtt_read_string_def bytes_strndup_def reader_at_def)
qed

lemma read_binary_at:
  assumes "length s \<le> 0xFFFF"
  shows "ncl_mqtt_read_binary grant_all (reader_at pre (prefixed_bytes s @ rest))
    = (Inr s, reader_at (pre @ prefixed_bytes s) rest)"
proof -
  note ps = prefixed_split [OF assms]
  have "ncl_mqtt_read_u16 (reader_at pre (prefixed_bytes s @ rest))
      = (of_nat (length s), reader_at (pre @ u16_bytes (of_nat (length s))) (s @ rest))"
    using ps read_u16_at by simp
  then show ?thesis
    using ps [of "[]"] by (simp add: grant_all ncl_mqtt_read_binary_def reader_at_def)
qed

lemmas reads_at = read_u16_at read_u32_at read_varint_at read_string_at read_binary_at

section \<open>The reader never runs past its data\<close>

text \<open>A read keeps the data, never moves back, and stays inside unless it says truncated.\<close>

definition reads_on :: "mqtt_reader \<Rightarrow> mqtt_reader \<Rightarrow> bool" where
  "reads_on r r1 \<longleftrightarrow> rd_data r1 = rd_data r \<and> rd_pos r \<le> rd_pos r1
     \<and> (rd_pos r \<le> length (rd_data r) \<longrightarrow> rd_pos r1 \<le> length (rd_data r))"

lemma reads_on_refl [simp]: "reads_on r r"
  by (simp add: reads_on_def)

lemma reads_on_trans: "reads_on r r1 \<Longrightarrow> reads_on r1 r2 \<Longrightarrow> reads_on r r2"
  by (auto simp: reads_on_def)

lemma varint_decode_used: "varint_decode_loop room i m res data = Some (n, v) \<Longrightarrow> i < n \<and> n \<le> i + length data"
  by (induction room i m res data rule: varint_decode_loop.induct) (auto simp: Let_def split: if_splits)

lemma reads_on_basic:
  "reads_on r (snd (ncl_mqtt_read_u8 r))" "reads_on r (snd (ncl_mqtt_read_u16 r))"
  "reads_on r (snd (ncl_mqtt_read_u32 r))" "reads_on r (snd (ncl_mqtt_read_varint r))"
  by (auto simp: reads_on_def ncl_mqtt_read_u8_def ncl_mqtt_read_u16_def ncl_mqtt_read_u32_def
      ncl_mqtt_read_varint_def ncl_mqtt_varint_decode_def split: option.split dest!: varint_decode_used)

lemma reads_on_string: "reads_on r (snd (ncl_mqtt_read_string g r))"
  using reads_on_basic(2) [of r]
  by (cases "ncl_mqtt_read_u16 r") (auto simp: ncl_mqtt_read_string_def reads_on_def)

lemma reads_on_binary: "reads_on r (snd (ncl_mqtt_read_binary g r))"
  using reads_on_basic(2) [of r]
  by (cases "ncl_mqtt_read_u16 r") (auto simp: ncl_mqtt_read_binary_def reads_on_def)

lemmas reads_on_all = reads_on_basic reads_on_string reads_on_binary

end
