(* ===== verification/Mqtt_Props.thy ===== *)
theory Mqtt_Props
  imports Mqtt_Wire
begin

text \<open>
  \<^verbatim>\<open>stack/src/mqtt/packet.c\<close>, second part: the MQTT 5 property set. A pair of a \<open>has_x\<close>
  flag and a value is an option; a buffer with NULL data is the empty list.
\<close>

section \<open>The property set\<close>

record mqtt_props =
  pr_payload_format_indicator :: "u8 option"
  pr_message_expiry_interval :: "u32 option"
  pr_content_type :: "u8 list option"
  pr_response_topic :: "u8 list option"
  pr_correlation_data :: "u8 list"
  pr_subscription_identifier :: "u32 option"
  pr_session_expiry_interval :: "u32 option"
  pr_assigned_client_identifier :: "u8 list option"
  pr_server_keep_alive :: "u16 option"
  pr_authentication_method :: "u8 list option"
  pr_authentication_data :: "u8 list"
  pr_request_problem_information :: "u8 option"
  pr_will_delay_interval :: "u32 option"
  pr_request_response_information :: "u8 option"
  pr_response_information :: "u8 list option"
  pr_server_reference :: "u8 list option"
  pr_reason_string :: "u8 list option"
  pr_receive_maximum :: "u16 option"
  pr_topic_alias_maximum :: "u16 option"
  pr_topic_alias :: "u16 option"
  pr_maximum_qos :: "u8 option"
  pr_retain_available :: "u8 option"
  pr_user_keys :: "u8 strvec"
  pr_user_values :: "u8 strvec"
  pr_maximum_packet_size :: "u32 option"
  pr_wildcard_subscription_available :: "u8 option"
  pr_subscription_identifier_available :: "u8 option"
  pr_shared_subscription_available :: "u8 option"

definition ncl_mqtt_properties_init :: mqtt_props where
  "ncl_mqtt_properties_init =
     \<lparr>pr_payload_format_indicator = None, pr_message_expiry_interval = None, pr_content_type = None,
      pr_response_topic = None, pr_correlation_data = [], pr_subscription_identifier = None,
      pr_session_expiry_interval = None, pr_assigned_client_identifier = None,
      pr_server_keep_alive = None, pr_authentication_method = None, pr_authentication_data = [],
      pr_request_problem_information = None, pr_will_delay_interval = None,
      pr_request_response_information = None, pr_response_information = None,
      pr_server_reference = None, pr_reason_string = None, pr_receive_maximum = None,
      pr_topic_alias_maximum = None, pr_topic_alias = None, pr_maximum_qos = None,
      pr_retain_available = None, pr_user_keys = ncl_strvec_init, pr_user_values = ncl_strvec_init,
      pr_maximum_packet_size = None, pr_wildcard_subscription_available = None,
      pr_subscription_identifier_available = None, pr_shared_subscription_available = None\<rparr>"

text \<open>Releasing a set zeroes it, which is the state of a fresh one.\<close>

definition ncl_mqtt_properties_free :: "mqtt_props \<Rightarrow> mqtt_props" where
  "ncl_mqtt_properties_free p = ncl_mqtt_properties_init"

definition ncl_mqtt_properties_add_user ::
  "grant \<Rightarrow> mqtt_props \<Rightarrow> u8 list option \<Rightarrow> u8 list option \<Rightarrow> ncl_err \<times> mqtt_props" where
  "ncl_mqtt_properties_add_user g p key val =
     (if key = None then (NCL_ERR_INVALID_ARG, p)
      else case ncl_strvec_push g (pr_user_keys p) key of
          (rc, ks) \<Rightarrow>
            (let p1 = p\<lparr>pr_user_keys := ks\<rparr>
             in if rc \<noteq> NCL_OK then (NCL_ERR_NOMEM, p1)
                else case ncl_strvec_push g (pr_user_values p1) (case val of None \<Rightarrow> Some [] | Some v \<Rightarrow> Some v) of
                    (rc2, vs) \<Rightarrow> (if rc2 \<noteq> NCL_OK then NCL_ERR_NOMEM else NCL_OK, p1\<lparr>pr_user_values := vs\<rparr>)))"

fun first_user :: "u8 list \<Rightarrow> u8 list list \<Rightarrow> nat \<Rightarrow> u8 strvec \<Rightarrow> u8 list option" where
  "first_user key [] i vals = None"
| "first_user key (k # ks) i vals =
     (if k = key then ncl_strvec_at vals i else first_user key ks (Suc i) vals)"

definition ncl_mqtt_properties_get_user :: "mqtt_props \<Rightarrow> u8 list option \<Rightarrow> u8 list option" where
  "ncl_mqtt_properties_get_user p key =
     (case key of None \<Rightarrow> None | Some k \<Rightarrow> first_user k (sv_items (pr_user_keys p)) 0 (pr_user_values p))"

definition ncl_mqtt_properties_has_user :: "mqtt_props \<Rightarrow> u8 list option \<Rightarrow> bool" where
  "ncl_mqtt_properties_has_user p key \<longleftrightarrow> ncl_mqtt_properties_get_user p key \<noteq> None"

section \<open>Writing\<close>

text \<open>The statuses of the field writers are ignored: each step is a function on the buffer.\<close>

definition prop_field :: "grant \<Rightarrow> u8 \<Rightarrow> 'a option \<Rightarrow> ('a \<Rightarrow> writer) \<Rightarrow> strbuf \<Rightarrow> strbuf" where
  "prop_field g i v w body =
     (case v of None \<Rightarrow> body
      | Some x \<Rightarrow> run (w x) (run (ncl_mqtt_write_property_id g i) body))"

definition prop_byte where
  "prop_byte g i v = prop_field g i v (\<lambda>x body. ncl_strbuf_putc g body x)"

definition prop_u16 where
  "prop_u16 g i v = prop_field g i v (ncl_mqtt_write_u16 g)"

definition prop_u32 where
  "prop_u32 g i v = prop_field g i v (ncl_mqtt_write_u32 g)"

definition prop_string where
  "prop_string g i v = prop_field g i v (\<lambda>s. ncl_mqtt_write_string g (Some s))"

definition prop_binary where
  "prop_binary g i v = prop_field g i (if v = [] then None else Some v) (ncl_mqtt_write_binary g)"

definition prop_varint where
  "prop_varint g i v = prop_field g i v (\<lambda>x body. ncl_strbuf_append g body (ncl_mqtt_varint_encode x))"

fun prop_users :: "grant \<Rightarrow> nat \<Rightarrow> u8 list list \<Rightarrow> u8 strvec \<Rightarrow> strbuf \<Rightarrow> strbuf" where
  "prop_users g i [] vals body = body"
| "prop_users g i (k # ks) vals body =
     prop_users g (Suc i) ks vals
       (run (ncl_mqtt_write_string g (ncl_strvec_at vals i))
         (run (ncl_mqtt_write_string g (Some k)) (run (ncl_mqtt_write_property_id g 0x26) body)))"

definition props_body :: "grant \<Rightarrow> mqtt_props \<Rightarrow> strbuf \<Rightarrow> strbuf" where
  "props_body g p body =
     (let body = prop_byte g 0x01 (pr_payload_format_indicator p) body;
          body = prop_u32 g 0x02 (pr_message_expiry_interval p) body;
          body = prop_string g 0x03 (pr_content_type p) body;
          body = prop_string g 0x08 (pr_response_topic p) body;
          body = prop_binary g 0x09 (pr_correlation_data p) body;
          body = prop_varint g 0x0B (pr_subscription_identifier p) body;
          body = prop_u32 g 0x11 (pr_session_expiry_interval p) body;
          body = prop_string g 0x12 (pr_assigned_client_identifier p) body;
          body = prop_u16 g 0x13 (pr_server_keep_alive p) body;
          body = prop_string g 0x15 (pr_authentication_method p) body;
          body = prop_binary g 0x16 (pr_authentication_data p) body;
          body = prop_byte g 0x17 (pr_request_problem_information p) body;
          body = prop_u32 g 0x18 (pr_will_delay_interval p) body;
          body = prop_byte g 0x19 (pr_request_response_information p) body;
          body = prop_string g 0x1A (pr_response_information p) body;
          body = prop_string g 0x1C (pr_server_reference p) body;
          body = prop_string g 0x1F (pr_reason_string p) body;
          body = prop_u16 g 0x21 (pr_receive_maximum p) body;
          body = prop_u16 g 0x22 (pr_topic_alias_maximum p) body;
          body = prop_u16 g 0x23 (pr_topic_alias p) body;
          body = prop_byte g 0x24 (pr_maximum_qos p) body;
          body = prop_byte g 0x25 (pr_retain_available p) body;
          body = prop_users g 0 (sv_items (pr_user_keys p)) (pr_user_values p) body;
          body = prop_u32 g 0x27 (pr_maximum_packet_size p) body;
          body = prop_byte g 0x28 (pr_wildcard_subscription_available p) body;
          body = prop_byte g 0x29 (pr_subscription_identifier_available p) body
      in prop_byte g 0x2A (pr_shared_subscription_available p) body)"

text \<open>\<open>(uint32_t)body.len\<close> is the length modulo the word.\<close>

definition ncl_mqtt_properties_write :: "grant \<Rightarrow> mqtt_props option \<Rightarrow> strbuf \<Rightarrow> ncl_err \<times> strbuf" where
  "ncl_mqtt_properties_write g props out =
     (let body = (case props of None \<Rightarrow> ncl_strbuf_init | Some p \<Rightarrow> props_body g p ncl_strbuf_init)
      in case ncl_strbuf_append g out (ncl_mqtt_varint_encode (of_nat (length (sb_bytes body)))) of
          (rc, out1) \<Rightarrow>
            if rc \<noteq> NCL_OK then (NCL_ERR_NOMEM, out1)
            else (case ncl_strbuf_append g out1 (sb_bytes body) of
                (rc2, out2) \<Rightarrow> if rc2 \<noteq> NCL_OK then (NCL_ERR_NOMEM, out2) else (NCL_OK, out2)))"

definition ncl_mqtt_properties_block_is_empty :: "strbuf option \<Rightarrow> bool" where
  "ncl_mqtt_properties_block_is_empty block =
     (case block of None \<Rightarrow> True
      | Some sb \<Rightarrow> length (sb_bytes sb) = 1 \<and> \<not> sb_null sb \<and> sb_bytes sb ! 0 = 0)"

section \<open>Reading\<close>

definition ncl_mqtt_property_fixed_size :: "u8 \<Rightarrow> nat option" where
  "ncl_mqtt_property_fixed_size i =
     (if i \<in> set [0x01, 0x17, 0x19, 0x24, 0x25, 0x28, 0x29, 0x2A] then Some 1
      else if i \<in> set [0x13, 0x21, 0x22, 0x23] then Some 2
      else if i \<in> set [0x02, 0x11, 0x18, 0x27] then Some 4
      else None)"

text \<open>The cases of the switch that share a shape; \<open>None\<close> is an exit with a parse error.\<close>

type_synonym prop_read = "(mqtt_props \<times> mqtt_reader) option"

definition take_u8 :: "(u8 \<Rightarrow> mqtt_props) \<Rightarrow> mqtt_reader \<Rightarrow> prop_read" where
  "take_u8 upd r = (case ncl_mqtt_read_u8 r of (v, r1) \<Rightarrow> Some (upd v, r1))"

definition take_u16 :: "(u16 \<Rightarrow> mqtt_props) \<Rightarrow> mqtt_reader \<Rightarrow> prop_read" where
  "take_u16 upd r = (case ncl_mqtt_read_u16 r of (v, r1) \<Rightarrow> Some (upd v, r1))"

definition take_u32 :: "(u32 \<Rightarrow> mqtt_props) \<Rightarrow> mqtt_reader \<Rightarrow> prop_read" where
  "take_u32 upd r = (case ncl_mqtt_read_u32 r of (v, r1) \<Rightarrow> Some (upd v, r1))"

definition take_string :: "grant \<Rightarrow> (u8 list option \<Rightarrow> mqtt_props) \<Rightarrow> mqtt_reader \<Rightarrow> prop_read" where
  "take_string g upd r = (case ncl_mqtt_read_string g r of (v, r1) \<Rightarrow> Some (upd v, r1))"

definition take_binary :: "grant \<Rightarrow> (u8 list \<Rightarrow> mqtt_props) \<Rightarrow> mqtt_reader \<Rightarrow> prop_read" where
  "take_binary g upd r =
     (case ncl_mqtt_read_binary g r of
        (Inl rc, r1) \<Rightarrow> None
      | (Inr v, r1) \<Rightarrow> Some (upd v, r1))"

definition skip_prefixed :: "mqtt_props \<Rightarrow> mqtt_reader \<Rightarrow> prop_read" where
  "skip_prefixed p r = (case ncl_mqtt_read_u16 r of (n, r1) \<Rightarrow> Some (p, r1\<lparr>rd_pos := rd_pos r1 + unat n\<rparr>))"

definition read_user :: "grant \<Rightarrow> mqtt_props \<Rightarrow> mqtt_reader \<Rightarrow> prop_read" where
  "read_user g p r =
     (case ncl_mqtt_read_string g r of
        (key, r1) \<Rightarrow>
          (case (if rd_truncated r1 then (None, r1) else ncl_mqtt_read_string g r1) of
             (val, r2) \<Rightarrow>
               if key = None \<or> val = None then None
               else Some (snd (ncl_mqtt_properties_add_user g p key val), r2)))"

definition read_property :: "grant \<Rightarrow> u8 \<Rightarrow> mqtt_props \<Rightarrow> mqtt_reader \<Rightarrow> prop_read" where
  "read_property g i p r =
     (if i = 0x01 then take_u8 (\<lambda>v. p\<lparr>pr_payload_format_indicator := Some v\<rparr>) r
      else if i = 0x02 then take_u32 (\<lambda>v. p\<lparr>pr_message_expiry_interval := Some v\<rparr>) r
      else if i = 0x03 then take_string g (\<lambda>v. p\<lparr>pr_content_type := v\<rparr>) r
      else if i = 0x08 then take_string g (\<lambda>v. p\<lparr>pr_response_topic := v\<rparr>) r
      else if i = 0x09 then take_binary g (\<lambda>v. p\<lparr>pr_correlation_data := v\<rparr>) r
      else if i = 0x0B then
        (case ncl_mqtt_read_varint r of (v, r1) \<Rightarrow> Some (p\<lparr>pr_subscription_identifier := Some v\<rparr>, r1))
      else if i = 0x11 then take_u32 (\<lambda>v. p\<lparr>pr_session_expiry_interval := Some v\<rparr>) r
      else if i = 0x12 then take_string g (\<lambda>v. p\<lparr>pr_assigned_client_identifier := v\<rparr>) r
      else if i = 0x13 then take_u16 (\<lambda>v. p\<lparr>pr_server_keep_alive := Some v\<rparr>) r
      else if i = 0x15 then take_string g (\<lambda>v. p\<lparr>pr_authentication_method := v\<rparr>) r
      else if i = 0x16 then take_binary g (\<lambda>v. p\<lparr>pr_authentication_data := v\<rparr>) r
      else if i = 0x17 then take_u8 (\<lambda>v. p\<lparr>pr_request_problem_information := Some v\<rparr>) r
      else if i = 0x18 then take_u32 (\<lambda>v. p\<lparr>pr_will_delay_interval := Some v\<rparr>) r
      else if i = 0x19 then take_u8 (\<lambda>v. p\<lparr>pr_request_response_information := Some v\<rparr>) r
      else if i = 0x1A then take_string g (\<lambda>v. p\<lparr>pr_response_information := v\<rparr>) r
      else if i = 0x1C then take_string g (\<lambda>v. p\<lparr>pr_server_reference := v\<rparr>) r
      else if i = 0x1F then take_string g (\<lambda>v. p\<lparr>pr_reason_string := v\<rparr>) r
      else if i = 0x21 then take_u16 (\<lambda>v. p\<lparr>pr_receive_maximum := Some v\<rparr>) r
      else if i = 0x22 then take_u16 (\<lambda>v. p\<lparr>pr_topic_alias_maximum := Some v\<rparr>) r
      else if i = 0x23 then take_u16 (\<lambda>v. p\<lparr>pr_topic_alias := Some v\<rparr>) r
      else if i = 0x24 then take_u8 (\<lambda>v. p\<lparr>pr_maximum_qos := Some v\<rparr>) r
      else if i = 0x25 then take_u8 (\<lambda>v. p\<lparr>pr_retain_available := Some v\<rparr>) r
      else if i = 0x26 then read_user g p r
      else if i = 0x27 then take_u32 (\<lambda>v. p\<lparr>pr_maximum_packet_size := Some v\<rparr>) r
      else if i = 0x28 then take_u8 (\<lambda>v. p\<lparr>pr_wildcard_subscription_available := Some v\<rparr>) r
      else if i = 0x29 then take_u8 (\<lambda>v. p\<lparr>pr_subscription_identifier_available := Some v\<rparr>) r
      else if i = 0x2A then take_u8 (\<lambda>v. p\<lparr>pr_shared_subscription_available := Some v\<rparr>) r
      else case ncl_mqtt_property_fixed_size i of
          Some fixed \<Rightarrow> Some (p, r\<lparr>rd_pos := rd_pos r + fixed\<rparr>)
        | None \<Rightarrow>
            if i \<in> set [0x03, 0x08, 0x12, 0x15, 0x1A, 0x1C, 0x1F] then skip_prefixed p r
            else if i \<in> set [0x09, 0x16] then skip_prefixed p r
            else None)"

lemma take_reads:
  "take_u8 upd8 r = Some (p1, r1) \<Longrightarrow> reads_on r r1"
  "take_u16 upd16 r = Some (p1, r1) \<Longrightarrow> reads_on r r1"
  "take_u32 upd32 r = Some (p1, r1) \<Longrightarrow> reads_on r r1"
  "take_string g upds r = Some (p1, r1) \<Longrightarrow> reads_on r r1"
  "take_binary g updb r = Some (p1, r1) \<Longrightarrow> reads_on r r1"
  using reads_on_basic [of r] reads_on_string [of r g] reads_on_binary [of r g]
  by (auto simp: take_u8_def take_u16_def take_u32_def take_string_def take_binary_def
      split: prod.splits sum.splits)

lemma read_user_reads: "read_user g p r = Some (p1, r1) \<Longrightarrow> reads_on r r1"
proof -
  assume a: "read_user g p r = Some (p1, r1)"
  obtain key q where k: "ncl_mqtt_read_string g r = (key, q)" by fastforce
  obtain val q1 where v: "ncl_mqtt_read_string g q = (val, q1)" by fastforce
  have "reads_on r q" "reads_on q q1" using reads_on_string [of r g] reads_on_string [of q g] k v by simp_all
  then show ?thesis using a k v reads_on_trans by (auto simp: read_user_def split: if_splits)
qed

lemma read_varint_reads: "ncl_mqtt_read_varint r = (v, r1) \<Longrightarrow> reads_on r r1"
  using reads_on_basic(4) [of r] by simp

text \<open>Every identifier with a fixed or prefixed size has a case of its own: the code that
  would skip an unknown property refuses it.\<close>

lemma read_property_unknown:
  "\<lbrakk>i \<notin> set [0x01, 0x02, 0x03, 0x08, 0x09, 0x0B, 0x11, 0x12, 0x13, 0x15, 0x16, 0x17, 0x18, 0x19, 0x1A, 0x1C,
     0x1F, 0x21, 0x22, 0x23, 0x24, 0x25, 0x26, 0x27, 0x28, 0x29, 0x2A]\<rbrakk> \<Longrightarrow> read_property g i p r = None"
  by (simp add: read_property_def ncl_mqtt_property_fixed_size_def)

lemma read_property_reads: "read_property g i p r = Some (p1, r1) \<Longrightarrow> reads_on r r1"
  unfolding read_property_def
  by (auto split: if_splits prod.splits option.splits dest: take_reads read_user_reads read_varint_reads
      simp: ncl_mqtt_property_fixed_size_def)

text \<open>The loop over the property block.\<close>

function props_loop :: "grant \<Rightarrow> mqtt_props \<Rightarrow> mqtt_reader \<Rightarrow> mqtt_props option" where
  "props_loop g p r =
     (if rd_pos r < length (rd_data r)
      then (case ncl_mqtt_read_u8 r of
          (i, r1) \<Rightarrow>
            if rd_truncated r1 then None
            else (case read_property g i p r1 of
                None \<Rightarrow> None
              | Some (p1, r2) \<Rightarrow>
                  if rd_truncated r2 \<or> rd_pos r2 > length (rd_data r2) then None
                  else props_loop g p1 r2))
      else Some p)"
  by pat_completeness auto
termination
proof (relation "measure (\<lambda>(g, p, r). length (rd_data r) - rd_pos r)")
  fix g p r i r1 x p1 r2
  assume "rd_pos r < length (rd_data r)" "(i, r1) = ncl_mqtt_read_u8 r" "read_property g i p r1 = Some x" "(p1, r2) = x"
  then show "((g, p1, r2), (g, p, r)) \<in> measure (\<lambda>(g, p, r). length (rd_data r) - rd_pos r)"
    using read_property_reads [of g i p r1 p1 r2]
    by (auto simp: ncl_mqtt_read_u8_def reads_on_def split: if_splits)
qed simp

declare props_loop.simps [simp del]

text \<open>\<open>Inl\<close> a status, with the set cleared; \<open>Inr\<close> the set and the bytes consumed.\<close>

definition ncl_mqtt_properties_read :: "grant \<Rightarrow> u8 list \<Rightarrow> ncl_err + mqtt_props \<times> nat" where
  "ncl_mqtt_properties_read g data =
     (if length data = 0 then Inr (ncl_mqtt_properties_init, 0)
      else case ncl_mqtt_varint_decode data of
          None \<Rightarrow> Inl NCL_ERR_PARSE
        | Some (used, tot) \<Rightarrow>
            if used + unat tot > length data then Inl NCL_ERR_PARSE
            else (case props_loop g ncl_mqtt_properties_init
                         (ncl_mqtt_reader_init (take (unat tot) (drop used data))) of
                None \<Rightarrow> Inl NCL_ERR_PARSE
              | Some p \<Rightarrow> Inr (p, used + unat tot)))"

end
