(* ===== verification/Mqtt_Roundtrip.thy ===== *)
theory Mqtt_Roundtrip
  imports Mqtt_Props
begin

text \<open>
  The property codec: a set as the list of the properties it puts on the wire, what the
  writer appends for each, and how the reader takes each back.
\<close>

section \<open>Properties as items\<close>

datatype prop_item =
    P8 u8 u8
  | P16 u8 u16
  | P32 u8 u32
  | PStr u8 "u8 list"
  | PBin u8 "u8 list"
  | PVar u32
  | PUser "u8 list" "u8 list"

fun item_bytes :: "prop_item \<Rightarrow> u8 list" where
  "item_bytes (P8 i v) = [i, v]"
| "item_bytes (P16 i v) = i # u16_bytes v"
| "item_bytes (P32 i v) = i # u32_bytes v"
| "item_bytes (PStr i s) = i # prefixed_bytes s"
| "item_bytes (PBin i s) = i # prefixed_bytes s"
| "item_bytes (PVar v) = 0x0B # ncl_mqtt_varint_encode v"
| "item_bytes (PUser k v) = 0x26 # prefixed_bytes k @ prefixed_bytes v"

definition opt_item :: "('a \<Rightarrow> prop_item) \<Rightarrow> 'a option \<Rightarrow> prop_item list" where
  "opt_item c v = (case v of None \<Rightarrow> [] | Some x \<Rightarrow> [c x])"

definition bin_item :: "u8 \<Rightarrow> u8 list \<Rightarrow> prop_item list" where
  "bin_item i v = (if v = [] then [] else [PBin i v])"

definition items_before :: "mqtt_props \<Rightarrow> prop_item list" where
  "items_before p =
     opt_item (P8 0x01) (pr_payload_format_indicator p)
     @ opt_item (P32 0x02) (pr_message_expiry_interval p)
     @ opt_item (PStr 0x03) (pr_content_type p)
     @ opt_item (PStr 0x08) (pr_response_topic p)
     @ bin_item 0x09 (pr_correlation_data p)
     @ opt_item PVar (pr_subscription_identifier p)
     @ opt_item (P32 0x11) (pr_session_expiry_interval p)
     @ opt_item (PStr 0x12) (pr_assigned_client_identifier p)
     @ opt_item (P16 0x13) (pr_server_keep_alive p)
     @ opt_item (PStr 0x15) (pr_authentication_method p)
     @ bin_item 0x16 (pr_authentication_data p)
     @ opt_item (P8 0x17) (pr_request_problem_information p)
     @ opt_item (P32 0x18) (pr_will_delay_interval p)
     @ opt_item (P8 0x19) (pr_request_response_information p)
     @ opt_item (PStr 0x1A) (pr_response_information p)
     @ opt_item (PStr 0x1C) (pr_server_reference p)
     @ opt_item (PStr 0x1F) (pr_reason_string p)
     @ opt_item (P16 0x21) (pr_receive_maximum p)
     @ opt_item (P16 0x22) (pr_topic_alias_maximum p)
     @ opt_item (P16 0x23) (pr_topic_alias p)
     @ opt_item (P8 0x24) (pr_maximum_qos p)
     @ opt_item (P8 0x25) (pr_retain_available p)"

definition items_after :: "mqtt_props \<Rightarrow> prop_item list" where
  "items_after p =
     opt_item (P32 0x27) (pr_maximum_packet_size p)
     @ opt_item (P8 0x28) (pr_wildcard_subscription_available p)
     @ opt_item (P8 0x29) (pr_subscription_identifier_available p)
     @ opt_item (P8 0x2A) (pr_shared_subscription_available p)"

definition user_items :: "mqtt_props \<Rightarrow> prop_item list" where
  "user_items p = map2 PUser (sv_items (pr_user_keys p)) (sv_items (pr_user_values p))"

definition props_items :: "mqtt_props \<Rightarrow> prop_item list" where
  "props_items p = items_before p @ user_items p @ items_after p"

definition props_bytes :: "mqtt_props \<Rightarrow> u8 list" where
  "props_bytes p = concat (map item_bytes (props_items p))"

text \<open>Sets the wire can carry: every user key has its value, strings and data fit their
  length fields, strings are C strings, and the subscription identifier is a legal one.\<close>

definition props_ok :: "mqtt_props \<Rightarrow> bool" where
  "props_ok p \<longleftrightarrow>
     length (sv_items (pr_user_keys p)) = length (sv_items (pr_user_values p))
     \<and> list_all wire_string (sv_items (pr_user_keys p)) \<and> list_all wire_string (sv_items (pr_user_values p))
     \<and> list_all (\<lambda>s. case s of None \<Rightarrow> True | Some t \<Rightarrow> wire_string t)
         [pr_content_type p, pr_response_topic p, pr_assigned_client_identifier p, pr_authentication_method p,
          pr_response_information p, pr_server_reference p, pr_reason_string p]
     \<and> length (pr_correlation_data p) \<le> 0xFFFF \<and> length (pr_authentication_data p) \<le> 0xFFFF
     \<and> (case pr_subscription_identifier p of None \<Rightarrow> True | Some v \<Rightarrow> unat v \<le> NCL_MQTT_MAX_REMAINING_LENGTH)
     \<and> length (props_bytes p) \<le> NCL_MQTT_MAX_REMAINING_LENGTH"

section \<open>What the writer appends\<close>

lemma writes_field:
  assumes "sba.writes f bs" and "\<And>x. sba.writes (run (w x)) (wb x)"
  shows "sba.writes (\<lambda>b. prop_field grant_all i v w (f b)) (bs @ (case v of None \<Rightarrow> [] | Some x \<Rightarrow> i # wb x))"
proof (cases v)
  case None
  with assms(1) show ?thesis by (simp add: prop_field_def)
next
  case (Some x)
  have "sba.writes (\<lambda>b. run (w x) (run (ncl_mqtt_write_property_id grant_all i) (f b))) ((bs @ [i]) @ wb x)"
    by (intro sba.writes_seq [where h = "run (w x)"]
        sba.writes_seq [where h = "run (ncl_mqtt_write_property_id grant_all i)"] assms writes_property_id)
  then show ?thesis by (simp add: Some prop_field_def)
qed

lemma writes_props:
  assumes "sba.writes f bs"
  shows
    "sba.writes (\<lambda>b. prop_byte grant_all i v8 (f b)) (bs @ concat (map item_bytes (opt_item (P8 i) v8)))"
    "sba.writes (\<lambda>b. prop_u16 grant_all i v16 (f b)) (bs @ concat (map item_bytes (opt_item (P16 i) v16)))"
    "sba.writes (\<lambda>b. prop_u32 grant_all i v32 (f b)) (bs @ concat (map item_bytes (opt_item (P32 i) v32)))"
    "sba.writes (\<lambda>b. prop_string grant_all i vs (f b)) (bs @ concat (map item_bytes (opt_item (PStr i) vs)))"
    "sba.writes (\<lambda>b. prop_binary grant_all i vb (f b)) (bs @ concat (map item_bytes (bin_item i vb)))"
    "sba.writes (\<lambda>b. prop_varint grant_all 0x0B vv (f b)) (bs @ concat (map item_bytes (opt_item PVar vv)))"
proof -
  have pc: "sba.writes (run (\<lambda>body. ncl_strbuf_putc grant_all body x)) [x]" for x
    using writes_putc by (simp add: run_def [abs_def])
  have pv: "sba.writes (run (\<lambda>body. ncl_strbuf_append grant_all body (ncl_mqtt_varint_encode x))) (ncl_mqtt_varint_encode x)" for x
    using writes_append by (simp add: run_def [abs_def])
  have ps: "sba.writes (run (ncl_mqtt_write_string grant_all (Some s))) (prefixed_bytes s)" for s
    using writes_string [of "Some s"] by simp
  have pb: "sba.writes (run (ncl_mqtt_write_binary grant_all x)) (prefixed_bytes x)" for x
    by (rule writes_binary)
  show "sba.writes (\<lambda>b. prop_byte grant_all i v8 (f b)) (bs @ concat (map item_bytes (opt_item (P8 i) v8)))"
    using writes_field [OF assms pc, of i v8] by (cases v8) (simp_all add: opt_item_def prop_byte_def)
  show "sba.writes (\<lambda>b. prop_u16 grant_all i v16 (f b)) (bs @ concat (map item_bytes (opt_item (P16 i) v16)))"
    using writes_field [OF assms writes_u16, of i v16] by (cases v16) (simp_all add: opt_item_def prop_u16_def)
  show "sba.writes (\<lambda>b. prop_u32 grant_all i v32 (f b)) (bs @ concat (map item_bytes (opt_item (P32 i) v32)))"
    using writes_field [OF assms writes_u32, of i v32] by (cases v32) (simp_all add: opt_item_def prop_u32_def)
  show "sba.writes (\<lambda>b. prop_string grant_all i vs (f b)) (bs @ concat (map item_bytes (opt_item (PStr i) vs)))"
    using writes_field [OF assms ps, of i vs] by (cases vs) (simp_all add: opt_item_def prop_string_def)
  show "sba.writes (\<lambda>b. prop_binary grant_all i vb (f b)) (bs @ concat (map item_bytes (bin_item i vb)))"
    using writes_field [OF assms pb, of i "if vb = [] then None else Some vb"]
    by (cases "vb = []") (simp_all add: bin_item_def prop_binary_def)
  show "sba.writes (\<lambda>b. prop_varint grant_all 0x0B vv (f b)) (bs @ concat (map item_bytes (opt_item PVar vv)))"
    using writes_field [OF assms pv, of "0x0B" vv] by (cases vv) (simp_all add: opt_item_def prop_varint_def)
qed

lemma writes_users:
  "sba.writes f bs \<Longrightarrow> i + length ks = length (sv_items vals) \<Longrightarrow>
     sba.writes (\<lambda>b. prop_users grant_all i ks vals (f b))
       (bs @ concat (map item_bytes (map2 PUser ks (drop i (sv_items vals)))))"
proof (induction ks arbitrary: i f bs)
  case (Cons k ks)
  let ?v = "sv_items vals ! i"
  have at: "ncl_strvec_at vals i = Some ?v" using Cons.prems(2) by (simp add: ncl_strvec_at_def)
  have drop: "drop i (sv_items vals) = ?v # drop (Suc i) (sv_items vals)"
    using Cons.prems(2) by (simp add: Cons_nth_drop_Suc)
  let ?f = "\<lambda>b. run (ncl_mqtt_write_string grant_all (Some ?v)) (run (ncl_mqtt_write_string grant_all (Some k))
      (run (ncl_mqtt_write_property_id grant_all 0x26) (f b)))"
  have "sba.writes ?f (((bs @ [0x26]) @ prefixed_bytes k) @ prefixed_bytes ?v)"
    using writes_string [of "Some k"] writes_string [of "Some ?v"]
    by (intro sba.writes_seq [where h = "run (ncl_mqtt_write_string grant_all (Some ?v))"]
        sba.writes_seq [where h = "run (ncl_mqtt_write_string grant_all (Some k))"]
        sba.writes_seq [where h = "run (ncl_mqtt_write_property_id grant_all 0x26)"] writes_property_id Cons.prems(1))
      simp_all
  from Cons.IH [OF this, of "Suc i"] Cons.prems(2) show ?case by (simp add: at drop)
qed simp

lemma writes_body:
  assumes "length (sv_items (pr_user_keys p)) = length (sv_items (pr_user_values p))"
  shows "sba.writes (props_body grant_all p) (props_bytes p)"
proof -
  have "sba.writes (\<lambda>b. prop_users grant_all 0 (sv_items (pr_user_keys p)) (pr_user_values p) (f b))
      (bs @ concat (map item_bytes (user_items p)))" if "sba.writes f bs" for f bs
    using writes_users [OF that, of 0 "sv_items (pr_user_keys p)" "pr_user_values p"] assms
    by (simp add: user_items_def)
  note w = writes_props this
  have "\<exists>bs. sba.writes (props_body grant_all p) bs \<and> bs = props_bytes p"
    unfolding props_body_def Let_def
    by (intro exI conjI, (rule w(1) w(2) w(3) w(4) w(5) w(6) w(7) sba.writes_skip)+)
      (simp add: props_bytes_def props_items_def items_before_def items_after_def)
  then show ?thesis by simp
qed

section \<open>What the reader makes of each item\<close>

fun item_apply :: "prop_item \<Rightarrow> mqtt_props \<Rightarrow> mqtt_props" where
  "item_apply (P8 i v) q =
     (if i = 0x01 then q\<lparr>pr_payload_format_indicator := Some v\<rparr>
      else if i = 0x17 then q\<lparr>pr_request_problem_information := Some v\<rparr>
      else if i = 0x19 then q\<lparr>pr_request_response_information := Some v\<rparr>
      else if i = 0x24 then q\<lparr>pr_maximum_qos := Some v\<rparr>
      else if i = 0x25 then q\<lparr>pr_retain_available := Some v\<rparr>
      else if i = 0x28 then q\<lparr>pr_wildcard_subscription_available := Some v\<rparr>
      else if i = 0x29 then q\<lparr>pr_subscription_identifier_available := Some v\<rparr>
      else q\<lparr>pr_shared_subscription_available := Some v\<rparr>)"
| "item_apply (P16 i v) q =
     (if i = 0x13 then q\<lparr>pr_server_keep_alive := Some v\<rparr>
      else if i = 0x21 then q\<lparr>pr_receive_maximum := Some v\<rparr>
      else if i = 0x22 then q\<lparr>pr_topic_alias_maximum := Some v\<rparr>
      else q\<lparr>pr_topic_alias := Some v\<rparr>)"
| "item_apply (P32 i v) q =
     (if i = 0x02 then q\<lparr>pr_message_expiry_interval := Some v\<rparr>
      else if i = 0x11 then q\<lparr>pr_session_expiry_interval := Some v\<rparr>
      else if i = 0x18 then q\<lparr>pr_will_delay_interval := Some v\<rparr>
      else q\<lparr>pr_maximum_packet_size := Some v\<rparr>)"
| "item_apply (PStr i s) q =
     (if i = 0x03 then q\<lparr>pr_content_type := Some s\<rparr>
      else if i = 0x08 then q\<lparr>pr_response_topic := Some s\<rparr>
      else if i = 0x12 then q\<lparr>pr_assigned_client_identifier := Some s\<rparr>
      else if i = 0x15 then q\<lparr>pr_authentication_method := Some s\<rparr>
      else if i = 0x1A then q\<lparr>pr_response_information := Some s\<rparr>
      else if i = 0x1C then q\<lparr>pr_server_reference := Some s\<rparr>
      else q\<lparr>pr_reason_string := Some s\<rparr>)"
| "item_apply (PBin i s) q =
     (if i = 0x09 then q\<lparr>pr_correlation_data := s\<rparr> else q\<lparr>pr_authentication_data := s\<rparr>)"
| "item_apply (PVar v) q = q\<lparr>pr_subscription_identifier := Some v\<rparr>"
| "item_apply (PUser k v) q = snd (ncl_mqtt_properties_add_user grant_all q (Some k) (Some v))"

fun item_ok :: "prop_item \<Rightarrow> bool" where
  "item_ok (P8 i v) \<longleftrightarrow> i \<in> set [0x01, 0x17, 0x19, 0x24, 0x25, 0x28, 0x29, 0x2A]"
| "item_ok (P16 i v) \<longleftrightarrow> i \<in> set [0x13, 0x21, 0x22, 0x23]"
| "item_ok (P32 i v) \<longleftrightarrow> i \<in> set [0x02, 0x11, 0x18, 0x27]"
| "item_ok (PStr i s) \<longleftrightarrow> i \<in> set [0x03, 0x08, 0x12, 0x15, 0x1A, 0x1C, 0x1F] \<and> wire_string s"
| "item_ok (PBin i s) \<longleftrightarrow> i \<in> set [0x09, 0x16] \<and> length s \<le> 0xFFFF"
| "item_ok (PVar v) \<longleftrightarrow> unat v \<le> NCL_MQTT_MAX_REMAINING_LENGTH"
| "item_ok (PUser k v) \<longleftrightarrow> wire_string k \<and> wire_string v"

lemma read_item:
  assumes "item_ok it"
  shows "\<exists>i bs. item_bytes it = i # bs
    \<and> read_property grant_all i q (reader_at pre (bs @ rest)) = Some (item_apply it q, reader_at (pre @ bs) rest)"
proof (cases it)
  case (P8 i v)
  with assms show ?thesis by (auto simp: read_property_def take_u8_def)
next
  case (P16 i v)
  with assms show ?thesis by (auto simp: read_property_def take_u16_def read_u16_at)
next
  case (P32 i v)
  with assms show ?thesis by (auto simp: read_property_def take_u32_def read_u32_at)
next
  case (PStr i s)
  with assms read_string_at [of s pre rest] show ?thesis by (auto simp: read_property_def take_string_def)
next
  case (PBin i s)
  with assms read_binary_at [of s pre rest] show ?thesis by (auto simp: read_property_def take_binary_def)
next
  case (PVar v)
  with assms read_varint_at [of v pre rest] show ?thesis by (auto simp: read_property_def)
next
  case (PUser k v)
  with assms read_string_at [of k pre "prefixed_bytes v @ rest"] read_string_at [of v "pre @ prefixed_bytes k" rest]
  show ?thesis by (auto simp: read_property_def read_user_def)
qed

lemma props_loop_item:
  assumes "item_ok it"
  shows "props_loop grant_all q (reader_at pre (item_bytes it @ rest))
    = props_loop grant_all (item_apply it q) (reader_at (pre @ item_bytes it) rest)"
proof -
  obtain i bs where b: "item_bytes it = i # bs"
    "read_property grant_all i q (reader_at (pre @ [i]) (bs @ rest)) = Some (item_apply it q, reader_at ((pre @ [i]) @ bs) rest)"
    using read_item [OF assms, of q "pre @ [hd (item_bytes it)]" rest] by auto
  then show ?thesis by (subst props_loop.simps) simp
qed

lemma props_loop_items:
  "list_all item_ok its \<Longrightarrow>
     props_loop grant_all q (reader_at pre (concat (map item_bytes its))) = Some (fold item_apply its q)"
proof (induction its arbitrary: q pre)
  case Nil
  then show ?case by (subst props_loop.simps) simp
next
  case (Cons it its)
  then show ?case by (simp add: props_loop_item)
qed

section \<open>Rebuilding the set\<close>

lemma fold_opt:
  "pr_payload_format_indicator q = None \<Longrightarrow> fold item_apply (opt_item (P8 0x01) v8) q = q\<lparr>pr_payload_format_indicator := v8\<rparr>"
  "pr_message_expiry_interval q = None \<Longrightarrow> fold item_apply (opt_item (P32 0x02) v32) q = q\<lparr>pr_message_expiry_interval := v32\<rparr>"
  "pr_content_type q = None \<Longrightarrow> fold item_apply (opt_item (PStr 0x03) s) q = q\<lparr>pr_content_type := s\<rparr>"
  "pr_response_topic q = None \<Longrightarrow> fold item_apply (opt_item (PStr 0x08) s) q = q\<lparr>pr_response_topic := s\<rparr>"
  "pr_correlation_data q = [] \<Longrightarrow> fold item_apply (bin_item 0x09 b) q = q\<lparr>pr_correlation_data := b\<rparr>"
  "pr_subscription_identifier q = None \<Longrightarrow> fold item_apply (opt_item PVar v32) q = q\<lparr>pr_subscription_identifier := v32\<rparr>"
  "pr_session_expiry_interval q = None \<Longrightarrow> fold item_apply (opt_item (P32 0x11) v32) q = q\<lparr>pr_session_expiry_interval := v32\<rparr>"
  "pr_assigned_client_identifier q = None \<Longrightarrow>
     fold item_apply (opt_item (PStr 0x12) s) q = q\<lparr>pr_assigned_client_identifier := s\<rparr>"
  "pr_server_keep_alive q = None \<Longrightarrow> fold item_apply (opt_item (P16 0x13) v16) q = q\<lparr>pr_server_keep_alive := v16\<rparr>"
  "pr_authentication_method q = None \<Longrightarrow> fold item_apply (opt_item (PStr 0x15) s) q = q\<lparr>pr_authentication_method := s\<rparr>"
  "pr_authentication_data q = [] \<Longrightarrow> fold item_apply (bin_item 0x16 b) q = q\<lparr>pr_authentication_data := b\<rparr>"
  "pr_request_problem_information q = None \<Longrightarrow>
     fold item_apply (opt_item (P8 0x17) v8) q = q\<lparr>pr_request_problem_information := v8\<rparr>"
  "pr_will_delay_interval q = None \<Longrightarrow> fold item_apply (opt_item (P32 0x18) v32) q = q\<lparr>pr_will_delay_interval := v32\<rparr>"
  "pr_request_response_information q = None \<Longrightarrow>
     fold item_apply (opt_item (P8 0x19) v8) q = q\<lparr>pr_request_response_information := v8\<rparr>"
  by (cases q; cases v8; cases v32; cases v16; cases s; simp add: opt_item_def bin_item_def)+

lemma fold_opt_more:
  "pr_response_information q = None \<Longrightarrow> fold item_apply (opt_item (PStr 0x1A) s) q = q\<lparr>pr_response_information := s\<rparr>"
  "pr_server_reference q = None \<Longrightarrow> fold item_apply (opt_item (PStr 0x1C) s) q = q\<lparr>pr_server_reference := s\<rparr>"
  "pr_reason_string q = None \<Longrightarrow> fold item_apply (opt_item (PStr 0x1F) s) q = q\<lparr>pr_reason_string := s\<rparr>"
  "pr_receive_maximum q = None \<Longrightarrow> fold item_apply (opt_item (P16 0x21) v16) q = q\<lparr>pr_receive_maximum := v16\<rparr>"
  "pr_topic_alias_maximum q = None \<Longrightarrow> fold item_apply (opt_item (P16 0x22) v16) q = q\<lparr>pr_topic_alias_maximum := v16\<rparr>"
  "pr_topic_alias q = None \<Longrightarrow> fold item_apply (opt_item (P16 0x23) v16) q = q\<lparr>pr_topic_alias := v16\<rparr>"
  "pr_maximum_qos q = None \<Longrightarrow> fold item_apply (opt_item (P8 0x24) v8) q = q\<lparr>pr_maximum_qos := v8\<rparr>"
  "pr_retain_available q = None \<Longrightarrow> fold item_apply (opt_item (P8 0x25) v8) q = q\<lparr>pr_retain_available := v8\<rparr>"
  "pr_maximum_packet_size q = None \<Longrightarrow> fold item_apply (opt_item (P32 0x27) v32) q = q\<lparr>pr_maximum_packet_size := v32\<rparr>"
  "pr_wildcard_subscription_available q = None \<Longrightarrow>
     fold item_apply (opt_item (P8 0x28) v8) q = q\<lparr>pr_wildcard_subscription_available := v8\<rparr>"
  "pr_subscription_identifier_available q = None \<Longrightarrow>
     fold item_apply (opt_item (P8 0x29) v8) q = q\<lparr>pr_subscription_identifier_available := v8\<rparr>"
  "pr_shared_subscription_available q = None \<Longrightarrow>
     fold item_apply (opt_item (P8 0x2A) v8) q = q\<lparr>pr_shared_subscription_available := v8\<rparr>"
  by (cases q; cases v8; cases v32; cases v16; cases s; simp add: opt_item_def bin_item_def)+

lemma strvec_push_all: "\<exists>v1. ncl_strvec_push grant_all v (Some t) = (NCL_OK, v1) \<and> sv_items v1 = sv_items v @ [t]"
  by (simp add: ncl_strvec_push_def Let_def grant_all)

lemma apply_user:
  "\<exists>K V. item_apply (PUser k v) q = q\<lparr>pr_user_keys := K, pr_user_values := V\<rparr>
     \<and> sv_items K = sv_items (pr_user_keys q) @ [k] \<and> sv_items V = sv_items (pr_user_values q) @ [v]"
proof -
  obtain K where K: "ncl_strvec_push grant_all (pr_user_keys q) (Some k) = (NCL_OK, K)" "sv_items K = sv_items (pr_user_keys q) @ [k]"
    using strvec_push_all by blast
  obtain V where V: "ncl_strvec_push grant_all (pr_user_values q) (Some v) = (NCL_OK, V)" "sv_items V = sv_items (pr_user_values q) @ [v]"
    using strvec_push_all by blast
  show ?thesis
    by (rule exI [of _ K], rule exI [of _ V]) (simp add: ncl_mqtt_properties_add_user_def K V)
qed

lemma fold_users:
  "length ks = length vs \<Longrightarrow>
     \<exists>K V. fold item_apply (map2 PUser ks vs) q = q\<lparr>pr_user_keys := K, pr_user_values := V\<rparr>
       \<and> sv_items K = sv_items (pr_user_keys q) @ ks \<and> sv_items V = sv_items (pr_user_values q) @ vs"
proof (induction ks vs arbitrary: q rule: list_induct2)
  case Nil
  then show ?case by (intro exI [of _ "pr_user_keys q"] exI [of _ "pr_user_values q"]) simp
next
  case (Cons k ks v vs)
  obtain K V where a: "item_apply (PUser k v) q = q\<lparr>pr_user_keys := K, pr_user_values := V\<rparr>"
    "sv_items K = sv_items (pr_user_keys q) @ [k]" "sv_items V = sv_items (pr_user_values q) @ [v]"
    using apply_user by blast
  from Cons.IH [of "q\<lparr>pr_user_keys := K, pr_user_values := V\<rparr>"] a
  show ?case by (simp del: item_apply.simps)
qed

text \<open>The capacities of the two user vectors are not on the wire.\<close>

definition props_abs :: "mqtt_props \<Rightarrow> mqtt_props" where
  "props_abs p = p\<lparr>pr_user_keys := (pr_user_keys p)\<lparr>sv_cap := 0\<rparr>, pr_user_values := (pr_user_values p)\<lparr>sv_cap := 0\<rparr>\<rparr>"

lemma strvec_abs: "sv_items v = sv_items w \<Longrightarrow> v\<lparr>sv_cap := 0\<rparr> = w\<lparr>sv_cap := 0\<rparr>"
  for v w :: "'s strvec"
  by (cases v; cases w) simp

lemma rebuild:
  assumes "length (sv_items (pr_user_keys p)) = length (sv_items (pr_user_values p))"
  shows "props_abs (fold item_apply (props_items p) ncl_mqtt_properties_init) = props_abs p"
proof -
  let ?before = "fold item_apply (items_before p) ncl_mqtt_properties_init"
  have b: "?before = p\<lparr>pr_user_keys := ncl_strvec_init, pr_user_values := ncl_strvec_init, pr_maximum_packet_size := None,
      pr_wildcard_subscription_available := None, pr_subscription_identifier_available := None,
      pr_shared_subscription_available := None\<rparr>"
    unfolding items_before_def fold_append comp_def
    by (simp add: fold_opt fold_opt_more ncl_mqtt_properties_init_def)
  obtain K V where u: "fold item_apply (user_items p) ?before = ?before\<lparr>pr_user_keys := K, pr_user_values := V\<rparr>"
    and K: "sv_items K = sv_items (pr_user_keys ?before) @ sv_items (pr_user_keys p)"
    and V: "sv_items V = sv_items (pr_user_values ?before) @ sv_items (pr_user_values p)"
    using fold_users [OF assms, of ?before] by (auto simp: user_items_def)
  have kv: "sv_items K = sv_items (pr_user_keys p)" "sv_items V = sv_items (pr_user_values p)"
    using K V by (simp_all add: b ncl_strvec_init_def)
  have "fold item_apply (props_items p) ncl_mqtt_properties_init = p\<lparr>pr_user_keys := K, pr_user_values := V\<rparr>"
    unfolding props_items_def fold_append comp_def u
    by (simp add: b items_after_def fold_opt_more)
  then show ?thesis using strvec_abs [OF kv(1)] strvec_abs [OF kv(2)] by (simp add: props_abs_def)
qed

lemma user_items_ok:
  "list_all wire_string ks \<Longrightarrow> list_all wire_string vs \<Longrightarrow> list_all item_ok (map2 PUser ks vs)"
proof (induction ks arbitrary: vs)
  case (Cons k ks)
  then show ?case by (cases vs) auto
qed simp

lemma items_ok_if:
  "(\<And>x. item_ok (P8 i x)) \<Longrightarrow> list_all item_ok (opt_item (P8 i) v8)"
  "(\<And>x. item_ok (P16 i x)) \<Longrightarrow> list_all item_ok (opt_item (P16 i) v16)"
  "(\<And>x. item_ok (P32 i x)) \<Longrightarrow> list_all item_ok (opt_item (P32 i) v32)"
  "i \<in> set [0x03, 0x08, 0x12, 0x15, 0x1A, 0x1C, 0x1F] \<Longrightarrow> (case s of None \<Rightarrow> True | Some t \<Rightarrow> wire_string t)
     \<Longrightarrow> list_all item_ok (opt_item (PStr i) s)"
  "i \<in> set [0x09, 0x16] \<Longrightarrow> length b \<le> 0xFFFF \<Longrightarrow> list_all item_ok (bin_item i b)"
  "(case v32 of None \<Rightarrow> True | Some v \<Rightarrow> unat v \<le> NCL_MQTT_MAX_REMAINING_LENGTH) \<Longrightarrow> list_all item_ok (opt_item PVar v32)"
  by (simp_all add: opt_item_def bin_item_def split: option.splits)

lemma props_items_ok:
  assumes "props_ok p"
  shows "list_all item_ok (props_items p)"
proof -
  have "list_all item_ok (user_items p)"
    unfolding user_items_def by (rule user_items_ok) (use assms in \<open>simp_all add: props_ok_def\<close>)
  then show ?thesis
    using assms
    by (simp add: props_items_def items_before_def items_after_def props_ok_def items_ok_if)
qed

text \<open>The block on the wire: the length of the body as a variable length integer, then the body.\<close>

definition block_bytes :: "mqtt_props \<Rightarrow> u8 list" where
  "block_bytes p = ncl_mqtt_varint_encode (of_nat (length (props_bytes p))) @ props_bytes p"

lemma props_write_ok:
  assumes "props_ok p"
  shows "\<exists>out. ncl_mqtt_properties_write grant_all (Some p) ncl_strbuf_init = (NCL_OK, out)
    \<and> sb_bytes out = block_bytes p \<and> \<not> sb_null out"
proof -
  have len: "length (props_bytes p) \<le> 268435455"
    and keys: "length (sv_items (pr_user_keys p)) = length (sv_items (pr_user_values p))"
    using assms by (simp_all add: props_ok_def NCL_MQTT_MAX_REMAINING_LENGTH_def)
  have body: "sb_bytes (props_body grant_all p ncl_strbuf_init) = props_bytes p"
    using sba.writes_result [OF writes_body [OF keys], of ncl_strbuf_init] len by simp
  let ?v = "ncl_mqtt_varint_encode (of_nat (length (props_bytes p)))"
  have v: "length ?v \<le> 4" by (rule length_varint)
  obtain rc o1 where a: "ncl_strbuf_append grant_all ncl_strbuf_init ?v = (rc, o1)" by fastforce
  have rc: "rc = NCL_OK" using append_all [of ncl_strbuf_init ?v] a v by simp
  have b1: "sb_bytes o1 = ?v" using append_ok a rc by fastforce
  obtain rc2 o2 where a2: "ncl_strbuf_append grant_all o1 (props_bytes p) = (rc2, o2)" by fastforce
  have rc2: "rc2 = NCL_OK" using append_all [of o1 "props_bytes p"] a2 b1 v len by simp
  have b2: "sb_bytes o2 = ?v @ props_bytes p" using append_ok a2 rc2 b1 by fastforce
  have "strbuf_ok o1" using append_wf [of ncl_strbuf_init ?v grant_all] a v by (simp add: SIZE_MOD_def)
  then have "strbuf_ok o2" using append_wf [of o1 "props_bytes p" grant_all] a2 b1 v len by (simp add: SIZE_MOD_def)
  then have "\<not> sb_null o2" using b2 varint_nonempty by (auto simp: strbuf_ok_def)
  then show ?thesis using a rc a2 rc2 b2 by (simp add: ncl_mqtt_properties_write_def body block_bytes_def)
qed

lemma props_read_ok:
  assumes "props_ok p"
  shows "\<exists>q. ncl_mqtt_properties_read grant_all (block_bytes p @ rest) = Inr (q, length (block_bytes p))
     \<and> props_abs q = props_abs p"
proof -
  let ?n = "of_nat (length (props_bytes p)) :: u32"
  have len: "length (props_bytes p) \<le> 268435455"
    using assms by (simp_all add: props_ok_def NCL_MQTT_MAX_REMAINING_LENGTH_def)
  then have n: "unat ?n = length (props_bytes p)" by (simp add: unat_of_nat)
  then have dec: "ncl_mqtt_varint_decode (ncl_mqtt_varint_encode ?n @ cs) = Some (length (ncl_mqtt_varint_encode ?n), ?n)" for cs
    using varint_roundtrip [of ?n cs] len by (simp add: NCL_MQTT_MAX_REMAINING_LENGTH_def)
  have loop: "props_loop grant_all ncl_mqtt_properties_init (ncl_mqtt_reader_init (props_bytes p))
      = Some (fold item_apply (props_items p) ncl_mqtt_properties_init)"
    unfolding reader_init_at props_bytes_def by (rule props_loop_items [OF props_items_ok [OF assms]])
  have keys: "length (sv_items (pr_user_keys p)) = length (sv_items (pr_user_values p))"
    using assms by (simp add: props_ok_def)
  show ?thesis
    using rebuild [OF keys] dec [of "props_bytes p @ rest"] varint_nonempty [of ?n]
    by (simp add: ncl_mqtt_properties_read_def block_bytes_def n loop)
qed

text \<open>C23. A property set within the limits of the wire is written, and what is written reads
  back as the same set (up to spare capacity) and uses exactly its own bytes, whatever follows.\<close>

theorem properties_write_read:
  assumes "props_ok p"
  shows "\<exists>out. ncl_mqtt_properties_write grant_all (Some p) ncl_strbuf_init = (NCL_OK, out)
    \<and> (\<exists>q. ncl_mqtt_properties_read grant_all (sb_bytes out @ rest) = Inr (q, length (sb_bytes out))
         \<and> props_abs q = props_abs p)"
  using props_write_ok [OF assms] props_read_ok [OF assms, of rest] by metis

definition sample_props :: mqtt_props where
  "sample_props = ncl_mqtt_properties_init
     \<lparr>pr_content_type := Some [0x61, 0x2F, 0x62], pr_subscription_identifier := Some 300,
      pr_session_expiry_interval := Some 3600, pr_user_keys := \<lparr>sv_items = [[0x6B]], sv_cap = 8\<rparr>,
      pr_user_values := \<lparr>sv_items = [[]], sv_cap = 8\<rparr>\<rparr>"

lemma sample_props_ok: "props_ok sample_props"
  using length_varint [of 300]
  by (simp add: props_ok_def sample_props_def ncl_mqtt_properties_init_def props_bytes_def props_items_def
      items_before_def items_after_def user_items_def opt_item_def bin_item_def wire_string_def prefixed_bytes_def
      NCL_MQTT_MAX_REMAINING_LENGTH_def)

theorem properties_write_read_witness:
  "\<exists>out. ncl_mqtt_properties_write grant_all (Some sample_props) ncl_strbuf_init = (NCL_OK, out)
    \<and> (\<exists>q. ncl_mqtt_properties_read grant_all (sb_bytes out @ [1, 2, 3]) = Inr (q, length (sb_bytes out))
         \<and> props_abs q = props_abs sample_props)"
  by (rule properties_write_read [OF sample_props_ok])

end
