(* ===== verification/Mqtt_Packet.thy ===== *)
theory Mqtt_Packet
  imports Mqtt_Roundtrip
begin

text \<open>
  \<^verbatim>\<open>stack/src/mqtt/packet.c\<close>, third part: encoders and decoders of whole packets. An
  encoder returns the packet or a status; statuses of field writers are ignored where
  the code ignores them (\<open>run\<close>). A decoder returns the packet's data or a status.
\<close>

section \<open>Packet types and constants\<close>

text \<open>The last constructor stands for values outside the enumeration (a nibble can be 0).\<close>

datatype mqtt_packet_type =
    NCL_MQTT_PKT_CONNECT
  | NCL_MQTT_PKT_CONNACK
  | NCL_MQTT_PKT_PUBLISH
  | NCL_MQTT_PKT_PUBACK
  | NCL_MQTT_PKT_PUBREC
  | NCL_MQTT_PKT_PUBREL
  | NCL_MQTT_PKT_PUBCOMP
  | NCL_MQTT_PKT_SUBSCRIBE
  | NCL_MQTT_PKT_SUBACK
  | NCL_MQTT_PKT_UNSUBSCRIBE
  | NCL_MQTT_PKT_UNSUBACK
  | NCL_MQTT_PKT_PINGREQ
  | NCL_MQTT_PKT_PINGRESP
  | NCL_MQTT_PKT_DISCONNECT
  | NCL_MQTT_PKT_AUTH
  | NCL_MQTT_PKT_RAW nat

definition packet_type_of :: "u8 \<Rightarrow> mqtt_packet_type" where
  "packet_type_of n =
     (if n = 1 then NCL_MQTT_PKT_CONNECT else if n = 2 then NCL_MQTT_PKT_CONNACK
      else if n = 3 then NCL_MQTT_PKT_PUBLISH else if n = 4 then NCL_MQTT_PKT_PUBACK
      else if n = 5 then NCL_MQTT_PKT_PUBREC else if n = 6 then NCL_MQTT_PKT_PUBREL
      else if n = 7 then NCL_MQTT_PKT_PUBCOMP else if n = 8 then NCL_MQTT_PKT_SUBSCRIBE
      else if n = 9 then NCL_MQTT_PKT_SUBACK else if n = 10 then NCL_MQTT_PKT_UNSUBSCRIBE
      else if n = 11 then NCL_MQTT_PKT_UNSUBACK else if n = 12 then NCL_MQTT_PKT_PINGREQ
      else if n = 13 then NCL_MQTT_PKT_PINGRESP else if n = 14 then NCL_MQTT_PKT_DISCONNECT
      else if n = 15 then NCL_MQTT_PKT_AUTH else NCL_MQTT_PKT_RAW (unat n))"

fun ncl_mqtt_packet_type_name :: "mqtt_packet_type \<Rightarrow> string" where
  "ncl_mqtt_packet_type_name NCL_MQTT_PKT_CONNECT = ''CONNECT''"
| "ncl_mqtt_packet_type_name NCL_MQTT_PKT_CONNACK = ''CONNACK''"
| "ncl_mqtt_packet_type_name NCL_MQTT_PKT_PUBLISH = ''PUBLISH''"
| "ncl_mqtt_packet_type_name NCL_MQTT_PKT_PUBACK = ''PUBACK''"
| "ncl_mqtt_packet_type_name NCL_MQTT_PKT_PUBREC = ''PUBREC''"
| "ncl_mqtt_packet_type_name NCL_MQTT_PKT_PUBREL = ''PUBREL''"
| "ncl_mqtt_packet_type_name NCL_MQTT_PKT_PUBCOMP = ''PUBCOMP''"
| "ncl_mqtt_packet_type_name NCL_MQTT_PKT_SUBSCRIBE = ''SUBSCRIBE''"
| "ncl_mqtt_packet_type_name NCL_MQTT_PKT_SUBACK = ''SUBACK''"
| "ncl_mqtt_packet_type_name NCL_MQTT_PKT_UNSUBSCRIBE = ''UNSUBSCRIBE''"
| "ncl_mqtt_packet_type_name NCL_MQTT_PKT_UNSUBACK = ''UNSUBACK''"
| "ncl_mqtt_packet_type_name NCL_MQTT_PKT_PINGREQ = ''PINGREQ''"
| "ncl_mqtt_packet_type_name NCL_MQTT_PKT_PINGRESP = ''PINGRESP''"
| "ncl_mqtt_packet_type_name NCL_MQTT_PKT_DISCONNECT = ''DISCONNECT''"
| "ncl_mqtt_packet_type_name NCL_MQTT_PKT_AUTH = ''AUTH''"
| "ncl_mqtt_packet_type_name (NCL_MQTT_PKT_RAW n) = ''UNKNOWN''"

definition NCL_MQTT_REASON_SUCCESS :: u8 where
  "NCL_MQTT_REASON_SUCCESS = 0x00"

definition NCL_MQTT_PROTOCOL_NAME :: "u8 list" where
  "NCL_MQTT_PROTOCOL_NAME = [0x4D, 0x51, 0x54, 0x54]"

definition NCL_MQTT_PROTOCOL_LEVEL :: u8 where
  "NCL_MQTT_PROTOCOL_LEVEL = 5"

text \<open>Ignored statuses: appending the block of properties, and one byte.\<close>

definition put_block :: "grant \<Rightarrow> strbuf \<Rightarrow> strbuf \<Rightarrow> strbuf" where
  "put_block g props body = run (\<lambda>sb. ncl_strbuf_append g sb (sb_bytes props)) body"

definition put_byte :: "grant \<Rightarrow> u8 \<Rightarrow> strbuf \<Rightarrow> strbuf" where
  "put_byte g b body = run (\<lambda>sb. ncl_strbuf_putc g sb b) body"

section \<open>CONNECT and CONNACK\<close>

text \<open>A NULL password or user name is \<open>None\<close>; a payload is its bytes.\<close>

record mqtt_connect_options =
  co_client_id :: "u8 list option"
  co_username :: "u8 list option"
  co_password :: "u8 list option"
  co_clean_start :: bool
  co_keep_alive_seconds :: u16
  co_properties :: "mqtt_props option"
  co_will_topic :: "u8 list option"
  co_will_payload :: "u8 list"
  co_will_qos :: int
  co_will_retain :: bool
  co_will_properties :: "mqtt_props option"

definition connect_flags :: "mqtt_connect_options \<Rightarrow> u8" where
  "connect_flags opts =
     (let flags = 0;
          flags = (if co_username opts \<noteq> None then flags OR 0x80 else flags);
          flags = (if co_password opts \<noteq> None then flags OR 0x40 else flags);
          flags = (if co_will_topic opts \<noteq> None
                   then (let flags = flags OR 0x04;
                             flags = flags OR of_int (push_bit 3 (co_will_qos opts AND 0x03))
                         in if co_will_retain opts then flags OR 0x20 else flags)
                   else flags)
      in if co_clean_start opts then flags OR 0x02 else flags)"

text \<open>From the client identifier on, after the will's block has been encoded.\<close>

definition connect_tail :: "grant \<Rightarrow> mqtt_connect_options \<Rightarrow> strbuf \<Rightarrow> ncl_err + u8 list" where
  "connect_tail g opts body =
     (let body = (case co_username opts of None \<Rightarrow> body
                  | Some u \<Rightarrow> run (ncl_mqtt_write_string g (Some u)) body);
          body = (case co_password opts of None \<Rightarrow> body
                  | Some pw \<Rightarrow> run (ncl_mqtt_write_binary g pw) body)
      in ncl_mqtt_frame g 0x10 body)"

definition connect_head :: "grant \<Rightarrow> mqtt_connect_options \<Rightarrow> u8 list \<Rightarrow> strbuf \<Rightarrow> strbuf" where
  "connect_head g opts cid props =
     (let body = run (ncl_mqtt_write_string g (Some NCL_MQTT_PROTOCOL_NAME)) ncl_strbuf_init;
          body = put_byte g NCL_MQTT_PROTOCOL_LEVEL body;
          body = put_byte g (connect_flags opts) body;
          body = run (ncl_mqtt_write_u16 g (co_keep_alive_seconds opts)) body;
          body = put_block g props body
      in run (ncl_mqtt_write_string g (Some cid)) body)"

definition ncl_mqtt_encode_connect :: "grant \<Rightarrow> mqtt_connect_options option \<Rightarrow> ncl_err + u8 list" where
  "ncl_mqtt_encode_connect g options =
     (case options of None \<Rightarrow> Inl NCL_ERR_INVALID_ARG
      | Some opts \<Rightarrow>
          (case co_client_id opts of None \<Rightarrow> Inl NCL_ERR_INVALID_ARG
           | Some cid \<Rightarrow>
               (case ncl_mqtt_properties_write g (co_properties opts) ncl_strbuf_init of
                  (rc, props) \<Rightarrow>
                    if rc \<noteq> NCL_OK then Inl rc
                    else (let body = connect_head g opts cid props
                          in case co_will_topic opts of
                              None \<Rightarrow> connect_tail g opts body
                            | Some topic \<Rightarrow>
                                (case ncl_mqtt_properties_write g (co_will_properties opts) ncl_strbuf_init of
                                   (rc2, will_props) \<Rightarrow>
                                     if rc2 \<noteq> NCL_OK then Inl rc2
                                     else (let body = put_block g will_props body;
                                               body = run (ncl_mqtt_write_string g (Some topic)) body;
                                               body = run (ncl_mqtt_write_binary g (co_will_payload opts)) body
                                           in connect_tail g opts body))))))"

record mqtt_connack =
  ca_session_present :: bool
  ca_reason_code :: u8
  ca_properties :: mqtt_props

definition connack_zero :: mqtt_connack where
  "connack_zero = \<lparr>ca_session_present = False, ca_reason_code = 0, ca_properties = ncl_mqtt_properties_init\<rparr>"

definition ncl_mqtt_connack_free :: "mqtt_connack \<Rightarrow> mqtt_connack" where
  "ncl_mqtt_connack_free c = connack_zero"

text \<open>Status and the structure the caller sees, which a failure leaves half filled.\<close>

definition ncl_mqtt_decode_connack :: "grant \<Rightarrow> u8 list \<Rightarrow> ncl_err \<times> mqtt_connack" where
  "ncl_mqtt_decode_connack g body =
     (let out = connack_zero
      in if length body < 3 then (NCL_ERR_PARSE, out)
         else (case ncl_mqtt_read_u8 (ncl_mqtt_reader_init body) of
             (ack_flags, r1) \<Rightarrow>
               (case ncl_mqtt_read_u8 r1 of
                  (reason, r2) \<Rightarrow>
                    (let out = out\<lparr>ca_session_present := ack_flags AND 0x01 \<noteq> 0, ca_reason_code := reason\<rparr>
                     in if rd_pos r2 < length (rd_data r2)
                        then (case ncl_mqtt_properties_read g (drop (rd_pos r2) body) of
                            Inl rc \<Rightarrow> (rc, out)
                          | Inr (props, consumed) \<Rightarrow> (NCL_OK, out\<lparr>ca_properties := props\<rparr>))
                        else (NCL_OK, out)))))"

section \<open>PUBLISH\<close>

definition publish_header :: "int \<Rightarrow> bool \<Rightarrow> bool \<Rightarrow> u8" where
  "publish_header qos retain duplicate =
     (let header = 0x30;
          header = (if duplicate then header OR 0x08 else header);
          header = header OR of_int (push_bit 1 (qos AND 0x03))
      in if retain then header OR 0x01 else header)"

definition ncl_mqtt_encode_publish ::
  "grant \<Rightarrow> u8 list option \<Rightarrow> u8 list \<Rightarrow> int \<Rightarrow> bool \<Rightarrow> bool \<Rightarrow> u16 \<Rightarrow> mqtt_props option \<Rightarrow> ncl_err + u8 list" where
  "ncl_mqtt_encode_publish g topic payload qos retain duplicate packet_id properties =
     (if topic = None \<or> qos < 0 \<or> qos > 2 then Inl NCL_ERR_INVALID_ARG
      else case ncl_mqtt_properties_write g properties ncl_strbuf_init of
          (rc, props) \<Rightarrow>
            if rc \<noteq> NCL_OK then Inl rc
            else (let body = run (ncl_mqtt_write_string g topic) ncl_strbuf_init;
                      body = (if qos > 0 then run (ncl_mqtt_write_u16 g packet_id) body else body);
                      body = put_block g props body;
                      body = (if length payload > 0 then run (\<lambda>sb. ncl_strbuf_append g sb payload) body else body)
                  in ncl_mqtt_frame g (publish_header qos retain duplicate) body))"

record mqtt_publish =
  pb_duplicate :: bool
  pb_qos :: nat
  pb_retain :: bool
  pb_topic :: "u8 list option"
  pb_packet_id :: u16
  pb_payload :: "u8 list"
  pb_properties :: mqtt_props

definition publish_zero :: mqtt_publish where
  "publish_zero = \<lparr>pb_duplicate = False, pb_qos = 0, pb_retain = False, pb_topic = None, pb_packet_id = 0,
     pb_payload = [], pb_properties = ncl_mqtt_properties_init\<rparr>"

definition ncl_mqtt_publish_free :: "mqtt_publish \<Rightarrow> mqtt_publish" where
  "ncl_mqtt_publish_free p = publish_zero"

text \<open>From the properties on; \<open>out\<close> is the structure filled so far.\<close>

definition publish_rest :: "grant \<Rightarrow> u8 list \<Rightarrow> mqtt_reader \<Rightarrow> mqtt_publish \<Rightarrow> ncl_err \<times> mqtt_publish" where
  "publish_rest g body r out =
     (if rd_pos r \<ge> length (rd_data r) then (NCL_ERR_PARSE, ncl_mqtt_publish_free out)
      else case ncl_mqtt_varint_decode (drop (rd_pos r) body) of
          None \<Rightarrow> (NCL_ERR_PARSE, ncl_mqtt_publish_free out)
        | Some (used, props_len) \<Rightarrow>
            if rd_pos r + used + unat props_len > length (rd_data r) then (NCL_ERR_PARSE, ncl_mqtt_publish_free out)
            else (case ncl_mqtt_properties_read g (drop (rd_pos r) body) of
                Inl rc \<Rightarrow> (rc, ncl_mqtt_publish_free out)
              | Inr (props, consumed) \<Rightarrow>
                  (NCL_OK, out\<lparr>pb_properties := props, pb_payload := drop (rd_pos r + consumed) body\<rparr>)))"

definition ncl_mqtt_decode_publish :: "grant \<Rightarrow> u8 \<Rightarrow> u8 list \<Rightarrow> ncl_err \<times> mqtt_publish" where
  "ncl_mqtt_decode_publish g header_flags body =
     (let out = publish_zero\<lparr>pb_duplicate := header_flags AND 0x08 \<noteq> 0,
                pb_qos := unat (drop_bit 1 (header_flags AND 0x06)), pb_retain := header_flags AND 0x01 \<noteq> 0\<rparr>
      in case ncl_mqtt_read_string g (ncl_mqtt_reader_init body) of
          (topic, r1) \<Rightarrow>
            (let out = out\<lparr>pb_topic := topic\<rparr>
             in if topic = None then (NCL_ERR_PARSE, ncl_mqtt_publish_free out)
                else if pb_qos out > 0
                then (case ncl_mqtt_read_u16 r1 of
                    (packet_id, r2) \<Rightarrow>
                      (let out = out\<lparr>pb_packet_id := packet_id\<rparr>
                       in if rd_truncated r2 then (NCL_ERR_PARSE, ncl_mqtt_publish_free out)
                          else publish_rest g body r2 out))
                else publish_rest g body r1 out))"

section \<open>Acknowledgements\<close>

definition ncl_mqtt_encode_ack :: "grant \<Rightarrow> mqtt_packet_type \<Rightarrow> u16 \<Rightarrow> u8 \<Rightarrow> ncl_err + u8 list" where
  "ncl_mqtt_encode_ack g ty packet_id reason_code =
     (case (case ty of NCL_MQTT_PKT_PUBACK \<Rightarrow> Some 0x40 | NCL_MQTT_PKT_PUBREC \<Rightarrow> Some 0x50
            | NCL_MQTT_PKT_PUBREL \<Rightarrow> Some 0x62 | NCL_MQTT_PKT_PUBCOMP \<Rightarrow> Some 0x70 | _ \<Rightarrow> None) of
        None \<Rightarrow> Inl NCL_ERR_INVALID_ARG
      | Some header \<Rightarrow>
          (let body = run (ncl_mqtt_write_u16 g packet_id) ncl_strbuf_init;
               body = (if reason_code \<noteq> NCL_MQTT_REASON_SUCCESS then put_byte g 0 (put_byte g reason_code body) else body)
           in ncl_mqtt_frame g header body))"

definition ncl_mqtt_decode_ack :: "u8 list option \<Rightarrow> ncl_err + u16 \<times> u8" where
  "ncl_mqtt_decode_ack body =
     (case body of None \<Rightarrow> Inl NCL_ERR_PARSE
      | Some bs \<Rightarrow>
          if length bs < 2 then Inl NCL_ERR_PARSE
          else (case ncl_mqtt_read_u16 (ncl_mqtt_reader_init bs) of
              (packet_id, r) \<Rightarrow>
                Inr (packet_id, if rd_pos r < length (rd_data r) then fst (ncl_mqtt_read_u8 r) else NCL_MQTT_REASON_SUCCESS)))"

section \<open>Subscriptions\<close>

definition ncl_mqtt_encode_subscription ::
  "grant \<Rightarrow> mqtt_packet_type \<Rightarrow> u8 \<Rightarrow> u16 \<Rightarrow> u8 list option \<Rightarrow> int \<Rightarrow> mqtt_props option \<Rightarrow> ncl_err + u8 list" where
  "ncl_mqtt_encode_subscription g ty header packet_id topic_filter qos properties =
     (if topic_filter = None then Inl NCL_ERR_INVALID_ARG
      else case ncl_mqtt_properties_write g properties ncl_strbuf_init of
          (rc, props) \<Rightarrow>
            if rc \<noteq> NCL_OK then Inl rc
            else (let body = run (ncl_mqtt_write_u16 g packet_id) ncl_strbuf_init;
                      body = put_block g props body;
                      body = run (ncl_mqtt_write_string g topic_filter) body;
                      body = (if header = 0x82 then put_byte g (of_int (qos AND 0x03)) body else body)
                  in ncl_mqtt_frame g header body))"

definition ncl_mqtt_encode_subscribe where
  "ncl_mqtt_encode_subscribe g packet_id topic_filter qos properties =
     ncl_mqtt_encode_subscription g NCL_MQTT_PKT_SUBSCRIBE 0x82 packet_id topic_filter qos properties"

definition ncl_mqtt_encode_unsubscribe where
  "ncl_mqtt_encode_unsubscribe g packet_id topic_filter properties =
     ncl_mqtt_encode_subscription g NCL_MQTT_PKT_UNSUBSCRIBE 0xA2 packet_id topic_filter 0 properties"

record mqtt_suback =
  sa_packet_id :: u16
  sa_properties :: mqtt_props
  sa_reason_codes :: "u8 list"

definition suback_zero :: mqtt_suback where
  "suback_zero = \<lparr>sa_packet_id = 0, sa_properties = ncl_mqtt_properties_init, sa_reason_codes = []\<rparr>"

definition ncl_mqtt_suback_free :: "mqtt_suback \<Rightarrow> mqtt_suback" where
  "ncl_mqtt_suback_free s = suback_zero"

definition ncl_mqtt_decode_suback :: "grant \<Rightarrow> u8 list \<Rightarrow> ncl_err \<times> mqtt_suback" where
  "ncl_mqtt_decode_suback g body =
     (if length body < 4 then (NCL_ERR_PARSE, suback_zero)
      else case ncl_mqtt_read_u16 (ncl_mqtt_reader_init body) of
          (packet_id, r) \<Rightarrow>
            (let out = suback_zero\<lparr>sa_packet_id := packet_id\<rparr>
             in case ncl_mqtt_properties_read g (drop (rd_pos r) body) of
                 Inl rc \<Rightarrow> (NCL_ERR_PARSE, ncl_mqtt_suback_free out)
               | Inr (props, consumed) \<Rightarrow>
                   (let out = out\<lparr>sa_properties := props\<rparr>;
                        remaining = length body - (rd_pos r + consumed)
                    in if remaining > 0 \<and> \<not> g remaining then (NCL_ERR_NOMEM, ncl_mqtt_suback_free out)
                       else (NCL_OK, out\<lparr>sa_reason_codes := drop (rd_pos r + consumed) body\<rparr>))))"

section \<open>Pings and DISCONNECT\<close>

definition ncl_mqtt_encode_ping :: "grant \<Rightarrow> bool \<Rightarrow> ncl_err + u8 list" where
  "ncl_mqtt_encode_ping g response = ncl_mqtt_frame g (if response then 0xD0 else 0xC0) ncl_strbuf_init"

definition ncl_mqtt_encode_disconnect :: "grant \<Rightarrow> u8 \<Rightarrow> mqtt_props option \<Rightarrow> ncl_err + u8 list" where
  "ncl_mqtt_encode_disconnect g reason_code properties =
     (case ncl_mqtt_properties_write g properties ncl_strbuf_init of
        (rc, props) \<Rightarrow>
          if rc \<noteq> NCL_OK then Inl rc
          else (let body = (if reason_code \<noteq> NCL_MQTT_REASON_SUCCESS \<or> \<not> ncl_mqtt_properties_block_is_empty (Some props)
                            then put_block g props (put_byte g reason_code ncl_strbuf_init)
                            else ncl_strbuf_init)
                in ncl_mqtt_frame g 0xE0 body))"

record mqtt_disconnect =
  dc_reason_code :: u8
  dc_properties :: mqtt_props

definition ncl_mqtt_disconnect_free :: "mqtt_disconnect \<Rightarrow> mqtt_disconnect" where
  "ncl_mqtt_disconnect_free d = \<lparr>dc_reason_code = 0, dc_properties = ncl_mqtt_properties_init\<rparr>"

definition ncl_mqtt_decode_disconnect :: "grant \<Rightarrow> u8 list \<Rightarrow> ncl_err \<times> mqtt_disconnect" where
  "ncl_mqtt_decode_disconnect g body =
     (let out = \<lparr>dc_reason_code = NCL_MQTT_REASON_SUCCESS, dc_properties = ncl_mqtt_properties_init\<rparr>
      in case body of
          [] \<Rightarrow> (NCL_OK, out)
        | reason # rest \<Rightarrow>
            (let out = out\<lparr>dc_reason_code := reason\<rparr>
             in if length body > 1
                then (case ncl_mqtt_properties_read g rest of
                    Inl rc \<Rightarrow> (NCL_ERR_PARSE, ncl_mqtt_disconnect_free out)
                  | Inr (props, consumed) \<Rightarrow> (NCL_OK, out\<lparr>dc_properties := props\<rparr>))
                else (NCL_OK, out)))"

section \<open>The fixed header\<close>

text \<open>Type, flags, remaining length and header length, or \<open>None\<close> for false.\<close>

definition ncl_mqtt_peek_header :: "u8 list option \<Rightarrow> (mqtt_packet_type \<times> u8 \<times> u32 \<times> nat) option" where
  "ncl_mqtt_peek_header data =
     (case data of None \<Rightarrow> None
      | Some bs \<Rightarrow>
          if length bs < 2 then None
          else (case ncl_mqtt_varint_decode (drop 1 bs) of
              None \<Rightarrow> None
            | Some (used, v) \<Rightarrow>
                Some (packet_type_of (drop_bit 4 (bs ! 0) AND 0x0F), bs ! 0 AND 0x0F, v, 1 + used)))"

end
