(* ===== verification/Mqtt_Frames.thy ===== *)
theory Mqtt_Frames
  imports Mqtt_Packet
begin

text \<open>
  The packets against each other: what the encoders put on the wire, how a receiver cuts a
  packet from a stream by its fixed header, and what the decoders make of its body.
\<close>

section \<open>Cutting a packet from a stream\<close>

text \<open>The fixed header, the remaining length, the body. \<open>split_packet\<close> is what a receiver does with
  the answer of \<open>ncl_mqtt_peek_header\<close>: type, flags, body and what follows the packet.\<close>

definition packet_bytes :: "u8 \<Rightarrow> u8 list \<Rightarrow> u8 list" where
  "packet_bytes h body = h # ncl_mqtt_varint_encode (of_nat (length body)) @ body"

definition split_packet :: "u8 list \<Rightarrow> (mqtt_packet_type \<times> u8 \<times> u8 list \<times> u8 list) option" where
  "split_packet stream =
     (case ncl_mqtt_peek_header (Some stream) of None \<Rightarrow> None
      | Some (ty, flags, n, h) \<Rightarrow>
          if h + unat n \<le> length stream
          then Some (ty, flags, take (unat n) (drop h stream), drop (h + unat n) stream) else None)"

lemma frame_ok:
  "length (sb_bytes body) \<le> NCL_MQTT_MAX_REMAINING_LENGTH \<Longrightarrow>
     ncl_mqtt_frame grant_all h body = Inr (packet_bytes h (sb_bytes body))"
  by (simp add: ncl_mqtt_frame_def Let_def grant_all packet_bytes_def)

lemma split_packet_bytes:
  assumes "length body \<le> NCL_MQTT_MAX_REMAINING_LENGTH"
  shows "split_packet (packet_bytes h body @ rest)
    = Some (packet_type_of (drop_bit 4 h AND 0x0F), h AND 0x0F, body, rest)"
proof -
  let ?n = "of_nat (length body) :: u32"
  have n: "unat ?n = length body" using assms by (simp add: unat_of_nat NCL_MQTT_MAX_REMAINING_LENGTH_def)
  then have "ncl_mqtt_varint_decode (ncl_mqtt_varint_encode ?n @ body @ rest) = Some (length (ncl_mqtt_varint_encode ?n), ?n)"
    using varint_roundtrip [of ?n "body @ rest"] assms by simp
  moreover have "0 < length (ncl_mqtt_varint_encode ?n)" using varint_nonempty [of ?n] by simp
  ultimately show ?thesis
    by (simp add: split_packet_def ncl_mqtt_peek_header_def packet_bytes_def n)
qed

section \<open>The writers, applied to a buffer\<close>

lemma run_writes:
  "length (sb_bytes w) + length (prefixed_bytes s) < 0x1000000000 \<Longrightarrow>
     sb_bytes (run (ncl_mqtt_write_string grant_all (Some s)) w) = sb_bytes w @ prefixed_bytes s"
  "length (sb_bytes w) + length (prefixed_bytes s) < 0x1000000000 \<Longrightarrow>
     sb_bytes (run (ncl_mqtt_write_binary grant_all s) w) = sb_bytes w @ prefixed_bytes s"
  "length (sb_bytes w) < 0x1000000000 \<Longrightarrow> sb_bytes (run (ncl_mqtt_write_u16 grant_all v) w) = sb_bytes w @ u16_bytes v"
  "length (sb_bytes w) < 0x1000000000 \<Longrightarrow> sb_bytes (put_byte grant_all b w) = sb_bytes w @ [b]"
  "length (sb_bytes w) + length (sb_bytes props) < 0x1000000000 \<Longrightarrow>
     sb_bytes (put_block grant_all props w) = sb_bytes w @ sb_bytes props"
  "length (sb_bytes w) + length bs < 0x1000000000 \<Longrightarrow>
     sb_bytes (run (\<lambda>sb. ncl_strbuf_append grant_all sb bs) w) = sb_bytes w @ bs"
  using sba.writes_result [OF writes_string [of "Some s"], of w] sba.writes_result [OF writes_binary [of s], of w]
    sba.writes_result [OF writes_u16 [of v], of w] sba.writes_result [OF writes_putc [of b], of w]
    sba.writes_result [OF writes_append [of "sb_bytes props"], of w] sba.writes_result [OF writes_append [of bs], of w]
  by (simp_all add: put_byte_def put_block_def run_def [abs_def])

lemma length_prefixed: "length (prefixed_bytes s) \<le> 65537"
  by (simp add: prefixed_bytes_def)

section \<open>An optional property set\<close>

definition props_of :: "mqtt_props option \<Rightarrow> mqtt_props" where
  "props_of p = (case p of None \<Rightarrow> ncl_mqtt_properties_init | Some q \<Rightarrow> q)"

lemma prop_none:
  "prop_byte g i None body = body" "prop_u16 g i None body = body" "prop_u32 g i None body = body"
  "prop_string g i None body = body" "prop_binary g i [] body = body" "prop_varint g i None body = body"
  by (simp_all add: prop_field_def prop_byte_def prop_u16_def prop_u32_def prop_string_def prop_binary_def prop_varint_def)

lemma body_of_init: "props_body g ncl_mqtt_properties_init sb = sb"
  by (simp add: props_body_def ncl_mqtt_properties_init_def ncl_strvec_init_def prop_none)

lemma write_props_of: "ncl_mqtt_properties_write g p sb = ncl_mqtt_properties_write g (Some (props_of p)) sb"
  by (cases p) (simp_all add: props_of_def ncl_mqtt_properties_write_def body_of_init)

lemma init_bytes_empty: "props_bytes ncl_mqtt_properties_init = []"
  by (simp add: ncl_mqtt_properties_init_def props_bytes_def props_items_def ncl_strvec_init_def
      items_before_def items_after_def user_items_def opt_item_def bin_item_def)

lemma init_props_ok: "props_ok ncl_mqtt_properties_init"
  by (simp add: props_ok_def init_bytes_empty) (simp add: ncl_mqtt_properties_init_def ncl_strvec_init_def)

lemma varint_zero: "ncl_mqtt_varint_encode 0 = [0]"
  by code_simp

lemma block_empty_iff: "props_ok p \<Longrightarrow> block_bytes p = [0] \<longleftrightarrow> props_bytes p = []"
  using varint_nonempty [of "of_nat (length (props_bytes p))"]
    varint_roundtrip [of "of_nat (length (props_bytes p))" "[]"]
  by (auto simp: block_bytes_def varint_zero append_eq_Cons_conv)

lemma init_block: "block_bytes ncl_mqtt_properties_init = [0]"
  by (simp add: block_bytes_def init_bytes_empty varint_zero)

lemma length_block: "props_ok p \<Longrightarrow> length (block_bytes p) \<le> NCL_MQTT_MAX_REMAINING_LENGTH + 4 \<and> 0 < length (block_bytes p)"
  using length_varint [of "of_nat (length (props_bytes p))"] varint_nonempty [of "of_nat (length (props_bytes p))"]
  by (simp add: block_bytes_def props_ok_def)

lemma write_opt:
  assumes "props_ok (props_of p)"
  obtains out where "ncl_mqtt_properties_write grant_all p ncl_strbuf_init = (NCL_OK, out)"
    "sb_bytes out = block_bytes (props_of p)" "\<not> sb_null out"
  using props_write_ok [OF assms] write_props_of [of grant_all p ncl_strbuf_init] by auto

lemma block_decode:
  assumes "props_ok p"
  obtains used tot where "ncl_mqtt_varint_decode (block_bytes p @ rest) = Some (used, tot)"
    "used + unat tot = length (block_bytes p)"
proof -
  let ?n = "of_nat (length (props_bytes p)) :: u32"
  have "unat ?n = length (props_bytes p)" "unat ?n \<le> NCL_MQTT_MAX_REMAINING_LENGTH"
    using assms by (simp_all add: props_ok_def unat_of_nat NCL_MQTT_MAX_REMAINING_LENGTH_def)
  then show ?thesis using varint_roundtrip [of ?n "props_bytes p @ rest"]
    by (intro that [of "length (ncl_mqtt_varint_encode ?n)" ?n]) (simp_all add: block_bytes_def)
qed

lemma rebuild_empty: "props_ok p \<Longrightarrow> props_bytes p = [] \<Longrightarrow> props_abs ncl_mqtt_properties_init = props_abs p"
  using rebuild [of p] by (cases "props_items p") (auto simp: props_bytes_def props_ok_def elim!: item_bytes.elims)

lemma sample_block_short: "length (block_bytes sample_props) < NCL_MQTT_MAX_REMAINING_LENGTH"
  using length_varint [of 300] length_varint [of "of_nat (length (props_bytes sample_props))"]
  by (simp add: block_bytes_def sample_props_def ncl_mqtt_properties_init_def props_bytes_def props_items_def
      items_before_def items_after_def user_items_def opt_item_def bin_item_def prefixed_bytes_def
      NCL_MQTT_MAX_REMAINING_LENGTH_def)

section \<open>PUBLISH\<close>

definition publish_bytes :: "u8 list \<Rightarrow> u8 list \<Rightarrow> int \<Rightarrow> u16 \<Rightarrow> mqtt_props \<Rightarrow> u8 list" where
  "publish_bytes topic payload qos packet_id p =
     prefixed_bytes topic @ (if qos > 0 then u16_bytes packet_id else []) @ block_bytes p @ payload"

lemma publish_header_bits:
  assumes "0 \<le> qos" "qos \<le> 2"
  shows "packet_type_of (drop_bit 4 (publish_header qos retain dup) AND 0x0F) = NCL_MQTT_PKT_PUBLISH"
    "(publish_header qos retain dup AND 0x0F) AND 0x08 \<noteq> 0 \<longleftrightarrow> dup"
    "(publish_header qos retain dup AND 0x0F) AND 0x01 \<noteq> 0 \<longleftrightarrow> retain"
    "int (unat (drop_bit 1 ((publish_header qos retain dup AND 0x0F) AND 0x06))) = qos"
proof -
  have "qos = 0 \<or> qos = 1 \<or> qos = 2" using assms by arith
  then show "packet_type_of (drop_bit 4 (publish_header qos retain dup) AND 0x0F) = NCL_MQTT_PKT_PUBLISH"
    "(publish_header qos retain dup AND 0x0F) AND 0x08 \<noteq> 0 \<longleftrightarrow> dup"
    "(publish_header qos retain dup AND 0x0F) AND 0x01 \<noteq> 0 \<longleftrightarrow> retain"
    "int (unat (drop_bit 1 ((publish_header qos retain dup AND 0x0F) AND 0x06))) = qos"
    by (cases retain; cases dup; auto simp: publish_header_def packet_type_of_def)+
qed

lemma encode_publish_bytes:
  assumes "props_ok (props_of p)" "0 \<le> qos" "qos \<le> 2"
    and "length (publish_bytes topic payload qos packet_id (props_of p)) \<le> NCL_MQTT_MAX_REMAINING_LENGTH"
  shows "ncl_mqtt_encode_publish grant_all (Some topic) payload qos retain dup packet_id p
    = Inr (packet_bytes (publish_header qos retain dup) (publish_bytes topic payload qos packet_id (props_of p)))"
proof -
  obtain out where out: "ncl_mqtt_properties_write grant_all p ncl_strbuf_init = (NCL_OK, out)"
    "sb_bytes out = block_bytes (props_of p)" using write_opt [OF assms(1)] by blast
  note len = assms(4) [unfolded publish_bytes_def NCL_MQTT_MAX_REMAINING_LENGTH_def]
  let ?b1 = "run (ncl_mqtt_write_string grant_all (Some topic)) ncl_strbuf_init"
  let ?b2 = "if qos > 0 then run (ncl_mqtt_write_u16 grant_all packet_id) ?b1 else ?b1"
  let ?b3 = "put_block grant_all out ?b2"
  let ?b4 = "if length payload > 0 then run (\<lambda>sb. ncl_strbuf_append grant_all sb payload) ?b3 else ?b3"
  have b1: "sb_bytes ?b1 = prefixed_bytes topic" using len by (simp add: run_writes)
  have b2: "sb_bytes ?b2 = prefixed_bytes topic @ (if qos > 0 then u16_bytes packet_id else [])"
    using len by (auto simp: run_writes b1)
  have b3: "sb_bytes ?b3 = sb_bytes ?b2 @ block_bytes (props_of p)"
    using len by (subst run_writes) (simp_all add: b2 out)
  have b4: "sb_bytes ?b4 = publish_bytes topic payload qos packet_id (props_of p)"
    using len by (cases "payload = []") (simp_all add: run_writes b3 b2 publish_bytes_def)
  have "ncl_mqtt_encode_publish grant_all (Some topic) payload qos retain dup packet_id p
      = ncl_mqtt_frame grant_all (publish_header qos retain dup) ?b4"
    using assms(2,3) out by (simp add: ncl_mqtt_encode_publish_def Let_def)
  also have "\<dots> = Inr (packet_bytes (publish_header qos retain dup) (sb_bytes ?b4))"
    by (rule frame_ok) (use assms(4) b4 in simp)
  finally show ?thesis using b4 by simp
qed

lemma publish_rest_ok:
  assumes "props_ok p"
  shows "\<exists>q. publish_rest grant_all (pre @ block_bytes p @ payload) (reader_at pre (block_bytes p @ payload)) out
      = (NCL_OK, out\<lparr>pb_properties := q, pb_payload := payload\<rparr>) \<and> props_abs q = props_abs p"
proof -
  obtain used tot where dec: "ncl_mqtt_varint_decode (block_bytes p @ payload) = Some (used, tot)"
    "used + unat tot = length (block_bytes p)" using block_decode [OF assms, of payload] by metis
  obtain q where q: "ncl_mqtt_properties_read grant_all (block_bytes p @ payload) = Inr (q, length (block_bytes p))"
    "props_abs q = props_abs p" using props_read_ok [OF assms, of payload] by metis
  have "0 < length (block_bytes p)" using length_block [OF assms] by simp
  with dec q show ?thesis by (intro exI [of _ q]) (simp add: publish_rest_def)
qed

lemma decode_publish_bytes:
  assumes "props_ok p" "wire_string topic" "0 \<le> qos" "qos \<le> 2"
  shows "\<exists>q. ncl_mqtt_decode_publish grant_all (publish_header qos retain dup AND 0x0F) (publish_bytes topic payload qos packet_id p)
      = (NCL_OK, \<lparr>pb_duplicate = dup, pb_qos = nat qos, pb_retain = retain, pb_topic = Some topic,
          pb_packet_id = (if qos > 0 then packet_id else 0), pb_payload = payload, pb_properties = q\<rparr>)
      \<and> props_abs q = props_abs p"
proof -
  let ?f = "publish_header qos retain dup AND 0x0F"
  let ?pid = "if qos > 0 then u16_bytes packet_id else []"
  let ?out = "\<lparr>pb_duplicate = dup, pb_qos = nat qos, pb_retain = retain, pb_topic = Some topic,
      pb_packet_id = (if qos > 0 then packet_id else 0), pb_payload = [], pb_properties = ncl_mqtt_properties_init\<rparr>"
  note bits = publish_header_bits [OF assms(3,4), where retain = retain and dup = dup]
  have qos: "unat (drop_bit 1 (?f AND 0x06)) = nat qos" using bits(4) by linarith
  have topic: "ncl_mqtt_read_string grant_all (ncl_mqtt_reader_init (publish_bytes topic payload qos packet_id p))
      = (Some topic, reader_at (prefixed_bytes topic) (?pid @ block_bytes p @ payload))"
    using read_string_at [OF assms(2), of "[]" "?pid @ block_bytes p @ payload"] by (simp add: reader_init_at publish_bytes_def)
  have "ncl_mqtt_decode_publish grant_all ?f (publish_bytes topic payload qos packet_id p)
      = publish_rest grant_all ((prefixed_bytes topic @ ?pid) @ block_bytes p @ payload)
          (reader_at (prefixed_bytes topic @ ?pid) (block_bytes p @ payload)) ?out"
    using assms(3) read_u16_at [of "prefixed_bytes topic" packet_id "block_bytes p @ payload"]
    unfolding ncl_mqtt_decode_publish_def Let_def topic qos bits publish_zero_def
    by (cases "qos > 0") (simp_all add: publish_bytes_def)
  with publish_rest_ok [OF assms(1), of "prefixed_bytes topic @ ?pid" payload ?out] show ?thesis by auto
qed

text \<open>C22. A message published with a legal topic, quality of service and property set reaches the
  receiver as it was sent: cut from the stream by its header, it decodes to the same topic,
  flags, packet identifier, payload and properties, and leaves what follows it alone.\<close>

theorem publish_roundtrip:
  assumes "wire_string topic" "0 \<le> qos" "qos \<le> 2" "props_ok (props_of p)"
    and "length (publish_bytes topic payload qos packet_id (props_of p)) \<le> NCL_MQTT_MAX_REMAINING_LENGTH"
  shows "\<exists>pk flags body q.
      ncl_mqtt_encode_publish grant_all (Some topic) payload qos retain dup packet_id p = Inr pk
    \<and> split_packet (pk @ rest) = Some (NCL_MQTT_PKT_PUBLISH, flags, body, rest)
    \<and> ncl_mqtt_decode_publish grant_all flags body
        = (NCL_OK, \<lparr>pb_duplicate = dup, pb_qos = nat qos, pb_retain = retain, pb_topic = Some topic,
            pb_packet_id = (if qos > 0 then packet_id else 0), pb_payload = payload, pb_properties = q\<rparr>)
    \<and> props_abs q = props_abs (props_of p)"
  using encode_publish_bytes [OF assms(4,2,3,5), of retain dup] split_packet_bytes [OF assms(5)]
    publish_header_bits(1) [OF assms(2,3)] decode_publish_bytes [OF assms(4,1,2,3)]
  by (metis (no_types, lifting))

theorem publish_roundtrip_witness:
  "\<exists>pk flags body q.
      ncl_mqtt_encode_publish grant_all (Some [0x61, 0x2F, 0x62]) [1, 0, 2] 1 True False 7 None = Inr pk
    \<and> split_packet (pk @ [0xC0, 0]) = Some (NCL_MQTT_PKT_PUBLISH, flags, body, [0xC0, 0])
    \<and> ncl_mqtt_decode_publish grant_all flags body
        = (NCL_OK, \<lparr>pb_duplicate = False, pb_qos = nat 1, pb_retain = True, pb_topic = Some [0x61, 0x2F, 0x62],
            pb_packet_id = (if (1 :: int) > 0 then 7 else 0), pb_payload = [1, 0, 2], pb_properties = q\<rparr>)
    \<and> props_abs q = props_abs (props_of None)"
  by (rule publish_roundtrip)
    (simp_all add: wire_string_def init_props_ok props_of_def publish_bytes_def prefixed_bytes_def init_block
      NCL_MQTT_MAX_REMAINING_LENGTH_def)

section \<open>Acknowledgements\<close>

text \<open>An acknowledgement reaches the other side as it was sent: its type, its packet identifier and its
  reason, with the flags the protocol asks for (2 for PUBREL, 0 otherwise); other types are refused.\<close>

theorem ack_roundtrip:
  "(if ty \<in> {NCL_MQTT_PKT_PUBACK, NCL_MQTT_PKT_PUBREC, NCL_MQTT_PKT_PUBREL, NCL_MQTT_PKT_PUBCOMP}
    then \<exists>pk body. ncl_mqtt_encode_ack grant_all ty packet_id reason = Inr pk
       \<and> split_packet (pk @ rest) = Some (ty, if ty = NCL_MQTT_PKT_PUBREL then 2 else 0, body, rest)
       \<and> ncl_mqtt_decode_ack (Some body) = Inr (packet_id, reason)
    else ncl_mqtt_encode_ack grant_all ty packet_id reason = Inl NCL_ERR_INVALID_ARG)"
proof -
  let ?b1 = "run (ncl_mqtt_write_u16 grant_all packet_id) ncl_strbuf_init"
  let ?b2 = "if reason \<noteq> NCL_MQTT_REASON_SUCCESS then put_byte grant_all 0 (put_byte grant_all reason ?b1) else ?b1"
  let ?bs = "u16_bytes packet_id @ (if reason \<noteq> NCL_MQTT_REASON_SUCCESS then [reason, 0] else [])"
  have b: "sb_bytes ?b2 = ?bs" by (simp add: run_writes)
  have len: "length ?bs \<le> NCL_MQTT_MAX_REMAINING_LENGTH" by (simp add: NCL_MQTT_MAX_REMAINING_LENGTH_def)
  have f: "ncl_mqtt_frame grant_all h ?b2 = Inr (packet_bytes h ?bs)" for h
    using frame_ok [of ?b2 h] len by (simp only: b)
  have dec: "ncl_mqtt_decode_ack (Some ?bs) = Inr (packet_id, reason)"
    using read_u16_at [of "[]" packet_id "[reason, 0]"] read_u16_at [of "[]" packet_id "[]"]
    by (simp add: ncl_mqtt_decode_ack_def reader_init_at NCL_MQTT_REASON_SUCCESS_def)
  note s = split_packet_bytes [OF len, of _ rest]
  show ?thesis
    by (cases ty) (use dec s [of "0x40"] s [of "0x50"] s [of "0x62"] s [of "0x70"] in
      \<open>simp_all add: ncl_mqtt_encode_ack_def Let_def f packet_type_of_def del: append_assoc\<close>)
qed

section \<open>DISCONNECT\<close>

text \<open>A DISCONNECT carries its reason and properties to the other side; the normal one without
  properties has an empty body.\<close>

theorem disconnect_roundtrip:
  assumes "props_ok (props_of p)" and "length (block_bytes (props_of p)) < NCL_MQTT_MAX_REMAINING_LENGTH"
  shows "\<exists>pk body q.
      ncl_mqtt_encode_disconnect grant_all reason p = Inr pk
    \<and> split_packet (pk @ rest) = Some (NCL_MQTT_PKT_DISCONNECT, 0, body, rest)
    \<and> (body = [] \<longleftrightarrow> reason = 0 \<and> props_bytes (props_of p) = [])
    \<and> ncl_mqtt_decode_disconnect grant_all body = (NCL_OK, \<lparr>dc_reason_code = reason, dc_properties = q\<rparr>)
    \<and> props_abs q = props_abs (props_of p)"
proof -
  obtain out where out: "ncl_mqtt_properties_write grant_all p ncl_strbuf_init = (NCL_OK, out)"
    "sb_bytes out = block_bytes (props_of p)" "\<not> sb_null out" using write_opt [OF assms(1)] by blast
  have len: "length (block_bytes (props_of p)) < 268435455" using assms(2) by (simp add: NCL_MQTT_MAX_REMAINING_LENGTH_def)
  have empty: "ncl_mqtt_properties_block_is_empty (Some out) \<longleftrightarrow> props_bytes (props_of p) = []"
    using out(2,3) block_empty_iff [OF assms(1)]
    by (auto simp: ncl_mqtt_properties_block_is_empty_def length_Suc_conv)
  let ?none = "reason = 0 \<and> props_bytes (props_of p) = []"
  let ?body = "if ?none then [] else reason # block_bytes (props_of p)"
  let ?sb = "if ?none then ncl_strbuf_init else put_block grant_all out (put_byte grant_all reason ncl_strbuf_init)"
  have sb: "sb_bytes ?sb = ?body" using len by (simp add: run_writes out(2))
  have max: "length ?body \<le> NCL_MQTT_MAX_REMAINING_LENGTH" using assms(2) by simp
  have "ncl_mqtt_encode_disconnect grant_all reason p = ncl_mqtt_frame grant_all 0xE0 ?sb"
    using empty by (simp add: ncl_mqtt_encode_disconnect_def out(1) NCL_MQTT_REASON_SUCCESS_def)
  then have enc: "ncl_mqtt_encode_disconnect grant_all reason p = Inr (packet_bytes 0xE0 ?body)"
    using frame_ok [of ?sb "0xE0"] max by (simp only: sb)
  have split: "split_packet (packet_bytes 0xE0 ?body @ rest) = Some (NCL_MQTT_PKT_DISCONNECT, 0, ?body, rest)"
    using split_packet_bytes [OF max, of "0xE0" rest] by (simp add: packet_type_of_def)
  obtain q where q: "ncl_mqtt_properties_read grant_all (block_bytes (props_of p)) = Inr (q, length (block_bytes (props_of p)))"
    "props_abs q = props_abs (props_of p)" using props_read_ok [OF assms(1), of "[]"] by auto
  obtain q2 where "ncl_mqtt_decode_disconnect grant_all ?body = (NCL_OK, \<lparr>dc_reason_code = reason, dc_properties = q2\<rparr>)
      \<and> props_abs q2 = props_abs (props_of p)"
  proof (cases ?none)
    case True
    then show ?thesis using that [of ncl_mqtt_properties_init] rebuild_empty [OF assms(1)]
      by (simp add: ncl_mqtt_decode_disconnect_def NCL_MQTT_REASON_SUCCESS_def)
  next
    case False
    then have nb: "?body = reason # block_bytes (props_of p)" by (rule if_not_P)
    have "0 < length (block_bytes (props_of p))" using length_block [OF assms(1)] by simp
    with q(1) have "ncl_mqtt_decode_disconnect grant_all (reason # block_bytes (props_of p))
        = (NCL_OK, \<lparr>dc_reason_code = reason, dc_properties = q\<rparr>)"
      by (simp add: ncl_mqtt_decode_disconnect_def)
    then show ?thesis using that [of q] q(2) by (simp only: nb)
  qed
  then show ?thesis using enc split by (intro exI [of _ "packet_bytes 0xE0 ?body"] exI [of _ ?body] exI [of _ q2]) auto
qed

theorem disconnect_roundtrip_witness:
  "\<exists>pk body q.
      ncl_mqtt_encode_disconnect grant_all 0x8E (Some sample_props) = Inr pk
    \<and> split_packet (pk @ []) = Some (NCL_MQTT_PKT_DISCONNECT, 0, body, [])
    \<and> (body = [] \<longleftrightarrow> (0x8E :: u8) = 0 \<and> props_bytes (props_of (Some sample_props)) = [])
    \<and> ncl_mqtt_decode_disconnect grant_all body = (NCL_OK, \<lparr>dc_reason_code = 0x8E, dc_properties = q\<rparr>)
    \<and> props_abs q = props_abs (props_of (Some sample_props))"
  by (rule disconnect_roundtrip) (simp_all add: props_of_def sample_props_ok sample_block_short)

section \<open>The property block is self contained\<close>

lemma varint_decode_local:
  "varint_decode_loop room i m res data = Some (n, v) \<Longrightarrow>
     i < n \<and> n \<le> i + length data \<and> varint_decode_loop room i m res (take (n - i) data @ other) = Some (n, v)"
proof (induction room i m res data rule: varint_decode_loop.induct)
  case (3 room i m res b data)
  show ?case
  proof (cases "b AND 0x80 = 0")
    case True
    with 3(2) show ?thesis by (auto simp: Let_def)
  next
    case False
    with 3 have "Suc i < n \<and> n \<le> Suc i + length data
        \<and> varint_decode_loop room (Suc i) (m * 128) (res + ucast (b AND 0x7F) * m) (take (n - Suc i) data @ other) = Some (n, v)"
      by (simp add: Let_def)
    moreover from this have "n - i = Suc (n - Suc i)" by (auto simp: Suc_diff_Suc)
    ultimately show ?thesis using False by (simp add: Let_def)
  qed
qed simp_all

text \<open>Reading a property block never looks past it: the bytes it reports as consumed are there, and
  they alone decide the result, whatever follows them.\<close>

theorem properties_read_self_contained:
  assumes "ncl_mqtt_properties_read g data = Inr (p, n)" and "data \<noteq> []"
  shows "0 < n \<and> n \<le> length data \<and> ncl_mqtt_properties_read g (take n data @ other) = Inr (p, n)"
proof -
  obtain used tot where dec: "ncl_mqtt_varint_decode data = Some (used, tot)"
    and room: "used + unat tot \<le> length data"
    and loop: "props_loop g ncl_mqtt_properties_init (ncl_mqtt_reader_init (take (unat tot) (drop used data))) = Some p"
    and n: "n = used + unat tot"
    using assms by (auto simp: ncl_mqtt_properties_read_def split: option.splits if_splits)
  have used: "0 < used" "used \<le> length data"
    and dec2: "ncl_mqtt_varint_decode (take used data @ cs) = Some (used, tot)" for cs
    using varint_decode_local [OF dec [unfolded ncl_mqtt_varint_decode_def]] by (simp_all add: ncl_mqtt_varint_decode_def)
  have tn: "take n data = take used data @ take (unat tot) (drop used data)"
    unfolding n by (rule take_add)
  then have "ncl_mqtt_varint_decode (take n data @ other) = Some (used, tot)"
    using dec2 [of "take (unat tot) (drop used data) @ other"] by simp
  moreover have "take (unat tot) (drop used (take n data @ other)) = take (unat tot) (drop used data)"
    using tn used room by simp
  ultimately show ?thesis using used room loop assms(2) by (simp add: ncl_mqtt_properties_read_def n)
qed

theorem properties_read_self_contained_witness:
  "0 < (1 :: nat) \<and> 1 \<le> length [0, 7 :: u8]
     \<and> ncl_mqtt_properties_read grant_all (take 1 [0, 7] @ [0xFF]) = Inr (ncl_mqtt_properties_init, 1)"
proof -
  have "ncl_mqtt_properties_read grant_all [0, 7] = Inr (ncl_mqtt_properties_init, 1)"
    using props_loop_items [of "[]" ncl_mqtt_properties_init "[]"]
    by (simp add: ncl_mqtt_properties_read_def ncl_mqtt_varint_decode_def eval_nat_numeral reader_init_at)
  from properties_read_self_contained [OF this, of "[0xFF]"] show ?thesis by simp
qed

section \<open>A topic that does not fit\<close>

text \<open>A topic of more than 65535 bytes is not reported: the encoder ignores the writer's refusal and
  succeeds with a packet that holds no topic at all, its payload following the property block.\<close>

theorem publish_oversized_topic:
  assumes "length topic > 0xFFFF" "length payload < NCL_MQTT_MAX_REMAINING_LENGTH"
  shows "ncl_mqtt_encode_publish grant_all (Some topic) payload 0 retain dup packet_id None
    = Inr (packet_bytes (publish_header 0 retain dup) (0 # payload))"
proof -
  have "publish_bytes topic payload 0 packet_id (props_of None) = 0 # payload"
    using assms(1) by (simp add: publish_bytes_def prefixed_bytes_def props_of_def init_block)
  with assms(2) encode_publish_bytes [of None 0 topic payload packet_id retain dup] show ?thesis
    by (simp add: props_of_def init_props_ok)
qed

theorem publish_oversized_topic_witness:
  "ncl_mqtt_encode_publish grant_all (Some (replicate 70000 0x61)) [1] 0 False False 0 None
    = Inr (packet_bytes (publish_header 0 False False) [0, 1])"
  by (rule publish_oversized_topic) (simp_all add: NCL_MQTT_MAX_REMAINING_LENGTH_def)

section \<open>CONNECT\<close>

definition connect_bytes :: "mqtt_connect_options \<Rightarrow> u8 list \<Rightarrow> u8 list" where
  "connect_bytes opts cid =
     prefixed_bytes NCL_MQTT_PROTOCOL_NAME @ [NCL_MQTT_PROTOCOL_LEVEL, connect_flags opts]
     @ u16_bytes (co_keep_alive_seconds opts) @ block_bytes (props_of (co_properties opts)) @ prefixed_bytes cid
     @ (case co_will_topic opts of None \<Rightarrow> []
        | Some t \<Rightarrow> block_bytes (props_of (co_will_properties opts)) @ prefixed_bytes t @ prefixed_bytes (co_will_payload opts))
     @ (case co_username opts of None \<Rightarrow> [] | Some u \<Rightarrow> prefixed_bytes u)
     @ (case co_password opts of None \<Rightarrow> [] | Some pw \<Rightarrow> prefixed_bytes pw)"

lemma connect_head_bytes:
  "length (sb_bytes props) < 0x20000000 \<Longrightarrow>
     sb_bytes (connect_head grant_all opts cid props)
       = prefixed_bytes NCL_MQTT_PROTOCOL_NAME @ [NCL_MQTT_PROTOCOL_LEVEL, connect_flags opts]
         @ u16_bytes (co_keep_alive_seconds opts) @ sb_bytes props @ prefixed_bytes cid"
  using length_prefixed [of cid] length_prefixed [of NCL_MQTT_PROTOCOL_NAME]
  by (simp add: connect_head_def run_writes)

lemma connect_tail_bytes:
  assumes "sb_bytes body @ (case co_username opts of None \<Rightarrow> [] | Some u \<Rightarrow> prefixed_bytes u)
      @ (case co_password opts of None \<Rightarrow> [] | Some pw \<Rightarrow> prefixed_bytes pw) = bs"
    and "length bs \<le> NCL_MQTT_MAX_REMAINING_LENGTH"
  shows "connect_tail grant_all opts body = Inr (packet_bytes 0x10 bs)"
proof -
  let ?b1 = "case co_username opts of None \<Rightarrow> body | Some u \<Rightarrow> run (ncl_mqtt_write_string grant_all (Some u)) body"
  let ?b2 = "case co_password opts of None \<Rightarrow> ?b1 | Some pw \<Rightarrow> run (ncl_mqtt_write_binary grant_all pw) ?b1"
  have len: "length (sb_bytes body) \<le> 268435455"
    using assms(2) by (auto simp: assms(1) [symmetric] NCL_MQTT_MAX_REMAINING_LENGTH_def)
  have b1: "sb_bytes ?b1 = sb_bytes body @ (case co_username opts of None \<Rightarrow> [] | Some u \<Rightarrow> prefixed_bytes u)"
    using len length_prefixed [of "the (co_username opts)"] by (cases "co_username opts") (simp_all add: run_writes)
  have "length (sb_bytes ?b1) \<le> 268435455 + 65537"
    using len length_prefixed [of "the (co_username opts)"] unfolding b1 by (cases "co_username opts") simp_all
  then have "sb_bytes ?b2 = bs"
    using length_prefixed [of "the (co_password opts)"] assms(1) b1 by (cases "co_password opts") (simp_all add: run_writes)
  then show ?thesis using frame_ok [of ?b2 "0x10"] assms(2) by (simp add: connect_tail_def Let_def)
qed

lemma connect_flag_bits:
  "bit (connect_flags opts) 7 \<longleftrightarrow> co_username opts \<noteq> None"
  "bit (connect_flags opts) 6 \<longleftrightarrow> co_password opts \<noteq> None"
  "bit (connect_flags opts) 5 \<longleftrightarrow> co_will_topic opts \<noteq> None \<and> co_will_retain opts"
  "bit (connect_flags opts) 4 \<longleftrightarrow> co_will_topic opts \<noteq> None \<and> bit (co_will_qos opts) 1"
  "bit (connect_flags opts) 3 \<longleftrightarrow> co_will_topic opts \<noteq> None \<and> bit (co_will_qos opts) 0"
  "bit (connect_flags opts) 2 \<longleftrightarrow> co_will_topic opts \<noteq> None"
  "bit (connect_flags opts) 1 \<longleftrightarrow> co_clean_start opts"
  "\<not> bit (connect_flags opts) 0"
  by (auto simp: connect_flags_def Let_def bit_simps)

text \<open>CONNECT lays its fields out in the order of the protocol, its flag byte says exactly which of
  them are there and what the will asks for, and the reserved bit is clear.\<close>

theorem connect_layout:
  assumes "co_client_id opts = Some cid" "props_ok (props_of (co_properties opts))"
    and "props_ok (props_of (co_will_properties opts))" "length (connect_bytes opts cid) \<le> NCL_MQTT_MAX_REMAINING_LENGTH"
  shows "ncl_mqtt_encode_connect grant_all (Some opts) = Inr (packet_bytes 0x10 (connect_bytes opts cid))
    \<and> (bit (connect_flags opts) 7 \<longleftrightarrow> co_username opts \<noteq> None)
    \<and> (bit (connect_flags opts) 6 \<longleftrightarrow> co_password opts \<noteq> None)
    \<and> (bit (connect_flags opts) 5 \<longleftrightarrow> co_will_topic opts \<noteq> None \<and> co_will_retain opts)
    \<and> (bit (connect_flags opts) 4 \<longleftrightarrow> co_will_topic opts \<noteq> None \<and> bit (co_will_qos opts) 1)
    \<and> (bit (connect_flags opts) 3 \<longleftrightarrow> co_will_topic opts \<noteq> None \<and> bit (co_will_qos opts) 0)
    \<and> (bit (connect_flags opts) 2 \<longleftrightarrow> co_will_topic opts \<noteq> None)
    \<and> (bit (connect_flags opts) 1 \<longleftrightarrow> co_clean_start opts)
    \<and> \<not> bit (connect_flags opts) 0"
proof -
  obtain props where props: "ncl_mqtt_properties_write grant_all (co_properties opts) ncl_strbuf_init = (NCL_OK, props)"
    "sb_bytes props = block_bytes (props_of (co_properties opts))" using write_opt [OF assms(2)] by metis
  obtain wp where wp: "ncl_mqtt_properties_write grant_all (co_will_properties opts) ncl_strbuf_init = (NCL_OK, wp)"
    "sb_bytes wp = block_bytes (props_of (co_will_properties opts))" using write_opt [OF assms(3)] by metis
  have pl: "length (sb_bytes props) < 0x20000000" "length (sb_bytes wp) < 0x20000000"
    using length_block [OF assms(2)] length_block [OF assms(3)] by (simp_all add: props(2) wp(2) NCL_MQTT_MAX_REMAINING_LENGTH_def)
  let ?head = "connect_head grant_all opts cid props"
  have hl: "length (sb_bytes ?head) < 0x30000000"
    using pl length_prefixed [of cid] length_prefixed [of NCL_MQTT_PROTOCOL_NAME] by (simp add: connect_head_bytes [OF pl(1)])
  have "ncl_mqtt_encode_connect grant_all (Some opts) = Inr (packet_bytes 0x10 (connect_bytes opts cid))"
  proof (cases "co_will_topic opts")
    case None
    have "connect_tail grant_all opts ?head = Inr (packet_bytes 0x10 (connect_bytes opts cid))"
      by (rule connect_tail_bytes [OF _ assms(4)]) (simp add: connect_head_bytes [OF pl(1)] connect_bytes_def None props(2))
    then show ?thesis using assms(1) props(1) None by (simp add: ncl_mqtt_encode_connect_def Let_def)
  next
    case (Some t)
    let ?body = "run (ncl_mqtt_write_binary grant_all (co_will_payload opts))
        (run (ncl_mqtt_write_string grant_all (Some t)) (put_block grant_all wp ?head))"
    have "sb_bytes ?body = sb_bytes ?head @ sb_bytes wp @ prefixed_bytes t @ prefixed_bytes (co_will_payload opts)"
      using hl pl(2) length_prefixed [of t] length_prefixed [of "co_will_payload opts"] by (simp add: run_writes)
    then have "connect_tail grant_all opts ?body = Inr (packet_bytes 0x10 (connect_bytes opts cid))"
      by (intro connect_tail_bytes [OF _ assms(4)]) (simp add: connect_head_bytes [OF pl(1)] connect_bytes_def Some props(2) wp(2))
    then show ?thesis using assms(1) props(1) wp(1) Some by (simp add: ncl_mqtt_encode_connect_def Let_def)
  qed
  then show ?thesis by (intro conjI connect_flag_bits)
qed

definition sample_connect :: mqtt_connect_options where
  "sample_connect =
     \<lparr>co_client_id = Some [0x63], co_username = Some [0x75], co_password = None, co_clean_start = True,
      co_keep_alive_seconds = 60, co_properties = None, co_will_topic = Some [0x77], co_will_payload = [1, 2],
      co_will_qos = 1, co_will_retain = False, co_will_properties = None\<rparr>"

theorem connect_layout_witness:
  "ncl_mqtt_encode_connect grant_all (Some sample_connect) = Inr (packet_bytes 0x10 (connect_bytes sample_connect [0x63]))
    \<and> connect_flags sample_connect = 0x8E"
proof -
  have "ncl_mqtt_encode_connect grant_all (Some sample_connect) = Inr (packet_bytes 0x10 (connect_bytes sample_connect [0x63]))"
    by (rule connect_layout [THEN conjunct1])
      (simp_all add: sample_connect_def props_of_def init_props_ok connect_bytes_def prefixed_bytes_def init_block
        NCL_MQTT_PROTOCOL_NAME_def NCL_MQTT_MAX_REMAINING_LENGTH_def)
  moreover have "connect_flags sample_connect = 0x8E" by code_simp
  ultimately show ?thesis by simp
qed

end
