(* ===== verification/Modbus.thy ===== *)
theory Modbus
  imports Common
begin

text \<open>
  \<^verbatim>\<open>clients/modbus/modbus_codec.c\<close>: areas, byte orders, element values, the CRC, the
  requests and replies, and the TCP and RTU frames. Buffers are byte lists; a builder that
  answers 0 is \<open>None\<close>. The text an error carries for people is not modelled.
\<close>

section \<open>Areas and orders\<close>

datatype ncl_modbus_area = NCL_MB_COIL | NCL_MB_DISCRETE | NCL_MB_INPUT | NCL_MB_HOLDING

definition kAreaNames :: "(string \<times> ncl_modbus_area) list" where
  "kAreaNames =
     [(''coil'', NCL_MB_COIL), (''coils'', NCL_MB_COIL), (''0x'', NCL_MB_COIL),
      (''discrete'', NCL_MB_DISCRETE), (''discrete_input'', NCL_MB_DISCRETE), (''1x'', NCL_MB_DISCRETE),
      (''input'', NCL_MB_INPUT), (''input_register'', NCL_MB_INPUT), (''3x'', NCL_MB_INPUT),
      (''holding'', NCL_MB_HOLDING), (''holding_register'', NCL_MB_HOLDING), (''register'', NCL_MB_HOLDING),
      (''4x'', NCL_MB_HOLDING)]"

fun name_search :: "string option \<Rightarrow> (string \<times> 'a) list \<Rightarrow> 'a option" where
  "name_search text [] = None"
| "name_search text ((n, a) # rest) =
     (if ncl_streq_ignore_case text (Some n) then Some a else name_search text rest)"

definition ncl_modbus_area_parse :: "string option \<Rightarrow> ncl_modbus_area option" where
  "ncl_modbus_area_parse text = (if ncl_str_is_blank text then None else name_search text kAreaNames)"

fun ncl_modbus_area_name :: "ncl_modbus_area \<Rightarrow> string" where
  "ncl_modbus_area_name NCL_MB_COIL = ''coil''"
| "ncl_modbus_area_name NCL_MB_DISCRETE = ''discrete''"
| "ncl_modbus_area_name NCL_MB_INPUT = ''input''"
| "ncl_modbus_area_name NCL_MB_HOLDING = ''holding''"

definition ncl_modbus_area_is_writable :: "ncl_modbus_area \<Rightarrow> bool" where
  "ncl_modbus_area_is_writable area \<longleftrightarrow> area = NCL_MB_COIL \<or> area = NCL_MB_HOLDING"

definition NCL_MB_FC_READ_COILS :: u8 where "NCL_MB_FC_READ_COILS = 0x01"
definition NCL_MB_FC_READ_DISCRETE :: u8 where "NCL_MB_FC_READ_DISCRETE = 0x02"
definition NCL_MB_FC_READ_HOLDING :: u8 where "NCL_MB_FC_READ_HOLDING = 0x03"
definition NCL_MB_FC_READ_INPUT :: u8 where "NCL_MB_FC_READ_INPUT = 0x04"
definition NCL_MB_FC_WRITE_COIL :: u8 where "NCL_MB_FC_WRITE_COIL = 0x05"
definition NCL_MB_FC_WRITE_REGISTER :: u8 where "NCL_MB_FC_WRITE_REGISTER = 0x06"
definition NCL_MB_FC_WRITE_COILS :: u8 where "NCL_MB_FC_WRITE_COILS = 0x0F"
definition NCL_MB_FC_WRITE_REGISTERS :: u8 where "NCL_MB_FC_WRITE_REGISTERS = 0x10"

lemmas function_codes = NCL_MB_FC_READ_COILS_def NCL_MB_FC_READ_DISCRETE_def NCL_MB_FC_READ_HOLDING_def
  NCL_MB_FC_READ_INPUT_def NCL_MB_FC_WRITE_COIL_def NCL_MB_FC_WRITE_REGISTER_def NCL_MB_FC_WRITE_COILS_def
  NCL_MB_FC_WRITE_REGISTERS_def

fun ncl_modbus_area_read_code :: "ncl_modbus_area \<Rightarrow> u8" where
  "ncl_modbus_area_read_code NCL_MB_COIL = NCL_MB_FC_READ_COILS"
| "ncl_modbus_area_read_code NCL_MB_DISCRETE = NCL_MB_FC_READ_DISCRETE"
| "ncl_modbus_area_read_code NCL_MB_INPUT = NCL_MB_FC_READ_INPUT"
| "ncl_modbus_area_read_code NCL_MB_HOLDING = NCL_MB_FC_READ_HOLDING"

definition ncl_modbus_area_max_read :: "ncl_modbus_area \<Rightarrow> nat" where
  "ncl_modbus_area_max_read area = (if area = NCL_MB_COIL \<or> area = NCL_MB_DISCRETE then 2000 else 125)"

definition ncl_modbus_area_max_write :: "ncl_modbus_area \<Rightarrow> nat" where
  "ncl_modbus_area_max_write area = (if area = NCL_MB_COIL \<or> area = NCL_MB_DISCRETE then 1968 else 123)"

datatype ncl_modbus_word_order = NCL_MB_ORDER_ABCD | NCL_MB_ORDER_CDAB | NCL_MB_ORDER_BADC | NCL_MB_ORDER_DCBA

definition order_names :: "(string \<times> ncl_modbus_word_order) list" where
  "order_names = [(''ABCD'', NCL_MB_ORDER_ABCD), (''CDAB'', NCL_MB_ORDER_CDAB),
     (''BADC'', NCL_MB_ORDER_BADC), (''DCBA'', NCL_MB_ORDER_DCBA)]"

definition ncl_modbus_word_order_parse :: "string option \<Rightarrow> ncl_modbus_word_order option" where
  "ncl_modbus_word_order_parse text = (if ncl_str_is_blank text then None else name_search text order_names)"

fun ncl_modbus_word_order_name :: "ncl_modbus_word_order \<Rightarrow> string" where
  "ncl_modbus_word_order_name NCL_MB_ORDER_ABCD = ''ABCD''"
| "ncl_modbus_word_order_name NCL_MB_ORDER_CDAB = ''CDAB''"
| "ncl_modbus_word_order_name NCL_MB_ORDER_BADC = ''BADC''"
| "ncl_modbus_word_order_name NCL_MB_ORDER_DCBA = ''DCBA''"

text \<open>\<open>ncl_dtype\<close> of \<^verbatim>\<open>ncl_driver.h\<close>.\<close>

datatype ncl_dtype =
    NCL_DTYPE_BIT
  | NCL_DTYPE_BYTE
  | NCL_DTYPE_INT16
  | NCL_DTYPE_INT32
  | NCL_DTYPE_FLOAT32
  | NCL_DTYPE_FLOAT64
  | NCL_DTYPE_STRING

fun ncl_modbus_registers_per_element :: "ncl_dtype \<Rightarrow> nat" where
  "ncl_modbus_registers_per_element NCL_DTYPE_BIT = 0"
| "ncl_modbus_registers_per_element NCL_DTYPE_BYTE = 1"
| "ncl_modbus_registers_per_element NCL_DTYPE_INT16 = 1"
| "ncl_modbus_registers_per_element NCL_DTYPE_INT32 = 2"
| "ncl_modbus_registers_per_element NCL_DTYPE_FLOAT32 = 2"
| "ncl_modbus_registers_per_element NCL_DTYPE_FLOAT64 = 4"
| "ncl_modbus_registers_per_element NCL_DTYPE_STRING = 1"

text \<open>The two loops of \<open>order_apply\<close>: a trailing odd byte, or a trailing half group, stays.\<close>

fun swap_bytes :: "u8 list \<Rightarrow> u8 list" where
  "swap_bytes (a # b # bs) = b # a # swap_bytes bs"
| "swap_bytes bs = bs"

fun swap_words :: "u8 list \<Rightarrow> u8 list" where
  "swap_words (a # b # c # d # bs) = c # d # a # b # swap_words bs"
| "swap_words bs = bs"

definition order_apply :: "ncl_modbus_word_order \<Rightarrow> u8 list \<Rightarrow> u8 list" where
  "order_apply order bytes =
     (let bytes = (if order = NCL_MB_ORDER_BADC \<or> order = NCL_MB_ORDER_DCBA then swap_bytes bytes else bytes)
      in if order = NCL_MB_ORDER_CDAB \<or> order = NCL_MB_ORDER_DCBA then swap_words bytes else bytes)"

text \<open>\<open>int64_t\<close> as its two's complement word.\<close>

definition sign_extend :: "u64 \<Rightarrow> nat \<Rightarrow> u64" where
  "sign_extend v bits =
     (if v AND push_bit (bits - 1) 1 \<noteq> 0 then v OR NOT (push_bit bits 1 - 1) else v)"

section \<open>Element values\<close>

text \<open>
  What a decoded element is as JSON, and what the accessors \<open>ncl_json_as_int\<close>,
  \<open>ncl_json_as_double\<close> and \<open>ncl_json_as_string\<close> say of the value to encode. A double
  is its bit pattern; the conversions between \<open>float\<close> and \<open>double\<close> are those of
  the C implementation and stay parameters (\<open>widen\<close>, \<open>narrow\<close>). \<open>ok\<close> says
  whether the JSON node can be allocated.
\<close>

datatype mb_json = MB_INT u64 | MB_DOUBLE u64 | MB_STRING "u8 list"

record json_view =
  jv_int :: "u64 option"
  jv_double :: "u64 option"
  jv_string :: "u8 list option"

definition u64_join :: "u8 list \<Rightarrow> u64" where
  "u64_join bs = fold (\<lambda>b raw. push_bit 8 raw OR ucast b) bs 0"

definition ncl_modbus_decode ::
  "bool \<Rightarrow> (u32 \<Rightarrow> u64) \<Rightarrow> u8 list option \<Rightarrow> nat \<Rightarrow> ncl_dtype \<Rightarrow> nat \<Rightarrow> ncl_modbus_word_order \<Rightarrow> ncl_err + mb_json" where
  "ncl_modbus_decode ok widen data offset dtype text_chars order =
     (case data of None \<Rightarrow> Inl NCL_ERR_INVALID_ARG
      | Some bs \<Rightarrow>
        (let width = ncl_modbus_registers_per_element dtype * 2
         in if dtype = NCL_DTYPE_STRING then
              (let chars = (if text_chars > 255 then 255 else text_chars)
               in if offset + chars > length bs then Inl NCL_ERR_RANGE
                  else (let text = take chars (drop offset bs);
                            text = (if order = NCL_MB_ORDER_BADC \<or> order = NCL_MB_ORDER_DCBA
                                    then order_apply NCL_MB_ORDER_BADC text else text)
                        in if ok then Inr (MB_STRING (map (\<lambda>b. if b = 0 then 0x20 else b) text)) else Inl NCL_ERR_NOMEM))
            else if width = 0 \<or> width > 8 then Inl NCL_ERR_INVALID_DATA_TYPE
            else if offset + width > length bs then Inl NCL_ERR_RANGE
            else (let buffer = order_apply order (take width (drop offset bs));
                      raw32 = u32_join (buffer ! 0) (buffer ! 1) (buffer ! 2) (buffer ! 3)
                  in case (case dtype of
                         NCL_DTYPE_BYTE \<Rightarrow> Some (MB_INT (ucast (buffer ! 1)))
                       | NCL_DTYPE_INT16 \<Rightarrow> Some (MB_INT (sign_extend (ucast (u16_join (buffer ! 0) (buffer ! 1))) 16))
                       | NCL_DTYPE_INT32 \<Rightarrow> Some (MB_INT (sign_extend (ucast raw32) 32))
                       | NCL_DTYPE_FLOAT32 \<Rightarrow> Some (MB_DOUBLE (widen raw32))
                       | NCL_DTYPE_FLOAT64 \<Rightarrow> Some (MB_DOUBLE (u64_join buffer))
                       | _ \<Rightarrow> None) of
                     None \<Rightarrow> Inl NCL_ERR_INVALID_DATA_TYPE
                   | Some v \<Rightarrow> if ok then Inr v else Inl NCL_ERR_NOMEM)))"

definition u64_bytes :: "u64 \<Rightarrow> u8 list" where
  "u64_bytes raw = map (\<lambda>i. ucast (drop_bit (56 - 8 * i) raw)) [0, 1, 2, 3, 4, 5, 6, 7]"

text \<open>\<open>memset\<close> and the copy loop: the text up to its end or the field's, then zeros.\<close>

definition text_field :: "u8 list \<Rightarrow> nat \<Rightarrow> u8 list" where
  "text_field text chars = take chars text @ replicate (chars - length text) 0"

text \<open>\<open>Inr\<close> the bytes written at \<open>out\<close> (their number is \<open>out_len\<close>).\<close>

definition ncl_modbus_encode ::
  "(u64 \<Rightarrow> u32) \<Rightarrow> json_view option \<Rightarrow> ncl_dtype \<Rightarrow> nat \<Rightarrow> ncl_modbus_word_order \<Rightarrow> nat \<Rightarrow> ncl_err + u8 list" where
  "ncl_modbus_encode narrow val dtype text_chars order out_cap =
     (case val of None \<Rightarrow> Inl NCL_ERR_INVALID_ARG
      | Some v \<Rightarrow>
        (if dtype = NCL_DTYPE_STRING then
           (case jv_string v of None \<Rightarrow> Inl NCL_ERR_INVALID_VALUE
            | Some text \<Rightarrow>
                if order = NCL_MB_ORDER_CDAB \<or> order = NCL_MB_ORDER_DCBA then Inl NCL_ERR_NOT_SUPPORTED
                else if out_cap < text_chars then Inl NCL_ERR_RANGE
                else Inr (if order = NCL_MB_ORDER_BADC then order_apply NCL_MB_ORDER_BADC (text_field text text_chars)
                          else text_field text text_chars))
         else
           (let width = ncl_modbus_registers_per_element dtype * 2
            in if width = 0 \<or> width > 8 \<or> out_cap < width then Inl NCL_ERR_INVALID_DATA_TYPE
               else case (case dtype of
                     NCL_DTYPE_BYTE \<Rightarrow> map_option (\<lambda>n. u16_bytes (ucast n)) (jv_int v)
                   | NCL_DTYPE_INT16 \<Rightarrow> map_option (\<lambda>n. u16_bytes (ucast n)) (jv_int v)
                   | NCL_DTYPE_INT32 \<Rightarrow> map_option (\<lambda>n. u32_bytes (ucast n)) (jv_int v)
                   | NCL_DTYPE_FLOAT32 \<Rightarrow> map_option (\<lambda>d. u32_bytes (narrow d)) (jv_double v)
                   | NCL_DTYPE_FLOAT64 \<Rightarrow> map_option u64_bytes (jv_double v)
                   | _ \<Rightarrow> None) of
                   None \<Rightarrow> Inl NCL_ERR_INVALID_VALUE
                 | Some buffer \<Rightarrow> Inr (order_apply order buffer))))"

section \<open>CRC\<close>

definition crc_shift :: "u16 \<Rightarrow> u16" where
  "crc_shift crc = (if crc AND 1 \<noteq> 0 then drop_bit 1 crc XOR 0xA001 else drop_bit 1 crc)"

definition crc_byte :: "u16 \<Rightarrow> u8 \<Rightarrow> u16" where
  "crc_byte crc b = (crc_shift ^^ 8) (crc XOR ucast b)"

definition ncl_modbus_crc16 :: "u8 list option \<Rightarrow> u16" where
  "ncl_modbus_crc16 data = (case data of None \<Rightarrow> 0xFFFF | Some bs \<Rightarrow> foldl crc_byte 0xFFFF bs)"

section \<open>Requests\<close>

definition ncl_modbus_read_pdu :: "nat \<Rightarrow> u8 \<Rightarrow> u16 \<Rightarrow> u16 \<Rightarrow> u8 list option" where
  "ncl_modbus_read_pdu cap function address cnt =
     (if cap < 5 then None else Some (function # u16_bytes address @ u16_bytes cnt))"

definition ncl_modbus_write_single_pdu :: "nat \<Rightarrow> u8 \<Rightarrow> u16 \<Rightarrow> u16 \<Rightarrow> u8 list option" where
  "ncl_modbus_write_single_pdu cap function address val =
     (if cap < 5 then None else Some (function # u16_bytes address @ u16_bytes val))"

definition ncl_modbus_write_multi_pdu :: "nat \<Rightarrow> u8 \<Rightarrow> u16 \<Rightarrow> u16 \<Rightarrow> u8 list option \<Rightarrow> u8 list option" where
  "ncl_modbus_write_multi_pdu cap function address cnt data =
     (case data of None \<Rightarrow> None
      | Some bs \<Rightarrow>
          if length bs > 255 \<or> cap < 6 + length bs then None
          else Some (function # u16_bytes address @ u16_bytes cnt @ of_nat (length bs) # bs))"

section \<open>Replies\<close>

definition exception_codes :: "u8 list" where
  "exception_codes = [0x01, 0x02, 0x03, 0x04, 0x05, 0x06, 0x08, 0x0A, 0x0B]"

definition ncl_modbus_check_exception :: "u8 list option \<Rightarrow> u8 \<Rightarrow> ncl_err" where
  "ncl_modbus_check_exception pdu function =
     (case pdu of None \<Rightarrow> NCL_ERR_PARSE
      | Some bs \<Rightarrow>
          if length bs < 2 then NCL_ERR_PARSE
          else if bs ! 0 \<noteq> function OR 0x80 then NCL_OK
          else if bs ! 1 \<in> set exception_codes
          then (if bs ! 1 = 0x05 \<or> bs ! 1 = 0x06 \<or> bs ! 1 = 0x08
                then NCL_DRV_ERR_BUSINESS (256 + unat (bs ! 1))
                else NCL_DRV_ERR_PROTOCOL (256 + unat (bs ! 1)))
          else NCL_DRV_ERR_PROTOCOL 0x1FF)"

text \<open>\<open>Inr\<close> what \<open>*data\<close> points at: the reply from its third byte on.\<close>

definition ncl_modbus_check_read_reply :: "u8 list option \<Rightarrow> u8 \<Rightarrow> nat \<Rightarrow> ncl_err + u8 list" where
  "ncl_modbus_check_read_reply pdu function expect_bytes =
     (let err = ncl_modbus_check_exception pdu function
      in if err \<noteq> NCL_OK then Inl err
         else case pdu of None \<Rightarrow> Inl NCL_ERR_PARSE
           | Some bs \<Rightarrow>
               if bs ! 0 \<noteq> function \<or> length bs < 3 then Inl (NCL_DRV_ERR_PROTOCOL 1)
               else if unat (bs ! 1) \<noteq> expect_bytes \<or> length bs < unat (bs ! 1) + 2 then Inl (NCL_DRV_ERR_PROTOCOL 2)
               else Inr (drop 2 bs))"

definition ncl_modbus_check_write_reply :: "u8 list option \<Rightarrow> u8 \<Rightarrow> u16 \<Rightarrow> u16 \<Rightarrow> ncl_err" where
  "ncl_modbus_check_write_reply pdu function address cnt =
     (let err = ncl_modbus_check_exception pdu function
      in if err \<noteq> NCL_OK then err
         else case pdu of None \<Rightarrow> NCL_ERR_PARSE
           | Some bs \<Rightarrow>
               if bs ! 0 \<noteq> function \<or> length bs < 5 then NCL_DRV_ERR_PROTOCOL 3
               else if u16_join (bs ! 1) (bs ! 2) \<noteq> address \<or> u16_join (bs ! 3) (bs ! 4) \<noteq> cnt then NCL_DRV_ERR_PROTOCOL 4
               else NCL_OK)"

section \<open>Frames\<close>

definition ncl_modbus_tcp_frame :: "nat \<Rightarrow> u16 \<Rightarrow> u8 \<Rightarrow> u8 list option \<Rightarrow> u8 list option" where
  "ncl_modbus_tcp_frame cap transaction unit pdu =
     (case pdu of None \<Rightarrow> None
      | Some bs \<Rightarrow>
          if cap < length bs + 7 \<or> length bs > 253 then None
          else Some (u16_bytes transaction @ [0x00, 0x00] @ u16_bytes (of_nat (length bs + 1)) @ [unit] @ bs))"

text \<open>\<open>Inr\<close> the request or reply in the frame and the length of the frame.\<close>

definition ncl_modbus_tcp_split :: "u8 list option \<Rightarrow> u16 \<Rightarrow> ncl_err + u8 list \<times> nat" where
  "ncl_modbus_tcp_split frame want_transaction =
     (case frame of None \<Rightarrow> Inl NCL_ERR_PARSE
      | Some bs \<Rightarrow>
          if length bs < 8 then Inl NCL_ERR_PARSE
          else if bs ! 2 \<noteq> 0x00 \<or> bs ! 3 \<noteq> 0x00 then Inl (NCL_DRV_ERR_PROTOCOL 5)
          else (let len = unat (u16_join (bs ! 4) (bs ! 5))
                in if len < 2 \<or> len > 254 then Inl (NCL_DRV_ERR_PROTOCOL 6)
                   else if length bs < len + 6 then Inl NCL_ERR_RANGE
                   else if want_transaction \<noteq> 0xFFFF \<and> u16_join (bs ! 0) (bs ! 1) \<noteq> want_transaction
                   then Inl (NCL_DRV_ERR_PROTOCOL 7)
                   else Inr (take (len - 1) (drop 7 bs), len + 6)))"

definition ncl_modbus_rtu_frame :: "nat \<Rightarrow> u8 \<Rightarrow> u8 list option \<Rightarrow> u8 list option" where
  "ncl_modbus_rtu_frame cap unit pdu =
     (case pdu of None \<Rightarrow> None
      | Some bs \<Rightarrow>
          if length bs > 252 \<or> cap < length bs + 3 then None
          else (let crc = ncl_modbus_crc16 (Some (unit # bs))
                in Some (unit # bs @ [ucast (crc AND 0xFF), ucast (drop_bit 8 crc)])))"

definition ncl_modbus_rtu_split :: "u8 list option \<Rightarrow> u8 \<Rightarrow> ncl_err + u8 list \<times> nat" where
  "ncl_modbus_rtu_split frame want_unit =
     (case frame of None \<Rightarrow> Inl NCL_ERR_PARSE
      | Some bs \<Rightarrow>
          let len = length bs
          in if len < 4 then Inl NCL_ERR_PARSE
             else if bs ! 0 \<noteq> want_unit then Inl (NCL_DRV_ERR_PROTOCOL 8)
             else (let crc = ncl_modbus_crc16 (Some (take (len - 2) bs));
                       expected = u16_join (bs ! (len - 1)) (bs ! (len - 2))
                   in if crc \<noteq> expected then Inl (NCL_DRV_ERR_TRANSPORT 2)
                      else Inr (take (len - 3) (drop 1 bs), len)))"

definition ncl_modbus_rtu_reply_size :: "u8 list option \<Rightarrow> ncl_err + nat" where
  "ncl_modbus_rtu_reply_size head =
     (case head of None \<Rightarrow> Inl NCL_ERR_INVALID_ARG
      | Some bs \<Rightarrow>
          if length bs < 2 then Inl NCL_ERR_INVALID_ARG
          else (let function = bs ! 1
                in if function AND 0x80 \<noteq> 0 then Inr 5
                   else if function \<in> {NCL_MB_FC_READ_COILS, NCL_MB_FC_READ_DISCRETE, NCL_MB_FC_READ_HOLDING, NCL_MB_FC_READ_INPUT}
                   then (if length bs < 3 then Inl NCL_ERR_RANGE else Inr (unat (bs ! 2) + 5))
                   else if function \<in> {NCL_MB_FC_WRITE_COIL, NCL_MB_FC_WRITE_REGISTER, NCL_MB_FC_WRITE_COILS,
                                        NCL_MB_FC_WRITE_REGISTERS}
                   then Inr 8
                   else Inl (NCL_DRV_ERR_PROTOCOL 9)))"

end
