(* ===== verification/Modbus_Props.thy ===== *)
theory Modbus_Props
  imports Modbus
begin

text \<open>
  Properties of the Modbus byte level: the CRC as a linear injective register, frames and
  replies, byte orders and element values.
\<close>

section \<open>The CRC register\<close>

lemma xor_cancel: "(x :: 'a :: len word) XOR a = y XOR a \<longleftrightarrow> x = y"
  by (metis xor.assoc xor.right_neutral xor_self_eq)

lemma xor_shuffle: "(s XOR a) XOR b = (s XOR c) XOR d \<Longrightarrow> a XOR c = b XOR d"
  for s :: "'a :: len word"
proof (rule bit_word_eqI)
  fix n
  assume "(s XOR a) XOR b = (s XOR c) XOR d"
  then have "bit ((s XOR a) XOR b) n = bit ((s XOR c) XOR d) n" by simp
  then show "bit (a XOR c) n = bit (b XOR d) n" by (auto simp: bit_xor_iff)
qed

lemma crc_shift_bit: "crc_shift x = drop_bit 1 x XOR (if bit x 0 then 0xA001 else 0)"
proof -
  have "x AND 1 \<noteq> 0 \<longleftrightarrow> bit x 0" by (auto simp: and_one_eq bit_0 odd_iff_mod_2_eq_one)
  then show ?thesis by (simp add: crc_shift_def)
qed

lemma crc_shift_xor: "crc_shift (x XOR y) = crc_shift x XOR crc_shift y"
  by (rule bit_word_eqI) (auto simp: crc_shift_bit bit_xor_iff bit_drop_bit_eq)

lemma crc_shift_top: "bit (crc_shift x) 15 \<longleftrightarrow> bit x 0"
  using bit_imp_le_length [of x 16] by (auto simp: crc_shift_bit bit_xor_iff bit_drop_bit_eq)

lemma crc_shift_inj: "crc_shift x = crc_shift y \<Longrightarrow> x = y"
proof -
  assume eq: "crc_shift x = crc_shift y"
  then have low: "bit x 0 \<longleftrightarrow> bit y 0" using crc_shift_top [of x] crc_shift_top [of y] by simp
  with eq have "drop_bit 1 x = drop_bit 1 y" by (simp add: crc_shift_bit xor_cancel)
  then have "bit x (Suc n) \<longleftrightarrow> bit y (Suc n)" for n using bit_drop_bit_eq [of 1 x] bit_drop_bit_eq [of 1 y]
    by (metis comp_apply plus_1_eq_Suc)
  with low have "bit x n \<longleftrightarrow> bit y n" for n by (cases n) simp_all
  then show ?thesis by (simp add: bit_eq_iff)
qed

lemma crc_shifts_xor: "(crc_shift ^^ n) (x XOR y) = (crc_shift ^^ n) x XOR (crc_shift ^^ n) y"
  by (induction n) (simp_all add: crc_shift_xor)

lemma crc_shifts_inj: "(crc_shift ^^ n) x = (crc_shift ^^ n) y \<Longrightarrow> x = y"
  by (induction n) (auto dest: crc_shift_inj)

lemma crc_byte_shift: "crc_byte c b = (crc_shift ^^ 8) c XOR (crc_shift ^^ 8) (ucast b)"
  by (simp add: crc_byte_def crc_shifts_xor)

lemma crc_byte_inj: "crc_byte c b = crc_byte d b \<Longrightarrow> c = d"
  using crc_shifts_inj [of 8 "c XOR ucast b" "d XOR ucast b"] by (simp add: crc_byte_def xor_cancel)

lemma foldl_crc_inj: "foldl crc_byte c bs = foldl crc_byte d bs \<Longrightarrow> c = d"
  by (induction bs arbitrary: c d) (auto dest: crc_byte_inj)

text \<open>Eight shifts move a high byte down, so none but 0 takes a low byte to a low byte.\<close>

lemma crc_shifts_drop: "(\<And>i. i < n \<Longrightarrow> \<not> bit x i) \<Longrightarrow> (crc_shift ^^ n) x = drop_bit n x"
proof (induction n)
  case (Suc n)
  then have "(crc_shift ^^ n) x = drop_bit n x" by simp
  moreover have "\<not> bit (drop_bit n x) 0" using Suc.prems [of n] by (simp add: bit_drop_bit_eq)
  moreover have "crc_shift (drop_bit n x) = drop_bit 1 (drop_bit n x)" if "\<not> bit (drop_bit n x) 0"
    using that by (subst crc_shift_bit) simp
  ultimately show ?case by (simp add: add.commute)
qed simp

lemma crc_high: "(crc_shift ^^ 8) (push_bit 8 (ucast (h :: u8))) = ucast h"
proof -
  have "(crc_shift ^^ 8) (push_bit 8 (ucast h)) = drop_bit 8 (push_bit 8 (ucast h :: u16))"
    by (rule crc_shifts_drop) (simp add: bit_push_bit_iff)
  also have "\<dots> = ucast h"
    by (rule bit_word_eqI) (auto simp: bit_simps dest: bit_imp_le_length)
  finally show ?thesis .
qed

lemma crc_low:
  assumes "(crc_shift ^^ 8) (ucast (e :: u8)) = ucast (w :: u8)"
  shows "e = 0 \<and> w = 0"
proof -
  have eq: "(ucast e :: u16) = push_bit 8 (ucast w)"
    by (rule crc_shifts_inj [of 8]) (simp only: assms crc_high)
  have "\<not> bit e i" for i
    using arg_cong [OF eq, of "\<lambda>x. bit x i"] by (auto simp: bit_simps dest: bit_imp_le_length)
  moreover have "\<not> bit w i" for i
    using arg_cong [OF eq, of "\<lambda>x. bit x (i + 8)"] by (auto simp: bit_simps dest: bit_imp_le_length)
  ultimately show ?thesis by (auto intro: bit_eqI)
qed

lemma crc_two_bytes:
  assumes "crc_byte (crc_byte s a) b = crc_byte (crc_byte s c) d"
  shows "a = c \<and> b = d"
proof -
  let ?f = "crc_shift ^^ 8"
  have "?f (s XOR ucast a) XOR ucast b = ?f (s XOR ucast c) XOR ucast d"
    using crc_shifts_inj [OF assms [unfolded crc_byte_def]] by simp
  then have "(?f s XOR ?f (ucast a)) XOR ucast b = (?f s XOR ?f (ucast c)) XOR ucast d"
    by (simp only: crc_shifts_xor)
  then have "?f (ucast a) XOR ?f (ucast c) = ucast b XOR ucast d" by (rule xor_shuffle)
  then have "?f (ucast (a XOR c)) = ucast (b XOR d)"
    by (simp add: crc_shifts_xor unsigned_xor_eq)
  then have "a XOR c = 0" "b XOR d = 0" using crc_low by blast+
  then show ?thesis by (metis xor_cancel xor_self_eq)
qed

text \<open>A frame is accepted exactly when the CRC over all of it, its own included, is 0.\<close>

lemma crc_residue:
  "crc_byte (crc_byte s lo) hi = 0 \<longleftrightarrow> s = u16_join hi lo"
proof -
  have zero: "crc_byte (crc_byte (u16_join hi lo) lo) hi = 0"
  proof -
    have "u16_join hi lo XOR ucast lo = push_bit 8 (ucast hi)"
      by (rule bit_word_eqI) (auto simp: u16_join_def bit_simps dest: bit_imp_le_length)
    then show ?thesis using crc_shifts_drop [of 8 0] by (simp add: crc_byte_def crc_high)
  qed
  show ?thesis
  proof
    assume "crc_byte (crc_byte s lo) hi = 0"
    with zero show "s = u16_join hi lo" using crc_byte_inj by metis
  qed (use zero in simp)
qed

section \<open>TCP frames\<close>

text \<open>A request framed for TCP is found again whatever follows it, with the length of its frame; a reply
  to another transaction is refused; and no proper prefix of the frame is taken for one.\<close>

theorem tcp_frame_split:
  assumes "ncl_modbus_tcp_frame cap t u (Some pdu) = Some fr" and "pdu \<noteq> []"
  shows "ncl_modbus_tcp_split (Some (fr @ rest)) want
      = (if want \<noteq> 0xFFFF \<and> want \<noteq> t then Inl (NCL_DRV_ERR_PROTOCOL 7) else Inr (pdu, length fr))
    \<and> (k < length fr \<longrightarrow> ncl_modbus_tcp_split (Some (take k fr)) want = Inl (if k < 8 then NCL_ERR_PARSE else NCL_ERR_RANGE))"
proof -
  define m where "m = (of_nat (length pdu + 1) :: u16)"
  have n: "length pdu \<le> 253" "length fr \<le> cap"
    and fr: "fr = u16_bytes t @ [0x00, 0x00] @ u16_bytes m @ [u] @ pdu"
    using assms(1) by (auto simp: ncl_modbus_tcp_frame_def m_def split: if_splits)
  have len: "length fr = length pdu + 7" by (simp add: fr)
  have sz: "unat m = length pdu + 1" using n unfolding m_def by (simp only: unat_of_nat) simp
  let ?h = "u16_bytes t @ [0x00, 0x00] @ u16_bytes m"
  have "fr @ rest = ?h @ u # pdu @ rest" by (simp only: fr append.simps append_assoc)
  moreover have "take k fr = ?h @ take (k - 6) (u # pdu)" if "8 \<le> k"
    using that unfolding fr by (simp add: take_Cons' numeral_eq_Suc)
  moreover have "(?h @ ys) ! 2 = 0 \<and> (?h @ ys) ! 3 = 0 \<and> u16_join ((?h @ ys) ! 4) ((?h @ ys) ! 5) = m
      \<and> u16_join ((?h @ ys) ! 0) ((?h @ ys) ! 1) = t" for ys
    by (simp add: u16_bytes_def)
  ultimately have head: "xs ! 2 = 0 \<and> xs ! 3 = 0 \<and> u16_join (xs ! 4) (xs ! 5) = m \<and> u16_join (xs ! 0) (xs ! 1) = t"
    if "xs = fr @ rest \<or> xs = take k fr \<and> 8 \<le> k" for xs
    using that by (elim disjE conjE) (simp_all only:)
  have pos: "0 < length pdu" using assms(2) by simp
  show ?thesis
  proof (intro conjI impI)
    show "ncl_modbus_tcp_split (Some (fr @ rest)) want
      = (if want \<noteq> 0xFFFF \<and> want \<noteq> t then Inl (NCL_DRV_ERR_PROTOCOL 7) else Inr (pdu, length fr))"
      using head [of "fr @ rest"] n pos len sz by (simp add: ncl_modbus_tcp_split_def Let_def) (simp add: fr)
    assume k: "k < length fr"
    show "ncl_modbus_tcp_split (Some (take k fr)) want = Inl (if k < 8 then NCL_ERR_PARSE else NCL_ERR_RANGE)"
    proof (cases "k < 8")
      case True
      then have "length (take k fr) < 8" by simp
      with True show ?thesis by (simp add: ncl_modbus_tcp_split_def)
    next
      case False
      then show ?thesis using head [of "take k fr"] n pos len k
        sz by (simp add: ncl_modbus_tcp_split_def Let_def)
    qed
  qed
qed

theorem tcp_frame_split_witness:
  "ncl_modbus_tcp_split (Some ([0, 7, 0, 0, 0, 6, 1, 3, 0, 0, 0, 2] @ [9])) 7 = Inr ([3, 0, 0, 0, 2], 12)"
proof -
  have f: "ncl_modbus_tcp_frame 260 7 1 (Some [3, 0, 0, 0, 2]) = Some [0, 7, 0, 0, 0, 6, 1, 3, 0, 0, 0, 2]"
    by (simp add: ncl_modbus_tcp_frame_def u16_bytes_def)
  from tcp_frame_split [OF f, of "[9]" 7 0] show ?thesis by simp
qed

section \<open>RTU frames\<close>

definition crc_of :: "u8 list \<Rightarrow> u16" where
  "crc_of bs = foldl crc_byte 0xFFFF bs"

lemma two_last:
  assumes "2 \<le> length bs"
  shows "bs = take (length bs - 2) bs @ [bs ! (length bs - 2), bs ! (length bs - 1)]"
proof -
  have "drop (length bs - 2) bs = [bs ! (length bs - 2), bs ! (length bs - 1)]"
    using assms by (intro nth_equalityI) (auto simp: less_2_cases_iff)
  then show ?thesis by (metis append_take_drop_id)
qed

lemma rtu_split_residue:
  assumes "4 \<le> length bs"
  shows "ncl_modbus_rtu_split (Some bs) u
    = (if bs ! 0 \<noteq> u then Inl (NCL_DRV_ERR_PROTOCOL 8)
       else if crc_of bs \<noteq> 0 then Inl (NCL_DRV_ERR_TRANSPORT 2)
       else Inr (take (length bs - 3) (drop 1 bs), length bs))"
proof -
  let ?pre = "take (length bs - 2) bs"
  have "crc_of bs = crc_byte (crc_byte (crc_of ?pre) (bs ! (length bs - 2))) (bs ! (length bs - 1))"
    by (subst two_last) (use assms in \<open>simp_all add: crc_of_def\<close>)
  then have "crc_of bs = 0 \<longleftrightarrow> crc_of ?pre = u16_join (bs ! (length bs - 1)) (bs ! (length bs - 2))"
    by (simp add: crc_residue)
  with assms show ?thesis by (simp add: ncl_modbus_rtu_split_def Let_def ncl_modbus_crc16_def crc_of_def)
qed

lemma u16_halves: "u16_join (ucast (drop_bit 8 v)) (ucast (v AND 0xFF)) = v"
proof -
  have m: "(0xFF :: u16) = mask 8" by (simp add: mask_eq_exp_minus_1)
  show ?thesis unfolding m by (rule bit_word_eqI) (auto simp: u16_join_def bit_simps dest: bit_imp_le_length)
qed

lemma rtu_frame_valid:
  assumes "ncl_modbus_rtu_frame cap u (Some pdu) = Some fr"
  shows "crc_of fr = 0 \<and> (\<exists>c. fr = u # pdu @ c \<and> length c = 2)"
proof -
  let ?crc = "crc_of (u # pdu)"
  let ?c = "[ucast (?crc AND 0xFF), ucast (drop_bit 8 ?crc)]"
  have fr: "fr = (u # pdu) @ ?c"
    using assms by (auto simp: ncl_modbus_rtu_frame_def Let_def ncl_modbus_crc16_def crc_of_def split: if_splits)
  have "crc_of fr = crc_byte (crc_byte ?crc (ucast (?crc AND 0xFF))) (ucast (drop_bit 8 ?crc))"
    unfolding fr by (simp only: crc_of_def foldl_append foldl.simps)
  then have "crc_of fr = 0" by (simp only: crc_residue u16_halves)
  moreover have "\<exists>c. fr = u # pdu @ c \<and> length c = 2" by (rule exI [of _ ?c]) (simp add: fr)
  ultimately show ?thesis by blast
qed

lemma rtu_split_of_frame:
  assumes "ncl_modbus_rtu_frame cap u (Some pdu) = Some fr" and "pdu \<noteq> []"
  shows "ncl_modbus_rtu_split (Some fr) w = (if w = u then Inr (pdu, length fr) else Inl (NCL_DRV_ERR_PROTOCOL 8))"
proof -
  obtain c where c: "crc_of fr = 0" "fr = u # pdu @ c" "length c = 2" using rtu_frame_valid [OF assms(1)] by blast
  have "4 \<le> length fr" using assms(2) c by (cases pdu) simp_all
  moreover have "fr ! 0 = u" "take (length fr - 3) (drop 1 fr) = pdu" by (simp_all add: c)
  ultimately show ?thesis using c(1) by (simp add: rtu_split_residue)
qed

text \<open>C39. A frame built for the serial line carries its request: split by the unit it was built for it gives
  back the request and its own length, and another unit refuses it.\<close>

theorem rtu_frame_split:
  assumes "ncl_modbus_rtu_frame cap u (Some pdu) = Some fr" and "pdu \<noteq> []"
  shows "ncl_modbus_rtu_split (Some fr) w
    = (if w = u then Inr (pdu, length fr) else Inl (NCL_DRV_ERR_PROTOCOL 8))"
  by (rule rtu_split_of_frame [OF assms])

theorem rtu_frame_split_witness:
  "\<exists>fr. ncl_modbus_rtu_frame 8 1 (Some [3, 0, 0, 0, 2]) = Some fr \<and> ncl_modbus_rtu_split (Some fr) 1 = Inr ([3, 0, 0, 0, 2], length fr)"
proof -
  obtain fr where f: "ncl_modbus_rtu_frame 8 1 (Some [3, 0, 0, 0, 2]) = Some fr"
    by (simp add: ncl_modbus_rtu_frame_def Let_def)
  with rtu_frame_split [OF f] show ?thesis by simp
qed

text \<open>C40. Corruption on the line is noticed: a frame that was accepted and then has any one byte, or any two
  adjacent bytes, changed is refused, wherever they are, the checksum's own bytes included.\<close>

theorem rtu_corruption_detected:
  assumes "ncl_modbus_rtu_split (Some (pre @ [a, b] @ post)) u = Inr r" and "(a, b) \<noteq> (c, d)"
  shows "ncl_modbus_rtu_split (Some (pre @ [c, d] @ post)) u
    \<in> {Inl (NCL_DRV_ERR_PROTOCOL 8), Inl (NCL_DRV_ERR_TRANSPORT 2)}"
proof -
  have len: "4 \<le> length (pre @ [a, b] @ post)"
    by (rule ccontr) (use assms(1) in \<open>simp add: ncl_modbus_rtu_split_def\<close>)
  then have "crc_of (pre @ [a, b] @ post) = 0" using assms(1) by (simp add: rtu_split_residue split: if_splits)
  have "crc_of (pre @ [c, d] @ post) \<noteq> 0"
  proof
    assume "crc_of (pre @ [c, d] @ post) = 0"
    then have "foldl crc_byte (crc_byte (crc_byte (crc_of pre) a) b) post = foldl crc_byte (crc_byte (crc_byte (crc_of pre) c) d) post"
      using \<open>crc_of (pre @ [a, b] @ post) = 0\<close> by (simp add: crc_of_def)
    then show False using foldl_crc_inj crc_two_bytes assms(2) by blast
  qed
  with len show ?thesis by (simp add: rtu_split_residue)
qed

theorem rtu_corruption_detected_witness:
  "\<exists>crc. ncl_modbus_rtu_split (Some ([1, 3] @ [0, 0] @ [0, 2] @ crc)) 1 = Inr ([3, 0, 0, 0, 2], 8)
    \<and> ncl_modbus_rtu_split (Some ([1, 3] @ [0, 9] @ [0, 2] @ crc)) 1
        \<in> {Inl (NCL_DRV_ERR_PROTOCOL 8), Inl (NCL_DRV_ERR_TRANSPORT 2)}"
proof -
  obtain fr where f: "ncl_modbus_rtu_frame 8 1 (Some [3, 0, 0, 0, 2]) = Some fr"
    by (simp add: ncl_modbus_rtu_frame_def Let_def)
  obtain c where c: "fr = 1 # [3, 0, 0, 0, 2] @ c" "length c = 2" using rtu_frame_valid [OF f] by blast
  have "ncl_modbus_rtu_split (Some ([1, 3] @ [0, 0] @ [0, 2] @ c)) 1 = Inr ([3, 0, 0, 0, 2], 8)"
    using rtu_split_of_frame [OF f, of 1] unfolding c(1) by (simp add: c(2) del: One_nat_def)
  from this rtu_corruption_detected [OF this, of 0 9] show ?thesis by (intro exI [of _ c] conjI) (assumption, simp)
qed

section \<open>Byte orders and element values\<close>

lemma length_swap_bytes [simp]: "length (swap_bytes bs) = length bs"
  by (induction bs rule: swap_bytes.induct) simp_all

lemma length_swap_words [simp]: "length (swap_words bs) = length bs"
  by (induction bs rule: swap_words.induct) simp_all

lemma length_order_apply [simp]: "length (order_apply order bs) = length bs"
  by (simp add: order_apply_def Let_def)

lemma swap_bytes_twice [simp]: "swap_bytes (swap_bytes bs) = bs"
  by (induction bs rule: swap_bytes.induct) simp_all

lemma swap_words_twice [simp]: "swap_words (swap_words bs) = bs"
  by (induction bs rule: swap_words.induct) simp_all

lemma swaps_commute: "swap_words (swap_bytes bs) = swap_bytes (swap_words bs)"
  by (induction bs rule: swap_words.induct) simp_all

lemma order_apply_twice [simp]: "order_apply order (order_apply order bs) = bs"
  by (cases order) (simp_all add: order_apply_def swaps_commute)

lemma u64_join_bytes [simp]: "u64_join (u64_bytes v) = v"
proof (rule bit_word_eqI)
  fix n :: nat
  assume "n < LENGTH(64)"
  moreover have "bit (u64_join (u64_bytes v)) n \<longleftrightarrow> bit v n" if "n < 64" for n
  proof -
    consider "n < 8" | "8 \<le> n \<and> n < 16" | "16 \<le> n \<and> n < 24" | "24 \<le> n \<and> n < 32" | "32 \<le> n \<and> n < 40"
      | "40 \<le> n \<and> n < 48" | "48 \<le> n \<and> n < 56" | "56 \<le> n" by linarith
    then show ?thesis using that unfolding u64_join_def u64_bytes_def by cases (auto simp: bit_simps)
  qed
  ultimately show "bit (u64_join (u64_bytes v)) n \<longleftrightarrow> bit v n" by simp
qed

lemma sign_extend_bit: "sign_extend v bits = (if bit v (bits - 1) then v OR NOT (mask bits) else v)"
  by (simp add: sign_extend_def push_bit_of_1 and_exp_eq_0_iff_not_bit mask_eq_exp_minus_1)

lemma sign_extend_scast16: "sign_extend (ucast (x :: u16)) 16 = scast x"
proof (rule bit_word_eqI)
  fix n :: nat
  show "bit (sign_extend (ucast x) 16) n \<longleftrightarrow> bit (scast x :: u64) n" if "n < LENGTH(64)"
    using that bit_imp_le_length [of x n]
    by (cases "n < 15"; cases "n = 15") (auto simp: sign_extend_bit bit_simps)
qed

lemma sign_extend_scast32: "sign_extend (ucast (x :: u32)) 32 = scast x"
proof (rule bit_word_eqI)
  fix n :: nat
  show "bit (sign_extend (ucast x) 32) n \<longleftrightarrow> bit (scast x :: u64) n" if "n < LENGTH(64)"
    using that bit_imp_le_length [of x n]
    by (cases "n < 31"; cases "n = 31") (auto simp: sign_extend_bit bit_simps)
qed

text \<open>What an element reads back as: the low byte, the signed value of the low 16 or 32 bits, the double.\<close>

fun element_value :: "(u64 \<Rightarrow> u32) \<Rightarrow> (u32 \<Rightarrow> u64) \<Rightarrow> json_view \<Rightarrow> ncl_dtype \<Rightarrow> mb_json" where
  "element_value narrow widen v NCL_DTYPE_BYTE = MB_INT (ucast (ucast (the (jv_int v)) :: u8))"
| "element_value narrow widen v NCL_DTYPE_INT16 = MB_INT (scast (ucast (the (jv_int v)) :: u16))"
| "element_value narrow widen v NCL_DTYPE_INT32 = MB_INT (scast (ucast (the (jv_int v)) :: u32))"
| "element_value narrow widen v NCL_DTYPE_FLOAT32 = MB_DOUBLE (widen (narrow (the (jv_double v))))"
| "element_value narrow widen v _ = MB_DOUBLE (the (jv_double v))"

lemma u16_bytes_join: "u16_join (u16_bytes v ! 0) (u16_bytes v ! Suc 0) = v" "ucast (u16_bytes (ucast n) ! Suc 0) = (ucast (ucast (n :: u64) :: u8) :: u64)"
  by (simp_all add: u16_bytes_def) (rule bit_word_eqI, auto simp: bit_simps)

lemma u32_bytes_join: "u32_join (u32_bytes v ! 0) (u32_bytes v ! Suc 0) (u32_bytes v ! 2) (u32_bytes v ! 3) = v"
  by (simp add: u32_bytes_def)

lemma length_u64_bytes [simp]: "length (u64_bytes v) = 8"
  by (simp add: u64_bytes_def)

text \<open>In every byte order, what is written for a number is read back at the same place as that number cut to
  the width of its type, with its sign; nothing is written for a value that is not a number.\<close>

theorem element_write_read:
  assumes "ncl_modbus_encode narrow (Some v) dtype tc order cap = Inr bs" and "dtype \<noteq> NCL_DTYPE_STRING"
  shows "length bs = 2 * ncl_modbus_registers_per_element dtype \<and> length bs \<le> cap
    \<and> ncl_modbus_decode True widen (Some (pre @ bs @ post)) (length pre) dtype tc2 order
        = Inr (element_value narrow widen v dtype)"
proof -
  have at: "take (length bs) (drop (length pre) (pre @ bs @ post)) = bs" by simp
  show ?thesis
    using assms at
    by (cases dtype) (auto simp: ncl_modbus_encode_def ncl_modbus_decode_def Let_def u16_bytes_join u32_bytes_join
        sign_extend_scast16 sign_extend_scast32 split: option.splits if_splits)
qed

theorem element_write_read_witness:
  "ncl_modbus_decode True ucast (Some ([9] @ [0x00, 0x00, 0xFF, 0xFE] @ [])) 1 NCL_DTYPE_INT16 0 NCL_MB_ORDER_ABCD = Inr (MB_INT 0)
   \<and> (\<exists>bs. ncl_modbus_encode ucast (Some \<lparr>jv_int = Some (- 2), jv_double = None, jv_string = None\<rparr>)
            NCL_DTYPE_INT32 0 NCL_MB_ORDER_CDAB 4 = Inr bs
          \<and> ncl_modbus_decode True ucast (Some ([9] @ bs @ [7])) 1 NCL_DTYPE_INT32 0 NCL_MB_ORDER_CDAB = Inr (MB_INT (- 2)))"
proof -
  let ?v = "\<lparr>jv_int = Some (- 2), jv_double = None, jv_string = None\<rparr>"
  obtain bs where e: "ncl_modbus_encode ucast (Some ?v) NCL_DTYPE_INT32 0 NCL_MB_ORDER_CDAB 4 = Inr bs"
    by (simp add: ncl_modbus_encode_def)
  have "scast (ucast (- 2 :: u64) :: u32) = (- 2 :: u64)" by code_simp
  with e element_write_read [OF e, of ucast "[9]" "[7]" 0] have "\<exists>bs. ncl_modbus_encode ucast (Some ?v)
            NCL_DTYPE_INT32 0 NCL_MB_ORDER_CDAB 4 = Inr bs
          \<and> ncl_modbus_decode True ucast (Some ([9] @ bs @ [7])) 1 NCL_DTYPE_INT32 0 NCL_MB_ORDER_CDAB = Inr (MB_INT (- 2))"
    by simp
  moreover have "ncl_modbus_decode True ucast (Some ([9] @ [0x00, 0x00, 0xFF, 0xFE] @ [])) 1 NCL_DTYPE_INT16 0 NCL_MB_ORDER_ABCD
      = Inr (MB_INT 0)" by code_simp
  ultimately show ?thesis by simp
qed

section \<open>Text fields\<close>

text \<open>A text written to a field of \<open>n\<close> characters reads back as its first \<open>n\<close> characters, padded with
  blanks to the field's width: the zeros behind a short text do not end it, they become blanks.\<close>

theorem text_write_read:
  assumes "ncl_modbus_encode narrow (Some v) NCL_DTYPE_STRING n order cap = Inr bs" and "jv_string v = Some text"
    and "0 \<notin> set text" and "n \<le> 255"
  shows "length bs = n \<and> ncl_modbus_decode True widen (Some (pre @ bs @ post)) (length pre) NCL_DTYPE_STRING n order
    = Inr (MB_STRING (take n text @ replicate (n - length text) 0x20))"
proof -
  let ?f = "text_field text n"
  have len: "length ?f = n" by (simp add: text_field_def)
  have blank: "map (\<lambda>b. if b = 0 then 0x20 else b) ?f = take n text @ replicate (n - length text) 0x20"
  proof -
    have "map (\<lambda>b. if b = 0 then 0x20 else b) (take n text) = take n text"
      using assms(3) by (intro map_idI) (auto dest: in_set_takeD)
    then show ?thesis by (simp add: text_field_def)
  qed
  have bs: "bs = (if order = NCL_MB_ORDER_BADC then order_apply NCL_MB_ORDER_BADC ?f else ?f)"
    and order: "order = NCL_MB_ORDER_ABCD \<or> order = NCL_MB_ORDER_BADC"
    using assms(1,2) by (cases order; auto simp: ncl_modbus_encode_def split: if_splits)+
  have at: "take n (drop (length pre) (pre @ bs @ post)) = bs" using len by (simp add: bs)
  show ?thesis
    using order assms(4) at len blank by (elim disjE) (simp_all add: ncl_modbus_decode_def Let_def bs)
qed

theorem text_write_read_witness:
  "\<exists>bs. ncl_modbus_encode ucast (Some \<lparr>jv_int = None, jv_double = None, jv_string = Some [0x61, 0x62]\<rparr>)
        NCL_DTYPE_STRING 4 NCL_MB_ORDER_BADC 8 = Inr bs
    \<and> ncl_modbus_decode True ucast (Some ([] @ bs @ [])) (length ([] :: u8 list)) NCL_DTYPE_STRING 4 NCL_MB_ORDER_BADC
        = Inr (MB_STRING [0x61, 0x62, 0x20, 0x20])"
proof -
  let ?v = "\<lparr>jv_int = None, jv_double = None, jv_string = Some [0x61, 0x62]\<rparr>"
  obtain bs where e: "ncl_modbus_encode ucast (Some ?v) NCL_DTYPE_STRING 4 NCL_MB_ORDER_BADC 8 = Inr bs"
    by (simp add: ncl_modbus_encode_def)
  have two: "replicate 2 (0x20 :: u8) = [0x20, 0x20]" by (simp add: numeral_2_eq_2)
  from text_write_read [OF e, of "[0x61, 0x62]" ucast "[]" "[]"]
  have "ncl_modbus_decode True ucast (Some ([] @ bs @ [])) (length ([] :: u8 list)) NCL_DTYPE_STRING 4 NCL_MB_ORDER_BADC
      = Inr (MB_STRING [0x61, 0x62, 0x20, 0x20])" by (simp add: two)
  with e show ?thesis by blast
qed

section \<open>A reply over the serial line\<close>

text \<open>The reply to a read, whole: from its first three bytes the receiver knows how long the frame is, the
  frame splits into the reply, and the reply is accepted for exactly the asked function and byte count,
  giving the data the device sent.\<close>

theorem read_reply_end_to_end:
  assumes "fc \<in> {NCL_MB_FC_READ_COILS, NCL_MB_FC_READ_DISCRETE, NCL_MB_FC_READ_HOLDING, NCL_MB_FC_READ_INPUT}"
    and "data \<noteq> []" and "length data \<le> 250"
    and "ncl_modbus_rtu_frame cap u (Some (fc # of_nat (length data) # data)) = Some fr"
  shows "ncl_modbus_rtu_reply_size (Some (take 3 fr)) = Inr (length fr)
    \<and> ncl_modbus_rtu_split (Some fr) u = Inr (fc # of_nat (length data) # data, length fr)
    \<and> ncl_modbus_check_read_reply (Some (fc # of_nat (length data) # data)) fc n
        = (if n = length data then Inr data else Inl (NCL_DRV_ERR_PROTOCOL 2))"
proof -
  let ?pdu = "fc # of_nat (length data) # data"
  define m where "m = (of_nat (length data) :: u8)"
  have m: "unat m = length data" using assms(3) unfolding m_def by (simp only: unat_of_nat) simp
  have fc: "fc AND 0x80 = 0" "fc \<noteq> fc OR 0x80" "fc \<in> {1, 2, 3, 4}" using assms(1) by (auto simp: function_codes)
  obtain c where fr: "fr = u # fc # m # data @ c" "length c = 2"
    using rtu_frame_valid [OF assms(4)] unfolding m_def by auto
  have "ncl_modbus_rtu_reply_size (Some (take 3 fr)) = Inr (length fr)"
    using assms(1) fc(1) by (simp add: ncl_modbus_rtu_reply_size_def fr m numeral_3_eq_3)
  moreover have "ncl_modbus_rtu_split (Some fr) u = Inr (?pdu, length fr)"
    using rtu_split_of_frame [OF assms(4), of u] by simp
  moreover have "ncl_modbus_check_read_reply (Some ?pdu) fc n
      = (if n = length data then Inr data else Inl (NCL_DRV_ERR_PROTOCOL 2))"
    using fc(2) assms(2) m unfolding m_def [symmetric]
    by (simp add: ncl_modbus_check_read_reply_def ncl_modbus_check_exception_def Suc_le_eq)
  ultimately show ?thesis by blast
qed

theorem read_reply_end_to_end_witness:
  "\<exists>fr. ncl_modbus_rtu_frame 16 1 (Some (3 # of_nat (length [0, 42 :: u8]) # [0, 42])) = Some fr
    \<and> ncl_modbus_rtu_reply_size (Some (take 3 fr)) = Inr (length fr)
    \<and> ncl_modbus_rtu_split (Some fr) 1 = Inr (3 # of_nat (length [0, 42 :: u8]) # [0, 42], length fr)
    \<and> ncl_modbus_check_read_reply (Some (3 # of_nat (length [0, 42 :: u8]) # [0, 42])) 3 2 = Inr [0, 42]"
proof -
  obtain fr where f: "ncl_modbus_rtu_frame 16 1 (Some (3 # of_nat (length [0, 42 :: u8]) # [0, 42])) = Some fr"
    by (simp add: ncl_modbus_rtu_frame_def Let_def)
  from read_reply_end_to_end [OF _ _ _ f, of 2] f show ?thesis by (simp add: function_codes)
qed

end
