(* ===== verification/Sha256.thy ===== *)
theory Sha256
  imports Common
begin

text \<open>
  \<^verbatim>\<open>stack/src/file/sha256.c\<close>: the checksum of the file transfer, its block function, the
  streaming context and the hex digest. \<open>sc_buffer\<close> are the first \<open>buffer_len\<close> bytes of the
  64 byte buffer (what lies behind them is never read).
\<close>

section \<open>The block function\<close>

record sha256_ctx =
  sc_state :: "u32 list"
  sc_bit_count :: u64
  sc_buffer :: "u8 list"

text \<open>The table of the source, written in decimal. The hexadecimal digits, line by line:\<close>

(*
  428a2f98 71374491 b5c0fbcf e9b5dba5
  3956c25b 59f111f1 923f82a4 ab1c5ed5
  d807aa98 12835b01 243185be 550c7dc3
  72be5d74 80deb1fe 9bdc06a7 c19bf174
  e49b69c1 efbe4786 0fc19dc6 240ca1cc
  2de92c6f 4a7484aa 5cb0a9dc 76f988da
  983e5152 a831c66d b00327c8 bf597fc7
  c6e00bf3 d5a79147 06ca6351 14292967
  27b70a85 2e1b2138 4d2c6dfc 53380d13
  650a7354 766a0abb 81c2c92e 92722c85
  a2bfe8a1 a81a664b c24b8b70 c76c51a3
  d192e819 d6990624 f40e3585 106aa070
  19a4c116 1e376c08 2748774c 34b0bcb5
  391c0cb3 4ed8aa4a 5b9cca4f 682e6ff3
  748f82ee 78a5636f 84c87814 8cc70208
  90befffa a4506ceb bef9a3f7 c67178f2
*)

definition k_round :: "u32 list" where
  "k_round =
    [1116352408, 1899447441, 3049323471, 3921009573,
     961987163, 1508970993, 2453635748, 2870763221,
     3624381080, 310598401, 607225278, 1426881987,
     1925078388, 2162078206, 2614888103, 3248222580,
     3835390401, 4022224774, 264347078, 604807628,
     770255983, 1249150122, 1555081692, 1996064986,
     2554220882, 2821834349, 2952996808, 3210313671,
     3336571891, 3584528711, 113926993, 338241895,
     666307205, 773529912, 1294757372, 1396182291,
     1695183700, 1986661051, 2177026350, 2456956037,
     2730485921, 2820302411, 3259730800, 3345764771,
     3516065817, 3600352804, 4094571909, 275423344,
     430227734, 506948616, 659060556, 883997877,
     958139571, 1322822218, 1537002063, 1747873779,
     1955562222, 2024104815, 2227730452, 2361852424,
     2428436474, 2756734187, 3204031479, 3329325298]"

definition ROTR :: "u32 \<Rightarrow> nat \<Rightarrow> u32" where
  "ROTR x n = drop_bit n x OR push_bit (32 - n) x"

definition sha256_init :: sha256_ctx where
  "sha256_init =
     \<lparr>sc_state = [0x6a09e667, 0xbb67ae85, 0x3c6ef372, 0xa54ff53a, 0x510e527f, 0x9b05688c, 0x1f83d9ab, 0x5be0cd19],
      sc_bit_count = 0, sc_buffer = []\<rparr>"

text \<open>The array \<open>w\<close> grows by one word per turn of the second loop.\<close>

definition w_load :: "u8 list \<Rightarrow> nat \<Rightarrow> u32" where
  "w_load block i = u32_join (block ! (i * 4)) (block ! (i * 4 + 1)) (block ! (i * 4 + 2)) (block ! (i * 4 + 3))"

definition w_next :: "nat \<Rightarrow> u32 list \<Rightarrow> u32 list" where
  "w_next i w =
     (let s0 = ROTR (w ! (i - 15)) 7 XOR ROTR (w ! (i - 15)) 18 XOR drop_bit 3 (w ! (i - 15));
          s1 = ROTR (w ! (i - 2)) 17 XOR ROTR (w ! (i - 2)) 19 XOR drop_bit 10 (w ! (i - 2))
      in w @ [w ! (i - 16) + s0 + w ! (i - 7) + s1])"

definition schedule :: "u8 list \<Rightarrow> u32 list" where
  "schedule block = fold w_next [16 ..< 64] (map (w_load block) [0 ..< 16])"

type_synonym vars = "u32 \<times> u32 \<times> u32 \<times> u32 \<times> u32 \<times> u32 \<times> u32 \<times> u32"

fun sha_round :: "u32 \<times> u32 \<Rightarrow> vars \<Rightarrow> vars" where
  "sha_round (k, w) (a, b, c, d, e, f, g, h) =
     (let s1 = ROTR e 6 XOR ROTR e 11 XOR ROTR e 25;
          ch = (e AND f) XOR (NOT e AND g);
          temp1 = h + s1 + ch + k + w;
          s0 = ROTR a 2 XOR ROTR a 13 XOR ROTR a 22;
          maj = (a AND b) XOR (a AND c) XOR (b AND c);
          temp2 = s0 + maj
      in (temp1 + temp2, a, b, c, d + temp1, e, f, g))"

definition sha256_transform :: "u8 list \<Rightarrow> u32 list \<Rightarrow> u32 list" where
  "sha256_transform block st =
     (case fold sha_round (zip k_round (schedule block)) (st ! 0, st ! 1, st ! 2, st ! 3, st ! 4, st ! 5, st ! 6, st ! 7) of
        (a, b, c, d, e, f, g, h) \<Rightarrow>
          [st ! 0 + a, st ! 1 + b, st ! 2 + c, st ! 3 + d, st ! 4 + e, st ! 5 + f, st ! 6 + g, st ! 7 + h])"

section \<open>The context\<close>

text \<open>The loop over whole blocks of the caller's data, and what is left of them.\<close>

function transform_all :: "u32 list \<Rightarrow> u8 list \<Rightarrow> u32 list \<times> u8 list" where
  "transform_all st data =
     (if 64 \<le> length data then transform_all (sha256_transform (take 64 data) st) (drop 64 data) else (st, data))"
  by pat_completeness auto
termination
  by (relation "measure (\<lambda>(st, data). length data)") auto

declare transform_all.simps [simp del]

definition sha256_update :: "sha256_ctx \<Rightarrow> u8 list \<Rightarrow> sha256_ctx" where
  "sha256_update ctx data =
     (let ctx = ctx\<lparr>sc_bit_count := sc_bit_count ctx + of_nat (length data) * 8\<rparr>;
          (ctx, data) =
            (if length (sc_buffer ctx) > 0
             then (let want = 64 - length (sc_buffer ctx);
                       n = (if length data < want then length data else want);
                       buffer = sc_buffer ctx @ take n data
                   in if length buffer = 64
                      then (ctx\<lparr>sc_state := sha256_transform buffer (sc_state ctx), sc_buffer := []\<rparr>, drop n data)
                      else (ctx\<lparr>sc_buffer := buffer\<rparr>, drop n data))
             else (ctx, data))
      in case transform_all (sc_state ctx) data of
          (st, rest) \<Rightarrow> (if rest \<noteq> [] then ctx\<lparr>sc_state := st, sc_buffer := rest\<rparr> else ctx\<lparr>sc_state := st\<rparr>))"

definition sha256_pad :: "sha256_ctx \<Rightarrow> u8 list" where
  "sha256_pad ctx =
     (let pad_len = (if length (sc_buffer ctx) < 56 then 56 - length (sc_buffer ctx) else 120 - length (sc_buffer ctx))
      in 0x80 # replicate (pad_len - 1) 0 @ map (\<lambda>i. ucast (drop_bit (56 - 8 * i) (sc_bit_count ctx))) [0, 1, 2, 3, 4, 5, 6, 7])"

definition sha256_final :: "sha256_ctx \<Rightarrow> u8 list" where
  "sha256_final ctx = concat (map u32_bytes (sc_state (sha256_update ctx (sha256_pad ctx))))"

definition hex_digits_lower :: string where
  "hex_digits_lower = ''0123456789abcdef''"

definition sha256_hex_of :: "u8 list \<Rightarrow> string" where
  "sha256_hex_of digest =
     concat (map (\<lambda>b. [hex_digits_lower ! unat (drop_bit 4 b), hex_digits_lower ! unat (b AND 0x0F)]) digest)"

text \<open>\<open>None\<close> data is NULL with a length above 0.\<close>

definition ncl_sha256_hex :: "grant \<Rightarrow> u8 list option \<Rightarrow> ncl_err + string" where
  "ncl_sha256_hex g data =
     (case data of None \<Rightarrow> Inl NCL_ERR_INVALID_ARG
      | Some bs \<Rightarrow>
          if \<not> g 65 then Inl NCL_ERR_NOMEM
          else (let ctx = sha256_init;
                    ctx = (if length bs > 0 then sha256_update ctx bs else ctx)
                in Inr (sha256_hex_of (sha256_final ctx))))"

definition ncl_sha256_new :: "bool \<Rightarrow> sha256_ctx option" where
  "ncl_sha256_new ok = (if ok then Some sha256_init else None)"

definition ncl_sha256_update :: "sha256_ctx option \<Rightarrow> u8 list option \<Rightarrow> ncl_err \<times> sha256_ctx option" where
  "ncl_sha256_update ctx data =
     (case (ctx, data) of
        (Some c, Some bs) \<Rightarrow> (NCL_OK, Some (if length bs > 0 then sha256_update c bs else c))
      | _ \<Rightarrow> (NCL_ERR_INVALID_ARG, ctx))"

definition ncl_sha256_finish :: "grant \<Rightarrow> sha256_ctx option \<Rightarrow> string option" where
  "ncl_sha256_finish g ctx =
     (case ctx of None \<Rightarrow> None
      | Some c \<Rightarrow> if \<not> g 65 then None else Some (sha256_hex_of (sha256_final c)))"

section \<open>The standard\<close>

text \<open>
  FIPS 180-4: rotation on the word, the message schedule by recursion on \<open>t\<close>, the padded
  message cut into blocks of 64 bytes.
\<close>

definition sigma0 :: "u32 \<Rightarrow> u32" where
  "sigma0 x = word_rotr 7 x XOR word_rotr 18 x XOR drop_bit 3 x"

definition sigma1 :: "u32 \<Rightarrow> u32" where
  "sigma1 x = word_rotr 17 x XOR word_rotr 19 x XOR drop_bit 10 x"

function fips_w :: "u8 list \<Rightarrow> nat \<Rightarrow> u32" where
  "fips_w m t =
     (if t < 16 then u32_join (m ! (4 * t)) (m ! (4 * t + 1)) (m ! (4 * t + 2)) (m ! (4 * t + 3))
      else sigma1 (fips_w m (t - 2)) + fips_w m (t - 7) + sigma0 (fips_w m (t - 15)) + fips_w m (t - 16))"
  by pat_completeness auto
termination
  by (relation "measure snd") auto

declare fips_w.simps [simp del]

fun fips_round :: "u8 list \<Rightarrow> nat \<Rightarrow> vars \<Rightarrow> vars" where
  "fips_round m t (a, b, c, d, e, f, g, h) =
     (let t1 = h + (word_rotr 6 e XOR word_rotr 11 e XOR word_rotr 25 e) + ((e AND f) XOR (NOT e AND g)) + k_round ! t + fips_w m t;
          t2 = (word_rotr 2 a XOR word_rotr 13 a XOR word_rotr 22 a) + ((a AND b) XOR (a AND c) XOR (b AND c))
      in (t1 + t2, a, b, c, d + t1, e, f, g))"

definition fips_block :: "u8 list \<Rightarrow> u32 list \<Rightarrow> u32 list" where
  "fips_block m H =
     (case fold (fips_round m) [0 ..< 64] (H ! 0, H ! 1, H ! 2, H ! 3, H ! 4, H ! 5, H ! 6, H ! 7) of
        (a, b, c, d, e, f, g, h) \<Rightarrow> map2 (+) H [a, b, c, d, e, f, g, h])"

definition fips_padded :: "u8 list \<Rightarrow> u8 list" where
  "fips_padded m =
     m @ 0x80 # replicate ((119 - length m mod 64) mod 64) 0
       @ map (\<lambda>i. ucast (drop_bit (56 - 8 * i) (of_nat (8 * length m) :: u64))) [0, 1, 2, 3, 4, 5, 6, 7]"

definition fips_sha256 :: "u8 list \<Rightarrow> u8 list" where
  "fips_sha256 m =
     (let p = fips_padded m
      in concat (map u32_bytes (fold fips_block (map (\<lambda>i. take 64 (drop (64 * i) p)) [0 ..< length p div 64])
           (sc_state sha256_init))))"

end
