(* ===== verification/Sha256_Props.thy ===== *)
theory Sha256_Props
  imports Sha256
begin

text \<open>
  The checksum against FIPS 180-4: the block function computes the standard's, and feeding a
  message in any pieces gives the digest of the whole.
\<close>

section \<open>The block function\<close>

lemma ROTR_rotr: "0 < n \<Longrightarrow> n < 32 \<Longrightarrow> ROTR x n = word_rotr n x"
proof (rule bit_word_eqI)
  fix i :: nat
  assume n: "0 < n" "n < 32" and i: "i < LENGTH(32)"
  show "bit (ROTR x n) i \<longleftrightarrow> bit (word_rotr n x) i"
  proof (cases "i + n < 32")
    case True
    with n i show ?thesis by (auto simp: ROTR_def bit_word_rotr_iff bit_simps ac_simps)
  next
    case False
    then have "(i + n) mod 32 = i + n - 32" using n i by (simp add: mod_if)
    with False n i bit_imp_le_length [of x "n + i"] show ?thesis
      by (auto simp: ROTR_def bit_word_rotr_iff bit_simps ac_simps)
  qed
qed

lemma w_next_fips:
  assumes "16 \<le> i"
  shows "w_next i (map (fips_w m) [0 ..< i]) = map (fips_w m) [0 ..< Suc i]"
proof -
  have "map (fips_w m) [0 ..< i] ! (i - k) = fips_w m (i - k)" if "0 < k" "k \<le> 16" for k
    using assms that by simp
  then show ?thesis
    using assms by (simp add: w_next_def Let_def ROTR_rotr sigma0_def sigma1_def fips_w.simps [of m i] ac_simps)
qed

lemma schedule_prefix:
  "16 \<le> n \<Longrightarrow> fold w_next [16 ..< n] (map (w_load m) [0 ..< 16]) = map (fips_w m) [0 ..< n]"
proof (induction n rule: dec_induct)
  case base
  have "map (w_load m) [0 ..< 16] = map (fips_w m) [0 ..< 16]"
    by (rule map_cong) (simp_all add: w_load_def fips_w.simps mult.commute)
  then show ?case by simp
next
  case (step n)
  then have "fold w_next [16 ..< Suc n] (map (w_load m) [0 ..< 16]) = w_next n (map (fips_w m) [0 ..< n])"
    by simp
  with step w_next_fips show ?case by simp
qed

lemma schedule_fips: "schedule m = map (fips_w m) [0 ..< 64]"
  unfolding schedule_def by (rule schedule_prefix) simp

lemma length_k_round [simp]: "length k_round = 64"
  by (simp add: k_round_def)

lemma sha_round_fips: "sha_round (k_round ! t, fips_w m t) v = fips_round m t v"
  by (cases "(m, t, v)" rule: fips_round.cases) (simp add: Let_def ROTR_rotr)

lemma rounds_fips: "fold sha_round (zip k_round (schedule m)) v = fold (fips_round m) [0 ..< 64] v"
proof -
  have "zip k_round (schedule m) = map (\<lambda>t. (k_round ! t, fips_w m t)) [0 ..< 64]"
    by (rule nth_equalityI) (simp_all add: schedule_fips)
  moreover have "(\<lambda>t. sha_round (k_round ! t, fips_w m t)) = fips_round m"
    by (intro ext) (rule sha_round_fips)
  ultimately show ?thesis by (simp only: fold_map comp_def)
qed

lemma transform_fips: "length st = 8 \<Longrightarrow> sha256_transform m st = fips_block m st"
proof -
  assume "length st = 8"
  then obtain s0 s1 s2 s3 s4 s5 s6 s7 where st: "st = [s0, s1, s2, s3, s4, s5, s6, s7]"
    by (auto simp: length_Suc_conv numeral_eq_Suc)
  show ?thesis
    unfolding sha256_transform_def fips_block_def rounds_fips st
    by (simp split: prod.split)
qed

lemma length_transform [simp]: "length (sha256_transform m st) = 8"
  by (simp add: sha256_transform_def split: prod.split)

lemma length_fips_block [simp]: "length st = 8 \<Longrightarrow> length (fips_block m st) = 8"
  using length_transform [of m st] by (simp add: transform_fips)

section \<open>Whole blocks\<close>

definition blocks64 :: "u8 list \<Rightarrow> u8 list list" where
  "blocks64 p = map (\<lambda>i. take 64 (drop (64 * i) p)) [0 ..< length p div 64]"

lemma blocks64_step: "64 \<le> length p \<Longrightarrow> blocks64 p = take 64 p # blocks64 (drop 64 p)"
proof -
  assume "64 \<le> length p"
  then obtain n where n: "length p div 64 = Suc n" "length (drop 64 p) div 64 = n"
    by (cases "length p div 64") (auto simp: le_div_geq)
  show ?thesis
    unfolding blocks64_def n by (simp add: upt_conv_Cons map_Suc_upt [symmetric] comp_def ac_simps del: upt_Suc)
qed

lemma transform_all_blocks:
  "length st = 8 \<Longrightarrow> transform_all st data = (fold fips_block (blocks64 data) st, drop (64 * (length data div 64)) data)"
proof (induction st data rule: transform_all.induct)
  case (1 st data)
  show ?case
  proof (cases "64 \<le> length data")
    case True
    then have "length data div 64 = Suc ((length data - 64) div 64)" by (simp add: le_div_geq)
    with True 1 show ?thesis
      by (simp add: transform_all.simps [of st data] blocks64_step [OF True] transform_fips ac_simps)
  next
    case False
    then show ?thesis by (simp add: transform_all.simps [of st data] blocks64_def)
  qed
qed

lemma transform_all_append:
  "transform_all st (xs @ ys) = (case transform_all st xs of (st1, r) \<Rightarrow> transform_all st1 (r @ ys))"
proof (induction st xs rule: transform_all.induct)
  case (1 st xs)
  show ?case
  proof (cases "64 \<le> length xs")
    case True
    with 1 show ?thesis by (simp add: transform_all.simps [of st "xs @ ys"] transform_all.simps [of st xs])
  next
    case False
    then show ?thesis by (simp add: transform_all.simps [of st xs])
  qed
qed

lemma transform_all_rest: "transform_all st xs = (st1, r) \<Longrightarrow> length r = length xs mod 64"
proof (induction st xs rule: transform_all.induct)
  case (1 st xs)
  show ?case
  proof (cases "64 \<le> length xs")
    case True
    with 1 show ?thesis by (simp add: transform_all.simps [of st xs] le_mod_geq)
  next
    case False
    with 1 show ?thesis by (simp add: transform_all.simps [of st xs])
  qed
qed

section \<open>The context represents what it was fed\<close>

definition sha_rep :: "sha256_ctx \<Rightarrow> u8 list \<Rightarrow> bool" where
  "sha_rep ctx msg \<longleftrightarrow>
     transform_all (sc_state sha256_init) msg = (sc_state ctx, sc_buffer ctx)
     \<and> sc_bit_count ctx = of_nat (8 * length msg)"

lemma rep_init: "sha_rep sha256_init []"
  by (simp add: sha_rep_def sha256_init_def transform_all.simps)

lemma update_blocks:
  assumes "length (sc_buffer ctx) < 64"
  shows "(sc_state (sha256_update ctx data), sc_buffer (sha256_update ctx data))
      = transform_all (sc_state ctx) (sc_buffer ctx @ data)
    \<and> sc_bit_count (sha256_update ctx data) = sc_bit_count ctx + of_nat (length data) * 8"
proof -
  let ?n = "if length data < 64 - length (sc_buffer ctx) then length data else 64 - length (sc_buffer ctx)"
  consider (empty) "sc_buffer ctx = []" | (part) "sc_buffer ctx \<noteq> []" "length (sc_buffer ctx) + length data < 64"
    | (full) "sc_buffer ctx \<noteq> []" "64 \<le> length (sc_buffer ctx) + length data" by linarith
  then show ?thesis
  proof cases
    case empty
    then show ?thesis by (cases "transform_all (sc_state ctx) data") (auto simp: sha256_update_def Let_def)
  next
    case part
    then have "?n = length data" by auto
    with part show ?thesis by (auto simp: sha256_update_def Let_def transform_all.simps)
  next
    case full
    then have n: "?n = 64 - length (sc_buffer ctx)" using assms by auto
    let ?b = "sc_buffer ctx @ take (64 - length (sc_buffer ctx)) data"
    have b: "length ?b = 64" using full assms by simp
    have "transform_all (sc_state ctx) (sc_buffer ctx @ data)
        = transform_all (sha256_transform ?b (sc_state ctx)) (drop (64 - length (sc_buffer ctx)) data)"
      using full assms by (subst transform_all.simps) simp
    then show ?thesis using full n b
      by (cases "transform_all (sha256_transform ?b (sc_state ctx)) (drop (64 - length (sc_buffer ctx)) data)")
        (auto simp: sha256_update_def Let_def)
  qed
qed

lemma rep_update:
  assumes "sha_rep ctx msg"
  shows "sha_rep (sha256_update ctx data) (msg @ data)"
proof -
  have r: "transform_all (sc_state sha256_init) msg = (sc_state ctx, sc_buffer ctx)"
    and c: "sc_bit_count ctx = of_nat (8 * length msg)" using assms by (simp_all add: sha_rep_def)
  have "length (sc_buffer ctx) < 64" using transform_all_rest [OF r] by simp
  note u = update_blocks [OF this, of data]
  have "transform_all (sc_state sha256_init) (msg @ data) = (sc_state (sha256_update ctx data), sc_buffer (sha256_update ctx data))"
    by (subst transform_all_append) (use r u in simp)
  moreover have "sc_bit_count (sha256_update ctx data) = of_nat (8 * length (msg @ data))"
    using u c by (simp add: algebra_simps)
  ultimately show ?thesis by (simp add: sha_rep_def)
qed

lemma rep_final:
  assumes "sha_rep ctx msg"
  shows "sha256_final ctx = fips_sha256 msg"
proof -
  have r: "transform_all (sc_state sha256_init) msg = (sc_state ctx, sc_buffer ctx)"
    and c: "sc_bit_count ctx = of_nat (8 * length msg)" using assms by (simp_all add: sha_rep_def)
  let ?l = "length (sc_buffer ctx)"
  have l: "?l = length msg mod 64" "?l < 64" using transform_all_rest [OF r] by simp_all
  have "(if ?l < 56 then 56 - ?l else 120 - ?l) - 1 = (119 - ?l) mod 64"
    using l(2) by (cases "?l < 56") (auto simp: mod_if)
  then have pad: "msg @ sha256_pad ctx = fips_padded msg"
    by (simp only: sha256_pad_def fips_padded_def Let_def c l(1))
  have "sha_rep (sha256_update ctx (sha256_pad ctx)) (fips_padded msg)"
    using rep_update [OF assms, of "sha256_pad ctx"] by (simp only: pad)
  then have "sc_state (sha256_update ctx (sha256_pad ctx)) = fold fips_block (blocks64 (fips_padded msg)) (sc_state sha256_init)"
    by (simp add: sha_rep_def transform_all_blocks sha256_init_def)
  then show ?thesis by (simp add: sha256_final_def fips_sha256_def Let_def blocks64_def)
qed

text \<open>The padded message is whole blocks, so nothing of it is left over.\<close>

lemma padded_whole: "length (fips_padded m) mod 64 = 0"
proof -
  have "length (fips_padded m) = length m + 9 + (119 - length m mod 64) mod 64"
    by (simp add: fips_padded_def)
  also have "\<dots> mod 64 = (length m mod 64 + 9 + (119 - length m mod 64) mod 64) mod 64"
    by (simp only: add.assoc mod_add_left_eq)
  also have "\<dots> = 0"
  proof -
    have "(r + 9 + (119 - r) mod 64) mod 64 = 0" if "r < 64" for r :: nat
    proof (cases "r < 56")
      case True
      then have "(119 - r) mod 64 = 55 - r" by (simp add: mod_if)
      with True show ?thesis by simp
    next
      case False
      with that have "(119 - r) mod 64 = 119 - r" by simp
      with that False show ?thesis by (simp add: mod_if)
    qed
    then show ?thesis by simp
  qed
  finally show ?thesis .
qed

lemma stream_rep:
  "sha_rep c msg \<Longrightarrow> \<exists>c2. fold (\<lambda>bs c. snd (ncl_sha256_update c (Some bs))) chunks (Some c) = Some c2 \<and> sha_rep c2 (msg @ concat chunks)"
proof (induction chunks arbitrary: c msg)
  case (Cons bs chunks)
  have "sha_rep (if length bs > 0 then sha256_update c bs else c) (msg @ bs)"
    using rep_update [OF Cons.prems, of bs] Cons.prems by (cases bs) auto
  from Cons.IH [OF this] show ?case by (simp add: ncl_sha256_update_def)
qed simp


end
