(* ===== verification/Ttl_Cache.thy ===== *)
theory Ttl_Cache
  imports Common "HOL-Library.Multiset"
begin

text \<open>
  \<^verbatim>\<open>stack/src/core/thread_pool.c\<close>, second part: the cache with a time to live. Every
  operation holds the cache's mutex from end to end, so it is one atomic function; the
  monotonic clock it reads is an argument. Comparing with a NULL key is undefined in C:
  the result \<open>None\<close> of an operation says that it happens. An operation also returns the values
  given to the destructor, in order.
\<close>

section \<open>The cache\<close>

record 'v cache_entry =
  ce_key :: "string option"
  ce_value :: "'v option"
  ce_expires_at :: int

text \<open>\<open>tc_free\<close>: a destructor is set. The C field \<open>len\<close> is the length of \<open>tc_entries\<close>.\<close>

record 'v ttl_cache =
  tc_entries :: "'v cache_entry list"
  tc_cap :: nat
  tc_ttl_ms :: nat
  tc_expire_after_access :: bool
  tc_free :: bool

definition CACHE_ENTRY_SIZE :: nat where
  "CACHE_ENTRY_SIZE = 24"

definition ncl_cache_entry_release :: "'v ttl_cache \<Rightarrow> 'v cache_entry \<Rightarrow> 'v list" where
  "ncl_cache_entry_release c e =
     (if tc_free c then (case ce_value e of None \<Rightarrow> [] | Some v \<Rightarrow> [v]) else [])"

definition ncl_cache_create :: "bool \<Rightarrow> nat \<Rightarrow> bool \<Rightarrow> bool \<Rightarrow> 'v ttl_cache option" where
  "ncl_cache_create ok ttl_ms expire_after_access free_fn =
     (if ok then Some \<lparr>tc_entries = [], tc_cap = 0, tc_ttl_ms = ttl_ms,
                       tc_expire_after_access = expire_after_access, tc_free = free_fn\<rparr> else None)"

text \<open>\<open>Some None\<close> is the answer \<open>(size_t)-1\<close>.\<close>

fun cache_find_loop :: "'v cache_entry list \<Rightarrow> string \<Rightarrow> nat \<Rightarrow> nat option option" where
  "cache_find_loop [] key i = Some None"
| "cache_find_loop (e # es) key i =
     (case ce_key e of None \<Rightarrow> None
      | Some k \<Rightarrow> if k = key then Some (Some i) else cache_find_loop es key (Suc i))"

definition ncl_cache_find :: "'v ttl_cache \<Rightarrow> string \<Rightarrow> nat option option" where
  "ncl_cache_find c key = cache_find_loop (tc_entries c) key 0"

definition drop_at :: "nat \<Rightarrow> 'a list \<Rightarrow> 'a list" where
  "drop_at i xs = take i xs @ drop (Suc i) xs"

definition ncl_cache_remove_at :: "nat \<Rightarrow> 'v ttl_cache \<Rightarrow> 'v list \<times> 'v ttl_cache" where
  "ncl_cache_remove_at i c =
     (ncl_cache_entry_release c (tc_entries c ! i), c\<lparr>tc_entries := drop_at i (tc_entries c)\<rparr>)"

definition entry_expired :: "int \<Rightarrow> 'v cache_entry \<Rightarrow> bool" where
  "entry_expired now e \<longleftrightarrow> ce_expires_at e \<noteq> 0 \<and> ce_expires_at e \<le> now"

function purge_loop :: "int \<Rightarrow> nat \<Rightarrow> 'v ttl_cache \<Rightarrow> 'v list \<times> 'v ttl_cache" where
  "purge_loop now i c =
     (if i < length (tc_entries c)
      then (if entry_expired now (tc_entries c ! i)
            then (case ncl_cache_remove_at i c of
                (fr, c1) \<Rightarrow> (case purge_loop now i c1 of (fr2, c2) \<Rightarrow> (fr @ fr2, c2)))
            else purge_loop now (Suc i) c)
      else ([], c))"
  by pat_completeness auto
termination
  by (relation "measure (\<lambda>(now, i, c). length (tc_entries c) - i)")
    (auto simp: ncl_cache_remove_at_def drop_at_def)

declare purge_loop.simps [simp del]

definition ncl_cache_purge_expired :: "int \<Rightarrow> 'v ttl_cache \<Rightarrow> 'v list \<times> 'v ttl_cache" where
  "ncl_cache_purge_expired now c = purge_loop now 0 c"

definition ncl_cache_put ::
  "grant \<Rightarrow> int \<Rightarrow> 'v ttl_cache \<Rightarrow> string option \<Rightarrow> 'v option \<Rightarrow> (ncl_err \<times> 'v list \<times> 'v ttl_cache) option" where
  "ncl_cache_put g now c key val =
     (case key of None \<Rightarrow> Some (NCL_ERR_INVALID_ARG, [], c)
      | Some k \<Rightarrow>
        (let expires_at = (if tc_ttl_ms c > 0 then now + int (tc_ttl_ms c) else 0)
         in case ncl_cache_find c k of
              None \<Rightarrow> None
            | Some (Some i) \<Rightarrow>
                Some (NCL_OK, ncl_cache_entry_release c (tc_entries c ! i),
                  c\<lparr>tc_entries := (tc_entries c)[i :=
                      \<lparr>ce_key = ncl_strdup g (Some k), ce_value = val, ce_expires_at = expires_at\<rparr>]\<rparr>)
            | Some None \<Rightarrow>
                (let full = (length (tc_entries c) = tc_cap c);
                     cap = (if tc_cap c = 0 then 16 else tc_cap c * 2)
                 in if full \<and> \<not> g (cap * CACHE_ENTRY_SIZE) then Some (NCL_ERR_NOMEM, [], c)
                    else (let c1 = (if full then c\<lparr>tc_cap := cap\<rparr> else c)
                          in case ncl_strdup g (Some k) of
                              None \<Rightarrow> Some (NCL_ERR_NOMEM, [], c1)
                            | Some k1 \<Rightarrow>
                                Some (NCL_OK, [], c1\<lparr>tc_entries := tc_entries c1 @
                                  [\<lparr>ce_key = Some k1, ce_value = val, ce_expires_at = expires_at\<rparr>]\<rparr>)))))"

definition ncl_cache_get ::
  "int \<Rightarrow> 'v ttl_cache \<Rightarrow> string option \<Rightarrow> ('v option \<times> 'v list \<times> 'v ttl_cache) option" where
  "ncl_cache_get now c key =
     (case key of None \<Rightarrow> Some (None, [], c)
      | Some k \<Rightarrow>
        (case ncl_cache_find c k of
           None \<Rightarrow> None
         | Some None \<Rightarrow> Some (None, [], c)
         | Some (Some i) \<Rightarrow>
             if entry_expired now (tc_entries c ! i)
             then (case ncl_cache_remove_at i c of (fr, c1) \<Rightarrow> Some (None, fr, c1))
             else (let c1 = (if tc_expire_after_access c \<and> tc_ttl_ms c > 0
                             then c\<lparr>tc_entries := (tc_entries c)[i :=
                                 (tc_entries c ! i)\<lparr>ce_expires_at := now + int (tc_ttl_ms c)\<rparr>]\<rparr>
                             else c)
                   in Some (ce_value (tc_entries c1 ! i), [], c1))))"

definition ncl_cache_remove :: "'v ttl_cache \<Rightarrow> string option \<Rightarrow> (bool \<times> 'v list \<times> 'v ttl_cache) option" where
  "ncl_cache_remove c key =
     (case key of None \<Rightarrow> Some (False, [], c)
      | Some k \<Rightarrow>
        (case ncl_cache_find c k of
           None \<Rightarrow> None
         | Some None \<Rightarrow> Some (False, [], c)
         | Some (Some i) \<Rightarrow> (case ncl_cache_remove_at i c of (fr, c1) \<Rightarrow> Some (True, fr, c1))))"

definition ncl_cache_take ::
  "int \<Rightarrow> 'v ttl_cache \<Rightarrow> string option \<Rightarrow> ('v option \<times> 'v list \<times> 'v ttl_cache) option" where
  "ncl_cache_take now c key =
     (case key of None \<Rightarrow> Some (None, [], c)
      | Some k \<Rightarrow>
        (case ncl_cache_find c k of
           None \<Rightarrow> None
         | Some None \<Rightarrow> Some (None, [], c)
         | Some (Some i) \<Rightarrow>
             if entry_expired now (tc_entries c ! i)
             then (case ncl_cache_remove_at i c of (fr, c1) \<Rightarrow> Some (None, fr, c1))
             else Some (ce_value (tc_entries c ! i), [], c\<lparr>tc_entries := drop_at i (tc_entries c)\<rparr>)))"

text \<open>The loop removes the last entry until none is left.\<close>

function clear_loop :: "'v ttl_cache \<Rightarrow> 'v list \<times> 'v ttl_cache" where
  "clear_loop c =
     (if length (tc_entries c) > 0
      then (case ncl_cache_remove_at (length (tc_entries c) - 1) c of
          (fr, c1) \<Rightarrow> (case clear_loop c1 of (fr2, c2) \<Rightarrow> (fr @ fr2, c2)))
      else ([], c))"
  by pat_completeness auto
termination
  by (relation "measure (\<lambda>c. length (tc_entries c))") (auto simp: ncl_cache_remove_at_def drop_at_def)

declare clear_loop.simps [simp del]

definition ncl_cache_clear :: "'v ttl_cache \<Rightarrow> 'v list \<times> 'v ttl_cache" where
  "ncl_cache_clear c = clear_loop c"

definition ncl_cache_size :: "'v ttl_cache \<Rightarrow> nat" where
  "ncl_cache_size c = length (tc_entries c)"

definition ncl_cache_free :: "'v ttl_cache \<Rightarrow> 'v list" where
  "ncl_cache_free c = fst (ncl_cache_clear c)"

section \<open>Operations as steps\<close>

datatype 'v cache_op =
    Cache_Put string "'v option"
  | Cache_Get string
  | Cache_Take string
  | Cache_Remove string
  | Cache_Purge
  | Cache_Clear

datatype 'v cache_result = Cache_Status ncl_err | Cache_Value "'v option" | Cache_Removed bool | Cache_Done

fun cache_step ::
  "grant \<Rightarrow> int \<Rightarrow> 'v cache_op \<Rightarrow> 'v ttl_cache \<Rightarrow> ('v cache_result \<times> 'v list \<times> 'v ttl_cache) option" where
  "cache_step g now (Cache_Put k v) c =
     map_option (\<lambda>(rc, fr, c1). (Cache_Status rc, fr, c1)) (ncl_cache_put g now c (Some k) v)"
| "cache_step g now (Cache_Get k) c =
     map_option (\<lambda>(v, fr, c1). (Cache_Value v, fr, c1)) (ncl_cache_get now c (Some k))"
| "cache_step g now (Cache_Take k) c =
     map_option (\<lambda>(v, fr, c1). (Cache_Value v, fr, c1)) (ncl_cache_take now c (Some k))"
| "cache_step g now (Cache_Remove k) c =
     map_option (\<lambda>(b, fr, c1). (Cache_Removed b, fr, c1)) (ncl_cache_remove c (Some k))"
| "cache_step g now Cache_Purge c =
     (case ncl_cache_purge_expired now c of (fr, c1) \<Rightarrow> Some (Cache_Done, fr, c1))"
| "cache_step g now Cache_Clear c = (case ncl_cache_clear c of (fr, c1) \<Rightarrow> Some (Cache_Done, fr, c1))"

section \<open>The map it keeps\<close>

definition entry_pair :: "'v cache_entry \<Rightarrow> string \<times> 'v option \<times> int" where
  "entry_pair e = (the (ce_key e), ce_value e, ce_expires_at e)"

definition cache_map :: "'v ttl_cache \<Rightarrow> (string, 'v option \<times> int) map" where
  "cache_map c = map_of (map entry_pair (tc_entries c))"

definition entries_ok :: "'v cache_entry list \<Rightarrow> bool" where
  "entries_ok es \<longleftrightarrow> (\<forall>e \<in> set es. ce_key e \<noteq> None) \<and> distinct (map ce_key es)"

definition cache_inv :: "'v ttl_cache \<Rightarrow> bool" where
  "cache_inv c \<longleftrightarrow> entries_ok (tc_entries c) \<and> length (tc_entries c) \<le> tc_cap c"

text \<open>The specification: a map from keys to a value and the time it ends.\<close>

definition spec_live :: "int \<Rightarrow> (string, 'v option \<times> int) map \<Rightarrow> string \<Rightarrow> 'v option option" where
  "spec_live now m k =
     (case m k of None \<Rightarrow> None | Some (v, e) \<Rightarrow> if e \<noteq> 0 \<and> e \<le> now then None else Some v)"

definition spec_deadline :: "nat \<Rightarrow> int \<Rightarrow> int" where
  "spec_deadline ttl now = (if ttl > 0 then now + int ttl else 0)"

fun spec_step ::
  "nat \<Rightarrow> bool \<Rightarrow> int \<Rightarrow> 'v cache_op \<Rightarrow> (string, 'v option \<times> int) map
    \<Rightarrow> 'v cache_result \<times> (string, 'v option \<times> int) map" where
  "spec_step ttl access now (Cache_Put k v) m = (Cache_Status NCL_OK, m(k \<mapsto> (v, spec_deadline ttl now)))"
| "spec_step ttl access now (Cache_Get k) m =
     (case spec_live now m k of
        None \<Rightarrow> (Cache_Value None, m(k := None))
      | Some v \<Rightarrow> (Cache_Value v, if access \<and> ttl > 0 then m(k \<mapsto> (v, spec_deadline ttl now)) else m))"
| "spec_step ttl access now (Cache_Take k) m =
     (Cache_Value (case spec_live now m k of None \<Rightarrow> None | Some v \<Rightarrow> v), m(k := None))"
| "spec_step ttl access now (Cache_Remove k) m = (Cache_Removed (m k \<noteq> None), m(k := None))"
| "spec_step ttl access now Cache_Purge m =
     (Cache_Done, \<lambda>k. case m k of None \<Rightarrow> None | Some (v, e) \<Rightarrow> if e \<noteq> 0 \<and> e \<le> now then None else Some (v, e))"
| "spec_step ttl access now Cache_Clear m = (Cache_Done, Map.empty)"

end
