(* ===== verification/Ttl_Cache_Props.thy ===== *)
theory Ttl_Cache_Props
  imports Ttl_Cache
begin

text \<open>
  The cache refines a map from keys to values with a deadline, and gives up every value
  exactly once.
\<close>

section \<open>Entries as a map\<close>

lemma map_of_absent:
  "\<forall>e \<in> set es. ce_key e \<noteq> None \<Longrightarrow> Some k \<notin> set (map ce_key es) \<Longrightarrow> map_of (map entry_pair es) k = None"
  by (induction es) (auto simp: entry_pair_def)

lemma map_of_present:
  assumes "entries_ok (pre @ e # post)" and "ce_key e = Some k"
  shows "map_of (map entry_pair (pre @ e # post)) k = Some (ce_value e, ce_expires_at e)"
    and "map_of (map entry_pair (pre @ post)) = (map_of (map entry_pair (pre @ e # post)))(k := None)"
    and "ce_key e1 = Some k \<Longrightarrow> map_of (map entry_pair (pre @ e1 # post))
      = (map_of (map entry_pair (pre @ e # post)))(k \<mapsto> (ce_value e1, ce_expires_at e1))"
    and "entries_ok (pre @ post)" and "ce_key e1 = Some k \<Longrightarrow> entries_ok (pre @ e1 # post)"
proof -
  have pre: "map_of (map entry_pair pre) k = None" and post: "map_of (map entry_pair post) k = None"
    using assms by (auto simp: entries_ok_def intro!: map_of_absent)
  show "map_of (map entry_pair (pre @ e # post)) k = Some (ce_value e, ce_expires_at e)"
    using pre assms(2) by (simp add: map_add_def entry_pair_def)
  show "map_of (map entry_pair (pre @ post)) = (map_of (map entry_pair (pre @ e # post)))(k := None)"
    using pre post assms(2) by (auto simp: map_add_def entry_pair_def fun_eq_iff split: option.split)
  show "map_of (map entry_pair (pre @ e1 # post))
      = (map_of (map entry_pair (pre @ e # post)))(k \<mapsto> (ce_value e1, ce_expires_at e1))" if "ce_key e1 = Some k"
    using pre post assms(2) that by (auto simp: map_add_def entry_pair_def fun_eq_iff split: option.split)
  show "entries_ok (pre @ post)" using assms by (auto simp: entries_ok_def)
  show "entries_ok (pre @ e1 # post)" if "ce_key e1 = Some k" using assms that by (auto simp: entries_ok_def)
qed

lemma find_cases:
  assumes "entries_ok es"
  obtains (absent) "cache_find_loop es k n = Some None" "map_of (map entry_pair es) k = None" "Some k \<notin> set (map ce_key es)"
  | (found) pre e post where "es = pre @ e # post" "ce_key e = Some k" "cache_find_loop es k n = Some (Some (n + length pre))"
  using assms
proof (induction es arbitrary: n thesis)
  case Nil
  then show ?case by simp
next
  case (Cons x es)
  obtain kx where kx: "ce_key x = Some kx" using Cons.prems(3) by (auto simp: entries_ok_def)
  show ?case
  proof (cases "kx = k")
    case True
    then show ?thesis using Cons.prems(2) [of "[]" x es] kx by simp
  next
    case False
    have ok: "entries_ok es" using Cons.prems(3) by (auto simp: entries_ok_def)
    show ?thesis
    proof (rule Cons.IH [OF _ _ ok, of "Suc n"])
      assume "cache_find_loop es k (Suc n) = Some None" "map_of (map entry_pair es) k = None" "Some k \<notin> set (map ce_key es)"
      then show thesis using Cons.prems(1) kx False by (simp add: entry_pair_def [of x])
    next
      fix pre e post
      assume "es = pre @ e # post" "ce_key e = Some k" "cache_find_loop es k (Suc n) = Some (Some (Suc n + length pre))"
      then show thesis using Cons.prems(2) [of "x # pre" e post] kx False by simp
    qed
  qed
qed

lemma drop_at_split [simp]: "drop_at (length pre) (pre @ e # post) = pre @ post"
  by (simp add: drop_at_def)

lemma find_valid: "cache_find_loop es k n = Some (Some i) \<Longrightarrow> n \<le> i \<and> i < n + length es"
  by (induction es arbitrary: n) (fastforce split: option.splits if_splits)+

section \<open>The loops\<close>

lemma release_same [simp]:
  "ncl_cache_entry_release (c\<lparr>tc_entries := es\<rparr>) = ncl_cache_entry_release c"
  "ncl_cache_entry_release (c\<lparr>tc_cap := n\<rparr>) = ncl_cache_entry_release c"
  by (simp_all add: ncl_cache_entry_release_def fun_eq_iff)

lemma purge_loop_result:
  "i \<le> length (tc_entries c) \<Longrightarrow> purge_loop now i c =
     (concat (map (ncl_cache_entry_release c) (filter (entry_expired now) (drop i (tc_entries c)))),
      c\<lparr>tc_entries := take i (tc_entries c) @ filter (\<lambda>e. \<not> entry_expired now e) (drop i (tc_entries c))\<rparr>)"
proof (induction now i c rule: purge_loop.induct)
  case (1 now i c)
  show ?case
  proof (cases "i < length (tc_entries c)")
    case False
    with 1(3) show ?thesis by (subst purge_loop.simps) simp
  next
    case True
    let ?e = "tc_entries c ! i"
    have d: "drop i (tc_entries c) = ?e # drop (Suc i) (tc_entries c)" using True by (simp add: Cons_nth_drop_Suc)
    show ?thesis
    proof (cases "entry_expired now ?e")
      case exp: True
      let ?c1 = "c\<lparr>tc_entries := drop_at i (tc_entries c)\<rparr>"
      have r: "ncl_cache_remove_at i c = (ncl_cache_entry_release c ?e, ?c1)" by (simp add: ncl_cache_remove_at_def)
      have "purge_loop now i ?c1 =
          (concat (map (ncl_cache_entry_release c) (filter (entry_expired now) (drop (Suc i) (tc_entries c)))),
           c\<lparr>tc_entries := take i (tc_entries c) @ filter (\<lambda>e. \<not> entry_expired now e) (drop (Suc i) (tc_entries c))\<rparr>)"
        using 1(1) [OF True exp r [symmetric]] True by (simp add: drop_at_def)
      then show ?thesis using True exp r d by (simp add: purge_loop.simps [of now i c])
    next
      case False
      with 1(2) [OF True False] True d show ?thesis
        by (simp add: purge_loop.simps [of now i c] take_Suc_conv_app_nth)
    qed
  qed
qed

lemma clear_loop_result:
  "clear_loop c = (concat (map (ncl_cache_entry_release c) (rev (tc_entries c))), c\<lparr>tc_entries := []\<rparr>)"
proof (induction c rule: clear_loop.induct)
  case (1 c)
  show ?case
  proof (cases "tc_entries c" rule: rev_cases)
    case Nil
    then show ?thesis by (simp add: clear_loop.simps [of c])
  next
    case (snoc es e)
    let ?c1 = "c\<lparr>tc_entries := es\<rparr>"
    have r: "ncl_cache_remove_at (length (tc_entries c) - 1) c = (ncl_cache_entry_release c e, ?c1)"
      by (simp add: ncl_cache_remove_at_def snoc drop_at_def)
    have "clear_loop ?c1 = (concat (map (ncl_cache_entry_release c) (rev es)), c\<lparr>tc_entries := []\<rparr>)"
      using 1 [OF _ r [symmetric]] snoc by simp
    then show ?thesis using r snoc by (simp add: clear_loop.simps [of c])
  qed
qed

lemma map_of_filter_entries:
  assumes "entries_ok es"
  shows "map_of (map entry_pair (filter P es)) k
    = (case map_of (map entry_pair es) k of None \<Rightarrow> None
       | Some (v, x) \<Rightarrow> if P \<lparr>ce_key = Some k, ce_value = v, ce_expires_at = x\<rparr> then Some (v, x) else None)"
  using assms
proof (induction es)
  case (Cons e es)
  obtain ke where ke: "ce_key e = Some ke" using Cons.prems by (auto simp: entries_ok_def)
  have ok: "entries_ok es" using Cons.prems by (auto simp: entries_ok_def)
  have e: "e = \<lparr>ce_key = Some ke, ce_value = ce_value e, ce_expires_at = ce_expires_at e\<rparr>" using ke by simp
  have "map_of (map entry_pair es) ke = None" "map_of (map entry_pair (filter P es)) ke = None"
    using Cons.prems ke by (intro map_of_absent; auto simp: entries_ok_def)+
  moreover have "P \<lparr>ce_key = Some ke, ce_value = ce_value e, ce_expires_at = ce_expires_at e\<rparr> = P e"
    using e by simp
  ultimately show ?case using Cons.IH [OF ok] ke by (cases "ke = k") (auto simp: entry_pair_def [of e])
qed simp

section \<open>Refinement of the map\<close>

lemma put_refines:
  assumes "cache_inv c"
  shows "\<exists>fr c1. ncl_cache_put grant_all now c (Some k) v = Some (NCL_OK, fr, c1) \<and> cache_inv c1
    \<and> cache_map c1 = (cache_map c)(k \<mapsto> (v, spec_deadline (tc_ttl_ms c) now))
    \<and> tc_ttl_ms c1 = tc_ttl_ms c \<and> tc_expire_after_access c1 = tc_expire_after_access c"
proof -
  have ok: "entries_ok (tc_entries c)" and cap: "length (tc_entries c) \<le> tc_cap c" using assms by (simp_all add: cache_inv_def)
  let ?new = "\<lparr>ce_key = Some k, ce_value = v, ce_expires_at = spec_deadline (tc_ttl_ms c) now\<rparr>"
  from ok show ?thesis
  proof (rule find_cases [of "tc_entries c" k 0])
    assume f: "cache_find_loop (tc_entries c) k 0 = Some None" "map_of (map entry_pair (tc_entries c)) k = None"
      "Some k \<notin> set (map ce_key (tc_entries c))"
    let ?cap = "if tc_cap c = 0 then 16 else tc_cap c * 2"
    let ?c1 = "(if length (tc_entries c) = tc_cap c then c\<lparr>tc_cap := ?cap\<rparr> else c)\<lparr>tc_entries := tc_entries c @ [?new]\<rparr>"
    have put: "ncl_cache_put grant_all now c (Some k) v = Some (NCL_OK, [], ?c1)"
      using f(1) by (simp add: ncl_cache_put_def ncl_cache_find_def ncl_strdup_def grant_all spec_deadline_def Let_def)
    have "entries_ok (tc_entries c @ [?new])" using ok f(3) by (auto simp: entries_ok_def)
    then have "cache_inv ?c1" using cap by (auto simp: cache_inv_def)
    moreover have "cache_map ?c1 = (cache_map c)(k \<mapsto> (v, spec_deadline (tc_ttl_ms c) now))"
      using f(2) by (auto simp: cache_map_def entry_pair_def [of ?new] map_add_def fun_eq_iff split: option.split)
    ultimately show ?thesis using put by (intro exI [of _ "[]"] exI [of _ ?c1]) simp
  next
    fix pre e post
    assume f: "tc_entries c = pre @ e # post" "ce_key e = Some k" "cache_find_loop (tc_entries c) k 0 = Some (Some (0 + length pre))"
    let ?c1 = "c\<lparr>tc_entries := pre @ ?new # post\<rparr>"
    have "ncl_cache_put grant_all now c (Some k) v = Some (NCL_OK, ncl_cache_entry_release c e, ?c1)"
      using f by (simp add: ncl_cache_put_def ncl_cache_find_def ncl_strdup_def grant_all spec_deadline_def Let_def)
    moreover have "cache_map ?c1 = (cache_map c)(k \<mapsto> (v, spec_deadline (tc_ttl_ms c) now))"
      using map_of_present(3) [OF ok [unfolded f(1)] f(2), of ?new] by (simp add: cache_map_def f(1))
    moreover have "cache_inv ?c1"
      using map_of_present(5) [OF ok [unfolded f(1)] f(2), of ?new] cap by (simp add: cache_inv_def f(1))
    ultimately show ?thesis by (intro exI [of _ "ncl_cache_entry_release c e"] exI [of _ ?c1]) simp
  qed
qed

text \<open>What a lookup operation sees of the entry it found, and what removing or refreshing it does to the map.\<close>

lemma found_entry:
  assumes "cache_inv c" and "tc_entries c = pre @ e # post" and "ce_key e = Some k"
  shows "cache_map c k = Some (ce_value e, ce_expires_at e)"
    and "cache_inv (c\<lparr>tc_entries := pre @ post\<rparr>)" and "cache_map (c\<lparr>tc_entries := pre @ post\<rparr>) = (cache_map c)(k := None)"
    and "cache_inv (c\<lparr>tc_entries := pre @ e\<lparr>ce_expires_at := x\<rparr> # post\<rparr>)"
    and "cache_map (c\<lparr>tc_entries := pre @ e\<lparr>ce_expires_at := x\<rparr> # post\<rparr>) = (cache_map c)(k \<mapsto> (ce_value e, x))"
proof -
  have ok: "entries_ok (pre @ e # post)" and cap: "length (pre @ e # post) \<le> tc_cap c"
    using assms(1,2) by (simp_all add: cache_inv_def)
  note m = map_of_present [OF ok assms(3)]
  show "cache_map c k = Some (ce_value e, ce_expires_at e)" using m(1) by (simp add: cache_map_def assms(2))
  show "cache_inv (c\<lparr>tc_entries := pre @ post\<rparr>)" using m(4) cap by (simp add: cache_inv_def)
  show "cache_map (c\<lparr>tc_entries := pre @ post\<rparr>) = (cache_map c)(k := None)" using m(2) by (simp add: cache_map_def assms(2))
  show "cache_inv (c\<lparr>tc_entries := pre @ e\<lparr>ce_expires_at := x\<rparr> # post\<rparr>)"
    using m(5) [of "e\<lparr>ce_expires_at := x\<rparr>"] cap assms(3) by (simp add: cache_inv_def)
  show "cache_map (c\<lparr>tc_entries := pre @ e\<lparr>ce_expires_at := x\<rparr> # post\<rparr>) = (cache_map c)(k \<mapsto> (ce_value e, x))"
    using m(3) [of "e\<lparr>ce_expires_at := x\<rparr>"] assms(3) by (simp add: cache_map_def assms(2))
qed

lemma key_op_cases:
  assumes "cache_inv c"
  obtains (absent) "ncl_cache_find c k = Some None" "cache_map c k = None"
  | (found) pre e post where "tc_entries c = pre @ e # post" "ce_key e = Some k" "ncl_cache_find c k = Some (Some (length pre))"
proof -
  have "entries_ok (tc_entries c)" using assms by (simp add: cache_inv_def)
  then show ?thesis
    by (rule find_cases [of "tc_entries c" k 0]) (use that in \<open>auto simp: ncl_cache_find_def cache_map_def\<close>)
qed

lemma get_refines:
  assumes "cache_inv c"
  shows "\<exists>v fr c1. ncl_cache_get now c (Some k) = Some (v, fr, c1) \<and> cache_inv c1
    \<and> (Cache_Value v, cache_map c1) = spec_step (tc_ttl_ms c) (tc_expire_after_access c) now (Cache_Get k) (cache_map c)
    \<and> tc_ttl_ms c1 = tc_ttl_ms c \<and> tc_expire_after_access c1 = tc_expire_after_access c"
  using assms
proof (cases rule: key_op_cases [of c k])
  case absent
  then show ?thesis using assms by (auto simp: ncl_cache_get_def spec_live_def fun_eq_iff)
next
  case (found pre e post)
  note fe = found_entry [OF assms found(1,2)]
  show ?thesis
    using found fe
    by (cases "entry_expired now e"; cases "tc_expire_after_access c \<and> tc_ttl_ms c > 0")
      (auto simp: ncl_cache_get_def ncl_cache_remove_at_def spec_live_def entry_expired_def spec_deadline_def assms Let_def)
qed

lemma take_refines:
  assumes "cache_inv c"
  shows "\<exists>v fr c1. ncl_cache_take now c (Some k) = Some (v, fr, c1) \<and> cache_inv c1
    \<and> (Cache_Value v, cache_map c1) = spec_step (tc_ttl_ms c) (tc_expire_after_access c) now (Cache_Take k) (cache_map c)
    \<and> tc_ttl_ms c1 = tc_ttl_ms c \<and> tc_expire_after_access c1 = tc_expire_after_access c"
  using assms
proof (cases rule: key_op_cases [of c k])
  case absent
  then show ?thesis using assms by (auto simp: ncl_cache_take_def spec_live_def fun_eq_iff)
next
  case (found pre e post)
  note fe = found_entry [OF assms found(1,2)]
  show ?thesis
    using found fe
    by (cases "entry_expired now e")
      (auto simp: ncl_cache_take_def ncl_cache_remove_at_def spec_live_def entry_expired_def assms)
qed

lemma remove_refines:
  assumes "cache_inv c"
  shows "\<exists>b fr c1. ncl_cache_remove c (Some k) = Some (b, fr, c1) \<and> cache_inv c1
    \<and> (Cache_Removed b, cache_map c1) = spec_step (tc_ttl_ms c) (tc_expire_after_access c) now (Cache_Remove k) (cache_map c)
    \<and> tc_ttl_ms c1 = tc_ttl_ms c \<and> tc_expire_after_access c1 = tc_expire_after_access c"
  using assms
proof (cases rule: key_op_cases [of c k])
  case absent
  then show ?thesis using assms by (auto simp: ncl_cache_remove_def fun_eq_iff)
next
  case (found pre e post)
  note fe = found_entry [OF assms found(1,2)]
  show ?thesis using found fe by (auto simp: ncl_cache_remove_def ncl_cache_remove_at_def)
qed

lemma purge_refines:
  assumes "cache_inv c"
  shows "\<exists>fr c1. ncl_cache_purge_expired now c = (fr, c1) \<and> cache_inv c1
    \<and> (Cache_Done, cache_map c1) = spec_step (tc_ttl_ms c) (tc_expire_after_access c) now Cache_Purge (cache_map c)
    \<and> tc_ttl_ms c1 = tc_ttl_ms c \<and> tc_expire_after_access c1 = tc_expire_after_access c"
proof -
  have ok: "entries_ok (tc_entries c)" and cap: "length (tc_entries c) \<le> tc_cap c" using assms by (simp_all add: cache_inv_def)
  let ?es = "filter (\<lambda>e. \<not> entry_expired now e) (tc_entries c)"
  have "entries_ok ?es" using ok by (auto simp: entries_ok_def distinct_map_filter)
  moreover have "length ?es \<le> tc_cap c" using cap length_filter_le order_trans by blast
  ultimately show ?thesis using map_of_filter_entries [OF ok, of "\<lambda>e. \<not> entry_expired now e"]
    by (auto simp: ncl_cache_purge_expired_def purge_loop_result cache_inv_def cache_map_def entry_expired_def fun_eq_iff
        split: option.split)
qed

text \<open>C25. The cache refines a map from keys to a value and its deadline: as long as the allocator serves it, every
  operation succeeds, keeps the representation well formed, answers what the map answers (a value
  past its deadline is never handed out) and leaves the updated map, refreshing the deadline of
  a value that is read exactly when the cache was created for that.\<close>

theorem cache_refines_map:
  assumes "cache_inv c"
  shows "\<exists>r fr c1. cache_step grant_all now op c = Some (r, fr, c1) \<and> cache_inv c1
    \<and> (r, cache_map c1) = spec_step (tc_ttl_ms c) (tc_expire_after_access c) now op (cache_map c)
    \<and> tc_ttl_ms c1 = tc_ttl_ms c \<and> tc_expire_after_access c1 = tc_expire_after_access c"
proof (cases op)
  case (Cache_Put k v)
  with put_refines [OF assms, of now k v] show ?thesis by auto
next
  case (Cache_Get k)
  with get_refines [OF assms, of now k] show ?thesis by (auto simp del: spec_step.simps)
next
  case (Cache_Take k)
  with take_refines [OF assms, of now k] show ?thesis by (auto simp del: spec_step.simps)
next
  case (Cache_Remove k)
  with remove_refines [OF assms, of k now] show ?thesis by (auto simp del: spec_step.simps)
next
  case Cache_Purge
  with purge_refines [OF assms, of now] show ?thesis by (auto simp del: spec_step.simps)
next
  case Cache_Clear
  then show ?thesis by (simp add: ncl_cache_clear_def clear_loop_result cache_inv_def entries_ok_def cache_map_def)
qed

definition sample_cache :: "nat ttl_cache" where
  "sample_cache =
     \<lparr>tc_entries = [\<lparr>ce_key = Some ''a'', ce_value = Some 1, ce_expires_at = 50\<rparr>,
                     \<lparr>ce_key = Some ''b'', ce_value = Some 2, ce_expires_at = 90\<rparr>],
      tc_cap = 16, tc_ttl_ms = 40, tc_expire_after_access = True, tc_free = True\<rparr>"

lemma sample_cache_inv: "cache_inv sample_cache"
  by (simp add: cache_inv_def entries_ok_def sample_cache_def)

theorem cache_refines_map_witness:
  "\<exists>r fr c1. cache_step grant_all 60 (Cache_Get ''a'') sample_cache = Some (r, fr, c1) \<and> cache_inv c1
    \<and> (r, cache_map c1) = (Cache_Value None, (cache_map sample_cache)(''a'' := None))"
proof -
  have "spec_step 40 True 60 (Cache_Get ''a'') (cache_map sample_cache) = (Cache_Value None, (cache_map sample_cache)(''a'' := None))"
    by (simp add: spec_live_def cache_map_def sample_cache_def entry_pair_def)
  with cache_refines_map [OF sample_cache_inv, of 60 "Cache_Get ''a''"] show ?thesis
    by (auto simp: sample_cache_def simp del: spec_step.simps cache_step.simps)
qed

section \<open>Who owns a value\<close>

definition stored :: "'v ttl_cache \<Rightarrow> 'v multiset" where
  "stored c = mset (concat (map (ncl_cache_entry_release c) (tc_entries c)))"

definition values_of :: "'v option \<Rightarrow> 'v list" where
  "values_of v = (case v of None \<Rightarrow> [] | Some x \<Rightarrow> [x])"

text \<open>What a step takes over from the caller, and what it hands back for good.\<close>

fun given :: "'v cache_op \<Rightarrow> 'v cache_result \<Rightarrow> 'v list" where
  "given (Cache_Put k v) (Cache_Status rc) = (if rc = NCL_OK then values_of v else [])"
| "given op r = []"

fun handed_back :: "'v cache_op \<Rightarrow> 'v cache_result \<Rightarrow> 'v list" where
  "handed_back (Cache_Take k) (Cache_Value v) = values_of v"
| "handed_back op r = []"

text \<open>A run under any answers of the allocator and the clock: the values given, destroyed and handed back.\<close>

fun cache_run :: "(grant \<times> int \<times> 'v cache_op) list \<Rightarrow> 'v ttl_cache \<Rightarrow> ('v list \<times> 'v list \<times> 'v list \<times> 'v ttl_cache) option" where
  "cache_run [] c = Some ([], [], [], c)"
| "cache_run ((g, now, op) # steps) c =
     (case cache_step g now op c of None \<Rightarrow> None
      | Some (r, fr, c1) \<Rightarrow>
          (case cache_run steps c1 of None \<Rightarrow> None
           | Some (gs, frs, hs, c2) \<Rightarrow> Some (given op r @ gs, fr @ frs, handed_back op r @ hs, c2)))"

lemma release_values: "tc_free c \<Longrightarrow> ncl_cache_entry_release c e = values_of (ce_value e)"
  by (simp add: ncl_cache_entry_release_def values_of_def)

lemma stored_split:
  assumes "i < length (tc_entries c)"
  shows "stored c = mset (ncl_cache_entry_release c (tc_entries c ! i)) + stored (c\<lparr>tc_entries := drop_at i (tc_entries c)\<rparr>)"
proof -
  have es: "tc_entries c = take i (tc_entries c) @ tc_entries c ! i # drop (Suc i) (tc_entries c)"
    using assms by (rule id_take_nth_drop)
  show ?thesis by (subst (1) stored_def, subst es) (simp add: stored_def drop_at_def)
qed

lemma stored_update:
  assumes "i < length (tc_entries c)"
  shows "stored (c\<lparr>tc_entries := (tc_entries c)[i := e]\<rparr>) + mset (ncl_cache_entry_release c (tc_entries c ! i))
    = stored c + mset (ncl_cache_entry_release c e)"
  using stored_split [OF assms] assms by (simp add: stored_def drop_at_def upd_conv_take_nth_drop)

lemma find_index: "ncl_cache_find c k = Some (Some i) \<Longrightarrow> i < length (tc_entries c)"
  using find_valid [of "tc_entries c" k 0 i] by (simp add: ncl_cache_find_def)

lemma values_of_None [simp]: "values_of None = []"
  by (simp add: values_of_def)

lemma put_conserves:
  assumes "ncl_cache_put g now c (Some k) v = Some (rc, fr, c1)" and "tc_free c"
  shows "mset fr + stored c1 = mset (if rc = NCL_OK then values_of v else []) + stored c \<and> tc_free c1"
proof (cases "ncl_cache_find c k")
  case None
  with assms show ?thesis by (simp add: ncl_cache_put_def)
next
  case (Some found)
  show ?thesis
  proof (cases found)
    case (Some i)
    have u: "stored (c\<lparr>tc_entries := (tc_entries c)[i := e]\<rparr>) + mset (values_of (ce_value (tc_entries c ! i)))
        = stored c + mset (values_of (ce_value e))" for e
      using stored_update [OF find_index, of c k i e] \<open>ncl_cache_find c k = Some found\<close> Some
      by (simp add: release_values [OF assms(2)])
    show ?thesis
      using assms u \<open>ncl_cache_find c k = Some found\<close> Some
      by (auto simp: ncl_cache_put_def Let_def release_values add.commute)
  next
    case None
    with \<open>ncl_cache_find c k = Some found\<close> show ?thesis
      using assms by (auto simp: ncl_cache_put_def Let_def stored_def release_values split: option.splits if_splits)
  qed
qed

lemma lookup_conserves:
  assumes "tc_free c"
  shows "ncl_cache_get now c (Some k) = Some (v, fr, c1) \<Longrightarrow> mset fr + stored c1 = stored c \<and> tc_free c1"
    and "ncl_cache_take now c (Some k) = Some (v, fr, c1) \<Longrightarrow> mset fr + mset (values_of v) + stored c1 = stored c \<and> tc_free c1"
    and "ncl_cache_remove c (Some k) = Some (b, fr, c1) \<Longrightarrow> mset fr + stored c1 = stored c \<and> tc_free c1"
proof -
  have s: "mset (values_of (ce_value (tc_entries c ! i))) + stored (c\<lparr>tc_entries := drop_at i (tc_entries c)\<rparr>) = stored c"
    if "ncl_cache_find c k = Some (Some i)" for i
    using stored_split [OF find_index [OF that]] by (simp add: release_values [OF assms])
  have u: "stored (c\<lparr>tc_entries := (tc_entries c)[i := (tc_entries c ! i)\<lparr>ce_expires_at := x\<rparr>]\<rparr>) = stored c"
    if "ncl_cache_find c k = Some (Some i)" for i x
    using stored_update [OF find_index [OF that], of "(tc_entries c ! i)\<lparr>ce_expires_at := x\<rparr>"]
    by (simp add: release_values [OF assms])
  show "mset fr + stored c1 = stored c \<and> tc_free c1" if "ncl_cache_get now c (Some k) = Some (v, fr, c1)"
    using that assms s u by (auto simp: ncl_cache_get_def ncl_cache_remove_at_def Let_def release_values split: option.splits if_splits)
  show "mset fr + mset (values_of v) + stored c1 = stored c \<and> tc_free c1" if "ncl_cache_take now c (Some k) = Some (v, fr, c1)"
    using that assms s by (auto simp: ncl_cache_take_def ncl_cache_remove_at_def release_values split: option.splits if_splits)
  show "mset fr + stored c1 = stored c \<and> tc_free c1" if "ncl_cache_remove c (Some k) = Some (b, fr, c1)"
    using that assms s by (auto simp: ncl_cache_remove_def ncl_cache_remove_at_def release_values split: option.splits)
qed

lemma concat_filter_mset:
  "mset (concat (map f (filter P xs))) + mset (concat (map f (filter (\<lambda>x. \<not> P x) xs))) = mset (concat (map f xs))"
  by (induction xs) (auto simp: ac_simps)

lemma concat_rev_mset: "mset (concat (map f (rev xs))) = mset (concat (map f xs))"
  by (induction xs) (auto simp: ac_simps)

lemma step_conserves:
  assumes "cache_step g now op c = Some (r, fr, c1)" and "tc_free c"
  shows "mset fr + mset (handed_back op r) + stored c1 = mset (given op r) + stored c \<and> tc_free c1"
proof (cases op)
  case (Cache_Put k v)
  with assms put_conserves [of g now c k v] show ?thesis by auto
next
  case (Cache_Get k)
  with assms lookup_conserves(1) [OF assms(2), of now k] show ?thesis by auto
next
  case (Cache_Take k)
  with assms lookup_conserves(2) [OF assms(2), of now k] show ?thesis by auto
next
  case (Cache_Remove k)
  with assms lookup_conserves(3) [OF assms(2), of k] show ?thesis by auto
next
  case Cache_Purge
  with assms concat_filter_mset [of "ncl_cache_entry_release c" "entry_expired now" "tc_entries c"] show ?thesis
    by (auto simp: ncl_cache_purge_expired_def purge_loop_result stored_def)
next
  case Cache_Clear
  with assms show ?thesis by (auto simp: ncl_cache_clear_def clear_loop_result stored_def concat_rev_mset)
qed

lemma run_conserves:
  "cache_run steps c = Some (gs, frs, hs, c1) \<Longrightarrow> tc_free c \<Longrightarrow>
     mset frs + mset hs + stored c1 = mset gs + stored c \<and> tc_free c1"
proof (induction steps c arbitrary: gs frs hs c1 rule: cache_run.induct)
  case (2 g now op steps c)
  obtain r fr c2 where s: "cache_step g now op c = Some (r, fr, c2)" using 2(2) by (auto split: option.splits)
  with 2(2) obtain gs2 frs2 hs2 where t: "cache_run steps c2 = Some (gs2, frs2, hs2, c1)"
    and l: "gs = given op r @ gs2" "frs = fr @ frs2" "hs = handed_back op r @ hs2" by (auto split: option.splits)
  note sc = step_conserves [OF s 2(3)]
  with 2(1) [OF s refl refl t] have "mset frs2 + mset hs2 + stored c1 = mset gs2 + stored c2 \<and> tc_free c1" by blast
  with sc show ?case unfolding l by (simp add: ac_simps) (metis add.assoc add.commute)
qed simp



section \<open>A refused copy of the key\<close>

lemma find_null:
  "entries_ok (pre @ e # post) \<Longrightarrow> k2 \<notin> set (map (the \<circ> ce_key) pre) \<Longrightarrow> ce_key e1 = None \<Longrightarrow>
     cache_find_loop (pre @ e1 # post) k2 n = None"
  by (induction pre arbitrary: n) (auto simp: entries_ok_def split: option.split)

text \<open>Overwriting a key whose copy the allocator refuses reports success and leaves an entry without a key: the next
  operation on that key, or on any key the cache does not hold, compares with NULL (undefined behaviour).\<close>

theorem put_leaves_null_key:
  assumes "cache_inv c" and "cache_map c k \<noteq> None" and "\<not> g (length k + 1)" and "k2 = k \<or> cache_map c k2 = None"
  shows "\<exists>fr c1. ncl_cache_put g now c (Some k) v = Some (NCL_OK, fr, c1)
    \<and> ncl_cache_get now2 c1 (Some k2) = None \<and> ncl_cache_put grant_all now2 c1 (Some k2) v2 = None"
  using assms(1)
proof (cases rule: key_op_cases [of c k])
  case absent
  with assms(2) show ?thesis by simp
next
  case (found pre e post)
  have ok: "entries_ok (pre @ e # post)" using assms(1) found(1) by (simp add: cache_inv_def)
  have pre: "k2 \<notin> set (map (the \<circ> ce_key) pre)"
  proof
    assume "k2 \<in> set (map (the \<circ> ce_key) pre)"
    then obtain x where x: "x \<in> set pre" "ce_key x = Some k2" using ok by (auto simp: entries_ok_def)
    show False
    proof (cases "k2 = k")
      case True
      with x found(2) ok show False by (force simp: entries_ok_def)
    next
      case False
      then have "map_of (map entry_pair (tc_entries c)) k2 = None" using assms(4) by (simp add: cache_map_def)
      moreover have "entry_pair x \<in> set (map entry_pair (tc_entries c))" using x(1) found(1) by simp
      ultimately show False using x(2) by (force simp: map_of_eq_None_iff entry_pair_def)
    qed
  qed
  let ?e1 = "\<lparr>ce_key = None, ce_value = v, ce_expires_at = spec_deadline (tc_ttl_ms c) now\<rparr>"
  let ?c1 = "c\<lparr>tc_entries := pre @ ?e1 # post\<rparr>"
  have "ncl_cache_put g now c (Some k) v = Some (NCL_OK, ncl_cache_entry_release c e, ?c1)"
    using found assms(3) by (simp add: ncl_cache_put_def ncl_strdup_def spec_deadline_def Let_def)
  moreover have "ncl_cache_find ?c1 k2 = None" using find_null [OF ok pre] by (simp add: ncl_cache_find_def)
  ultimately show ?thesis by (simp add: ncl_cache_get_def) (simp add: ncl_cache_put_def Let_def)
qed

theorem put_leaves_null_key_witness:
  "\<exists>fr c1. ncl_cache_put (\<lambda>n. False) 20 sample_cache (Some ''a'') (Some 7) = Some (NCL_OK, fr, c1)
    \<and> ncl_cache_get 21 c1 (Some ''zz'') = None \<and> ncl_cache_put grant_all 21 c1 (Some ''zz'') None = None"
  by (rule put_leaves_null_key [OF sample_cache_inv])
    (simp_all add: cache_map_def sample_cache_def entry_pair_def)

end
