(* ===== verification/Thread_Pool.thy ===== *)
theory Thread_Pool
  imports Common "HOL-Library.Multiset"
begin

text \<open>
  \<^verbatim>\<open>stack/src/core/thread_pool.c\<close>, first part: the pool of worker threads. The code between
  taking the mutex and giving it up (unlocking, or waiting on the condition variable) is one
  atomic function on the pool; a worker and a submitting thread are automata whose steps are
  these functions. The step relation at the end interleaves them with a shutdown. The result of
  \<^verbatim>\<open>ncl_thread_start\<close> is an argument.
\<close>

section \<open>The pool\<close>

text \<open>A function pointer is a number, NULL is \<open>None\<close>.\<close>

record ncl_task =
  task_fn :: "nat option"
  task_arg :: nat

record ncl_worker_slot =
  ws_thread :: "nat option"
  ws_joined :: bool

record pool_options =
  po_core_threads :: int
  po_max_threads :: int
  po_queue_capacity :: nat
  po_idle_timeout_ms :: nat

record thread_pool =
  tp_queue :: "ncl_task list"
  tp_queue_len :: nat
  tp_queue_capacity :: nat
  tp_queue_head :: nat
  tp_core_threads :: int
  tp_max_threads :: int
  tp_workers :: int
  tp_idle_timeout_ms :: nat
  tp_shutting_down :: bool
  tp_slots :: "ncl_worker_slot list"
  tp_slot_count :: nat

definition ncl_thread_pool_options_default :: pool_options where
  "ncl_thread_pool_options_default =
     \<lparr>po_core_threads = 5, po_max_threads = 10, po_queue_capacity = 100, po_idle_timeout_ms = 60000\<rparr>"

definition no_task :: ncl_task where
  "no_task = \<lparr>task_fn = None, task_arg = 0\<rparr>"

definition ncl_pool_pop :: "thread_pool \<Rightarrow> ncl_task \<times> thread_pool" where
  "ncl_pool_pop p =
     (if tp_queue_len p = 0 then (no_task, p)
      else (tp_queue p ! tp_queue_head p,
            p\<lparr>tp_queue_head := (tp_queue_head p + 1) mod tp_queue_capacity p,
              tp_queue_len := tp_queue_len p - 1\<rparr>))"

definition ncl_pool_push :: "ncl_task \<Rightarrow> thread_pool \<Rightarrow> thread_pool" where
  "ncl_pool_push t p =
     (let tail = (tp_queue_head p + tp_queue_len p) mod tp_queue_capacity p
      in p\<lparr>tp_queue := (tp_queue p)[tail := t], tp_queue_len := tp_queue_len p + 1\<rparr>)"

section \<open>Workers\<close>

text \<open>Where a worker is when it does not hold the mutex.\<close>

datatype worker_phase = At_Lock | Waiting | Running ncl_task | Exited

definition worker_scan :: "thread_pool \<Rightarrow> worker_phase \<times> thread_pool" where
  "worker_scan p =
     (if tp_queue_len p > 0 then (case ncl_pool_pop p of (t, p1) \<Rightarrow> (Running t, p1))
      else if tp_shutting_down p then (Exited, p)
      else (Waiting, p))"

definition worker_woken :: "bool \<Rightarrow> thread_pool \<Rightarrow> worker_phase \<times> thread_pool" where
  "worker_woken signalled p =
     (if \<not> signalled \<and> tp_queue_len p = 0 \<and> \<not> tp_shutting_down p \<and> tp_workers p > tp_core_threads p
      then (Exited, p\<lparr>tp_workers := tp_workers p - 1\<rparr>)
      else worker_scan p)"

text \<open>The first slot of a worker that has been reaped.\<close>

fun joined_slot :: "nat \<Rightarrow> ncl_worker_slot list \<Rightarrow> nat option" where
  "joined_slot i [] = None"
| "joined_slot i (s # ss) = (if ws_joined s then Some i else joined_slot (Suc i) ss)"

text \<open>
  The second result tells what became of the thread: \<open>None\<close> when none was started,
  \<open>Some True\<close> when it was detached, \<open>Some False\<close> when a slot holds it.
\<close>

definition ncl_pool_add_worker :: "nat option \<Rightarrow> thread_pool \<Rightarrow> bool option \<times> thread_pool" where
  "ncl_pool_add_worker thread p =
     (if tp_workers p \<ge> tp_max_threads p then (None, p)
      else case thread of
        None \<Rightarrow> (None, p)
      | Some w \<Rightarrow>
          if int (tp_slot_count p) = tp_max_threads p
          then (case joined_slot 0 (take (tp_slot_count p) (tp_slots p)) of
                  Some i \<Rightarrow> (Some False,
                    p\<lparr>tp_slots := (tp_slots p)[i := \<lparr>ws_thread = Some w, ws_joined = False\<rparr>],
                      tp_workers := tp_workers p + 1\<rparr>)
                | None \<Rightarrow> (Some True, p\<lparr>tp_workers := tp_workers p + 1\<rparr>))
          else (Some False,
             p\<lparr>tp_slots := (tp_slots p)[tp_slot_count p := \<lparr>ws_thread = Some w, ws_joined = False\<rparr>],
               tp_slot_count := tp_slot_count p + 1, tp_workers := tp_workers p + 1\<rparr>))"

section \<open>Creation\<close>

text \<open>Thread identifiers are handed out in order: the first result is the next one.\<close>

fun core_loop :: "bool list \<Rightarrow> nat \<Rightarrow> thread_pool \<Rightarrow> nat \<times> thread_pool" where
  "core_loop [] n p = (n, p)"
| "core_loop (ok # oks) n p =
     (case ncl_pool_add_worker (if ok then Some n else None) p of
        (None, p1) \<Rightarrow> core_loop oks n p1
      | (Some _, p1) \<Rightarrow> core_loop oks (Suc n) p1)"

definition pool_zero :: "pool_options \<Rightarrow> thread_pool" where
  "pool_zero opts =
     \<lparr>tp_queue = replicate (po_queue_capacity opts) no_task, tp_queue_len = 0,
      tp_queue_capacity = po_queue_capacity opts, tp_queue_head = 0,
      tp_core_threads = po_core_threads opts, tp_max_threads = po_max_threads opts,
      tp_workers = 0, tp_idle_timeout_ms = po_idle_timeout_ms opts, tp_shutting_down = False,
      tp_slots = replicate (nat (po_max_threads opts)) \<lparr>ws_thread = None, ws_joined = False\<rparr>,
      tp_slot_count = 0\<rparr>"

text \<open>\<open>mem_ok\<close>: the allocations and the mutex succeed; \<open>start i\<close>: the i-th thread start succeeds.\<close>

definition ncl_thread_pool_create ::
  "bool \<Rightarrow> (nat \<Rightarrow> bool) \<Rightarrow> pool_options option \<Rightarrow> (nat \<times> thread_pool) option" where
  "ncl_thread_pool_create mem_ok start options =
     (let opts = (case options of None \<Rightarrow> ncl_thread_pool_options_default | Some opts \<Rightarrow> opts)
      in if po_core_threads opts < 0 \<or> po_max_threads opts < 1
            \<or> po_max_threads opts < po_core_threads opts \<or> po_queue_capacity opts < 1
         then None
         else if \<not> mem_ok then None
         else Some (core_loop (map start [0..<nat (po_core_threads opts)]) 0 (pool_zero opts)))"

section \<open>Submitting\<close>

text \<open>
  A submitting thread: in the waiting room (the i-th wait for a free place), about to run the
  task itself, or back with a status.
\<close>

datatype submit_phase = In_Room nat ncl_task | Inline ncl_task | Returned ncl_err

definition submit_loop :: "nat \<Rightarrow> ncl_task \<Rightarrow> thread_pool \<Rightarrow> submit_phase \<times> thread_pool" where
  "submit_loop i t p =
     (if i < 10 \<and> tp_queue_len p = tp_queue_capacity p then (In_Room i t, p)
      else if tp_queue_len p < tp_queue_capacity p then (Returned NCL_OK, ncl_pool_push t p)
      else (Inline t, p))"

definition submit_enter ::
  "nat option \<Rightarrow> ncl_task \<Rightarrow> thread_pool \<Rightarrow> submit_phase \<times> bool option \<times> thread_pool" where
  "submit_enter thread t p =
     (if task_fn t = None then (Returned NCL_ERR_INVALID_ARG, None, p)
      else if tp_shutting_down p then (Returned NCL_ERR_CLOSED, None, p)
      else if tp_queue_len p < tp_queue_capacity p
      then (Returned NCL_OK, None, ncl_pool_push t p)
      else if tp_workers p < tp_max_threads p
      then (case ncl_pool_add_worker thread p of (st, p1) \<Rightarrow>
              (case submit_loop 0 t p1 of (ph, p2) \<Rightarrow> (ph, st, p2)))
      else (Inline t, None, p))"

definition submit_woken :: "nat \<Rightarrow> ncl_task \<Rightarrow> thread_pool \<Rightarrow> submit_phase \<times> thread_pool" where
  "submit_woken i t p = submit_loop (Suc i) t p"

section \<open>Shutting down\<close>

text \<open>
  Running; draining the queue (\<open>wait\<close> is true and tasks are queued); joining the thread of slot
  \<open>i\<close>; the pool is freed.
\<close>

datatype down_phase = Up | Draining | Joining nat | Freed

definition shutdown_begin :: "bool \<Rightarrow> thread_pool \<Rightarrow> down_phase \<times> thread_pool" where
  "shutdown_begin wait p =
     ((if wait \<and> tp_queue_len p > 0 then Draining else Joining 0), p\<lparr>tp_shutting_down := True\<rparr>)"

definition shutdown_drain :: "thread_pool \<Rightarrow> down_phase" where
  "shutdown_drain p = (if tp_queue_len p > 0 then Draining else Joining 0)"

text \<open>\<open>exited w\<close>: thread \<open>w\<close> has returned, so joining it does. \<open>None\<close> while the join blocks.\<close>

definition shutdown_join :: "(nat \<Rightarrow> bool) \<Rightarrow> nat \<Rightarrow> thread_pool \<Rightarrow> (down_phase \<times> thread_pool) option" where
  "shutdown_join exited i p =
     (if i \<ge> tp_slot_count p then Some (Freed, p)
      else case ws_thread (tp_slots p ! i) of
        None \<Rightarrow> Some (Joining (Suc i), p)
      | Some w \<Rightarrow>
          if ws_joined (tp_slots p ! i) then Some (Joining (Suc i), p)
          else if exited w
          then Some (Joining (Suc i), p\<lparr>tp_slots := (tp_slots p)[i := (tp_slots p ! i)\<lparr>ws_joined := True\<rparr>]\<rparr>)
          else None)"

definition ncl_thread_pool_pending :: "thread_pool option \<Rightarrow> nat" where
  "ncl_thread_pool_pending p = (case p of None \<Rightarrow> 0 | Some p \<Rightarrow> tp_queue_len p)"

definition ncl_thread_pool_worker_count :: "thread_pool option \<Rightarrow> int" where
  "ncl_thread_pool_worker_count p = (case p of None \<Rightarrow> 0 | Some p \<Rightarrow> tp_workers p)"

text \<open>The shared pool: created on first use, and forgotten by its shutdown.\<close>

definition ncl_thread_service ::
  "bool \<Rightarrow> (nat \<Rightarrow> bool) \<Rightarrow> (nat \<times> thread_pool) option \<Rightarrow> (nat \<times> thread_pool) option" where
  "ncl_thread_service mem_ok start service =
     (case service of None \<Rightarrow> ncl_thread_pool_create mem_ok start (Some ncl_thread_pool_options_default)
      | Some p \<Rightarrow> Some p)"

section \<open>The pool at work\<close>

text \<open>
  A pool with its threads (by identifier), the threads that were detached, the submitting
  threads and a shutdown. The last four fields are history: the tasks of the submissions that
  were not refused, the tasks queued and the tasks taken by workers, in order, and the tasks
  that have been run.
\<close>

record pool_sys =
  ps_pool :: thread_pool
  ps_threads :: "worker_phase list"
  ps_detached :: "nat set"
  ps_clients :: "submit_phase list"
  ps_down :: down_phase
  ps_offered :: "ncl_task list"
  ps_pushed :: "ncl_task list"
  ps_popped :: "ncl_task list"
  ps_ran :: "ncl_task list"

text \<open>What a section of code did to the queue, read off the pool before and after.\<close>

definition pushed_of :: "submit_phase \<Rightarrow> ncl_task \<Rightarrow> ncl_task list" where
  "pushed_of ph t = (if ph = Returned NCL_OK then [t] else [])"

fun taken_of :: "worker_phase \<Rightarrow> ncl_task list" where
  "taken_of (Running t) = [t]"
| "taken_of ph = []"

fun refused :: "submit_phase \<Rightarrow> bool" where
  "refused (Returned e) \<longleftrightarrow> e \<noteq> NCL_OK"
| "refused ph \<longleftrightarrow> False"

definition spawn :: "bool option \<Rightarrow> pool_sys \<Rightarrow> pool_sys" where
  "spawn st s =
     (case st of None \<Rightarrow> s
      | Some detach \<Rightarrow>
          s\<lparr>ps_threads := ps_threads s @ [At_Lock],
            ps_detached := (if detach then insert (length (ps_threads s)) (ps_detached s) else ps_detached s)\<rparr>)"

definition sys_worker :: "nat \<Rightarrow> worker_phase \<times> thread_pool \<Rightarrow> pool_sys \<Rightarrow> pool_sys" where
  "sys_worker w r s =
     s\<lparr>ps_threads := (ps_threads s)[w := fst r], ps_pool := snd r,
       ps_popped := ps_popped s @ taken_of (fst r)\<rparr>"

definition sys_task_done :: "nat \<Rightarrow> ncl_task \<Rightarrow> pool_sys \<Rightarrow> pool_sys" where
  "sys_task_done w t s = s\<lparr>ps_threads := (ps_threads s)[w := At_Lock], ps_ran := ps_ran s @ [t]\<rparr>"

definition sys_submit :: "bool \<Rightarrow> ncl_task \<Rightarrow> pool_sys \<Rightarrow> pool_sys" where
  "sys_submit ok t s =
     (case submit_enter (if ok then Some (length (ps_threads s)) else None) t (ps_pool s) of
        (ph, st, p) \<Rightarrow>
          spawn st (s\<lparr>ps_pool := p, ps_clients := ps_clients s @ [ph],
             ps_offered := ps_offered s @ (if refused ph then [] else [t]),
             ps_pushed := ps_pushed s @ pushed_of ph t\<rparr>))"

definition sys_submit_woken :: "nat \<Rightarrow> nat \<Rightarrow> ncl_task \<Rightarrow> pool_sys \<Rightarrow> pool_sys" where
  "sys_submit_woken c i t s =
     (case submit_woken i t (ps_pool s) of
        (ph, p) \<Rightarrow> s\<lparr>ps_pool := p, ps_clients := (ps_clients s)[c := ph], ps_pushed := ps_pushed s @ pushed_of ph t\<rparr>)"

definition sys_inline :: "nat \<Rightarrow> ncl_task \<Rightarrow> pool_sys \<Rightarrow> pool_sys" where
  "sys_inline c t s = s\<lparr>ps_clients := (ps_clients s)[c := Returned NCL_OK], ps_ran := ps_ran s @ [t]\<rparr>"

definition sys_shutdown :: "bool \<Rightarrow> pool_sys \<Rightarrow> pool_sys" where
  "sys_shutdown wait s = (case shutdown_begin wait (ps_pool s) of (d, p) \<Rightarrow> s\<lparr>ps_down := d, ps_pool := p\<rparr>)"

definition has_exited :: "pool_sys \<Rightarrow> nat \<Rightarrow> bool" where
  "has_exited s w \<longleftrightarrow> w < length (ps_threads s) \<and> ps_threads s ! w = Exited"

text \<open>
  A wait may end with or without a signal at any time: the condition variable allows spurious
  wake-ups and the time limit may pass. Nothing happens once the pool is freed.
\<close>

inductive pool_sys_step :: "pool_sys \<Rightarrow> pool_sys \<Rightarrow> bool" where
  scan: "\<lbrakk>w < length (ps_threads s); ps_threads s ! w = At_Lock; ps_down s \<noteq> Freed\<rbrakk> \<Longrightarrow>
     pool_sys_step s (sys_worker w (worker_scan (ps_pool s)) s)"
| woken: "\<lbrakk>w < length (ps_threads s); ps_threads s ! w = Waiting; ps_down s \<noteq> Freed\<rbrakk> \<Longrightarrow>
     pool_sys_step s (sys_worker w (worker_woken signalled (ps_pool s)) s)"
| task_done: "\<lbrakk>w < length (ps_threads s); ps_threads s ! w = Running t\<rbrakk> \<Longrightarrow>
     pool_sys_step s (sys_task_done w t s)"
| submit: "ps_down s \<noteq> Freed \<Longrightarrow> pool_sys_step s (sys_submit ok t s)"
| room: "\<lbrakk>c < length (ps_clients s); ps_clients s ! c = In_Room i t; ps_down s \<noteq> Freed\<rbrakk> \<Longrightarrow>
     pool_sys_step s (sys_submit_woken c i t s)"
| inline: "\<lbrakk>c < length (ps_clients s); ps_clients s ! c = Inline t\<rbrakk> \<Longrightarrow>
     pool_sys_step s (sys_inline c t s)"
| down: "ps_down s = Up \<Longrightarrow> pool_sys_step s (sys_shutdown wait s)"
| drain: "ps_down s = Draining \<Longrightarrow> pool_sys_step s (s\<lparr>ps_down := shutdown_drain (ps_pool s)\<rparr>)"
| join: "\<lbrakk>ps_down s = Joining i; shutdown_join (has_exited s) i (ps_pool s) = Some (d, p)\<rbrakk> \<Longrightarrow>
     pool_sys_step s (s\<lparr>ps_down := d, ps_pool := p\<rparr>)"

definition sys_init :: "nat \<Rightarrow> thread_pool \<Rightarrow> pool_sys" where
  "sys_init n p =
     \<lparr>ps_pool = p, ps_threads = replicate n At_Lock, ps_detached = {}, ps_clients = [], ps_down = Up,
      ps_offered = [], ps_pushed = [], ps_popped = [], ps_ran = []\<rparr>"

inductive pool_sys_reach :: "pool_options option \<Rightarrow> pool_sys \<Rightarrow> bool" for opts where
  created: "ncl_thread_pool_create mem_ok start opts = Some (n, p) \<Longrightarrow>
     pool_sys_reach opts (sys_init n p)"
| step: "\<lbrakk>pool_sys_reach opts s; pool_sys_step s s'\<rbrakk> \<Longrightarrow> pool_sys_reach opts s'"

inductive_cases pool_sys_stepE: "pool_sys_step s s'"

section \<open>Scripts\<close>

text \<open>A run written as a list of events, and its execution.\<close>

datatype pool_event =
  Ev_Scan nat | Ev_Woken nat bool | Ev_Done nat | Ev_Submit bool ncl_task | Ev_Room nat | Ev_Inline nat
| Ev_Down bool | Ev_Drain | Ev_Join

fun pool_event_do :: "pool_event \<Rightarrow> pool_sys \<Rightarrow> pool_sys option" where
  "pool_event_do (Ev_Scan w) s =
     (if w < length (ps_threads s) \<and> ps_threads s ! w = At_Lock \<and> ps_down s \<noteq> Freed
      then Some (sys_worker w (worker_scan (ps_pool s)) s) else None)"
| "pool_event_do (Ev_Woken w b) s =
     (if w < length (ps_threads s) \<and> ps_threads s ! w = Waiting \<and> ps_down s \<noteq> Freed
      then Some (sys_worker w (worker_woken b (ps_pool s)) s) else None)"
| "pool_event_do (Ev_Done w) s =
     (if w < length (ps_threads s)
      then (case ps_threads s ! w of Running t \<Rightarrow> Some (sys_task_done w t s) | _ \<Rightarrow> None) else None)"
| "pool_event_do (Ev_Submit ok t) s = (if ps_down s \<noteq> Freed then Some (sys_submit ok t s) else None)"
| "pool_event_do (Ev_Room c) s =
     (if c < length (ps_clients s) \<and> ps_down s \<noteq> Freed
      then (case ps_clients s ! c of In_Room i t \<Rightarrow> Some (sys_submit_woken c i t s) | _ \<Rightarrow> None) else None)"
| "pool_event_do (Ev_Inline c) s =
     (if c < length (ps_clients s)
      then (case ps_clients s ! c of Inline t \<Rightarrow> Some (sys_inline c t s) | _ \<Rightarrow> None) else None)"
| "pool_event_do (Ev_Down wait) s = (if ps_down s = Up then Some (sys_shutdown wait s) else None)"
| "pool_event_do Ev_Drain s =
     (if ps_down s = Draining then Some (s\<lparr>ps_down := shutdown_drain (ps_pool s)\<rparr>) else None)"
| "pool_event_do Ev_Join s =
     (case ps_down s of
        Joining i \<Rightarrow> (case shutdown_join (has_exited s) i (ps_pool s) of
            Some (d, p) \<Rightarrow> Some (s\<lparr>ps_down := d, ps_pool := p\<rparr>) | None \<Rightarrow> None)
      | _ \<Rightarrow> None)"

fun pool_script :: "pool_event list \<Rightarrow> pool_sys \<Rightarrow> pool_sys option" where
  "pool_script [] s = Some s"
| "pool_script (e # es) s = (case pool_event_do e s of None \<Rightarrow> None | Some s1 \<Rightarrow> pool_script es s1)"

lemma pool_event_do_step: "pool_event_do e s = Some s' \<Longrightarrow> pool_sys_step s s'"
  by (cases e) (auto split: if_splits worker_phase.splits submit_phase.splits down_phase.splits
      option.splits prod.splits intro: pool_sys_step.intros)

lemma pool_script_steps: "pool_script es s = Some s' \<Longrightarrow> pool_sys_step\<^sup>*\<^sup>* s s'"
proof (induction es arbitrary: s)
  case (Cons e es)
  then obtain s1 where "pool_event_do e s = Some s1" "pool_script es s1 = Some s'"
    by (auto split: option.splits)
  then show ?case
    using Cons.IH pool_event_do_step by (meson converse_rtranclp_into_rtranclp)
qed simp

lemma pool_sys_reach_steps: "\<lbrakk>pool_sys_step\<^sup>*\<^sup>* s s'; pool_sys_reach opts s\<rbrakk> \<Longrightarrow> pool_sys_reach opts s'"
  by (induction rule: rtranclp_induct) (auto intro: pool_sys_reach.step)

end
