(* ===== verification/Thread_Pool_Props.thy ===== *)
theory Thread_Pool_Props
  imports Thread_Pool
begin

text \<open>
  Correctness of the thread pool: the ring buffer is a bounded queue, the invariant of the pool
  at work, and what a shutdown guarantees.
\<close>

section \<open>Queues\<close>

datatype 'a queue_op = Put 'a | Take

text \<open>Running operations on a queue: a put that does not fit is skipped, a take of nothing answers \<open>d\<close>.\<close>

fun queue_run ::
  "('q \<Rightarrow> nat) \<Rightarrow> ('q \<Rightarrow> nat) \<Rightarrow> ('a \<Rightarrow> 'q \<Rightarrow> 'q) \<Rightarrow> ('q \<Rightarrow> 'a \<times> 'q) \<Rightarrow> 'a queue_op list \<Rightarrow> 'q \<Rightarrow> 'a list \<times> 'q" where
  "queue_run len cap put pull [] q = ([], q)"
| "queue_run len cap put pull (Put x # ops) q =
     queue_run len cap put pull ops (if len q < cap q then put x q else q)"
| "queue_run len cap put pull (Take # ops) q =
     (case pull q of (x, q1) \<Rightarrow> (case queue_run len cap put pull ops q1 of (xs, q2) \<Rightarrow> (x # xs, q2)))"

fun list_take :: "'a \<Rightarrow> 'a list \<Rightarrow> 'a \<times> 'a list" where
  "list_take d [] = (d, [])"
| "list_take d (x # xs) = (x, xs)"

locale bounded_queue =
  fixes len :: "'q \<Rightarrow> nat"
    and cap :: "'q \<Rightarrow> nat"
    and put :: "'a \<Rightarrow> 'q \<Rightarrow> 'q"
    and pull :: "'q \<Rightarrow> 'a \<times> 'q"
    and items :: "'q \<Rightarrow> 'a list"
    and ok :: "'q \<Rightarrow> bool"
    and none :: 'a
  assumes len_items: "ok q \<Longrightarrow> len q = length (items q)"
    and put_items: "\<lbrakk>ok q; len q < cap q\<rbrakk> \<Longrightarrow> items (put x q) = items q @ [x]"
    and put_ok: "\<lbrakk>ok q; len q < cap q\<rbrakk> \<Longrightarrow> ok (put x q) \<and> cap (put x q) = cap q"
    and take_none: "\<lbrakk>ok q; items q = []\<rbrakk> \<Longrightarrow> pull q = (none, q)"
    and take_items: "\<lbrakk>ok q; items q = x # xs\<rbrakk> \<Longrightarrow> fst (pull q) = x \<and> items (snd (pull q)) = xs"
    and take_ok: "ok q \<Longrightarrow> ok (snd (pull q)) \<and> cap (snd (pull q)) = cap q"
begin

lemma take_list:
  "ok q \<Longrightarrow> fst (pull q) = fst (list_take none (items q)) \<and> items (snd (pull q)) = snd (list_take none (items q))"
  using take_none take_items by (cases "items q") auto

lemma run_list:
  "ok q \<Longrightarrow>
     fst (queue_run len cap put pull ops q)
       = fst (queue_run length (\<lambda>_. cap q) (\<lambda>x xs. xs @ [x]) (list_take none) ops (items q)) \<and>
     items (snd (queue_run len cap put pull ops q))
       = snd (queue_run length (\<lambda>_. cap q) (\<lambda>x xs. xs @ [x]) (list_take none) ops (items q)) \<and>
     ok (snd (queue_run len cap put pull ops q))"
proof (induction ops arbitrary: q)
  case (Cons op ops)
  show ?case
  proof (cases op)
    case (Put x)
    then show ?thesis
      using Cons.prems Cons.IH [of "put x q"] Cons.IH [of q]
      by (simp add: put_ok put_items len_items [symmetric])
  next
    case Take
    show ?thesis
      using Cons.IH [of "snd (pull q)"] take_ok [OF Cons.prems] take_list [OF Cons.prems]
      by (simp add: Take case_prod_beta)
  qed
qed simp

end

section \<open>The ring buffer\<close>

definition ring :: "thread_pool \<Rightarrow> ncl_task list" where
  "ring p = map (\<lambda>i. tp_queue p ! ((tp_queue_head p + i) mod tp_queue_capacity p)) [0..<tp_queue_len p]"

definition ring_ok :: "thread_pool \<Rightarrow> bool" where
  "ring_ok p \<longleftrightarrow> length (tp_queue p) = tp_queue_capacity p \<and> tp_queue_head p < tp_queue_capacity p
     \<and> tp_queue_len p \<le> tp_queue_capacity p"

lemma length_ring [simp]: "length (ring p) = tp_queue_len p"
  by (simp add: ring_def)

lemma ring_slots_differ:
  fixes h i j c :: nat
  assumes "i < j" "j < i + c"
  shows "(h + i) mod c \<noteq> (h + j) mod c"
proof
  assume "(h + i) mod c = (h + j) mod c"
  then have "c dvd (h + j) - (h + i)"
    by (metis mod_eq_dvd_iff_nat nat_le_linear le_add_diff_inverse2 diff_is_0_eq dvd_0_right)
  then have "c dvd j - i" by simp
  with assms show False
    by (metis nat_dvd_not_less zero_less_diff less_diff_conv2 add.commute less_imp_le_nat)
qed

lemma ring_push:
  assumes "ring_ok p" "tp_queue_len p < tp_queue_capacity p"
  shows "ring (ncl_pool_push t p) = ring p @ [t]"
proof -
  have "(tp_queue_head p + tp_queue_len p) mod tp_queue_capacity p
        \<noteq> (tp_queue_head p + i) mod tp_queue_capacity p" if "i < tp_queue_len p" for i
    using that assms(2) by (intro ring_slots_differ [THEN not_sym]) auto
  moreover have "(tp_queue_head p + tp_queue_len p) mod tp_queue_capacity p < tp_queue_capacity p"
    using assms(2) by (intro mod_less_divisor) simp
  ultimately show ?thesis
    using assms by (simp add: ring_def ncl_pool_push_def Let_def ring_ok_def)
qed

lemma push_ring_ok:
  "\<lbrakk>ring_ok p; tp_queue_len p < tp_queue_capacity p\<rbrakk> \<Longrightarrow>
     ring_ok (ncl_pool_push t p) \<and> tp_queue_capacity (ncl_pool_push t p) = tp_queue_capacity p"
  by (simp add: ring_ok_def ncl_pool_push_def Let_def)

lemma ring_pop:
  assumes "ring_ok p" "ring p = t # ts"
  shows "fst (ncl_pool_pop p) = t \<and> ring (snd (ncl_pool_pop p)) = ts"
proof -
  obtain n where n: "tp_queue_len p = Suc n"
    using assms(2) length_ring [of p] by (cases "tp_queue_len p") auto
  have "ring p = tp_queue p ! (tp_queue_head p mod tp_queue_capacity p)
      # map (\<lambda>i. tp_queue p ! ((tp_queue_head p + Suc i) mod tp_queue_capacity p)) [0..<n]"
    by (simp add: ring_def n upt_conv_Cons map_Suc_upt [symmetric] del: upt_Suc)
  with assms show ?thesis
    by (simp add: ring_def ncl_pool_pop_def n ring_ok_def mod_add_left_eq) 
qed

lemma pop_ring_ok:
  "ring_ok p \<Longrightarrow> ring_ok (snd (ncl_pool_pop p)) \<and> tp_queue_capacity (snd (ncl_pool_pop p)) = tp_queue_capacity p"
  by (auto simp: ring_ok_def ncl_pool_pop_def intro: mod_less_divisor)

interpretation ringq: bounded_queue tp_queue_len tp_queue_capacity ncl_pool_push ncl_pool_pop ring ring_ok no_task
proof unfold_locales
  fix p :: thread_pool
  assume "ring_ok p" "ring p = []"
  then show "ncl_pool_pop p = (no_task, p)"
    by (metis length_ring list.size(3) ncl_pool_pop_def)
qed (simp_all add: ring_push push_ring_ok ring_pop pop_ring_ok)

end
