(* ===== verification/Thread_Pool_Inv.thy ===== *)
theory Thread_Pool_Inv
  imports Thread_Pool_Props
begin

text \<open>
  The invariant of the pool at work: no task is lost or duplicated, the counters are exact, and
  every thread that was not detached is held by a slot.
\<close>

section \<open>Tasks in flight\<close>

fun client_task :: "submit_phase \<Rightarrow> ncl_task list" where
  "client_task (In_Room i t) = [t]"
| "client_task (Inline t) = [t]"
| "client_task (Returned e) = []"

definition held :: "pool_sys \<Rightarrow> ncl_task list" where
  "held s = concat (map taken_of (ps_threads s)) @ concat (map client_task (ps_clients s))"

definition live_count :: "worker_phase list \<Rightarrow> nat" where
  "live_count ts = length (filter (\<lambda>ph. ph \<noteq> Exited) ts)"

lemma mset_concat_update:
  "i < length xs \<Longrightarrow>
     mset (concat (map f (xs[i := y]))) + mset (f (xs ! i)) = mset (concat (map f xs)) + mset (f y)"
proof (induction xs arbitrary: i)
  case (Cons x xs)
  then show ?case by (cases i) (simp_all add: union_ac)
qed simp

lemma mset_concat_put:
  assumes "i < length xs" "f (xs ! i) = []"
  shows "mset (concat (map f (xs[i := y]))) = mset (concat (map f xs)) + mset (f y)"
  using mset_concat_update [OF assms(1), of f y] assms(2) by simp

lemma mset_concat_drop:
  assumes "i < length xs" "f y = []"
  shows "mset (concat (map f (xs[i := y]))) + mset (f (xs ! i)) = mset (concat (map f xs))"
  using mset_concat_update [OF assms(1), of f y] assms(2) by simp

lemma live_count_append [simp]: "live_count (ts @ [ph]) = live_count ts + (if ph = Exited then 0 else 1)"
  by (simp add: live_count_def)

lemma live_count_update:
  "\<lbrakk>w < length ts; ts ! w \<noteq> Exited\<rbrakk> \<Longrightarrow>
     Suc (live_count (ts[w := ph])) = live_count ts + (if ph = Exited then 0 else 1)"
proof (induction ts arbitrary: w)
  case (Cons x ts)
  then show ?case by (cases w) (auto simp: live_count_def)
qed simp

section \<open>What each section of code does\<close>

lemma pop_fields [simp]:
  "tp_workers (snd (ncl_pool_pop p)) = tp_workers p" "tp_slots (snd (ncl_pool_pop p)) = tp_slots p"
  "tp_slot_count (snd (ncl_pool_pop p)) = tp_slot_count p" "tp_max_threads (snd (ncl_pool_pop p)) = tp_max_threads p"
  "tp_core_threads (snd (ncl_pool_pop p)) = tp_core_threads p"
  "tp_shutting_down (snd (ncl_pool_pop p)) = tp_shutting_down p"
  by (simp_all add: ncl_pool_pop_def)

lemma push_fields [simp]:
  "tp_workers (ncl_pool_push t p) = tp_workers p" "tp_slots (ncl_pool_push t p) = tp_slots p"
  "tp_slot_count (ncl_pool_push t p) = tp_slot_count p" "tp_max_threads (ncl_pool_push t p) = tp_max_threads p"
  "tp_core_threads (ncl_pool_push t p) = tp_core_threads p"
  "tp_shutting_down (ncl_pool_push t p) = tp_shutting_down p"
  by (simp_all add: ncl_pool_push_def Let_def)

text \<open>The fields that only a worker's death, a start and a shutdown change.\<close>

definition same_staff :: "thread_pool \<Rightarrow> thread_pool \<Rightarrow> bool" where
  "same_staff p p1 \<longleftrightarrow> tp_slots p1 = tp_slots p \<and> tp_slot_count p1 = tp_slot_count p
     \<and> tp_max_threads p1 = tp_max_threads p \<and> tp_core_threads p1 = tp_core_threads p
     \<and> tp_shutting_down p1 = tp_shutting_down p"

lemma worker_scan_effect:
  assumes "ring_ok p" "worker_scan p = (ph, p1)"
  shows "ring p = taken_of ph @ ring p1 \<and> ring_ok p1 \<and> same_staff p p1 \<and> tp_workers p1 = tp_workers p"
    "ph = Exited \<Longrightarrow> ring p = [] \<and> tp_shutting_down p"
proof -
  show "ring p = taken_of ph @ ring p1 \<and> ring_ok p1 \<and> same_staff p p1 \<and> tp_workers p1 = tp_workers p"
  proof (cases "ring p")
    case Nil
    then have "tp_queue_len p = 0" by (metis length_ring list.size(3))
    with assms show ?thesis
      by (auto simp: worker_scan_def same_staff_def ring_def split: if_splits)
  next
    case (Cons t ts)
    then have "tp_queue_len p > 0" by (metis length_ring length_greater_0_conv list.distinct(1))
    with assms ring_pop [OF assms(1) Cons] pop_ring_ok [OF assms(1)] show ?thesis
      by (auto simp: worker_scan_def same_staff_def Cons case_prod_beta)
  qed
  show "ph = Exited \<Longrightarrow> ring p = [] \<and> tp_shutting_down p"
    using assms(2) by (auto simp: worker_scan_def ring_def split: if_splits prod.splits)
qed

lemma worker_woken_effect:
  assumes "ring_ok p" "worker_woken b p = (ph, p1)"
  shows "ring p = taken_of ph @ ring p1 \<and> ring_ok p1 \<and> same_staff p p1"
    "ph = Exited \<Longrightarrow> ring p = [] \<and> (tp_shutting_down p \<or> tp_workers p1 = tp_workers p - 1)"
    "ph \<noteq> Exited \<Longrightarrow> tp_workers p1 = tp_workers p"
    "tp_workers p1 \<le> tp_workers p"
proof -
  have early: "ring p = [] \<and> ring p1 = [] \<and> ring_ok p1 \<and> same_staff p p1 \<and> tp_workers p1 = tp_workers p - 1 \<and> ph = Exited"
    if "\<not> b \<and> tp_queue_len p = 0 \<and> \<not> tp_shutting_down p \<and> tp_workers p > tp_core_threads p"
    using that assms by (auto simp: worker_woken_def ring_def ring_ok_def same_staff_def)
  have late: "worker_scan p = (ph, p1)"
    if "\<not> (\<not> b \<and> tp_queue_len p = 0 \<and> \<not> tp_shutting_down p \<and> tp_workers p > tp_core_threads p)"
    using that assms(2) by (auto simp: worker_woken_def split: if_splits)
  show "ring p = taken_of ph @ ring p1 \<and> ring_ok p1 \<and> same_staff p p1"
    "ph = Exited \<Longrightarrow> ring p = [] \<and> (tp_shutting_down p \<or> tp_workers p1 = tp_workers p - 1)"
    "ph \<noteq> Exited \<Longrightarrow> tp_workers p1 = tp_workers p"
    "tp_workers p1 \<le> tp_workers p"
    using early late worker_scan_effect [OF assms(1)] by fastforce+
qed

lemma add_worker_queue:
  assumes "ncl_pool_add_worker th p = (st, p1)"
  shows "ring p1 = ring p \<and> (ring_ok p \<longrightarrow> ring_ok p1) \<and> tp_queue_len p1 = tp_queue_len p
     \<and> tp_queue_capacity p1 = tp_queue_capacity p \<and> tp_shutting_down p1 = tp_shutting_down p
     \<and> tp_max_threads p1 = tp_max_threads p \<and> tp_core_threads p1 = tp_core_threads p"
  using assms by (auto simp: ncl_pool_add_worker_def ring_def ring_ok_def split: if_splits option.splits)

lemma submit_loop_effect:
  assumes "ring_ok p" "submit_loop i t p = (ph, p1)"
  shows "ring p1 = ring p @ pushed_of ph t \<and> ring_ok p1 \<and> same_staff p p1 \<and> tp_workers p1 = tp_workers p
     \<and> \<not> refused ph \<and> mset (pushed_of ph t) + mset (client_task ph) = {#t#}"
  using assms ring_push [OF assms(1), of t] push_ring_ok [OF assms(1), of t]
  by (auto simp: submit_loop_def same_staff_def pushed_of_def split: if_splits)

lemma submit_enter_effect:
  assumes "ring_ok p" "submit_enter th t p = (ph, st, p1)"
  shows "ring p1 = ring p @ pushed_of ph t \<and> ring_ok p1 \<and> tp_shutting_down p1 = tp_shutting_down p
     \<and> mset (if refused ph then [] else [t]) = mset (pushed_of ph t) + mset (client_task ph)"
    "st = None \<Longrightarrow> same_staff p p1 \<and> tp_workers p1 = tp_workers p"
    "st = Some d \<Longrightarrow> \<not> tp_shutting_down p
       \<and> (\<exists>p2. ncl_pool_add_worker th p = (st, p2) \<and> same_staff p2 p1 \<and> tp_workers p1 = tp_workers p2)"
proof -
  consider (no) "task_fn t = None \<or> tp_shutting_down p"
    | (push) "task_fn t \<noteq> None" "\<not> tp_shutting_down p" "tp_queue_len p < tp_queue_capacity p"
    | (grow) "task_fn t \<noteq> None" "\<not> tp_shutting_down p" "\<not> tp_queue_len p < tp_queue_capacity p" "tp_workers p < tp_max_threads p"
    | (inline) "task_fn t \<noteq> None" "\<not> tp_shutting_down p" "\<not> tp_queue_len p < tp_queue_capacity p" "\<not> tp_workers p < tp_max_threads p"
    by blast
  note which = this
  have staff: "st = None \<longrightarrow> same_staff p p1 \<and> tp_workers p1 = tp_workers p"
    if "ncl_pool_add_worker th p = (st, p2)" "same_staff p2 p1" "tp_workers p1 = tp_workers p2" for p2
    using that by (auto simp: ncl_pool_add_worker_def same_staff_def split: if_splits option.splits)
  show "ring p1 = ring p @ pushed_of ph t \<and> ring_ok p1 \<and> tp_shutting_down p1 = tp_shutting_down p
     \<and> mset (if refused ph then [] else [t]) = mset (pushed_of ph t) + mset (client_task ph)"
  proof (cases rule: which)
    case grow
    then obtain p2 where p2: "ncl_pool_add_worker th p = (st, p2)" "submit_loop 0 t p2 = (ph, p1)"
      using assms(2) grow by (auto simp: submit_enter_def split: prod.splits if_splits)
    note q = add_worker_queue [OF p2(1)]
    show ?thesis
      using q submit_loop_effect [OF _ p2(2)] assms(1) by (auto simp: same_staff_def)
  qed (use assms ring_push [OF assms(1), of t] push_ring_ok [OF assms(1), of t] in
      \<open>auto simp: submit_enter_def pushed_of_def split: if_splits\<close>)
  have grown: "\<exists>p2. ncl_pool_add_worker th p = (st, p2) \<and> same_staff p2 p1 \<and> tp_workers p1 = tp_workers p2"
    if g: "task_fn t \<noteq> None" "\<not> tp_shutting_down p" "\<not> tp_queue_len p < tp_queue_capacity p" "tp_workers p < tp_max_threads p"
  proof -
    obtain p2 where p2: "ncl_pool_add_worker th p = (st, p2)" "submit_loop 0 t p2 = (ph, p1)"
      using assms(2) g by (auto simp: submit_enter_def split: prod.splits if_splits)
    then show ?thesis
      using submit_loop_effect [OF _ p2(2)] add_worker_queue [OF p2(1)] assms(1) by auto
  qed
  have other: "st = None \<and> same_staff p p1 \<and> tp_workers p1 = tp_workers p"
    if "\<not> (task_fn t \<noteq> None \<and> \<not> tp_shutting_down p \<and> \<not> tp_queue_len p < tp_queue_capacity p \<and> tp_workers p < tp_max_threads p)"
    using that assms(2) by (auto simp: submit_enter_def same_staff_def split: if_splits)
  show "st = None \<Longrightarrow> same_staff p p1 \<and> tp_workers p1 = tp_workers p"
    using grown staff other by blast
  show "st = Some d \<Longrightarrow> \<not> tp_shutting_down p
       \<and> (\<exists>p2. ncl_pool_add_worker th p = (st, p2) \<and> same_staff p2 p1 \<and> tp_workers p1 = tp_workers p2)"
    using grown other by blast
qed

section \<open>No task is lost\<close>

definition flow_inv :: "pool_sys \<Rightarrow> bool" where
  "flow_inv s \<longleftrightarrow> ring_ok (ps_pool s) \<and> ps_pushed s = ps_popped s @ ring (ps_pool s)
     \<and> mset (ps_offered s) = mset (ring (ps_pool s)) + mset (held s) + mset (ps_ran s)"

lemma flow_worker:
  assumes "flow_inv s" "w < length (ps_threads s)" "taken_of (ps_threads s ! w) = []"
    "ring (ps_pool s) = taken_of (fst r) @ ring (snd r)" "ring_ok (snd r)"
  shows "flow_inv (sys_worker w r s)"
  using assms mset_concat_put [where f = taken_of, OF assms(2,3), of "fst r"]
  by (simp add: flow_inv_def sys_worker_def held_def union_ac)

lemma spawn_queue [simp]:
  "ps_pool (spawn st s) = ps_pool s" "ps_pushed (spawn st s) = ps_pushed s" "ps_popped (spawn st s) = ps_popped s"
  "ps_offered (spawn st s) = ps_offered s" "ps_ran (spawn st s) = ps_ran s" "held (spawn st s) = held s"
  "ps_clients (spawn st s) = ps_clients s" "ps_down (spawn st s) = ps_down s"
  by (simp_all add: spawn_def held_def split: option.split)

lemma spawn_tasks [simp]: "concat (map taken_of (ps_threads (spawn st s))) = concat (map taken_of (ps_threads s))"
  by (simp add: spawn_def split: option.split)

lemma flow_submit:
  assumes "flow_inv s"
  shows "flow_inv (sys_submit ok t s)"
proof -
  obtain ph st p1 where e: "submit_enter (if ok then Some (length (ps_threads s)) else None) t (ps_pool s) = (ph, st, p1)"
    by (metis prod_cases3)
  show ?thesis
    using assms submit_enter_effect(1) [OF _ e]
    by (auto simp: flow_inv_def sys_submit_def e held_def union_ac)
qed

lemma flow_room:
  assumes "flow_inv s" "c < length (ps_clients s)" "ps_clients s ! c = In_Room i t"
  shows "flow_inv (sys_submit_woken c i t s)"
proof -
  obtain ph p1 where e: "submit_loop (Suc i) t (ps_pool s) = (ph, p1)"
    by fastforce
  then have split: "mset (pushed_of ph t) + mset (client_task ph) = {#t#}"
    and queue: "ring p1 = ring (ps_pool s) @ pushed_of ph t" "ring_ok p1"
    using submit_loop_effect [OF _ e] assms(1) by (auto simp: flow_inv_def)
  define rest where "rest = mset (concat (map client_task ((ps_clients s)[c := ph])))"
  have "rest + {#t#} = mset (concat (map client_task (ps_clients s))) + mset (client_task ph)"
    using mset_concat_update [OF assms(2), of client_task ph] assms(3) by (simp add: rest_def)
  then have "rest + mset (pushed_of ph t) + mset (client_task ph)
      = mset (concat (map client_task (ps_clients s))) + mset (client_task ph)"
    by (simp add: split add.assoc)
  then have "mset (concat (map client_task (ps_clients s))) = rest + mset (pushed_of ph t)"
    by simp
  then show ?thesis
    using assms(1) queue
    by (simp add: flow_inv_def sys_submit_woken_def submit_woken_def e held_def rest_def [symmetric] union_ac)
qed

lemma flow_step: "\<lbrakk>pool_sys_step s s'; flow_inv s\<rbrakk> \<Longrightarrow> flow_inv s'"
proof (induction rule: pool_sys_step.induct)
  case (scan w s)
  then show ?case
    using worker_scan_effect(1) [OF _ surjective_pairing, of "ps_pool s"]
    by (intro flow_worker) (auto simp: flow_inv_def)
next
  case (woken w s b)
  then show ?case
    using worker_woken_effect(1) [OF _ surjective_pairing, of "ps_pool s" b]
    by (intro flow_worker) (auto simp: flow_inv_def)
next
  case (task_done w s t)
  then show ?case
    using mset_concat_drop [of w "ps_threads s" taken_of At_Lock]
    by (auto simp: flow_inv_def sys_task_done_def held_def union_ac)
next
  case (inline c s t)
  then show ?case
    using mset_concat_drop [of c "ps_clients s" client_task "Returned NCL_OK"]
    by (auto simp: flow_inv_def sys_inline_def held_def union_ac)
next
  case (join s i d p)
  then have "ring p = ring (ps_pool s) \<and> ring_ok p"
    by (auto simp: shutdown_join_def flow_inv_def ring_def ring_ok_def split: if_splits option.splits)
  with join show ?case by (simp add: flow_inv_def held_def)
qed (auto simp: flow_submit flow_room, auto simp: flow_inv_def sys_shutdown_def shutdown_begin_def held_def ring_def ring_ok_def)

section \<open>The staff\<close>

definition slot_ok :: "pool_sys \<Rightarrow> nat \<Rightarrow> bool" where
  "slot_ok s i \<longleftrightarrow> (case ws_thread (tp_slots (ps_pool s) ! i) of None \<Rightarrow> False
     | Some w \<Rightarrow> w < length (ps_threads s) \<and> (ps_down s = Up \<longrightarrow> \<not> ws_joined (tp_slots (ps_pool s) ! i))
         \<and> (ws_joined (tp_slots (ps_pool s) ! i) \<longrightarrow> ps_threads s ! w = Exited))"

definition joined_below :: "pool_sys \<Rightarrow> nat \<Rightarrow> bool" where
  "joined_below s k \<longleftrightarrow> (\<forall>i<k. i < tp_slot_count (ps_pool s) \<longrightarrow> ws_joined (tp_slots (ps_pool s) ! i))"

definition staff_inv :: "pool_sys \<Rightarrow> bool" where
  "staff_inv s \<longleftrightarrow>
     (let p = ps_pool s
      in int (length (tp_slots p)) = tp_max_threads p \<and> int (tp_slot_count p) \<le> tp_max_threads p
       \<and> 0 \<le> tp_core_threads p \<and> tp_core_threads p \<le> tp_max_threads p
       \<and> tp_workers p \<le> tp_max_threads p
       \<and> (ps_down s = Up \<longleftrightarrow> \<not> tp_shutting_down p)
       \<and> (\<not> tp_shutting_down p \<longrightarrow> tp_workers p = int (live_count (ps_threads s)))
       \<and> (\<forall>i<tp_slot_count p. slot_ok s i)
       \<and> (\<forall>w<length (ps_threads s). w \<notin> ps_detached s \<longrightarrow> (\<exists>i<tp_slot_count p. ws_thread (tp_slots p ! i) = Some w))
       \<and> (case ps_down s of Joining k \<Rightarrow> joined_below s k | Freed \<Rightarrow> joined_below s (tp_slot_count p) | _ \<Rightarrow> True))"

lemma slot_ok_worker:
  "\<lbrakk>slot_ok s i; w < length (ps_threads s); ps_threads s ! w \<noteq> Exited;
    same_staff (ps_pool s) (ps_pool s1); ps_threads s1 = (ps_threads s)[w := ph]; ps_down s1 = ps_down s\<rbrakk> \<Longrightarrow> slot_ok s1 i"
  by (auto simp: slot_ok_def same_staff_def nth_list_update split: option.splits)

lemma joined_below_same: "same_staff (ps_pool s) (ps_pool s1) \<Longrightarrow> joined_below s1 k = joined_below s k"
  by (simp add: joined_below_def same_staff_def)

text \<open>A worker's section keeps the staff in order when it changes the number of workers by its own death only.\<close>

lemma staff_worker:
  assumes "staff_inv s" "w < length (ps_threads s)" "ps_threads s ! w \<noteq> Exited"
    "same_staff (ps_pool s) (ps_pool s1)" "ps_threads s1 = (ps_threads s)[w := ph]" "ps_down s1 = ps_down s"
    "ps_detached s1 = ps_detached s" "tp_workers (ps_pool s1) \<le> tp_workers (ps_pool s)"
    "\<not> tp_shutting_down (ps_pool s) \<Longrightarrow>
       tp_workers (ps_pool s1) = tp_workers (ps_pool s) - (if ph = Exited then 1 else 0)"
  shows "staff_inv s1"
proof -
  have "\<not> tp_shutting_down (ps_pool s) \<Longrightarrow> tp_workers (ps_pool s1) = int (live_count (ps_threads s1))"
    using assms(1) assms(9) live_count_update [OF assms(2,3), of ph]
    by (auto simp: staff_inv_def Let_def assms(5) split: if_splits)
  moreover have "slot_ok s i \<Longrightarrow> slot_ok s1 i" for i
    using slot_ok_worker assms by blast
  ultimately show ?thesis
    using assms(1,4-8) joined_below_same [OF assms(4)]
    by (auto simp: staff_inv_def Let_def same_staff_def split: down_phase.splits)
qed

lemma staff_same:
  assumes "staff_inv s" "same_staff (ps_pool s) (ps_pool s1)" "ps_threads s1 = ps_threads s"
    "ps_down s1 = ps_down s" "ps_detached s1 = ps_detached s" "tp_workers (ps_pool s1) = tp_workers (ps_pool s)"
  shows "staff_inv s1"
proof -
  have "slot_ok s1 i = slot_ok s i" for i
    using assms by (auto simp: slot_ok_def same_staff_def split: option.splits)
  then show ?thesis
    using assms joined_below_same [OF assms(2)]
    by (auto simp: staff_inv_def Let_def same_staff_def split: down_phase.splits)
qed

lemma joined_slot_None: "(\<And>x. x \<in> set ss \<Longrightarrow> \<not> ws_joined x) \<Longrightarrow> joined_slot i ss = None"
  by (induction ss arbitrary: i) auto

lemma slot_unjoined:
  assumes "staff_inv s" "ps_down s = Up" "x \<in> set (take (tp_slot_count (ps_pool s)) (tp_slots (ps_pool s)))"
  shows "\<not> ws_joined x"
proof -
  obtain i where "i < tp_slot_count (ps_pool s)" "x = tp_slots (ps_pool s) ! i"
    using assms(3) by (auto simp: in_set_conv_nth)
  then show ?thesis
    using assms(1,2) by (auto simp: staff_inv_def Let_def slot_ok_def split: option.splits)
qed

text \<open>While the pool is up no slot is ever free for reuse: a start beyond the slots is detached.\<close>

lemma add_worker_up:
  assumes "staff_inv s" "ps_down s = Up" "ncl_pool_add_worker th (ps_pool s) = (Some d, p1)"
  obtains w where "th = Some w" "d" "p1 = (ps_pool s)\<lparr>tp_workers := tp_workers (ps_pool s) + 1\<rparr>"
      "tp_workers (ps_pool s) < tp_max_threads (ps_pool s)"
    | w where "th = Some w" "\<not> d" "int (tp_slot_count (ps_pool s)) < tp_max_threads (ps_pool s)"
      "tp_workers (ps_pool s) < tp_max_threads (ps_pool s)"
      "p1 = (ps_pool s)\<lparr>tp_slots := (tp_slots (ps_pool s))[tp_slot_count (ps_pool s) := \<lparr>ws_thread = Some w, ws_joined = False\<rparr>],
               tp_slot_count := tp_slot_count (ps_pool s) + 1, tp_workers := tp_workers (ps_pool s) + 1\<rparr>"
proof -
  have "joined_slot 0 (take (tp_slot_count (ps_pool s)) (tp_slots (ps_pool s))) = None"
    using slot_unjoined [OF assms(1,2)] by (rule joined_slot_None)
  moreover have "int (tp_slot_count (ps_pool s)) \<le> tp_max_threads (ps_pool s)"
    using assms(1) by (simp add: staff_inv_def Let_def)
  ultimately show thesis
    using assms(3) that by (auto simp: ncl_pool_add_worker_def split: if_splits option.splits)
qed

lemma staff_registered:
  "\<lbrakk>staff_inv s; v < length (ps_threads s); v \<notin> ps_detached s\<rbrakk> \<Longrightarrow>
     \<exists>i<tp_slot_count (ps_pool s). ws_thread (tp_slots (ps_pool s) ! i) = Some v"
  unfolding staff_inv_def Let_def by blast

lemma staff_spawn:
  assumes inv: "staff_inv s" and up: "ps_down s = Up"
    and add: "ncl_pool_add_worker (Some (length (ps_threads s))) (ps_pool s) = (Some d, p2)"
    and s1: "same_staff p2 (ps_pool s1)" "tp_workers (ps_pool s1) = tp_workers p2" "ps_down s1 = Up"
      "ps_threads s1 = ps_threads s @ [At_Lock]"
      "ps_detached s1 = (if d then insert (length (ps_threads s)) (ps_detached s) else ps_detached s)"
  shows "staff_inv s1"
  using inv up add
proof (cases rule: add_worker_up)
  case (1 w)
  have "slot_ok s i \<Longrightarrow> slot_ok s1 i" for i
    using s1 up 1 by (auto simp: slot_ok_def same_staff_def nth_append split: option.splits)
  then show ?thesis
    using inv up s1 1 by (auto simp: staff_inv_def Let_def same_staff_def less_Suc_eq)
next
  case (2 w)
  have old: "slot_ok s1 i" if "slot_ok s i" "i < tp_slot_count (ps_pool s)" for i
    using that s1 up 2 by (auto simp: slot_ok_def same_staff_def nth_append split: option.splits)
  have len: "tp_slot_count (ps_pool s) < length (tp_slots (ps_pool s))"
    using inv 2(3) by (simp add: staff_inv_def Let_def)
  then have new: "slot_ok s1 (tp_slot_count (ps_pool s))"
    using s1 up 2 by (simp add: slot_ok_def same_staff_def)
  have held: "\<exists>i<Suc (tp_slot_count (ps_pool s)). ws_thread (tp_slots (ps_pool s1) ! i) = Some v"
    if v: "v < Suc (length (ps_threads s))" "v \<notin> ps_detached s" for v
  proof (cases "v = length (ps_threads s)")
    case True
    with len s1(1) 2 show ?thesis
      by (intro exI [of _ "tp_slot_count (ps_pool s)"]) (simp add: same_staff_def)
  next
    case False
    then obtain i where "i < tp_slot_count (ps_pool s)" "ws_thread (tp_slots (ps_pool s) ! i) = Some v"
      using v staff_registered [OF inv, of v] by auto
    with s1(1) 2 show ?thesis
      by (intro exI [of _ i]) (simp add: same_staff_def)
  qed
  show ?thesis
    using inv up s1 2 old new held by (auto simp: staff_inv_def Let_def same_staff_def less_Suc_eq)
qed

lemma staff_submit:
  assumes "staff_inv s" "flow_inv s" "ps_down s \<noteq> Freed"
  shows "staff_inv (sys_submit ok t s)"
proof -
  define th where "th = (if ok then Some (length (ps_threads s)) else None)"
  obtain ph st p1 where e: "submit_enter th t (ps_pool s) = (ph, st, p1)"
    by (metis prod_cases3)
  note eff = submit_enter_effect [OF _ e]
  have r: "ring_ok (ps_pool s)" using assms(2) by (simp add: flow_inv_def)
  show ?thesis
  proof (cases st)
    case None
    then have "same_staff (ps_pool s) p1" "tp_workers p1 = tp_workers (ps_pool s)"
      using eff(2) [OF r] by auto
    then show ?thesis
      using assms(1) None
      by - (rule staff_same [OF assms(1)], simp_all add: sys_submit_def e [unfolded th_def] spawn_def)
  next
    case (Some d)
    then obtain p2 where p2: "\<not> tp_shutting_down (ps_pool s)" "ncl_pool_add_worker th (ps_pool s) = (Some d, p2)"
      "same_staff p2 p1" "tp_workers p1 = tp_workers p2"
      using eff(3) [OF r] by blast
    have up: "ps_down s = Up"
      using p2(1) assms(1) by (simp add: staff_inv_def Let_def)
    have th: "th = Some (length (ps_threads s))"
      using p2(2) by (auto simp: th_def ncl_pool_add_worker_def split: if_splits)
    show ?thesis
      using p2 up
      by - (rule staff_spawn [OF assms(1) up p2(2) [unfolded th]],
        simp_all add: sys_submit_def e [unfolded th_def] Some spawn_def)
  qed
qed

lemma staff_join:
  assumes "ps_down s = Joining i" "shutdown_join (has_exited s) i (ps_pool s) = Some (d, p)" "staff_inv s"
  shows "staff_inv (s\<lparr>ps_down := d, ps_pool := p\<rparr>)"
proof -
  have below: "joined_below s i" and ok: "\<And>j. j < tp_slot_count (ps_pool s) \<Longrightarrow> slot_ok s j"
    using assms(1,3) by (auto simp: staff_inv_def Let_def)
  consider (freed) "i \<ge> tp_slot_count (ps_pool s)" "d = Freed" "p = ps_pool s"
    | (skip) "i < tp_slot_count (ps_pool s)" "d = Joining (Suc i)" "p = ps_pool s" "ws_joined (tp_slots (ps_pool s) ! i)"
    | (join) w where "i < tp_slot_count (ps_pool s)" "d = Joining (Suc i)" "ws_thread (tp_slots (ps_pool s) ! i) = Some w"
        "has_exited s w" "p = (ps_pool s)\<lparr>tp_slots := (tp_slots (ps_pool s))[i := (tp_slots (ps_pool s) ! i)\<lparr>ws_joined := True\<rparr>]\<rparr>"
  proof (cases "i \<ge> tp_slot_count (ps_pool s)")
    case True
    then have "d = Freed" "p = ps_pool s"
      using assms(2) by (auto simp: shutdown_join_def)
    with True show thesis by (rule that(1))
  next
    case False
    then obtain w where w: "ws_thread (tp_slots (ps_pool s) ! i) = Some w"
      using ok [of i] by (auto simp: slot_ok_def split: option.splits)
    show thesis
    proof (cases "ws_joined (tp_slots (ps_pool s) ! i)")
      case True
      then have "d = Joining (Suc i)" "p = ps_pool s"
        using assms(2) False w by (auto simp: shutdown_join_def)
      with True False show thesis using that(2) by auto
    next
      case unjoined: False
      then have "d = Joining (Suc i)" "has_exited s w"
        "p = (ps_pool s)\<lparr>tp_slots := (tp_slots (ps_pool s))[i := (tp_slots (ps_pool s) ! i)\<lparr>ws_joined := True\<rparr>]\<rparr>"
        using assms(2) False w by (auto simp: shutdown_join_def split: if_splits)
      with False w show thesis using that(3) by auto
    qed
  qed
  then show ?thesis
  proof cases
    case freed
    have "slot_ok (s\<lparr>ps_down := d, ps_pool := p\<rparr>) j" if "j < tp_slot_count (ps_pool s)" for j
      using ok [OF that] freed by (auto simp: slot_ok_def split: option.splits)
    moreover have "joined_below (s\<lparr>ps_down := d, ps_pool := p\<rparr>) (tp_slot_count p)"
      using below freed by (auto simp: joined_below_def)
    ultimately show ?thesis
      using assms(1,3) freed by (auto simp: staff_inv_def Let_def)
  next
    case skip
    have "slot_ok (s\<lparr>ps_down := d, ps_pool := p\<rparr>) j" if "j < tp_slot_count (ps_pool s)" for j
      using ok [OF that] skip by (auto simp: slot_ok_def split: option.splits)
    moreover have "joined_below (s\<lparr>ps_down := d, ps_pool := p\<rparr>) (Suc i)"
      using below skip by (auto simp: joined_below_def less_Suc_eq)
    ultimately show ?thesis
      using assms(1,3) skip by (auto simp: staff_inv_def Let_def)
  next
    case (join w)
    have len: "i < length (tp_slots (ps_pool s))"
      using join(1) assms(3) by (simp add: staff_inv_def Let_def)
    have "slot_ok (s\<lparr>ps_down := d, ps_pool := p\<rparr>) j" if "j < tp_slot_count (ps_pool s)" for j
      using ok [OF that] join len
      by (auto simp: slot_ok_def has_exited_def nth_list_update split: option.splits)
    moreover have "joined_below (s\<lparr>ps_down := d, ps_pool := p\<rparr>) (Suc i)"
      using below join len by (auto simp: joined_below_def less_Suc_eq nth_list_update)
    moreover have "ws_thread (tp_slots p ! j) = ws_thread (tp_slots (ps_pool s) ! j)" for j
      using join len by (simp add: nth_list_update)
    ultimately show ?thesis
      using assms(1,3) join by (auto simp: staff_inv_def Let_def)
  qed
qed

lemma staff_step: "\<lbrakk>pool_sys_step s s'; staff_inv s; flow_inv s\<rbrakk> \<Longrightarrow> staff_inv s'"
proof (induction rule: pool_sys_step.induct)
  case (scan w s)
  obtain ph p1 where e: "worker_scan (ps_pool s) = (ph, p1)" by fastforce
  have "ring_ok (ps_pool s)" using scan by (simp add: flow_inv_def)
  note eff = worker_scan_effect [OF this e]
  show ?case
    using scan eff by - (rule staff_worker [where s = s and w = w and ph = ph], auto simp: sys_worker_def e)
next
  case (woken w s b)
  obtain ph p1 where e: "worker_woken b (ps_pool s) = (ph, p1)" by fastforce
  have "ring_ok (ps_pool s)" using woken by (simp add: flow_inv_def)
  note eff = worker_woken_effect [OF this e]
  show ?case
    using woken eff by - (rule staff_worker [where s = s and w = w and ph = ph], auto simp: sys_worker_def e)
next
  case (task_done w s t)
  then show ?case
    by - (rule staff_worker [where s = s and w = w and ph = At_Lock],
      auto simp: sys_task_done_def same_staff_def staff_inv_def Let_def)
next
  case (submit s ok t)
  then show ?case by (simp add: staff_submit)
next
  case (room c s i t)
  obtain ph p1 where e: "submit_loop (Suc i) t (ps_pool s) = (ph, p1)" by fastforce
  have "ring_ok (ps_pool s)" using room by (simp add: flow_inv_def)
  note eff = submit_loop_effect [OF this e]
  show ?case
    using room eff by - (rule staff_same [where s = s], auto simp: sys_submit_woken_def submit_woken_def e)
next
  case (inline c s t)
  then show ?case
    by - (rule staff_same [where s = s], auto simp: sys_inline_def same_staff_def)
next
  case (down s wait)
  then have "slot_ok s i \<Longrightarrow> slot_ok (sys_shutdown wait s) i" for i
    by (auto simp: slot_ok_def sys_shutdown_def shutdown_begin_def split: option.splits)
  with down show ?case
    by (auto simp: staff_inv_def Let_def sys_shutdown_def shutdown_begin_def joined_below_def)
next
  case (drain s)
  then have "slot_ok s i \<Longrightarrow> slot_ok (s\<lparr>ps_down := shutdown_drain (ps_pool s)\<rparr>) i" for i
    by (auto simp: slot_ok_def shutdown_drain_def split: option.splits)
  with drain show ?case
    by (auto simp: staff_inv_def Let_def shutdown_drain_def joined_below_def)
next
  case (join s i d p)
  then show ?case using staff_join by blast
qed

section \<open>Creation\<close>

lemma add_worker_created:
  assumes "staff_inv (sys_init n p)" "int (tp_slot_count p) = tp_workers p"
    "ncl_pool_add_worker (if ok then Some n else None) p = (st, p1)"
  shows "int (tp_slot_count p1) = tp_workers p1 \<and> ring p1 = ring p \<and> (ring_ok p \<longrightarrow> ring_ok p1)
     \<and> (case st of None \<Rightarrow> p1 = p | Some d \<Rightarrow> staff_inv (sys_init (Suc n) p1))"
proof (cases st)
  case None
  then show ?thesis
    using assms(2,3) by (auto simp: ncl_pool_add_worker_def split: if_splits option.splits)
next
  case (Some d)
  have "th = (if ok then Some n else None) \<Longrightarrow> th = Some n" for th
    using assms(3) Some by (auto simp: ncl_pool_add_worker_def split: if_splits)
  then have th: "(if ok then Some n else None) = Some n" by blast
  have d: "\<not> d" and cnt: "int (tp_slot_count p1) = tp_workers p1"
    using assms(2,3) Some by (auto simp: ncl_pool_add_worker_def split: if_splits option.splits)
  have add: "ncl_pool_add_worker (Some (length (ps_threads (sys_init n p)))) (ps_pool (sys_init n p)) = (Some d, p1)"
    using assms(3) Some th by (simp add: sys_init_def)
  have "staff_inv (sys_init (Suc n) p1)"
    by (rule staff_spawn [OF assms(1) _ add])
      (simp_all add: sys_init_def same_staff_def replicate_append_same d)
  then show ?thesis
    using cnt add_worker_queue [OF assms(3)] Some by simp
qed

lemma core_loop_created:
  "\<lbrakk>staff_inv (sys_init n p); int (tp_slot_count p) = tp_workers p; ring_ok p; ring p = []\<rbrakk> \<Longrightarrow>
     (case core_loop oks n p of (n1, p1) \<Rightarrow> staff_inv (sys_init n1 p1) \<and> ring_ok p1 \<and> ring p1 = [])"
proof (induction oks arbitrary: n p)
  case (Cons ok oks)
  obtain st p1 where e: "ncl_pool_add_worker (if ok then Some n else None) p = (st, p1)"
    by fastforce
  note c = add_worker_created [OF Cons.prems(1,2) e]
  show ?case
  proof (cases st)
    case None
    with c Cons show ?thesis by (simp add: e)
  next
    case (Some d)
    with c Cons.IH [of "Suc n" p1] Cons.prems(3,4) show ?thesis by (simp add: e)
  qed
qed simp

lemma created_inv:
  assumes "ncl_thread_pool_create mem_ok start opts = Some (n, p)"
  shows "staff_inv (sys_init n p) \<and> flow_inv (sys_init n p)"
proof -
  obtain os where os: "core_loop (map start [0..<nat (po_core_threads os)]) 0 (pool_zero os) = (n, p)"
    "0 \<le> po_core_threads os" "1 \<le> po_max_threads os" "po_core_threads os \<le> po_max_threads os" "1 \<le> po_queue_capacity os"
    using assms by (auto simp: ncl_thread_pool_create_def Let_def split: if_splits option.splits)
  have "staff_inv (sys_init 0 (pool_zero os))"
    using os by (simp add: staff_inv_def sys_init_def pool_zero_def live_count_def)
  moreover have "ring_ok (pool_zero os)" "ring (pool_zero os) = []"
    using os by (simp_all add: ring_ok_def ring_def pool_zero_def)
  ultimately have "staff_inv (sys_init n p) \<and> ring_ok p \<and> ring p = []"
    using core_loop_created [of 0 "pool_zero os" "map start [0..<nat (po_core_threads os)]"] os(1)
    by (simp add: pool_zero_def)
  then show ?thesis
    by (simp add: flow_inv_def sys_init_def held_def)
qed

lemma reach_inv: "pool_sys_reach opts s \<Longrightarrow> staff_inv s \<and> flow_inv s"
proof (induction rule: pool_sys_reach.induct)
  case (created mem_ok start n p)
  then show ?case by (rule created_inv)
next
  case (step s s')
  then show ?case using staff_step flow_step by blast
qed

end
