(* ===== verification/Thread_Pool_Safe.thy ===== *)
theory Thread_Pool_Safe
  imports Thread_Pool_Inv
begin

text \<open>
  What the thread pool guarantees, under every interleaving of submissions, workers and a
  shutdown: accounting of the tasks, a complete shutdown, and the case in which it is not.
\<close>

section \<open>Accounting\<close>

text \<open>A pool with one place in the queue and at most two workers, one of them permanent.\<close>

definition small_pool :: pool_options where
  "small_pool = \<lparr>po_core_threads = 1, po_max_threads = 2, po_queue_capacity = 1, po_idle_timeout_ms = 60000\<rparr>"

definition task_a :: ncl_task where
  "task_a = \<lparr>task_fn = Some 7, task_arg = 0\<rparr>"

definition small_start :: pool_sys where
  "small_start = (case ncl_thread_pool_create True (\<lambda>_. True) (Some small_pool) of
     Some (n, p) \<Rightarrow> sys_init n p | None \<Rightarrow> undefined)"

lemma small_start_eq:
  "small_start = sys_init 1 ((pool_zero small_pool)\<lparr>tp_slots := [\<lparr>ws_thread = Some 0, ws_joined = False\<rparr>,
      \<lparr>ws_thread = None, ws_joined = False\<rparr>], tp_slot_count := 1, tp_workers := 1\<rparr>)"
  by (simp add: small_start_def ncl_thread_pool_create_def small_pool_def ncl_pool_add_worker_def pool_zero_def
      numeral_2_eq_2)

lemma small_start_reach: "pool_sys_reach (Some small_pool) small_start"
proof -
  have "ncl_thread_pool_create True (\<lambda>_. True) (Some small_pool) =
     Some (1, (pool_zero small_pool)\<lparr>tp_slots := [\<lparr>ws_thread = Some 0, ws_joined = False\<rparr>,
      \<lparr>ws_thread = None, ws_joined = False\<rparr>], tp_slot_count := 1, tp_workers := 1\<rparr>)"
    by (simp add: ncl_thread_pool_create_def small_pool_def ncl_pool_add_worker_def pool_zero_def numeral_2_eq_2)
  then show ?thesis
    unfolding small_start_eq by (rule pool_sys_reach.created)
qed

lemma small_script_reach: "pool_script es small_start = Some s \<Longrightarrow> pool_sys_reach (Some small_pool) s"
  using pool_script_steps pool_sys_reach_steps small_start_reach by blast

definition run_small :: "pool_event list \<Rightarrow> (pool_sys \<Rightarrow> bool) \<Rightarrow> bool" where
  "run_small es P = (case pool_script es small_start of None \<Rightarrow> False | Some s \<Rightarrow> P s)"

lemma run_smallE:
  assumes "run_small es P"
  obtains s where "pool_script es small_start = Some s" "pool_sys_reach (Some small_pool) s" "P s"
  using assms small_script_reach by (auto simp: run_small_def split: option.splits)

lemma run_small_on:
  "run_small es (\<lambda>s. case pool_script es1 (f s) of None \<Rightarrow> False | Some s1 \<Rightarrow> P s s1) \<Longrightarrow>
     \<exists>s s1. pool_sys_reach (Some small_pool) s \<and> pool_sys_step\<^sup>*\<^sup>* (f s) s1 \<and> P s s1"
  by (auto simp: run_small_def split: option.splits dest: small_script_reach pool_script_steps)

lemmas pool_run_simps =
  run_small_def small_start_eq pool_zero_def small_pool_def task_a_def sys_init_def sys_submit_def submit_enter_def
  ncl_pool_push_def spawn_def pushed_of_def sys_worker_def worker_scan_def worker_woken_def ncl_pool_pop_def
  sys_task_done_def sys_submit_woken_def submit_woken_def submit_loop_def ncl_pool_add_worker_def
  sys_inline_def sys_shutdown_def shutdown_begin_def shutdown_drain_def shutdown_join_def has_exited_def
  Let_def numeral_2_eq_2 numeral_3_eq_3

text \<open>
  C33. The ring buffer of the pool is a bounded queue: any sequence of \<open>ncl_pool_push\<close> (made,
  as the callers do, only while there is room) and \<open>ncl_pool_pop\<close> gives the answers that a plain
  list of at most \<open>queue_capacity\<close> tasks gives, first in first out, and ends with the same tasks.
\<close>

theorem pool_queue_is_fifo:
  assumes "ring_ok p"
  shows "fst (queue_run tp_queue_len tp_queue_capacity ncl_pool_push ncl_pool_pop ops p)
           = fst (queue_run length (\<lambda>_. tp_queue_capacity p) (\<lambda>t ts. ts @ [t]) (list_take no_task) ops (ring p))
       \<and> ring (snd (queue_run tp_queue_len tp_queue_capacity ncl_pool_push ncl_pool_pop ops p))
           = snd (queue_run length (\<lambda>_. tp_queue_capacity p) (\<lambda>t ts. ts @ [t]) (list_take no_task) ops (ring p))
       \<and> ring_ok (snd (queue_run tp_queue_len tp_queue_capacity ncl_pool_push ncl_pool_pop ops p))"
  using assms by (rule ringq.run_list)

lemma pool_queue_is_fifo_witness:
  "fst (queue_run tp_queue_len tp_queue_capacity ncl_pool_push ncl_pool_pop [Put task_a, Put no_task, Take, Take]
        (pool_zero small_pool)) = [task_a, no_task]"
  using pool_queue_is_fifo [of "pool_zero small_pool" "[Put task_a, Put no_task, Take, Take]"]
  by (simp add: ring_ok_def ring_def pool_zero_def small_pool_def)

text \<open>
  C20. In every reachable state of a thread pool, whatever the interleaving: workers take tasks
  in the order in which they were queued, every submission that was not refused is exactly one
  of queued, in the hands of a thread or run (none is lost, none runs twice), the queue never
  exceeds its capacity, there are never more than \<open>max_threads\<close> workers, and until a shutdown
  \<open>ncl_thread_pool_worker_count\<close> is the exact number of live workers.
\<close>

theorem pool_accounts_tasks:
  assumes "pool_sys_reach opts s"
  shows "ps_pushed s = ps_popped s @ ring (ps_pool s)
    \<and> mset (ps_offered s) = mset (ring (ps_pool s)) + mset (held s) + mset (ps_ran s)
    \<and> ncl_thread_pool_pending (Some (ps_pool s)) \<le> tp_queue_capacity (ps_pool s)
    \<and> ncl_thread_pool_worker_count (Some (ps_pool s)) \<le> tp_max_threads (ps_pool s)
    \<and> (\<not> tp_shutting_down (ps_pool s) \<longrightarrow>
         ncl_thread_pool_worker_count (Some (ps_pool s)) = int (live_count (ps_threads s)))"
  using reach_inv [OF assms]
  by (simp add: flow_inv_def staff_inv_def Let_def ring_ok_def ncl_thread_pool_pending_def
      ncl_thread_pool_worker_count_def)

lemma pool_accounts_tasks_witness:
  "\<exists>s::pool_sys. ps_ran s = [task_a] \<and> ring (ps_pool s) = [task_a] \<and> ps_pushed s = ps_popped s @ ring (ps_pool s)
     \<and> mset (ps_offered s) = mset (ring (ps_pool s)) + mset (held s) + mset (ps_ran s)"
proof -
  have "run_small [Ev_Submit True task_a, Ev_Scan 0, Ev_Done 0, Ev_Submit True task_a]
      (\<lambda>s. ps_ran s = [task_a] \<and> ring (ps_pool s) = [task_a])"
    by (simp add: pool_run_simps ring_def)
  then obtain s where s: "pool_sys_reach (Some small_pool) s" "ps_ran s = [task_a]" "ring (ps_pool s) = [task_a]"
    by (rule run_smallE) blast
  show ?thesis
    using pool_accounts_tasks [OF s(1)] s(2,3) by - (rule exI [of _ s], simp)
qed

section \<open>Shutdown\<close>

definition no_room :: "pool_sys \<Rightarrow> bool" where
  "no_room s \<longleftrightarrow> (\<forall>ph \<in> set (ps_clients s). case ph of In_Room i t \<Rightarrow> False | _ \<Rightarrow> True)"

definition some_live :: "pool_sys \<Rightarrow> bool" where
  "some_live s \<longleftrightarrow> (\<exists>ph \<in> set (ps_threads s). ph \<noteq> Exited)"

definition closing_inv :: "pool_sys \<Rightarrow> bool" where
  "closing_inv s \<longleftrightarrow> tp_shutting_down (ps_pool s) \<and> ps_down s \<noteq> Up \<and> no_room s
     \<and> (ring (ps_pool s) = [] \<or> some_live s)"

lemma some_live_update: "\<lbrakk>w < length (ps_threads s); ps_threads s1 = (ps_threads s)[w := ph]; ph \<noteq> Exited\<rbrakk> \<Longrightarrow> some_live s1"
  using set_update_memI by (fastforce simp: some_live_def)

lemma no_room_at: "\<lbrakk>no_room s; c < length (ps_clients s)\<rbrakk> \<Longrightarrow> ps_clients s ! c \<noteq> In_Room i t"
  by (force simp: no_room_def all_set_conv_all_nth)

lemma closing_worker:
  assumes "closing_inv s" "w < length (ps_threads s)" "same_staff (ps_pool s) p1"
    "ph = Exited \<Longrightarrow> ring p1 = []"
  shows "closing_inv (sys_worker w (ph, p1) s)"
  using assms some_live_update [OF assms(2), of "sys_worker w (ph, p1) s" ph]
  by (cases "ph = Exited") (auto simp: closing_inv_def no_room_def same_staff_def sys_worker_def)

lemma closing_step: "\<lbrakk>pool_sys_step s s'; closing_inv s; flow_inv s\<rbrakk> \<Longrightarrow> closing_inv s'"
proof (induction rule: pool_sys_step.induct)
  case (scan w s)
  obtain ph p1 where e: "worker_scan (ps_pool s) = (ph, p1)" by fastforce
  have "ring_ok (ps_pool s)" using scan by (simp add: flow_inv_def)
  note eff = worker_scan_effect [OF this e]
  show ?case
    unfolding e by (rule closing_worker) (use scan eff in auto)
next
  case (woken w s b)
  obtain ph p1 where e: "worker_woken b (ps_pool s) = (ph, p1)" by fastforce
  have "ring_ok (ps_pool s)" using woken by (simp add: flow_inv_def)
  note eff = worker_woken_effect [OF this e]
  show ?case
    unfolding e by (rule closing_worker) (use woken eff in auto)
next
  case (task_done w s t)
  then show ?case
    using some_live_update [of w s "sys_task_done w t s" At_Lock]
    by (auto simp: closing_inv_def no_room_def sys_task_done_def)
next
  case (submit s ok t)
  then show ?case
    by (auto simp: closing_inv_def no_room_def sys_submit_def submit_enter_def spawn_def some_live_def)
next
  case (room c s i t)
  then show ?case using no_room_at by (auto simp: closing_inv_def)
next
  case (inline c s t)
  have "set ((ps_clients s)[c := Returned NCL_OK]) \<subseteq> insert (Returned NCL_OK) (set (ps_clients s))"
    by (rule set_update_subset_insert)
  with inline show ?case
    by (force simp: closing_inv_def no_room_def sys_inline_def some_live_def split: submit_phase.splits)
next
  case (join s i d p)
  then have "ring p = ring (ps_pool s) \<and> tp_shutting_down p = tp_shutting_down (ps_pool s) \<and> d \<noteq> Up"
    by (auto simp: shutdown_join_def ring_def split: if_splits option.splits)
  with join show ?case by (auto simp: closing_inv_def no_room_def some_live_def)
qed (auto simp: closing_inv_def no_room_def some_live_def shutdown_drain_def)

lemma closing_steps:
  "\<lbrakk>pool_sys_step\<^sup>*\<^sup>* s s'; closing_inv s; staff_inv s; flow_inv s\<rbrakk> \<Longrightarrow> closing_inv s' \<and> staff_inv s' \<and> flow_inv s'"
  by (induction rule: rtranclp_induct) (use closing_step staff_step flow_step in blast)+

lemma freed_all_exited:
  assumes "staff_inv s" "ps_down s = Freed" "ps_detached s = {}" "ph \<in> set (ps_threads s)"
  shows "ph = Exited"
proof -
  obtain w where w: "w < length (ps_threads s)" "ph = ps_threads s ! w"
    using assms(4) by (auto simp: in_set_conv_nth)
  then obtain i where i: "i < tp_slot_count (ps_pool s)" "ws_thread (tp_slots (ps_pool s) ! i) = Some w"
    using staff_registered [OF assms(1)] assms(3) by blast
  have "slot_ok s i" "joined_below s (tp_slot_count (ps_pool s))"
    using assms(1,2) i(1) by (auto simp: staff_inv_def Let_def)
  with i w show ?thesis by (simp add: slot_ok_def joined_below_def)
qed

text \<open>
  C21. A complete shutdown: when \<open>ncl_thread_pool_shutdown\<close> starts in a reachable state with a
  live worker and no submitter waiting for a place, and comes to free the pool without any
  worker ever detached, then every worker has returned, the queue is empty and every task taken
  has been run, except those their submitters are running themselves. This holds with and
  without \<open>wait\<close>: the workers empty the queue before they leave.
\<close>

theorem shutdown_runs_everything:
  assumes "pool_sys_reach opts s" "ps_down s = Up" "no_room s" "some_live s"
    and "pool_sys_step\<^sup>*\<^sup>* (sys_shutdown wait s) s'" "ps_down s' = Freed" "ps_detached s' = {}"
  shows "(\<forall>ph \<in> set (ps_threads s'). ph = Exited) \<and> ring (ps_pool s') = []
    \<and> mset (ps_offered s') = mset (concat (map client_task (ps_clients s'))) + mset (ps_ran s')"
proof -
  have inv: "staff_inv (sys_shutdown wait s)" "flow_inv (sys_shutdown wait s)"
    using reach_inv [OF assms(1)] staff_step flow_step pool_sys_step.down [OF assms(2)] by blast+
  have "closing_inv (sys_shutdown wait s)"
    using assms(3,4) by (auto simp: closing_inv_def sys_shutdown_def shutdown_begin_def no_room_def some_live_def)
  with closing_steps [OF assms(5)] inv have end_inv: "closing_inv s'" "staff_inv s'" "flow_inv s'"
    by blast+
  have gone: "\<forall>ph \<in> set (ps_threads s'). ph = Exited"
    using freed_all_exited [OF end_inv(2) assms(6,7)] by blast
  then have "ring (ps_pool s') = []"
    using end_inv(1) by (auto simp: closing_inv_def some_live_def)
  moreover have "concat (map taken_of (ps_threads s')) = []"
    using gone by auto
  ultimately show ?thesis
    using gone end_inv(3) by (simp add: flow_inv_def held_def)
qed

lemma shutdown_runs_everything_witness:
  "\<exists>s'::pool_sys. ps_down s' = Freed \<and> ps_ran s' = [task_a]
     \<and> mset (ps_offered s') = mset (concat (map client_task (ps_clients s'))) + mset (ps_ran s')"
proof -
  have "run_small [Ev_Submit True task_a] (\<lambda>s. case pool_script
      [Ev_Scan 0, Ev_Done 0, Ev_Scan 0, Ev_Join, Ev_Join] (sys_shutdown False s) of None \<Rightarrow> False
      | Some s1 \<Rightarrow> (ps_down s = Up \<and> no_room s \<and> some_live s) \<and> ps_down s1 = Freed \<and> ps_detached s1 = {}
          \<and> ps_ran s1 = [task_a])"
    by (simp add: pool_run_simps no_room_def some_live_def)
  from run_small_on [OF this] obtain s s1 where s:
    "pool_sys_reach (Some small_pool) s" "pool_sys_step\<^sup>*\<^sup>* (sys_shutdown False s) s1"
    "ps_down s = Up" "no_room s" "some_live s" "ps_down s1 = Freed" "ps_detached s1 = {}" "ps_ran s1 = [task_a]"
    by blast
  show ?thesis
    using shutdown_runs_everything [OF s(1) s(3-5) s(2) s(6,7)] s(6,8) by - (rule exI [of _ s1], simp)
qed

section \<open>The worker that outlives its pool\<close>

text \<open>
  A defect. The slot of a worker that leaves after its idle time is never marked as joined,
  so no slot is ever reused: once \<open>max_threads\<close> workers have been started in all, the next one is
  detached and no shutdown waits for it. With one permanent worker, at most two, and a queue of
  one place there is a run, without any failure, at the end of which the pool has been freed
  while a worker is still waiting on its condition variable.
\<close>

theorem worker_outlives_pool:
  "\<exists>s. pool_sys_reach (Some small_pool) s \<and> ps_down s = Freed \<and> (\<exists>w<length (ps_threads s). ps_threads s ! w = Waiting)"
proof -
  have "run_small
     [Ev_Scan 0, Ev_Submit True task_a, Ev_Woken 0 True, Ev_Submit True task_a, Ev_Submit True task_a,
      Ev_Scan 1, Ev_Room 2, Ev_Done 1, Ev_Scan 1, Ev_Done 1, Ev_Scan 1, Ev_Woken 1 False,
      Ev_Submit True task_a, Ev_Submit True task_a,
      Ev_Scan 2, Ev_Room 4, Ev_Done 2, Ev_Scan 2, Ev_Done 2, Ev_Scan 2, Ev_Done 0,
      Ev_Down False, Ev_Scan 0, Ev_Join, Ev_Join, Ev_Join]
     (\<lambda>s. ps_down s = Freed \<and> 2 < length (ps_threads s) \<and> ps_threads s ! 2 = Waiting)"
    by (simp add: pool_run_simps)
  then show ?thesis
    by (rule run_smallE) blast
qed

end
