(* ===== verification/Json_Dom.thy ===== *)
theory Json_Dom
  imports Common
begin

text \<open>
  \<^verbatim>\<open>stack/src/core/json.c\<close>, first part: the JSON document. A node pointer that may be NULL is
  an option; an operation that changes a node returns the new one. Strings are lists of
  characters and may hold NUL (\<open>len\<close> counts it); a \<open>char *\<close> into one ends at the first NUL.
  A number converts its text lazily and keeps the result, so reading one is an update too.
\<close>

section \<open>What the C library does\<close>

text \<open>
  The operations on \<open>double\<close> the code uses: conversion from and to \<open>long long\<close>,
  \<open>fabs(d) < 1e15\<close>, equality, the rounding of \<open>ncl_json_as_int\<close> (\<open>None\<close> when the value is not
  within 1e-9 of an integer), \<open>strtod\<close> with the number of characters it uses, and the
  \<open>%.*g\<close> format with a precision.
\<close>

record 'd double_ops =
  d_of_int :: "int \<Rightarrow> 'd"
  d_trunc :: "'d \<Rightarrow> int"
  d_below :: "'d \<Rightarrow> bool"
  d_eq :: "'d \<Rightarrow> 'd \<Rightarrow> bool"
  d_round :: "'d \<Rightarrow> int option"
  d_strtod :: "string \<Rightarrow> 'd \<times> nat"
  d_format :: "nat \<Rightarrow> 'd \<Rightarrow> string"

definition is_digit :: "char \<Rightarrow> bool" where
  "is_digit c \<longleftrightarrow> CHR ''0'' \<le> c \<and> c \<le> CHR ''9''"

text \<open>The \<open>%lld\<close> format.\<close>

fun dec_nat :: "nat \<Rightarrow> string" where
  "dec_nat n = (if n < 10 then [char_of (48 + n)] else dec_nat (n div 10) @ [char_of (48 + n mod 10)])"

declare dec_nat.simps [simp del]

definition dec_int :: "int \<Rightarrow> string" where
  "dec_int i = (if i < 0 then CHR ''-'' # dec_nat (nat (- i)) else dec_nat (nat i))"

text \<open>\<open>strtoll\<close> in base ten: the value, cut to the range of \<open>long long\<close>, and the characters used.\<close>

definition dec_value :: "string \<Rightarrow> int" where
  "dec_value ds = foldl (\<lambda>v c. 10 * v + (int (of_char c) - 48)) 0 ds"

definition LLONG_MAX :: int where
  "LLONG_MAX = 9223372036854775807"

definition LLONG_MIN :: int where
  "LLONG_MIN = -9223372036854775808"

definition strtoll :: "string \<Rightarrow> int \<times> nat" where
  "strtoll s =
     (let ws = length (takeWhile ncl_isspace_ascii s);
          r = drop ws s;
          sign = (if r \<noteq> [] \<and> (hd r = CHR ''-'' \<or> hd r = CHR ''+'') then 1 else 0);
          ds = takeWhile is_digit (drop sign r);
          v = (if sign = 1 \<and> hd r = CHR ''-'' then - dec_value ds else dec_value ds)
      in if ds = [] then (0, 0) else (max LLONG_MIN (min LLONG_MAX v), ws + sign + length ds))"

section \<open>Nodes\<close>

datatype ncl_json_type =
  NCL_JSON_NULL | NCL_JSON_BOOL | NCL_JSON_NUMBER | NCL_JSON_STRING | NCL_JSON_ARRAY | NCL_JSON_OBJECT

record 'd json_number =
  jn_raw :: "string option"
  jn_dbl :: 'd
  jn_integer :: int
  jn_is_integer :: bool
  jn_has_dbl :: bool
  jn_has_int :: bool
  jn_from_int :: bool

text \<open>The numbers of an array and of an object are their capacities.\<close>

datatype 'd json =
  J_Null
| J_Bool bool
| J_Number "'d json_number"
| J_String string
| J_Array "'d json list" nat
| J_Object "(string \<times> 'd json) list" nat

text \<open>The size of a node (LP64).\<close>

definition JSON_SIZE :: nat where
  "JSON_SIZE = 40"

definition ncl_json_alloc :: "grant \<Rightarrow> 'd json \<Rightarrow> 'd json option" where
  "ncl_json_alloc g j = (if g JSON_SIZE then Some j else None)"

definition ncl_json_new_null :: "grant \<Rightarrow> 'd json option" where
  "ncl_json_new_null g = ncl_json_alloc g J_Null"

definition ncl_json_new_bool :: "grant \<Rightarrow> bool \<Rightarrow> 'd json option" where
  "ncl_json_new_bool g v = ncl_json_alloc g (J_Bool v)"

definition ncl_json_new_int :: "grant \<Rightarrow> 'd double_ops \<Rightarrow> int \<Rightarrow> 'd json option" where
  "ncl_json_new_int g ops v =
     ncl_json_alloc g (J_Number \<lparr>jn_raw = None, jn_dbl = d_of_int ops v, jn_integer = v, jn_is_integer = True,
       jn_has_dbl = True, jn_has_int = True, jn_from_int = True\<rparr>)"

definition double_number :: "'d double_ops \<Rightarrow> 'd \<Rightarrow> 'd json_number" where
  "double_number ops v =
     (let n = \<lparr>jn_raw = None, jn_dbl = v, jn_integer = 0, jn_is_integer = False, jn_has_dbl = True,
               jn_has_int = False, jn_from_int = False\<rparr>
      in if d_eq ops v (d_of_int ops (d_trunc ops v)) \<and> d_below ops v
         then n\<lparr>jn_integer := d_trunc ops v, jn_is_integer := True, jn_has_int := True\<rparr> else n)"

definition ncl_json_new_double :: "grant \<Rightarrow> 'd double_ops \<Rightarrow> 'd \<Rightarrow> 'd json option" where
  "ncl_json_new_double g ops v = ncl_json_alloc g (J_Number (double_number ops v))"

definition ncl_json_new_string_len :: "grant \<Rightarrow> string option \<Rightarrow> 'd json option" where
  "ncl_json_new_string_len g value =
     (case value of None \<Rightarrow> ncl_json_new_null g
      | Some s \<Rightarrow>
          (case ncl_json_alloc g (J_String s) of
             None \<Rightarrow> None
           | Some j \<Rightarrow> if g (length s + 1) then Some j else None))"

definition ncl_json_new_string :: "grant \<Rightarrow> string option \<Rightarrow> 'd json option" where
  "ncl_json_new_string g value =
     (case value of None \<Rightarrow> ncl_json_new_null g
      | Some s \<Rightarrow> ncl_json_new_string_len g (Some (cstr_of s)))"

definition ncl_json_new_array :: "grant \<Rightarrow> 'd json option" where
  "ncl_json_new_array g = ncl_json_alloc g (J_Array [] 0)"

definition ncl_json_new_object :: "grant \<Rightarrow> 'd json option" where
  "ncl_json_new_object g = ncl_json_alloc g (J_Object [] 0)"

fun type_of_node :: "'d json \<Rightarrow> ncl_json_type" where
  "type_of_node J_Null = NCL_JSON_NULL"
| "type_of_node (J_Bool b) = NCL_JSON_BOOL"
| "type_of_node (J_Number n) = NCL_JSON_NUMBER"
| "type_of_node (J_String s) = NCL_JSON_STRING"
| "type_of_node (J_Array xs c) = NCL_JSON_ARRAY"
| "type_of_node (J_Object ms c) = NCL_JSON_OBJECT"

definition ncl_json_type_of :: "'d json option \<Rightarrow> ncl_json_type" where
  "ncl_json_type_of j = (case j of None \<Rightarrow> NCL_JSON_NULL | Some n \<Rightarrow> type_of_node n)"

definition ncl_json_is_null :: "'d json option \<Rightarrow> bool" where
  "ncl_json_is_null j \<longleftrightarrow> ncl_json_type_of j = NCL_JSON_NULL"

definition ncl_json_is_number :: "'d json option \<Rightarrow> bool" where
  "ncl_json_is_number j \<longleftrightarrow> (case j of None \<Rightarrow> False | Some n \<Rightarrow> type_of_node n = NCL_JSON_NUMBER)"

section \<open>Objects\<close>

fun key_index :: "(string \<times> 'd json) list \<Rightarrow> string \<Rightarrow> nat \<Rightarrow> nat option" where
  "key_index [] key i = None"
| "key_index ((k, v) # ms) key i = (if k = key then Some i else key_index ms key (Suc i))"

text \<open>\<open>(size_t)-1\<close> is \<open>None\<close>.\<close>

definition ncl_json_obj_index_of :: "'d json option \<Rightarrow> string option \<Rightarrow> nat option" where
  "ncl_json_obj_index_of obj key =
     (case (obj, key) of (Some (J_Object ms c), Some k) \<Rightarrow> key_index ms k 0 | _ \<Rightarrow> None)"

definition members :: "'d json option \<Rightarrow> (string \<times> 'd json) list" where
  "members obj = (case obj of Some (J_Object ms c) \<Rightarrow> ms | _ \<Rightarrow> [])"

definition ncl_json_obj_get :: "'d json option \<Rightarrow> string option \<Rightarrow> 'd json option" where
  "ncl_json_obj_get obj key =
     (case ncl_json_obj_index_of obj key of None \<Rightarrow> None | Some i \<Rightarrow> Some (snd (members obj ! i)))"

definition ncl_json_obj_has :: "'d json option \<Rightarrow> string option \<Rightarrow> bool" where
  "ncl_json_obj_has obj key \<longleftrightarrow> ncl_json_obj_index_of obj key \<noteq> None"

definition ncl_json_obj_len :: "'d json option \<Rightarrow> nat" where
  "ncl_json_obj_len obj = length (members obj)"

definition ncl_json_obj_key_at :: "'d json option \<Rightarrow> nat \<Rightarrow> string option" where
  "ncl_json_obj_key_at obj i = (if i \<ge> length (members obj) then None else Some (fst (members obj ! i)))"

definition ncl_json_obj_val_at :: "'d json option \<Rightarrow> nat \<Rightarrow> 'd json option" where
  "ncl_json_obj_val_at obj i = (if i \<ge> length (members obj) then None else Some (snd (members obj ! i)))"

definition ncl_json_obj_remove :: "'d json option \<Rightarrow> string option \<Rightarrow> ncl_err \<times> 'd json option" where
  "ncl_json_obj_remove obj key =
     (case obj of
        Some (J_Object ms c) \<Rightarrow>
          (case ncl_json_obj_index_of obj key of
             None \<Rightarrow> (NCL_ERR_NOT_FOUND, obj)
           | Some i \<Rightarrow> (NCL_OK, Some (J_Object (take i ms @ drop (Suc i) ms) c)))
      | _ \<Rightarrow> (NCL_ERR_INVALID_ARG, obj))"

text \<open>The growth of an object: two blocks of pointers; a refused second one leaves \<open>cap\<close> alone.\<close>

definition obj_grow :: "grant \<Rightarrow> nat \<Rightarrow> nat \<Rightarrow> nat option" where
  "obj_grow g len cap =
     (if len = cap
      then (let c = (if cap = 0 then 8 else cap * 2)
            in if g (c * PTR_SIZE) then Some c else None)
      else Some cap)"

definition ncl_json_obj_set :: "grant \<Rightarrow> 'd json option \<Rightarrow> string option \<Rightarrow> 'd json option \<Rightarrow> ncl_err \<times> 'd json option" where
  "ncl_json_obj_set g obj key val =
     (case (obj, key) of
        (Some (J_Object ms c), Some k) \<Rightarrow>
          (case val of
             None \<Rightarrow> (case ncl_json_obj_remove obj key of
                 (rc, obj1) \<Rightarrow> (if rc = NCL_ERR_NOT_FOUND then NCL_OK else rc, obj1))
           | Some v \<Rightarrow>
               (case ncl_json_obj_index_of obj key of
                  Some i \<Rightarrow> (NCL_OK, Some (J_Object (ms[i := (fst (ms ! i), v)]) c))
                | None \<Rightarrow>
                    (case obj_grow g (length ms) c of
                       None \<Rightarrow> (NCL_ERR_NOMEM, obj)
                     | Some c1 \<Rightarrow>
                         (case ncl_strdup g (Some k) of
                            None \<Rightarrow> (NCL_ERR_NOMEM, Some (J_Object ms c1))
                          | Some k1 \<Rightarrow> (NCL_OK, Some (J_Object (ms @ [(k1, v)]) c1))))))
      | _ \<Rightarrow> (NCL_ERR_INVALID_ARG, obj))"

definition ncl_json_obj_set_string :: "grant \<Rightarrow> 'd json option \<Rightarrow> string option \<Rightarrow> string option \<Rightarrow> ncl_err \<times> 'd json option" where
  "ncl_json_obj_set_string g obj key value =
     (case value of None \<Rightarrow> ncl_json_obj_set g obj key None
      | Some s \<Rightarrow> ncl_json_obj_set g obj key (ncl_json_new_string g (Some s)))"

definition ncl_json_obj_set_int :: "grant \<Rightarrow> 'd double_ops \<Rightarrow> 'd json option \<Rightarrow> string option \<Rightarrow> int \<Rightarrow> ncl_err \<times> 'd json option" where
  "ncl_json_obj_set_int g ops obj key v = ncl_json_obj_set g obj key (ncl_json_new_int g ops v)"

definition ncl_json_obj_set_double :: "grant \<Rightarrow> 'd double_ops \<Rightarrow> 'd json option \<Rightarrow> string option \<Rightarrow> 'd \<Rightarrow> ncl_err \<times> 'd json option" where
  "ncl_json_obj_set_double g ops obj key v = ncl_json_obj_set g obj key (ncl_json_new_double g ops v)"

definition ncl_json_obj_set_bool :: "grant \<Rightarrow> 'd json option \<Rightarrow> string option \<Rightarrow> bool \<Rightarrow> ncl_err \<times> 'd json option" where
  "ncl_json_obj_set_bool g obj key v = ncl_json_obj_set g obj key (ncl_json_new_bool g v)"

definition ncl_json_obj_set_null :: "grant \<Rightarrow> 'd json option \<Rightarrow> string option \<Rightarrow> ncl_err \<times> 'd json option" where
  "ncl_json_obj_set_null g obj key = ncl_json_obj_set g obj key (ncl_json_new_null g)"

section \<open>Arrays\<close>

definition items :: "'d json option \<Rightarrow> 'd json list" where
  "items arr = (case arr of Some (J_Array xs c) \<Rightarrow> xs | _ \<Rightarrow> [])"

definition ncl_json_arr_push :: "grant \<Rightarrow> 'd json option \<Rightarrow> 'd json option \<Rightarrow> ncl_err \<times> 'd json option" where
  "ncl_json_arr_push g arr val =
     (case arr of
        Some (J_Array xs c) \<Rightarrow>
          (case (case val of None \<Rightarrow> ncl_json_new_null g | Some v \<Rightarrow> Some v) of
             None \<Rightarrow> (NCL_ERR_NOMEM, arr)
           | Some v \<Rightarrow>
               (case obj_grow g (length xs) c of
                  None \<Rightarrow> (NCL_ERR_NOMEM, arr)
                | Some c1 \<Rightarrow> (NCL_OK, Some (J_Array (xs @ [v]) c1))))
      | _ \<Rightarrow> (NCL_ERR_INVALID_ARG, arr))"

definition ncl_json_arr_get :: "'d json option \<Rightarrow> nat \<Rightarrow> 'd json option" where
  "ncl_json_arr_get arr i = (if i \<ge> length (items arr) then None else Some (items arr ! i))"

definition ncl_json_arr_len :: "'d json option \<Rightarrow> nat" where
  "ncl_json_arr_len arr = length (items arr)"

definition ncl_json_arr_take :: "'d json option \<Rightarrow> nat \<Rightarrow> 'd json option \<times> 'd json option" where
  "ncl_json_arr_take arr i =
     (case arr of
        Some (J_Array xs c) \<Rightarrow>
          if i \<ge> length xs then (None, arr)
          else (Some (xs ! i), Some (J_Array (take i xs @ drop (Suc i) xs) c))
      | _ \<Rightarrow> (None, arr))"

section \<open>Scalars\<close>

definition ncl_json_as_string :: "'d json option \<Rightarrow> string option" where
  "ncl_json_as_string j = (case j of Some (J_String s) \<Rightarrow> Some (cstr_of s) | _ \<Rightarrow> None)"

definition ncl_json_number_raw :: "'d json option \<Rightarrow> string option" where
  "ncl_json_number_raw j = (case j of Some (J_Number n) \<Rightarrow> jn_raw n | _ \<Rightarrow> None)"

definition ncl_json_number_materialise :: "'d double_ops \<Rightarrow> 'd json_number \<Rightarrow> 'd json_number" where
  "ncl_json_number_materialise ops n =
     (case jn_raw n of None \<Rightarrow> n
      | Some raw \<Rightarrow>
          (let body = (if raw \<noteq> [] \<and> hd raw = CHR ''-'' then tl raw else raw);
               n1 = (if list_all is_digit body \<and> raw \<noteq> []
                     then n\<lparr>jn_integer := fst (strtoll raw), jn_has_int := True, jn_is_integer := True\<rparr> else n)
           in n1\<lparr>jn_dbl := fst (d_strtod ops raw), jn_has_dbl := True\<rparr>))"

definition number_as_int :: "'d double_ops \<Rightarrow> 'd json_number \<Rightarrow> int option \<times> 'd json_number" where
  "number_as_int ops n =
     (let n1 = (if jn_has_int n then n else ncl_json_number_materialise ops n)
      in if jn_has_int n1 then (Some (jn_integer n1), n1) else (d_round ops (jn_dbl n1), n1))"

definition ncl_json_as_int :: "'d double_ops \<Rightarrow> 'd json option \<Rightarrow> int option \<times> 'd json option" where
  "ncl_json_as_int ops j =
     (case j of
        Some (J_Number n) \<Rightarrow> (case number_as_int ops n of (r, n1) \<Rightarrow> (r, Some (J_Number n1)))
      | Some (J_String s) \<Rightarrow>
          (let t = cstr_of s
           in if ncl_str_is_blank (Some t) then (None, j)
              else (case strtoll t of (v, n) \<Rightarrow>
                  if n = 0 \<or> n \<noteq> length t then (None, j) else (Some v, j)))
      | Some (J_Bool b) \<Rightarrow> (Some (if b then 1 else 0), j)
      | _ \<Rightarrow> (None, j))"

definition number_as_double :: "'d double_ops \<Rightarrow> 'd json_number \<Rightarrow> 'd \<times> 'd json_number" where
  "number_as_double ops n =
     (let n1 = (if jn_has_dbl n then n else ncl_json_number_materialise ops n) in (jn_dbl n1, n1))"

definition ncl_json_as_double :: "'d double_ops \<Rightarrow> 'd json option \<Rightarrow> 'd option \<times> 'd json option" where
  "ncl_json_as_double ops j =
     (case j of
        Some (J_Number n) \<Rightarrow> (case number_as_double ops n of (r, n1) \<Rightarrow> (Some r, Some (J_Number n1)))
      | Some (J_String s) \<Rightarrow>
          (let t = cstr_of s
           in if ncl_str_is_blank (Some t) then (None, j)
              else (case d_strtod ops t of (v, n) \<Rightarrow>
                  if n = 0 \<or> n \<noteq> length t then (None, j) else (Some v, j)))
      | Some (J_Bool b) \<Rightarrow> (Some (if b then d_of_int ops 1 else d_of_int ops 0), j)
      | _ \<Rightarrow> (None, j))"

definition ncl_json_as_bool :: "'d double_ops \<Rightarrow> 'd json option \<Rightarrow> bool option \<times> 'd json option" where
  "ncl_json_as_bool ops j =
     (case j of
        Some (J_Bool b) \<Rightarrow> (Some b, j)
      | Some (J_String s) \<Rightarrow>
          ((if ncl_streq_ignore_case (Some (cstr_of s)) (Some ''true'') then Some True
            else if ncl_streq_ignore_case (Some (cstr_of s)) (Some ''false'') then Some False
            else None), j)
      | Some (J_Number n) \<Rightarrow>
          (case ncl_json_as_int ops j of
             (Some v, j1) \<Rightarrow> (Some (v \<noteq> 0), j1)
           | (None, j1) \<Rightarrow> (None, j1))
      | _ \<Rightarrow> (None, j))"

text \<open>The readers with a default: the child they convert is written back.\<close>

definition put_child :: "'d json option \<Rightarrow> string option \<Rightarrow> 'd json option \<Rightarrow> 'd json option" where
  "put_child obj key child =
     (case (obj, ncl_json_obj_index_of obj key, child) of
        (Some (J_Object ms c), Some i, Some v) \<Rightarrow> Some (J_Object (ms[i := (fst (ms ! i), v)]) c)
      | _ \<Rightarrow> obj)"

definition ncl_json_obj_get_string :: "'d json option \<Rightarrow> string option \<Rightarrow> string option" where
  "ncl_json_obj_get_string obj key = ncl_json_as_string (ncl_json_obj_get obj key)"

definition ncl_json_obj_get_int :: "'d double_ops \<Rightarrow> 'd json option \<Rightarrow> string option \<Rightarrow> int \<Rightarrow> int \<times> 'd json option" where
  "ncl_json_obj_get_int ops obj key dflt =
     (case ncl_json_as_int ops (ncl_json_obj_get obj key) of
        (r, child) \<Rightarrow> ((case r of None \<Rightarrow> dflt | Some v \<Rightarrow> v), put_child obj key child))"

definition ncl_json_obj_get_double :: "'d double_ops \<Rightarrow> 'd json option \<Rightarrow> string option \<Rightarrow> 'd \<Rightarrow> 'd \<times> 'd json option" where
  "ncl_json_obj_get_double ops obj key dflt =
     (case ncl_json_as_double ops (ncl_json_obj_get obj key) of
        (r, child) \<Rightarrow> ((case r of None \<Rightarrow> dflt | Some v \<Rightarrow> v), put_child obj key child))"

definition ncl_json_obj_get_bool :: "'d double_ops \<Rightarrow> 'd json option \<Rightarrow> string option \<Rightarrow> bool \<Rightarrow> bool \<times> 'd json option" where
  "ncl_json_obj_get_bool ops obj key dflt =
     (case ncl_json_as_bool ops (ncl_json_obj_get obj key) of
        (r, child) \<Rightarrow> ((case r of None \<Rightarrow> dflt | Some v \<Rightarrow> v), put_child obj key child))"

definition ncl_json_as_text :: "grant \<Rightarrow> 'd double_ops \<Rightarrow> 'd json option \<Rightarrow> string option" where
  "ncl_json_as_text g ops j =
     (case j of
        Some (J_String s) \<Rightarrow> ncl_strdup g (Some (cstr_of s))
      | Some (J_Number n) \<Rightarrow>
          (case jn_raw n of
             Some raw \<Rightarrow> ncl_strdup g (Some raw)
           | None \<Rightarrow>
               (let t = (if jn_has_int n \<and> jn_is_integer n then dec_int (jn_integer n) else d_format ops 17 (jn_dbl n))
                in case ncl_strbuf_append g ncl_strbuf_init (map (\<lambda>c. of_nat (of_char c)) t) of
                     (rc, sb) \<Rightarrow> map_option (map (\<lambda>b. char_of (unat b))) (fst (ncl_strbuf_detach g sb))))
      | Some (J_Bool b) \<Rightarrow> ncl_strdup g (Some (if b then ''true'' else ''false''))
      | _ \<Rightarrow> None)"

section \<open>Copies and comparison\<close>

text \<open>Copying the children in order; \<open>None\<close> as soon as one copy or one insertion fails.\<close>

fun ncl_json_clone :: "grant \<Rightarrow> 'd double_ops \<Rightarrow> 'd json \<Rightarrow> 'd json option"
  and clone_items :: "grant \<Rightarrow> 'd double_ops \<Rightarrow> 'd json list \<Rightarrow> 'd json option \<Rightarrow> 'd json option"
  and clone_members :: "grant \<Rightarrow> 'd double_ops \<Rightarrow> (string \<times> 'd json) list \<Rightarrow> 'd json option \<Rightarrow> 'd json option" where
  "ncl_json_clone g ops J_Null = ncl_json_new_null g"
| "ncl_json_clone g ops (J_Bool b) = ncl_json_new_bool g b"
| "ncl_json_clone g ops (J_Number n) =
     (case ncl_json_new_double g ops (d_of_int ops 0) of
        None \<Rightarrow> None
      | Some _ \<Rightarrow>
          (case jn_raw n of
             None \<Rightarrow> Some (J_Number n)
           | Some raw \<Rightarrow> (case ncl_strdup g (Some raw) of
               None \<Rightarrow> None | Some raw1 \<Rightarrow> Some (J_Number (n\<lparr>jn_raw := Some raw1\<rparr>)))))"
| "ncl_json_clone g ops (J_String s) = ncl_json_new_string_len g (Some s)"
| "ncl_json_clone g ops (J_Array xs c) =
     (case ncl_json_new_array g of None \<Rightarrow> None | Some a \<Rightarrow> clone_items g ops xs (Some a))"
| "ncl_json_clone g ops (J_Object ms c) =
     (case ncl_json_new_object g of None \<Rightarrow> None | Some a \<Rightarrow> clone_members g ops ms (Some a))"
| "clone_items g ops [] copy = copy"
| "clone_items g ops (x # xs) copy =
     (case ncl_json_clone g ops x of
        None \<Rightarrow> None
      | Some child \<Rightarrow>
          (case ncl_json_arr_push g copy (Some child) of
             (rc, copy1) \<Rightarrow> if rc \<noteq> NCL_OK then None else clone_items g ops xs copy1))"
| "clone_members g ops [] copy = copy"
| "clone_members g ops ((k, x) # ms) copy =
     (case ncl_json_clone g ops x of
        None \<Rightarrow> None
      | Some child \<Rightarrow>
          (case ncl_json_obj_set g copy (Some k) (Some child) of
             (rc, copy1) \<Rightarrow> if rc \<noteq> NCL_OK then None else clone_members g ops ms copy1))"

definition ncl_json_number_equals ::
  "'d double_ops \<Rightarrow> 'd json_number \<Rightarrow> 'd json_number \<Rightarrow> bool \<times> 'd json_number \<times> 'd json_number" where
  "ncl_json_number_equals ops a b =
     (case (jn_raw a, jn_raw b) of
        (Some ra, Some rb) \<Rightarrow> (ra = rb, a, b)
      | _ \<Rightarrow>
          if jn_is_integer a \<and> jn_is_integer b \<and> (jn_has_int a \<or> jn_raw a \<noteq> None) \<and> (jn_has_int b \<or> jn_raw b \<noteq> None)
          then (case number_as_int ops a of
                  (None, a1) \<Rightarrow> (False, a1, b)
                | (Some ia, a1) \<Rightarrow>
                    (case number_as_int ops b of
                       (None, b1) \<Rightarrow> (False, a1, b1)
                     | (Some ib, b1) \<Rightarrow> (ia = ib, a1, b1)))
          else (case number_as_double ops a of
                  (da, a1) \<Rightarrow> (case number_as_double ops b of (db, b1) \<Rightarrow> (d_eq ops da db, a1, b1))))"

text \<open>
  Comparing two different nodes; both come back, with the numbers converted on the way. An
  array is compared item by item, an object by looking up the keys of the first in the second.
\<close>

fun equals_nodes :: "'d double_ops \<Rightarrow> 'd json \<Rightarrow> 'd json \<Rightarrow> bool \<times> 'd json \<times> 'd json"
  and equals_items :: "'d double_ops \<Rightarrow> 'd json list \<Rightarrow> 'd json list \<Rightarrow> bool \<times> 'd json list \<times> 'd json list"
  and equals_members :: "'d double_ops \<Rightarrow> (string \<times> 'd json) list \<Rightarrow> 'd json option \<Rightarrow> bool \<times> (string \<times> 'd json) list \<times> 'd json option" where
  "equals_nodes ops (J_Array xs c) b =
     (case b of
        J_Array ys d \<Rightarrow>
          if length xs \<noteq> length ys then (False, J_Array xs c, b)
          else (case equals_items ops xs ys of (r, xs1, ys1) \<Rightarrow> (r, J_Array xs1 c, J_Array ys1 d))
      | _ \<Rightarrow> (False, J_Array xs c, b))"
| "equals_nodes ops (J_Object ms c) b =
     (case b of
        J_Object ns d \<Rightarrow>
          if length ms \<noteq> length ns then (False, J_Object ms c, b)
          else (case equals_members ops ms (Some b) of (r, ms1, b1) \<Rightarrow> (r, J_Object ms1 c, the b1))
      | _ \<Rightarrow> (False, J_Object ms c, b))"
| "equals_nodes ops (J_Number m) b =
     (case b of
        J_Number n \<Rightarrow> (case ncl_json_number_equals ops m n of (r, m1, n1) \<Rightarrow> (r, J_Number m1, J_Number n1))
      | _ \<Rightarrow> (False, J_Number m, b))"
| "equals_nodes ops J_Null b = (b = J_Null, J_Null, b)"
| "equals_nodes ops (J_Bool v) b = (b = J_Bool v, J_Bool v, b)"
| "equals_nodes ops (J_String s) b = (b = J_String s, J_String s, b)"
| "equals_items ops (x # xs) (y # ys) =
     (case equals_nodes ops x y of
        (r, x1, y1) \<Rightarrow>
          if \<not> r then (False, x1 # xs, y1 # ys)
          else (case equals_items ops xs ys of (r2, xs1, ys1) \<Rightarrow> (r2, x1 # xs1, y1 # ys1)))"
| "equals_items ops xs ys = (True, xs, ys)"
| "equals_members ops [] b = (True, [], b)"
| "equals_members ops ((k, x) # ms) b =
     (case ncl_json_obj_get b (Some k) of
        None \<Rightarrow> (False, (k, x) # ms, b)
      | Some y \<Rightarrow>
          (case equals_nodes ops x y of
             (r, x1, y1) \<Rightarrow>
               (let b1 = put_child b (Some k) (Some y1)
                in if \<not> r then (False, (k, x1) # ms, b1)
                   else (case equals_members ops ms b1 of (r2, ms1, b2) \<Rightarrow> (r2, (k, x1) # ms1, b2)))))"

text \<open>\<open>same\<close>: the two pointers are equal.\<close>

definition ncl_json_equals ::
  "'d double_ops \<Rightarrow> bool \<Rightarrow> 'd json option \<Rightarrow> 'd json option \<Rightarrow> bool \<times> 'd json option \<times> 'd json option" where
  "ncl_json_equals ops same a b =
     (if same then (True, a, b)
      else case (a, b) of
        (Some x, Some y) \<Rightarrow> (case equals_nodes ops x y of (r, x1, y1) \<Rightarrow> (r, Some x1, Some y1))
      | _ \<Rightarrow> (ncl_json_is_null a \<and> ncl_json_is_null b, a, b))"

fun strvec_items :: "grant \<Rightarrow> string option list \<Rightarrow> 'd json option \<Rightarrow> 'd json option" where
  "strvec_items g [] arr = arr"
| "strvec_items g (s # ss) arr =
     (case ncl_json_arr_push g arr (ncl_json_new_string g s) of
        (rc, arr1) \<Rightarrow> if rc \<noteq> NCL_OK then None else strvec_items g ss arr1)"

definition ncl_strvec_to_json :: "grant \<Rightarrow> char strvec \<Rightarrow> 'd json option" where
  "ncl_strvec_to_json g v =
     (case ncl_json_new_array g of
        None \<Rightarrow> None
      | Some arr \<Rightarrow> strvec_items g (map (ncl_strvec_at v) [0 ..< ncl_strvec_len v]) (Some arr))"

section \<open>Sizes\<close>

text \<open>What is reached from a node is smaller.\<close>

lemma item_smaller: "x \<in> set xs \<Longrightarrow> size x < size (J_Array xs c)"
  by (induction xs) auto

lemma member_smaller: "(k, x) \<in> set ms \<Longrightarrow> size x < size (J_Object ms c)"
  by (induction ms) auto

lemma key_index_bound: "key_index ms k i = Some j \<Longrightarrow> i \<le> j \<and> j - i < length ms"
  by (induction ms k i rule: key_index.induct) (auto split: if_splits)

lemma get_smaller: "ncl_json_obj_get (Some j) k = Some x \<Longrightarrow> size x < size j"
proof -
  assume "ncl_json_obj_get (Some j) k = Some x"
  then obtain ms c i n where j: "j = J_Object ms c" and "key_index ms n 0 = Some i" and x: "x = snd (ms ! i)"
    by (auto simp: ncl_json_obj_get_def ncl_json_obj_index_of_def members_def split: option.splits json.splits)
  then have "i < length ms" using key_index_bound by fastforce
  then have "(fst (ms ! i), x) \<in> set ms" using x by simp
  then show ?thesis unfolding j by (rule member_smaller)
qed

end
