(* ===== verification/Json_Text.thy ===== *)
theory Json_Text
  imports Json_Dom
begin

text \<open>
  \<^verbatim>\<open>stack/src/core/json.c\<close>, second part: the writers and the parser. Text is a list of
  characters; the growable buffer holds their codes. The parser state is the rest of the text:
  the C field \<open>pos\<close> is the length of the text minus the length of the rest.
\<close>

definition byte_of :: "char \<Rightarrow> u8" where
  "byte_of c = of_nat (of_char c)"

definition bytes_of :: "string \<Rightarrow> u8 list" where
  "bytes_of s = map byte_of s"

definition text_of :: "u8 list \<Rightarrow> string" where
  "text_of bs = map (\<lambda>b. char_of (unat b)) bs"

definition NCL_JSON_MAX_DEPTH :: nat where
  "NCL_JSON_MAX_DEPTH = 200"

section \<open>Writing\<close>

text \<open>\<open>ncl_strbuf_puts\<close>, \<open>ncl_strbuf_putc\<close> and \<open>ncl_strbuf_printf\<close> on the formatted text.\<close>

definition put_text :: "grant \<Rightarrow> string \<Rightarrow> strbuf \<Rightarrow> ncl_err \<times> strbuf" where
  "put_text g t sb = ncl_strbuf_append g sb (bytes_of t)"

definition put_char :: "grant \<Rightarrow> char \<Rightarrow> strbuf \<Rightarrow> ncl_err \<times> strbuf" where
  "put_char g c sb = ncl_strbuf_putc g sb (byte_of c)"

definition upper_digit :: "nat \<Rightarrow> char" where
  "upper_digit n = ''0123456789ABCDEF'' ! n"

definition escaped_char :: "char \<Rightarrow> string" where
  "escaped_char c =
     (if c = CHR 0x22 then [CHR 0x5C, CHR 0x22]
      else if c = CHR 0x5C then [CHR 0x5C, CHR 0x5C]
      else if c = CHR 0x0A then [CHR 0x5C, CHR ''n'']
      else if c = CHR 0x0D then [CHR 0x5C, CHR ''r'']
      else if c = CHR 0x09 then [CHR 0x5C, CHR ''t'']
      else if c = CHR 0x08 then [CHR 0x5C, CHR ''b'']
      else if c = CHR 0x0C then [CHR 0x5C, CHR ''f'']
      else if of_char c < (0x20 :: nat)
      then CHR 0x5C # ''u00'' @ [upper_digit (of_char c div 16), upper_digit (of_char c mod 16)]
      else [c])"

fun write_escaped_loop :: "grant \<Rightarrow> string \<Rightarrow> strbuf \<Rightarrow> strbuf" where
  "write_escaped_loop g [] sb = sb"
| "write_escaped_loop g (c # s) sb = write_escaped_loop g s (snd (put_text g (escaped_char c) sb))"

definition ncl_json_write_escaped :: "grant \<Rightarrow> string \<Rightarrow> strbuf \<Rightarrow> strbuf" where
  "ncl_json_write_escaped g s sb =
     snd (put_char g (CHR 0x22) (write_escaped_loop g s (snd (put_char g (CHR 0x22) sb))))"

text \<open>The shortest of the precisions 1 to 17 that reads back as the same value.\<close>

fun shortest_format :: "'d double_ops \<Rightarrow> nat list \<Rightarrow> 'd \<Rightarrow> string" where
  "shortest_format ops [] d = d_format ops 17 d"
| "shortest_format ops (p # ps) d =
     (if d_eq ops (fst (d_strtod ops (d_format ops p d))) d then d_format ops p d else shortest_format ops ps d)"

definition number_text :: "'d double_ops \<Rightarrow> 'd json_number \<Rightarrow> string" where
  "number_text ops n =
     (case jn_raw n of
        Some raw \<Rightarrow> raw
      | None \<Rightarrow>
          if jn_from_int n then dec_int (jn_integer n)
          else if jn_has_dbl n
          then (let d = jn_dbl n
                in if d_below ops d \<and> d_eq ops d (d_of_int ops (d_trunc ops d))
                   then dec_int (d_trunc ops d) @ ''.0''
                   else shortest_format ops [1..<18] d)
          else ''0'')"

definition ncl_json_write_number :: "grant \<Rightarrow> 'd double_ops \<Rightarrow> 'd json_number \<Rightarrow> strbuf \<Rightarrow> strbuf" where
  "ncl_json_write_number g ops n sb = snd (put_text g (number_text ops n) sb)"

fun ncl_json_write_indent :: "grant \<Rightarrow> nat \<Rightarrow> strbuf \<Rightarrow> ncl_err \<times> strbuf" where
  "ncl_json_write_indent g 0 sb = (NCL_OK, sb)"
| "ncl_json_write_indent g (Suc depth) sb =
     (case put_text g ''  '' sb of
        (rc, sb1) \<Rightarrow> if rc \<noteq> NCL_OK then (NCL_ERR_NOMEM, sb1) else ncl_json_write_indent g depth sb1)"

text \<open>A line break and the indentation of the next line, when laid out for a human.\<close>

definition new_line :: "grant \<Rightarrow> bool \<Rightarrow> nat \<Rightarrow> strbuf \<Rightarrow> strbuf" where
  "new_line g indent depth sb =
     (if indent then snd (ncl_json_write_indent g depth (snd (put_char g (CHR 0x0A) sb))) else sb)"

text \<open>\<open>first\<close>: no comma before the next child. The status of writing a child is ignored.\<close>

fun ncl_json_write_internal :: "grant \<Rightarrow> 'd double_ops \<Rightarrow> bool \<Rightarrow> 'd json \<Rightarrow> nat \<Rightarrow> strbuf \<Rightarrow> ncl_err \<times> strbuf"
  and write_items :: "grant \<Rightarrow> 'd double_ops \<Rightarrow> bool \<Rightarrow> 'd json list \<Rightarrow> nat \<Rightarrow> bool \<Rightarrow> strbuf \<Rightarrow> strbuf"
  and write_members :: "grant \<Rightarrow> 'd double_ops \<Rightarrow> bool \<Rightarrow> (string \<times> 'd json) list \<Rightarrow> nat \<Rightarrow> bool \<Rightarrow> strbuf \<Rightarrow> strbuf" where
  "ncl_json_write_internal g ops indent J_Null depth sb =
     (if depth > NCL_JSON_MAX_DEPTH then (NCL_ERR_RANGE, sb) else put_text g ''null'' sb)"
| "ncl_json_write_internal g ops indent (J_Bool b) depth sb =
     (if depth > NCL_JSON_MAX_DEPTH then (NCL_ERR_RANGE, sb)
      else put_text g (if b then ''true'' else ''false'') sb)"
| "ncl_json_write_internal g ops indent (J_Number n) depth sb =
     (if depth > NCL_JSON_MAX_DEPTH then (NCL_ERR_RANGE, sb) else (NCL_OK, ncl_json_write_number g ops n sb))"
| "ncl_json_write_internal g ops indent (J_String s) depth sb =
     (if depth > NCL_JSON_MAX_DEPTH then (NCL_ERR_RANGE, sb) else (NCL_OK, ncl_json_write_escaped g s sb))"
| "ncl_json_write_internal g ops indent (J_Array xs c) depth sb =
     (if depth > NCL_JSON_MAX_DEPTH then (NCL_ERR_RANGE, sb)
      else (let sb1 = write_items g ops indent xs depth True (snd (put_char g (CHR ''['') sb));
                sb2 = (if xs = [] then sb1 else new_line g indent depth sb1)
            in put_char g (CHR '']'') sb2))"
| "ncl_json_write_internal g ops indent (J_Object ms c) depth sb =
     (if depth > NCL_JSON_MAX_DEPTH then (NCL_ERR_RANGE, sb)
      else (let sb1 = write_members g ops indent ms depth True (snd (put_char g (CHR ''{'') sb));
                sb2 = (if ms = [] then sb1 else new_line g indent depth sb1)
            in put_char g (CHR ''}'') sb2))"
| "write_items g ops indent [] depth first sb = sb"
| "write_items g ops indent (x # xs) depth first sb =
     (let sb1 = (if first then sb else snd (put_char g (CHR '','') sb));
          sb2 = new_line g indent (depth + 1) sb1
      in write_items g ops indent xs depth False (snd (ncl_json_write_internal g ops indent x (depth + 1) sb2)))"
| "write_members g ops indent [] depth first sb = sb"
| "write_members g ops indent ((k, x) # ms) depth first sb =
     (let sb1 = (if first then sb else snd (put_char g (CHR '','') sb));
          sb2 = new_line g indent (depth + 1) sb1;
          sb3 = snd (put_char g (CHR '':'') (ncl_json_write_escaped g k sb2));
          sb4 = (if indent then snd (put_char g (CHR '' '') sb3) else sb3)
      in write_members g ops indent ms depth False (snd (ncl_json_write_internal g ops indent x (depth + 1) sb4)))"

definition write_from :: "grant \<Rightarrow> 'd double_ops \<Rightarrow> bool \<Rightarrow> 'd json option \<Rightarrow> strbuf \<Rightarrow> ncl_err \<times> strbuf" where
  "write_from g ops indent j sb =
     (case j of None \<Rightarrow> put_text g ''null'' sb | Some n \<Rightarrow> ncl_json_write_internal g ops indent n 0 sb)"

definition ncl_json_write :: "grant \<Rightarrow> 'd double_ops \<Rightarrow> 'd json option \<Rightarrow> strbuf \<Rightarrow> ncl_err \<times> strbuf" where
  "ncl_json_write g ops j sb = write_from g ops False j sb"

definition ncl_json_write_pretty :: "grant \<Rightarrow> 'd double_ops \<Rightarrow> 'd json option \<Rightarrow> strbuf \<Rightarrow> ncl_err \<times> strbuf" where
  "ncl_json_write_pretty g ops j sb = write_from g ops True j sb"

definition ncl_json_write_string :: "grant \<Rightarrow> 'd double_ops \<Rightarrow> 'd json option \<Rightarrow> string option" where
  "ncl_json_write_string g ops j =
     (case ncl_json_write g ops j ncl_strbuf_init of
        (rc, sb) \<Rightarrow> if rc \<noteq> NCL_OK then None else map_option text_of (fst (ncl_strbuf_detach g sb)))"

definition ncl_json_write_pretty_string :: "grant \<Rightarrow> 'd double_ops \<Rightarrow> 'd json option \<Rightarrow> string option" where
  "ncl_json_write_pretty_string g ops j =
     (case ncl_json_write_pretty g ops j ncl_strbuf_init of
        (rc, sb) \<Rightarrow> if rc \<noteq> NCL_OK then None else map_option text_of (fst (ncl_strbuf_detach g sb)))"

section \<open>Parsing: tokens\<close>

text \<open>
  A failure carries the messages for the caller, each with the number of characters that were
  left: no message when memory ran out, two when a text ends inside an escape sequence.
  \<open>Out_Of_Fuel\<close> is not a behaviour of the code: the loops over items count their rounds.
\<close>

datatype json_fail = Parse_Error "(nat \<times> string) list" | Out_Of_Fuel

definition json_ws :: "char \<Rightarrow> bool" where
  "json_ws c \<longleftrightarrow> c = CHR '' '' \<or> c = CHR 0x09 \<or> c = CHR 0x0A \<or> c = CHR 0x0D"

fun ncl_json_skip_ws :: "string \<Rightarrow> string" where
  "ncl_json_skip_ws [] = []"
| "ncl_json_skip_ws (c # s) = (if json_ws c then ncl_json_skip_ws s else c # s)"

definition ncl_json_match_literal :: "string \<Rightarrow> string \<Rightarrow> string option" where
  "ncl_json_match_literal literal s =
     (if length literal > length s then None
      else if take (length literal) s \<noteq> literal then None
      else Some (drop (length literal) s))"

definition ncl_json_utf8_encode :: "grant \<Rightarrow> nat \<Rightarrow> strbuf \<Rightarrow> strbuf" where
  "ncl_json_utf8_encode g cp sb =
     fold (\<lambda>b sb. snd (ncl_strbuf_putc g sb (of_nat b)))
       (if cp \<le> 0x7F then [cp]
        else if cp \<le> 0x7FF then [0xC0 + cp div 64, 0x80 + cp mod 64]
        else if cp \<le> 0xFFFF then [0xE0 + cp div 4096, 0x80 + cp div 64 mod 64, 0x80 + cp mod 64]
        else [0xF0 + cp div 262144, 0x80 + cp div 4096 mod 64, 0x80 + cp div 64 mod 64, 0x80 + cp mod 64]) sb"

definition hex_value :: "char \<Rightarrow> nat option" where
  "hex_value c =
     (if CHR ''0'' \<le> c \<and> c \<le> CHR ''9'' then Some (of_char c - 48)
      else if CHR ''a'' \<le> c \<and> c \<le> CHR ''f'' then Some (of_char c - 87)
      else if CHR ''A'' \<le> c \<and> c \<le> CHR ''F'' then Some (of_char c - 55)
      else None)"

fun hex4_loop :: "nat \<Rightarrow> nat \<Rightarrow> string \<Rightarrow> (nat \<times> string) option" where
  "hex4_loop 0 v s = Some (v, s)"
| "hex4_loop (Suc n) v [] = None"
| "hex4_loop (Suc n) v (c # s) = (case hex_value c of None \<Rightarrow> None | Some d \<Rightarrow> hex4_loop n (v * 16 + d) s)"

definition ncl_json_hex4 :: "string \<Rightarrow> (nat \<times> string) option" where
  "ncl_json_hex4 s = (if length s < 4 then None else hex4_loop 4 0 s)"

lemma hex4_loop_length: "hex4_loop n v s = Some (cp, r) \<Longrightarrow> length s = length r + n"
  by (induction n v s rule: hex4_loop.induct) (auto split: option.splits)

lemma hex4_length: "ncl_json_hex4 s = Some (cp, r) \<Longrightarrow> length s = length r + 4"
  by (auto simp: ncl_json_hex4_def dest: hex4_loop_length split: if_splits)

text \<open>
  The rest of a \<open>\u\<close> escape after its first four digits: a high surrogate may be followed by a
  second escape. The code points to write, and the rest of the text.
\<close>

definition surrogate_pair :: "nat \<Rightarrow> string \<Rightarrow> json_fail + nat list \<times> string" where
  "surrogate_pair cp s =
     (if 0xD800 \<le> cp \<and> cp \<le> 0xDBFF
      then (case s of
          b # u # r \<Rightarrow>
            if b = CHR 0x5C \<and> u = CHR ''u''
            then (case ncl_json_hex4 r of
                None \<Rightarrow> Inl (Parse_Error [(length r, ''invalid low surrogate'')])
              | Some (low, r1) \<Rightarrow>
                  if 0xDC00 \<le> low \<and> low \<le> 0xDFFF
                  then Inr ([0x10000 + (cp - 0xD800) * 1024 + (low - 0xDC00)], r1)
                  else Inr ([cp, low], r1))
            else Inr ([cp], s)
        | _ \<Rightarrow> Inr ([cp], s))
      else Inr ([cp], s))"

lemma surrogate_length: "surrogate_pair cp s = Inr (cps, r) \<Longrightarrow> length r \<le> length s"
  by (auto simp: surrogate_pair_def dest: hex4_length split: if_splits list.splits option.splits)

definition simple_escape :: "char \<Rightarrow> char option" where
  "simple_escape esc =
     (if esc = CHR 0x22 then Some (CHR 0x22)
      else if esc = CHR 0x5C then Some (CHR 0x5C)
      else if esc = CHR ''/'' then Some (CHR ''/'')
      else if esc = CHR ''b'' then Some (CHR 0x08)
      else if esc = CHR ''f'' then Some (CHR 0x0C)
      else if esc = CHR ''n'' then Some (CHR 0x0A)
      else if esc = CHR ''r'' then Some (CHR 0x0D)
      else if esc = CHR ''t'' then Some (CHR 0x09)
      else None)"

text \<open>\<open>Inr\<close>: the buffer's contents as detached, with the length it had.\<close>

function string_loop :: "grant \<Rightarrow> strbuf \<Rightarrow> string \<Rightarrow> json_fail + string \<times> string" where
  "string_loop g sb [] = Inl (Parse_Error [(0, ''unterminated string'')])"
| "string_loop g sb (c # s) =
     (if c = CHR 0x22
      then (case fst (ncl_strbuf_detach g sb) of
          None \<Rightarrow> Inl (Parse_Error []) | Some bs \<Rightarrow> Inr (text_of bs, s))
      else if c = CHR 0x5C
      then (case s of
          [] \<Rightarrow> Inl (Parse_Error [(0, ''unterminated escape sequence''), (0, ''unterminated string'')])
        | esc # r \<Rightarrow>
            if esc = CHR ''u''
            then (case ncl_json_hex4 r of
                None \<Rightarrow> Inl (Parse_Error [(length r, ''invalid '' @ CHR 0x5C # ''u escape'')])
              | Some (cp, r1) \<Rightarrow>
                  (case surrogate_pair cp r1 of
                     Inl e \<Rightarrow> Inl e
                   | Inr (cps, r2) \<Rightarrow> string_loop g (fold (ncl_json_utf8_encode g) cps sb) r2))
            else (case simple_escape esc of
                None \<Rightarrow> Inl (Parse_Error [(length r, ''unsupported escape sequence'')])
              | Some d \<Rightarrow> string_loop g (snd (put_char g d sb)) r))
      else if of_char c < (0x20 :: nat)
      then Inl (Parse_Error [(length s, ''unescaped control character in string'')])
      else string_loop g (snd (put_char g c sb)) s)"
  by pat_completeness auto
termination
  by (relation "measure (\<lambda>(g, sb, s). length s)") (auto dest!: hex4_length surrogate_length)

text \<open>At the end of the text there is no string and no message.\<close>

definition ncl_json_parse_string_raw :: "grant \<Rightarrow> string \<Rightarrow> json_fail + string \<times> string" where
  "ncl_json_parse_string_raw g s =
     (case s of
        [] \<Rightarrow> Inl (Parse_Error [])
      | c # r \<Rightarrow>
          if c \<noteq> CHR 0x22 then Inl (Parse_Error [(length s, ''expected '' @ [CHR 0x27, CHR 0x22, CHR 0x27])])
          else string_loop g ncl_strbuf_init r)"

definition number_char :: "char \<Rightarrow> bool" where
  "number_char c \<longleftrightarrow> is_digit c \<or> c = CHR ''.'' \<or> c = CHR ''e'' \<or> c = CHR ''E'' \<or> c = CHR ''+'' \<or> c = CHR ''-''"

definition ncl_json_parse_number :: "grant \<Rightarrow> 'd double_ops \<Rightarrow> string \<Rightarrow> json_fail + 'd json \<times> string" where
  "ncl_json_parse_number g ops s =
     (let tok = takeWhile number_char s
      in if tok = [] then Inl (Parse_Error [(length s, ''invalid number'')])
         else case ncl_json_new_double g ops (d_of_int ops 0) of
             Some (J_Number n) \<Rightarrow>
               (case ncl_strndup g (Some s) (length tok) of
                  None \<Rightarrow> Inl (Parse_Error [])
                | Some raw \<Rightarrow>
                    Inr (J_Number (n\<lparr>jn_raw := Some raw, jn_has_dbl := False, jn_has_int := False,
                                    jn_is_integer := False, jn_from_int := False\<rparr>),
                         drop (length tok) s))
           | _ \<Rightarrow> Inl (Parse_Error []))"

section \<open>Parsing: values\<close>

text \<open>The parser of a child value is an argument of the parsers of arrays and objects.\<close>

fun array_loop :: "grant \<Rightarrow> (string \<Rightarrow> json_fail + 'd json \<times> string) \<Rightarrow> nat \<Rightarrow> 'd json option \<Rightarrow> string \<Rightarrow> json_fail + 'd json \<times> string" where
  "array_loop g pv 0 arr s = Inl Out_Of_Fuel"
| "array_loop g pv (Suc fuel) arr s =
     (case pv s of
        Inl e \<Rightarrow> Inl e
      | Inr (item, r) \<Rightarrow>
          (case ncl_json_arr_push g arr (Some item) of
             (rc, arr1) \<Rightarrow>
               if rc \<noteq> NCL_OK then Inl (Parse_Error [])
               else (case ncl_json_skip_ws r of
                   c # r1 \<Rightarrow>
                     if c = CHR '','' then array_loop g pv fuel arr1 (ncl_json_skip_ws r1)
                     else if c = CHR '']'' then Inr (the arr1, r1)
                     else Inl (Parse_Error [(Suc (length r1), ''expected '' @ [CHR 0x27] @ '','' @ [CHR 0x27]
                         @ '' or '' @ [CHR 0x27] @ '']'' @ [CHR 0x27])])
                 | [] \<Rightarrow> Inl (Parse_Error [(0, ''expected '' @ [CHR 0x27] @ '','' @ [CHR 0x27]
                         @ '' or '' @ [CHR 0x27] @ '']'' @ [CHR 0x27])]))))"

definition ncl_json_parse_array ::
  "grant \<Rightarrow> (string \<Rightarrow> json_fail + 'd json \<times> string) \<Rightarrow> string \<Rightarrow> json_fail + 'd json \<times> string" where
  "ncl_json_parse_array g pv s =
     (case ncl_json_new_array g of
        None \<Rightarrow> Inl (Parse_Error [])
      | Some arr \<Rightarrow>
          (let r = ncl_json_skip_ws (tl s)
           in if r \<noteq> [] \<and> hd r = CHR '']'' then Inr (arr, tl r)
              else array_loop g pv (Suc (length r)) (Some arr) r))"

fun object_loop :: "grant \<Rightarrow> (string \<Rightarrow> json_fail + 'd json \<times> string) \<Rightarrow> nat \<Rightarrow> 'd json option \<Rightarrow> string \<Rightarrow> json_fail + 'd json \<times> string" where
  "object_loop g pv 0 obj s = Inl Out_Of_Fuel"
| "object_loop g pv (Suc fuel) obj s =
     (case ncl_json_parse_string_raw g (ncl_json_skip_ws s) of
        Inl e \<Rightarrow> Inl e
      | Inr (key, r) \<Rightarrow>
          (case ncl_json_skip_ws r of
             [] \<Rightarrow> Inl (Parse_Error [(0, ''expected '' @ [CHR 0x27] @ '':'' @ [CHR 0x27])])
           | c # r1 \<Rightarrow>
               if c \<noteq> CHR '':'' then Inl (Parse_Error [(Suc (length r1), ''expected '' @ [CHR 0x27] @ '':'' @ [CHR 0x27])])
               else (case pv r1 of
                   Inl e \<Rightarrow> Inl e
                 | Inr (val, r2) \<Rightarrow>
                     (case ncl_json_obj_set g obj (Some (cstr_of key)) (Some val) of
                        (rc, obj1) \<Rightarrow>
                          if rc \<noteq> NCL_OK then Inl (Parse_Error [])
                          else (case ncl_json_skip_ws r2 of
                              d # r3 \<Rightarrow>
                                if d = CHR '','' then object_loop g pv fuel obj1 r3
                                else if d = CHR ''}'' then Inr (the obj1, r3)
                                else Inl (Parse_Error [(Suc (length r3), ''expected '' @ [CHR 0x27] @ '','' @ [CHR 0x27]
                                    @ '' or '' @ [CHR 0x27] @ ''}'' @ [CHR 0x27])])
                            | [] \<Rightarrow> Inl (Parse_Error [(0, ''expected '' @ [CHR 0x27] @ '','' @ [CHR 0x27]
                                    @ '' or '' @ [CHR 0x27] @ ''}'' @ [CHR 0x27])]))))))"

definition ncl_json_parse_object ::
  "grant \<Rightarrow> (string \<Rightarrow> json_fail + 'd json \<times> string) \<Rightarrow> string \<Rightarrow> json_fail + 'd json \<times> string" where
  "ncl_json_parse_object g pv s =
     (case ncl_json_new_object g of
        None \<Rightarrow> Inl (Parse_Error [])
      | Some obj \<Rightarrow>
          (let r = ncl_json_skip_ws (tl s)
           in if r \<noteq> [] \<and> hd r = CHR ''}'' then Inr (obj, tl r)
              else object_loop g pv (Suc (length r)) (Some obj) r))"

text \<open>The node a constructor made, or a failure without message.\<close>

definition made :: "'d json option \<Rightarrow> string \<Rightarrow> json_fail + 'd json \<times> string" where
  "made j s = (case j of None \<Rightarrow> Inl (Parse_Error []) | Some n \<Rightarrow> Inr (n, s))"

definition literal_value :: "string \<Rightarrow> 'd json option \<Rightarrow> string \<Rightarrow> json_fail + 'd json \<times> string" where
  "literal_value literal j s =
     (case ncl_json_match_literal literal s of
        None \<Rightarrow> Inl (Parse_Error [(length s, ''invalid literal'')]) | Some r \<Rightarrow> made j r)"

text \<open>\<open>levels\<close> is \<open>NCL_JSON_MAX_DEPTH + 1 - depth\<close>: no level is left when the depth exceeds the limit.\<close>

fun ncl_json_parse_value :: "grant \<Rightarrow> 'd double_ops \<Rightarrow> nat \<Rightarrow> string \<Rightarrow> json_fail + 'd json \<times> string" where
  "ncl_json_parse_value g ops 0 s = Inl (Parse_Error [(length s, ''maximum nesting depth exceeded'')])"
| "ncl_json_parse_value g ops (Suc levels) s =
     (case ncl_json_skip_ws s of
        [] \<Rightarrow> Inl (Parse_Error [(0, ''unexpected end of input'')])
      | c # r \<Rightarrow>
          if c = CHR ''{'' then ncl_json_parse_object g (ncl_json_parse_value g ops levels) (c # r)
          else if c = CHR ''['' then ncl_json_parse_array g (ncl_json_parse_value g ops levels) (c # r)
          else if c = CHR 0x22
          then (case ncl_json_parse_string_raw g (c # r) of
              Inl e \<Rightarrow> Inl e | Inr (t, r1) \<Rightarrow> made (ncl_json_new_string_len g (Some t)) r1)
          else if c = CHR ''t'' then literal_value ''true'' (ncl_json_new_bool g True) (c # r)
          else if c = CHR ''f'' then literal_value ''false'' (ncl_json_new_bool g False) (c # r)
          else if c = CHR ''n'' then literal_value ''null'' (ncl_json_new_null g) (c # r)
          else if c = CHR ''-'' \<or> is_digit c then ncl_json_parse_number g ops (c # r)
          else Inl (Parse_Error [(Suc (length r), ''unexpected character'')]))"

definition parse_document :: "grant \<Rightarrow> 'd double_ops \<Rightarrow> string \<Rightarrow> json_fail + 'd json" where
  "parse_document g ops text =
     (case ncl_json_parse_value g ops (NCL_JSON_MAX_DEPTH + 1) text of
        Inl e \<Rightarrow> Inl e
      | Inr (root, r) \<Rightarrow>
          (let r1 = ncl_json_skip_ws r
           in if r1 \<noteq> [] then Inl (Parse_Error [(length r1, ''trailing content after document'')])
              else Inr root))"

definition ncl_json_parser_error :: "grant \<Rightarrow> nat \<Rightarrow> nat \<times> string \<Rightarrow> strbuf option \<Rightarrow> strbuf option" where
  "ncl_json_parser_error g len m err =
     (case err of None \<Rightarrow> None
      | Some sb \<Rightarrow> Some (snd (put_text g (''JSON parse error at offset '' @ dec_nat (len - fst m) @ '': '' @ snd m) sb)))"

definition ncl_json_parse ::
  "grant \<Rightarrow> 'd double_ops \<Rightarrow> string option \<Rightarrow> strbuf option \<Rightarrow> 'd json option \<times> strbuf option" where
  "ncl_json_parse g ops text err =
     (case text of
        None \<Rightarrow> (None, case err of None \<Rightarrow> None
                   | Some sb \<Rightarrow> Some (snd (put_text g ''JSON parse error: input is NULL'' sb)))
      | Some t \<Rightarrow>
          (case parse_document g ops t of
             Inr root \<Rightarrow> (Some root, err)
           | Inl (Parse_Error ms) \<Rightarrow> (None, fold (ncl_json_parser_error g (length t)) ms err)
           | Inl Out_Of_Fuel \<Rightarrow> (None, err)))"

definition ncl_json_parse_cstr ::
  "grant \<Rightarrow> 'd double_ops \<Rightarrow> string option \<Rightarrow> strbuf option \<Rightarrow> 'd json option \<times> strbuf option" where
  "ncl_json_parse_cstr g ops text err = ncl_json_parse g ops (map_option cstr_of text) err"

end
