(* ===== verification/Json_Props.thy ===== *)
theory Json_Props
  imports Json_Text
begin

text \<open>
  Correctness of the JSON writers and parser, against documents: what a node tree means,
  whatever its capacities and cached numbers are.
\<close>

section \<open>Documents\<close>

datatype json_doc =
  D_Null | D_Bool bool | D_Number string | D_String string
| D_Array "json_doc list" | D_Object "(string \<times> json_doc) list"

fun doc_of :: "'d double_ops \<Rightarrow> 'd json \<Rightarrow> json_doc" where
  "doc_of ops J_Null = D_Null"
| "doc_of ops (J_Bool b) = D_Bool b"
| "doc_of ops (J_Number n) = D_Number (number_text ops n)"
| "doc_of ops (J_String s) = D_String s"
| "doc_of ops (J_Array xs c) = D_Array (map (doc_of ops) xs)"
| "doc_of ops (J_Object ms c) = D_Object (map (\<lambda>(k, x). (k, doc_of ops x)) ms)"

text \<open>The text of a document, compact or laid out, at a depth.\<close>

definition quoted :: "string \<Rightarrow> string" where
  "quoted s = CHR 0x22 # concat (map escaped_char s) @ [CHR 0x22]"

definition break_text :: "bool \<Rightarrow> nat \<Rightarrow> string" where
  "break_text indent depth = (if indent then CHR 0x0A # replicate (2 * depth) (CHR '' '') else [])"

fun doc_text :: "bool \<Rightarrow> nat \<Rightarrow> json_doc \<Rightarrow> string"
  and items_text :: "bool \<Rightarrow> nat \<Rightarrow> bool \<Rightarrow> json_doc list \<Rightarrow> string"
  and members_text :: "bool \<Rightarrow> nat \<Rightarrow> bool \<Rightarrow> (string \<times> json_doc) list \<Rightarrow> string" where
  "doc_text indent depth D_Null = ''null''"
| "doc_text indent depth (D_Bool b) = (if b then ''true'' else ''false'')"
| "doc_text indent depth (D_Number t) = t"
| "doc_text indent depth (D_String s) = quoted s"
| "doc_text indent depth (D_Array ds) =
     CHR ''['' # items_text indent depth True ds @ (if ds = [] then [] else break_text indent depth) @ '']''"
| "doc_text indent depth (D_Object ms) =
     CHR ''{'' # members_text indent depth True ms @ (if ms = [] then [] else break_text indent depth) @ ''}''"
| "items_text indent depth first [] = []"
| "items_text indent depth first (d # ds) =
     (if first then [] else '','') @ break_text indent (depth + 1) @ doc_text indent (depth + 1) d
       @ items_text indent depth False ds"
| "members_text indent depth first [] = []"
| "members_text indent depth first ((k, d) # ms) =
     (if first then [] else '','') @ break_text indent (depth + 1) @ quoted k @ '':'' @ (if indent then '' '' else [])
       @ doc_text indent (depth + 1) d @ members_text indent depth False ms"

text \<open>No more than so many levels of nesting.\<close>

fun fits :: "nat \<Rightarrow> json_doc \<Rightarrow> bool" where
  "fits 0 d = False"
| "fits (Suc n) (D_Array ds) = list_all (fits n) ds"
| "fits (Suc n) (D_Object ms) = list_all (\<lambda>(k, d). fits n d) ms"
| "fits (Suc n) d = True"

text \<open>Numbers are tokens the parser reads in one piece; the keys of an object are C strings, all different.\<close>

definition number_token :: "string \<Rightarrow> bool" where
  "number_token t \<longleftrightarrow> t \<noteq> [] \<and> list_all number_char t \<and> (hd t = CHR ''-'' \<or> is_digit (hd t))"

fun doc_ok :: "json_doc \<Rightarrow> bool" where
  "doc_ok (D_Number t) = number_token t"
| "doc_ok (D_Array ds) = list_all doc_ok ds"
| "doc_ok (D_Object ms) \<longleftrightarrow> distinct (map fst ms) \<and> list_all (\<lambda>(k, d). is_cstr k \<and> doc_ok d) ms"
| "doc_ok d = True"

section \<open>Bytes and characters\<close>

lemma text_of_bytes [simp]: "text_of (bytes_of s) = s"
proof -
  have "char_of (unat (byte_of c)) = c" for c
  proof -
    have "(of_char c :: nat) < 256" by simp
    then have "unat (of_nat (of_char c) :: u8) = of_char c" by (simp add: unat_of_nat)
    then show ?thesis by (simp add: byte_of_def)
  qed
  then show ?thesis by (simp add: text_of_def bytes_of_def comp_def)
qed

lemma bytes_of_simps [simp]:
  "bytes_of [] = []" "bytes_of (c # s) = byte_of c # bytes_of s" "bytes_of (s @ t) = bytes_of s @ bytes_of t"
  "length (bytes_of s) = length s"
  by (simp_all add: bytes_of_def)

lemma text_of_simps [simp]:
  "text_of [] = []" "text_of (bs @ cs) = text_of bs @ text_of cs" "text_of (b # bs) = char_of (unat b) # text_of bs"
  "length (text_of bs) = length bs"
  by (simp_all add: text_of_def)

section \<open>The writers\<close>

lemma writes_text: "sba.writes (\<lambda>sb. snd (put_text grant_all t sb)) (bytes_of t)"
  unfolding put_text_def by (rule writes_append)

lemma writes_char: "sba.writes (\<lambda>sb. snd (put_char grant_all c sb)) (bytes_of [c])"
  unfolding put_char_def by (simp add: writes_putc)

lemma writes_escaped_loop:
  "sba.writes (write_escaped_loop grant_all s) (bytes_of (concat (map escaped_char s)))"
proof (induction s)
  case (Cons c s)
  have "sba.writes (\<lambda>sb. write_escaped_loop grant_all s (snd (put_text grant_all (escaped_char c) sb)))
      (bytes_of (escaped_char c) @ bytes_of (concat (map escaped_char s)))"
    by (rule sba.writes_seq [OF writes_text Cons.IH])
  then show ?case by (simp add: sba.writes_def)
qed (simp add: sba.writes_def)

lemma writes_escaped: "sba.writes (ncl_json_write_escaped grant_all s) (bytes_of (quoted s))"
proof -
  have "sba.writes (\<lambda>sb. snd (put_char grant_all (CHR 0x22) (write_escaped_loop grant_all s (snd (put_char grant_all (CHR 0x22) sb)))))
      ((bytes_of [CHR 0x22] @ bytes_of (concat (map escaped_char s))) @ bytes_of [CHR 0x22])"
    by (intro sba.writes_seq writes_char writes_escaped_loop)
  then show ?thesis by (simp add: ncl_json_write_escaped_def [abs_def] quoted_def)
qed

lemma writes_indent:
  "sba.writes (\<lambda>sb. snd (ncl_json_write_indent grant_all depth sb)) (bytes_of (replicate (2 * depth) (CHR '' '')))"
proof (induction depth)
  case (Suc depth)
  show ?case
    unfolding sba.writes_def
  proof (intro allI impI)
    fix w :: strbuf
    assume room: "length (sb_bytes w) + length (bytes_of (replicate (2 * Suc depth) (CHR '' ''))) + 1 \<le> 2 ^ 63"
    obtain rc w1 where e: "put_text grant_all ''  '' w = (rc, w1)" by fastforce
    then have "rc = NCL_OK" "sb_bytes w1 = sb_bytes w @ bytes_of ''  ''"
      using append_all [of w "bytes_of ''  ''"] append_ok [of grant_all w "bytes_of ''  ''" w1] room
      by (auto simp: put_text_def)
    then show "sb_bytes (snd (ncl_json_write_indent grant_all (Suc depth) w))
        = sb_bytes w @ bytes_of (replicate (2 * Suc depth) (CHR '' ''))"
      using Suc.IH room e by (simp add: sba.writes_def)
  qed
qed (simp add: sba.writes_def)

lemma writes_new_line: "sba.writes (new_line grant_all indent depth) (bytes_of (break_text indent depth))"
proof (cases indent)
  case True
  have "sba.writes (\<lambda>sb. snd (ncl_json_write_indent grant_all depth (snd (put_char grant_all (CHR 0x0A) sb))))
      (bytes_of [CHR 0x0A] @ bytes_of (replicate (2 * depth) (CHR '' '')))"
    by (intro sba.writes_seq writes_char writes_indent)
  then show ?thesis by (simp add: new_line_def [abs_def] break_text_def True)
qed (simp add: new_line_def [abs_def] break_text_def sba.writes_skip)

lemma writes_if: "sba.writes f bs \<Longrightarrow> sba.writes (\<lambda>sb. if b then sb else f sb) (if b then [] else bs)"
  by (simp add: sba.writes_skip)

lemma bytes_of_if: "bytes_of (if b then s else t) = (if b then bytes_of s else bytes_of t)"
  by simp

lemma writes_items:
  assumes "\<And>x. x \<in> set xs \<Longrightarrow>
     sba.writes (\<lambda>sb. snd (ncl_json_write_internal grant_all ops indent x (depth + 1) sb)) (bytes_of (doc_text indent (depth + 1) (doc_of ops x)))"
  shows "sba.writes (write_items grant_all ops indent xs depth first) (bytes_of (items_text indent depth first (map (doc_of ops) xs)))"
  using assms
proof (induction xs arbitrary: first)
  case (Cons x xs)
  have code: "write_items grant_all ops indent (x # xs) depth first =
    (\<lambda>sb. write_items grant_all ops indent xs depth False (snd (ncl_json_write_internal grant_all ops indent x (depth + 1)
        (new_line grant_all indent (depth + 1) (if first then sb else snd (put_char grant_all (CHR '','') sb))))))"
    by (rule ext) (simp add: Let_def)
  have bytes: "bytes_of (items_text indent depth first (map (doc_of ops) (x # xs))) =
      (((if first then [] else bytes_of '','') @ bytes_of (break_text indent (depth + 1)))
        @ bytes_of (doc_text indent (depth + 1) (doc_of ops x)))
        @ bytes_of (items_text indent depth False (map (doc_of ops) xs))"
    by simp
  have hd_w: "sba.writes (\<lambda>sb. snd (ncl_json_write_internal grant_all ops indent x (depth + 1) sb))
      (bytes_of (doc_text indent (depth + 1) (doc_of ops x)))"
    by (rule Cons.prems) simp
  have tl_w: "sba.writes (write_items grant_all ops indent xs depth False) (bytes_of (items_text indent depth False (map (doc_of ops) xs)))"
    by (rule Cons.IH, rule Cons.prems) simp
  show ?case
    unfolding code bytes
    by (rule sba.writes_seq [OF sba.writes_seq [OF sba.writes_seq [OF writes_if [OF writes_char] writes_new_line] hd_w] tl_w])
qed (simp add: sba.writes_def)

lemma writes_members:
  assumes "\<And>k x. (k, x) \<in> set ms \<Longrightarrow>
     sba.writes (\<lambda>sb. snd (ncl_json_write_internal grant_all ops indent x (depth + 1) sb)) (bytes_of (doc_text indent (depth + 1) (doc_of ops x)))"
  shows "sba.writes (write_members grant_all ops indent ms depth first)
    (bytes_of (members_text indent depth first (map (\<lambda>(k, x). (k, doc_of ops x)) ms)))"
  using assms
proof (induction ms arbitrary: first)
  case (Cons m ms)
  obtain k x where m: "m = (k, x)" by fastforce
  define colon where "colon = (\<lambda>sb. snd (put_char grant_all (CHR '':'') sb))"
  define blank where "blank = (\<lambda>sb. if \<not> indent then sb else snd (put_char grant_all (CHR '' '') sb))"
  have code: "write_members grant_all ops indent (m # ms) depth first =
    (\<lambda>sb. write_members grant_all ops indent ms depth False (snd (ncl_json_write_internal grant_all ops indent x (depth + 1)
        (blank (colon (ncl_json_write_escaped grant_all k
        (new_line grant_all indent (depth + 1) (if first then sb else snd (put_char grant_all (CHR '','') sb))))))))) "
    by (rule ext) (simp add: Let_def m colon_def blank_def)
  have bytes: "bytes_of (members_text indent depth first (map (\<lambda>(k, x). (k, doc_of ops x)) (m # ms))) =
      ((((((if first then [] else bytes_of '','') @ bytes_of (break_text indent (depth + 1)))
        @ bytes_of (quoted k)) @ bytes_of '':'') @ (if \<not> indent then [] else bytes_of '' ''))
        @ bytes_of (doc_text indent (depth + 1) (doc_of ops x)))
        @ bytes_of (members_text indent depth False (map (\<lambda>(k, x). (k, doc_of ops x)) ms))"
    by (simp add: m)
  have marks: "sba.writes colon (bytes_of '':'')" "sba.writes blank (if \<not> indent then [] else bytes_of '' '')"
    unfolding colon_def blank_def by (intro writes_char writes_if)+
  have hd_w: "sba.writes (\<lambda>sb. snd (ncl_json_write_internal grant_all ops indent x (depth + 1) sb))
      (bytes_of (doc_text indent (depth + 1) (doc_of ops x)))"
    by (rule Cons.prems [of k]) (simp add: m)
  have tl_w: "sba.writes (write_members grant_all ops indent ms depth False)
      (bytes_of (members_text indent depth False (map (\<lambda>(k, x). (k, doc_of ops x)) ms)))"
    by (rule Cons.IH) (rule Cons.prems, rule list.set_intros(2))
  show ?case
    unfolding code bytes
    by (rule sba.writes_seq [OF sba.writes_seq [OF sba.writes_seq [OF sba.writes_seq [OF sba.writes_seq [OF sba.writes_seq
          [OF writes_if [OF writes_char] writes_new_line] writes_escaped] marks(1)] marks(2)] hd_w] tl_w])
qed (simp add: sba.writes_def)

text \<open>A node that fits is written as the text of its document.\<close>

lemma depth_levels: "fits (201 - depth) d \<Longrightarrow> depth \<le> NCL_JSON_MAX_DEPTH \<and> 201 - depth = Suc (200 - depth)"
  by (cases "depth \<le> 200") (auto simp: NCL_JSON_MAX_DEPTH_def)

lemma put_char_ok:
  "length (sb_bytes sb) + 2 \<le> 2 ^ 63 \<Longrightarrow> fst (put_char grant_all c sb) = NCL_OK"
  using append_all [of sb "[byte_of c]"] by (simp add: put_char_def putc_append)

lemma put_text_ok:
  "length (sb_bytes sb) + length t + 1 \<le> 2 ^ 63 \<Longrightarrow> fst (put_text grant_all t sb) = NCL_OK"
  using append_all [of sb "bytes_of t"] by (simp add: put_text_def)

lemma writes_node:
  "fits (201 - depth) (doc_of ops j) \<Longrightarrow>
     sba.writes (\<lambda>sb. snd (ncl_json_write_internal grant_all ops indent j depth sb))
       (bytes_of (doc_text indent depth (doc_of ops j)))"
proof (induction j arbitrary: depth)
  case (J_Array xs c)
  note d = depth_levels [OF J_Array.prems]
  have children: "sba.writes (write_items grant_all ops indent xs depth True) (bytes_of (items_text indent depth True (map (doc_of ops) xs)))"
  proof (rule writes_items)
    fix x assume "x \<in> set xs"
    then show "sba.writes (\<lambda>sb. snd (ncl_json_write_internal grant_all ops indent x (depth + 1) sb))
        (bytes_of (doc_text indent (depth + 1) (doc_of ops x)))"
      using J_Array d by (auto simp: list_all_iff)
  qed
  define tail where "tail = (if xs = [] then (\<lambda>sb. sb) else new_line grant_all indent depth)"
  have tail: "sba.writes tail (if xs = [] then [] else bytes_of (break_text indent depth))"
    by (simp add: tail_def sba.writes_skip writes_new_line)
  have code: "(\<lambda>sb. snd (ncl_json_write_internal grant_all ops indent (J_Array xs c) depth sb)) =
      (\<lambda>sb. snd (put_char grant_all (CHR '']'') (tail (write_items grant_all ops indent xs depth True (snd (put_char grant_all (CHR ''['') sb))))))"
    using d by (auto simp: Let_def tail_def)
  have bytes: "bytes_of (doc_text indent depth (doc_of ops (J_Array xs c))) =
      ((bytes_of ''['' @ bytes_of (items_text indent depth True (map (doc_of ops) xs)))
        @ (if xs = [] then [] else bytes_of (break_text indent depth))) @ bytes_of '']''"
    by simp
  show ?case
    unfolding code bytes
    by (rule sba.writes_seq [OF sba.writes_seq [OF sba.writes_seq [OF writes_char children] tail] writes_char])
next
  case (J_Object ms c)
  note d = depth_levels [OF J_Object.prems]
  have children: "sba.writes (write_members grant_all ops indent ms depth True)
      (bytes_of (members_text indent depth True (map (\<lambda>(k, x). (k, doc_of ops x)) ms)))"
  proof (rule writes_members)
    fix k x assume "(k, x) \<in> set ms"
    then show "sba.writes (\<lambda>sb. snd (ncl_json_write_internal grant_all ops indent x (depth + 1) sb))
        (bytes_of (doc_text indent (depth + 1) (doc_of ops x)))"
      using J_Object.prems J_Object.IH [of "(k, x)" x "depth + 1"] d by (force simp: list_all_iff)
  qed
  define tail where "tail = (if ms = [] then (\<lambda>sb. sb) else new_line grant_all indent depth)"
  have tail: "sba.writes tail (if ms = [] then [] else bytes_of (break_text indent depth))"
    by (simp add: tail_def sba.writes_skip writes_new_line)
  have code: "(\<lambda>sb. snd (ncl_json_write_internal grant_all ops indent (J_Object ms c) depth sb)) =
      (\<lambda>sb. snd (put_char grant_all (CHR ''}'') (tail (write_members grant_all ops indent ms depth True (snd (put_char grant_all (CHR ''{'') sb))))))"
    using d by (auto simp: Let_def tail_def)
  have bytes: "bytes_of (doc_text indent depth (doc_of ops (J_Object ms c))) =
      ((bytes_of ''{'' @ bytes_of (members_text indent depth True (map (\<lambda>(k, x). (k, doc_of ops x)) ms)))
        @ (if ms = [] then [] else bytes_of (break_text indent depth))) @ bytes_of ''}''"
    by simp
  show ?case
    unfolding code bytes
    by (rule sba.writes_seq [OF sba.writes_seq [OF sba.writes_seq [OF writes_char children] tail] writes_char])
next
  case (J_Number n)
  then show ?case
    using depth_levels [OF J_Number.prems] writes_text by (simp add: ncl_json_write_number_def)
next
  case (J_String s)
  then show ?case
    using depth_levels [OF J_String.prems] writes_escaped [of s] by simp
next
  case (J_Bool b)
  then show ?case
    using depth_levels [OF J_Bool.prems] writes_text [of "if b then ''true'' else ''false''"] by simp
next
  case J_Null
  then show ?case
    using depth_levels [OF J_Null.prems] writes_text [of "''null''"] by simp
qed

text \<open>With room for the text, the status is success.\<close>

lemma put_char_grows: "length (sb_bytes sb) \<le> length (sb_bytes (snd (put_char grant_all c sb)))"
  using sb.put_contents [of grant_all sb "[byte_of c]"] by (simp add: put_char_def putc_append)

lemma put_char_last:
  "length (sb_bytes (snd (put_char grant_all c sb))) + 2 \<le> 2 ^ 63 \<Longrightarrow> fst (put_char grant_all c sb) = NCL_OK"
  using put_char_ok put_char_grows by (meson add_le_mono1 order_trans)

lemma write_status:
  assumes "fits (201 - depth) (doc_of ops j)"
    and "length (sb_bytes sb) + length (doc_text indent depth (doc_of ops j)) + 2 \<le> 2 ^ 63"
  shows "fst (ncl_json_write_internal grant_all ops indent j depth sb) = NCL_OK"
proof -
  note d = depth_levels [OF assms(1)]
  have end_room: "length (sb_bytes (snd (ncl_json_write_internal grant_all ops indent j depth sb))) + 2 \<le> 2 ^ 63"
    using sba.writes_result [OF writes_node [OF assms(1), of indent], of sb] assms(2) by simp
  show ?thesis
  proof (cases j)
    case (J_Array xs c)
    then show ?thesis using d end_room put_char_last by (simp add: Let_def)
  next
    case (J_Object ms c)
    then show ?thesis using d end_room put_char_last by (simp add: Let_def)
  qed (use d assms put_text_ok in auto)
qed

end
