(* ===== verification/Json_Parse_Props.thy ===== *)
theory Json_Parse_Props
  imports Json_Props
begin

text \<open>
  The parser against documents: it reads back the text of a document, compact or laid out; it
  always comes to an end; and what it accepts is a well formed document.
\<close>

section \<open>Reading tokens back\<close>

lemma skip_ws_append: "list_all json_ws ws \<Longrightarrow> ncl_json_skip_ws (ws @ s) = ncl_json_skip_ws s"
  by (induction ws) auto

lemma break_ws: "list_all json_ws (break_text indent depth)"
  by (auto simp: break_text_def json_ws_def list_all_iff)

lemma skip_break [simp]: "ncl_json_skip_ws (break_text indent depth @ s) = ncl_json_skip_ws s"
  by (rule skip_ws_append [OF break_ws])

lemma upper_digit_value:
  assumes "n < 16" shows "hex_value (upper_digit n) = Some n"
proof -
  have "\<forall>n \<in> set [0..<16]. hex_value (upper_digit n) = Some n" by code_simp
  then show ?thesis using assms by (simp add: atLeastLessThan_iff)
qed

lemma hex4_control:
  assumes "n < 32"
  shows "ncl_json_hex4 (CHR ''0'' # CHR ''0'' # upper_digit (n div 16) # upper_digit (n mod 16) # r) = Some (n, r)"
proof -
  have zero: "hex_value (CHR ''0'') = Some 0" by code_simp
  have "n div 16 < 16" "n mod 16 < 16" using assms by auto
  moreover have four: "(4 :: nat) = Suc (Suc (Suc (Suc 0)))" by simp
  ultimately have "hex4_loop 4 0 (CHR ''0'' # CHR ''0'' # upper_digit (n div 16) # upper_digit (n mod 16) # r) = Some (n, r)"
    by (simp only: four hex4_loop.simps zero upper_digit_value option.case) simp
  then show ?thesis by (simp add: ncl_json_hex4_def)
qed

lemma control_write:
  "n < 32 \<Longrightarrow> fold (ncl_json_utf8_encode g) [n] sb = snd (ncl_strbuf_putc g sb (of_nat n))"
  by (simp add: ncl_json_utf8_encode_def)

lemma string_loop_plain:
  "\<lbrakk>c \<noteq> CHR 0x22; c \<noteq> CHR 0x5C; \<not> of_char c < (0x20 :: nat)\<rbrakk> \<Longrightarrow>
     string_loop g sb (c # s) = string_loop g (snd (put_char g c sb)) s"
  by simp

lemma string_loop_simple:
  "\<lbrakk>simple_escape e = Some d; e \<noteq> CHR ''u''\<rbrakk> \<Longrightarrow>
     string_loop g sb (CHR 0x5C # e # s) = string_loop g (snd (put_char g d sb)) s"
  by simp

lemma string_loop_control:
  assumes "of_char c < (32 :: nat)"
  shows "string_loop g sb (CHR 0x5C # CHR ''u'' # CHR ''0'' # CHR ''0'' # upper_digit (of_char c div 16)
      # upper_digit (of_char c mod 16) # s) = string_loop g (snd (put_char g c sb)) s"
  using hex4_control [OF assms] control_write [OF assms] assms
  by (simp add: surrogate_pair_def put_char_def byte_of_def)

lemma string_loop_escaped:
  "string_loop g sb (escaped_char c @ s) = string_loop g (snd (put_char g c sb)) s"
proof (cases "c \<in> set [CHR 0x22, CHR 0x5C, CHR 0x0A, CHR 0x0D, CHR 0x09, CHR 0x08, CHR 0x0C]")
  case True
  then show ?thesis
    by (auto simp: escaped_char_def simple_escape_def string_loop_simple simp del: string_loop.simps)
next
  case False
  show ?thesis
  proof (cases "of_char c < (32 :: nat)")
    case True
    with False show ?thesis
      using string_loop_control [OF True, of g sb s] by (simp add: escaped_char_def del: string_loop.simps)
  next
    case big: False
    with False show ?thesis
      using string_loop_plain [of c g sb s] by (simp add: escaped_char_def del: string_loop.simps)
  qed
qed

declare string_loop.simps [simp del]

lemma string_loop_text:
  "\<lbrakk>strbuf_ok sb; length (sb_bytes sb) + length s + 1 \<le> 2 ^ 63\<rbrakk> \<Longrightarrow>
     string_loop grant_all sb (concat (map escaped_char s) @ CHR 0x22 # r) = Inr (text_of (sb_bytes sb) @ s, r)"
proof (induction s arbitrary: sb)
  case Nil
  then show ?case
    by (auto simp: string_loop.simps ncl_strbuf_detach_def grant_all strbuf_ok_def)
next
  case (Cons c s)
  have room: "length (sb_bytes sb) + length [byte_of c] + 1 \<le> 2 ^ 63"
    using Cons.prems by simp
  have bytes: "sb_bytes (snd (put_char grant_all c sb)) = sb_bytes sb @ [byte_of c]"
    using sba.writes_result [OF writes_char, of sb c] room by simp
  have ok: "strbuf_ok (snd (put_char grant_all c sb))"
    unfolding put_char_def putc_append
    by (rule append_wf [OF Cons.prems(1)]) (use Cons.prems(2) in \<open>simp add: SIZE_MOD_def\<close>)
  have "text_of (bytes_of [c]) = [c]" by (rule text_of_bytes)
  then show ?case
    using Cons.IH [OF ok] Cons.prems bytes by (simp add: string_loop_escaped)
qed

lemma parse_quoted:
  assumes "length s + 1 \<le> 2 ^ 63"
  shows "ncl_json_parse_string_raw grant_all (quoted s @ r) = Inr (s, r)"
  using string_loop_text [OF strbuf_ok_init, of s r] assms
  by (simp add: ncl_json_parse_string_raw_def quoted_def)

text \<open>What may follow a number.\<close>

definition stops :: "string \<Rightarrow> bool" where
  "stops r \<longleftrightarrow> r = [] \<or> \<not> number_char (hd r)"

lemma takeWhile_token:
  assumes "list_all number_char t" "stops r"
  shows "takeWhile number_char (t @ r) = t"
  using assms by (cases r) (auto simp: stops_def list_all_iff takeWhile_append2)

lemma token_cstr: "list_all number_char t \<Longrightarrow> is_cstr t"
  by (force simp: list_all_iff is_cstr_def number_char_def is_digit_def NUL_def)

lemma parse_token:
  assumes "number_token t" "stops r"
  shows "\<exists>n. ncl_json_parse_number grant_all ops (t @ r) = Inr (J_Number n, r) \<and> number_text ops n = t"
proof -
  have "list_all number_char t" "t \<noteq> []" using assms(1) by (auto simp: number_token_def)
  then show ?thesis
    using takeWhile_token [OF _ assms(2), of t] token_cstr [of t]
    by (auto simp: ncl_json_parse_number_def ncl_json_new_double_def ncl_json_alloc_def grant_all
        ncl_strndup_def number_text_def Let_def)
qed

section \<open>Reading values back\<close>

text \<open>A parser reads a document from a text, with white space before it and anything but more of a number after it.\<close>

definition reads :: "'d double_ops \<Rightarrow> (string \<Rightarrow> json_fail + 'd json \<times> string) \<Rightarrow> string \<Rightarrow> json_doc \<Rightarrow> bool" where
  "reads ops pv t d \<longleftrightarrow> (\<forall>ws r. list_all json_ws ws \<longrightarrow> stops r \<longrightarrow>
     (\<exists>j. pv (ws @ t @ r) = Inr (j, r) \<and> doc_of ops j = d))"

lemma readsD: "\<lbrakk>reads ops pv t d; list_all json_ws ws; stops r\<rbrakk> \<Longrightarrow> \<exists>j. pv (ws @ t @ r) = Inr (j, r) \<and> doc_of ops j = d"
  by (simp add: reads_def)

fun short_strings :: "json_doc \<Rightarrow> bool" where
  "short_strings (D_String s) \<longleftrightarrow> length s + 1 \<le> 2 ^ 63"
| "short_strings (D_Array ds) = list_all short_strings ds"
| "short_strings (D_Object ms) = list_all (\<lambda>(k, d). length k + 1 \<le> 2 ^ 63 \<and> short_strings d) ms"
| "short_strings d = True"

lemma length_quoted: "length s + 2 \<le> length (quoted s)"
proof -
  have one: "1 \<le> length (escaped_char c)" for c by (simp add: escaped_char_def)
  have "length s \<le> length (concat (map escaped_char s))"
  proof (induction s)
    case (Cons c s)
    then show ?case using one [of c] by simp
  qed simp
  then show ?thesis by (simp add: quoted_def)
qed

lemma short_if: "length (doc_text indent depth d) + 1 \<le> 2 ^ 63 \<Longrightarrow> short_strings d"
proof (induction d arbitrary: depth)
  case (D_String s)
  then show ?case using length_quoted [of s] by simp
next
  case (D_Array ds)
  have inner: "length (doc_text indent (depth + 1) d) \<le> length (items_text indent depth first ds)" if "d \<in> set ds" for d first
    using that
  proof (induction ds arbitrary: first)
    case (Cons x ds)
    show ?case
    proof (cases "d = x")
      case False
      then have "length (doc_text indent (depth + 1) d) \<le> length (items_text indent depth False ds)"
        using Cons by simp
      then show ?thesis by simp
    qed simp
  qed simp
  have part: "length (doc_text indent (depth + 1) d) + 1 \<le> 2 ^ 63" if "d \<in> set ds" for d
    using inner [OF that, of True] D_Array.prems by simp
  have "short_strings d" if "d \<in> set ds" for d
    using D_Array.IH [OF that] part [OF that] by blast
  then show ?case by (simp add: list_all_iff)
next
  case (D_Object ms)
  have inner: "length (doc_text indent (depth + 1) d) + length (quoted k) \<le> length (members_text indent depth first ms)"
    if "(k, d) \<in> set ms" for k d first
    using that
  proof (induction ms arbitrary: first)
    case (Cons m ms)
    show ?case
    proof (cases "m = (k, d)")
      case False
      then have "length (doc_text indent (depth + 1) d) + length (quoted k) \<le> length (members_text indent depth False ms)"
        using Cons by simp
      then show ?thesis by (cases m) simp
    qed simp
  qed simp
  have part: "length (doc_text indent (depth + 1) d) + length (quoted k) + 1 \<le> 2 ^ 63" if "(k, d) \<in> set ms" for k d
    using inner [OF that, of True] D_Object.prems by simp
  have "length k + 1 \<le> 2 ^ 63 \<and> short_strings d" if "(k, d) \<in> set ms" for k d
    using part [OF that] length_quoted [of k] D_Object.IH [OF that, of d "depth + 1"] by simp
  then show ?case by (auto simp: list_all_iff)
qed simp_all

text \<open>How a document starts.\<close>

lemma digit_plain: "is_digit c \<Longrightarrow> \<not> json_ws c \<and> c \<noteq> CHR '']'' \<and> c \<noteq> CHR ''}'' \<and> c \<notin> set ''{[tfn'' \<and> c \<noteq> CHR 0x22"
  by (auto simp: is_digit_def json_ws_def)

lemma token_head:
  "c = CHR ''-'' \<or> is_digit c \<Longrightarrow> \<not> json_ws c \<and> c \<notin> set ''{[tfn'' \<and> c \<noteq> CHR 0x22"
  using digit_plain [of c] by (elim disjE) (simp_all add: json_ws_def)

lemma doc_head:
  assumes "doc_ok d"
  obtains c t where "doc_text indent depth d = c # t" "\<not> json_ws c" "c \<noteq> CHR '']''" "c \<noteq> CHR ''}''"
proof (cases d)
  case (D_Number t)
  with assms that show thesis
    using digit_plain [of "hd t"] by (cases t) (auto simp: number_token_def json_ws_def)
next
  case (D_Bool b)
  then show thesis using that by (cases b) (auto simp: json_ws_def)
qed (use that in \<open>auto simp: quoted_def json_ws_def\<close>)

lemma skip_doc: "doc_ok d \<Longrightarrow> ncl_json_skip_ws (doc_text indent depth d @ r) = doc_text indent depth d @ r"
  by (erule doc_head [where indent = indent and depth = depth]) simp

lemma skip_quoted [simp]: "ncl_json_skip_ws (quoted k @ r) = quoted k @ r"
  by (simp add: quoted_def json_ws_def)

lemma stops_break: "stops (break_text indent depth @ CHR '']'' # r)" "stops (break_text indent depth @ CHR ''}'' # r)"
  by (auto simp: stops_def break_text_def number_char_def is_digit_def)

lemma stops_items: "stops (items_text indent depth False ds @ break_text indent depth @ CHR '']'' # r)"
  by (cases ds) (auto simp: stops_break, auto simp: stops_def number_char_def is_digit_def)

lemma stops_members: "stops (members_text indent depth False ms @ break_text indent depth @ CHR ''}'' # r)"
  by (cases ms) (auto simp: stops_break, auto simp: stops_def number_char_def is_digit_def)

lemma push_all: "\<exists>c1. ncl_json_arr_push grant_all (Some (J_Array xs c)) (Some x) = (NCL_OK, Some (J_Array (xs @ [x]) c1))"
  by (simp add: ncl_json_arr_push_def obj_grow_def grant_all Let_def)

lemma key_index_None: "key_index ms k i = None \<longleftrightarrow> k \<notin> fst ` set ms"
  by (induction ms k i rule: key_index.induct) auto

lemma set_new_all:
  "k \<notin> fst ` set ms \<Longrightarrow> \<exists>c1. ncl_json_obj_set grant_all (Some (J_Object ms c)) (Some k) (Some x) = (NCL_OK, Some (J_Object (ms @ [(k, x)]) c1))"
  by (simp add: ncl_json_obj_set_def ncl_json_obj_index_of_def key_index_None [THEN iffD2] obj_grow_def
      ncl_strdup_def grant_all Let_def)

lemma array_loop_reads:
  assumes "\<And>d. d \<in> set (d0 # ds) \<Longrightarrow> doc_ok d \<and> reads ops pv (doc_text indent (depth + 1) d) d"
    and "length ds < fuel"
  shows "\<exists>ys c1. array_loop grant_all pv fuel (Some (J_Array xs c))
      (doc_text indent (depth + 1) d0 @ items_text indent depth False ds @ break_text indent depth @ CHR '']'' # r)
      = Inr (J_Array (xs @ ys) c1, r) \<and> map (doc_of ops) ys = d0 # ds"
  using assms
proof (induction ds arbitrary: d0 xs c fuel)
  case Nil
  obtain f where f: "fuel = Suc f" using Nil.prems(2) by (cases fuel) auto
  have "reads ops pv (doc_text indent (depth + 1) d0) d0" using Nil.prems(1) by simp
  from readsD [OF this, of "[]", OF _ stops_break(1) [of indent depth r]]
  obtain j where j: "pv (doc_text indent (depth + 1) d0 @ break_text indent depth @ CHR '']'' # r)
      = Inr (j, break_text indent depth @ CHR '']'' # r)" "doc_of ops j = d0"
    by auto
  obtain c1 where "ncl_json_arr_push grant_all (Some (J_Array xs c)) (Some j) = (NCL_OK, Some (J_Array (xs @ [j]) c1))"
    using push_all by blast
  with j show ?case by (simp add: f json_ws_def)
next
  case (Cons d1 ds)
  define rest where "rest = doc_text indent (depth + 1) d1 @ items_text indent depth False ds @ break_text indent depth @ CHR '']'' # r"
  define tail where "tail = items_text indent depth False (d1 # ds) @ break_text indent depth @ CHR '']'' # r"
  have st: "stops tail" unfolding tail_def by (rule stops_items)
  obtain f where f: "fuel = Suc f" using Cons.prems(2) by (cases fuel) auto
  have "reads ops pv (doc_text indent (depth + 1) d0) d0" using Cons.prems(1) by simp
  from readsD [OF this, of "[]", OF _ st]
  obtain j where j: "pv (doc_text indent (depth + 1) d0 @ tail) = Inr (j, tail)" "doc_of ops j = d0"
    by auto
  obtain c1 where c1: "ncl_json_arr_push grant_all (Some (J_Array xs c)) (Some j) = (NCL_OK, Some (J_Array (xs @ [j]) c1))"
    using push_all by blast
  have comma: "ncl_json_skip_ws tail = CHR '','' # break_text indent (depth + 1) @ rest"
    by (simp add: json_ws_def tail_def rest_def)
  have "doc_ok d1" using Cons.prems(1) [of d1] by simp
  then have skip: "ncl_json_skip_ws (break_text indent (depth + 1) @ rest) = rest"
    by (simp add: rest_def skip_doc)
  have loop: "array_loop grant_all pv fuel (Some (J_Array xs c)) (doc_text indent (depth + 1) d0 @ tail)
      = array_loop grant_all pv f (Some (J_Array (xs @ [j]) c1)) rest"
    unfolding f array_loop.simps j(1) by (simp add: c1 comma skip [simplified])
  have "\<exists>ys c2. array_loop grant_all pv f (Some (J_Array (xs @ [j]) c1)) rest = Inr (J_Array ((xs @ [j]) @ ys) c2, r)
      \<and> map (doc_of ops) ys = d1 # ds"
    unfolding rest_def
  proof (rule Cons.IH)
    show "length ds < f" using Cons.prems(2) f by simp
    show "doc_ok d \<and> reads ops pv (doc_text indent (depth + 1) d) d" if "d \<in> set (d1 # ds)" for d
      using that by (intro Cons.prems(1)) auto
  qed
  then obtain ys c2 where "array_loop grant_all pv f (Some (J_Array (xs @ [j]) c1)) rest = Inr (J_Array ((xs @ [j]) @ ys) c2, r)"
      "map (doc_of ops) ys = d1 # ds"
    by (elim exE conjE)
  then show ?case
    unfolding loop [unfolded tail_def] using j(2) by (intro exI [of _ "j # ys"] exI [of _ c2]) simp
qed

text \<open>The text of the members after the first key has been announced.\<close>

definition member_text :: "bool \<Rightarrow> nat \<Rightarrow> string \<Rightarrow> json_doc \<Rightarrow> string" where
  "member_text indent depth k d = quoted k @ '':'' @ (if indent then '' '' else []) @ doc_text indent (depth + 1) d"

lemma member_step:
  assumes "reads ops pv (doc_text indent (depth + 1) d) d" "is_cstr k" "length k + 1 \<le> 2 ^ 63"
    and "k \<notin> fst ` set ms" "list_all json_ws ws" "stops tail"
  shows "\<exists>j c1. doc_of ops j = d \<and>
      object_loop grant_all pv (Suc f) (Some (J_Object ms c)) (ws @ member_text indent depth k d @ tail) =
      (case ncl_json_skip_ws tail of
         x # r \<Rightarrow> if x = CHR '','' then object_loop grant_all pv f (Some (J_Object (ms @ [(k, j)]) c1)) r
           else if x = CHR ''}'' then Inr (J_Object (ms @ [(k, j)]) c1, r)
           else Inl (Parse_Error [(Suc (length r), ''expected '' @ [CHR 0x27] @ '','' @ [CHR 0x27]
               @ '' or '' @ [CHR 0x27] @ ''}'' @ [CHR 0x27])])
       | [] \<Rightarrow> Inl (Parse_Error [(0, ''expected '' @ [CHR 0x27] @ '','' @ [CHR 0x27]
               @ '' or '' @ [CHR 0x27] @ ''}'' @ [CHR 0x27])]))"
proof -
  have sp: "list_all json_ws (if indent then '' '' else [])" by (simp add: json_ws_def)
  obtain j where j: "pv ((if indent then '' '' else []) @ doc_text indent (depth + 1) d @ tail) = Inr (j, tail)" "doc_of ops j = d"
    using readsD [OF assms(1) sp assms(6)] by blast
  obtain c1 where c1: "ncl_json_obj_set grant_all (Some (J_Object ms c)) (Some k) (Some j) = (NCL_OK, Some (J_Object (ms @ [(k, j)]) c1))"
    using set_new_all [OF assms(4)] by blast
  have key: "ncl_json_parse_string_raw grant_all (ncl_json_skip_ws (ws @ member_text indent depth k d @ tail))
      = Inr (k, CHR '':'' # (if indent then '' '' else []) @ doc_text indent (depth + 1) d @ tail)"
    using parse_quoted [OF assms(3)] by (simp add: skip_ws_append [OF assms(5)] member_text_def)
  have colon: "ncl_json_skip_ws (CHR '':'' # r) = CHR '':'' # r" for r by (simp add: json_ws_def)
  show ?thesis
    unfolding object_loop.simps key
    by (intro exI [of _ j] exI [of _ c1]) (simp only: j c1 colon cstr_of_id [OF assms(2)] sum.case prod.case list.case
        simp_thms if_True if_False char.inject Option.option.sel cong: list.case_cong)
qed

lemma members_text_Cons:
  "members_text indent depth first ((k, d) # ms) =
     (if first then [] else '','') @ break_text indent (depth + 1) @ member_text indent depth k d @ members_text indent depth False ms"
  by (simp add: member_text_def)

lemma object_loop_reads:
  assumes "\<And>k d. (k, d) \<in> set ((k0, d0) # ds) \<Longrightarrow>
      reads ops pv (doc_text indent (depth + 1) d) d \<and> is_cstr k \<and> length k + 1 \<le> 2 ^ 63"
    and "distinct (map fst ms @ map fst ((k0, d0) # ds))" "list_all json_ws ws" "length ds < fuel"
  shows "\<exists>ns c1. object_loop grant_all pv fuel (Some (J_Object ms c))
      (ws @ member_text indent depth k0 d0 @ members_text indent depth False ds @ break_text indent depth @ CHR ''}'' # r)
      = Inr (J_Object (ms @ ns) c1, r) \<and> map (\<lambda>(k, x). (k, doc_of ops x)) ns = (k0, d0) # ds"
  using assms
proof (induction ds arbitrary: k0 d0 ms c fuel ws)
  case Nil
  obtain f where f: "fuel = Suc f" using Nil.prems(4) by (cases fuel) auto
  have k0: "reads ops pv (doc_text indent (depth + 1) d0) d0" "is_cstr k0" "length k0 + 1 \<le> 2 ^ 63"
    using Nil.prems(1) [of k0 d0] by auto
  have new: "k0 \<notin> fst ` set ms" using Nil.prems(2) by auto
  have close: "ncl_json_skip_ws (break_text indent depth @ CHR ''}'' # r) = CHR ''}'' # r"
    by (simp add: json_ws_def)
  obtain j c1 where j: "doc_of ops j = d0"
    "object_loop grant_all pv (Suc f) (Some (J_Object ms c)) (ws @ member_text indent depth k0 d0 @ break_text indent depth @ CHR ''}'' # r)
      = Inr (J_Object (ms @ [(k0, j)]) c1, r)"
    using member_step [OF k0 new Nil.prems(3) stops_break(2) [of indent depth r], of f c] close by auto
  then show ?case
    unfolding f by (intro exI [of _ "[(k0, j)]"] exI [of _ c1]) simp
next
  case (Cons m ds)
  obtain k1 d1 where m: "m = (k1, d1)" by fastforce
  define rest where "rest = break_text indent (depth + 1) @ member_text indent depth k1 d1
      @ members_text indent depth False ds @ break_text indent depth @ CHR ''}'' # r"
  define tail where "tail = members_text indent depth False (m # ds) @ break_text indent depth @ CHR ''}'' # r"
  have st: "stops tail" unfolding tail_def by (rule stops_members)
  obtain f where f: "fuel = Suc f" using Cons.prems(4) by (cases fuel) auto
  have k0: "reads ops pv (doc_text indent (depth + 1) d0) d0" "is_cstr k0" "length k0 + 1 \<le> 2 ^ 63"
    using Cons.prems(1) [of k0 d0] by auto
  have new: "k0 \<notin> fst ` set ms" using Cons.prems(2) by auto
  have comma: "ncl_json_skip_ws tail = CHR '','' # rest"
    unfolding tail_def m members_text_Cons rest_def by (simp add: json_ws_def)
  obtain j c1 where j: "doc_of ops j = d0"
    "object_loop grant_all pv (Suc f) (Some (J_Object ms c)) (ws @ member_text indent depth k0 d0 @ tail)
      = object_loop grant_all pv f (Some (J_Object (ms @ [(k0, j)]) c1)) rest"
    using member_step [OF k0 new Cons.prems(3) st, of f c] comma by auto
  have "\<exists>ns c2. object_loop grant_all pv f (Some (J_Object (ms @ [(k0, j)]) c1)) rest = Inr (J_Object ((ms @ [(k0, j)]) @ ns) c2, r)
      \<and> map (\<lambda>(k, x). (k, doc_of ops x)) ns = (k1, d1) # ds"
    unfolding rest_def
  proof (rule Cons.IH)
    show "length ds < f" using Cons.prems(4) f by simp
    show "distinct (map fst (ms @ [(k0, j)]) @ map fst ((k1, d1) # ds))" using Cons.prems(2) m by auto
    show "list_all json_ws (break_text indent (depth + 1))" by (rule break_ws)
    show "reads ops pv (doc_text indent (depth + 1) d) d \<and> is_cstr k \<and> length k + 1 \<le> 2 ^ 63"
      if "(k, d) \<in> set ((k1, d1) # ds)" for k d
      using that by (intro Cons.prems(1)) (auto simp: m)
  qed
  then obtain ns c2 where "object_loop grant_all pv f (Some (J_Object (ms @ [(k0, j)]) c1)) rest = Inr (J_Object ((ms @ [(k0, j)]) @ ns) c2, r)"
      "map (\<lambda>(k, x). (k, doc_of ops x)) ns = (k1, d1) # ds"
    by (elim exE conjE)
  then show ?case
    unfolding f j(2) [unfolded tail_def m] m using j(1) by (intro exI [of _ "(k0, j) # ns"] exI [of _ c2]) simp
qed

lemma items_length: "list_all doc_ok ds \<Longrightarrow> length ds \<le> length (items_text indent depth first ds)"
proof (induction ds arbitrary: first)
  case (Cons d ds)
  have "doc_ok d" using Cons.prems by simp
  then obtain c t where "doc_text indent (depth + 1) d = c # t"
    by (rule doc_head)
  moreover have "length ds \<le> length (items_text indent depth False ds)"
    using Cons by simp
  ultimately show ?case by simp
qed simp

lemma members_length: "length ms \<le> length (members_text indent depth first ms)"
proof (induction ms arbitrary: first)
  case (Cons m ms)
  have "length ms \<le> length (members_text indent depth False ms)"
    by (rule Cons.IH)
  then show ?case
    by (cases m) (simp add: members_text_Cons member_text_def quoted_def del: members_text.simps)
qed simp

text \<open>The parser reads back every document that is well formed and not nested too deeply.\<close>

lemma reads_value:
  "\<lbrakk>fits levels d; doc_ok d; short_strings d\<rbrakk> \<Longrightarrow>
     reads ops (ncl_json_parse_value grant_all ops levels) (doc_text indent depth d) d"
proof (induction d arbitrary: levels depth)
  case (D_Array ds)
  obtain n where n: "levels = Suc n" using D_Array.prems(1) by (cases levels) auto
  show ?case
    unfolding reads_def
  proof (intro allI impI)
    fix ws r :: string
    assume ws: "list_all json_ws ws" and r: "stops r"
    have children: "doc_ok d \<and> reads ops (ncl_json_parse_value grant_all ops n) (doc_text indent (depth + 1) d) d" if "d \<in> set ds" for d
      using that D_Array n by (auto simp: list_all_iff)
    define s where "s = items_text indent depth True ds @ (if ds = [] then [] else break_text indent depth) @ CHR '']'' # r"
    have v: "ncl_json_parse_value grant_all ops levels (ws @ doc_text indent depth (D_Array ds) @ r)
        = ncl_json_parse_array grant_all (ncl_json_parse_value grant_all ops n) (CHR ''['' # s)"
      by (simp add: n skip_ws_append [OF ws] json_ws_def s_def)
    show "\<exists>j. ncl_json_parse_value grant_all ops levels (ws @ doc_text indent depth (D_Array ds) @ r) = Inr (j, r) \<and> doc_of ops j = D_Array ds"
    proof (cases ds)
      case Nil
      then show ?thesis
        unfolding v by (simp add: ncl_json_parse_array_def ncl_json_new_array_def ncl_json_alloc_def grant_all s_def json_ws_def)
    next
      case (Cons d0 ds1)
      define t where "t = doc_text indent (depth + 1) d0 @ items_text indent depth False ds1 @ break_text indent depth @ CHR '']'' # r"
      have skip: "ncl_json_skip_ws s = t"
        using children [of d0] by (simp add: s_def Cons t_def skip_doc)
      have no_close: "t \<noteq> [] \<and> hd t \<noteq> CHR '']''"
        using children [of d0] by (auto simp: t_def Cons elim: doc_head [where indent = indent and depth = "depth + 1"])
      have "length ds1 < Suc (length t)"
        using items_length [of ds1 indent depth False] D_Array.prems(2) by (simp add: t_def Cons)
      then obtain ys c1 where "array_loop grant_all (ncl_json_parse_value grant_all ops n) (Suc (length t)) (Some (J_Array [] 0)) t
          = Inr (J_Array ys c1, r)" "map (doc_of ops) ys = ds"
        using array_loop_reads [of d0 ds1 ops "ncl_json_parse_value grant_all ops n" indent depth "Suc (length t)" "[]" 0 r]
          children unfolding t_def [symmetric] Cons by auto
      then show ?thesis
        unfolding v using no_close
        by (simp add: ncl_json_parse_array_def ncl_json_new_array_def ncl_json_alloc_def grant_all skip Let_def del: array_loop.simps)
    qed
  qed
next
  case (D_Object ms)
  obtain n where n: "levels = Suc n" using D_Object.prems(1) by (cases levels) auto
  show ?case
    unfolding reads_def
  proof (intro allI impI)
    fix ws r :: string
    assume ws: "list_all json_ws ws" and r: "stops r"
    have children: "reads ops (ncl_json_parse_value grant_all ops n) (doc_text indent (depth + 1) d) d \<and> is_cstr k \<and> length k + 1 \<le> 2 ^ 63"
      if "(k, d) \<in> set ms" for k d
      using that D_Object.IH [of "(k, d)" d n "depth + 1"] D_Object.prems n by (force simp: list_all_iff)
    define s where "s = members_text indent depth True ms @ (if ms = [] then [] else break_text indent depth) @ CHR ''}'' # r"
    have v: "ncl_json_parse_value grant_all ops levels (ws @ doc_text indent depth (D_Object ms) @ r)
        = ncl_json_parse_object grant_all (ncl_json_parse_value grant_all ops n) (CHR ''{'' # s)"
      by (simp add: n skip_ws_append [OF ws] json_ws_def s_def)
    show "\<exists>j. ncl_json_parse_value grant_all ops levels (ws @ doc_text indent depth (D_Object ms) @ r) = Inr (j, r) \<and> doc_of ops j = D_Object ms"
    proof (cases ms)
      case Nil
      then show ?thesis
        unfolding v by (simp add: ncl_json_parse_object_def ncl_json_new_object_def ncl_json_alloc_def grant_all s_def json_ws_def)
    next
      case (Cons m0 ms1)
      obtain k0 d0 where m0: "m0 = (k0, d0)" by fastforce
      define t where "t = member_text indent depth k0 d0 @ members_text indent depth False ms1 @ break_text indent depth @ CHR ''}'' # r"
      have skip: "ncl_json_skip_ws s = t"
        unfolding s_def Cons m0 members_text_Cons t_def by (simp add: member_text_def)
      have no_close: "t \<noteq> [] \<and> hd t \<noteq> CHR ''}''"
        by (simp add: t_def member_text_def quoted_def)
      have "length ms1 < Suc (length t)"
        using members_length [of ms1 indent depth False] by (simp add: t_def)
      then obtain ns c1 where "object_loop grant_all (ncl_json_parse_value grant_all ops n) (Suc (length t)) (Some (J_Object [] 0)) t
          = Inr (J_Object ns c1, r)" "map (\<lambda>(k, x). (k, doc_of ops x)) ns = ms"
        using object_loop_reads [of k0 d0 ms1 ops "ncl_json_parse_value grant_all ops n" indent depth "[]" "[]" "Suc (length t)" 0 r]
          children D_Object.prems(2) unfolding t_def [symmetric] Cons m0 by auto
      then show ?thesis
        unfolding v using no_close
        by (simp add: ncl_json_parse_object_def ncl_json_new_object_def ncl_json_alloc_def grant_all skip Let_def del: object_loop.simps)
    qed
  qed
next
  case D_Null
  then obtain n where n: "levels = Suc n" by (cases levels) auto
  show ?case
    by (auto simp: reads_def n skip_ws_append json_ws_def literal_value_def ncl_json_match_literal_def made_def
        ncl_json_new_null_def ncl_json_alloc_def grant_all)
next
  case (D_Bool b)
  then obtain n where n: "levels = Suc n" by (cases levels) auto
  show ?case
    by (cases b) (auto simp: reads_def n skip_ws_append json_ws_def literal_value_def ncl_json_match_literal_def made_def
        ncl_json_new_bool_def ncl_json_alloc_def grant_all)
next
  case (D_Number t)
  obtain n where n: "levels = Suc n" using D_Number.prems(1) by (cases levels) auto
  obtain c t1 where t: "t = c # t1" "c = CHR ''-'' \<or> is_digit c"
    using D_Number.prems(2) by (cases t) (auto simp: number_token_def)
  have c: "\<not> json_ws c" "c \<notin> set ''{[tfn''" "c \<noteq> CHR 0x22"
    using token_head [OF t(2)] by simp_all
  show ?case
    unfolding reads_def
  proof (intro allI impI)
    fix ws r :: string
    assume ws: "list_all json_ws ws" and r: "stops r"
    obtain m where m: "ncl_json_parse_number grant_all ops (t @ r) = Inr (J_Number m, r)" "number_text ops m = t"
      using parse_token [OF _ r] D_Number.prems(2) by auto
    have skip: "ncl_json_skip_ws (ws @ t @ r) = c # t1 @ r"
      using t(1) c(1) by (simp add: skip_ws_append [OF ws])
    have "ncl_json_parse_value grant_all ops levels (ws @ t @ r) = ncl_json_parse_number grant_all ops (c # t1 @ r)"
      unfolding n ncl_json_parse_value.simps skip list.case using t(2) c(2,3) by simp
    then have "ncl_json_parse_value grant_all ops levels (ws @ t @ r) = Inr (J_Number m, r)"
      using m(1) t(1) by simp
    then show "\<exists>j. ncl_json_parse_value grant_all ops levels (ws @ doc_text indent depth (D_Number t) @ r) = Inr (j, r)
        \<and> doc_of ops j = D_Number t"
      using m(2) by (intro exI [of _ "J_Number m"]) simp
  qed
next
  case (D_String s)
  obtain n where n: "levels = Suc n" using D_String.prems(1) by (cases levels) auto
  have q: "ncl_json_skip_ws (ws @ quoted s @ r) = CHR 0x22 # concat (map escaped_char s) @ CHR 0x22 # r"
    "ncl_json_parse_string_raw grant_all (CHR 0x22 # concat (map escaped_char s) @ CHR 0x22 # r) = Inr (s, r)"
    if "list_all json_ws ws" for ws r
    using parse_quoted [of s r] D_String.prems(3) skip_ws_append [OF that, of "quoted s @ r"] skip_quoted [of s r]
    by (simp_all add: quoted_def del: skip_quoted)
  show ?case
    unfolding reads_def
    by (auto simp: n q made_def ncl_json_new_string_len_def ncl_json_alloc_def grant_all)
qed

end
