(* ===== verification/Json_Total.thy ===== *)
theory Json_Total
  imports Json_Parse_Props
begin

text \<open>
  What the JSON parser does with an arbitrary text, under any pattern of allocation failures:
  every loop comes to an end and every value it makes is well formed.
\<close>

section \<open>Every loop comes to an end\<close>

lemma skip_ws_shorter: "length (ncl_json_skip_ws s) \<le> length s"
  by (induction s) auto

lemma surrogate_no_fuel: "surrogate_pair cp s \<noteq> Inl Out_Of_Fuel"
  by (auto simp: surrogate_pair_def split: if_splits list.splits option.splits)

lemma string_loop_total:
  "string_loop g sb s \<noteq> Inl Out_Of_Fuel \<and> (\<forall>t r. string_loop g sb s = Inr (t, r) \<longrightarrow> length r < length s)"
proof (induction g sb s rule: string_loop.induct)
  case (2 g sb c s)
  show ?case
    using 2 surrogate_no_fuel
    by (subst (1 2) string_loop.simps)
      (fastforce split: option.splits list.splits sum.splits if_splits dest!: hex4_length surrogate_length)
qed (simp add: string_loop.simps)

lemma string_raw_total:
  "ncl_json_parse_string_raw g s \<noteq> Inl Out_Of_Fuel"
  "ncl_json_parse_string_raw g s = Inr (t, r) \<Longrightarrow> length r < length s"
  using string_loop_total by (auto simp: ncl_json_parse_string_raw_def less_SucI split: list.splits if_splits)

text \<open>A child parser that uses up characters, never runs out of fuel and gives good values only.\<close>

definition child_ok :: "('d json \<Rightarrow> bool) \<Rightarrow> (string \<Rightarrow> json_fail + 'd json \<times> string) \<Rightarrow> bool" where
  "child_ok good pv \<longleftrightarrow> (\<forall>s. case pv s of Inl e \<Rightarrow> e \<noteq> Out_Of_Fuel | Inr (j, r) \<Rightarrow> length r < length s \<and> good j)"

lemma child_okD:
  "\<lbrakk>child_ok good pv; pv s = Inr (j, r)\<rbrakk> \<Longrightarrow> length r < length s \<and> good j"
  "child_ok good pv \<Longrightarrow> pv s \<noteq> Inl Out_Of_Fuel"
  by (auto simp: child_ok_def split: sum.splits dest: spec [of _ s])

lemma push_result:
  "ncl_json_arr_push g (Some (J_Array xs c)) (Some x) = (NCL_OK, a) \<Longrightarrow> \<exists>c1. a = Some (J_Array (xs @ [x]) c1)"
  by (auto simp: ncl_json_arr_push_def split: option.splits)

lemma array_loop_total:
  assumes "child_ok good pv"
  shows "case array_loop g pv fuel (Some (J_Array xs c)) s of
       Inl e \<Rightarrow> length s < fuel \<longrightarrow> e \<noteq> Out_Of_Fuel
     | Inr (j, r) \<Rightarrow> length r < length s \<and> (\<exists>ys c1. j = J_Array (xs @ ys) c1 \<and> list_all good ys)"
proof (induction fuel arbitrary: xs c s)
  case (Suc fuel)
  show ?case
  proof (cases "pv s")
    case (Inl e)
    then show ?thesis using child_okD(2) [OF assms, of s] by simp
  next
    case (Inr v)
    obtain x r where v: "pv s = Inr (x, r)" using Inr by (cases v) simp
    note x = child_okD(1) [OF assms v]
    obtain rc a where push: "ncl_json_arr_push g (Some (J_Array xs c)) (Some x) = (rc, a)" by fastforce
    show ?thesis
    proof (cases "rc = NCL_OK")
      case False
      then show ?thesis by (simp add: v push)
    next
      case True
      then obtain c1 where a: "a = Some (J_Array (xs @ [x]) c1)" using push push_result by blast
      show ?thesis
      proof (cases "ncl_json_skip_ws r")
        case Nil
        then show ?thesis by (simp add: v push True)
      next
        case (Cons d r1)
        have len: "length (ncl_json_skip_ws r1) < length r" "length r1 < length r"
          using skip_ws_shorter [of r1] skip_ws_shorter [of r] Cons by auto
        show ?thesis
        proof (cases "d = CHR '',''")
          case comma: True
          define s1 where "s1 = ncl_json_skip_ws r1"
          have loop: "array_loop g pv (Suc fuel) (Some (J_Array xs c)) s = array_loop g pv fuel (Some (J_Array (xs @ [x]) c1)) s1"
            using comma by (simp add: v push True a Cons s1_def)
          show ?thesis
            unfolding loop using Suc.IH [where xs = "xs @ [x]" and c = c1 and s = s1] x len
            by (fastforce simp: s1_def split: sum.splits)
        next
          case other: False
          then show ?thesis
            using x len by (auto simp: v push True a Cons intro!: exI [of _ "[x]"])
        qed
      qed
    qed
  qed
qed simp

text \<open>The members of an object that is being built.\<close>

definition members_ok :: "('d json \<Rightarrow> bool) \<Rightarrow> (string \<times> 'd json) list \<Rightarrow> bool" where
  "members_ok good ms \<longleftrightarrow> distinct (map fst ms) \<and> list_all (\<lambda>(k, x). is_cstr k \<and> good x) ms"

lemma key_index_Some:
  "key_index ms k i = Some n \<Longrightarrow> i \<le> n \<and> n - i < length ms \<and> fst (ms ! (n - i)) = k"
proof (induction ms k i rule: key_index.induct)
  case (2 k v ms key i)
  show ?case
  proof (cases "k = key")
    case False
    then have later: "Suc i \<le> n" "n - Suc i < length ms" "fst (ms ! (n - Suc i)) = key"
      using 2 by auto
    then have "n - i = Suc (n - Suc i)" by simp
    with later show ?thesis by simp
  qed (use 2 in simp)
qed simp

lemma set_result:
  assumes "ncl_json_obj_set g (Some (J_Object ms c)) (Some k) (Some x) = (NCL_OK, a)"
    and "members_ok good ms" "is_cstr k" "good x"
  shows "\<exists>ns c1. a = Some (J_Object ns c1) \<and> members_ok good ns"
proof (cases "key_index ms k 0")
  case None
  then have "k \<notin> fst ` set ms" by (simp add: key_index_None)
  then show ?thesis
    using assms None
    by (auto simp: ncl_json_obj_set_def ncl_json_obj_index_of_def ncl_strdup_def members_ok_def split: option.splits if_splits)
next
  case (Some i)
  then have i: "i < length ms" "fst (ms ! i) = k" using key_index_Some [OF Some] by auto
  have "map fst (ms[i := (k, x)]) = map fst ms"
    using i by (simp add: map_update list_update_same_conv)
  moreover have "list_all (\<lambda>(k, x). is_cstr k \<and> good x) (ms[i := (k, x)])"
    using assms(2-4) i set_update_subset_insert [of ms i "(k, x)"] by (fastforce simp: members_ok_def list_all_iff)
  ultimately show ?thesis
    using assms Some i by (auto simp: ncl_json_obj_set_def ncl_json_obj_index_of_def members_ok_def)
qed

lemma object_loop_total:
  assumes "child_ok good pv"
  shows "members_ok good ms \<Longrightarrow> case object_loop g pv fuel (Some (J_Object ms c)) s of
       Inl e \<Rightarrow> length s < fuel \<longrightarrow> e \<noteq> Out_Of_Fuel
     | Inr (j, r) \<Rightarrow> length r < length s \<and> (\<exists>ns c1. j = J_Object ns c1 \<and> members_ok good ns)"
proof (induction fuel arbitrary: ms c s)
  case (Suc fuel)
  show ?case
  proof (cases "ncl_json_parse_string_raw g (ncl_json_skip_ws s)")
    case (Inl e)
    then show ?thesis using string_raw_total(1) [of g "ncl_json_skip_ws s"] by simp
  next
    case (Inr kr)
    obtain k r where k: "ncl_json_parse_string_raw g (ncl_json_skip_ws s) = Inr (k, r)" using Inr by (cases kr) simp
    have kl: "length r < length s"
      using string_raw_total(2) [OF k] skip_ws_shorter [of s] by simp
    show ?thesis
    proof (cases "ncl_json_skip_ws r")
      case Nil
      then show ?thesis by (simp add: k)
    next
      case (Cons d r1)
      have r1: "length r1 < length s" using kl skip_ws_shorter [of r] Cons by simp
      show ?thesis
      proof (cases "d = CHR '':'' \<and> (\<exists>x r2. pv r1 = Inr (x, r2))")
        case False
        then show ?thesis
          using child_okD(2) [OF assms, of r1] by (cases "pv r1") (auto simp: k Cons)
      next
        case True
        then obtain x r2 where v: "d = CHR '':''" "pv r1 = Inr (x, r2)" by blast
        note x = child_okD(1) [OF assms v(2)]
        obtain rc a where set: "ncl_json_obj_set g (Some (J_Object ms c)) (Some (cstr_of k)) (Some x) = (rc, a)" by fastforce
        show ?thesis
        proof (cases "rc = NCL_OK")
          case False
          then show ?thesis by (simp add: k Cons v set)
        next
          case ok: True
          then obtain ns c1 where a: "a = Some (J_Object ns c1)" "members_ok good ns"
            using set set_result [OF _ Suc.prems, of g c "cstr_of k" x a] x by auto
          show ?thesis
          proof (cases "ncl_json_skip_ws r2")
            case Nil
            then show ?thesis by (simp add: k Cons v set ok)
          next
            case next_char: (Cons e r3)
            have r3: "length r3 < length s" using r1 x skip_ws_shorter [of r2] next_char by simp
            show ?thesis
            proof (cases "e = CHR '',''")
              case comma: True
              have loop: "object_loop g pv (Suc fuel) (Some (J_Object ms c)) s = object_loop g pv fuel (Some (J_Object ns c1)) r3"
                using comma by (simp add: k Cons v set ok a next_char)
              show ?thesis
                unfolding loop using Suc.IH [OF a(2), where c = c1 and s = r3] r3 by (fastforce split: sum.splits)
            next
              case other: False
              then show ?thesis using r3 a by (auto simp: k Cons v set ok next_char)
            qed
          qed
        qed
      qed
    qed
  qed
qed simp

section \<open>Every value is well formed\<close>

definition good_value :: "'d double_ops \<Rightarrow> nat \<Rightarrow> 'd json \<Rightarrow> bool" where
  "good_value ops levels j \<longleftrightarrow> doc_ok (doc_of ops j) \<and> fits levels (doc_of ops j)"

lemma good_array: "list_all (good_value ops n) xs \<Longrightarrow> good_value ops (Suc n) (J_Array xs c)"
  by (auto simp: good_value_def list_all_iff)

lemma good_object: "members_ok (good_value ops n) ms \<Longrightarrow> good_value ops (Suc n) (J_Object ms c)"
  by (auto simp: good_value_def members_ok_def list_all_iff case_prod_beta comp_def)

lemma token_value:
  assumes "ncl_json_parse_number g ops (c # s) = v" "c = CHR ''-'' \<or> is_digit c"
  shows "case v of Inl e \<Rightarrow> e \<noteq> Out_Of_Fuel | Inr (j, r) \<Rightarrow> length r < length (c # s) \<and> good_value ops (Suc n) j"
proof -
  define tok where "tok = takeWhile number_char (c # s)"
  have "number_char c" using assms(2) by (auto simp: number_char_def)
  then have tok: "tok = c # takeWhile number_char s" by (simp add: tok_def)
  have chars: "list_all number_char tok"
    unfolding tok_def list_all_iff by (metis set_takeWhileD)
  have raw: "cstr_of (take (length tok) (c # s)) = tok"
  proof -
    have "take (length tok) (c # s) = tok"
      by (simp only: tok_def takeWhile_eq_take [symmetric])
    then show ?thesis by (simp add: token_cstr [OF chars])
  qed
  have "number_token tok"
    using chars assms(2) tok by (simp add: number_token_def)
  then show ?thesis
    using assms(1) tok raw
    by (auto simp: ncl_json_parse_number_def tok_def [symmetric] Let_def ncl_json_new_double_def ncl_json_alloc_def
        ncl_strndup_def good_value_def number_text_def split: if_splits)
qed

lemma literal_total:
  "\<lbrakk>0 < length literal; \<And>n. j = Some n \<Longrightarrow> good n\<rbrakk> \<Longrightarrow>
     case literal_value literal j s of Inl e \<Rightarrow> e \<noteq> Out_Of_Fuel | Inr (v, r) \<Rightarrow> length r < length s \<and> good v"
  by (auto simp: literal_value_def ncl_json_match_literal_def made_def simp del: length_greater_0_conv split: option.splits)

lemma value_total: "child_ok (good_value ops n) (ncl_json_parse_value g ops n)"
proof (induction n)
  case 0
  show ?case by (simp add: child_ok_def)
next
  case (Suc n)
  show ?case
    unfolding child_ok_def
  proof (intro allI)
    fix s :: string
    define good where "good = (\<lambda>v :: json_fail + _ \<times> string. case v of Inl e \<Rightarrow> e \<noteq> Out_Of_Fuel
        | Inr (j, r) \<Rightarrow> length r < length s \<and> good_value ops (Suc n) j)"
    have "good (ncl_json_parse_value g ops (Suc n) s)"
    proof (cases "ncl_json_skip_ws s")
      case Nil
      then show ?thesis by (simp add: good_def)
    next
      case (Cons c r)
      have len: "length (c # r) \<le> length s" using skip_ws_shorter [of s] Cons by simp
      have arr: "good (ncl_json_parse_array g (ncl_json_parse_value g ops n) (c # r))"
        using array_loop_total [OF Suc.IH, where g = g and fuel = "Suc (length (ncl_json_skip_ws r))" and xs = "[]" and c = 0
            and s = "ncl_json_skip_ws r"]
          skip_ws_shorter [of r] len good_array [of ops n "[]"]
        by (auto simp: good_def ncl_json_parse_array_def ncl_json_new_array_def ncl_json_alloc_def Let_def neq_Nil_conv
            good_array split: sum.splits)
      have obj: "good (ncl_json_parse_object g (ncl_json_parse_value g ops n) (c # r))"
        using object_loop_total [OF Suc.IH, where ms = "[]" and g = g and fuel = "Suc (length (ncl_json_skip_ws r))" and c = 0
            and s = "ncl_json_skip_ws r"]
          skip_ws_shorter [of r] len good_object [of ops n "[]"]
        by (auto simp: good_def ncl_json_parse_object_def ncl_json_new_object_def ncl_json_alloc_def Let_def neq_Nil_conv
            members_ok_def good_object split: sum.splits)
      have str: "good (case ncl_json_parse_string_raw g (c # r) of
          Inl e \<Rightarrow> Inl e | Inr (t, r1) \<Rightarrow> made (ncl_json_new_string_len g (Some t)) r1)"
        using string_raw_total [of g "c # r"] len
        by (auto simp: good_def made_def ncl_json_new_string_len_def ncl_json_alloc_def good_value_def split: sum.splits)
      have lits: "good (literal_value ''true'' (ncl_json_new_bool g True) (c # r))"
          "good (literal_value ''false'' (ncl_json_new_bool g False) (c # r))"
          "good (literal_value ''null'' (ncl_json_new_null g) (c # r))"
        using literal_total [of "''true''" "ncl_json_new_bool g True" "good_value ops (Suc n)" "c # r"]
          literal_total [of "''false''" "ncl_json_new_bool g False" "good_value ops (Suc n)" "c # r"]
          literal_total [of "''null''" "ncl_json_new_null g" "good_value ops (Suc n)" "c # r"] len
        by (auto simp: good_def ncl_json_new_bool_def ncl_json_new_null_def ncl_json_alloc_def good_value_def split: sum.splits)
      have num: "good (ncl_json_parse_number g ops (c # r))" if "c = CHR ''-'' \<or> is_digit c"
        using token_value [OF refl that, where g = g and ops = ops and s = r and n = n] len by (auto simp: good_def split: sum.splits)
      have good_if: "good (if b then x else y)" if "b \<Longrightarrow> good x" "\<not> b \<Longrightarrow> good y" for b x y
        using that by simp
      have err: "good (Inl (Parse_Error m))" for m by (simp add: good_def)
      show ?thesis
        unfolding ncl_json_parse_value.simps Cons list.case
        by (intro good_if; (rule arr obj str lits err | rule num, assumption))
    qed
    then show "case ncl_json_parse_value g ops (Suc n) s of Inl e \<Rightarrow> e \<noteq> Out_Of_Fuel
        | Inr (j, r) \<Rightarrow> length r < length s \<and> good_value ops (Suc n) j"
      by (simp add: good_def)
  qed
qed

end
