(* ===== verification/Json_Doc.thy ===== *)
theory Json_Doc
  imports Json_Total "HOL-Library.AList"
begin

text \<open>
  The correctness properties of the JSON component: round trip, totality of the parser, and
  objects as maps that keep the order of insertion.
\<close>

section \<open>Round trip\<close>

lemma append_not_null: "\<lbrakk>ncl_strbuf_append g sb bs = (NCL_OK, sb1); bs \<noteq> []\<rbrakk> \<Longrightarrow> \<not> sb_null sb1"
  by (auto simp: ncl_strbuf_append_def ncl_strbuf_reserve_def Let_def split: if_splits option.splits prod.splits)

lemma put_char_not_null: "fst (put_char g c sb) = NCL_OK \<Longrightarrow> \<not> sb_null (snd (put_char g c sb))"
  unfolding put_char_def putc_append by (metis append_not_null list.distinct(1) prod.collapse)

lemma put_text_not_null: "\<lbrakk>fst (put_text g t sb) = NCL_OK; t \<noteq> []\<rbrakk> \<Longrightarrow> \<not> sb_null (snd (put_text g t sb))"
  unfolding put_text_def by (metis append_not_null bytes_of_simps(4) length_0_conv prod.collapse)

lemma escaped_not_null:
  assumes "length (sb_bytes sb) + length (quoted s) + 2 \<le> 2 ^ 63"
  shows "\<not> sb_null (ncl_json_write_escaped grant_all s sb)"
proof -
  have "sb_bytes (ncl_json_write_escaped grant_all s sb) = sb_bytes sb @ bytes_of (quoted s)"
    using sba.writes_result [OF writes_escaped, of sb s] assms by simp
  then show ?thesis
    unfolding ncl_json_write_escaped_def using assms by (intro put_char_not_null put_char_last) simp
qed

lemma write_not_null:
  assumes "fits 201 (doc_of ops j)" "doc_ok (doc_of ops j)"
    and "length (sb_bytes sb) + length (doc_text indent 0 (doc_of ops j)) + 2 \<le> 2 ^ 63"
  shows "\<not> sb_null (snd (ncl_json_write_internal grant_all ops indent j 0 sb))"
proof -
  have st: "fst (ncl_json_write_internal grant_all ops indent j 0 sb) = NCL_OK"
    using write_status [of 0 ops j sb indent] assms by simp
  show ?thesis
  proof (cases j)
    case J_Null
    then show ?thesis using st put_text_not_null by (simp add: NCL_JSON_MAX_DEPTH_def)
  next
    case (J_Bool b)
    then show ?thesis using st put_text_not_null by (simp add: NCL_JSON_MAX_DEPTH_def)
  next
    case (J_Number n)
    then show ?thesis
      using assms put_text_ok [of sb "number_text ops n"] put_text_not_null [of grant_all "number_text ops n" sb]
      by (auto simp: NCL_JSON_MAX_DEPTH_def ncl_json_write_number_def number_token_def)
  next
    case (J_String s)
    then show ?thesis using assms escaped_not_null by (simp add: NCL_JSON_MAX_DEPTH_def)
  next
    case (J_Array xs c)
    then show ?thesis using st put_char_not_null by (simp add: NCL_JSON_MAX_DEPTH_def Let_def)
  next
    case (J_Object ms c)
    then show ?thesis using st put_char_not_null by (simp add: NCL_JSON_MAX_DEPTH_def Let_def)
  qed
qed

lemma write_string_text:
  assumes "fits 201 (doc_of ops j)" "doc_ok (doc_of ops j)"
    and "length (doc_text indent 0 (doc_of ops j)) + 2 \<le> 2 ^ 63"
  shows "(if indent then ncl_json_write_pretty_string else ncl_json_write_string) grant_all ops (Some j)
      = Some (doc_text indent 0 (doc_of ops j))"
proof -
  have "sb_bytes (snd (ncl_json_write_internal grant_all ops indent j 0 ncl_strbuf_init))
      = bytes_of (doc_text indent 0 (doc_of ops j))"
    using sba.writes_result [OF writes_node [of 0 ops j indent], of ncl_strbuf_init] assms by simp
  moreover have "fst (ncl_json_write_internal grant_all ops indent j 0 ncl_strbuf_init) = NCL_OK"
    using write_status [of 0 ops j ncl_strbuf_init indent] assms by simp
  moreover have "\<not> sb_null (snd (ncl_json_write_internal grant_all ops indent j 0 ncl_strbuf_init))"
    using write_not_null [of ops j ncl_strbuf_init indent] assms by simp
  ultimately show ?thesis
    by (cases "ncl_json_write_internal grant_all ops indent j 0 ncl_strbuf_init"; cases indent)
      (simp_all add: ncl_json_write_string_def ncl_json_write_pretty_string_def ncl_json_write_def
        ncl_json_write_pretty_def write_from_def ncl_strbuf_detach_def)
qed

lemma parse_document_text:
  assumes "fits 201 d" "doc_ok d" "length (doc_text indent 0 d) + 2 \<le> 2 ^ 63"
  shows "\<exists>j. parse_document grant_all ops (doc_text indent 0 d) = Inr j \<and> doc_of ops j = d"
proof -
  have "short_strings d" using short_if [of indent 0 d] assms(3) by simp
  then have "reads ops (ncl_json_parse_value grant_all ops 201) (doc_text indent 0 d) d"
    by (rule reads_value [OF assms(1,2)])
  from readsD [OF this, of "[]" "[]"] show ?thesis
    by (auto simp: stops_def parse_document_def NCL_JSON_MAX_DEPTH_def)
qed

text \<open>
  C17. Round trip: a document whose numbers are number tokens, whose object keys are different C
  strings and which is not nested deeper than \<open>NCL_JSON_MAX_DEPTH\<close> is written by
  \<open>ncl_json_write_string\<close>, and by \<open>ncl_json_write_pretty_string\<close>, to a text that \<open>ncl_json_parse\<close>
  reads back as the same document, without a diagnostic: any string contents (control
  characters, quotes, NUL, arbitrary bytes), any nesting, both layouts.
\<close>

theorem json_roundtrip:
  assumes "doc_ok (doc_of ops j)" "fits (NCL_JSON_MAX_DEPTH + 1) (doc_of ops j)"
    and "length (doc_text indent 0 (doc_of ops j)) + 2 \<le> 2 ^ 63"
  shows "\<exists>t j'. (if indent then ncl_json_write_pretty_string else ncl_json_write_string) grant_all ops (Some j) = Some t
    \<and> ncl_json_parse grant_all ops (Some t) err = (Some j', err) \<and> doc_of ops j' = doc_of ops j"
  using write_string_text [of ops j indent] parse_document_text [of "doc_of ops j" indent ops] assms
  by (auto simp: ncl_json_parse_def NCL_JSON_MAX_DEPTH_def)

text \<open>Doubles that happen to be integers.\<close>

definition int_ops :: "int double_ops" where
  "int_ops = \<lparr>d_of_int = (\<lambda>i. i), d_trunc = (\<lambda>i. i), d_below = (\<lambda>i. \<bar>i\<bar> < 1000000000000000), d_eq = (=),
     d_round = Some, d_strtod = strtoll, d_format = (\<lambda>p. dec_int)\<rparr>"

definition sample_json :: "int json" where
  "sample_json = J_Object [(''id'', J_Array [J_Number \<lparr>jn_raw = Some ''-1.5e3'', jn_dbl = 0, jn_integer = 0,
      jn_is_integer = False, jn_has_dbl = False, jn_has_int = False, jn_from_int = False\<rparr>, J_Null] 8),
     (''note'', J_String [CHR 0x22, CHR 0x00, CHR 0xFF])] 8"

lemma json_roundtrip_witness:
  "\<exists>t j'. ncl_json_write_string grant_all int_ops (Some sample_json) = Some t
    \<and> ncl_json_parse grant_all int_ops (Some t) None = (Some j', None) \<and> doc_of int_ops j' = doc_of int_ops sample_json"
proof -
  have d: "doc_of int_ops sample_json = D_Object [(''id'', D_Array [D_Number ''-1.5e3'', D_Null]),
      (''note'', D_String [CHR 0x22, CHR 0x00, CHR 0xFF])]"
    by (simp add: sample_json_def number_text_def)
  have ok: "doc_ok (doc_of int_ops sample_json)"
    by (simp add: d number_token_def number_char_def is_digit_def is_cstr_def NUL_def)
  have fit: "fits (NCL_JSON_MAX_DEPTH + 1) (doc_of int_ops sample_json)"
  proof -
    have n: "NCL_JSON_MAX_DEPTH + 1 = Suc (Suc (Suc 198))" by (simp add: NCL_JSON_MAX_DEPTH_def)
    show ?thesis unfolding n d by (simp only: fits.simps list.pred_inject prod.case simp_thms)
  qed
  have len: "length (doc_text False 0 (doc_of int_ops sample_json)) + 2 \<le> 2 ^ 63"
    by (simp add: d quoted_def escaped_char_def break_text_def)
  show ?thesis
    using json_roundtrip [OF ok fit len, of None] by simp
qed

text \<open>
  C18. The parser is total: on every text, and whatever allocations fail, its loops come to an
  end, and a document it returns has number tokens only, different C strings as keys of every
  object, and at most \<open>NCL_JSON_MAX_DEPTH\<close> levels of nesting - so it can be written and read back.
\<close>

theorem json_parse_total:
  "case parse_document g ops s of
     Inl e \<Rightarrow> e \<noteq> Out_Of_Fuel
   | Inr j \<Rightarrow> doc_ok (doc_of ops j) \<and> fits (NCL_JSON_MAX_DEPTH + 1) (doc_of ops j)"
  using child_okD(1) [OF value_total [where g = g and ops = ops and n = "NCL_JSON_MAX_DEPTH + 1"], of s]
    child_okD(2) [OF value_total [where g = g and ops = ops and n = "NCL_JSON_MAX_DEPTH + 1"], of s]
  by (auto simp: parse_document_def good_value_def Let_def split: sum.splits)

section \<open>Nesting beyond the limit\<close>

fun nest :: "nat \<Rightarrow> 'd json \<Rightarrow> 'd json" where
  "nest 0 j = j"
| "nest (Suc n) j = J_Array [nest n j] 0"

lemma too_deep: "depth > NCL_JSON_MAX_DEPTH \<Longrightarrow> ncl_json_write_internal g ops indent j depth sb = (NCL_ERR_RANGE, sb)"
  by (cases j) simp_all

lemma writes_nest:
  assumes "n \<le> 201"
  shows "sba.writes (\<lambda>sb. snd (ncl_json_write_internal grant_all ops False (nest n j) (201 - n) sb))
    (bytes_of (replicate n (CHR ''['') @ replicate n (CHR '']'')))"
  using assms
proof (induction n)
  case 0
  then show ?case by (simp add: too_deep NCL_JSON_MAX_DEPTH_def sba.writes_skip)
next
  case (Suc n)
  then have d: "201 - Suc n + 1 = 201 - n" "\<not> 201 - Suc n > NCL_JSON_MAX_DEPTH" by (auto simp: NCL_JSON_MAX_DEPTH_def)
  have code: "(\<lambda>sb. snd (ncl_json_write_internal grant_all ops False (nest (Suc n) j) (201 - Suc n) sb)) =
      (\<lambda>sb. snd (put_char grant_all (CHR '']'') (snd (ncl_json_write_internal grant_all ops False (nest n j) (201 - n)
        (snd (put_char grant_all (CHR ''['') sb))))))"
    using d by (simp add: Let_def new_line_def del: One_nat_def add.right_neutral add_Suc_right)
  have bytes: "bytes_of (replicate (Suc n) (CHR ''['') @ replicate (Suc n) (CHR '']'')) =
      (bytes_of ''['' @ bytes_of (replicate n (CHR ''['') @ replicate n (CHR '']''))) @ bytes_of '']''"
    by (simp add: bytes_of_def replicate_append_same)
  show ?case
    unfolding code bytes
    using Suc by (intro sba.writes_seq writes_char) simp
qed

text \<open>
  The status of writing a child is not looked at: a value below 201 arrays is left out without
  a trace, and the text that results is that of empty arrays.
\<close>

theorem deep_value_lost:
  "ncl_json_write_string grant_all ops (Some (nest 201 j)) = Some (replicate 201 (CHR ''['') @ replicate 201 (CHR '']''))"
proof -
  obtain rc sb where w: "ncl_json_write_internal grant_all ops False (nest 201 j) 0 ncl_strbuf_init = (rc, sb)"
    by fastforce
  have sb: "sb_bytes sb = bytes_of (replicate 201 (CHR ''['') @ replicate 201 (CHR '']''))"
    using sba.writes_result [OF writes_nest [of 201 ops j], of ncl_strbuf_init] w by simp
  have n: "nest 201 j = J_Array [nest 200 j] 0" using nest.simps(2) [of 200 j] by simp
  obtain sb0 where last: "put_char grant_all (CHR '']'') sb0 = (rc, sb)"
    using w unfolding n by (auto simp: NCL_JSON_MAX_DEPTH_def Let_def)
  have "rc = NCL_OK" using put_char_last [of "CHR '']''" sb0] sb last by simp
  moreover have "\<not> sb_null sb" using put_char_not_null [of grant_all "CHR '']''" sb0] last calculation by simp
  ultimately show ?thesis
    using w sb by (simp add: ncl_json_write_string_def ncl_json_write_def write_from_def ncl_strbuf_detach_def
      flip: bytes_of_simps(3))
qed

section \<open>Objects\<close>

text \<open>What the users of a keyed store rely on: lookups, and the order of the keys.\<close>

locale keyed_store =
  fixes put :: "'k \<Rightarrow> 'v \<Rightarrow> 's \<Rightarrow> 's"
    and del :: "'k \<Rightarrow> 's \<Rightarrow> 's"
    and look :: "'s \<Rightarrow> 'k \<Rightarrow> 'v option"
    and keys :: "'s \<Rightarrow> 'k list"
    and ok :: "'s \<Rightarrow> bool"
  assumes put_ok: "ok s \<Longrightarrow> ok (put k v s)"
    and del_ok: "ok s \<Longrightarrow> ok (del k s)"
    and look_put: "ok s \<Longrightarrow> look (put k v s) = (look s)(k \<mapsto> v)"
    and look_del: "ok s \<Longrightarrow> look (del k s) = (look s)(k := None)"
    and keys_put: "ok s \<Longrightarrow> keys (put k v s) = (if k \<in> set (keys s) then keys s else keys s @ [k])"
    and keys_del: "ok s \<Longrightarrow> keys (del k s) = filter (\<lambda>x. x \<noteq> k) (keys s)"
begin

text \<open>A history of updates: \<open>None\<close> removes the key.\<close>

lemma history_ok: "ok s \<Longrightarrow> ok (fold (\<lambda>(k, v). case v of None \<Rightarrow> del k | Some v \<Rightarrow> put k v) h s)"
  by (induction h arbitrary: s) (auto simp: put_ok del_ok split: option.splits)

lemma history_look:
  "ok s \<Longrightarrow> look (fold (\<lambda>(k, v). case v of None \<Rightarrow> del k | Some v \<Rightarrow> put k v) h s)
     = fold (\<lambda>(k, v) m. m(k := v)) h (look s)"
  by (induction h arbitrary: s) (auto simp: put_ok del_ok look_put look_del split: option.splits)

lemma history_keys:
  "ok s \<Longrightarrow> keys (fold (\<lambda>(k, v). case v of None \<Rightarrow> del k | Some v \<Rightarrow> put k v) h s)
     = fold (\<lambda>(k, v) ks. if v = None then filter (\<lambda>x. x \<noteq> k) ks else if k \<in> set ks then ks else ks @ [k]) h (keys s)"
  by (induction h arbitrary: s) (auto simp: put_ok del_ok keys_put keys_del split: option.splits)

end

definition obj_keys :: "'d json option \<Rightarrow> string list" where
  "obj_keys obj = map (\<lambda>i. the (ncl_json_obj_key_at obj i)) [0 ..< ncl_json_obj_len obj]"

definition obj_ok :: "'d json option \<Rightarrow> bool" where
  "obj_ok obj \<longleftrightarrow> (\<exists>ms c. obj = Some (J_Object ms c) \<and> distinct (map fst ms))"

lemma key_index_map:
  "key_index ms k i = (if k \<in> fst ` set ms then Some (i + length (takeWhile (\<lambda>m. fst m \<noteq> k) ms)) else None)"
  by (induction ms k i rule: key_index.induct) auto

lemma update_at: "k \<in> fst ` set ms \<Longrightarrow> ms[length (takeWhile (\<lambda>m. fst m \<noteq> k) ms) := (k, v)] = AList.update k v ms"
  by (induction ms) auto

lemma update_new: "k \<notin> fst ` set ms \<Longrightarrow> ms @ [(k, v)] = AList.update k v ms"
  by (induction ms) auto

lemma at_index: "k \<in> fst ` set ms \<Longrightarrow> fst (ms ! length (takeWhile (\<lambda>m. fst m \<noteq> k) ms)) = k"
  by (induction ms) auto

lemma delete_at:
  "\<lbrakk>k \<in> fst ` set ms; distinct (map fst ms)\<rbrakk> \<Longrightarrow>
     take (length (takeWhile (\<lambda>m. fst m \<noteq> k) ms)) ms @ drop (Suc (length (takeWhile (\<lambda>m. fst m \<noteq> k) ms))) ms = AList.delete k ms"
proof (induction ms)
  case (Cons m ms)
  show ?case
  proof (cases "fst m = k")
    case True
    with Cons.prems have "k \<notin> fst ` set ms" by auto
    then have "AList.delete k ms = ms" by (simp add: delete_idem)
    with True show ?thesis by (cases m) simp
  next
    case False
    with Cons show ?thesis by (cases m) auto
  qed
qed simp

lemma map_of_index:
  "map_of ms k = (if k \<in> fst ` set ms then Some (snd (ms ! length (takeWhile (\<lambda>m. fst m \<noteq> k) ms))) else None)"
  by (induction ms) auto

lemma get_map: "ncl_json_obj_get (Some (J_Object ms c)) (Some k) = map_of ms k"
  by (auto simp: ncl_json_obj_get_def ncl_json_obj_index_of_def key_index_map members_def map_of_index)

lemma set_update:
  "\<exists>c1. snd (ncl_json_obj_set grant_all (Some (J_Object ms c)) (Some k) (Some v)) = Some (J_Object (AList.update k v ms) c1)"
proof (cases "k \<in> fst ` set ms")
  case True
  then show ?thesis
    by (simp add: ncl_json_obj_set_def ncl_json_obj_index_of_def key_index_map update_at at_index)
next
  case False
  then show ?thesis
    using set_new_all [OF False, of c v] by (auto simp: update_new)
qed

lemma remove_delete:
  "distinct (map fst ms) \<Longrightarrow> snd (ncl_json_obj_remove (Some (J_Object ms c)) (Some k)) = Some (J_Object (AList.delete k ms) c)"
  by (cases "k \<in> fst ` set ms")
    (auto simp: ncl_json_obj_remove_def ncl_json_obj_index_of_def key_index_map delete_at delete_idem)

lemma obj_keys_members [simp]: "obj_keys (Some (J_Object ms c)) = map fst ms"
  by (rule nth_equalityI) (simp_all add: obj_keys_def ncl_json_obj_len_def ncl_json_obj_key_at_def members_def)

interpretation obj_store: keyed_store
  "\<lambda>k v obj. snd (ncl_json_obj_set grant_all obj (Some k) (Some v))"
  "\<lambda>k obj. snd (ncl_json_obj_remove obj (Some k))"
  "\<lambda>obj k. ncl_json_obj_get obj (Some k)" obj_keys obj_ok
proof unfold_locales
  fix s :: "'d json option" and k v
  assume "obj_ok s"
  then obtain ms c where s: "s = Some (J_Object ms c)" "distinct (map fst ms)" by (auto simp: obj_ok_def)
  obtain c1 where u: "snd (ncl_json_obj_set grant_all s (Some k) (Some v)) = Some (J_Object (AList.update k v ms) c1)"
    using set_update s(1) by blast
  note d = remove_delete [OF s(2), of c k]
  show "obj_ok (snd (ncl_json_obj_set grant_all s (Some k) (Some v)))"
    using distinct_update [OF s(2), of k v] by (simp add: u obj_ok_def)
  show "obj_ok (snd (ncl_json_obj_remove s (Some k)))"
    using distinct_delete [OF s(2), of k] unfolding s(1) d by (simp add: obj_ok_def)
  show "(\<lambda>k'. ncl_json_obj_get (snd (ncl_json_obj_set grant_all s (Some k) (Some v))) (Some k'))
      = (\<lambda>k'. ncl_json_obj_get s (Some k'))(k \<mapsto> v)"
    unfolding u unfolding s(1) by (rule ext) (simp add: get_map update_conv')
  show "(\<lambda>k'. ncl_json_obj_get (snd (ncl_json_obj_remove s (Some k))) (Some k'))
      = (\<lambda>k'. ncl_json_obj_get s (Some k'))(k := None)"
    unfolding s(1) d by (rule ext) (simp add: get_map delete_conv')
  show "obj_keys (snd (ncl_json_obj_set grant_all s (Some k) (Some v)))
      = (if k \<in> set (obj_keys s) then obj_keys s else obj_keys s @ [k])"
    unfolding u unfolding s(1) by (simp add: update_keys)
  show "obj_keys (snd (ncl_json_obj_remove s (Some k))) = filter (\<lambda>x. x \<noteq> k) (obj_keys s)"
    unfolding s(1) d by (simp add: delete_keys removeAll_filter_not_eq eq_commute)
qed

text \<open>An object after a history of updates: \<open>None\<close> removes the key, \<open>Some v\<close> sets it.\<close>

definition obj_history :: "(string \<times> 'd json option) list \<Rightarrow> 'd json option" where
  "obj_history h = fold (\<lambda>(k, v). case v of
      None \<Rightarrow> (\<lambda>obj. snd (ncl_json_obj_remove obj (Some k)))
    | Some v \<Rightarrow> (\<lambda>obj. snd (ncl_json_obj_set grant_all obj (Some k) (Some v)))) h (ncl_json_new_object grant_all)"

lemma new_obj: "ncl_json_new_object grant_all = Some (J_Object [] 0)"
  by (simp add: ncl_json_new_object_def ncl_json_alloc_def grant_all)

text \<open>
  C32. A JSON object is a map that keeps the order of insertion: after any history of
  \<open>ncl_json_obj_set\<close> and \<open>ncl_json_obj_remove\<close> on a new object, \<open>ncl_json_obj_get\<close> answers as
  the map with that history, and the keys, in the order in which the writer puts them out, are
  in the order of their first insertion since their last removal, each once.
\<close>

theorem json_object_is_ordered_map:
  "(\<lambda>k. ncl_json_obj_get (obj_history h) (Some k)) = fold (\<lambda>(k, v) m. m(k := v)) h Map.empty
   \<and> obj_keys (obj_history h) =
      fold (\<lambda>(k, v) ks. if v = None then filter (\<lambda>x. x \<noteq> k) ks else if k \<in> set ks then ks else ks @ [k]) h []
   \<and> distinct (obj_keys (obj_history h))"
proof -
  have ok: "obj_ok (ncl_json_new_object grant_all :: 'a json option)" by (simp add: new_obj obj_ok_def)
  have "obj_ok (obj_history h)" unfolding obj_history_def by (rule obj_store.history_ok [OF ok])
  then have "distinct (obj_keys (obj_history h))" by (auto simp: obj_ok_def)
  moreover have "(\<lambda>k. ncl_json_obj_get (ncl_json_new_object grant_all :: 'a json option) (Some k)) = Map.empty"
    by (rule ext) (simp add: new_obj get_map)
  moreover have "obj_keys (ncl_json_new_object grant_all :: 'a json option) = []" by (simp add: new_obj)
  ultimately show ?thesis
    using obj_store.history_look [OF ok, of h] obj_store.history_keys [OF ok, of h] unfolding obj_history_def by simp
qed

end
