(* ===== verification/Regex.thy ===== *)
theory Regex
  imports Common
begin

unbundle bit_operations_syntax

text \<open>
  \<^verbatim>\<open>stack/src/schema/regex.c\<close>: the regular expression engine behind the JSON Schema keyword
  \<open>pattern\<close>. A pattern is compiled while it is parsed; the program is run by a backtracking
  machine. The parser's position is the rest of the pattern. The casts of program positions to
  \<open>int\<close> are left out: a program of \<open>2 ^ 31\<close> instructions would take 96 GB.
\<close>

section \<open>Programs\<close>

datatype re_op = RE_CHAR | RE_ANY | RE_CLASS | RE_SPLIT | RE_JMP | RE_BOL | RE_EOL | RE_WORDB | RE_NWORDB
  | RE_FAIL | RE_MATCH

record re_inst =
  ri_op :: re_op
  ri_ch :: char
  ri_bitmap :: "u8 list"
  ri_x :: int
  ri_y :: int

record ncl_regex =
  rx_prog :: "re_inst list"
  rx_cap :: nat
  rx_anchored_start :: bool
  rx_anchored_end :: bool

definition RE_INST_SIZE :: nat where
  "RE_INST_SIZE = 48"

definition REGEX_SIZE :: nat where
  "REGEX_SIZE = 32"

text \<open>The cleared instruction with its operation set.\<close>

definition blank_inst :: "re_op \<Rightarrow> re_inst" where
  "blank_inst opc = \<lparr>ri_op = opc, ri_ch = CHR 0x00, ri_bitmap = replicate 32 0, ri_x = 0, ri_y = 0\<rparr>"

definition re_emit :: "grant \<Rightarrow> re_op \<Rightarrow> ncl_regex \<Rightarrow> (nat \<times> ncl_regex) option" where
  "re_emit g opc rx =
     (let n = length (rx_prog rx); prog = rx_prog rx @ [blank_inst opc]
      in if n = rx_cap rx
         then (let cap = (if rx_cap rx = 0 then 32 else rx_cap rx * 2)
               in if g (cap * RE_INST_SIZE) then Some (n, rx\<lparr>rx_prog := prog, rx_cap := cap\<rparr>) else None)
         else Some (n, rx\<lparr>rx_prog := prog\<rparr>))"

text \<open>Filling in the fields of an instruction that was emitted.\<close>

definition set_inst :: "nat \<Rightarrow> (re_inst \<Rightarrow> re_inst) \<Rightarrow> ncl_regex \<Rightarrow> ncl_regex" where
  "set_inst i f rx = rx\<lparr>rx_prog := (rx_prog rx)[i := f (rx_prog rx ! i)]\<rparr>"

section \<open>The parser state\<close>

text \<open>
  The error slot of the caller: \<open>None\<close> without one, \<open>Some None\<close> while it is empty. A step
  fails with the slot it leaves, everything else is released; \<open>Re_Fuel\<close> is not a behaviour of the
  code, the recursion over groups counts its calls.
\<close>

type_synonym error_slot = "string option option"

record re_parser =
  rp_rest :: string
  rp_regex :: ncl_regex
  rp_error :: error_slot

datatype re_fault = Re_Failed error_slot | Re_Fuel

type_synonym re_result = "re_fault + re_parser"

definition re_slot :: "grant \<Rightarrow> error_slot \<Rightarrow> string \<Rightarrow> error_slot" where
  "re_slot g e message = (case e of Some None \<Rightarrow> Some (ncl_strdup g (Some message)) | _ \<Rightarrow> e)"

definition re_fail :: "grant \<Rightarrow> re_parser \<Rightarrow> string \<Rightarrow> re_result" where
  "re_fail g p message = Inl (Re_Failed (re_slot g (rp_error p) message))"

definition out_of_memory :: "grant \<Rightarrow> re_parser \<Rightarrow> re_result" where
  "out_of_memory g p = re_fail g p ''out of memory''"

section \<open>Character classes\<close>

definition re_class_set :: "u8 list \<Rightarrow> nat \<Rightarrow> nat \<Rightarrow> u8 list" where
  "re_class_set bitmap from to =
     fold (\<lambda>v bm. bm[v div 8 := bm ! (v div 8) OR push_bit (v mod 8) 1]) [from ..< to + 1] bitmap"

definition re_class_negate :: "u8 list \<Rightarrow> u8 list" where
  "re_class_negate bitmap = map NOT bitmap"

definition class_digits :: "u8 list \<Rightarrow> u8 list" where
  "class_digits bitmap = re_class_set bitmap 48 57"

definition class_word :: "u8 list \<Rightarrow> u8 list" where
  "class_word bitmap = re_class_set (re_class_set (re_class_set (class_digits bitmap) 97 122) 65 90) 95 95"

definition class_space :: "u8 list \<Rightarrow> u8 list" where
  "class_space bitmap = re_class_set (re_class_set bitmap 32 32) 9 13"

definition re_escape_class :: "char \<Rightarrow> u8 list \<Rightarrow> u8 list option" where
  "re_escape_class c bitmap =
     (if c = CHR ''d'' then Some (class_digits bitmap)
      else if c = CHR ''D'' then Some (re_class_negate (class_digits bitmap))
      else if c = CHR ''w'' then Some (class_word bitmap)
      else if c = CHR ''W'' then Some (re_class_negate (class_word bitmap))
      else if c = CHR ''s'' then Some (class_space bitmap)
      else if c = CHR ''S'' then Some (re_class_negate (class_space bitmap))
      else None)"

definition re_escape_char :: "char \<Rightarrow> char" where
  "re_escape_char c =
     (if c = CHR ''n'' then CHR 0x0A
      else if c = CHR ''r'' then CHR 0x0D
      else if c = CHR ''t'' then CHR 0x09
      else if c = CHR ''f'' then CHR 0x0C
      else if c = CHR ''v'' then CHR 0x0B
      else if c = CHR ''0'' then CHR 0x00
      else c)"

text \<open>One character or one range of a class, after its first character; \<open>Inl\<close>: the message.\<close>

definition class_item :: "u8 list \<Rightarrow> char \<Rightarrow> string \<Rightarrow> string + u8 list \<times> string" where
  "class_item bitmap from s =
     (if length s \<ge> 2 \<and> hd s = CHR ''-'' \<and> s ! 1 \<noteq> CHR '']''
      then (let to = s ! 1; r = drop 2 s;
                esc = (to = CHR 0x5C \<and> r \<noteq> []);
                upper = (if esc then re_escape_char (hd r) else to);
                r1 = (if esc then tl r else r)
            in if (of_char from :: nat) > of_char upper
               then Inl ''character class range is inverted''
               else Inr (re_class_set bitmap (of_char from) (of_char upper), r1))
      else Inr (re_class_set bitmap (of_char from) (of_char from), s))"

lemma class_item_length: "class_item bitmap from s = Inr (bm, r) \<Longrightarrow> length r \<le> length s"
  by (auto simp: class_item_def Let_def split: if_splits)

text \<open>The items up to the closing bracket, which stays in the rest.\<close>

function class_loop :: "u8 list \<Rightarrow> string \<Rightarrow> string + u8 list \<times> string" where
  "class_loop bitmap [] = Inr (bitmap, [])"
| "class_loop bitmap (c # s) =
     (if c = CHR '']'' then Inr (bitmap, c # s)
      else if c = CHR 0x5C \<and> s \<noteq> []
      then (case re_escape_class (hd s) bitmap of
              Some bm \<Rightarrow> class_loop bm (tl s)
            | None \<Rightarrow> (case class_item bitmap (re_escape_char (hd s)) (tl s) of
                Inl m \<Rightarrow> Inl m | Inr (bm, r) \<Rightarrow> class_loop bm r))
      else (case class_item bitmap c s of Inl m \<Rightarrow> Inl m | Inr (bm, r) \<Rightarrow> class_loop bm r))"
  by pat_completeness auto
termination
  by (relation "measure (\<lambda>(bitmap, s). length s)") (auto dest!: class_item_length)

text \<open>A class after its opening bracket: the bitmap and the rest after the closing bracket.\<close>

definition class_text :: "string \<Rightarrow> string + u8 list \<times> string" where
  "class_text s =
     (let negated = (s \<noteq> [] \<and> hd s = CHR ''^'');
          s1 = (if negated then tl s else s);
          closing = (s1 \<noteq> [] \<and> hd s1 = CHR '']'');
          s2 = (if closing then tl s1 else s1);
          bitmap = (if closing then re_class_set (replicate 32 0) 93 93 else replicate 32 0)
      in case class_loop bitmap s2 of
           Inl m \<Rightarrow> Inl m
         | Inr (bm, r) \<Rightarrow>
             if r = [] \<or> hd r \<noteq> CHR '']'' then Inl ''unterminated character class''
             else Inr (if negated then re_class_negate bm else bm, tl r))"

text \<open>Emitting an instruction, with a message when memory runs out or without.\<close>

definition emit_inst :: "grant \<Rightarrow> re_op \<Rightarrow> (re_inst \<Rightarrow> re_inst) \<Rightarrow> re_parser \<Rightarrow> re_result" where
  "emit_inst g opc f p =
     (case re_emit g opc (rp_regex p) of
        None \<Rightarrow> out_of_memory g p
      | Some (i, rx) \<Rightarrow> Inr (p\<lparr>rp_regex := set_inst i f rx\<rparr>))"

definition emit_silent :: "grant \<Rightarrow> re_op \<Rightarrow> re_parser \<Rightarrow> re_result" where
  "emit_silent g opc p =
     (case re_emit g opc (rp_regex p) of
        None \<Rightarrow> Inl (Re_Failed (rp_error p))
      | Some (i, rx) \<Rightarrow> Inr (p\<lparr>rp_regex := rx\<rparr>))"

definition re_parse_class :: "grant \<Rightarrow> re_parser \<Rightarrow> re_result" where
  "re_parse_class g p =
     (case class_text (rp_rest p) of
        Inl m \<Rightarrow> re_fail g p m
      | Inr (bm, r) \<Rightarrow> emit_inst g RE_CLASS (\<lambda>i. i\<lparr>ri_bitmap := bm\<rparr>) (p\<lparr>rp_rest := r\<rparr>))"

section \<open>Quantifiers\<close>

fun scan_number :: "nat \<Rightarrow> string \<Rightarrow> nat \<times> string" where
  "scan_number v [] = (v, [])"
| "scan_number v (c # s) =
     (if CHR ''0'' \<le> c \<and> c \<le> CHR ''9'' then scan_number (v * 10 + (of_char c - 48)) s else (v, c # s))"

text \<open>
  The bounds of a quantifier and the rest after it; no upper bound is \<open>None\<close>. The whole result
  is \<open>None\<close> for a text that is not a quantifier, so that its brace is a literal. A number that
  does not fit \<open>long\<close> overflows in C, which is undefined; here it is exact and too large.
\<close>

definition quantifier_bounds :: "string \<Rightarrow> (nat \<times> nat option \<times> string) option" where
  "quantifier_bounds s =
     (case s of
        [] \<Rightarrow> None
      | c # r \<Rightarrow>
          if c = CHR ''*'' then Some (0, None, r)
          else if c = CHR ''+'' then Some (1, None, r)
          else if c = CHR ''?'' then Some (0, Some 1, r)
          else if c = CHR ''{''
          then (if r = [] \<or> hd r < CHR ''0'' \<or> hd r > CHR ''9'' then None
                else (case scan_number 0 r of
                   (mn, r1) \<Rightarrow>
                     (case (if r1 \<noteq> [] \<and> hd r1 = CHR '',''
                            then (if tl r1 \<noteq> [] \<and> hd (tl r1) = CHR ''}'' then (None, tl r1)
                                  else (case scan_number 0 (tl r1) of (mx, r2) \<Rightarrow> (Some mx, r2)))
                            else (Some mn, r1)) of
                        (mx, r2) \<Rightarrow> if r2 = [] \<or> hd r2 \<noteq> CHR ''}'' then None else Some (mn, mx, tl r2))))
          else None)"

text \<open>Cutting off the instructions of the atom, for the copies.\<close>

definition re_take_tail :: "grant \<Rightarrow> nat \<Rightarrow> ncl_regex \<Rightarrow> (re_inst list \<times> ncl_regex) option" where
  "re_take_tail g atom_start rx =
     (let saved = drop atom_start (rx_prog rx)
      in if g (length saved * RE_INST_SIZE) then Some (saved, rx\<lparr>rx_prog := take atom_start (rx_prog rx)\<rparr>) else None)"

definition relocate_target :: "nat \<Rightarrow> nat \<Rightarrow> nat \<Rightarrow> int \<Rightarrow> int" where
  "relocate_target start len base t =
     (if t \<ge> 0 then if t \<ge> int start \<and> t \<le> int (start + len) then t - int start + int base else t else t)"

definition relocated :: "nat \<Rightarrow> nat \<Rightarrow> nat \<Rightarrow> re_inst \<Rightarrow> re_inst \<Rightarrow> re_inst" where
  "relocated start len base source i =
     (let i1 = i\<lparr>ri_ch := ri_ch source, ri_bitmap := ri_bitmap source\<rparr>
      in if ri_op source = RE_SPLIT \<or> ri_op source = RE_JMP
         then i1\<lparr>ri_x := relocate_target start len base (ri_x source), ri_y := relocate_target start len base (ri_y source)\<rparr>
         else i1)"

fun append_loop :: "grant \<Rightarrow> nat \<Rightarrow> nat \<Rightarrow> nat \<Rightarrow> re_inst list \<Rightarrow> ncl_regex \<Rightarrow> ncl_regex option" where
  "append_loop g start len base [] rx = Some rx"
| "append_loop g start len base (source # block) rx =
     (case re_emit g (ri_op source) rx of
        None \<Rightarrow> None
      | Some (i, rx1) \<Rightarrow> append_loop g start len base block (set_inst i (relocated start len base source) rx1))"

definition re_append_block :: "grant \<Rightarrow> re_inst list \<Rightarrow> nat \<Rightarrow> ncl_regex \<Rightarrow> (nat \<times> ncl_regex) option" where
  "re_append_block g block start rx =
     (let base = length (rx_prog rx)
      in map_option (\<lambda>rx1. (base, rx1)) (append_loop g start (length block) base block rx))"

definition set_targets :: "nat \<Rightarrow> nat \<Rightarrow> nat \<Rightarrow> ncl_regex \<Rightarrow> ncl_regex" where
  "set_targets i x y rx = set_inst i (\<lambda>s. s\<lparr>ri_x := int x, ri_y := int y\<rparr>) rx"

text \<open>The four layouts: \<open>x?\<close>, \<open>x*\<close>, \<open>x+\<close>, and mandatory copies before optional ones.\<close>

definition layout_optional :: "grant \<Rightarrow> re_inst list \<Rightarrow> nat \<Rightarrow> ncl_regex \<Rightarrow> ncl_regex option" where
  "layout_optional g atom start rx =
     (case re_emit g RE_SPLIT rx of None \<Rightarrow> None
      | Some (split, rx1) \<Rightarrow>
          (case re_append_block g atom start rx1 of None \<Rightarrow> None
           | Some (base, rx2) \<Rightarrow> Some (set_targets split base (length (rx_prog rx2)) rx2)))"

definition layout_star :: "grant \<Rightarrow> re_inst list \<Rightarrow> nat \<Rightarrow> ncl_regex \<Rightarrow> ncl_regex option" where
  "layout_star g atom start rx =
     (case re_emit g RE_SPLIT rx of None \<Rightarrow> None
      | Some (split, rx1) \<Rightarrow>
          (case re_append_block g atom start rx1 of None \<Rightarrow> None
           | Some (base, rx2) \<Rightarrow>
               (case re_emit g RE_JMP rx2 of None \<Rightarrow> None
                | Some (jmp, rx3) \<Rightarrow>
                    Some (set_inst (length (rx_prog rx3) - 1) (\<lambda>i. i\<lparr>ri_x := int split\<rparr>)
                      (set_targets split base (length (rx_prog rx3)) rx3)))))"

definition layout_plus :: "grant \<Rightarrow> re_inst list \<Rightarrow> nat \<Rightarrow> ncl_regex \<Rightarrow> ncl_regex option" where
  "layout_plus g atom start rx =
     (case re_append_block g atom start rx of None \<Rightarrow> None
      | Some (base, rx1) \<Rightarrow>
          (case re_emit g RE_SPLIT rx1 of None \<Rightarrow> None
           | Some (split, rx2) \<Rightarrow> Some (set_targets split base (length (rx_prog rx2)) rx2)))"

fun mandatory_copies :: "grant \<Rightarrow> re_inst list \<Rightarrow> nat \<Rightarrow> nat \<Rightarrow> ncl_regex \<Rightarrow> ncl_regex option" where
  "mandatory_copies g atom start 0 rx = Some rx"
| "mandatory_copies g atom start (Suc n) rx =
     (case re_append_block g atom start rx of None \<Rightarrow> None
      | Some (base, rx1) \<Rightarrow> mandatory_copies g atom start n rx1)"

fun optional_copies :: "grant \<Rightarrow> re_inst list \<Rightarrow> nat \<Rightarrow> nat \<Rightarrow> nat \<Rightarrow> ncl_regex \<Rightarrow> ncl_regex option" where
  "optional_copies g atom start after 0 rx = Some rx"
| "optional_copies g atom start after (Suc n) rx =
     (case re_emit g RE_SPLIT rx of None \<Rightarrow> None
      | Some (split, rx1) \<Rightarrow>
          (case re_append_block g atom start rx1 of None \<Rightarrow> None
           | Some (base, rx2) \<Rightarrow> optional_copies g atom start after n (set_targets split base after rx2)))"

definition layout_general :: "grant \<Rightarrow> re_inst list \<Rightarrow> nat \<Rightarrow> nat \<Rightarrow> nat option \<Rightarrow> ncl_regex \<Rightarrow> ncl_regex option" where
  "layout_general g atom start mn mx rx =
     (case mandatory_copies g atom start mn rx of None \<Rightarrow> None
      | Some rx1 \<Rightarrow>
          (case mx of
             None \<Rightarrow> layout_star g atom start rx1
           | Some m \<Rightarrow>
               (let count = m - mn; after = length (rx_prog rx1) + count * (length atom + 1)
                in optional_copies g atom start after count rx1)))"

definition quantifier_layout :: "grant \<Rightarrow> re_inst list \<Rightarrow> nat \<Rightarrow> nat \<Rightarrow> nat option \<Rightarrow> ncl_regex \<Rightarrow> ncl_regex option" where
  "quantifier_layout g atom start mn mx rx =
     (if mn = 0 \<and> mx = Some 1 then layout_optional g atom start rx
      else if mn = 0 \<and> mx = None then layout_star g atom start rx
      else if mn = 1 \<and> mx = None then layout_plus g atom start rx
      else layout_general g atom start mn mx rx)"

definition re_parse_quantifier :: "grant \<Rightarrow> nat \<Rightarrow> re_parser \<Rightarrow> re_result" where
  "re_parse_quantifier g atom_start p =
     (case quantifier_bounds (rp_rest p) of
        None \<Rightarrow> Inr p
      | Some (mn, mx, r) \<Rightarrow>
          (if (case mx of None \<Rightarrow> False | Some m \<Rightarrow> m < mn) then re_fail g p ''quantifier bounds are inverted''
           else if mn > 1000 \<or> (case mx of None \<Rightarrow> False | Some m \<Rightarrow> m > 1000)
           then re_fail g p ''quantifier bound is too large''
           else (let r1 = (if r \<noteq> [] \<and> hd r = CHR ''?'' then tl r else r)
                 in case re_take_tail g atom_start (rp_regex p) of
                      None \<Rightarrow> out_of_memory g p
                    | Some (atom, rx) \<Rightarrow>
                        (case quantifier_layout g atom atom_start mn mx rx of
                           None \<Rightarrow> out_of_memory g p
                         | Some rx1 \<Rightarrow> Inr (p\<lparr>rp_rest := r1, rp_regex := rx1\<rparr>)))))"

section \<open>Atoms, concatenation, alternation\<close>

text \<open>An escape outside a class, after the backslash.\<close>

definition escape_atom :: "grant \<Rightarrow> re_parser \<Rightarrow> re_result" where
  "escape_atom g p =
     (case rp_rest p of
        [] \<Rightarrow> re_fail g p ''trailing backslash''
      | esc # r \<Rightarrow>
          (let p1 = p\<lparr>rp_rest := r\<rparr>
           in if esc = CHR ''b'' then emit_silent g RE_WORDB p1
              else if esc = CHR ''B'' then emit_silent g RE_NWORDB p1
              else case re_escape_class esc (replicate 32 0) of
                Some bm \<Rightarrow> emit_inst g RE_CLASS (\<lambda>i. i\<lparr>ri_bitmap := bm\<rparr>) p1
              | None \<Rightarrow> emit_inst g RE_CHAR (\<lambda>i. i\<lparr>ri_ch := re_escape_char esc\<rparr>) p1))"

definition starts_quantifier :: "string \<Rightarrow> bool" where
  "starts_quantifier s \<longleftrightarrow> s \<noteq> [] \<and> hd s \<in> {CHR ''*'', CHR ''+'', CHR ''?'', CHR ''{''}"

definition ends_concat :: "string \<Rightarrow> bool" where
  "ends_concat s \<longleftrightarrow> s = [] \<or> hd s = CHR ''|'' \<or> hd s = CHR '')''"

text \<open>The jumps out of the finished branches: patched when the end is known.\<close>

definition close_alternation :: "nat \<Rightarrow> nat list \<Rightarrow> ncl_regex \<Rightarrow> ncl_regex" where
  "close_alternation split jumps rx =
     fold (\<lambda>j rx. set_inst j (\<lambda>i. i\<lparr>ri_x := int (length (rx_prog rx))\<rparr>) rx) jumps
       (set_inst split (\<lambda>i. i\<lparr>ri_y := -1\<rparr>) rx)"

text \<open>Room for one more jump; \<open>jumps\<close> is a separate array that doubles from 4.\<close>

definition grow_jumps :: "grant \<Rightarrow> nat \<Rightarrow> nat \<Rightarrow> nat option" where
  "grow_jumps g count cap =
     (if count = cap then (let cap1 = (if cap = 0 then 4 else cap * 2) in if g (cap1 * 8) then Some cap1 else None)
      else Some cap)"

fun re_parse_atom :: "grant \<Rightarrow> nat \<Rightarrow> re_parser \<Rightarrow> re_result"
  and re_parse_concat :: "grant \<Rightarrow> nat \<Rightarrow> re_parser \<Rightarrow> re_result"
  and alternation_loop :: "grant \<Rightarrow> nat \<Rightarrow> nat \<Rightarrow> nat list \<Rightarrow> nat \<Rightarrow> re_parser \<Rightarrow> re_result"
  and re_parse_alternation :: "grant \<Rightarrow> nat \<Rightarrow> re_parser \<Rightarrow> re_result" where
  "re_parse_atom g 0 p = Inl Re_Fuel"
| "re_parse_atom g (Suc n) p =
     (case rp_rest p of
        [] \<Rightarrow> Inr p
      | c # r \<Rightarrow>
          (let p1 = p\<lparr>rp_rest := r\<rparr>
           in if c = CHR ''(''
              then (let r1 = (if length r \<ge> 2 \<and> hd r = CHR ''?'' \<and> r ! 1 = CHR '':'' then drop 2 r else r)
                    in case re_parse_alternation g n (p\<lparr>rp_rest := r1\<rparr>) of
                         Inl e \<Rightarrow> Inl e
                       | Inr p2 \<Rightarrow>
                           if rp_rest p2 = [] \<or> hd (rp_rest p2) \<noteq> CHR '')'' then re_fail g p2 ''unbalanced group''
                           else Inr (p2\<lparr>rp_rest := tl (rp_rest p2)\<rparr>))
              else if c = CHR ''['' then re_parse_class g p1
              else if c = CHR ''.'' then emit_silent g RE_ANY p1
              else if c = CHR ''^'' then emit_silent g RE_BOL p1
              else if c = CHR ''$'' then emit_silent g RE_EOL p1
              else if c = CHR 0x5C then escape_atom g p1
              else emit_inst g RE_CHAR (\<lambda>i. i\<lparr>ri_ch := c\<rparr>) p1))"
| "re_parse_concat g 0 p = Inl Re_Fuel"
| "re_parse_concat g (Suc n) p =
     (if ends_concat (rp_rest p) then Inr p
      else (case re_parse_atom g n p of
              Inl e \<Rightarrow> Inl e
            | Inr p1 \<Rightarrow>
                (let atom_start = length (rx_prog (rp_regex p)); atom_end = length (rx_prog (rp_regex p1))
                 in if atom_end = atom_start then Inr p1
                    else case (if starts_quantifier (rp_rest p1) then re_parse_quantifier g atom_start p1 else Inr p1) of
                           Inl e \<Rightarrow> Inl e
                         | Inr p2 \<Rightarrow> re_parse_concat g n p2)))"
| "alternation_loop g 0 split jumps cap p = Inl Re_Fuel"
| "alternation_loop g (Suc n) split jumps cap p =
     (case re_parse_concat g n p of
        Inl e \<Rightarrow> Inl e
      | Inr p1 \<Rightarrow>
          if rp_rest p1 = [] \<or> hd (rp_rest p1) \<noteq> CHR ''|''
          then Inr (p1\<lparr>rp_regex := close_alternation split jumps (rp_regex p1)\<rparr>)
          else (case re_emit g RE_JMP (rp_regex p1) of
             None \<Rightarrow> out_of_memory g p1
           | Some (jmp, rx1) \<Rightarrow>
               (case grow_jumps g (length jumps) cap of
                  None \<Rightarrow> out_of_memory g p1
                | Some cap1 \<Rightarrow>
                    (case re_emit g RE_SPLIT rx1 of
                       None \<Rightarrow> out_of_memory g p1
                     | Some (next_split, rx2) \<Rightarrow>
                         (let rx3 = set_inst split (\<lambda>i. i\<lparr>ri_y := int next_split\<rparr>) rx2;
                              rx4 = set_inst next_split (\<lambda>i. i\<lparr>ri_x := int (length (rx_prog rx3))\<rparr>) rx3
                          in alternation_loop g n next_split (jumps @ [jmp]) cap1
                               (p1\<lparr>rp_rest := tl (rp_rest p1), rp_regex := rx4\<rparr>))))))"
| "re_parse_alternation g 0 p = Inl Re_Fuel"
| "re_parse_alternation g (Suc n) p =
     (case re_emit g RE_SPLIT (rp_regex p) of
        None \<Rightarrow> out_of_memory g p
      | Some (split, rx) \<Rightarrow>
          alternation_loop g n split [] 0
            (p\<lparr>rp_regex := set_inst split (\<lambda>i. i\<lparr>ri_x := int (length (rx_prog rx))\<rparr>) rx\<rparr>))"

section \<open>Compiling\<close>

text \<open>A split without a second branch goes to the shared instruction that fails.\<close>

definition patch_inst :: "nat \<Rightarrow> re_inst \<Rightarrow> re_inst" where
  "patch_inst fail_index i =
     (if ri_op i = RE_SPLIT
      then i\<lparr>ri_x := (if ri_x i < 0 then int fail_index else ri_x i),
             ri_y := (if ri_y i < 0 then int fail_index else ri_y i)\<rparr>
      else i)"

definition finish_program :: "grant \<Rightarrow> re_parser \<Rightarrow> re_result" where
  "finish_program g p =
     (case re_emit g RE_MATCH (rp_regex p) of
        None \<Rightarrow> out_of_memory g p
      | Some (match_index, rx) \<Rightarrow>
          (case re_emit g RE_FAIL rx of
             None \<Rightarrow> out_of_memory g p
           | Some (fail_index, rx1) \<Rightarrow>
               (let rx2 = rx1\<lparr>rx_prog := map (patch_inst fail_index) (rx_prog rx1)\<rparr>
                in Inr (p\<lparr>rp_regex := rx2\<lparr>rx_anchored_start :=
                      rx_prog rx2 \<noteq> [] \<and> ri_op (hd (rx_prog rx2)) = RE_BOL\<rparr>\<rparr>))))"

definition regex_fuel :: "string \<Rightarrow> nat" where
  "regex_fuel s = 4 * length s + 4"

definition compile_from :: "grant \<Rightarrow> string \<Rightarrow> error_slot \<Rightarrow> re_result" where
  "compile_from g pattern err =
     (case re_parse_alternation g (regex_fuel pattern)
         \<lparr>rp_rest = pattern,
          rp_regex = \<lparr>rx_prog = [], rx_cap = 0, rx_anchored_start = False, rx_anchored_end = False\<rparr>,
          rp_error = err\<rparr> of
        Inl e \<Rightarrow> Inl e
      | Inr p \<Rightarrow>
          if rp_rest p \<noteq> [] \<and> hd (rp_rest p) = CHR '')'' then Inl (Re_Failed (rp_error p))
          else if rp_rest p \<noteq> [] then re_fail g p ''unexpected trailing pattern characters''
          else finish_program g p)"

definition ncl_regex_compile :: "grant \<Rightarrow> string option \<Rightarrow> error_slot \<Rightarrow> ncl_regex option \<times> error_slot" where
  "ncl_regex_compile g pattern err =
     (let err0 = map_option (\<lambda>_. None) err
      in case pattern of
           None \<Rightarrow> (None, err0)
         | Some s \<Rightarrow>
             if \<not> g REGEX_SIZE then (None, err0)
             else (case compile_from g s err0 of
                     Inl (Re_Failed e) \<Rightarrow> (None, e)
                   | Inl Re_Fuel \<Rightarrow> (None, err0)
                   | Inr p \<Rightarrow> (Some (rp_regex p), rp_error p)))"

section \<open>The machine\<close>

definition re_is_word :: "char \<Rightarrow> bool" where
  "re_is_word c \<longleftrightarrow> (CHR ''0'' \<le> c \<and> c \<le> CHR ''9'') \<or> (CHR ''a'' \<le> c \<and> c \<le> CHR ''z'')
     \<or> (CHR ''A'' \<le> c \<and> c \<le> CHR ''Z'') \<or> c = CHR ''_''"

definition in_class :: "u8 list \<Rightarrow> char \<Rightarrow> bool" where
  "in_class bitmap c \<longleftrightarrow> bitmap ! (of_char c div 8) AND push_bit (of_char c mod 8) 1 \<noteq> 0"

definition word_before :: "string \<Rightarrow> nat \<Rightarrow> bool" where
  "word_before t sp \<longleftrightarrow> sp > 0 \<and> re_is_word (t ! (sp - 1))"

definition word_after :: "string \<Rightarrow> nat \<Rightarrow> bool" where
  "word_after t sp \<longleftrightarrow> sp < length t \<and> re_is_word (t ! sp)"

text \<open>The conversion of a target to \<open>size_t\<close>.\<close>

definition target_of :: "int \<Rightarrow> nat" where
  "target_of x = nat (x mod 2 ^ 64)"

text \<open>What the instruction at a position does: give up, match, go on, or try two positions.\<close>

datatype re_next = Dead | Found | Go nat nat | Branch nat nat

definition go_if :: "bool \<Rightarrow> nat \<Rightarrow> nat \<Rightarrow> re_next" where
  "go_if b pc sp = (if b then Go pc sp else Dead)"

definition run_inst :: "re_inst \<Rightarrow> string \<Rightarrow> nat \<Rightarrow> nat \<Rightarrow> re_next" where
  "run_inst i t pc sp =
     (case ri_op i of
        RE_CHAR \<Rightarrow> go_if (sp < length t \<and> t ! sp = ri_ch i) (pc + 1) (sp + 1)
      | RE_ANY \<Rightarrow> go_if (sp < length t \<and> t ! sp \<noteq> CHR 0x0A) (pc + 1) (sp + 1)
      | RE_CLASS \<Rightarrow> go_if (sp < length t \<and> in_class (ri_bitmap i) (t ! sp)) (pc + 1) (sp + 1)
      | RE_SPLIT \<Rightarrow> Branch (target_of (ri_x i)) (target_of (ri_y i))
      | RE_JMP \<Rightarrow> Go (target_of (ri_x i)) sp
      | RE_BOL \<Rightarrow> go_if (sp = 0) (pc + 1) sp
      | RE_EOL \<Rightarrow> go_if (sp = length t) (pc + 1) sp
      | RE_WORDB \<Rightarrow> go_if (word_before t sp \<noteq> word_after t sp) (pc + 1) sp
      | RE_NWORDB \<Rightarrow> go_if (word_before t sp = word_after t sp) (pc + 1) sp
      | RE_FAIL \<Rightarrow> Dead
      | RE_MATCH \<Rightarrow> Found)"

definition run_next :: "re_inst list \<Rightarrow> string \<Rightarrow> nat \<Rightarrow> nat \<Rightarrow> re_next" where
  "run_next prog t pc sp = (if pc \<ge> length prog then Dead else run_inst (prog ! pc) t pc sp)"

text \<open>The result and the budget that is left; the budget is one object for all calls.\<close>

function re_run :: "re_inst list \<Rightarrow> string \<Rightarrow> nat \<Rightarrow> nat \<Rightarrow> int \<Rightarrow> bool \<times> int" where
  "re_run prog t pc sp b =
     (if b \<le> 0 then (False, b - 1)
      else case run_next prog t pc sp of
        Dead \<Rightarrow> (False, b - 1)
      | Found \<Rightarrow> (True, b - 1)
      | Go pc1 sp1 \<Rightarrow> re_run prog t pc1 sp1 (b - 1)
      | Branch x y \<Rightarrow>
          (case re_run prog t x sp (b - 1) of
             (r, b1) \<Rightarrow> if r then (True, b1) else re_run prog t y sp b1))"
  by pat_completeness auto

lemma re_run_spends:
  assumes "re_run_dom (prog, t, pc, sp, b)"
  shows "snd (re_run prog t pc sp b) < b"
  using assms
proof (induction rule: re_run.pinduct)
  case (1 prog t pc sp b)
  show ?case
  proof (cases "b \<le> 0")
    case False
    then show ?thesis
    proof (cases "run_next prog t pc sp")
      case (Go pc1 sp1)
      with 1 False show ?thesis by (simp add: re_run.psimps)
    next
      case (Branch x y)
      with 1 False show ?thesis by (fastforce simp: re_run.psimps split: prod.splits)
    qed (simp_all add: re_run.psimps 1 False)
  qed (simp add: re_run.psimps 1)
qed

termination re_run
  by (relation "measure (\<lambda>(prog, t, pc, sp, b). nat b)") (auto dest!: re_run_spends dest: arg_cong [of _ _ snd])

declare re_run.simps [simp del]

fun search_loop :: "ncl_regex \<Rightarrow> string \<Rightarrow> nat list \<Rightarrow> int \<Rightarrow> bool \<times> int" where
  "search_loop rx t [] b = (False, b)"
| "search_loop rx t (start # starts) b =
     (if start > 0 \<and> rx_anchored_start rx then (False, b)
      else case re_run (rx_prog rx) t 0 start b of
        (r, b1) \<Rightarrow> if r then (True, b1) else search_loop rx t starts b1)"

definition RE_BUDGET :: int where
  "RE_BUDGET = 2000000"

text \<open>The search with the budget it leaves.\<close>

definition search_run :: "ncl_regex \<Rightarrow> string \<Rightarrow> bool \<times> int" where
  "search_run rx t = search_loop rx t [0 ..< length t + 1] RE_BUDGET"

definition ncl_regex_search :: "ncl_regex option \<Rightarrow> string option \<Rightarrow> bool" where
  "ncl_regex_search regex t =
     (case (regex, t) of (Some rx, Some s) \<Rightarrow> fst (search_run rx s) | _ \<Rightarrow> False)"

end
