(* ===== verification/Regex_Ast.thy ===== *)
theory Regex_Ast
  imports Regex
begin

text \<open>
  The reference of the regular expression engine: the syntax tree of a pattern, its meaning as a
  relation between positions of the text, and the code of a tree at a given place.
\<close>

section \<open>Syntax trees\<close>

datatype re = R_Char char | R_Any | R_Class "u8 list" | R_Bol | R_Eol | R_Wordb | R_Nwordb
  | R_Group "re list list" | R_Rep re nat "nat option"

text \<open>An atom that is not a group, from its first character.\<close>

definition ast_escape :: "string \<Rightarrow> (re \<times> string) option" where
  "ast_escape s =
     (case s of
        [] \<Rightarrow> None
      | e # r \<Rightarrow>
          Some (if e = CHR ''b'' then R_Wordb
                else if e = CHR ''B'' then R_Nwordb
                else case re_escape_class e (replicate 32 0) of Some bm \<Rightarrow> R_Class bm | None \<Rightarrow> R_Char (re_escape_char e), r))"

definition ast_single :: "char \<Rightarrow> string \<Rightarrow> (re \<times> string) option" where
  "ast_single c r =
     (if c = CHR ''['' then (case class_text r of Inl m \<Rightarrow> None | Inr (bm, r1) \<Rightarrow> Some (R_Class bm, r1))
      else if c = CHR ''.'' then Some (R_Any, r)
      else if c = CHR ''^'' then Some (R_Bol, r)
      else if c = CHR ''$'' then Some (R_Eol, r)
      else if c = CHR 0x5C then ast_escape r
      else Some (R_Char c, r))"

definition bounds_ok :: "nat \<Rightarrow> nat option \<Rightarrow> bool" where
  "bounds_ok mn mx \<longleftrightarrow> mn \<le> 1000 \<and> (case mx of None \<Rightarrow> True | Some m \<Rightarrow> mn \<le> m \<and> m \<le> 1000)"

definition skip_lazy :: "string \<Rightarrow> string" where
  "skip_lazy s = (if s \<noteq> [] \<and> hd s = CHR ''?'' then tl s else s)"

definition ast_quantified :: "re \<Rightarrow> string \<Rightarrow> (re \<times> string) option" where
  "ast_quantified r s =
     (case quantifier_bounds s of
        None \<Rightarrow> Some (r, s)
      | Some (mn, mx, s1) \<Rightarrow> if bounds_ok mn mx then Some (R_Rep r mn mx, skip_lazy s1) else None)"

definition group_head :: "string \<Rightarrow> string" where
  "group_head r = (if length r \<ge> 2 \<and> hd r = CHR ''?'' \<and> r ! 1 = CHR '':'' then drop 2 r else r)"

text \<open>The tree of the longest prefix, and the rest; the first argument bounds the nesting of calls.\<close>

fun ast_atom :: "nat \<Rightarrow> string \<Rightarrow> (re \<times> string) option"
  and ast_concat :: "nat \<Rightarrow> string \<Rightarrow> (re list \<times> string) option"
  and ast_alt :: "nat \<Rightarrow> string \<Rightarrow> (re list list \<times> string) option" where
  "ast_atom 0 s = None"
| "ast_atom (Suc n) [] = None"
| "ast_atom (Suc n) (c # r) =
     (if c = CHR ''(''
      then (case ast_alt (n - 1) (group_head r) of
              None \<Rightarrow> None
            | Some (alts, r1) \<Rightarrow> if r1 = [] \<or> hd r1 \<noteq> CHR '')'' then None else Some (R_Group alts, tl r1))
      else ast_single c r)"
| "ast_concat 0 s = None"
| "ast_concat (Suc n) s =
     (if ends_concat s then Some ([], s)
      else (case ast_atom n s of
              None \<Rightarrow> None
            | Some (r, s1) \<Rightarrow>
                (case ast_quantified r s1 of
                   None \<Rightarrow> None
                 | Some (q, s2) \<Rightarrow> map_option (\<lambda>(rs, s3). (q # rs, s3)) (ast_concat n s2))))"
| "ast_alt 0 s = None"
| "ast_alt (Suc n) s =
     (case ast_concat n s of
        None \<Rightarrow> None
      | Some (rs, s1) \<Rightarrow>
          if s1 = [] \<or> hd s1 \<noteq> CHR ''|'' then Some ([rs], s1)
          else map_option (\<lambda>(alts, s2). (rs # alts, s2)) (ast_alt n (tl s1)))"

definition re_ast :: "string \<Rightarrow> re option" where
  "re_ast pattern =
     (case ast_alt (4 * length pattern + 3) pattern of
        Some (alts, []) \<Rightarrow> Some (R_Group alts)
      | _ \<Rightarrow> None)"

section \<open>Meaning\<close>

text \<open>The pairs of a position and a position after a match that starts there.\<close>

fun denote :: "string \<Rightarrow> re \<Rightarrow> (nat \<times> nat) set"
  and denote_cat :: "string \<Rightarrow> re list \<Rightarrow> (nat \<times> nat) set"
  and denote_alt :: "string \<Rightarrow> re list list \<Rightarrow> (nat \<times> nat) set" where
  "denote t (R_Char c) = {(i, i + 1) |i. i < length t \<and> t ! i = c}"
| "denote t R_Any = {(i, i + 1) |i. i < length t \<and> t ! i \<noteq> CHR 0x0A}"
| "denote t (R_Class bm) = {(i, i + 1) |i. i < length t \<and> in_class bm (t ! i)}"
| "denote t R_Bol = {(0, 0)}"
| "denote t R_Eol = {(length t, length t)}"
| "denote t R_Wordb = {(i, i) |i. word_before t i \<noteq> word_after t i}"
| "denote t R_Nwordb = {(i, i) |i. word_before t i = word_after t i}"
| "denote t (R_Group alts) = denote_alt t alts"
| "denote t (R_Rep r mn mx) =
     (case mx of None \<Rightarrow> (denote t r) ^^ mn O (denote t r)\<^sup>* | Some m \<Rightarrow> (\<Union>k\<in>{mn..m}. (denote t r) ^^ k))"
| "denote_cat t [] = Id"
| "denote_cat t (r # rs) = denote t r O denote_cat t rs"
| "denote_alt t [] = {}"
| "denote_alt t (A # As) = denote_cat t A \<union> denote_alt t As"

section \<open>Code\<close>

definition split_inst :: "int \<Rightarrow> int \<Rightarrow> re_inst" where
  "split_inst x y = (blank_inst RE_SPLIT)\<lparr>ri_x := x, ri_y := y\<rparr>"

definition jmp_inst :: "int \<Rightarrow> re_inst" where
  "jmp_inst x = (blank_inst RE_JMP)\<lparr>ri_x := x\<rparr>"

definition char_inst :: "char \<Rightarrow> re_inst" where
  "char_inst c = (blank_inst RE_CHAR)\<lparr>ri_ch := c\<rparr>"

definition class_inst :: "u8 list \<Rightarrow> re_inst" where
  "class_inst bm = (blank_inst RE_CLASS)\<lparr>ri_bitmap := bm\<rparr>"

text \<open>The layouts of a repetition, for code that can be placed anywhere and has a fixed length.\<close>

type_synonym re_code = "nat \<Rightarrow> re_inst list"

definition opt_code :: "re_code \<Rightarrow> nat \<Rightarrow> re_code" where
  "opt_code c l b = split_inst (int (b + 1)) (int (b + 1 + l)) # c (b + 1)"

definition star_code :: "re_code \<Rightarrow> nat \<Rightarrow> re_code" where
  "star_code c l b = split_inst (int (b + 1)) (int (b + l + 2)) # c (b + 1) @ [jmp_inst (int b)]"

definition plus_code :: "re_code \<Rightarrow> nat \<Rightarrow> re_code" where
  "plus_code c l b = c b @ [split_inst (int b) (int (b + l + 1))]"

fun copies_code :: "re_code \<Rightarrow> nat \<Rightarrow> nat \<Rightarrow> re_code" where
  "copies_code c l 0 b = []"
| "copies_code c l (Suc k) b = c b @ copies_code c l k (b + l)"

fun opts_code :: "re_code \<Rightarrow> nat \<Rightarrow> nat \<Rightarrow> nat \<Rightarrow> re_inst list" where
  "opts_code c l 0 b = []"
| "opts_code c l (Suc k) b =
     split_inst (int (b + 1)) (int (b + Suc k * (l + 1))) # c (b + 1) @ opts_code c l k (b + l + 1)"

definition rep_code :: "re_code \<Rightarrow> nat \<Rightarrow> nat \<Rightarrow> nat option \<Rightarrow> re_code" where
  "rep_code c l mn mx b =
     (if mn = 0 \<and> mx = Some 1 then opt_code c l b
      else if mn = 0 \<and> mx = None then star_code c l b
      else if mn = 1 \<and> mx = None then plus_code c l b
      else copies_code c l mn b @
        (case mx of None \<Rightarrow> star_code c l (b + mn * l) | Some m \<Rightarrow> opts_code c l (m - mn) (b + mn * l)))"

definition rep_len :: "nat \<Rightarrow> nat \<Rightarrow> nat option \<Rightarrow> nat" where
  "rep_len l mn mx =
     (if mn = 0 \<and> mx = Some 1 then l + 1
      else if mn = 0 \<and> mx = None then l + 2
      else if mn = 1 \<and> mx = None then l + 1
      else mn * l + (case mx of None \<Rightarrow> l + 2 | Some m \<Rightarrow> (m - mn) * (l + 1)))"

fun re_len :: "re \<Rightarrow> nat" and cat_len :: "re list \<Rightarrow> nat" and alt_len :: "re list list \<Rightarrow> nat" where
  "re_len (R_Group alts) = alt_len alts"
| "re_len (R_Rep r mn mx) = rep_len (re_len r) mn mx"
| "re_len r = 1"
| "cat_len [] = 0"
| "cat_len (r # rs) = re_len r + cat_len rs"
| "alt_len [] = 0"
| "alt_len (A # As) = (if As = [] then 1 + cat_len A else 2 + cat_len A + alt_len As)"

text \<open>A branch that is not the last is followed by a jump to the end.\<close>

fun re_code :: "re \<Rightarrow> nat \<Rightarrow> re_inst list"
  and cat_code :: "re list \<Rightarrow> nat \<Rightarrow> re_inst list"
  and alt_code :: "re list list \<Rightarrow> nat \<Rightarrow> nat \<Rightarrow> re_inst list" where
  "re_code (R_Char c) b = [char_inst c]"
| "re_code R_Any b = [blank_inst RE_ANY]"
| "re_code (R_Class bm) b = [class_inst bm]"
| "re_code R_Bol b = [blank_inst RE_BOL]"
| "re_code R_Eol b = [blank_inst RE_EOL]"
| "re_code R_Wordb b = [blank_inst RE_WORDB]"
| "re_code R_Nwordb b = [blank_inst RE_NWORDB]"
| "re_code (R_Group alts) b = alt_code alts (b + alt_len alts) b"
| "re_code (R_Rep r mn mx) b = rep_code (\<lambda>b1. re_code r b1) (re_len r) mn mx b"
| "cat_code [] b = []"
| "cat_code (r # rs) b = re_code r b @ cat_code rs (b + re_len r)"
| "alt_code [] e b = []"
| "alt_code (A # As) e b =
     (if As = [] then split_inst (int (b + 1)) (-1) # cat_code A (b + 1)
      else split_inst (int (b + 1)) (int (b + 2 + cat_len A)) # cat_code A (b + 1) @ [jmp_inst (int e)]
        @ alt_code As e (b + 2 + cat_len A))"

text \<open>The code has the length that was planned for it.\<close>

lemma copies_length: "(\<And>b. length (c b) = l) \<Longrightarrow> length (copies_code c l k b) = k * l"
  by (induction k arbitrary: b) auto

lemma opts_length: "(\<And>b. length (c b) = l) \<Longrightarrow> length (opts_code c l k b) = k * (l + 1)"
  by (induction k arbitrary: b) auto

lemma rep_length: "(\<And>b. length (c b) = l) \<Longrightarrow> length (rep_code c l mn mx b) = rep_len l mn mx"
  by (auto simp: rep_code_def rep_len_def opt_code_def star_code_def plus_code_def copies_length opts_length
    simp del: opts_code.simps copies_code.simps split: option.splits)

lemma code_length [simp]:
  "length (re_code r b) = re_len r" "length (cat_code rs b) = cat_len rs" "length (alt_code As e b) = alt_len As"
proof (induction r b and rs b and As e b rule: re_code_cat_code_alt_code.induct)
  case (9 r mn mx b)
  then show ?case by (simp add: rep_length)
qed auto

section \<open>Relocation\<close>

text \<open>A copy of an instruction whose targets inside the block move with it.\<close>

definition reloc :: "nat \<Rightarrow> nat \<Rightarrow> nat \<Rightarrow> re_inst \<Rightarrow> re_inst" where
  "reloc start l base i = relocated start l base i (blank_inst (ri_op i))"

lemma reloc_simps [simp]:
  "reloc start l base (char_inst c) = char_inst c"
  "reloc start l base (class_inst bm) = class_inst bm"
  "reloc start l base (split_inst x y) = split_inst (relocate_target start l base x) (relocate_target start l base y)"
  "reloc start l base (jmp_inst x) = (jmp_inst (relocate_target start l base x))\<lparr>ri_y := relocate_target start l base 0\<rparr>"
  "opc \<noteq> RE_SPLIT \<Longrightarrow> opc \<noteq> RE_JMP \<Longrightarrow> reloc start l base (blank_inst opc) = blank_inst opc"
  by (auto simp: reloc_def relocated_def char_inst_def class_inst_def split_inst_def jmp_inst_def blank_inst_def Let_def)

lemma target_simps [simp]:
  "relocate_target start l base (-1) = -1"
  "start > 0 \<Longrightarrow> relocate_target start l base 0 = 0"
  by (auto simp: relocate_target_def)

lemma jmp_clear [simp]: "(jmp_inst x)\<lparr>ri_y := 0\<rparr> = jmp_inst x"
  by (simp add: jmp_inst_def blank_inst_def)

text \<open>\<open>moves start l c m\<close>: inside a block, the code of length \<open>m\<close> moves from any place to any other.\<close>

definition moves :: "nat \<Rightarrow> nat \<Rightarrow> re_code \<Rightarrow> nat \<Rightarrow> bool" where
  "moves start l c m \<longleftrightarrow> (\<forall>base k. k + m \<le> l \<longrightarrow> map (reloc start l base) (c (start + k)) = c (base + k))"

lemma movesD: "\<lbrakk>moves start l c m; k + m \<le> l; b = start + k; b' = base + k\<rbrakk> \<Longrightarrow> map (reloc start l base) (c b) = c b'"
  by (simp add: moves_def)

lemma target_at: "\<lbrakk>x = start + k; y = base + k; k \<le> l\<rbrakk> \<Longrightarrow> relocate_target start l base (int x) = int y"
  by (simp add: relocate_target_def)

lemma copies_move:
  assumes "moves start l c m" "k + n * m \<le> l"
  shows "map (reloc start l base) (copies_code c m n (start + k)) = copies_code c m n (base + k)"
  using assms(2)
proof (induction n arbitrary: k)
  case (Suc n)
  then show ?case
    using Suc.IH [of "k + m"] movesD [OF assms(1), of k "start + k" "base + k" base] by (simp add: add.assoc)
qed simp

lemma opts_move:
  assumes "moves start l c m" "start > 0" "k + n * (m + 1) \<le> l"
  shows "map (reloc start l base) (opts_code c m n (start + k)) = opts_code c m n (base + k)"
  using assms(3)
proof (induction n arbitrary: k)
  case (Suc n)
  have "relocate_target start l base (int (start + k + 1)) = int (base + k + 1)"
    by (rule target_at [where k = "k + 1"]) (use Suc.prems in auto)
  moreover have "relocate_target start l base (int (start + k + Suc n * (m + 1))) = int (base + k + Suc n * (m + 1))"
    by (rule target_at [where k = "k + Suc n * (m + 1)"]) (use Suc.prems in auto)
  moreover have "map (reloc start l base) (c (start + k + 1)) = c (base + k + 1)"
    by (rule movesD [OF assms(1), where k = "k + 1"]) (use Suc.prems in auto)
  ultimately show ?case
    using Suc.IH [of "k + m + 1"] Suc.prems by (simp only: opts_code.simps list.map reloc_simps map_append) (simp add: add.assoc)
qed simp


lemma star_moves:
  assumes "moves start l c m" "start > 0"
  shows "moves start l (star_code c m) (m + 2)"
  unfolding moves_def
proof (intro allI impI)
  fix base k assume k: "k + (m + 2) \<le> l"
  have "relocate_target start l base (int (start + k + 1)) = int (base + k + 1)"
    by (rule target_at [where k = "k + 1"]) (use k in auto)
  moreover have "relocate_target start l base (int (start + k + m + 2)) = int (base + k + m + 2)"
    by (rule target_at [where k = "k + m + 2"]) (use k in auto)
  moreover have "relocate_target start l base (int (start + k)) = int (base + k)"
    by (rule target_at [where k = k]) (use k in auto)
  moreover have "map (reloc start l base) (c (start + k + 1)) = c (base + k + 1)"
    by (rule movesD [OF assms(1), where k = "k + 1"]) (use k in auto)
  ultimately show "map (reloc start l base) (star_code c m (start + k)) = star_code c m (base + k)"
    using assms(2) by (simp only: star_code_def list.map reloc_simps map_append target_simps jmp_clear)
qed

lemma opt_moves:
  assumes "moves start l c m" "start > 0"
  shows "moves start l (opt_code c m) (m + 1)"
  unfolding moves_def
proof (intro allI impI)
  fix base k assume k: "k + (m + 1) \<le> l"
  have "relocate_target start l base (int (start + k + 1)) = int (base + k + 1)"
    by (rule target_at [where k = "k + 1"]) (use k in auto)
  moreover have "relocate_target start l base (int (start + k + 1 + m)) = int (base + k + 1 + m)"
    by (rule target_at [where k = "k + 1 + m"]) (use k in auto)
  moreover have "map (reloc start l base) (c (start + k + 1)) = c (base + k + 1)"
    by (rule movesD [OF assms(1), where k = "k + 1"]) (use k in auto)
  ultimately show "map (reloc start l base) (opt_code c m (start + k)) = opt_code c m (base + k)"
    by (simp only: opt_code_def list.map reloc_simps)
qed

lemma plus_moves:
  assumes "moves start l c m" "start > 0"
  shows "moves start l (plus_code c m) (m + 1)"
  unfolding moves_def
proof (intro allI impI)
  fix base k assume k: "k + (m + 1) \<le> l"
  have "relocate_target start l base (int (start + k)) = int (base + k)"
    by (rule target_at [where k = k]) (use k in auto)
  moreover have "relocate_target start l base (int (start + k + m + 1)) = int (base + k + m + 1)"
    by (rule target_at [where k = "k + m + 1"]) (use k in auto)
  moreover have "map (reloc start l base) (c (start + k)) = c (base + k)"
    by (rule movesD [OF assms(1), where k = k]) (use k in auto)
  ultimately show "map (reloc start l base) (plus_code c m (start + k)) = plus_code c m (base + k)"
    by (simp only: plus_code_def list.map reloc_simps map_append)
qed

lemma rep_moves:
  assumes "moves start l c m" "start > 0"
  shows "moves start l (rep_code c m mn mx) (rep_len m mn mx)"
proof -
  have general: "map (reloc start l base) (copies_code c m mn (start + k) @
        (case mx of None \<Rightarrow> star_code c m (start + k + mn * m) | Some x \<Rightarrow> opts_code c m (x - mn) (start + k + mn * m)))
      = copies_code c m mn (base + k) @
        (case mx of None \<Rightarrow> star_code c m (base + k + mn * m) | Some x \<Rightarrow> opts_code c m (x - mn) (base + k + mn * m))"
    if "k + (mn * m + (case mx of None \<Rightarrow> m + 2 | Some x \<Rightarrow> (x - mn) * (m + 1))) \<le> l" for base k
  proof -
    have "map (reloc start l base) (copies_code c m mn (start + k)) = copies_code c m mn (base + k)"
      by (rule copies_move [OF assms(1)]) (use that in auto)
    moreover have "map (reloc start l base) (star_code c m (start + k + mn * m)) = star_code c m (base + k + mn * m)" if "mx = None"
      by (rule movesD [OF star_moves [OF assms], where k = "k + mn * m"]) (use \<open>k + _ \<le> l\<close> that in auto)
    moreover have "map (reloc start l base) (opts_code c m (x - mn) (start + k + mn * m)) = opts_code c m (x - mn) (base + k + mn * m)"
      if "mx = Some x" for x
      using opts_move [OF assms, of "k + mn * m" "x - mn" base] \<open>k + _ \<le> l\<close> that by (simp add: add.assoc)
    ultimately show ?thesis by (simp split: option.split)
  qed
  show ?thesis
    unfolding moves_def rep_code_def [abs_def] rep_len_def
    using general movesD [OF star_moves [OF assms]] movesD [OF opt_moves [OF assms]] movesD [OF plus_moves [OF assms]]
    by (auto simp: add.assoc simp del: opts_code.simps copies_code.simps)
qed

lemma atom_moves: "reloc start l base i = i \<Longrightarrow> map (reloc start l base) [i] = [i]"
  by simp

lemma alt_jump_moves:
  "start > 0 \<Longrightarrow> e = start + d \<Longrightarrow> d \<le> l \<Longrightarrow> reloc start l base (jmp_inst (int e)) = jmp_inst (int (base + d))"
  using target_at [of e start d "base + d" base l] by simp

text \<open>The code of a tree moves.\<close>

lemma code_moves:
  assumes "start > 0"
  shows "\<lbrakk>b = start + k; k + re_len r \<le> l\<rbrakk> \<Longrightarrow> map (reloc start l base) (re_code r b) = re_code r (base + k)"
    and "\<lbrakk>b = start + k; k + cat_len rs \<le> l\<rbrakk> \<Longrightarrow> map (reloc start l base) (cat_code rs b) = cat_code rs (base + k)"
    and "\<lbrakk>b = start + k; k + alt_len As \<le> l; e = start + d; d \<le> l\<rbrakk> \<Longrightarrow>
      map (reloc start l base) (alt_code As e b) = alt_code As (base + d) (base + k)"
proof (induction r b and rs b and As e b arbitrary: k base and k base and k d base rule: re_code_cat_code_alt_code.induct)
  case (8 alts b)
  then show ?case
    using "8.IH" [of k "k + alt_len alts" base] by (simp add: add.assoc)
next
  case (9 r mn mx b)
  have "moves start l (re_code r) (re_len r)"
    unfolding moves_def using "9.IH" by blast
  from movesD [OF rep_moves [OF this assms], of k mn mx b "base + k" base] "9.prems"
  show ?case by simp
next
  case (11 r rs b)
  then show ?case by (simp add: add.assoc)
next
  case (13 A As e b)
  have x: "relocate_target start l base (int (b + 1)) = int (base + k + 1)"
    by (rule target_at [where k = "k + 1"]) (use "13.prems" in \<open>auto split: if_splits\<close>)
  show ?case
  proof (cases "As = []")
    case True
    then show ?thesis
      using "13.IH"(1) [OF True, of "k + 1" base] "13.prems" x by simp
  next
    case False
    have "relocate_target start l base (int (b + 2 + cat_len A)) = int (base + k + 2 + cat_len A)"
      by (rule target_at [where k = "k + 2 + cat_len A"]) (use "13.prems" False in auto)
    then show ?thesis
      using "13.IH"(2) [OF False, of "k + 1" base] "13.IH"(3) [OF False, of "k + 2 + cat_len A" d base] "13.prems" False x
        alt_jump_moves [OF assms, of e d l base]
      by (simp only: alt_code.simps list.map map_append reloc_simps if_False) (simp add: add.assoc)
  qed
qed (use assms in auto)

end
