(* ===== verification/Regex_Compile.thy ===== *)
theory Regex_Compile
  imports Regex_Ast
begin

text \<open>
  The parser builds the code of the pattern's syntax tree: what it emits, moves, copies and
  patches adds up to \<open>re_code\<close> at the place where the program ended.
\<close>

section \<open>Emitting\<close>

lemma emit_prog: "re_emit g opc rx = Some (i, rx1) \<Longrightarrow> i = length (rx_prog rx) \<and> rx_prog rx1 = rx_prog rx @ [blank_inst opc]"
  by (auto simp: re_emit_def Let_def split: if_splits)

lemma set_inst_prog [simp]: "rx_prog (set_inst i f rx) = (rx_prog rx)[i := f (rx_prog rx ! i)]"
  by (simp add: set_inst_def)

lemma emit_inst_prog:
  "emit_inst g opc f p = Inr p1 \<Longrightarrow>
     rp_rest p1 = rp_rest p \<and> rx_prog (rp_regex p1) = rx_prog (rp_regex p) @ [f (blank_inst opc)]"
  by (auto simp: emit_inst_def out_of_memory_def re_fail_def dest!: emit_prog split: option.splits)

lemma emit_silent_prog:
  "emit_silent g opc p = Inr p1 \<Longrightarrow>
     rp_rest p1 = rp_rest p \<and> rx_prog (rp_regex p1) = rx_prog (rp_regex p) @ [blank_inst opc]"
  by (auto simp: emit_silent_def dest!: emit_prog split: option.splits)

lemma append_loop_prog:
  "append_loop g start l base block rx = Some rx1 \<Longrightarrow> rx_prog rx1 = rx_prog rx @ map (reloc start l base) block"
proof (induction block arbitrary: rx)
  case (Cons source block)
  then show ?case
    by (auto simp: reloc_def dest!: emit_prog split: option.splits prod.splits)
qed simp

lemma append_block_prog:
  assumes "re_append_block g (c start) start rx = Some (base, rx1)" "moves start (length (c start)) c (length (c start))"
  shows "base = length (rx_prog rx) \<and> rx_prog rx1 = rx_prog rx @ c base"
  using assms movesD [OF assms(2), of 0 start base base]
  by (auto simp: re_append_block_def Let_def dest: append_loop_prog)

section \<open>Quantifiers\<close>

lemma optional_prog:
  assumes "layout_optional g (c start) start rx = Some rx1" "moves start l c l" "\<And>b. length (c b) = l"
  shows "rx_prog rx1 = rx_prog rx @ opt_code c l (length (rx_prog rx))"
proof -
  from assms(1) obtain split rxa base rxb where e: "re_emit g RE_SPLIT rx = Some (split, rxa)"
    and a: "re_append_block g (c start) start rxa = Some (base, rxb)"
    and r: "rx1 = set_targets split base (length (rx_prog rxb)) rxb"
    by (auto simp: layout_optional_def split: option.splits)
  from append_block_prog [where c = c, OF a] assms(2,3) have "base = length (rx_prog rxa)" "rx_prog rxb = rx_prog rxa @ c base" by auto
  with emit_prog [OF e] show ?thesis
    by (simp add: r set_targets_def opt_code_def split_inst_def nth_append assms(3))
qed

lemma star_prog:
  assumes "layout_star g (c start) start rx = Some rx1" "moves start l c l" "\<And>b. length (c b) = l"
  shows "rx_prog rx1 = rx_prog rx @ star_code c l (length (rx_prog rx))"
proof -
  from assms(1) obtain split rxa base rxb jmp rxc where e: "re_emit g RE_SPLIT rx = Some (split, rxa)"
    and a: "re_append_block g (c start) start rxa = Some (base, rxb)" and j: "re_emit g RE_JMP rxb = Some (jmp, rxc)"
    and r: "rx1 = set_inst (length (rx_prog rxc) - 1) (\<lambda>i. i\<lparr>ri_x := int split\<rparr>) (set_targets split base (length (rx_prog rxc)) rxc)"
    by (auto simp: layout_star_def split: option.splits)
  from append_block_prog [where c = c, OF a] assms(2,3) have "base = length (rx_prog rxa)" "rx_prog rxb = rx_prog rxa @ c base" by auto
  with emit_prog [OF e] emit_prog [OF j] show ?thesis
    by (simp add: r set_targets_def star_code_def split_inst_def jmp_inst_def nth_append list_update_append assms(3))
qed

lemma plus_prog:
  assumes "layout_plus g (c start) start rx = Some rx1" "moves start l c l" "\<And>b. length (c b) = l"
  shows "rx_prog rx1 = rx_prog rx @ plus_code c l (length (rx_prog rx))"
proof -
  from assms(1) obtain split rxa base rxb where a: "re_append_block g (c start) start rx = Some (base, rxa)"
    and e: "re_emit g RE_SPLIT rxa = Some (split, rxb)"
    and r: "rx1 = set_targets split base (length (rx_prog rxb)) rxb"
    by (auto simp: layout_plus_def split: option.splits)
  from append_block_prog [where c = c, OF a] assms(2,3) have "base = length (rx_prog rx)" "rx_prog rxa = rx_prog rx @ c base" by auto
  with emit_prog [OF e] show ?thesis
    by (simp add: r set_targets_def plus_code_def split_inst_def nth_append list_update_append assms(3))
qed

lemma mandatory_prog:
  assumes "mandatory_copies g (c start) start n rx = Some rx1" "moves start l c l" "\<And>b. length (c b) = l"
  shows "rx_prog rx1 = rx_prog rx @ copies_code c l n (length (rx_prog rx))"
  using assms(1)
proof (induction n arbitrary: rx)
  case (Suc n)
  from Suc.prems obtain base rxa where a: "re_append_block g (c start) start rx = Some (base, rxa)"
    and m: "mandatory_copies g (c start) start n rxa = Some rx1"
    by (auto split: option.splits)
  from append_block_prog [where c = c, OF a] assms(2,3) have "rx_prog rxa = rx_prog rx @ c (length (rx_prog rx))" by auto
  with Suc.IH [OF m] show ?case by (simp add: assms(3))
qed simp

lemma optionals_prog:
  assumes "optional_copies g (c start) start (length (rx_prog rx) + n * (l + 1)) n rx = Some rx1"
    and "moves start l c l" "\<And>b. length (c b) = l"
  shows "rx_prog rx1 = rx_prog rx @ opts_code c l n (length (rx_prog rx))"
  using assms(1)
proof (induction n arbitrary: rx)
  case (Suc n)
  define after where "after = length (rx_prog rx) + Suc n * (l + 1)"
  from Suc.prems obtain split rxa base rxb where e: "re_emit g RE_SPLIT rx = Some (split, rxa)"
    and a: "re_append_block g (c start) start rxa = Some (base, rxb)"
    and o': "optional_copies g (c start) start after n (set_targets split base after rxb) = Some rx1"
    by (auto simp: after_def split: option.splits)
  from append_block_prog [where c = c, OF a] assms(2,3) have "base = length (rx_prog rxa)" "rx_prog rxb = rx_prog rxa @ c base" by auto
  with emit_prog [OF e] have p: "rx_prog (set_targets split base after rxb)
      = rx_prog rx @ split_inst (int (length (rx_prog rx) + 1)) (int after) # c (length (rx_prog rx) + 1)"
    by (simp add: set_targets_def split_inst_def nth_append)
  have n: "length (rx_prog (set_targets split base after rxb)) + n * (l + 1) = after"
    unfolding p by (simp add: assms(3) after_def)
  show ?case
    using Suc.IH [of "set_targets split base after rxb", unfolded n, OF o'] unfolding p
    by (simp add: assms(3) after_def add.assoc)
qed simp

lemma layout_prog:
  assumes "quantifier_layout g (c start) start mn mx rx = Some rx1" "moves start l c l" "\<And>b. length (c b) = l"
  shows "rx_prog rx1 = rx_prog rx @ rep_code c l mn mx (length (rx_prog rx))"
proof -
  consider "mn = 0 \<and> mx = Some 1" | "mn = 0 \<and> mx = None" | "mn = 1 \<and> mx = None"
    | "\<not> (mn = 0 \<and> mx = Some 1)" "\<not> (mn = 0 \<and> mx = None)" "\<not> (mn = 1 \<and> mx = None)" by blast
  then show ?thesis
  proof cases
    case 1
    then show ?thesis using assms(1) optional_prog [OF _ assms(2,3)] by (simp add: quantifier_layout_def rep_code_def)
  next
    case 2
    then show ?thesis using assms(1) star_prog [OF _ assms(2,3)] by (simp add: quantifier_layout_def rep_code_def)
  next
    case 3
    then show ?thesis using assms(1) plus_prog [OF _ assms(2,3)] by (simp add: quantifier_layout_def rep_code_def)
  next
    case 4
    then have "layout_general g (c start) start mn mx rx = Some rx1"
      using assms(1) unfolding quantifier_layout_def by argo
    then obtain rxa where m: "mandatory_copies g (c start) start mn rx = Some rxa"
      and r: "case mx of None \<Rightarrow> layout_star g (c start) start rxa = Some rx1
        | Some m \<Rightarrow> optional_copies g (c start) start (length (rx_prog rxa) + (m - mn) * (l + 1)) (m - mn) rxa = Some rx1"
      by (auto simp: layout_general_def Let_def assms(3) split: option.splits)
    have code: "rep_code c l mn mx b = copies_code c l mn b @
        (case mx of None \<Rightarrow> star_code c l (b + mn * l) | Some m \<Rightarrow> opts_code c l (m - mn) (b + mn * l))" for b
      using 4 unfolding rep_code_def by argo
    have len: "length (copies_code c l mn b) = mn * l" for b by (rule copies_length) (rule assms(3))
    show ?thesis
      using r mandatory_prog [OF m assms(2,3)] star_prog [OF _ assms(2,3), of g rxa rx1]
        optionals_prog [where rx = rxa and ?rx1.0 = rx1, OF _ assms(2,3)]
      unfolding code by (cases mx) (auto simp: len)
  qed
qed

lemma re_code_moves: "start > 0 \<Longrightarrow> moves start (re_len r) (re_code r) (re_len r)"
  unfolding moves_def using code_moves(1) by blast

lemma quantifier_prog:
  assumes "re_parse_quantifier g start p = Inr p1" "rx_prog (rp_regex p) = P @ re_code r start" "start = length P" "start > 0"
  shows "\<exists>q. ast_quantified r (rp_rest p) = Some (q, rp_rest p1) \<and> rx_prog (rp_regex p1) = P @ re_code q start"
proof (cases "quantifier_bounds (rp_rest p)")
  case None
  then show ?thesis using assms by (simp add: re_parse_quantifier_def ast_quantified_def)
next
  case (Some x)
  obtain mn mx s where x: "x = (mn, mx, s)" by (cases x)
  have ok: "bounds_ok mn mx"
    using assms(1) Some by (auto simp: x re_parse_quantifier_def bounds_ok_def re_fail_def split: if_splits option.splits)
  then have "(case mx of None \<Rightarrow> False | Some m \<Rightarrow> m < mn) = False" "(mn > 1000 \<or> (case mx of None \<Rightarrow> False | Some m \<Rightarrow> m > 1000)) = False"
    by (auto simp: bounds_ok_def split: option.splits)
  with assms(1) Some obtain rx rx1 where t: "re_take_tail g start (rp_regex p) = Some (re_code r start, rx)"
    and q: "quantifier_layout g (re_code r start) start mn mx rx = Some rx1"
    and p1: "p1 = p\<lparr>rp_rest := skip_lazy s, rp_regex := rx1\<rparr>"
    by (auto simp: x re_parse_quantifier_def out_of_memory_def re_fail_def skip_lazy_def re_take_tail_def Let_def assms(2,3)
        split: if_splits option.splits)
  have "rx_prog rx = P" using t by (auto simp: re_take_tail_def Let_def assms(2,3) split: if_splits)
  with layout_prog [OF q re_code_moves [OF assms(4)]] assms(3)
  have "rx_prog rx1 = P @ re_code (R_Rep r mn mx) start" by simp
  then show ?thesis using Some ok by (simp add: x ast_quantified_def p1)
qed

section \<open>The parser\<close>

lemma single_prog:
  assumes "(if c = CHR ''['' then re_parse_class g p1
            else if c = CHR ''.'' then emit_silent g RE_ANY p1
            else if c = CHR ''^'' then emit_silent g RE_BOL p1
            else if c = CHR ''$'' then emit_silent g RE_EOL p1
            else if c = CHR 0x5C then escape_atom g p1
            else emit_inst g RE_CHAR (\<lambda>i. i\<lparr>ri_ch := c\<rparr>) p1) = Inr p2"
  shows "\<exists>r. ast_single c (rp_rest p1) = Some (r, rp_rest p2) \<and> re_len r = 1 \<and>
    (\<forall>b. rx_prog (rp_regex p2) = rx_prog (rp_regex p1) @ re_code r b)"
proof -
  consider "c = CHR ''[''" | "c = CHR 0x5C" | "c \<in> {CHR ''.'', CHR ''^'', CHR ''$''}"
    | "c \<notin> {CHR ''['', CHR 0x5C, CHR ''.'', CHR ''^'', CHR ''$''}" by auto
  then show ?thesis
  proof cases
    case 1
    with assms show ?thesis
      by (auto simp: re_parse_class_def ast_single_def re_fail_def class_inst_def dest!: emit_inst_prog split: sum.splits)
  next
    case 2
    with assms show ?thesis
      by (auto simp: escape_atom_def ast_single_def ast_escape_def re_fail_def class_inst_def char_inst_def Let_def
          dest!: emit_inst_prog emit_silent_prog split: list.splits option.splits if_splits)
  next
    case 3
    with assms show ?thesis by (auto simp: ast_single_def dest!: emit_silent_prog)
  next
    case 4
    with assms show ?thesis by (auto simp: ast_single_def char_inst_def dest!: emit_inst_prog)
  qed
qed

text \<open>The jumps out of the branches, patched in the part of the program before the last branch.\<close>

definition patch_jumps :: "nat list \<Rightarrow> nat \<Rightarrow> re_inst list \<Rightarrow> re_inst list" where
  "patch_jumps js e Q = fold (\<lambda>j Q. Q[j := (Q ! j)\<lparr>ri_x := int e\<rparr>]) js Q"

lemma patch_jumps_length [simp]: "length (patch_jumps js e Q) = length Q"
  by (induction js arbitrary: Q) (simp_all add: patch_jumps_def)

lemma patch_jumps_append:
  "\<forall>j\<in>set js. j < length Q \<Longrightarrow> patch_jumps js e (Q @ R) = patch_jumps js e Q @ R"
proof (induction js arbitrary: Q)
  case (Cons j js)
  then show ?case
    using Cons.IH [of "Q[j := (Q ! j)\<lparr>ri_x := int e\<rparr>]"] by (simp add: patch_jumps_def nth_append list_update_append)
qed (simp add: patch_jumps_def)

lemma patch_jumps_snoc:
  assumes "\<forall>j\<in>set js. j < length Q"
  shows "patch_jumps (js @ [length Q]) e (Q @ [i]) = patch_jumps js e Q @ [i\<lparr>ri_x := int e\<rparr>]"
proof -
  have "patch_jumps (js @ [length Q]) e (Q @ [i])
      = (\<lambda>Q1. Q1[length Q := (Q1 ! length Q)\<lparr>ri_x := int e\<rparr>]) (patch_jumps js e (Q @ [i]))"
    by (simp add: patch_jumps_def)
  also have "\<dots> = patch_jumps js e Q @ [i\<lparr>ri_x := int e\<rparr>]"
    unfolding patch_jumps_append [OF assms]
    by (metis (no_types, lifting) list_update_length nth_append_length patch_jumps_length)
  finally show ?thesis .
qed

lemma close_fold:
  "rx_prog (fold (\<lambda>j rx. set_inst j (\<lambda>i. i\<lparr>ri_x := int (length (rx_prog rx))\<rparr>) rx) js rx)
     = patch_jumps js (length (rx_prog rx)) (rx_prog rx)"
  by (induction js arbitrary: rx) (simp_all add: patch_jumps_def)

lemma close_prog:
  assumes "rx_prog rx = Q @ split_inst x 0 # C" "\<forall>j\<in>set js. j < length Q"
  shows "rx_prog (close_alternation (length Q) js rx)
    = patch_jumps js (length Q + 1 + length C) Q @ split_inst x (-1) # C"
  unfolding close_alternation_def close_fold
  using assms by (simp add: patch_jumps_append split_inst_def)


lemma atom_split:
  assumes "re_parse_atom g (Suc n) p = Inr p2" "rp_rest p = c # r" "c \<noteq> CHR ''(''"
  shows "\<exists>x. ast_atom (Suc n) (rp_rest p) = Some (x, rp_rest p2) \<and> re_len x = 1 \<and>
    (\<forall>b. rx_prog (rp_regex p2) = rx_prog (rp_regex p) @ re_code x b)"
  using single_prog [of c g "p\<lparr>rp_rest := r\<rparr>" p2] assms by (simp add: Let_def)

lemma quantified_prog:
  assumes "(if starts_quantifier (rp_rest p) then re_parse_quantifier g start p else Inr p) = Inr p1"
    and "rx_prog (rp_regex p) = P @ re_code r start" "start = length P" "start > 0"
  shows "\<exists>q. ast_quantified r (rp_rest p) = Some (q, rp_rest p1) \<and> rx_prog (rp_regex p1) = P @ re_code q start"
proof (cases "starts_quantifier (rp_rest p)")
  case True
  with assms(1) show ?thesis by (simp add: quantifier_prog [OF _ assms(2-4)])
next
  case False
  then have "quantifier_bounds (rp_rest p) = None"
    by (auto simp: starts_quantifier_def quantifier_bounds_def split: list.splits)
  with assms False show ?thesis by (simp add: ast_quantified_def)
qed

lemma re_len_pos: "re_len r = 1 \<or> (\<exists>alts. r = R_Group alts) \<or> (\<exists>q mn mx. r = R_Rep q mn mx)"
  by (cases r) simp_all

lemma alt_len_pos: "alts \<noteq> [] \<Longrightarrow> alt_len alts > 0"
  by (cases alts) simp_all

lemma ast_alt_nonempty: "ast_alt n s = Some (alts, r) \<Longrightarrow> alts \<noteq> []"
  by (cases n) (auto split: option.splits prod.splits if_splits)

text \<open>
  What the four functions of the parser do to the program. The loop over the branches starts
  after the split of its first branch.
\<close>

lemma parser_prog:
  shows "\<lbrakk>re_parse_atom g n p = Inr p1; rp_rest p \<noteq> []; rx_prog (rp_regex p) \<noteq> []\<rbrakk> \<Longrightarrow>
      \<exists>r. ast_atom n (rp_rest p) = Some (r, rp_rest p1) \<and> re_len r > 0 \<and>
        rx_prog (rp_regex p1) = rx_prog (rp_regex p) @ re_code r (length (rx_prog (rp_regex p)))"
    and "\<lbrakk>re_parse_concat g n p = Inr p1; rx_prog (rp_regex p) \<noteq> []\<rbrakk> \<Longrightarrow>
      \<exists>rs. ast_concat n (rp_rest p) = Some (rs, rp_rest p1) \<and>
        rx_prog (rp_regex p1) = rx_prog (rp_regex p) @ cat_code rs (length (rx_prog (rp_regex p)))"
    and "\<lbrakk>alternation_loop g n split js cap p = Inr p1;
        rx_prog (rp_regex p) = Q @ [split_inst (int (length Q + 1)) 0]; split = length Q; \<forall>j\<in>set js. j < length Q\<rbrakk> \<Longrightarrow>
      \<exists>alts. ast_alt n (rp_rest p) = Some (alts, rp_rest p1) \<and>
        rx_prog (rp_regex p1) = patch_jumps js (length Q + alt_len alts) Q @ alt_code alts (length Q + alt_len alts) (length Q)"
    and "re_parse_alternation g n p = Inr p1 \<Longrightarrow>
      \<exists>alts. ast_alt (n - 1) (rp_rest p) = Some (alts, rp_rest p1) \<and>
        rx_prog (rp_regex p1) = rx_prog (rp_regex p) @ re_code (R_Group alts) (length (rx_prog (rp_regex p)))"
proof (induction g n p and g n p and g n split js cap p and g n p arbitrary: p1 and p1 and p1 Q and p1
    rule: re_parse_atom_re_parse_concat_alternation_loop_re_parse_alternation.induct)
  case (2 g n p)
  then obtain c r where s: "rp_rest p = c # r" by (cases "rp_rest p") auto
  show ?case
  proof (cases "c = CHR ''(''")
    case False
    then show ?thesis using atom_split [OF "2.prems"(1) s] by fastforce
  next
    case True
    then obtain p2 where p2: "re_parse_alternation g n (p\<lparr>rp_rest := group_head r\<rparr>) = Inr p2"
      and p1: "rp_rest p2 \<noteq> []" "hd (rp_rest p2) = CHR '')''" "p1 = p2\<lparr>rp_rest := tl (rp_rest p2)\<rparr>"
      using "2.prems"(1) s by (auto simp: Let_def group_head_def re_fail_def split: sum.splits if_splits)
    have "\<exists>alts. ast_alt (n - 1) (group_head r) = Some (alts, rp_rest p2) \<and>
        rx_prog (rp_regex p2) = rx_prog (rp_regex p) @ re_code (R_Group alts) (length (rx_prog (rp_regex p)))"
      using "2.IH" [OF s refl True refl, of p2] p2 by (simp add: group_head_def)
    then obtain alts where a: "ast_alt (n - 1) (group_head r) = Some (alts, rp_rest p2)"
      and c: "rx_prog (rp_regex p2) = rx_prog (rp_regex p) @ re_code (R_Group alts) (length (rx_prog (rp_regex p)))" by blast
    have "re_len (R_Group alts) > 0" using alt_len_pos [OF ast_alt_nonempty [OF a]] by simp
    with a c p1 s True show ?thesis by (intro exI [of _ "R_Group alts"]) simp
  qed
next
  case (4 g n p)
  show ?case
  proof (cases "ends_concat (rp_rest p)")
    case True
    then show ?thesis using "4.prems"(1) by simp
  next
    case False
    define start where "start = length (rx_prog (rp_regex p))"
    from "4.prems"(1) False obtain pa where a: "re_parse_atom g n p = Inr pa" by (auto split: sum.splits)
    from False have "rp_rest p \<noteq> []" by (simp add: ends_concat_def)
    from "4.IH"(1) [OF False a this "4.prems"(2)] obtain r where r: "ast_atom n (rp_rest p) = Some (r, rp_rest pa)" "re_len r > 0"
      "rx_prog (rp_regex pa) = rx_prog (rp_regex p) @ re_code r start" by (auto simp: start_def)
    from r(2,3) have ne: "length (rx_prog (rp_regex pa)) \<noteq> start" by (simp add: start_def)
    with "4.prems"(1) False a obtain pb where
      b: "(if starts_quantifier (rp_rest pa) then re_parse_quantifier g start pa else Inr pa) = Inr pb"
      and rest: "re_parse_concat g n pb = Inr p1"
      unfolding start_def by (simp add: Let_def split: sum.splits)
    from quantified_prog [OF b r(3)] "4.prems"(2) obtain q where
      q: "ast_quantified r (rp_rest pa) = Some (q, rp_rest pb)" "rx_prog (rp_regex pb) = rx_prog (rp_regex p) @ re_code q start"
      by (auto simp: start_def)
    from "4.prems"(2) q(2) have "rx_prog (rp_regex pb) \<noteq> []" by simp
    from "4.IH"(2) [OF False a refl refl ne [unfolded start_def] b [unfolded start_def] rest this]
    obtain rs where rs: "ast_concat n (rp_rest pb) = Some (rs, rp_rest p1)"
      "rx_prog (rp_regex p1) = rx_prog (rp_regex pb) @ cat_code rs (length (rx_prog (rp_regex pb)))" by blast
    show ?thesis
      using r q rs False by (intro exI [of _ "q # rs"]) (simp add: start_def)
  qed
next
  case (6 g n split js cap p)
  from "6.prems"(1) obtain pa where a: "re_parse_concat g n p = Inr pa" by (auto split: sum.splits)
  from "6.prems"(2) have ne: "rx_prog (rp_regex p) \<noteq> []" by simp
  from "6.IH"(1) [OF a ne] obtain rs where rs: "ast_concat n (rp_rest p) = Some (rs, rp_rest pa)"
    and pa: "rx_prog (rp_regex pa) = Q @ split_inst (int (length Q + 1)) 0 # cat_code rs (length Q + 1)"
    by (auto simp: "6.prems"(2))
  show ?case
  proof (cases "rp_rest pa = [] \<or> hd (rp_rest pa) \<noteq> CHR ''|''")
    case True
    with "6.prems"(1) a have "p1 = pa\<lparr>rp_regex := close_alternation split js (rp_regex pa)\<rparr>" by auto
    then show ?thesis
      using close_prog [OF pa "6.prems"(4)] rs True
      by (intro exI [of _ "[rs]"]) (simp add: "6.prems"(3) add.assoc)
  next
    case False
    define Q1 where "Q1 = Q @ split_inst (int (length Q + 1)) (int (length Q + 2 + cat_len rs)) # cat_code rs (length Q + 1)"
    from "6.prems"(1) a False obtain jmp rx1 cap1 nxt rx2 where
      j: "re_emit g RE_JMP (rp_regex pa) = Some (jmp, rx1)" and c1: "grow_jumps g (length js) cap = Some cap1"
      and sp: "re_emit g RE_SPLIT rx1 = Some (nxt, rx2)"
      by (auto simp: out_of_memory_def re_fail_def split: option.splits)
    define rx3 where "rx3 = set_inst split (\<lambda>i. i\<lparr>ri_y := int nxt\<rparr>) rx2"
    define rx4 where "rx4 = set_inst nxt (\<lambda>i. i\<lparr>ri_x := int (length (rx_prog rx3))\<rparr>) rx3"
    define pb where "pb = pa\<lparr>rp_rest := tl (rp_rest pa), rp_regex := rx4\<rparr>"
    have loop: "alternation_loop g n nxt (js @ [jmp]) cap1 pb = Inr p1"
      using "6.prems"(1) a False j c1 sp by (simp add: pb_def rx4_def rx3_def Let_def)
    from emit_prog [OF j] emit_prog [OF sp] pa have jmp: "jmp = length Q1" and nxt: "nxt = length Q1 + 1"
      and rx2: "rx_prog rx2 = Q @ split_inst (int (length Q + 1)) 0 # cat_code rs (length Q + 1) @ [jmp_inst 0, split_inst 0 0]"
      by (auto simp: Q1_def jmp_inst_def split_inst_def blank_inst_def)
    have rx3: "rx_prog rx3 = Q1 @ [jmp_inst 0, split_inst 0 0]"
      by (simp add: rx3_def rx2 Q1_def "6.prems"(3) nxt split_inst_def)
    have rx4: "rx_prog rx4 = (Q1 @ [jmp_inst 0]) @ [split_inst (int (length (Q1 @ [jmp_inst 0]) + 1)) 0]"
      by (simp add: rx4_def rx3 nxt nth_append list_update_append split_inst_def)
    have js: "\<forall>j\<in>set (js @ [jmp]). j < length (Q1 @ [jmp_inst 0])"
      using "6.prems"(4) by (auto simp: jmp Q1_def)
    have "\<exists>alts. ast_alt n (rp_rest pb) = Some (alts, rp_rest p1) \<and>
        rx_prog (rp_regex p1) = patch_jumps (js @ [jmp]) (length (Q1 @ [jmp_inst 0]) + alt_len alts) (Q1 @ [jmp_inst 0])
          @ alt_code alts (length (Q1 @ [jmp_inst 0]) + alt_len alts) (length (Q1 @ [jmp_inst 0]))"
      using "6.IH"(2) [OF a False j refl c1 sp refl refl refl, of p1 "Q1 @ [jmp_inst 0]"] loop rx4 js nxt
      by (simp add: pb_def rx4_def rx3_def)
    then obtain alts where alts: "ast_alt n (tl (rp_rest pa)) = Some (alts, rp_rest p1)"
      and p1: "rx_prog (rp_regex p1) = patch_jumps (js @ [jmp]) (length Q1 + 1 + alt_len alts) (Q1 @ [jmp_inst 0])
          @ alt_code alts (length Q1 + 1 + alt_len alts) (length Q1 + 1)"
      by (auto simp: pb_def)
    have ne': "alts \<noteq> []" by (rule ast_alt_nonempty [OF alts])
    have len: "length Q1 + 1 + alt_len alts = length Q + alt_len (rs # alts)" "length Q1 + 1 = length Q + 2 + cat_len rs"
      using ne' by (simp_all add: Q1_def)
    have js': "\<forall>j\<in>set js. j < length Q1" using "6.prems"(4) by (auto simp: Q1_def)
    have "rx_prog (rp_regex p1) = patch_jumps js (length Q + alt_len (rs # alts)) Q
          @ alt_code (rs # alts) (length Q + alt_len (rs # alts)) (length Q)"
      unfolding p1 jmp patch_jumps_snoc [OF js'] unfolding len
      using patch_jumps_append [OF "6.prems"(4)] ne' by (simp add: Q1_def jmp_inst_def blank_inst_def add.assoc)
    with alts rs False ne' show ?thesis by (intro exI [of _ "rs # alts"]) simp
  qed
next
  case (8 g n p)
  from "8.prems" obtain split rx where e: "re_emit g RE_SPLIT (rp_regex p) = Some (split, rx)"
    by (auto simp: out_of_memory_def re_fail_def split: option.splits)
  define pa where "pa = p\<lparr>rp_regex := set_inst split (\<lambda>i. i\<lparr>ri_x := int (length (rx_prog rx))\<rparr>) rx\<rparr>"
  have loop: "alternation_loop g n split [] 0 pa = Inr p1" using "8.prems" e by (simp add: pa_def)
  have pa: "rx_prog (rp_regex pa) = rx_prog (rp_regex p) @ [split_inst (int (length (rx_prog (rp_regex p)) + 1)) 0]"
    using emit_prog [OF e] by (simp add: pa_def split_inst_def blank_inst_def)
  have "\<exists>alts. ast_alt n (rp_rest pa) = Some (alts, rp_rest p1) \<and>
      rx_prog (rp_regex p1) = patch_jumps [] (length (rx_prog (rp_regex p)) + alt_len alts) (rx_prog (rp_regex p))
        @ alt_code alts (length (rx_prog (rp_regex p)) + alt_len alts) (length (rx_prog (rp_regex p)))"
    using "8.IH" [OF e refl, of p1 "rx_prog (rp_regex p)"] loop pa emit_prog [OF e] by (simp add: pa_def)
  then show ?case by (simp add: patch_jumps_def pa_def)
qed auto

end
