(* ===== verification/Regex_Machine.thy ===== *)
theory Regex_Machine
  imports Regex_Compile
begin

text \<open>
  The machine on the code of a tree: it can match from the start of the code exactly if a pair of
  the tree's relation leads to a position from which it can match at the end of the code.
\<close>

section \<open>Searching without a budget\<close>

text \<open>Some choice of branches reaches the end within \<open>n\<close> instructions.\<close>

fun can_match :: "re_inst list \<Rightarrow> string \<Rightarrow> nat \<Rightarrow> nat \<Rightarrow> nat \<Rightarrow> bool" where
  "can_match P t 0 pc sp = False"
| "can_match P t (Suc n) pc sp =
     (case run_next P t pc sp of
        Dead \<Rightarrow> False
      | Found \<Rightarrow> True
      | Go pc1 sp1 \<Rightarrow> can_match P t n pc1 sp1
      | Branch x y \<Rightarrow> can_match P t n x sp \<or> can_match P t n y sp)"

lemma can_match_mono: "\<lbrakk>can_match P t n pc sp; n \<le> m\<rbrakk> \<Longrightarrow> can_match P t m pc sp"
proof (induction n arbitrary: pc sp m)
  case (Suc n)
  then obtain k where "m = Suc k" "n \<le> k" by (cases m) auto
  with Suc show ?case by (auto split: re_next.splits)
qed simp

lemma can_match_Suc: "can_match P t n pc sp \<Longrightarrow> can_match P t (Suc n) pc sp"
  by (erule can_match_mono) simp

lemma run_finds: "fst (re_run P t pc sp b) \<Longrightarrow> \<exists>n. can_match P t n pc sp"
proof (induction P t pc sp b rule: re_run.induct)
  case (1 P t pc sp b)
  have pos: "\<not> b \<le> 0" using "1.prems" by (auto simp: re_run.simps [of P t pc sp b])
  show ?case
  proof (cases "run_next P t pc sp")
    case Dead
    with "1.prems" pos show ?thesis by (simp add: re_run.simps [of P t pc sp b])
  next
    case Found
    then have "can_match P t (Suc 0) pc sp" by simp
    then show ?thesis ..
  next
    case (Go pc1 sp1)
    with "1.prems" pos "1.IH"(1) [OF pos Go] obtain n where "can_match P t n pc1 sp1"
      by (auto simp: re_run.simps [of P t pc sp b])
    with Go have "can_match P t (Suc n) pc sp" by simp
    then show ?thesis ..
  next
    case (Branch x y)
    obtain r b1 where x: "re_run P t x sp (b - 1) = (r, b1)" by fastforce
    have "\<exists>n. can_match P t n x sp \<or> can_match P t n y sp"
    proof (cases r)
      case True
      with x "1.IH"(2) [OF pos Branch] show ?thesis by auto
    next
      case False
      with x "1.prems" pos Branch have "fst (re_run P t y sp b1)" by (simp add: re_run.simps [of P t pc sp b])
      with "1.IH"(3) [OF pos Branch x [symmetric] False] show ?thesis by auto
    qed
    then obtain n where "can_match P t n x sp \<or> can_match P t n y sp" ..
    with Branch have "can_match P t (Suc n) pc sp" by simp
    then show ?thesis ..
  qed
qed

lemma run_left: "snd (re_run P t pc sp b) < b"
proof (induction P t pc sp b rule: re_run.induct)
  case (1 P t pc sp b)
  show ?case
  proof (cases "b \<le> 0")
    case False
    show ?thesis
    proof (cases "run_next P t pc sp")
      case (Go pc1 sp1)
      with "1.IH"(1) [OF False Go] False show ?thesis by (simp add: re_run.simps [of P t pc sp b])
    next
      case (Branch x y)
      obtain r b1 where x: "re_run P t x sp (b - 1) = (r, b1)" by fastforce
      with "1.IH"(2) [OF False Branch] "1.IH"(3) [OF False Branch x [symmetric]] Branch False
      show ?thesis by (cases r) (simp_all add: re_run.simps [of P t pc sp b])
    qed (simp_all add: re_run.simps [of P t pc sp b] False)
  qed (simp add: re_run.simps [of P t pc sp b])
qed

lemma run_misses: "re_run P t pc sp b = (False, left) \<Longrightarrow> left \<ge> 0 \<Longrightarrow> \<not> can_match P t n pc sp"
proof (induction P t pc sp b arbitrary: n left rule: re_run.induct)
  case (1 P t pc sp b)
  have pos: "\<not> b \<le> 0" using "1.prems" by (auto simp: re_run.simps [of P t pc sp b])
  show ?case
  proof (cases n)
    case (Suc m)
    show ?thesis
    proof (cases "run_next P t pc sp")
      case Dead
      then show ?thesis by (simp add: Suc)
    next
      case Found
      with "1.prems" pos show ?thesis by (simp add: re_run.simps [of P t pc sp b])
    next
      case (Go pc1 sp1)
      with "1.prems" pos have "re_run P t pc1 sp1 (b - 1) = (False, left)" by (simp add: re_run.simps [of P t pc sp b])
      with "1.IH"(1) [OF pos Go] "1.prems"(2) Go show ?thesis by (simp add: Suc)
    next
      case (Branch x y)
      obtain r b1 where x: "re_run P t x sp (b - 1) = (r, b1)" by fastforce
      with "1.prems" pos Branch have y: "\<not> r" "re_run P t y sp b1 = (False, left)"
        by (auto simp: re_run.simps [of P t pc sp b] split: if_splits)
      have "left < b1" using run_left [of P t y sp b1] y(2) by simp
      with "1.IH"(2) [OF pos Branch, of b1 m] "1.IH"(3) [OF pos Branch x [symmetric] y(1) y(2) "1.prems"(2), of m] x y(1) "1.prems"(2)
      show ?thesis by (simp add: Suc Branch)
    qed
  qed simp
qed

section \<open>Stretches of code\<close>

text \<open>\<open>runs P t b e R\<close>: between the places \<open>b\<close> and \<open>e\<close> the program behaves like the relation \<open>R\<close>.\<close>

definition runs :: "re_inst list \<Rightarrow> string \<Rightarrow> nat \<Rightarrow> nat \<Rightarrow> (nat \<times> nat) set \<Rightarrow> bool" where
  "runs P t b e R \<longleftrightarrow>
     (\<forall>n i. can_match P t n b i \<longrightarrow> (\<exists>j. (i, j) \<in> R \<and> can_match P t n e j)) \<and>
     (\<forall>i j n. (i, j) \<in> R \<longrightarrow> can_match P t n e j \<longrightarrow> (\<exists>m. can_match P t m b i))"

lemma runsI:
  assumes "\<And>n i. can_match P t n b i \<Longrightarrow> \<exists>j. (i, j) \<in> R \<and> can_match P t n e j"
    and "\<And>i j n. \<lbrakk>(i, j) \<in> R; can_match P t n e j\<rbrakk> \<Longrightarrow> \<exists>m. can_match P t m b i"
  shows "runs P t b e R"
  unfolding runs_def using assms by blast

lemma runs_out: "\<lbrakk>runs P t b e R; can_match P t n b i\<rbrakk> \<Longrightarrow> \<exists>j. (i, j) \<in> R \<and> can_match P t n e j"
  by (simp add: runs_def)

lemma runs_in: "\<lbrakk>runs P t b e R; (i, j) \<in> R; can_match P t n e j\<rbrakk> \<Longrightarrow> \<exists>m. can_match P t m b i"
  unfolding runs_def by blast

lemma runs_id: "runs P t b b Id"
  by (rule runsI) auto

lemma runs_seq:
  assumes "runs P t b e R" "runs P t e f S"
  shows "runs P t b f (R O S)"
proof (rule runsI)
  fix n i assume "can_match P t n b i"
  then obtain j where "(i, j) \<in> R" "can_match P t n e j" using runs_out [OF assms(1)] by blast
  then show "\<exists>j. (i, j) \<in> R O S \<and> can_match P t n f j" using runs_out [OF assms(2)] by blast
next
  fix i j n assume "(i, j) \<in> R O S" "can_match P t n f j"
  then obtain k m where "(i, k) \<in> R" "can_match P t m e k" using runs_in [OF assms(2)] by blast
  then show "\<exists>m. can_match P t m b i" using runs_in [OF assms(1)] by blast
qed

lemma can_match_step: "run_next P t pc sp = Go pc1 sp1 \<Longrightarrow> can_match P t n pc1 sp1 \<Longrightarrow> \<exists>m. can_match P t m pc sp"
  by (rule exI [of _ "Suc n"]) simp

lemma can_match_branch:
  "\<lbrakk>run_next P t pc sp = Branch x y; can_match P t n x sp \<or> can_match P t n y sp\<rbrakk> \<Longrightarrow> \<exists>m. can_match P t m pc sp"
  by (rule exI [of _ "Suc n"]) simp

text \<open>One instruction that goes on to the next.\<close>

lemma runs_one:
  assumes "\<And>i. run_next P t b i = (if q i then Go (b + 1) (f i) else Dead)"
  shows "runs P t b (b + 1) {(i, f i) |i. q i}"
proof (rule runsI)
  fix n i assume c: "can_match P t n b i"
  then obtain m where n: "n = Suc m" by (cases n) auto
  with c assms have "q i" "can_match P t m (b + 1) (f i)" by (auto split: if_splits)
  then show "\<exists>j. (i, j) \<in> {(i, f i) |i. q i} \<and> can_match P t n (b + 1) j"
    using n can_match_mono [of P t m "b + 1" "f i" n] by auto
next
  fix i j n assume "(i, j) \<in> {(i, f i) |i. q i}" "can_match P t n (b + 1) j"
  then show "\<exists>m. can_match P t m b i" using assms by (auto intro: can_match_step)
qed

text \<open>A choice between a stretch that comes next and the end.\<close>

lemma runs_branch:
  assumes s: "\<And>i. run_next P t b i = Branch x y" and r: "runs P t x e R" "runs P t y e S"
  shows "runs P t b e (R \<union> S)"
proof (rule runsI)
  fix n i assume c: "can_match P t n b i"
  then obtain m where n: "n = Suc m" by (cases n) auto
  with c s have "can_match P t m x i \<or> can_match P t m y i" by simp
  then obtain j where "(i, j) \<in> R \<union> S" "can_match P t m e j" using runs_out [OF r(1)] runs_out [OF r(2)] by blast
  then show "\<exists>j. (i, j) \<in> R \<union> S \<and> can_match P t n e j" unfolding n using can_match_Suc by blast
next
  fix i j n assume "(i, j) \<in> R \<union> S" "can_match P t n e j"
  then obtain m where "can_match P t m x i \<or> can_match P t m y i" using runs_in [OF r(1)] runs_in [OF r(2)] by blast
  then show "\<exists>m. can_match P t m b i" by (rule can_match_branch [OF s])
qed

lemma runs_jump: "(\<And>i. run_next P t b i = Go e i) \<Longrightarrow> runs P t b e Id"
proof (rule runsI)
  fix n i assume s: "\<And>i. run_next P t b i = Go e i" and c: "can_match P t n b i"
  then obtain m where n: "n = Suc m" by (cases n) auto
  with c s have "can_match P t m e i" by simp
  then show "\<exists>j. (i, j) \<in> Id \<and> can_match P t n e j" unfolding n using can_match_Suc by blast
qed (auto intro: can_match_step)

text \<open>Loops: by the number of instructions one way, by the number of rounds the other.\<close>

lemma runs_star:
  assumes s: "\<And>i. run_next P t b i = Branch x e" and r: "runs P t x k R" and j: "\<And>i. run_next P t k i = Go b i"
  shows "runs P t b e (R\<^sup>*)"
proof (rule runsI)
  fix n i
  show "can_match P t n b i \<Longrightarrow> \<exists>j. (i, j) \<in> R\<^sup>* \<and> can_match P t n e j"
  proof (induction n arbitrary: i rule: less_induct)
    case (less n)
    then obtain m where n: "n = Suc m" by (cases n) auto
    with less.prems s consider "can_match P t m x i" | "can_match P t m e i" by auto
    then show ?case
    proof cases
      case 1
      then obtain i1 where i1: "(i, i1) \<in> R" "can_match P t m k i1" using runs_out [OF r] by blast
      then obtain m1 where m: "m = Suc m1" by (cases m) auto
      with i1(2) j have "can_match P t m1 b i1" by simp
      with less.IH [of m1 i1] n m obtain l where "(i1, l) \<in> R\<^sup>*" "can_match P t m1 e l" by auto
      moreover have "(i, l) \<in> R\<^sup>*" using i1(1) calculation(1) by (rule converse_rtrancl_into_rtrancl)
      ultimately show ?thesis unfolding n m using can_match_Suc by blast
    next
      case 2
      then show ?thesis unfolding n using can_match_Suc by blast
    qed
  qed
next
  fix i l n
  show "(i, l) \<in> R\<^sup>* \<Longrightarrow> can_match P t n e l \<Longrightarrow> \<exists>m. can_match P t m b i"
  proof (induction rule: converse_rtrancl_induct)
    case base
    then show ?case using can_match_branch [OF s] by blast
  next
    case (step i i1)
    then obtain m where "can_match P t m b i1" by blast
    then obtain m where "can_match P t m k i1" using can_match_step [OF j] by blast
    then obtain m where "can_match P t m x i" using runs_in [OF r step(1)] by blast
    then show ?case using can_match_branch [OF s] by blast
  qed
qed

lemma runs_plus:
  assumes r: "runs P t b k R" and s: "\<And>i. run_next P t k i = Branch b e"
  shows "runs P t b e (R O R\<^sup>*)"
proof (rule runsI)
  fix n i
  show "can_match P t n b i \<Longrightarrow> \<exists>j. (i, j) \<in> R O R\<^sup>* \<and> can_match P t n e j"
  proof (induction n arbitrary: i rule: less_induct)
    case (less n)
    then obtain i1 where i1: "(i, i1) \<in> R" "can_match P t n k i1" using runs_out [OF r] by blast
    then obtain m where n: "n = Suc m" by (cases n) auto
    with i1(2) s consider "can_match P t m b i1" | "can_match P t m e i1" by auto
    then show ?case
    proof cases
      case 1
      with less.IH [of m i1] n obtain l where "(i1, l) \<in> R O R\<^sup>*" "can_match P t m e l" by auto
      moreover have "(i, l) \<in> R O R\<^sup>*"
        using i1(1) calculation(1) by (blast intro: converse_rtrancl_into_rtrancl)
      ultimately show ?thesis unfolding n using can_match_Suc by blast
    next
      case 2
      then show ?thesis using i1(1) unfolding n using can_match_Suc by blast
    qed
  qed
next
  fix i l n assume c: "(i, l) \<in> R O R\<^sup>*" "can_match P t n e l"
  then obtain i1 where i1: "(i, i1) \<in> R" "(i1, l) \<in> R\<^sup>*" by blast
  from i1(2) have "\<exists>m. can_match P t m k i1"
  proof (induction rule: converse_rtrancl_induct)
    case base
    then show ?case using c(2) can_match_branch [OF s] by blast
  next
    case (step i i1)
    then obtain m where "can_match P t m k i1" by blast
    then obtain m where "can_match P t m b i" using runs_in [OF r step(1)] by blast
    then show ?case using can_match_branch [OF s] by blast
  qed
  then show "\<exists>m. can_match P t m b i" using runs_in [OF r i1(1)] by blast
qed


text \<open>The mandatory and the optional copies of a counted repetition.\<close>

section \<open>Code in a program\<close>

text \<open>\<open>placed f P b c\<close>: the code \<open>c\<close> is at \<open>b\<close>, patched for the failing instruction at \<open>f\<close>.\<close>

definition placed :: "nat \<Rightarrow> re_inst list \<Rightarrow> nat \<Rightarrow> re_inst list \<Rightarrow> bool" where
  "placed f P b c \<longleftrightarrow> b + length c \<le> length P \<and> (\<forall>k < length c. P ! (b + k) = patch_inst f (c ! k))"

lemma placed_append: "placed f P b (c @ d) \<longleftrightarrow> placed f P b c \<and> placed f P (b + length c) d"
proof
  assume p: "placed f P b (c @ d)"
  then have all: "P ! (b + k) = patch_inst f ((c @ d) ! k)" if "k < length c + length d" for k
    using that by (auto simp: placed_def)
  have "placed f P b c" unfolding placed_def using p all by (force simp: placed_def nth_append)
  moreover have "P ! (b + length c + k) = patch_inst f (d ! k)" if "k < length d" for k
    using all [of "length c + k"] that by (simp add: add.assoc)
  then have "placed f P (b + length c) d" using p by (auto simp: placed_def)
  ultimately show "placed f P b c \<and> placed f P (b + length c) d" ..
next
  assume p: "placed f P b c \<and> placed f P (b + length c) d"
  have "P ! (b + k) = patch_inst f ((c @ d) ! k)" if "k < length c + length d" for k
  proof (cases "k < length c")
    case True
    with p show ?thesis by (simp add: placed_def nth_append)
  next
    case False
    with that have "k - length c < length d" by simp
    with p have "P ! (b + length c + (k - length c)) = patch_inst f (d ! (k - length c))" by (simp add: placed_def)
    with False show ?thesis by (simp add: nth_append)
  qed
  with p show "placed f P b (c @ d)" by (simp add: placed_def)
qed

lemma placed_Cons: "placed f P b (i # c) \<longleftrightarrow> b < length P \<and> P ! b = patch_inst f i \<and> placed f P (b + 1) c"
  using placed_append [of f P b "[i]" c] by (auto simp: placed_def)

lemma target_of_int: "n < 2 ^ 64 \<Longrightarrow> target_of (int n) = n"
  by (simp add: target_of_def)

lemma patch_simps [simp]:
  "patch_inst f (char_inst c) = char_inst c" "patch_inst f (class_inst bm) = class_inst bm"
  "patch_inst f (jmp_inst x) = jmp_inst x" "opc \<noteq> RE_SPLIT \<Longrightarrow> patch_inst f (blank_inst opc) = blank_inst opc"
  "patch_inst f (split_inst (int m) (int n)) = split_inst (int m) (int n)"
  "patch_inst f (split_inst (int m) (- 1)) = split_inst (int m) (int f)"
  by (simp_all add: patch_inst_def char_inst_def class_inst_def jmp_inst_def blank_inst_def split_inst_def)

lemma next_split:
  "\<lbrakk>b < length P; P ! b = split_inst (int m) (int n); m < 2 ^ 64; n < 2 ^ 64\<rbrakk> \<Longrightarrow> run_next P t b i = Branch m n"
  by (simp add: run_next_def run_inst_def split_inst_def blank_inst_def target_of_int)

lemma next_jmp:
  "\<lbrakk>b < length P; P ! b = jmp_inst (int m); m < 2 ^ 64\<rbrakk> \<Longrightarrow> run_next P t b i = Go m i"
  by (simp add: run_next_def run_inst_def jmp_inst_def blank_inst_def target_of_int)

text \<open>A layout keeps the meaning of the code it repeats, wherever that code is placed.\<close>

definition means :: "nat \<Rightarrow> re_inst list \<Rightarrow> string \<Rightarrow> re_code \<Rightarrow> nat \<Rightarrow> (nat \<times> nat) set \<Rightarrow> bool" where
  "means f P t c l R \<longleftrightarrow> (\<forall>b. placed f P b (c b) \<longrightarrow> runs P t b (b + l) R)"

lemma meansD: "\<lbrakk>means f P t c l R; placed f P b (c b); e = b + l\<rbrakk> \<Longrightarrow> runs P t b e R"
  by (simp add: means_def)

lemma means_opt:
  assumes "means f P t c l R" "\<And>b. length (c b) = l" "length P < 2 ^ 64"
  shows "means f P t (opt_code c l) (l + 1) (R \<union> Id)"
  unfolding means_def
proof (intro allI impI)
  fix b assume p: "placed f P b (opt_code c l b)"
  then have s: "b < length P" "P ! b = split_inst (int (b + 1)) (int (b + 1 + l))" "placed f P (b + 1) (c (b + 1))"
    by (simp_all only: opt_code_def placed_Cons patch_simps)
  then have "b + 1 + l \<le> length P" using assms(2) by (simp add: placed_def)
  then have n: "run_next P t b i = Branch (b + 1) (b + 1 + l)" for i
    using assms(3) by (intro next_split [OF s(1,2)]) auto
  show "runs P t b (b + (l + 1)) (R \<union> Id)"
    using runs_branch [OF n meansD [OF assms(1) s(3)] runs_id] by (simp add: add.commute)
qed

lemma means_star:
  assumes "means f P t c l R" "\<And>b. length (c b) = l" "length P < 2 ^ 64"
  shows "means f P t (star_code c l) (l + 2) (R\<^sup>*)"
  unfolding means_def
proof (intro allI impI)
  fix b assume p: "placed f P b (star_code c l b)"
  then have s: "b < length P" "P ! b = split_inst (int (b + 1)) (int (b + l + 2))" "placed f P (b + 1) (c (b + 1))"
    and j: "b + 1 + l < length P" "P ! (b + 1 + l) = jmp_inst (int b)"
    by (simp_all only: star_code_def placed_Cons placed_append patch_simps assms(2))
  have n: "run_next P t b i = Branch (b + 1) (b + l + 2)" for i
    using j(1) assms(3) by (intro next_split [OF s(1,2)]) auto
  have k: "run_next P t (b + 1 + l) i = Go b i" for i
    using s(1) assms(3) by (intro next_jmp [OF j]) auto
  show "runs P t b (b + (l + 2)) (R\<^sup>*)"
    using runs_star [OF n meansD [OF assms(1) s(3) refl] k] by (simp add: add.assoc)
qed

lemma means_plus:
  assumes "means f P t c l R" "\<And>b. length (c b) = l" "length P < 2 ^ 64"
  shows "means f P t (plus_code c l) (l + 1) (R O R\<^sup>*)"
  unfolding means_def
proof (intro allI impI)
  fix b assume p: "placed f P b (plus_code c l b)"
  then have c: "placed f P b (c b)" and s: "b + l < length P" "P ! (b + l) = split_inst (int b) (int (b + l + 1))"
    by (simp_all only: plus_code_def placed_Cons placed_append patch_simps assms(2))
  have n: "run_next P t (b + l) i = Branch b (b + l + 1)" for i
    using s(1) assms(3) by (intro next_split [OF s]) auto
  show "runs P t b (b + (l + 1)) (R O R\<^sup>*)"
    using runs_plus [OF meansD [OF assms(1) c refl] n] by (simp add: add.assoc)
qed

lemma means_copies:
  assumes "means f P t c l R" "\<And>b. length (c b) = l"
  shows "means f P t (copies_code c l k) (k * l) (R ^^ k)"
proof (induction k)
  case 0
  show ?case by (simp add: means_def runs_id)
next
  case (Suc k)
  show ?case
    unfolding means_def
  proof (intro allI impI)
    fix b assume "placed f P b (copies_code c l (Suc k) b)"
    then have p: "placed f P b (c b)" "placed f P (b + l) (copies_code c l k (b + l))"
      by (simp_all add: placed_append assms(2))
    have "runs P t b (b + Suc k * l) (R O R ^^ k)"
      by (rule runs_seq [OF meansD [OF assms(1) p(1) refl] meansD [OF Suc p(2)]]) (simp add: add.assoc)
    then show "runs P t b (b + Suc k * l) (R ^^ Suc k)" by (simp add: relpow_commute)
  qed
qed

lemma relpow_upto_Suc: "(\<Union>i\<le>Suc k. R ^^ i) = R O (\<Union>i\<le>k. R ^^ i) \<union> Id" for R :: "('a \<times> 'a) set"
proof -
  have "(\<Union>i\<le>Suc k. R ^^ i) = R ^^ 0 \<union> (\<Union>i\<le>k. R ^^ Suc i)"
    unfolding atMost_Suc_eq_insert_0 by simp
  also have "(\<lambda>i. R ^^ Suc i) = (\<lambda>i. R O R ^^ i)" by (rule ext) (simp add: relpow_commute)
  also have "R ^^ 0 \<union> (\<Union>i\<le>k. R O R ^^ i) = R O (\<Union>i\<le>k. R ^^ i) \<union> Id" unfolding relpow.simps(1) by blast
  finally show ?thesis .
qed

lemma means_opts:
  assumes "means f P t c l R" "\<And>b. length (c b) = l" "length P < 2 ^ 64"
  shows "means f P t (opts_code c l k) (k * (l + 1)) (\<Union>i\<le>k. R ^^ i)"
proof (induction k)
  case 0
  show ?case by (simp add: means_def runs_id)
next
  case (Suc k)
  show ?case
    unfolding means_def
  proof (intro allI impI)
    fix b assume p: "placed f P b (opts_code c l (Suc k) b)"
    define e where "e = b + Suc k * (l + 1)"
    from p have s: "b < length P" "P ! b = split_inst (int (b + 1)) (int e)" "placed f P (b + 1) (c (b + 1))"
      and q: "placed f P (b + 1 + l) (opts_code c l k (b + l + 1))"
      by (simp_all only: opts_code.simps placed_Cons placed_append patch_simps assms(2) e_def)
    have "e \<le> length P" using q opts_length [of c l k "b + l + 1", OF assms(2)] by (simp add: placed_def e_def)
    then have n: "run_next P t b i = Branch (b + 1) e" for i
      using s(1) assms(3) by (intro next_split [OF s(1,2)]) auto
    have "runs P t (b + l + 1) e (\<Union>i\<le>k. R ^^ i)"
      using q by (intro meansD [OF Suc]) (simp_all add: e_def add.commute add.left_commute)
    then have "runs P t b e (R O (\<Union>i\<le>k. R ^^ i) \<union> Id)"
      using runs_branch [OF n runs_seq [OF meansD [OF assms(1) s(3) refl]] runs_id] by (simp add: add.commute add.left_commute)
    then show "runs P t b (b + Suc k * (l + 1)) (\<Union>i\<le>Suc k. R ^^ i)" unfolding relpow_upto_Suc e_def .
  qed
qed


lemma relpow_range:
  fixes R :: "('a \<times> 'a) set"
  assumes "mn \<le> m"
  shows "R ^^ mn O (\<Union>i\<le>m - mn. R ^^ i) = (\<Union>k\<in>{mn..m}. R ^^ k)"
proof -
  have "{mn..m} = (\<lambda>i. mn + i) ` {..m - mn}" using assms by (simp add: atMost_atLeast0)
  then have "(\<Union>k\<in>{mn..m}. R ^^ k) = (\<Union>i\<le>m - mn. R ^^ mn O R ^^ i)" by (simp add: relpow_add)
  then show ?thesis by (simp add: relcomp_UNION_distrib)
qed

lemma means_append:
  assumes "means f P t c l R" "\<And>b. length (c b) = l" "means f P t d m S"
  shows "means f P t (\<lambda>b. c b @ d (b + l)) (l + m) (R O S)"
  unfolding means_def
  using runs_seq [OF meansD [OF assms(1) _ refl] meansD [OF assms(3)]] assms(2) by (simp add: placed_append add.assoc)

definition rep_rel :: "(nat \<times> nat) set \<Rightarrow> nat \<Rightarrow> nat option \<Rightarrow> (nat \<times> nat) set" where
  "rep_rel R mn mx = (case mx of None \<Rightarrow> R ^^ mn O R\<^sup>* | Some m \<Rightarrow> (\<Union>k\<in>{mn..m}. R ^^ k))"

lemma means_rep:
  assumes c: "means f P t c l R" and len: "\<And>b. length (c b) = l" and P: "length P < 2 ^ 64"
    and mx: "\<forall>m. mx = Some m \<longrightarrow> mn \<le> m"
  shows "means f P t (rep_code c l mn mx) (rep_len l mn mx) (rep_rel R mn mx)"
proof -
  have cp: "\<And>b. length (copies_code c l mn b) = mn * l" by (rule copies_length) (rule len)
  consider "mn = 0" "mx = Some 1" | "mn = 0" "mx = None" | "mn = 1" "mx = None"
    | "\<not> (mn = 0 \<and> mx = Some 1)" "\<not> (mn = 0 \<and> mx = None)" "\<not> (mn = 1 \<and> mx = None)" by blast
  then show ?thesis
  proof cases
    case 1
    have "R \<union> Id = (\<Union>k\<in>{0..1::nat}. R ^^ k)" by (simp add: atLeast0_atMost_Suc Un_commute)
    with 1 means_opt [OF c len P] show ?thesis
      by (simp add: rep_code_def [abs_def] rep_len_def rep_rel_def)
  next
    case 2
    with means_star [OF c len P] show ?thesis by (simp add: rep_code_def [abs_def] rep_len_def rep_rel_def)
  next
    case 3
    with means_plus [OF c len P] show ?thesis by (simp add: rep_code_def [abs_def] rep_len_def rep_rel_def)
  next
    case 4
    show ?thesis
    proof (cases mx)
      case None
      with 4 means_append [OF means_copies [OF c len] cp means_star [OF c len P]]
      show ?thesis by (simp add: rep_code_def [abs_def] rep_len_def rep_rel_def)
    next
      case (Some m)
      with mx have le: "mn \<le> m" by simp
      have code: "rep_code c l mn mx = (\<lambda>b. copies_code c l mn b @ opts_code c l (m - mn) (b + mn * l))"
        "rep_len l mn mx = mn * l + (m - mn) * (l + 1)"
        using 4 Some unfolding rep_code_def [abs_def] rep_len_def by auto
      show ?thesis
        unfolding code rep_rel_def option.case relpow_range [OF le, symmetric] unfolding Some option.case
          code [unfolded Some] relpow_range [OF le, symmetric]
        by (rule means_append [OF means_copies [OF c len] cp means_opts [OF c len P]])
    qed
  qed
qed

section \<open>Trees\<close>

text \<open>The bounds of every repetition are in order.\<close>

fun re_ok :: "re \<Rightarrow> bool" and cat_ok :: "re list \<Rightarrow> bool" and alt_ok :: "re list list \<Rightarrow> bool" where
  "re_ok (R_Group alts) = (alts \<noteq> [] \<and> alt_ok alts)"
| "re_ok (R_Rep r mn mx) = (re_ok r \<and> (case mx of None \<Rightarrow> True | Some m \<Rightarrow> mn \<le> m))"
| "re_ok r = True"
| "cat_ok [] = True"
| "cat_ok (r # rs) = (re_ok r \<and> cat_ok rs)"
| "alt_ok [] = True"
| "alt_ok (A # As) = (cat_ok A \<and> alt_ok As)"

lemma placed_one: "placed f P b [i] \<Longrightarrow> b < length P \<and> P ! b = patch_inst f i"
  by (simp add: placed_Cons)

lemma runs_inst:
  assumes "placed f P b [inst]" "patch_inst f inst = inst"
    and "\<And>i. run_inst inst t b i = (if q i then Go (b + 1) (h i) else Dead)"
  shows "runs P t b (b + 1) {(i, h i) |i. q i}"
  using placed_one [OF assms(1)] assms(2,3) by (intro runs_one) (simp add: run_next_def)

lemma run_insts:
  "run_inst (char_inst c) t b i = (if i < length t \<and> t ! i = c then Go (b + 1) (i + 1) else Dead)"
  "run_inst (class_inst bm) t b i = (if i < length t \<and> in_class bm (t ! i) then Go (b + 1) (i + 1) else Dead)"
  "run_inst (blank_inst RE_ANY) t b i = (if i < length t \<and> t ! i \<noteq> CHR 0x0A then Go (b + 1) (i + 1) else Dead)"
  "run_inst (blank_inst RE_BOL) t b i = (if i = 0 then Go (b + 1) i else Dead)"
  "run_inst (blank_inst RE_EOL) t b i = (if i = length t then Go (b + 1) i else Dead)"
  "run_inst (blank_inst RE_WORDB) t b i = (if word_before t i \<noteq> word_after t i then Go (b + 1) i else Dead)"
  "run_inst (blank_inst RE_NWORDB) t b i = (if word_before t i = word_after t i then Go (b + 1) i else Dead)"
  by (simp_all add: run_inst_def go_if_def char_inst_def class_inst_def blank_inst_def)

lemma denote_atoms:
  "denote t R_Bol = {(i, i) |i. i = 0}" "denote t R_Eol = {(i, i) |i. i = length t}"
  by auto

lemma runs_branch_dead:
  assumes s: "\<And>i. run_next P t b i = Branch x f" and d: "\<And>i. run_next P t f i = Dead" and r: "runs P t x e R"
  shows "runs P t b e R"
proof (rule runsI)
  fix n i assume c: "can_match P t n b i"
  then obtain m where n: "n = Suc m" by (cases n) auto
  with c s have "can_match P t m x i \<or> can_match P t m f i" by simp
  moreover have "\<not> can_match P t m f i" by (cases m) (simp_all add: d)
  ultimately obtain j where "(i, j) \<in> R" "can_match P t m e j" using runs_out [OF r] by blast
  then show "\<exists>j. (i, j) \<in> R \<and> can_match P t n e j" unfolding n using can_match_Suc by blast
next
  fix i j n assume "(i, j) \<in> R" "can_match P t n e j"
  then show "\<exists>m. can_match P t m b i" using runs_in [OF r] can_match_branch [OF s] by blast
qed

text \<open>The code of a tree behaves like the tree, in any program that fails at \<open>f\<close>.\<close>

lemma code_runs:
  assumes P: "length P < 2 ^ 64" and f: "f < length P" and d: "\<And>i. run_next P t f i = Dead"
  shows "\<lbrakk>re_ok r; placed f P b (re_code r b)\<rbrakk> \<Longrightarrow> runs P t b (b + re_len r) (denote t r)"
    and "\<lbrakk>cat_ok rs; placed f P b (cat_code rs b)\<rbrakk> \<Longrightarrow> runs P t b (b + cat_len rs) (denote_cat t rs)"
    and "\<lbrakk>As \<noteq> []; alt_ok As; placed f P b (alt_code As e b); e = b + alt_len As; e \<le> length P\<rbrakk> \<Longrightarrow>
      runs P t b e (denote_alt t As)"
proof (induction r b and rs b and As e b rule: re_code_cat_code_alt_code.induct)
  case (1 c b)
  then show ?case using runs_inst [OF _ _ run_insts(1), of f P b] by (simp)
next
  case (2 b)
  then show ?case using runs_inst [OF _ _ run_insts(3), of f P b] by (simp)
next
  case (3 bm b)
  then show ?case using runs_inst [OF _ _ run_insts(2), of f P b] by (simp)
next
  case (4 b)
  then show ?case using runs_inst [OF _ _ run_insts(4), of f P b] unfolding denote_atoms denote.simps by simp
next
  case (5 b)
  then show ?case using runs_inst [OF _ _ run_insts(5), of f P b] unfolding denote_atoms denote.simps by simp
next
  case (6 b)
  then show ?case using runs_inst [OF _ _ run_insts(6), of f P b] unfolding denote_atoms denote.simps by simp
next
  case (7 b)
  then show ?case using runs_inst [OF _ _ run_insts(7), of f P b] unfolding denote_atoms denote.simps by simp
next
  case (8 alts b)
  then have "b + alt_len alts \<le> length P" by (simp add: placed_def)
  with 8 show ?case by simp
next
  case (9 r mn mx b)
  have "means f P t (\<lambda>b. re_code r b) (re_len r) (denote t r)"
    unfolding means_def using "9.IH" "9.prems"(1) by auto
  from meansD [OF means_rep [OF this _ P, of mx mn]] "9.prems" show ?case
    by (auto simp: rep_rel_def split: option.splits)
next
  case (10 b)
  then show ?case by (simp add: runs_id)
next
  case (11 r rs b)
  then show ?case using runs_seq [of P t b "b + re_len r" "denote t r" "b + re_len r + cat_len rs"]
    by (simp add: placed_append add.assoc)
next
  case (12 e b)
  then show ?case by simp
next
  case (13 A As e b)
  show ?case
  proof (cases "As = []")
    case True
    then have code: "alt_code (A # As) e b = split_inst (int (b + 1)) (- 1) # cat_code A (b + 1)" by simp
    from "13.prems"(3) have s: "b < length P" "P ! b = split_inst (int (b + 1)) (int f)" "placed f P (b + 1) (cat_code A (b + 1))"
      unfolding code by (simp_all only: placed_Cons patch_simps)
    have n: "run_next P t b i = Branch (b + 1) f" for i
      using s(1) f P by (intro next_split [OF s(1,2)]) auto
    from "13.IH"(1) [OF True _ s(3)] "13.prems"(2) have "runs P t (b + 1) (b + 1 + cat_len A) (denote_cat t A)" by simp
    from runs_branch_dead [OF n d this] show ?thesis using True "13.prems"(4) by simp
  next
    case False
    define y where "y = b + 2 + cat_len A"
    from False "13.prems"(3) have s: "b < length P" "P ! b = split_inst (int (b + 1)) (int y)" "placed f P (b + 1) (cat_code A (b + 1))"
      and j: "b + 1 + cat_len A < length P" "P ! (b + 1 + cat_len A) = jmp_inst (int e)"
      and q: "placed f P y (alt_code As e y)"
      by (simp_all add: y_def placed_Cons placed_append add.assoc del: of_nat_Suc of_nat_add)
    have n: "run_next P t b i = Branch (b + 1) y" for i
      using j(1) P by (intro next_split [OF s(1,2)]) (auto simp: y_def)
    have k: "run_next P t (b + 1 + cat_len A) i = Go e i" for i
      using "13.prems"(5) P by (intro next_jmp [OF j]) auto
    have "runs P t (b + 1) (b + 1 + cat_len A) (denote_cat t A)"
      using "13.IH"(2) [OF False _ s(3)] "13.prems"(2) by simp
    from runs_seq [OF this runs_jump [OF k]] have A: "runs P t (b + 1) e (denote_cat t A)" by simp
    have B: "runs P t y e (denote_alt t As)"
      using "13.IH"(3) [OF False False] "13.prems" q False by (simp add: y_def)
    from runs_branch [OF n A B] show ?thesis by simp
  qed
qed

end
