(* ===== verification/Regex_Props.thy ===== *)
theory Regex_Props
  imports Regex_Machine
begin

text \<open>
  The correctness properties of the regular expression engine: a search answers as the meaning of
  the pattern says, unless its budget ran out; the parser comes to an end on every pattern; and
  two kinds of pattern that the engine gets wrong.
\<close>

section \<open>The trees of a pattern are in order\<close>

lemma ast_single_ok: "ast_single c r = Some (x, s) \<Longrightarrow> re_ok x"
  by (auto simp: ast_single_def ast_escape_def split: if_splits sum.splits list.splits option.splits)

lemma ast_quantified_ok: "ast_quantified r s = Some (q, s1) \<Longrightarrow> re_ok r \<Longrightarrow> re_ok q"
  by (auto simp: ast_quantified_def bounds_ok_def split: option.splits if_splits)

lemma ast_ok:
  shows "ast_atom n s = Some (r, s1) \<Longrightarrow> re_ok r"
    and "ast_concat n s = Some (rs, s1) \<Longrightarrow> cat_ok rs"
    and "ast_alt n s = Some (As, s1) \<Longrightarrow> alt_ok As"
proof (induction n s and n s and n s arbitrary: r s1 and rs s1 and As s1 rule: ast_atom_ast_concat_ast_alt.induct)
  case (3 n c r)
  then show ?case
    by (auto split: if_splits option.splits prod.splits dest: ast_single_ok ast_alt_nonempty)
next
  case (5 n s)
  then show ?case
    by (auto split: if_splits option.splits prod.splits dest: ast_quantified_ok)
next
  case (7 n s)
  then show ?case
    by (auto split: if_splits option.splits prod.splits)
qed auto

lemma re_ast_ok: "re_ast pattern = Some r \<Longrightarrow> re_ok r"
  by (auto simp: re_ast_def split: option.splits prod.splits list.splits dest: ast_ok(3) ast_alt_nonempty)

section \<open>The parser comes to an end\<close>

text \<open>A result that is not for want of calls, and leaves at most \<open>k\<close> characters.\<close>

definition ends_within :: "nat \<Rightarrow> re_result \<Rightarrow> bool" where
  "ends_within k res \<longleftrightarrow> (case res of Inl e \<Rightarrow> e \<noteq> Re_Fuel | Inr p \<Rightarrow> length (rp_rest p) \<le> k)"

lemma ends_fail [simp]: "ends_within k (re_fail g p m)" "ends_within k (out_of_memory g p)" "ends_within k (Inl (Re_Failed e))"
  by (simp_all add: ends_within_def re_fail_def out_of_memory_def)

lemma ends_Inr [simp]: "ends_within k (Inr p) \<longleftrightarrow> length (rp_rest p) \<le> k"
  by (simp add: ends_within_def)

lemma ends_mono: "\<lbrakk>ends_within k res; k \<le> m\<rbrakk> \<Longrightarrow> ends_within m res"
  by (auto simp: ends_within_def split: sum.splits)

lemma ends_emit [simp]:
  "length (rp_rest p) \<le> k \<Longrightarrow> ends_within k (emit_inst g opc f p)"
  "length (rp_rest p) \<le> k \<Longrightarrow> ends_within k (emit_silent g opc p)"
  by (auto simp: emit_inst_def emit_silent_def split: option.splits)

lemma class_loop_length: "class_loop bm s = Inr (bm1, r) \<Longrightarrow> length r \<le> length s"
proof (induction bm s rule: class_loop.induct)
  case (2 bm c s)
  show ?case
    using "2.prems" "2.IH" by (fastforce split: if_splits option.splits sum.splits dest: class_item_length)
qed simp

lemma class_text_length: "class_text s = Inr (bm, r) \<Longrightarrow> length r \<le> length s"
  by (auto simp: class_text_def Let_def dest!: class_loop_length split: sum.splits if_splits)

lemma ends_class: "length (rp_rest p) \<le> k \<Longrightarrow> ends_within k (re_parse_class g p)"
  by (auto simp: re_parse_class_def dest!: class_text_length split: sum.splits)

lemma ends_escape: "length (rp_rest p) \<le> k \<Longrightarrow> ends_within k (escape_atom g p)"
  by (auto simp: escape_atom_def Let_def split: list.splits option.splits)

lemma scan_length: "scan_number v s = (n, r) \<Longrightarrow> length r \<le> length s"
  by (induction v s rule: scan_number.induct) (auto split: if_splits)

lemma bounds_length: "quantifier_bounds s = Some (mn, mx, r) \<Longrightarrow> length r \<le> length s"
  by (auto simp: quantifier_bounds_def dest!: scan_length split: list.splits if_splits prod.splits)

lemma ends_quantifier: "length (rp_rest p) \<le> k \<Longrightarrow> ends_within k (re_parse_quantifier g start p)"
  by (auto simp: re_parse_quantifier_def Let_def dest!: bounds_length split: option.splits prod.splits)

text \<open>Four calls per character of the rest are enough.\<close>

lemma parser_ends:
  shows "\<lbrakk>4 * length (rp_rest p) \<le> n; rp_rest p \<noteq> []\<rbrakk> \<Longrightarrow> ends_within (length (rp_rest p) - 1) (re_parse_atom g n p)"
    and "4 * length (rp_rest p) + 1 \<le> n \<Longrightarrow> ends_within (length (rp_rest p)) (re_parse_concat g n p)"
    and "4 * length (rp_rest p) + 2 \<le> n \<Longrightarrow> ends_within (length (rp_rest p)) (alternation_loop g n split js cap p)"
    and "4 * length (rp_rest p) + 3 \<le> n \<Longrightarrow> ends_within (length (rp_rest p)) (re_parse_alternation g n p)"
proof (induction g n p and g n p and g n split js cap p and g n p
    rule: re_parse_atom_re_parse_concat_alternation_loop_re_parse_alternation.induct)
  case (2 g n p)
  then obtain c r where s: "rp_rest p = c # r" by (cases "rp_rest p") auto
  show ?case
  proof (cases "c = CHR ''(''")
    case False
    then show ?thesis by (simp add: s Let_def ends_class ends_escape)
  next
    case True
    have len: "length (group_head r) \<le> length r" by (simp add: group_head_def)
    then have "ends_within (length (group_head r)) (re_parse_alternation g n (p\<lparr>rp_rest := group_head r\<rparr>))"
      using "2.IH" [OF s refl True refl] "2.prems"(1) by (simp add: s group_head_def)
    then show ?thesis
      using len by (auto simp: s True Let_def group_head_def ends_within_def re_fail_def split: sum.splits)
  qed
next
  case (4 g n p)
  show ?case
  proof (cases "ends_concat (rp_rest p)")
    case False
    then have ne: "rp_rest p \<noteq> []" by (simp add: ends_concat_def)
    have a: "ends_within (length (rp_rest p) - 1) (re_parse_atom g n p)"
      using "4.IH"(1) [OF False] "4.prems" ne by simp
    show ?thesis
    proof (cases "re_parse_atom g n p")
      case (Inl e)
      with a False show ?thesis by (simp add: ends_within_def)
    next
      case (Inr pa)
      define start where "start = length (rx_prog (rp_regex p))"
      have la: "length (rp_rest pa) < length (rp_rest p)" using a ne unfolding Inr by (cases "rp_rest p") auto
      show ?thesis
      proof (cases "length (rx_prog (rp_regex pa)) = start")
        case True
        with Inr False la show ?thesis by (simp add: start_def)
      next
        case ne: False
        define q where "q = (if starts_quantifier (rp_rest pa) then re_parse_quantifier g start pa else Inr pa)"
        have q: "ends_within (length (rp_rest pa)) q" by (simp add: q_def ends_quantifier)
        have code: "re_parse_concat g (Suc n) p = (case q of Inl e \<Rightarrow> Inl e | Inr pb \<Rightarrow> re_parse_concat g n pb)"
          using False Inr ne by (simp add: q_def start_def)
        show ?thesis
        proof (cases q)
          case (Inl e)
          with q show ?thesis unfolding code by (simp add: ends_within_def)
        next
          case qb: (Inr pb)
          with q la have lb: "length (rp_rest pb) < length (rp_rest p)" by simp
          have "ends_within (length (rp_rest pb)) (re_parse_concat g n pb)"
            using "4.IH"(2) [OF False Inr refl refl ne [unfolded start_def] qb [unfolded q_def start_def]] lb "4.prems" by simp
          with qb lb show ?thesis unfolding code by (auto simp: ends_within_def split: sum.splits)
        qed
      qed
    qed
  qed simp
next
  case (6 g n split js cap p)
  have a: "ends_within (length (rp_rest p)) (re_parse_concat g n p)" using "6.IH"(1) "6.prems" by simp
  show ?case
  proof (cases "re_parse_concat g n p")
    case (Inl e)
    with a show ?thesis by (simp add: ends_within_def)
  next
    case (Inr pa)
    with a have la: "length (rp_rest pa) \<le> length (rp_rest p)" by simp
    show ?thesis
    proof (cases "rp_rest pa = [] \<or> hd (rp_rest pa) \<noteq> CHR ''|''")
      case True
      with Inr la show ?thesis by auto
    next
      case False
      then have lt: "length (tl (rp_rest pa)) < length (rp_rest pa)" by (cases "rp_rest pa") auto
      show ?thesis
      proof (cases "re_emit g RE_JMP (rp_regex pa)")
        case None
        with Inr False show ?thesis by simp
      next
        case j: (Some jr)
        obtain jmp rx1 where jr: "jr = (jmp, rx1)" by fastforce
        show ?thesis
        proof (cases "grow_jumps g (length js) cap = None \<or> re_emit g RE_SPLIT rx1 = None")
          case True
          with Inr False j jr show ?thesis by (auto split: option.splits)
        next
          case more: False
          then obtain cap1 nxt rx2 where c1: "grow_jumps g (length js) cap = Some cap1"
            and sp: "re_emit g RE_SPLIT rx1 = Some (nxt, rx2)" by fastforce
          note ih = "6.IH"(2) [OF Inr False j jr [symmetric] c1 sp refl refl refl]
          from lt la "6.prems" have "4 * length (tl (rp_rest pa)) + 2 \<le> n" "length (tl (rp_rest pa)) \<le> length (rp_rest p)"
            by linarith+
          with ih show ?thesis
            using Inr False j jr c1 sp by (auto simp: Let_def intro: ends_mono)
        qed
      qed
    qed
  qed
next
  case (8 g n p)
  then show ?case by (auto split: option.splits)
qed auto

section \<open>The compiled program\<close>

lemma compile_prog:
  assumes "ncl_regex_compile g (Some pattern) e = (Some rx, e1)"
  shows "\<exists>r. re_ast pattern = Some r \<and> rx_anchored_start rx = False \<and>
    rx_prog rx = map (patch_inst (re_len r + 1)) (re_code r 0 @ [blank_inst RE_MATCH, blank_inst RE_FAIL])"
proof -
  obtain p where c: "compile_from g pattern (map_option (\<lambda>_. None) e) = Inr p" and rx: "rx = rp_regex p"
    using assms by (auto simp: ncl_regex_compile_def Let_def split: if_splits sum.splits re_fault.splits)
  then obtain p1 where p1: "re_parse_alternation g (regex_fuel pattern)
         \<lparr>rp_rest = pattern,
          rp_regex = \<lparr>rx_prog = [], rx_cap = 0, rx_anchored_start = False, rx_anchored_end = False\<rparr>,
          rp_error = map_option (\<lambda>_. None) e\<rparr> = Inr p1" and rest: "rp_rest p1 = []" and fin: "finish_program g p1 = Inr p"
    by (auto simp: compile_from_def re_fail_def split: sum.splits if_splits)
  from parser_prog(4) [OF p1] obtain alts where a: "ast_alt (4 * length pattern + 3) pattern = Some (alts, [])"
    and code: "rx_prog (rp_regex p1) = re_code (R_Group alts) 0"
    by (auto simp: rest regex_fuel_def add.commute)
  from a have ast: "re_ast pattern = Some (R_Group alts)" by (simp add: re_ast_def)
  obtain mi ra fi rb where m: "re_emit g RE_MATCH (rp_regex p1) = Some (mi, ra)" and f: "re_emit g RE_FAIL ra = Some (fi, rb)"
    using fin by (auto simp: finish_program_def out_of_memory_def re_fail_def split: option.splits)
  have rb: "rx_prog rb = re_code (R_Group alts) 0 @ [blank_inst RE_MATCH, blank_inst RE_FAIL]"
    and fi: "fi = re_len (R_Group alts) + 1"
    using emit_prog [OF m] emit_prog [OF f] code by (simp_all del: re_code.simps re_len.simps)
  obtain A As where alts: "alts = A # As" using ast_alt_nonempty [OF a] by (cases alts) auto
  have p: "rx_prog (rp_regex p) = map (patch_inst fi) (rx_prog rb)"
    and anch: "rx_anchored_start (rp_regex p) = (rx_prog (rp_regex p) \<noteq> [] \<and> ri_op (hd (rx_prog (rp_regex p))) = RE_BOL)"
    using fin m f by (auto simp: finish_program_def Let_def)
  have "ri_op (hd (rx_prog (rp_regex p))) = RE_SPLIT"
    unfolding p rb by (simp add: alts patch_inst_def split_inst_def blank_inst_def)
  with ast p rb fi anch show ?thesis by (intro exI [of _ "R_Group alts"]) (simp add: rx del: re_code.simps re_len.simps)
qed

text \<open>From its first instruction the program can match exactly if the relation has a pair.\<close>

lemma program_matches:
  assumes "rx_prog rx = map (patch_inst (re_len r + 1)) (re_code r 0 @ [blank_inst RE_MATCH, blank_inst RE_FAIL])"
    and "re_ok r" "length (rx_prog rx) < 2 ^ 31"
  shows "(\<exists>n. can_match (rx_prog rx) t n 0 i) \<longleftrightarrow> (\<exists>j. (i, j) \<in> denote t r)"
proof -
  define P where "P = rx_prog rx"
  define f where "f = re_len r + 1"
  have len: "length P = re_len r + 2" by (simp add: P_def assms(1))
  have at: "placed f P 0 (re_code r 0)"
    by (simp add: placed_def len) (simp add: P_def assms(1) f_def nth_append)
  have "P ! re_len r = blank_inst RE_MATCH" "P ! f = blank_inst RE_FAIL"
    by (simp_all add: P_def assms(1) f_def nth_append)
  then have found: "run_next P t (re_len r) j = Found" and dead: "run_next P t f j = Dead" for j
    by (simp_all add: run_next_def run_inst_def blank_inst_def len f_def)
  have "runs P t 0 (0 + re_len r) (denote t r)"
    by (rule code_runs(1) [where f = f, OF _ _ dead assms(2) at]) (use assms(3) in \<open>auto simp: P_def [symmetric] len f_def\<close>)
  moreover have "can_match P t 1 (re_len r) j" for j using found by simp
  ultimately show ?thesis
    unfolding P_def [symmetric] using runs_out runs_in by (metis add_0)
qed

text \<open>The starting positions, tried in order with one budget.\<close>

lemma search_loop_exact:
  assumes "rx_anchored_start rx = False" "search_loop rx t starts b = (r, left)"
  shows "(r \<longrightarrow> (\<exists>i\<in>set starts. \<exists>n. can_match (rx_prog rx) t n 0 i)) \<and>
    (\<not> r \<and> left \<ge> 0 \<longrightarrow> (\<forall>i\<in>set starts. \<forall>n. \<not> can_match (rx_prog rx) t n 0 i))"
  using assms(2)
proof (induction starts arbitrary: b)
  case (Cons s starts)
  obtain r1 b1 where run: "re_run (rx_prog rx) t 0 s b = (r1, b1)" by fastforce
  show ?case
  proof (cases r1)
    case True
    then show ?thesis using Cons.prems run assms(1) run_finds [of "rx_prog rx" t 0 s b] by auto
  next
    case False
    then have rest: "search_loop rx t starts b1 = (r, left)" using Cons.prems run assms(1) by simp
    have "left \<le> b1"
      using rest
    proof (induction starts arbitrary: b1)
      case (Cons x xs)
      then show ?case
        using run_left [of "rx_prog rx" t 0 x b1] assms(1) by (fastforce split: prod.splits if_splits)
    qed simp
    with Cons.IH [OF rest] run False run_misses [of "rx_prog rx" t 0 s b b1] show ?thesis by auto
  qed
qed simp


text \<open>
  C4. A search answers as the pattern means: when a pattern compiles, it has a syntax tree, and a
  search that answers yes has found a starting position of the text from which the tree's
  relation leads to some position; one that answers no without having used up its budget of
  2,000,000 instructions has none. Every layout of the compiler is covered: groups, alternatives,
  classes, anchors, word boundaries, counted and unbounded repetition, with every relocation.
\<close>

theorem regex_search_exact:
  assumes "ncl_regex_compile g (Some pattern) e = (Some rx, e1)" "length (rx_prog rx) < 2 ^ 31"
    and "search_run rx t = (found, left)"
  shows "\<exists>r. re_ast pattern = Some r \<and> ncl_regex_search (Some rx) (Some t) = found \<and>
    (found \<longrightarrow> (\<exists>i\<le>length t. \<exists>j. (i, j) \<in> denote t r)) \<and>
    (\<not> found \<and> left \<ge> 0 \<longrightarrow> (\<forall>i\<le>length t. \<forall>j. (i, j) \<notin> denote t r))"
proof -
  from compile_prog [OF assms(1)] obtain r where r: "re_ast pattern = Some r" "rx_anchored_start rx = False"
    "rx_prog rx = map (patch_inst (re_len r + 1)) (re_code r 0 @ [blank_inst RE_MATCH, blank_inst RE_FAIL])" by blast
  note m = program_matches [OF r(3) re_ast_ok [OF r(1)] assms(2)]
  have starts: "i \<in> set [0 ..< length t + 1] \<longleftrightarrow> i \<le> length t" for i by auto
  have "search_loop rx t [0 ..< length t + 1] RE_BUDGET = (found, left)" using assms(3) by (simp add: search_run_def)
  from search_loop_exact [OF r(2) this] have
    "(found \<longrightarrow> (\<exists>i\<le>length t. \<exists>j. (i, j) \<in> denote t r)) \<and>
     (\<not> found \<and> left \<ge> 0 \<longrightarrow> (\<forall>i\<le>length t. \<forall>j. (i, j) \<notin> denote t r))"
    unfolding Ball_def Bex_def starts using m by blast
  with r(1) assms(3) show ?thesis by (auto simp: ncl_regex_search_def)
qed

definition sample_regex :: ncl_regex where
  "sample_regex = the (fst (ncl_regex_compile grant_all (Some ''^(a|b)+$'') None))"

lemma compile_sample: "ncl_regex_compile grant_all (Some ''^(a|b)+$'') None = (Some sample_regex, None)"
  unfolding sample_regex_def by code_simp


lemma sample_missed: "search_run sample_regex ''abc'' = (False, 1999968)"
  unfolding sample_regex_def by code_simp

lemma sample_size: "length (rx_prog sample_regex) = 11"
  unfolding sample_regex_def by code_simp

lemma regex_search_exact_witness:
  "\<exists>r. re_ast ''^(a|b)+$'' = Some r \<and> (\<forall>i\<le>3. \<forall>j. (i, j) \<notin> denote ''abc'' r)"
proof -
  have "length (rx_prog sample_regex) < 2 ^ 31" by (simp add: sample_size)
  from regex_search_exact [OF compile_sample this sample_missed] show ?thesis by auto
qed


section \<open>With memory, every pattern that has a tree compiles\<close>

lemma emit_all: "\<exists>i rx1. re_emit grant_all opc rx = Some (i, rx1)"
  by (simp add: re_emit_def grant_all Let_def)

lemma emit_inst_all: "\<exists>p1. emit_inst grant_all opc f p = Inr p1" "\<exists>p1. emit_silent grant_all opc p = Inr p1"
  using emit_all [of opc "rp_regex p"] by (auto simp: emit_inst_def emit_silent_def)

lemma append_all_blocks: "\<exists>rx1. append_loop grant_all start l base block rx = Some rx1"
proof (induction block arbitrary: rx)
  case (Cons source block)
  obtain i rxa where e: "re_emit grant_all (ri_op source) rx = Some (i, rxa)" using emit_all by blast
  obtain rxb where "append_loop grant_all start l base block (set_inst i (relocated start l base source) rxa) = Some rxb"
    using Cons.IH by blast
  with e show ?case by simp
qed simp

lemma append_block_all: "\<exists>base rx1. re_append_block grant_all block start rx = Some (base, rx1)"
  using append_all_blocks [of start "length block" "length (rx_prog rx)" block rx] by (auto simp: re_append_block_def Let_def)

lemma layout_star_all: "\<exists>rx1. layout_star grant_all atom start rx = Some rx1"
proof -
  obtain i rxa where a: "re_emit grant_all RE_SPLIT rx = Some (i, rxa)" using emit_all by blast
  obtain base rxb where b: "re_append_block grant_all atom start rxa = Some (base, rxb)" using append_block_all by blast
  obtain j rxc where "re_emit grant_all RE_JMP rxb = Some (j, rxc)" using emit_all by blast
  with a b show ?thesis by (simp add: layout_star_def)
qed

lemma mandatory_all: "\<exists>rx1. mandatory_copies grant_all atom start n rx = Some rx1"
proof (induction n arbitrary: rx)
  case (Suc n)
  obtain base rxa where "re_append_block grant_all atom start rx = Some (base, rxa)" using append_block_all by blast
  with Suc.IH [of rxa] show ?case by simp
qed simp

lemma optionals_all: "\<exists>rx1. optional_copies grant_all atom start after n rx = Some rx1"
proof (induction n arbitrary: rx)
  case (Suc n)
  obtain i rxa where a: "re_emit grant_all RE_SPLIT rx = Some (i, rxa)" using emit_all by blast
  obtain base rxb where "re_append_block grant_all atom start rxa = Some (base, rxb)" using append_block_all by blast
  with a Suc.IH [of "set_targets i base after rxb"] show ?case by simp
qed simp

lemma layout_all: "\<exists>rx1. quantifier_layout grant_all atom start mn mx rx = Some rx1"
proof -
  obtain i rxa where a: "re_emit grant_all RE_SPLIT rx = Some (i, rxa)" using emit_all by blast
  obtain base rxb where b: "re_append_block grant_all atom start rxa = Some (base, rxb)" using append_block_all by blast
  obtain base1 rxc where c: "re_append_block grant_all atom start rx = Some (base1, rxc)" using append_block_all by blast
  obtain j rxd where d: "re_emit grant_all RE_SPLIT rxc = Some (j, rxd)" using emit_all by blast
  obtain rxe where e: "mandatory_copies grant_all atom start mn rx = Some rxe" using mandatory_all by blast
  have "\<exists>rx1. layout_general grant_all atom start mn mx rx = Some rx1"
    using layout_star_all optionals_all by (auto simp: layout_general_def e Let_def split: option.split)
  moreover have "\<exists>rx1. layout_optional grant_all atom start rx = Some rx1" by (simp add: layout_optional_def a b)
  moreover have "\<exists>rx1. layout_plus grant_all atom start rx = Some rx1" by (simp add: layout_plus_def c d)
  ultimately show ?thesis using layout_star_all by (auto simp: quantifier_layout_def)
qed

lemma quantified_all:
  assumes "ast_quantified r (rp_rest p) = Some (q, s)"
  shows "\<exists>p1. (if starts_quantifier (rp_rest p) then re_parse_quantifier grant_all start p else Inr p) = Inr p1"
proof (cases "starts_quantifier (rp_rest p)")
  case True
  show ?thesis
  proof (cases "quantifier_bounds (rp_rest p)")
    case None
    with True show ?thesis by (simp add: re_parse_quantifier_def)
  next
    case (Some x)
    obtain mn mx r1 where x: "x = (mn, mx, r1)" by (cases x)
    from assms Some x have "bounds_ok mn mx" by (auto simp: ast_quantified_def split: if_splits)
    then have "\<not> (case mx of None \<Rightarrow> False | Some m \<Rightarrow> m < mn)" "\<not> (mn > 1000 \<or> (case mx of None \<Rightarrow> False | Some m \<Rightarrow> m > 1000))"
      by (auto simp: bounds_ok_def split: option.splits)
    with True Some x layout_all [of "drop start (rx_prog (rp_regex p))" start mn mx
        "(rp_regex p)\<lparr>rx_prog := take start (rx_prog (rp_regex p))\<rparr>"]
    show ?thesis by (auto simp: re_parse_quantifier_def re_take_tail_def Let_def grant_all)
  qed
qed simp

lemma grow_jumps_all: "\<exists>cap1. grow_jumps grant_all n cap = Some cap1"
  by (simp add: grow_jumps_def grant_all Let_def)

lemma single_all:
  assumes "ast_single c (rp_rest p) = Some (r, s)"
  shows "\<exists>p1. (if c = CHR ''['' then re_parse_class grant_all p
            else if c = CHR ''.'' then emit_silent grant_all RE_ANY p
            else if c = CHR ''^'' then emit_silent grant_all RE_BOL p
            else if c = CHR ''$'' then emit_silent grant_all RE_EOL p
            else if c = CHR 0x5C then escape_atom grant_all p
            else emit_inst grant_all RE_CHAR (\<lambda>i. i\<lparr>ri_ch := c\<rparr>) p) = Inr p1"
proof -
  have "\<exists>p1. re_parse_class grant_all p = Inr p1" if "c = CHR ''[''"
    using assms that emit_inst_all(1) by (auto simp: ast_single_def re_parse_class_def split: sum.splits)
  moreover have "\<exists>p1. escape_atom grant_all p = Inr p1" if "c = CHR 0x5C"
    using assms that emit_inst_all
    by (auto simp: ast_single_def ast_escape_def escape_atom_def Let_def split: list.splits option.split)
  ultimately show ?thesis using emit_inst_all by auto
qed

lemma parser_accepts:
  assumes "g = grant_all"
  shows "\<lbrakk>ast_atom n (rp_rest p) = Some (r, s); rx_prog (rp_regex p) \<noteq> []\<rbrakk> \<Longrightarrow> \<exists>p1. re_parse_atom g n p = Inr p1"
    and "\<lbrakk>ast_concat n (rp_rest p) = Some (rs, s); rx_prog (rp_regex p) \<noteq> []\<rbrakk> \<Longrightarrow> \<exists>p1. re_parse_concat g n p = Inr p1"
    and "\<lbrakk>ast_alt n (rp_rest p) = Some (As, s); rx_prog (rp_regex p) \<noteq> []\<rbrakk> \<Longrightarrow> \<exists>p1. alternation_loop g n split js cap p = Inr p1"
    and "ast_alt (n - 1) (rp_rest p) = Some (As, s) \<Longrightarrow> \<exists>p1. re_parse_alternation g n p = Inr p1"
  using assms
proof (induction g n p and g n p and g n split js cap p and g n p arbitrary: r s and rs s and As s and As s
    rule: re_parse_atom_re_parse_concat_alternation_loop_re_parse_alternation.induct)
  case (2 g n p)
  then obtain c r1 where s: "rp_rest p = c # r1" by (cases "rp_rest p") auto
  show ?case
  proof (cases "c = CHR ''(''")
    case False
    with "2.prems" single_all [of c "p\<lparr>rp_rest := r1\<rparr>" r] s show ?thesis by (simp add: Let_def)
  next
    case True
    with "2.prems" s obtain alts r2 where a: "ast_alt (n - 1) (group_head r1) = Some (alts, r2)" "r2 \<noteq> []" "hd r2 = CHR '')''"
      by (auto split: option.splits if_splits)
    have "\<exists>p1. re_parse_alternation g n (p\<lparr>rp_rest := group_head r1\<rparr>) = Inr p1"
      using "2.IH" [OF s refl True refl, of alts r2] a(1) "2.prems"(3) by (simp add: group_head_def)
    then obtain p2 where p2: "re_parse_alternation g n (p\<lparr>rp_rest := group_head r1\<rparr>) = Inr p2" by blast
    from parser_prog(4) [OF p2] a have "rp_rest p2 = r2" by simp
    with p2 a s True show ?thesis by (simp add: group_head_def Let_def)
  qed
next
  case (4 g n p)
  show ?case
  proof (cases "ends_concat (rp_rest p)")
    case False
    with "4.prems"(1) obtain r1 s1 q s2 rs1 where a: "ast_atom n (rp_rest p) = Some (r1, s1)"
      "ast_quantified r1 s1 = Some (q, s2)" "ast_concat n s2 = Some (rs1, s)"
      by (auto split: option.splits)
    define start where "start = length (rx_prog (rp_regex p))"
    from "4.IH"(1) [OF False a(1) "4.prems"(2,3)] obtain pa where pa: "re_parse_atom g n p = Inr pa" by blast
    from False have "rp_rest p \<noteq> []" by (simp add: ends_concat_def)
    with parser_prog(1) [OF pa _ "4.prems"(2)] a(1) have sa: "rp_rest pa = s1" "re_len r1 > 0"
      "rx_prog (rp_regex pa) = rx_prog (rp_regex p) @ re_code r1 start" by (auto simp: start_def)
    then have ne: "length (rx_prog (rp_regex pa)) \<noteq> start" by (simp add: start_def)
    obtain pb where pb: "(if starts_quantifier (rp_rest pa) then re_parse_quantifier g start pa else Inr pa) = Inr pb"
      using quantified_all [of r1 pa q s2 start] a(2) sa(1) "4.prems"(3) by auto
    from quantified_prog [OF pb sa(3)] "4.prems"(2) a(2) sa(1) have b: "rp_rest pb = s2" "rx_prog (rp_regex pb) \<noteq> []"
      by (auto simp: start_def)
    from "4.IH"(2) [OF False pa refl refl ne [unfolded start_def] pb [unfolded start_def] _ b(2) "4.prems"(3), of rs1 s] a(3) b(1)
    obtain p1 where "re_parse_concat g n pb = Inr p1" by auto
    with False pa ne [unfolded start_def] pb [unfolded start_def] show ?thesis by simp
  qed simp
next
  case (6 g n split js cap p)
  from "6.prems"(1) obtain rs s1 where a: "ast_concat n (rp_rest p) = Some (rs, s1)" by (auto split: option.splits)
  from "6.IH"(1) [OF a "6.prems"(2,3)] obtain pa where pa: "re_parse_concat g n p = Inr pa" by blast
  from parser_prog(2) [OF pa "6.prems"(2)] a have sa: "rp_rest pa = s1" by simp
  show ?case
  proof (cases "rp_rest pa = [] \<or> hd (rp_rest pa) \<noteq> CHR ''|''")
    case True
    with pa show ?thesis by auto
  next
    case False
    with "6.prems"(1) a sa obtain As1 where as1: "ast_alt n (tl s1) = Some (As1, s)" by (auto split: option.splits)
    obtain jmp rxa where j: "re_emit g RE_JMP (rp_regex pa) = Some (jmp, rxa)" using emit_all "6.prems"(3) by blast
    obtain cap1 where c: "grow_jumps g (length js) cap = Some cap1" using grow_jumps_all "6.prems"(3) by blast
    obtain nxt rxb where sp: "re_emit g RE_SPLIT rxa = Some (nxt, rxb)" using emit_all "6.prems"(3) by blast
    have "rx_prog rxb \<noteq> []" using emit_prog [OF sp] by simp
    with "6.IH"(2) [OF pa False j refl c sp refl refl refl, of As1 s] as1 sa "6.prems"(3) pa False j c sp
    show ?thesis by (simp add: Let_def)
  qed
next
  case (8 g n p)
  obtain i rx where e: "re_emit g RE_SPLIT (rp_regex p) = Some (i, rx)" using emit_all "8.prems"(2) by blast
  have "rx_prog rx \<noteq> []" using emit_prog [OF e] by simp
  with "8.IH" [OF e refl, of As s] "8.prems" e show ?case by simp
qed auto

text \<open>
  C31. Compiling ends on every pattern and decides it: whatever allocations fail, the parser's
  recursion is bounded by the length of the pattern; and when memory is there, exactly the
  patterns that have a syntax tree compile (balanced groups, closed classes, quantifier bounds in
  order and at most 1000, no trailing backslash).
\<close>

theorem regex_compile_decides:
  "compile_from g pattern e \<noteq> Inl Re_Fuel \<and>
   (fst (ncl_regex_compile grant_all (Some pattern) e) \<noteq> None \<longleftrightarrow> re_ast pattern \<noteq> None)"
proof
  show "compile_from g pattern e \<noteq> Inl Re_Fuel"
    using parser_ends(4) [where g = g and n = "regex_fuel pattern" and p = "\<lparr>rp_rest = pattern,
        rp_regex = \<lparr>rx_prog = [], rx_cap = 0, rx_anchored_start = False, rx_anchored_end = False\<rparr>, rp_error = e\<rparr>"]
    by (auto simp: compile_from_def regex_fuel_def ends_within_def finish_program_def out_of_memory_def re_fail_def Let_def
        split: sum.splits option.splits)
next
  define e0 where "e0 = map_option (\<lambda>_. None :: string option) e"
  define p where "p = \<lparr>rp_rest = pattern,
        rp_regex = \<lparr>rx_prog = [], rx_cap = 0, rx_anchored_start = False, rx_anchored_end = False\<rparr>, rp_error = e0\<rparr>"
  show "fst (ncl_regex_compile grant_all (Some pattern) e) \<noteq> None \<longleftrightarrow> re_ast pattern \<noteq> None"
  proof
    assume "fst (ncl_regex_compile grant_all (Some pattern) e) \<noteq> None"
    then obtain rx e1 where "ncl_regex_compile grant_all (Some pattern) e = (Some rx, e1)"
      by (cases "ncl_regex_compile grant_all (Some pattern) e") auto
    from compile_prog [OF this] show "re_ast pattern \<noteq> None" by auto
  next
    assume "re_ast pattern \<noteq> None"
    then obtain alts where a: "ast_alt (regex_fuel pattern - 1) (rp_rest p) = Some (alts, [])"
      by (auto simp: re_ast_def regex_fuel_def p_def add.commute split: option.splits list.splits)
    from parser_accepts(4) [OF refl a] obtain p1 where p1: "re_parse_alternation grant_all (regex_fuel pattern) p = Inr p1"
      by blast
    from parser_prog(4) [OF p1] a have "rp_rest p1 = []" by simp
    moreover obtain mi ra where "re_emit grant_all RE_MATCH (rp_regex p1) = Some (mi, ra)" using emit_all by blast
    moreover obtain fi rb where "re_emit grant_all RE_FAIL ra = Some (fi, rb)" using emit_all by blast
    ultimately have "\<exists>p2. compile_from grant_all pattern e0 = Inr p2"
      using p1 by (simp add: compile_from_def p_def finish_program_def Let_def)
    then show "fst (ncl_regex_compile grant_all (Some pattern) e) \<noteq> None"
      by (auto simp: ncl_regex_compile_def grant_all e0_def)
  qed
qed

section \<open>What the engine gets wrong\<close>

text \<open>
  A repetition of something that can be empty, such as \<^verbatim>\<open>(a*)*\<close>, is a loop that uses up the
  budget before any other branch is tried: the search answers no for texts that match.
\<close>

definition nested_star :: "re_inst list" where
  "nested_star = rx_prog (the (fst (ncl_regex_compile grant_all (Some ''(a*)*'') None)))"

lemma nested_star_code:
  "nested_star = [split_inst 1 8, split_inst 2 7, split_inst 3 8, split_inst 4 6, char_inst (CHR ''a''), jmp_inst 3,
     jmp_inst 1, blank_inst RE_MATCH, blank_inst RE_FAIL]"
  unfolding nested_star_def by code_simp

lemma nested_next:
  "run_next nested_star t 0 i = Branch 1 8" "run_next nested_star t 1 i = Branch 2 7"
  "run_next nested_star t 2 i = Branch 3 8" "run_next nested_star t 3 i = Branch 4 6"
  "run_next nested_star t 4 i = (if i < length t \<and> t ! i = CHR ''a'' then Go 5 (i + 1) else Dead)"
  "run_next nested_star t 6 i = Go 1 i"
  by (simp_all add: run_next_def nested_star_code run_inst_def go_if_def split_inst_def char_inst_def jmp_inst_def
      blank_inst_def target_of_def)

lemma no_budget: "b \<le> 0 \<Longrightarrow> re_run P t pc i b = (False, b - 1)"
  by (simp add: re_run.simps)

lemma nested_exhausts:
  assumes "CHR ''a'' \<notin> set t"
  shows "\<exists>left. left < 0 \<and> re_run nested_star t 1 i b = (False, left)"
proof (induction "nat b" arbitrary: b rule: less_induct)
  case less
  have no_a: "\<not> (i < length t \<and> t ! i = CHR ''a'')" using assms nth_mem by fastforce
  show ?case
  proof (cases "b \<le> 0")
    case True
    then show ?thesis by (simp add: no_budget)
  next
    case b1: False
    have six: "\<exists>left. left < 0 \<and> re_run nested_star t 6 i c = (False, left)" if "c < b" for c
    proof (cases "c \<le> 0")
      case True
      then show ?thesis by (simp add: no_budget)
    next
      case False
      with less.hyps [of "c - 1"] that b1 show ?thesis by (simp add: re_run.simps [of _ _ 6] nested_next)
    qed
    have four: "re_run nested_star t 4 i c = (False, c - 1)" for c
      using no_a by (auto simp: re_run.simps [of _ _ 4] nested_next)
    have three: "\<exists>left. left < 0 \<and> re_run nested_star t 3 i c = (False, left)" if "c < b" for c
      using six [of "c - 2"] that by (simp add: re_run.simps [of _ _ 3] nested_next four)
    have two: "\<exists>left. left < 0 \<and> re_run nested_star t 2 i c = (False, left)" if "c < b" for c
      using three [of "c - 1"] that by (auto simp: re_run.simps [of _ _ 2] nested_next no_budget)
    show ?thesis
      using two [of "b - 1"] b1 by (auto simp: re_run.simps [of _ _ "Suc 0"] nested_next nested_next [unfolded One_nat_def] no_budget)
  qed
qed

lemma spent_search: "b \<le> 0 \<Longrightarrow> fst (search_loop rx t starts b) = False"
  by (induction starts arbitrary: b) (simp_all add: no_budget)

definition nested_regex :: ncl_regex where
  "nested_regex = the (fst (ncl_regex_compile grant_all (Some ''(a*)*'') None))"

lemma compile_nested: "ncl_regex_compile grant_all (Some ''(a*)*'') None = (Some nested_regex, None)"
  unfolding nested_regex_def by code_simp

lemma ast_nested: "re_ast ''(a*)*'' = Some (R_Group [[R_Rep (R_Group [[R_Rep (R_Char (CHR ''a'')) 0 None]]) 0 None]])"
  by code_simp

theorem nested_star_never_matches:
  assumes "CHR ''a'' \<notin> set t"
  shows "ncl_regex_search (fst (ncl_regex_compile grant_all (Some ''(a*)*'') None)) (Some t) = False \<and>
    (\<exists>r. re_ast ''(a*)*'' = Some r \<and> (0, 0) \<in> denote t r)"
proof
  have prog: "rx_prog nested_regex = nested_star" by (simp add: nested_regex_def nested_star_def)
  obtain left where left: "left < 0" "re_run nested_star t 1 0 (RE_BUDGET - 1) = (False, left)"
    using nested_exhausts [OF assms] by blast
  have "re_run nested_star t 0 0 RE_BUDGET = (False, left - 1)"
    using left by (simp add: re_run.simps [of _ _ 0] nested_next no_budget RE_BUDGET_def)
  then have "fst (search_run nested_regex t) = False"
    using spent_search [of "left - 1" nested_regex t "[Suc 0 ..< length t + 1]"] left(1)
    by (simp add: search_run_def upt_conv_Cons prog del: upt_Suc)
  then show "ncl_regex_search (fst (ncl_regex_compile grant_all (Some ''(a*)*'') None)) (Some t) = False"
    by (simp add: compile_nested ncl_regex_search_def)
  show "\<exists>r. re_ast ''(a*)*'' = Some r \<and> (0, 0) \<in> denote t r"
    by (rule exI [of _ "R_Group [[R_Rep (R_Group [[R_Rep (R_Char (CHR ''a'')) 0 None]]) 0 None]]"]) (simp add: ast_nested)
qed

text \<open>
  An escape for a complement inside a class complements what the class has so far:
  \<^verbatim>\<open>[a\D]\<close> does not contain the letter it names.
\<close>

theorem class_escape_drops_members:
  "\<exists>bm. class_text (''a'' @ [CHR 0x5C] @ ''D]'') = Inr (bm, []) \<and> \<not> in_class bm (CHR ''a'') \<and> in_class bm (CHR ''b'')"
  by (rule exI [of _ "snd (case class_text (''a'' @ [CHR 0x5C] @ ''D]'') of Inr (bm, r) \<Rightarrow> (r, bm) | Inl m \<Rightarrow> ([], []))"]) code_simp

end
