(* ===== verification/Schema.thy ===== *)
theory Schema
  imports Regex Json_Text
begin

text \<open>
  \<^verbatim>\<open>stack/src/schema/schema.c\<close>: validation of a JSON value against a JSON Schema document. The
  number nodes cache their conversions (see \<^verbatim>\<open>json.c\<close>); validation only reads documents, and
  the caches it leaves behind in them are not threaded through: the nodes of parsed documents
  keep their text, so that neither a conversion nor a comparison depends on them. The mutex of
  the pattern cache makes each lookup one step. A rule or a value that is NULL never gets past
  the caller's test.
\<close>

section \<open>The environment\<close>

text \<open>
  Arithmetic on \<open>double\<close> beyond \<open>double_ops\<close>, and the two address parsers of the platform
  (\<open>inet_pton\<close>).
\<close>

record 'd schema_env =
  se_ops :: "'d double_ops"
  se_lt :: "'d \<Rightarrow> 'd \<Rightarrow> bool"
  se_le :: "'d \<Rightarrow> 'd \<Rightarrow> bool"
  se_add :: "'d \<Rightarrow> 'd \<Rightarrow> 'd"
  se_sub :: "'d \<Rightarrow> 'd \<Rightarrow> 'd"
  se_mul :: "'d \<Rightarrow> 'd \<Rightarrow> 'd"
  se_div :: "'d \<Rightarrow> 'd \<Rightarrow> 'd"
  se_ipv4 :: "string \<Rightarrow> bool"
  se_ipv6 :: "string \<Rightarrow> bool"

definition NCL_SCHEMA_MAX_REF_DEPTH :: nat where
  "NCL_SCHEMA_MAX_REF_DEPTH = 32"

definition NCL_PATH_MAX_BUF :: nat where
  "NCL_PATH_MAX_BUF = 4096"

record 'd ncl_schema =
  sc_root :: "'d json"
  sc_patterns :: "(string \<times> ncl_regex option) ptrvec"

text \<open>The state of a validation: the schema with its pattern cache, and the caller's list if it gave one.\<close>

record 'd validate_ctx =
  vc_schema :: "'d ncl_schema"
  vc_errors :: "char strvec option"

section \<open>Helpers\<close>

definition has_fraction :: "string \<Rightarrow> bool" where
  "has_fraction raw \<longleftrightarrow> list_ex (\<lambda>c. c \<in> {CHR ''.'', CHR ''e'', CHR ''E''}) raw"

definition is_integer_text :: "string option \<Rightarrow> bool" where
  "is_integer_text raw = (case raw of None \<Rightarrow> False | Some t \<Rightarrow> \<not> has_fraction t)"

definition ncl_json_type_label :: "'d json option \<Rightarrow> string" where
  "ncl_json_type_label v =
     (case ncl_json_type_of v of
        NCL_JSON_NULL \<Rightarrow> ''Null'' | NCL_JSON_BOOL \<Rightarrow> ''Boolean'' | NCL_JSON_STRING \<Rightarrow> ''String''
      | NCL_JSON_ARRAY \<Rightarrow> ''Array'' | NCL_JSON_OBJECT \<Rightarrow> ''Object''
      | NCL_JSON_NUMBER \<Rightarrow> if is_integer_text (ncl_json_number_raw v) then ''Integer'' else ''Number'')"

text \<open>\<open>%u\<close> of a \<open>size_t\<close>, and \<open>%g\<close>.\<close>

definition fmt_u :: "nat \<Rightarrow> string" where
  "fmt_u n = dec_nat (n mod 2 ^ 32)"

definition fmt_g :: "'d schema_env \<Rightarrow> 'd \<Rightarrow> string" where
  "fmt_g env d = d_format (se_ops env) 6 d"

definition ncl_schema_error :: "grant \<Rightarrow> string option \<Rightarrow> string \<Rightarrow> char strvec option \<Rightarrow> char strvec option" where
  "ncl_schema_error g path fmt errors =
     (case errors of
        None \<Rightarrow> None
      | Some v \<Rightarrow>
          (let body = (case ncl_strdup g (Some fmt) of None \<Rightarrow> '''' | Some b \<Rightarrow> b);
               sb = snd (put_text g body (snd (put_text g '': '' (snd (put_text g
                      (case path of None \<Rightarrow> ''#'' | Some p \<Rightarrow> p) ncl_strbuf_init)))))
           in Some (snd (ncl_strvec_push g v (Some (text_of (sb_bytes sb)))))))"

definition report :: "grant \<Rightarrow> string option \<Rightarrow> string \<Rightarrow> 'd validate_ctx \<Rightarrow> 'd validate_ctx" where
  "report g path fmt ctx = ctx\<lparr>vc_errors := ncl_schema_error g path fmt (vc_errors ctx)\<rparr>"

definition ncl_json_render :: "grant \<Rightarrow> 'd double_ops \<Rightarrow> 'd json option \<Rightarrow> string option" where
  "ncl_json_render g ops v =
     (case v of
        None \<Rightarrow> ncl_strdup g (Some ''null'')
      | Some j \<Rightarrow>
          if ncl_json_type_of v = NCL_JSON_STRING
          then (let t = (case ncl_json_as_string v of None \<Rightarrow> '''' | Some s \<Rightarrow> s);
                    sb = snd (put_char g (CHR 0x22) (snd (put_text g t (snd (put_char g (CHR 0x22) ncl_strbuf_init)))))
                in map_option text_of (fst (ncl_strbuf_detach g sb)))
          else ncl_json_write_string g ops v)"

definition rendered :: "grant \<Rightarrow> 'd double_ops \<Rightarrow> 'd json option \<Rightarrow> string" where
  "rendered g ops v = (case ncl_json_render g ops v of None \<Rightarrow> ''?'' | Some s \<Rightarrow> s)"

section \<open>JSON pointers\<close>

fun ncl_pointer_escape :: "grant \<Rightarrow> string \<Rightarrow> strbuf \<Rightarrow> strbuf" where
  "ncl_pointer_escape g [] sb = sb"
| "ncl_pointer_escape g (c # s) sb =
     ncl_pointer_escape g s
       (if c = CHR ''~'' then snd (put_text g ''~0'' sb)
        else if c = CHR ''/'' then snd (put_text g ''~1'' sb)
        else snd (put_char g c sb))"

definition ncl_pointer_push :: "grant \<Rightarrow> string option \<Rightarrow> string \<Rightarrow> string option" where
  "ncl_pointer_push g path token =
     (let sb = ncl_pointer_escape g token (snd (put_char g (CHR ''/'')
                (snd (put_text g (case path of None \<Rightarrow> ''#'' | Some p \<Rightarrow> p) ncl_strbuf_init))))
      in map_option text_of (fst (ncl_strbuf_detach g sb)))"

definition ncl_pointer_push_index :: "grant \<Rightarrow> string option \<Rightarrow> nat \<Rightarrow> string option" where
  "ncl_pointer_push_index g path i = ncl_pointer_push g path (fmt_u i)"

text \<open>One token, unescaped, and the rest; the buffer takes \<open>NCL_PATH_MAX_BUF - 1\<close> characters.\<close>

definition unescape :: "char \<Rightarrow> string \<Rightarrow> char \<times> string" where
  "unescape c s =
     (if c = CHR ''~'' \<and> s \<noteq> [] \<and> hd s = CHR ''0'' then (CHR ''~'', tl s)
      else if c = CHR ''~'' \<and> s \<noteq> [] \<and> hd s = CHR ''1'' then (CHR ''/'', tl s)
      else (c, s))"

lemma unescape_length: "length (snd (unescape c s)) \<le> length s"
  by (simp add: unescape_def)

function pointer_token :: "nat \<Rightarrow> string \<Rightarrow> string \<times> string" where
  "pointer_token used [] = ([], [])"
| "pointer_token used (c # s) =
     (if c = CHR ''/'' \<or> used + 1 \<ge> NCL_PATH_MAX_BUF then ([], c # s)
      else (let x = unescape c s; rest = pointer_token (used + 1) (snd x) in (fst x # fst rest, snd rest)))"
  by pat_completeness auto
termination
  by (relation "measure (\<lambda>(used, s). length s)") (simp_all add: less_Suc_eq_le unescape_length)

lemma pointer_token_length: "length (snd (pointer_token used s)) \<le> length s"
proof (induction used s rule: pointer_token.induct)
  case (2 used c s)
  show ?case
  proof (cases "c = CHR ''/'' \<or> used + 1 \<ge> NCL_PATH_MAX_BUF")
    case False
    then have "length (snd (pointer_token (used + 1) (snd (unescape c s)))) \<le> length (snd (unescape c s))"
      using 2 by simp
    also have "\<dots> \<le> length s" by (rule unescape_length)
    finally show ?thesis using False by (simp add: Let_def)
  qed auto
qed simp

lemma pointer_token_rest: "(token, r) = pointer_token used s \<Longrightarrow> length r \<le> length s"
  by (metis pointer_token_length snd_conv)

definition pointer_step :: "'d json option \<Rightarrow> string \<Rightarrow> 'd json option" where
  "pointer_step current token =
     (if ncl_json_type_of current = NCL_JSON_OBJECT then ncl_json_obj_get current (Some token)
      else if ncl_json_type_of current = NCL_JSON_ARRAY
      then (let i = fst (strtoll token) in if i \<ge> 0 then ncl_json_arr_get current (nat i) else None)
      else None)"

function pointer_walk :: "'d json option \<Rightarrow> string \<Rightarrow> 'd json option" where
  "pointer_walk current [] = current"
| "pointer_walk current (c # s) =
     (if c \<noteq> CHR ''/'' then None
      else (case pointer_token 0 s of
          (token, r) \<Rightarrow>
            (case pointer_step current token of None \<Rightarrow> None | Some j \<Rightarrow> pointer_walk (Some j) r)))"
  by pat_completeness auto
termination
  by (relation "measure (\<lambda>(current, s). length s)")
     (auto dest: pointer_token_rest simp: less_Suc_eq_le)

definition ncl_pointer_resolve :: "'d json \<Rightarrow> string \<Rightarrow> 'd json option" where
  "ncl_pointer_resolve root ref = (if ref = [] \<or> hd ref \<noteq> CHR ''#'' then None else pointer_walk (Some root) (tl ref))"

section \<open>Types\<close>

definition ncl_schema_type_matches :: "'d json \<Rightarrow> string option \<Rightarrow> bool" where
  "ncl_schema_type_matches v type =
     (case type of
        None \<Rightarrow> False
      | Some t \<Rightarrow>
          if t = ''null'' then ncl_json_type_of (Some v) = NCL_JSON_NULL
          else if t = ''boolean'' then ncl_json_type_of (Some v) = NCL_JSON_BOOL
          else if t = ''object'' then ncl_json_type_of (Some v) = NCL_JSON_OBJECT
          else if t = ''array'' then ncl_json_type_of (Some v) = NCL_JSON_ARRAY
          else if t = ''string'' then ncl_json_type_of (Some v) = NCL_JSON_STRING
          else if t = ''number'' then ncl_json_type_of (Some v) = NCL_JSON_NUMBER
          else if t = ''integer''
          then ncl_json_type_of (Some v) = NCL_JSON_NUMBER \<and> is_integer_text (ncl_json_number_raw (Some v))
          else False)"

definition ncl_schema_accepts_type :: "'d json option \<Rightarrow> 'd json \<Rightarrow> bool" where
  "ncl_schema_accepts_type keyword v =
     (case keyword of
        None \<Rightarrow> True
      | Some k \<Rightarrow>
          (case k of
             J_String s \<Rightarrow> ncl_schema_type_matches v (ncl_json_as_string keyword)
           | J_Array xs c \<Rightarrow> list_ex (\<lambda>x. ncl_schema_type_matches v (ncl_json_as_string (Some x))) xs
           | _ \<Rightarrow> True))"

section \<open>Patterns\<close>

definition PATTERN_ENTRY_SIZE :: nat where
  "PATTERN_ENTRY_SIZE = 16"

fun pattern_search :: "(string \<times> ncl_regex option) option list \<Rightarrow> string \<Rightarrow> ncl_regex option" where
  "pattern_search [] pattern = None"
| "pattern_search (e # es) pattern =
     (case e of
        None \<Rightarrow> pattern_search es pattern
      | Some (p, rx) \<Rightarrow> if p = pattern then rx else pattern_search es pattern)"

definition ncl_schema_pattern :: "grant \<Rightarrow> 'd ncl_schema \<Rightarrow> string option \<Rightarrow> ncl_regex option \<times> 'd ncl_schema" where
  "ncl_schema_pattern g schema pattern =
     (case pattern of
        None \<Rightarrow> (None, schema)
      | Some p \<Rightarrow>
          (case pattern_search (pv_items (sc_patterns schema)) p of
             Some rx \<Rightarrow> (Some rx, schema)
           | None \<Rightarrow>
               if \<not> g PATTERN_ENTRY_SIZE then (None, schema)
               else (let name = ncl_strdup g (Some p); rx = fst (ncl_regex_compile g (Some p) None)
                     in case name of
                          None \<Rightarrow> (None, schema)
                        | Some n \<Rightarrow>
                            (case ncl_ptrvec_push g (sc_patterns schema) (Some (n, rx)) of
                               (rc, v) \<Rightarrow> ((if rc = NCL_OK then rx else None), schema\<lparr>sc_patterns := v\<rparr>)))))"

section \<open>Formats\<close>

text \<open>
  \<open>sscanf\<close>: \<open>%4d\<close> skips blanks and takes a sign and digits within its width; an ordinary
  character matches itself.
\<close>

definition scan_int :: "nat \<Rightarrow> string \<Rightarrow> (int \<times> string) option" where
  "scan_int width s =
     (let r = dropWhile ncl_isspace_ascii s; t = take width r;
          sign = (if t \<noteq> [] \<and> (hd t = CHR ''-'' \<or> hd t = CHR ''+'') then 1 else 0);
          ds = takeWhile is_digit (drop sign t)
      in if ds = [] then None
         else Some ((if sign = 1 \<and> hd t = CHR ''-'' then - dec_value ds else dec_value ds), drop (sign + length ds) r))"

fun scan_ints :: "(nat \<times> char option) list \<Rightarrow> string \<Rightarrow> int list option" where
  "scan_ints [] s = Some []"
| "scan_ints ((width, sep) # fs) s =
     (case scan_int width s of
        None \<Rightarrow> None
      | Some (v, r) \<Rightarrow>
          (case sep of
             None \<Rightarrow> map_option (\<lambda>vs. v # vs) (scan_ints fs r)
           | Some c \<Rightarrow>
               if r \<noteq> [] \<and> hd r = c then map_option (\<lambda>vs. v # vs) (scan_ints fs (tl r)) else None))"

definition ncl_format_date_time :: "string \<Rightarrow> bool" where
  "ncl_format_date_time t =
     (if length t < 19 then False
      else case scan_ints [(4, Some (CHR ''-'')), (2, Some (CHR ''-'')), (2, Some (CHR ''T'')),
                (2, Some (CHR '':'')), (2, Some (CHR '':'')), (2, None)] t of
        Some [year, month, day, hour, minute, second] \<Rightarrow>
          if month < 1 \<or> month > 12 \<or> day < 1 \<or> day > 31 \<or> hour > 23 \<or> minute > 59 \<or> second > 60 then False
          else t ! 10 = CHR ''T'' \<or> t ! 10 = CHR ''t''
      | _ \<Rightarrow> False)"

definition ncl_format_date :: "string \<Rightarrow> bool" where
  "ncl_format_date t =
     (if length t \<noteq> 10 then False
      else case scan_ints [(4, Some (CHR ''-'')), (2, Some (CHR ''-'')), (2, None)] t of
        Some [year, month, day] \<Rightarrow> month \<ge> 1 \<and> month \<le> 12 \<and> day \<ge> 1 \<and> day \<le> 31
      | _ \<Rightarrow> False)"

definition ncl_format_time :: "string \<Rightarrow> bool" where
  "ncl_format_time t =
     (if length t < 8 then False
      else case scan_ints [(2, Some (CHR '':'')), (2, Some (CHR '':'')), (2, None)] t of
        Some [hour, minute, second] \<Rightarrow> hour \<le> 23 \<and> minute \<le> 59 \<and> second \<le> 60
      | _ \<Rightarrow> False)"

text \<open>\<open>strchr\<close>: the text from the character on.\<close>

definition strchr :: "string \<Rightarrow> char \<Rightarrow> string option" where
  "strchr s c = (case dropWhile (\<lambda>x. x \<noteq> c) s of [] \<Rightarrow> None | r \<Rightarrow> Some r)"

definition ncl_format_email :: "string \<Rightarrow> bool" where
  "ncl_format_email t =
     (case strchr t (CHR ''@'') of
        None \<Rightarrow> False
      | Some at \<Rightarrow>
          if at = t then False
          else if strchr (tl at) (CHR ''@'') \<noteq> None then False
          else (case strchr (tl at) (CHR ''.'') of None \<Rightarrow> False | Some dot \<Rightarrow> dot \<noteq> tl at \<and> tl dot \<noteq> []))"

definition ncl_format_ipv4 :: "'d schema_env \<Rightarrow> string \<Rightarrow> bool" where
  "ncl_format_ipv4 env t = se_ipv4 env t"

definition ncl_format_ipv6 :: "'d schema_env \<Rightarrow> string \<Rightarrow> bool" where
  "ncl_format_ipv6 env t = se_ipv6 env t"

fun uuid_loop :: "nat \<Rightarrow> string \<Rightarrow> bool" where
  "uuid_loop i [] = True"
| "uuid_loop i (c # s) =
     (if i = 8 \<or> i = 13 \<or> i = 18 \<or> i = 23 then (if c \<noteq> CHR ''-'' then False else uuid_loop (Suc i) s)
      else if \<not> ((CHR ''0'' \<le> c \<and> c \<le> CHR ''9'') \<or> (CHR ''a'' \<le> c \<and> c \<le> CHR ''f'') \<or> (CHR ''A'' \<le> c \<and> c \<le> CHR ''F''))
      then False else uuid_loop (Suc i) s)"

definition ncl_format_uuid :: "string \<Rightarrow> bool" where
  "ncl_format_uuid t = (if length t \<noteq> 36 then False else uuid_loop 0 t)"

definition ncl_format_uri :: "string \<Rightarrow> bool" where
  "ncl_format_uri t =
     (case strchr t (CHR '':'') of
        None \<Rightarrow> False
      | Some colon \<Rightarrow>
          if colon = t then False
          else (length colon > 2 \<and> colon ! 1 = CHR ''/'' \<and> colon ! 2 = CHR ''/'') \<or> length colon > 1)"

definition ncl_format_ok :: "'d schema_env \<Rightarrow> string option \<Rightarrow> string option \<Rightarrow> bool" where
  "ncl_format_ok env format t =
     (case (format, t) of
        (Some f, Some s) \<Rightarrow>
          if f = ''date-time'' then ncl_format_date_time s
          else if f = ''date'' then ncl_format_date s
          else if f = ''time'' then ncl_format_time s
          else if f = ''email'' then ncl_format_email s
          else if f = ''ipv4'' then ncl_format_ipv4 env s
          else if f = ''ipv6'' then ncl_format_ipv6 env s
          else if f = ''uuid'' then ncl_format_uuid s
          else if f = ''uri'' \<or> f = ''uri-reference'' then ncl_format_uri s
          else True
      | _ \<Rightarrow> True)"

end
