(* ===== verification/Schema_Validate.thy ===== *)
theory Schema_Validate
  imports Schema
begin

text \<open>
  The validators of \<^verbatim>\<open>schema.c\<close> and the public functions. The validators of arrays, objects and
  combinators call \<open>ncl_validate_value\<close> back on smaller rules; they take it as an argument. The
  counter of nested references goes up around one call only, so it is an argument too.
\<close>

type_synonym 'd sub_validator = "'d json \<Rightarrow> 'd json \<Rightarrow> string option \<Rightarrow> 'd validate_ctx \<Rightarrow> 'd validate_ctx"

section \<open>Keywords\<close>

definition keyword :: "'d json \<Rightarrow> string \<Rightarrow> 'd json option" where
  "keyword rule name = ncl_json_obj_get (Some rule) (Some name)"

definition ncl_json_double_of :: "'d schema_env \<Rightarrow> 'd json \<Rightarrow> 'd option" where
  "ncl_json_double_of env v =
     (if ncl_json_type_of (Some v) = NCL_JSON_NUMBER then fst (ncl_json_as_double (se_ops env) (Some v)) else None)"

definition ncl_json_same :: "'d schema_env \<Rightarrow> 'd json \<Rightarrow> 'd json \<Rightarrow> bool" where
  "ncl_json_same env a b = fst (ncl_json_equals (se_ops env) False (Some a) (Some b))"

definition limit_of :: "'d schema_env \<Rightarrow> 'd json \<Rightarrow> string \<Rightarrow> 'd option" where
  "limit_of env rule name = (case keyword rule name of None \<Rightarrow> None | Some k \<Rightarrow> ncl_json_double_of env k)"

definition flag_of :: "'d schema_env \<Rightarrow> 'd json \<Rightarrow> string \<Rightarrow> bool" where
  "flag_of env rule name = fst (ncl_json_obj_get_bool (se_ops env) (Some rule) (Some name) False)"

section \<open>Numbers\<close>

text \<open>One bound: the message if the actual value violates the limit.\<close>

definition check_limit ::
  "grant \<Rightarrow> 'd schema_env \<Rightarrow> 'd option \<Rightarrow> ('d \<Rightarrow> bool) \<Rightarrow> string \<Rightarrow> 'd \<Rightarrow> string option \<Rightarrow> 'd validate_ctx \<Rightarrow> 'd validate_ctx" where
  "check_limit g env limit violated name actual path ctx =
     (case limit of
        None \<Rightarrow> ctx
      | Some l \<Rightarrow>
          if violated l
          then report g path (''expected '' @ name @ '': '' @ fmt_g env l @ '', found '' @ fmt_g env actual) ctx
          else ctx)"

text \<open>An exclusive bound: a number of its own, or in draft-04 style a flag that changes the other bound.\<close>

definition exclusive_limit :: "'d schema_env \<Rightarrow> 'd json \<Rightarrow> string \<Rightarrow> string \<Rightarrow> 'd option" where
  "exclusive_limit env rule name base =
     (case keyword rule name of
        None \<Rightarrow> None
      | Some k \<Rightarrow>
          if ncl_json_type_of (Some k) = NCL_JSON_BOOL
          then (if flag_of env rule name then limit_of env rule base else None)
          else ncl_json_double_of env k)"

definition not_multiple :: "'d schema_env \<Rightarrow> 'd \<Rightarrow> 'd \<Rightarrow> bool" where
  "not_multiple env actual limit =
     (let ops = se_ops env; lit = (\<lambda>t. fst (d_strtod ops t)); zero = d_of_int ops 0;
          quotient = se_div env actual limit;
          rounded = d_of_int ops (d_trunc ops (se_add env quotient (if se_lt env quotient zero then lit ''-0.5'' else lit ''0.5'')))
      in se_lt env (lit ''1e-9'') (se_sub env (se_mul env rounded limit) actual)
       \<or> se_lt env (lit ''1e-9'') (se_sub env actual (se_mul env rounded limit)))"

definition check_multiple :: "grant \<Rightarrow> 'd schema_env \<Rightarrow> 'd option \<Rightarrow> 'd \<Rightarrow> string option \<Rightarrow> 'd validate_ctx \<Rightarrow> 'd validate_ctx" where
  "check_multiple g env limit actual path ctx =
     (case limit of
        None \<Rightarrow> ctx
      | Some l \<Rightarrow>
          if se_lt env (d_of_int (se_ops env) 0) l \<and> not_multiple env actual l
          then report g path (fmt_g env actual @ '' is not a multiple of '' @ fmt_g env l) ctx
          else ctx)"

definition ncl_validate_number ::
  "grant \<Rightarrow> 'd schema_env \<Rightarrow> 'd json \<Rightarrow> 'd json \<Rightarrow> string option \<Rightarrow> 'd validate_ctx \<Rightarrow> 'd validate_ctx" where
  "ncl_validate_number g env rule v path ctx =
     (case ncl_json_double_of env v of
        None \<Rightarrow> ctx
      | Some actual \<Rightarrow>
          (let c1 = check_limit g env (limit_of env rule ''minimum'') (\<lambda>l. se_lt env actual l) ''minimum'' actual path ctx;
               c2 = check_limit g env (limit_of env rule ''maximum'') (\<lambda>l. se_lt env l actual) ''maximum'' actual path c1;
               c3 = check_limit g env (exclusive_limit env rule ''exclusiveMinimum'' ''minimum'')
                      (\<lambda>l. se_le env actual l) ''exclusiveMinimum'' actual path c2;
               c4 = check_limit g env (exclusive_limit env rule ''exclusiveMaximum'' ''maximum'')
                      (\<lambda>l. se_le env l actual) ''exclusiveMaximum'' actual path c3
           in check_multiple g env (limit_of env rule ''multipleOf'') actual path c4))"

section \<open>Counts\<close>

text \<open>The six keywords that bound a length: \<open>violated\<close> compares the count with the bound.\<close>

definition count_limit :: "'d schema_env \<Rightarrow> 'd json \<Rightarrow> string \<Rightarrow> 'd option" where
  "count_limit env rule name =
     (case keyword rule name of
        None \<Rightarrow> None
      | Some k \<Rightarrow>
          if ncl_json_type_of (Some k) = NCL_JSON_NUMBER
          then Some (fst (ncl_json_obj_get_double (se_ops env) (Some rule) (Some name) (d_of_int (se_ops env) 0)))
          else None)"

definition check_count ::
  "grant \<Rightarrow> 'd schema_env \<Rightarrow> 'd json \<Rightarrow> string \<Rightarrow> ('d \<Rightarrow> 'd \<Rightarrow> bool) \<Rightarrow> string \<Rightarrow> string \<Rightarrow> nat \<Rightarrow> string option \<Rightarrow>
   'd validate_ctx \<Rightarrow> 'd validate_ctx" where
  "check_count g env rule name violated before between n path ctx =
     (case count_limit env rule name of
        None \<Rightarrow> ctx
      | Some l \<Rightarrow>
          if violated (d_of_int (se_ops env) (int n)) l
          then report g path (before @ fmt_g env l @ between @ fmt_u n) ctx
          else ctx)"

section \<open>Strings\<close>

definition check_pattern :: "grant \<Rightarrow> 'd json \<Rightarrow> string \<Rightarrow> string option \<Rightarrow> 'd validate_ctx \<Rightarrow> 'd validate_ctx" where
  "check_pattern g rule t path ctx =
     (case keyword rule ''pattern'' of
        Some (J_String s) \<Rightarrow>
          (case ncl_schema_pattern g (vc_schema ctx) (Some (cstr_of s)) of
             (regex, schema) \<Rightarrow>
               (let c1 = ctx\<lparr>vc_schema := schema\<rparr>
                in if regex \<noteq> None \<and> \<not> ncl_regex_search regex (Some t)
                   then report g path (''string ['' @ t @ ''] does not match pattern '' @ cstr_of s) c1
                   else c1))
      | _ \<Rightarrow> ctx)"

definition check_format :: "grant \<Rightarrow> 'd schema_env \<Rightarrow> 'd json \<Rightarrow> string \<Rightarrow> string option \<Rightarrow> 'd validate_ctx \<Rightarrow> 'd validate_ctx" where
  "check_format g env rule t path ctx =
     (case keyword rule ''format'' of
        Some (J_String s) \<Rightarrow>
          if \<not> ncl_format_ok env (Some (cstr_of s)) (Some t)
          then report g path (''string ['' @ t @ ''] is not a valid '' @ cstr_of s) ctx
          else ctx
      | _ \<Rightarrow> ctx)"

definition ncl_validate_string ::
  "grant \<Rightarrow> 'd schema_env \<Rightarrow> 'd json \<Rightarrow> 'd json \<Rightarrow> string option \<Rightarrow> 'd validate_ctx \<Rightarrow> 'd validate_ctx" where
  "ncl_validate_string g env rule v path ctx =
     (case ncl_json_as_string (Some v) of
        None \<Rightarrow> ctx
      | Some t \<Rightarrow>
          (let c1 = check_count g env rule ''minLength'' (se_lt env) ''expected minLength: '' '', actual: '' (length t) path ctx;
               c2 = check_count g env rule ''maxLength'' (\<lambda>n l. se_lt env l n) ''expected maxLength: '' '', actual: '' (length t) path c1;
               c3 = check_pattern g rule t path c2
           in check_format g env rule t path c3))"

section \<open>Arrays\<close>

fun repeated_item :: "'d schema_env \<Rightarrow> 'd json list \<Rightarrow> bool" where
  "repeated_item env [] = False"
| "repeated_item env (x # xs) = (if list_ex (ncl_json_same env x) xs then True else repeated_item env xs)"

text \<open>An item of a tuple; \<open>ncl_json_as_bool\<close> without a place for the result always says no.\<close>

definition tuple_item ::
  "grant \<Rightarrow> 'd sub_validator \<Rightarrow> 'd json list \<Rightarrow> 'd json option \<Rightarrow> string option \<Rightarrow> nat \<times> 'd json \<Rightarrow> 'd validate_ctx \<Rightarrow> 'd validate_ctx" where
  "tuple_item g vv rules extra path x ctx =
     (case x of
        (i, v) \<Rightarrow>
          (let child = ncl_pointer_push_index g path i
           in if i < length rules then vv (rules ! i) v child ctx
              else (case extra of
                  None \<Rightarrow> ctx
                | Some e \<Rightarrow>
                    if ncl_json_type_of extra = NCL_JSON_OBJECT then vv e v child ctx
                    else if ncl_json_is_null extra = False \<and> ncl_json_type_of extra = NCL_JSON_BOOL
                    then report g path (''array index '' @ fmt_u i @ '' is not permitted'') ctx
                    else ctx)))"

definition ncl_validate_array ::
  "grant \<Rightarrow> 'd schema_env \<Rightarrow> 'd sub_validator \<Rightarrow> 'd json \<Rightarrow> 'd json \<Rightarrow> string option \<Rightarrow> 'd validate_ctx \<Rightarrow> 'd validate_ctx" where
  "ncl_validate_array g env vv rule v path ctx =
     (let xs = items (Some v);
          c1 = check_count g env rule ''minItems'' (se_lt env) ''expected minimum item count: '' '', found: '' (length xs) path ctx;
          c2 = check_count g env rule ''maxItems'' (\<lambda>n l. se_lt env l n) ''expected maximum item count: '' '', found: '' (length xs) path c1;
          c3 = (if flag_of env rule ''uniqueItems'' \<and> repeated_item env xs
                then report g path ''array items are not unique'' c2 else c2)
      in case keyword rule ''items'' of
           None \<Rightarrow> c3
         | Some sub \<Rightarrow>
             (case sub of
                J_Array rules c \<Rightarrow>
                  fold (tuple_item g vv rules (keyword rule ''additionalItems'') path) (enumerate 0 xs) c3
              | _ \<Rightarrow> fold (\<lambda>(i, x). vv sub x (ncl_pointer_push_index g path i)) (enumerate 0 xs) c3))"

section \<open>Objects\<close>

definition check_required :: "grant \<Rightarrow> 'd json \<Rightarrow> 'd json \<Rightarrow> string option \<Rightarrow> 'd validate_ctx \<Rightarrow> 'd validate_ctx" where
  "check_required g rule v path ctx =
     (case keyword rule ''required'' of
        Some (J_Array names c) \<Rightarrow>
          fold (\<lambda>x ctx.
              case ncl_json_as_string (Some x) of
                None \<Rightarrow> ctx
              | Some name \<Rightarrow>
                  if \<not> ncl_json_obj_has (Some v) (Some name)
                  then report g path (''required key ['' @ name @ ''] not found'') ctx else ctx) names ctx
      | _ \<Rightarrow> ctx)"

definition member_rule ::
  "grant \<Rightarrow> 'd sub_validator \<Rightarrow> 'd json option \<Rightarrow> 'd json option \<Rightarrow> string option \<Rightarrow> string \<times> 'd json \<Rightarrow> 'd validate_ctx \<Rightarrow> 'd validate_ctx" where
  "member_rule g vv properties additional path x ctx =
     (case x of
        (name, v) \<Rightarrow>
          (let child = ncl_pointer_push g path name
           in case ncl_json_obj_get properties (Some name) of
                Some sub \<Rightarrow> vv sub v child ctx
              | None \<Rightarrow>
                  (case additional of
                     None \<Rightarrow> ctx
                   | Some a \<Rightarrow>
                       (case a of
                          J_Object ms c \<Rightarrow> vv a v child ctx
                        | J_Bool allowed \<Rightarrow>
                            if \<not> allowed then report g path (''extraneous key ['' @ name @ ''] is not permitted'') ctx else ctx
                        | _ \<Rightarrow> ctx))))"

definition ncl_validate_object ::
  "grant \<Rightarrow> 'd schema_env \<Rightarrow> 'd sub_validator \<Rightarrow> 'd json \<Rightarrow> 'd json \<Rightarrow> string option \<Rightarrow> 'd validate_ctx \<Rightarrow> 'd validate_ctx" where
  "ncl_validate_object g env vv rule v path ctx =
     (let ms = members (Some v);
          c1 = check_required g rule v path ctx;
          c2 = check_count g env rule ''minProperties'' (se_lt env) ''expected minimum property count: '' '', found: '' (length ms) path c1;
          c3 = check_count g env rule ''maxProperties'' (\<lambda>n l. se_lt env l n) ''expected maximum property count: '' '', found: '' (length ms) path c2
      in fold (member_rule g vv (keyword rule ''properties'') (keyword rule ''additionalProperties'') path) ms c3)"

section \<open>Combinators\<close>

text \<open>A branch whose messages only tell whether it matched.\<close>

definition ncl_validate_silently ::
  "'d sub_validator \<Rightarrow> 'd json \<Rightarrow> 'd json \<Rightarrow> string option \<Rightarrow> 'd validate_ctx \<Rightarrow> bool \<times> 'd validate_ctx" where
  "ncl_validate_silently vv rule v path ctx =
     (let c1 = vv rule v path (ctx\<lparr>vc_errors := Some ncl_strvec_init\<rparr>)
      in (case vc_errors c1 of None \<Rightarrow> True | Some scratch \<Rightarrow> sv_items scratch = [],
          c1\<lparr>vc_errors := vc_errors ctx\<rparr>))"

text \<open>\<open>anyOf\<close> stops at the first branch that matches, \<open>oneOf\<close> counts them all.\<close>

fun any_loop :: "'d sub_validator \<Rightarrow> 'd json list \<Rightarrow> 'd json \<Rightarrow> string option \<Rightarrow> 'd validate_ctx \<Rightarrow> bool \<times> 'd validate_ctx" where
  "any_loop vv [] v path ctx = (False, ctx)"
| "any_loop vv (r # rs) v path ctx =
     (case ncl_validate_silently vv r v path ctx of
        (ok, c1) \<Rightarrow> if ok then (True, c1) else any_loop vv rs v path c1)"

fun one_loop :: "'d sub_validator \<Rightarrow> 'd json list \<Rightarrow> nat \<Rightarrow> 'd json \<Rightarrow> string option \<Rightarrow> 'd validate_ctx \<Rightarrow> nat \<times> 'd validate_ctx" where
  "one_loop vv [] n v path ctx = (n, ctx)"
| "one_loop vv (r # rs) n v path ctx =
     (case ncl_validate_silently vv r v path ctx of
        (ok, c1) \<Rightarrow> one_loop vv rs (if ok then n + 1 else n) v path c1)"

definition check_all_of :: "'d sub_validator \<Rightarrow> 'd json \<Rightarrow> 'd json \<Rightarrow> string option \<Rightarrow> 'd validate_ctx \<Rightarrow> 'd validate_ctx" where
  "check_all_of vv rule v path ctx =
     (case keyword rule ''allOf'' of Some (J_Array rs c) \<Rightarrow> fold (\<lambda>r. vv r v path) rs ctx | _ \<Rightarrow> ctx)"

definition check_any_of :: "grant \<Rightarrow> 'd sub_validator \<Rightarrow> 'd json \<Rightarrow> 'd json \<Rightarrow> string option \<Rightarrow> 'd validate_ctx \<Rightarrow> 'd validate_ctx" where
  "check_any_of g vv rule v path ctx =
     (case keyword rule ''anyOf'' of
        Some (J_Array rs c) \<Rightarrow>
          (case any_loop vv rs v path ctx of
             (matched, c1) \<Rightarrow>
               if \<not> matched then report g path (''anyOf: none of the '' @ fmt_u (length rs) @ '' subschemas matched'') c1 else c1)
      | _ \<Rightarrow> ctx)"

definition check_one_of :: "grant \<Rightarrow> 'd sub_validator \<Rightarrow> 'd json \<Rightarrow> 'd json \<Rightarrow> string option \<Rightarrow> 'd validate_ctx \<Rightarrow> 'd validate_ctx" where
  "check_one_of g vv rule v path ctx =
     (case keyword rule ''oneOf'' of
        Some (J_Array rs c) \<Rightarrow>
          (case one_loop vv rs 0 v path ctx of
             (matched, c1) \<Rightarrow>
               if matched \<noteq> 1
               then report g path (''oneOf: '' @ fmt_u matched @ '' subschemas matched, expected exactly one'') c1 else c1)
      | _ \<Rightarrow> ctx)"

definition check_not :: "grant \<Rightarrow> 'd sub_validator \<Rightarrow> 'd json \<Rightarrow> 'd json \<Rightarrow> string option \<Rightarrow> 'd validate_ctx \<Rightarrow> 'd validate_ctx" where
  "check_not g vv rule v path ctx =
     (case keyword rule ''not'' of
        None \<Rightarrow> ctx
      | Some k \<Rightarrow>
          (case ncl_validate_silently vv k v path ctx of
             (ok, c1) \<Rightarrow>
               if ok then report g path (''the '' @ [CHR 0x60] @ ''not'' @ [CHR 0x60] @ '' schema matched'') c1 else c1))"

definition check_if :: "'d sub_validator \<Rightarrow> 'd json \<Rightarrow> 'd json \<Rightarrow> string option \<Rightarrow> 'd validate_ctx \<Rightarrow> 'd validate_ctx" where
  "check_if vv rule v path ctx =
     (case keyword rule ''if'' of
        None \<Rightarrow> ctx
      | Some k \<Rightarrow>
          (case ncl_validate_silently vv k v path ctx of
             (ok, c1) \<Rightarrow>
               (case (if ok then keyword rule ''then'' else keyword rule ''else'') of
                  None \<Rightarrow> c1 | Some branch \<Rightarrow> vv branch v path c1)))"

definition ncl_validate_combinators ::
  "grant \<Rightarrow> 'd sub_validator \<Rightarrow> 'd json \<Rightarrow> 'd json \<Rightarrow> string option \<Rightarrow> 'd validate_ctx \<Rightarrow> 'd validate_ctx" where
  "ncl_validate_combinators g vv rule v path ctx =
     check_if vv rule v path (check_not g vv rule v path (check_one_of g vv rule v path
       (check_any_of g vv rule v path (check_all_of vv rule v path ctx))))"

section \<open>Enumerations\<close>

definition ncl_validate_enum ::
  "grant \<Rightarrow> 'd schema_env \<Rightarrow> 'd json \<Rightarrow> 'd json \<Rightarrow> string option \<Rightarrow> 'd validate_ctx \<Rightarrow> 'd validate_ctx" where
  "ncl_validate_enum g env rule v path ctx =
     (let c1 = (case keyword rule ''enum'' of
            Some (J_Array xs c) \<Rightarrow>
              if list_ex (\<lambda>x. ncl_json_same env x v) xs then ctx
              else report g path (''value '' @ rendered g (se_ops env) (Some v) @ '' is not defined in the enum'') ctx
          | _ \<Rightarrow> ctx)
      in case keyword rule ''const'' of
           None \<Rightarrow> c1
         | Some k \<Rightarrow>
             if ncl_json_same env k v then c1
             else report g path (''expected: '' @ rendered g (se_ops env) (Some k) @ '', found: ''
                    @ rendered g (se_ops env) (Some v)) c1)"

section \<open>Values\<close>

text \<open>The rules below a rule are smaller.\<close>

lemma keyword_smaller: "keyword rule name = Some x \<Longrightarrow> size x < size rule"
  unfolding keyword_def by (rule get_smaller)

lemma keyword_item_smaller: "\<lbrakk>keyword rule name = Some (J_Array xs c); x \<in> set xs\<rbrakk> \<Longrightarrow> size x < size rule"
  using keyword_smaller item_smaller by (metis order_less_trans)

lemma get_from_smaller: "ncl_json_obj_get (keyword rule name) k = Some x \<Longrightarrow> size x < size rule"
proof (cases "keyword rule name")
  case (Some p)
  assume "ncl_json_obj_get (keyword rule name) k = Some x"
  with Some have "size x < size p" using get_smaller by simp
  with keyword_smaller [OF Some] show ?thesis by simp
qed (simp add: ncl_json_obj_get_def ncl_json_obj_index_of_def)

text \<open>What a validator does depends on its argument for smaller rules only.\<close>

lemma silently_cong:
  assumes "\<And>v p c. f r v p c = f' r v p c"
  shows "ncl_validate_silently f r v path ctx = ncl_validate_silently f' r v path ctx"
  by (simp add: ncl_validate_silently_def assms)

lemma any_cong:
  assumes "\<And>r v p c. r \<in> set rs \<Longrightarrow> f r v p c = f' r v p c"
  shows "any_loop f rs v path ctx = any_loop f' rs v path ctx"
  using assms by (induction rs arbitrary: ctx) (simp_all add: silently_cong [of f _ f'] split: prod.split)

lemma one_cong:
  assumes "\<And>r v p c. r \<in> set rs \<Longrightarrow> f r v p c = f' r v p c"
  shows "one_loop f rs n v path ctx = one_loop f' rs n v path ctx"
  using assms by (induction rs arbitrary: n ctx) (simp_all add: silently_cong [of f _ f'] split: prod.split)

lemma combinators_cong [fundef_cong]:
  assumes eqs: "g = g'" "rule = rule'" "v = v'" "path = path'" "ctx = ctx'"
    and f: "\<And>r v p c. size r < size rule' \<Longrightarrow> f r v p c = f' r v p c"
  shows "ncl_validate_combinators g f rule v path ctx = ncl_validate_combinators g' f' rule' v' path' ctx'"
proof -
  have "check_all_of f rule v path ctx = check_all_of f' rule v path ctx" for ctx
    unfolding check_all_of_def
    by (auto split: option.split json.split intro!: fold_cong simp: f eqs keyword_item_smaller)
  moreover have "check_any_of g f rule v path ctx = check_any_of g f' rule v path ctx" for ctx
    unfolding check_any_of_def
    by (auto split: option.split json.split simp: f eqs keyword_item_smaller any_cong [of _ f f'])
  moreover have "check_one_of g f rule v path ctx = check_one_of g f' rule v path ctx" for ctx
    unfolding check_one_of_def
    by (auto split: option.split json.split simp: f eqs keyword_item_smaller one_cong [of _ f f'])
  moreover have "check_not g f rule v path ctx = check_not g f' rule v path ctx" for ctx
    unfolding check_not_def
    by (auto split: option.split simp: f eqs keyword_smaller silently_cong [of f _ f'])
  moreover have "check_if f rule v path ctx = check_if f' rule v path ctx" for ctx
    unfolding check_if_def
    by (auto split: option.split prod.split simp: f eqs keyword_smaller silently_cong [of f _ f'])
  ultimately show ?thesis by (simp add: ncl_validate_combinators_def eqs)
qed

lemma array_cong [fundef_cong]:
  assumes eqs: "g = g'" "env = env'" "rule = rule'" "v = v'" "path = path'" "ctx = ctx'"
    and f: "\<And>r v p c. size r < size rule' \<Longrightarrow> f r v p c = f' r v p c"
  shows "ncl_validate_array g env f rule v path ctx = ncl_validate_array g' env' f' rule' v' path' ctx'"
proof -
  have k: "keyword rule name = Some x \<Longrightarrow> f x v p c = f' x v p c" for name x v p c
    using f keyword_smaller eqs by metis
  have i: "keyword rule name = Some (J_Array xs n) \<Longrightarrow> x \<in> set xs \<Longrightarrow> f x v p c = f' x v p c" for name xs n x v p c
    using f keyword_item_smaller eqs by metis
  have t: "tuple_item g f rules (keyword rule ''additionalItems'') path = tuple_item g f' rules (keyword rule ''additionalItems'') path"
    if "keyword rule ''items'' = Some (J_Array rules n)" for rules n
    by (intro ext, unfold tuple_item_def Let_def) (auto split: option.split prod.split intro: k i [OF that])
  have folds: "fold (\<lambda>(i, x). f sub x (ncl_pointer_push_index g path i)) es c = fold (\<lambda>(i, x). f' sub x (ncl_pointer_push_index g path i)) es c"
    if "keyword rule ''items'' = Some sub" for sub es c
    by (rule fold_cong) (auto intro: k [OF that])
  have "ncl_validate_array g env f rule v path ctx = ncl_validate_array g env f' rule v path ctx"
    unfolding ncl_validate_array_def Let_def
    by (cases "keyword rule ''items''") (auto split: json.split simp: folds t)
  then show ?thesis by (simp add: eqs)
qed

lemma object_cong [fundef_cong]:
  assumes eqs: "g = g'" "env = env'" "rule = rule'" "v = v'" "path = path'" "ctx = ctx'"
    and f: "\<And>r v p c. size r < size rule' \<Longrightarrow> f r v p c = f' r v p c"
  shows "ncl_validate_object g env f rule v path ctx = ncl_validate_object g' env' f' rule' v' path' ctx'"
proof -
  have k: "keyword rule name = Some x \<Longrightarrow> f x v p c = f' x v p c" for name x v p c
    using f keyword_smaller eqs by metis
  have k2: "ncl_json_obj_get (keyword rule name) n = Some x \<Longrightarrow> f x v p c = f' x v p c" for name n x v p c
    using f get_from_smaller eqs by metis
  have "member_rule g f (keyword rule ''properties'') (keyword rule ''additionalProperties'') path x c
      = member_rule g f' (keyword rule ''properties'') (keyword rule ''additionalProperties'') path x c" for x c
    unfolding member_rule_def Let_def by (auto split: option.split prod.split json.split intro: k k2)
  then have "ncl_validate_object g env f rule v path ctx = ncl_validate_object g env f' rule v path ctx"
    unfolding ncl_validate_object_def Let_def by (auto intro!: fold_cong)
  then show ?thesis by (simp add: eqs)
qed

definition ref_of :: "'d json \<Rightarrow> string option" where
  "ref_of rule = (case keyword rule ''$ref'' of Some (J_String s) \<Rightarrow> Some (cstr_of s) | _ \<Rightarrow> None)"

definition is_object :: "'d json \<Rightarrow> bool" where
  "is_object j \<longleftrightarrow> ncl_json_type_of (Some j) = NCL_JSON_OBJECT"

text \<open>A reference goes one level deeper, everything else to a smaller rule.\<close>

function ncl_validate_value ::
  "grant \<Rightarrow> 'd schema_env \<Rightarrow> nat \<Rightarrow> 'd json \<Rightarrow> 'd json \<Rightarrow> string option \<Rightarrow> 'd validate_ctx \<Rightarrow> 'd validate_ctx" where
  "ncl_validate_value g env ref_depth rule v path ctx =
     (if rule = J_Bool False then report g path ([CHR 0x60] @ ''false'' @ [CHR 0x60] @ '' schema rejects every value'') ctx
      else if \<not> is_object rule then ctx
      else case ref_of rule of
        Some ref \<Rightarrow>
          if ref_depth \<ge> NCL_SCHEMA_MAX_REF_DEPTH then report g path ''$ref nesting is too deep'' ctx
          else (case ncl_pointer_resolve (sc_root (vc_schema ctx)) ref of
                  None \<Rightarrow> report g path (''cannot resolve $ref '' @ ref) ctx
                | Some target \<Rightarrow> ncl_validate_value g env (ref_depth + 1) target v path ctx)
      | None \<Rightarrow>
          if \<not> ncl_schema_accepts_type (keyword rule ''type'') v
          then report g path (''expected type: '' @ rendered g (se_ops env) (keyword rule ''type'') @ '', found: ''
                 @ ncl_json_type_label (Some v)) ctx
          else (let c1 = ncl_validate_enum g env rule v path ctx;
                    c2 = ncl_validate_combinators g (\<lambda>r w p c. ncl_validate_value g env ref_depth r w p c) rule v path c1
                in if ncl_json_type_of (Some v) = NCL_JSON_NUMBER then ncl_validate_number g env rule v path c2
                   else if ncl_json_type_of (Some v) = NCL_JSON_STRING then ncl_validate_string g env rule v path c2
                   else if ncl_json_type_of (Some v) = NCL_JSON_ARRAY
                   then ncl_validate_array g env (\<lambda>r w p c. ncl_validate_value g env ref_depth r w p c) rule v path c2
                   else if ncl_json_type_of (Some v) = NCL_JSON_OBJECT
                   then ncl_validate_object g env (\<lambda>r w p c. ncl_validate_value g env ref_depth r w p c) rule v path c2
                   else c2))"
  by pat_completeness auto
termination
  by (relation "measures [\<lambda>(g, env, ref_depth, rule, v, path, ctx). NCL_SCHEMA_MAX_REF_DEPTH - ref_depth,
        \<lambda>(g, env, ref_depth, rule, v, path, ctx). size rule]") auto

declare ncl_validate_value.simps [simp del]


section \<open>Compiling a schema\<close>

text \<open>
  Every text under a key \<open>pattern\<close>, at any place of the document except below \<open>$ref\<close>, must
  compile; the result says so, with the pattern cache filled.
\<close>

fun ncl_schema_check_patterns :: "grant \<Rightarrow> 'd json \<Rightarrow> 'd ncl_schema \<Rightarrow> bool \<times> 'd ncl_schema"
  and check_items :: "grant \<Rightarrow> 'd json list \<Rightarrow> 'd ncl_schema \<Rightarrow> bool \<times> 'd ncl_schema"
  and check_members :: "grant \<Rightarrow> (string \<times> 'd json) list \<Rightarrow> 'd ncl_schema \<Rightarrow> bool \<times> 'd ncl_schema" where
  "ncl_schema_check_patterns g (J_Array xs c) schema = check_items g xs schema"
| "ncl_schema_check_patterns g (J_Object ms c) schema =
     (case ncl_json_obj_get_string (Some (J_Object ms c :: 'd json)) (Some ''pattern'') of
        None \<Rightarrow> check_members g ms schema
      | Some pattern \<Rightarrow>
          (case ncl_schema_pattern g schema (Some pattern) of
             (regex, s1) \<Rightarrow> if regex = None then (False, s1) else check_members g ms s1))"
| "ncl_schema_check_patterns g j schema = (True, schema)"
| "check_items g [] schema = (True, schema)"
| "check_items g (x # xs) schema =
     (case ncl_schema_check_patterns g x schema of (ok, s1) \<Rightarrow> if \<not> ok then (False, s1) else check_items g xs s1)"
| "check_members g [] schema = (True, schema)"
| "check_members g ((k, x) # ms) schema =
     (if k = ''$ref'' then check_members g ms schema
      else case ncl_schema_check_patterns g x schema of
        (ok, s1) \<Rightarrow> if \<not> ok then (False, s1) else check_members g ms s1)"

text \<open>The caller's place for a message, as in the regular expression engine.\<close>

definition schema_message :: "grant \<Rightarrow> error_slot \<Rightarrow> string \<Rightarrow> error_slot" where
  "schema_message g e m = (case e of None \<Rightarrow> None | Some _ \<Rightarrow> Some (ncl_strdup g (Some m)))"

definition SCHEMA_SIZE :: nat where
  "SCHEMA_SIZE = 48"

text \<open>\<open>mutex\<close>: whether the platform gives a mutex.\<close>

definition ncl_schema_compile ::
  "grant \<Rightarrow> 'd double_ops \<Rightarrow> bool \<Rightarrow> 'd json option \<Rightarrow> error_slot \<Rightarrow> 'd ncl_schema option \<times> error_slot" where
  "ncl_schema_compile g ops mutex schema err =
     (let e0 = map_option (\<lambda>_. None) err
      in case schema of
           None \<Rightarrow> (None, schema_message g e0 ''schema is null'')
         | Some s \<Rightarrow>
             if ncl_json_type_of schema \<noteq> NCL_JSON_OBJECT \<and> ncl_json_type_of schema \<noteq> NCL_JSON_BOOL
             then (None, schema_message g e0 ''schema must be an object or a boolean'')
             else if \<not> g SCHEMA_SIZE then (None, e0)
             else (case ncl_json_clone g ops s of
                     None \<Rightarrow> (None, e0)
                   | Some root \<Rightarrow>
                       if \<not> mutex then (None, e0)
                       else (case ncl_schema_check_patterns g root \<lparr>sc_root = root, sc_patterns = ncl_ptrvec_init True\<rparr> of
                               (ok, compiled) \<Rightarrow>
                                 if ok then (Some compiled, e0)
                                 else (None, schema_message g e0 (''unsupported regular expression in '' @ [CHR 0x60] @ ''pattern'' @ [CHR 0x60])))))"

definition ncl_schema_compile_text ::
  "grant \<Rightarrow> 'd double_ops \<Rightarrow> bool \<Rightarrow> string option \<Rightarrow> error_slot \<Rightarrow> 'd ncl_schema option \<times> error_slot" where
  "ncl_schema_compile_text g ops mutex t err =
     (case t of
        None \<Rightarrow> (None, schema_message g err ''schema text is null'')
      | Some s \<Rightarrow>
          (case fst (ncl_json_parse g ops (Some s) None) of
             None \<Rightarrow> (None, schema_message g err ''schema is not valid JSON'')
           | Some parsed \<Rightarrow> ncl_schema_compile g ops mutex (Some parsed) err))"

definition ncl_schema_root :: "'d ncl_schema option \<Rightarrow> 'd json option" where
  "ncl_schema_root schema = map_option sc_root schema"

section \<open>Validating\<close>

text \<open>The caller's list of messages comes back, and the schema with its pattern cache.\<close>

definition ncl_schema_validate ::
  "grant \<Rightarrow> 'd schema_env \<Rightarrow> 'd ncl_schema option \<Rightarrow> 'd json option \<Rightarrow> char strvec option \<Rightarrow>
   ncl_err \<times> char strvec option \<times> 'd ncl_schema option" where
  "ncl_schema_validate g env schema v errors =
     (case (schema, v) of
        (Some s, Some j) \<Rightarrow>
          (let ctx = ncl_validate_value g env 0 (sc_root s) j (Some ''#'') \<lparr>vc_schema = s, vc_errors = errors\<rparr>
           in (NCL_OK, vc_errors ctx, Some (vc_schema ctx)))
      | _ \<Rightarrow> (NCL_ERR_INVALID_ARG, errors, schema))"

text \<open>The UTF-8 texts of two messages.\<close>

definition VALIDATION_FAILED :: string where
  "VALIDATION_FAILED =
     [CHR 0xE6, CHR 0xA0, CHR 0xA1, CHR 0xE9, CHR 0xAA, CHR 0x8C, CHR 0xE8, CHR 0xBF, CHR 0x87, CHR 0xE7, CHR 0xA8, CHR 0x8B,
      CHR 0xE5, CHR 0x8F, CHR 0x91, CHR 0xE7, CHR 0x94, CHR 0x9F, CHR 0xE9, CHR 0x94, CHR 0x99, CHR 0xE8, CHR 0xAF, CHR 0xAF] @ '': ''"

definition NOT_JSON :: string where
  "NOT_JSON =
     [CHR 0xE5, CHR 0xBE, CHR 0x85, CHR 0xE6, CHR 0xA0, CHR 0xA1, CHR 0xE9, CHR 0xAA, CHR 0x8C, CHR 0xE5, CHR 0x86, CHR 0x85,
      CHR 0xE5, CHR 0xAE, CHR 0xB9, CHR 0xE4, CHR 0xB8, CHR 0x8D, CHR 0xE6, CHR 0x98, CHR 0xAF, CHR 0xE5, CHR 0x90, CHR 0x88,
      CHR 0xE6, CHR 0xB3, CHR 0x95] @ '' JSON''"

definition SCHEMA_INVALID :: string where
  "SCHEMA_INVALID = ''schema '' @ [CHR 0xE6, CHR 0x97, CHR 0xA0, CHR 0xE6, CHR 0x95, CHR 0x88]"

definition push_message :: "grant \<Rightarrow> string \<Rightarrow> char strvec option \<Rightarrow> char strvec option" where
  "push_message g m errors = map_option (\<lambda>v. snd (ncl_strvec_push g v (Some m))) errors"

definition ncl_schema_validate_text ::
  "grant \<Rightarrow> 'd schema_env \<Rightarrow> 'd ncl_schema option \<Rightarrow> string option \<Rightarrow> char strvec option \<Rightarrow>
   ncl_err \<times> char strvec option \<times> 'd ncl_schema option" where
  "ncl_schema_validate_text g env schema t errors =
     (if schema = None \<or> t = None then (NCL_ERR_INVALID_ARG, errors, schema)
      else case fst (ncl_json_parse g (se_ops env) t None) of
        None \<Rightarrow> (NCL_ERR_PARSE, push_message g (VALIDATION_FAILED @ NOT_JSON) errors, schema)
      | Some parsed \<Rightarrow> ncl_schema_validate g env schema (Some parsed) errors)"

definition ncl_json_schema_validate ::
  "grant \<Rightarrow> 'd schema_env \<Rightarrow> bool \<Rightarrow> string option \<Rightarrow> string option \<Rightarrow> char strvec option \<Rightarrow> ncl_err \<times> char strvec option" where
  "ncl_json_schema_validate g env mutex json_text schema_text errors =
     (if json_text = None \<or> schema_text = None then (NCL_ERR_INVALID_ARG, errors)
      else case ncl_schema_compile_text g (se_ops env) mutex schema_text (Some None) of
        (None, error) \<Rightarrow>
          (let m = (case error of Some (Some e) \<Rightarrow> e | _ \<Rightarrow> SCHEMA_INVALID);
               sb = snd (put_text g m (snd (put_text g VALIDATION_FAILED ncl_strbuf_init)))
           in (NCL_ERR_PARSE, push_message g (text_of (sb_bytes sb)) errors))
      | (Some schema, error) \<Rightarrow>
          (case ncl_schema_validate_text g env (Some schema) json_text errors of (rc, es, s1) \<Rightarrow> (rc, es)))"

fun join_loop :: "grant \<Rightarrow> string list \<Rightarrow> nat \<Rightarrow> strbuf \<Rightarrow> strbuf" where
  "join_loop g [] i sb = sb"
| "join_loop g (m # ms) i sb =
     join_loop g ms (Suc i) (snd (put_text g m (if i > 0 then snd (put_text g '', '' sb) else sb)))"

definition ncl_schema_join_errors :: "grant \<Rightarrow> char strvec option \<Rightarrow> string option" where
  "ncl_schema_join_errors g errors =
     (let sb = snd (put_char g (CHR '']'') (join_loop g (case errors of None \<Rightarrow> [] | Some v \<Rightarrow> sv_items v) 0
                 (snd (put_char g (CHR ''['') ncl_strbuf_init))))
      in map_option text_of (fst (ncl_strbuf_detach g sb)))"

end
