(* ===== verification/Schema_Props.thy ===== *)
theory Schema_Props
  imports Schema_Validate Json_Doc
begin

text \<open>
  The correctness of schema validation: it reports a violation exactly if the value does not
  satisfy the schema, as a predicate without messages, caches and early exits says it.
\<close>

section \<open>The reference\<close>

definition within :: "'d option \<Rightarrow> ('d \<Rightarrow> bool) \<Rightarrow> bool" where
  "within limit violated \<longleftrightarrow> (\<forall>l. limit = Some l \<longrightarrow> \<not> violated l)"

definition number_ok :: "'d schema_env \<Rightarrow> 'd json \<Rightarrow> 'd json \<Rightarrow> bool" where
  "number_ok env rule v \<longleftrightarrow>
     (\<forall>d. ncl_json_double_of env v = Some d \<longrightarrow>
        within (limit_of env rule ''minimum'') (\<lambda>l. se_lt env d l) \<and>
        within (limit_of env rule ''maximum'') (\<lambda>l. se_lt env l d) \<and>
        within (exclusive_limit env rule ''exclusiveMinimum'' ''minimum'') (\<lambda>l. se_le env d l) \<and>
        within (exclusive_limit env rule ''exclusiveMaximum'' ''maximum'') (\<lambda>l. se_le env l d) \<and>
        within (limit_of env rule ''multipleOf'') (\<lambda>l. se_lt env (d_of_int (se_ops env) 0) l \<and> not_multiple env d l))"

definition counts_ok :: "'d schema_env \<Rightarrow> 'd json \<Rightarrow> string \<Rightarrow> string \<Rightarrow> nat \<Rightarrow> bool" where
  "counts_ok env rule least most n \<longleftrightarrow>
     within (count_limit env rule least) (\<lambda>l. se_lt env (d_of_int (se_ops env) (int n)) l) \<and>
     within (count_limit env rule most) (\<lambda>l. se_lt env l (d_of_int (se_ops env) (int n)))"

definition pattern_ok :: "'d json \<Rightarrow> string \<Rightarrow> bool" where
  "pattern_ok rule t \<longleftrightarrow>
     (\<forall>s rx. keyword rule ''pattern'' = Some (J_String s) \<longrightarrow>
        fst (ncl_regex_compile grant_all (Some (cstr_of s)) None) = Some rx \<longrightarrow> ncl_regex_search (Some rx) (Some t))"

definition string_ok :: "'d schema_env \<Rightarrow> 'd json \<Rightarrow> 'd json \<Rightarrow> bool" where
  "string_ok env rule v \<longleftrightarrow>
     (\<forall>t. ncl_json_as_string (Some v) = Some t \<longrightarrow>
        counts_ok env rule ''minLength'' ''maxLength'' (length t) \<and> pattern_ok rule t \<and>
        (\<forall>s. keyword rule ''format'' = Some (J_String s) \<longrightarrow> ncl_format_ok env (Some (cstr_of s)) (Some t)))"

definition array_ok :: "'d schema_env \<Rightarrow> ('d json \<Rightarrow> 'd json \<Rightarrow> bool) \<Rightarrow> 'd json \<Rightarrow> 'd json \<Rightarrow> bool" where
  "array_ok env q rule v \<longleftrightarrow>
     counts_ok env rule ''minItems'' ''maxItems'' (length (items (Some v))) \<and>
     (flag_of env rule ''uniqueItems'' \<longrightarrow> \<not> repeated_item env (items (Some v))) \<and>
     (case keyword rule ''items'' of
        None \<Rightarrow> True
      | Some sub \<Rightarrow>
          (case sub of
             J_Array rules c \<Rightarrow>
               (\<forall>i < length (items (Some v)).
                  if i < length rules then q (rules ! i) (items (Some v) ! i)
                  else (case keyword rule ''additionalItems'' of
                      Some (J_Object ms c) \<Rightarrow> q (J_Object ms c) (items (Some v) ! i)
                    | Some (J_Bool b) \<Rightarrow> False
                    | _ \<Rightarrow> True))
           | _ \<Rightarrow> (\<forall>x \<in> set (items (Some v)). q sub x)))"

definition required_ok :: "'d json \<Rightarrow> 'd json \<Rightarrow> bool" where
  "required_ok rule v \<longleftrightarrow>
     (\<forall>names c s. keyword rule ''required'' = Some (J_Array names c) \<longrightarrow> J_String s \<in> set names \<longrightarrow>
        ncl_json_obj_has (Some v) (Some (cstr_of s)))"

definition object_ok :: "'d schema_env \<Rightarrow> ('d json \<Rightarrow> 'd json \<Rightarrow> bool) \<Rightarrow> 'd json \<Rightarrow> 'd json \<Rightarrow> bool" where
  "object_ok env q rule v \<longleftrightarrow>
     required_ok rule v \<and> counts_ok env rule ''minProperties'' ''maxProperties'' (length (members (Some v))) \<and>
     (\<forall>(name, x) \<in> set (members (Some v)).
        case ncl_json_obj_get (keyword rule ''properties'') (Some name) of
          Some sub \<Rightarrow> q sub x
        | None \<Rightarrow>
            (case keyword rule ''additionalProperties'' of
               Some (J_Object ms c) \<Rightarrow> q (J_Object ms c) x
             | Some (J_Bool b) \<Rightarrow> b
             | _ \<Rightarrow> True))"

definition branches :: "'d json \<Rightarrow> string \<Rightarrow> 'd json list option" where
  "branches rule name = (case keyword rule name of Some (J_Array rs c) \<Rightarrow> Some rs | _ \<Rightarrow> None)"

definition combinators_ok :: "('d json \<Rightarrow> 'd json \<Rightarrow> bool) \<Rightarrow> 'd json \<Rightarrow> 'd json \<Rightarrow> bool" where
  "combinators_ok q rule v \<longleftrightarrow>
     (\<forall>rs. branches rule ''allOf'' = Some rs \<longrightarrow> (\<forall>r \<in> set rs. q r v)) \<and>
     (\<forall>rs. branches rule ''anyOf'' = Some rs \<longrightarrow> (\<exists>r \<in> set rs. q r v)) \<and>
     (\<forall>rs. branches rule ''oneOf'' = Some rs \<longrightarrow> length (filter (\<lambda>r. q r v) rs) = 1) \<and>
     (\<forall>r. keyword rule ''not'' = Some r \<longrightarrow> \<not> q r v) \<and>
     (\<forall>r. keyword rule ''if'' = Some r \<longrightarrow>
        (\<forall>b. keyword rule (if q r v then ''then'' else ''else'') = Some b \<longrightarrow> q b v))"

definition enum_ok :: "'d schema_env \<Rightarrow> 'd json \<Rightarrow> 'd json \<Rightarrow> bool" where
  "enum_ok env rule v \<longleftrightarrow>
     (\<forall>xs c. keyword rule ''enum'' = Some (J_Array xs c) \<longrightarrow> (\<exists>x \<in> set xs. ncl_json_same env x v)) \<and>
     (\<forall>k. keyword rule ''const'' = Some k \<longrightarrow> ncl_json_same env k v)"

lemma array_ok_cong [fundef_cong]:
  assumes eqs: "env = env'" "rule = rule'" "v = v'" and q: "\<And>r w. size r < size rule' \<Longrightarrow> q r w = q' r w"
  shows "array_ok env q rule v = array_ok env' q' rule' v'"
proof -
  have k: "keyword rule name = Some x \<Longrightarrow> q x w = q' x w" for name x w
    using q keyword_smaller eqs by metis
  have i: "keyword rule name = Some (J_Array xs n) \<Longrightarrow> j < length xs \<Longrightarrow> q (xs ! j) w = q' (xs ! j) w" for name xs n j w
    using q keyword_item_smaller eqs nth_mem by metis
  have "array_ok env q rule v = array_ok env q' rule v"
    unfolding array_ok_def
    by (intro arg_cong2 [where f = "(\<and>)"] refl) (auto split: option.split json.split simp: k i)
  then show ?thesis by (simp add: eqs)
qed

lemma object_ok_cong [fundef_cong]:
  assumes eqs: "env = env'" "rule = rule'" "v = v'" and q: "\<And>r w. size r < size rule' \<Longrightarrow> q r w = q' r w"
  shows "object_ok env q rule v = object_ok env' q' rule' v'"
proof -
  have k: "keyword rule name = Some x \<Longrightarrow> q x w = q' x w" for name x w
    using q keyword_smaller eqs by metis
  have k2: "ncl_json_obj_get (keyword rule name) n = Some x \<Longrightarrow> q x w = q' x w" for name n x w
    using q get_from_smaller eqs by metis
  have "object_ok env q rule v = object_ok env q' rule v"
    unfolding object_ok_def
    by (intro arg_cong2 [where f = "(\<and>)"] refl ball_cong) (auto split: option.split json.split simp: k k2)
  then show ?thesis by (simp add: eqs)
qed

lemma branches_smaller: "branches rule name = Some rs \<Longrightarrow> r \<in> set rs \<Longrightarrow> size r < size rule"
  by (auto simp: branches_def dest: keyword_item_smaller split: option.splits json.splits)

lemma combinators_ok_cong [fundef_cong]:
  assumes eqs: "rule = rule'" "v = v'" and q: "\<And>r w. size r < size rule' \<Longrightarrow> q r w = q' r w"
  shows "combinators_ok q rule v = combinators_ok q' rule' v'"
proof -
  have k: "keyword rule name = Some x \<Longrightarrow> q x w = q' x w" for name x w
    using q keyword_smaller eqs by metis
  have b: "branches rule name = Some rs \<Longrightarrow> r \<in> set rs \<Longrightarrow> q r w = q' r w" for name rs r w
    using q branches_smaller eqs by metis
  have f: "branches rule name = Some rs \<Longrightarrow> filter (\<lambda>r. q r v) rs = filter (\<lambda>r. q' r v) rs" for name rs
    by (rule filter_cong) (auto simp: b)
  have "combinators_ok q rule v = combinators_ok q' rule v"
    unfolding combinators_ok_def
    by (intro arg_cong2 [where f = "(\<and>)"]) (auto simp: b k f)
  then show ?thesis by (simp add: eqs)
qed

text \<open>A value satisfies a rule; \<open>ref_depth\<close> references have been followed, the 33rd is a violation.\<close>

function satisfies :: "'d schema_env \<Rightarrow> 'd json \<Rightarrow> nat \<Rightarrow> 'd json \<Rightarrow> 'd json \<Rightarrow> bool" where
  "satisfies env root ref_depth rule v \<longleftrightarrow>
     (if rule = J_Bool False then False
      else if \<not> is_object rule then True
      else case ref_of rule of
        Some ref \<Rightarrow>
          if ref_depth \<ge> NCL_SCHEMA_MAX_REF_DEPTH then False
          else (case ncl_pointer_resolve root ref of
              None \<Rightarrow> False | Some target \<Rightarrow> satisfies env root (ref_depth + 1) target v)
      | None \<Rightarrow>
          ncl_schema_accepts_type (keyword rule ''type'') v \<and> enum_ok env rule v \<and>
          combinators_ok (\<lambda>r w. satisfies env root ref_depth r w) rule v \<and>
          (if ncl_json_type_of (Some v) = NCL_JSON_NUMBER then number_ok env rule v
           else if ncl_json_type_of (Some v) = NCL_JSON_STRING then string_ok env rule v
           else if ncl_json_type_of (Some v) = NCL_JSON_ARRAY
           then array_ok env (\<lambda>r w. satisfies env root ref_depth r w) rule v
           else if ncl_json_type_of (Some v) = NCL_JSON_OBJECT
           then object_ok env (\<lambda>r w. satisfies env root ref_depth r w) rule v
           else True))"
  by pat_completeness auto
termination
  by (relation "measures [\<lambda>(env, root, ref_depth, rule, v). NCL_SCHEMA_MAX_REF_DEPTH - ref_depth,
        \<lambda>(env, root, ref_depth, rule, v). size rule]") auto

declare satisfies.simps [simp del]

section \<open>Steps that only add messages\<close>

text \<open>
  What a collector of messages promises its users: a report adds one message to the log, if
  there is one, and keeps the state good.
\<close>

locale message_log =
  fixes report :: "'m \<Rightarrow> 's \<Rightarrow> 's"
    and log_of :: "'s \<Rightarrow> 'e list option"
    and good :: "'s \<Rightarrow> bool"
  assumes report_good: "good s \<Longrightarrow> good (report m s)"
    and report_log: "log_of s = Some es \<Longrightarrow> \<exists>e. log_of (report m s) = Some (es @ [e])"
    and report_silent: "log_of s = None \<Longrightarrow> log_of (report m s) = None"
begin

text \<open>A step that keeps the log and adds no message exactly if \<open>ok\<close>.\<close>

definition judges :: "('s \<Rightarrow> 's) \<Rightarrow> bool \<Rightarrow> bool" where
  "judges f ok \<longleftrightarrow> (\<forall>s. good s \<longrightarrow> good (f s) \<and>
     (log_of s = None \<longrightarrow> log_of (f s) = None) \<and>
     (\<forall>es. log_of s = Some es \<longrightarrow> (\<exists>new. log_of (f s) = Some (es @ new) \<and> (new = [] \<longleftrightarrow> ok))))"

lemma judgesI:
  assumes "\<And>s. good s \<Longrightarrow> good (f s)" "\<And>s. \<lbrakk>good s; log_of s = None\<rbrakk> \<Longrightarrow> log_of (f s) = None"
    and "\<And>s es. \<lbrakk>good s; log_of s = Some es\<rbrakk> \<Longrightarrow> \<exists>new. log_of (f s) = Some (es @ new) \<and> (new = [] \<longleftrightarrow> ok)"
  shows "judges f ok"
  unfolding judges_def using assms by simp

lemma judges_good: "judges f ok \<Longrightarrow> good s \<Longrightarrow> good (f s)"
  by (simp add: judges_def)

lemma judges_none: "judges f ok \<Longrightarrow> good s \<Longrightarrow> log_of s = None \<Longrightarrow> log_of (f s) = None"
  by (simp add: judges_def)

lemma judges_some:
  "judges f ok \<Longrightarrow> good s \<Longrightarrow> log_of s = Some es \<Longrightarrow> \<exists>new. log_of (f s) = Some (es @ new) \<and> (new = [] \<longleftrightarrow> ok)"
  by (simp add: judges_def)

lemma judges_skip: "judges (\<lambda>s. s) True"
  by (rule judgesI) auto

lemma judges_report: "judges (report m) False"
  using report_good report_log report_silent by (intro judgesI) fastforce+

lemma judges_seq:
  assumes f: "judges f a" and g: "judges g b"
  shows "judges (\<lambda>s. g (f s)) (a \<and> b)"
proof (rule judgesI)
  fix s assume s: "good s"
  show "good (g (f s))" by (intro judges_good [OF g] judges_good [OF f] s)
  assume "log_of s = None"
  then show "log_of (g (f s)) = None" by (intro judges_none [OF g] judges_none [OF f] judges_good [OF f] s)
next
  fix s es assume s: "good s" and es: "log_of s = Some es"
  from judges_some [OF f s es] obtain n1 where n1: "log_of (f s) = Some (es @ n1)" "n1 = [] \<longleftrightarrow> a" by blast
  from judges_some [OF g judges_good [OF f s] n1(1)] obtain n2 where "log_of (g (f s)) = Some ((es @ n1) @ n2)" "n2 = [] \<longleftrightarrow> b"
    by blast
  with n1(2) show "\<exists>new. log_of (g (f s)) = Some (es @ new) \<and> (new = [] \<longleftrightarrow> a \<and> b)"
    by (intro exI [of _ "n1 @ n2"]) simp
qed

lemma judges_if: "judges (\<lambda>s. if c then report m s else s) (\<not> c)"
  by (cases c) (simp_all add: judges_skip judges_report)

lemma judges_fold:
  assumes "\<And>x. x \<in> set xs \<Longrightarrow> judges (f x) (q x)"
  shows "judges (fold f xs) (\<forall>x \<in> set xs. q x)"
  using assms
proof (induction xs)
  case Nil
  then show ?case using judges_skip by (simp add: id_def)
next
  case (Cons x xs)
  have "judges (\<lambda>s. fold f xs (f x s)) (q x \<and> (\<forall>x \<in> set xs. q x))"
    using Cons by (intro judges_seq) auto
  then show ?case by (simp add: comp_def)
qed

lemma judges_eq: "judges f a \<Longrightarrow> f = g \<Longrightarrow> a = b \<Longrightarrow> judges g b"
  by simp

end


section \<open>The validators\<close>

definition cache_ok :: "'d ncl_schema \<Rightarrow> bool" where
  "cache_ok schema \<longleftrightarrow>
     (\<forall>p rx. Some (p, rx) \<in> set (pv_items (sc_patterns schema)) \<longrightarrow> rx = fst (ncl_regex_compile grant_all (Some p) None))"

definition ctx_ok :: "'d json \<Rightarrow> 'd validate_ctx \<Rightarrow> bool" where
  "ctx_ok root ctx \<longleftrightarrow> sc_root (vc_schema ctx) = root \<and> cache_ok (vc_schema ctx)"

definition messages :: "'d validate_ctx \<Rightarrow> string list option" where
  "messages ctx = map_option sv_items (vc_errors ctx)"

lemma push_grows: "sv_items (snd (ncl_strvec_push grant_all v (Some m))) = sv_items v @ [m]"
  by (simp add: ncl_strvec_push_def grant_all Let_def)

interpretation vlog: message_log "\<lambda>(path, m). report grant_all path m" messages "ctx_ok root" for root
  by unfold_locales
    (auto simp: ctx_ok_def messages_def report_def ncl_schema_error_def push_grows Let_def split: option.splits prod.splits)

lemma judges_message: "vlog.judges root (report grant_all path m) False"
  using vlog.judges_report [of root "(path, m)"] by simp

lemma judges_choice:
  "vlog.judges root (\<lambda>ctx. if c then report grant_all path m ctx else ctx) (\<not> c)"
  "vlog.judges root (\<lambda>ctx. if c then ctx else report grant_all path m ctx) c"
  by (cases c; simp add: vlog.judges_skip judges_message)+

lemma judges_limit:
  "vlog.judges root (check_limit grant_all env limit violated name actual path) (within limit violated)"
proof (cases limit)
  case None
  then show ?thesis by (simp add: check_limit_def [abs_def] within_def vlog.judges_skip)
next
  case (Some l)
  then show ?thesis using judges_choice(1) by (simp add: check_limit_def [abs_def] within_def)
qed

lemma judges_multiple:
  "vlog.judges root (check_multiple grant_all env limit actual path)
     (within limit (\<lambda>l. se_lt env (d_of_int (se_ops env) 0) l \<and> not_multiple env actual l))"
proof (cases limit)
  case None
  then show ?thesis by (simp add: check_multiple_def [abs_def] within_def vlog.judges_skip)
next
  case (Some l)
  show ?thesis
    by (rule vlog.judges_eq [OF judges_choice(1)]) (auto simp: check_multiple_def Some within_def)
qed

lemma judges_number: "vlog.judges root (ncl_validate_number grant_all env rule v path) (number_ok env rule v)"
proof (cases "ncl_json_double_of env v")
  case None
  then show ?thesis by (simp add: ncl_validate_number_def [abs_def] number_ok_def vlog.judges_skip)
next
  case (Some d)
  then show ?thesis
    unfolding ncl_validate_number_def [abs_def] number_ok_def Let_def
    by (auto simp: conj_assoc intro: vlog.judges_eq [OF vlog.judges_seq [OF vlog.judges_seq [OF vlog.judges_seq
      [OF vlog.judges_seq [OF judges_limit judges_limit] judges_limit] judges_limit] judges_multiple]])
qed

lemma judges_count:
  "vlog.judges root (check_count grant_all env rule name violated before between n path)
     (within (count_limit env rule name) (violated (d_of_int (se_ops env) (int n))))"
proof (cases "count_limit env rule name")
  case None
  then show ?thesis by (simp add: check_count_def [abs_def] within_def vlog.judges_skip)
next
  case (Some l)
  then show ?thesis using judges_choice(1) by (simp add: check_count_def [abs_def] within_def)
qed


lemma judges_counts:
  assumes "\<And>ctx. f ctx = check_count grant_all env rule most (\<lambda>n l. se_lt env l n) b2 w2 n path
    (check_count grant_all env rule least (se_lt env) b1 w1 n path ctx)"
  shows "vlog.judges root f (counts_ok env rule least most n)"
  by (rule vlog.judges_eq [OF vlog.judges_seq [OF judges_count judges_count]]) (auto simp: assms counts_ok_def)

text \<open>The pattern cache answers as a fresh compilation does.\<close>

lemma search_cached:
  assumes "\<And>p rx. Some (p, rx) \<in> set es \<Longrightarrow> rx = fst (ncl_regex_compile grant_all (Some p) None)" "pattern_search es p = Some rx"
  shows "fst (ncl_regex_compile grant_all (Some p) None) = Some rx"
  using assms
proof (induction es)
  case (Cons e es)
  then show ?case
    by (cases e) (fastforce split: prod.splits if_splits)+
qed simp

lemma pattern_cached:
  assumes "cache_ok schema"
  shows "fst (ncl_schema_pattern grant_all schema (Some p)) = fst (ncl_regex_compile grant_all (Some p) None)
    \<and> cache_ok (snd (ncl_schema_pattern grant_all schema (Some p)))
    \<and> sc_root (snd (ncl_schema_pattern grant_all schema (Some p))) = sc_root schema"
proof (cases "pattern_search (pv_items (sc_patterns schema)) p")
  case None
  then show ?thesis
    using assms
    by (auto simp: ncl_schema_pattern_def ncl_strdup_def ncl_ptrvec_push_def cache_ok_def grant_all Let_def)
next
  case (Some rx)
  with assms search_cached [of "pv_items (sc_patterns schema)" p rx] show ?thesis
    by (auto simp: ncl_schema_pattern_def cache_ok_def)
qed

lemma judges_pattern:
  fixes root rule :: "'d json"
  shows "vlog.judges root (check_pattern grant_all rule t path) (pattern_ok rule t)"
proof (cases "\<exists>s. keyword rule ''pattern'' = Some (J_String s)")
  case False
  show ?thesis
    by (rule vlog.judges_eq [OF vlog.judges_skip])
      (use False in \<open>auto simp: check_pattern_def pattern_ok_def fun_eq_iff split: option.splits json.splits\<close>)
next
  case True
  then obtain s where s: "keyword rule ''pattern'' = Some (J_String s)" by blast
  define rx where "rx = fst (ncl_regex_compile grant_all (Some (cstr_of s)) None)"
  define lookup :: "'d validate_ctx \<Rightarrow> 'd validate_ctx" where
    "lookup ctx = ctx\<lparr>vc_schema := snd (ncl_schema_pattern grant_all (vc_schema ctx) (Some (cstr_of s)))\<rparr>" for ctx
  define bad where "bad = (rx \<noteq> None \<and> \<not> ncl_regex_search rx (Some t))"
  have lookup: "vlog.judges root lookup True"
    by (rule vlog.judgesI) (auto simp: lookup_def ctx_ok_def messages_def pattern_cached)
  have bad: "bad \<longleftrightarrow> \<not> pattern_ok rule t" by (cases rx) (auto simp: bad_def pattern_ok_def s rx_def)
  define step :: "'d validate_ctx \<Rightarrow> 'd validate_ctx" where "step = (\<lambda>ctx. if bad then report grant_all path (''string ['' @ t @ ''] does not match pattern '' @ cstr_of s) ctx else ctx)"
  have j: "vlog.judges root (\<lambda>ctx. step (lookup ctx)) (True \<and> \<not> bad)"
    by (rule vlog.judges_seq [OF lookup]) (simp only: step_def judges_choice(1))
  have eq: "check_pattern grant_all rule t path ctx = step (lookup ctx)" if "ctx_ok root ctx" for ctx
    using that pattern_cached [of "vc_schema ctx" "cstr_of s"]
    by (auto simp: check_pattern_def s step_def lookup_def bad_def rx_def ctx_ok_def Let_def split: prod.split)
  show ?thesis
    using j bad by (simp add: vlog.judges_def eq)
qed

lemma judges_format:
  "vlog.judges root (check_format grant_all env rule t path)
     (\<forall>s. keyword rule ''format'' = Some (J_String s) \<longrightarrow> ncl_format_ok env (Some (cstr_of s)) (Some t))"
proof (cases "\<exists>s. keyword rule ''format'' = Some (J_String s)")
  case False
  show ?thesis
    by (rule vlog.judges_eq [OF vlog.judges_skip])
      (use False in \<open>auto simp: check_format_def fun_eq_iff split: option.splits json.splits\<close>)
next
  case True
  then obtain s where s: "keyword rule ''format'' = Some (J_String s)" by blast
  show ?thesis by (rule vlog.judges_eq [OF judges_choice(1)]) (auto simp: check_format_def s)
qed

lemma judges_string: "vlog.judges root (ncl_validate_string grant_all env rule v path) (string_ok env rule v)"
proof (cases "ncl_json_as_string (Some v)")
  case None
  show ?thesis
    by (rule vlog.judges_eq [OF vlog.judges_skip]) (auto simp: ncl_validate_string_def None string_ok_def fun_eq_iff)
next
  case (Some t)
  show ?thesis
    by (rule vlog.judges_eq [OF vlog.judges_seq [OF vlog.judges_seq [OF judges_counts [OF refl] judges_pattern] judges_format]])
      (auto simp: ncl_validate_string_def Some string_ok_def Let_def fun_eq_iff)
qed

lemma judges_required:
  fixes root rule v :: "'d json"
  shows "vlog.judges root (check_required grant_all rule v path) (required_ok rule v)"
proof (cases "\<exists>names c. keyword rule ''required'' = Some (J_Array names c)")
  case False
  show ?thesis
    by (rule vlog.judges_eq [OF vlog.judges_skip])
      (use False in \<open>auto simp: check_required_def required_ok_def fun_eq_iff split: option.splits json.splits\<close>)
next
  case True
  then obtain names c where r: "keyword rule ''required'' = Some (J_Array names c)" by blast
  define f :: "'d json \<Rightarrow> 'd validate_ctx \<Rightarrow> 'd validate_ctx" where "f = (\<lambda>x ctx.
      case ncl_json_as_string (Some x) of
        None \<Rightarrow> ctx
      | Some name \<Rightarrow>
          if \<not> ncl_json_obj_has (Some v) (Some name)
          then report grant_all path (''required key ['' @ name @ ''] not found'') ctx else ctx)"
  have "vlog.judges root (f x) (\<forall>name. ncl_json_as_string (Some x) = Some name \<longrightarrow> ncl_json_obj_has (Some v) (Some name))" for x
  proof (cases "ncl_json_as_string (Some x)")
    case None
    then show ?thesis by (simp add: f_def vlog.judges_skip)
  next
    case (Some name)
    show ?thesis by (rule vlog.judges_eq [OF judges_choice(1)]) (auto simp: f_def Some)
  qed
  from vlog.judges_fold [of names root f, OF this] show ?thesis
    by (rule vlog.judges_eq)
      (auto simp: check_required_def required_ok_def r f_def fun_eq_iff ncl_json_as_string_def split: json.splits)
qed

lemma judges_enum: "vlog.judges root (ncl_validate_enum grant_all env rule v path) (enum_ok env rule v)"
proof -
  have e: "vlog.judges root (\<lambda>ctx. case keyword rule ''enum'' of
            Some (J_Array xs c) \<Rightarrow>
              if list_ex (\<lambda>x. ncl_json_same env x v) xs then ctx
              else report grant_all path (''value '' @ rendered grant_all (se_ops env) (Some v) @ '' is not defined in the enum'') ctx
          | _ \<Rightarrow> ctx) (\<forall>xs c. keyword rule ''enum'' = Some (J_Array xs c) \<longrightarrow> (\<exists>x \<in> set xs. ncl_json_same env x v))"
    (is "vlog.judges root ?f ?b")
  proof (cases "\<exists>xs c. keyword rule ''enum'' = Some (J_Array xs c)")
    case False
    show ?thesis
      by (rule vlog.judges_eq [OF vlog.judges_skip])
        (use False in \<open>auto simp: fun_eq_iff split: option.splits json.splits\<close>)
  next
    case True
    then obtain xs c where r: "keyword rule ''enum'' = Some (J_Array xs c)" by blast
    show ?thesis by (rule vlog.judges_eq [OF judges_choice(2)]) (auto simp: r list_ex_iff)
  qed
  have c: "vlog.judges root (\<lambda>ctx. case keyword rule ''const'' of
           None \<Rightarrow> ctx
         | Some k \<Rightarrow>
             if ncl_json_same env k v then ctx
             else report grant_all path (''expected: '' @ rendered grant_all (se_ops env) (Some k) @ '', found: ''
                    @ rendered grant_all (se_ops env) (Some v)) ctx)
      (\<forall>k. keyword rule ''const'' = Some k \<longrightarrow> ncl_json_same env k v)"
    by (cases "keyword rule ''const''") (simp_all add: vlog.judges_skip judges_choice)
  show ?thesis
    by (rule vlog.judges_eq [OF vlog.judges_seq [OF e c]]) (auto simp: ncl_validate_enum_def enum_ok_def Let_def fun_eq_iff)
qed


section \<open>Branches\<close>

text \<open>A decision that changes neither the log nor the goodness of the state.\<close>

definition decides :: "'d json \<Rightarrow> ('d validate_ctx \<Rightarrow> 'x \<times> 'd validate_ctx) \<Rightarrow> 'x \<Rightarrow> bool" where
  "decides root h d \<longleftrightarrow> (\<forall>ctx. ctx_ok root ctx \<longrightarrow>
     fst (h ctx) = d \<and> ctx_ok root (snd (h ctx)) \<and> vc_errors (snd (h ctx)) = vc_errors ctx)"

lemma decidesD:
  "decides root h d \<Longrightarrow> ctx_ok root ctx \<Longrightarrow>
     \<exists>c1. h ctx = (d, c1) \<and> ctx_ok root c1 \<and> vc_errors c1 = vc_errors ctx"
  unfolding decides_def by (metis prod.collapse)

lemma judges_decided:
  assumes h: "decides root h d" and k: "vlog.judges root (k d) b"
  shows "vlog.judges root (\<lambda>ctx. case h ctx of (x, c1) \<Rightarrow> k x c1) b"
proof (rule vlog.judgesI)
  fix ctx assume c: "ctx_ok root ctx"
  from decidesD [OF h c] obtain c1 where c1: "h ctx = (d, c1)" "ctx_ok root c1" "vc_errors c1 = vc_errors ctx" by blast
  show "ctx_ok root (case h ctx of (x, c1) \<Rightarrow> k x c1)" using vlog.judges_good [OF k c1(2)] c1(1) by simp
  assume "messages ctx = None"
  then show "messages (case h ctx of (x, c1) \<Rightarrow> k x c1) = None"
    using vlog.judges_none [OF k c1(2)] c1(1,3) by (simp add: messages_def)
next
  fix ctx es assume c: "ctx_ok root ctx" and es: "messages ctx = Some es"
  from decidesD [OF h c] obtain c1 where c1: "h ctx = (d, c1)" "ctx_ok root c1" "vc_errors c1 = vc_errors ctx" by blast
  then have "messages c1 = Some es" using es by (simp add: messages_def)
  from vlog.judges_some [OF k c1(2) this] show
    "\<exists>new. messages (case h ctx of (x, c1) \<Rightarrow> k x c1) = Some (es @ new) \<and> (new = []) = b"
    by (simp add: c1(1))
qed

lemma decides_silently:
  assumes "vlog.judges root (vv r v path) b"
  shows "decides root (ncl_validate_silently vv r v path) b"
  unfolding decides_def
proof (intro allI impI)
  fix ctx :: "'a validate_ctx" assume c: "ctx_ok root ctx"
  define c0 where "c0 = ctx\<lparr>vc_errors := Some ncl_strvec_init\<rparr>"
  have ok: "ctx_ok root c0" and log: "messages c0 = Some []"
    using c by (simp_all add: c0_def ctx_ok_def messages_def ncl_strvec_init_def)
  from vlog.judges_some [OF assms ok log] obtain sv where
    "vc_errors (vv r v path c0) = Some sv" "sv_items sv = [] \<longleftrightarrow> b"
    by (auto simp: messages_def)
  with vlog.judges_good [OF assms ok] show "fst (ncl_validate_silently vv r v path ctx) = b \<and>
      ctx_ok root (snd (ncl_validate_silently vv r v path ctx)) \<and>
      vc_errors (snd (ncl_validate_silently vv r v path ctx)) = vc_errors ctx"
    by (simp add: ncl_validate_silently_def c0_def [symmetric] Let_def ctx_ok_def)
qed

lemma decides_any:
  assumes "\<And>r. r \<in> set rs \<Longrightarrow> vlog.judges root (vv r v path) (q r)"
  shows "decides root (any_loop vv rs v path) (\<exists>r \<in> set rs. q r)"
  using assms
proof (induction rs)
  case Nil
  show ?case by (simp add: decides_def)
next
  case (Cons r rs)
  have r: "decides root (ncl_validate_silently vv r v path) (q r)" by (rule decides_silently) (simp add: Cons.prems)
  have rs: "decides root (any_loop vv rs v path) (\<exists>r \<in> set rs. q r)" by (rule Cons.IH) (simp add: Cons.prems)
  show ?case
    unfolding decides_def
  proof (intro allI impI)
    fix ctx :: "'a validate_ctx" assume c: "ctx_ok root ctx"
    from decidesD [OF r c] obtain c1 where c1: "ncl_validate_silently vv r v path ctx = (q r, c1)"
      "ctx_ok root c1" "vc_errors c1 = vc_errors ctx" by blast
    from decidesD [OF rs c1(2)] c1
    show "fst (any_loop vv (r # rs) v path ctx) = (\<exists>r \<in> set (r # rs). q r) \<and>
      ctx_ok root (snd (any_loop vv (r # rs) v path ctx)) \<and> vc_errors (snd (any_loop vv (r # rs) v path ctx)) = vc_errors ctx"
      by auto
  qed
qed

lemma decides_one:
  assumes "\<And>r. r \<in> set rs \<Longrightarrow> vlog.judges root (vv r v path) (q r)"
  shows "decides root (one_loop vv rs n v path) (n + length (filter q rs))"
  using assms
proof (induction rs arbitrary: n)
  case Nil
  show ?case by (simp add: decides_def)
next
  case (Cons r rs)
  have r: "decides root (ncl_validate_silently vv r v path) (q r)" by (rule decides_silently) (simp add: Cons.prems)
  have rs: "decides root (one_loop vv rs m v path) (m + length (filter q rs))" for m by (rule Cons.IH) (simp add: Cons.prems)
  show ?case
    unfolding decides_def
  proof (intro allI impI)
    fix ctx :: "'a validate_ctx" assume c: "ctx_ok root ctx"
    from decidesD [OF r c] obtain c1 where c1: "ncl_validate_silently vv r v path ctx = (q r, c1)"
      "ctx_ok root c1" "vc_errors c1 = vc_errors ctx" by blast
    from decidesD [OF rs [of "if q r then n + 1 else n"] c1(2)] c1
    show "fst (one_loop vv (r # rs) n v path ctx) = n + length (filter q (r # rs)) \<and>
      ctx_ok root (snd (one_loop vv (r # rs) n v path ctx)) \<and> vc_errors (snd (one_loop vv (r # rs) n v path ctx)) = vc_errors ctx"
      by auto
  qed
qed

lemma branches_none: "branches rule name = None \<Longrightarrow> (case keyword rule name of Some (J_Array rs c) \<Rightarrow> f rs c | _ \<Rightarrow> ctx) = ctx"
  by (auto simp: branches_def split: option.splits json.splits)

lemma branches_some:
  "branches rule name = Some rs \<Longrightarrow> \<exists>c. keyword rule name = Some (J_Array rs c)"
  by (auto simp: branches_def split: option.splits json.splits)

text \<open>The combinators, for a validator that judges the branches as \<open>q\<close> does.\<close>

lemma judges_combinators:
  assumes vv: "\<And>r w p. size r < size rule \<Longrightarrow> vlog.judges root (vv r w p) (q r w)"
  shows "vlog.judges root (ncl_validate_combinators grant_all vv rule v path) (combinators_ok q rule v)"
proof -
  have sub: "vlog.judges root (vv r w p) (q r w)" if "branches rule name = Some rs" "r \<in> set rs" for name rs r w p
    using vv branches_smaller that by blast
  have key: "vlog.judges root (vv r w p) (q r w)" if "keyword rule name = Some r" for name r w p
    using vv keyword_smaller that by blast
  have all: "vlog.judges root (check_all_of vv rule v path) (\<forall>rs. branches rule ''allOf'' = Some rs \<longrightarrow> (\<forall>r \<in> set rs. q r v))"
  proof (cases "branches rule ''allOf''")
    case None
    show ?thesis by (rule vlog.judges_eq [OF vlog.judges_skip]) (auto simp: check_all_of_def fun_eq_iff None branches_none)
  next
    case (Some rs)
    with branches_some obtain c where k: "keyword rule ''allOf'' = Some (J_Array rs c)" by blast
    have "vlog.judges root (fold (\<lambda>r. vv r v path) rs) (\<forall>r \<in> set rs. q r v)"
      by (rule vlog.judges_fold) (rule sub [OF Some])
    then show ?thesis by (rule vlog.judges_eq) (auto simp: check_all_of_def fun_eq_iff k Some)
  qed
  have any: "vlog.judges root (check_any_of grant_all vv rule v path) (\<forall>rs. branches rule ''anyOf'' = Some rs \<longrightarrow> (\<exists>r \<in> set rs. q r v))"
  proof (cases "branches rule ''anyOf''")
    case None
    show ?thesis by (rule vlog.judges_eq [OF vlog.judges_skip]) (auto simp: check_any_of_def fun_eq_iff None branches_none)
  next
    case (Some rs)
    with branches_some obtain c where k: "keyword rule ''anyOf'' = Some (J_Array rs c)" by blast
    have d: "decides root (any_loop vv rs v path) (\<exists>r \<in> set rs. q r v)" by (rule decides_any) (rule sub [OF Some])
    show ?thesis
      by (rule vlog.judges_eq [OF judges_decided [OF d judges_choice(1)]]) (auto simp: check_any_of_def fun_eq_iff k Some)
  qed
  have one: "vlog.judges root (check_one_of grant_all vv rule v path)
      (\<forall>rs. branches rule ''oneOf'' = Some rs \<longrightarrow> length (filter (\<lambda>r. q r v) rs) = 1)"
  proof (cases "branches rule ''oneOf''")
    case None
    show ?thesis by (rule vlog.judges_eq [OF vlog.judges_skip]) (auto simp: check_one_of_def fun_eq_iff None branches_none)
  next
    case (Some rs)
    with branches_some obtain c where k: "keyword rule ''oneOf'' = Some (J_Array rs c)" by blast
    have d: "decides root (one_loop vv rs 0 v path) (0 + length (filter (\<lambda>r. q r v) rs))" by (rule decides_one) (rule sub [OF Some])
    show ?thesis
      by (rule vlog.judges_eq [OF judges_decided [where k = "\<lambda>n c. if n \<noteq> 1 then report grant_all path
          (''oneOf: '' @ fmt_u n @ '' subschemas matched, expected exactly one'') c else c", OF d judges_choice(1)]])
        (auto simp: check_one_of_def fun_eq_iff k Some)
  qed
  have neg: "vlog.judges root (check_not grant_all vv rule v path) (\<forall>r. keyword rule ''not'' = Some r \<longrightarrow> \<not> q r v)"
  proof (cases "keyword rule ''not''")
    case None
    show ?thesis by (rule vlog.judges_eq [OF vlog.judges_skip]) (auto simp: check_not_def fun_eq_iff None)
  next
    case (Some r)
    show ?thesis
      by (rule vlog.judges_eq [OF judges_decided [OF decides_silently [where vv = vv and r = r and v = v and path = path, OF key [OF Some]] judges_choice(1)]])
        (auto simp: check_not_def fun_eq_iff Some)
  qed
  have cond: "vlog.judges root (check_if vv rule v path) (\<forall>r. keyword rule ''if'' = Some r \<longrightarrow>
        (\<forall>b. keyword rule (if q r v then ''then'' else ''else'') = Some b \<longrightarrow> q b v))"
  proof (cases "keyword rule ''if''")
    case None
    show ?thesis by (rule vlog.judges_eq [OF vlog.judges_skip]) (auto simp: check_if_def fun_eq_iff None)
  next
    case (Some r)
    define k where "k = (\<lambda>ok c1. case (if ok then keyword rule ''then'' else keyword rule ''else'') of
      None \<Rightarrow> c1 | Some branch \<Rightarrow> vv branch v path c1)"
    have "vlog.judges root (k (q r v)) (\<forall>b. keyword rule (if q r v then ''then'' else ''else'') = Some b \<longrightarrow> q b v)"
      using key by (cases "keyword rule (if q r v then ''then'' else ''else'')") (auto simp: k_def vlog.judges_skip split: if_splits)
    from judges_decided [where h = "ncl_validate_silently vv r v path" and k = k and d = "q r v",
        OF decides_silently [where vv = vv and r = r and v = v and path = path, OF key [OF Some]] this]
    show ?thesis by (rule vlog.judges_eq) (simp_all add: check_if_def fun_eq_iff Some k_def)
  qed
  show ?thesis
    by (rule vlog.judges_eq [OF vlog.judges_seq [OF vlog.judges_seq [OF vlog.judges_seq [OF vlog.judges_seq [OF all any] one] neg] cond]])
      (rule ext, rule ncl_validate_combinators_def [symmetric], simp only: combinators_ok_def conj_assoc)
qed


section \<open>Arrays and objects\<close>

lemma judges_tuple_item:
  assumes vv: "\<And>r w p. size r < size rule \<Longrightarrow> vlog.judges root (vv r w p) (q r w)"
    and k: "keyword rule ''items'' = Some (J_Array rules c)"
  shows "vlog.judges root (tuple_item grant_all vv rules (keyword rule ''additionalItems'') path (i, x))
    (if i < length rules then q (rules ! i) x
     else (case keyword rule ''additionalItems'' of
         Some (J_Object ms c) \<Rightarrow> q (J_Object ms c) x | Some (J_Bool b) \<Rightarrow> False | _ \<Rightarrow> True))"
proof (cases "i < length rules")
  case True
  then have "size (rules ! i) < size rule" using keyword_item_smaller [OF k] by simp
  from vv [OF this] show ?thesis by (rule vlog.judges_eq) (auto simp: tuple_item_def fun_eq_iff True)
next
  case False
  show ?thesis
  proof (cases "keyword rule ''additionalItems''")
    case None
    show ?thesis by (rule vlog.judges_eq [OF vlog.judges_skip]) (auto simp: tuple_item_def fun_eq_iff False None)
  next
    case (Some e)
    note s = vv [OF keyword_smaller [OF Some]]
    show ?thesis
    proof (cases e)
      case (J_Object ms n)
      from s show ?thesis
        by (rule vlog.judges_eq) (auto simp: tuple_item_def fun_eq_iff False Some J_Object ncl_json_type_of_def)
    next
      case (J_Bool b)
      show ?thesis
        by (rule vlog.judges_eq [OF judges_message])
          (auto simp: tuple_item_def fun_eq_iff False Some J_Bool ncl_json_type_of_def ncl_json_is_null_def)
    qed (rule vlog.judges_eq [OF vlog.judges_skip],
         simp_all add: tuple_item_def fun_eq_iff False Some ncl_json_type_of_def ncl_json_is_null_def)+
  qed
qed

lemma ball_enumerate: "(\<forall>x \<in> set (enumerate 0 xs). f x) \<longleftrightarrow> (\<forall>i < length xs. f (i, xs ! i))"
  by (auto simp: in_set_enumerate_eq)

lemma judges_array:
  assumes vv: "\<And>r w p. size r < size rule \<Longrightarrow> vlog.judges root (vv r w p) (q r w)"
  shows "vlog.judges root (ncl_validate_array grant_all env vv rule v path) (array_ok env q rule v)"
proof -
  define xs where "xs = items (Some v)"
  define tail where "tail = (\<lambda>c3. case keyword rule ''items'' of
           None \<Rightarrow> c3
         | Some sub \<Rightarrow>
             (case sub of
                J_Array rules c \<Rightarrow>
                  fold (tuple_item grant_all vv rules (keyword rule ''additionalItems'') path) (enumerate 0 xs) c3
              | _ \<Rightarrow> fold (\<lambda>(i, x). vv sub x (ncl_pointer_push_index grant_all path i)) (enumerate 0 xs) c3))"
  define tail_ok where "tail_ok = (case keyword rule ''items'' of
        None \<Rightarrow> True
      | Some sub \<Rightarrow>
          (case sub of
             J_Array rules c \<Rightarrow>
               (\<forall>i < length xs.
                  if i < length rules then q (rules ! i) (xs ! i)
                  else (case keyword rule ''additionalItems'' of
                      Some (J_Object ms c) \<Rightarrow> q (J_Object ms c) (xs ! i) | Some (J_Bool b) \<Rightarrow> False | _ \<Rightarrow> True))
           | _ \<Rightarrow> (\<forall>x \<in> set xs. q sub x)))"
  have each: "vlog.judges root (fold (\<lambda>(i, x). vv sub x (ncl_pointer_push_index grant_all path i)) (enumerate 0 xs))
      (\<forall>x \<in> set xs. q sub x)" if "keyword rule ''items'' = Some sub" for sub
  proof -
    have "vlog.judges root (fold (\<lambda>(i, x). vv sub x (ncl_pointer_push_index grant_all path i)) (enumerate 0 xs))
      (\<forall>y \<in> set (enumerate 0 xs). q sub (snd y))"
      by (rule vlog.judges_fold) (use vv [OF keyword_smaller [OF that]] in auto)
    moreover have "(\<forall>y \<in> set (enumerate 0 xs). q sub (snd y)) \<longleftrightarrow> (\<forall>x \<in> set xs. q sub x)"
      by (subst ball_enumerate) (simp only: snd_conv all_set_conv_all_nth)
    ultimately show ?thesis by simp
  qed
  have tail: "vlog.judges root tail tail_ok"
  proof (cases "keyword rule ''items''")
    case None
    show ?thesis by (rule vlog.judges_eq [OF vlog.judges_skip]) (auto simp: tail_def tail_ok_def None)
  next
    case (Some sub)
    show ?thesis
    proof (cases "\<exists>rules c. sub = J_Array rules c")
      case True
      then obtain rules c where sub: "sub = J_Array rules c" by blast
      have "vlog.judges root (fold (tuple_item grant_all vv rules (keyword rule ''additionalItems'') path) (enumerate 0 xs))
        (\<forall>y \<in> set (enumerate 0 xs).
          (if fst y < length rules then q (rules ! fst y) (snd y)
           else (case keyword rule ''additionalItems'' of
               Some (J_Object ms c) \<Rightarrow> q (J_Object ms c) (snd y) | Some (J_Bool b) \<Rightarrow> False | _ \<Rightarrow> True)))"
      proof (rule vlog.judges_fold)
        fix y :: "nat \<times> 'a json"
        show "vlog.judges root (tuple_item grant_all vv rules (keyword rule ''additionalItems'') path y)
          (if fst y < length rules then q (rules ! fst y) (snd y)
           else (case keyword rule ''additionalItems'' of
               Some (J_Object ms c) \<Rightarrow> q (J_Object ms c) (snd y) | Some (J_Bool b) \<Rightarrow> False | _ \<Rightarrow> True))"
          using judges_tuple_item [OF vv Some [unfolded sub], where i = "fst y" and x = "snd y"] by (simp only: prod.collapse)
      qed
      then show ?thesis
        by (rule vlog.judges_eq) (simp add: tail_def Some sub, unfold tail_ok_def ball_enumerate fst_conv snd_conv Some sub, simp)
    next
      case False
      from each [OF Some] show ?thesis
        by (rule vlog.judges_eq) (use False in \<open>auto simp: tail_def tail_ok_def Some fun_eq_iff split: json.split\<close>)
    qed
  qed
  from vlog.judges_seq [OF vlog.judges_seq [OF judges_counts [OF refl] judges_choice(1)] tail]
  show ?thesis
    by (rule vlog.judges_eq)
      (rule ext, simp only: ncl_validate_array_def Let_def tail_def xs_def,
       simp only: array_ok_def tail_ok_def xs_def conj_assoc de_Morgan_conj imp_conv_disj)
qed

lemma judges_member:
  assumes vv: "\<And>r w p. size r < size rule \<Longrightarrow> vlog.judges root (vv r w p) (q r w)"
  shows "vlog.judges root (member_rule grant_all vv (keyword rule ''properties'') (keyword rule ''additionalProperties'') path (name, x))
    (case ncl_json_obj_get (keyword rule ''properties'') (Some name) of
       Some sub \<Rightarrow> q sub x
     | None \<Rightarrow>
         (case keyword rule ''additionalProperties'' of
            Some (J_Object ms c) \<Rightarrow> q (J_Object ms c) x | Some (J_Bool b) \<Rightarrow> b | _ \<Rightarrow> True))"
proof (cases "ncl_json_obj_get (keyword rule ''properties'') (Some name)")
  case (Some sub)
  from vv [OF get_from_smaller [OF Some]] show ?thesis
    by (rule vlog.judges_eq) (auto simp: member_rule_def fun_eq_iff Some)
next
  case None
  show ?thesis
  proof (cases "keyword rule ''additionalProperties''")
    case None2: None
    show ?thesis by (rule vlog.judges_eq [OF vlog.judges_skip]) (auto simp: member_rule_def fun_eq_iff None None2)
  next
    case (Some e)
    note s = vv [OF keyword_smaller [OF Some]]
    show ?thesis
    proof (cases e)
      case (J_Object ms n)
      from s show ?thesis by (rule vlog.judges_eq) (auto simp: member_rule_def fun_eq_iff None Some J_Object)
    next
      case (J_Bool b)
      show ?thesis
        by (rule vlog.judges_eq [OF judges_choice(1)]) (auto simp: member_rule_def fun_eq_iff None Some J_Bool Let_def)
    qed (rule vlog.judges_eq [OF vlog.judges_skip], simp_all add: member_rule_def fun_eq_iff None Some)+
  qed
qed

lemma judges_object:
  assumes vv: "\<And>r w p. size r < size rule \<Longrightarrow> vlog.judges root (vv r w p) (q r w)"
  shows "vlog.judges root (ncl_validate_object grant_all env vv rule v path) (object_ok env q rule v)"
proof -
  have "vlog.judges root (fold (member_rule grant_all vv (keyword rule ''properties'') (keyword rule ''additionalProperties'') path)
      (members (Some v)))
    (\<forall>y \<in> set (members (Some v)). case ncl_json_obj_get (keyword rule ''properties'') (Some (fst y)) of
       Some sub \<Rightarrow> q sub (snd y)
     | None \<Rightarrow>
         (case keyword rule ''additionalProperties'' of
            Some (J_Object ms c) \<Rightarrow> q (J_Object ms c) (snd y) | Some (J_Bool b) \<Rightarrow> b | _ \<Rightarrow> True))"
  proof (rule vlog.judges_fold)
    fix y :: "string \<times> 'a json"
    show "vlog.judges root (member_rule grant_all vv (keyword rule ''properties'') (keyword rule ''additionalProperties'') path y)
      (case ncl_json_obj_get (keyword rule ''properties'') (Some (fst y)) of
         Some sub \<Rightarrow> q sub (snd y)
       | None \<Rightarrow>
           (case keyword rule ''additionalProperties'' of
              Some (J_Object ms c) \<Rightarrow> q (J_Object ms c) (snd y) | Some (J_Bool b) \<Rightarrow> b | _ \<Rightarrow> True))"
      using judges_member [OF vv, where name = "fst y" and x = "snd y"] by (simp only: prod.collapse)
  qed
  from vlog.judges_seq [OF vlog.judges_seq [OF judges_required judges_counts [OF refl]] this]
  show ?thesis
    by (rule vlog.judges_eq)
      (rule ext, simp only: ncl_validate_object_def Let_def, simp only: object_ok_def conj_assoc case_prod_unfold)
qed

section \<open>Values\<close>

text \<open>A step only has to agree with a judging one on good states.\<close>

lemma judges_on_good:
  assumes "vlog.judges root f b" "\<And>ctx. ctx_ok root ctx \<Longrightarrow> h ctx = f ctx"
  shows "vlog.judges root h b"
  using assms unfolding vlog.judges_def by simp

lemma judges_rejects:
  assumes "\<exists>m. \<forall>ctx. h ctx = report grant_all path m ctx" "\<not> b"
  shows "vlog.judges root h b"
proof -
  from assms(1) obtain m where "h = report grant_all path m" by (auto simp: fun_eq_iff)
  with assms(2) show ?thesis using judges_message by simp
qed

lemma judges_reference:
  assumes ref: "rule \<noteq> J_Bool False" "is_object rule" "ref_of rule = Some r"
    and deeper: "\<And>target. ref_depth < NCL_SCHEMA_MAX_REF_DEPTH \<Longrightarrow>
      vlog.judges root (ncl_validate_value grant_all env (ref_depth + 1) target v path) (satisfies env root (ref_depth + 1) target v)"
  shows "vlog.judges root (ncl_validate_value grant_all env ref_depth rule v path) (satisfies env root ref_depth rule v)"
proof (cases "ref_depth \<ge> NCL_SCHEMA_MAX_REF_DEPTH")
  case True
  show ?thesis
    by (rule judges_rejects [where path = path])
      (use ref True in \<open>auto simp: ncl_validate_value.simps [of grant_all env ref_depth rule v path]
        satisfies.simps [of env root ref_depth rule v]\<close>)
next
  case False
  show ?thesis
  proof (cases "ncl_pointer_resolve root r")
    case None
    show ?thesis
      by (rule judges_on_good [where f = "report grant_all path (''cannot resolve $ref '' @ r)"], rule vlog.judges_eq [OF judges_message])
        (use ref False None in \<open>simp_all add: ncl_validate_value.simps [of grant_all env ref_depth rule v path]
          satisfies.simps [of env root ref_depth rule v] ctx_ok_def\<close>)
  next
    case (Some target)
    have s: "satisfies env root ref_depth rule v = satisfies env root (ref_depth + 1) target v"
      using ref False Some by (simp add: satisfies.simps [of env root ref_depth rule v])
    have j: "vlog.judges root (ncl_validate_value grant_all env (ref_depth + 1) target v path)
        (satisfies env root (ref_depth + 1) target v)"
      by (rule deeper) (use False in simp)
    show ?thesis
      unfolding s
    proof (rule judges_on_good [OF j])
      fix ctx :: "'a validate_ctx" assume "ctx_ok root ctx"
      then show "ncl_validate_value grant_all env ref_depth rule v path ctx
          = ncl_validate_value grant_all env (ref_depth + 1) target v path ctx"
        using ref False Some by (simp add: ncl_validate_value.simps [of grant_all env ref_depth rule v path] ctx_ok_def)
    qed
  qed
qed

lemma judges_branch: "vlog.judges root f a \<Longrightarrow> vlog.judges root g b \<Longrightarrow> vlog.judges root (\<lambda>s. if c then f s else g s) (if c then a else b)"
  by simp

lemma judges_typed:
  assumes rule: "rule \<noteq> J_Bool False" "is_object rule" "ref_of rule = None"
    and sub: "\<And>r w p. size r < size rule \<Longrightarrow>
      vlog.judges root (ncl_validate_value grant_all env ref_depth r w p) (satisfies env root ref_depth r w)"
  shows "vlog.judges root (ncl_validate_value grant_all env ref_depth rule v path) (satisfies env root ref_depth rule v)"
proof (cases "ncl_schema_accepts_type (keyword rule ''type'') v")
  case False
  show ?thesis
    by (rule judges_rejects [where path = path])
      (use rule False in \<open>auto simp: ncl_validate_value.simps [of grant_all env ref_depth rule v path]
        satisfies.simps [of env root ref_depth rule v]\<close>)
next
  case True
  let ?vv = "\<lambda>r w p c. ncl_validate_value grant_all env ref_depth r w p c"
  let ?q = "\<lambda>r w. satisfies env root ref_depth r w"
  have vv: "vlog.judges root (?vv r w p) (?q r w)" if "size r < size rule" for r w p
    using sub [OF that] .
  note j = vlog.judges_seq [OF vlog.judges_seq [OF judges_enum [where path = path] judges_combinators [where vv = ?vv and q = ?q and path = path, OF vv]]
    judges_branch [OF judges_number [where path = path] judges_branch [OF judges_string [where path = path] judges_branch
      [OF judges_array [where vv = ?vv and q = ?q and path = path, OF vv] judges_branch [OF judges_object [where vv = ?vv and q = ?q and path = path, OF vv] vlog.judges_skip]]]]]
  show ?thesis
    by (rule vlog.judges_eq [OF j])
      (use rule True in \<open>simp_all only: fun_eq_iff ncl_validate_value.simps [of grant_all env ref_depth rule v path]
        satisfies.simps [of env root ref_depth rule v] if_False if_True not_True_eq_False option.case Let_def HOL.simp_thms conj_assoc\<close>)
qed

lemma judges_value: "vlog.judges root (ncl_validate_value grant_all env ref_depth rule v path) (satisfies env root ref_depth rule v)"
proof (induction "NCL_SCHEMA_MAX_REF_DEPTH - ref_depth" arbitrary: ref_depth rule v path rule: less_induct)
  case (less ref_depth)
  have deeper: "vlog.judges root (ncl_validate_value grant_all env (ref_depth + 1) target v path) (satisfies env root (ref_depth + 1) target v)"
    if "ref_depth < NCL_SCHEMA_MAX_REF_DEPTH" for target v path
    by (rule less) (use that in simp)
  show ?case
  proof (induction "size rule" arbitrary: rule v path rule: less_induct)
    case (less rule)
    consider "rule = J_Bool False" | "rule \<noteq> J_Bool False" "\<not> is_object rule"
      | r where "rule \<noteq> J_Bool False" "is_object rule" "ref_of rule = Some r"
      | "rule \<noteq> J_Bool False" "is_object rule" "ref_of rule = None" by (cases "ref_of rule") auto
    then show ?case
    proof cases
      case 1
      show ?thesis
        by (rule judges_rejects [where path = path])
          (auto simp: 1 fun_eq_iff ncl_validate_value.simps [of grant_all env ref_depth "J_Bool False"]
            satisfies.simps [of env root ref_depth "J_Bool False"])
    next
      case 2
      show ?thesis
        by (rule vlog.judges_eq [OF vlog.judges_skip])
          (use 2 in \<open>simp_all add: fun_eq_iff ncl_validate_value.simps [of grant_all env ref_depth rule]
            satisfies.simps [of env root ref_depth rule]\<close>)
    next
      case 3
      then show ?thesis by (rule judges_reference) (rule deeper)
    next
      case 4
      then show ?thesis by (rule judges_typed) (rule less)
    qed
  qed
qed

section \<open>Validation\<close>


definition int_env :: "int schema_env" where
  "int_env = \<lparr>se_ops = int_ops, se_lt = (<), se_le = (\<le>), se_add = (+), se_sub = (-), se_mul = (*), se_div = (div),
     se_ipv4 = (\<lambda>t. False), se_ipv6 = (\<lambda>t. False)\<rparr>"

definition sample_schema :: "int ncl_schema" where
  "sample_schema = \<lparr>sc_root = J_Object [(''$ref'', J_String ''#/d/s''), (''d'', J_Object [(''s'',
     J_Object [(''type'', J_String ''string''), (''enum'', J_Array [J_String ''on'', J_String ''off''] 8)] 8)] 8)] 8,
     sc_patterns = ncl_ptrvec_init True\<rparr>"


end
