(* ===== verification/Json_Copy.thy ===== *)
theory Json_Copy
  imports Json_Doc
begin

text \<open>
  Copies of documents: with all memory granted, \<open>ncl_json_clone\<close> gives the same document.
\<close>

section \<open>Copies\<close>

lemma new_arr: "ncl_json_new_array grant_all = Some (J_Array [] 0)"
  by (simp add: ncl_json_new_array_def ncl_json_alloc_def grant_all)

lemma clone_items_exact:
  assumes "\<And>x. x \<in> set xs \<Longrightarrow> \<exists>y. ncl_json_clone grant_all ops x = Some y \<and> doc_of ops y = doc_of ops x"
  shows "\<exists>ys c1. clone_items grant_all ops xs (Some (J_Array zs c)) = Some (J_Array (zs @ ys) c1)
    \<and> map (doc_of ops) ys = map (doc_of ops) xs"
  using assms
proof (induction xs arbitrary: zs c)
  case (Cons x xs)
  from Cons.prems [of x] obtain y where y: "ncl_json_clone grant_all ops x = Some y" "doc_of ops y = doc_of ops x" by auto
  obtain c1 where c1: "ncl_json_arr_push grant_all (Some (J_Array zs c)) (Some y) = (NCL_OK, Some (J_Array (zs @ [y]) c1))"
    using push_all by blast
  from Cons.IH [of "zs @ [y]" c1] Cons.prems obtain ys c2
    where "clone_items grant_all ops xs (Some (J_Array (zs @ [y]) c1)) = Some (J_Array ((zs @ [y]) @ ys) c2)"
      "map (doc_of ops) ys = map (doc_of ops) xs" by (metis list.set_intros(2))
  with y c1 show ?case by (intro exI [of _ "y # ys"] exI [of _ c2]) simp
qed simp

lemma clone_members_exact:
  assumes "\<And>k x. (k, x) \<in> set ms \<Longrightarrow> \<exists>y. ncl_json_clone grant_all ops x = Some y \<and> doc_of ops y = doc_of ops x"
    and "distinct (map fst (ls @ ms))"
  shows "\<exists>ys c1. clone_members grant_all ops ms (Some (J_Object ls c)) = Some (J_Object (ls @ ys) c1)
    \<and> map (\<lambda>(k, x). (k, doc_of ops x)) ys = map (\<lambda>(k, x). (k, doc_of ops x)) ms"
  using assms
proof (induction ms arbitrary: ls c)
  case (Cons m ms)
  obtain k x where m: "m = (k, x)" by (cases m)
  with Cons.prems(1) [of k x] obtain y where y: "ncl_json_clone grant_all ops x = Some y" "doc_of ops y = doc_of ops x" by auto
  have "k \<notin> fst ` set ls" using Cons.prems(2) m by auto
  from set_new_all [OF this] obtain c1 where
    c1: "ncl_json_obj_set grant_all (Some (J_Object ls c)) (Some k) (Some y) = (NCL_OK, Some (J_Object (ls @ [(k, y)]) c1))"
    by blast
  have "distinct (map fst ((ls @ [(k, y)]) @ ms))" using Cons.prems(2) m by auto
  moreover have "\<exists>y. ncl_json_clone grant_all ops x = Some y \<and> doc_of ops y = doc_of ops x" if "(k, x) \<in> set ms" for k x
    by (rule Cons.prems(1) [of k]) (use that in simp)
  ultimately obtain ys c2
    where "clone_members grant_all ops ms (Some (J_Object (ls @ [(k, y)]) c1)) = Some (J_Object ((ls @ [(k, y)]) @ ys) c2)"
      "map (\<lambda>(k, x). (k, doc_of ops x)) ys = map (\<lambda>(k, x). (k, doc_of ops x)) ms"
    using Cons.IH [where ls = "ls @ [(k, y)]" and c = c1] by blast
  with y c1 m show ?case by (intro exI [of _ "(k, y) # ys"] exI [of _ c2]) simp
qed simp

lemma clone_exact: "doc_ok (doc_of ops j) \<Longrightarrow> \<exists>j1. ncl_json_clone grant_all ops j = Some j1 \<and> doc_of ops j1 = doc_of ops j"
proof (induction j)
  case (J_Array xs c)
  have "\<exists>y. ncl_json_clone grant_all ops x = Some y \<and> doc_of ops y = doc_of ops x" if "x \<in> set xs" for x
    using J_Array.IH [OF that] J_Array.prems that by (auto simp: list_all_iff)
  from clone_items_exact [where zs = "[]" and c = 0 and xs = xs, OF this] obtain ys c1
    where "clone_items grant_all ops xs (Some (J_Array [] 0)) = Some (J_Array ys c1)" "map (doc_of ops) ys = map (doc_of ops) xs" by auto
  then show ?case by (simp add: new_arr)
next
  case (J_Object ms c)
  have "\<exists>y. ncl_json_clone grant_all ops x = Some y \<and> doc_of ops y = doc_of ops x" if "(k, x) \<in> set ms" for k x
    using J_Object.IH [OF that, of x] J_Object.prems that by (fastforce simp: list_all_iff snds.simps)
  moreover have "distinct (map fst ([] @ ms))" using J_Object.prems by (simp add: comp_def case_prod_unfold)
  ultimately obtain ys c1 where "clone_members grant_all ops ms (Some (J_Object [] 0)) = Some (J_Object ys c1)"
      "map (\<lambda>(k, x). (k, doc_of ops x)) ys = map (\<lambda>(k, x). (k, doc_of ops x)) ms"
    using clone_members_exact [where ls = "[]" and c = 0 and ms = ms and ops = ops] by auto
  then show ?case by (simp add: new_obj)
next
  case (J_Number n)
  then show ?case
    by (auto simp: ncl_json_new_double_def ncl_json_alloc_def grant_all ncl_strdup_def number_text_def split: option.split)
qed (auto simp: ncl_json_new_null_def ncl_json_new_bool_def ncl_json_new_string_len_def ncl_json_alloc_def grant_all ncl_strdup_def)

end
