(* ===== verification/Schema_Compile.thy ===== *)
theory Schema_Compile
  imports Schema_Props Json_Copy
begin

text \<open>
  The correctness of \<^verbatim>\<open>ncl_schema_compile\<close>: the schema is copied (see \<open>Json_Copy\<close>), and every text under a key
  \<open>pattern\<close> outside of references has to compile.
\<close>

section \<open>Patterns\<close>

text \<open>The texts that have to compile, in the order of the document.\<close>

fun pattern_texts :: "json_doc \<Rightarrow> string list"
  and item_patterns :: "json_doc list \<Rightarrow> string list"
  and member_patterns :: "(string \<times> json_doc) list \<Rightarrow> string list" where
  "pattern_texts (D_Array ds) = item_patterns ds"
| "pattern_texts (D_Object ms) =
     (case map_of ms ''pattern'' of Some (D_String s) \<Rightarrow> [cstr_of s] | _ \<Rightarrow> []) @ member_patterns ms"
| "pattern_texts d = []"
| "item_patterns [] = []"
| "item_patterns (d # ds) = pattern_texts d @ item_patterns ds"
| "member_patterns [] = []"
| "member_patterns ((k, d) # ms) = (if k = ''$ref'' then [] else pattern_texts d) @ member_patterns ms"

definition compiles :: "string \<Rightarrow> bool" where
  "compiles p \<longleftrightarrow> fst (ncl_regex_compile grant_all (Some p) None) \<noteq> None"

definition checked :: "bool \<times> 'd ncl_schema \<Rightarrow> 'd ncl_schema \<Rightarrow> bool \<Rightarrow> bool" where
  "checked r schema ok \<longleftrightarrow> fst r = ok \<and> cache_ok (snd r) \<and> sc_root (snd r) = sc_root schema"

lemma checked_same: "cache_ok schema \<Longrightarrow> checked (True, schema) schema True"
  by (simp add: checked_def)

lemma checked_seq:
  assumes "checked r schema a" "\<And>ok s1. \<lbrakk>(ok, s1) = r; \<not> \<not> ok; cache_ok s1\<rbrakk> \<Longrightarrow> checked (h s1) s1 b"
  shows "checked (case r of (ok, s1) \<Rightarrow> if \<not> ok then (False, s1) else h s1) schema (a \<and> b)"
proof -
  obtain ok s1 where r: "r = (ok, s1)" by (cases r)
  from assms(1) have c: "cache_ok s1" "ok = a" "sc_root s1 = sc_root schema" by (simp_all add: checked_def r)
  show ?thesis
  proof (cases ok)
    case True
    with assms(2) [of ok s1] c show ?thesis by (auto simp: checked_def r)
  next
    case False
    with c show ?thesis by (simp add: checked_def r)
  qed
qed

lemma map_of_doc: "map_of (map (\<lambda>(k, x). (k, doc_of ops x)) ms) k = map_option (doc_of ops) (map_of ms k)"
  by (induction ms) auto

lemma string_member:
  "ncl_json_obj_get_string (Some (J_Object ms c)) (Some ''pattern'')
     = (case map_of (map (\<lambda>(k, x). (k, doc_of ops x)) ms) ''pattern'' of Some (D_String s) \<Rightarrow> Some (cstr_of s) | _ \<Rightarrow> None)"
  by (cases "map_of ms ''pattern''")
    (auto simp: ncl_json_obj_get_string_def get_map map_of_doc ncl_json_as_string_def split: json.split)

lemma checks_patterns:
  "cache_ok schema \<Longrightarrow> checked (ncl_schema_check_patterns grant_all j schema) schema (\<forall>p \<in> set (pattern_texts (doc_of ops j)). compiles p)"
  "cache_ok schema \<Longrightarrow> checked (check_items grant_all xs schema) schema (\<forall>p \<in> set (item_patterns (map (doc_of ops) xs)). compiles p)"
  "cache_ok schema \<Longrightarrow> checked (check_members grant_all ms schema) schema
     (\<forall>p \<in> set (member_patterns (map (\<lambda>(k, x). (k, doc_of ops x)) ms)). compiles p)"
proof (induction "grant_all :: grant" j schema and "grant_all :: grant" xs schema and "grant_all :: grant" ms schema
    rule: ncl_schema_check_patterns_check_items_check_members.induct)
  case (2 ms c schema)
  let ?ms = "map (\<lambda>(k, x). (k, doc_of ops x)) ms"
  show ?case
  proof (cases "ncl_json_obj_get_string (Some (J_Object ms c)) (Some ''pattern'')")
    case None
    from 2(1) [OF None 2(3)] None string_member [of ms c ops] show ?thesis
      by (auto split: option.splits json_doc.splits)
  next
    case (Some p)
    obtain rx s1 where s1: "ncl_schema_pattern grant_all schema (Some p) = (rx, s1)" by fastforce
    have c1: "rx = fst (ncl_regex_compile grant_all (Some p) None)" "cache_ok s1" "sc_root s1 = sc_root schema"
      using pattern_cached [OF 2(3), of p] s1 by simp_all
    have p: "pattern_texts (doc_of ops (J_Object ms c)) = p # member_patterns ?ms"
      using Some string_member [of ms c ops] by (auto split: option.splits json_doc.splits)
    show ?thesis
    proof (cases "rx = None")
      case True
      with c1 Some s1 show ?thesis unfolding p by (simp add: checked_def compiles_def)
    next
      case False
      from 2(2) [OF Some s1 [symmetric] False c1(2)] False c1 Some s1 show ?thesis
        unfolding p by (auto simp: checked_def compiles_def)
    qed
  qed
next
  case (5 x xs schema)
  have "checked (check_items grant_all (x # xs) schema) schema
      ((\<forall>p \<in> set (pattern_texts (doc_of ops x)). compiles p) \<and> (\<forall>p \<in> set (item_patterns (map (doc_of ops) xs)). compiles p))"
    unfolding check_items.simps by (rule checked_seq [OF 5(1) [OF 5(3)]]) (rule 5(2))
  then show ?case by (simp add: ball_Un)
next
  case (7 k x ms schema)
  show ?case
  proof (cases "k = ''$ref''")
    case True
    with 7 show ?thesis by simp
  next
    case False
    have "checked (check_members grant_all ((k, x) # ms) schema) schema
        ((\<forall>p \<in> set (pattern_texts (doc_of ops x)). compiles p)
         \<and> (\<forall>p \<in> set (member_patterns (map (\<lambda>(k, x). (k, doc_of ops x)) ms)). compiles p))"
      unfolding check_members.simps if_not_P [OF False] by (rule checked_seq [OF 7(2) [OF False 7(4)]]) (rule 7(3) [OF False])
    with False show ?thesis by (simp add: ball_Un)
  qed
qed (auto simp: checked_same)

section \<open>Compilation\<close>

lemma doc_kind:
  "ncl_json_type_of (Some j) = NCL_JSON_OBJECT \<longleftrightarrow> (\<exists>ms. doc_of ops j = D_Object ms)"
  "ncl_json_type_of (Some j) = NCL_JSON_BOOL \<longleftrightarrow> (\<exists>b. doc_of ops j = D_Bool b)"
  by (cases j; simp add: ncl_json_type_of_def)+

text \<open>
  C30. \<open>ncl_schema_compile\<close> accepts a document exactly if it is an object or a boolean and every
  text under a key \<open>pattern\<close> that is not below a \<open>$ref\<close> compiles; the schema it returns holds a
  copy of the document and is ready for exact validation.
\<close>

theorem schema_compile_exact:
  assumes "doc_ok (doc_of ops s)"
  shows "case fst (ncl_schema_compile grant_all ops True (Some s) err) of
      None \<Rightarrow> (\<forall>ms. doc_of ops s \<noteq> D_Object ms) \<and> (\<forall>b. doc_of ops s \<noteq> D_Bool b)
        \<or> (\<exists>p \<in> set (pattern_texts (doc_of ops s)). \<not> compiles p)
    | Some schema \<Rightarrow> ((\<exists>ms. doc_of ops s = D_Object ms) \<or> (\<exists>b. doc_of ops s = D_Bool b))
        \<and> (\<forall>p \<in> set (pattern_texts (doc_of ops s)). compiles p)
        \<and> doc_of ops (sc_root schema) = doc_of ops s \<and> cache_ok schema"
proof (cases "ncl_json_type_of (Some s) = NCL_JSON_OBJECT \<or> ncl_json_type_of (Some s) = NCL_JSON_BOOL")
  case False
  then show ?thesis
    using doc_kind [of s ops] by (auto simp: ncl_schema_compile_def Let_def)
next
  case True
  obtain root where root: "ncl_json_clone grant_all ops s = Some root" "doc_of ops root = doc_of ops s"
    using clone_exact [OF assms] by blast
  define fresh where "fresh = \<lparr>sc_root = root, sc_patterns = ncl_ptrvec_init True\<rparr>"
  have "cache_ok fresh" by (simp add: cache_ok_def fresh_def ncl_ptrvec_init_def)
  from checks_patterns(1) [OF this, of root ops] root(2)
  have c: "checked (ncl_schema_check_patterns grant_all root fresh) fresh (\<forall>p \<in> set (pattern_texts (doc_of ops s)). compiles p)"
    by simp
  obtain ok compiled where k: "ncl_schema_check_patterns grant_all root fresh = (ok, compiled)" by fastforce
  have "fst (ncl_schema_compile grant_all ops True (Some s) err) = (if ok then Some compiled else None)"
    using True root(1) k by (auto simp: ncl_schema_compile_def Let_def grant_all fresh_def)
  moreover have "(\<exists>ms. doc_of ops s = D_Object ms) \<or> (\<exists>b. doc_of ops s = D_Bool b)"
    using True doc_kind [of s ops] by simp
  ultimately show ?thesis
    using c k root(2) by (auto simp: checked_def fresh_def)
qed

definition sample_rules :: "int json" where
  "sample_rules = J_Object [(''properties'', J_Object [(''id'', J_Object [(''pattern'', J_String ''a+'')] 8)] 8)] 8"

lemma schema_compile_exact_witness:
  "\<exists>schema. fst (ncl_schema_compile grant_all int_ops True (Some sample_rules) None) = Some schema \<and> cache_ok schema"
proof -
  have d: "doc_of int_ops sample_rules = D_Object [(''properties'', D_Object [(''id'', D_Object [(''pattern'', D_String ''a+'')])])]"
    by (simp add: sample_rules_def)
  have ok: "doc_ok (doc_of int_ops sample_rules)" by (simp add: d is_cstr_def NUL_def)
  have "compiles ''a+''" unfolding compiles_def by code_simp
  then have "\<forall>p \<in> set (pattern_texts (doc_of int_ops sample_rules)). compiles p" by (simp add: d cstr_of_def NUL_def)
  with schema_compile_exact [OF ok, of None] show ?thesis by (auto simp: d split: option.splits)
qed

end
