(* ===== verification/Model.thy ===== *)
theory Model
  imports General_Topic Json_Text
begin

text \<open>
  \<^verbatim>\<open>stack/src/model/model.c\<close>, first part: the nodes of a device model, sample channels, children and
  lookup. A node is a tree; what the code keeps as a pointer into the tree (the target of a sample
  item, the result of a lookup) is the position of the node below the root, and the parent of a
  node is the node that holds it, as every function that attaches a child sets it. A NULL node,
  which the functions turn away before they do anything, is left out.
\<close>

section \<open>Kinds\<close>

datatype ncl_node_type =
  NCL_NODE_BASE | NCL_NODE_ROOT | NCL_NODE_DEVICE | NCL_NODE_COMPONENT | NCL_NODE_DATA_ITEM | NCL_NODE_CONFIG

fun ncl_node_type_name :: "ncl_node_type \<Rightarrow> string" where
  "ncl_node_type_name NCL_NODE_BASE = ''base''"
| "ncl_node_type_name NCL_NODE_ROOT = ''root''"
| "ncl_node_type_name NCL_NODE_DEVICE = ''device''"
| "ncl_node_type_name NCL_NODE_COMPONENT = ''component''"
| "ncl_node_type_name NCL_NODE_DATA_ITEM = ''dataItem''"
| "ncl_node_type_name NCL_NODE_CONFIG = ''config''"

datatype ncl_upload_type = NCL_UPLOAD_NORMAL | NCL_UPLOAD_EVENT

definition ncl_upload_type_name :: "ncl_upload_type \<Rightarrow> string" where
  "ncl_upload_type_name t = (if t = NCL_UPLOAD_EVENT then ''Event'' else ''Normal'')"

definition ncl_upload_type_parse :: "string option \<Rightarrow> ncl_upload_type option" where
  "ncl_upload_type_parse t =
     (if t = None then None
      else if t = Some ''Normal'' then Some NCL_UPLOAD_NORMAL
      else if t = Some ''Event'' then Some NCL_UPLOAD_EVENT else None)"

section \<open>Helpers\<close>

definition ncl_node_replace_str :: "grant \<Rightarrow> string option \<Rightarrow> string option \<Rightarrow> ncl_err \<times> string option" where
  "ncl_node_replace_str g slot value =
     (case ncl_strdup g value of
        None \<Rightarrow> if value \<noteq> None then (NCL_ERR_NOMEM, slot) else (NCL_OK, None)
      | Some copy \<Rightarrow> (NCL_OK, Some copy))"

text \<open>Writing members of an object; the callers do not look at the status.\<close>

definition put_json :: "grant \<Rightarrow> string \<Rightarrow> 'd json option \<Rightarrow> 'd json option \<Rightarrow> 'd json option" where
  "put_json g key v obj = snd (ncl_json_obj_set g obj (Some key) v)"

definition put_str :: "grant \<Rightarrow> string \<Rightarrow> string option \<Rightarrow> 'd json option \<Rightarrow> 'd json option" where
  "put_str g key v obj = (case v of None \<Rightarrow> obj | Some s \<Rightarrow> snd (ncl_json_obj_set_string g obj (Some key) (Some s)))"

definition put_int :: "grant \<Rightarrow> 'd double_ops \<Rightarrow> string \<Rightarrow> bool \<Rightarrow> int \<Rightarrow> 'd json option \<Rightarrow> 'd json option" where
  "put_int g ops key present v obj = (if present then snd (ncl_json_obj_set_int g ops obj (Some key) v) else obj)"

definition put_bool :: "grant \<Rightarrow> string \<Rightarrow> bool \<Rightarrow> bool \<Rightarrow> 'd json option \<Rightarrow> 'd json option" where
  "put_bool g key present v obj = (if present then snd (ncl_json_obj_set_bool g obj (Some key) v) else obj)"

text \<open>A number that is there only if it converts; the field keeps 0 otherwise.\<close>

definition read_int :: "'d double_ops \<Rightarrow> 'd json option \<Rightarrow> string \<Rightarrow> bool \<times> int" where
  "read_int ops obj key =
     (if ncl_json_obj_has obj (Some key)
      then (case fst (ncl_json_as_int ops (ncl_json_obj_get obj (Some key))) of Some v \<Rightarrow> (True, v) | None \<Rightarrow> (False, 0))
      else (False, 0))"

text \<open>The texts among the items of an array.\<close>

fun read_strings :: "grant \<Rightarrow> 'd json list \<Rightarrow> char strvec \<Rightarrow> char strvec" where
  "read_strings g [] v = v"
| "read_strings g (x # xs) v =
     read_strings g xs
       (case ncl_json_as_string (Some x) of None \<Rightarrow> v | Some s \<Rightarrow> snd (ncl_strvec_push g v (Some s)))"

section \<open>Sample channels\<close>

record sample_params =
  sp_indexes :: "char strvec"
  sp_keys :: "char strvec"
  sp_has_offset :: bool
  sp_offset :: int
  sp_has_length :: bool
  sp_length :: int

definition SAMPLE_PARAMS_SIZE :: nat where
  "SAMPLE_PARAMS_SIZE = 80"

definition ncl_sample_params_new :: "grant \<Rightarrow> sample_params option" where
  "ncl_sample_params_new g =
     (if g SAMPLE_PARAMS_SIZE
      then Some \<lparr>sp_indexes = ncl_strvec_init, sp_keys = ncl_strvec_init, sp_has_offset = False, sp_offset = 0,
        sp_has_length = False, sp_length = 0\<rparr>
      else None)"

fun push_texts :: "grant \<Rightarrow> string list \<Rightarrow> char strvec \<Rightarrow> char strvec" where
  "push_texts g [] v = v"
| "push_texts g (s # ss) v = push_texts g ss (snd (ncl_strvec_push g v (Some s)))"

definition ncl_sample_params_clone :: "grant \<Rightarrow> sample_params option \<Rightarrow> sample_params option" where
  "ncl_sample_params_clone g p =
     (case p of
        None \<Rightarrow> None
      | Some q \<Rightarrow>
          (case ncl_sample_params_new g of
             None \<Rightarrow> None
           | Some copy \<Rightarrow>
               Some (copy\<lparr>sp_indexes := push_texts g (sv_items (sp_indexes q)) (sp_indexes copy),
                 sp_keys := push_texts g (sv_items (sp_keys q)) (sp_keys copy),
                 sp_has_offset := sp_has_offset q, sp_offset := sp_offset q,
                 sp_has_length := sp_has_length q, sp_length := sp_length q\<rparr>)))"

definition ncl_sample_params_is_valid :: "sample_params option \<Rightarrow> bool" where
  "ncl_sample_params_is_valid p =
     (case p of None \<Rightarrow> True
      | Some q \<Rightarrow> \<not> (ncl_strvec_len (sp_indexes q) > 0 \<and> ncl_strvec_len (sp_keys q) > 0))"

definition ncl_sample_params_to_json :: "grant \<Rightarrow> 'd double_ops \<Rightarrow> sample_params option \<Rightarrow> 'd json option" where
  "ncl_sample_params_to_json g ops p =
     (case p of
        None \<Rightarrow> None
      | Some q \<Rightarrow>
          (case ncl_json_new_object g of
             None \<Rightarrow> None
           | Some obj \<Rightarrow>
               (let o1 = (if ncl_strvec_len (sp_indexes q) > 0
                          then put_json g ''indexes'' (ncl_strvec_to_json g (sp_indexes q)) (Some obj) else Some obj);
                    o2 = (if ncl_strvec_len (sp_keys q) > 0
                          then put_json g ''keys'' (ncl_strvec_to_json g (sp_keys q)) o1 else o1);
                    o3 = put_int g ops ''offset'' (sp_has_offset q) (sp_offset q) o2
                in put_int g ops ''length'' (sp_has_length q) (sp_length q) o3)))"

definition ncl_sample_params_from_json :: "grant \<Rightarrow> 'd double_ops \<Rightarrow> 'd json option \<Rightarrow> sample_params option" where
  "ncl_sample_params_from_json g ops j =
     (if j = None \<or> ncl_json_type_of j \<noteq> NCL_JSON_OBJECT then None
      else case ncl_sample_params_new g of
        None \<Rightarrow> None
      | Some p \<Rightarrow>
          (let offset = read_int ops j ''offset''; len = read_int ops j ''length''
           in Some (p\<lparr>sp_indexes := read_strings g (items (ncl_json_obj_get j (Some ''indexes''))) (sp_indexes p),
                sp_keys := read_strings g (items (ncl_json_obj_get j (Some ''keys''))) (sp_keys p),
                sp_has_offset := fst offset, sp_offset := snd offset,
                sp_has_length := fst len, sp_length := snd len\<rparr>)))"

text \<open>The children of a node are in four vectors; a position leads from a node to one below it.\<close>

datatype child_slot = In_Configs | In_Data_Items | In_Components | In_Devices

type_synonym node_pos = "(child_slot \<times> nat) list"

record sample_ref =
  sr_id :: "string option"
  sr_params :: "sample_params option"
  sr_node :: "node_pos option"
  sr_path :: "string option"

definition SAMPLE_REF_SIZE :: nat where
  "SAMPLE_REF_SIZE = 32"

definition ncl_sample_ref_new :: "grant \<Rightarrow> string option \<Rightarrow> sample_ref option" where
  "ncl_sample_ref_new g ref_id =
     (if \<not> g SAMPLE_REF_SIZE then None
      else (let r = \<lparr>sr_id = None, sr_params = None, sr_node = None, sr_path = None\<rparr>
            in case ref_id of
                 None \<Rightarrow> Some r
               | Some s \<Rightarrow> (case ncl_strdup g (Some s) of None \<Rightarrow> None | Some t \<Rightarrow> Some (r\<lparr>sr_id := Some t\<rparr>))))"

definition ncl_sample_ref_is_valid :: "sample_ref option \<Rightarrow> bool" where
  "ncl_sample_ref_is_valid ref =
     (case ref of
        None \<Rightarrow> False
      | Some r \<Rightarrow> if ncl_str_is_empty (sr_id r) then False
          else sr_params r = None \<or> ncl_sample_params_is_valid (sr_params r))"

fun list_string_loop :: "grant \<Rightarrow> nat \<Rightarrow> string list \<Rightarrow> strbuf \<Rightarrow> strbuf" where
  "list_string_loop g i [] sb = sb"
| "list_string_loop g i (s # ss) sb =
     list_string_loop g (Suc i) ss (snd (put_text g s (if i > 0 then snd (put_text g '', '' sb) else sb)))"

definition ncl_strvec_to_list_string :: "grant \<Rightarrow> char strvec \<Rightarrow> string option" where
  "ncl_strvec_to_list_string g v =
     (let sb = snd (put_char g (CHR '']'') (list_string_loop g 0 (sv_items v) (snd (put_char g (CHR ''['') ncl_strbuf_init))))
      in map_option text_of (fst (ncl_strbuf_detach g sb)))"

section \<open>Nodes\<close>

text \<open>The fields of a node but its children; the capacities of the four vectors come last.\<close>

record 'v node_fields =
  nd_type :: ncl_node_type
  nd_name :: "string option"
  nd_id :: "string option"
  nd_type_name :: "string option"
  nd_settable :: bool
  nd_has_settable :: bool
  nd_description :: "string option"
  nd_path :: "string option"
  nd_number :: "string option"
  nd_data_type :: "string option"
  nd_value :: "'v option"
  nd_mapping :: "string option"
  nd_value_type :: "string option"
  nd_source :: "string option"
  nd_version :: "string option"
  nd_guid :: "string option"
  nd_unique_id :: "string option"
  nd_has_sample_interval :: bool
  nd_sample_interval :: int
  nd_has_upload_interval :: bool
  nd_upload_interval :: int
  nd_has_upload_type :: bool
  nd_upload_type :: ncl_upload_type
  nd_sample_items :: "sample_ref ptrvec"
  nd_configs_cap :: nat
  nd_data_items_cap :: nat
  nd_components_cap :: nat
  nd_devices_cap :: nat

datatype 'v ncl_node =
  Ncl_Node (nf: "'v node_fields") (configs: "'v ncl_node list") (data_items: "'v ncl_node list")
    (components: "'v ncl_node list") (devices: "'v ncl_node list")

definition with_fields :: "('v node_fields \<Rightarrow> 'v node_fields) \<Rightarrow> 'v ncl_node \<Rightarrow> 'v ncl_node" where
  "with_fields f n = Ncl_Node (f (nf n)) (configs n) (data_items n) (components n) (devices n)"

fun children :: "child_slot \<Rightarrow> 'v ncl_node \<Rightarrow> 'v ncl_node list" where
  "children In_Configs n = configs n"
| "children In_Data_Items n = data_items n"
| "children In_Components n = components n"
| "children In_Devices n = devices n"

fun node_at :: "'v ncl_node \<Rightarrow> node_pos \<Rightarrow> 'v ncl_node option" where
  "node_at n [] = Some n"
| "node_at n ((slot, i) # p) = (if i < length (children slot n) then node_at (children slot n ! i) p else None)"

definition NODE_SIZE :: nat where
  "NODE_SIZE = 336"

definition blank_fields :: "ncl_node_type \<Rightarrow> 'v node_fields" where
  "blank_fields t =
     \<lparr>nd_type = t, nd_name = None, nd_id = None, nd_type_name = None, nd_settable = False, nd_has_settable = False,
      nd_description = None, nd_path = None, nd_number = None, nd_data_type = None, nd_value = None, nd_mapping = None,
      nd_value_type = None, nd_source = None, nd_version = None, nd_guid = None, nd_unique_id = None,
      nd_has_sample_interval = False, nd_sample_interval = 0, nd_has_upload_interval = False, nd_upload_interval = 0,
      nd_has_upload_type = False, nd_upload_type = NCL_UPLOAD_NORMAL, nd_sample_items = ncl_ptrvec_init True,
      nd_configs_cap = 0, nd_data_items_cap = 0, nd_components_cap = 0, nd_devices_cap = 0\<rparr>"

definition ncl_node_new :: "grant \<Rightarrow> ncl_node_type \<Rightarrow> 'v ncl_node option" where
  "ncl_node_new g t = (if g NODE_SIZE then Some (Ncl_Node (blank_fields t) [] [] [] []) else None)"

section \<open>Setters\<close>

definition set_text ::
  "grant \<Rightarrow> ('v node_fields \<Rightarrow> string option) \<Rightarrow> ((string option \<Rightarrow> string option) \<Rightarrow> 'v node_fields \<Rightarrow> 'v node_fields) \<Rightarrow>
   string option \<Rightarrow> 'v node_fields \<Rightarrow> ncl_err \<times> 'v node_fields" where
  "set_text g get upd value f = (case ncl_node_replace_str g (get f) value of (rc, s) \<Rightarrow> (rc, upd (\<lambda>_. s) f))"

definition ncl_node_set_name :: "grant \<Rightarrow> string option \<Rightarrow> 'v node_fields \<Rightarrow> ncl_err \<times> 'v node_fields" where
  "ncl_node_set_name g = set_text g nd_name nd_name_update"

definition ncl_node_set_id :: "grant \<Rightarrow> string option \<Rightarrow> 'v node_fields \<Rightarrow> ncl_err \<times> 'v node_fields" where
  "ncl_node_set_id g = set_text g nd_id nd_id_update"

definition ncl_node_set_description :: "grant \<Rightarrow> string option \<Rightarrow> 'v node_fields \<Rightarrow> ncl_err \<times> 'v node_fields" where
  "ncl_node_set_description g = set_text g nd_description nd_description_update"

definition ncl_node_set_number :: "grant \<Rightarrow> string option \<Rightarrow> 'v node_fields \<Rightarrow> ncl_err \<times> 'v node_fields" where
  "ncl_node_set_number g = set_text g nd_number nd_number_update"

definition ncl_node_set_data_type :: "grant \<Rightarrow> string option \<Rightarrow> 'v node_fields \<Rightarrow> ncl_err \<times> 'v node_fields" where
  "ncl_node_set_data_type g = set_text g nd_data_type nd_data_type_update"

definition ncl_node_set_mapping :: "grant \<Rightarrow> string option \<Rightarrow> 'v node_fields \<Rightarrow> ncl_err \<times> 'v node_fields" where
  "ncl_node_set_mapping g = set_text g nd_mapping nd_mapping_update"

definition ncl_node_set_value_type :: "grant \<Rightarrow> string option \<Rightarrow> 'v node_fields \<Rightarrow> ncl_err \<times> 'v node_fields" where
  "ncl_node_set_value_type g = set_text g nd_value_type nd_value_type_update"

definition ncl_node_set_version :: "grant \<Rightarrow> string option \<Rightarrow> 'v node_fields \<Rightarrow> ncl_err \<times> 'v node_fields" where
  "ncl_node_set_version g = set_text g nd_version nd_version_update"

definition ncl_node_set_guid :: "grant \<Rightarrow> string option \<Rightarrow> 'v node_fields \<Rightarrow> ncl_err \<times> 'v node_fields" where
  "ncl_node_set_guid g = set_text g nd_guid nd_guid_update"

definition ncl_node_set_unique_id :: "grant \<Rightarrow> string option \<Rightarrow> 'v node_fields \<Rightarrow> ncl_err \<times> 'v node_fields" where
  "ncl_node_set_unique_id g = set_text g nd_unique_id nd_unique_id_update"

definition text_or_empty :: "string option \<Rightarrow> string" where
  "text_or_empty s = (case s of None \<Rightarrow> '''' | Some t \<Rightarrow> t)"

definition ncl_node_set_type_name :: "grant \<Rightarrow> string option \<Rightarrow> 'v node_fields \<Rightarrow> ncl_err \<times> 'v node_fields" where
  "ncl_node_set_type_name g value f =
     (case set_text g nd_type_name nd_type_name_update value f of
        (rc, f1) \<Rightarrow>
          if rc \<noteq> NCL_OK then (rc, f1)
          else if nd_type f1 = NCL_NODE_ROOT
          then (case ncl_asprintf_text g (''/'' @ text_or_empty (nd_type_name f1)) of
                  None \<Rightarrow> (NCL_ERR_NOMEM, f1)
                | Some built \<Rightarrow> (NCL_OK, f1\<lparr>nd_path := Some built\<rparr>))
          else (NCL_OK, f1))"

definition ncl_node_set_source :: "grant \<Rightarrow> string option \<Rightarrow> 'v node_fields \<Rightarrow> ncl_err \<times> 'v node_fields" where
  "ncl_node_set_source g value f =
     (case value of
        None \<Rightarrow> set_text g nd_source nd_source_update None f
      | Some v \<Rightarrow>
          (case ncl_str_trim_dup g (Some v) of
             None \<Rightarrow> (NCL_ERR_NOMEM, f)
           | Some t \<Rightarrow> set_text g nd_source nd_source_update (if t = [] then None else Some t) f))"

definition ncl_node_set_settable :: "bool \<Rightarrow> 'v node_fields \<Rightarrow> ncl_err \<times> 'v node_fields" where
  "ncl_node_set_settable value f = (NCL_OK, f\<lparr>nd_settable := value, nd_has_settable := True\<rparr>)"

definition ncl_node_set_value :: "'d json option \<Rightarrow> 'd json node_fields \<Rightarrow> ncl_err \<times> 'd json node_fields" where
  "ncl_node_set_value value f = (NCL_OK, f\<lparr>nd_value := value\<rparr>)"

section \<open>Children\<close>

fun child_cap :: "child_slot \<Rightarrow> 'v node_fields \<Rightarrow> nat" where
  "child_cap In_Configs f = nd_configs_cap f"
| "child_cap In_Data_Items f = nd_data_items_cap f"
| "child_cap In_Components f = nd_components_cap f"
| "child_cap In_Devices f = nd_devices_cap f"

fun set_children :: "child_slot \<Rightarrow> 'v ncl_node list \<Rightarrow> nat \<Rightarrow> 'v ncl_node \<Rightarrow> 'v ncl_node" where
  "set_children In_Configs xs c (Ncl_Node f cs ds ms vs) = Ncl_Node (f\<lparr>nd_configs_cap := c\<rparr>) xs ds ms vs"
| "set_children In_Data_Items xs c (Ncl_Node f cs ds ms vs) = Ncl_Node (f\<lparr>nd_data_items_cap := c\<rparr>) cs xs ms vs"
| "set_children In_Components xs c (Ncl_Node f cs ds ms vs) = Ncl_Node (f\<lparr>nd_components_cap := c\<rparr>) cs ds xs vs"
| "set_children In_Devices xs c (Ncl_Node f cs ds ms vs) = Ncl_Node (f\<lparr>nd_devices_cap := c\<rparr>) cs ds ms xs"

text \<open>Attaching a child: the status, what was released, and the parent.\<close>

definition attach :: "grant \<Rightarrow> child_slot \<Rightarrow> 'v ncl_node \<Rightarrow> 'v ncl_node \<Rightarrow> ncl_err \<times> 'v ncl_node list \<times> 'v ncl_node" where
  "attach g slot child n =
     (case ncl_ptrvec_push_owned g \<lparr>pv_items = map Some (children slot n), pv_cap = child_cap slot (nf n), pv_free = True\<rparr> (Some child) of
        (rc, freed, v) \<Rightarrow> (rc, freed, set_children slot (map the (pv_items v)) (pv_cap v) n))"

definition ncl_node_add_config :: "grant \<Rightarrow> 'v ncl_node \<Rightarrow> 'v ncl_node \<Rightarrow> ncl_err \<times> 'v ncl_node list \<times> 'v ncl_node" where
  "ncl_node_add_config g = attach g In_Configs"

definition ncl_node_add_data_item :: "grant \<Rightarrow> 'v ncl_node \<Rightarrow> 'v ncl_node \<Rightarrow> ncl_err \<times> 'v ncl_node list \<times> 'v ncl_node" where
  "ncl_node_add_data_item g = attach g In_Data_Items"

definition ncl_node_add_component :: "grant \<Rightarrow> 'v ncl_node \<Rightarrow> 'v ncl_node \<Rightarrow> ncl_err \<times> 'v ncl_node list \<times> 'v ncl_node" where
  "ncl_node_add_component g = attach g In_Components"

definition ncl_node_add_device :: "grant \<Rightarrow> 'v ncl_node \<Rightarrow> 'v ncl_node \<Rightarrow> ncl_err \<times> 'v ncl_node list \<times> 'v ncl_node" where
  "ncl_node_add_device g = attach g In_Devices"

definition ncl_node_add_sample_item ::
  "grant \<Rightarrow> sample_ref \<Rightarrow> 'v node_fields \<Rightarrow> ncl_err \<times> sample_ref list \<times> 'v node_fields" where
  "ncl_node_add_sample_item g ref f =
     (case ncl_ptrvec_push_owned g (nd_sample_items f) (Some ref) of (rc, freed, v) \<Rightarrow> (rc, freed, f\<lparr>nd_sample_items := v\<rparr>))"

definition ncl_node_add_child :: "grant \<Rightarrow> 'v ncl_node \<Rightarrow> 'v ncl_node \<Rightarrow> ncl_err \<times> 'v ncl_node list \<times> 'v ncl_node" where
  "ncl_node_add_child g child n =
     (case nd_type (nf child) of
        NCL_NODE_CONFIG \<Rightarrow> ncl_node_add_config g child n
      | NCL_NODE_DATA_ITEM \<Rightarrow> ncl_node_add_data_item g child n
      | NCL_NODE_COMPONENT \<Rightarrow> ncl_node_add_component g child n
      | NCL_NODE_DEVICE \<Rightarrow> ncl_node_add_device g child n
      | _ \<Rightarrow> (NCL_ERR_INVALID_TYPE, [child], n))"

definition ncl_node_child_count :: "'v ncl_node \<Rightarrow> nat" where
  "ncl_node_child_count n = length (configs n) + length (data_items n) + length (components n) + length (devices n)"

definition child_at :: "child_slot \<Rightarrow> 'v ncl_node \<Rightarrow> nat \<Rightarrow> 'v ncl_node option" where
  "child_at slot n i = (if i \<ge> length (children slot n) then None else Some (children slot n ! i))"

definition ncl_node_sample_count :: "'v node_fields \<Rightarrow> nat" where
  "ncl_node_sample_count f = ncl_ptrvec_len (nd_sample_items f)"

definition ncl_node_sample_at :: "'v node_fields \<Rightarrow> nat \<Rightarrow> sample_ref option" where
  "ncl_node_sample_at f i = ncl_ptrvec_at (nd_sample_items f) i"

section \<open>Lookup\<close>

definition has_id :: "string \<Rightarrow> 'v ncl_node \<Rightarrow> bool" where
  "has_id wanted n \<longleftrightarrow> nd_id (nf n) = Some wanted"

definition has_type :: "string \<Rightarrow> 'v ncl_node \<Rightarrow> bool" where
  "has_type wanted n \<longleftrightarrow> nd_type_name (nf n) = Some wanted"

text \<open>The first of the children themselves, and the first of the children or of what is below them.\<close>

fun find_flat :: "child_slot \<Rightarrow> string \<Rightarrow> nat \<Rightarrow> 'v ncl_node list \<Rightarrow> node_pos option" where
  "find_flat slot wanted i [] = None"
| "find_flat slot wanted i (n # ns) = (if has_id wanted n then Some [(slot, i)] else find_flat slot wanted (Suc i) ns)"

definition or_else :: "'a option \<Rightarrow> 'a option \<Rightarrow> 'a option" where
  "or_else a b = (case a of None \<Rightarrow> b | Some x \<Rightarrow> Some x)"

fun ncl_node_find_by_id :: "'v ncl_node \<Rightarrow> string \<Rightarrow> node_pos option"
  and find_deep :: "child_slot \<Rightarrow> string \<Rightarrow> nat \<Rightarrow> 'v ncl_node list \<Rightarrow> node_pos option" where
  "ncl_node_find_by_id (Ncl_Node f cs ds ms vs) wanted =
     or_else (find_flat In_Configs wanted 0 cs) (or_else (find_flat In_Data_Items wanted 0 ds)
       (or_else (find_deep In_Components wanted 0 ms) (find_deep In_Devices wanted 0 vs)))"
| "find_deep slot wanted i [] = None"
| "find_deep slot wanted i (n # ns) =
     (if has_id wanted n then Some [(slot, i)]
      else or_else (map_option (Cons (slot, i)) (ncl_node_find_by_id n wanted)) (find_deep slot wanted (Suc i) ns))"

fun ncl_node_find_by_type :: "'v ncl_node \<Rightarrow> string \<Rightarrow> node_pos option"
  and find_types :: "child_slot \<Rightarrow> string \<Rightarrow> nat \<Rightarrow> 'v ncl_node list \<Rightarrow> node_pos option" where
  "ncl_node_find_by_type (Ncl_Node f cs ds ms vs) wanted =
     (if nd_type_name f = Some wanted then Some []
      else or_else (find_types In_Configs wanted 0 cs) (or_else (find_types In_Data_Items wanted 0 ds)
        (or_else (find_types In_Components wanted 0 ms) (find_types In_Devices wanted 0 vs))))"
| "find_types slot wanted i [] = None"
| "find_types slot wanted i (n # ns) =
     or_else (map_option (Cons (slot, i)) (ncl_node_find_by_type n wanted)) (find_types slot wanted (Suc i) ns)"

definition NCL_NODE_TYPE_SAMPLE_CHANNEL :: string where
  "NCL_NODE_TYPE_SAMPLE_CHANNEL = ''SAMPLE_CHANNEL''"

definition ncl_node_is_sample_node :: "'v node_fields \<Rightarrow> bool" where
  "ncl_node_is_sample_node f \<longleftrightarrow> nd_type_name f = Some NCL_NODE_TYPE_SAMPLE_CHANNEL"

section \<open>Copies\<close>

text \<open>The scalar fields of the copy; the setters' statuses are not looked at.\<close>

definition clone_fields :: "grant \<Rightarrow> 'd double_ops \<Rightarrow> 'd json node_fields \<Rightarrow> 'd json node_fields \<Rightarrow> 'd json node_fields" where
  "clone_fields g ops f copy =
     (let c1 = snd (ncl_node_set_name g (nd_name f) copy);
          c2 = snd (ncl_node_set_id g (nd_id f) c1);
          c3 = snd (ncl_node_set_type_name g (nd_type_name f) c2);
          c4 = c3\<lparr>nd_has_settable := nd_has_settable f, nd_settable := nd_settable f\<rparr>;
          c5 = snd (ncl_node_set_description g (nd_description f) c4);
          c6 = snd (ncl_node_set_number g (nd_number f) c5);
          c7 = snd (ncl_node_set_data_type g (nd_data_type f) c6);
          c8 = (case nd_value f of None \<Rightarrow> c7 | Some v \<Rightarrow> snd (ncl_node_set_value (ncl_json_clone g ops v) c7));
          c9 = snd (ncl_node_set_mapping g (nd_mapping f) c8);
          c10 = snd (ncl_node_set_value_type g (nd_value_type f) c9);
          c11 = snd (ncl_node_set_source g (nd_source f) c10);
          c12 = snd (ncl_node_set_version g (nd_version f) c11);
          c13 = snd (ncl_node_set_guid g (nd_guid f) c12);
          c14 = snd (ncl_node_set_unique_id g (nd_unique_id f) c13);
          c15 = (case nd_path f of None \<Rightarrow> c14 | Some p \<Rightarrow> c14\<lparr>nd_path := ncl_strdup g (Some p)\<rparr>)
      in c15\<lparr>nd_has_sample_interval := nd_has_sample_interval f, nd_sample_interval := nd_sample_interval f,
           nd_has_upload_interval := nd_has_upload_interval f, nd_upload_interval := nd_upload_interval f,
           nd_has_upload_type := nd_has_upload_type f, nd_upload_type := nd_upload_type f\<rparr>)"

text \<open>The sample items: \<open>None\<close> as soon as one of them cannot be copied or added.\<close>

fun clone_refs :: "grant \<Rightarrow> sample_ref option list \<Rightarrow> 'v node_fields \<Rightarrow> 'v node_fields option" where
  "clone_refs g [] copy = Some copy"
| "clone_refs g (r # rs) copy =
     (case r of
        None \<Rightarrow> None
      | Some src \<Rightarrow>
          (case ncl_sample_ref_new g (sr_id src) of
             None \<Rightarrow> None
           | Some ref \<Rightarrow>
               (case ncl_node_add_sample_item g
                       (ref\<lparr>sr_params := ncl_sample_params_clone g (sr_params src), sr_node := sr_node src\<rparr>) copy of
                  (rc, freed, copy1) \<Rightarrow> if rc \<noteq> NCL_OK then None else clone_refs g rs copy1)))"

fun ncl_node_clone :: "grant \<Rightarrow> 'd double_ops \<Rightarrow> bool \<Rightarrow> 'd json ncl_node \<Rightarrow> 'd json ncl_node option"
  and clone_nodes :: "grant \<Rightarrow> 'd double_ops \<Rightarrow> child_slot \<Rightarrow> 'd json ncl_node list \<Rightarrow> 'd json ncl_node option \<Rightarrow> 'd json ncl_node option" where
  "ncl_node_clone g ops shallow_children (Ncl_Node f cs ds ms vs) =
     (case ncl_node_new g (nd_type f) of
        None \<Rightarrow> None
      | Some blank \<Rightarrow>
          (case clone_refs g (pv_items (nd_sample_items f)) (clone_fields g ops f (nf blank)) of
             None \<Rightarrow> None
           | Some copy \<Rightarrow>
               if shallow_children then Some (Ncl_Node copy [] [] [] [])
               else clone_nodes g ops In_Devices vs (clone_nodes g ops In_Components ms
                      (clone_nodes g ops In_Data_Items ds (clone_nodes g ops In_Configs cs
                        (Some (Ncl_Node copy [] [] [] [])))))))"
| "clone_nodes g ops slot [] copy = copy"
| "clone_nodes g ops slot (n # ns) copy =
     (case copy of
        None \<Rightarrow> None
      | Some c \<Rightarrow>
          (case ncl_node_clone g ops False n of
             None \<Rightarrow> None
           | Some child \<Rightarrow>
               (case attach g slot child c of
                  (rc, freed, c1) \<Rightarrow> clone_nodes g ops slot ns (if rc \<noteq> NCL_OK then None else Some c1))))"

end
