(* ===== verification/Model_Paths.thy ===== *)
theory Model_Paths
  imports Model
begin

text \<open>
  \<^verbatim>\<open>model.c\<close>, second part: paths, validity, and the maps from paths and ids to nodes. Warnings are
  left out.
\<close>

section \<open>Paths\<close>

definition ncl_node_path :: "'v node_fields \<Rightarrow> string option" where
  "ncl_node_path f =
     (if nd_type f = NCL_NODE_ROOT then (case nd_path f of Some p \<Rightarrow> Some p | None \<Rightarrow> Some ''/'') else nd_path f)"

text \<open>Up from a position to the first device.\<close>

fun device_above :: "'v ncl_node \<Rightarrow> node_pos \<Rightarrow> nat \<Rightarrow> string option" where
  "device_above root p k =
     (case node_at root (take k p) of
        None \<Rightarrow> None
      | Some n \<Rightarrow>
          if nd_type (nf n) = NCL_NODE_DEVICE then ncl_node_path (nf n)
          else (case k of 0 \<Rightarrow> None | Suc k1 \<Rightarrow> device_above root p k1))"

definition ncl_node_device_path :: "'v ncl_node \<Rightarrow> node_pos \<Rightarrow> string option" where
  "ncl_node_device_path root p = device_above root p (length p)"

definition ncl_path_without_device :: "grant \<Rightarrow> string option \<Rightarrow> string option \<Rightarrow> string option" where
  "ncl_path_without_device g path device_path =
     (case path of
        None \<Rightarrow> None
      | Some p \<Rightarrow>
          (case device_path of
             None \<Rightarrow> ncl_strdup g path
           | Some d \<Rightarrow>
               if d = [] \<or> d = ''/'' then ncl_strdup g path
               else if take (length d) p \<noteq> d then ncl_strdup g path
               else (case drop (length d) p of
                   [] \<Rightarrow> ncl_strdup g (Some ''/'')
                 | c # r \<Rightarrow> if c \<noteq> CHR ''/'' then ncl_strdup g path else ncl_strdup g (Some (c # r)))))"

definition ncl_node_path_in_device :: "grant \<Rightarrow> 'v ncl_node \<Rightarrow> node_pos \<Rightarrow> string option" where
  "ncl_node_path_in_device g root p =
     (case node_at root p of
        None \<Rightarrow> None
      | Some n \<Rightarrow> ncl_path_without_device g (ncl_node_path (nf n)) (ncl_node_device_path root p))"

definition ncl_path_prefix :: "string option \<Rightarrow> string" where
  "ncl_path_prefix parent_path =
     (case parent_path of None \<Rightarrow> '''' | Some p \<Rightarrow> if p = [] \<or> p = ''/'' then '''' else p)"

text \<open>The last segment of a path: the type, and the number after an \<open>@\<close>.\<close>

definition path_segment :: "'v node_fields \<Rightarrow> string" where
  "path_segment f =
     text_or_empty (nd_type_name f) @ (case nd_number f of None \<Rightarrow> '''' | Some n \<Rightarrow> ''@'' @ n)"

definition ncl_node_build_path :: "grant \<Rightarrow> string option \<Rightarrow> 'v node_fields \<Rightarrow> ncl_err \<times> 'v node_fields" where
  "ncl_node_build_path g parent_path f =
     (case ncl_asprintf_text g (ncl_path_prefix parent_path @ ''/'' @ path_segment f) of
        None \<Rightarrow> (NCL_ERR_NOMEM, f)
      | Some built \<Rightarrow> (NCL_OK, f\<lparr>nd_path := Some built\<rparr>))"

definition ncl_node_source_path :: "grant \<Rightarrow> 'v node_fields \<Rightarrow> string \<Rightarrow> string option" where
  "ncl_node_source_path g f source =
     (if source \<noteq> [] \<and> hd source = CHR ''/'' then ncl_asprintf_text g (source @ ''/'' @ path_segment f)
      else ncl_asprintf_text g (''/'' @ source @ ''/'' @ path_segment f))"

definition ncl_node_apply_source :: "grant \<Rightarrow> string option \<Rightarrow> 'v node_fields \<Rightarrow> ncl_err \<times> 'v node_fields" where
  "ncl_node_apply_source g parent_path f =
     (case nd_source f of
        None \<Rightarrow> (NCL_OK, f)
      | Some source \<Rightarrow>
          if ncl_str_is_blank (Some source) then (NCL_OK, f)
          else (case ncl_node_source_path g f source of
                  None \<Rightarrow> (NCL_ERR_NOMEM, f)
                | Some from_source \<Rightarrow>
                    (case ncl_node_build_path g parent_path f of
                       (rc, f1) \<Rightarrow> if rc \<noteq> NCL_OK then (NCL_ERR_NOMEM, f1) else (NCL_OK, f1\<lparr>nd_path := Some from_source\<rparr>))))"

definition own_path :: "grant \<Rightarrow> string option \<Rightarrow> 'v node_fields \<Rightarrow> ncl_err \<times> 'v node_fields" where
  "own_path g parent_path f =
     (case ncl_node_build_path g parent_path f of
        (rc, f1) \<Rightarrow>
          if rc \<noteq> NCL_OK then (NCL_ERR_NOMEM, f1)
          else (case ncl_node_apply_source g parent_path f1 of
                  (rc, f2) \<Rightarrow> (if rc \<noteq> NCL_OK then NCL_ERR_NOMEM else NCL_OK, f2)))"

text \<open>
  A node, then what is below it: components, configs, data items, up to the first failure. The
  devices below a node keep their paths.
\<close>

fun ncl_node_set_path :: "grant \<Rightarrow> string option \<Rightarrow> 'v ncl_node \<Rightarrow> ncl_err \<times> 'v ncl_node"
  and set_paths :: "grant \<Rightarrow> string option \<Rightarrow> 'v ncl_node list \<Rightarrow> ncl_err \<times> 'v ncl_node list" where
  "ncl_node_set_path g parent_path (Ncl_Node f cs ds ms vs) =
     (if nd_type f = NCL_NODE_ROOT then (NCL_OK, Ncl_Node f cs ds ms vs)
      else if nd_type f = NCL_NODE_BASE
      then (case ncl_node_build_path g parent_path f of (rc, f1) \<Rightarrow> (rc, Ncl_Node f1 cs ds ms vs))
      else (case own_path g parent_path f of
        (rc, f1) \<Rightarrow>
          if rc \<noteq> NCL_OK then (rc, Ncl_Node f1 cs ds ms vs)
          else if nd_type f1 = NCL_NODE_DATA_ITEM \<or> nd_type f1 = NCL_NODE_CONFIG then (NCL_OK, Ncl_Node f1 cs ds ms vs)
          else (case set_paths g (ncl_node_path f1) ms of
            (rc, ms1) \<Rightarrow>
              if rc \<noteq> NCL_OK then (rc, Ncl_Node f1 cs ds ms1 vs)
              else (case set_paths g (ncl_node_path f1) cs of
                (rc, cs1) \<Rightarrow>
                  if rc \<noteq> NCL_OK then (rc, Ncl_Node f1 cs1 ds ms1 vs)
                  else (case set_paths g (ncl_node_path f1) ds of
                    (rc, ds1) \<Rightarrow> (rc, Ncl_Node f1 cs1 ds1 ms1 vs))))))"
| "set_paths g parent_path [] = (NCL_OK, [])"
| "set_paths g parent_path (n # ns) =
     (case ncl_node_set_path g parent_path n of
        (rc, n1) \<Rightarrow>
          if rc \<noteq> NCL_OK then (rc, n1 # ns)
          else (case set_paths g parent_path ns of (rc, ns1) \<Rightarrow> (rc, n1 # ns1)))"

section \<open>The path of a sample item\<close>

text \<open>\<open>%s\<close> of a NULL path, as the C library writes it.\<close>

definition shown :: "string option \<Rightarrow> string" where
  "shown p = (case p of None \<Rightarrow> ''(null)'' | Some s \<Rightarrow> s)"

definition narrowed_path ::
  "grant \<Rightarrow> 'v node_fields \<Rightarrow> string \<Rightarrow> char strvec option \<Rightarrow> sample_ref \<Rightarrow> string option \<times> sample_ref" where
  "narrowed_path g f label vec ref =
     (case vec of
        None \<Rightarrow> (None, ref)
      | Some v \<Rightarrow>
          if ncl_strvec_len v = 0 then (None, ref)
          else (case (if ncl_strvec_len v = 1 then ncl_strdup g (ncl_strvec_at v 0) else ncl_strvec_to_list_string g v) of
                  None \<Rightarrow> (None, ref)
                | Some detail \<Rightarrow>
                    (let result = ncl_asprintf_text g (shown (ncl_node_path f) @ ''$'' @ label @ ''-'' @ detail)
                     in (result, ref\<lparr>sr_path := ncl_strdup g result\<rparr>))))"

definition ncl_sample_ref_path :: "grant \<Rightarrow> 'v ncl_node \<Rightarrow> sample_ref \<Rightarrow> string option \<times> sample_ref" where
  "ncl_sample_ref_path g root ref =
     (case sr_path ref of
        Some p \<Rightarrow> (ncl_strdup g (Some p), ref)
      | None \<Rightarrow>
          (case sr_node ref of
             None \<Rightarrow> (None, ref)
           | Some pos \<Rightarrow>
               (case map_option nf (node_at root pos) of
                  None \<Rightarrow> (None, ref)
                | Some f \<Rightarrow>
                    if nd_data_type f = None
                    then (let p = ncl_strdup g (ncl_node_path f) in (ncl_strdup g p, ref\<lparr>sr_path := p\<rparr>))
                    else if ncl_streq_ignore_case (nd_data_type f) (Some ''HASH'')
                    then narrowed_path g f ''HASH'' (map_option sp_keys (sr_params ref)) ref
                    else if ncl_streq_ignore_case (nd_data_type f) (Some ''LIST'')
                    then narrowed_path g f ''LIST'' (map_option sp_indexes (sr_params ref)) ref
                    else (None, ref))))"

section \<open>Validity\<close>

definition ncl_config_is_valid_sample_channel :: "'v node_fields \<Rightarrow> bool" where
  "ncl_config_is_valid_sample_channel f \<longleftrightarrow>
     \<not> (ncl_ptrvec_len (nd_sample_items f) = 0 \<or> \<not> nd_has_sample_interval f \<or> \<not> nd_has_upload_interval f)
     \<and> list_all ncl_sample_ref_is_valid (pv_items (nd_sample_items f))"

fun ncl_node_is_valid :: "'v ncl_node \<Rightarrow> bool" where
  "ncl_node_is_valid (Ncl_Node f cs ds ms vs) =
     (if nd_id f = None \<or> nd_type_name f = None then False
      else case nd_type f of
        NCL_NODE_DATA_ITEM \<Rightarrow> ncl_check_is_data_type_valid (nd_data_type f)
      | NCL_NODE_CONFIG \<Rightarrow>
          if nd_type_name f = Some NCL_NODE_TYPE_SAMPLE_CHANNEL then ncl_config_is_valid_sample_channel f
          else ncl_check_is_data_type_valid (nd_data_type f)
      | NCL_NODE_COMPONENT \<Rightarrow>
          list_all ncl_node_is_valid cs \<and> list_all ncl_node_is_valid ds \<and> list_all ncl_node_is_valid ms
      | NCL_NODE_DEVICE \<Rightarrow>
          list_all ncl_node_is_valid cs \<and> list_all ncl_node_is_valid ds \<and> list_all ncl_node_is_valid ms
      | NCL_NODE_ROOT \<Rightarrow>
          if length vs < 1 then False else list_all ncl_node_is_valid vs \<and> list_all ncl_node_is_valid cs
      | NCL_NODE_BASE \<Rightarrow> True)"

section \<open>Maps from texts to nodes\<close>

record node_map =
  nm_keys :: "string list"
  nm_vals :: "node_pos list"
  nm_cap :: nat

definition ncl_node_map_init :: node_map where
  "ncl_node_map_init = \<lparr>nm_keys = [], nm_vals = [], nm_cap = 0\<rparr>"

fun map_search :: "string list \<Rightarrow> string \<Rightarrow> nat \<Rightarrow> nat option" where
  "map_search [] key i = None"
| "map_search (k # ks) key i = (if k = key then Some i else map_search ks key (Suc i))"

definition ncl_node_map_put :: "grant \<Rightarrow> node_map \<Rightarrow> string option \<Rightarrow> node_pos \<Rightarrow> ncl_err \<times> node_map" where
  "ncl_node_map_put g m key pos =
     (case key of
        None \<Rightarrow> (NCL_ERR_INVALID_ARG, m)
      | Some k \<Rightarrow>
          (case map_search (nm_keys m) k 0 of
             Some i \<Rightarrow> (NCL_OK, m\<lparr>nm_vals := (nm_vals m)[i := pos]\<rparr>)
           | None \<Rightarrow>
               (let full = (length (nm_keys m) = nm_cap m); cap = (if nm_cap m = 0 then 16 else nm_cap m * 2)
                in if full \<and> \<not> g (cap * PTR_SIZE) then (NCL_ERR_NOMEM, m)
                   else (let m1 = (if full then m\<lparr>nm_cap := cap\<rparr> else m)
                         in case ncl_strdup g (Some k) of
                              None \<Rightarrow> (NCL_ERR_NOMEM, m1)
                            | Some copy \<Rightarrow>
                                (NCL_OK, m1\<lparr>nm_keys := nm_keys m1 @ [copy], nm_vals := nm_vals m1 @ [pos]\<rparr>)))))"

definition ncl_node_map_get :: "node_map \<Rightarrow> string option \<Rightarrow> node_pos option" where
  "ncl_node_map_get m key =
     (case key of
        None \<Rightarrow> None
      | Some k \<Rightarrow> (case map_search (nm_keys m) k 0 of Some i \<Rightarrow> Some (nm_vals m ! i) | None \<Rightarrow> None))"

definition ncl_node_map_len :: "node_map \<Rightarrow> nat" where
  "ncl_node_map_len m = length (nm_keys m)"

definition ncl_node_map_key_at :: "node_map \<Rightarrow> nat \<Rightarrow> string option" where
  "ncl_node_map_key_at m i = (if i \<ge> length (nm_keys m) then None else Some (nm_keys m ! i))"

definition ncl_node_map_val_at :: "node_map \<Rightarrow> nat \<Rightarrow> node_pos option" where
  "ncl_node_map_val_at m i = (if i \<ge> length (nm_keys m) then None else Some (nm_vals m ! i))"

text \<open>The children of one vector that have a path; the status of an insertion is not looked at.\<close>

fun put_paths :: "grant \<Rightarrow> node_pos \<Rightarrow> child_slot \<Rightarrow> nat \<Rightarrow> 'v ncl_node list \<Rightarrow> node_map \<Rightarrow> node_map" where
  "put_paths g p slot i [] m = m"
| "put_paths g p slot i (n # ns) m =
     put_paths g p slot (Suc i) ns
       (if ncl_node_path (nf n) \<noteq> None then snd (ncl_node_map_put g m (ncl_node_path (nf n)) (p @ [(slot, i)])) else m)"

fun ncl_node_collect_paths :: "grant \<Rightarrow> node_pos \<Rightarrow> 'v ncl_node \<Rightarrow> node_map \<Rightarrow> node_map"
  and collect_components :: "grant \<Rightarrow> node_pos \<Rightarrow> nat \<Rightarrow> 'v ncl_node list \<Rightarrow> node_map \<Rightarrow> node_map" where
  "ncl_node_collect_paths g p (Ncl_Node f cs ds ms vs) m =
     (let m1 = collect_components g p 0 ms m
      in if ncl_node_path f \<noteq> None then put_paths g p In_Data_Items 0 ds (put_paths g p In_Configs 0 cs m1) else m1)"
| "collect_components g p i [] m = m"
| "collect_components g p i (n # ns) m =
     collect_components g p (Suc i) ns
       (ncl_node_collect_paths g (p @ [(In_Components, i)]) n
         (if ncl_node_path (nf n) \<noteq> None
          then snd (ncl_node_map_put g m (ncl_node_path (nf n)) (p @ [(In_Components, i)])) else m))"

fun collect_devices :: "grant \<Rightarrow> nat \<Rightarrow> 'v ncl_node list \<Rightarrow> node_map \<Rightarrow> node_map" where
  "collect_devices g i [] m = m"
| "collect_devices g i (n # ns) m =
     (let m1 = ncl_node_collect_paths g [(In_Devices, i)] n m
      in collect_devices g (Suc i) ns
           (if ncl_node_path (nf n) \<noteq> None
            then snd (ncl_node_map_put g m1 (ncl_node_path (nf n)) [(In_Devices, i)]) else m1))"

definition ncl_root_node_path_map :: "grant \<Rightarrow> 'v ncl_node \<Rightarrow> node_map \<Rightarrow> node_map" where
  "ncl_root_node_path_map g root m = put_paths g [] In_Configs 0 (configs root) (collect_devices g 0 (devices root) m)"

fun put_ids :: "grant \<Rightarrow> 'v ncl_node \<Rightarrow> node_pos list \<Rightarrow> node_map \<Rightarrow> node_map" where
  "put_ids g root [] m = m"
| "put_ids g root (p # ps) m =
     put_ids g root ps
       (case node_at root p of
          None \<Rightarrow> m
        | Some n \<Rightarrow> if nd_id (nf n) \<noteq> None then snd (ncl_node_map_put g m (nd_id (nf n)) p) else m)"

fun put_config_ids :: "grant \<Rightarrow> nat \<Rightarrow> nat \<Rightarrow> 'v ncl_node list \<Rightarrow> node_map \<Rightarrow> node_map" where
  "put_config_ids g i j [] m = m"
| "put_config_ids g i j (n # ns) m =
     put_config_ids g i (Suc j) ns
       (if nd_id (nf n) \<noteq> None \<and> ncl_node_map_get m (nd_id (nf n)) = None
        then snd (ncl_node_map_put g m (nd_id (nf n)) [(In_Devices, i), (In_Configs, j)]) else m)"

fun put_device_ids :: "grant \<Rightarrow> nat \<Rightarrow> 'v ncl_node list \<Rightarrow> node_map \<Rightarrow> node_map" where
  "put_device_ids g i [] m = m"
| "put_device_ids g i (n # ns) m = put_device_ids g (Suc i) ns (put_config_ids g i 0 (configs n) m)"

definition ncl_root_node_id_map :: "grant \<Rightarrow> 'v ncl_node \<Rightarrow> node_map \<Rightarrow> node_map" where
  "ncl_root_node_id_map g root m =
     put_device_ids g 0 (devices root) (put_ids g root (nm_vals (ncl_root_node_path_map g root ncl_node_map_init)) m)"

end
