(* ===== verification/Model_Json.thy ===== *)
theory Model_Json
  imports Model_Paths
begin

text \<open>
  \<^verbatim>\<open>model.c\<close>, third part: a node as a JSON document and back, the binding of sample channels and the
  public constructors of a root node. Reading a document does not thread the number caches it fills
  in (see \<^verbatim>\<open>json.c\<close>).
\<close>

section \<open>Writing\<close>

definition ncl_node_write_base :: "grant \<Rightarrow> 'd json node_fields \<Rightarrow> 'd json option \<Rightarrow> 'd json option" where
  "ncl_node_write_base g f obj =
     (let o1 = put_str g ''name'' (nd_name f) obj;
          o2 = put_str g ''id'' (nd_id f) o1;
          o3 = put_str g ''type'' (nd_type_name f) o2;
          o4 = put_bool g ''settable'' (nd_has_settable f) (nd_settable f) o3
      in put_str g ''description'' (nd_description f) o4)"

definition ncl_node_write_data_item_fields :: "grant \<Rightarrow> 'd double_ops \<Rightarrow> 'd json node_fields \<Rightarrow> 'd json option \<Rightarrow> 'd json option" where
  "ncl_node_write_data_item_fields g ops f obj =
     (let o1 = put_str g ''number'' (nd_number f) obj;
          o2 = put_str g ''dataType'' (nd_data_type f) o1;
          o3 = (case nd_value f of None \<Rightarrow> o2 | Some v \<Rightarrow> put_json g ''value'' (ncl_json_clone g ops v) o2);
          o4 = put_str g ''mapping'' (nd_mapping f) o3;
          o5 = put_str g ''valueType'' (nd_value_type f) o4
      in put_str g ''source'' (nd_source f) o5)"

definition ncl_node_write_component_fields :: "grant \<Rightarrow> 'd json node_fields \<Rightarrow> 'd json option \<Rightarrow> 'd json option" where
  "ncl_node_write_component_fields g f obj = put_str g ''number'' (nd_number f) obj"

fun refs_json :: "grant \<Rightarrow> 'd double_ops \<Rightarrow> sample_ref option list \<Rightarrow> 'd json option \<Rightarrow> 'd json option" where
  "refs_json g ops [] arr = arr"
| "refs_json g ops (r # rs) arr =
     (case (r, ncl_json_new_object g) of
        (Some ref, Some entry) \<Rightarrow>
          (let e1 = snd (ncl_json_obj_set_string g (Some entry) (Some ''id'') (sr_id ref));
               e2 = (if sr_params ref \<noteq> None then put_json g ''params'' (ncl_sample_params_to_json g ops (sr_params ref)) e1 else e1)
           in case ncl_json_arr_push g arr e2 of
                (rc, arr1) \<Rightarrow> if rc \<noteq> NCL_OK then arr1 else refs_json g ops rs arr1)
      | _ \<Rightarrow> arr)"

definition write_config_fields :: "grant \<Rightarrow> 'd double_ops \<Rightarrow> 'd json node_fields \<Rightarrow> 'd json option \<Rightarrow> 'd json option" where
  "write_config_fields g ops f obj =
     (let o1 = put_int g ops ''sampleInterval'' (nd_has_sample_interval f) (nd_sample_interval f) obj;
          o2 = (if ncl_ptrvec_len (nd_sample_items f) > 0
                then (case ncl_json_new_array g of
                        None \<Rightarrow> o1
                      | Some arr \<Rightarrow> put_json g ''ids'' (refs_json g ops (pv_items (nd_sample_items f)) (Some arr)) o1)
                else o1);
          o3 = put_int g ops ''uploadInterval'' (nd_has_upload_interval f) (nd_upload_interval f) o2
      in if nd_has_upload_type f then put_str g ''uploadType'' (Some (ncl_upload_type_name (nd_upload_type f))) o3 else o3)"

text \<open>An array of children, if there are any and it could be built.\<close>

definition put_children :: "grant \<Rightarrow> string \<Rightarrow> bool \<Rightarrow> 'd json option \<Rightarrow> 'd json option \<Rightarrow> 'd json option" where
  "put_children g key none arr obj = (if none then obj else case arr of None \<Rightarrow> obj | Some a \<Rightarrow> put_json g key (Some a) obj)"

fun ncl_node_to_json :: "grant \<Rightarrow> 'd double_ops \<Rightarrow> 'd json ncl_node \<Rightarrow> 'd json option"
  and children_json :: "grant \<Rightarrow> 'd double_ops \<Rightarrow> 'd json ncl_node list \<Rightarrow> 'd json option \<Rightarrow> 'd json option" where
  "ncl_node_to_json g ops (Ncl_Node f cs ds ms vs) =
     (case ncl_json_new_object g of
        None \<Rightarrow> None
      | Some obj \<Rightarrow>
          (let base = ncl_node_write_base g f (Some obj);
               arr = (ncl_json_new_array g :: 'd json option)
           in case nd_type f of
                NCL_NODE_ROOT \<Rightarrow>
                  put_str g ''uniqueID'' (nd_unique_id f)
                    (put_children g ''configs'' (cs = []) (children_json g ops cs arr)
                      (put_children g ''devices'' (vs = []) (children_json g ops vs arr) base))
              | NCL_NODE_DEVICE \<Rightarrow>
                  put_str g ''guid'' (nd_guid f) (put_str g ''version'' (nd_version f)
                    (put_children g ''components'' (ms = []) (children_json g ops ms arr)
                      (put_children g ''dataItems'' (ds = []) (children_json g ops ds arr)
                        (put_children g ''configs'' (cs = []) (children_json g ops cs arr)
                          (ncl_node_write_component_fields g f base)))))
              | NCL_NODE_COMPONENT \<Rightarrow>
                  put_children g ''components'' (ms = []) (children_json g ops ms arr)
                    (put_children g ''dataItems'' (ds = []) (children_json g ops ds arr)
                      (put_children g ''configs'' (cs = []) (children_json g ops cs arr)
                        (ncl_node_write_component_fields g f base)))
              | NCL_NODE_DATA_ITEM \<Rightarrow> ncl_node_write_data_item_fields g ops f base
              | NCL_NODE_CONFIG \<Rightarrow> write_config_fields g ops f (ncl_node_write_data_item_fields g ops f base)
              | NCL_NODE_BASE \<Rightarrow> base))"
| "children_json g ops [] arr = arr"
| "children_json g ops (n # ns) arr =
     (case ncl_node_to_json g ops n of
        None \<Rightarrow> None
      | Some child \<Rightarrow>
          (case arr of
             None \<Rightarrow> None
           | Some a \<Rightarrow>
               (case ncl_json_arr_push g (Some a) (Some child) of
                  (rc, arr1) \<Rightarrow> if rc \<noteq> NCL_OK then None else children_json g ops ns arr1)))"

definition ncl_node_write_string :: "grant \<Rightarrow> 'd double_ops \<Rightarrow> 'd json ncl_node \<Rightarrow> string option" where
  "ncl_node_write_string g ops n =
     (case ncl_node_to_json g ops n of None \<Rightarrow> None | Some j \<Rightarrow> ncl_json_write_string g ops (Some j))"

section \<open>Reading\<close>

definition ncl_node_read_string :: "grant \<Rightarrow> 'd json option \<Rightarrow> string \<Rightarrow> string option" where
  "ncl_node_read_string g obj key = ncl_strdup g (ncl_json_obj_get_string obj (Some key))"

text \<open>The items of a sample channel. When one cannot be added, the result is what gets released.\<close>

definition held_refs :: "'v node_fields \<Rightarrow> sample_ref list" where
  "held_refs f = fst (ncl_ptrvec_free (nd_sample_items f))"

fun read_refs :: "grant \<Rightarrow> 'd double_ops \<Rightarrow> 'd json list \<Rightarrow> 'd json node_fields \<Rightarrow> sample_ref list + 'd json node_fields" where
  "read_refs g ops [] f = Inr f"
| "read_refs g ops (x # xs) f =
     (case ncl_json_obj_get_string (Some x) (Some ''id'') of
        None \<Rightarrow> read_refs g ops xs f
      | Some s \<Rightarrow>
          (case ncl_sample_ref_new g (Some s) of
             None \<Rightarrow> Inl (held_refs f)
           | Some ref \<Rightarrow>
               (let ref1 = ref\<lparr>sr_params := ncl_sample_params_from_json g ops (ncl_json_obj_get (Some x) (Some ''params''))\<rparr>
                in case ncl_node_add_sample_item g ref1 f of
                     (rc, freed, f1) \<Rightarrow>
                       if rc \<noteq> NCL_OK then Inl (freed @ [ref1] @ held_refs f1) else read_refs g ops xs f1)))"

definition ncl_config_from_json :: "grant \<Rightarrow> 'd double_ops \<Rightarrow> 'd json \<Rightarrow> sample_ref list + 'd json node_fields" where
  "ncl_config_from_json g ops obj =
     (case ncl_node_new g NCL_NODE_CONFIG of
        None \<Rightarrow> Inl []
      | Some n \<Rightarrow>
          (let interval = read_int ops (Some obj) ''sampleInterval'';
               f = (nf n)\<lparr>nd_has_sample_interval := fst interval, nd_sample_interval := snd interval\<rparr>
           in case read_refs g ops (items (ncl_json_obj_get (Some obj) (Some ''ids''))) f of
                Inl released \<Rightarrow> Inl released
              | Inr f1 \<Rightarrow>
                  (let upload = read_int ops (Some obj) ''uploadInterval'';
                       f2 = f1\<lparr>nd_has_upload_interval := fst upload, nd_upload_interval := snd upload\<rparr>
                   in case ncl_json_obj_get_string (Some obj) (Some ''uploadType'') of
                        None \<Rightarrow> Inr f2
                      | Some t \<Rightarrow>
                          (case ncl_upload_type_parse (Some t) of
                             None \<Rightarrow> Inr (f2\<lparr>nd_has_upload_type := False\<rparr>)
                           | Some u \<Rightarrow> Inr (f2\<lparr>nd_has_upload_type := True, nd_upload_type := u\<rparr>)))))"

definition read_fields :: "grant \<Rightarrow> 'd double_ops \<Rightarrow> 'd json \<Rightarrow> 'd json node_fields \<Rightarrow> 'd json node_fields" where
  "read_fields g ops j f =
     (let obj = Some j;
          settable = (if ncl_json_obj_has obj (Some ''settable'')
                      then fst (ncl_json_as_bool ops (ncl_json_obj_get obj (Some ''settable''))) else None)
      in f\<lparr>nd_name := ncl_node_read_string g obj ''name'', nd_id := ncl_node_read_string g obj ''id'',
           nd_type_name := ncl_node_read_string g obj ''type'',
           nd_has_settable := (settable \<noteq> None), nd_settable := (settable = Some True),
           nd_description := ncl_node_read_string g obj ''description'', nd_number := ncl_node_read_string g obj ''number'',
           nd_data_type := ncl_node_read_string g obj ''dataType'', nd_mapping := ncl_node_read_string g obj ''mapping'',
           nd_value_type := ncl_node_read_string g obj ''valueType'', nd_source := ncl_node_read_string g obj ''source'',
           nd_value := (case ncl_json_obj_get obj (Some ''value'') of None \<Rightarrow> None | Some v \<Rightarrow> ncl_json_clone g ops v),
           nd_version := ncl_node_read_string g obj ''version'', nd_guid := ncl_node_read_string g obj ''guid'',
           nd_unique_id := ncl_node_read_string g obj ''uniqueID''\<rparr>)"

lemma size_items_get: "size_list size (items (ncl_json_obj_get (Some j) k)) < size j"
proof (cases "ncl_json_obj_get (Some j) k")
  case None
  then show ?thesis by (cases j) (simp_all add: items_def)
next
  case (Some x)
  from get_smaller [OF Some] show ?thesis unfolding Some by (cases x) (simp_all add: items_def)
qed

text \<open>The children under a key; what cannot be read is skipped.\<close>

function ncl_node_from_json :: "grant \<Rightarrow> 'd double_ops \<Rightarrow> ncl_node_type \<Rightarrow> 'd json \<Rightarrow> 'd json ncl_node option"
  and ncl_node_read_children :: "grant \<Rightarrow> 'd double_ops \<Rightarrow> ncl_node_type \<Rightarrow> 'd json list \<Rightarrow> 'd json ncl_node \<Rightarrow> ncl_err \<times> 'd json ncl_node" where
  "ncl_node_from_json g ops t obj =
     (if ncl_json_type_of (Some obj) \<noteq> NCL_JSON_OBJECT then None
      else case (if t = NCL_NODE_CONFIG then (case ncl_config_from_json g ops obj of Inl released \<Rightarrow> None | Inr f \<Rightarrow> Some f)
                 else map_option nf (ncl_node_new g t)) of
        None \<Rightarrow> None
      | Some f0 \<Rightarrow>
          (let f = read_fields g ops obj f0
           in if t = NCL_NODE_ROOT
              then (case ncl_node_read_children g ops NCL_NODE_DEVICE (items (ncl_json_obj_get (Some obj) (Some ''devices'')))
                           (Ncl_Node (snd (ncl_node_set_type_name g (nd_type_name f) f)) [] [] [] []) of
                      (rc, n1) \<Rightarrow>
                        if rc \<noteq> NCL_OK then None
                        else (case ncl_node_read_children g ops NCL_NODE_CONFIG (items (ncl_json_obj_get (Some obj) (Some ''configs''))) n1 of
                                (rc, n2) \<Rightarrow> if rc \<noteq> NCL_OK then None else Some n2))
              else if t = NCL_NODE_COMPONENT \<or> t = NCL_NODE_DEVICE
              then (case ncl_node_read_children g ops NCL_NODE_CONFIG (items (ncl_json_obj_get (Some obj) (Some ''configs'')))
                           (Ncl_Node f [] [] [] []) of
                      (rc, n1) \<Rightarrow>
                        if rc \<noteq> NCL_OK then None
                        else (case ncl_node_read_children g ops NCL_NODE_DATA_ITEM (items (ncl_json_obj_get (Some obj) (Some ''dataItems''))) n1 of
                                (rc, n2) \<Rightarrow>
                                  if rc \<noteq> NCL_OK then None
                                  else (case ncl_node_read_children g ops NCL_NODE_COMPONENT
                                               (items (ncl_json_obj_get (Some obj) (Some ''components''))) n2 of
                                          (rc, n3) \<Rightarrow> if rc \<noteq> NCL_OK then None else Some n3)))
              else Some (Ncl_Node f [] [] [] [])))"
| "ncl_node_read_children g ops t [] parent = (NCL_OK, parent)"
| "ncl_node_read_children g ops t (x # xs) parent =
     (case ncl_node_from_json g ops t x of
        None \<Rightarrow> ncl_node_read_children g ops t xs parent
      | Some child \<Rightarrow>
          (case ncl_node_add_child g child parent of
             (rc, freed, parent1) \<Rightarrow>
               if rc \<noteq> NCL_OK then (NCL_ERR_NOMEM, parent1) else ncl_node_read_children g ops t xs parent1))"
  by pat_completeness auto
termination
  by (relation "measure (\<lambda>x. case x of Inl (g, ops, t, obj) \<Rightarrow> size obj | Inr (g, ops, t, xs, parent) \<Rightarrow> size_list size xs)")
    (auto simp: size_items_get)

declare ncl_node_from_json.simps [simp del]

section \<open>Post construction\<close>

text \<open>A target has to be a data item or a config; the first item without one stops the binding.\<close>

fun bind_refs :: "'v ncl_node \<Rightarrow> node_map \<Rightarrow> node_map \<Rightarrow> sample_ref option list \<Rightarrow> bool \<times> sample_ref option list" where
  "bind_refs root id_map path_map [] = (True, [])"
| "bind_refs root id_map path_map (r # rs) =
     (case r of
        None \<Rightarrow> (False, r # rs)
      | Some ref \<Rightarrow>
          (case or_else (ncl_node_map_get id_map (sr_id ref)) (ncl_node_map_get path_map (sr_id ref)) of
             None \<Rightarrow> (False, r # rs)
           | Some pos \<Rightarrow>
               (case map_option nf (node_at root pos) of
                  None \<Rightarrow> (False, r # rs)
                | Some f \<Rightarrow>
                    if nd_type f = NCL_NODE_DATA_ITEM \<or> nd_type f = NCL_NODE_CONFIG
                    then (case bind_refs root id_map path_map rs of
                            (ok, rs1) \<Rightarrow> (ok, Some (ref\<lparr>sr_node := Some pos, sr_path := None\<rparr>) # rs1))
                    else (False, r # rs))))"

definition ncl_config_bind_sample_items :: "grant \<Rightarrow> 'v ncl_node \<Rightarrow> 'v node_fields \<Rightarrow> bool \<times> 'v node_fields" where
  "ncl_config_bind_sample_items g root config =
     (if \<not> ncl_node_is_sample_node config \<or> ncl_ptrvec_len (nd_sample_items config) = 0 then (False, config)
      else (case bind_refs root (ncl_root_node_id_map g root ncl_node_map_init) (ncl_root_node_path_map g root ncl_node_map_init)
                   (pv_items (nd_sample_items config)) of
              (ok, refs) \<Rightarrow> (ok, config\<lparr>nd_sample_items := (nd_sample_items config)\<lparr>pv_items := refs\<rparr>\<rparr>)))"

fun map_children :: "child_slot \<Rightarrow> ('v ncl_node list \<Rightarrow> 'v ncl_node list) \<Rightarrow> 'v ncl_node \<Rightarrow> 'v ncl_node" where
  "map_children In_Configs h (Ncl_Node f cs ds ms vs) = Ncl_Node f (h cs) ds ms vs"
| "map_children In_Data_Items h (Ncl_Node f cs ds ms vs) = Ncl_Node f cs (h ds) ms vs"
| "map_children In_Components h (Ncl_Node f cs ds ms vs) = Ncl_Node f cs ds (h ms) vs"
| "map_children In_Devices h (Ncl_Node f cs ds ms vs) = Ncl_Node f cs ds ms (h vs)"

text \<open>Writing to the fields of the node at a position.\<close>

fun node_update :: "node_pos \<Rightarrow> ('v node_fields \<Rightarrow> 'v node_fields) \<Rightarrow> 'v ncl_node \<Rightarrow> 'v ncl_node" where
  "node_update [] u n = with_fields u n"
| "node_update ((slot, i) # p) u n = map_children slot (\<lambda>xs. xs[i := node_update p u (xs ! i)]) n"

definition sample_default :: "'v node_fields \<Rightarrow> 'v node_fields" where
  "sample_default f =
     (if nd_type_name f = Some NCL_NODE_TYPE_SAMPLE_CHANNEL \<and> \<not> nd_has_sample_interval f
      then f\<lparr>nd_sample_interval := nd_upload_interval f, nd_has_sample_interval := True\<rparr> else f)"

text \<open>One config of a device; \<open>None\<close> if its items cannot be bound.\<close>

definition bind_config :: "grant \<Rightarrow> node_pos \<Rightarrow> 'v ncl_node \<Rightarrow> 'v ncl_node option" where
  "bind_config g pos root =
     (let root1 = node_update pos sample_default root
      in case node_at root1 pos of
           None \<Rightarrow> Some root
         | Some config \<Rightarrow>
             if ncl_node_is_valid config \<and> ncl_node_is_sample_node (nf config)
             then (case ncl_config_bind_sample_items g root1 (nf config) of
                     (ok, f) \<Rightarrow> if \<not> ok then None else Some (node_update pos (\<lambda>_. f) root1))
             else Some root1)"

fun bind_all :: "grant \<Rightarrow> node_pos list \<Rightarrow> 'v ncl_node \<Rightarrow> 'v ncl_node option" where
  "bind_all g [] root = Some root"
| "bind_all g (p # ps) root = (case bind_config g p root of None \<Rightarrow> None | Some root1 \<Rightarrow> bind_all g ps root1)"

definition device_configs :: "'v ncl_node \<Rightarrow> node_pos list" where
  "device_configs root =
     concat (map (\<lambda>i. map (\<lambda>j. [(In_Devices, i), (In_Configs, j)]) [0 ..< length (configs (devices root ! i))]) [0 ..< length (devices root)])"

definition ncl_root_node_post_construct :: "grant \<Rightarrow> 'v ncl_node \<Rightarrow> 'v ncl_node option" where
  "ncl_root_node_post_construct g root =
     (if nd_type (nf root) \<noteq> NCL_NODE_ROOT then None
      else case ncl_strdup g (Some ''/'') of
        None \<Rightarrow> None
      | Some sep \<Rightarrow>
          (let root1 = with_fields (\<lambda>f. f\<lparr>nd_path := Some sep\<rparr>) root
           in case set_paths g (ncl_node_path (nf root1)) (devices root1) of
                (rc, vs) \<Rightarrow>
                  if rc \<noteq> NCL_OK then None
                  else (case set_paths g (ncl_node_path (nf root1)) (configs root1) of
                          (rc, cs) \<Rightarrow>
                            if rc \<noteq> NCL_OK then None
                            else (let root2 = map_children In_Configs (\<lambda>_. cs) (map_children In_Devices (\<lambda>_. vs) root1)
                                  in bind_all g (device_configs root2) root2))))"

definition ncl_root_node_default :: "grant \<Rightarrow> 'v ncl_node option" where
  "ncl_root_node_default g =
     (case ncl_node_new g NCL_NODE_ROOT of
        None \<Rightarrow> None
      | Some root \<Rightarrow>
          (let f1 = snd (ncl_node_set_type_name g (Some ''NC_LINK_ROOT'') (nf root));
               f2 = snd (ncl_node_set_id g (Some ''01'') f1);
               f3 = snd (ncl_node_set_name g (Some ''nclink'') f2)
           in case ncl_node_new g NCL_NODE_DEVICE of
                None \<Rightarrow> None
              | Some device \<Rightarrow>
                  (let d1 = snd (ncl_node_set_id g (Some ''02'') (nf device));
                       d2 = snd (ncl_node_set_type_name g (Some ''MACHINE'') d1);
                       d3 = snd (ncl_node_set_version g (Some ''2.0'') d2)
                   in case ncl_node_add_device g (with_fields (\<lambda>_. d3) device) (with_fields (\<lambda>_. f3) root) of
                        (rc, freed, root1) \<Rightarrow> if rc \<noteq> NCL_OK then None else ncl_root_node_post_construct g root1)))"

definition ncl_root_node_from_json :: "grant \<Rightarrow> 'd double_ops \<Rightarrow> 'd json option \<Rightarrow> 'd json ncl_node option" where
  "ncl_root_node_from_json g ops json =
     (case json of
        None \<Rightarrow> None
      | Some j \<Rightarrow>
          (case ncl_node_from_json g ops NCL_NODE_ROOT j of
             None \<Rightarrow> None | Some root \<Rightarrow> ncl_root_node_post_construct g root))"

definition ncl_root_node_parse :: "grant \<Rightarrow> 'd double_ops \<Rightarrow> string option \<Rightarrow> 'd json ncl_node option" where
  "ncl_root_node_parse g ops t =
     (if t = None \<or> t = Some [] then ncl_root_node_default g
      else case fst (ncl_json_parse_cstr g ops t None) of
        None \<Rightarrow> None
      | Some json \<Rightarrow>
          (case ncl_node_from_json g ops NCL_NODE_ROOT json of
             None \<Rightarrow> None
           | Some root \<Rightarrow> if devices root = [] then None else ncl_root_node_post_construct g root))"

end
