(* ===== verification/Model_Roundtrip.thy ===== *)
theory Model_Roundtrip
  imports Model_Json Json_Copy
begin

text \<open>
  Writing a node as a document and reading it back gives the same node: the fields its kind has,
  its children and sample items. Paths and targets, which are computed afterwards, and capacities
  are not compared.
\<close>

section \<open>Reading what was put into an object\<close>

lemma has_get: "ncl_json_obj_has obj (Some k) \<longleftrightarrow> ncl_json_obj_get obj (Some k) \<noteq> None"
  by (auto simp: ncl_json_obj_has_def ncl_json_obj_get_def split: option.splits)

lemma obj_ok_new: "obj_ok (Some (J_Object [] c))"
  by (simp add: obj_ok_def)

lemma get_new: "ncl_json_obj_get (Some (J_Object [] c)) (Some k) = None"
  by (simp add: get_map)

lemma put_json_ok: "obj_ok obj \<Longrightarrow> obj_ok (put_json grant_all key (Some v) obj)"
  unfolding put_json_def by (rule obj_store.put_ok)

lemma get_put_json:
  "obj_ok obj \<Longrightarrow> ncl_json_obj_get (put_json grant_all key (Some v) obj) (Some k)
     = (if k = key then Some v else ncl_json_obj_get obj (Some k))"
  using fun_cong [OF obj_store.look_put [of obj key v], of k] by (simp add: put_json_def)

lemma new_string: "ncl_json_new_string grant_all (Some s) = Some (J_String (cstr_of s))"
  by (simp add: ncl_json_new_string_def ncl_json_new_string_len_def ncl_json_alloc_def grant_all)

lemma put_str_json:
  "put_str grant_all key v obj = (case v of None \<Rightarrow> obj | Some s \<Rightarrow> put_json grant_all key (Some (J_String (cstr_of s))) obj)"
  by (simp add: put_str_def put_json_def ncl_json_obj_set_string_def new_string split: option.split)

definition int_node :: "'d double_ops \<Rightarrow> int \<Rightarrow> 'd json" where
  "int_node ops v = J_Number \<lparr>jn_raw = None, jn_dbl = d_of_int ops v, jn_integer = v, jn_is_integer = True,
     jn_has_dbl = True, jn_has_int = True, jn_from_int = True\<rparr>"

lemma put_int_json:
  "put_int grant_all ops key present v obj = (if present then put_json grant_all key (Some (int_node ops v)) obj else obj)"
  by (simp add: put_int_def put_json_def ncl_json_obj_set_int_def ncl_json_new_int_def ncl_json_alloc_def grant_all int_node_def)

lemma put_bool_json:
  "put_bool grant_all key present b obj = (if present then put_json grant_all key (Some (J_Bool b)) obj else obj)"
  by (simp add: put_bool_def put_json_def ncl_json_obj_set_bool_def ncl_json_new_bool_def ncl_json_alloc_def grant_all)

lemma as_int_node: "fst (ncl_json_as_int ops (Some (int_node ops v))) = Some v"
  by (simp add: ncl_json_as_int_def int_node_def number_as_int_def)

text \<open>One conditional insertion, and its two rules.\<close>

definition put_opt :: "string \<Rightarrow> 'd json option \<Rightarrow> 'd json option \<Rightarrow> 'd json option" where
  "put_opt key v obj = (case v of None \<Rightarrow> obj | Some x \<Rightarrow> put_json grant_all key (Some x) obj)"

lemma put_opt_ok [simp, intro]: "obj_ok obj \<Longrightarrow> obj_ok (put_opt key v obj)"
  by (simp add: put_opt_def put_json_ok split: option.split)

lemma get_put_opt [simp]:
  "obj_ok obj \<Longrightarrow> ncl_json_obj_get (put_opt key v obj) (Some k)
     = (if k = key then or_else v (ncl_json_obj_get obj (Some k)) else ncl_json_obj_get obj (Some k))"
  by (simp add: put_opt_def or_else_def get_put_json split: option.split)

definition json_if :: "bool \<Rightarrow> 'd json \<Rightarrow> 'd json option" where
  "json_if present j = (if present then Some j else None)"

lemma json_if_simps [simp]: "json_if True j = Some j" "json_if False j = None"
  by (simp_all add: json_if_def)

lemma put_opt_none: "put_opt key None obj = obj"
  by (simp add: put_opt_def)

lemma put_opts:
  "put_str grant_all key s obj = put_opt key (map_option (\<lambda>s. J_String (cstr_of s)) s) obj"
  "put_int grant_all ops key present v obj = put_opt key (json_if present (int_node ops v)) obj"
  "put_bool grant_all key present b obj = put_opt key (json_if present (J_Bool b)) obj"
  "put_json grant_all key (Some x) obj = put_opt key (Some x) obj"
  "put_children grant_all key none arr obj = put_opt key (if none then None else arr) obj"
  by (simp_all add: put_opt_def put_str_json put_int_json put_bool_json put_children_def json_if_def split: option.split)

lemma or_else_simps [simp]: "or_else None b = b" "or_else a None = a" "or_else (Some x) b = Some x"
  by (simp_all add: or_else_def split: option.split)

lemma strdup_all [simp]: "ncl_strdup grant_all s = s"
  by (simp add: ncl_strdup_def grant_all split: option.split)

section \<open>What is compared\<close>

definition view_vec :: "char strvec \<Rightarrow> char strvec" where
  "view_vec v = v\<lparr>sv_cap := 0\<rparr>"

definition view_params :: "sample_params \<Rightarrow> sample_params" where
  "view_params p = p\<lparr>sp_indexes := view_vec (sp_indexes p), sp_keys := view_vec (sp_keys p)\<rparr>"

definition view_ref :: "sample_ref \<Rightarrow> sample_ref" where
  "view_ref r = r\<lparr>sr_params := map_option view_params (sr_params r), sr_node := None, sr_path := None\<rparr>"

definition view_fields :: "'d double_ops \<Rightarrow> 'd json node_fields \<Rightarrow> json_doc node_fields" where
  "view_fields ops f =
     \<lparr>nd_type = nd_type f, nd_name = nd_name f, nd_id = nd_id f, nd_type_name = nd_type_name f,
      nd_settable = nd_settable f, nd_has_settable = nd_has_settable f, nd_description = nd_description f, nd_path = None,
      nd_number = nd_number f, nd_data_type = nd_data_type f, nd_value = map_option (doc_of ops) (nd_value f),
      nd_mapping = nd_mapping f, nd_value_type = nd_value_type f, nd_source = nd_source f, nd_version = nd_version f,
      nd_guid = nd_guid f, nd_unique_id = nd_unique_id f, nd_has_sample_interval = nd_has_sample_interval f,
      nd_sample_interval = nd_sample_interval f, nd_has_upload_interval = nd_has_upload_interval f,
      nd_upload_interval = nd_upload_interval f, nd_has_upload_type = nd_has_upload_type f, nd_upload_type = nd_upload_type f,
      nd_sample_items = \<lparr>pv_items = map (map_option view_ref) (pv_items (nd_sample_items f)), pv_cap = 0,
        pv_free = pv_free (nd_sample_items f)\<rparr>,
      nd_configs_cap = 0, nd_data_items_cap = 0, nd_components_cap = 0, nd_devices_cap = 0\<rparr>"

fun view :: "'d double_ops \<Rightarrow> 'd json ncl_node \<Rightarrow> json_doc ncl_node" where
  "view ops (Ncl_Node f cs ds ms vs) =
     Ncl_Node (view_fields ops f) (map (view ops) cs) (map (view ops) ds) (map (view ops) ms) (map (view ops) vs)"

section \<open>Nodes that a document can hold\<close>

definition text_ok :: "string option \<Rightarrow> bool" where
  "text_ok s \<longleftrightarrow> (\<forall>t. s = Some t \<longrightarrow> is_cstr t)"

definition params_ok :: "sample_params \<Rightarrow> bool" where
  "params_ok p \<longleftrightarrow> list_all is_cstr (sv_items (sp_indexes p)) \<and> list_all is_cstr (sv_items (sp_keys p))
     \<and> (\<not> sp_has_offset p \<longrightarrow> sp_offset p = 0) \<and> (\<not> sp_has_length p \<longrightarrow> sp_length p = 0)"

definition ref_ok :: "sample_ref option \<Rightarrow> bool" where
  "ref_ok r \<longleftrightarrow> (\<exists>x s. r = Some x \<and> sr_id x = Some s \<and> is_cstr s \<and> (\<forall>p. sr_params x = Some p \<longrightarrow> params_ok p))"

text \<open>The fields that every kind writes, and what a field holds if its kind does not write it.\<close>

definition base_ok :: "'v node_fields \<Rightarrow> bool" where
  "base_ok f \<longleftrightarrow> text_ok (nd_name f) \<and> text_ok (nd_id f) \<and> text_ok (nd_type_name f) \<and> text_ok (nd_description f)
     \<and> text_ok (nd_number f) \<and> (\<not> nd_has_settable f \<longrightarrow> \<not> nd_settable f) \<and> pv_free (nd_sample_items f)"

definition value_fields_ok :: "'d double_ops \<Rightarrow> 'd json node_fields \<Rightarrow> bool" where
  "value_fields_ok ops f \<longleftrightarrow> text_ok (nd_data_type f) \<and> text_ok (nd_mapping f) \<and> text_ok (nd_value_type f) \<and> text_ok (nd_source f)
     \<and> (\<forall>v. nd_value f = Some v \<longrightarrow> doc_ok (doc_of ops v))"

definition no_item :: "'v node_fields \<Rightarrow> bool" where
  "no_item f \<longleftrightarrow> nd_data_type f = None \<and> nd_value f = None \<and> nd_mapping f = None \<and> nd_value_type f = None \<and> nd_source f = None"

definition config_ok :: "'v node_fields \<Rightarrow> bool" where
  "config_ok f \<longleftrightarrow> list_all ref_ok (pv_items (nd_sample_items f))
     \<and> (\<not> nd_has_sample_interval f \<longrightarrow> nd_sample_interval f = 0) \<and> (\<not> nd_has_upload_interval f \<longrightarrow> nd_upload_interval f = 0)
     \<and> (\<not> nd_has_upload_type f \<longrightarrow> nd_upload_type f = NCL_UPLOAD_NORMAL)"

definition no_config :: "'v node_fields \<Rightarrow> bool" where
  "no_config f \<longleftrightarrow> pv_items (nd_sample_items f) = [] \<and> \<not> nd_has_sample_interval f \<and> nd_sample_interval f = 0
     \<and> \<not> nd_has_upload_interval f \<and> nd_upload_interval f = 0 \<and> \<not> nd_has_upload_type f \<and> nd_upload_type f = NCL_UPLOAD_NORMAL"

definition no_device :: "'v node_fields \<Rightarrow> bool" where
  "no_device f \<longleftrightarrow> nd_version f = None \<and> nd_guid f = None"

fun document_node :: "'d double_ops \<Rightarrow> 'd json ncl_node \<Rightarrow> bool" where
  "document_node ops (Ncl_Node f cs ds ms vs) \<longleftrightarrow> base_ok f \<and>
     list_all (\<lambda>n. nd_type (nf n) = NCL_NODE_CONFIG \<and> document_node ops n) cs \<and>
     list_all (\<lambda>n. nd_type (nf n) = NCL_NODE_DATA_ITEM \<and> document_node ops n) ds \<and>
     list_all (\<lambda>n. nd_type (nf n) = NCL_NODE_COMPONENT \<and> document_node ops n) ms \<and>
     list_all (\<lambda>n. nd_type (nf n) = NCL_NODE_DEVICE \<and> document_node ops n) vs \<and>
     (case nd_type f of
        NCL_NODE_ROOT \<Rightarrow> ds = [] \<and> ms = [] \<and> nd_number f = None \<and> no_item f \<and> no_config f \<and> no_device f \<and> text_ok (nd_unique_id f)
      | NCL_NODE_DEVICE \<Rightarrow> vs = [] \<and> no_item f \<and> no_config f \<and> text_ok (nd_version f) \<and> text_ok (nd_guid f) \<and> nd_unique_id f = None
      | NCL_NODE_COMPONENT \<Rightarrow> vs = [] \<and> no_item f \<and> no_config f \<and> no_device f \<and> nd_unique_id f = None
      | NCL_NODE_DATA_ITEM \<Rightarrow> cs = [] \<and> ds = [] \<and> ms = [] \<and> vs = [] \<and> value_fields_ok ops f \<and> no_config f \<and> no_device f \<and> nd_unique_id f = None
      | NCL_NODE_CONFIG \<Rightarrow> cs = [] \<and> ds = [] \<and> ms = [] \<and> vs = [] \<and> value_fields_ok ops f \<and> config_ok f \<and> no_device f \<and> nd_unique_id f = None
      | NCL_NODE_BASE \<Rightarrow> False)"

section \<open>Reading texts back\<close>

lemma text_ok_cstr: "text_ok s \<Longrightarrow> map_option cstr_of s = s"
  by (cases s) (simp_all add: text_ok_def cstr_of_id)

lemma as_string_opt: "ncl_json_as_string (map_option (\<lambda>s. J_String (cstr_of s)) s) = map_option cstr_of s"
  by (cases s) (simp_all add: ncl_json_as_string_def cstr_of_id is_cstr_cstr_of)

lemma read_string_opt:
  "\<lbrakk>text_ok s; ncl_json_obj_get obj (Some key) = map_option (\<lambda>s. J_String (cstr_of s)) s\<rbrakk> \<Longrightarrow> ncl_node_read_string grant_all obj key = s"
  by (simp add: ncl_node_read_string_def ncl_json_obj_get_string_def as_string_opt text_ok_cstr)

lemma read_string_none: "ncl_json_obj_get obj (Some key) = None \<Longrightarrow> ncl_node_read_string grant_all obj key = None"
  by (simp add: ncl_node_read_string_def ncl_json_obj_get_string_def ncl_json_as_string_def)

lemma read_int_opt:
  "\<lbrakk>\<not> present \<longrightarrow> v = 0; ncl_json_obj_get obj (Some key) = json_if present (int_node ops v)\<rbrakk>
     \<Longrightarrow> read_int ops obj key = (present, v)"
  by (cases present) (simp_all add: read_int_def has_get as_int_node)

section \<open>Sample channels\<close>

lemma push_text_all: "snd (ncl_strvec_push grant_all v (Some s)) = \<lparr>sv_items = sv_items v @ [s],
    sv_cap = (if length (sv_items v) = sv_cap v then (if sv_cap v = 0 then 8 else sv_cap v * 2) else sv_cap v)\<rparr>"
  by (cases v) (simp add: ncl_strvec_push_def grant_all Let_def)

lemma read_strings_items:
  "sv_items (read_strings grant_all xs v) = sv_items v @ List.map_filter (\<lambda>x. ncl_json_as_string (Some x)) xs"
  by (induction xs arbitrary: v) (simp_all add: List.map_filter_simps push_text_all split: option.split)

lemma strvec_items_all:
  "\<exists>c1. strvec_items grant_all (map Some ss) (Some (J_Array xs c)) = Some (J_Array (xs @ map (\<lambda>s. J_String (cstr_of s)) ss) c1)"
proof (induction ss arbitrary: xs c)
  case (Cons s ss)
  obtain c1 where c1: "ncl_json_arr_push grant_all (Some (J_Array xs c)) (Some (J_String (cstr_of s)))
      = (NCL_OK, Some (J_Array (xs @ [J_String (cstr_of s)]) c1))"
    using push_all by blast
  from Cons.IH [of "xs @ [J_String (cstr_of s)]" c1] show ?case by (simp add: new_string c1)
qed simp

lemma strvec_to_json:
  "\<exists>c1. ncl_strvec_to_json grant_all v = Some (J_Array (map (\<lambda>s. J_String (cstr_of s)) (sv_items v)) c1)"
proof -
  have "map (ncl_strvec_at v) [0 ..< ncl_strvec_len v] = map Some (sv_items v)"
    by (rule nth_equalityI) (simp_all add: ncl_strvec_at_def ncl_strvec_len_def)
  then show ?thesis using strvec_items_all [of "sv_items v" "[]" 0] by (simp add: ncl_strvec_to_json_def new_arr)
qed

lemma read_texts:
  "list_all is_cstr ss \<Longrightarrow> List.map_filter (\<lambda>x. ncl_json_as_string (Some x)) (map (\<lambda>s. J_String (cstr_of s)) ss) = ss"
  by (induction ss) (simp_all add: List.map_filter_simps ncl_json_as_string_def cstr_of_id)

text \<open>What a vector of texts becomes as a member of an object, and what is read from it.\<close>

lemma put_texts:
  fixes obj :: "'a json option"
  shows "obj_ok obj \<Longrightarrow> \<exists>a. (if ncl_strvec_len v > 0 then put_json grant_all key (ncl_strvec_to_json grant_all v) obj else obj) = put_opt key a obj
     \<and> (list_all is_cstr (sv_items v) \<longrightarrow> sv_items (read_strings grant_all (items a) ncl_strvec_init) = sv_items v)"
proof -
  obtain c where c: "put_json grant_all key (ncl_strvec_to_json grant_all v) obj
      = put_json grant_all key (Some (J_Array (map (\<lambda>s. J_String (cstr_of s)) (sv_items v)) c)) obj"
    using strvec_to_json by metis
  show ?thesis
  proof (cases "sv_items v")
    case Nil
    then show ?thesis
      by (intro exI [of _ None]) (simp add: ncl_strvec_len_def put_opt_def items_def ncl_strvec_init_def)
  next
    case (Cons s ss)
    then have "ncl_strvec_len v > 0" by (simp add: ncl_strvec_len_def)
    moreover have "list_all is_cstr (sv_items v) \<longrightarrow> sv_items (read_strings grant_all
        (items (Some (J_Array (map (\<lambda>s. J_String (cstr_of s)) (sv_items v)) c :: 'a json))) ncl_strvec_init) = sv_items v"
      unfolding items_def option.case json.case read_strings_items by (simp add: read_texts ncl_strvec_init_def)
    ultimately show ?thesis unfolding c put_opts
      by (intro exI [of _ "Some (J_Array (map (\<lambda>s. J_String (cstr_of s)) (sv_items v)) c)"]) simp
  qed
qed

lemma obj_type: "obj_ok obj \<Longrightarrow> \<exists>j. obj = Some j \<and> ncl_json_type_of (Some j) = NCL_JSON_OBJECT"
  by (auto simp: obj_ok_def ncl_json_type_of_def)

lemma params_json:
  assumes "params_ok p"
  shows "\<exists>j q. ncl_sample_params_to_json grant_all ops (Some p) = Some j
    \<and> ncl_sample_params_from_json grant_all ops (Some j) = Some q \<and> view_params q = view_params p"
proof -
  let ?o = "Some (J_Object [] 0) :: 'a json option"
  have ok: "obj_ok ?o" by (rule obj_ok_new)
  obtain a where a: "(if ncl_strvec_len (sp_indexes p) > 0 then put_json grant_all ''indexes'' (ncl_strvec_to_json grant_all (sp_indexes p)) ?o else ?o) = put_opt ''indexes'' a ?o"
      "sv_items (read_strings grant_all (items a) ncl_strvec_init) = sv_items (sp_indexes p)"
    using put_texts [OF ok, of "sp_indexes p" "''indexes''"] assms by (auto simp: params_ok_def)
  obtain b where b: "(if ncl_strvec_len (sp_keys p) > 0 then put_json grant_all ''keys'' (ncl_strvec_to_json grant_all (sp_keys p)) (put_opt ''indexes'' a ?o) else put_opt ''indexes'' a ?o) = put_opt ''keys'' b (put_opt ''indexes'' a ?o)"
      "sv_items (read_strings grant_all (items b) ncl_strvec_init) = sv_items (sp_keys p)"
    using put_texts [OF put_opt_ok [OF ok], of "sp_keys p" "''keys''" "''indexes''" a] assms by (auto simp: params_ok_def)
  define obj where "obj = put_opt ''length'' (json_if (sp_has_length p) (int_node ops (sp_length p)))
    (put_opt ''offset'' (json_if (sp_has_offset p) (int_node ops (sp_offset p))) (put_opt ''keys'' b (put_opt ''indexes'' a ?o)))"
  have w: "ncl_sample_params_to_json grant_all ops (Some p) = obj"
    by (simp only: ncl_sample_params_to_json_def option.case new_obj Let_def a(1) b(1) put_opts obj_def)
  have "obj_ok obj" unfolding obj_def using ok by auto
  then obtain j where j: "obj = Some j" "ncl_json_type_of (Some j) = NCL_JSON_OBJECT" using obj_type by blast
  have get: "ncl_json_obj_get (Some j) (Some k) = (if k = ''length'' then (json_if (sp_has_length p) (int_node ops (sp_length p)))
      else if k = ''offset'' then (json_if (sp_has_offset p) (int_node ops (sp_offset p)))
      else if k = ''keys'' then b else if k = ''indexes'' then a else None)" for k
    unfolding j(1) [symmetric] obj_def using ok by (simp add: get_new)
  have i: "read_int ops (Some j) ''offset'' = (sp_has_offset p, sp_offset p)" "read_int ops (Some j) ''length'' = (sp_has_length p, sp_length p)"
    using assms by (auto intro!: read_int_opt simp: get params_ok_def)
  show ?thesis
    using a(2) b(2) j(2)
    by (simp add: w j(1) ncl_sample_params_from_json_def ncl_sample_params_new_def grant_all i get view_params_def view_vec_def)
qed

text \<open>A sample item and what is written for it.\<close>

definition entry_ok :: "'d double_ops \<Rightarrow> sample_ref option \<Rightarrow> 'd json \<Rightarrow> bool" where
  "entry_ok ops r e \<longleftrightarrow> (\<exists>x s. r = Some x \<and> sr_id x = Some s \<and> ncl_json_obj_get_string (Some e) (Some ''id'') = Some s
     \<and> map_option view_params (ncl_sample_params_from_json grant_all ops (ncl_json_obj_get (Some e) (Some ''params''))) = map_option view_params (sr_params x))"

lemma from_json_none: "ncl_sample_params_from_json g ops None = None"
  by (simp add: ncl_sample_params_from_json_def)

lemma entry_json:
  assumes "ref_ok (Some x)"
  shows "\<exists>e. (if sr_params x \<noteq> None
      then put_json grant_all ''params'' (ncl_sample_params_to_json grant_all ops (sr_params x))
        (snd (ncl_json_obj_set_string grant_all (Some (J_Object [] 0)) (Some ''id'') (sr_id x)))
      else snd (ncl_json_obj_set_string grant_all (Some (J_Object [] 0)) (Some ''id'') (sr_id x))) = Some e \<and> entry_ok ops (Some x) e"
proof -
  from assms obtain s where s: "sr_id x = Some s" "is_cstr s" "\<And>p. sr_params x = Some p \<Longrightarrow> params_ok p"
    by (auto simp: ref_ok_def)
  let ?o = "put_opt ''id'' (Some (J_String s)) (Some (J_Object [] 0)) :: 'a json option"
  have ok: "obj_ok ?o" by (rule put_opt_ok [OF obj_ok_new])
  have id: "snd (ncl_json_obj_set_string grant_all (Some (J_Object [] 0)) (Some ''id'') (sr_id x)) = ?o"
    by (simp add: s cstr_of_id ncl_json_obj_set_string_def new_string put_opt_def put_json_def)
  have get: "ncl_json_obj_get (put_opt key v ?o) (Some k) = (if k = key then or_else v (ncl_json_obj_get ?o (Some k)) else ncl_json_obj_get ?o (Some k))" for key v k
    by (rule get_put_opt [OF ok])
  have get1: "ncl_json_obj_get ?o (Some k) = (if k = ''id'' then Some (J_String s) else None)" for k
    by (simp add: obj_ok_new get_new)
  obtain v where v: "(if sr_params x \<noteq> None then put_json grant_all ''params'' (ncl_sample_params_to_json grant_all ops (sr_params x)) ?o else ?o)
      = put_opt ''params'' v ?o"
    "map_option view_params (ncl_sample_params_from_json grant_all ops v) = map_option view_params (sr_params x)"
  proof (cases "sr_params x")
    case None
    then show ?thesis by (intro that [of None]) (simp_all add: put_opt_def from_json_none)
  next
    case (Some p)
    from params_json [OF s(3) [OF Some], of ops] obtain j q where
      "ncl_sample_params_to_json grant_all ops (Some p) = Some j" "ncl_sample_params_from_json grant_all ops (Some j) = Some q"
      "view_params q = view_params p" by blast
    then show ?thesis by (intro that [of "Some j"]) (simp_all add: Some put_opts)
  qed
  from obj_type [OF put_opt_ok [OF ok]] obtain e where e: "put_opt ''params'' v ?o = Some e" by blast
  have "ncl_json_obj_get (Some e) (Some ''id'') = Some (J_String s)" "ncl_json_obj_get (Some e) (Some ''params'') = v"
    unfolding e [symmetric] get get1 by simp_all
  then show ?thesis
    unfolding id v(1) e entry_ok_def using s(1,2) v(2)
    by (simp add: ncl_json_obj_get_string_def ncl_json_as_string_def cstr_of_id)
qed

lemma refs_json_entries:
  "list_all ref_ok rs \<Longrightarrow> \<exists>es c1. refs_json grant_all ops rs (Some (J_Array xs c)) = Some (J_Array (xs @ es) c1) \<and> list_all2 (entry_ok ops) rs es"
proof (induction rs arbitrary: xs c)
  case (Cons r rs)
  then obtain x where x: "r = Some x" "ref_ok (Some x)" by (auto simp: ref_ok_def)
  from entry_json [OF x(2), of ops] obtain e where e: "(if sr_params x \<noteq> None
      then put_json grant_all ''params'' (ncl_sample_params_to_json grant_all ops (sr_params x))
        (snd (ncl_json_obj_set_string grant_all (Some (J_Object [] 0)) (Some ''id'') (sr_id x)))
      else snd (ncl_json_obj_set_string grant_all (Some (J_Object [] 0)) (Some ''id'') (sr_id x))) = Some e" "entry_ok ops (Some x) e"
    by blast
  obtain c1 where c1: "ncl_json_arr_push grant_all (Some (J_Array xs c)) (Some e) = (NCL_OK, Some (J_Array (xs @ [e]) c1))"
    using push_all by blast
  have "refs_json grant_all ops (r # rs) (Some (J_Array xs c)) = refs_json grant_all ops rs (Some (J_Array (xs @ [e]) c1))"
    by (simp only: refs_json.simps x(1) new_obj prod.case option.case Let_def e(1) c1) simp
  with Cons.IH [of "xs @ [e]" c1] Cons.prems obtain es c2
    where "refs_json grant_all ops (r # rs) (Some (J_Array xs c)) = Some (J_Array ((xs @ [e]) @ es) c2)" "list_all2 (entry_ok ops) rs es" by auto
  with e(2) x(1) show ?case by (intro exI [of _ "e # es"] exI [of _ c2]) simp
qed simp

lemma push_owned_all:
  "\<exists>c. ncl_ptrvec_push_owned grant_all v x = (NCL_OK, [], \<lparr>pv_items = pv_items v @ [x], pv_cap = c, pv_free = pv_free v\<rparr>)"
  by (cases v) (simp add: ncl_ptrvec_push_owned_def ncl_ptrvec_push_def grant_all Let_def)

lemma read_refs_entries:
  "list_all2 (entry_ok ops) rs es \<Longrightarrow> \<exists>rs1 c. read_refs grant_all ops es f = Inr (f\<lparr>nd_sample_items :=
     \<lparr>pv_items = pv_items (nd_sample_items f) @ rs1, pv_cap = c, pv_free = pv_free (nd_sample_items f)\<rparr>\<rparr>)
     \<and> map (map_option view_ref) rs1 = map (map_option view_ref) rs"
proof (induction rs es arbitrary: f rule: list_all2_induct)
  case Nil
  show ?case by (intro exI [of _ "[]"] exI [of _ "pv_cap (nd_sample_items f)"]) simp
next
  case (Cons r rs e es)
  from Cons(1) obtain x s where x: "r = Some x" "sr_id x = Some s" "ncl_json_obj_get_string (Some e) (Some ''id'') = Some s"
     "map_option view_params (ncl_sample_params_from_json grant_all ops (ncl_json_obj_get (Some e) (Some ''params''))) = map_option view_params (sr_params x)"
    by (auto simp: entry_ok_def)
  define ref where "ref = \<lparr>sr_id = Some s, sr_params = ncl_sample_params_from_json grant_all ops (ncl_json_obj_get (Some e) (Some ''params'')),
    sr_node = None, sr_path = None\<rparr>"
  have new: "ncl_sample_ref_new grant_all (Some s) = Some \<lparr>sr_id = Some s, sr_params = None, sr_node = None, sr_path = None\<rparr>"
    by (simp add: ncl_sample_ref_new_def grant_all)
  obtain c where c: "ncl_ptrvec_push_owned grant_all (nd_sample_items f) (Some ref)
      = (NCL_OK, [], \<lparr>pv_items = pv_items (nd_sample_items f) @ [Some ref], pv_cap = c, pv_free = pv_free (nd_sample_items f)\<rparr>)"
    using push_owned_all by blast
  let ?f = "f\<lparr>nd_sample_items := \<lparr>pv_items = pv_items (nd_sample_items f) @ [Some ref], pv_cap = c, pv_free = pv_free (nd_sample_items f)\<rparr>\<rparr>"
  have "read_refs grant_all ops (e # es) f = read_refs grant_all ops es ?f"
    by (simp add: x(3) new ncl_node_add_sample_item_def c flip: ref_def)
  moreover obtain rs1 c1 where "read_refs grant_all ops es ?f = Inr (?f\<lparr>nd_sample_items :=
     \<lparr>pv_items = pv_items (nd_sample_items ?f) @ rs1, pv_cap = c1, pv_free = pv_free (nd_sample_items ?f)\<rparr>\<rparr>)"
     "map (map_option view_ref) rs1 = map (map_option view_ref) rs" using Cons(3) by blast
  moreover have "view_ref ref = view_ref x" using x(2,4) by (simp add: view_ref_def ref_def)
  ultimately show ?case by (intro exI [of _ "Some ref # rs1"] exI [of _ c1]) (simp add: x(1))
qed

section \<open>Children\<close>

definition kind_slot :: "ncl_node_type \<Rightarrow> child_slot" where
  "kind_slot t = (case t of NCL_NODE_CONFIG \<Rightarrow> In_Configs | NCL_NODE_DATA_ITEM \<Rightarrow> In_Data_Items
     | NCL_NODE_COMPONENT \<Rightarrow> In_Components | _ \<Rightarrow> In_Devices)"

text \<open>Attaching a child appends it to the vector of its kind, and changes nothing else that is compared.\<close>

definition same_but :: "'d double_ops \<Rightarrow> child_slot \<Rightarrow> 'd json ncl_node list \<Rightarrow> 'd json ncl_node \<Rightarrow> 'd json ncl_node \<Rightarrow> bool" where
  "same_but ops slot ns p p1 \<longleftrightarrow> view_fields ops (nf p1) = view_fields ops (nf p)
     \<and> (\<forall>s. map (view ops) (children s p1) = map (view ops) (children s p) @ (if s = slot then map (view ops) ns else []))"

lemma same_but_none: "same_but ops slot [] p p"
  by (simp add: same_but_def)

lemma same_but_trans: "\<lbrakk>same_but ops slot ns p p1; same_but ops slot ms p1 p2\<rbrakk> \<Longrightarrow> same_but ops slot (ns @ ms) p p2"
  by (auto simp: same_but_def)

lemma attach_all: "\<exists>p1. attach grant_all slot child p = (NCL_OK, [], p1) \<and> same_but ops slot [child] p p1"
proof -
  obtain c where "ncl_ptrvec_push_owned grant_all \<lparr>pv_items = map Some (children slot p), pv_cap = child_cap slot (nf p), pv_free = True\<rparr> (Some child)
      = (NCL_OK, [], \<lparr>pv_items = map Some (children slot p) @ [Some child], pv_cap = c, pv_free = True\<rparr>)"
    using push_owned_all [of "\<lparr>pv_items = map Some (children slot p), pv_cap = child_cap slot (nf p), pv_free = True\<rparr>" "Some child"] by auto
  then have "attach grant_all slot child p = (NCL_OK, [], set_children slot (children slot p @ [child]) c p)"
    by (simp add: attach_def comp_def)
  moreover have "children s (set_children slot (children slot p @ [child]) c p) = children s p @ (if s = slot then [child] else [])" for s
    by (cases p; cases slot; cases s) simp_all
  moreover have "view_fields ops (nf (set_children slot (children slot p @ [child]) c p)) = view_fields ops (nf p)"
    by (cases p; cases slot) (simp_all add: view_fields_def)
  ultimately show ?thesis by (simp add: same_but_def)
qed

lemma add_child_all:
  assumes "nd_type (nf child) = t" "t \<in> {NCL_NODE_CONFIG, NCL_NODE_DATA_ITEM, NCL_NODE_COMPONENT, NCL_NODE_DEVICE}"
  shows "\<exists>p1. ncl_node_add_child grant_all child p = (NCL_OK, [], p1) \<and> same_but ops (kind_slot t) [child] p p1"
  using assms attach_all [of "kind_slot t" child p ops]
  by (auto simp: ncl_node_add_child_def kind_slot_def ncl_node_add_config_def ncl_node_add_data_item_def
      ncl_node_add_component_def ncl_node_add_device_def)

lemma view_type: "nd_type (nf (view ops n)) = nd_type (nf n)"
  by (cases n) (simp add: view_fields_def)

lemma same_but_view: "same_but ops slot [m] p p1 \<Longrightarrow> view ops m = view ops n \<Longrightarrow> same_but ops slot [n] p p1"
  by (simp add: same_but_def)

lemma read_children_all:
  assumes "list_all2 (\<lambda>n e. nd_type (nf n) = t \<and> (\<exists>m. ncl_node_from_json grant_all ops t e = Some m \<and> view ops m = view ops n)) ns es"
    and "t \<in> {NCL_NODE_CONFIG, NCL_NODE_DATA_ITEM, NCL_NODE_COMPONENT, NCL_NODE_DEVICE}"
  shows "\<exists>p1. ncl_node_read_children grant_all ops t es p = (NCL_OK, p1) \<and> same_but ops (kind_slot t) ns p p1"
  using assms(1)
proof (induction ns es arbitrary: p rule: list_all2_induct)
  case Nil
  show ?case by (simp add: same_but_none)
next
  case (Cons n ns e es)
  then obtain m where m: "ncl_node_from_json grant_all ops t e = Some m" "view ops m = view ops n" "nd_type (nf n) = t" by auto
  have "nd_type (nf m) = t" using m(2,3) view_type by metis
  from add_child_all [OF this assms(2), of p ops] obtain p1
    where p1: "ncl_node_add_child grant_all m p = (NCL_OK, [], p1)" "same_but ops (kind_slot t) [m] p p1" by blast
  from Cons(3) obtain p2 where p2: "ncl_node_read_children grant_all ops t es p1 = (NCL_OK, p2)" "same_but ops (kind_slot t) ns p1 p2" by blast
  have "same_but ops (kind_slot t) ([n] @ ns) p p2"
    by (rule same_but_trans [OF same_but_view [OF p1(2) m(2)] p2(2)])
  then show ?case by (simp add: m(1) p1(1) p2(1))
qed

lemma children_array:
  "(\<And>n. n \<in> set ns \<Longrightarrow> \<exists>j. ncl_node_to_json grant_all ops n = Some j) \<Longrightarrow>
     \<exists>c1. children_json grant_all ops ns (Some (J_Array xs c)) = Some (J_Array (xs @ map (\<lambda>n. the (ncl_node_to_json grant_all ops n)) ns) c1)"
proof (induction ns arbitrary: xs c)
  case (Cons n ns)
  obtain j where j: "ncl_node_to_json grant_all ops n = Some j" using Cons.prems by force
  obtain c1 where c1: "ncl_json_arr_push grant_all (Some (J_Array xs c)) (Some j) = (NCL_OK, Some (J_Array (xs @ [j]) c1))"
    using push_all by blast
  from Cons.IH [of "xs @ [j]" c1] Cons.prems show ?case by (auto simp: j c1)
qed simp

section \<open>The members of a written node\<close>

definition json_text :: "string option \<Rightarrow> 'd json option" where
  "json_text s = map_option (\<lambda>s. J_String (cstr_of s)) s"

text \<open>Every node has these members, with the fields its kind does not write left out as NULL.\<close>

definition texts_of :: "'v node_fields \<Rightarrow> (string \<times> string option) list" where
  "texts_of f = [(''name'', nd_name f), (''id'', nd_id f), (''type'', nd_type_name f), (''description'', nd_description f),
     (''number'', nd_number f), (''dataType'', nd_data_type f), (''mapping'', nd_mapping f), (''valueType'', nd_value_type f),
     (''source'', nd_source f), (''version'', nd_version f), (''guid'', nd_guid f), (''uniqueID'', nd_unique_id f)]"

definition has_fields :: "'d double_ops \<Rightarrow> 'd json node_fields \<Rightarrow> 'd json option \<Rightarrow> bool" where
  "has_fields ops f obj \<longleftrightarrow>
     list_all (\<lambda>(k, s). ncl_json_obj_get obj (Some k) = json_text s) (texts_of f)
     \<and> ncl_json_obj_get obj (Some ''settable'') = (json_if (nd_has_settable f) (J_Bool (nd_settable f)))
     \<and> map_option (doc_of ops) (ncl_json_obj_get obj (Some ''value'')) = map_option (doc_of ops) (nd_value f)"

definition has_config :: "'d double_ops \<Rightarrow> 'd json node_fields \<Rightarrow> 'd json option \<Rightarrow> bool" where
  "has_config ops f obj \<longleftrightarrow>
     ncl_json_obj_get obj (Some ''sampleInterval'') = (json_if (nd_has_sample_interval f) (int_node ops (nd_sample_interval f)))
     \<and> ncl_json_obj_get obj (Some ''uploadInterval'') = (json_if (nd_has_upload_interval f) (int_node ops (nd_upload_interval f)))
     \<and> ncl_json_obj_get obj (Some ''uploadType'') = (json_if (nd_has_upload_type f) (J_String (cstr_of (ncl_upload_type_name (nd_upload_type f)))))
     \<and> list_all2 (entry_ok ops) (pv_items (nd_sample_items f)) (items (ncl_json_obj_get obj (Some ''ids'')))"

definition has_children :: "'d double_ops \<Rightarrow> string \<Rightarrow> 'd json ncl_node list \<Rightarrow> 'd json option \<Rightarrow> bool" where
  "has_children ops key ns obj \<longleftrightarrow> items (ncl_json_obj_get obj (Some key)) = map (\<lambda>n. the (ncl_node_to_json grant_all ops n)) ns"

lemma put_kids:
  fixes obj :: "'d json option"
  assumes "\<And>n. n \<in> set ns \<Longrightarrow> \<exists>j. ncl_node_to_json grant_all ops n = Some j"
  shows "\<exists>a. put_children grant_all key (ns = []) (children_json grant_all ops ns (ncl_json_new_array grant_all)) obj = put_opt key a obj
    \<and> items a = map (\<lambda>n. the (ncl_node_to_json grant_all ops n)) ns"
proof -
  obtain c1 where "children_json grant_all ops ns (Some (J_Array [] 0)) = Some (J_Array (map (\<lambda>n. the (ncl_node_to_json grant_all ops n)) ns) c1)"
    using children_array [OF assms, where xs = "[]" and c = 0] by auto
  then show ?thesis
    by (cases "ns = []") (auto simp: put_opts new_arr items_def)
qed

lemma write_value:
  assumes "\<And>v. nd_value f = Some v \<Longrightarrow> doc_ok (doc_of ops v)"
  shows "\<exists>a. (case nd_value f of None \<Rightarrow> obj | Some v \<Rightarrow> put_json grant_all ''value'' (ncl_json_clone grant_all ops v) obj) = put_opt ''value'' a obj
    \<and> map_option (doc_of ops) a = map_option (doc_of ops) (nd_value f)"
proof (cases "nd_value f")
  case None
  then show ?thesis by (intro exI [of _ None]) (simp add: put_opt_def)
next
  case (Some v)
  from clone_exact [OF assms [OF Some]] obtain v1 where "ncl_json_clone grant_all ops v = Some v1" "doc_of ops v1 = doc_of ops v" by blast
  then show ?thesis by (intro exI [of _ "Some v1"]) (simp add: Some put_opts)
qed

lemma write_ids:
  assumes "list_all ref_ok rs"
  shows "\<exists>a. (if length rs > 0 then (case ncl_json_new_array grant_all of None \<Rightarrow> obj
      | Some arr \<Rightarrow> put_json grant_all ''ids'' (refs_json grant_all ops rs (Some arr)) obj) else obj) = put_opt ''ids'' a obj
    \<and> list_all2 (entry_ok ops) rs (items a)"
proof (cases "rs = []")
  case True
  then show ?thesis by (intro exI [of _ None]) (simp add: put_opt_def items_def)
next
  case False
  obtain es c1 where "refs_json grant_all ops rs (Some (J_Array [] 0)) = Some (J_Array es c1)" "list_all2 (entry_ok ops) rs es"
    using refs_json_entries [OF assms, of ops "[]" 0] by auto
  then show ?thesis using False by (intro exI [of _ "Some (J_Array es c1)"]) (simp add: new_arr put_opts items_def)
qed

lemma put_str_opt: "put_str grant_all key s obj = put_opt key (json_text s) obj"
  by (simp add: put_opts json_text_def)

text \<open>What is written for each kind, as a chain of conditional insertions.\<close>

abbreviation empty_object :: "'d json option" where
  "empty_object \<equiv> Some (J_Object [] 0)"

lemma base_members:
  "ncl_node_write_base grant_all f obj = put_opt ''description'' (json_text (nd_description f))
     (put_opt ''settable'' (json_if (nd_has_settable f) (J_Bool (nd_settable f)))
       (put_opt ''type'' (json_text (nd_type_name f)) (put_opt ''id'' (json_text (nd_id f)) (put_opt ''name'' (json_text (nd_name f)) obj))))"
  by (simp add: ncl_node_write_base_def put_opts json_text_def json_if_def)

lemma data_item_members:
  assumes "value_fields_ok ops f"
  shows "\<exists>a. ncl_node_write_data_item_fields grant_all ops f obj = put_opt ''source'' (json_text (nd_source f))
     (put_opt ''valueType'' (json_text (nd_value_type f)) (put_opt ''mapping'' (json_text (nd_mapping f)) (put_opt ''value'' a
       (put_opt ''dataType'' (json_text (nd_data_type f)) (put_opt ''number'' (json_text (nd_number f)) obj)))))
     \<and> map_option (doc_of ops) a = map_option (doc_of ops) (nd_value f)"
proof -
  obtain a where "(case nd_value f of None \<Rightarrow> put_opt ''dataType'' (json_text (nd_data_type f)) (put_opt ''number'' (json_text (nd_number f)) obj)
      | Some v \<Rightarrow> put_json grant_all ''value'' (ncl_json_clone grant_all ops v)
          (put_opt ''dataType'' (json_text (nd_data_type f)) (put_opt ''number'' (json_text (nd_number f)) obj)))
      = put_opt ''value'' a (put_opt ''dataType'' (json_text (nd_data_type f)) (put_opt ''number'' (json_text (nd_number f)) obj))"
    "map_option (doc_of ops) a = map_option (doc_of ops) (nd_value f)"
    using write_value [of f ops] assms unfolding value_fields_ok_def by meson
  then show ?thesis
    by (intro exI [of _ a]) (simp add: ncl_node_write_data_item_fields_def put_opts(1) flip: json_text_def)
qed

lemma config_members:
  assumes "config_ok f"
  shows "\<exists>a. write_config_fields grant_all ops f obj =
     put_opt ''uploadType'' (json_if (nd_has_upload_type f) (J_String (cstr_of (ncl_upload_type_name (nd_upload_type f)))))
      (put_opt ''uploadInterval'' (json_if (nd_has_upload_interval f) (int_node ops (nd_upload_interval f)))
       (put_opt ''ids'' a
        (put_opt ''sampleInterval'' (json_if (nd_has_sample_interval f) (int_node ops (nd_sample_interval f))) obj)))
     \<and> list_all2 (entry_ok ops) (pv_items (nd_sample_items f)) (items a)"
proof -
  let ?o = "put_opt ''sampleInterval'' (json_if (nd_has_sample_interval f) (int_node ops (nd_sample_interval f))) obj"
  have "list_all ref_ok (pv_items (nd_sample_items f))" using assms by (simp add: config_ok_def)
  from write_ids [OF this, of ?o ops] obtain a
    where "(if length (pv_items (nd_sample_items f)) > 0 then (case ncl_json_new_array grant_all of None \<Rightarrow> ?o
      | Some arr \<Rightarrow> put_json grant_all ''ids'' (refs_json grant_all ops (pv_items (nd_sample_items f)) (Some arr)) ?o) else ?o)
        = put_opt ''ids'' a ?o"
      "list_all2 (entry_ok ops) (pv_items (nd_sample_items f)) (items a)" by blast
  then show ?thesis
    by (intro exI [of _ a]) (cases "nd_has_upload_type f"; simp only: write_config_fields_def put_opts(1,2) ncl_ptrvec_len_def Let_def json_if_simps put_opt_none option.map if_True if_False simp_thms)
qed

lemma component_members:
  "ncl_node_write_component_fields grant_all f obj = put_opt ''number'' (json_text (nd_number f)) obj"
  by (simp add: ncl_node_write_component_fields_def put_opts json_text_def)

definition all_written :: "'d double_ops \<Rightarrow> 'd json ncl_node list \<Rightarrow> bool" where
  "all_written ops ns \<longleftrightarrow> (\<forall>n \<in> set ns. \<exists>j. ncl_node_to_json grant_all ops n = Some j)"

definition written :: "'d double_ops \<Rightarrow> 'd json ncl_node \<Rightarrow> 'd json option \<Rightarrow> bool" where
  "written ops n obj \<longleftrightarrow> obj_ok obj \<and> has_fields ops (nf n) obj \<and> has_config ops (nf n) obj
     \<and> has_children ops ''configs'' (configs n) obj \<and> has_children ops ''dataItems'' (data_items n) obj
     \<and> has_children ops ''components'' (components n) obj \<and> has_children ops ''devices'' (devices n) obj"

lemmas written_simps = written_def has_fields_def has_config_def has_children_def texts_of_def

lemma data_item_written:
  assumes "document_node ops (Ncl_Node f cs ds ms vs)" "nd_type f = NCL_NODE_DATA_ITEM"
  shows "written ops (Ncl_Node f cs ds ms vs) (ncl_node_to_json grant_all ops (Ncl_Node f cs ds ms vs))"
proof -
  have "value_fields_ok ops f" using assms by simp
  from data_item_members [OF this] obtain a where a: "ncl_node_write_data_item_fields grant_all ops f (ncl_node_write_base grant_all f empty_object) = put_opt ''source'' (json_text (nd_source f))
     (put_opt ''valueType'' (json_text (nd_value_type f)) (put_opt ''mapping'' (json_text (nd_mapping f)) (put_opt ''value'' a
       (put_opt ''dataType'' (json_text (nd_data_type f)) (put_opt ''number'' (json_text (nd_number f)) (ncl_node_write_base grant_all f empty_object))))))"
     "map_option (doc_of ops) a = map_option (doc_of ops) (nd_value f)" by blast
  show ?thesis
    unfolding ncl_node_to_json.simps new_obj option.case Let_def assms(2) ncl_node_type.case a(1) [unfolded base_members] base_members
    using assms a(2)
    by (simp add: written_simps obj_ok_new get_new no_config_def no_device_def json_text_def items_def)
qed


lemma config_written:
  assumes "document_node ops (Ncl_Node f cs ds ms vs)" "nd_type f = NCL_NODE_CONFIG"
  shows "written ops (Ncl_Node f cs ds ms vs) (ncl_node_to_json grant_all ops (Ncl_Node f cs ds ms vs))"
proof -
  have "value_fields_ok ops f" "config_ok f" using assms by simp_all
  from data_item_members [OF this(1)] obtain a where a: "ncl_node_write_data_item_fields grant_all ops f (ncl_node_write_base grant_all f empty_object) = put_opt ''source'' (json_text (nd_source f))
     (put_opt ''valueType'' (json_text (nd_value_type f)) (put_opt ''mapping'' (json_text (nd_mapping f)) (put_opt ''value'' a
       (put_opt ''dataType'' (json_text (nd_data_type f)) (put_opt ''number'' (json_text (nd_number f)) (ncl_node_write_base grant_all f empty_object))))))"
     "map_option (doc_of ops) a = map_option (doc_of ops) (nd_value f)" by blast
  obtain obj where obj: "obj = ncl_node_write_data_item_fields grant_all ops f (ncl_node_write_base grant_all f empty_object)" by simp
  from config_members [OF \<open>config_ok f\<close>, of ops obj] obtain b where b: "write_config_fields grant_all ops f obj =
     put_opt ''uploadType'' (json_if (nd_has_upload_type f) (J_String (cstr_of (ncl_upload_type_name (nd_upload_type f)))))
      (put_opt ''uploadInterval'' (json_if (nd_has_upload_interval f) (int_node ops (nd_upload_interval f)))
       (put_opt ''ids'' b
        (put_opt ''sampleInterval'' (json_if (nd_has_sample_interval f) (int_node ops (nd_sample_interval f))) obj)))"
    "list_all2 (entry_ok ops) (pv_items (nd_sample_items f)) (items b)" by blast
  have "ncl_node_to_json grant_all ops (Ncl_Node f cs ds ms vs) = write_config_fields grant_all ops f obj"
    using assms(2) by (simp add: new_obj obj)
  note code = this [unfolded b(1), unfolded obj a(1), unfolded base_members]
  show ?thesis
    unfolding code using assms a(2) b(2)
    by (simp add: written_simps obj_ok_new get_new no_device_def json_text_def items_def)
qed


text \<open>The kinds that have children.\<close>

lemma items_none: "items None = []"
  by (simp add: items_def)

lemma component_written:
  assumes "document_node ops (Ncl_Node f cs ds ms vs)" "nd_type f = NCL_NODE_COMPONENT \<or> nd_type f = NCL_NODE_DEVICE"
    and "all_written ops cs" "all_written ops ds" "all_written ops ms"
  shows "written ops (Ncl_Node f cs ds ms vs) (ncl_node_to_json grant_all ops (Ncl_Node f cs ds ms vs))"
proof -
  let ?o = "put_opt ''number'' (json_text (nd_number f)) (ncl_node_write_base grant_all f (empty_object :: 'a json option))"
  obtain a where a: "put_children grant_all ''configs'' (cs = []) (children_json grant_all ops cs (ncl_json_new_array grant_all)) ?o = put_opt ''configs'' a ?o"
      "items a = map (\<lambda>n. the (ncl_node_to_json grant_all ops n)) cs"
    using put_kids [of cs ops "''configs''" ?o] assms(3) by (auto simp: all_written_def)
  obtain b where b: "put_children grant_all ''dataItems'' (ds = []) (children_json grant_all ops ds (ncl_json_new_array grant_all)) (put_opt ''configs'' a ?o)
        = put_opt ''dataItems'' b (put_opt ''configs'' a ?o)"
      "items b = map (\<lambda>n. the (ncl_node_to_json grant_all ops n)) ds"
    using put_kids [of ds ops "''dataItems''" "put_opt ''configs'' a ?o"] assms(4) by (auto simp: all_written_def)
  obtain c where c: "put_children grant_all ''components'' (ms = []) (children_json grant_all ops ms (ncl_json_new_array grant_all))
        (put_opt ''dataItems'' b (put_opt ''configs'' a ?o)) = put_opt ''components'' c (put_opt ''dataItems'' b (put_opt ''configs'' a ?o))"
      "items c = map (\<lambda>n. the (ncl_node_to_json grant_all ops n)) ms"
    using put_kids [of ms ops "''components''" "put_opt ''dataItems'' b (put_opt ''configs'' a ?o)"] assms(5) by (auto simp: all_written_def)
  have "ncl_node_to_json grant_all ops (Ncl_Node f cs ds ms vs) =
    put_opt ''guid'' (if nd_type f = NCL_NODE_DEVICE then json_text (nd_guid f) else None)
     (put_opt ''version'' (if nd_type f = NCL_NODE_DEVICE then json_text (nd_version f) else None)
      (put_opt ''components'' c (put_opt ''dataItems'' b (put_opt ''configs'' a ?o))))"
    using assms(2) unfolding ncl_node_to_json.simps new_obj option.case Let_def component_members
    by (elim disjE; simp only: ncl_node_type.case a(1) b(1) c(1) put_str_opt put_opt_none if_True if_False
        ncl_node_type.distinct simp_thms)
  note code = this [unfolded base_members]
  show ?thesis
    unfolding code using assms(1,2) a(2) b(2) c(2)
    by (elim disjE; simp add: written_simps obj_ok_new get_new no_config_def no_device_def no_item_def json_text_def items_none)
qed

lemma root_written:
  assumes "document_node ops (Ncl_Node f cs ds ms vs)" "nd_type f = NCL_NODE_ROOT" "all_written ops cs" "all_written ops vs"
  shows "written ops (Ncl_Node f cs ds ms vs) (ncl_node_to_json grant_all ops (Ncl_Node f cs ds ms vs))"
proof -
  let ?o = "ncl_node_write_base grant_all f (empty_object :: 'a json option)"
  obtain a where a: "put_children grant_all ''devices'' (vs = []) (children_json grant_all ops vs (ncl_json_new_array grant_all)) ?o = put_opt ''devices'' a ?o"
      "items a = map (\<lambda>n. the (ncl_node_to_json grant_all ops n)) vs"
    using put_kids [of vs ops "''devices''" ?o] assms(4) by (auto simp: all_written_def)
  obtain b where b: "put_children grant_all ''configs'' (cs = []) (children_json grant_all ops cs (ncl_json_new_array grant_all)) (put_opt ''devices'' a ?o)
        = put_opt ''configs'' b (put_opt ''devices'' a ?o)"
      "items b = map (\<lambda>n. the (ncl_node_to_json grant_all ops n)) cs"
    using put_kids [of cs ops "''configs''" "put_opt ''devices'' a ?o"] assms(3) by (auto simp: all_written_def)
  have "ncl_node_to_json grant_all ops (Ncl_Node f cs ds ms vs) =
    put_opt ''uniqueID'' (json_text (nd_unique_id f)) (put_opt ''configs'' b (put_opt ''devices'' a ?o))"
    unfolding ncl_node_to_json.simps new_obj option.case Let_def assms(2) ncl_node_type.case a(1) b(1) put_str_opt ..
  note code = this [unfolded base_members]
  show ?thesis
    unfolding code using assms(1,2) a(2) b(2)
    by (simp add: written_simps obj_ok_new get_new no_config_def no_device_def no_item_def json_text_def items_none)
qed

section \<open>Reading a written node\<close>

definition fields_ok :: "'d double_ops \<Rightarrow> 'd json node_fields \<Rightarrow> bool" where
  "fields_ok ops f \<longleftrightarrow> list_all (\<lambda>(k, s). text_ok s) (texts_of f) \<and> (\<not> nd_has_settable f \<longrightarrow> \<not> nd_settable f)
     \<and> (\<forall>v. nd_value f = Some v \<longrightarrow> doc_ok (doc_of ops v))"

lemma document_fields: "document_node ops (Ncl_Node f cs ds ms vs) \<Longrightarrow> fields_ok ops f"
  by (cases "nd_type f")
    (auto simp: fields_ok_def texts_of_def base_ok_def value_fields_ok_def no_item_def no_device_def text_ok_def)

definition same_config :: "'v node_fields \<Rightarrow> 'v node_fields \<Rightarrow> bool" where
  "same_config f0 f \<longleftrightarrow> nd_type f0 = nd_type f
     \<and> nd_has_sample_interval f0 = nd_has_sample_interval f \<and> nd_sample_interval f0 = nd_sample_interval f
     \<and> nd_has_upload_interval f0 = nd_has_upload_interval f \<and> nd_upload_interval f0 = nd_upload_interval f
     \<and> nd_has_upload_type f0 = nd_has_upload_type f \<and> nd_upload_type f0 = nd_upload_type f
     \<and> map (map_option view_ref) (pv_items (nd_sample_items f0)) = map (map_option view_ref) (pv_items (nd_sample_items f))
     \<and> pv_free (nd_sample_items f0) = pv_free (nd_sample_items f)"

lemma read_value:
  assumes "map_option (doc_of ops) w = map_option (doc_of ops) v" "\<And>x. v = Some x \<Longrightarrow> doc_ok (doc_of ops x)"
  shows "map_option (doc_of ops) (case w of None \<Rightarrow> None | Some x \<Rightarrow> ncl_json_clone grant_all ops x) = map_option (doc_of ops) v"
proof (cases w)
  case (Some x)
  with assms obtain y where y: "v = Some y" "doc_of ops x = doc_of ops y" "doc_ok (doc_of ops y)" by (cases v) auto
  then obtain z where "ncl_json_clone grant_all ops x = Some z" "doc_of ops z = doc_of ops x" using clone_exact [of ops x] by auto
  with y Some show ?thesis by simp
qed (use assms in simp)

lemma read_settable:
  "ncl_json_obj_get obj (Some ''settable'') = json_if has (J_Bool b) \<Longrightarrow>
     (if ncl_json_obj_has obj (Some ''settable'') then fst (ncl_json_as_bool ops (ncl_json_obj_get obj (Some ''settable''))) else None)
       = (if has then Some b else None)"
  by (cases has) (simp_all add: has_get ncl_json_as_bool_def)

lemma read_fields_view:
  assumes "has_fields ops f (Some j)" "fields_ok ops f" "same_config f0 f"
  shows "view_fields ops (read_fields grant_all ops j f0) = view_fields ops f"
proof -
  note t = assms(1,2) [unfolded has_fields_def fields_ok_def texts_of_def list.pred_inject prod.case json_text_def]
  have texts: "ncl_node_read_string grant_all (Some j) ''name'' = nd_name f" "ncl_node_read_string grant_all (Some j) ''id'' = nd_id f"
     "ncl_node_read_string grant_all (Some j) ''type'' = nd_type_name f" "ncl_node_read_string grant_all (Some j) ''description'' = nd_description f"
     "ncl_node_read_string grant_all (Some j) ''number'' = nd_number f" "ncl_node_read_string grant_all (Some j) ''dataType'' = nd_data_type f"
     "ncl_node_read_string grant_all (Some j) ''mapping'' = nd_mapping f" "ncl_node_read_string grant_all (Some j) ''valueType'' = nd_value_type f"
     "ncl_node_read_string grant_all (Some j) ''source'' = nd_source f" "ncl_node_read_string grant_all (Some j) ''version'' = nd_version f"
     "ncl_node_read_string grant_all (Some j) ''guid'' = nd_guid f" "ncl_node_read_string grant_all (Some j) ''uniqueID'' = nd_unique_id f"
    using t by (simp_all add: read_string_opt)
  have settable: "(if ncl_json_obj_has (Some j) (Some ''settable'') then fst (ncl_json_as_bool ops (ncl_json_obj_get (Some j) (Some ''settable''))) else None)
       = (if nd_has_settable f then Some (nd_settable f) else None)"
    using t by (intro read_settable) simp
  have "map_option (doc_of ops) (case ncl_json_obj_get (Some j) (Some ''value'') of None \<Rightarrow> None | Some x \<Rightarrow> ncl_json_clone grant_all ops x)
      = map_option (doc_of ops) (nd_value f)"
    using t by (intro read_value) simp_all
  with assms(3) t show ?thesis
    by (simp add: read_fields_def texts settable view_fields_def same_config_def Let_def)
qed

lemma read_string_member: "ncl_json_obj_get obj (Some key) = json_if has (J_String s) \<Longrightarrow>
    ncl_json_obj_get_string obj (Some key) = (if has then Some (cstr_of s) else None)"
  by (cases has) (simp_all add: ncl_json_obj_get_string_def ncl_json_as_string_def)

lemma upload_type_read: "ncl_upload_type_parse (Some (cstr_of (ncl_upload_type_name t))) = Some t"
  by (cases t) (simp_all add: ncl_upload_type_name_def ncl_upload_type_parse_def cstr_of_def NUL_def)

lemma new_node: "ncl_node_new grant_all t = Some (Ncl_Node (blank_fields t) [] [] [] [])"
  by (simp add: ncl_node_new_def grant_all)

lemma read_config:
  assumes "has_config ops f (Some j)" "config_ok f" "nd_type f = NCL_NODE_CONFIG" "pv_free (nd_sample_items f)"
  shows "\<exists>f0. ncl_config_from_json grant_all ops j = Inr f0 \<and> same_config f0 f"
proof -
  have i: "read_int ops (Some j) ''sampleInterval'' = (nd_has_sample_interval f, nd_sample_interval f)"
    "read_int ops (Some j) ''uploadInterval'' = (nd_has_upload_interval f, nd_upload_interval f)"
    using assms(1,2) by (auto intro!: read_int_opt simp: has_config_def config_ok_def)
  let ?f = "(blank_fields NCL_NODE_CONFIG :: 'a json node_fields)\<lparr>nd_has_sample_interval := nd_has_sample_interval f, nd_sample_interval := nd_sample_interval f\<rparr>"
  obtain rs c where r: "read_refs grant_all ops (items (ncl_json_obj_get (Some j) (Some ''ids''))) ?f = Inr (?f\<lparr>nd_sample_items :=
     \<lparr>pv_items = pv_items (nd_sample_items ?f) @ rs, pv_cap = c, pv_free = pv_free (nd_sample_items ?f)\<rparr>\<rparr>)"
     "map (map_option view_ref) rs = map (map_option view_ref) (pv_items (nd_sample_items f))"
    using read_refs_entries [of ops "pv_items (nd_sample_items f)" "items (ncl_json_obj_get (Some j) (Some ''ids''))" ?f] assms(1)
    by (auto simp: has_config_def)
  have u: "ncl_json_obj_get_string (Some j) (Some ''uploadType'') =
      (if nd_has_upload_type f then Some (cstr_of (cstr_of (ncl_upload_type_name (nd_upload_type f)))) else None)"
    using assms(1) by (intro read_string_member) (simp add: has_config_def)
  have empty: "ncl_ptrvec_init b = \<lparr>pv_items = [], pv_cap = 0, pv_free = b\<rparr>" for b by (simp add: ncl_ptrvec_init_def)
  show ?thesis
    using r assms(2-4) unfolding ncl_config_from_json_def new_node option.case Let_def i fst_conv snd_conv ncl_node.sel r(1) sum.case u
    by (cases "nd_has_upload_type f") (simp_all add: upload_type_read same_config_def blank_fields_def empty config_ok_def)
qed


definition reads_back :: "'d double_ops \<Rightarrow> 'd json ncl_node \<Rightarrow> bool" where
  "reads_back ops n \<longleftrightarrow> (\<exists>j m. ncl_node_to_json grant_all ops n = Some j
     \<and> ncl_node_from_json grant_all ops (nd_type (nf n)) j = Some m \<and> view ops m = view ops n)"

lemma kids_read:
  assumes "list_all (\<lambda>n. nd_type (nf n) = t \<and> document_node ops n) ns" "\<And>n. n \<in> set ns \<Longrightarrow> document_node ops n \<Longrightarrow> reads_back ops n"
    and "has_children ops key ns obj" "t \<in> {NCL_NODE_CONFIG, NCL_NODE_DATA_ITEM, NCL_NODE_COMPONENT, NCL_NODE_DEVICE}"
  shows "\<exists>p1. ncl_node_read_children grant_all ops t (items (ncl_json_obj_get obj (Some key))) p = (NCL_OK, p1) \<and> same_but ops (kind_slot t) ns p p1"
proof (rule read_children_all [OF _ assms(4)])
  have "nd_type (nf n) = t \<and> (\<exists>m. ncl_node_from_json grant_all ops t (the (ncl_node_to_json grant_all ops n)) = Some m \<and> view ops m = view ops n)"
    if "n \<in> set ns" for n
    using assms(1) assms(2) [OF that] that by (force simp: reads_back_def list_all_iff)
  then show "list_all2 (\<lambda>n e. nd_type (nf n) = t \<and> (\<exists>m. ncl_node_from_json grant_all ops t e = Some m \<and> view ops m = view ops n)) ns
      (items (ncl_json_obj_get obj (Some key)))"
    unfolding assms(3) [unfolded has_children_def] by (auto simp: list_all2_conv_all_nth)
qed

lemma view_from: "\<lbrakk>view_fields ops (nf m) = view_fields ops f; map (view ops) (configs m) = map (view ops) cs;
    map (view ops) (data_items m) = map (view ops) ds; map (view ops) (components m) = map (view ops) ms;
    map (view ops) (devices m) = map (view ops) vs\<rbrakk> \<Longrightarrow> view ops m = view ops (Ncl_Node f cs ds ms vs)"
  by (cases m) simp

lemma same_butD:
  assumes "same_but ops slot ns p p1"
  shows "view_fields ops (nf p1) = view_fields ops (nf p)" "map (view ops) (children s p1) = map (view ops) (children s p) @ (if s = slot then map (view ops) ns else [])"
  using assms by (simp_all add: same_but_def)

lemmas same_children = same_butD(2) [of _ _ _ _ _ In_Configs, simplified] same_butD(2) [of _ _ _ _ _ In_Data_Items, simplified]
  same_butD(2) [of _ _ _ _ _ In_Components, simplified] same_butD(2) [of _ _ _ _ _ In_Devices, simplified]

lemma blank_config: "\<lbrakk>no_config f; pv_free (nd_sample_items f)\<rbrakk> \<Longrightarrow> same_config (blank_fields (nd_type f)) f"
  by (simp add: same_config_def blank_fields_def no_config_def ncl_ptrvec_init_def)

text \<open>The fields with which the children are then read.\<close>

lemma read_first:
  assumes "written ops (Ncl_Node f cs ds ms vs) (Some j)" "document_node ops (Ncl_Node f cs ds ms vs)"
  shows "\<exists>f0. (if nd_type f = NCL_NODE_CONFIG then (case ncl_config_from_json grant_all ops j of Inl released \<Rightarrow> None | Inr f \<Rightarrow> Some f)
      else map_option nf (ncl_node_new grant_all (nd_type f))) = Some f0
    \<and> view_fields ops (read_fields grant_all ops j f0) = view_fields ops f"
proof -
  have free: "pv_free (nd_sample_items f)" using assms(2) by (simp add: base_ok_def)
  obtain f0 where f0: "(if nd_type f = NCL_NODE_CONFIG then (case ncl_config_from_json grant_all ops j of Inl released \<Rightarrow> None | Inr f \<Rightarrow> Some f)
      else map_option nf (ncl_node_new grant_all (nd_type f))) = Some f0" "same_config f0 f"
  proof (cases "nd_type f = NCL_NODE_CONFIG")
    case True
    then have "config_ok f" using assms(2) by simp
    with read_config [of ops f j] True free assms(1) obtain f0 where "ncl_config_from_json grant_all ops j = Inr f0" "same_config f0 f"
      by (auto simp: written_def)
    with True that show ?thesis by simp
  next
    case False
    then have "no_config f" using assms(2) by (cases "nd_type f") simp_all
    with blank_config [of f] free False that show ?thesis by (simp add: new_node)
  qed
  have "has_fields ops f (Some j)" using assms(1) by (simp add: written_def)
  from read_fields_view [OF this document_fields [OF assms(2)] f0(2)] f0(1) show ?thesis by blast
qed


lemma set_type_name_view: "view_fields ops (snd (ncl_node_set_type_name grant_all (nd_type_name f) f)) = view_fields ops f"
  by (cases "nd_type_name f")
    (simp_all add: ncl_node_set_type_name_def set_text_def ncl_node_replace_str_def view_fields_def split: option.splits)

lemma leaf_reads:
  assumes "written ops (Ncl_Node f cs ds ms vs) (Some j)" "document_node ops (Ncl_Node f cs ds ms vs)"
    and "nd_type f = NCL_NODE_DATA_ITEM \<or> nd_type f = NCL_NODE_CONFIG"
  shows "\<exists>m. ncl_node_from_json grant_all ops (nd_type f) j = Some m \<and> view ops m = view ops (Ncl_Node f cs ds ms vs)"
proof -
  from read_first [OF assms(1,2)] obtain f0 where f0: "(if nd_type f = NCL_NODE_CONFIG then (case ncl_config_from_json grant_all ops j of Inl released \<Rightarrow> None | Inr f \<Rightarrow> Some f)
      else map_option nf (ncl_node_new grant_all (nd_type f))) = Some f0" "view_fields ops (read_fields grant_all ops j f0) = view_fields ops f" by blast
  have "ncl_json_type_of (Some j) = NCL_JSON_OBJECT" using assms(1) obj_type by (auto simp: written_def)
  with assms(2,3) f0(2) show ?thesis
    unfolding ncl_node_from_json.simps f0(1) option.case by (elim disjE; simp add: Let_def)
qed

lemma component_reads:
  assumes "written ops (Ncl_Node f cs ds ms vs) (Some j)" "document_node ops (Ncl_Node f cs ds ms vs)"
    and "nd_type f = NCL_NODE_COMPONENT \<or> nd_type f = NCL_NODE_DEVICE"
    and "\<And>n. n \<in> set cs \<Longrightarrow> document_node ops n \<Longrightarrow> reads_back ops n" "\<And>n. n \<in> set ds \<Longrightarrow> document_node ops n \<Longrightarrow> reads_back ops n"
      "\<And>n. n \<in> set ms \<Longrightarrow> document_node ops n \<Longrightarrow> reads_back ops n"
  shows "\<exists>m. ncl_node_from_json grant_all ops (nd_type f) j = Some m \<and> view ops m = view ops (Ncl_Node f cs ds ms vs)"
proof -
  from read_first [OF assms(1,2)] obtain f0 where f0: "(if nd_type f = NCL_NODE_CONFIG then (case ncl_config_from_json grant_all ops j of Inl released \<Rightarrow> None | Inr f \<Rightarrow> Some f)
      else map_option nf (ncl_node_new grant_all (nd_type f))) = Some f0" "view_fields ops (read_fields grant_all ops j f0) = view_fields ops f" by blast
  have obj: "ncl_json_type_of (Some j) = NCL_JSON_OBJECT" using assms(1) obj_type by (auto simp: written_def)
  let ?n = "Ncl_Node (read_fields grant_all ops j f0) [] [] [] []"
  have kids: "has_children ops ''configs'' cs (Some j)" "has_children ops ''dataItems'' ds (Some j)" "has_children ops ''components'' ms (Some j)"
    using assms(1) by (simp_all add: written_def)
  have docs: "list_all (\<lambda>n. nd_type (nf n) = NCL_NODE_CONFIG \<and> document_node ops n) cs"
    "list_all (\<lambda>n. nd_type (nf n) = NCL_NODE_DATA_ITEM \<and> document_node ops n) ds"
    "list_all (\<lambda>n. nd_type (nf n) = NCL_NODE_COMPONENT \<and> document_node ops n) ms" "vs = []"
    using assms(2,3) by auto
  obtain n1 where n1: "ncl_node_read_children grant_all ops NCL_NODE_CONFIG (items (ncl_json_obj_get (Some j) (Some ''configs''))) ?n = (NCL_OK, n1)"
      "same_but ops In_Configs cs ?n n1"
    using kids_read [OF docs(1) assms(4) kids(1), of ?n] by (auto simp: kind_slot_def)
  obtain n2 where n2: "ncl_node_read_children grant_all ops NCL_NODE_DATA_ITEM (items (ncl_json_obj_get (Some j) (Some ''dataItems''))) n1 = (NCL_OK, n2)"
      "same_but ops In_Data_Items ds n1 n2"
    using kids_read [OF docs(2) assms(5) kids(2), of n1] by (auto simp: kind_slot_def)
  obtain n3 where n3: "ncl_node_read_children grant_all ops NCL_NODE_COMPONENT (items (ncl_json_obj_get (Some j) (Some ''components''))) n2 = (NCL_OK, n3)"
      "same_but ops In_Components ms n2 n3"
    using kids_read [OF docs(3) assms(6) kids(3), of n2] by (auto simp: kind_slot_def)
  have "ncl_node_from_json grant_all ops (nd_type f) j = Some n3"
    using assms(3) unfolding ncl_node_from_json.simps f0(1) option.case by (elim disjE; simp add: obj Let_def n1(1) n2(1) n3(1))
  moreover have "view ops n3 = view ops (Ncl_Node f cs ds ms vs)"
    using same_children [OF n1(2)] same_children [OF n2(2)] same_children [OF n3(2)]
      same_butD(1) [OF n1(2)] same_butD(1) [OF n2(2)] same_butD(1) [OF n3(2)] f0(2) docs(4)
    by (intro view_from) simp_all
  ultimately show ?thesis by blast
qed

lemma root_reads:
  assumes "written ops (Ncl_Node f cs ds ms vs) (Some j)" "document_node ops (Ncl_Node f cs ds ms vs)" "nd_type f = NCL_NODE_ROOT"
    and "\<And>n. n \<in> set cs \<Longrightarrow> document_node ops n \<Longrightarrow> reads_back ops n" "\<And>n. n \<in> set vs \<Longrightarrow> document_node ops n \<Longrightarrow> reads_back ops n"
  shows "\<exists>m. ncl_node_from_json grant_all ops (nd_type f) j = Some m \<and> view ops m = view ops (Ncl_Node f cs ds ms vs)"
proof -
  from read_first [OF assms(1,2)] obtain f0 where f0: "(if nd_type f = NCL_NODE_CONFIG then (case ncl_config_from_json grant_all ops j of Inl released \<Rightarrow> None | Inr f \<Rightarrow> Some f)
      else map_option nf (ncl_node_new grant_all (nd_type f))) = Some f0" "view_fields ops (read_fields grant_all ops j f0) = view_fields ops f" by blast
  have obj: "ncl_json_type_of (Some j) = NCL_JSON_OBJECT" using assms(1) obj_type by (auto simp: written_def)
  let ?f = "read_fields grant_all ops j f0"
  let ?n = "Ncl_Node (snd (ncl_node_set_type_name grant_all (nd_type_name ?f) ?f)) [] [] [] []"
  have kids: "has_children ops ''configs'' cs (Some j)" "has_children ops ''devices'' vs (Some j)"
    using assms(1) by (simp_all add: written_def)
  have docs: "list_all (\<lambda>n. nd_type (nf n) = NCL_NODE_CONFIG \<and> document_node ops n) cs"
    "list_all (\<lambda>n. nd_type (nf n) = NCL_NODE_DEVICE \<and> document_node ops n) vs" "ds = []" "ms = []"
    using assms(2,3) by auto
  obtain n1 where n1: "ncl_node_read_children grant_all ops NCL_NODE_DEVICE (items (ncl_json_obj_get (Some j) (Some ''devices''))) ?n = (NCL_OK, n1)"
      "same_but ops In_Devices vs ?n n1"
    using kids_read [OF docs(2) assms(5) kids(2), of ?n] by (auto simp: kind_slot_def)
  obtain n2 where n2: "ncl_node_read_children grant_all ops NCL_NODE_CONFIG (items (ncl_json_obj_get (Some j) (Some ''configs''))) n1 = (NCL_OK, n2)"
      "same_but ops In_Configs cs n1 n2"
    using kids_read [OF docs(1) assms(4) kids(1), of n1] by (auto simp: kind_slot_def)
  have "ncl_node_from_json grant_all ops (nd_type f) j = Some n2"
    using assms(3) unfolding ncl_node_from_json.simps f0(1) option.case by (simp add: obj Let_def n1(1) n2(1))
  moreover have "view ops n2 = view ops (Ncl_Node f cs ds ms vs)"
    using same_children [OF n1(2)] same_children [OF n2(2)] same_butD(1) [OF n1(2)] same_butD(1) [OF n2(2)] f0(2) docs(3,4) set_type_name_view [of ops ?f]
    by (intro view_from) simp_all
  ultimately show ?thesis by blast
qed

lemma all_writtenI:
  "\<lbrakk>list_all (\<lambda>n. nd_type (nf n) = t \<and> document_node ops n) ns; \<And>n. n \<in> set ns \<Longrightarrow> document_node ops n \<Longrightarrow> reads_back ops n\<rbrakk>
     \<Longrightarrow> all_written ops ns"
  unfolding all_written_def list_all_iff reads_back_def by blast

lemma node_reads_back: "document_node ops n \<Longrightarrow> reads_back ops n"
proof (induction n)
  case (Ncl_Node f cs ds ms vs)
  let ?n = "Ncl_Node f cs ds ms vs"
  note docs = Ncl_Node.prems [unfolded document_node.simps]
  have all: "all_written ops cs" "all_written ops ds" "all_written ops ms" "all_written ops vs"
    using docs all_writtenI [OF _ Ncl_Node.IH(1)] all_writtenI [OF _ Ncl_Node.IH(2)]
      all_writtenI [OF _ Ncl_Node.IH(3)] all_writtenI [OF _ Ncl_Node.IH(4)] by blast+
  have "nd_type f \<noteq> NCL_NODE_BASE" using docs by (cases "nd_type f") auto
  then consider (item) "nd_type f = NCL_NODE_DATA_ITEM" | (config) "nd_type f = NCL_NODE_CONFIG"
    | (component) "nd_type f = NCL_NODE_COMPONENT \<or> nd_type f = NCL_NODE_DEVICE" | (root) "nd_type f = NCL_NODE_ROOT"
    using ncl_node_type.exhaust by blast
  note kind = this
  have "written ops ?n (ncl_node_to_json grant_all ops ?n)"
    by (rule kind; rule data_item_written config_written component_written root_written, rule Ncl_Node.prems;
        use all in blast)
  moreover then obtain j where j: "ncl_node_to_json grant_all ops ?n = Some j" unfolding written_def using obj_type by blast
  ultimately have "written ops ?n (Some j)" by simp
  then have "\<exists>m. ncl_node_from_json grant_all ops (nd_type f) j = Some m \<and> view ops m = view ops ?n"
    using leaf_reads [OF _ Ncl_Node.prems] component_reads [OF _ Ncl_Node.prems _ Ncl_Node.IH(1-3)]
      root_reads [OF _ Ncl_Node.prems _ Ncl_Node.IH(1) Ncl_Node.IH(4)] kind by blast
  with j show ?case by (auto simp: reads_back_def)
qed

text \<open>
  C6. Round trip of the device model: a node whose texts are C strings, whose unset fields are
  clear and whose children are of the kinds of their vectors - a root with devices and configs, a
  device or a component with configs, data items and components, a sample channel with items and
  their parameters - is written by \<open>ncl_node_to_json\<close> to a document from which
  \<open>ncl_node_from_json\<close> builds the same node: every field of its kind, its values, its sample items
  and everything below it, in the same order.
\<close>

theorem node_json_roundtrip:
  assumes "document_node ops n"
  shows "\<exists>j m. ncl_node_to_json grant_all ops n = Some j
    \<and> ncl_node_from_json grant_all ops (nd_type (nf n)) j = Some m \<and> view ops m = view ops n"
  using node_reads_back [OF assms] by (simp add: reads_back_def)

text \<open>A device with a data item, a component and a sample channel of two items.\<close>

definition sample_device :: "int json ncl_node" where
  "sample_device =
     Ncl_Node ((blank_fields NCL_NODE_DEVICE)\<lparr>nd_id := Some ''02'', nd_type_name := Some ''MACHINE'', nd_version := Some ''2.0''\<rparr>)
      [Ncl_Node ((blank_fields NCL_NODE_CONFIG)\<lparr>nd_id := Some ''c1'', nd_type_name := Some ''SAMPLE_CHANNEL'',
          nd_has_sample_interval := True, nd_sample_interval := 10, nd_has_upload_interval := True, nd_upload_interval := 100,
          nd_has_upload_type := True, nd_upload_type := NCL_UPLOAD_EVENT,
          nd_sample_items := \<lparr>pv_items =
            [Some \<lparr>sr_id = Some ''d1'', sr_params = None, sr_node = None, sr_path = None\<rparr>,
             Some \<lparr>sr_id = Some ''/MACHINE/AXIS@1'', sr_params = Some \<lparr>sp_indexes = \<lparr>sv_items = [''0'', ''2''], sv_cap = 8\<rparr>,
                 sp_keys = ncl_strvec_init, sp_has_offset = True, sp_offset = 3, sp_has_length = False, sp_length = 0\<rparr>,
               sr_node = None, sr_path = None\<rparr>], pv_cap = 8, pv_free = True\<rparr>\<rparr>) [] [] [] []]
      [Ncl_Node ((blank_fields NCL_NODE_DATA_ITEM)\<lparr>nd_id := Some ''d1'', nd_type_name := Some ''STATUS'', nd_number := Some ''1'',
          nd_value := Some (J_Array [J_Bool True, J_String ''on''] 8), nd_source := Some ''/CNC''\<rparr>) [] [] [] []]
      [Ncl_Node ((blank_fields NCL_NODE_COMPONENT)\<lparr>nd_id := Some ''a1'', nd_type_name := Some ''AXIS'', nd_number := Some ''1''\<rparr>) [] [] [] []] []"

lemma node_json_roundtrip_witness:
  "\<exists>j m. ncl_node_to_json grant_all int_ops sample_device = Some j
    \<and> ncl_node_from_json grant_all int_ops NCL_NODE_DEVICE j = Some m \<and> view int_ops m = view int_ops sample_device"
proof -
  have "document_node int_ops sample_device"
    by (simp add: sample_device_def blank_fields_def base_ok_def text_ok_def is_cstr_def NUL_def no_item_def no_config_def
        no_device_def value_fields_ok_def config_ok_def ref_ok_def params_ok_def ncl_ptrvec_init_def ncl_strvec_init_def)
  from node_json_roundtrip [OF this] show ?thesis by (simp add: sample_device_def blank_fields_def)
qed

end
