(* ===== verification/Model_Props.thy ===== *)
theory Model_Props
  imports Model_Roundtrip
begin

text \<open>
  The paths of the nodes, lookup by id, the binding of sample channels, and what is released when a
  sample item cannot be added.
\<close>

section \<open>Paths\<close>

text \<open>
  The path of a node below a parent: the parent's path and the node's segment, unless the node has
  a source, which then takes the parent's place.
\<close>

definition path_below :: "string option \<Rightarrow> 'v node_fields \<Rightarrow> string" where
  "path_below parent_path f =
     (case nd_source f of
        Some source \<Rightarrow>
          if \<not> ncl_str_is_blank (Some source)
          then (if source \<noteq> [] \<and> hd source = CHR ''/'' then source else CHR ''/'' # source) @ ''/'' @ path_segment f
          else ncl_path_prefix parent_path @ ''/'' @ path_segment f
      | None \<Rightarrow> ncl_path_prefix parent_path @ ''/'' @ path_segment f)"

definition place :: "string option \<Rightarrow> 'v node_fields \<Rightarrow> 'v node_fields" where
  "place parent_path f = f\<lparr>nd_path := Some (path_below parent_path f)\<rparr>"

fun tree_placed :: "string option \<Rightarrow> 'v ncl_node \<Rightarrow> 'v ncl_node" where
  "tree_placed parent_path (Ncl_Node f cs ds ms vs) =
     (if nd_type f = NCL_NODE_ROOT then Ncl_Node f cs ds ms vs
      else if nd_type f = NCL_NODE_BASE
      then Ncl_Node (f\<lparr>nd_path := Some (ncl_path_prefix parent_path @ ''/'' @ path_segment f)\<rparr>) cs ds ms vs
      else if nd_type f = NCL_NODE_DATA_ITEM \<or> nd_type f = NCL_NODE_CONFIG then Ncl_Node (place parent_path f) cs ds ms vs
      else (let p = Some (path_below parent_path f)
            in Ncl_Node (place parent_path f) (map (tree_placed p) cs) (map (tree_placed p) ds) (map (tree_placed p) ms) vs))"

lemma asprintf_all: "ncl_asprintf_text grant_all t = Some t"
  by (simp add: ncl_asprintf_text_def grant_all)

lemma own_path_all: "own_path grant_all parent_path f = (NCL_OK, place parent_path f)"
  by (cases "nd_source f")
    (simp_all add: own_path_def ncl_node_build_path_def asprintf_all ncl_node_apply_source_def ncl_node_source_path_def
      place_def path_below_def path_segment_def)

lemma set_paths_all:
  "(\<And>n. n \<in> set ns \<Longrightarrow> ncl_node_set_path grant_all p n = (NCL_OK, tree_placed p n)) \<Longrightarrow>
     set_paths grant_all p ns = (NCL_OK, map (tree_placed p) ns)"
  by (induction ns) simp_all

lemma placed_path: "nd_type f \<noteq> NCL_NODE_ROOT \<Longrightarrow> ncl_node_path (place p f) = Some (path_below p f)"
  by (simp add: ncl_node_path_def place_def)

text \<open>
  C34. With all memory granted, \<open>ncl_node_set_path\<close> gives a node and everything below it the path
  that its ancestors determine: the path of the node above, a slash, the type and the number
  behind an @ - or the source of the node in place of the path above. Components, configs and data
  items of a node are tree_placed below its own new path; devices below a node and a root keep theirs.
\<close>

theorem set_path_places: "ncl_node_set_path grant_all parent_path n = (NCL_OK, tree_placed parent_path n)"
proof (induction n arbitrary: parent_path)
  case (Ncl_Node f cs ds ms vs)
  have t: "nd_type (place p f) = nd_type f" for p by (simp add: place_def)
  from set_paths_all [OF Ncl_Node.IH(1)] set_paths_all [OF Ncl_Node.IH(2)] set_paths_all [OF Ncl_Node.IH(3)]
  have kids: "set_paths grant_all p cs = (NCL_OK, map (tree_placed p) cs)" "set_paths grant_all p ds = (NCL_OK, map (tree_placed p) ds)"
    "set_paths grant_all p ms = (NCL_OK, map (tree_placed p) ms)" for p by blast+
  show ?case
    by (simp add: own_path_all ncl_node_build_path_def asprintf_all t kids placed_path Let_def)
qed

section \<open>Lookup by id\<close>

lemma or_else_Some: "or_else a b = Some x \<longleftrightarrow> a = Some x \<or> (a = None \<and> b = Some x)"
  by (cases a) (simp_all add: or_else_def)

lemma or_else_None: "or_else a b = None \<longleftrightarrow> a = None \<and> b = None"
  by (cases a) (simp_all add: or_else_def)

lemma find_flat_Some: "find_flat slot w i ns = Some p \<Longrightarrow> \<exists>k < length ns. p = [(slot, i + k)] \<and> has_id w (ns ! k)"
proof (induction ns arbitrary: i)
  case (Cons n ns)
  then show ?case
  proof (cases "has_id w n")
    case False
    with Cons obtain k where "k < length ns" "p = [(slot, Suc i + k)]" "has_id w (ns ! k)" by fastforce
    then show ?thesis by (intro exI [of _ "Suc k"]) simp
  qed auto
qed simp

lemma find_flat_None: "find_flat slot w i ns = None \<longleftrightarrow> (\<forall>n \<in> set ns. \<not> has_id w n)"
  by (induction ns arbitrary: i) auto

text \<open>Components and devices are searched to any depth; of configs and data items only themselves.\<close>

definition searched :: "node_pos \<Rightarrow> bool" where
  "searched p \<longleftrightarrow> p \<noteq> [] \<and> list_all (\<lambda>(s, i). s = In_Components \<or> s = In_Devices) (butlast p)"

lemma searched_simps [simp]: "\<not> searched []" "searched [x]"
  "searched ((s, i) # x # p) \<longleftrightarrow> (s = In_Components \<or> s = In_Devices) \<and> searched (x # p)"
  by (simp_all add: searched_def)

lemma searched_Cons: "\<lbrakk>s = In_Components \<or> s = In_Devices; searched p\<rbrakk> \<Longrightarrow> searched ((s, i) # p)"
  by (cases p) auto

lemma find_sound:
  fixes n :: "'v ncl_node" and ns :: "'v ncl_node list"
  shows "ncl_node_find_by_id n w = Some p \<Longrightarrow> searched p \<and> (\<exists>m. node_at n p = Some m \<and> has_id w m)"
    and "find_deep slot w i ns = Some p \<Longrightarrow> \<exists>k q. k < length ns \<and> p = (slot, i + k) # q \<and> (q = [] \<or> searched q) \<and> (\<exists>m. node_at (ns ! k) q = Some m \<and> has_id w m)"
proof (induction n w and slot w i ns arbitrary: p and p rule: ncl_node_find_by_id_find_deep.induct)
  case (1 f cs ds ms vs wanted)
  then show ?case
    by (fastforce simp: or_else_Some dest: find_flat_Some intro: searched_Cons)
next
  case (3 slot wanted i n ns)
  show ?case
  proof (cases "has_id wanted n")
    case True
    with 3 show ?thesis by (intro exI [of _ 0] exI [of _ "[]"]) auto
  next
    case False
    then consider q where "ncl_node_find_by_id n wanted = Some q" "p = (slot, i) # q" | "find_deep slot wanted (Suc i) ns = Some p"
      using 3 by (auto simp: or_else_Some)
    then show ?thesis
    proof cases
      case 1
      with "3.IH"(1) [OF False] show ?thesis by (intro exI [of _ 0] exI [of _ q]) auto
    next
      case 2
      with "3.IH"(2) [OF False] obtain k q where "k < length ns" "p = (slot, Suc i + k) # q" "q = [] \<or> searched q" "\<exists>m. node_at (ns ! k) q = Some m \<and> has_id wanted m" by blast
      then show ?thesis by (intro exI [of _ "Suc k"] exI [of _ q]) simp
    qed
  qed
qed simp

lemma find_deep_None: "find_deep slot w i ns = None \<longleftrightarrow> (\<forall>n \<in> set ns. \<not> has_id w n \<and> ncl_node_find_by_id n w = None)"
  by (induction ns arbitrary: i) (auto simp: or_else_None)

lemma not_found:
  "\<lbrakk>ncl_node_find_by_id n w = None; c \<in> set (children s n)\<rbrakk> \<Longrightarrow>
     \<not> has_id w c \<and> (s = In_Components \<or> s = In_Devices \<longrightarrow> ncl_node_find_by_id c w = None)"
  by (cases n; cases s) (simp_all add: or_else_None find_flat_None find_deep_None)

lemma find_complete: "\<lbrakk>searched p; node_at n p = Some m; has_id w m\<rbrakk> \<Longrightarrow> ncl_node_find_by_id n w \<noteq> None"
proof (induction p arbitrary: n)
  case (Cons x p)
  obtain s i where x: "x = (s, i)" by (cases x)
  with Cons.prems(2) have at: "i < length (children s n)" "node_at (children s n ! i) p = Some m" by (auto split: if_splits)
  then have c: "children s n ! i \<in> set (children s n)" by simp
  show ?case
  proof (cases p)
    case Nil
    with at(2) Cons.prems(3) have "has_id w (children s n ! i)" by simp
    with not_found [OF _ c] show ?thesis by blast
  next
    case (Cons y q)
    with Cons.prems(1) x have s: "s = In_Components \<or> s = In_Devices" "searched p" by (cases y; simp)+
    show ?thesis using not_found [OF _ c] s(1) Cons.IH [OF s(2) at(2) Cons.prems(3)] by metis
  qed
qed simp

text \<open>
  \<open>ncl_node_find_by_id\<close> is exact: it answers with a node that has the id, below the node at
  any depth of components and devices, and it answers NULL only if there is none.
\<close>

theorem find_by_id_exact:
  "case ncl_node_find_by_id n w of
     Some p \<Rightarrow> searched p \<and> (\<exists>m. node_at n p = Some m \<and> has_id w m)
   | None \<Rightarrow> \<not> (\<exists>p m. searched p \<and> node_at n p = Some m \<and> has_id w m)"
proof (cases "ncl_node_find_by_id n w")
  case None
  with find_complete have "\<not> (\<exists>p m. searched p \<and> node_at n p = Some m \<and> has_id w m)" by blast
  with None show ?thesis by simp
next
  case (Some p)
  with find_sound(1) [OF Some] show ?thesis by simp
qed

section \<open>A sample item that cannot be added\<close>

text \<open>
  The vector of sample items owns what it is given, and releases an item it cannot take. The
  reader of a sample channel releases that item once more when \<open>ncl_node_add_sample_item\<close> fails: if
  the vector is full and the allocator refuses to double it, the new item is twice among what
  \<open>ncl_config_from_json\<close> releases (a double free), ahead of the items the channel already has.
\<close>

theorem sample_item_released_twice:
  assumes "ncl_json_obj_get_string (Some x) (Some ''id'') = Some s" "ncl_sample_ref_new g (Some s) = Some ref"
    and "length (pv_items (nd_sample_items f)) = pv_cap (nd_sample_items f)" "pv_cap (nd_sample_items f) > 0"
    and "\<not> g (pv_cap (nd_sample_items f) * 2 * PTR_SIZE)" "pv_free (nd_sample_items f)"
    and "item = ref\<lparr>sr_params := ncl_sample_params_from_json g ops (ncl_json_obj_get (Some x) (Some ''params''))\<rparr>"
  shows "read_refs g ops (x # xs) f = Inl (item # item # held_refs f)"
  using assms by (simp add: ncl_node_add_sample_item_def ncl_ptrvec_push_owned_def ncl_ptrvec_push_def Let_def)

text \<open>The ninth item, with an allocator that refuses 128 bytes.\<close>

lemma sample_item_released_twice_witness:
  "let g = (\<lambda>n. n \<noteq> 128); old = \<lparr>sr_id = Some ''a'', sr_params = None, sr_node = None, sr_path = None\<rparr>;
       f = (blank_fields NCL_NODE_CONFIG :: int json node_fields)\<lparr>nd_sample_items := \<lparr>pv_items = replicate 8 (Some old), pv_cap = 8, pv_free = True\<rparr>\<rparr>;
       item = old\<lparr>sr_id := Some ''b''\<rparr>
   in read_refs g int_ops [J_Object [(''id'', J_String ''b'')] 8] f = Inl (item # item # held_refs f)"
  unfolding Let_def
  by (subst sample_item_released_twice [where s = "''b''" and ref = "\<lparr>sr_id = Some ''b'', sr_params = None, sr_node = None, sr_path = None\<rparr>"])
    (simp_all add: ncl_json_obj_get_string_def get_map ncl_json_as_string_def cstr_of_def NUL_def ncl_sample_ref_new_def SAMPLE_REF_SIZE_def
      ncl_strdup_def PTR_SIZE_def from_json_none)

end
