(* ===== verification/Model_Binding.thy ===== *)
theory Model_Binding
  imports Model_Json
begin

text \<open>
  The binding of sample channels: what the maps from ids and paths lead to, and what every sample
  item of a constructed root node refers to. No assumption is made on which allocations succeed.
\<close>

section \<open>Positions\<close>

lemma node_at_append: "node_at n (p @ q) = (case node_at n p of None \<Rightarrow> None | Some m \<Rightarrow> node_at m q)"
  by (induction n p rule: node_at.induct) auto

text \<open>The fields at a position.\<close>

definition fields_at :: "'v ncl_node \<Rightarrow> node_pos \<Rightarrow> 'v node_fields option" where
  "fields_at n p = map_option nf (node_at n p)"

lemma fields_at_simps [simp]:
  "fields_at n [] = Some (nf n)"
  "fields_at n ((s, i) # p) = (if i < length (children s n) then fields_at (children s n ! i) p else None)"
  by (simp_all add: fields_at_def)

lemma nf_map_children [simp]: "nf (map_children s h n) = nf n"
  by (cases n; cases s) simp_all

lemma children_map_children: "children s (map_children t h n) = (if s = t then h (children s n) else children s n)"
  by (cases n; cases s; cases t) simp_all

lemma with_fields_simps [simp]: "nf (with_fields u n) = u (nf n)" "children s (with_fields u n) = children s n"
  by (cases n; cases s; simp add: with_fields_def)+

lemma fields_at_update: "fields_at (node_update p u n) q = (if q = p then map_option u (fields_at n q) else fields_at n q)"
proof (induction p arbitrary: n q)
  case Nil
  then show ?case by (cases q) auto
next
  case (Cons x p)
  obtain s i where x: "x = (s, i)" by (cases x)
  show ?case
  proof (cases q)
    case (Cons y r)
    obtain t k where "y = (t, k)" by (cases y)
    with x Cons Cons.IH show ?thesis by (cases "i = k") (auto simp: children_map_children)
  qed (simp add: x)
qed

section \<open>The maps\<close>

text \<open>Every entry of a map leads to a node that has the key.\<close>

definition map_ok :: "'v ncl_node \<Rightarrow> ('v node_fields \<Rightarrow> string option) \<Rightarrow> node_map \<Rightarrow> bool" where
  "map_ok root key m \<longleftrightarrow>
     list_all2 (\<lambda>k p. \<exists>f. fields_at root p = Some f \<and> key f = Some k) (nm_keys m) (nm_vals m)"

lemma map_ok_init: "map_ok root key ncl_node_map_init"
  by (simp add: map_ok_def ncl_node_map_init_def)

lemma map_search_Some: "map_search ks key i = Some j \<Longrightarrow> i \<le> j \<and> j < i + length ks \<and> ks ! (j - i) = key"
proof (induction ks arbitrary: i)
  case (Cons k ks)
  show ?case
  proof (cases "k = key")
    case False
    with Cons.IH [of "Suc i"] Cons.prems have "Suc i \<le> j \<and> j < Suc i + length ks \<and> ks ! (j - Suc i) = key" by simp
    then show ?thesis by (auto simp: nth_Cons' Suc_diff_Suc)
  qed (use Cons in auto)
qed simp

lemma map_put_ok:
  assumes "map_ok root key m" "fields_at root p = Some f" "k = key f"
  shows "map_ok root key (snd (ncl_node_map_put g m k p))"
proof (cases k)
  case None
  with assms(1) show ?thesis by (simp add: ncl_node_map_put_def)
next
  case (Some t)
  show ?thesis
  proof (cases "map_search (nm_keys m) t 0")
    case None
    with assms Some show ?thesis
      by (auto simp: ncl_node_map_put_def map_ok_def Let_def ncl_strdup_def intro!: list_all2_appendI split: option.split)
  next
    case (Some j)
    from map_search_Some [OF this] have j: "j < length (nm_keys m)" "nm_keys m ! j = t" by auto
    with Some \<open>k = Some t\<close> assms show ?thesis
      by (auto simp: ncl_node_map_put_def map_ok_def list_all2_conv_all_nth nth_list_update)
  qed
qed

lemma map_put_if:
  "\<lbrakk>map_ok root key m; fields_at root p = Some f\<rbrakk> \<Longrightarrow> map_ok root key (if key f \<noteq> None then snd (ncl_node_map_put g m (key f) p) else m)"
  by (simp only: map_put_ok if_cancel split: if_split) simp

lemma map_get_ok: "\<lbrakk>map_ok root key m; ncl_node_map_get m k = Some p\<rbrakk> \<Longrightarrow> \<exists>f. fields_at root p = Some f \<and> key f = k"
  by (auto simp: ncl_node_map_get_def map_ok_def list_all2_conv_all_nth split: option.splits dest!: map_search_Some)

lemma put_paths_ok:
  "\<lbrakk>map_ok root ncl_node_path m; \<And>k. k < length ns \<Longrightarrow> fields_at root (p @ [(slot, i + k)]) = Some (nf (ns ! k))\<rbrakk> \<Longrightarrow>
     map_ok root ncl_node_path (put_paths g p slot i ns m)"
proof (induction ns arbitrary: i m)
  case (Cons n ns)
  have "map_ok root ncl_node_path (if ncl_node_path (nf n) \<noteq> None then snd (ncl_node_map_put g m (ncl_node_path (nf n)) (p @ [(slot, i)])) else m)"
    using Cons.prems(2) [of 0] by (intro map_put_if Cons.prems(1)) simp
  moreover have "fields_at root (p @ [(slot, Suc i + k)]) = Some (nf (ns ! k))" if "k < length ns" for k
    using Cons.prems(2) [of "Suc k"] that by simp
  ultimately show ?case using Cons.IH [where i = "Suc i"] by simp
qed simp

lemma node_at_child: "\<lbrakk>node_at root p = Some n; i < length (children s n)\<rbrakk> \<Longrightarrow> node_at root (p @ [(s, i)]) = Some (children s n ! i)"
  by (simp add: node_at_append)

lemma collect_ok:
  fixes n root :: "'v ncl_node" and ns :: "'v ncl_node list"
  shows "\<lbrakk>map_ok root ncl_node_path m; node_at root p = Some n\<rbrakk> \<Longrightarrow> map_ok root ncl_node_path (ncl_node_collect_paths g p n m)"
    and "\<lbrakk>map_ok root ncl_node_path m; \<And>k. k < length ns \<Longrightarrow> node_at root (p @ [(In_Components, i + k)]) = Some (ns ! k)\<rbrakk> \<Longrightarrow>
      map_ok root ncl_node_path (collect_components g p i ns m)"
proof (induction g p n m and g p i ns m rule: ncl_node_collect_paths_collect_components.induct)
  case (1 g p f cs ds ms vs m)
  note at = node_at_child [OF 1(3)]
  from 1 at [of _ In_Components] have "map_ok root ncl_node_path (collect_components g p 0 ms m)" by simp
  then have "map_ok root ncl_node_path (put_paths g p In_Data_Items 0 ds (put_paths g p In_Configs 0 cs (collect_components g p 0 ms m)))"
    using at [of _ In_Configs] at [of _ In_Data_Items] by (intro put_paths_ok) (simp_all add: fields_at_def)
  with \<open>map_ok root ncl_node_path (collect_components g p 0 ms m)\<close> show ?case by (simp add: Let_def)
next
  case (3 g p i n ns m)
  have n: "node_at root (p @ [(In_Components, i)]) = Some n" using 3(4) [of 0] by simp
  then have "map_ok root ncl_node_path (if ncl_node_path (nf n) \<noteq> None
          then snd (ncl_node_map_put g m (ncl_node_path (nf n)) (p @ [(In_Components, i)])) else m)"
    by (intro map_put_if 3(3)) (simp add: fields_at_def)
  from 3(1) [OF this n] 3(2) 3(4) [of "Suc _"] show ?case by simp
qed simp

lemma devices_ok:
  "\<lbrakk>map_ok root ncl_node_path m; \<And>k. k < length ns \<Longrightarrow> node_at root [(In_Devices, i + k)] = Some (ns ! k)\<rbrakk> \<Longrightarrow>
     map_ok root ncl_node_path (collect_devices g i ns m)"
proof (induction ns arbitrary: i m)
  case (Cons n ns)
  have n: "node_at root [(In_Devices, i)] = Some n" using Cons.prems(2) [of 0] by simp
  from collect_ok(1) [OF Cons.prems(1) n] have "map_ok root ncl_node_path (if ncl_node_path (nf n) \<noteq> None
      then snd (ncl_node_map_put g (ncl_node_collect_paths g [(In_Devices, i)] n m) (ncl_node_path (nf n)) [(In_Devices, i)])
      else ncl_node_collect_paths g [(In_Devices, i)] n m)"
    by (intro map_put_if) (simp_all add: fields_at_def n del: node_at.simps)
  moreover have "node_at root [(In_Devices, Suc i + k)] = Some (ns ! k)" if "k < length ns" for k
    using Cons.prems(2) [of "Suc k"] that by simp
  ultimately show ?case using Cons.IH [where i = "Suc i"] by (simp add: Let_def)
qed simp

lemma path_map_ok: "map_ok root ncl_node_path (ncl_root_node_path_map g root ncl_node_map_init)"
  unfolding ncl_root_node_path_map_def
  by (intro put_paths_ok devices_ok map_ok_init) (simp_all add: fields_at_def)

lemma put_ids_ok: "map_ok root nd_id m \<Longrightarrow> map_ok root nd_id (put_ids g root ps m)"
  by (induction ps arbitrary: m) (auto simp: fields_at_def map_put_ok split: option.split)

lemma config_ids_ok:
  "\<lbrakk>map_ok root nd_id m; \<And>k. k < length ns \<Longrightarrow> fields_at root [(In_Devices, i), (In_Configs, j + k)] = Some (nf (ns ! k))\<rbrakk> \<Longrightarrow>
     map_ok root nd_id (put_config_ids g i j ns m)"
proof (induction ns arbitrary: j m)
  case (Cons n ns)
  have n: "fields_at root [(In_Devices, i), (In_Configs, j)] = Some (nf n)" using Cons.prems(2) [of 0] by simp
  have "map_ok root nd_id (if nd_id (nf n) \<noteq> None \<and> ncl_node_map_get m (nd_id (nf n)) = None
        then snd (ncl_node_map_put g m (nd_id (nf n)) [(In_Devices, i), (In_Configs, j)]) else m)"
    using map_put_if [OF Cons.prems(1) n, of g] Cons.prems(1) by auto
  moreover have "fields_at root [(In_Devices, i), (In_Configs, Suc j + k)] = Some (nf (ns ! k))" if "k < length ns" for k
    using Cons.prems(2) [of "Suc k"] that by simp
  ultimately show ?case using Cons.IH [where j = "Suc j"] by simp
qed simp

lemma device_ids_ok:
  "\<lbrakk>map_ok root nd_id m; \<And>k. k < length ns \<Longrightarrow> node_at root [(In_Devices, i + k)] = Some (ns ! k)\<rbrakk> \<Longrightarrow>
     map_ok root nd_id (put_device_ids g i ns m)"
proof (induction ns arbitrary: i m)
  case (Cons n ns)
  have n: "node_at root [(In_Devices, i)] = Some n" using Cons.prems(2) [of 0] by simp
  have "fields_at root [(In_Devices, i), (In_Configs, 0 + k)] = Some (nf (configs n ! k))" if "k < length (configs n)" for k
    using node_at_child [OF n, of k In_Configs] that by (simp add: fields_at_def)
  from config_ids_ok [OF Cons.prems(1) this] have "map_ok root nd_id (put_config_ids g i 0 (configs n) m)" by simp
  moreover have "node_at root [(In_Devices, Suc i + k)] = Some (ns ! k)" if "k < length ns" for k
    using Cons.prems(2) [of "Suc k"] that by simp
  ultimately show ?case using Cons.IH [where i = "Suc i"] by simp
qed simp

lemma id_map_ok: "map_ok root nd_id (ncl_root_node_id_map g root ncl_node_map_init)"
  unfolding ncl_root_node_id_map_def
  by (intro device_ids_ok put_ids_ok map_ok_init) simp

section \<open>Binding\<close>

definition node_keys :: "'v node_fields \<Rightarrow> ncl_node_type \<times> string option \<times> string option" where
  "node_keys f = (nd_type f, nd_id f, nd_path f)"

definition same_keys :: "'v ncl_node \<Rightarrow> 'v ncl_node \<Rightarrow> bool" where
  "same_keys r1 r2 \<longleftrightarrow> (\<forall>p. map_option node_keys (fields_at r1 p) = map_option node_keys (fields_at r2 p))"

text \<open>A sample item that is bound below a root, to a data item or config with its id or path.\<close>

definition bound :: "'v ncl_node \<Rightarrow> sample_ref option \<Rightarrow> bool" where
  "bound root x \<longleftrightarrow> (\<exists>ref pos f. x = Some ref \<and> sr_node ref = Some pos \<and> fields_at root pos = Some f
     \<and> nd_type f \<in> {NCL_NODE_DATA_ITEM, NCL_NODE_CONFIG} \<and> sr_id ref \<in> {nd_id f, ncl_node_path f})"

lemma bound_same:
  assumes "same_keys r1 r2" "bound r1 x"
  shows "bound r2 x"
proof -
  from assms(2) obtain ref pos f where f: "x = Some ref" "sr_node ref = Some pos" "fields_at r1 pos = Some f"
     "nd_type f \<in> {NCL_NODE_DATA_ITEM, NCL_NODE_CONFIG}" "sr_id ref \<in> {nd_id f, ncl_node_path f}" by (auto simp: bound_def)
  with assms(1) have "map_option node_keys (fields_at r2 pos) = Some (node_keys f)" by (metis same_keys_def option.map)
  then obtain f2 where "fields_at r2 pos = Some f2" "node_keys f2 = node_keys f" by blast
  with f show ?thesis by (auto simp: bound_def node_keys_def ncl_node_path_def)
qed

text \<open>Validity of a sample item depends on its id and parameters only.\<close>

lemma valid_ref_bound: "ncl_sample_ref_is_valid (Some (ref\<lparr>sr_node := p, sr_path := q\<rparr>)) = ncl_sample_ref_is_valid (Some ref)"
  by (simp add: ncl_sample_ref_is_valid_def)

lemma bind_refs_ok:
  assumes "map_ok root nd_id im" "map_ok root ncl_node_path pm"
  shows "bind_refs root im pm rs = (True, rs1) \<Longrightarrow> list_all (bound root) rs1
    \<and> map ncl_sample_ref_is_valid rs1 = map ncl_sample_ref_is_valid rs"
proof (induction rs arbitrary: rs1)
  case (Cons r rs)
  from Cons.prems obtain ref pos f rs2 where b: "r = Some ref"
      "or_else (ncl_node_map_get im (sr_id ref)) (ncl_node_map_get pm (sr_id ref)) = Some pos"
      "map_option nf (node_at root pos) = Some f" "nd_type f = NCL_NODE_DATA_ITEM \<or> nd_type f = NCL_NODE_CONFIG"
      "bind_refs root im pm rs = (True, rs2)" "rs1 = Some (ref\<lparr>sr_node := Some pos, sr_path := None\<rparr>) # rs2"
    by (auto split: option.splits if_splits prod.splits)
  have "sr_id ref \<in> {nd_id f, ncl_node_path f}"
    using b(2,3) map_get_ok [OF assms(1), of "sr_id ref" pos] map_get_ok [OF assms(2), of "sr_id ref" pos]
    by (auto simp: or_else_def fields_at_def split: option.splits)
  with b Cons.IH [OF b(5)] show ?case by (auto simp: bound_def fields_at_def valid_ref_bound)
qed simp

lemma bind_items_ok:
  assumes "ncl_config_bind_sample_items g root f = (True, f1)"
  shows "list_all (bound root) (pv_items (nd_sample_items f1))
    \<and> map ncl_sample_ref_is_valid (pv_items (nd_sample_items f1)) = map ncl_sample_ref_is_valid (pv_items (nd_sample_items f))
    \<and> (\<exists>v. f1 = f\<lparr>nd_sample_items := v\<rparr>)"
  using assms bind_refs_ok [OF id_map_ok path_map_ok, of root g g "pv_items (nd_sample_items f)"]
  by (auto simp: ncl_config_bind_sample_items_def split: if_splits prod.splits)

text \<open>A sample channel that the code binds.\<close>

definition to_bind :: "'v node_fields \<Rightarrow> bool" where
  "to_bind f \<longleftrightarrow> nd_type f = NCL_NODE_CONFIG \<and> nd_id f \<noteq> None \<and> ncl_node_is_sample_node f \<and> ncl_config_is_valid_sample_channel f"

lemma to_bind_valid: "nd_type (nf n) = NCL_NODE_CONFIG \<Longrightarrow> to_bind (nf n) \<longleftrightarrow> ncl_node_is_valid n \<and> ncl_node_is_sample_node (nf n)"
  by (cases n) (auto simp: to_bind_def ncl_node_is_sample_node_def)

text \<open>What binding one config does to the fields at every position.\<close>

lemma bind_config_ok:
  assumes "bind_config g p root = Some root1"
  shows "same_keys root root1 \<and> (\<forall>q. q \<noteq> p \<longrightarrow> fields_at root1 q = fields_at root q)
    \<and> (\<forall>f. fields_at root1 p = Some f \<longrightarrow> to_bind f \<longrightarrow> list_all (bound root1) (pv_items (nd_sample_items f)))"
proof -
  let ?r = "node_update p sample_default root"
  have keys: "node_keys (sample_default f) = node_keys f" for f :: "'a node_fields" by (simp add: sample_default_def node_keys_def)
  have r: "fields_at ?r q = (if q = p then map_option sample_default (fields_at root q) else fields_at root q)" for q
    by (rule fields_at_update)
  then have same: "same_keys root ?r" by (auto simp: same_keys_def option.map_comp comp_def keys)
  show ?thesis
  proof (cases "node_at ?r p")
    case None
    with assms have "root1 = root" by (simp add: bind_config_def)
    moreover have "fields_at root p = None" using r [of p] None by (simp add: fields_at_def)
    ultimately show ?thesis by (simp add: same_keys_def)
  next
    case (Some c)
    then have at: "fields_at ?r p = Some (nf c)" by (simp add: fields_at_def)
    show ?thesis
    proof (cases "ncl_node_is_valid c \<and> ncl_node_is_sample_node (nf c)")
      case False
      with assms Some have "root1 = ?r" by (simp add: bind_config_def)
      with False at same r to_bind_valid [of c] show ?thesis by (auto simp: to_bind_def)
    next
      case True
      with assms Some obtain f where f: "ncl_config_bind_sample_items g ?r (nf c) = (True, f)" "root1 = node_update p (\<lambda>_. f) ?r"
        by (auto simp: bind_config_def Let_def split: prod.splits if_splits)
      from bind_items_ok [OF f(1)] have b: "list_all (bound ?r) (pv_items (nd_sample_items f))" "\<exists>v. f = (nf c)\<lparr>nd_sample_items := v\<rparr>" by auto
      have r1: "fields_at root1 q = (if q = p then Some f else fields_at root q)" for q
        using at by (auto simp: f(2) fields_at_update r)
      have "same_keys ?r root1"
        using at b(2) by (auto simp: same_keys_def r1 r node_keys_def)
      then have "same_keys root root1" "list_all (bound root1) (pv_items (nd_sample_items f))"
        using same b(1) bound_same [of ?r root1] by (simp add: same_keys_def, simp add: list_all_iff)
      with r1 show ?thesis by auto
    qed
  qed
qed

lemma bind_all_ok:
  "bind_all g ps root = Some root1 \<Longrightarrow> same_keys root root1 \<and> (\<forall>q. q \<notin> set ps \<longrightarrow> fields_at root1 q = fields_at root q)
     \<and> (\<forall>q \<in> set ps. \<forall>f. fields_at root1 q = Some f \<longrightarrow> to_bind f \<longrightarrow> list_all (bound root1) (pv_items (nd_sample_items f)))"
proof (induction ps arbitrary: root)
  case (Cons p ps)
  then obtain r where r: "bind_config g p root = Some r" "bind_all g ps r = Some root1" by (auto split: option.splits)
  note step = bind_config_ok [OF r(1)] and rest = Cons.IH [OF r(2)]
  have same: "same_keys root root1" using step rest by (auto simp: same_keys_def)
  moreover have "list_all (bound root1) (pv_items (nd_sample_items f))"
    if "q \<in> set (p # ps)" "fields_at root1 q = Some f" "to_bind f" for q f
  proof (cases "q \<in> set ps")
    case False
    with that rest have "q = p" "fields_at r p = Some f" by auto
    with step that(3) have "list_all (bound r) (pv_items (nd_sample_items f))" by blast
    with rest bound_same show ?thesis by (auto simp: list_all_iff)
  qed (use rest that in blast)
  ultimately show ?case using step rest by auto
qed (simp add: same_keys_def)

lemma device_configs_at: "fields_at root [(In_Devices, i), (In_Configs, j)] = Some f \<Longrightarrow> [(In_Devices, i), (In_Configs, j)] \<in> set (device_configs root)"
  by (force simp: device_configs_def split: if_splits)

text \<open>
  C9. When a root node is constructed, every sample channel of a device is resolved: if
  \<open>ncl_root_node_post_construct\<close> succeeds, then every item of a valid sample channel of a device
  points to a data item or a config of the tree whose id, or else whose path, is the id of the
  item - whatever allocations failed on the way.
\<close>

theorem post_construct_binds:
  assumes "ncl_root_node_post_construct g root = Some r"
    and "i < length (devices r)" "j < length (configs (devices r ! i))" "c = configs (devices r ! i) ! j"
    and "nd_type (nf c) = NCL_NODE_CONFIG" "ncl_node_is_valid c" "ncl_node_is_sample_node (nf c)"
    and "x \<in> set (pv_items (nd_sample_items (nf c)))"
  shows "\<exists>ref pos m. x = Some ref \<and> sr_node ref = Some pos \<and> node_at r pos = Some m
    \<and> nd_type (nf m) \<in> {NCL_NODE_DATA_ITEM, NCL_NODE_CONFIG} \<and> sr_id ref \<in> {nd_id (nf m), ncl_node_path (nf m)}"
proof -
  from assms(1) obtain r0 where r0: "bind_all g (device_configs r0) r0 = Some r"
    by (auto simp: ncl_root_node_post_construct_def Let_def split: if_splits option.splits prod.splits)
  note ok = bind_all_ok [OF this]
  have at: "fields_at r [(In_Devices, i), (In_Configs, j)] = Some (nf c)" using assms(2-4) by simp
  then have "fields_at r0 [(In_Devices, i), (In_Configs, j)] \<noteq> None" using ok by (metis same_keys_def option.map_disc_iff option.distinct(1))
  then obtain f0 where "fields_at r0 [(In_Devices, i), (In_Configs, j)] = Some f0" by blast
  from device_configs_at [OF this] at ok to_bind_valid [OF assms(5)] assms(6,7)
  have "list_all (bound r) (pv_items (nd_sample_items (nf c)))" by blast
  with assms(8) have "bound r x" by (simp add: list_all_iff)
  then show ?thesis by (auto simp: bound_def fields_at_def)
qed


text \<open>A root with one device, a data item and a sample channel with two items: one by id, one by path.\<close>

definition channel_item :: "string \<Rightarrow> sample_ref option" where
  "channel_item s = Some \<lparr>sr_id = Some s, sr_params = None, sr_node = None, sr_path = None\<rparr>"

definition channel_root :: "unit ncl_node" where
  "channel_root =
     Ncl_Node (blank_fields NCL_NODE_ROOT) [] [] []
      [Ncl_Node ((blank_fields NCL_NODE_DEVICE)\<lparr>nd_id := Some ''02'', nd_type_name := Some ''M''\<rparr>)
        [Ncl_Node ((blank_fields NCL_NODE_CONFIG)\<lparr>nd_id := Some ''c1'', nd_type_name := Some ''SAMPLE_CHANNEL'',
            nd_has_upload_interval := True, nd_upload_interval := 100,
            nd_sample_items := \<lparr>pv_items = [channel_item ''d1'', channel_item ''/M/S''], pv_cap = 8, pv_free = True\<rparr>\<rparr>) [] [] [] []]
        [Ncl_Node ((blank_fields NCL_NODE_DATA_ITEM)\<lparr>nd_id := Some ''d1'', nd_type_name := Some ''S''\<rparr>) [] [] [] []] [] []]"

lemma channel_bound: "case ncl_root_node_post_construct grant_all channel_root of
    None \<Rightarrow> False
  | Some r \<Rightarrow> 0 < length (devices r) \<and> 0 < length (configs (devices r ! 0))
    \<and> (let c = configs (devices r ! 0) ! 0 in nd_type (nf c) = NCL_NODE_CONFIG \<and> ncl_node_is_valid c \<and> ncl_node_is_sample_node (nf c)
        \<and> length (pv_items (nd_sample_items (nf c))) = 2)"
  by code_simp

lemma post_construct_binds_witness:
  "\<exists>r x ref pos m. ncl_root_node_post_construct grant_all channel_root = Some r
    \<and> x = pv_items (nd_sample_items (nf (configs (devices r ! 0) ! 0))) ! 1 \<and> x = Some ref
    \<and> sr_node ref = Some pos \<and> node_at r pos = Some m
    \<and> nd_type (nf m) \<in> {NCL_NODE_DATA_ITEM, NCL_NODE_CONFIG} \<and> sr_id ref \<in> {nd_id (nf m), ncl_node_path (nf m)}"
proof -
  obtain r where r: "ncl_root_node_post_construct grant_all channel_root = Some r"
    "0 < length (devices r)" "0 < length (configs (devices r ! 0))"
    "nd_type (nf (configs (devices r ! 0) ! 0)) = NCL_NODE_CONFIG" "ncl_node_is_valid (configs (devices r ! 0) ! 0)"
    "ncl_node_is_sample_node (nf (configs (devices r ! 0) ! 0))"
    "1 < length (pv_items (nd_sample_items (nf (configs (devices r ! 0) ! 0))))"
    using channel_bound that by (simp add: Let_def split: option.splits)
  from post_construct_binds [OF r(1-3) refl r(4-6) nth_mem [OF r(7)]] r(1) show ?thesis by blast
qed

end
