(* ===== verification/Message_Items.thy ===== *)
theory Message_Items
  imports General_Topic Model_Json
begin

text \<open>
  \<^verbatim>\<open>stack/src/message/items.c\<close>: the kinds of messages, the items of queries, settings and samples, and
  the parameters they carry. NULL items and NULL places for a result, which the functions turn away
  before they do anything, are left out; number caches are not threaded through.
\<close>

section \<open>Kinds of messages\<close>

datatype ncl_msg_type =
    NCL_MSG_UNKNOWN | NCL_MSG_PING | NCL_MSG_PONG | NCL_MSG_PROBE_VERSION | NCL_MSG_REGISTER_REQUEST
  | NCL_MSG_REGISTER_RESPONSE | NCL_MSG_QUERY_REQUEST | NCL_MSG_QUERY_RESPONSE | NCL_MSG_SET_REQUEST
  | NCL_MSG_SET_RESPONSE | NCL_MSG_PROBE_QUERY_REQUEST | NCL_MSG_PROBE_QUERY_RESPONSE | NCL_MSG_PROBE_SET_REQUEST
  | NCL_MSG_PROBE_SET_RESPONSE | NCL_MSG_SAMPLE | NCL_MSG_EVENT | NCL_MSG_METHOD_CALL_REQUEST
  | NCL_MSG_METHOD_CALL_RESPONSE | NCL_MSG_METHOD_STATUS_REQUEST | NCL_MSG_METHOD_STATUS_RESPONSE
  | NCL_MSG_METHOD_RESULT_REQUEST | NCL_MSG_METHOD_RESULT_RESPONSE

fun ncl_msg_type_name :: "ncl_msg_type \<Rightarrow> string" where
  "ncl_msg_type_name NCL_MSG_PING = ''Ping''"
| "ncl_msg_type_name NCL_MSG_PONG = ''Pong''"
| "ncl_msg_type_name NCL_MSG_PROBE_VERSION = ''ProbeVersion''"
| "ncl_msg_type_name NCL_MSG_REGISTER_REQUEST = ''RegisterRequest''"
| "ncl_msg_type_name NCL_MSG_REGISTER_RESPONSE = ''RegisterResponse''"
| "ncl_msg_type_name NCL_MSG_QUERY_REQUEST = ''QueryRequest''"
| "ncl_msg_type_name NCL_MSG_QUERY_RESPONSE = ''QueryResponse''"
| "ncl_msg_type_name NCL_MSG_SET_REQUEST = ''SetRequest''"
| "ncl_msg_type_name NCL_MSG_SET_RESPONSE = ''SetResponse''"
| "ncl_msg_type_name NCL_MSG_PROBE_QUERY_REQUEST = ''ProbeQueryRequest''"
| "ncl_msg_type_name NCL_MSG_PROBE_QUERY_RESPONSE = ''ProbeQueryResponse''"
| "ncl_msg_type_name NCL_MSG_PROBE_SET_REQUEST = ''ProbeSetRequest''"
| "ncl_msg_type_name NCL_MSG_PROBE_SET_RESPONSE = ''ProbeSetResponse''"
| "ncl_msg_type_name NCL_MSG_SAMPLE = ''Sample''"
| "ncl_msg_type_name NCL_MSG_EVENT = ''Event''"
| "ncl_msg_type_name NCL_MSG_METHOD_CALL_REQUEST = ''MethodCallRequest''"
| "ncl_msg_type_name NCL_MSG_METHOD_CALL_RESPONSE = ''MethodCallResponse''"
| "ncl_msg_type_name NCL_MSG_METHOD_STATUS_REQUEST = ''MethodStatusRequest''"
| "ncl_msg_type_name NCL_MSG_METHOD_STATUS_RESPONSE = ''MethodStatusResponse''"
| "ncl_msg_type_name NCL_MSG_METHOD_RESULT_REQUEST = ''MethodResultRequest''"
| "ncl_msg_type_name NCL_MSG_METHOD_RESULT_RESPONSE = ''MethodResultResponse''"
| "ncl_msg_type_name NCL_MSG_UNKNOWN = ''Unknown''"

text \<open>The prefixes in the order in which they are tried.\<close>

definition topic_types :: "(string \<times> ncl_msg_type) list" where
  "topic_types =
     [(topic_prefix Query_Response, NCL_MSG_QUERY_RESPONSE), (topic_prefix Query_Request, NCL_MSG_QUERY_REQUEST),
      (topic_prefix Probe_Query_Response, NCL_MSG_PROBE_QUERY_RESPONSE), (topic_prefix Probe_Query_Request, NCL_MSG_PROBE_QUERY_REQUEST),
      (topic_prefix Set_Response, NCL_MSG_SET_RESPONSE), (topic_prefix Set_Request, NCL_MSG_SET_REQUEST),
      (topic_prefix Probe_Set_Response, NCL_MSG_PROBE_SET_RESPONSE), (topic_prefix Probe_Set_Request, NCL_MSG_PROBE_SET_REQUEST),
      (topic_prefix Method_Call_Response, NCL_MSG_METHOD_CALL_RESPONSE), (topic_prefix Method_Call_Request, NCL_MSG_METHOD_CALL_REQUEST),
      (topic_prefix Method_Status_Response, NCL_MSG_METHOD_STATUS_RESPONSE), (topic_prefix Method_Status_Request, NCL_MSG_METHOD_STATUS_REQUEST),
      (topic_prefix Method_Result_Response, NCL_MSG_METHOD_RESULT_RESPONSE), (topic_prefix Method_Result_Request, NCL_MSG_METHOD_RESULT_REQUEST),
      (topic_prefix Ping, NCL_MSG_PING), (topic_prefix Pong, NCL_MSG_PONG), (''Register/Request'', NCL_MSG_REGISTER_REQUEST),
      (topic_prefix Sample, NCL_MSG_SAMPLE), (topic_prefix Event, NCL_MSG_EVENT)]"

fun first_prefix :: "(string \<times> ncl_msg_type) list \<Rightarrow> string option \<Rightarrow> ncl_msg_type" where
  "first_prefix [] topic = NCL_MSG_UNKNOWN"
| "first_prefix ((p, t) # ps) topic = (if ncl_str_starts_with topic (Some p) then t else first_prefix ps topic)"

definition ncl_msg_type_from_topic :: "string option \<Rightarrow> ncl_msg_type" where
  "ncl_msg_type_from_topic topic = (if topic = None then NCL_MSG_UNKNOWN else first_prefix topic_types topic)"

section \<open>Parameters\<close>

definition ncl_params_operation :: "'d json option \<Rightarrow> string option \<Rightarrow> string option" where
  "ncl_params_operation params fallback =
     (if ncl_json_obj_get_string params (Some ''operation'') \<noteq> None
      then ncl_json_obj_get_string params (Some ''operation'') else fallback)"

definition ncl_params_has :: "'d json option \<Rightarrow> string option \<Rightarrow> bool" where
  "ncl_params_has params key = ncl_json_obj_has params key"

definition ncl_params_string :: "'d json option \<Rightarrow> string option \<Rightarrow> string option" where
  "ncl_params_string params key = ncl_json_obj_get_string params key"

definition ncl_params_int :: "'d double_ops \<Rightarrow> 'd json option \<Rightarrow> string option \<Rightarrow> int option" where
  "ncl_params_int ops params key = fst (ncl_json_as_int ops (ncl_json_obj_get params key))"

definition ncl_params_get :: "'d json option \<Rightarrow> string option \<Rightarrow> 'd json option" where
  "ncl_params_get params key = ncl_json_obj_get params key"

definition ncl_params_ensure :: "grant \<Rightarrow> 'd json option \<Rightarrow> ncl_err \<times> 'd json option" where
  "ncl_params_ensure g params =
     (case params of
        Some p \<Rightarrow> (NCL_OK, Some p)
      | None \<Rightarrow> (case ncl_json_new_object g of None \<Rightarrow> (NCL_ERR_NOMEM, None) | Some p \<Rightarrow> (NCL_OK, Some p)))"

definition ncl_params_set :: "grant \<Rightarrow> 'd json option \<Rightarrow> string option \<Rightarrow> 'd json option \<Rightarrow> ncl_err \<times> 'd json option" where
  "ncl_params_set g params key value =
     (case ncl_params_ensure g params of
        (rc, p) \<Rightarrow> if rc \<noteq> NCL_OK then (rc, p) else ncl_json_obj_set g p key value)"

definition ncl_params_set_string :: "grant \<Rightarrow> 'd json option \<Rightarrow> string option \<Rightarrow> string option \<Rightarrow> ncl_err \<times> 'd json option" where
  "ncl_params_set_string g params key value =
     (if value = None then (NCL_OK, params) else ncl_params_set g params key (ncl_json_new_string g value))"

definition ncl_params_set_int :: "grant \<Rightarrow> 'd double_ops \<Rightarrow> 'd json option \<Rightarrow> string option \<Rightarrow> int \<Rightarrow> ncl_err \<times> 'd json option" where
  "ncl_params_set_int g ops params key value = ncl_params_set g params key (ncl_json_new_int g ops value)"

text \<open>The array under the key is changed where it is: it is put back over itself.\<close>

definition push_member :: "grant \<Rightarrow> 'd json option \<Rightarrow> string option \<Rightarrow> string option \<Rightarrow> ncl_err \<times> 'd json option" where
  "push_member g params key value =
     (case ncl_json_arr_push g (ncl_json_obj_get params key) (ncl_json_new_string g value) of
        (rc, arr) \<Rightarrow> (rc, put_child params key arr))"

definition ncl_params_append_string :: "grant \<Rightarrow> 'd json option \<Rightarrow> string option \<Rightarrow> string option \<Rightarrow> ncl_err \<times> 'd json option" where
  "ncl_params_append_string g params key value =
     (case ncl_params_ensure g params of
        (rc, p) \<Rightarrow>
          if rc \<noteq> NCL_OK then (rc, p)
          else if ncl_json_obj_get p key \<noteq> None then push_member g p key value
          else (case ncl_json_new_array g of
                  None \<Rightarrow> (NCL_ERR_NOMEM, p)
                | Some arr \<Rightarrow>
                    (case ncl_json_obj_set g p key (Some arr) of
                       (rc, p1) \<Rightarrow> if rc \<noteq> NCL_OK then (NCL_ERR_NOMEM, p1) else push_member g p1 key value)))"

text \<open>The numbers of one entry: two if there is a dash in it, cut at the first one.\<close>

definition index_numbers :: "string \<Rightarrow> int list" where
  "index_numbers t =
     (if CHR ''-'' \<in> set t
      then [fst (strtoll (takeWhile (\<lambda>c. c \<noteq> CHR ''-'') t)), fst (strtoll (drop 1 (dropWhile (\<lambda>c. c \<noteq> CHR ''-'') t)))]
      else [fst (strtoll t)])"

definition LONG_SIZE :: nat where
  "LONG_SIZE = 8"

definition ncl_params_indexes :: "grant \<Rightarrow> 'd double_ops \<Rightarrow> 'd json option \<Rightarrow> ncl_err + int list" where
  "ncl_params_indexes g ops params =
     (let arr = ncl_json_obj_get params (Some ''indexes'')
      in if ncl_json_type_of arr \<noteq> NCL_JSON_ARRAY then Inl NCL_ERR_NOT_FOUND
         else (let numbers = concat (map (\<lambda>x. case ncl_json_as_text g ops (Some x) of None \<Rightarrow> [] | Some t \<Rightarrow> index_numbers t) (items arr))
               in if numbers = [] then Inl NCL_ERR_NOT_FOUND
                  else if g (length numbers * LONG_SIZE) then Inr numbers else Inl NCL_ERR_NOMEM))"

section \<open>Requests\<close>

text \<open>Items of queries and of settings have the same two fields.\<close>

record 'd request_item =
  qi_id :: "string option"
  qi_params :: "'d json option"

definition REQUEST_ITEM_SIZE :: nat where
  "REQUEST_ITEM_SIZE = 16"

definition ncl_query_request_item_new :: "grant \<Rightarrow> string option \<Rightarrow> 'd request_item option" where
  "ncl_query_request_item_new g name =
     (if \<not> g REQUEST_ITEM_SIZE then None
      else if name \<noteq> None \<and> ncl_strdup g name = None then None
      else Some \<lparr>qi_id = ncl_strdup g name, qi_params = None\<rparr>)"

definition ncl_query_request_item_is_valid :: "'d request_item \<Rightarrow> bool" where
  "ncl_query_request_item_is_valid item \<longleftrightarrow> \<not> ncl_str_is_empty (qi_id item)"

definition ncl_query_request_item_operation :: "'d request_item \<Rightarrow> string option" where
  "ncl_query_request_item_operation item = ncl_params_operation (qi_params item) (Some ''get_value'')"

definition ncl_query_request_item_indexes :: "grant \<Rightarrow> 'd double_ops \<Rightarrow> 'd request_item \<Rightarrow> ncl_err + int list" where
  "ncl_query_request_item_indexes g ops item = ncl_params_indexes g ops (qi_params item)"

definition ncl_set_request_item_new :: "grant \<Rightarrow> string option \<Rightarrow> 'd request_item option" where
  "ncl_set_request_item_new g name =
     (if \<not> g REQUEST_ITEM_SIZE then None
      else if name \<noteq> None \<and> ncl_strdup g name = None then None
      else Some \<lparr>qi_id = ncl_strdup g name, qi_params = None\<rparr>)"

definition ncl_set_request_item_is_valid :: "'d request_item \<Rightarrow> bool" where
  "ncl_set_request_item_is_valid item \<longleftrightarrow> \<not> ncl_str_is_empty (qi_id item)"

definition ncl_set_request_item_operation :: "'d request_item \<Rightarrow> string option" where
  "ncl_set_request_item_operation item = ncl_params_operation (qi_params item) (Some ''set_value'')"

section \<open>Responses\<close>

record 'd query_response_item =
  qr_id :: "string option"
  qr_code :: "string option"
  qr_reason :: "string option"
  qr_params :: "'d json option"
  qr_values :: "'d json option"

definition RESPONSE_ITEM_SIZE :: nat where
  "RESPONSE_ITEM_SIZE = 40"

definition ncl_query_response_item_new :: "grant \<Rightarrow> string option \<Rightarrow> 'd query_response_item option" where
  "ncl_query_response_item_new g name =
     (if \<not> g RESPONSE_ITEM_SIZE then None
      else case ncl_json_new_array g of
        None \<Rightarrow> None
      | Some arr \<Rightarrow>
          if name \<noteq> None \<and> ncl_strdup g name = None then None
          else Some \<lparr>qr_id = ncl_strdup g name, qr_code = None, qr_reason = None, qr_params = None, qr_values = Some arr\<rparr>)"

definition ncl_query_response_item_is_valid :: "'d query_response_item \<Rightarrow> bool" where
  "ncl_query_response_item_is_valid item \<longleftrightarrow> \<not> ncl_str_is_empty (qr_id item) \<and> ncl_check_is_code_valid (qr_code item)"

definition ncl_query_response_item_operation :: "'d query_response_item \<Rightarrow> string option" where
  "ncl_query_response_item_operation item = ncl_params_operation (qr_params item) (Some ''get_value'')"

definition ncl_query_response_item_has_data :: "'d query_response_item \<Rightarrow> bool" where
  "ncl_query_response_item_has_data item =
     (if qr_code item = None \<or> qr_code item = Some NCL_KW_CODE_NG then False else ncl_json_arr_len (qr_values item) > 0)"

definition ncl_query_response_item_data :: "'d query_response_item \<Rightarrow> 'd json option" where
  "ncl_query_response_item_data item =
     (if ncl_json_arr_len (qr_values item) = 0 then None else ncl_json_arr_get (qr_values item) 0)"

text \<open>Adding to an array that is created when there is none.\<close>

definition add_to :: "grant \<Rightarrow> 'd json option \<Rightarrow> 'd json option \<Rightarrow> ncl_err \<times> 'd json option" where
  "add_to g arr value =
     (case arr of
        Some a \<Rightarrow> ncl_json_arr_push g (Some a) value
      | None \<Rightarrow> (case ncl_json_new_array g of None \<Rightarrow> (NCL_ERR_NOMEM, None) | Some a \<Rightarrow> ncl_json_arr_push g (Some a) value))"

definition ncl_query_response_item_add_value ::
  "grant \<Rightarrow> 'd query_response_item \<Rightarrow> 'd json option \<Rightarrow> ncl_err \<times> 'd query_response_item" where
  "ncl_query_response_item_add_value g item value =
     (case add_to g (qr_values item) value of (rc, arr) \<Rightarrow> (rc, item\<lparr>qr_values := arr\<rparr>))"

record 'd set_response_item =
  so_id :: "string option"
  so_code :: "string option"
  so_reason :: "string option"
  so_params :: "'d json option"
  so_result :: "'d json option"

definition ncl_set_response_item_new :: "grant \<Rightarrow> string option \<Rightarrow> 'd set_response_item option" where
  "ncl_set_response_item_new g name =
     (if \<not> g RESPONSE_ITEM_SIZE then None
      else if name \<noteq> None \<and> ncl_strdup g name = None then None
      else Some \<lparr>so_id = ncl_strdup g name, so_code = None, so_reason = None, so_params = None, so_result = None\<rparr>)"

definition ncl_set_response_item_is_valid :: "'d set_response_item \<Rightarrow> bool" where
  "ncl_set_response_item_is_valid item \<longleftrightarrow> \<not> ncl_str_is_empty (so_id item) \<and> ncl_check_is_code_valid (so_code item)"

definition ncl_set_response_item_has_error :: "'d set_response_item \<Rightarrow> bool" where
  "ncl_set_response_item_has_error item \<longleftrightarrow> \<not> ncl_check_is_code_ng (so_code item)"

section \<open>Does a response answer a request?\<close>

definition same_operation :: "string option \<Rightarrow> string option \<Rightarrow> bool" where
  "same_operation request_op response_op =
     (case request_op of
        None \<Rightarrow> \<not> (response_op \<noteq> None \<and> response_op \<noteq> Some ''set_value'')
      | Some r \<Rightarrow> response_op = Some r)"

definition same_int :: "'d double_ops \<Rightarrow> string \<Rightarrow> 'd json option \<Rightarrow> 'd json option \<Rightarrow> bool" where
  "same_int ops key request response \<longleftrightarrow> ncl_params_int ops request (Some key) = ncl_params_int ops response (Some key)"

text \<open>The offset of the response against the length of the request.\<close>

definition offset_agrees :: "'d double_ops \<Rightarrow> 'd json option \<Rightarrow> 'd json option \<Rightarrow> bool" where
  "offset_agrees ops request response =
     (case (ncl_params_int ops request (Some ''offset''), ncl_params_int ops response (Some ''offset'')) of
        (None, None) \<Rightarrow> True
      | (Some _, Some response_int) \<Rightarrow>
          (case ncl_params_int ops request (Some ''length'') of
             Some request_length \<Rightarrow> request_length = response_int
           | None \<Rightarrow> True)
      | _ \<Rightarrow> False)"

definition indexes_agree :: "grant \<Rightarrow> 'd double_ops \<Rightarrow> 'd json option \<Rightarrow> 'd json option \<Rightarrow> bool" where
  "indexes_agree g ops request response =
     (case (ncl_params_indexes g ops request, ncl_params_indexes g ops response) of
        (Inr a, Inr b) \<Rightarrow> a = b
      | (Inl _, Inl _) \<Rightarrow> True
      | _ \<Rightarrow> False)"

definition keys_agree :: "'d double_ops \<Rightarrow> 'd json option \<Rightarrow> 'd json option \<Rightarrow> bool" where
  "keys_agree ops request response =
     (case (ncl_params_get request (Some ''keys''), ncl_params_get response (Some ''keys'')) of
        (None, None) \<Rightarrow> True
      | (Some a, Some b) \<Rightarrow> fst (ncl_json_equals ops False (Some a) (Some b))
      | _ \<Rightarrow> False)"

definition ncl_query_response_item_matches ::
  "grant \<Rightarrow> 'd double_ops \<Rightarrow> 'd query_response_item \<Rightarrow> 'd request_item \<Rightarrow> bool" where
  "ncl_query_response_item_matches g ops item request =
     (if qr_id item = None \<or> qi_id request = None \<or> qr_id item \<noteq> qi_id request then False
      else if \<not> same_operation (ncl_query_request_item_operation request) (ncl_query_response_item_operation item) then False
      else if \<not> same_int ops ''length'' (qi_params request) (qr_params item) then False
      else if \<not> offset_agrees ops (qi_params request) (qr_params item) then False
      else if \<not> indexes_agree g ops (qi_params request) (qr_params item) then False
      else keys_agree ops (qi_params request) (qr_params item))"

definition ncl_set_response_item_matches ::
  "'d double_ops \<Rightarrow> 'd set_response_item \<Rightarrow> 'd request_item \<Rightarrow> bool" where
  "ncl_set_response_item_matches ops item request =
     (if so_id item = None \<or> qi_id request = None \<or> so_id item \<noteq> qi_id request then False
      else if \<not> same_operation (ncl_set_request_item_operation request) (ncl_params_operation (so_params item) (Some ''set_value'')) then False
      else if \<not> same_int ops ''length'' (qi_params request) (so_params item) then False
      else if \<not> offset_agrees ops (qi_params request) (so_params item) then False
      else if \<not> same_int ops ''index'' (qi_params request) (so_params item) then False
      else ncl_params_string (qi_params request) (Some ''key'') = ncl_params_string (so_params item) (Some ''key''))"

section \<open>Columns of samples\<close>

record 'd sample_item =
  si_encoding :: "string option"
  si_data :: "'d json option"

definition SAMPLE_ITEM_SIZE :: nat where
  "SAMPLE_ITEM_SIZE = 16"

definition ncl_sample_item_new :: "grant \<Rightarrow> 'd sample_item option" where
  "ncl_sample_item_new g =
     (if \<not> g SAMPLE_ITEM_SIZE then None
      else case ncl_json_new_array g of None \<Rightarrow> None | Some arr \<Rightarrow> Some \<lparr>si_encoding = None, si_data = Some arr\<rparr>)"

definition ncl_sample_item_clone :: "grant \<Rightarrow> 'd double_ops \<Rightarrow> 'd sample_item \<Rightarrow> 'd sample_item option" where
  "ncl_sample_item_clone g ops item =
     (case ncl_sample_item_new g of
        None \<Rightarrow> None
      | Some copy \<Rightarrow>
          (case (case si_data item of None \<Rightarrow> None | Some d \<Rightarrow> ncl_json_clone g ops d) of
             None \<Rightarrow> None
           | Some d \<Rightarrow> Some (copy\<lparr>si_encoding := ncl_strdup g (si_encoding item), si_data := Some d\<rparr>)))"

definition ncl_sample_item_is_valid :: "'d sample_item option \<Rightarrow> bool" where
  "ncl_sample_item_is_valid item \<longleftrightarrow> item \<noteq> None"

definition ncl_sample_item_add_value :: "grant \<Rightarrow> 'd sample_item \<Rightarrow> 'd json option \<Rightarrow> ncl_err \<times> 'd sample_item" where
  "ncl_sample_item_add_value g item value = (case add_to g (si_data item) value of (rc, arr) \<Rightarrow> (rc, item\<lparr>si_data := arr\<rparr>))"

definition ncl_sample_item_is_same :: "'d double_ops \<Rightarrow> 'd sample_item \<Rightarrow> 'd sample_item \<Rightarrow> bool" where
  "ncl_sample_item_is_same ops a b =
     (if ncl_json_arr_len (si_data a) \<noteq> ncl_json_arr_len (si_data b) then False
      else list_all2 (\<lambda>x y. fst (ncl_json_equals ops False (Some x) (Some y))) (items (si_data a)) (items (si_data b)))"

end
