(* ===== verification/Message.thy ===== *)
theory Message
  imports Message_Items
begin

text \<open>
  \<^verbatim>\<open>stack/src/message/message.c\<close>, first part: messages, setters and accessors, items, validity, and
  whether a response answers a request. The tagged union is a datatype: the type of a message is that
  of its body. A NULL message, which the functions turn away before they do anything, is left out.
\<close>

section \<open>The data\<close>

record 'd probe_query_response =
  pq_code :: "string option"
  pq_model :: "'d json ncl_node option"
  pq_reason :: "string option"

record 'd sample_body =
  sa_paths :: "char strvec"
  sa_id :: "string option"
  sa_begin_time :: "string option"
  sa_data :: "'d sample_item ptrvec"
  sa_has_interval :: bool
  sa_interval :: int
  sa_has_upload_interval :: bool
  sa_upload_interval :: int

record 'd event_body =
  ev_id :: "string option"
  ev_time :: "string option"
  ev_event :: "'d json option"

record 'd call_request =
  cq_method :: "string option"
  cq_params :: "'d json option"
  cq_check :: bool
  cq_has_check :: bool
  cq_token :: "string option"
  cq_async :: bool
  cq_has_async :: bool

record 'd call_response =
  cs_code :: "string option"
  cs_method :: "string option"
  cs_params :: "'d json option"
  cs_check :: bool
  cs_has_check :: bool
  cs_token :: "string option"
  cs_data :: "'d json option"
  cs_reason :: "string option"
  cs_handler :: "string option"

record call_object =
  co_id :: "string option"
  co_handler :: "string option"

record status_response =
  st_id :: "string option"
  st_handler :: "string option"
  st_process :: int
  st_has_process :: bool
  st_status :: "string option"
  st_code :: "string option"

record 'd result_response =
  rr_id :: "string option"
  rr_handler :: "string option"
  rr_code :: "string option"
  rr_returns :: "'d json option"
  rr_result :: "string option"

datatype 'd message_body =
    As_Unknown
  | As_Ping
  | As_Pong "string option"
  | As_Probe_Version "string option"
  | As_Register_Request "string option"
  | As_Register_Response "string option"
  | As_Query_Request "'d request_item ptrvec"
  | As_Query_Response "'d query_response_item ptrvec"
  | As_Set_Request "'d request_item ptrvec"
  | As_Set_Response "'d set_response_item ptrvec"
  | As_Probe_Query_Request
  | As_Probe_Query_Response "'d probe_query_response"
  | As_Probe_Set_Request "'d json ncl_node option"
  | As_Probe_Set_Response "string option" "string option"
  | As_Sample "'d sample_body"
  | As_Event "'d event_body"
  | As_Method_Call_Request "'d call_request"
  | As_Method_Call_Response "'d call_response"
  | As_Method_Status_Request call_object
  | As_Method_Status_Response status_response
  | As_Method_Result_Request call_object
  | As_Method_Result_Response "'d result_response"

record 'd ncl_message =
  message_id :: "string option"
  as_body :: "'d message_body"

fun body_type :: "'d message_body \<Rightarrow> ncl_msg_type" where
  "body_type As_Unknown = NCL_MSG_UNKNOWN"
| "body_type As_Ping = NCL_MSG_PING"
| "body_type (As_Pong c) = NCL_MSG_PONG"
| "body_type (As_Probe_Version v) = NCL_MSG_PROBE_VERSION"
| "body_type (As_Register_Request d) = NCL_MSG_REGISTER_REQUEST"
| "body_type (As_Register_Response c) = NCL_MSG_REGISTER_RESPONSE"
| "body_type (As_Query_Request v) = NCL_MSG_QUERY_REQUEST"
| "body_type (As_Query_Response v1) = NCL_MSG_QUERY_RESPONSE"
| "body_type (As_Set_Request v) = NCL_MSG_SET_REQUEST"
| "body_type (As_Set_Response v2) = NCL_MSG_SET_RESPONSE"
| "body_type As_Probe_Query_Request = NCL_MSG_PROBE_QUERY_REQUEST"
| "body_type (As_Probe_Query_Response b) = NCL_MSG_PROBE_QUERY_RESPONSE"
| "body_type (As_Probe_Set_Request m) = NCL_MSG_PROBE_SET_REQUEST"
| "body_type (As_Probe_Set_Response c r) = NCL_MSG_PROBE_SET_RESPONSE"
| "body_type (As_Sample s) = NCL_MSG_SAMPLE"
| "body_type (As_Event e) = NCL_MSG_EVENT"
| "body_type (As_Method_Call_Request q) = NCL_MSG_METHOD_CALL_REQUEST"
| "body_type (As_Method_Call_Response p) = NCL_MSG_METHOD_CALL_RESPONSE"
| "body_type (As_Method_Status_Request ob) = NCL_MSG_METHOD_STATUS_REQUEST"
| "body_type (As_Method_Status_Response st) = NCL_MSG_METHOD_STATUS_RESPONSE"
| "body_type (As_Method_Result_Request ob) = NCL_MSG_METHOD_RESULT_REQUEST"
| "body_type (As_Method_Result_Response rr) = NCL_MSG_METHOD_RESULT_RESPONSE"

section \<open>Life cycle\<close>

definition MESSAGE_SIZE :: nat where
  "MESSAGE_SIZE = 120"

definition blank_object :: call_object where
  "blank_object = \<lparr>co_id = None, co_handler = None\<rparr>"

fun new_body :: "ncl_msg_type \<Rightarrow> 'd message_body" where
  "new_body NCL_MSG_UNKNOWN = As_Unknown"
| "new_body NCL_MSG_PING = As_Ping"
| "new_body NCL_MSG_PONG = As_Pong None"
| "new_body NCL_MSG_PROBE_VERSION = As_Probe_Version None"
| "new_body NCL_MSG_REGISTER_REQUEST = As_Register_Request None"
| "new_body NCL_MSG_REGISTER_RESPONSE = As_Register_Response None"
| "new_body NCL_MSG_QUERY_REQUEST = As_Query_Request (ncl_ptrvec_init True)"
| "new_body NCL_MSG_QUERY_RESPONSE = As_Query_Response (ncl_ptrvec_init True)"
| "new_body NCL_MSG_SET_REQUEST = As_Set_Request (ncl_ptrvec_init True)"
| "new_body NCL_MSG_SET_RESPONSE = As_Set_Response (ncl_ptrvec_init True)"
| "new_body NCL_MSG_PROBE_QUERY_REQUEST = As_Probe_Query_Request"
| "new_body NCL_MSG_PROBE_QUERY_RESPONSE = As_Probe_Query_Response \<lparr>pq_code = None, pq_model = None, pq_reason = None\<rparr>"
| "new_body NCL_MSG_PROBE_SET_REQUEST = As_Probe_Set_Request None"
| "new_body NCL_MSG_PROBE_SET_RESPONSE = As_Probe_Set_Response None None"
| "new_body NCL_MSG_SAMPLE =
     As_Sample \<lparr>sa_paths = ncl_strvec_init, sa_id = None, sa_begin_time = None, sa_data = ncl_ptrvec_init True,
       sa_has_interval = False, sa_interval = 0, sa_has_upload_interval = False, sa_upload_interval = 0\<rparr>"
| "new_body NCL_MSG_EVENT = As_Event \<lparr>ev_id = None, ev_time = None, ev_event = None\<rparr>"
| "new_body NCL_MSG_METHOD_CALL_REQUEST =
     As_Method_Call_Request \<lparr>cq_method = None, cq_params = None, cq_check = False, cq_has_check = True, cq_token = None,
       cq_async = False, cq_has_async = False\<rparr>"
| "new_body NCL_MSG_METHOD_CALL_RESPONSE =
     As_Method_Call_Response \<lparr>cs_code = None, cs_method = None, cs_params = None, cs_check = False, cs_has_check = False,
       cs_token = None, cs_data = None, cs_reason = None, cs_handler = None\<rparr>"
| "new_body NCL_MSG_METHOD_STATUS_REQUEST = As_Method_Status_Request blank_object"
| "new_body NCL_MSG_METHOD_STATUS_RESPONSE =
     As_Method_Status_Response \<lparr>st_id = None, st_handler = None, st_process = 0, st_has_process = True, st_status = None, st_code = None\<rparr>"
| "new_body NCL_MSG_METHOD_RESULT_REQUEST = As_Method_Result_Request blank_object"
| "new_body NCL_MSG_METHOD_RESULT_RESPONSE =
     As_Method_Result_Response \<lparr>rr_id = None, rr_handler = None, rr_code = None, rr_returns = None, rr_result = None\<rparr>"

definition ncl_message_new :: "grant \<Rightarrow> ncl_msg_type \<Rightarrow> 'd ncl_message option" where
  "ncl_message_new g t = (if g MESSAGE_SIZE then Some \<lparr>message_id = None, as_body = new_body t\<rparr> else None)"

definition ncl_message_set_message_id :: "grant \<Rightarrow> string option \<Rightarrow> 'd ncl_message \<Rightarrow> ncl_err \<times> 'd ncl_message" where
  "ncl_message_set_message_id g name msg =
     (if name \<noteq> None \<and> ncl_strdup g name = None then (NCL_ERR_NOMEM, msg) else (NCL_OK, msg\<lparr>message_id := ncl_strdup g name\<rparr>))"

definition ncl_msg_set_str :: "grant \<Rightarrow> string option \<Rightarrow> string option \<Rightarrow> ncl_err \<times> string option" where
  "ncl_msg_set_str g slot value =
     (if value \<noteq> None \<and> ncl_strdup g value = None then (NCL_ERR_NOMEM, slot) else (NCL_OK, ncl_strdup g value))"

section \<open>Setters\<close>

text \<open>A setter that copies a text into a slot of the body; the slot is put back by \<open>put\<close>.\<close>

definition set_slot ::
  "grant \<Rightarrow> string option \<Rightarrow> string option \<Rightarrow> (string option \<Rightarrow> 'd message_body) \<Rightarrow> 'd ncl_message \<Rightarrow> ncl_err \<times> 'd ncl_message" where
  "set_slot g value slot put msg = (case ncl_msg_set_str g slot value of (rc, s) \<Rightarrow> (rc, msg\<lparr>as_body := put s\<rparr>))"

definition ncl_message_set_code :: "grant \<Rightarrow> string option \<Rightarrow> 'd ncl_message \<Rightarrow> ncl_err \<times> 'd ncl_message" where
  "ncl_message_set_code g code msg =
     (case as_body msg of
        As_Pong c \<Rightarrow> set_slot g code c As_Pong msg
      | As_Register_Response c \<Rightarrow> set_slot g code c As_Register_Response msg
      | As_Probe_Query_Response b \<Rightarrow> set_slot g code (pq_code b) (\<lambda>s. As_Probe_Query_Response (b\<lparr>pq_code := s\<rparr>)) msg
      | As_Probe_Set_Response c r \<Rightarrow> set_slot g code c (\<lambda>s. As_Probe_Set_Response s r) msg
      | As_Method_Call_Response b \<Rightarrow> set_slot g code (cs_code b) (\<lambda>s. As_Method_Call_Response (b\<lparr>cs_code := s\<rparr>)) msg
      | As_Method_Status_Response b \<Rightarrow> set_slot g code (st_code b) (\<lambda>s. As_Method_Status_Response (b\<lparr>st_code := s\<rparr>)) msg
      | As_Method_Result_Response b \<Rightarrow> set_slot g code (rr_code b) (\<lambda>s. As_Method_Result_Response (b\<lparr>rr_code := s\<rparr>)) msg
      | _ \<Rightarrow> (NCL_ERR_INVALID_TYPE, msg))"

definition ncl_message_set_reason :: "grant \<Rightarrow> string option \<Rightarrow> 'd ncl_message \<Rightarrow> ncl_err \<times> 'd ncl_message" where
  "ncl_message_set_reason g reason msg =
     (case as_body msg of
        As_Probe_Query_Response b \<Rightarrow> set_slot g reason (pq_reason b) (\<lambda>s. As_Probe_Query_Response (b\<lparr>pq_reason := s\<rparr>)) msg
      | As_Probe_Set_Response c r \<Rightarrow> set_slot g reason r (As_Probe_Set_Response c) msg
      | As_Method_Call_Response b \<Rightarrow> set_slot g reason (cs_reason b) (\<lambda>s. As_Method_Call_Response (b\<lparr>cs_reason := s\<rparr>)) msg
      | _ \<Rightarrow> (NCL_ERR_INVALID_TYPE, msg))"

definition ncl_message_set_version :: "grant \<Rightarrow> string option \<Rightarrow> 'd ncl_message \<Rightarrow> ncl_err \<times> 'd ncl_message" where
  "ncl_message_set_version g version msg =
     (case as_body msg of As_Probe_Version v \<Rightarrow> set_slot g version v As_Probe_Version msg | _ \<Rightarrow> (NCL_ERR_INVALID_TYPE, msg))"

definition ncl_message_set_device_id :: "grant \<Rightarrow> string option \<Rightarrow> 'd ncl_message \<Rightarrow> ncl_err \<times> 'd ncl_message" where
  "ncl_message_set_device_id g device_id msg =
     (case as_body msg of As_Register_Request d \<Rightarrow> set_slot g device_id d As_Register_Request msg | _ \<Rightarrow> (NCL_ERR_INVALID_TYPE, msg))"

definition ncl_message_set_model :: "'d json ncl_node option \<Rightarrow> 'd ncl_message \<Rightarrow> ncl_err \<times> 'd ncl_message" where
  "ncl_message_set_model model msg =
     (case as_body msg of
        As_Probe_Query_Response b \<Rightarrow> (NCL_OK, msg\<lparr>as_body := As_Probe_Query_Response (b\<lparr>pq_model := model\<rparr>)\<rparr>)
      | As_Probe_Set_Request m \<Rightarrow> (NCL_OK, msg\<lparr>as_body := As_Probe_Set_Request model\<rparr>)
      | _ \<Rightarrow> (NCL_ERR_INVALID_TYPE, msg))"

definition ncl_message_take_model :: "'d ncl_message \<Rightarrow> 'd json ncl_node option \<times> 'd ncl_message" where
  "ncl_message_take_model msg =
     (case as_body msg of
        As_Probe_Query_Response b \<Rightarrow> (pq_model b, msg\<lparr>as_body := As_Probe_Query_Response (b\<lparr>pq_model := None\<rparr>)\<rparr>)
      | As_Probe_Set_Request m \<Rightarrow> (m, msg\<lparr>as_body := As_Probe_Set_Request None\<rparr>)
      | _ \<Rightarrow> (None, msg))"

definition ncl_message_set_method :: "grant \<Rightarrow> string option \<Rightarrow> 'd ncl_message \<Rightarrow> ncl_err \<times> 'd ncl_message" where
  "ncl_message_set_method g name msg =
     (case as_body msg of
        As_Method_Call_Request b \<Rightarrow> set_slot g name (cq_method b) (\<lambda>s. As_Method_Call_Request (b\<lparr>cq_method := s\<rparr>)) msg
      | As_Method_Call_Response b \<Rightarrow> set_slot g name (cs_method b) (\<lambda>s. As_Method_Call_Response (b\<lparr>cs_method := s\<rparr>)) msg
      | _ \<Rightarrow> (NCL_ERR_INVALID_TYPE, msg))"

definition ncl_message_set_params :: "'d json option \<Rightarrow> 'd ncl_message \<Rightarrow> ncl_err \<times> 'd ncl_message" where
  "ncl_message_set_params params msg =
     (case as_body msg of
        As_Method_Call_Request b \<Rightarrow> (NCL_OK, msg\<lparr>as_body := As_Method_Call_Request (b\<lparr>cq_params := params\<rparr>)\<rparr>)
      | As_Method_Call_Response b \<Rightarrow> (NCL_OK, msg\<lparr>as_body := As_Method_Call_Response (b\<lparr>cs_params := params\<rparr>)\<rparr>)
      | _ \<Rightarrow> (NCL_ERR_INVALID_TYPE, msg))"

definition ncl_message_set_token :: "grant \<Rightarrow> string option \<Rightarrow> 'd ncl_message \<Rightarrow> ncl_err \<times> 'd ncl_message" where
  "ncl_message_set_token g token msg =
     (case as_body msg of
        As_Method_Call_Request b \<Rightarrow> set_slot g token (cq_token b) (\<lambda>s. As_Method_Call_Request (b\<lparr>cq_token := s\<rparr>)) msg
      | As_Method_Call_Response b \<Rightarrow> set_slot g token (cs_token b) (\<lambda>s. As_Method_Call_Response (b\<lparr>cs_token := s\<rparr>)) msg
      | _ \<Rightarrow> (NCL_ERR_INVALID_TYPE, msg))"

definition ncl_message_set_check :: "bool \<Rightarrow> 'd ncl_message \<Rightarrow> ncl_err \<times> 'd ncl_message" where
  "ncl_message_set_check check msg =
     (case as_body msg of
        As_Method_Call_Request b \<Rightarrow> (NCL_OK, msg\<lparr>as_body := As_Method_Call_Request (b\<lparr>cq_check := check, cq_has_check := True\<rparr>)\<rparr>)
      | As_Method_Call_Response b \<Rightarrow> (NCL_OK, msg\<lparr>as_body := As_Method_Call_Response (b\<lparr>cs_check := check, cs_has_check := True\<rparr>)\<rparr>)
      | _ \<Rightarrow> (NCL_ERR_INVALID_TYPE, msg))"

definition ncl_message_set_data :: "'d json option \<Rightarrow> 'd ncl_message \<Rightarrow> ncl_err \<times> 'd ncl_message" where
  "ncl_message_set_data data msg =
     (case as_body msg of
        As_Method_Call_Response b \<Rightarrow> (NCL_OK, msg\<lparr>as_body := As_Method_Call_Response (b\<lparr>cs_data := data\<rparr>)\<rparr>)
      | _ \<Rightarrow> (NCL_ERR_INVALID_TYPE, msg))"

definition ncl_message_set_event :: "'d json option \<Rightarrow> 'd ncl_message \<Rightarrow> ncl_err \<times> 'd ncl_message" where
  "ncl_message_set_event event msg =
     (case as_body msg of
        As_Event b \<Rightarrow> (NCL_OK, msg\<lparr>as_body := As_Event (b\<lparr>ev_event := event\<rparr>)\<rparr>)
      | _ \<Rightarrow> (NCL_ERR_INVALID_TYPE, msg))"

definition ncl_message_set_sample_id :: "grant \<Rightarrow> string option \<Rightarrow> 'd ncl_message \<Rightarrow> ncl_err \<times> 'd ncl_message" where
  "ncl_message_set_sample_id g name msg =
     (case as_body msg of
        As_Event b \<Rightarrow> set_slot g name (ev_id b) (\<lambda>s. As_Event (b\<lparr>ev_id := s\<rparr>)) msg
      | As_Sample b \<Rightarrow> set_slot g name (sa_id b) (\<lambda>s. As_Sample (b\<lparr>sa_id := s\<rparr>)) msg
      | _ \<Rightarrow> (NCL_ERR_INVALID_TYPE, msg))"

section \<open>Asynchronous calls\<close>

text \<open>The place of the id and of the handler: what is there, and the body with something else there.\<close>

fun ncl_method_object_id_slot :: "'d message_body \<Rightarrow> (string option \<times> (string option \<Rightarrow> 'd message_body)) option" where
  "ncl_method_object_id_slot (As_Method_Status_Request b) = Some (co_id b, \<lambda>s. As_Method_Status_Request (b\<lparr>co_id := s\<rparr>))"
| "ncl_method_object_id_slot (As_Method_Status_Response b) = Some (st_id b, \<lambda>s. As_Method_Status_Response (b\<lparr>st_id := s\<rparr>))"
| "ncl_method_object_id_slot (As_Method_Result_Request b) = Some (co_id b, \<lambda>s. As_Method_Result_Request (b\<lparr>co_id := s\<rparr>))"
| "ncl_method_object_id_slot (As_Method_Result_Response b) = Some (rr_id b, \<lambda>s. As_Method_Result_Response (b\<lparr>rr_id := s\<rparr>))"
| "ncl_method_object_id_slot _ = None"

fun ncl_method_handler_slot :: "'d message_body \<Rightarrow> (string option \<times> (string option \<Rightarrow> 'd message_body)) option" where
  "ncl_method_handler_slot (As_Method_Status_Request b) = Some (co_handler b, \<lambda>s. As_Method_Status_Request (b\<lparr>co_handler := s\<rparr>))"
| "ncl_method_handler_slot (As_Method_Status_Response b) = Some (st_handler b, \<lambda>s. As_Method_Status_Response (b\<lparr>st_handler := s\<rparr>))"
| "ncl_method_handler_slot (As_Method_Result_Request b) = Some (co_handler b, \<lambda>s. As_Method_Result_Request (b\<lparr>co_handler := s\<rparr>))"
| "ncl_method_handler_slot (As_Method_Result_Response b) = Some (rr_handler b, \<lambda>s. As_Method_Result_Response (b\<lparr>rr_handler := s\<rparr>))"
| "ncl_method_handler_slot (As_Method_Call_Response b) = Some (cs_handler b, \<lambda>s. As_Method_Call_Response (b\<lparr>cs_handler := s\<rparr>))"
| "ncl_method_handler_slot _ = None"

definition ncl_message_set_handler :: "grant \<Rightarrow> string option \<Rightarrow> 'd ncl_message \<Rightarrow> ncl_err \<times> 'd ncl_message" where
  "ncl_message_set_handler g handler msg =
     (case ncl_method_handler_slot (as_body msg) of
        Some (slot, put) \<Rightarrow> set_slot g handler slot put msg
      | None \<Rightarrow> (NCL_ERR_INVALID_TYPE, msg))"

definition ncl_message_handler :: "'d ncl_message \<Rightarrow> string option" where
  "ncl_message_handler msg =
     (case as_body msg of
        As_Method_Status_Request b \<Rightarrow> co_handler b
      | As_Method_Status_Response b \<Rightarrow> st_handler b
      | As_Method_Result_Request b \<Rightarrow> co_handler b
      | As_Method_Result_Response b \<Rightarrow> rr_handler b
      | As_Method_Call_Response b \<Rightarrow> cs_handler b
      | _ \<Rightarrow> None)"

definition ncl_message_set_request_id :: "grant \<Rightarrow> string option \<Rightarrow> 'd ncl_message \<Rightarrow> ncl_err \<times> 'd ncl_message" where
  "ncl_message_set_request_id g name msg =
     (case ncl_method_object_id_slot (as_body msg) of
        Some (slot, put) \<Rightarrow> set_slot g name slot put msg
      | None \<Rightarrow> (NCL_ERR_INVALID_TYPE, msg))"

definition ncl_message_request_id :: "'d ncl_message \<Rightarrow> string option" where
  "ncl_message_request_id msg =
     (case as_body msg of
        As_Method_Status_Request b \<Rightarrow> co_id b
      | As_Method_Status_Response b \<Rightarrow> st_id b
      | As_Method_Result_Request b \<Rightarrow> co_id b
      | As_Method_Result_Response b \<Rightarrow> rr_id b
      | _ \<Rightarrow> None)"

definition ncl_message_code :: "'d ncl_message \<Rightarrow> string option" where
  "ncl_message_code msg =
     (case as_body msg of
        As_Pong c \<Rightarrow> c
      | As_Register_Response c \<Rightarrow> c
      | As_Probe_Query_Response b \<Rightarrow> pq_code b
      | As_Probe_Set_Response c r \<Rightarrow> c
      | As_Method_Call_Response b \<Rightarrow> cs_code b
      | As_Method_Status_Response b \<Rightarrow> st_code b
      | As_Method_Result_Response b \<Rightarrow> rr_code b
      | _ \<Rightarrow> None)"

definition ncl_message_set_async :: "bool \<Rightarrow> 'd ncl_message \<Rightarrow> ncl_err \<times> 'd ncl_message" where
  "ncl_message_set_async async msg =
     (case as_body msg of
        As_Method_Call_Request b \<Rightarrow> (NCL_OK, msg\<lparr>as_body := As_Method_Call_Request (b\<lparr>cq_async := async, cq_has_async := True\<rparr>)\<rparr>)
      | _ \<Rightarrow> (NCL_ERR_INVALID_TYPE, msg))"

definition ncl_message_async :: "'d ncl_message \<Rightarrow> bool" where
  "ncl_message_async msg \<longleftrightarrow> (case as_body msg of As_Method_Call_Request b \<Rightarrow> cq_has_async b \<and> cq_async b | _ \<Rightarrow> False)"

definition ncl_message_has_async :: "'d ncl_message \<Rightarrow> bool" where
  "ncl_message_has_async msg \<longleftrightarrow> (case as_body msg of As_Method_Call_Request b \<Rightarrow> cq_has_async b | _ \<Rightarrow> False)"

definition ncl_message_set_status :: "grant \<Rightarrow> string option \<Rightarrow> 'd ncl_message \<Rightarrow> ncl_err \<times> 'd ncl_message" where
  "ncl_message_set_status g status msg =
     (case as_body msg of
        As_Method_Status_Response b \<Rightarrow> set_slot g status (st_status b) (\<lambda>s. As_Method_Status_Response (b\<lparr>st_status := s\<rparr>)) msg
      | _ \<Rightarrow> (NCL_ERR_INVALID_TYPE, msg))"

definition ncl_message_status :: "'d ncl_message \<Rightarrow> string option" where
  "ncl_message_status msg = (case as_body msg of As_Method_Status_Response b \<Rightarrow> st_status b | _ \<Rightarrow> None)"

definition ncl_message_set_process :: "int \<Rightarrow> 'd ncl_message \<Rightarrow> ncl_err \<times> 'd ncl_message" where
  "ncl_message_set_process process msg =
     (case as_body msg of
        As_Method_Status_Response b \<Rightarrow>
          (NCL_OK, msg\<lparr>as_body := As_Method_Status_Response (b\<lparr>st_process := process, st_has_process := True\<rparr>)\<rparr>)
      | _ \<Rightarrow> (NCL_ERR_INVALID_TYPE, msg))"

definition ncl_message_process :: "'d ncl_message \<Rightarrow> int option" where
  "ncl_message_process msg =
     (case as_body msg of As_Method_Status_Response b \<Rightarrow> if \<not> st_has_process b then None else Some (st_process b) | _ \<Rightarrow> None)"

definition ncl_message_set_result :: "grant \<Rightarrow> string option \<Rightarrow> 'd ncl_message \<Rightarrow> ncl_err \<times> 'd ncl_message" where
  "ncl_message_set_result g result msg =
     (case as_body msg of
        As_Method_Result_Response b \<Rightarrow> set_slot g result (rr_result b) (\<lambda>s. As_Method_Result_Response (b\<lparr>rr_result := s\<rparr>)) msg
      | _ \<Rightarrow> (NCL_ERR_INVALID_TYPE, msg))"

definition ncl_message_result :: "'d ncl_message \<Rightarrow> string option" where
  "ncl_message_result msg = (case as_body msg of As_Method_Result_Response b \<Rightarrow> rr_result b | _ \<Rightarrow> None)"

definition ncl_message_set_return :: "'d json option \<Rightarrow> 'd ncl_message \<Rightarrow> ncl_err \<times> 'd ncl_message" where
  "ncl_message_set_return value msg =
     (case as_body msg of
        As_Method_Result_Response b \<Rightarrow> (NCL_OK, msg\<lparr>as_body := As_Method_Result_Response (b\<lparr>rr_returns := value\<rparr>)\<rparr>)
      | _ \<Rightarrow> (NCL_ERR_INVALID_TYPE, msg))"

definition ncl_message_get_return :: "'d ncl_message \<Rightarrow> 'd json option" where
  "ncl_message_get_return msg = (case as_body msg of As_Method_Result_Response b \<Rightarrow> rr_returns b | _ \<Rightarrow> None)"

section \<open>Events and samples\<close>

text \<open>\<open>now\<close> is the clock, in milliseconds.\<close>

definition ncl_message_set_event_time_ms :: "grant \<Rightarrow> int \<Rightarrow> int \<Rightarrow> 'd ncl_message \<Rightarrow> ncl_err \<times> 'd ncl_message" where
  "ncl_message_set_event_time_ms g now millis msg =
     (case as_body msg of
        As_Event b \<Rightarrow>
          set_slot g (Some (dec_int (if millis > 0 then millis else now))) (ev_time b) (\<lambda>s. As_Event (b\<lparr>ev_time := s\<rparr>)) msg
      | _ \<Rightarrow> (NCL_ERR_INVALID_TYPE, msg))"

definition ncl_message_set_begin_time :: "grant \<Rightarrow> string option \<Rightarrow> 'd ncl_message \<Rightarrow> ncl_err \<times> 'd ncl_message" where
  "ncl_message_set_begin_time g begin_time msg =
     (case as_body msg of
        As_Sample b \<Rightarrow> set_slot g begin_time (sa_begin_time b) (\<lambda>s. As_Sample (b\<lparr>sa_begin_time := s\<rparr>)) msg
      | _ \<Rightarrow> (NCL_ERR_INVALID_TYPE, msg))"

definition ncl_message_set_sample_interval :: "int \<Rightarrow> 'd ncl_message \<Rightarrow> ncl_err \<times> 'd ncl_message" where
  "ncl_message_set_sample_interval interval msg =
     (case as_body msg of
        As_Sample b \<Rightarrow> (NCL_OK, msg\<lparr>as_body := As_Sample (b\<lparr>sa_interval := interval, sa_has_interval := True\<rparr>)\<rparr>)
      | _ \<Rightarrow> (NCL_ERR_INVALID_TYPE, msg))"

definition ncl_message_set_upload_interval :: "int \<Rightarrow> 'd ncl_message \<Rightarrow> ncl_err \<times> 'd ncl_message" where
  "ncl_message_set_upload_interval interval msg =
     (case as_body msg of
        As_Sample b \<Rightarrow> (NCL_OK, msg\<lparr>as_body := As_Sample (b\<lparr>sa_upload_interval := interval, sa_has_upload_interval := True\<rparr>)\<rparr>)
      | _ \<Rightarrow> (NCL_ERR_INVALID_TYPE, msg))"

definition ncl_message_add_sample_path :: "grant \<Rightarrow> string option \<Rightarrow> 'd ncl_message \<Rightarrow> ncl_err \<times> 'd ncl_message" where
  "ncl_message_add_sample_path g path msg =
     (case as_body msg of
        As_Sample b \<Rightarrow> (case ncl_strvec_push g (sa_paths b) path of (rc, v) \<Rightarrow> (rc, msg\<lparr>as_body := As_Sample (b\<lparr>sa_paths := v\<rparr>)\<rparr>))
      | _ \<Rightarrow> (NCL_ERR_INVALID_TYPE, msg))"

text \<open>Adding an item: the status, the item if it was released, the message.\<close>

definition ncl_message_add_sample_item ::
  "grant \<Rightarrow> 'd sample_item option \<Rightarrow> 'd ncl_message \<Rightarrow> ncl_err \<times> 'd sample_item list \<times> 'd ncl_message" where
  "ncl_message_add_sample_item g item msg =
     (case as_body msg of
        As_Sample b \<Rightarrow>
          if \<not> ncl_sample_item_is_valid item then (NCL_ERR_INVALID_ITEM, [], msg)
          else (case ncl_ptrvec_push_owned g (sa_data b) item of
                  (rc, freed, v) \<Rightarrow> (rc, freed, msg\<lparr>as_body := As_Sample (b\<lparr>sa_data := v\<rparr>)\<rparr>))
      | _ \<Rightarrow> (NCL_ERR_INVALID_TYPE, (case item of None \<Rightarrow> [] | Some i \<Rightarrow> [i]), msg))"

definition ncl_message_add_query_request_item ::
  "grant \<Rightarrow> 'd request_item \<Rightarrow> 'd ncl_message \<Rightarrow> ncl_err \<times> 'd request_item list \<times> 'd ncl_message" where
  "ncl_message_add_query_request_item g item msg =
     (case as_body msg of
        As_Query_Request v \<Rightarrow> (case ncl_ptrvec_push_owned g v (Some item) of (rc, freed, v1) \<Rightarrow> (rc, freed, msg\<lparr>as_body := As_Query_Request v1\<rparr>))
      | _ \<Rightarrow> (NCL_ERR_INVALID_TYPE, [item], msg))"

definition ncl_message_add_query_response_item ::
  "grant \<Rightarrow> 'd query_response_item \<Rightarrow> 'd ncl_message \<Rightarrow> ncl_err \<times> 'd query_response_item list \<times> 'd ncl_message" where
  "ncl_message_add_query_response_item g item msg =
     (case as_body msg of
        As_Query_Response v \<Rightarrow> (case ncl_ptrvec_push_owned g v (Some item) of (rc, freed, v1) \<Rightarrow> (rc, freed, msg\<lparr>as_body := As_Query_Response v1\<rparr>))
      | _ \<Rightarrow> (NCL_ERR_INVALID_TYPE, [item], msg))"

definition ncl_message_add_set_request_item ::
  "grant \<Rightarrow> 'd request_item \<Rightarrow> 'd ncl_message \<Rightarrow> ncl_err \<times> 'd request_item list \<times> 'd ncl_message" where
  "ncl_message_add_set_request_item g item msg =
     (case as_body msg of
        As_Set_Request v \<Rightarrow> (case ncl_ptrvec_push_owned g v (Some item) of (rc, freed, v1) \<Rightarrow> (rc, freed, msg\<lparr>as_body := As_Set_Request v1\<rparr>))
      | _ \<Rightarrow> (NCL_ERR_INVALID_TYPE, [item], msg))"

definition ncl_message_add_set_response_item ::
  "grant \<Rightarrow> 'd set_response_item \<Rightarrow> 'd ncl_message \<Rightarrow> ncl_err \<times> 'd set_response_item list \<times> 'd ncl_message" where
  "ncl_message_add_set_response_item g item msg =
     (case as_body msg of
        As_Set_Response v \<Rightarrow> (case ncl_ptrvec_push_owned g v (Some item) of (rc, freed, v1) \<Rightarrow> (rc, freed, msg\<lparr>as_body := As_Set_Response v1\<rparr>))
      | _ \<Rightarrow> (NCL_ERR_INVALID_TYPE, [item], msg))"

definition ncl_message_item_count :: "'d ncl_message \<Rightarrow> nat" where
  "ncl_message_item_count msg =
     (case as_body msg of
        As_Query_Request v \<Rightarrow> ncl_ptrvec_len v
      | As_Query_Response v \<Rightarrow> ncl_ptrvec_len v
      | As_Set_Request v \<Rightarrow> ncl_ptrvec_len v
      | As_Set_Response v \<Rightarrow> ncl_ptrvec_len v
      | As_Sample b \<Rightarrow> ncl_ptrvec_len (sa_data b)
      | _ \<Rightarrow> 0)"

text \<open>The untyped pointer of the accessor, with the type it has to be read at.\<close>

datatype 'd message_item =
    Request_Item "'d request_item" | Query_Response_Item "'d query_response_item"
  | Set_Response_Item "'d set_response_item" | Sample_Item "'d sample_item"

definition ncl_message_item_at :: "'d ncl_message \<Rightarrow> nat \<Rightarrow> 'd message_item option" where
  "ncl_message_item_at msg i =
     (case as_body msg of
        As_Query_Request v \<Rightarrow> map_option Request_Item (ncl_ptrvec_at v i)
      | As_Query_Response v \<Rightarrow> map_option Query_Response_Item (ncl_ptrvec_at v i)
      | As_Set_Request v \<Rightarrow> map_option Request_Item (ncl_ptrvec_at v i)
      | As_Set_Response v \<Rightarrow> map_option Set_Response_Item (ncl_ptrvec_at v i)
      | As_Sample b \<Rightarrow> map_option Sample_Item (ncl_ptrvec_at (sa_data b) i)
      | _ \<Rightarrow> None)"

section \<open>Validity\<close>

text \<open>A vector that is not empty and holds valid items only; a NULL item is not valid.\<close>

definition all_items :: "('a \<Rightarrow> bool) \<Rightarrow> 'a ptrvec \<Rightarrow> bool" where
  "all_items ok v \<longleftrightarrow> (if ncl_ptrvec_len v = 0 then False else list_all (\<lambda>x. case x of None \<Rightarrow> False | Some i \<Rightarrow> ok i) (pv_items v))"

definition same_slots :: "'d sample_item ptrvec \<Rightarrow> bool" where
  "same_slots v =
     (if ncl_ptrvec_len v = 0 then False
      else case ncl_ptrvec_at v 0 of
        None \<Rightarrow> False
      | Some first \<Rightarrow>
          list_all (\<lambda>x. case x of None \<Rightarrow> False | Some i \<Rightarrow> ncl_json_arr_len (si_data i) = ncl_json_arr_len (si_data first))
            (drop 1 (pv_items v)))"

definition ncl_message_is_valid :: "'d ncl_message \<Rightarrow> bool" where
  "ncl_message_is_valid msg =
     (case as_body msg of
        As_Ping \<Rightarrow> \<not> ncl_str_is_blank (message_id msg)
      | As_Pong c \<Rightarrow> ncl_check_is_code_valid c
      | As_Probe_Version v \<Rightarrow> \<not> ncl_str_is_empty v
      | As_Register_Request d \<Rightarrow> \<not> ncl_str_is_empty d
      | As_Register_Response c \<Rightarrow> ncl_check_is_code_valid c
      | As_Query_Request v \<Rightarrow> all_items ncl_query_request_item_is_valid v
      | As_Query_Response v \<Rightarrow> all_items ncl_query_response_item_is_valid v
      | As_Set_Request v \<Rightarrow> all_items ncl_set_request_item_is_valid v
      | As_Set_Response v \<Rightarrow> all_items ncl_set_response_item_is_valid v
      | As_Probe_Query_Request \<Rightarrow> True
      | As_Probe_Query_Response b \<Rightarrow>
          if ncl_check_is_code_ok (pq_code b) then (case pq_model b of None \<Rightarrow> False | Some m \<Rightarrow> ncl_node_is_valid m)
          else if ncl_check_is_code_ng (pq_code b) then pq_model b = None
          else False
      | As_Probe_Set_Request m \<Rightarrow> (case m of None \<Rightarrow> False | Some n \<Rightarrow> ncl_node_is_valid n)
      | As_Probe_Set_Response c r \<Rightarrow> ncl_check_is_code_valid c
      | As_Sample b \<Rightarrow> same_slots (sa_data b)
      | As_Event b \<Rightarrow> ev_event b \<noteq> None \<and> ev_id b \<noteq> None
      | As_Method_Call_Request b \<Rightarrow> \<not> ncl_str_is_blank (cq_method b)
      | As_Method_Call_Response b \<Rightarrow> \<not> ncl_str_is_blank (cs_method b) \<and> cs_code b \<noteq> None
      | As_Method_Status_Request b \<Rightarrow> \<not> ncl_str_is_blank (co_id b) \<and> \<not> ncl_str_is_blank (co_handler b)
      | As_Method_Result_Request b \<Rightarrow> \<not> ncl_str_is_blank (co_id b) \<and> \<not> ncl_str_is_blank (co_handler b)
      | As_Method_Status_Response b \<Rightarrow>
          \<not> ncl_str_is_blank (st_id b) \<and> \<not> ncl_str_is_blank (st_handler b) \<and> \<not> ncl_str_is_blank (st_status b)
      | As_Method_Result_Response b \<Rightarrow>
          \<not> ncl_str_is_blank (rr_id b) \<and> (rr_result b \<noteq> None \<or> (rr_code b \<noteq> None \<and> ncl_check_is_pending (rr_code b)))
      | As_Unknown \<Rightarrow> False)"

text \<open>\<open>now\<close> is the clock and \<open>random\<close> what the random source gives.\<close>

definition ncl_message_finalise :: "grant \<Rightarrow> int \<Rightarrow> u8 list option \<Rightarrow> 'd ncl_message \<Rightarrow> ncl_err \<times> 'd ncl_message" where
  "ncl_message_finalise g now random msg =
     (if \<not> ncl_message_is_valid msg then (NCL_ERR_INVALID_MESSAGE, msg)
      else case (case as_body msg of
                   As_Event b \<Rightarrow>
                     if ncl_str_is_empty (ev_time b)
                     then set_slot g (Some (dec_int now)) (ev_time b) (\<lambda>s. As_Event (b\<lparr>ev_time := s\<rparr>)) msg else (NCL_OK, msg)
                 | _ \<Rightarrow> (NCL_OK, msg)) of
             (rc, msg1) \<Rightarrow>
               if rc \<noteq> NCL_OK then (NCL_ERR_NOMEM, msg1)
               else if ncl_str_is_blank (message_id msg1)
               then (case ncl_uuid4 random 37 of
                       Inl e \<Rightarrow> (NCL_ERR, msg1)
                     | Inr uuid \<Rightarrow> ncl_message_set_message_id g (Some uuid) msg1)
               else (NCL_OK, msg1))"

section \<open>Answers\<close>

text \<open>The ids decide when the response has one; otherwise the items do, one by one.\<close>

definition items_answer :: "('r \<Rightarrow> 'q \<Rightarrow> bool) \<Rightarrow> 'r ptrvec \<Rightarrow> 'q ptrvec \<Rightarrow> bool" where
  "items_answer ok response request =
     (if ncl_ptrvec_len request \<noteq> ncl_ptrvec_len response then False
      else list_all2 (\<lambda>r q. case (r, q) of (Some x, Some y) \<Rightarrow> ok x y | _ \<Rightarrow> False) (pv_items response) (pv_items request))"

definition ncl_message_matches :: "grant \<Rightarrow> 'd double_ops \<Rightarrow> 'd ncl_message \<Rightarrow> 'd ncl_message \<Rightarrow> bool" where
  "ncl_message_matches g ops response request =
     (case (as_body response, as_body request) of
        (As_Query_Response rv, As_Query_Request qv) \<Rightarrow>
          if message_id response \<noteq> None then message_id request = message_id response
          else if \<not> ncl_message_is_valid request \<or> \<not> ncl_message_is_valid response then False
          else items_answer (ncl_query_response_item_matches g ops) rv qv
      | (As_Set_Response rv, As_Set_Request qv) \<Rightarrow>
          if message_id response \<noteq> None then message_id request = message_id response
          else if \<not> ncl_message_is_valid request \<or> \<not> ncl_message_is_valid response then False
          else items_answer (ncl_set_response_item_matches ops) rv qv
      | _ \<Rightarrow> False)"

definition ncl_message_has_data :: "'d ncl_message \<Rightarrow> bool" where
  "ncl_message_has_data msg =
     (case as_body msg of
        As_Query_Response v \<Rightarrow> list_ex (\<lambda>x. case x of None \<Rightarrow> False | Some i \<Rightarrow> ncl_query_response_item_has_data i) (pv_items v)
      | _ \<Rightarrow> False)"

fun first_data :: "'d query_response_item option list \<Rightarrow> 'd json option" where
  "first_data [] = None"
| "first_data (x # xs) =
     (case x of
        None \<Rightarrow> first_data xs
      | Some i \<Rightarrow> if ncl_query_response_item_has_data i then ncl_query_response_item_data i else first_data xs)"

definition ncl_message_get_data :: "'d ncl_message \<Rightarrow> 'd json option" where
  "ncl_message_get_data msg = (case as_body msg of As_Query_Response v \<Rightarrow> first_data (pv_items v) | _ \<Rightarrow> None)"

end
