(* ===== verification/Message_Sample.thy ===== *)
theory Message_Sample
  imports Message
begin

text \<open>
  \<^verbatim>\<open>message.c\<close>, second part: samples. Header, completeness, repair of what a device left out, and the
  view of a sample as a table. A column is a \<open>sample_item\<close> whose slots hold a value or a batch of values.
  The loops over the body of a sample take the body; the public functions take the message.
\<close>

section \<open>Header\<close>

definition ncl_message_sample_header :: "grant \<Rightarrow> string option \<Rightarrow> 'd ncl_message \<Rightarrow> string option" where
  "ncl_message_sample_header g separator msg =
     (case as_body msg of
        As_Sample b \<Rightarrow>
          map_option text_of (fst (ncl_strbuf_detach g
            (foldl (\<lambda>sb i.
                let sb1 = (if i > 0 then snd (put_text g (case separator of None \<Rightarrow> '';'' | Some s \<Rightarrow> s) sb) else sb)
                in case ncl_strvec_at (sa_paths b) i of None \<Rightarrow> sb1 | Some p \<Rightarrow> snd (put_text g p sb1))
              ncl_strbuf_init [0 ..< ncl_strvec_len (sa_paths b)])))
      | _ \<Rightarrow> None)"

section \<open>Completeness\<close>

text \<open>A column of empty batches: a device has reserved the slots and has no data for them.\<close>

definition ncl_sample_column_is_empty_batch :: "'d sample_item option \<Rightarrow> bool" where
  "ncl_sample_column_is_empty_batch item =
     (case item of
        None \<Rightarrow> False
      | Some c \<Rightarrow>
          if si_data c = None then False
          else if ncl_json_arr_len (si_data c) = 0 then False
          else list_all (\<lambda>v. \<not> (ncl_json_type_of (Some v) \<noteq> NCL_JSON_ARRAY \<or> ncl_json_arr_len (Some v) \<noteq> 0)) (items (si_data c)))"

definition ncl_message_sample_is_complete :: "'d ncl_message \<Rightarrow> bool" where
  "ncl_message_sample_is_complete msg =
     (case as_body msg of
        As_Sample b \<Rightarrow>
          if ncl_strvec_len (sa_paths b) = 0 \<or> ncl_strvec_len (sa_paths b) \<noteq> ncl_ptrvec_len (sa_data b) then False
          else if \<not> list_all (\<lambda>x. \<not> (case x of None \<Rightarrow> True | Some c \<Rightarrow> si_data c = None)
                                  \<and> \<not> ncl_sample_column_is_empty_batch x) (pv_items (sa_data b)) then False
          else ncl_message_is_valid msg
      | _ \<Rightarrow> False)"

section \<open>Repair\<close>

text \<open>Reading the path of a sample item may fill its cache, which is in the model.\<close>

definition store_ref :: "node_pos \<Rightarrow> nat \<Rightarrow> sample_ref \<Rightarrow> 'v ncl_node \<Rightarrow> 'v ncl_node" where
  "store_ref pos i ref =
     node_update pos (\<lambda>f. f\<lparr>nd_sample_items := (nd_sample_items f)\<lparr>pv_items := (pv_items (nd_sample_items f))[i := Some ref]\<rparr>\<rparr>)"

definition channel_path :: "grant \<Rightarrow> node_pos \<Rightarrow> nat \<Rightarrow> 'v ncl_node \<Rightarrow> string option \<times> 'v ncl_node" where
  "channel_path g pos i root =
     (case (case node_at root pos of None \<Rightarrow> None | Some channel \<Rightarrow> ncl_node_sample_at (nf channel) i) of
        None \<Rightarrow> (None, root)
      | Some ref \<Rightarrow> (case ncl_sample_ref_path g root ref of (path, ref1) \<Rightarrow> (path, store_ref pos i ref1 root)))"

fun header_loop ::
  "grant \<Rightarrow> node_pos \<Rightarrow> string option \<Rightarrow> nat list \<Rightarrow> char strvec \<Rightarrow> 'v ncl_node \<Rightarrow> ncl_err \<times> char strvec \<times> 'v ncl_node" where
  "header_loop g pos device_path [] paths root = (NCL_OK, paths, root)"
| "header_loop g pos device_path (i # is) paths root =
     (case channel_path g pos i root of
        (absolute, root1) \<Rightarrow>
          (case ncl_path_without_device g absolute device_path of
             None \<Rightarrow> (NCL_ERR_NOT_FOUND, ncl_strvec_clear paths, root1)
           | Some path \<Rightarrow>
               (case ncl_strvec_push g paths (Some path) of
                  (err, paths1) \<Rightarrow>
                    if err \<noteq> NCL_OK then (err, ncl_strvec_clear paths1, root1)
                    else header_loop g pos device_path is paths1 root1)))"

definition ncl_sample_paths_from_model ::
  "grant \<Rightarrow> 'd sample_body \<Rightarrow> 'd json ncl_node option \<Rightarrow> ncl_err \<times> 'd sample_body \<times> 'd json ncl_node option" where
  "ncl_sample_paths_from_model g b model =
     (case (model, sa_id b) of
        (Some root, Some channel_id) \<Rightarrow>
          (case ncl_node_find_by_id root channel_id of
             None \<Rightarrow> (NCL_ERR_NOT_FOUND, b, model)
           | Some pos \<Rightarrow>
               (case map_option nf (node_at root pos) of
                  None \<Rightarrow> (NCL_ERR_NOT_FOUND, b, model)
                | Some channel \<Rightarrow>
                    if \<not> ncl_node_is_sample_node channel then (NCL_ERR_NOT_FOUND, b, model)
                    else if ncl_node_sample_count channel = 0 \<or> ncl_node_sample_count channel \<noteq> ncl_ptrvec_len (sa_data b)
                    then (NCL_ERR_NOT_FOUND, b, model)
                    else (case header_loop g pos
                                 (or_else (ncl_node_device_path root pos) (ncl_node_device_path root [(In_Devices, 0)]))
                                 [0 ..< ncl_node_sample_count channel] (ncl_strvec_clear (sa_paths b)) root of
                            (err, paths, root1) \<Rightarrow> (err, b\<lparr>sa_paths := paths\<rparr>, Some root1))))
      | _ \<Rightarrow> (NCL_ERR_NOT_FOUND, b, model))"

fun take_slots :: "nat \<Rightarrow> 'd json option \<Rightarrow> 'd json option" where
  "take_slots 0 arr = arr"
| "take_slots (Suc n) arr = take_slots n (snd (ncl_json_arr_take arr 0))"

fun push_nulls :: "grant \<Rightarrow> nat \<Rightarrow> 'd json option \<Rightarrow> ncl_err \<times> 'd json option" where
  "push_nulls g 0 arr = (NCL_OK, arr)"
| "push_nulls g (Suc n) arr =
     (case ncl_json_arr_push g arr (ncl_json_new_null g) of
        (rc, arr1) \<Rightarrow> if rc \<noteq> NCL_OK then (rc, arr1) else push_nulls g n arr1)"

text \<open>The number of columns that were filled, and the columns; the first refusal ends the work.\<close>

fun fill_columns :: "grant \<Rightarrow> nat \<Rightarrow> 'd sample_item option list \<Rightarrow> nat \<times> 'd sample_item option list" where
  "fill_columns g filled [] = (filled, [])"
| "fill_columns g filled (x # xs) =
     (if \<not> ncl_sample_column_is_empty_batch x
      then (case fill_columns g filled xs of (n, ys) \<Rightarrow> (n, x # ys))
      else (case x of
              None \<Rightarrow> (filled, x # xs)
            | Some c \<Rightarrow>
                (case push_nulls g (ncl_json_arr_len (si_data c)) (take_slots (ncl_json_arr_len (si_data c)) (si_data c)) of
                   (rc, arr) \<Rightarrow>
                     if rc \<noteq> NCL_OK then (Suc filled, Some (c\<lparr>si_data := arr\<rparr>) # xs)
                     else (case fill_columns g (Suc filled) xs of (n, ys) \<Rightarrow> (n, Some (c\<lparr>si_data := arr\<rparr>) # ys)))))"

definition ncl_message_sample_fill_empty_columns :: "grant \<Rightarrow> 'd ncl_message \<Rightarrow> nat \<times> 'd ncl_message" where
  "ncl_message_sample_fill_empty_columns g msg =
     (case as_body msg of
        As_Sample b \<Rightarrow>
          (case fill_columns g 0 (pv_items (sa_data b)) of
             (n, xs) \<Rightarrow> (n, msg\<lparr>as_body := As_Sample (b\<lparr>sa_data := (sa_data b)\<lparr>pv_items := xs\<rparr>\<rparr>)\<rparr>))
      | _ \<Rightarrow> (0, msg))"

definition ncl_message_sample_normalise ::
  "grant \<Rightarrow> 'd ncl_message \<Rightarrow> 'd json ncl_node option \<Rightarrow> ncl_err \<times> 'd ncl_message \<times> 'd json ncl_node option" where
  "ncl_message_sample_normalise g msg model =
     (case as_body msg of
        As_Sample b \<Rightarrow>
          (case (if ncl_strvec_len (sa_paths b) \<noteq> ncl_ptrvec_len (sa_data b) then ncl_sample_paths_from_model g b model
                 else (NCL_OK, b, model)) of
             (err, b1, model1) \<Rightarrow>
               if err \<noteq> NCL_OK then (err, msg\<lparr>as_body := As_Sample b1\<rparr>, model1)
               else (let msg1 = snd (ncl_message_sample_fill_empty_columns g (msg\<lparr>as_body := As_Sample b1\<rparr>))
                     in (if ncl_message_sample_is_complete msg1 then NCL_OK else NCL_ERR_STATE, msg1, model1)))
      | _ \<Rightarrow> (NCL_ERR_INVALID_ARG, msg, model))"

section \<open>Samples as tables\<close>

definition ncl_sample_item_is_nested :: "'d sample_item \<Rightarrow> bool" where
  "ncl_sample_item_is_nested item \<longleftrightarrow> list_ex (\<lambda>v. ncl_json_type_of (Some v) = NCL_JSON_ARRAY) (items (si_data item))"

fun count_values :: "nat \<Rightarrow> 'd json list \<Rightarrow> nat" where
  "count_values n [] = n"
| "count_values n (v # vs) =
     count_values (n + (if ncl_json_type_of (Some v) = NCL_JSON_ARRAY then ncl_json_arr_len (Some v) else 1)) vs"

definition ncl_sample_item_value_count :: "'d sample_item \<Rightarrow> nat" where
  "ncl_sample_item_value_count item = count_values 0 (items (si_data item))"

fun seek_value :: "nat \<Rightarrow> nat \<Rightarrow> 'd json list \<Rightarrow> 'd json option" where
  "seek_value index seen [] = None"
| "seek_value index seen (v # vs) =
     (if ncl_json_type_of (Some v) = NCL_JSON_ARRAY
      then (if index < seen + ncl_json_arr_len (Some v) then ncl_json_arr_get (Some v) (index - seen)
            else seek_value index (seen + ncl_json_arr_len (Some v)) vs)
      else (if index = seen then Some v else seek_value index (seen + 1) vs))"

definition ncl_sample_item_value_at :: "'d sample_item \<Rightarrow> nat \<Rightarrow> 'd json option" where
  "ncl_sample_item_value_at item index = seek_value index 0 (items (si_data item))"

definition item_points :: "'d sample_item option \<Rightarrow> nat" where
  "item_points item = (case item of None \<Rightarrow> 0 | Some c \<Rightarrow> ncl_sample_item_value_count c)"

definition ncl_message_sample_point_count :: "'d ncl_message \<Rightarrow> nat" where
  "ncl_message_sample_point_count msg =
     (case as_body msg of
        As_Sample b \<Rightarrow> foldl (\<lambda>rows x. if item_points x > rows then item_points x else rows) 0 (pv_items (sa_data b))
      | _ \<Rightarrow> 0)"

text \<open>The product of the row and the number of points is a \<open>size_t\<close>.\<close>

definition ncl_message_sample_value_at :: "'d ncl_message \<Rightarrow> nat \<Rightarrow> nat \<Rightarrow> 'd json option" where
  "ncl_message_sample_value_at msg row column =
     (case as_body msg of
        As_Sample b \<Rightarrow>
          if column \<ge> ncl_ptrvec_len (sa_data b) then None
          else (let rows = ncl_message_sample_point_count msg
                in if rows = 0 \<or> row \<ge> rows then None
                   else (case ncl_ptrvec_at (sa_data b) column of
                           None \<Rightarrow> None
                         | Some item \<Rightarrow>
                             (let points = ncl_sample_item_value_count item
                              in if points = 0 then None
                                 else ncl_sample_item_value_at item ((row * points) mod 2 ^ 64 div rows))))
      | _ \<Rightarrow> None)"

end
