(* ===== verification/Message_Sample_Props.thy ===== *)
theory Message_Sample_Props
  imports Message_Sample Json_Copy
begin

text \<open>
  Samples as tables: a column is the list of its values, a sample that is published is aligned, and a
  repaired one differs only in the columns that had no data.
\<close>

section \<open>The values of a column\<close>

definition cell_values :: "'d json \<Rightarrow> 'd json list" where
  "cell_values v = (if ncl_json_type_of (Some v) = NCL_JSON_ARRAY then items (Some v) else [v])"

definition column_values :: "'d sample_item \<Rightarrow> 'd json list" where
  "column_values item = concat (map cell_values (items (si_data item)))"

definition column_points :: "'d sample_item option \<Rightarrow> nat" where
  "column_points x = (case x of None \<Rightarrow> 0 | Some item \<Rightarrow> length (column_values item))"

lemma count_values_exact: "count_values n vs = n + length (concat (map cell_values vs))"
  by (induction vs arbitrary: n) (simp_all add: cell_values_def ncl_json_arr_len_def)

lemma value_count_exact: "ncl_sample_item_value_count item = length (column_values item)"
  by (simp add: ncl_sample_item_value_count_def column_values_def count_values_exact)

lemma item_points_exact: "item_points x = column_points x"
  by (simp add: item_points_def column_points_def value_count_exact split: option.split)

lemma seek_value_exact:
  "seen \<le> index \<Longrightarrow> seek_value index seen vs =
     (let ps = concat (map cell_values vs) in if index - seen < length ps then Some (ps ! (index - seen)) else None)"
proof (induction vs arbitrary: seen)
  case (Cons v vs)
  show ?case
  proof (cases "ncl_json_type_of (Some v) = NCL_JSON_ARRAY")
    case True
    show ?thesis
    proof (cases "index < seen + length (items (Some v))")
      case True
      with \<open>ncl_json_type_of (Some v) = NCL_JSON_ARRAY\<close> Cons.prems show ?thesis
        by (auto simp: cell_values_def ncl_json_arr_len_def ncl_json_arr_get_def Let_def nth_append)
    next
      case False
      then have "seen + length (items (Some v)) \<le> index" by simp
      from Cons.IH [OF this] False True show ?thesis
        by (auto simp: cell_values_def ncl_json_arr_len_def Let_def nth_append)
    qed
  next
    case False
    show ?thesis
    proof (cases "index = seen")
      case True
      with False show ?thesis by (simp add: cell_values_def Let_def)
    next
      case other: False
      with Cons.prems have "seen + 1 \<le> index" by simp
      from Cons.IH [OF this] other False Cons.prems show ?thesis
        by (auto simp: cell_values_def Let_def nth_Cons')
    qed
  qed
qed (simp add: Let_def)

lemma value_at_exact:
  "ncl_sample_item_value_at item i = (if i < length (column_values item) then Some (column_values item ! i) else None)"
  by (simp add: ncl_sample_item_value_at_def seek_value_exact column_values_def Let_def)

section \<open>Rows\<close>

lemma rows_fold: "foldl (\<lambda>rows x. if item_points x > rows then item_points x else rows) r xs = foldl max r (map column_points xs)"
  by (induction xs arbitrary: r) (auto simp: item_points_exact max_def)

lemma point_count_exact:
  "as_body msg = As_Sample b \<Longrightarrow> ncl_message_sample_point_count msg = foldl max 0 (map column_points (pv_items (sa_data b)))"
  by (simp add: ncl_message_sample_point_count_def rows_fold)

lemma foldl_max_ge: "r \<le> foldl max r (ns :: nat list) \<and> (\<forall>n \<in> set ns. n \<le> foldl max r ns)"
proof (induction ns arbitrary: r)
  case (Cons n ns)
  from Cons.IH [of "max r n"] show ?case by auto
qed simp

lemma column_le_rows:
  assumes "as_body msg = As_Sample b" "column < length (pv_items (sa_data b))" "pv_items (sa_data b) ! column = Some item"
  shows "length (column_values item) \<le> ncl_message_sample_point_count msg"
proof -
  have "column_points (Some item) \<in> set (map column_points (pv_items (sa_data b)))"
    using assms(2,3) nth_mem [of column "pv_items (sa_data b)"] by (auto simp flip: assms(3))
  then show ?thesis
    using foldl_max_ge [of 0 "map column_points (pv_items (sa_data b))"] point_count_exact [OF assms(1)] by (auto simp: column_points_def)
qed

lemma scaled_index: "row < rows \<Longrightarrow> 0 < (points :: nat) \<Longrightarrow> row * points div rows < points"
  by (metis less_mult_imp_div_less mult.commute mult_less_mono1)

text \<open>
  C28. A sample as a table. The number of rows is that of the column with the most values. A cell
  holds the value of its column at the row scaled to the column's own number of values, which is in
  range, so that the finest column is read value by value and a coarser one repeats its values; a
  column without values has no cells. The product that scales the row stays within 64 bits for up
  to 2^32 rows.
\<close>

theorem sample_table_exact:
  assumes "as_body msg = As_Sample b" "column < length (pv_items (sa_data b))" "pv_items (sa_data b) ! column = Some item"
    and "row < ncl_message_sample_point_count msg" "ncl_message_sample_point_count msg \<le> 2 ^ 32"
  shows "ncl_message_sample_point_count msg = foldl max 0 (map column_points (pv_items (sa_data b)))
    \<and> ncl_message_sample_value_at msg row column =
        (if column_values item = [] then None
         else Some (column_values item ! (row * length (column_values item) div ncl_message_sample_point_count msg)))
    \<and> (column_values item \<noteq> [] \<longrightarrow>
         row * length (column_values item) div ncl_message_sample_point_count msg < length (column_values item))
    \<and> (length (column_values item) = ncl_message_sample_point_count msg \<longrightarrow>
         ncl_message_sample_value_at msg row column = Some (column_values item ! row))"
proof -
  let ?rows = "ncl_message_sample_point_count msg" and ?ps = "column_values item"
  have le: "length ?ps \<le> ?rows" by (rule column_le_rows [OF assms(1-3)])
  have "row * length ?ps \<le> (2 ^ 32 - 1) * 2 ^ 32"
    using assms(4,5) le by (intro mult_le_mono) simp_all
  then have small: "row * length ?ps mod 2 ^ 64 = row * length ?ps" by simp
  have range: "?ps \<noteq> [] \<Longrightarrow> row * length ?ps div ?rows < length ?ps"
    using assms(4) by (intro scaled_index) simp_all
  have cell: "ncl_message_sample_value_at msg row column = (if ?ps = [] then None else Some (?ps ! (row * length ?ps div ?rows)))"
    using assms(1-4) small range
    by (auto simp: ncl_message_sample_value_at_def ncl_ptrvec_len_def ncl_ptrvec_at_def Let_def value_count_exact value_at_exact)
  show ?thesis
    using cell range point_count_exact [OF assms(1)] assms(4) by auto
qed

text \<open>A column of one value per slot beside one of two values per slot.\<close>

definition two_rates :: "int ncl_message" where
  "two_rates = \<lparr>message_id = None, as_body = As_Sample \<lparr>sa_paths = \<lparr>sv_items = [''/POWER'', ''/VIBRATION''], sv_cap = 8\<rparr>,
     sa_id = Some ''c1'', sa_begin_time = Some ''0'',
     sa_data = \<lparr>pv_items = [Some \<lparr>si_encoding = None, si_data = Some (J_Array [J_Bool True, J_Bool False] 8)\<rparr>,
       Some \<lparr>si_encoding = None, si_data = Some (J_Array [J_Array [J_Null, J_Bool True] 8, J_Array [J_Bool False, J_Null] 8] 8)\<rparr>],
       pv_cap = 8, pv_free = True\<rparr>,
     sa_has_interval = False, sa_interval = 0, sa_has_upload_interval = False, sa_upload_interval = 0\<rparr>\<rparr>"

lemma sample_table_exact_witness:
  "ncl_message_sample_point_count two_rates = 4 \<and> ncl_message_sample_value_at two_rates 2 0 = Some (J_Bool False)"
proof -
  have rows: "ncl_message_sample_point_count two_rates = 4"
    by (simp add: two_rates_def ncl_message_sample_point_count_def item_points_def ncl_sample_item_value_count_def items_def
        ncl_json_type_of_def ncl_json_arr_len_def)
  have held: "column_values \<lparr>si_encoding = None, si_data = Some (J_Array [J_Bool True, J_Bool False] 8 :: int json)\<rparr> = [J_Bool True, J_Bool False]"
    by (simp add: column_values_def cell_values_def items_def ncl_json_type_of_def)
  show ?thesis
    using sample_table_exact [of two_rates _ 0 "\<lparr>si_encoding = None, si_data = Some (J_Array [J_Bool True, J_Bool False] 8)\<rparr>" 2] rows held
    by (simp add: two_rates_def)
qed

section \<open>Alignment\<close>

definition empty_batch :: "'d json \<Rightarrow> bool" where
  "empty_batch v \<longleftrightarrow> (case v of J_Array xs c \<Rightarrow> xs = [] | _ \<Rightarrow> False)"

lemma empty_batch_cell:
  "(ncl_json_type_of (Some v) = NCL_JSON_ARRAY \<and> items (Some v) = []) = empty_batch v"
  by (cases v) (auto simp: empty_batch_def ncl_json_type_of_def items_def)

lemma empty_column_iff:
  "ncl_sample_column_is_empty_batch (Some c) \<longleftrightarrow> items (si_data c) \<noteq> [] \<and> list_all empty_batch (items (si_data c))"
proof (cases "si_data c = None")
  case True
  then show ?thesis by (simp add: ncl_sample_column_is_empty_batch_def items_def)
next
  case False
  then show ?thesis by (auto simp: ncl_sample_column_is_empty_batch_def ncl_json_arr_len_def empty_batch_cell)
qed

text \<open>A column that a consumer can use: it has its slots, and is not reserved without data.\<close>

definition usable :: "nat \<Rightarrow> 'd sample_item option \<Rightarrow> bool" where
  "usable n x \<longleftrightarrow> (\<exists>c. x = Some c \<and> si_data c \<noteq> None \<and> length (items (si_data c)) = n \<and> \<not> (n > 0 \<and> list_all empty_batch (items (si_data c))))"

lemma complete_usable:
  assumes "ncl_message_sample_is_complete msg"
  shows "\<exists>b n. as_body msg = As_Sample b \<and> sv_items (sa_paths b) \<noteq> [] \<and> length (sv_items (sa_paths b)) = length (pv_items (sa_data b))
    \<and> list_all (usable n) (pv_items (sa_data b))"
proof -
  obtain b where b: "as_body msg = As_Sample b"
    using assms by (auto simp: ncl_message_sample_is_complete_def split: message_body.splits)
  let ?xs = "pv_items (sa_data b)"
  have paths: "sv_items (sa_paths b) \<noteq> []" "length (sv_items (sa_paths b)) = length ?xs"
    and each: "\<And>x. x \<in> set ?xs \<Longrightarrow> \<exists>c. x = Some c \<and> si_data c \<noteq> None \<and> \<not> ncl_sample_column_is_empty_batch x"
    and valid: "same_slots (sa_data b)"
    using assms b by (auto simp: ncl_message_sample_is_complete_def ncl_strvec_len_def ncl_ptrvec_len_def list_all_iff
        ncl_message_is_valid_def split: if_splits option.splits)
  then obtain first rest where xs: "?xs = first # rest" by (cases ?xs) auto
  from each [of first] xs obtain c where c: "first = Some c" by auto
  have "list_all (usable (length (items (si_data c)))) ?xs"
    unfolding list_all_iff
  proof
    fix x assume x: "x \<in> set ?xs"
    from each [OF x] obtain d where d: "x = Some d" "si_data d \<noteq> None" "\<not> ncl_sample_column_is_empty_batch (Some d)" by auto
    have "length (items (si_data d)) = length (items (si_data c))"
      using valid x d(1) xs c
      by (auto simp: same_slots_def ncl_ptrvec_len_def ncl_ptrvec_at_def list_all_iff ncl_json_arr_len_def)
    with d show "usable (length (items (si_data c))) x"
      by (auto simp: usable_def empty_column_iff)
  qed
  with b paths show ?thesis by blast
qed

text \<open>
  C19. What is published is aligned. Whenever \<open>ncl_message_sample_normalise\<close> reports success, under
  any memory refusals and for any model, the message is a sample with a header, one column per
  entry of the header, the same number of slots in every column, and no column whose slots are all
  reserved without data.
\<close>

theorem sample_published_aligned:
  assumes "ncl_message_sample_normalise g msg model = (NCL_OK, msg1, model1)"
  shows "\<exists>b n. as_body msg1 = As_Sample b \<and> sv_items (sa_paths b) \<noteq> [] \<and> length (sv_items (sa_paths b)) = length (pv_items (sa_data b))
    \<and> list_all (usable n) (pv_items (sa_data b))"
proof (rule complete_usable)
  show "ncl_message_sample_is_complete msg1"
    using assms by (auto simp: ncl_message_sample_normalise_def Let_def split: message_body.splits if_splits prod.splits)
qed

lemma sample_published_aligned_witness:
  "ncl_message_sample_normalise grant_all two_rates None = (NCL_OK, two_rates, None) \<and>
   (\<exists>b n. as_body two_rates = As_Sample b \<and> sv_items (sa_paths b) \<noteq> [] \<and>
      length (sv_items (sa_paths b)) = length (pv_items (sa_data b)) \<and> list_all (usable n) (pv_items (sa_data b)))"
proof -
  have "ncl_message_sample_normalise grant_all two_rates None = (NCL_OK, two_rates, None)"
    by (simp add: two_rates_def ncl_message_sample_normalise_def ncl_message_sample_fill_empty_columns_def ncl_strvec_len_def
        ncl_ptrvec_len_def ncl_ptrvec_at_def ncl_sample_column_is_empty_batch_def ncl_json_arr_len_def ncl_json_type_of_def
        items_def ncl_message_sample_is_complete_def ncl_message_is_valid_def same_slots_def)
  with sample_published_aligned [OF this] show ?thesis by blast
qed

section \<open>Repair\<close>

lemma take_slots_all: "take_slots (length xs) (Some (J_Array xs c)) = Some (J_Array [] c)"
  by (induction xs) (simp_all add: ncl_json_arr_take_def)

lemma push_nulls_all:
  fixes xs :: "'d json list"
  shows "\<exists>c1. push_nulls grant_all n (Some (J_Array xs c)) = (NCL_OK, Some (J_Array (xs @ replicate n J_Null) c1))"
proof (induction n arbitrary: xs c)
  case (Suc n)
  obtain c1 where c1: "ncl_json_arr_push grant_all (Some (J_Array xs c)) (Some J_Null) = (NCL_OK, Some (J_Array (xs @ [J_Null]) c1))"
    using push_all by blast
  have "ncl_json_new_null grant_all = Some (J_Null :: 'd json)" by (simp add: ncl_json_new_null_def ncl_json_alloc_def grant_all)
  with Suc.IH [of "xs @ [J_Null]" c1] c1 show ?case by simp
qed simp

definition repaired :: "'d sample_item option \<Rightarrow> 'd sample_item option \<Rightarrow> bool" where
  "repaired x y \<longleftrightarrow> (\<exists>c d. x = Some c \<and> y = Some d \<and> si_encoding d = si_encoding c \<and> si_data d \<noteq> None \<and>
     items (si_data d) = (if ncl_sample_column_is_empty_batch x then replicate (length (items (si_data c))) J_Null else items (si_data c)))"

definition has_slots :: "nat \<Rightarrow> 'd sample_item option \<Rightarrow> bool" where
  "has_slots n x \<longleftrightarrow> (\<exists>c xs k. x = Some c \<and> si_data c = Some (J_Array xs k) \<and> length xs = n)"

lemma fill_columns_all:
  fixes xs :: "'d sample_item option list"
  shows "list_all (has_slots n) xs \<Longrightarrow> \<exists>k ys. fill_columns grant_all filled xs = (k, ys) \<and> list_all2 repaired xs ys"
proof (induction xs arbitrary: filled)
  case (Cons x xs)
  then obtain c vs k where x: "x = Some c" "si_data c = Some (J_Array vs k)" by (auto simp: has_slots_def)
  note IH = Cons.IH [OF Cons.prems [simplified, THEN conjunct2]]
  show ?case
  proof (cases "ncl_sample_column_is_empty_batch x")
    case True
    obtain c1 where c1: "push_nulls grant_all (length vs) (Some (J_Array [] k)) = (NCL_OK, Some (J_Array (replicate (length vs) (J_Null :: 'd json)) c1))"
      using push_nulls_all [of "length vs" "[]" k] by auto
    obtain m ys where ys: "fill_columns grant_all (Suc filled) xs = (m, ys)" "list_all2 repaired xs ys" using IH by blast
    have "fill_columns grant_all filled (x # xs) = (m, Some (c\<lparr>si_data := Some (J_Array (replicate (length vs) J_Null) c1)\<rparr>) # ys)"
      using True x by (simp add: ncl_json_arr_len_def items_def take_slots_all c1 ys(1))
    moreover have "repaired x (Some (c\<lparr>si_data := Some (J_Array (replicate (length vs) J_Null) c1)\<rparr>))"
      using True x by (simp add: repaired_def items_def)
    ultimately show ?thesis using ys(2) by blast
  next
    case False
    obtain m ys where ys: "fill_columns grant_all filled xs = (m, ys)" "list_all2 repaired xs ys" using IH by blast
    from False x have "repaired x x" by (simp add: repaired_def)
    with False ys show ?thesis by auto
  qed
qed simp

lemma repaired_usable:
  assumes "repaired x y" "has_slots n x"
  shows "usable n y"
proof -
  from assms obtain c d vs k where x: "x = Some c" "si_data c = Some (J_Array vs k)" "length vs = n"
    and y: "y = Some d" "si_data d \<noteq> None"
      "items (si_data d) = (if ncl_sample_column_is_empty_batch x then replicate n J_Null else vs)"
    by (auto simp: repaired_def has_slots_def items_def)
  have "\<not> empty_batch J_Null" by (simp add: empty_batch_def)
  then have "\<not> (n > 0 \<and> list_all empty_batch (items (si_data d)))"
    using y(3) x by (auto simp: empty_column_iff items_def list_all_iff split: if_splits)
  with x y show ?thesis by (auto simp: usable_def split: if_splits)
qed

lemma usable_complete:
  assumes "as_body msg = As_Sample b" "sv_items (sa_paths b) \<noteq> []" "length (sv_items (sa_paths b)) = length (pv_items (sa_data b))"
    and "list_all (usable n) (pv_items (sa_data b))"
  shows "ncl_message_sample_is_complete msg"
proof -
  let ?xs = "pv_items (sa_data b)"
  have each: "\<exists>c. x = Some c \<and> si_data c \<noteq> None \<and> length (items (si_data c)) = n \<and> \<not> ncl_sample_column_is_empty_batch x" if "x \<in> set ?xs" for x
    using assms(4) that by (fastforce simp: list_all_iff usable_def empty_column_iff)
  from assms(2,3) obtain first rest where xs: "?xs = first # rest" by (cases ?xs) auto
  from each [of first] xs obtain c where c: "first = Some c" "length (items (si_data c)) = n" by auto
  have "case x of None \<Rightarrow> False | Some i \<Rightarrow> ncl_json_arr_len (si_data i) = ncl_json_arr_len (si_data c)" if "x \<in> set rest" for x
    using each [of x] that c(2) xs by (auto simp: ncl_json_arr_len_def)
  then have "same_slots (sa_data b)"
    using c(1) xs by (simp add: same_slots_def ncl_ptrvec_len_def ncl_ptrvec_at_def list_all_iff)
  with assms(1-3) each show ?thesis
    by (fastforce simp: ncl_message_sample_is_complete_def ncl_strvec_len_def ncl_ptrvec_len_def ncl_message_is_valid_def list_all_iff)
qed

text \<open>
  The repair. When a sample has a header with one entry per column and every column has the same
  number of slots, \<open>ncl_message_sample_normalise\<close> succeeds without looking at the model and changes
  only the columns whose slots are all empty batches: each of their slots becomes null. Headers,
  encodings and every other column stay as they are.
\<close>

theorem sample_normalise_repairs:
  assumes "as_body msg = As_Sample b" "sv_items (sa_paths b) \<noteq> []" "length (sv_items (sa_paths b)) = length (pv_items (sa_data b))"
    and "list_all (has_slots n) (pv_items (sa_data b))"
  shows "\<exists>columns. ncl_message_sample_normalise grant_all msg model =
      (NCL_OK, msg\<lparr>as_body := As_Sample (b\<lparr>sa_data := (sa_data b)\<lparr>pv_items := columns\<rparr>\<rparr>)\<rparr>, model)
    \<and> list_all2 repaired (pv_items (sa_data b)) columns"
proof -
  obtain k ys where ys: "fill_columns grant_all 0 (pv_items (sa_data b)) = (k, ys)" "list_all2 repaired (pv_items (sa_data b)) ys"
    using fill_columns_all [OF assms(4)] by blast
  let ?b = "b\<lparr>sa_data := (sa_data b)\<lparr>pv_items := ys\<rparr>\<rparr>"
  have "list_all (usable n) ys"
    using ys(2) assms(4) by (fastforce simp: list_all_length list_all2_conv_all_nth intro: repaired_usable)
  then have "ncl_message_sample_is_complete (msg\<lparr>as_body := As_Sample ?b\<rparr>)"
    using assms(2,3) ys(2) by (intro usable_complete [of _ ?b n]) (simp_all add: list_all2_lengthD)
  moreover have "msg\<lparr>as_body := As_Sample b\<rparr> = msg" using assms(1) by simp
  ultimately show ?thesis
    using assms(1,3) ys by (auto simp: ncl_message_sample_normalise_def ncl_message_sample_fill_empty_columns_def
        ncl_strvec_len_def ncl_ptrvec_len_def Let_def)
qed

text \<open>The second column has its two slots and no data.\<close>

definition no_data_yet :: "int sample_body" where
  "no_data_yet = \<lparr>sa_paths = \<lparr>sv_items = [''/POWER'', ''/VIBRATION''], sv_cap = 8\<rparr>, sa_id = Some ''c1'', sa_begin_time = Some ''0'',
     sa_data = \<lparr>pv_items = [Some \<lparr>si_encoding = None, si_data = Some (J_Array [J_Bool True, J_Bool False] 8)\<rparr>,
       Some \<lparr>si_encoding = None, si_data = Some (J_Array [J_Array [] 0, J_Array [] 0] 8)\<rparr>], pv_cap = 8, pv_free = True\<rparr>,
     sa_has_interval = False, sa_interval = 0, sa_has_upload_interval = False, sa_upload_interval = 0\<rparr>"

lemma sample_normalise_repairs_witness:
  "\<exists>columns. fst (ncl_message_sample_normalise grant_all \<lparr>message_id = None, as_body = As_Sample no_data_yet\<rparr> None) = NCL_OK
    \<and> list_all2 repaired (pv_items (sa_data no_data_yet)) columns"
proof -
  have "list_all (has_slots 2) (pv_items (sa_data no_data_yet))"
    by (simp add: no_data_yet_def has_slots_def)
  with sample_normalise_repairs [of "\<lparr>message_id = None, as_body = As_Sample no_data_yet\<rparr>" no_data_yet 2 None]
  show ?thesis by (fastforce simp: no_data_yet_def)
qed

text \<open>Columns without slots count as complete.\<close>

lemma complete_without_slots:
  "ncl_message_sample_is_complete \<lparr>message_id = None, as_body = As_Sample (no_data_yet
     \<lparr>sa_data := \<lparr>pv_items = [Some \<lparr>si_encoding = None, si_data = Some (J_Array [] 0)\<rparr>, Some \<lparr>si_encoding = None, si_data = Some (J_Bool True)\<rparr>],
        pv_cap = 8, pv_free = True\<rparr>\<rparr>)\<rparr>"
  by (simp add: no_data_yet_def ncl_message_sample_is_complete_def ncl_strvec_len_def ncl_ptrvec_len_def ncl_ptrvec_at_def
      ncl_sample_column_is_empty_batch_def ncl_json_arr_len_def items_def ncl_message_is_valid_def same_slots_def)

end
