(* ===== verification/Message_Json.thy ===== *)
theory Message_Json
  imports Message_Sample
begin

text \<open>
  \<^verbatim>\<open>message.c\<close>, third part: a message as a JSON document and back, and the parser of what arrives on a
  topic. As for the model, reading a document does not thread the number caches it fills in.
\<close>

section \<open>Writing\<close>

definition put_copy :: "grant \<Rightarrow> 'd double_ops \<Rightarrow> string \<Rightarrow> 'd json option \<Rightarrow> 'd json option \<Rightarrow> 'd json option" where
  "put_copy g ops key v obj = (case v of None \<Rightarrow> obj | Some j \<Rightarrow> put_json g key (ncl_json_clone g ops j) obj)"

text \<open>The entries of a list; the first that cannot be built or added ends it.\<close>

fun entries_json :: "grant \<Rightarrow> ('i \<Rightarrow> 'd json option \<Rightarrow> 'd json option) \<Rightarrow> 'i option list \<Rightarrow> 'd json option \<Rightarrow> 'd json option" where
  "entries_json g w [] arr = arr"
| "entries_json g w (x # xs) arr =
     (case (x, ncl_json_new_object g) of
        (Some item, Some entry) \<Rightarrow>
          (case ncl_json_arr_push g arr (w item (Some entry)) of
             (rc, arr1) \<Rightarrow> if rc \<noteq> NCL_OK then arr1 else entries_json g w xs arr1)
      | _ \<Rightarrow> arr)"

definition put_items :: "grant \<Rightarrow> string \<Rightarrow> ('i \<Rightarrow> 'd json option \<Rightarrow> 'd json option) \<Rightarrow> 'i ptrvec \<Rightarrow> 'd json option \<Rightarrow> 'd json option" where
  "put_items g key w v obj =
     (let arr = (case ncl_json_new_array g of None \<Rightarrow> None | Some a \<Rightarrow> entries_json g w (pv_items v) (Some a))
      in if ncl_ptrvec_len v > 0 then put_json g key arr obj else obj)"

definition request_entry :: "grant \<Rightarrow> 'd double_ops \<Rightarrow> 'd request_item \<Rightarrow> 'd json option \<Rightarrow> 'd json option" where
  "request_entry g ops item entry = put_copy g ops ''params'' (qi_params item) (put_str g ''id'' (qi_id item) entry)"

definition query_response_entry :: "grant \<Rightarrow> 'd double_ops \<Rightarrow> 'd query_response_item \<Rightarrow> 'd json option \<Rightarrow> 'd json option" where
  "query_response_entry g ops item entry =
     (let e1 = put_str g ''reason'' (qr_reason item) (put_str g ''code'' (qr_code item) (put_str g ''id'' (qr_id item) entry));
          e2 = put_copy g ops ''params'' (qr_params item) e1
      in if ncl_json_arr_len (qr_values item) > 0 then put_copy g ops ''values'' (qr_values item) e2 else e2)"

definition set_response_entry :: "grant \<Rightarrow> 'd double_ops \<Rightarrow> 'd set_response_item \<Rightarrow> 'd json option \<Rightarrow> 'd json option" where
  "set_response_entry g ops item entry =
     (let e1 = put_str g ''reason'' (so_reason item) (put_str g ''code'' (so_code item) (put_str g ''id'' (so_id item) entry))
      in put_copy g ops ''result'' (so_result item) (put_copy g ops ''params'' (so_params item) e1))"

definition sample_entry :: "grant \<Rightarrow> 'd double_ops \<Rightarrow> 'd sample_item \<Rightarrow> 'd json option \<Rightarrow> 'd json option" where
  "sample_entry g ops item entry = put_copy g ops ''data'' (si_data item) (put_str g ''encoding'' (si_encoding item) entry)"

definition put_model :: "grant \<Rightarrow> 'd double_ops \<Rightarrow> 'd json ncl_node option \<Rightarrow> 'd json option \<Rightarrow> 'd json option" where
  "put_model g ops model obj = (case model of None \<Rightarrow> obj | Some m \<Rightarrow> put_json g ''probe'' (ncl_node_to_json g ops m) obj)"

definition write_sample :: "grant \<Rightarrow> 'd double_ops \<Rightarrow> 'd sample_body \<Rightarrow> 'd json option \<Rightarrow> 'd json option" where
  "write_sample g ops b obj =
     (let o1 = (if ncl_strvec_len (sa_paths b) > 0 then put_json g ''paths'' (ncl_strvec_to_json g (sa_paths b)) obj else obj);
          o2 = put_str g ''beginTime'' (sa_begin_time b) (put_str g ''id'' (sa_id b) o1);
          o3 = put_items g ''data'' (sample_entry g ops) (sa_data b) o2;
          o4 = put_int g ops ''interval'' (sa_has_interval b) (sa_interval b) o3
      in put_int g ops ''uploadInterval'' (sa_has_upload_interval b) (sa_upload_interval b) o4)"

definition write_call_request :: "grant \<Rightarrow> 'd double_ops \<Rightarrow> 'd call_request \<Rightarrow> 'd json option \<Rightarrow> 'd json option" where
  "write_call_request g ops b obj =
     (let o1 = put_copy g ops ''args'' (cq_params b) (put_str g ''method'' (cq_method b) obj);
          o2 = put_bool g ''async'' (cq_has_async b) (cq_async b) o1;
          o3 = put_bool g ''check'' (cq_has_check b) (cq_check b) o2
      in put_str g ''token'' (cq_token b) o3)"

definition write_call_response :: "grant \<Rightarrow> 'd double_ops \<Rightarrow> 'd call_response \<Rightarrow> 'd json option \<Rightarrow> 'd json option" where
  "write_call_response g ops b obj =
     (let o1 = put_str g ''method'' (cs_method b) (put_str g ''code'' (cs_code b) obj);
          o2 = put_copy g ops ''params'' (cs_params b) o1;
          o3 = put_bool g ''check'' (cs_has_check b) (cs_check b) o2;
          o4 = put_copy g ops ''data'' (cs_data b) (put_str g ''token'' (cs_token b) o3)
      in put_str g ''handler'' (cs_handler b) (put_str g ''reason'' (cs_reason b) o4))"

definition write_status_response :: "grant \<Rightarrow> 'd double_ops \<Rightarrow> status_response \<Rightarrow> 'd json option \<Rightarrow> 'd json option" where
  "write_status_response g ops b obj =
     (let o1 = put_str g ''handler'' (st_handler b) (put_str g ''id'' (st_id b) obj);
          o2 = put_int g ops ''process'' (st_has_process b) (st_process b) o1
      in put_str g ''code'' (st_code b) (put_str g ''status'' (st_status b) o2))"

definition write_result_response :: "grant \<Rightarrow> 'd double_ops \<Rightarrow> 'd result_response \<Rightarrow> 'd json option \<Rightarrow> 'd json option" where
  "write_result_response g ops b obj =
     (let o1 = put_str g ''code'' (rr_code b) (put_str g ''handler'' (rr_handler b) (put_str g ''id'' (rr_id b) obj))
      in put_str g ''result'' (rr_result b) (put_copy g ops ''return'' (rr_returns b) o1))"

fun write_body :: "grant \<Rightarrow> 'd double_ops \<Rightarrow> 'd message_body \<Rightarrow> 'd json option \<Rightarrow> 'd json option" where
  "write_body g ops As_Unknown obj = obj"
| "write_body g ops As_Ping obj = obj"
| "write_body g ops (As_Pong c) obj = put_str g ''code'' c obj"
| "write_body g ops (As_Probe_Version v) obj = put_str g ''version'' v obj"
| "write_body g ops (As_Register_Request d) obj = put_str g ''deviceid'' d obj"
| "write_body g ops (As_Register_Response c) obj = put_str g ''code'' c obj"
| "write_body g ops (As_Query_Request v) obj = put_items g ''ids'' (request_entry g ops) v obj"
| "write_body g ops (As_Query_Response v1) obj = put_items g ''values'' (query_response_entry g ops) v1 obj"
| "write_body g ops (As_Set_Request v) obj = put_items g ''values'' (request_entry g ops) v obj"
| "write_body g ops (As_Set_Response v2) obj = put_items g ''results'' (set_response_entry g ops) v2 obj"
| "write_body g ops As_Probe_Query_Request obj = obj"
| "write_body g ops (As_Probe_Query_Response b) obj =
     put_str g ''reason'' (pq_reason b) (put_model g ops (pq_model b) (put_str g ''code'' (pq_code b) obj))"
| "write_body g ops (As_Probe_Set_Request m) obj = put_model g ops m obj"
| "write_body g ops (As_Probe_Set_Response c r) obj = put_str g ''reason'' r (put_str g ''code'' c obj)"
| "write_body g ops (As_Sample s) obj = write_sample g ops s obj"
| "write_body g ops (As_Event e) obj =
     put_copy g ops ''event'' (ev_event e) (put_str g ''time'' (ev_time e) (put_str g ''id'' (ev_id e) obj))"
| "write_body g ops (As_Method_Call_Request q) obj = write_call_request g ops q obj"
| "write_body g ops (As_Method_Call_Response p) obj = write_call_response g ops p obj"
| "write_body g ops (As_Method_Status_Request ob) obj = put_str g ''handler'' (co_handler ob) (put_str g ''id'' (co_id ob) obj)"
| "write_body g ops (As_Method_Status_Response st) obj = write_status_response g ops st obj"
| "write_body g ops (As_Method_Result_Request ob) obj = put_str g ''handler'' (co_handler ob) (put_str g ''id'' (co_id ob) obj)"
| "write_body g ops (As_Method_Result_Response rr) obj = write_result_response g ops rr obj"

definition ncl_message_to_json :: "grant \<Rightarrow> 'd double_ops \<Rightarrow> 'd ncl_message \<Rightarrow> 'd json option" where
  "ncl_message_to_json g ops msg =
     (case ncl_json_new_object g of
        None \<Rightarrow> None
      | Some obj \<Rightarrow> write_body g ops (as_body msg) (put_str g ''@id'' (message_id msg) (Some obj)))"

definition ncl_message_write_string :: "grant \<Rightarrow> 'd double_ops \<Rightarrow> 'd ncl_message \<Rightarrow> string option" where
  "ncl_message_write_string g ops msg =
     (case ncl_message_to_json g ops msg of None \<Rightarrow> None | Some j \<Rightarrow> ncl_json_write_string g ops (Some j))"

section \<open>Reading\<close>

definition ncl_msg_read_string :: "grant \<Rightarrow> 'd json \<Rightarrow> string \<Rightarrow> string option" where
  "ncl_msg_read_string g obj key = ncl_strdup g (ncl_json_obj_get_string (Some obj) (Some key))"

definition ncl_msg_read_number_as_string :: "grant \<Rightarrow> 'd double_ops \<Rightarrow> 'd json \<Rightarrow> string \<Rightarrow> string option" where
  "ncl_msg_read_number_as_string g ops obj key = ncl_json_as_text g ops (ncl_json_obj_get (Some obj) (Some key))"

text \<open>A copy of a member if there is one, what was there before otherwise.\<close>

definition read_copy :: "grant \<Rightarrow> 'd double_ops \<Rightarrow> 'd json \<Rightarrow> string \<Rightarrow> 'd json option \<Rightarrow> 'd json option" where
  "read_copy g ops obj key before =
     (case ncl_json_obj_get (Some obj) (Some key) of None \<Rightarrow> before | Some v \<Rightarrow> ncl_json_clone g ops v)"

definition ncl_item_read_params_into :: "grant \<Rightarrow> 'd double_ops \<Rightarrow> 'd json \<Rightarrow> 'd json option \<Rightarrow> 'd json option" where
  "ncl_item_read_params_into g ops entry params = read_copy g ops entry ''params'' params"

text \<open>Reading the entries of a list with \<open>item_of\<close> and adding them; any failure gives up the message.\<close>

fun read_entries ::
  "('d json \<Rightarrow> 'i option) \<Rightarrow> ('i \<Rightarrow> 'd ncl_message \<Rightarrow> ncl_err \<times> 'i list \<times> 'd ncl_message) \<Rightarrow> 'd json list \<Rightarrow>
   'd ncl_message \<Rightarrow> 'd ncl_message option" where
  "read_entries item_of add [] msg = Some msg"
| "read_entries item_of add (e # es) msg =
     (case item_of e of
        None \<Rightarrow> None
      | Some item \<Rightarrow> (case add item msg of (rc, freed, msg1) \<Rightarrow> if rc \<noteq> NCL_OK then None else read_entries item_of add es msg1))"

definition query_request_of :: "grant \<Rightarrow> 'd double_ops \<Rightarrow> 'd json \<Rightarrow> 'd request_item option" where
  "query_request_of g ops entry =
     (case ncl_query_request_item_new g (ncl_json_obj_get_string (Some entry) (Some ''id'')) of
        None \<Rightarrow> None
      | Some item \<Rightarrow> Some (item\<lparr>qi_params := ncl_item_read_params_into g ops entry (qi_params item)\<rparr>))"

definition ncl_query_request_from_json :: "grant \<Rightarrow> 'd double_ops \<Rightarrow> 'd json \<Rightarrow> 'd ncl_message option" where
  "ncl_query_request_from_json g ops json =
     (case ncl_message_new g NCL_MSG_QUERY_REQUEST of
        None \<Rightarrow> None
      | Some msg \<Rightarrow>
          read_entries (query_request_of g ops) (ncl_message_add_query_request_item g)
            (items (ncl_json_obj_get (Some json) (Some ''ids''))) msg)"

definition query_response_of :: "grant \<Rightarrow> 'd double_ops \<Rightarrow> 'd json \<Rightarrow> 'd query_response_item option" where
  "query_response_of g ops entry =
     (case ncl_query_response_item_new g (ncl_json_obj_get_string (Some entry) (Some ''id'')) of
        None \<Rightarrow> None
      | Some item \<Rightarrow>
          Some (item\<lparr>qr_code := ncl_msg_read_string g entry ''code'', qr_reason := ncl_msg_read_string g entry ''reason'',
            qr_params := ncl_item_read_params_into g ops entry (qr_params item),
            qr_values := read_copy g ops entry ''values'' (qr_values item)\<rparr>))"

definition ncl_query_response_from_json :: "grant \<Rightarrow> 'd double_ops \<Rightarrow> 'd json \<Rightarrow> 'd ncl_message option" where
  "ncl_query_response_from_json g ops json =
     (case ncl_message_new g NCL_MSG_QUERY_RESPONSE of
        None \<Rightarrow> None
      | Some msg \<Rightarrow>
          read_entries (query_response_of g ops) (ncl_message_add_query_response_item g)
            (items (ncl_json_obj_get (Some json) (Some ''values''))) msg)"

definition set_request_of :: "grant \<Rightarrow> 'd double_ops \<Rightarrow> 'd json \<Rightarrow> 'd request_item option" where
  "set_request_of g ops entry =
     (case ncl_set_request_item_new g (ncl_json_obj_get_string (Some entry) (Some ''id'')) of
        None \<Rightarrow> None
      | Some item \<Rightarrow> Some (item\<lparr>qi_params := ncl_item_read_params_into g ops entry (qi_params item)\<rparr>))"

definition ncl_set_request_from_json :: "grant \<Rightarrow> 'd double_ops \<Rightarrow> 'd json \<Rightarrow> 'd ncl_message option" where
  "ncl_set_request_from_json g ops json =
     (case ncl_message_new g NCL_MSG_SET_REQUEST of
        None \<Rightarrow> None
      | Some msg \<Rightarrow>
          read_entries (set_request_of g ops) (ncl_message_add_set_request_item g)
            (items (ncl_json_obj_get (Some json) (Some ''values''))) msg)"

definition set_response_of :: "grant \<Rightarrow> 'd double_ops \<Rightarrow> 'd json \<Rightarrow> 'd set_response_item option" where
  "set_response_of g ops entry =
     (case ncl_set_response_item_new g (ncl_json_obj_get_string (Some entry) (Some ''id'')) of
        None \<Rightarrow> None
      | Some item \<Rightarrow>
          Some (item\<lparr>so_code := ncl_msg_read_string g entry ''code'', so_reason := ncl_msg_read_string g entry ''reason'',
            so_params := ncl_item_read_params_into g ops entry (so_params item),
            so_result := read_copy g ops entry ''result'' (so_result item)\<rparr>))"

definition ncl_set_response_from_json :: "grant \<Rightarrow> 'd double_ops \<Rightarrow> 'd json \<Rightarrow> 'd ncl_message option" where
  "ncl_set_response_from_json g ops json =
     (case ncl_message_new g NCL_MSG_SET_RESPONSE of
        None \<Rightarrow> None
      | Some msg \<Rightarrow>
          read_entries (set_response_of g ops) (ncl_message_add_set_response_item g)
            (items (ncl_json_obj_get (Some json) (Some ''results''))) msg)"

definition sample_column_of :: "grant \<Rightarrow> 'd double_ops \<Rightarrow> 'd json \<Rightarrow> 'd sample_item option" where
  "sample_column_of g ops entry =
     (case ncl_sample_item_new g of
        None \<Rightarrow> None
      | Some item \<Rightarrow>
          (let item1 = item\<lparr>si_encoding := ncl_msg_read_string g entry ''encoding'',
                 si_data := read_copy g ops entry ''data'' (si_data item)\<rparr>
           in if si_data item1 = None then None else Some item1))"

fun read_paths :: "grant \<Rightarrow> 'd json list \<Rightarrow> 'd ncl_message \<Rightarrow> 'd ncl_message" where
  "read_paths g [] msg = msg"
| "read_paths g (x # xs) msg =
     read_paths g xs
       (case ncl_json_as_string (Some x) of None \<Rightarrow> msg | Some path \<Rightarrow> snd (ncl_message_add_sample_path g (Some path) msg))"

definition read_sample_fields :: "('d sample_body \<Rightarrow> 'd sample_body) \<Rightarrow> 'd ncl_message \<Rightarrow> 'd ncl_message" where
  "read_sample_fields h msg = (case as_body msg of As_Sample b \<Rightarrow> msg\<lparr>as_body := As_Sample (h b)\<rparr> | _ \<Rightarrow> msg)"

definition ncl_sample_from_json :: "grant \<Rightarrow> 'd double_ops \<Rightarrow> 'd json \<Rightarrow> 'd ncl_message option" where
  "ncl_sample_from_json g ops json =
     (case ncl_message_new g NCL_MSG_SAMPLE of
        None \<Rightarrow> None
      | Some msg \<Rightarrow>
          (let msg1 = read_paths g (items (ncl_json_obj_get (Some json) (Some ''paths''))) msg;
               msg2 = read_sample_fields (\<lambda>b. b\<lparr>sa_id := ncl_msg_read_string g json ''id'',
                 sa_begin_time := ncl_msg_read_number_as_string g ops json ''beginTime''\<rparr>) msg1
           in case read_entries (sample_column_of g ops) (\<lambda>item. ncl_message_add_sample_item g (Some item))
                     (items (ncl_json_obj_get (Some json) (Some ''data''))) msg2 of
                None \<Rightarrow> None
              | Some msg3 \<Rightarrow>
                  (let interval = read_int ops (Some json) ''interval''; upload = read_int ops (Some json) ''uploadInterval''
                   in Some (read_sample_fields (\<lambda>b. b\<lparr>sa_has_interval := fst interval, sa_interval := snd interval,
                        sa_has_upload_interval := fst upload, sa_upload_interval := snd upload\<rparr>) msg3))))"

text \<open>A flag: there if it can be read as a boolean; its value otherwise stays what it was.\<close>

definition read_flag :: "'d double_ops \<Rightarrow> 'd json option \<Rightarrow> bool \<Rightarrow> bool \<Rightarrow> bool \<times> bool" where
  "read_flag ops flag has value =
     (case flag of
        None \<Rightarrow> (has, value)
      | Some j \<Rightarrow> (case fst (ncl_json_as_bool ops (Some j)) of None \<Rightarrow> (False, value) | Some b \<Rightarrow> (True, b)))"

definition read_model :: "grant \<Rightarrow> 'd double_ops \<Rightarrow> 'd json \<Rightarrow> 'd json ncl_node option \<Rightarrow> 'd json ncl_node option" where
  "read_model g ops json model =
     (case ncl_json_obj_get (Some json) (Some ''probe'') of None \<Rightarrow> model | Some probe \<Rightarrow> ncl_root_node_from_json g ops (Some probe))"

definition read_call_request :: "grant \<Rightarrow> 'd double_ops \<Rightarrow> 'd json \<Rightarrow> 'd call_request \<Rightarrow> 'd call_request" where
  "read_call_request g ops json b =
     (let args = or_else (ncl_json_obj_get (Some json) (Some ''args'')) (ncl_json_obj_get (Some json) (Some ''params''));
          flag = or_else (ncl_json_obj_get (Some json) (Some ''async'')) (ncl_json_obj_get (Some json) (Some ''aysnc''));
          async = read_flag ops flag (cq_has_async b) (cq_async b);
          check = read_flag ops (ncl_json_obj_get (Some json) (Some ''check'')) (cq_has_check b) (cq_check b)
      in b\<lparr>cq_method := ncl_msg_read_string g json ''method'',
           cq_params := (case args of None \<Rightarrow> cq_params b | Some a \<Rightarrow> ncl_json_clone g ops a),
           cq_has_async := fst async, cq_async := snd async, cq_has_check := fst check, cq_check := snd check,
           cq_token := ncl_msg_read_string g json ''token''\<rparr>)"

definition read_call_response :: "grant \<Rightarrow> 'd double_ops \<Rightarrow> 'd json \<Rightarrow> 'd call_response \<Rightarrow> 'd call_response" where
  "read_call_response g ops json b =
     (let check = read_flag ops (ncl_json_obj_get (Some json) (Some ''check'')) (cs_has_check b) (cs_check b)
      in b\<lparr>cs_code := ncl_msg_read_string g json ''code'', cs_method := ncl_msg_read_string g json ''method'',
           cs_params := ncl_item_read_params_into g ops json (cs_params b), cs_has_check := fst check, cs_check := snd check,
           cs_token := ncl_msg_read_string g json ''token'', cs_data := read_copy g ops json ''data'' (cs_data b),
           cs_reason := ncl_msg_read_string g json ''reason'', cs_handler := ncl_msg_read_string g json ''handler''\<rparr>)"

definition read_status_response :: "grant \<Rightarrow> 'd double_ops \<Rightarrow> 'd json \<Rightarrow> status_response \<Rightarrow> status_response" where
  "read_status_response g ops json b =
     (let b1 = b\<lparr>st_id := ncl_msg_read_string g json ''id'', st_handler := ncl_msg_read_string g json ''handler''\<rparr>;
          b2 = (if ncl_json_obj_has (Some json) (Some ''process'')
                then b1\<lparr>st_process := fst (ncl_json_obj_get_int ops (Some json) (Some ''process'') 0), st_has_process := True\<rparr> else b1)
      in b2\<lparr>st_status := ncl_msg_read_string g json ''status'', st_code := ncl_msg_read_string g json ''code''\<rparr>)"

definition read_object :: "grant \<Rightarrow> 'd json \<Rightarrow> call_object \<Rightarrow> call_object" where
  "read_object g json b = b\<lparr>co_id := ncl_msg_read_string g json ''id'', co_handler := ncl_msg_read_string g json ''handler''\<rparr>"

definition read_result_response :: "grant \<Rightarrow> 'd double_ops \<Rightarrow> 'd json \<Rightarrow> 'd result_response \<Rightarrow> 'd result_response" where
  "read_result_response g ops json b =
     b\<lparr>rr_id := ncl_msg_read_string g json ''id'', rr_handler := ncl_msg_read_string g json ''handler'',
       rr_code := ncl_msg_read_string g json ''code'', rr_returns := read_copy g ops json ''return'' (rr_returns b),
       rr_result := ncl_msg_read_string g json ''result''\<rparr>"

text \<open>What the second switch fills in; a kind it does not know gives up the message.\<close>

fun read_body :: "grant \<Rightarrow> 'd double_ops \<Rightarrow> 'd json \<Rightarrow> 'd message_body \<Rightarrow> 'd message_body option" where
  "read_body g ops json As_Unknown = None"
| "read_body g ops json As_Ping = Some As_Ping"
| "read_body g ops json (As_Pong c) = Some (As_Pong (ncl_msg_read_string g json ''code''))"
| "read_body g ops json (As_Probe_Version v) = Some (As_Probe_Version (ncl_msg_read_string g json ''version''))"
| "read_body g ops json (As_Register_Request d) = Some (As_Register_Request (ncl_msg_read_string g json ''deviceid''))"
| "read_body g ops json (As_Register_Response c) = Some (As_Register_Response (ncl_msg_read_string g json ''code''))"
| "read_body g ops json (As_Query_Request v) = Some (As_Query_Request v)"
| "read_body g ops json (As_Query_Response v1) = Some (As_Query_Response v1)"
| "read_body g ops json (As_Set_Request v) = Some (As_Set_Request v)"
| "read_body g ops json (As_Set_Response v2) = Some (As_Set_Response v2)"
| "read_body g ops json As_Probe_Query_Request = Some As_Probe_Query_Request"
| "read_body g ops json (As_Probe_Query_Response b) =
     Some (As_Probe_Query_Response (b\<lparr>pq_code := ncl_msg_read_string g json ''code'', pq_reason := ncl_msg_read_string g json ''reason'',
       pq_model := read_model g ops json (pq_model b)\<rparr>))"
| "read_body g ops json (As_Probe_Set_Request m) = Some (As_Probe_Set_Request (read_model g ops json m))"
| "read_body g ops json (As_Probe_Set_Response c r) =
     Some (As_Probe_Set_Response (ncl_msg_read_string g json ''code'') (ncl_msg_read_string g json ''reason''))"
| "read_body g ops json (As_Sample s) = Some (As_Sample s)"
| "read_body g ops json (As_Event e) =
     Some (As_Event (e\<lparr>ev_id := ncl_msg_read_string g json ''id'', ev_time := ncl_msg_read_number_as_string g ops json ''time'',
       ev_event := read_copy g ops json ''event'' (ev_event e)\<rparr>))"
| "read_body g ops json (As_Method_Call_Request q) = Some (As_Method_Call_Request (read_call_request g ops json q))"
| "read_body g ops json (As_Method_Call_Response p) = Some (As_Method_Call_Response (read_call_response g ops json p))"
| "read_body g ops json (As_Method_Status_Request ob) = Some (As_Method_Status_Request (read_object g json ob))"
| "read_body g ops json (As_Method_Status_Response st) = Some (As_Method_Status_Response (read_status_response g ops json st))"
| "read_body g ops json (As_Method_Result_Request ob) = Some (As_Method_Result_Request (read_object g json ob))"
| "read_body g ops json (As_Method_Result_Response rr) = Some (As_Method_Result_Response (read_result_response g ops json rr))"

definition start_message :: "grant \<Rightarrow> 'd double_ops \<Rightarrow> ncl_msg_type \<Rightarrow> 'd json \<Rightarrow> 'd ncl_message option" where
  "start_message g ops t j =
     (case t of
        NCL_MSG_QUERY_REQUEST \<Rightarrow> ncl_query_request_from_json g ops j
      | NCL_MSG_QUERY_RESPONSE \<Rightarrow> ncl_query_response_from_json g ops j
      | NCL_MSG_SET_REQUEST \<Rightarrow> ncl_set_request_from_json g ops j
      | NCL_MSG_SET_RESPONSE \<Rightarrow> ncl_set_response_from_json g ops j
      | NCL_MSG_SAMPLE \<Rightarrow> ncl_sample_from_json g ops j
      | _ \<Rightarrow> ncl_message_new g t)"

definition ncl_message_from_json :: "grant \<Rightarrow> 'd double_ops \<Rightarrow> ncl_msg_type \<Rightarrow> 'd json option \<Rightarrow> 'd ncl_message option" where
  "ncl_message_from_json g ops t json =
     (case json of
        None \<Rightarrow> None
      | Some j \<Rightarrow>
          if ncl_json_type_of (Some j) \<noteq> NCL_JSON_OBJECT then None
          else (case start_message g ops t j of
                  None \<Rightarrow> None
                | Some msg \<Rightarrow>
                    (case read_body g ops j (as_body msg) of
                       None \<Rightarrow> None
                     | Some b \<Rightarrow> Some (msg\<lparr>as_body := b, message_id := ncl_msg_read_string g j ''@id''\<rparr>))))"

definition ncl_message_parse :: "grant \<Rightarrow> 'd double_ops \<Rightarrow> string option \<Rightarrow> string option \<Rightarrow> 'd ncl_message option" where
  "ncl_message_parse g ops topic payload =
     (if topic = None then None
      else if ncl_msg_type_from_topic topic = NCL_MSG_UNKNOWN then None
      else case fst (ncl_json_parse g ops (if payload = None \<or> payload = Some [] then ncl_strdup g (Some ''{}'') else payload) None) of
        None \<Rightarrow> None
      | Some json \<Rightarrow> ncl_message_from_json g ops (ncl_msg_type_from_topic topic) (Some json))"

end
