(* ===== verification/Message_Roundtrip.thy ===== *)
theory Message_Roundtrip
  imports Message_Json Model_Roundtrip
begin

text \<open>
  Writing a message as a document and reading it back gives the same message: its id, its kind and
  every field and item. Documents inside a message are compared as documents, vectors by what they
  hold; a model comes back as the model that was written after its post construction.
\<close>

section \<open>What is compared\<close>

definition same_json :: "'d double_ops \<Rightarrow> 'd json option \<Rightarrow> 'd json option \<Rightarrow> bool" where
  "same_json ops a b \<longleftrightarrow> map_option (doc_of ops) b = map_option (doc_of ops) a"

definition same_items :: "('i \<Rightarrow> 'i \<Rightarrow> bool) \<Rightarrow> 'i ptrvec \<Rightarrow> 'i ptrvec \<Rightarrow> bool" where
  "same_items same v w \<longleftrightarrow> list_all2 (\<lambda>x y. \<exists>a b. x = Some a \<and> y = Some b \<and> same a b) (pv_items v) (pv_items w) \<and> pv_free w"

definition same_request :: "'d double_ops \<Rightarrow> 'd request_item \<Rightarrow> 'd request_item \<Rightarrow> bool" where
  "same_request ops a b \<longleftrightarrow> qi_id b = qi_id a \<and> same_json ops (qi_params a) (qi_params b)"

definition same_query_response :: "'d double_ops \<Rightarrow> 'd query_response_item \<Rightarrow> 'd query_response_item \<Rightarrow> bool" where
  "same_query_response ops a b \<longleftrightarrow> qr_id b = qr_id a \<and> qr_code b = qr_code a \<and> qr_reason b = qr_reason a
     \<and> same_json ops (qr_params a) (qr_params b) \<and> same_json ops (qr_values a) (qr_values b)"

definition same_set_response :: "'d double_ops \<Rightarrow> 'd set_response_item \<Rightarrow> 'd set_response_item \<Rightarrow> bool" where
  "same_set_response ops a b \<longleftrightarrow> so_id b = so_id a \<and> so_code b = so_code a \<and> so_reason b = so_reason a
     \<and> same_json ops (so_params a) (so_params b) \<and> same_json ops (so_result a) (so_result b)"

definition same_column :: "'d double_ops \<Rightarrow> 'd sample_item \<Rightarrow> 'd sample_item \<Rightarrow> bool" where
  "same_column ops a b \<longleftrightarrow> si_encoding b = si_encoding a \<and> same_json ops (si_data a) (si_data b)"

text \<open>A model is post constructed when it is read.\<close>

definition same_model :: "'d double_ops \<Rightarrow> 'd json ncl_node option \<Rightarrow> 'd json ncl_node option \<Rightarrow> bool" where
  "same_model ops a b \<longleftrightarrow>
     (case a of None \<Rightarrow> b = None
      | Some n \<Rightarrow> \<exists>n1. view ops n1 = view ops n \<and> b = ncl_root_node_post_construct grant_all n1)"

definition same_sample :: "'d double_ops \<Rightarrow> 'd sample_body \<Rightarrow> 'd sample_body \<Rightarrow> bool" where
  "same_sample ops a b \<longleftrightarrow> sv_items (sa_paths b) = sv_items (sa_paths a) \<and> sa_id b = sa_id a \<and> sa_begin_time b = sa_begin_time a
     \<and> same_items (same_column ops) (sa_data a) (sa_data b) \<and> sa_has_interval b = sa_has_interval a \<and> sa_interval b = sa_interval a
     \<and> sa_has_upload_interval b = sa_has_upload_interval a \<and> sa_upload_interval b = sa_upload_interval a"

fun same_body :: "'d double_ops \<Rightarrow> 'd message_body \<Rightarrow> 'd message_body \<Rightarrow> bool" where
  "same_body ops (As_Query_Request v) b = (\<exists>w. b = As_Query_Request w \<and> same_items (same_request ops) v w)"
| "same_body ops (As_Query_Response v1) b = (\<exists>w. b = As_Query_Response w \<and> same_items (same_query_response ops) v1 w)"
| "same_body ops (As_Set_Request v) b = (\<exists>w. b = As_Set_Request w \<and> same_items (same_request ops) v w)"
| "same_body ops (As_Set_Response v2) b = (\<exists>w. b = As_Set_Response w \<and> same_items (same_set_response ops) v2 w)"
| "same_body ops (As_Probe_Query_Response p) b =
     (\<exists>q. b = As_Probe_Query_Response q \<and> pq_code q = pq_code p \<and> pq_reason q = pq_reason p \<and> same_model ops (pq_model p) (pq_model q))"
| "same_body ops (As_Probe_Set_Request m) b = (\<exists>n. b = As_Probe_Set_Request n \<and> same_model ops m n)"
| "same_body ops (As_Sample s) b = (\<exists>t. b = As_Sample t \<and> same_sample ops s t)"
| "same_body ops (As_Event e) b =
     (\<exists>f. b = As_Event f \<and> ev_id f = ev_id e \<and> ev_time f = ev_time e \<and> same_json ops (ev_event e) (ev_event f))"
| "same_body ops (As_Method_Call_Request q) b =
     (\<exists>r. b = As_Method_Call_Request r \<and> r = q\<lparr>cq_params := cq_params r\<rparr> \<and> same_json ops (cq_params q) (cq_params r))"
| "same_body ops (As_Method_Call_Response p) b =
     (\<exists>r. b = As_Method_Call_Response r \<and> r = p\<lparr>cs_params := cs_params r, cs_data := cs_data r\<rparr>
       \<and> same_json ops (cs_params p) (cs_params r) \<and> same_json ops (cs_data p) (cs_data r))"
| "same_body ops (As_Method_Result_Response p) b =
     (\<exists>r. b = As_Method_Result_Response r \<and> r = p\<lparr>rr_returns := rr_returns r\<rparr> \<and> same_json ops (rr_returns p) (rr_returns r))"
| "same_body ops body b = (b = body)"

section \<open>Messages that a document can hold\<close>

definition json_ok :: "'d double_ops \<Rightarrow> 'd json option \<Rightarrow> bool" where
  "json_ok ops v \<longleftrightarrow> (\<forall>j. v = Some j \<longrightarrow> doc_ok (doc_of ops j))"

definition items_ok :: "('i \<Rightarrow> bool) \<Rightarrow> 'i ptrvec \<Rightarrow> bool" where
  "items_ok ok v \<longleftrightarrow> list_all (\<lambda>x. \<exists>i. x = Some i \<and> ok i) (pv_items v)"

definition request_ok :: "'d double_ops \<Rightarrow> 'd request_item \<Rightarrow> bool" where
  "request_ok ops i \<longleftrightarrow> text_ok (qi_id i) \<and> json_ok ops (qi_params i)"

text \<open>The values of a response are an array, as the constructor makes it.\<close>

definition query_response_ok :: "'d double_ops \<Rightarrow> 'd query_response_item \<Rightarrow> bool" where
  "query_response_ok ops i \<longleftrightarrow> text_ok (qr_id i) \<and> text_ok (qr_code i) \<and> text_ok (qr_reason i) \<and> json_ok ops (qr_params i)
     \<and> json_ok ops (qr_values i) \<and> (\<exists>xs c. qr_values i = Some (J_Array xs c))"

definition set_response_ok :: "'d double_ops \<Rightarrow> 'd set_response_item \<Rightarrow> bool" where
  "set_response_ok ops i \<longleftrightarrow> text_ok (so_id i) \<and> text_ok (so_code i) \<and> text_ok (so_reason i) \<and> json_ok ops (so_params i)
     \<and> json_ok ops (so_result i)"

definition column_ok :: "'d double_ops \<Rightarrow> 'd sample_item \<Rightarrow> bool" where
  "column_ok ops i \<longleftrightarrow> text_ok (si_encoding i) \<and> json_ok ops (si_data i) \<and> si_data i \<noteq> None"

definition model_ok :: "'d double_ops \<Rightarrow> 'd json ncl_node option \<Rightarrow> bool" where
  "model_ok ops m \<longleftrightarrow> (\<forall>n. m = Some n \<longrightarrow> document_node ops n \<and> nd_type (nf n) = NCL_NODE_ROOT)"

definition sample_ok :: "'d double_ops \<Rightarrow> 'd sample_body \<Rightarrow> bool" where
  "sample_ok ops b \<longleftrightarrow> list_all is_cstr (sv_items (sa_paths b)) \<and> text_ok (sa_id b) \<and> text_ok (sa_begin_time b) \<and> items_ok (column_ok ops) (sa_data b)
     \<and> (\<not> sa_has_interval b \<longrightarrow> sa_interval b = 0) \<and> (\<not> sa_has_upload_interval b \<longrightarrow> sa_upload_interval b = 0)"

text \<open>A flag or number that is not there is clear; the ones that a new message has are there.\<close>

fun body_ok :: "'d double_ops \<Rightarrow> 'd message_body \<Rightarrow> bool" where
  "body_ok ops As_Unknown = False"
| "body_ok ops As_Ping = True"
| "body_ok ops (As_Pong c) = text_ok c"
| "body_ok ops (As_Probe_Version v) = text_ok v"
| "body_ok ops (As_Register_Request d) = text_ok d"
| "body_ok ops (As_Register_Response c) = text_ok c"
| "body_ok ops (As_Query_Request v) = items_ok (request_ok ops) v"
| "body_ok ops (As_Query_Response v1) = items_ok (query_response_ok ops) v1"
| "body_ok ops (As_Set_Request v) = items_ok (request_ok ops) v"
| "body_ok ops (As_Set_Response v2) = items_ok (set_response_ok ops) v2"
| "body_ok ops As_Probe_Query_Request = True"
| "body_ok ops (As_Probe_Query_Response b) = (text_ok (pq_code b) \<and> text_ok (pq_reason b) \<and> model_ok ops (pq_model b))"
| "body_ok ops (As_Probe_Set_Request m) = model_ok ops m"
| "body_ok ops (As_Probe_Set_Response c r) = (text_ok c \<and> text_ok r)"
| "body_ok ops (As_Sample s) = sample_ok ops s"
| "body_ok ops (As_Event e) = (text_ok (ev_id e) \<and> text_ok (ev_time e) \<and> json_ok ops (ev_event e))"
| "body_ok ops (As_Method_Call_Request q) = (text_ok (cq_method q) \<and> text_ok (cq_token q) \<and> json_ok ops (cq_params q)
     \<and> cq_has_check q \<and> (\<not> cq_has_async q \<longrightarrow> \<not> cq_async q))"
| "body_ok ops (As_Method_Call_Response p) = (text_ok (cs_code p) \<and> text_ok (cs_method p) \<and> text_ok (cs_token p) \<and> text_ok (cs_reason p)
     \<and> text_ok (cs_handler p) \<and> json_ok ops (cs_params p) \<and> json_ok ops (cs_data p) \<and> (\<not> cs_has_check p \<longrightarrow> \<not> cs_check p))"
| "body_ok ops (As_Method_Status_Request ob) = (text_ok (co_id ob) \<and> text_ok (co_handler ob))"
| "body_ok ops (As_Method_Status_Response st) = (text_ok (st_id st) \<and> text_ok (st_handler st) \<and> text_ok (st_status st) \<and> text_ok (st_code st)
     \<and> st_has_process st)"
| "body_ok ops (As_Method_Result_Request ob) = (text_ok (co_id ob) \<and> text_ok (co_handler ob))"
| "body_ok ops (As_Method_Result_Response rr) = (text_ok (rr_id rr) \<and> text_ok (rr_handler rr) \<and> text_ok (rr_code rr) \<and> text_ok (rr_result rr)
     \<and> json_ok ops (rr_returns rr))"

section \<open>Members\<close>

lemma same_json_refl [simp]: "same_json ops a a"
  by (simp add: same_json_def)

lemma same_json_trans: "\<lbrakk>same_json ops a b; same_json ops b c\<rbrakk> \<Longrightarrow> same_json ops a c"
  by (simp add: same_json_def)

definition copied :: "'d double_ops \<Rightarrow> 'd json option \<Rightarrow> 'd json option" where
  "copied ops v = (case v of None \<Rightarrow> None | Some j \<Rightarrow> ncl_json_clone grant_all ops j)"

lemma copied_same: "json_ok ops v \<Longrightarrow> same_json ops v (copied ops v)"
  using clone_exact by (fastforce simp: same_json_def copied_def json_ok_def split: option.split)

lemma same_ok: "\<lbrakk>same_json ops v w; json_ok ops v\<rbrakk> \<Longrightarrow> json_ok ops w"
  by (cases v) (auto simp: same_json_def json_ok_def)

lemma copied_none [simp]: "copied ops None = None"
  by (simp add: copied_def)

lemma copied_some: "json_ok ops (Some j) \<Longrightarrow> \<exists>k. copied ops (Some j) = Some k"
  using copied_same [of ops "Some j"] by (auto simp: same_json_def)

lemma put_copy_opt: "json_ok ops v \<Longrightarrow> put_copy grant_all ops key v obj = put_opt key (copied ops v) obj"
proof (cases v)
  case (Some j)
  assume "json_ok ops v"
  then obtain k where "ncl_json_clone grant_all ops j = Some k" using Some clone_exact by (fastforce simp: json_ok_def)
  then show ?thesis by (simp add: put_copy_def put_opt_def copied_def Some)
qed (simp add: put_copy_def put_opt_def)

lemmas put_rules = put_opts(2-4) put_str_opt put_copy_opt

lemma blank_ok [simp]: "obj_ok (Some (J_Object [] c))"
  by (rule obj_ok_new)

lemma blank_get [simp]: "ncl_json_obj_get (Some (J_Object [] c)) (Some k) = None"
  by (rule get_new)

section \<open>Reading members\<close>

lemma as_text_json: "text_ok s \<Longrightarrow> ncl_json_as_text grant_all ops (json_text s) = s"
  by (cases s) (simp_all add: ncl_json_as_text_def json_text_def text_ok_def cstr_of_id is_cstr_cstr_of)

lemma get_text:
  "\<lbrakk>text_ok s; ncl_json_obj_get (Some j) (Some key) = json_text s\<rbrakk> \<Longrightarrow> ncl_json_obj_get_string (Some j) (Some key) = s"
  by (simp add: ncl_json_obj_get_string_def json_text_def as_string_opt text_ok_cstr)

lemma read_text: "\<lbrakk>text_ok s; ncl_json_obj_get (Some j) (Some key) = json_text s\<rbrakk> \<Longrightarrow> ncl_msg_read_string grant_all j key = s"
  by (simp add: ncl_msg_read_string_def get_text)

lemma read_number_text:
  "\<lbrakk>text_ok s; ncl_json_obj_get (Some j) (Some key) = json_text s\<rbrakk> \<Longrightarrow> ncl_msg_read_number_as_string grant_all ops j key = s"
  by (simp add: ncl_msg_read_number_as_string_def as_text_json)

lemma read_copy_same:
  assumes "json_ok ops v" "ncl_json_obj_get (Some j) (Some key) = copied ops v"
  shows "same_json ops v (read_copy grant_all ops j key None)"
proof (cases v)
  case (Some w)
  from copied_some [of ops w] assms(1) Some obtain k where k: "copied ops v = Some k" by auto
  have "same_json ops v (copied ops v)" by (rule copied_same [OF assms(1)])
  moreover from this assms(1) have "json_ok ops (copied ops v)" by (rule same_ok)
  ultimately have "same_json ops v (copied ops (copied ops v))" using copied_same same_json_trans by blast
  then show ?thesis by (simp add: read_copy_def assms(2) k copied_def)
qed (use assms in \<open>simp add: read_copy_def\<close>)

lemma read_copy_kept: "read_copy grant_all ops j key (Some k) = (case ncl_json_obj_get (Some j) (Some key) of None \<Rightarrow> Some k | _ \<Rightarrow> read_copy grant_all ops j key None)"
  by (simp add: read_copy_def split: option.split)

lemma as_bool_node: "fst (ncl_json_as_bool ops (Some (J_Bool b))) = Some b"
  by (simp add: ncl_json_as_bool_def)

lemma obj_member:
  assumes "obj_ok obj"
  shows "\<exists>j. obj = Some j \<and> ncl_json_type_of (Some j) = NCL_JSON_OBJECT"
  using obj_type [OF assms] .

section \<open>Lists of items\<close>

lemma entries_all:
  fixes xs :: "'i option list" and ys :: "'d json list"
  assumes "list_all (\<lambda>x. \<exists>i e. x = Some i \<and> w i (Some (J_Object [] 0)) = Some e \<and> R i e) xs"
  shows "\<exists>es c1. entries_json grant_all w xs (Some (J_Array ys c)) = Some (J_Array (ys @ es) c1)
    \<and> list_all2 (\<lambda>x e. \<exists>i. x = Some i \<and> R i e) xs es"
  using assms
proof (induction xs arbitrary: ys c)
  case (Cons x xs)
  then obtain i e where x: "x = Some i" "w i (Some (J_Object [] 0)) = Some e" "R i e" by auto
  obtain c1 where c1: "ncl_json_arr_push grant_all (Some (J_Array ys c)) (Some e) = (NCL_OK, Some (J_Array (ys @ [e]) c1))"
    using push_all by blast
  from Cons.IH [of "ys @ [e]" c1] Cons.prems obtain es c2 where "entries_json grant_all w xs (Some (J_Array (ys @ [e]) c1)) = Some (J_Array ((ys @ [e]) @ es) c2)"
      "list_all2 (\<lambda>x e. \<exists>i. x = Some i \<and> R i e) xs es" by auto
  with x c1 show ?case by (intro exI [of _ "e # es"] exI [of _ c2]) (simp add: new_obj)
qed simp

lemma read_entries_all:
  assumes "list_all2 (\<lambda>x e. \<exists>i. x = Some i \<and> (\<exists>d. item_of e = Some d \<and> S i d)) xs es"
    and add: "\<And>d msg v. as_body msg = K v \<Longrightarrow>
      \<exists>c. add d msg = (NCL_OK, [], msg\<lparr>as_body := K \<lparr>pv_items = pv_items v @ [Some d], pv_cap = c, pv_free = pv_free v\<rparr>\<rparr>)"
    and "as_body msg = K v"
  shows "\<exists>ys c. read_entries item_of add es msg = Some (msg\<lparr>as_body := K \<lparr>pv_items = pv_items v @ ys, pv_cap = c, pv_free = pv_free v\<rparr>\<rparr>)
    \<and> list_all2 (\<lambda>x y. \<exists>a b. x = Some a \<and> y = Some b \<and> S a b) xs ys"
  using assms(1,3)
proof (induction xs es arbitrary: msg v rule: list_all2_induct)
  case Nil
  have "\<lparr>pv_items = pv_items v @ [], pv_cap = pv_cap v, pv_free = pv_free v\<rparr> = v" by simp
  moreover from Nil have "msg\<lparr>as_body := K v\<rparr> = msg" by simp
  ultimately show ?case by (intro exI [of _ "[]"] exI [of _ "pv_cap v"]) (simp only: read_entries.simps list_all2_Nil simp_thms)
next
  case (Cons x xs e es)
  then obtain i d where x: "x = Some i" "item_of e = Some d" "S i d" by auto
  obtain c where c: "add d msg = (NCL_OK, [], msg\<lparr>as_body := K \<lparr>pv_items = pv_items v @ [Some d], pv_cap = c, pv_free = pv_free v\<rparr>\<rparr>)"
    using add [OF Cons.prems] by blast
  from Cons(3) [of "msg\<lparr>as_body := K \<lparr>pv_items = pv_items v @ [Some d], pv_cap = c, pv_free = pv_free v\<rparr>\<rparr>"
      "\<lparr>pv_items = pv_items v @ [Some d], pv_cap = c, pv_free = pv_free v\<rparr>"]
  obtain ys c1 where "read_entries item_of add es (msg\<lparr>as_body := K \<lparr>pv_items = pv_items v @ [Some d], pv_cap = c, pv_free = pv_free v\<rparr>\<rparr>)
      = Some (msg\<lparr>as_body := K \<lparr>pv_items = (pv_items v @ [Some d]) @ ys, pv_cap = c1, pv_free = pv_free v\<rparr>\<rparr>)"
    "list_all2 (\<lambda>x y. \<exists>a b. x = Some a \<and> y = Some b \<and> S a b) xs ys" by auto
  with x c show ?case by (intro exI [of _ "Some d # ys"] exI [of _ c1]) simp
qed

section \<open>Entries\<close>

lemma new_items:
  "ncl_query_request_item_new grant_all name = Some \<lparr>qi_id = name, qi_params = None\<rparr>"
  "ncl_set_request_item_new grant_all name = Some \<lparr>qi_id = name, qi_params = None\<rparr>"
  "ncl_query_response_item_new grant_all name = Some \<lparr>qr_id = name, qr_code = None, qr_reason = None, qr_params = None, qr_values = Some (J_Array [] 0)\<rparr>"
  "ncl_set_response_item_new grant_all name = Some \<lparr>so_id = name, so_code = None, so_reason = None, so_params = None, so_result = None\<rparr>"
  "ncl_sample_item_new grant_all = Some \<lparr>si_encoding = None, si_data = Some (J_Array [] 0)\<rparr>"
  by (cases name; simp add: ncl_query_request_item_new_def ncl_set_request_item_new_def ncl_query_response_item_new_def
      ncl_set_response_item_new_def ncl_sample_item_new_def grant_all new_arr)+

lemma request_entry_reads:
  assumes "request_ok ops i"
  shows "\<exists>e. request_entry grant_all ops i (Some (J_Object [] 0)) = Some e
    \<and> (\<exists>d. query_request_of grant_all ops e = Some d \<and> same_request ops i d)
    \<and> (\<exists>d. set_request_of grant_all ops e = Some d \<and> same_request ops i d)"
proof -
  have ok: "text_ok (qi_id i)" "json_ok ops (qi_params i)" using assms by (simp_all add: request_ok_def)
  define obj where "obj = put_opt ''params'' (copied ops (qi_params i)) (put_opt ''id'' (json_text (qi_id i)) (Some (J_Object [] 0)))"
  have w: "request_entry grant_all ops i (Some (J_Object [] 0)) = obj"
    by (simp add: request_entry_def put_rules ok obj_def)
  have "obj_ok obj" by (simp add: obj_def)
  then obtain e where e: "obj = Some e" using obj_member by blast
  have get: "ncl_json_obj_get (Some e) (Some ''id'') = json_text (qi_id i)" "ncl_json_obj_get (Some e) (Some ''params'') = copied ops (qi_params i)"
    by (simp_all add: obj_def flip: e)
  note id = get_text [OF ok(1) get(1)] and params = read_copy_same [OF ok(2) get(2)]
  show ?thesis
    by (simp add: w e query_request_of_def set_request_of_def new_items id
        ncl_item_read_params_into_def same_request_def params)
qed

lemma query_response_entry_reads:
  assumes "query_response_ok ops i"
  shows "\<exists>e. query_response_entry grant_all ops i (Some (J_Object [] 0)) = Some e
    \<and> (\<exists>d. query_response_of grant_all ops e = Some d \<and> same_query_response ops i d)"
proof -
  from assms have ok: "text_ok (qr_id i)" "text_ok (qr_code i)" "text_ok (qr_reason i)" "json_ok ops (qr_params i)" "json_ok ops (qr_values i)"
    by (simp_all add: query_response_ok_def)
  from assms obtain xs c where xs: "qr_values i = Some (J_Array xs c)" by (auto simp: query_response_ok_def)
  define vs where "vs = (if xs = [] then None else copied ops (qr_values i))"
  define obj where "obj = put_opt ''values'' vs (put_opt ''params'' (copied ops (qr_params i)) (put_opt ''reason'' (json_text (qr_reason i))
    (put_opt ''code'' (json_text (qr_code i)) (put_opt ''id'' (json_text (qr_id i)) (Some (J_Object [] 0))))))"
  have "(ncl_json_arr_len (qr_values i) > 0) = (xs \<noteq> [])" by (simp add: xs ncl_json_arr_len_def items_def)
  then have w: "query_response_entry grant_all ops i (Some (J_Object [] 0)) = obj"
    by (simp add: query_response_entry_def Let_def put_rules ok obj_def vs_def put_opt_none)
  have "obj_ok obj" by (simp add: obj_def)
  then obtain e where e: "obj = Some e" using obj_member by blast
  have get: "ncl_json_obj_get (Some e) (Some ''id'') = json_text (qr_id i)" "ncl_json_obj_get (Some e) (Some ''code'') = json_text (qr_code i)"
    "ncl_json_obj_get (Some e) (Some ''reason'') = json_text (qr_reason i)"
    "ncl_json_obj_get (Some e) (Some ''params'') = copied ops (qr_params i)" "ncl_json_obj_get (Some e) (Some ''values'') = vs"
    by (simp_all add: obj_def flip: e)
  have held: "same_json ops (qr_values i) (read_copy grant_all ops e ''values'' (Some (J_Array [] 0)))"
  proof (cases "xs = []")
    case True
    then show ?thesis by (simp add: read_copy_kept get vs_def xs same_json_def)
  next
    case False
    then obtain k where "vs = Some k" using copied_some [of ops "J_Array xs c"] ok(5) by (auto simp: vs_def xs)
    moreover have "same_json ops (qr_values i) (read_copy grant_all ops e ''values'' None)"
      using False ok(5) get(5) by (intro read_copy_same) (simp_all add: vs_def)
    ultimately show ?thesis by (simp add: read_copy_kept get)
  qed
  note reads = get_text [OF ok(1) get(1)] read_text [OF ok(2) get(2)] read_text [OF ok(3) get(3)] read_copy_same [OF ok(4) get(4)] held
  show ?thesis
    by (simp add: w e query_response_of_def new_items reads
        ncl_item_read_params_into_def same_query_response_def)
qed

lemma set_response_entry_reads:
  assumes "set_response_ok ops i"
  shows "\<exists>e. set_response_entry grant_all ops i (Some (J_Object [] 0)) = Some e
    \<and> (\<exists>d. set_response_of grant_all ops e = Some d \<and> same_set_response ops i d)"
proof -
  from assms have ok: "text_ok (so_id i)" "text_ok (so_code i)" "text_ok (so_reason i)" "json_ok ops (so_params i)" "json_ok ops (so_result i)"
    by (simp_all add: set_response_ok_def)
  define obj where "obj = put_opt ''result'' (copied ops (so_result i)) (put_opt ''params'' (copied ops (so_params i)) (put_opt ''reason'' (json_text (so_reason i))
    (put_opt ''code'' (json_text (so_code i)) (put_opt ''id'' (json_text (so_id i)) (Some (J_Object [] 0))))))"
  have w: "set_response_entry grant_all ops i (Some (J_Object [] 0)) = obj"
    by (simp add: set_response_entry_def Let_def put_rules ok obj_def)
  have "obj_ok obj" by (simp add: obj_def)
  then obtain e where e: "obj = Some e" using obj_member by blast
  have get: "ncl_json_obj_get (Some e) (Some ''id'') = json_text (so_id i)" "ncl_json_obj_get (Some e) (Some ''code'') = json_text (so_code i)"
    "ncl_json_obj_get (Some e) (Some ''reason'') = json_text (so_reason i)"
    "ncl_json_obj_get (Some e) (Some ''params'') = copied ops (so_params i)" "ncl_json_obj_get (Some e) (Some ''result'') = copied ops (so_result i)"
    by (simp_all add: obj_def flip: e)
  note reads = get_text [OF ok(1) get(1)] read_text [OF ok(2) get(2)] read_text [OF ok(3) get(3)] read_copy_same [OF ok(4) get(4)]
    read_copy_same [OF ok(5) get(5)]
  show ?thesis
    by (simp add: w e set_response_of_def new_items reads ncl_item_read_params_into_def same_set_response_def)
qed

lemma sample_entry_reads:
  assumes "column_ok ops i"
  shows "\<exists>e. sample_entry grant_all ops i (Some (J_Object [] 0)) = Some e
    \<and> (\<exists>d. sample_column_of grant_all ops e = Some d \<and> same_column ops i d)"
proof -
  from assms have ok: "text_ok (si_encoding i)" "json_ok ops (si_data i)" by (simp_all add: column_ok_def)
  from assms obtain j where j: "si_data i = Some j" by (auto simp: column_ok_def)
  define obj where "obj = put_opt ''data'' (copied ops (si_data i)) (put_opt ''encoding'' (json_text (si_encoding i)) (Some (J_Object [] 0)))"
  have w: "sample_entry grant_all ops i (Some (J_Object [] 0)) = obj"
    by (simp add: sample_entry_def put_rules ok obj_def)
  have "obj_ok obj" by (simp add: obj_def)
  then obtain e where e: "obj = Some e" using obj_member by blast
  have get: "ncl_json_obj_get (Some e) (Some ''encoding'') = json_text (si_encoding i)" "ncl_json_obj_get (Some e) (Some ''data'') = copied ops (si_data i)"
    by (simp_all add: obj_def flip: e)
  obtain k where k: "copied ops (si_data i) = Some k" using copied_some ok(2) j by metis
  have data: "read_copy grant_all ops e ''data'' (Some (J_Array [] 0)) = read_copy grant_all ops e ''data'' None"
    by (simp add: read_copy_kept get k)
  note same = read_copy_same [OF ok(2) get(2)]
  then have "read_copy grant_all ops e ''data'' None \<noteq> None" by (auto simp: same_json_def j)
  with same show ?thesis
    by (simp add: w e sample_column_of_def new_items Let_def data read_text [OF ok(1) get(1)] same_column_def)
qed

section \<open>Messages without items\<close>

definition message_reads :: "'d double_ops \<Rightarrow> 'd ncl_message \<Rightarrow> bool" where
  "message_reads ops msg \<longleftrightarrow> (\<exists>j m. ncl_message_to_json grant_all ops msg = Some j
     \<and> ncl_message_from_json grant_all ops (body_type (as_body msg)) (Some j) = Some m
     \<and> message_id m = message_id msg \<and> same_body ops (as_body msg) (as_body m))"

lemma read_string_all: "ncl_msg_read_string grant_all j key = ncl_json_as_string (ncl_json_obj_get (Some j) (Some key))"
  by (simp add: ncl_msg_read_string_def ncl_json_obj_get_string_def)

lemma as_string_text: "text_ok s \<Longrightarrow> ncl_json_as_string (json_text s) = s"
  by (simp add: json_text_def as_string_opt text_ok_cstr)

lemma read_copy_all: "read_copy grant_all ops j key None = copied ops (ncl_json_obj_get (Some j) (Some key))"
  by (simp add: read_copy_def copied_def)

lemma copied_twice: "json_ok ops v \<Longrightarrow> same_json ops v (copied ops (copied ops v))"
  using copied_same same_json_trans same_ok by metis

lemma new_message: "ncl_message_new grant_all t = Some \<lparr>message_id = None, as_body = new_body t\<rparr>"
  by (simp add: ncl_message_new_def grant_all)

text \<open>What the reader makes of an object with the given members.\<close>

lemmas reading = read_string_all as_string_text ncl_msg_read_number_as_string_def as_text_json read_copy_all copied_twice
  ncl_item_read_params_into_def new_message start_message_def

abbreviation started :: "'d double_ops \<Rightarrow> string option \<Rightarrow> 'd message_body \<Rightarrow> 'd json option" where
  "started ops mid body \<equiv> write_body grant_all ops body (put_opt ''@id'' (json_text mid) (Some (J_Object [] 0)))"

lemma reads_backI:
  fixes ops :: "'d double_ops"
  assumes "text_ok mid" "obj_ok (started ops mid body)" "ncl_json_obj_get (started ops mid body) (Some ''@id'') = json_text mid"
    and reads: "\<And>j. (\<And>k. ncl_json_obj_get (Some j) (Some k) = ncl_json_obj_get (started ops mid body) (Some k)) \<Longrightarrow>
      \<exists>m b. start_message grant_all ops (body_type body) j = Some m \<and> read_body grant_all ops j (as_body m) = Some b \<and> same_body ops body b"
  shows "message_reads ops \<lparr>message_id = mid, as_body = body\<rparr>"
proof -
  obtain j where j: "started ops mid body = Some j" "ncl_json_type_of (Some j) = NCL_JSON_OBJECT" using obj_member [OF assms(2)] by blast
  obtain m b where m: "start_message grant_all ops (body_type body) j = Some m" "read_body grant_all ops j (as_body m) = Some b" "same_body ops body b"
    using reads [of j] by (auto simp: j(1))
  have "ncl_message_to_json grant_all ops \<lparr>message_id = mid, as_body = body\<rparr> = Some j"
    by (simp add: ncl_message_to_json_def new_obj put_str_opt j(1))
  moreover have "ncl_msg_read_string grant_all j ''@id'' = mid"
    using assms(1,3) by (simp add: read_string_all j(1) as_string_text)
  ultimately show ?thesis
    using m by (simp add: message_reads_def ncl_message_from_json_def j(2))
qed

lemma plain_reads:
  assumes "text_ok mid"
  shows "message_reads ops \<lparr>message_id = mid, as_body = As_Ping\<rparr>"
    "message_reads ops \<lparr>message_id = mid, as_body = As_Probe_Query_Request\<rparr>"
    "text_ok c \<Longrightarrow> message_reads ops \<lparr>message_id = mid, as_body = As_Pong c\<rparr>"
    "text_ok v \<Longrightarrow> message_reads ops \<lparr>message_id = mid, as_body = As_Probe_Version v\<rparr>"
    "text_ok d \<Longrightarrow> message_reads ops \<lparr>message_id = mid, as_body = As_Register_Request d\<rparr>"
    "text_ok c \<Longrightarrow> message_reads ops \<lparr>message_id = mid, as_body = As_Register_Response c\<rparr>"
    "\<lbrakk>text_ok c; text_ok r\<rbrakk> \<Longrightarrow> message_reads ops \<lparr>message_id = mid, as_body = As_Probe_Set_Response c r\<rparr>"
  using assms by (auto intro!: reads_backI simp: put_rules reading)

lemma object_reads:
  assumes "text_ok mid" "text_ok (co_id ob)" "text_ok (co_handler ob)"
  shows "message_reads ops \<lparr>message_id = mid, as_body = As_Method_Status_Request ob\<rparr>"
    "message_reads ops \<lparr>message_id = mid, as_body = As_Method_Result_Request ob\<rparr>"
  using assms by (auto intro!: reads_backI simp: put_rules reading read_object_def blank_object_def)

lemma event_reads:
  assumes "text_ok mid" "body_ok ops (As_Event e)"
  shows "message_reads ops \<lparr>message_id = mid, as_body = As_Event e\<rparr>"
  using assms by (intro reads_backI) (simp_all add: put_rules reading)

lemma get_int_all: "fst (ncl_json_obj_get_int ops obj key d) = (case fst (ncl_json_as_int ops (ncl_json_obj_get obj key)) of None \<Rightarrow> d | Some v \<Rightarrow> v)"
  by (simp add: ncl_json_obj_get_int_def case_prod_unfold)

lemma status_reads:
  assumes "text_ok mid" "body_ok ops (As_Method_Status_Response st)"
  shows "message_reads ops \<lparr>message_id = mid, as_body = As_Method_Status_Response st\<rparr>"
  using assms by (intro reads_backI) (simp_all add: put_rules reading write_status_response_def read_status_response_def has_get
      get_int_all as_int_node Let_def)

lemma result_reads:
  assumes "text_ok mid" "body_ok ops (As_Method_Result_Response rr)"
  shows "message_reads ops \<lparr>message_id = mid, as_body = As_Method_Result_Response rr\<rparr>"
  using assms by (intro reads_backI) (simp_all add: put_rules reading write_result_response_def read_result_response_def Let_def)

lemma call_request_reads:
  assumes "text_ok mid" "body_ok ops (As_Method_Call_Request q)"
  shows "message_reads ops \<lparr>message_id = mid, as_body = As_Method_Call_Request q\<rparr>"
proof (rule reads_backI)
  let ?b = "As_Method_Call_Request q"
  have ok: "text_ok (cq_method q)" "text_ok (cq_token q)" "json_ok ops (cq_params q)" "cq_has_check q" "\<not> cq_has_async q \<Longrightarrow> \<not> cq_async q"
    using assms(2) by simp_all
  show "text_ok mid" "obj_ok (started ops mid ?b)" "ncl_json_obj_get (started ops mid ?b) (Some ''@id'') = json_text mid"
    using assms(1) ok by (simp_all add: put_rules write_call_request_def Let_def)
  fix j assume get: "\<And>k. ncl_json_obj_get (Some j) (Some k) = ncl_json_obj_get (started ops mid ?b) (Some k)"
  have args: "(case copied ops (cq_params q) of None \<Rightarrow> None | Some a \<Rightarrow> ncl_json_clone grant_all ops a) = copied ops (copied ops (cq_params q))"
    by (simp add: copied_def)
  show "\<exists>m b. start_message grant_all ops (body_type ?b) j = Some m \<and> read_body grant_all ops j (as_body m) = Some b \<and> same_body ops ?b b"
    using assms(1) ok
    by (cases "cq_has_async q") (simp_all add: get put_rules reading write_call_request_def read_call_request_def Let_def
        read_flag_def as_bool_node args cong: option.case_cong)
qed

lemma call_response_reads:
  assumes "text_ok mid" "body_ok ops (As_Method_Call_Response p)"
  shows "message_reads ops \<lparr>message_id = mid, as_body = As_Method_Call_Response p\<rparr>"
proof (rule reads_backI)
  let ?b = "As_Method_Call_Response p"
  have ok: "text_ok (cs_code p)" "text_ok (cs_method p)" "text_ok (cs_token p)" "text_ok (cs_reason p)" "text_ok (cs_handler p)"
    "json_ok ops (cs_params p)" "json_ok ops (cs_data p)" "\<not> cs_has_check p \<Longrightarrow> \<not> cs_check p"
    using assms(2) by simp_all
  show "text_ok mid" "obj_ok (started ops mid ?b)" "ncl_json_obj_get (started ops mid ?b) (Some ''@id'') = json_text mid"
    using assms(1) ok by (simp_all add: put_rules write_call_response_def Let_def)
  fix j assume get: "\<And>k. ncl_json_obj_get (Some j) (Some k) = ncl_json_obj_get (started ops mid ?b) (Some k)"
  show "\<exists>m b. start_message grant_all ops (body_type ?b) j = Some m \<and> read_body grant_all ops j (as_body m) = Some b \<and> same_body ops ?b b"
    using assms(1) ok
    by (cases "cs_has_check p") (simp_all add: get put_rules reading write_call_response_def read_call_response_def Let_def
        read_flag_def as_bool_node)
qed

section \<open>Models\<close>

definition model_json :: "'d double_ops \<Rightarrow> 'd json ncl_node option \<Rightarrow> 'd json option" where
  "model_json ops m = (case m of None \<Rightarrow> None | Some n \<Rightarrow> ncl_node_to_json grant_all ops n)"

lemma model_written:
  assumes "model_ok ops (Some n)"
  shows "\<exists>j n1. ncl_node_to_json grant_all ops n = Some j \<and> ncl_node_from_json grant_all ops NCL_NODE_ROOT j = Some n1 \<and> view ops n1 = view ops n"
  using node_reads_back [of ops n] assms by (auto simp: model_ok_def reads_back_def)

lemma put_model_opt: "model_ok ops m \<Longrightarrow> put_model grant_all ops m obj = put_opt ''probe'' (model_json ops m) obj"
proof (cases m)
  case (Some n)
  assume "model_ok ops m"
  with model_written Some obtain j where "ncl_node_to_json grant_all ops n = Some j" by blast
  then show ?thesis by (simp add: put_model_def model_json_def put_opt_def Some)
qed (simp add: put_model_def model_json_def put_opt_def)

lemma read_model_same:
  assumes "model_ok ops m" "ncl_json_obj_get (Some j) (Some ''probe'') = model_json ops m"
  shows "same_model ops m (read_model grant_all ops j None)"
proof (cases m)
  case (Some n)
  with model_written assms(1) obtain k n1 where k: "ncl_node_to_json grant_all ops n = Some k"
      "ncl_node_from_json grant_all ops NCL_NODE_ROOT k = Some n1" "view ops n1 = view ops n" by blast
  have "ncl_json_obj_get (Some j) (Some ''probe'') = Some k" using assms(2) k(1) by (simp add: Some model_json_def)
  then have "read_model grant_all ops j None = ncl_root_node_post_construct grant_all n1"
    by (simp add: read_model_def ncl_root_node_from_json_def k(2))
  with k(3) show ?thesis by (auto simp: same_model_def Some)
qed (use assms in \<open>simp add: read_model_def same_model_def model_json_def\<close>)

lemma probe_reads:
  assumes "text_ok mid"
  shows "model_ok ops m \<Longrightarrow> message_reads ops \<lparr>message_id = mid, as_body = As_Probe_Set_Request m\<rparr>"
    "body_ok ops (As_Probe_Query_Response b) \<Longrightarrow> message_reads ops \<lparr>message_id = mid, as_body = As_Probe_Query_Response b\<rparr>"
proof -
  show "message_reads ops \<lparr>message_id = mid, as_body = As_Probe_Set_Request m\<rparr>" if "model_ok ops m"
    using assms that by (intro reads_backI) (simp_all add: put_rules put_model_opt reading read_model_same)
  show "message_reads ops \<lparr>message_id = mid, as_body = As_Probe_Query_Response b\<rparr>" if "body_ok ops (As_Probe_Query_Response b)"
    using assms that by (intro reads_backI) (simp_all add: put_rules put_model_opt reading read_model_same)
qed

section \<open>Messages with items\<close>

lemma put_items_all:
  fixes w :: "'i \<Rightarrow> 'd json option \<Rightarrow> 'd json option"
  assumes "items_ok ok v" "\<And>i. ok i \<Longrightarrow> \<exists>e. w i (Some (J_Object [] 0)) = Some e \<and> (\<exists>d. item_of e = Some d \<and> S i d)"
  shows "\<exists>a. (\<forall>obj. put_items grant_all key w v obj = put_opt key a obj)
    \<and> list_all2 (\<lambda>x e. \<exists>i. x = Some i \<and> (\<exists>d. item_of e = Some d \<and> S i d)) (pv_items v) (items a)"
proof (cases "pv_items v")
  case Nil
  then show ?thesis by (intro exI [of _ None]) (simp add: put_items_def ncl_ptrvec_len_def put_opt_none items_def)
next
  case (Cons x xs)
  have "list_all (\<lambda>x. \<exists>i e. x = Some i \<and> w i (Some (J_Object [] 0)) = Some e \<and> (\<exists>d. item_of e = Some d \<and> S i d)) (pv_items v)"
    using assms by (fastforce simp: items_ok_def list_all_iff)
  from entries_all [where w = w and R = "\<lambda>i e. \<exists>d. item_of e = Some d \<and> S i d", OF this, of "[]" 0] obtain es c where es: "entries_json grant_all w (pv_items v) (Some (J_Array [] 0)) = Some (J_Array es c)"
      "list_all2 (\<lambda>x e. \<exists>i. x = Some i \<and> (\<exists>d. item_of e = Some d \<and> S i d)) (pv_items v) es" by auto
  have "put_items grant_all key w v obj = put_opt key (Some (J_Array es c)) obj" for obj
    using es(1) Cons by (simp add: put_items_def ncl_ptrvec_len_def new_arr Let_def put_opts(4))
  with es(2) show ?thesis by (intro exI [of _ "Some (J_Array es c)"]) (simp add: items_def)
qed

text \<open>
  A kind of message whose body is a vector of items under one key. \<open>K\<close> is the constructor of its
  body, \<open>w\<close> writes an entry, \<open>item_of\<close> reads one, \<open>add\<close> adds an item.
\<close>

lemma list_reads:
  fixes ops :: "'d double_ops" and w :: "'i \<Rightarrow> 'd json option \<Rightarrow> 'd json option"
  assumes "text_ok mid" "items_ok ok v" "key \<noteq> ''@id''"
    and written: "\<And>i. ok i \<Longrightarrow> \<exists>e. w i (Some (J_Object [] 0)) = Some e \<and> (\<exists>d. item_of e = Some d \<and> S i d)"
    and add: "\<And>d msg v. as_body msg = K v \<Longrightarrow>
      \<exists>c. add d msg = (NCL_OK, [], msg\<lparr>as_body := K \<lparr>pv_items = pv_items v @ [Some d], pv_cap = c, pv_free = pv_free v\<rparr>\<rparr>)"
    and body: "\<And>obj. write_body grant_all ops (K v) obj = put_items grant_all key w v obj"
    and start: "\<And>j. start_message grant_all ops (body_type (K v)) j
      = read_entries item_of add (items (ncl_json_obj_get (Some j) (Some key))) \<lparr>message_id = None, as_body = K (ncl_ptrvec_init True)\<rparr>"
    and read: "\<And>j w. read_body grant_all ops j (K w) = Some (K w)" and same: "\<And>w. same_items S v w \<Longrightarrow> same_body ops (K v) (K w)"
  shows "message_reads ops \<lparr>message_id = mid, as_body = K v\<rparr>"
proof (rule reads_backI)
  obtain a where a: "\<And>obj. put_items grant_all key w v obj = put_opt key a obj"
      "list_all2 (\<lambda>x e. \<exists>i. x = Some i \<and> (\<exists>d. item_of e = Some d \<and> S i d)) (pv_items v) (items a)"
    using put_items_all [where item_of = item_of and S = S and w = w and key = key and v = v and ok = ok, OF assms(2) written] by blast
  show "text_ok mid" "obj_ok (started ops mid (K v))" "ncl_json_obj_get (started ops mid (K v)) (Some ''@id'') = json_text mid"
    using assms(1,3) by (simp_all add: body a(1))
  fix j assume get: "\<And>k. ncl_json_obj_get (Some j) (Some k) = ncl_json_obj_get (started ops mid (K v)) (Some k)"
  have "ncl_json_obj_get (Some j) (Some key) = a" using assms(3) by (simp add: get body a(1))
  moreover obtain ys c where ys: "read_entries item_of add (items a) \<lparr>message_id = None, as_body = K (ncl_ptrvec_init True)\<rparr>
      = Some \<lparr>message_id = None, as_body = K \<lparr>pv_items = ys, pv_cap = c, pv_free = True\<rparr>\<rparr>"
      "list_all2 (\<lambda>x y. \<exists>a b. x = Some a \<and> y = Some b \<and> S a b) (pv_items v) ys"
    using read_entries_all [where item_of = item_of and S = S and K = K and add = add, OF a(2) add, where v = "ncl_ptrvec_init True" and msg = "\<lparr>message_id = None, as_body = K (ncl_ptrvec_init True)\<rparr>"]
    by (auto simp: ncl_ptrvec_init_def)
  ultimately show "\<exists>m b. start_message grant_all ops (body_type (K v)) j = Some m \<and> read_body grant_all ops j (as_body m) = Some b \<and> same_body ops (K v) b"
    by (auto simp: start read same_items_def intro!: same)
qed

lemmas adding = ncl_message_add_query_request_item_def ncl_message_add_query_response_item_def ncl_message_add_set_request_item_def
  ncl_message_add_set_response_item_def ncl_message_add_sample_item_def ncl_sample_item_is_valid_def

lemmas starting = start_message_def ncl_query_request_from_json_def ncl_query_response_from_json_def ncl_set_request_from_json_def
  ncl_set_response_from_json_def new_message

lemma add_all:
  "as_body msg = As_Query_Request v \<Longrightarrow> \<exists>c. ncl_message_add_query_request_item grant_all i msg
     = (NCL_OK, [], msg\<lparr>as_body := As_Query_Request \<lparr>pv_items = pv_items v @ [Some i], pv_cap = c, pv_free = pv_free v\<rparr>\<rparr>)"
  "as_body msg = As_Query_Response v1 \<Longrightarrow> \<exists>c. ncl_message_add_query_response_item grant_all i1 msg
     = (NCL_OK, [], msg\<lparr>as_body := As_Query_Response \<lparr>pv_items = pv_items v1 @ [Some i1], pv_cap = c, pv_free = pv_free v1\<rparr>\<rparr>)"
  "as_body msg = As_Set_Request v \<Longrightarrow> \<exists>c. ncl_message_add_set_request_item grant_all i msg
     = (NCL_OK, [], msg\<lparr>as_body := As_Set_Request \<lparr>pv_items = pv_items v @ [Some i], pv_cap = c, pv_free = pv_free v\<rparr>\<rparr>)"
  "as_body msg = As_Set_Response v2 \<Longrightarrow> \<exists>c. ncl_message_add_set_response_item grant_all i2 msg
     = (NCL_OK, [], msg\<lparr>as_body := As_Set_Response \<lparr>pv_items = pv_items v2 @ [Some i2], pv_cap = c, pv_free = pv_free v2\<rparr>\<rparr>)"
  "as_body msg = As_Sample (b\<lparr>sa_data := v3\<rparr>) \<Longrightarrow> \<exists>c. ncl_message_add_sample_item grant_all (Some i3) msg
     = (NCL_OK, [], msg\<lparr>as_body := As_Sample (b\<lparr>sa_data := \<lparr>pv_items = pv_items v3 @ [Some i3], pv_cap = c, pv_free = pv_free v3\<rparr>\<rparr>)\<rparr>)"
  using push_owned_all [of v "Some i"] push_owned_all [of v1 "Some i1"] push_owned_all [of v2 "Some i2"] push_owned_all [of v3 "Some i3"]
  by (auto simp: adding)

lemma query_request_reads:
  "\<lbrakk>text_ok mid; items_ok (request_ok ops) v\<rbrakk> \<Longrightarrow> message_reads ops \<lparr>message_id = mid, as_body = As_Query_Request v\<rparr>"
  by (rule list_reads [where ok = "request_ok ops" and key = "''ids''" and w = "request_entry grant_all ops"
        and item_of = "query_request_of grant_all ops" and S = "same_request ops" and add = "ncl_message_add_query_request_item grant_all"])
    ((simp add: starting; fail) | rule add_all, assumption | drule request_entry_reads, blast)+

lemma query_response_reads:
  "\<lbrakk>text_ok mid; items_ok (query_response_ok ops) v\<rbrakk> \<Longrightarrow> message_reads ops \<lparr>message_id = mid, as_body = As_Query_Response v\<rparr>"
  by (rule list_reads [where ok = "query_response_ok ops" and key = "''values''" and w = "query_response_entry grant_all ops"
        and item_of = "query_response_of grant_all ops" and S = "same_query_response ops" and add = "ncl_message_add_query_response_item grant_all"])
    ((simp add: starting; fail) | rule add_all, assumption | drule query_response_entry_reads, blast)+

lemma set_request_reads:
  "\<lbrakk>text_ok mid; items_ok (request_ok ops) v\<rbrakk> \<Longrightarrow> message_reads ops \<lparr>message_id = mid, as_body = As_Set_Request v\<rparr>"
  by (rule list_reads [where ok = "request_ok ops" and key = "''values''" and w = "request_entry grant_all ops"
        and item_of = "set_request_of grant_all ops" and S = "same_request ops" and add = "ncl_message_add_set_request_item grant_all"])
    ((simp add: starting; fail) | rule add_all, assumption | drule request_entry_reads, blast)+

lemma set_response_reads:
  "\<lbrakk>text_ok mid; items_ok (set_response_ok ops) v\<rbrakk> \<Longrightarrow> message_reads ops \<lparr>message_id = mid, as_body = As_Set_Response v\<rparr>"
  by (rule list_reads [where ok = "set_response_ok ops" and key = "''results''" and w = "set_response_entry grant_all ops"
        and item_of = "set_response_of grant_all ops" and S = "same_set_response ops" and add = "ncl_message_add_set_response_item grant_all"])
    ((simp add: starting; fail) | rule add_all, assumption | drule set_response_entry_reads, blast)+

section \<open>Samples\<close>

lemma read_paths_body:
  "as_body msg = As_Sample b \<Longrightarrow> read_paths g xs msg = msg\<lparr>as_body := As_Sample (b\<lparr>sa_paths := read_strings g xs (sa_paths b)\<rparr>)\<rparr>"
proof (induction xs arbitrary: msg b)
  case Nil
  then have "msg\<lparr>as_body := As_Sample b\<rparr> = msg" by simp
  then show ?case by simp
next
  case (Cons x xs)
  show ?case
  proof (cases "ncl_json_as_string (Some x)")
    case None
    then show ?thesis using Cons.IH [OF Cons.prems] by simp
  next
    case (Some path)
    let ?v = "snd (ncl_strvec_push g (sa_paths b) (Some path))"
    have "snd (ncl_message_add_sample_path g (Some path) msg) = msg\<lparr>as_body := As_Sample (b\<lparr>sa_paths := ?v\<rparr>)\<rparr>"
      using Cons.prems by (simp add: ncl_message_add_sample_path_def case_prod_unfold)
    with Cons.IH [of "msg\<lparr>as_body := As_Sample (b\<lparr>sa_paths := ?v\<rparr>)\<rparr>"] Some show ?thesis by simp
  qed
qed

lemma sample_reads:
  fixes ops :: "'d double_ops"
  assumes "text_ok mid" "sample_ok ops b"
  shows "message_reads ops \<lparr>message_id = mid, as_body = As_Sample b\<rparr>"
proof (rule reads_backI)
  have ok: "list_all is_cstr (sv_items (sa_paths b))" "text_ok (sa_id b)" "text_ok (sa_begin_time b)" "items_ok (column_ok ops) (sa_data b)"
    "\<not> sa_has_interval b \<longrightarrow> sa_interval b = 0" "\<not> sa_has_upload_interval b \<longrightarrow> sa_upload_interval b = 0"
    using assms(2) by (simp_all add: sample_ok_def)
  let ?base = "put_opt ''@id'' (json_text mid) (Some (J_Object [] 0)) :: 'd json option"
  obtain a where a: "(if ncl_strvec_len (sa_paths b) > 0 then put_json grant_all ''paths'' (ncl_strvec_to_json grant_all (sa_paths b)) ?base else ?base)
      = put_opt ''paths'' a ?base" "sv_items (read_strings grant_all (items a) ncl_strvec_init) = sv_items (sa_paths b)"
    using put_texts [of ?base "sa_paths b" "''paths''"] ok(1) by auto
  obtain d where d: "\<And>obj. put_items grant_all ''data'' (sample_entry grant_all ops) (sa_data b) obj = put_opt ''data'' d obj"
      "list_all2 (\<lambda>x e. \<exists>i. x = Some i \<and> (\<exists>d. sample_column_of grant_all ops e = Some d \<and> same_column ops i d)) (pv_items (sa_data b)) (items d)"
    using put_items_all [where item_of = "sample_column_of grant_all ops" and S = "same_column ops" and w = "sample_entry grant_all ops"
        and key = "''data''" and v = "sa_data b" and ok = "column_ok ops", OF ok(4) sample_entry_reads] by blast
  have w: "started ops mid (As_Sample b) = put_opt ''uploadInterval'' (json_if (sa_has_upload_interval b) (int_node ops (sa_upload_interval b)))
      (put_opt ''interval'' (json_if (sa_has_interval b) (int_node ops (sa_interval b))) (put_opt ''data'' d
        (put_opt ''beginTime'' (json_text (sa_begin_time b)) (put_opt ''id'' (json_text (sa_id b)) (put_opt ''paths'' a ?base)))))"
    by (simp only: write_body.simps write_sample_def Let_def a(1) put_rules d(1))
  show "text_ok mid" "obj_ok (started ops mid (As_Sample b))" "ncl_json_obj_get (started ops mid (As_Sample b)) (Some ''@id'') = json_text mid"
    unfolding w using assms(1) by simp_all
  fix j assume "\<And>k. ncl_json_obj_get (Some j) (Some k) = ncl_json_obj_get (started ops mid (As_Sample b)) (Some k)"
  note get = this [unfolded w]
  define b1 :: "'d sample_body" where "b1 = \<lparr>sa_paths = read_strings grant_all (items a) ncl_strvec_init, sa_id = sa_id b, sa_begin_time = sa_begin_time b,
    sa_data = ncl_ptrvec_init True, sa_has_interval = False, sa_interval = 0, sa_has_upload_interval = False, sa_upload_interval = 0\<rparr>"
  define msg2 where "msg2 = \<lparr>message_id = None, as_body = As_Sample b1\<rparr>"
  have msg2: "as_body msg2 = As_Sample (b1\<lparr>sa_data := ncl_ptrvec_init True\<rparr>)" by (simp add: msg2_def b1_def)
  obtain ys c where ys: "read_entries (sample_column_of grant_all ops) (\<lambda>item. ncl_message_add_sample_item grant_all (Some item)) (items d) msg2
      = Some (msg2\<lparr>as_body := As_Sample (b1\<lparr>sa_data := \<lparr>pv_items = ys, pv_cap = c, pv_free = True\<rparr>\<rparr>)\<rparr>)"
      "list_all2 (\<lambda>x y. \<exists>a b. x = Some a \<and> y = Some b \<and> same_column ops a b) (pv_items (sa_data b)) ys"
    using read_entries_all [where item_of = "sample_column_of grant_all ops" and S = "same_column ops" and K = "\<lambda>v. As_Sample (b1\<lparr>sa_data := v\<rparr>)"
        and add = "\<lambda>item. ncl_message_add_sample_item grant_all (Some item)", OF d(2) add_all(5) msg2] by (auto simp: ncl_ptrvec_init_def)
  have reads: "read_sample_fields (\<lambda>b. b\<lparr>sa_id := ncl_msg_read_string grant_all j ''id'', sa_begin_time := ncl_msg_read_number_as_string grant_all ops j ''beginTime''\<rparr>)
      (read_paths grant_all (items (ncl_json_obj_get (Some j) (Some ''paths''))) \<lparr>message_id = None, as_body = new_body NCL_MSG_SAMPLE\<rparr>) = msg2"
    using ok(2,3) by (simp add: read_paths_body read_sample_fields_def msg2_def b1_def reading get)
  have intervals: "read_int ops (Some j) ''interval'' = (sa_has_interval b, sa_interval b)"
      "read_int ops (Some j) ''uploadInterval'' = (sa_has_upload_interval b, sa_upload_interval b)"
    using ok(5,6) by (auto intro!: read_int_opt simp: get)
  have data: "items (ncl_json_obj_get (Some j) (Some ''data'')) = items d" by (simp add: get)
  have "ncl_sample_from_json grant_all ops j = Some \<lparr>message_id = None, as_body = As_Sample (b1\<lparr>sa_data := \<lparr>pv_items = ys, pv_cap = c, pv_free = True\<rparr>,
      sa_has_interval := sa_has_interval b, sa_interval := sa_interval b,
      sa_has_upload_interval := sa_has_upload_interval b, sa_upload_interval := sa_upload_interval b\<rparr>)\<rparr>"
    unfolding ncl_sample_from_json_def new_message option.case Let_def reads data ys(1) intervals by (simp add: read_sample_fields_def msg2_def)
  with ys(2) a(2) show "\<exists>m b1. start_message grant_all ops (body_type (As_Sample b)) j = Some m \<and> read_body grant_all ops j (as_body m) = Some b1
      \<and> same_body ops (As_Sample b) b1"
    by (simp add: start_message_def same_sample_def same_items_def b1_def)
qed

section \<open>All messages\<close>

lemma every_message_reads:
  assumes "text_ok (message_id msg)" "body_ok ops (as_body msg)"
  shows "message_reads ops msg"
proof -
  obtain mid body where msg: "msg = \<lparr>message_id = mid, as_body = body\<rparr>" by (cases msg) auto
  have mid: "text_ok mid" and ok: "body_ok ops body" using assms msg by simp_all
  have "message_reads ops \<lparr>message_id = mid, as_body = body\<rparr>"
    using ok
    by (cases body) (auto intro: plain_reads [OF mid] object_reads [OF mid] event_reads [OF mid] status_reads [OF mid] result_reads [OF mid]
        call_request_reads [OF mid] call_response_reads [OF mid] probe_reads [OF mid] query_request_reads [OF mid]
        query_response_reads [OF mid] set_request_reads [OF mid] set_response_reads [OF mid] sample_reads [OF mid])
  then show ?thesis by (simp add: msg)
qed

text \<open>
  C7. Round trip of messages: a message of any kind but the unknown one, whose texts are C strings,
  whose documents are well formed and whose unset flags and numbers are clear, is written by
  \<open>ncl_message_to_json\<close> to a document from which \<open>ncl_message_from_json\<close>, asked for that kind, builds
  the same message: its id, every field of its kind, and its items in order with all they carry. A
  model in a probe is read back as it was written and then post constructed.
\<close>

theorem message_json_roundtrip:
  assumes "text_ok (message_id msg)" "body_ok ops (as_body msg)"
  shows "\<exists>j m. ncl_message_to_json grant_all ops msg = Some j
    \<and> ncl_message_from_json grant_all ops (body_type (as_body msg)) (Some j) = Some m
    \<and> message_id m = message_id msg \<and> same_body ops (as_body msg) (as_body m)"
  using every_message_reads [OF assms] by (simp add: message_reads_def)

text \<open>A query of two items, and a sample with a header.\<close>

definition sample_query :: "int ncl_message" where
  "sample_query = \<lparr>message_id = Some ''7'', as_body = As_Query_Request \<lparr>pv_items =
     [Some \<lparr>qi_id = Some ''/MACHINE/STATUS'', qi_params = None\<rparr>,
      Some \<lparr>qi_id = Some ''d1'', qi_params = Some (J_Object [(''operation'', J_String ''get_length'')] 8)\<rparr>], pv_cap = 8, pv_free = True\<rparr>\<rparr>"

lemma message_json_roundtrip_witness:
  "\<exists>j m. ncl_message_to_json grant_all int_ops sample_query = Some j
    \<and> ncl_message_from_json grant_all int_ops NCL_MSG_QUERY_REQUEST (Some j) = Some m
    \<and> message_id m = Some ''7'' \<and> same_body int_ops (as_body sample_query) (as_body m)"
proof -
  have "text_ok (message_id sample_query)" "body_ok int_ops (as_body sample_query)"
    by (simp_all add: sample_query_def text_ok_def is_cstr_def NUL_def items_ok_def request_ok_def json_ok_def)
  from message_json_roundtrip [OF this] show ?thesis by (simp add: sample_query_def)
qed

end
