(* ===== verification/Message_Ops.thy ===== *)
theory Message_Ops
  imports Message_Roundtrip
begin

text \<open>
  Histories of messages: a message is made by \<open>ncl_message_new\<close> and changed by the public functions
  only. Its kind never changes, and what it holds can always be written and read back.
\<close>

section \<open>Histories\<close>

datatype 'd message_op =
    Set_Message_Id "string option" | Set_Code "string option" | Set_Reason "string option" | Set_Version "string option"
  | Set_Device_Id "string option" | Set_Model "'d json ncl_node option" | Take_Model | Set_Method "string option"
  | Set_Params "'d json option" | Set_Token "string option" | Set_Check bool | Set_Data "'d json option"
  | Set_Event "'d json option" | Set_Sample_Id "string option" | Set_Handler "string option" | Set_Request_Id "string option"
  | Set_Async bool | Set_Status "string option" | Set_Process int | Set_Result "string option" | Set_Return "'d json option"
  | Set_Event_Time int int | Set_Begin_Time "string option" | Set_Sample_Interval int | Set_Upload_Interval int
  | Add_Sample_Path "string option" | Add_Sample_Item "'d sample_item option" | Add_Query_Request_Item "'d request_item"
  | Add_Query_Response_Item "'d query_response_item" | Add_Set_Request_Item "'d request_item"
  | Add_Set_Response_Item "'d set_response_item" | Finalise int "u8 list option"

text \<open>The status is not looked at: a refused operation is one that leaves the message as it is.\<close>

fun run_op :: "grant \<Rightarrow> 'd message_op \<Rightarrow> 'd ncl_message \<Rightarrow> 'd ncl_message" where
  "run_op g (Set_Message_Id t) msg = snd (ncl_message_set_message_id g t msg)"
| "run_op g (Set_Code t) msg = snd (ncl_message_set_code g t msg)"
| "run_op g (Set_Reason t) msg = snd (ncl_message_set_reason g t msg)"
| "run_op g (Set_Version t) msg = snd (ncl_message_set_version g t msg)"
| "run_op g (Set_Device_Id t) msg = snd (ncl_message_set_device_id g t msg)"
| "run_op g (Set_Model m) msg = snd (ncl_message_set_model m msg)"
| "run_op g Take_Model msg = snd (ncl_message_take_model msg)"
| "run_op g (Set_Method t) msg = snd (ncl_message_set_method g t msg)"
| "run_op g (Set_Params j) msg = snd (ncl_message_set_params j msg)"
| "run_op g (Set_Token t) msg = snd (ncl_message_set_token g t msg)"
| "run_op g (Set_Check b) msg = snd (ncl_message_set_check b msg)"
| "run_op g (Set_Data j) msg = snd (ncl_message_set_data j msg)"
| "run_op g (Set_Event j) msg = snd (ncl_message_set_event j msg)"
| "run_op g (Set_Sample_Id t) msg = snd (ncl_message_set_sample_id g t msg)"
| "run_op g (Set_Handler t) msg = snd (ncl_message_set_handler g t msg)"
| "run_op g (Set_Request_Id t) msg = snd (ncl_message_set_request_id g t msg)"
| "run_op g (Set_Async b) msg = snd (ncl_message_set_async b msg)"
| "run_op g (Set_Status t) msg = snd (ncl_message_set_status g t msg)"
| "run_op g (Set_Process n) msg = snd (ncl_message_set_process n msg)"
| "run_op g (Set_Result t) msg = snd (ncl_message_set_result g t msg)"
| "run_op g (Set_Return j) msg = snd (ncl_message_set_return j msg)"
| "run_op g (Set_Event_Time now ms) msg = snd (ncl_message_set_event_time_ms g now ms msg)"
| "run_op g (Set_Begin_Time t) msg = snd (ncl_message_set_begin_time g t msg)"
| "run_op g (Set_Sample_Interval n) msg = snd (ncl_message_set_sample_interval n msg)"
| "run_op g (Set_Upload_Interval n) msg = snd (ncl_message_set_upload_interval n msg)"
| "run_op g (Add_Sample_Path t) msg = snd (ncl_message_add_sample_path g t msg)"
| "run_op g (Add_Sample_Item i) msg = snd (snd (ncl_message_add_sample_item g i msg))"
| "run_op g (Add_Query_Request_Item i1) msg = snd (snd (ncl_message_add_query_request_item g i1 msg))"
| "run_op g (Add_Query_Response_Item i2) msg = snd (snd (ncl_message_add_query_response_item g i2 msg))"
| "run_op g (Add_Set_Request_Item i1) msg = snd (snd (ncl_message_add_set_request_item g i1 msg))"
| "run_op g (Add_Set_Response_Item i3) msg = snd (snd (ncl_message_add_set_response_item g i3 msg))"
| "run_op g (Finalise now random) msg = snd (ncl_message_finalise g now random msg)"

lemmas op_defs = ncl_message_set_code_def ncl_message_set_reason_def ncl_message_set_version_def ncl_message_set_device_id_def
  ncl_message_set_model_def ncl_message_take_model_def ncl_message_set_method_def ncl_message_set_params_def ncl_message_set_token_def
  ncl_message_set_check_def ncl_message_set_data_def ncl_message_set_event_def ncl_message_set_sample_id_def ncl_message_set_handler_def
  ncl_message_set_request_id_def ncl_message_set_async_def ncl_message_set_status_def ncl_message_set_process_def ncl_message_set_result_def
  ncl_message_set_return_def ncl_message_set_event_time_ms_def ncl_message_set_begin_time_def ncl_message_set_sample_interval_def
  ncl_message_set_upload_interval_def ncl_message_add_sample_path_def adding

section \<open>The kind\<close>

lemma set_slot_body: "as_body (snd (set_slot g value slot put msg)) = put (snd (ncl_msg_set_str g slot value))"
  by (simp add: set_slot_def case_prod_unfold)

lemma set_id_body: "as_body (snd (ncl_message_set_message_id g t msg)) = as_body msg"
  by (simp add: ncl_message_set_message_id_def)

definition stamped :: "grant \<Rightarrow> int \<Rightarrow> 'd ncl_message \<Rightarrow> 'd ncl_message" where
  "stamped g now msg =
     snd (case as_body msg of
            As_Event b \<Rightarrow>
              if ncl_str_is_empty (ev_time b) then set_slot g (Some (dec_int now)) (ev_time b) (\<lambda>s. As_Event (b\<lparr>ev_time := s\<rparr>)) msg else (NCL_OK, msg)
          | _ \<Rightarrow> (NCL_OK, msg))"

lemma finalise_result:
  "snd (ncl_message_finalise g now random msg) \<in> {msg, stamped g now msg}
   \<or> (\<exists>uuid. ncl_uuid4 random 37 = Inr uuid \<and>
        snd (ncl_message_finalise g now random msg) = snd (ncl_message_set_message_id g (Some uuid) (stamped g now msg)))"
  by (auto simp: ncl_message_finalise_def stamped_def case_prod_unfold split: sum.split)

lemma stamped_kind: "body_type (as_body (stamped g now msg)) = body_type (as_body msg)"
  by (cases "as_body msg") (simp_all add: stamped_def set_slot_body)

lemma finalise_kind: "body_type (as_body (snd (ncl_message_finalise g now random msg))) = body_type (as_body msg)"
  using finalise_result [of g now random msg] stamped_kind [of g now msg] by (auto simp: set_id_body)

lemma op_kind: "body_type (as_body (run_op g p msg)) = body_type (as_body msg)"
  by (cases p; cases "as_body msg"; simp add: op_defs set_slot_body set_id_body finalise_kind case_prod_unfold)



section \<open>What a message holds\<close>

text \<open>The arguments a caller may pass: C strings, well formed documents, models that are roots.\<close>

fun op_ok :: "'d double_ops \<Rightarrow> 'd message_op \<Rightarrow> bool" where
  "op_ok ops (Set_Message_Id t) = text_ok t"
| "op_ok ops (Set_Code t) = text_ok t"
| "op_ok ops (Set_Reason t) = text_ok t"
| "op_ok ops (Set_Version t) = text_ok t"
| "op_ok ops (Set_Device_Id t) = text_ok t"
| "op_ok ops (Set_Model m) = model_ok ops m"
| "op_ok ops (Set_Method t) = text_ok t"
| "op_ok ops (Set_Params j) = json_ok ops j"
| "op_ok ops (Set_Token t) = text_ok t"
| "op_ok ops (Set_Data j) = json_ok ops j"
| "op_ok ops (Set_Event j) = json_ok ops j"
| "op_ok ops (Set_Sample_Id t) = text_ok t"
| "op_ok ops (Set_Handler t) = text_ok t"
| "op_ok ops (Set_Request_Id t) = text_ok t"
| "op_ok ops (Set_Status t) = text_ok t"
| "op_ok ops (Set_Result t) = text_ok t"
| "op_ok ops (Set_Return j) = json_ok ops j"
| "op_ok ops (Set_Begin_Time t) = text_ok t"
| "op_ok ops (Add_Sample_Path t) = text_ok t"
| "op_ok ops (Add_Sample_Item i) = (\<exists>c. i = Some c \<and> column_ok ops c)"
| "op_ok ops (Add_Query_Request_Item i1) = request_ok ops i1"
| "op_ok ops (Add_Query_Response_Item i2) = query_response_ok ops i2"
| "op_ok ops (Add_Set_Request_Item i1) = request_ok ops i1"
| "op_ok ops (Add_Set_Response_Item i3) = set_response_ok ops i3"
| "op_ok ops _ = True"

definition message_ok :: "'d double_ops \<Rightarrow> 'd ncl_message \<Rightarrow> bool" where
  "message_ok ops msg \<longleftrightarrow> text_ok (message_id msg) \<and> body_ok ops (as_body msg)"

lemma dec_nat_cstr: "is_cstr (dec_nat n)"
proof (induction n rule: dec_nat.induct)
  case (1 n)
  have digit: "char_of (48 + k) \<noteq> NUL" if "k < 10" for k :: nat
  proof
    assume "char_of (48 + k) = NUL"
    then have "(of_char (char_of (48 + k)) :: nat) = of_char NUL" by simp
    with that show False by (simp add: NUL_def)
  qed
  show ?case
    using 1 digit [of n] digit [of "n mod 10"] by (cases "n < 10") (simp_all add: dec_nat.simps [of n])
qed

lemma dec_int_text: "text_ok (Some (dec_int i))"
  using dec_nat_cstr by (auto simp: text_ok_def dec_int_def is_cstr_def NUL_def)

lemma uuid_digit: "uuid_hex ! unat (w AND 0x0F :: u8) \<noteq> NUL"
proof -
  have "unat (w AND 0x0F) \<le> 15" using word_and_le1 [of w 15] by (simp add: word_le_nat_alt)
  then have "uuid_hex ! unat (w AND 0x0F) \<in> set uuid_hex" by (intro nth_mem) (simp add: uuid_hex_def)
  moreover have "NUL \<notin> set uuid_hex" by (simp add: uuid_hex_def NUL_def)
  ultimately show ?thesis by metis
qed

lemma uuid_format_cstr: "is_cstr (uuid_format i raw)"
proof (induction i raw rule: uuid_format.induct)
  case (2 i r rs)
  then show ?case
    using uuid_digit [of "drop_bit 4 r"] uuid_digit [of r] by (auto simp: NUL_def)
qed (simp add: is_cstr_def)

lemma uuid_text: "ncl_uuid4 random 37 = Inr uuid \<Longrightarrow> text_ok (Some uuid)"
  by (auto simp: ncl_uuid4_def text_ok_def uuid_format_cstr Let_def split: option.splits)

lemma set_str_ok: "\<lbrakk>text_ok slot; text_ok value\<rbrakk> \<Longrightarrow> text_ok (snd (ncl_msg_set_str g slot value))"
  by (auto simp: ncl_msg_set_str_def ncl_strdup_def text_ok_def split: option.splits)

lemma set_slot_id: "message_id (snd (set_slot g value slot put msg)) = message_id msg"
  by (simp add: set_slot_def case_prod_unfold)

lemma set_id_ok: "\<lbrakk>message_ok ops msg; text_ok t\<rbrakk> \<Longrightarrow> message_ok ops (snd (ncl_message_set_message_id g t msg))"
  by (auto simp: message_ok_def ncl_message_set_message_id_def ncl_strdup_def text_ok_def split: option.splits)

lemma push_items_ok: "\<lbrakk>items_ok ok v; ok i\<rbrakk> \<Longrightarrow> items_ok ok (snd (snd (ncl_ptrvec_push_owned g v (Some i))))"
  by (auto simp: items_ok_def ncl_ptrvec_push_owned_def ncl_ptrvec_push_def Let_def)

lemma push_path_ok:
  "\<lbrakk>list_all is_cstr (sv_items v); text_ok t\<rbrakk> \<Longrightarrow> list_all is_cstr (sv_items (snd (ncl_strvec_push g v t)))"
  by (auto simp: ncl_strvec_push_def Let_def text_ok_def split: option.splits)

lemma stamped_ok: "message_ok ops msg \<Longrightarrow> message_ok ops (stamped g now msg)"
  by (cases "as_body msg") (auto simp: stamped_def message_ok_def set_slot_body set_slot_id intro!: set_str_ok dec_int_text)

lemma finalise_ok: "message_ok ops msg \<Longrightarrow> message_ok ops (snd (ncl_message_finalise g now random msg))"
proof -
  assume ok: "message_ok ops msg"
  note stamp = stamped_ok [OF this, of g now]
  from finalise_result [of g now random msg] consider "snd (ncl_message_finalise g now random msg) = msg"
    | "snd (ncl_message_finalise g now random msg) = stamped g now msg"
    | uuid where "ncl_uuid4 random 37 = Inr uuid"
        "snd (ncl_message_finalise g now random msg) = snd (ncl_message_set_message_id g (Some uuid) (stamped g now msg))" by blast
  then show ?thesis by cases (simp_all add: ok stamp set_id_ok uuid_text)
qed

lemma no_model_ok: "model_ok ops None"
  by (simp add: model_ok_def)

lemma op_body_ok:
  assumes "message_ok ops msg" "op_ok ops p" "\<And>t. p \<noteq> Set_Message_Id t" "\<And>now random. p \<noteq> Finalise now random"
  shows "message_id (run_op g p msg) = message_id msg \<and> body_ok ops (as_body (run_op g p msg))"
  using assms
  by (cases p; cases "as_body msg"; (simp add: message_ok_def op_defs set_slot_body set_slot_id case_prod_unfold sample_ok_def set_str_ok
      push_items_ok push_path_ok dec_int_text no_model_ok; fail | auto simp: message_ok_def op_defs case_prod_unfold sample_ok_def push_items_ok))

lemma op_message_ok: "\<lbrakk>message_ok ops msg; op_ok ops p\<rbrakk> \<Longrightarrow> message_ok ops (run_op g p msg)"
proof -
  assume ok: "message_ok ops msg" "op_ok ops p"
  consider t where "p = Set_Message_Id t" | now random where "p = Finalise now random"
    | "\<And>t. p \<noteq> Set_Message_Id t" "\<And>now random. p \<noteq> Finalise now random" by blast
  then show ?thesis
  proof cases
    case 3
    from op_body_ok [OF ok 3] ok(1) show ?thesis by (simp add: message_ok_def)
  qed (use ok in \<open>simp_all add: set_id_ok finalise_ok\<close>)
qed

lemma new_message_ok: "t \<noteq> NCL_MSG_UNKNOWN \<Longrightarrow> message_ok ops \<lparr>message_id = None, as_body = new_body t\<rparr>"
  by (cases t) (simp_all add: message_ok_def text_ok_def items_ok_def ncl_ptrvec_init_def ncl_strvec_init_def sample_ok_def no_model_ok json_ok_def blank_object_def)


definition door_history :: "int message_op list" where
  "door_history = [Set_Sample_Id (Some ''e1''), Set_Event (Some (J_String ''door'')), Finalise 7 None]"


end

