(* ===== verification/Message_Match.thy ===== *)
theory Message_Match
  imports Message_Ops
begin

text \<open>Which responses answer a query when they carry no message id: those whose items repeat its items.\<close>

definition echoes :: "'d request_item \<Rightarrow> 'd query_response_item \<Rightarrow> bool" where
  "echoes q r \<longleftrightarrow> qr_id r = qi_id q \<and> qr_params r = qi_params q"

text \<open>What the parameters have to satisfy for their own repetition to be accepted.\<close>

definition offset_is_length :: "'d double_ops \<Rightarrow> 'd json option \<Rightarrow> bool" where
  "offset_is_length ops p \<longleftrightarrow>
     (\<forall>a b. ncl_params_int ops p (Some ''offset'') = Some a \<longrightarrow> ncl_params_int ops p (Some ''length'') = Some b \<longrightarrow> a = b)"

definition keys_equal_themselves :: "'d double_ops \<Rightarrow> 'd json option \<Rightarrow> bool" where
  "keys_equal_themselves ops p \<longleftrightarrow> (\<forall>k. ncl_params_get p (Some ''keys'') = Some k \<longrightarrow> fst (ncl_json_equals ops False (Some k) (Some k)))"

lemma offset_self: "offset_agrees ops p p = offset_is_length ops p"
  by (auto simp: offset_agrees_def offset_is_length_def split: option.split)

lemma indexes_self: "indexes_agree g ops p p"
  by (simp add: indexes_agree_def split: sum.split)

lemma keys_self: "keys_agree ops p p = keys_equal_themselves ops p"
  by (auto simp: keys_agree_def keys_equal_themselves_def split: option.split)

lemma operation_self: "same_operation (ncl_params_operation p (Some d)) (ncl_params_operation p (Some d))"
  by (simp add: same_operation_def ncl_params_operation_def split: option.split)

lemma echo_matches:
  assumes "echoes q r" "ncl_query_request_item_is_valid q"
  shows "ncl_query_response_item_matches g ops r q \<longleftrightarrow> offset_is_length ops (qi_params q) \<and> keys_equal_themselves ops (qi_params q)"
proof -
  have "qi_id q \<noteq> None" using assms(2) by (cases "qi_id q") (simp_all add: ncl_query_request_item_is_valid_def ncl_str_is_empty_def)
  then show ?thesis
    using assms(1) by (auto simp: ncl_query_response_item_matches_def echoes_def ncl_query_request_item_operation_def
        ncl_query_response_item_operation_def operation_self same_int_def offset_self indexes_self keys_self)
qed

text \<open>
  C29. Answers without an id. A valid response that repeats the ids and parameters of a valid query
  item by item is accepted exactly when the parameters of every item have an offset equal to their
  length, or lack one of the two, and compare equal to themselves in their keys: the code compares
  the offset of the response with the length of the request.
\<close>

theorem query_echo_matches:
  assumes "as_body request = As_Query_Request qv" "as_body response = As_Query_Response rv" "message_id response = None"
    and "ncl_message_is_valid request" "ncl_message_is_valid response"
    and "list_all2 (\<lambda>x y. \<exists>q r. x = Some q \<and> y = Some r \<and> echoes q r) (pv_items qv) (pv_items rv)"
  shows "ncl_message_matches g ops response request \<longleftrightarrow>
    list_all (\<lambda>x. \<exists>q. x = Some q \<and> offset_is_length ops (qi_params q) \<and> keys_equal_themselves ops (qi_params q)) (pv_items qv)"
proof -
  have valid: "list_all (\<lambda>x. case x of None \<Rightarrow> False | Some q \<Rightarrow> ncl_query_request_item_is_valid q) (pv_items qv)"
    using assms(1,4) by (auto simp: ncl_message_is_valid_def all_items_def split: if_splits)
  let ?fits = "\<lambda>x. \<exists>q. x = Some q \<and> offset_is_length ops (qi_params q) \<and> keys_equal_themselves ops (qi_params q)"
  have "list_all2 (\<lambda>r q. case (r, q) of (Some x, Some y) \<Rightarrow> ncl_query_response_item_matches g ops x y | _ \<Rightarrow> False) rs qs \<longleftrightarrow> list_all ?fits qs"
    if "list_all2 (\<lambda>x y. \<exists>q r. x = Some q \<and> y = Some r \<and> echoes q r) qs rs"
      "list_all (\<lambda>x. case x of None \<Rightarrow> False | Some q \<Rightarrow> ncl_query_request_item_is_valid q) qs" for qs rs
    using that
  proof (induction qs rs rule: list_all2_induct)
    case (Cons x xs y ys)
    then obtain q r where "x = Some q" "y = Some r" "echoes q r" "ncl_query_request_item_is_valid q" by auto
    with Cons echo_matches [of q r g ops] show ?case by simp
  qed simp
  from this [OF assms(6) valid] show ?thesis
    using assms(1-5) list_all2_lengthD [OF assms(6)]
    by (simp add: ncl_message_matches_def items_answer_def ncl_ptrvec_len_def)
qed

text \<open>Five items from the third on: the repetition of these parameters is turned away.\<close>

definition range_query :: "int ncl_message" where
  "range_query = \<lparr>message_id = Some ''7'', as_body = As_Query_Request \<lparr>pv_items =
     [Some \<lparr>qi_id = Some ''d1'', qi_params = Some (J_Object [(''offset'', int_node int_ops 3), (''length'', int_node int_ops 5)] 8)\<rparr>],
     pv_cap = 8, pv_free = True\<rparr>\<rparr>"

definition range_answer :: "int ncl_message" where
  "range_answer = \<lparr>message_id = None, as_body = As_Query_Response \<lparr>pv_items =
     [Some \<lparr>qr_id = Some ''d1'', qr_code = Some ''OK'', qr_reason = None,
        qr_params = Some (J_Object [(''offset'', int_node int_ops 3), (''length'', int_node int_ops 5)] 8), qr_values = Some (J_Array [] 0)\<rparr>],
     pv_cap = 8, pv_free = True\<rparr>\<rparr>"

lemma query_echo_matches_witness: "\<not> ncl_message_matches grant_all int_ops range_answer range_query"
proof -
  let ?p = "Some (J_Object [(''offset'', int_node int_ops 3), (''length'', int_node int_ops 5)] 8)"
  have "ncl_params_int int_ops ?p (Some ''offset'') = Some 3" "ncl_params_int int_ops ?p (Some ''length'') = Some 5"
    by (simp_all add: ncl_params_int_def get_map as_int_node)
  then have "\<not> offset_is_length int_ops ?p" by (simp add: offset_is_length_def)
  moreover have "ncl_check_is_code_valid (Some ''OK'')" by code_simp
  then have "ncl_message_is_valid range_query" "ncl_message_is_valid range_answer"
    by (simp_all add: range_query_def range_answer_def ncl_message_is_valid_def all_items_def ncl_ptrvec_len_def ncl_query_request_item_is_valid_def
        ncl_query_response_item_is_valid_def ncl_str_is_empty_def)
  ultimately show ?thesis
    using query_echo_matches [of range_query "\<lparr>pv_items = [Some \<lparr>qi_id = Some ''d1'', qi_params = ?p\<rparr>], pv_cap = 8, pv_free = True\<rparr>" range_answer
        "\<lparr>pv_items = [Some \<lparr>qr_id = Some ''d1'', qr_code = Some ''OK'', qr_reason = None, qr_params = ?p, qr_values = Some (J_Array [] 0)\<rparr>],
          pv_cap = 8, pv_free = True\<rparr>" grant_all int_ops]
    by (simp add: range_query_def range_answer_def echoes_def)
qed

end
