(* ===== verification/Server.thy ===== *)
theory Server
  imports Message_Json Message_Sample Schema_Validate
begin

text \<open>
  \<^verbatim>\<open>stack/src/server/server.c\<close>, first part: the server's data, its tools and the schemas they declare, the
  operations they offer, and the model with the item that advertises them. Functions and objects of
  the host program are numbers, the two functions of the built in tool and its instance are
  constructors. A compiled schema belongs to the server and is addressed by its place in the table.
  A NULL server, which the functions turn away before they do anything, and the log are left out.
\<close>

section \<open>The data\<close>

text \<open>What \<^verbatim>\<open>snprintf\<close> leaves in a buffer of \<open>n\<close> bytes.\<close>

definition snprintf_text :: "nat \<Rightarrow> string \<Rightarrow> string" where
  "snprintf_text n s = take (n - 1) s"

datatype tool_fn = Fn_Add_Sample | Fn_Remove_Sample | Host_Fn nat

datatype tool_instance = The_Server | Host_Object nat

record ncl_binding =
  bn_key :: string
  bn_instance :: tool_instance
  bn_fn :: "tool_fn option"
  bn_method_name :: string
  bn_tool_name :: "string option"
  bn_params_schema :: "nat option"
  bn_result_schema :: "nat option"
  bn_params_text :: "string option"
  bn_result_text :: "string option"

record 'd interned_schema =
  is_text :: string
  is_schema :: "'d ncl_schema"

text \<open>\<open>mt_address\<close> is the task's own address: the worker holds it, and the table is searched for it.\<close>

record 'd method_task =
  mt_address :: nat
  mt_handler :: "string option"
  mt_finished :: bool
  mt_abandoned :: bool
  mt_process :: int
  mt_status :: "string option"
  mt_rc :: ncl_err
  mt_value :: "'d json option"
  mt_reason :: "string option"
  mt_finished_ms :: int

record 'd sample_task =
  ch_id :: string
  ch_topic :: string
  ch_config :: "'d json ncl_node"
  ch_paths :: "char strvec"
  ch_header :: "char strvec"
  ch_stop :: bool
  ch_warned_slow :: bool

record 'd ncl_server =
  srv_sn :: string
  srv_mqtt :: bool
  srv_root :: "'d json ncl_node option"
  srv_bindings :: "ncl_binding list"
  srv_binding_cap :: nat
  srv_last_tool_name :: "string option"
  srv_last_tool_instance :: "tool_instance option"
  srv_samples :: "'d sample_task list"
  srv_sample_cap :: nat
  srv_sample_uploads :: nat
  srv_user_data :: "nat option"
  srv_user_cleanup :: "nat option"
  srv_schemas :: "'d interned_schema list"
  srv_schema_cap :: nat
  srv_events :: nat
  srv_methods_dirty :: bool
  srv_publish_sink :: "nat option"
  srv_publish_user :: "nat option"
  srv_method_tasks :: "'d method_task ptrvec"
  srv_method_seq :: nat

text \<open>What a tool declares: a method, and an operation on a path of the model.\<close>

record ncl_tool_method =
  tm_name :: string
  tm_fn :: "tool_fn option"
  tm_params_schema :: "string option"
  tm_result_schema :: "string option"

record ncl_tool_binding =
  tb_path :: "string option"
  tb_operation :: ncl_operation
  tb_method :: "string option"
  tb_tool :: "string option"

section \<open>Lookup\<close>

definition ncl_server_find_binding :: "'d ncl_server \<Rightarrow> string \<Rightarrow> ncl_binding option" where
  "ncl_server_find_binding srv key = find (\<lambda>b. bn_key b = key) (srv_bindings srv)"

definition ncl_server_find_method :: "'d ncl_server \<Rightarrow> string option \<Rightarrow> string \<Rightarrow> ncl_binding option" where
  "ncl_server_find_method srv tool_name method_name =
     find (\<lambda>b. (tool_name = None \<or> (bn_tool_name b \<noteq> None \<and> bn_tool_name b = tool_name)) \<and> bn_method_name b = method_name)
       (srv_bindings srv)"

section \<open>Schemas\<close>

fun schema_place :: "string \<Rightarrow> nat \<Rightarrow> 'd interned_schema list \<Rightarrow> nat option" where
  "schema_place t i [] = None"
| "schema_place t i (s # ss) = (if is_text s = t then Some i else schema_place t (Suc i) ss)"

definition INTERNED_SIZE :: nat where
  "INTERNED_SIZE = 16"

text \<open>Room for one more element of a growing array: the new capacity, if the memory is there.\<close>

definition array_room :: "grant \<Rightarrow> nat \<Rightarrow> nat \<Rightarrow> nat \<Rightarrow> nat \<Rightarrow> nat option" where
  "array_room g elem first count cap =
     (if count = cap then (let c = (if cap = 0 then first else cap * 2) in if g (c * elem) then Some c else None) else Some cap)"

text \<open>The place of the schema and its text, or NULL for both; \<open>mutex\<close>: whether the platform gives one.\<close>

definition ncl_server_intern_schema ::
  "grant \<Rightarrow> 'd double_ops \<Rightarrow> bool \<Rightarrow> 'd ncl_server \<Rightarrow> string \<Rightarrow> (nat option \<times> string option) \<times> 'd ncl_server" where
  "ncl_server_intern_schema g ops mutex srv t =
     (case schema_place t 0 (srv_schemas srv) of
        Some i \<Rightarrow> ((Some i, Some (is_text (srv_schemas srv ! i))), srv)
      | None \<Rightarrow>
          (case fst (ncl_schema_compile_text g ops mutex (Some t) (Some None)) of
             None \<Rightarrow> ((None, None), srv)
           | Some schema \<Rightarrow>
               (case array_room g INTERNED_SIZE 8 (length (srv_schemas srv)) (srv_schema_cap srv) of
                  None \<Rightarrow> ((None, None), srv)
                | Some cap \<Rightarrow>
                    (let srv1 = srv\<lparr>srv_schema_cap := cap\<rparr>
                     in case ncl_strdup g (Some t) of
                          None \<Rightarrow> ((None, None), srv1)
                        | Some copy \<Rightarrow>
                            ((Some (length (srv_schemas srv)), Some copy),
                             srv1\<lparr>srv_schemas := srv_schemas srv @ [\<lparr>is_text = copy, is_schema = schema\<rparr>]\<rparr>)))))"

section \<open>Registration\<close>

definition BINDING_SIZE :: nat where
  "BINDING_SIZE = 72"

definition ncl_server_add_method ::
  "grant \<Rightarrow> 'd ncl_server \<Rightarrow> string option \<Rightarrow> tool_instance \<Rightarrow> string \<Rightarrow> tool_fn option \<Rightarrow> string \<Rightarrow>
   nat option \<times> string option \<Rightarrow> nat option \<times> string option \<Rightarrow> ncl_err \<times> 'd ncl_server" where
  "ncl_server_add_method g srv tool_name instance_ptr method_name fn key params result =
     (case array_room g BINDING_SIZE 16 (length (srv_bindings srv)) (srv_binding_cap srv) of
        None \<Rightarrow> (NCL_ERR_NOMEM, srv)
      | Some cap \<Rightarrow>
          (let srv1 = srv\<lparr>srv_binding_cap := cap\<rparr>
           in case (ncl_strdup g (Some key), ncl_strdup g (Some method_name)) of
                (Some k, Some m) \<Rightarrow>
                  (NCL_OK, srv1\<lparr>srv_bindings := srv_bindings srv @
                     [\<lparr>bn_key = k, bn_instance = instance_ptr, bn_fn = fn, bn_method_name = m, bn_tool_name = ncl_strdup g tool_name,
                       bn_params_schema = fst params, bn_result_schema = fst result,
                       bn_params_text = snd params, bn_result_text = snd result\<rparr>]\<rparr>)
              | _ \<Rightarrow> (NCL_ERR_NOMEM, srv1)))"

definition intern_declared ::
  "grant \<Rightarrow> 'd double_ops \<Rightarrow> bool \<Rightarrow> string option \<Rightarrow> 'd ncl_server \<Rightarrow> (nat option \<times> string option) \<times> 'd ncl_server" where
  "intern_declared g ops mutex t srv =
     (case t of None \<Rightarrow> ((None, None), srv) | Some s \<Rightarrow> ncl_server_intern_schema g ops mutex srv s)"

text \<open>Every method becomes addressable by name.\<close>

fun register_methods ::
  "grant \<Rightarrow> 'd double_ops \<Rightarrow> bool \<Rightarrow> string \<Rightarrow> tool_instance \<Rightarrow> ncl_tool_method list \<Rightarrow> 'd ncl_server \<Rightarrow> ncl_err \<times> 'd ncl_server" where
  "register_methods g ops mutex tool_name inst [] srv = (NCL_OK, srv)"
| "register_methods g ops mutex tool_name inst (m # ms) srv =
     (case intern_declared g ops mutex (tm_params_schema m) srv of
        (params, srv1) \<Rightarrow>
          (case intern_declared g ops mutex (tm_result_schema m) srv1 of
             (result, srv2) \<Rightarrow>
               (case ncl_server_add_method g srv2 (Some tool_name) inst (tm_name m) (tm_fn m)
                       (snprintf_text 256 (tool_name @ ''::'' @ tm_name m)) params result of
                  (rc, srv3) \<Rightarrow>
                    if rc \<noteq> NCL_OK then (NCL_ERR_NOMEM, srv3) else register_methods g ops mutex tool_name inst ms srv3)))"

text \<open>The key of a path binding is \<open><operation>#<path>\<close>.\<close>

definition path_key :: "string \<Rightarrow> string \<Rightarrow> string" where
  "path_key operation path = snprintf_text 1024 (operation @ ''#'' @ path)"

definition register_binding ::
  "grant \<Rightarrow> 'd double_ops \<Rightarrow> bool \<Rightarrow> string \<Rightarrow> tool_instance \<Rightarrow> ncl_tool_method list \<Rightarrow> ncl_tool_binding \<Rightarrow> 'd ncl_server \<Rightarrow>
   ncl_err \<times> 'd ncl_server" where
  "register_binding g ops mutex tool_name inst methods spec srv =
     (case (tb_path spec, tb_method spec) of
        (Some path, Some name) \<Rightarrow>
          (case find (\<lambda>m. tm_name m = name) methods of
             None \<Rightarrow> (NCL_OK, srv)
           | Some m \<Rightarrow>
               (case intern_declared g ops mutex (tm_params_schema m) srv of
                  (params, srv1) \<Rightarrow>
                    (case intern_declared g ops mutex (tm_result_schema m) srv1 of
                       (result, srv2) \<Rightarrow>
                         if tm_fn m = None then (NCL_OK, srv2)
                         else (case ncl_server_add_method g srv2
                                      (Some (case tb_tool spec of Some t \<Rightarrow> t | None \<Rightarrow> tool_name)) inst name (tm_fn m)
                                      (path_key (ncl_operation_to_string (tb_operation spec)) path) params result of
                                 (rc, srv3) \<Rightarrow> (if rc \<noteq> NCL_OK then NCL_ERR_NOMEM else NCL_OK, srv3)))))
      | _ \<Rightarrow> (NCL_OK, srv))"

fun register_bindings ::
  "grant \<Rightarrow> 'd double_ops \<Rightarrow> bool \<Rightarrow> string \<Rightarrow> tool_instance \<Rightarrow> ncl_tool_method list \<Rightarrow> ncl_tool_binding list \<Rightarrow> 'd ncl_server \<Rightarrow>
   ncl_err \<times> 'd ncl_server" where
  "register_bindings g ops mutex tool_name inst methods [] srv = (NCL_OK, srv)"
| "register_bindings g ops mutex tool_name inst methods (spec # specs) srv =
     (case register_binding g ops mutex tool_name inst methods spec srv of
        (rc, srv1) \<Rightarrow> if rc \<noteq> NCL_OK then (rc, srv1) else register_bindings g ops mutex tool_name inst methods specs srv1)"

definition ncl_server_register_tool ::
  "grant \<Rightarrow> 'd double_ops \<Rightarrow> bool \<Rightarrow> 'd ncl_server \<Rightarrow> string option \<Rightarrow> tool_instance option \<Rightarrow> ncl_tool_method list \<Rightarrow>
   ncl_tool_binding list \<Rightarrow> ncl_err \<times> 'd ncl_server" where
  "ncl_server_register_tool g ops mutex srv tool_name inst methods bindings =
     (case (tool_name, inst) of
        (Some t, Some i) \<Rightarrow>
          (case register_methods g ops mutex t i methods srv of
             (rc, srv1) \<Rightarrow>
               if rc \<noteq> NCL_OK then (NCL_ERR_NOMEM, srv1)
               else (case register_bindings g ops mutex t i methods bindings srv1 of
                       (rc2, srv2) \<Rightarrow>
                         if rc2 \<noteq> NCL_OK then (NCL_ERR_NOMEM, srv2)
                         else (NCL_OK, srv2\<lparr>srv_last_tool_name := ncl_strdup g tool_name, srv_last_tool_instance := inst,
                                            srv_methods_dirty := True\<rparr>)))
      | _ \<Rightarrow> (NCL_ERR_INVALID_ARG, srv))"

definition ncl_server_binding_count :: "'d ncl_server \<Rightarrow> nat" where
  "ncl_server_binding_count srv = length (srv_bindings srv)"

section \<open>Operations\<close>

text \<open>An operation is a tool with a method, where it is first seen.\<close>

definition ncl_server_operation_seen :: "'d ncl_server \<Rightarrow> nat \<Rightarrow> string option \<Rightarrow> string \<Rightarrow> bool" where
  "ncl_server_operation_seen srv n tool name =
     list_ex (\<lambda>b. bn_method_name b = name \<and> bn_tool_name b = tool) (take n (srv_bindings srv))"

fun operation_loop :: "'d ncl_server \<Rightarrow> nat \<Rightarrow> nat \<Rightarrow> nat \<Rightarrow> ncl_binding list \<Rightarrow> ncl_binding option" where
  "operation_loop srv i seen index [] = None"
| "operation_loop srv i seen index (b # bs) =
     (if ncl_server_operation_seen srv i (bn_tool_name b) (bn_method_name b) then operation_loop srv (Suc i) seen index bs
      else if seen = index then Some b
      else operation_loop srv (Suc i) (Suc seen) index bs)"

definition ncl_server_operation_at :: "'d ncl_server \<Rightarrow> nat \<Rightarrow> ncl_binding option" where
  "ncl_server_operation_at srv index = operation_loop srv 0 0 index (srv_bindings srv)"

fun operation_count_loop :: "'d ncl_server \<Rightarrow> nat \<Rightarrow> nat \<Rightarrow> ncl_binding list \<Rightarrow> nat" where
  "operation_count_loop srv i count [] = count"
| "operation_count_loop srv i count (b # bs) =
     operation_count_loop srv (Suc i)
       (if ncl_server_operation_seen srv i (bn_tool_name b) (bn_method_name b) then count else Suc count) bs"

definition ncl_server_operation_count :: "'d ncl_server \<Rightarrow> nat" where
  "ncl_server_operation_count srv = operation_count_loop srv 0 0 (srv_bindings srv)"

definition ncl_server_operation_tool :: "'d ncl_server \<Rightarrow> nat \<Rightarrow> string option" where
  "ncl_server_operation_tool srv index = (case ncl_server_operation_at srv index of None \<Rightarrow> None | Some b \<Rightarrow> bn_tool_name b)"

definition ncl_server_operation_method :: "'d ncl_server \<Rightarrow> nat \<Rightarrow> string option" where
  "ncl_server_operation_method srv index = map_option bn_method_name (ncl_server_operation_at srv index)"

text \<open>The path and the operation that a binding serves; none for a method that is bound by name only.\<close>

definition ncl_binding_path :: "ncl_binding \<Rightarrow> (string \<times> string) option" where
  "ncl_binding_path b =
     (let before = takeWhile (\<lambda>c. c \<noteq> CHR ''#'') (bn_key b)
      in case dropWhile (\<lambda>c. c \<noteq> CHR ''#'') (bn_key b) of
           [] \<Rightarrow> None
         | hash # path \<Rightarrow>
             if before = [] \<or> path = [] then None
             else (case find (\<lambda>op. ncl_operation_to_string op = before) all_operations of
                     None \<Rightarrow> None
                   | Some op \<Rightarrow> Some (ncl_operation_to_string op, path)))"

section \<open>The list of methods\<close>

definition ncl_schema_text_json :: "grant \<Rightarrow> 'd double_ops \<Rightarrow> string option \<Rightarrow> 'd json option" where
  "ncl_schema_text_json g ops t = (if t = None \<or> t = Some [] then None else fst (ncl_json_parse_cstr g ops t None))"

fun binds_loop :: "grant \<Rightarrow> ncl_binding \<Rightarrow> ncl_binding list \<Rightarrow> 'd json option \<Rightarrow> 'd json option" where
  "binds_loop g b [] binds = binds"
| "binds_loop g b (c # cs) binds =
     (if binds = None then None
      else if bn_tool_name c = None \<or> bn_method_name c \<noteq> bn_method_name b \<or> bn_tool_name c \<noteq> bn_tool_name b
      then binds_loop g b cs binds
      else case ncl_binding_path c of
             None \<Rightarrow> binds_loop g b cs binds
           | Some (operation, path) \<Rightarrow>
               (case ncl_json_new_object g of
                  None \<Rightarrow> binds_loop g b cs binds
                | Some item \<Rightarrow>
                    binds_loop g b cs
                      (snd (ncl_json_arr_push g binds
                         (put_str g ''path'' (Some path) (put_str g ''operation'' (Some operation) (Some item)))))))"

definition put_schema :: "grant \<Rightarrow> string \<Rightarrow> 'd json option \<Rightarrow> 'd json option \<Rightarrow> 'd json option" where
  "put_schema g key schema entry = (if schema = None then entry else put_json g key schema entry)"

definition method_entry :: "grant \<Rightarrow> 'd double_ops \<Rightarrow> 'd ncl_server \<Rightarrow> ncl_binding \<Rightarrow> string \<Rightarrow> 'd json option \<Rightarrow> 'd json option" where
  "method_entry g ops srv b tool entry =
     (let address = snprintf_text 512 (''/'' @ tool @ ''/'' @ bn_method_name b);
          e1 = put_str g ''address'' (Some address) (put_str g ''method'' (Some (bn_method_name b)) (put_str g ''tool'' (Some tool) entry));
          e2 = put_schema g ''params'' (ncl_schema_text_json g ops (bn_params_text b)) e1;
          e3 = put_schema g ''result'' (ncl_schema_text_json g ops (bn_result_text b)) e2;
          binds = binds_loop g b (srv_bindings srv) (ncl_json_new_array g)
      in if binds \<noteq> None \<and> ncl_json_arr_len binds > 0 then put_json g ''bindings'' binds e3 else e3)"

fun methods_loop :: "grant \<Rightarrow> 'd double_ops \<Rightarrow> 'd ncl_server \<Rightarrow> nat list \<Rightarrow> 'd json option \<Rightarrow> 'd json option" where
  "methods_loop g ops srv [] methods = methods"
| "methods_loop g ops srv (i # is) methods =
     (case ncl_server_operation_at srv i of
        None \<Rightarrow> methods_loop g ops srv is methods
      | Some b \<Rightarrow>
          (case bn_tool_name b of
             None \<Rightarrow> methods_loop g ops srv is methods
           | Some tool \<Rightarrow>
               (case ncl_json_new_object g of
                  None \<Rightarrow> methods
                | Some entry \<Rightarrow>
                    methods_loop g ops srv is (snd (ncl_json_arr_push g methods (method_entry g ops srv b tool (Some entry)))))))"

definition ncl_server_build_methods_json :: "grant \<Rightarrow> 'd double_ops \<Rightarrow> 'd ncl_server \<Rightarrow> 'd json option" where
  "ncl_server_build_methods_json g ops srv =
     (case ncl_json_new_array g of
        None \<Rightarrow> None
      | Some methods \<Rightarrow> methods_loop g ops srv [0..<ncl_server_operation_count srv] (Some methods))"

section \<open>The item of the model\<close>

definition NCL_METHODS_NODE_TYPE :: string where
  "NCL_METHODS_NODE_TYPE = ''METHODS''"

text \<open>The UTF-8 text of the item's description.\<close>

definition METHODS_DESCRIPTION :: string where
  "METHODS_DESCRIPTION =
     [CHR 0xE6, CHR 0x9C, CHR 0xAC, CHR 0xE8, CHR 0xAE, CHR 0xBE, CHR 0xE5, CHR 0xA4, CHR 0x87, CHR 0xE5, CHR 0x8F, CHR 0xAF,
      CHR 0xE8, CHR 0xB0, CHR 0x83, CHR 0xE7, CHR 0x94, CHR 0xA8, CHR 0xE7, CHR 0x9A, CHR 0x84, CHR 0xE6, CHR 0x96, CHR 0xB9,
      CHR 0xE6, CHR 0xB3, CHR 0x95, CHR 0xE6, CHR 0xB8, CHR 0x85, CHR 0xE5, CHR 0x8D, CHR 0x95, CHR 0xEF, CHR 0xBC, CHR 0x9A] @
     ''tool / method / address / params(schema) / result(schema) / bindings''"

fun methods_index :: "nat \<Rightarrow> 'v ncl_node list \<Rightarrow> nat option" where
  "methods_index i [] = None"
| "methods_index i (n # ns) =
     (if nd_type_name (nf n) = Some NCL_METHODS_NODE_TYPE then Some i else methods_index (Suc i) ns)"

text \<open>The place of the item among the configuration nodes of the root.\<close>

definition ncl_server_methods_node :: "'d ncl_server \<Rightarrow> nat option" where
  "ncl_server_methods_node srv = (case srv_root srv of None \<Rightarrow> None | Some root \<Rightarrow> methods_index 0 (configs root))"

definition methods_id :: "nat \<Rightarrow> string" where
  "methods_id i = (if i = 0 then ''methods'' else ''methods'' @ dec_nat i)"

fun unused_id :: "'v ncl_node \<Rightarrow> nat list \<Rightarrow> string \<Rightarrow> string" where
  "unused_id root [] name = name"
| "unused_id root (i # is) name = (if ncl_node_find_by_id root (methods_id i) = None then methods_id i else unused_id root is (methods_id i))"

text \<open>The setters of the new item in the order of the calls, up to the first that fails.\<close>

definition methods_fields :: "grant \<Rightarrow> string \<Rightarrow> 'd json node_fields \<Rightarrow> ncl_err \<times> 'd json node_fields" where
  "methods_fields g name f =
     (case ncl_node_set_id g (Some name) f of
        (rc, f1) \<Rightarrow>
          if rc \<noteq> NCL_OK then (rc, f1)
          else (case ncl_node_set_type_name g (Some NCL_METHODS_NODE_TYPE) f1 of
            (rc, f2) \<Rightarrow>
              if rc \<noteq> NCL_OK then (rc, f2)
              else (case ncl_node_set_data_type g (Some ''LIST'') f2 of
                (rc, f3) \<Rightarrow>
                  if rc \<noteq> NCL_OK then (rc, f3)
                  else (case ncl_node_set_description g (Some METHODS_DESCRIPTION) f3 of
                    (rc, f4) \<Rightarrow> if rc \<noteq> NCL_OK then (rc, f4) else ncl_node_set_settable False f4))))"

definition put_config :: "nat \<Rightarrow> 'v ncl_node \<Rightarrow> 'v ncl_node \<Rightarrow> 'v ncl_node" where
  "put_config i n root = set_children In_Configs ((configs root)[i := n]) (nd_configs_cap (nf root)) root"

text \<open>
  A new item at the end of the root's configuration nodes: the status, the nodes that were released,
  and the root. A node that \<open>ncl_node_add_config\<close> could not add was released by it already.
\<close>

definition add_methods_node ::
  "grant \<Rightarrow> 'd json ncl_node \<Rightarrow> ncl_err \<times> 'd json ncl_node list \<times> 'd json ncl_node" where
  "add_methods_node g root =
     (case ncl_node_new g NCL_NODE_CONFIG of
        None \<Rightarrow> (NCL_ERR_NOMEM, [], root)
      | Some node \<Rightarrow>
          (case methods_fields g (unused_id root [0..<100] []) (nf node) of
             (rc, f) \<Rightarrow>
               (let node1 = with_fields (\<lambda>_. f) node
                in if rc \<noteq> NCL_OK then (NCL_ERR_NOMEM, [node1], root)
                   else (case ncl_node_add_config g node1 root of
                           (rc, freed, root1) \<Rightarrow>
                             if rc \<noteq> NCL_OK then (NCL_ERR_NOMEM, freed @ [node1], root1)
                             else (case ncl_node_set_path g (ncl_node_path (nf root1)) node1 of
                                     (rc, node2) \<Rightarrow>
                                       (if rc \<noteq> NCL_OK then NCL_ERR_NOMEM else NCL_OK, [],
                                        put_config (length (configs root1) - 1) node2 root1))))))"

definition ncl_server_refresh_methods ::
  "grant \<Rightarrow> 'd double_ops \<Rightarrow> 'd ncl_server \<Rightarrow> ncl_err \<times> 'd json ncl_node list \<times> 'd ncl_server" where
  "ncl_server_refresh_methods g ops srv =
     (case srv_root srv of
        None \<Rightarrow> (NCL_OK, [], srv)
      | Some root \<Rightarrow>
          (case ncl_server_build_methods_json g ops srv of
             None \<Rightarrow> (NCL_ERR_NOMEM, [], srv)
           | Some methods \<Rightarrow>
               (case (case ncl_server_methods_node srv of
                        Some i \<Rightarrow> (NCL_OK, [], root)
                      | None \<Rightarrow> add_methods_node g root) of
                  (rc, released, root1) \<Rightarrow>
                    if rc \<noteq> NCL_OK then (NCL_ERR_NOMEM, released, srv\<lparr>srv_root := Some root1\<rparr>)
                    else (let i = (case ncl_server_methods_node srv of Some i \<Rightarrow> i | None \<Rightarrow> length (configs root1) - 1);
                              node = with_fields (\<lambda>f. snd (ncl_node_set_value (Some methods) f)) (configs root1 ! i)
                          in (NCL_OK, released, srv\<lparr>srv_root := Some (put_config i node root1), srv_methods_dirty := False\<rparr>)))))"

definition ncl_server_flush_methods :: "grant \<Rightarrow> 'd double_ops \<Rightarrow> 'd ncl_server \<Rightarrow> 'd ncl_server" where
  "ncl_server_flush_methods g ops srv =
     (if srv_methods_dirty srv then snd (snd (ncl_server_refresh_methods g ops srv)) else srv)"

definition ncl_server_methods_json :: "grant \<Rightarrow> 'd double_ops \<Rightarrow> 'd ncl_server \<Rightarrow> 'd json option \<times> 'd ncl_server" where
  "ncl_server_methods_json g ops srv =
     (let srv1 = ncl_server_flush_methods g ops srv
      in case ncl_server_methods_node srv1 of
           None \<Rightarrow> (ncl_server_build_methods_json g ops srv1, srv1)
         | Some i \<Rightarrow>
             (case nd_value (nf (configs (the (srv_root srv1)) ! i)) of
                None \<Rightarrow> (ncl_server_build_methods_json g ops srv1, srv1)
              | Some v \<Rightarrow> (ncl_json_clone g ops v, srv1)))"

end
