(* ===== verification/Server_Model.thy ===== *)
theory Server_Model
  imports Server
begin

text \<open>
  \<^verbatim>\<open>stack/src/server/server.c\<close>, second part: the OpenAPI document, creating a server, its user data, and
  the device model it serves. The file system is an argument.
\<close>

section \<open>The OpenAPI document\<close>

definition typed_object :: "grant \<Rightarrow> string \<Rightarrow> 'd json option" where
  "typed_object g t = put_str g ''type'' (Some t) (ncl_json_new_object g)"

definition request_body_json :: "grant \<Rightarrow> 'd json option \<Rightarrow> 'd json option" where
  "request_body_json g schema =
     (let prop = (if schema = None then typed_object g ''object'' else schema);
          media = put_json g ''schema'' prop (ncl_json_new_object g);
          content = put_json g ''application/json'' media (ncl_json_new_object g)
      in put_json g ''content'' content (put_bool g ''required'' True False (ncl_json_new_object g)))"

definition responses_json :: "grant \<Rightarrow> 'd json option \<Rightarrow> 'd json option" where
  "responses_json g schema =
     (let props = put_json g ''result'' (typed_object g ''string'')
                    (put_json g ''return'' (if schema = None then ncl_json_new_object g else schema)
                      (put_json g ''code'' (typed_object g ''string'') (ncl_json_new_object g)));
          envelope = put_json g ''properties'' props (typed_object g ''object'');
          media = put_json g ''schema'' envelope (ncl_json_new_object g);
          content = put_json g ''application/json'' media (ncl_json_new_object g);
          ok = put_json g ''content'' content (put_str g ''description'' (Some ''successful operation'') (ncl_json_new_object g))
      in put_json g ''200'' ok (ncl_json_new_object g))"

definition path_item_json :: "grant \<Rightarrow> 'd double_ops \<Rightarrow> ncl_binding \<Rightarrow> string \<Rightarrow> 'd json option" where
  "path_item_json g ops b path =
     (let post = put_str g ''operationId'' (Some path) (put_str g ''summary'' (Some path) (ncl_json_new_object g));
          post1 = put_json g ''requestBody'' (request_body_json g (ncl_schema_text_json g ops (bn_params_text b))) post;
          post2 = put_json g ''responses'' (responses_json g (ncl_schema_text_json g ops (bn_result_text b))) post1
      in put_json g ''post'' post2 (ncl_json_new_object g))"

fun paths_loop :: "grant \<Rightarrow> 'd double_ops \<Rightarrow> 'd ncl_server \<Rightarrow> nat list \<Rightarrow> 'd json option \<Rightarrow> 'd json option" where
  "paths_loop g ops srv [] paths = paths"
| "paths_loop g ops srv (i # is) paths =
     (case ncl_server_operation_at srv i of
        None \<Rightarrow> paths_loop g ops srv is paths
      | Some b \<Rightarrow>
          (case bn_tool_name b of
             None \<Rightarrow> paths_loop g ops srv is paths
           | Some tool \<Rightarrow>
               (let path = snprintf_text 512 (''/'' @ tool @ ''/'' @ bn_method_name b)
                in paths_loop g ops srv is (put_json g path (path_item_json g ops b path) paths))))"

definition server_entry_json :: "grant \<Rightarrow> string option \<Rightarrow> 'd json option" where
  "server_entry_json g base_url =
     (let url = (case base_url of None \<Rightarrow> None | Some u \<Rightarrow> ncl_asprintf_text g (u @ ''/api''))
      in put_str g ''description'' (Some ''MCP API Server'')
           (put_str g ''url'' (Some (case url of None \<Rightarrow> ''/api'' | Some u \<Rightarrow> u)) (ncl_json_new_object g)))"

definition ncl_server_openapi_schema :: "grant \<Rightarrow> 'd double_ops \<Rightarrow> 'd ncl_server \<Rightarrow> string option \<Rightarrow> 'd json option" where
  "ncl_server_openapi_schema g ops srv base_url =
     (case ncl_json_new_object g of
        None \<Rightarrow> None
      | Some document \<Rightarrow>
          (let info = put_str g ''version'' (Some ''1.0.0'')
                        (put_str g ''description'' (Some ''Model Context Protocol Server'')
                          (put_str g ''title'' (Some ''MCP Server API'') (ncl_json_new_object g)));
               d1 = put_json g ''info'' info (put_str g ''openapi'' (Some ''3.0.0'') (Some document));
               servers = snd (ncl_json_arr_push g (ncl_json_new_array g) (server_entry_json g base_url));
               d2 = put_json g ''servers'' servers d1;
               paths = paths_loop g ops srv [0..<ncl_server_operation_count srv] (ncl_json_new_object g)
           in put_json g ''paths'' paths d2))"

definition ncl_server_openapi_schema_json :: "grant \<Rightarrow> 'd double_ops \<Rightarrow> 'd ncl_server \<Rightarrow> string option \<Rightarrow> string option" where
  "ncl_server_openapi_schema_json g ops srv base_url =
     (case ncl_server_openapi_schema g ops srv base_url of
        None \<Rightarrow> None
      | Some document \<Rightarrow> ncl_json_write_string g ops (Some document))"

section \<open>The device model\<close>

text \<open>The status, the nodes that were released, and the server.\<close>

definition ncl_server_set_model ::
  "grant \<Rightarrow> 'd double_ops \<Rightarrow> 'd ncl_server \<Rightarrow> 'd json ncl_node option \<Rightarrow> ncl_err \<times> 'd json ncl_node list \<times> 'd ncl_server" where
  "ncl_server_set_model g ops srv root =
     (case ncl_server_refresh_methods g ops (srv\<lparr>srv_root := root\<rparr>) of
        (rc, released, srv1) \<Rightarrow> (rc, (case srv_root srv of None \<Rightarrow> [] | Some old \<Rightarrow> [old]) @ released, srv1))"

definition ncl_server_load_model ::
  "grant \<Rightarrow> 'd double_ops \<Rightarrow> 'd ncl_server \<Rightarrow> string option \<Rightarrow> ncl_err \<times> 'd json ncl_node list \<times> 'd ncl_server" where
  "ncl_server_load_model g ops srv model_json =
     (case ncl_root_node_parse g ops model_json of
        None \<Rightarrow> (NCL_ERR_INVALID_MODEL, [], srv)
      | Some root \<Rightarrow> ncl_server_set_model g ops srv (Some root))"

definition ncl_server_model :: "grant \<Rightarrow> 'd double_ops \<Rightarrow> 'd ncl_server \<Rightarrow> 'd json ncl_node option \<times> 'd ncl_server" where
  "ncl_server_model g ops srv = (let srv1 = ncl_server_flush_methods g ops srv in (srv_root srv1, srv1))"

text \<open>
  The file system: the name of the model's file, whether a file is there, and writing one. The item
  that lists the methods is taken out while the model is written, and put back behind the others.
\<close>

record 'w model_file =
  mf_path :: "string option"
  mf_exists :: "'w \<Rightarrow> string \<Rightarrow> bool"
  mf_write :: "string \<Rightarrow> string \<Rightarrow> 'w \<Rightarrow> ncl_err \<times> 'w"

definition drop_config :: "nat \<Rightarrow> 'v ncl_node \<Rightarrow> 'v ncl_node" where
  "drop_config i root =
     set_children In_Configs (take i (configs root) @ drop (Suc i) (configs root)) (nd_configs_cap (nf root)) root"

definition append_config :: "'v ncl_node \<Rightarrow> 'v ncl_node \<Rightarrow> 'v ncl_node" where
  "append_config n root = set_children In_Configs (configs root @ [n]) (nd_configs_cap (nf root)) root"

definition ncl_server_save_model ::
  "grant \<Rightarrow> 'd double_ops \<Rightarrow> 'w model_file \<Rightarrow> 'd ncl_server \<Rightarrow> 'w \<Rightarrow> ncl_err \<times> 'd ncl_server \<times> 'w" where
  "ncl_server_save_model g ops mf srv w =
     (case srv_root srv of
        None \<Rightarrow> (NCL_ERR_INVALID_ARG, srv, w)
      | Some root \<Rightarrow>
          (case mf_path mf of
             None \<Rightarrow> (NCL_ERR_IO, srv, w)
           | Some path \<Rightarrow>
               if mf_exists mf w path then (NCL_OK, srv, w)
               else (let found = ncl_server_methods_node srv;
                         root1 = (case found of None \<Rightarrow> root | Some i \<Rightarrow> drop_config i root);
                         root2 = (case found of None \<Rightarrow> root | Some i \<Rightarrow> append_config (configs root ! i) root1);
                         srv1 = srv\<lparr>srv_root := Some root2\<rparr>
                     in case ncl_node_write_string g ops root1 of
                          None \<Rightarrow> (NCL_ERR_NOMEM, srv1, w)
                        | Some t \<Rightarrow> (case mf_write mf path t w of (rc, w1) \<Rightarrow> (rc, srv1, w1)))))"

section \<open>Life cycle\<close>

record ncl_server_options =
  so_sn :: "string option"
  so_mqtt :: bool
  so_model_json :: "string option"
  so_publish :: "nat option"
  so_publish_user :: "nat option"

definition SERVER_SIZE :: nat where
  "SERVER_SIZE = 216"

definition blank_server :: "ncl_server_options \<Rightarrow> string \<Rightarrow> 'd ncl_server" where
  "blank_server options sn =
     \<lparr>srv_sn = sn, srv_mqtt = so_mqtt options, srv_root = None, srv_bindings = [], srv_binding_cap = 0,
      srv_last_tool_name = None, srv_last_tool_instance = None, srv_samples = [], srv_sample_cap = 0, srv_sample_uploads = 0,
      srv_user_data = None, srv_user_cleanup = None, srv_schemas = [], srv_schema_cap = 0, srv_events = 0,
      srv_methods_dirty = False, srv_publish_sink = so_publish options, srv_publish_user = so_publish_user options,
      srv_method_tasks = ncl_ptrvec_init False, srv_method_seq = 0\<rparr>"

text \<open>A model that cannot be loaded leaves the server with none, and is logged.\<close>

definition ncl_server_create :: "grant \<Rightarrow> 'd double_ops \<Rightarrow> bool \<Rightarrow> ncl_server_options option \<Rightarrow> 'd ncl_server option" where
  "ncl_server_create g ops mutex options =
     (case options of
        None \<Rightarrow> None
      | Some o1 \<Rightarrow>
          (case so_sn o1 of
             None \<Rightarrow> None
           | Some sn \<Rightarrow>
               if \<not> g SERVER_SIZE then None
               else (case ncl_strdup g (Some sn) of
                       None \<Rightarrow> None
                     | Some copy \<Rightarrow>
                         if \<not> mutex then None
                         else (let srv = blank_server o1 copy
                               in Some (if so_model_json o1 = None then srv
                                        else snd (snd (ncl_server_load_model g ops srv (so_model_json o1))))))))"

text \<open>The cleanups that ran, with their data; and the server.\<close>

definition ncl_server_set_user_data :: "nat option \<Rightarrow> nat option \<Rightarrow> 'd ncl_server \<Rightarrow> (nat \<times> nat option) list \<times> 'd ncl_server" where
  "ncl_server_set_user_data data cleanup srv =
     ((case srv_user_cleanup srv of
         Some f \<Rightarrow> if srv_user_data srv \<noteq> data then [(f, srv_user_data srv)] else []
       | None \<Rightarrow> []),
      srv\<lparr>srv_user_data := data, srv_user_cleanup := cleanup\<rparr>)"

definition ncl_server_set_publish_sink :: "nat option \<Rightarrow> nat option \<Rightarrow> 'd ncl_server \<Rightarrow> 'd ncl_server" where
  "ncl_server_set_publish_sink fn user srv = srv\<lparr>srv_publish_sink := fn, srv_publish_user := user\<rparr>"

end
