(* ===== verification/Server_Sample.thy ===== *)
theory Server_Sample
  imports Server_Model
begin

text \<open>
  \<^verbatim>\<open>stack/src/server/server.c\<close>, third part: sample channels, from their configuration to the task, the
  built in tool that clients manage them with, and calling what a binding leads to. The host program,
  the platform and the file system are the record \<open>server_env\<close>; what a method of the host does is
  a function on a state of the host's own.
\<close>

section \<open>The environment\<close>

text \<open>Where a message goes: to the host's own transport, or to the broker with a quality of service and user properties.\<close>

datatype outlet = To_Sink nat "nat option" | To_Broker nat "(string \<times> string) list"

text \<open>
  \<open>sx_thread\<close> says for which channel a thread can be started; \<open>sx_call\<close> runs a function of the host
  with its instance and the parameters; \<open>sx_root_dir\<close>, \<open>sx_sep\<close> and \<open>sx_copy\<close> are the program's
  directory, the separator of its paths and copying a file; \<open>sx_send\<close> hands a payload on under a topic.
\<close>

record ('d, 'w) server_env =
  sx_schema :: "'d schema_env"
  sx_mutex :: bool
  sx_cond :: bool
  sx_thread :: "string \<Rightarrow> bool"
  sx_call :: "nat \<Rightarrow> tool_instance \<Rightarrow> 'd json option \<Rightarrow> 'w \<Rightarrow> (ncl_err \<times> 'd json option \<times> string option) \<times> 'w"
  sx_file :: "'w model_file"
  sx_root_dir :: string
  sx_sep :: char
  sx_copy :: "string \<Rightarrow> string \<Rightarrow> 'w \<Rightarrow> ncl_err \<times> 'w"
  sx_send :: "outlet \<Rightarrow> string \<Rightarrow> string \<Rightarrow> 'w \<Rightarrow> ncl_err \<times> 'w"

abbreviation sx_ops :: "('d, 'w) server_env \<Rightarrow> 'd double_ops" where
  "sx_ops env \<equiv> se_ops (sx_schema env)"

section \<open>Paths\<close>

text \<open>An id that starts with a slash is a path; any other names a node of the model.\<close>

definition ncl_server_resolve_path :: "grant \<Rightarrow> 'd ncl_server \<Rightarrow> string option \<Rightarrow> string option" where
  "ncl_server_resolve_path g srv ref =
     (case ref of
        None \<Rightarrow> None
      | Some t \<Rightarrow>
          if t \<noteq> [] \<and> hd t = CHR ''/'' then ncl_strdup g (Some t)
          else (case srv_root srv of
                  None \<Rightarrow> None
                | Some root \<Rightarrow>
                    (case ncl_node_find_by_id root t of
                       None \<Rightarrow> None
                     | Some pos \<Rightarrow>
                         (case node_at root pos of
                            None \<Rightarrow> None
                          | Some n \<Rightarrow> ncl_strdup g (ncl_node_path (nf n))))))"

section \<open>Creating a task\<close>

definition SAMPLE_TASK_SIZE :: nat where
  "SAMPLE_TASK_SIZE = 112"

text \<open>One entry of both lists per sample item; an item whose path is not to be had ends the attempt.\<close>

fun sample_paths_loop ::
  "grant \<Rightarrow> 'd ncl_server \<Rightarrow> string option \<Rightarrow> sample_ref option list \<Rightarrow> char strvec \<Rightarrow> char strvec \<Rightarrow>
   ncl_err + (char strvec \<times> char strvec)" where
  "sample_paths_loop g srv device_path [] paths header = Inr (paths, header)"
| "sample_paths_loop g srv device_path (r # rs) paths header =
     (case (case r of None \<Rightarrow> None | Some ref \<Rightarrow> sr_id ref) of
        None \<Rightarrow> Inl NCL_ERR_INVALID_ARG
      | Some name \<Rightarrow>
          if ncl_str_is_blank (Some name) then Inl NCL_ERR_INVALID_ARG
          else (case ncl_server_resolve_path g srv (Some name) of
                  None \<Rightarrow> Inl NCL_ERR_NOT_FOUND
                | Some path \<Rightarrow>
                    (case ncl_strvec_push g paths (Some path) of
                       (rc, paths1) \<Rightarrow>
                         if rc \<noteq> NCL_OK then Inl NCL_ERR_NOMEM
                         else (case ncl_path_without_device g (Some path) device_path of
                                 None \<Rightarrow> Inl NCL_ERR_NOMEM
                               | Some short \<Rightarrow>
                                   (case ncl_strvec_push g header (Some short) of
                                      (rc2, header1) \<Rightarrow>
                                        if rc2 \<noteq> NCL_OK then Inl NCL_ERR_NOMEM
                                        else sample_paths_loop g srv device_path rs paths1 header1)))))"

text \<open>
  The configuration is a node at a position of a tree: of the model, or of a tree of its own. The
  header is relative to the device above it, or else to the first device of the model.
\<close>

definition sample_device_path :: "'d ncl_server \<Rightarrow> 'd json ncl_node \<Rightarrow> node_pos \<Rightarrow> string option" where
  "sample_device_path srv tree pos =
     (case ncl_node_device_path tree pos of
        Some p \<Rightarrow> Some p
      | None \<Rightarrow>
          (case srv_root srv of
             None \<Rightarrow> None
           | Some root \<Rightarrow> if devices root = [] then None else ncl_node_device_path root [(In_Devices, 0)]))"

definition ncl_sample_task_create ::
  "grant \<Rightarrow> ('d, 'w) server_env \<Rightarrow> 'd ncl_server \<Rightarrow> 'd json ncl_node \<Rightarrow> node_pos \<Rightarrow> ncl_err + 'd sample_task" where
  "ncl_sample_task_create g env srv tree pos =
     (case node_at tree pos of
        None \<Rightarrow> Inl NCL_ERR_INVALID_ARG
      | Some config \<Rightarrow>
          (let f = nf config
           in if nd_id f = None \<or> ncl_str_is_blank (nd_id f) then Inl NCL_ERR_INVALID_ARG
              else if ncl_node_sample_count f = 0 then Inl NCL_ERR_INVALID_MODEL
              else if \<not> nd_has_sample_interval f \<or> nd_sample_interval f \<le> 0 then Inl NCL_ERR_INVALID_ARG
              else if \<not> nd_has_upload_interval f \<or> nd_upload_interval f \<le> 0 then Inl NCL_ERR_INVALID_ARG
              else if \<not> g SAMPLE_TASK_SIZE then Inl NCL_ERR_NOMEM
              else (case (ncl_strdup g (nd_id f), ncl_node_clone g (sx_ops env) False config) of
                      (Some name, Some copy) \<Rightarrow>
                        if \<not> sx_mutex env \<or> \<not> sx_cond env then Inl NCL_ERR_NOMEM
                        else (case ncl_topic g Sample (Some (srv_sn srv)) (Some name) of
                                None \<Rightarrow> Inl NCL_ERR_NOMEM
                              | Some topic \<Rightarrow>
                                  (case sample_paths_loop g srv (sample_device_path srv tree pos)
                                          (pv_items (nd_sample_items f)) ncl_strvec_init ncl_strvec_init of
                                     Inl e \<Rightarrow> Inl e
                                   | Inr (paths, header) \<Rightarrow>
                                       Inr \<lparr>ch_id = name, ch_topic = topic, ch_config = copy, ch_paths = paths, ch_header = header,
                                            ch_stop = False, ch_warned_slow = False\<rparr>))
                    | _ \<Rightarrow> Inl NCL_ERR_NOMEM)))"

section \<open>The table of channels\<close>

fun sample_index :: "string \<Rightarrow> nat \<Rightarrow> 'd sample_task list \<Rightarrow> nat option" where
  "sample_index name i [] = None"
| "sample_index name i (t # ts) = (if ch_id t = name then Some i else sample_index name (Suc i) ts)"

definition ncl_server_find_sample :: "'d ncl_server \<Rightarrow> string \<Rightarrow> nat option" where
  "ncl_server_find_sample srv name = sample_index name 0 (srv_samples srv)"

text \<open>The status, the tasks that were stopped, and the server.\<close>

definition ncl_server_remove_sample :: "'d ncl_server \<Rightarrow> string option \<Rightarrow> ncl_err \<times> 'd sample_task list \<times> 'd ncl_server" where
  "ncl_server_remove_sample srv ref =
     (case ref of
        None \<Rightarrow> (NCL_ERR_INVALID_ARG, [], srv)
      | Some name \<Rightarrow>
          (case ncl_server_find_sample srv name of
             None \<Rightarrow> (NCL_ERR_NOT_FOUND, [], srv)
           | Some i \<Rightarrow>
               (NCL_OK, [srv_samples srv ! i],
                srv\<lparr>srv_samples := take i (srv_samples srv) @ drop (Suc i) (srv_samples srv)\<rparr>)))"

definition ncl_server_start_sample ::
  "grant \<Rightarrow> ('d, 'w) server_env \<Rightarrow> 'd ncl_server \<Rightarrow> 'd json ncl_node \<Rightarrow> node_pos \<Rightarrow> ncl_err \<times> 'd sample_task list \<times> 'd ncl_server" where
  "ncl_server_start_sample g env srv tree pos =
     (case (case node_at tree pos of None \<Rightarrow> None | Some config \<Rightarrow> nd_id (nf config)) of
        None \<Rightarrow> (NCL_ERR_INVALID_ARG, [], srv)
      | Some name \<Rightarrow>
          (case ncl_server_remove_sample srv (Some name) of
             (_, stopped, srv1) \<Rightarrow>
               (case ncl_sample_task_create g env srv1 tree pos of
                  Inl e \<Rightarrow> (e, stopped, srv1)
                | Inr task \<Rightarrow>
                    if \<not> sx_thread env (ch_id task) then (NCL_ERR_NOMEM, stopped, srv1)
                    else if ncl_server_find_sample srv1 (ch_id task) \<noteq> None then (NCL_ERR_EXISTS, stopped @ [task], srv1)
                    else (case array_room g PTR_SIZE 4 (length (srv_samples srv1)) (srv_sample_cap srv1) of
                            None \<Rightarrow> (NCL_ERR_NOMEM, stopped @ [task], srv1)
                          | Some cap \<Rightarrow>
                              (NCL_OK, stopped, srv1\<lparr>srv_samples := srv_samples srv1 @ [task], srv_sample_cap := cap\<rparr>)))))"

definition ncl_server_add_sample ::
  "grant \<Rightarrow> ('d, 'w) server_env \<Rightarrow> 'd ncl_server \<Rightarrow> 'd json ncl_node \<Rightarrow> node_pos \<Rightarrow> ncl_err \<times> 'd sample_task list \<times> 'd ncl_server" where
  "ncl_server_add_sample g env srv tree pos = ncl_server_start_sample g env srv tree pos"

definition ncl_server_stop_all_samples :: "'d ncl_server \<Rightarrow> 'd sample_task list \<times> 'd ncl_server" where
  "ncl_server_stop_all_samples srv = (srv_samples srv, srv\<lparr>srv_samples := [], srv_sample_cap := 0\<rparr>)"

text \<open>The channels of the first device are started; one that cannot be started is passed over.\<close>

fun init_loop ::
  "grant \<Rightarrow> ('d, 'w) server_env \<Rightarrow> 'd json ncl_node \<Rightarrow> nat \<Rightarrow> 'd json ncl_node list \<Rightarrow> 'd ncl_server \<Rightarrow> 'd ncl_server" where
  "init_loop g env root i [] srv = srv"
| "init_loop g env root i (config # rest) srv =
     init_loop g env root (Suc i) rest
       (if ncl_node_is_sample_node (nf config)
        then snd (snd (ncl_server_start_sample g env srv root [(In_Devices, 0), (In_Configs, i)])) else srv)"

definition ncl_server_init_samples :: "grant \<Rightarrow> ('d, 'w) server_env \<Rightarrow> 'd ncl_server \<Rightarrow> ncl_err \<times> 'd ncl_server" where
  "ncl_server_init_samples g env srv =
     (case srv_root srv of
        None \<Rightarrow> (NCL_ERR_INVALID_ARG, srv)
      | Some root \<Rightarrow>
          (case devices root of
             [] \<Rightarrow> (NCL_ERR_INVALID_MODEL, srv)
           | device # _ \<Rightarrow> (NCL_OK, init_loop g env root 0 (configs device) srv)))"

definition ncl_server_sample_count :: "'d ncl_server \<Rightarrow> nat" where
  "ncl_server_sample_count srv = length (srv_samples srv)"

section \<open>The built in tool\<close>

text \<open>The UTF-8 texts of two reasons.\<close>

definition NO_REQUEST :: string where
  "NO_REQUEST = [CHR 0xE7, CHR 0xBC, CHR 0xBA, CHR 0xE5, CHR 0xB0, CHR 0x91] @ '' request '' @
     [CHR 0xE5, CHR 0x8F, CHR 0x82, CHR 0xE6, CHR 0x95, CHR 0xB0]"

definition NOT_A_CONFIG :: string where
  "NOT_A_CONFIG =
     
     [CHR 0xE9, CHR 0x87, CHR 0x87, CHR 0xE6, CHR 0xA0, CHR 0xB7, CHR 0xE9, CHR 0x80, CHR 0x9A, CHR 0xE9, CHR 0x81, CHR 0x93,
      CHR 0xE9, CHR 0x85, CHR 0x8D, CHR 0xE7, CHR 0xBD, CHR 0xAE, CHR 0xE4, CHR 0xB8, CHR 0x8D, CHR 0xE6, CHR 0x98, CHR 0xAF,
      CHR 0xE5, CHR 0x90, CHR 0x88, CHR 0xE6, CHR 0xB3, CHR 0x95, CHR 0xE7, CHR 0x9A, CHR 0x84, CHR 0xE9, CHR 0x85, CHR 0x8D,
      CHR 0xE7, CHR 0xBD, CHR 0xAE, CHR 0xE8, CHR 0x8A, CHR 0x82, CHR 0xE7, CHR 0x82, CHR 0xB9]"

text \<open>The status, the value and the reason; and the server.\<close>

definition ncl_builtin_add_sample ::
  "grant \<Rightarrow> ('d, 'w) server_env \<Rightarrow> 'd ncl_server \<Rightarrow> 'd json option \<Rightarrow> (ncl_err \<times> 'd json option \<times> string option) \<times> 'd ncl_server" where
  "ncl_builtin_add_sample g env srv params =
     (case ncl_json_obj_get params (Some ''request'') of
        None \<Rightarrow> ((NCL_ERR_INVALID_ARG, None, ncl_strdup g (Some NO_REQUEST)), srv)
      | Some request \<Rightarrow>
          (case ncl_node_from_json g (sx_ops env) NCL_NODE_CONFIG request of
             None \<Rightarrow> ((NCL_ERR_INVALID_MODEL, None, ncl_strdup g (Some NOT_A_CONFIG)), srv)
           | Some config \<Rightarrow>
               (case ncl_server_add_sample g env srv config [] of
                  (rc, stopped, srv1) \<Rightarrow>
                    if rc \<noteq> NCL_OK then ((rc, None, ncl_strdup g (Some (ncl_err_name rc))), srv1)
                    else ((NCL_OK, ncl_json_new_bool g True, None), srv1))))"

definition ncl_builtin_remove_sample ::
  "grant \<Rightarrow> 'd ncl_server \<Rightarrow> 'd json option \<Rightarrow> (ncl_err \<times> 'd json option \<times> string option) \<times> 'd ncl_server" where
  "ncl_builtin_remove_sample g srv params =
     (case ncl_json_obj_get_string params (Some ''id'') of
        None \<Rightarrow> ((NCL_ERR_INVALID_ARG, None, None), srv)
      | Some name \<Rightarrow>
          (case ncl_server_remove_sample srv (Some name) of
             (rc, stopped, srv1) \<Rightarrow>
               if rc \<noteq> NCL_OK then ((rc, None, None), srv1) else ((NCL_OK, ncl_json_new_bool g True, None), srv1)))"

definition builtin_methods :: "ncl_tool_method list" where
  "builtin_methods =
     [\<lparr>tm_name = ''addSample'', tm_fn = Some Fn_Add_Sample,
        tm_params_schema = Some (''{'' @ [CHR 0x22] @ ''type'' @ [CHR 0x22] @ '':'' @ [CHR 0x22] @ ''object'' @ [CHR 0x22] @ '','' @ [CHR 0x22] @
        ''properties'' @ [CHR 0x22] @ '':{'' @ [CHR 0x22] @ ''request'' @ [CHR 0x22] @ '':{'' @ [CHR 0x22] @ ''type'' @
        [CHR 0x22] @ '':'' @ [CHR 0x22] @ ''object'' @ [CHR 0x22] @ ''}},'' @ [CHR 0x22] @ ''required'' @ [CHR 0x22] @
        '':['' @ [CHR 0x22] @ ''request'' @ [CHR 0x22] @ '']}''),
        tm_result_schema = Some (''{'' @ [CHR 0x22] @ ''type'' @ [CHR 0x22] @ '':'' @ [CHR 0x22] @ ''boolean'' @ [CHR 0x22] @ ''}'')\<rparr>,
      \<lparr>tm_name = ''removeSample'', tm_fn = Some Fn_Remove_Sample,
        tm_params_schema = Some (''{'' @ [CHR 0x22] @ ''type'' @ [CHR 0x22] @ '':'' @ [CHR 0x22] @ ''object'' @ [CHR 0x22] @ '','' @ [CHR 0x22] @
        ''properties'' @ [CHR 0x22] @ '':{'' @ [CHR 0x22] @ ''id'' @ [CHR 0x22] @ '':{'' @ [CHR 0x22] @ ''type'' @
        [CHR 0x22] @ '':'' @ [CHR 0x22] @ ''string'' @ [CHR 0x22] @ '','' @ [CHR 0x22] @ ''minLength'' @ [CHR 0x22] @
        '':1}},'' @ [CHR 0x22] @ ''required'' @ [CHR 0x22] @ '':['' @ [CHR 0x22] @ ''id'' @ [CHR 0x22] @ '']}''),
        tm_result_schema = Some (''{'' @ [CHR 0x22] @ ''type'' @ [CHR 0x22] @ '':'' @ [CHR 0x22] @ ''boolean'' @ [CHR 0x22] @ ''}'')\<rparr>]"

definition ncl_server_register_builtin_tool :: "grant \<Rightarrow> ('d, 'w) server_env \<Rightarrow> 'd ncl_server \<Rightarrow> ncl_err \<times> 'd ncl_server" where
  "ncl_server_register_builtin_tool g env srv =
     ncl_server_register_tool g (sx_ops env) (sx_mutex env) srv (Some ''nclinkServer'') (Some The_Server) builtin_methods []"

section \<open>Calling a binding\<close>

definition ncl_server_call_binding ::
  "grant \<Rightarrow> ('d, 'w) server_env \<Rightarrow> ncl_binding option \<Rightarrow> 'd json option \<Rightarrow> 'd ncl_server \<Rightarrow> 'w \<Rightarrow>
   (ncl_err \<times> 'd json option \<times> string option) \<times> 'd ncl_server \<times> 'w" where
  "ncl_server_call_binding g env binding params srv w =
     (case (case binding of None \<Rightarrow> None | Some b \<Rightarrow> map_option (\<lambda>f. (f, bn_instance b)) (bn_fn b)) of
        None \<Rightarrow> ((NCL_ERR_NOT_FOUND, None, None), srv, w)
      | Some (Fn_Add_Sample, _) \<Rightarrow> (case ncl_builtin_add_sample g env srv params of (answer, srv1) \<Rightarrow> (answer, srv1, w))
      | Some (Fn_Remove_Sample, _) \<Rightarrow> (case ncl_builtin_remove_sample g srv params of (answer, srv1) \<Rightarrow> (answer, srv1, w))
      | Some (Host_Fn f, inst) \<Rightarrow> (case sx_call env f inst params w of (answer, w1) \<Rightarrow> (answer, srv, w1)))"

definition ncl_server_lookup :: "'d ncl_server \<Rightarrow> string \<Rightarrow> string \<Rightarrow> ncl_binding option" where
  "ncl_server_lookup srv operation path = ncl_server_find_binding srv (path_key operation path)"

end
