(* ===== verification/Server_Items.thy ===== *)
theory Server_Items
  imports Server_Sample
begin

text \<open>
  \<^verbatim>\<open>stack/src/server/server.c\<close>, fourth part: requests that read and write points of the model, item by
  item; and \<^verbatim>\<open>ncl_file_extract_file_values\<close> of \<^verbatim>\<open>stack/src/file/file_tool.c\<close>, which turns files in
  the value of a method into names that the client can fetch.
\<close>

section \<open>Reading\<close>

text \<open>The UTF-8 text of the reason when nothing is bound to an operation on a path.\<close>

definition UNBOUND :: string where
  "UNBOUND =
     [CHR 0xE6, CHR 0x9C, CHR 0xAA, CHR 0xE6, CHR 0x89, CHR 0xBE, CHR 0xE5, CHR 0x88, CHR 0xB0]"

text \<open>The items of a request; \<open>ncl_server_dispatch\<close> hands over queries and sets only.\<close>

definition request_items :: "'d ncl_message \<Rightarrow> 'd request_item option list" where
  "request_items request =
     (case as_body request of As_Query_Request v \<Rightarrow> pv_items v | As_Set_Request v \<Rightarrow> pv_items v | _ \<Rightarrow> [])"

text \<open>The binding for an operation on a point of the model.\<close>

definition item_binding :: "grant \<Rightarrow> 'd ncl_server \<Rightarrow> string option \<Rightarrow> 'd request_item \<Rightarrow> ncl_binding option" where
  "item_binding g srv operation item =
     (case (ncl_server_resolve_path g srv (qi_id item), operation) of
        (Some path, Some op) \<Rightarrow> ncl_server_lookup srv op path
      | _ \<Rightarrow> None)"

definition echoed_params :: "grant \<Rightarrow> 'd double_ops \<Rightarrow> 'd request_item \<Rightarrow> 'd json option" where
  "echoed_params g ops item = (case qi_params item of None \<Rightarrow> None | Some p \<Rightarrow> ncl_json_clone g ops p)"

text \<open>The reason of a failure: the method's own, or else the name of its status.\<close>

definition failure_reason :: "grant \<Rightarrow> ncl_err \<Rightarrow> string option \<Rightarrow> string option \<Rightarrow> string option" where
  "failure_reason g rc reason kept =
     (if reason \<noteq> None then reason else if rc \<noteq> NCL_OK then ncl_strdup g (Some (ncl_err_name rc)) else kept)"

definition answer_query_item ::
  "grant \<Rightarrow> ('d, 'w) server_env \<Rightarrow> 'd request_item \<Rightarrow> 'd query_response_item \<Rightarrow> 'd ncl_server \<Rightarrow> 'w \<Rightarrow>
   'd query_response_item \<times> 'd ncl_server \<times> 'w" where
  "answer_query_item g env item blank srv w =
     (let result = blank\<lparr>qr_params := echoed_params g (sx_ops env) item\<rparr>
      in case item_binding g srv (ncl_query_request_item_operation item) item of
           None \<Rightarrow> (result\<lparr>qr_code := ncl_strdup g (Some NCL_KW_CODE_NG), qr_reason := ncl_strdup g (Some UNBOUND)\<rparr>, srv, w)
         | Some b \<Rightarrow>
             (case ncl_server_call_binding g env (Some b) (qi_params item) srv w of
                ((rc, value, reason), srv1, w1) \<Rightarrow>
                  if rc = NCL_OK \<and> value \<noteq> None
                  then (snd (ncl_query_response_item_add_value g (result\<lparr>qr_code := ncl_strdup g (Some NCL_KW_CODE_OK)\<rparr>) value), srv1, w1)
                  else (result\<lparr>qr_code := ncl_strdup g (Some NCL_KW_CODE_NG), qr_reason := failure_reason g rc reason (qr_reason result)\<rparr>,
                        srv1, w1)))"

fun query_loop ::
  "grant \<Rightarrow> ('d, 'w) server_env \<Rightarrow> 'd request_item option list \<Rightarrow> 'd ncl_message \<Rightarrow> 'd ncl_server \<Rightarrow> 'w \<Rightarrow>
   'd ncl_message \<times> 'd ncl_server \<times> 'w" where
  "query_loop g env [] response srv w = (response, srv, w)"
| "query_loop g env (x # xs) response srv w =
     (case x of
        None \<Rightarrow> query_loop g env xs response srv w
      | Some item \<Rightarrow>
          (case ncl_query_response_item_new g (qi_id item) of
             None \<Rightarrow> (response, srv, w)
           | Some blank \<Rightarrow>
               (case answer_query_item g env item blank srv w of
                  (result, srv1, w1) \<Rightarrow>
                    (case ncl_message_add_query_response_item g result response of
                       (rc, freed, response1) \<Rightarrow>
                         if rc \<noteq> NCL_OK then (response1, srv1, w1) else query_loop g env xs response1 srv1 w1))))"

definition ncl_server_invoke_query ::
  "grant \<Rightarrow> ('d, 'w) server_env \<Rightarrow> 'd ncl_message \<Rightarrow> 'd ncl_server \<Rightarrow> 'w \<Rightarrow> 'd ncl_message option \<times> 'd ncl_server \<times> 'w" where
  "ncl_server_invoke_query g env request srv w =
     (case ncl_message_new g NCL_MSG_QUERY_RESPONSE of
        None \<Rightarrow> (None, srv, w)
      | Some response \<Rightarrow>
          (case query_loop g env (request_items request)
                  (snd (ncl_message_set_message_id g (message_id request) response)) srv w of
             (r, srv1, w1) \<Rightarrow> (Some r, srv1, w1)))"

section \<open>Writing\<close>

definition answer_set_item ::
  "grant \<Rightarrow> ('d, 'w) server_env \<Rightarrow> 'd request_item \<Rightarrow> 'd set_response_item \<Rightarrow> 'd ncl_server \<Rightarrow> 'w \<Rightarrow>
   'd set_response_item \<times> 'd ncl_server \<times> 'w" where
  "answer_set_item g env item blank srv w =
     (let result = blank\<lparr>so_params := echoed_params g (sx_ops env) item\<rparr>
      in case item_binding g srv (ncl_set_request_item_operation item) item of
           None \<Rightarrow> (result\<lparr>so_code := ncl_strdup g (Some NCL_KW_CODE_NG), so_reason := ncl_strdup g (Some UNBOUND)\<rparr>, srv, w)
         | Some b \<Rightarrow>
             (case ncl_server_call_binding g env (Some b) (qi_params item) srv w of
                ((rc, value, reason), srv1, w1) \<Rightarrow>
                  if rc = NCL_OK \<and> value \<noteq> None
                  then (result\<lparr>so_code := ncl_strdup g (Some NCL_KW_CODE_OK), so_result := value\<rparr>, srv1, w1)
                  else (result\<lparr>so_code := ncl_strdup g (Some NCL_KW_CODE_NG), so_reason := failure_reason g rc reason (so_reason result)\<rparr>,
                        srv1, w1)))"

fun set_loop ::
  "grant \<Rightarrow> ('d, 'w) server_env \<Rightarrow> 'd request_item option list \<Rightarrow> 'd ncl_message \<Rightarrow> 'd ncl_server \<Rightarrow> 'w \<Rightarrow>
   'd ncl_message \<times> 'd ncl_server \<times> 'w" where
  "set_loop g env [] response srv w = (response, srv, w)"
| "set_loop g env (x # xs) response srv w =
     (case x of
        None \<Rightarrow> set_loop g env xs response srv w
      | Some item \<Rightarrow>
          (case ncl_set_response_item_new g (qi_id item) of
             None \<Rightarrow> (response, srv, w)
           | Some blank \<Rightarrow>
               (case answer_set_item g env item blank srv w of
                  (result, srv1, w1) \<Rightarrow>
                    (case ncl_message_add_set_response_item g result response of
                       (rc, freed, response1) \<Rightarrow>
                         if rc \<noteq> NCL_OK then (response1, srv1, w1) else set_loop g env xs response1 srv1 w1))))"

definition ncl_server_invoke_set ::
  "grant \<Rightarrow> ('d, 'w) server_env \<Rightarrow> 'd ncl_message \<Rightarrow> 'd ncl_server \<Rightarrow> 'w \<Rightarrow> 'd ncl_message option \<times> 'd ncl_server \<times> 'w" where
  "ncl_server_invoke_set g env request srv w =
     (case ncl_message_new g NCL_MSG_SET_RESPONSE of
        None \<Rightarrow> (None, srv, w)
      | Some response \<Rightarrow>
          (case set_loop g env (request_items request)
                  (snd (ncl_message_set_message_id g (message_id request) response)) srv w of
             (r, srv1, w1) \<Rightarrow> (Some r, srv1, w1)))"

section \<open>Files in values\<close>

definition PATH_MAX_BUF :: nat where
  "PATH_MAX_BUF = 4096"

text \<open>What follows the last separator of either kind.\<close>

definition remote_basename :: "string \<Rightarrow> string" where
  "remote_basename path = rev (takeWhile (\<lambda>c. c \<noteq> CHR ''/'' \<and> c \<noteq> CHR 0x5C) (rev path))"

definition upload_path :: "('d, 'w) server_env \<Rightarrow> string \<Rightarrow> string" where
  "upload_path env name =
     (let joined = snprintf_text PATH_MAX_BUF (''/uploadFile'' @ (if name \<noteq> [] \<and> hd name = CHR ''/'' then [] else ''/'') @ name)
      in snprintf_text PATH_MAX_BUF (sx_root_dir env @ map (\<lambda>c. if c = CHR ''/'' then sx_sep env else c) joined))"

text \<open>The members from index \<open>i\<close> on: the value, the names found so far, the host's state. The number of members stays.\<close>

definition file_member :: "'d json option \<Rightarrow> nat \<Rightarrow> (string \<times> string) option" where
  "file_member data i =
     (case (ncl_json_obj_key_at data i, ncl_json_obj_val_at data i) of
        (Some key, Some value) \<Rightarrow>
          if ncl_json_type_of (Some value) \<noteq> NCL_JSON_OBJECT \<or> cstr_of key = ''fileKeys'' then None
          else map_option (\<lambda>path. (cstr_of key, path)) (ncl_json_obj_get_string (Some value) (Some ''@file''))
      | _ \<Rightarrow> None)"

fun extract_loop ::
  "grant \<Rightarrow> ('d, 'w) server_env \<Rightarrow> nat list \<Rightarrow> 'd json option \<Rightarrow> 'd json option \<Rightarrow> 'w \<Rightarrow> ('d json option \<times> 'd json option) \<times> 'w" where
  "extract_loop g env [] data file_keys w = ((data, file_keys), w)"
| "extract_loop g env (i # is) data file_keys w =
     (case file_member data i of
        None \<Rightarrow> extract_loop g env is data file_keys w
      | Some (key, path) \<Rightarrow>
          (let token = snprintf_text PATH_MAX_BUF (''/temp/'' @ remote_basename path)
           in case sx_copy env path (upload_path env token) w of
                (rc, w1) \<Rightarrow>
                  if rc \<noteq> NCL_OK then extract_loop g env is data file_keys w1
                  else (let data1 = snd (ncl_json_obj_set g data (Some key) (ncl_json_new_string g (Some token)))
                        in case (case file_keys of None \<Rightarrow> ncl_json_new_array g | Some k \<Rightarrow> Some k) of
                             None \<Rightarrow> ((data1, None), w1)
                           | Some keys \<Rightarrow>
                               extract_loop g env is data1
                                 (snd (ncl_json_arr_push g (Some keys) (ncl_json_new_string g (Some key)))) w1)))"

definition ncl_file_extract_file_values ::
  "grant \<Rightarrow> ('d, 'w) server_env \<Rightarrow> 'd json option \<Rightarrow> 'w \<Rightarrow> 'd json option \<times> 'w" where
  "ncl_file_extract_file_values g env data w =
     (if ncl_json_type_of data \<noteq> NCL_JSON_OBJECT then (data, w)
      else case extract_loop g env [0..<ncl_json_obj_len data] data None w of
             ((data1, file_keys), w1) \<Rightarrow>
               (if file_keys = None then data1 else snd (ncl_json_obj_set g data1 (Some ''fileKeys'') file_keys), w1))"

end
