(* ===== verification/Server_Methods.thy ===== *)
theory Server_Methods
  imports Server_Items
begin

text \<open>
  \<^verbatim>\<open>stack/src/server/server.c\<close>, fifth part: method calls. A call is checked against the method's
  schema, made at once, or handed to a worker of the thread pool; the client asks for the progress and
  for the outcome of the last kind by a handle. What the memory and the random source give is an
  argument, and so is whether the thread pool takes the work.
\<close>

section \<open>Texts\<close>

text \<open>The UTF-8 texts of the reasons.\<close>

definition NO_METHOD_NAME :: string where
  "NO_METHOD_NAME =
     ''method '' @
     [CHR 0xE4, CHR 0xB8, CHR 0x8D, CHR 0xE8, CHR 0x83, CHR 0xBD, CHR 0xE4, CHR 0xB8, CHR 0xBA, CHR 0xE7, CHR 0xA9, CHR 0xBA]"

definition NO_SUCH_METHOD :: string where
  "NO_SUCH_METHOD =
     
     [CHR 0xE6, CHR 0xB2, CHR 0xA1, CHR 0xE6, CHR 0x9C, CHR 0x89, CHR 0xE6, CHR 0x89, CHR 0xBE, CHR 0xE5, CHR 0x88, CHR 0xB0,
      CHR 0xE6, CHR 0x96, CHR 0xB9, CHR 0xE6, CHR 0xB3, CHR 0x95]"

definition METHOD_NOT_FOUND :: string where
  "METHOD_NOT_FOUND =
     
     [CHR 0xE6, CHR 0x9C, CHR 0xAA, CHR 0xE6, CHR 0x89, CHR 0xBE, CHR 0xE5, CHR 0x88, CHR 0xB0, CHR 0xE6, CHR 0x96, CHR 0xB9,
      CHR 0xE6, CHR 0xB3, CHR 0x95]"

definition WRONG_COUNT :: string where
  "WRONG_COUNT =
     
     [CHR 0xE5, CHR 0x8F, CHR 0x82, CHR 0xE6, CHR 0x95, CHR 0xB0, CHR 0xE6, CHR 0x95, CHR 0xB0, CHR 0xE9, CHR 0x87, CHR 0x8F,
      CHR 0xE4, CHR 0xB8, CHR 0x8D, CHR 0xE5, CHR 0x8C, CHR 0xB9, CHR 0xE9, CHR 0x85, CHR 0x8D]"

section \<open>The name of a method\<close>

text \<open>\<open>/tool/method\<close> or a method alone, with or without a slash before it; as the check of a call reads it.\<close>

definition ncl_server_split_method :: "string \<Rightarrow> string option \<times> string" where
  "ncl_server_split_method method =
     (case method of
        c # rest \<Rightarrow>
          if c = CHR ''/''
          then (case dropWhile (\<lambda>d. d \<noteq> CHR ''/'') rest of
                  [] \<Rightarrow> (None, rest)
                | slash # name \<Rightarrow> (Some (takeWhile (\<lambda>d. d \<noteq> CHR ''/'') rest), name))
          else (None, method)
      | [] \<Rightarrow> (None, method))"

text \<open>As a call reads it: the first slash behind a leading one parts the tool and the method.\<close>

definition call_target :: "grant \<Rightarrow> string \<Rightarrow> string option \<times> string" where
  "call_target g method =
     (let scan = (if method \<noteq> [] \<and> hd method = CHR ''/'' then tl method else method)
      in case dropWhile (\<lambda>d. d \<noteq> CHR ''/'') scan of
           [] \<Rightarrow> (None, method)
         | slash # name \<Rightarrow> (ncl_strdup g (Some (takeWhile (\<lambda>d. d \<noteq> CHR ''/'') scan)), name))"

section \<open>The answer\<close>

text \<open>The answer as it is begun: it echoes the id, the method, the token and the flag of the request.\<close>

definition begin_call_response :: "grant \<Rightarrow> 'd ncl_message \<Rightarrow> 'd call_request \<Rightarrow> 'd ncl_message option" where
  "begin_call_response g request q =
     (case ncl_message_new g NCL_MSG_METHOD_CALL_RESPONSE of
        None \<Rightarrow> None
      | Some r \<Rightarrow>
          (let r1 = snd (ncl_message_set_method g (cq_method q) (snd (ncl_message_set_message_id g (message_id request) r)));
               r2 = (if cq_token q \<noteq> None then snd (ncl_message_set_token g (cq_token q) r1) else r1)
           in Some (if cq_has_check q then snd (ncl_message_set_check (cq_check q) r2) else r2)))"

definition refuse :: "grant \<Rightarrow> string option \<Rightarrow> 'd ncl_message \<Rightarrow> 'd ncl_message" where
  "refuse g reason r = snd (ncl_message_set_reason g reason (snd (ncl_message_set_code g (Some NCL_KW_CODE_NG) r)))"

definition accept :: "grant \<Rightarrow> 'd ncl_message \<Rightarrow> 'd ncl_message" where
  "accept g r = snd (ncl_message_set_code g (Some NCL_KW_CODE_OK) r)"

section \<open>Checking a call\<close>

text \<open>
  The validation may fill the schema's cache of patterns. When the copy of the name is refused, the
  code compares with a NULL pointer; that has no counterpart, and gives no answer.
\<close>

definition check_params ::
  "grant \<Rightarrow> 'd schema_env \<Rightarrow> ncl_binding \<Rightarrow> 'd json option \<Rightarrow> 'd ncl_message \<Rightarrow> 'd ncl_server \<Rightarrow> 'd ncl_message \<times> 'd ncl_server" where
  "check_params g env b params r srv =
     (case bn_params_schema b of
        Some i \<Rightarrow>
          (case ncl_schema_validate g env (Some (is_schema (srv_schemas srv ! i))) params (Some ncl_strvec_init) of
             (rc, errors, schema) \<Rightarrow>
               (let srv1 = srv\<lparr>srv_schemas := (srv_schemas srv)[i := (srv_schemas srv ! i)\<lparr>is_schema := the schema\<rparr>]\<rparr>
                in if ncl_strvec_len (the errors) > 0 then (refuse g (ncl_schema_join_errors g errors) r, srv1)
                   else (accept g r, srv1)))
      | None \<Rightarrow>
          if (case params of None \<Rightarrow> 0 | Some p \<Rightarrow> ncl_json_obj_len (Some p)) = 0 then (accept g r, srv)
          else (refuse g (Some WRONG_COUNT) r, srv))"

definition ncl_server_check_method_call ::
  "grant \<Rightarrow> ('d, 'w) server_env \<Rightarrow> 'd ncl_message \<Rightarrow> 'd ncl_server \<Rightarrow> 'd ncl_message option \<times> 'd ncl_server" where
  "ncl_server_check_method_call g env request srv =
     (case as_body request of
        As_Method_Call_Request q \<Rightarrow>
          (case begin_call_response g request q of
             None \<Rightarrow> (None, srv)
           | Some r \<Rightarrow>
               (case cq_method q of
                  None \<Rightarrow> (Some (refuse g (Some NO_METHOD_NAME) r), srv)
                | Some method \<Rightarrow>
                    if ncl_strdup g (Some method) = None then (None, srv)
                    else (case ncl_server_split_method method of
                            (tool, name) \<Rightarrow>
                              (case ncl_server_find_method srv tool name of
                                 None \<Rightarrow> (Some (refuse g (Some NO_SUCH_METHOD) r), srv)
                               | Some b \<Rightarrow>
                                   (case check_params g (sx_schema env) b (cq_params q) r srv of
                                      (r1, srv1) \<Rightarrow> (Some r1, srv1))))))
      | _ \<Rightarrow> (None, srv))"

section \<open>Workers\<close>

text \<open>What a worker gets: the binding, its copy of the parameters, and the address of its task.\<close>

record 'd method_worker =
  wk_binding :: ncl_binding
  wk_params :: "'d json option"
  wk_task :: nat

definition METHOD_TASK_SIZE :: nat where
  "METHOD_TASK_SIZE = 64"

definition METHOD_WORKER_SIZE :: nat where
  "METHOD_WORKER_SIZE = 32"

definition ncl_server_find_task_locked :: "'d ncl_server \<Rightarrow> string option \<Rightarrow> 'd method_task option" where
  "ncl_server_find_task_locked srv handler =
     (case find (\<lambda>x. case x of None \<Rightarrow> False | Some t \<Rightarrow> mt_handler t \<noteq> None \<and> handler \<noteq> None \<and> mt_handler t = handler)
             (pv_items (srv_method_tasks srv)) of
        None \<Rightarrow> None
      | Some x \<Rightarrow> x)"

fun drop_task :: "nat \<Rightarrow> 'd method_task option list \<Rightarrow> 'd method_task option list" where
  "drop_task a [] = []"
| "drop_task a (x # xs) = (if map_option mt_address x = Some a then xs else x # drop_task a xs)"

definition on_tasks :: "('d method_task option list \<Rightarrow> 'd method_task option list) \<Rightarrow> 'd ncl_server \<Rightarrow> 'd ncl_server" where
  "on_tasks f srv = srv\<lparr>srv_method_tasks := (srv_method_tasks srv)\<lparr>pv_items := f (pv_items (srv_method_tasks srv))\<rparr>\<rparr>"

definition ncl_server_unlink_task_locked :: "'d method_task \<Rightarrow> 'd ncl_server \<Rightarrow> 'd ncl_server" where
  "ncl_server_unlink_task_locked task = on_tasks (drop_task (mt_address task))"

definition change_task :: "nat \<Rightarrow> ('d method_task \<Rightarrow> 'd method_task) \<Rightarrow> 'd ncl_server \<Rightarrow> 'd ncl_server" where
  "change_task a f = on_tasks (map (map_option (\<lambda>t. if mt_address t = a then f t else t)))"

text \<open>The two halves of a worker: the call itself, and storing what came of it under the mutex.\<close>

definition worker_call ::
  "grant \<Rightarrow> ('d, 'w) server_env \<Rightarrow> 'd method_worker \<Rightarrow> 'd ncl_server \<Rightarrow> 'w \<Rightarrow>
   (ncl_err \<times> 'd json option \<times> string option) \<times> 'd ncl_server \<times> 'w" where
  "worker_call g env work srv w = ncl_server_call_binding g env (Some (wk_binding work)) (wk_params work) srv w"

definition worker_store :: "int \<Rightarrow> 'd method_worker \<Rightarrow> ncl_err \<times> 'd json option \<times> string option \<Rightarrow> 'd ncl_server \<Rightarrow> 'd ncl_server" where
  "worker_store now work outcome =
     change_task (wk_task work)
       (\<lambda>t. if mt_abandoned t then t
            else t\<lparr>mt_finished := True, mt_rc := fst outcome, mt_value := fst (snd outcome), mt_reason := snd (snd outcome),
                   mt_finished_ms := now\<rparr>)"

definition ncl_method_worker_run ::
  "grant \<Rightarrow> ('d, 'w) server_env \<Rightarrow> int \<Rightarrow> 'd method_worker \<Rightarrow> 'd ncl_server \<Rightarrow> 'w \<Rightarrow> 'd ncl_server \<times> 'w" where
  "ncl_method_worker_run g env now work srv w =
     (case worker_call g env work srv w of (outcome, srv1, w1) \<Rightarrow> (worker_store now work outcome srv1, w1))"

section \<open>Making a call\<close>

text \<open>
  What an asynchronous call takes from its surroundings: the address of the new task, what the random
  source gives, the clock, and whether the thread pool takes the work.
\<close>

record async_args =
  aa_address :: nat
  aa_random :: "u8 list option"
  aa_now :: int
  aa_pool :: bool

text \<open>The handle: a UUID, or else the serial number with the count of calls.\<close>

definition new_handler :: "async_args \<Rightarrow> 'd ncl_server \<Rightarrow> string \<times> 'd ncl_server" where
  "new_handler aa srv =
     (case ncl_uuid4 (aa_random aa) 64 of
        Inr uuid \<Rightarrow> (uuid, srv)
      | Inl e \<Rightarrow>
          (let seq = (srv_method_seq srv + 1) mod 2 ^ 64
           in (snprintf_text 64 (srv_sn srv @ ''-'' @ dec_nat seq), srv\<lparr>srv_method_seq := seq\<rparr>)))"

definition new_task :: "async_args \<Rightarrow> string \<Rightarrow> 'd method_task" where
  "new_task aa handler =
     \<lparr>mt_address = aa_address aa, mt_handler = Some handler, mt_finished = False, mt_abandoned = False, mt_process = 0,
      mt_status = None, mt_rc = NCL_OK, mt_value = None, mt_reason = None, mt_finished_ms = 0\<rparr>"

text \<open>The answer, the work that the thread pool took, and the state.\<close>

definition async_call ::
  "grant \<Rightarrow> ('d, 'w) server_env \<Rightarrow> async_args \<Rightarrow> ncl_binding \<Rightarrow> 'd json option \<Rightarrow> 'd ncl_message \<Rightarrow> 'd ncl_server \<Rightarrow> 'w \<Rightarrow>
   'd ncl_message \<times> 'd method_worker option \<times> 'd ncl_server \<times> 'w" where
  "async_call g env aa b params r srv w =
     (case new_handler aa srv of
        (handler, srv1) \<Rightarrow>
          (let copy = (case params of None \<Rightarrow> None | Some p \<Rightarrow> ncl_json_clone g (sx_ops env) p);
               failed = refuse g (Some (ncl_err_name NCL_ERR_NOMEM)) r
           in if \<not> g METHOD_TASK_SIZE \<or> \<not> g METHOD_WORKER_SIZE \<or> ncl_strdup g (Some handler) = None \<or> (params \<noteq> None \<and> copy = None)
              then (failed, None, srv1, w)
              else (let srv2 = srv1\<lparr>srv_method_seq := (srv_method_seq srv1 + 1) mod 2 ^ 64\<rparr>
                    in case ncl_ptrvec_push g (srv_method_tasks srv2) (Some (new_task aa handler)) of
                         (rc, v) \<Rightarrow>
                           if rc \<noteq> NCL_OK then (failed, None, srv2, w)
                           else (let srv3 = srv2\<lparr>srv_method_tasks := v\<rparr>;
                                     work = \<lparr>wk_binding = b, wk_params = copy, wk_task = aa_address aa\<rparr>;
                                     done = snd (ncl_message_set_handler g (Some handler) (accept g r))
                                 in if aa_pool aa then (done, Some work, srv3, w)
                                    else (case ncl_method_worker_run g env (aa_now aa) work srv3 w of
                                            (srv4, w1) \<Rightarrow> (done, None, srv4, w1))))))"

definition sync_call ::
  "grant \<Rightarrow> ('d, 'w) server_env \<Rightarrow> ncl_binding \<Rightarrow> 'd json option \<Rightarrow> 'd ncl_message \<Rightarrow> 'd ncl_server \<Rightarrow> 'w \<Rightarrow>
   'd ncl_message \<times> 'd ncl_server \<times> 'w" where
  "sync_call g env b params r srv w =
     (case ncl_server_call_binding g env (Some b) params srv w of
        ((rc, value, reason), srv1, w1) \<Rightarrow>
          if rc = NCL_OK
          then (case value of
                  None \<Rightarrow> (accept g r, srv1, w1)
                | Some v \<Rightarrow>
                    (case ncl_file_extract_file_values g env (Some v) w1 of
                       (data, w2) \<Rightarrow> (snd (ncl_message_set_data data (accept g r)), srv1, w2)))
          else (refuse g (Some (case reason of None \<Rightarrow> ncl_err_name rc | Some t \<Rightarrow> t)) r, srv1, w1))"

definition ncl_server_invoke_method_call ::
  "grant \<Rightarrow> ('d, 'w) server_env \<Rightarrow> async_args \<Rightarrow> 'd ncl_message \<Rightarrow> 'd ncl_server \<Rightarrow> 'w \<Rightarrow>
   'd ncl_message option \<times> 'd method_worker option \<times> 'd ncl_server \<times> 'w" where
  "ncl_server_invoke_method_call g env aa request srv w =
     (case as_body request of
        As_Method_Call_Request q \<Rightarrow>
          (case begin_call_response g request q of
             None \<Rightarrow> (None, None, srv, w)
           | Some r \<Rightarrow>
               (case cq_method q of
                  None \<Rightarrow> (Some (refuse g (Some NO_METHOD_NAME) r), None, srv, w)
                | Some method \<Rightarrow>
                    if cq_has_check q \<and> cq_check q
                    then (case ncl_server_check_method_call g env request srv of (r1, srv1) \<Rightarrow> (r1, None, srv1, w))
                    else if ncl_strdup g (Some method) = None
                    then (Some (snd (ncl_message_set_code g (Some NCL_KW_CODE_NG) r)), None, srv, w)
                    else (case call_target g method of
                            (tool, name) \<Rightarrow>
                              (case ncl_server_find_method srv tool name of
                                 None \<Rightarrow> (Some (refuse g (Some METHOD_NOT_FOUND) r), None, srv, w)
                               | Some b \<Rightarrow>
                                   if ncl_message_async request
                                   then (case async_call g env aa b (cq_params q) r srv w of
                                           (r1, work, srv1, w1) \<Rightarrow> (Some r1, work, srv1, w1))
                                   else (case sync_call g env b (cq_params q) r srv w of
                                           (r1, srv1, w1) \<Rightarrow> (Some r1, None, srv1, w1))))))
      | _ \<Rightarrow> (None, None, srv, w))"

section \<open>Progress and outcome\<close>

text \<open>The reason of the first branch is refused: the answer to a status request has no place for it.\<close>

definition ncl_server_invoke_method_status :: "grant \<Rightarrow> 'd ncl_message \<Rightarrow> 'd ncl_server \<Rightarrow> 'd ncl_message option" where
  "ncl_server_invoke_method_status g request srv =
     (case ncl_message_new g NCL_MSG_METHOD_STATUS_RESPONSE of
        None \<Rightarrow> None
      | Some r \<Rightarrow>
          (let handler = ncl_message_handler request;
               r1 = snd (ncl_message_set_request_id g (ncl_message_request_id request)
                      (snd (ncl_message_set_message_id g (message_id request) r)));
               r2 = snd (ncl_message_set_handler g handler r1)
           in case ncl_server_find_task_locked srv handler of
                None \<Rightarrow>
                  Some (snd (ncl_message_set_reason g (Some NO_SUCH_METHOD)
                    (snd (ncl_message_set_status g (Some ''stopped'') (snd (ncl_message_set_code g (Some NCL_KW_CODE_NG) r2))))))
              | Some task \<Rightarrow>
                  Some (snd (ncl_message_set_status g
                    (Some (case mt_status task of
                       Some s \<Rightarrow> s
                     | None \<Rightarrow> if mt_finished task then ''stopped'' else ''executing''))
                    (snd (ncl_message_set_process (mt_process task) (accept g r2)))))))"

text \<open>The first answer after the end carries the outcome and releases the handle.\<close>

definition ncl_server_invoke_method_result ::
  "grant \<Rightarrow> 'd double_ops \<Rightarrow> 'd ncl_message \<Rightarrow> 'd ncl_server \<Rightarrow> 'd ncl_message option \<times> 'd ncl_server" where
  "ncl_server_invoke_method_result g ops request srv =
     (case ncl_message_new g NCL_MSG_METHOD_RESULT_RESPONSE of
        None \<Rightarrow> (None, srv)
      | Some r \<Rightarrow>
          (let handler = ncl_message_handler request;
               r1 = snd (ncl_message_set_request_id g (ncl_message_request_id request)
                      (snd (ncl_message_set_message_id g (message_id request) r)));
               r2 = snd (ncl_message_set_handler g handler r1)
           in case ncl_server_find_task_locked srv handler of
                None \<Rightarrow>
                  (Some (snd (ncl_message_set_result g (Some ''error'') (snd (ncl_message_set_code g (Some NCL_KW_CODE_NG) r2)))), srv)
              | Some task \<Rightarrow>
                  if \<not> mt_finished task then (Some (snd (ncl_message_set_code g (Some NCL_KW_CODE_PENDING) r2)), srv)
                  else (let srv1 = ncl_server_unlink_task_locked task srv
                        in if mt_rc task = NCL_OK
                           then (let r3 = snd (ncl_message_set_result g (Some ''finished'') (accept g r2))
                                 in (Some (case mt_value task of
                                             None \<Rightarrow> r3
                                           | Some v \<Rightarrow> snd (ncl_message_set_return (ncl_json_clone g ops v) r3)), srv1))
                           else (Some (snd (ncl_message_set_result g (Some ''error'')
                                   (snd (ncl_message_set_code g (Some NCL_KW_CODE_NG) r2)))), srv1))))"

definition ncl_server_report_method_progress ::
  "grant \<Rightarrow> string option \<Rightarrow> int \<Rightarrow> string option \<Rightarrow> 'd ncl_server \<Rightarrow> ncl_err \<times> 'd ncl_server" where
  "ncl_server_report_method_progress g handler process status srv =
     (if ncl_str_is_blank handler then (NCL_ERR_INVALID_ARG, srv)
      else if status \<noteq> None \<and> ncl_strdup g status = None then (NCL_ERR_NOMEM, srv)
      else case ncl_server_find_task_locked srv handler of
             None \<Rightarrow> (NCL_ERR_NOT_FOUND, srv)
           | Some task \<Rightarrow>
               (NCL_OK, change_task (mt_address task)
                  (\<lambda>t. t\<lparr>mt_process := process, mt_status := (if status \<noteq> None then status else mt_status t)\<rparr>) srv))"

definition ncl_server_pending_method_count :: "'d ncl_server \<Rightarrow> nat" where
  "ncl_server_pending_method_count srv = ncl_ptrvec_len (srv_method_tasks srv)"

end
