(* ===== verification/Server_Dispatch.thy ===== *)
theory Server_Dispatch
  imports Server_Methods
begin

text \<open>
  \<^verbatim>\<open>stack/src/server/server.c\<close>, sixth part: dispatching a request, publishing, topics, handling a
  message that arrived, events, and the end of a server.
\<close>

section \<open>Dispatching\<close>

text \<open>The UTF-8 texts of two reasons.\<close>

definition MODEL_INVALID :: string where
  "MODEL_INVALID =
     
     [CHR 0xE6, CHR 0xA8, CHR 0xA1, CHR 0xE5, CHR 0x9E, CHR 0x8B, CHR 0xE6, CHR 0x97, CHR 0xA0, CHR 0xE6, CHR 0x95, CHR 0x88]"

definition MODEL_MISSING :: string where
  "MODEL_MISSING =
     
     [CHR 0xE7, CHR 0xBC, CHR 0xBA, CHR 0xE5, CHR 0xB0, CHR 0x91, CHR 0xE6, CHR 0xA8, CHR 0xA1, CHR 0xE5, CHR 0x9E, CHR 0x8B]"

text \<open>A step's answer, the work for the thread pool, the nodes that were released, the server and the host.\<close>

type_synonym ('d, 'w) dispatched =
  "'d ncl_message option \<times> 'd method_worker option \<times> 'd json ncl_node list \<times> 'd ncl_server \<times> 'w"

definition answer_probe_query ::
  "grant \<Rightarrow> 'd double_ops \<Rightarrow> 'd ncl_message \<Rightarrow> 'd ncl_server \<Rightarrow> 'd ncl_message option \<times> 'd ncl_server" where
  "answer_probe_query g ops request srv =
     (case ncl_message_new g NCL_MSG_PROBE_QUERY_RESPONSE of
        None \<Rightarrow> (None, srv)
      | Some r \<Rightarrow>
          (let r1 = accept g (snd (ncl_message_set_message_id g (message_id request) r))
           in case srv_root srv of
                None \<Rightarrow> (Some r1, srv)
              | Some root \<Rightarrow>
                  (let srv1 = ncl_server_flush_methods g ops srv
                   in (Some (snd (ncl_message_set_model (ncl_node_clone g ops False (the (srv_root srv1))) r1)), srv1))))"

text \<open>
  A model that was installed and whose list of methods could not be built is released, and stays the
  server's model.
\<close>

definition answer_probe_set ::
  "grant \<Rightarrow> ('d, 'w) server_env \<Rightarrow> 'd ncl_message \<Rightarrow> 'd json ncl_node option \<Rightarrow> 'd ncl_server \<Rightarrow> 'w \<Rightarrow>
   'd ncl_message option \<times> 'd json ncl_node list \<times> 'd ncl_server \<times> 'w" where
  "answer_probe_set g env request model srv w =
     (case ncl_message_new g NCL_MSG_PROBE_SET_RESPONSE of
        None \<Rightarrow> (None, [], srv, w)
      | Some r \<Rightarrow>
          (let r1 = snd (ncl_message_set_message_id g (message_id request) r)
           in case model of
                None \<Rightarrow> (Some (refuse g (Some MODEL_MISSING) r1), [], srv, w)
              | Some m \<Rightarrow>
                  (case ncl_node_clone g (sx_ops env) False m of
                     None \<Rightarrow> (Some (refuse g (Some MODEL_INVALID) r1), [], srv, w)
                   | Some copy \<Rightarrow>
                       (case ncl_server_set_model g (sx_ops env) srv (Some copy) of
                          (rc, released, srv1) \<Rightarrow>
                            if rc = NCL_OK
                            then (case ncl_server_save_model g (sx_ops env) (sx_file env) srv1 w of
                                    (_, srv2, w1) \<Rightarrow> (Some (accept g r1), released, srv2, w1))
                            else (Some (refuse g (Some MODEL_INVALID) r1),
                                  released @ (case srv_root srv1 of None \<Rightarrow> [] | Some root \<Rightarrow> [root]), srv1, w)))))"

definition answer_ping :: "grant \<Rightarrow> 'd ncl_message \<Rightarrow> 'd ncl_message option" where
  "answer_ping g request =
     (case ncl_message_new g NCL_MSG_PONG of
        None \<Rightarrow> None
      | Some r \<Rightarrow> Some (accept g (snd (ncl_message_set_message_id g (message_id request) r))))"

definition ncl_server_dispatch ::
  "grant \<Rightarrow> ('d, 'w) server_env \<Rightarrow> async_args \<Rightarrow> 'd ncl_message \<Rightarrow> 'd ncl_server \<Rightarrow> 'w \<Rightarrow> ('d, 'w) dispatched" where
  "ncl_server_dispatch g env aa request srv w =
     (case as_body request of
        As_Query_Request v \<Rightarrow> (case ncl_server_invoke_query g env request srv w of (r, srv1, w1) \<Rightarrow> (r, None, [], srv1, w1))
      | As_Set_Request v \<Rightarrow> (case ncl_server_invoke_set g env request srv w of (r, srv1, w1) \<Rightarrow> (r, None, [], srv1, w1))
      | As_Method_Call_Request q \<Rightarrow>
          (case ncl_server_invoke_method_call g env aa request srv w of (r, work, srv1, w1) \<Rightarrow> (r, work, [], srv1, w1))
      | As_Method_Status_Request b \<Rightarrow> (ncl_server_invoke_method_status g request srv, None, [], srv, w)
      | As_Method_Result_Request b \<Rightarrow>
          (case ncl_server_invoke_method_result g (sx_ops env) request srv of (r, srv1) \<Rightarrow> (r, None, [], srv1, w))
      | As_Probe_Query_Request \<Rightarrow> (case answer_probe_query g (sx_ops env) request srv of (r, srv1) \<Rightarrow> (r, None, [], srv1, w))
      | As_Probe_Set_Request model \<Rightarrow>
          (case answer_probe_set g env request model srv w of (r, released, srv1, w1) \<Rightarrow> (r, None, released, srv1, w1))
      | As_Ping \<Rightarrow> (answer_ping g request, None, [], srv, w)
      | _ \<Rightarrow> (None, None, [], srv, w))"

section \<open>Publishing\<close>

definition ncl_server_publish ::
  "grant \<Rightarrow> ('d, 'w) server_env \<Rightarrow> 'd ncl_server \<Rightarrow> string option \<Rightarrow> 'd ncl_message \<Rightarrow> 'w \<Rightarrow> ncl_err \<times> 'w" where
  "ncl_server_publish g env srv topic response w =
     (case topic of
        None \<Rightarrow> (NCL_ERR_INVALID_ARG, w)
      | Some t \<Rightarrow>
          if srv_publish_sink srv = None \<and> \<not> srv_mqtt srv then (NCL_ERR_CLOSED, w)
          else (case ncl_message_write_string g (sx_ops env) response of
                  None \<Rightarrow> (NCL_ERR_NOMEM, w)
                | Some payload \<Rightarrow>
                    sx_send env (case srv_publish_sink srv of
                                   Some f \<Rightarrow> To_Sink f (srv_publish_user srv)
                                 | None \<Rightarrow> To_Broker 2 [(''version'', ''2.0'')]) t payload w))"

text \<open>Where a text first occurs in another.\<close>

fun text_place :: "string \<Rightarrow> string \<Rightarrow> nat \<Rightarrow> nat option" where
  "text_place needle [] i = (if needle = [] then Some i else None)"
| "text_place needle (c # cs) i = (if take (length needle) (c # cs) = needle then Some i else text_place needle cs (Suc i))"

text \<open>The first \<open>Request\<close> of the topic becomes \<open>Response\<close>; a ping is answered on the pong topic. The buffer has \<open>out_len\<close> bytes.\<close>

definition ncl_server_response_topic :: "'d ncl_server \<Rightarrow> string \<Rightarrow> ncl_msg_type \<Rightarrow> nat \<Rightarrow> string" where
  "ncl_server_response_topic srv request_topic request_type out_len =
     (let needle = text_place ''Request'' request_topic 0;
          prefix = (case needle of Some i \<Rightarrow> i | None \<Rightarrow> length request_topic)
      in if request_type = NCL_MSG_PING then snprintf_text out_len (''Pong/'' @ srv_sn srv)
         else if prefix + 8 + 1 > out_len then snprintf_text out_len request_topic
         else take prefix request_topic @
              snprintf_text (out_len - prefix)
                (''Response'' @ (case needle of Some i \<Rightarrow> drop (i + 7) request_topic | None \<Rightarrow> [])))"

text \<open>The topics of requests, in the order of the subscriptions; \<open>subscribe\<close> asks the broker.\<close>

definition request_topics :: "grant \<Rightarrow> 'd ncl_server \<Rightarrow> string option list" where
  "request_topics g srv =
     map (\<lambda>kind. ncl_topic g kind (Some (srv_sn srv)) None)
       [Query_Request, Probe_Query_Request, Set_Request, Probe_Set_Request, Method_Call_Request, Ping,
        Method_Status_Request, Method_Result_Request]"

fun subscribe_loop :: "(string \<Rightarrow> nat \<Rightarrow> 'w \<Rightarrow> ncl_err \<times> 'w) \<Rightarrow> string option list \<Rightarrow> 'w \<Rightarrow> ncl_err \<times> 'w" where
  "subscribe_loop subscribe [] w = (NCL_OK, w)"
| "subscribe_loop subscribe (t # ts) w =
     (case t of
        None \<Rightarrow> (NCL_ERR_NOMEM, w)
      | Some topic \<Rightarrow> (case subscribe topic 2 w of (rc, w1) \<Rightarrow> if rc \<noteq> NCL_OK then (rc, w1) else subscribe_loop subscribe ts w1))"

definition ncl_server_subscribe ::
  "grant \<Rightarrow> (string \<Rightarrow> nat \<Rightarrow> 'w \<Rightarrow> ncl_err \<times> 'w) \<Rightarrow> 'd ncl_server \<Rightarrow> 'w \<Rightarrow> ncl_err \<times> 'w" where
  "ncl_server_subscribe g subscribe srv w =
     (if \<not> srv_mqtt srv then (NCL_ERR_INVALID_ARG, w) else subscribe_loop subscribe (request_topics g srv) w)"

section \<open>A message that arrived\<close>

text \<open>The task for the thread pool; when the pool does not take it, it runs where the message arrived.\<close>

definition ncl_server_on_message :: "grant \<Rightarrow> string option \<Rightarrow> 'd ncl_message option \<Rightarrow> (string \<times> 'd ncl_message) option" where
  "ncl_server_on_message g topic request =
     (case (request, topic) of
        (Some r, Some t) \<Rightarrow> if \<not> g 24 then None else (case ncl_strdup g (Some t) of None \<Rightarrow> None | Some copy \<Rightarrow> Some (copy, r))
      | _ \<Rightarrow> None)"

definition ncl_server_task_run ::
  "grant \<Rightarrow> ('d, 'w) server_env \<Rightarrow> async_args \<Rightarrow> string \<times> 'd ncl_message \<Rightarrow> 'd ncl_server \<Rightarrow> 'w \<Rightarrow>
   'd method_worker option \<times> 'd ncl_server \<times> 'w" where
  "ncl_server_task_run g env aa task srv w =
     (case ncl_server_dispatch g env aa (snd task) srv w of
        (response, work, released, srv1, w1) \<Rightarrow>
          (work, srv1,
           (case response of
              None \<Rightarrow> w1
            | Some r \<Rightarrow>
                snd (ncl_server_publish g env srv1
                       (Some (ncl_server_response_topic srv1 (fst task) (body_type (as_body (snd task))) 512)) r w1))))"

section \<open>Events\<close>

definition ncl_server_push_event_ex ::
  "grant \<Rightarrow> ('d, 'w) server_env \<Rightarrow> int \<Rightarrow> u8 list option \<Rightarrow> string option \<Rightarrow> 'd json option \<Rightarrow> int \<Rightarrow> string option \<Rightarrow>
   'd ncl_server \<Rightarrow> 'w \<Rightarrow> ncl_err \<times> 'd ncl_server \<times> 'w" where
  "ncl_server_push_event_ex g env now random event_id event time_ms msg_id srv w =
     (case (event_id, event) of
        (Some name, Some e) \<Rightarrow>
          (case ncl_message_new g NCL_MSG_EVENT of
             None \<Rightarrow> (NCL_ERR_NOMEM, srv, w)
           | Some m \<Rightarrow>
               (let m1 = (if msg_id \<noteq> None then snd (ncl_message_set_message_id g msg_id m) else m);
                    m2 = snd (ncl_message_set_event_time_ms g now time_ms (snd (ncl_message_set_sample_id g (Some name) m1)));
                    m3 = snd (ncl_message_set_event (ncl_json_clone g (sx_ops env) e) m2)
                in case ncl_message_finalise g now random m3 of
                     (rc, m4) \<Rightarrow>
                       if rc \<noteq> NCL_OK then (rc, srv, w)
                       else (case ncl_topic g Event (Some (srv_sn srv)) None of
                               None \<Rightarrow> (NCL_ERR_NOMEM, srv, w)
                             | Some topic \<Rightarrow>
                                 (case ncl_server_publish g env srv (Some topic) m4 w of
                                    (rc2, w1) \<Rightarrow>
                                      (rc2, if rc2 = NCL_OK then srv\<lparr>srv_events := srv_events srv + 1\<rparr> else srv, w1)))))
      | _ \<Rightarrow> (NCL_ERR_INVALID_ARG, srv, w))"

definition ncl_server_push_event ::
  "grant \<Rightarrow> ('d, 'w) server_env \<Rightarrow> int \<Rightarrow> u8 list option \<Rightarrow> string option \<Rightarrow> 'd json option \<Rightarrow>
   'd ncl_server \<Rightarrow> 'w \<Rightarrow> ncl_err \<times> 'd ncl_server \<times> 'w" where
  "ncl_server_push_event g env now random event_id event srv w =
     ncl_server_push_event_ex g env now random event_id event 0 None srv w"

section \<open>The end of a server\<close>

text \<open>The channels that are stopped, the cleanup that runs, the tasks that are released, and those left to their workers.\<close>

definition ncl_server_free ::
  "'d ncl_server \<Rightarrow> 'd sample_task list \<times> (nat \<times> nat option) list \<times> 'd method_task list \<times> 'd method_task list" where
  "ncl_server_free srv =
     (let tasks = List.map_filter (\<lambda>x. x) (pv_items (srv_method_tasks srv))
      in (srv_samples srv,
          (case srv_user_cleanup srv of None \<Rightarrow> [] | Some f \<Rightarrow> [(f, srv_user_data srv)]),
          filter mt_finished tasks,
          map (\<lambda>t. t\<lparr>mt_abandoned := True\<rparr>) (filter (\<lambda>t. \<not> mt_finished t) tasks)))"

end
