(* ===== verification/Client.thy ===== *)
theory Client
  imports Server_Dispatch Ttl_Cache
begin

text \<open>
  \<^verbatim>\<open>stack/src/client/client.c\<close>: the client of one device. Answers are kept in a cache until the request
  they belong to takes them. The channel is an interface of function pointers, each of which may be
  NULL. A request waits on a condition; what arrives while it waits, and when, is an argument. The
  operations on files, which go through the file channel, are left out; so are a NULL client and the log.
\<close>

section \<open>The channel\<close>

record ('d, 'w) message_channel =
  mc_publish :: "(string \<Rightarrow> 'd ncl_message \<Rightarrow> nat \<Rightarrow> 'w \<Rightarrow> ncl_err \<times> 'w) option"
  mc_subscribe :: "(string \<Rightarrow> nat \<Rightarrow> 'w \<Rightarrow> ncl_err \<times> 'w) option"
  mc_unsubscribe :: "(string \<Rightarrow> 'w \<Rightarrow> ncl_err \<times> 'w) option"

definition ncl_channel_publish ::
  "('d, 'w) message_channel \<Rightarrow> string \<Rightarrow> 'd ncl_message \<Rightarrow> nat \<Rightarrow> 'w \<Rightarrow> ncl_err \<times> 'w" where
  "ncl_channel_publish ch topic m qos w = (case mc_publish ch of None \<Rightarrow> (NCL_ERR_STATE, w) | Some f \<Rightarrow> f topic m qos w)"

definition ncl_channel_subscribe :: "('d, 'w) message_channel \<Rightarrow> string \<Rightarrow> nat \<Rightarrow> 'w \<Rightarrow> ncl_err \<times> 'w" where
  "ncl_channel_subscribe ch topic qos w = (case mc_subscribe ch of None \<Rightarrow> (NCL_ERR_STATE, w) | Some f \<Rightarrow> f topic qos w)"

definition ncl_channel_unsubscribe :: "('d, 'w) message_channel \<Rightarrow> string \<Rightarrow> 'w \<Rightarrow> ncl_err \<times> 'w" where
  "ncl_channel_unsubscribe ch topic w = (case mc_unsubscribe ch of None \<Rightarrow> (NCL_ERR_STATE, w) | Some f \<Rightarrow> f topic w)"

section \<open>The client\<close>

record 'd ncl_client =
  cl_sn :: string
  cl_query_response :: string
  cl_probe_response :: string
  cl_set_response :: string
  cl_probe_set_response :: string
  cl_method_call_response :: string
  cl_method_status_response :: string
  cl_method_result_response :: string
  cl_event_topic :: string
  cl_sample_topic :: string
  cl_message_map :: "'d ncl_message ttl_cache"
  cl_root :: "'d json ncl_node option"
  cl_channel_id :: "string option"
  cl_channel_login :: "string option"
  cl_event_handler :: "nat option"
  cl_event_user :: "nat option"
  cl_events :: nat
  cl_sample_handler :: "nat option"
  cl_sample_user :: "nat option"
  cl_samples :: nat

definition CLIENT_SIZE :: nat where
  "CLIENT_SIZE = 192"

definition NCL_CLIENT_RESPONSE_TTL_MS :: nat where
  "NCL_CLIENT_RESPONSE_TTL_MS = 5 * 60 * 1000"

text \<open>\<open>platform\<close>: whether the mutex, the condition and the cache are to be had; \<open>channel\<close>: whether there is one.\<close>

definition ncl_client_create :: "grant \<Rightarrow> bool \<Rightarrow> string option \<Rightarrow> bool \<Rightarrow> 'd ncl_client option" where
  "ncl_client_create g platform sn channel =
     (case sn of
        None \<Rightarrow> None
      | Some s \<Rightarrow>
          if \<not> channel \<or> \<not> g CLIENT_SIZE then None
          else (case (ncl_strdup g (Some s), ncl_cache_create platform NCL_CLIENT_RESPONSE_TTL_MS False True) of
                  (Some copy, Some answers) \<Rightarrow>
                    (let topic = (\<lambda>kind. ncl_topic g kind (Some s) None);
                         samples = (case topic Sample of None \<Rightarrow> None | Some base \<Rightarrow> ncl_asprintf_text g (base @ ''/#''))
                     in case (topic Query_Response, topic Probe_Query_Response, topic Set_Response, topic Probe_Set_Response) of
                          (Some q, Some p, Some t, Some ps) \<Rightarrow>
                            (case (topic Method_Call_Response, topic Method_Status_Response, topic Method_Result_Response,
                                   topic Event, samples) of
                               (Some mc, Some ms, Some mr, Some ev, Some sa) \<Rightarrow>
                                 Some \<lparr>cl_sn = copy, cl_query_response = q, cl_probe_response = p, cl_set_response = t,
                                   cl_probe_set_response = ps, cl_method_call_response = mc, cl_method_status_response = ms,
                                   cl_method_result_response = mr, cl_event_topic = ev, cl_sample_topic = sa,
                                   cl_message_map = answers, cl_root = None, cl_channel_id = None, cl_channel_login = None,
                                   cl_event_handler = None, cl_event_user = None, cl_events = 0,
                                   cl_sample_handler = None, cl_sample_user = None, cl_samples = 0\<rparr>
                             | _ \<Rightarrow> None)
                        | _ \<Rightarrow> None)
                | _ \<Rightarrow> None))"

definition ncl_client_set_file_channel_lease ::
  "grant \<Rightarrow> string option \<Rightarrow> string option \<Rightarrow> 'd ncl_client \<Rightarrow> ncl_err \<times> 'd ncl_client" where
  "ncl_client_set_file_channel_lease g channel_id login c =
     (if channel_id \<noteq> None \<and> ncl_strdup g channel_id = None then (NCL_ERR_NOMEM, c)
      else if channel_id \<noteq> None \<and> login \<noteq> None \<and> ncl_strdup g login = None then (NCL_ERR_NOMEM, c)
      else (NCL_OK, c\<lparr>cl_channel_id := channel_id, cl_channel_login := (if channel_id = None then None else login)\<rparr>))"

fun channel_each :: "(string \<Rightarrow> 'w \<Rightarrow> ncl_err \<times> 'w) \<Rightarrow> string list \<Rightarrow> 'w \<Rightarrow> ncl_err \<times> 'w" where
  "channel_each f [] w = (NCL_OK, w)"
| "channel_each f (t # ts) w = (case f t w of (rc, w1) \<Rightarrow> if rc = NCL_OK then channel_each f ts w1 else (rc, w1))"

definition response_topics :: "'d ncl_client \<Rightarrow> string list" where
  "response_topics c =
     [cl_query_response c, cl_probe_response c, cl_set_response c, cl_method_call_response c, cl_method_status_response c,
      cl_method_result_response c, cl_probe_set_response c]"

definition ncl_client_subscribe :: "('d, 'w) message_channel \<Rightarrow> 'd ncl_client \<Rightarrow> 'w \<Rightarrow> ncl_err \<times> 'w" where
  "ncl_client_subscribe ch c w = channel_each (\<lambda>t. ncl_channel_subscribe ch t 2) (response_topics c) w"

definition ncl_client_unsubscribe :: "('d, 'w) message_channel \<Rightarrow> 'd ncl_client \<Rightarrow> 'w \<Rightarrow> ncl_err \<times> 'w" where
  "ncl_client_unsubscribe ch c w = (NCL_OK, foldl (\<lambda>w t. snd (ncl_channel_unsubscribe ch t w)) w (response_topics c))"

definition ncl_client_set_event_handler :: "nat option \<Rightarrow> nat option \<Rightarrow> 'd ncl_client \<Rightarrow> 'd ncl_client" where
  "ncl_client_set_event_handler fn user c = c\<lparr>cl_event_handler := fn, cl_event_user := user\<rparr>"

definition ncl_client_set_sample_handler :: "nat option \<Rightarrow> nat option \<Rightarrow> 'd ncl_client \<Rightarrow> 'd ncl_client" where
  "ncl_client_set_sample_handler fn user c = c\<lparr>cl_sample_handler := fn, cl_sample_user := user\<rparr>"

definition ncl_client_subscribe_events :: "('d, 'w) message_channel \<Rightarrow> nat \<Rightarrow> 'd ncl_client \<Rightarrow> 'w \<Rightarrow> ncl_err \<times> 'w" where
  "ncl_client_subscribe_events ch qos c w = ncl_channel_subscribe ch (cl_event_topic c) qos w"

definition ncl_client_subscribe_samples :: "('d, 'w) message_channel \<Rightarrow> nat \<Rightarrow> 'd ncl_client \<Rightarrow> 'w \<Rightarrow> ncl_err \<times> 'w" where
  "ncl_client_subscribe_samples ch qos c w = ncl_channel_subscribe ch (cl_sample_topic c) qos w"

section \<open>Messages that arrive\<close>

text \<open>What a handler of the host is called with.\<close>

datatype 'd handed = To_Handler nat string "'d ncl_message" "nat option"

definition topic_starts :: "string option \<Rightarrow> string \<Rightarrow> bool" where
  "topic_starts topic p \<longleftrightarrow> (case topic of None \<Rightarrow> False | Some t \<Rightarrow> take (length p) t = p)"

definition take_event :: "string \<Rightarrow> 'd ncl_message \<Rightarrow> 'd ncl_client \<Rightarrow> 'd handed option \<times> 'd ncl_client" where
  "take_event topic m c =
     (case cl_event_handler c of
        Some f \<Rightarrow> (Some (To_Handler f topic m (cl_event_user c)), c\<lparr>cl_events := cl_events c + 1\<rparr>)
      | None \<Rightarrow> (None, c))"

text \<open>A sample that is not in the shape it should have is repaired from the model before it is handed on.\<close>

definition take_sample :: "grant \<Rightarrow> string \<Rightarrow> 'd ncl_message \<Rightarrow> 'd ncl_client \<Rightarrow> 'd handed option \<times> 'd ncl_client" where
  "take_sample g topic m c =
     (case (if ncl_message_sample_is_complete m then (NCL_OK, m, cl_root c) else ncl_message_sample_normalise g m (cl_root c)) of
        (rc, m1, root) \<Rightarrow>
          (let c1 = c\<lparr>cl_root := root\<rparr>
           in case cl_sample_handler c of
                Some f \<Rightarrow> (Some (To_Handler f topic m1 (cl_sample_user c)), c1\<lparr>cl_samples := cl_samples c + 1\<rparr>)
              | None \<Rightarrow> (None, c1)))"

text \<open>The key of a response: its topic for a probe, or else its id; the buffer has 512 bytes.\<close>

definition response_key :: "string option \<Rightarrow> 'd ncl_message \<Rightarrow> string option" where
  "response_key topic m =
     (case topic of
        Some t \<Rightarrow> if text_place ''Probe'' t 0 \<noteq> None then Some (snprintf_text 512 t) else map_option (snprintf_text 512) (message_id m)
      | None \<Rightarrow> map_option (snprintf_text 512) (message_id m))"

text \<open>A search of the cache past an entry without a key, which has no counterpart, leaves the cache.\<close>

definition ncl_client_on_message ::
  "grant \<Rightarrow> int \<Rightarrow> string option \<Rightarrow> 'd ncl_message \<Rightarrow> 'd ncl_client \<Rightarrow> 'd handed option \<times> 'd ncl_client" where
  "ncl_client_on_message g now topic m c =
     (if topic_starts topic ''Event/'' then take_event (the topic) m c
      else if topic_starts topic ''Sample/'' then take_sample g (the topic) m c
      else case response_key topic m of
             None \<Rightarrow> (None, c)
           | Some key \<Rightarrow>
               (case ncl_cache_put g now (cl_message_map c) (Some key) (Some m) of
                  None \<Rightarrow> (None, c)
                | Some (rc, released, answers) \<Rightarrow> (None, c\<lparr>cl_message_map := answers\<rparr>)))"

definition ncl_client_take_response :: "int \<Rightarrow> string \<Rightarrow> 'd ncl_client \<Rightarrow> 'd ncl_message option \<times> 'd ncl_client" where
  "ncl_client_take_response now key c =
     (case ncl_cache_take now (cl_message_map c) (Some key) of
        None \<Rightarrow> (None, c)
      | Some (m, released, answers) \<Rightarrow> (m, c\<lparr>cl_message_map := answers\<rparr>))"

definition look_up_response :: "int \<Rightarrow> string \<Rightarrow> 'd ncl_client \<Rightarrow> 'd ncl_message option \<times> 'd ncl_client" where
  "look_up_response now key c =
     (case ncl_cache_get now (cl_message_map c) (Some key) of
        None \<Rightarrow> (None, c)
      | Some (m, released, answers) \<Rightarrow> (m, c\<lparr>cl_message_map := answers\<rparr>))"

section \<open>Requests\<close>

text \<open>What arrives while a request waits: when, on which topic, which message.\<close>

type_synonym 'd arrival = "int \<times> string option \<times> 'd ncl_message"

text \<open>
  The waiting for an answer: whether there is one when the wait ends, the arrivals it did not wait for,
  and the client. An empty list says that nothing more arrives before the deadline.
\<close>

fun wait_loop ::
  "grant \<Rightarrow> int \<Rightarrow> string \<Rightarrow> int \<Rightarrow> 'd arrival list \<Rightarrow> 'd ncl_client \<Rightarrow> bool \<times> 'd arrival list \<times> 'd ncl_client" where
  "wait_loop g deadline key now [] c = (case look_up_response now key c of (m, c1) \<Rightarrow> (m \<noteq> None, [], c1))"
| "wait_loop g deadline key now ((t, topic, m) # rest) c =
     (case look_up_response now key c of
        (Some r, c1) \<Rightarrow> (True, (t, topic, m) # rest, c1)
      | (None, c1) \<Rightarrow>
          if now \<ge> deadline then (False, (t, topic, m) # rest, c1)
          else wait_loop g deadline key t rest (snd (ncl_client_on_message g t topic m c1)))"

text \<open>The surroundings of a request: clock and random source at the start, the arrivals, and the clock when the answer is taken.\<close>

record 'd request_args =
  ra_now :: int
  ra_random :: "u8 list option"
  ra_arrivals :: "'d arrival list"
  ra_end :: int

definition ncl_client_do_request ::
  "grant \<Rightarrow> ('d, 'w) message_channel \<Rightarrow> 'd request_args \<Rightarrow> string option \<Rightarrow> string option \<Rightarrow> 'd ncl_message \<Rightarrow> nat \<Rightarrow>
   'd ncl_client \<Rightarrow> 'w \<Rightarrow> (ncl_err + 'd ncl_message) \<times> 'd ncl_client \<times> 'w" where
  "ncl_client_do_request g ch ra topic cache_key request timeout_ms c w =
     (case topic of
        None \<Rightarrow> (Inl NCL_ERR_INVALID_ARG, c, w)
      | Some t \<Rightarrow>
          (case ncl_message_finalise g (ra_now ra) (ra_random ra) request of
             (rc, request1) \<Rightarrow>
               if rc \<noteq> NCL_OK then (Inl rc, c, w)
               else (let source = (case cache_key of Some k \<Rightarrow> Some k | None \<Rightarrow> message_id request1)
                     in if ncl_str_is_blank source then (Inl NCL_ERR_INVALID_MESSAGE_ID, c, w)
                        else (let key = snprintf_text 512 (the source)
                              in case ncl_channel_publish ch t request1 2 w of
                                   (rc2, w1) \<Rightarrow>
                                     if rc2 \<noteq> NCL_OK then (Inl rc2, c, w1)
                                     else (case wait_loop g (ra_now ra + int timeout_ms) key (ra_now ra) (ra_arrivals ra) c of
                                             (found, rest, c1) \<Rightarrow>
                                               if \<not> found then (Inl NCL_ERR_TIMEOUT, c1, w1)
                                               else (case ncl_client_take_response (ra_end ra) key c1 of
                                                       (None, c2) \<Rightarrow> (Inl NCL_ERR_TIMEOUT, c2, w1)
                                                     | (Some r, c2) \<Rightarrow> (Inr r, c2, w1)))))))"

text \<open>The requests differ in the topic, in what identifies the answer, and in whether the message is completed first.\<close>

definition send_finalised ::
  "grant \<Rightarrow> ('d, 'w) message_channel \<Rightarrow> 'd request_args \<Rightarrow> topic_kind \<Rightarrow> string option \<Rightarrow> 'd ncl_message \<Rightarrow> nat \<Rightarrow>
   'd ncl_client \<Rightarrow> 'w \<Rightarrow> (ncl_err + 'd ncl_message) \<times> 'd ncl_client \<times> 'w" where
  "send_finalised g ch ra kind cache_key request timeout_ms c w =
     (case ncl_message_finalise g (ra_now ra) (ra_random ra) request of
        (rc, request1) \<Rightarrow>
          if rc \<noteq> NCL_OK then (Inl rc, c, w)
          else ncl_client_do_request g ch ra (ncl_topic g kind (Some (cl_sn c)) None) cache_key request1 timeout_ms c w)"

definition ncl_client_ping ::
  "grant \<Rightarrow> ('d, 'w) message_channel \<Rightarrow> 'd request_args \<Rightarrow> nat \<Rightarrow> 'd ncl_client \<Rightarrow> 'w \<Rightarrow>
   (ncl_err + 'd ncl_message) \<times> 'd ncl_client \<times> 'w" where
  "ncl_client_ping g ch ra timeout_ms c w =
     (case (ncl_topic g Ping (Some (cl_sn c)) None, ncl_message_new g NCL_MSG_PING) of
        (Some t, Some request) \<Rightarrow> send_finalised g ch ra Ping None request timeout_ms c w
      | _ \<Rightarrow> (Inl NCL_ERR_NOMEM, c, w))"

definition ncl_client_query ::
  "grant \<Rightarrow> ('d, 'w) message_channel \<Rightarrow> 'd request_args \<Rightarrow> 'd ncl_message \<Rightarrow> nat \<Rightarrow> 'd ncl_client \<Rightarrow> 'w \<Rightarrow>
   (ncl_err + 'd ncl_message) \<times> 'd ncl_client \<times> 'w" where
  "ncl_client_query g ch ra request timeout_ms c w = send_finalised g ch ra Query_Request None request timeout_ms c w"

definition ncl_client_set ::
  "grant \<Rightarrow> ('d, 'w) message_channel \<Rightarrow> 'd request_args \<Rightarrow> 'd ncl_message \<Rightarrow> nat \<Rightarrow> 'd ncl_client \<Rightarrow> 'w \<Rightarrow>
   (ncl_err + 'd ncl_message) \<times> 'd ncl_client \<times> 'w" where
  "ncl_client_set g ch ra request timeout_ms c w = send_finalised g ch ra Set_Request None request timeout_ms c w"

definition ncl_client_probe ::
  "grant \<Rightarrow> ('d, 'w) message_channel \<Rightarrow> 'd request_args \<Rightarrow> nat \<Rightarrow> 'd ncl_client \<Rightarrow> 'w \<Rightarrow>
   (ncl_err + 'd ncl_message) \<times> 'd ncl_client \<times> 'w" where
  "ncl_client_probe g ch ra timeout_ms c w =
     (case (ncl_topic g Probe_Query_Request (Some (cl_sn c)) None, ncl_message_new g NCL_MSG_PROBE_QUERY_REQUEST) of
        (Some t, Some request) \<Rightarrow> send_finalised g ch ra Probe_Query_Request (Some (cl_probe_response c)) request timeout_ms c w
      | _ \<Rightarrow> (Inl NCL_ERR_NOMEM, c, w))"

definition ncl_client_probe_set ::
  "grant \<Rightarrow> ('d, 'w) message_channel \<Rightarrow> 'd request_args \<Rightarrow> 'd ncl_message \<Rightarrow> nat \<Rightarrow> 'd ncl_client \<Rightarrow> 'w \<Rightarrow>
   (ncl_err + 'd ncl_message) \<times> 'd ncl_client \<times> 'w" where
  "ncl_client_probe_set g ch ra request timeout_ms c w =
     ncl_client_do_request g ch ra (ncl_topic g Probe_Set_Request (Some (cl_sn c)) None) None request timeout_ms c w"

definition ncl_client_method_call ::
  "grant \<Rightarrow> ('d, 'w) message_channel \<Rightarrow> 'd request_args \<Rightarrow> 'd ncl_message \<Rightarrow> nat \<Rightarrow> 'd ncl_client \<Rightarrow> 'w \<Rightarrow>
   (ncl_err + 'd ncl_message) \<times> 'd ncl_client \<times> 'w" where
  "ncl_client_method_call g ch ra request timeout_ms c w =
     send_finalised g ch ra Method_Call_Request None request timeout_ms c w"

definition ncl_client_method_query ::
  "grant \<Rightarrow> ('d, 'w) message_channel \<Rightarrow> 'd request_args \<Rightarrow> ncl_msg_type \<Rightarrow> string option \<Rightarrow> string option \<Rightarrow> nat \<Rightarrow>
   'd ncl_client \<Rightarrow> 'w \<Rightarrow> (ncl_err + 'd ncl_message) \<times> 'd ncl_client \<times> 'w" where
  "ncl_client_method_query g ch ra t object_id handler timeout_ms c w =
     (if ncl_str_is_blank handler then (Inl NCL_ERR_INVALID_ARG, c, w)
      else case ncl_message_new g t of
             None \<Rightarrow> (Inl NCL_ERR_NOMEM, c, w)
           | Some blank \<Rightarrow>
               (let request = snd (ncl_message_set_handler g handler (snd (ncl_message_set_request_id g object_id blank)));
                    kind = (if t = NCL_MSG_METHOD_STATUS_REQUEST then Method_Status_Request else Method_Result_Request)
                in case ncl_message_finalise g (ra_now ra) (ra_random ra) request of
                     (rc, request1) \<Rightarrow>
                       if rc \<noteq> NCL_OK then (Inl rc, c, w)
                       else if ncl_topic g kind (Some (cl_sn c)) None = None then (Inl NCL_ERR_NOMEM, c, w)
                       else ncl_client_do_request g ch ra (ncl_topic g kind (Some (cl_sn c)) None) None request1 timeout_ms c w))"

definition ncl_client_method_call_async ::
  "grant \<Rightarrow> ('d, 'w) message_channel \<Rightarrow> 'd request_args \<Rightarrow> 'd ncl_message \<Rightarrow> nat \<Rightarrow> 'd ncl_client \<Rightarrow> 'w \<Rightarrow>
   (ncl_err + 'd ncl_message) \<times> 'd ncl_client \<times> 'w" where
  "ncl_client_method_call_async g ch ra request timeout_ms c w =
     (if body_type (as_body request) \<noteq> NCL_MSG_METHOD_CALL_REQUEST then (Inl NCL_ERR_INVALID_TYPE, c, w)
      else ncl_client_method_call g ch ra (snd (ncl_message_set_async True request)) timeout_ms c w)"

definition ncl_client_method_status ::
  "grant \<Rightarrow> ('d, 'w) message_channel \<Rightarrow> 'd request_args \<Rightarrow> string option \<Rightarrow> string option \<Rightarrow> nat \<Rightarrow>
   'd ncl_client \<Rightarrow> 'w \<Rightarrow> (ncl_err + 'd ncl_message) \<times> 'd ncl_client \<times> 'w" where
  "ncl_client_method_status g ch ra = ncl_client_method_query g ch ra NCL_MSG_METHOD_STATUS_REQUEST"

definition ncl_client_method_result ::
  "grant \<Rightarrow> ('d, 'w) message_channel \<Rightarrow> 'd request_args \<Rightarrow> string option \<Rightarrow> string option \<Rightarrow> nat \<Rightarrow>
   'd ncl_client \<Rightarrow> 'w \<Rightarrow> (ncl_err + 'd ncl_message) \<times> 'd ncl_client \<times> 'w" where
  "ncl_client_method_result g ch ra = ncl_client_method_query g ch ra NCL_MSG_METHOD_RESULT_REQUEST"

end
