(* ===== verification/Client_Values.thy ===== *)
theory Client_Values
  imports Client
begin

text \<open>
  \<^verbatim>\<open>stack/src/client/client.c\<close>, second part: reading and writing points, the channels of the server,
  and what the client finds in the device model.
\<close>

section \<open>Reading\<close>

text \<open>The request for one point; the range, when there is one, is a text.\<close>

definition range_text :: "int \<Rightarrow> int \<Rightarrow> string" where
  "range_text first final =
     snprintf_text 64 (if first = final then dec_int first else dec_int first @ ''-'' @ dec_int final)"

definition single_query ::
  "grant \<Rightarrow> string \<Rightarrow> ncl_operation \<Rightarrow> (int \<times> int) option \<Rightarrow> ncl_err + 'd ncl_message" where
  "single_query g path operation span =
     (case ncl_query_request_item_new g (Some path) of
        None \<Rightarrow> Inl NCL_ERR_NOMEM
      | Some item \<Rightarrow>
          (case ncl_params_set_string g (qi_params item) (Some ''operation'') (Some (ncl_operation_to_string operation)) of
             (rc, params) \<Rightarrow>
               (case (case span of
                        Some (first, final) \<Rightarrow>
                          if rc = NCL_OK then ncl_params_append_string g params (Some ''indexes'') (Some (range_text first final))
                          else (rc, params)
                      | None \<Rightarrow> (rc, params)) of
                  (rc1, params1) \<Rightarrow>
                    if rc1 \<noteq> NCL_OK then Inl rc1
                    else (case ncl_message_new g NCL_MSG_QUERY_REQUEST of
                            None \<Rightarrow> Inl NCL_ERR_NOMEM
                          | Some request \<Rightarrow>
                              (case ncl_message_add_query_request_item g (item\<lparr>qi_params := params1\<rparr>) request of
                                 (rc2, freed, request1) \<Rightarrow> if rc2 \<noteq> NCL_OK then Inl NCL_ERR_NOMEM else Inr request1)))))"

definition ncl_client_query_single ::
  "grant \<Rightarrow> ('d, 'w) message_channel \<Rightarrow> 'd request_args \<Rightarrow> string option \<Rightarrow> ncl_operation \<Rightarrow> (int \<times> int) option \<Rightarrow> nat \<Rightarrow>
   'd ncl_client \<Rightarrow> 'w \<Rightarrow> (ncl_err + 'd ncl_message) \<times> 'd ncl_client \<times> 'w" where
  "ncl_client_query_single g ch ra path operation span timeout_ms c w =
     (case path of
        None \<Rightarrow> (Inl NCL_ERR_INVALID_ARG, c, w)
      | Some p \<Rightarrow>
          (case single_query g p operation span of
             Inl e \<Rightarrow> (Inl e, c, w)
           | Inr request \<Rightarrow> ncl_client_query g ch ra request timeout_ms c w))"

text \<open>The first item's data, once some item has data.\<close>

definition first_item_data :: "'d ncl_message \<Rightarrow> 'd json option" where
  "first_item_data response =
     (case ncl_message_item_at response 0 of Some (Query_Response_Item item) \<Rightarrow> ncl_query_response_item_data item | _ \<Rightarrow> None)"

definition ncl_client_first_value :: "grant \<Rightarrow> 'd double_ops \<Rightarrow> 'd ncl_message \<Rightarrow> ncl_err + 'd json" where
  "ncl_client_first_value g ops response =
     (if \<not> ncl_message_has_data response then Inl NCL_ERR_NOT_FOUND
      else case first_item_data response of
             None \<Rightarrow> Inl NCL_ERR_NOT_FOUND
           | Some value \<Rightarrow> (case ncl_json_clone g ops value of None \<Rightarrow> Inl NCL_ERR_NOMEM | Some copy \<Rightarrow> Inr copy))"

definition value_of_answer ::
  "grant \<Rightarrow> 'd double_ops \<Rightarrow> (ncl_err + 'd ncl_message) \<times> 'd ncl_client \<times> 'w \<Rightarrow> (ncl_err + 'd json) \<times> 'd ncl_client \<times> 'w" where
  "value_of_answer g ops r =
     (case r of
        (Inl e, c, w) \<Rightarrow> (Inl e, c, w)
      | (Inr response, c, w) \<Rightarrow> (ncl_client_first_value g ops response, c, w))"

definition ncl_client_get_value ::
  "grant \<Rightarrow> 'd double_ops \<Rightarrow> ('d, 'w) message_channel \<Rightarrow> 'd request_args \<Rightarrow> string option \<Rightarrow> nat \<Rightarrow> 'd ncl_client \<Rightarrow> 'w \<Rightarrow>
   (ncl_err + 'd json) \<times> 'd ncl_client \<times> 'w" where
  "ncl_client_get_value g ops ch ra path timeout_ms c w =
     value_of_answer g ops (ncl_client_query_single g ch ra path NCL_OP_GET_VALUE None timeout_ms c w)"

definition ncl_client_get_value_range ::
  "grant \<Rightarrow> 'd double_ops \<Rightarrow> ('d, 'w) message_channel \<Rightarrow> 'd request_args \<Rightarrow> string option \<Rightarrow> int \<Rightarrow> int \<Rightarrow> nat \<Rightarrow>
   'd ncl_client \<Rightarrow> 'w \<Rightarrow> (ncl_err + 'd json) \<times> 'd ncl_client \<times> 'w" where
  "ncl_client_get_value_range g ops ch ra path first final timeout_ms c w =
     value_of_answer g ops (ncl_client_query_single g ch ra path NCL_OP_GET_VALUE (Some (first, final)) timeout_ms c w)"

definition ncl_client_get_length ::
  "grant \<Rightarrow> 'd double_ops \<Rightarrow> ('d, 'w) message_channel \<Rightarrow> 'd request_args \<Rightarrow> string option \<Rightarrow> nat \<Rightarrow> 'd ncl_client \<Rightarrow> 'w \<Rightarrow>
   (ncl_err + int) \<times> 'd ncl_client \<times> 'w" where
  "ncl_client_get_length g ops ch ra path timeout_ms c w =
     (case ncl_client_query_single g ch ra path NCL_OP_GET_LENGTH None timeout_ms c w of
        (Inl e, c1, w1) \<Rightarrow> (Inl e, c1, w1)
      | (Inr response, c1, w1) \<Rightarrow>
          (if \<not> ncl_message_has_data response then Inl NCL_ERR_NOT_FOUND
           else case first_item_data response of
                  None \<Rightarrow> Inl NCL_ERR_NOT_FOUND
                | Some value \<Rightarrow> (case fst (ncl_json_as_int ops (Some value)) of None \<Rightarrow> Inl NCL_ERR_NOT_FOUND | Some n \<Rightarrow> Inr n),
           c1, w1))"

section \<open>Writing\<close>

definition single_set :: "grant \<Rightarrow> 'd double_ops \<Rightarrow> string \<Rightarrow> 'd json option \<Rightarrow> int option \<Rightarrow> ncl_err + 'd ncl_message" where
  "single_set g ops path value index =
     (case ncl_set_request_item_new g (Some path) of
        None \<Rightarrow> Inl NCL_ERR_NOMEM
      | Some item \<Rightarrow>
          (case ncl_params_set_string g (qi_params item) (Some ''operation'') (Some ''set_value'') of
             (rc, p1) \<Rightarrow>
               (case (case index of
                        Some i \<Rightarrow> if rc = NCL_OK then ncl_params_set_int g ops p1 (Some ''index'') i else (rc, p1)
                      | None \<Rightarrow> (rc, p1)) of
                  (rc1, p2) \<Rightarrow>
                    (case (if rc1 = NCL_OK then ncl_params_set g p2 (Some ''value'') value else (rc1, p2)) of
                       (rc2, p3) \<Rightarrow>
                         if rc2 \<noteq> NCL_OK then Inl rc2
                         else (case ncl_message_new g NCL_MSG_SET_REQUEST of
                                 None \<Rightarrow> Inl NCL_ERR_NOMEM
                               | Some request \<Rightarrow>
                                   (case ncl_message_add_set_request_item g (item\<lparr>qi_params := p3\<rparr>) request of
                                      (rc3, freed, request1) \<Rightarrow> if rc3 \<noteq> NCL_OK then Inl NCL_ERR_NOMEM else Inr request1))))))"

text \<open>Every item of the answer must be OK. The code of an item is where it is for reads and writes alike.\<close>

definition item_code :: "'d message_item option \<Rightarrow> string option" where
  "item_code x =
     (case x of
        Some (Set_Response_Item i) \<Rightarrow> so_code i
      | Some (Query_Response_Item i) \<Rightarrow> qr_code i
      | _ \<Rightarrow> None)"

definition set_outcome :: "'d ncl_message \<Rightarrow> ncl_err" where
  "set_outcome response =
     (if ncl_message_item_count response = 0 then NCL_ERR_INVALID_MESSAGE
      else if list_all (\<lambda>i. ncl_check_is_code_ok (item_code (ncl_message_item_at response i))) [0..<ncl_message_item_count response]
      then NCL_OK else NCL_ERR_IO)"

definition ncl_client_set_value_internal ::
  "grant \<Rightarrow> 'd double_ops \<Rightarrow> ('d, 'w) message_channel \<Rightarrow> 'd request_args \<Rightarrow> string option \<Rightarrow> 'd json option \<Rightarrow> int option \<Rightarrow> nat \<Rightarrow>
   'd ncl_client \<Rightarrow> 'w \<Rightarrow> ncl_err \<times> 'd ncl_client \<times> 'w" where
  "ncl_client_set_value_internal g ops ch ra path value index timeout_ms c w =
     (case path of
        None \<Rightarrow> (NCL_ERR_INVALID_ARG, c, w)
      | Some p \<Rightarrow>
          (case single_set g ops p value index of
             Inl e \<Rightarrow> (e, c, w)
           | Inr request \<Rightarrow>
               (case ncl_client_set g ch ra request timeout_ms c w of
                  (Inl e, c1, w1) \<Rightarrow> (e, c1, w1)
                | (Inr response, c1, w1) \<Rightarrow> (set_outcome response, c1, w1))))"

definition ncl_client_set_value ::
  "grant \<Rightarrow> 'd double_ops \<Rightarrow> ('d, 'w) message_channel \<Rightarrow> 'd request_args \<Rightarrow> string option \<Rightarrow> 'd json option \<Rightarrow> nat \<Rightarrow>
   'd ncl_client \<Rightarrow> 'w \<Rightarrow> ncl_err \<times> 'd ncl_client \<times> 'w" where
  "ncl_client_set_value g ops ch ra path value = ncl_client_set_value_internal g ops ch ra path value None"

definition ncl_client_set_value_index ::
  "grant \<Rightarrow> 'd double_ops \<Rightarrow> ('d, 'w) message_channel \<Rightarrow> 'd request_args \<Rightarrow> string option \<Rightarrow> 'd json option \<Rightarrow> int \<Rightarrow> nat \<Rightarrow>
   'd ncl_client \<Rightarrow> 'w \<Rightarrow> ncl_err \<times> 'd ncl_client \<times> 'w" where
  "ncl_client_set_value_index g ops ch ra path value index = ncl_client_set_value_internal g ops ch ra path value (Some index)"

section \<open>The channels of the server\<close>

text \<open>An answer of another kind, whose code the source would read at the wrong place, counts as a failure.\<close>

definition ncl_client_server_method ::
  "grant \<Rightarrow> ('d, 'w) message_channel \<Rightarrow> 'd request_args \<Rightarrow> string \<Rightarrow> 'd json option \<Rightarrow> nat \<Rightarrow> 'd ncl_client \<Rightarrow> 'w \<Rightarrow>
   ncl_err \<times> 'd ncl_client \<times> 'w" where
  "ncl_client_server_method g ch ra method params timeout_ms c w =
     (case ncl_message_new g NCL_MSG_METHOD_CALL_REQUEST of
        None \<Rightarrow> (NCL_ERR_NOMEM, c, w)
      | Some blank \<Rightarrow>
          (let r1 = snd (ncl_message_set_check False (snd (ncl_message_set_method g (Some method) blank)));
               request = (if params \<noteq> None then snd (ncl_message_set_params params r1) else r1)
           in case ncl_client_method_call g ch ra request timeout_ms c w of
                (Inl e, c1, w1) \<Rightarrow> (e, c1, w1)
              | (Inr response, c1, w1) \<Rightarrow>
                  (case as_body response of
                     As_Method_Call_Response b \<Rightarrow> if ncl_check_is_code_ok (cs_code b) then NCL_OK else NCL_ERR_IO
                   | _ \<Rightarrow> NCL_ERR_IO, c1, w1)))"

definition ncl_client_add_sample ::
  "grant \<Rightarrow> 'd double_ops \<Rightarrow> ('d, 'w) message_channel \<Rightarrow> 'd request_args \<Rightarrow> 'd json ncl_node option \<Rightarrow> nat \<Rightarrow>
   'd ncl_client \<Rightarrow> 'w \<Rightarrow> ncl_err \<times> 'd ncl_client \<times> 'w" where
  "ncl_client_add_sample g ops ch ra config timeout_ms c w =
     (case config of
        None \<Rightarrow> (NCL_ERR_INVALID_ARG, c, w)
      | Some n \<Rightarrow>
          (case ncl_json_new_object g of
             None \<Rightarrow> (NCL_ERR_NOMEM, c, w)
           | Some params \<Rightarrow>
               ncl_client_server_method g ch ra ''/nclinkServer/addSample''
                 (put_json g ''request'' (ncl_node_to_json g ops n) (Some params)) timeout_ms c w))"

definition ncl_client_remove_sample ::
  "grant \<Rightarrow> ('d, 'w) message_channel \<Rightarrow> 'd request_args \<Rightarrow> string option \<Rightarrow> nat \<Rightarrow> 'd ncl_client \<Rightarrow> 'w \<Rightarrow>
   ncl_err \<times> 'd ncl_client \<times> 'w" where
  "ncl_client_remove_sample g ch ra ref timeout_ms c w =
     (case ref of
        None \<Rightarrow> (NCL_ERR_INVALID_ARG, c, w)
      | Some name \<Rightarrow>
          (case ncl_json_new_object g of
             None \<Rightarrow> (NCL_ERR_NOMEM, c, w)
           | Some params \<Rightarrow>
               ncl_client_server_method g ch ra ''/nclinkServer/removeSample''
                 (put_str g ''id'' (Some name) (Some params)) timeout_ms c w))"

section \<open>The model\<close>

definition ncl_client_set_root_node :: "'d json ncl_node option \<Rightarrow> 'd ncl_client \<Rightarrow> 'd ncl_client" where
  "ncl_client_set_root_node root c = c\<lparr>cl_root := root\<rparr>"

definition ncl_client_get_id :: "grant \<Rightarrow> 'd ncl_client \<Rightarrow> string option \<Rightarrow> string option" where
  "ncl_client_get_id g c path =
     (case (cl_root c, path) of
        (Some root, Some p) \<Rightarrow>
          (case ncl_node_map_get (ncl_root_node_path_map g root ncl_node_map_init) (Some p) of
             None \<Rightarrow> None
           | Some pos \<Rightarrow> (case node_at root pos of None \<Rightarrow> None | Some n \<Rightarrow> ncl_strdup g (nd_id (nf n))))
      | _ \<Rightarrow> None)"

definition ncl_client_get_path :: "grant \<Rightarrow> 'd ncl_client \<Rightarrow> string option \<Rightarrow> string option" where
  "ncl_client_get_path g c ref =
     (case (cl_root c, ref) of
        (Some root, Some i) \<Rightarrow>
          (case ncl_node_map_get (ncl_root_node_id_map g root ncl_node_map_init) (Some i) of
             None \<Rightarrow> None
           | Some pos \<Rightarrow> (case node_at root pos of None \<Rightarrow> None | Some n \<Rightarrow> ncl_strdup g (ncl_node_path (nf n))))
      | _ \<Rightarrow> None)"

definition ncl_client_methods_node :: "'d ncl_client \<Rightarrow> 'd json ncl_node option" where
  "ncl_client_methods_node c =
     (case cl_root c of
        None \<Rightarrow> None
      | Some root \<Rightarrow> (case ncl_node_find_by_type root NCL_METHODS_NODE_TYPE of None \<Rightarrow> None | Some pos \<Rightarrow> node_at root pos))"

definition ncl_client_methods :: "'d ncl_client \<Rightarrow> 'd json option" where
  "ncl_client_methods c = (case ncl_client_methods_node c of None \<Rightarrow> None | Some n \<Rightarrow> nd_value (nf n))"

text \<open>A slash at the front of an address does not count.\<close>

definition without_slash :: "string \<Rightarrow> string" where
  "without_slash t = (case t of [] \<Rightarrow> [] | c # r \<Rightarrow> if c = CHR ''/'' then r else t)"

definition ncl_client_find_method :: "'d ncl_client \<Rightarrow> string option \<Rightarrow> 'd json option" where
  "ncl_client_find_method c address =
     (case (ncl_client_methods c, address) of
        (Some methods, Some a) \<Rightarrow>
          find (\<lambda>entry. case ncl_json_obj_get_string (Some entry) (Some ''address'') of
                          None \<Rightarrow> False
                        | Some candidate \<Rightarrow> without_slash candidate = without_slash a) (items (Some methods))
      | _ \<Rightarrow> None)"

end
