(* ===== verification/Server_Props.thy ===== *)
theory Server_Props
  imports Client_Values Message_Roundtrip Schema_Props
begin

text \<open>
  Where answers go and what a method's address means: the topics of a server's answers against those a
  client listens on, the two readings of an address, and the ping.
\<close>

section \<open>Topics\<close>

text \<open>The kinds of request, with the kind of message and the topic of the answer.\<close>

definition request_kinds :: "(topic_kind \<times> ncl_msg_type \<times> topic_kind) list" where
  "request_kinds =
     [(Query_Request, NCL_MSG_QUERY_REQUEST, Query_Response), (Set_Request, NCL_MSG_SET_REQUEST, Set_Response),
      (Probe_Query_Request, NCL_MSG_PROBE_QUERY_REQUEST, Probe_Query_Response),
      (Probe_Set_Request, NCL_MSG_PROBE_SET_REQUEST, Probe_Set_Response),
      (Method_Call_Request, NCL_MSG_METHOD_CALL_REQUEST, Method_Call_Response),
      (Method_Status_Request, NCL_MSG_METHOD_STATUS_REQUEST, Method_Status_Response),
      (Method_Result_Request, NCL_MSG_METHOD_RESULT_REQUEST, Method_Result_Response),
      (Ping, NCL_MSG_PING, Pong)]"

lemma topic_all: "ncl_topic grant_all kind (Some sn) None = Some (topic_prefix kind @ sn)"
  by (simp add: ncl_topic_def ncl_topic_build_def ncl_asprintf_text_def grant_all Let_def)

lemma response_topic_exact:
  assumes "(kind, t, answer) \<in> set request_kinds" "length (srv_sn srv) \<le> 480"
  shows "ncl_server_response_topic srv (topic_prefix kind @ srv_sn srv) t 512 = topic_prefix answer @ srv_sn srv"
  using assms by (auto simp: request_kinds_def ncl_server_response_topic_def snprintf_text_def NCL_TOPIC_SAMPLE_PREFIX_def)

lemma created_topics:
  assumes "ncl_client_create grant_all True (Some sn) True = Some c"
  shows "response_topics c = map (\<lambda>kind. topic_prefix kind @ sn)
      [Query_Response, Probe_Query_Response, Set_Response, Method_Call_Response, Method_Status_Response, Method_Result_Response, Probe_Set_Response]"
  using assms
  by (auto simp: ncl_client_create_def topic_all ncl_asprintf_text_def ncl_cache_create_def response_topics_def grant_all Let_def)

text \<open>
  C27. Answers reach the client. For every kind of request, the topic on which a server answers a
  request that was sent to its serial number is the response topic of that kind for the same serial
  number, for serial numbers of up to 480 bytes; a client created for that serial number listens on it
  after \<open>ncl_client_subscribe\<close>, except for the answer to a ping, which no client listens for.
\<close>

theorem answers_reach_client:
  assumes "ncl_client_create grant_all True (Some (srv_sn srv)) True = Some c" "length (srv_sn srv) \<le> 480"
  shows "list_all (\<lambda>(kind, t, answer). \<exists>topic. ncl_topic grant_all kind (Some (srv_sn srv)) None = Some topic
      \<and> Some (ncl_server_response_topic srv topic t 512) = ncl_topic grant_all answer (Some (srv_sn srv)) None
      \<and> (ncl_server_response_topic srv topic t 512 \<in> set (response_topics c)) = (kind \<noteq> Ping)) request_kinds"
  unfolding list_all_iff
proof (clarify, simp only: topic_all)
  fix kind t answer
  assume k: "(kind, t, answer) \<in> set request_kinds"
  have r: "ncl_server_response_topic srv (topic_prefix kind @ srv_sn srv) t 512 = topic_prefix answer @ srv_sn srv"
    by (rule response_topic_exact [OF k assms(2)])
  have "(topic_prefix answer @ srv_sn srv \<in> set (response_topics c)) = (kind \<noteq> Ping)"
    using k by (auto simp: request_kinds_def created_topics [OF assms(1)])
  with r show "\<exists>topic. Some (topic_prefix kind @ srv_sn srv) = Some topic
      \<and> Some (ncl_server_response_topic srv topic t 512) = Some (topic_prefix answer @ srv_sn srv)
      \<and> (ncl_server_response_topic srv topic t 512 \<in> set (response_topics c)) = (kind \<noteq> Ping)" by simp
qed

definition plain_server :: "int ncl_server" where
  "plain_server = blank_server \<lparr>so_sn = Some ''CNC1'', so_mqtt = True, so_model_json = None, so_publish = None, so_publish_user = None\<rparr> ''CNC1''"

text \<open>A server with one point, whose host counts its readings.\<close>

definition reading_server :: "int ncl_server" where
  "reading_server = plain_server\<lparr>srv_bindings :=
     [\<lparr>bn_key = ''get_value#/X'', bn_instance = Host_Object 1, bn_fn = Some (Host_Fn 4), bn_method_name = ''readX'', bn_tool_name = Some ''t'',
       bn_params_schema = None, bn_result_schema = None, bn_params_text = None, bn_result_text = None\<rparr>]\<rparr>"

definition counting_env :: "(int, nat) server_env" where
  "counting_env = \<lparr>sx_schema = int_env, sx_mutex = True, sx_cond = True, sx_thread = (\<lambda>t. True),
     sx_call = (\<lambda>f inst params w. if f = 4 then ((NCL_OK, Some (J_String ''on''), None), Suc w) else ((NCL_ERR_IO, None, Some ''no''), w)),
     sx_file = \<lparr>mf_path = None, mf_exists = (\<lambda>w t. False), mf_write = (\<lambda>path t w. (NCL_ERR_IO, w))\<rparr>,
     sx_root_dir = ''/'', sx_sep = CHR ''/'', sx_copy = (\<lambda>a b w. (NCL_ERR_IO, w)), sx_send = (\<lambda>out t p w. (NCL_OK, w))\<rparr>"

lemma answers_reach_client_witness:
  "\<exists>c :: int ncl_client. ncl_client_create grant_all True (Some ''CNC1'') True = Some c
    \<and> ncl_server_response_topic plain_server ''Query/Request/CNC1'' NCL_MSG_QUERY_REQUEST 512 \<in> set (response_topics c)"
proof -
  have "\<exists>c :: int ncl_client. ncl_client_create grant_all True (Some ''CNC1'') True = Some c"
    by (simp add: ncl_client_create_def topic_all ncl_asprintf_text_def ncl_cache_create_def grant_all Let_def)
  then obtain c :: "int ncl_client" where c: "ncl_client_create grant_all True (Some ''CNC1'') True = Some c" by blast
  have sn: "srv_sn plain_server = ''CNC1''" by (simp add: plain_server_def blank_server_def)
  from answers_reach_client [of plain_server c] c sn show ?thesis
    by (auto simp: request_kinds_def topic_all)
qed

section \<open>Addresses\<close>

lemma slashed_address:
  "call_target grant_all (CHR ''/'' # rest) = ncl_server_split_method (CHR ''/'' # rest) \<longleftrightarrow> CHR ''/'' \<in> set rest"
proof (cases "dropWhile (\<lambda>d. d \<noteq> CHR ''/'') rest")
  case Nil
  then show ?thesis
    by (auto simp: call_target_def ncl_server_split_method_def simp del: dropWhile_eq_Nil_conv)
       (auto simp: dropWhile_eq_Nil_conv)
next
  case (Cons d name)
  then show ?thesis
    using set_dropWhileD [of "CHR ''/''" "\<lambda>d. d \<noteq> CHR ''/''" rest] hd_dropWhile [of "\<lambda>d. d \<noteq> CHR ''/''" rest]
    by (auto simp: call_target_def ncl_server_split_method_def)
qed

lemma bare_address:
  assumes "c \<noteq> CHR ''/''"
  shows "call_target grant_all (c # rest) = ncl_server_split_method (c # rest) \<longleftrightarrow> CHR ''/'' \<notin> set (c # rest)"
proof (cases "dropWhile (\<lambda>d. d \<noteq> CHR ''/'') rest")
  case Nil
  then have "CHR ''/'' \<notin> set rest" by (auto simp: dropWhile_eq_Nil_conv)
  with assms Nil show ?thesis
    by (simp add: call_target_def ncl_server_split_method_def del: dropWhile_eq_Nil_conv)
next
  case (Cons d name)
  then show ?thesis
    using assms set_dropWhileD [of "CHR ''/''" "\<lambda>d. d \<noteq> CHR ''/''" rest] hd_dropWhile [of "\<lambda>d. d \<noteq> CHR ''/''" rest]
    by (auto simp: call_target_def ncl_server_split_method_def)
qed

text \<open>
  C36. The two readings of a method's address. The reading that a call uses and the one that the check
  of a call uses agree exactly on the addresses of the form \<open>/tool/method\<close> and on names without any
  slash: for \<open>tool/method\<close> the check looks for a method of that whole name in any tool, and for
  \<open>/method\<close> the call keeps the slash in the name.
\<close>

theorem addresses_agree_iff:
  "call_target grant_all address = ncl_server_split_method address \<longleftrightarrow>
     CHR ''/'' \<notin> set address \<or> (\<exists>tool name. address = CHR ''/'' # tool @ CHR ''/'' # name \<and> CHR ''/'' \<notin> set tool)"
proof (cases address)
  case Nil
  then show ?thesis by (simp add: call_target_def ncl_server_split_method_def)
next
  case (Cons c rest)
  show ?thesis
  proof (cases "c = CHR ''/''")
    case True
    have "CHR ''/'' \<in> set rest \<longleftrightarrow> (\<exists>tool name. rest = tool @ CHR ''/'' # name \<and> CHR ''/'' \<notin> set tool)"
      using split_list_first [of "CHR ''/''" rest] by auto
    then show ?thesis using True Cons slashed_address [of rest] by auto
  next
    case False
    then show ?thesis using Cons bare_address [of c rest] by auto
  qed
qed

lemma addresses_agree_iff_witness:
  "call_target grant_all ''/plc/get'' = ncl_server_split_method ''/plc/get''
    \<and> call_target grant_all ''plc/get'' \<noteq> ncl_server_split_method ''plc/get''"
proof -
  have "''/plc/get'' = CHR ''/'' # ''plc'' @ CHR ''/'' # ''get''" "CHR ''/'' \<notin> set ''plc''" by simp_all
  then have "call_target grant_all ''/plc/get'' = ncl_server_split_method ''/plc/get''"
    using addresses_agree_iff [of "''/plc/get''"] by blast
  moreover have "call_target grant_all ''plc/get'' \<noteq> ncl_server_split_method ''plc/get''"
    using addresses_agree_iff [of "''plc/get''"] by simp
  ultimately show ?thesis by blast
qed

section \<open>Ping\<close>

text \<open>
  C37. A ping is never sent: whatever the memory, the channel, the clock and the client, a ping fails and
  leaves client and channel as they were. A new ping has no id yet, a ping without an id is not
  valid, and only a valid message is given an id.
\<close>

theorem ping_never_sent: "\<exists>e. e \<noteq> NCL_OK \<and> ncl_client_ping g ch ra timeout_ms c w = (Inl e, c, w)"
  by (auto simp: ncl_client_ping_def send_finalised_def ncl_message_new_def ncl_message_finalise_def ncl_message_is_valid_def
      ncl_str_is_blank_def split: option.split)

end
