(* ===== verification/Server_Query.thy ===== *)
theory Server_Query
  imports Server_Props
begin

text \<open>
  What a server answers to requests that read or write points: one answer per item, in order, each the
  outcome of the method that is bound to the operation on the point, called in that order.
\<close>

section \<open>The specification\<close>

text \<open>
  The outcome of one item on the server and host as they are then: the code, the reason, the value, and
  server and host afterwards. \<open>operation\<close> is the one the item asks for, or the one of its kind.
\<close>

inductive point_outcome ::
  "('d, 'w) server_env \<Rightarrow> string option \<Rightarrow> 'd request_item \<Rightarrow> 'd ncl_server \<Rightarrow> 'w \<Rightarrow>
   string \<Rightarrow> string option \<Rightarrow> 'd json option \<Rightarrow> 'd ncl_server \<Rightarrow> 'w \<Rightarrow> bool" for env operation item srv w where
  unbound: "item_binding grant_all srv operation item = None \<Longrightarrow>
     point_outcome env operation item srv w ''NG'' (Some UNBOUND) None srv w"
| with_value: "\<lbrakk>item_binding grant_all srv operation item = Some b;
     ncl_server_call_binding grant_all env (Some b) (qi_params item) srv w = ((NCL_OK, Some v, reason), srv1, w1)\<rbrakk> \<Longrightarrow>
     point_outcome env operation item srv w ''OK'' None (Some v) srv1 w1"
| no_value: "\<lbrakk>item_binding grant_all srv operation item = Some b;
     ncl_server_call_binding grant_all env (Some b) (qi_params item) srv w = ((NCL_OK, None, reason), srv1, w1)\<rbrakk> \<Longrightarrow>
     point_outcome env operation item srv w ''NG'' reason None srv1 w1"
| failure: "\<lbrakk>item_binding grant_all srv operation item = Some b; rc \<noteq> NCL_OK;
     ncl_server_call_binding grant_all env (Some b) (qi_params item) srv w = ((rc, value, reason), srv1, w1)\<rbrakk> \<Longrightarrow>
     point_outcome env operation item srv w ''NG'' (Some (case reason of None \<Rightarrow> ncl_err_name rc | Some t \<Rightarrow> t)) None srv1 w1"

text \<open>The answers to the items that are there, one after the other.\<close>

inductive reads_points ::
  "('d, 'w) server_env \<Rightarrow> 'd ncl_server \<Rightarrow> 'w \<Rightarrow> 'd request_item option list \<Rightarrow> 'd query_response_item list \<Rightarrow> 'd ncl_server \<Rightarrow> 'w \<Rightarrow> bool"
  for env where
  finished: "reads_points env srv w [] [] srv w"
| absent: "reads_points env srv w xs rs srv1 w1 \<Longrightarrow> reads_points env srv w (None # xs) rs srv1 w1"
| item: "\<lbrakk>point_outcome env (ncl_query_request_item_operation item) item srv w code reason value srv1 w1;
     r = \<lparr>qr_id = qi_id item, qr_code = Some code, qr_reason = reason, qr_params = copied (sx_ops env) (qi_params item),
          qr_values = Some (J_Array (case value of None \<Rightarrow> [] | Some v \<Rightarrow> [v]) c)\<rparr>;
     reads_points env srv1 w1 xs rs srv2 w2\<rbrakk> \<Longrightarrow> reads_points env srv w (Some item # xs) (r # rs) srv2 w2"

inductive writes_points ::
  "('d, 'w) server_env \<Rightarrow> 'd ncl_server \<Rightarrow> 'w \<Rightarrow> 'd request_item option list \<Rightarrow> 'd set_response_item list \<Rightarrow> 'd ncl_server \<Rightarrow> 'w \<Rightarrow> bool"
  for env where
  finished: "writes_points env srv w [] [] srv w"
| absent: "writes_points env srv w xs rs srv1 w1 \<Longrightarrow> writes_points env srv w (None # xs) rs srv1 w1"
| item: "\<lbrakk>point_outcome env (ncl_set_request_item_operation item) item srv w code reason value srv1 w1;
     r = \<lparr>so_id = qi_id item, so_code = Some code, so_reason = reason, so_params = copied (sx_ops env) (qi_params item),
          so_result = value\<rparr>;
     writes_points env srv1 w1 xs rs srv2 w2\<rbrakk> \<Longrightarrow> writes_points env srv w (Some item # xs) (r # rs) srv2 w2"

inductive_cases reads_item: "reads_points env srv w (Some item # xs) rs srv1 w1"
inductive_cases reads_done: "reads_points env srv w [] rs srv1 w1"

section \<open>One item\<close>

lemma new_query_item:
  "ncl_query_response_item_new grant_all name = Some \<lparr>qr_id = name, qr_code = None, qr_reason = None, qr_params = None, qr_values = Some (J_Array [] 0)\<rparr>"
  by (cases name) (simp_all add: ncl_query_response_item_new_def grant_all new_arr)

lemma new_set_item:
  "ncl_set_response_item_new grant_all name = Some \<lparr>so_id = name, so_code = None, so_reason = None, so_params = None, so_result = None\<rparr>"
  by (cases name) (simp_all add: ncl_set_response_item_new_def grant_all)

lemma echo_copied: "echoed_params grant_all ops item = copied ops (qi_params item)"
  by (simp add: echoed_params_def copied_def)

lemma add_value_all:
  "\<exists>c. ncl_query_response_item_add_value grant_all (r\<lparr>qr_values := Some (J_Array [] 0)\<rparr>) (Some v) =
     (NCL_OK, r\<lparr>qr_values := Some (J_Array [v] c)\<rparr>)"
proof -
  obtain c where "ncl_json_arr_push grant_all (Some (J_Array [] 0)) (Some v) = (NCL_OK, Some (J_Array ([] @ [v]) c))"
    using push_all by blast
  then show ?thesis by (intro exI [of _ c]) (simp add: ncl_query_response_item_add_value_def add_to_def)
qed

lemma outcome_cases:
  assumes "item_binding grant_all srv operation item = Some b"
    and "ncl_server_call_binding grant_all env (Some b) (qi_params item) srv w = ((rc, value, reason), srv1, w1)"
  shows "rc = NCL_OK \<and> value \<noteq> None \<Longrightarrow> point_outcome env operation item srv w ''OK'' None value srv1 w1"
    and "\<not> (rc = NCL_OK \<and> value \<noteq> None) \<Longrightarrow>
      point_outcome env operation item srv w ''NG'' (failure_reason grant_all rc reason None) None srv1 w1"
proof -
  show "rc = NCL_OK \<and> value \<noteq> None \<Longrightarrow> point_outcome env operation item srv w ''OK'' None value srv1 w1"
    using assms point_outcome.with_value by fastforce
  assume none: "\<not> (rc = NCL_OK \<and> value \<noteq> None)"
  show "point_outcome env operation item srv w ''NG'' (failure_reason grant_all rc reason None) None srv1 w1"
  proof (cases "rc = NCL_OK")
    case True
    have "failure_reason grant_all rc reason None = reason" using True by (simp add: failure_reason_def)
    then show ?thesis
      using point_outcome.no_value [OF assms(1), of env w reason srv1 w1] assms(2) none True by auto
  next
    case False
    have "failure_reason grant_all rc reason None = Some (case reason of None \<Rightarrow> ncl_err_name rc | Some t \<Rightarrow> t)"
      using False by (cases reason) (simp_all add: failure_reason_def)
    with point_outcome.failure [OF assms(1) False assms(2)] show ?thesis by simp
  qed
qed

lemma answer_query_item_exact:
  assumes "answer_query_item grant_all env item \<lparr>qr_id = qi_id item, qr_code = None, qr_reason = None, qr_params = None,
      qr_values = Some (J_Array [] 0)\<rparr> srv w = (r, srv1, w1)"
  shows "\<exists>code reason value c. point_outcome env (ncl_query_request_item_operation item) item srv w code reason value srv1 w1
    \<and> r = \<lparr>qr_id = qi_id item, qr_code = Some code, qr_reason = reason, qr_params = copied (sx_ops env) (qi_params item),
          qr_values = Some (J_Array (case value of None \<Rightarrow> [] | Some v \<Rightarrow> [v]) c)\<rparr>"
proof (cases "item_binding grant_all srv (ncl_query_request_item_operation item) item")
  case None
  with assms point_outcome.unbound [OF None, of env w] show ?thesis
    by (fastforce simp: answer_query_item_def echo_copied NCL_KW_CODE_NG_def Let_def)
next
  case (Some b)
  obtain rc val reason s2 w2 where call: "ncl_server_call_binding grant_all env (Some b) (qi_params item) srv w = ((rc, val, reason), s2, w2)"
    by (cases "ncl_server_call_binding grant_all env (Some b) (qi_params item) srv w") auto
  show ?thesis
  proof (cases "rc = NCL_OK \<and> val \<noteq> None")
    case True
    then obtain v where v: "val = Some v" by blast
    let ?r = "\<lparr>qr_id = qi_id item, qr_code = Some ''OK'', qr_reason = None, qr_params = copied (sx_ops env) (qi_params item), qr_values = Some (J_Array [] 0)\<rparr>"
    obtain c where "ncl_query_response_item_add_value grant_all (?r\<lparr>qr_values := Some (J_Array [] 0)\<rparr>) (Some v) =
        (NCL_OK, ?r\<lparr>qr_values := Some (J_Array [v] c)\<rparr>)" using add_value_all [of ?r v] by blast
    with assms call True v have "r = ?r\<lparr>qr_values := Some (J_Array [v] c)\<rparr>" "srv1 = s2" "w1 = w2"
      by (simp_all add: answer_query_item_def Some echo_copied NCL_KW_CODE_OK_def Let_def)
    with outcome_cases(1) [OF Some call True] v show ?thesis by fastforce
  next
    case False
    with assms call have r: "r = \<lparr>qr_id = qi_id item, qr_code = Some ''NG'', qr_reason = failure_reason grant_all rc reason None,
        qr_params = copied (sx_ops env) (qi_params item), qr_values = Some (J_Array [] 0)\<rparr>" "srv1 = s2" "w1 = w2"
      by (auto simp: answer_query_item_def Some echo_copied NCL_KW_CODE_NG_def Let_def)
    with outcome_cases(2) [OF Some call False] show ?thesis
      by (intro exI [of _ "''NG''"] exI [of _ "failure_reason grant_all rc reason None"] exI [of _ None] exI [of _ 0]) simp
  qed
qed

lemma answer_set_item_exact:
  assumes "answer_set_item grant_all env item \<lparr>so_id = qi_id item, so_code = None, so_reason = None, so_params = None, so_result = None\<rparr> srv w = (r, srv1, w1)"
  shows "\<exists>code reason value. point_outcome env (ncl_set_request_item_operation item) item srv w code reason value srv1 w1
    \<and> r = \<lparr>so_id = qi_id item, so_code = Some code, so_reason = reason, so_params = copied (sx_ops env) (qi_params item), so_result = value\<rparr>"
proof (cases "item_binding grant_all srv (ncl_set_request_item_operation item) item")
  case None
  with assms point_outcome.unbound [OF None, of env w] show ?thesis
    by (fastforce simp: answer_set_item_def echo_copied NCL_KW_CODE_NG_def Let_def)
next
  case (Some b)
  obtain rc val reason s2 w2 where call: "ncl_server_call_binding grant_all env (Some b) (qi_params item) srv w = ((rc, val, reason), s2, w2)"
    by (cases "ncl_server_call_binding grant_all env (Some b) (qi_params item) srv w") auto
  show ?thesis
  proof (cases "rc = NCL_OK \<and> val \<noteq> None")
    case True
    with assms call outcome_cases(1) [OF Some call True] show ?thesis
      by (fastforce simp: answer_set_item_def Some echo_copied NCL_KW_CODE_OK_def Let_def)
  next
    case False
    with assms call have "r = \<lparr>so_id = qi_id item, so_code = Some ''NG'', so_reason = failure_reason grant_all rc reason None,
        so_params = copied (sx_ops env) (qi_params item), so_result = None\<rparr>" "srv1 = s2" "w1 = w2"
      by (auto simp: answer_set_item_def Some echo_copied NCL_KW_CODE_NG_def Let_def)
    with outcome_cases(2) [OF Some call False] show ?thesis by blast
  qed
qed

section \<open>All items\<close>

lemma query_loop_exact:
  "as_body response = As_Query_Response v \<Longrightarrow>
   \<exists>rs c srv1 w1. query_loop grant_all env xs response srv w =
       (response\<lparr>as_body := As_Query_Response \<lparr>pv_items = pv_items v @ map Some rs, pv_cap = c, pv_free = pv_free v\<rparr>\<rparr>, srv1, w1)
     \<and> reads_points env srv w xs rs srv1 w1"
proof (induction xs arbitrary: response v srv w)
  case Nil
  then show ?case
    by (cases response, cases v) (fastforce intro: reads_points.finished)
next
  case (Cons x xs)
  show ?case
  proof (cases x)
    case None
    with Cons.IH [OF Cons.prems, of srv w] show ?thesis by (fastforce intro: reads_points.absent)
  next
    case (Some item)
    obtain r s2 w2 where answer: "answer_query_item grant_all env item \<lparr>qr_id = qi_id item, qr_code = None, qr_reason = None, qr_params = None,
      qr_values = Some (J_Array [] 0)\<rparr> srv w = (r, s2, w2)" by (metis prod_cases3)
    obtain c where c: "ncl_ptrvec_push_owned grant_all v (Some r) = (NCL_OK, [], \<lparr>pv_items = pv_items v @ [Some r], pv_cap = c, pv_free = pv_free v\<rparr>)"
      using push_owned_all by blast
    let ?next = "response\<lparr>as_body := As_Query_Response \<lparr>pv_items = pv_items v @ [Some r], pv_cap = c, pv_free = pv_free v\<rparr>\<rparr>"
    from Cons.IH [of ?next "\<lparr>pv_items = pv_items v @ [Some r], pv_cap = c, pv_free = pv_free v\<rparr>" s2 w2]
    obtain rs c2 srv1 w1 where rest: "query_loop grant_all env xs ?next s2 w2 =
       (?next\<lparr>as_body := As_Query_Response \<lparr>pv_items = (pv_items v @ [Some r]) @ map Some rs, pv_cap = c2, pv_free = pv_free v\<rparr>\<rparr>, srv1, w1)"
      "reads_points env s2 w2 xs rs srv1 w1" by auto
    have "reads_points env srv w (x # xs) (r # rs) srv1 w1"
      unfolding Some using answer_query_item_exact [OF answer] rest(2) by (auto intro: reads_points.item)
    with rest(1) c answer Cons.prems Some show ?thesis
      by (intro exI [of _ "r # rs"] exI [of _ c2] exI [of _ srv1] exI [of _ w1]) (simp add: new_query_item ncl_message_add_query_response_item_def)
  qed
qed

lemma set_loop_exact:
  "as_body response = As_Set_Response v \<Longrightarrow>
   \<exists>rs c srv1 w1. set_loop grant_all env xs response srv w =
       (response\<lparr>as_body := As_Set_Response \<lparr>pv_items = pv_items v @ map Some rs, pv_cap = c, pv_free = pv_free v\<rparr>\<rparr>, srv1, w1)
     \<and> writes_points env srv w xs rs srv1 w1"
proof (induction xs arbitrary: response v srv w)
  case Nil
  then show ?case
    by (cases response, cases v) (fastforce intro: writes_points.finished)
next
  case (Cons x xs)
  show ?case
  proof (cases x)
    case None
    with Cons.IH [OF Cons.prems, of srv w] show ?thesis by (fastforce intro: writes_points.absent)
  next
    case (Some item)
    obtain r s2 w2 where answer: "answer_set_item grant_all env item \<lparr>so_id = qi_id item, so_code = None, so_reason = None, so_params = None,
      so_result = None\<rparr> srv w = (r, s2, w2)" by (metis prod_cases3)
    obtain c where c: "ncl_ptrvec_push_owned grant_all v (Some r) = (NCL_OK, [], \<lparr>pv_items = pv_items v @ [Some r], pv_cap = c, pv_free = pv_free v\<rparr>)"
      using push_owned_all by blast
    let ?next = "response\<lparr>as_body := As_Set_Response \<lparr>pv_items = pv_items v @ [Some r], pv_cap = c, pv_free = pv_free v\<rparr>\<rparr>"
    from Cons.IH [of ?next "\<lparr>pv_items = pv_items v @ [Some r], pv_cap = c, pv_free = pv_free v\<rparr>" s2 w2]
    obtain rs c2 srv1 w1 where rest: "set_loop grant_all env xs ?next s2 w2 =
       (?next\<lparr>as_body := As_Set_Response \<lparr>pv_items = (pv_items v @ [Some r]) @ map Some rs, pv_cap = c2, pv_free = pv_free v\<rparr>\<rparr>, srv1, w1)"
      "writes_points env s2 w2 xs rs srv1 w1" by auto
    have "writes_points env srv w (x # xs) (r # rs) srv1 w1"
      unfolding Some using answer_set_item_exact [OF answer] rest(2) by (auto intro: writes_points.item)
    with rest(1) c answer Cons.prems Some show ?thesis
      by (intro exI [of _ "r # rs"] exI [of _ c2] exI [of _ srv1] exI [of _ w1]) (simp add: new_set_item ncl_message_add_set_response_item_def)
  qed
qed

lemma set_id_all: "ncl_message_set_message_id grant_all name msg = (NCL_OK, msg\<lparr>message_id := name\<rparr>)"
  by (cases name) (simp_all add: ncl_message_set_message_id_def)

lemma invoke_query_exact:
  "\<exists>v rs srv1 w1. ncl_server_invoke_query grant_all env request srv w =
      (Some \<lparr>message_id = message_id request, as_body = As_Query_Response v\<rparr>, srv1, w1)
    \<and> pv_items v = map Some rs \<and> pv_free v \<and> reads_points env srv w (request_items request) rs srv1 w1"
proof -
  obtain rs c srv1 w1 where "query_loop grant_all env (request_items request)
      \<lparr>message_id = message_id request, as_body = As_Query_Response (ncl_ptrvec_init True)\<rparr> srv w =
      (\<lparr>message_id = message_id request, as_body = As_Query_Response \<lparr>pv_items = map Some rs, pv_cap = c, pv_free = True\<rparr>\<rparr>, srv1, w1)"
      "reads_points env srv w (request_items request) rs srv1 w1"
    using query_loop_exact [of "\<lparr>message_id = message_id request, as_body = As_Query_Response (ncl_ptrvec_init True)\<rparr>" "ncl_ptrvec_init True"
        env "request_items request" srv w] by (auto simp: ncl_ptrvec_init_def)
  then show ?thesis
    by (auto simp: ncl_server_invoke_query_def new_message set_id_all)
qed

lemma invoke_set_exact:
  "\<exists>v rs srv1 w1. ncl_server_invoke_set grant_all env request srv w =
      (Some \<lparr>message_id = message_id request, as_body = As_Set_Response v\<rparr>, srv1, w1)
    \<and> pv_items v = map Some rs \<and> pv_free v \<and> writes_points env srv w (request_items request) rs srv1 w1"
proof -
  obtain rs c srv1 w1 where "set_loop grant_all env (request_items request)
      \<lparr>message_id = message_id request, as_body = As_Set_Response (ncl_ptrvec_init True)\<rparr> srv w =
      (\<lparr>message_id = message_id request, as_body = As_Set_Response \<lparr>pv_items = map Some rs, pv_cap = c, pv_free = True\<rparr>\<rparr>, srv1, w1)"
      "writes_points env srv w (request_items request) rs srv1 w1"
    using set_loop_exact [of "\<lparr>message_id = message_id request, as_body = As_Set_Response (ncl_ptrvec_init True)\<rparr>" "ncl_ptrvec_init True"
        env "request_items request" srv w] by (auto simp: ncl_ptrvec_init_def)
  then show ?thesis
    by (auto simp: ncl_server_invoke_set_def new_message set_id_all)
qed

section \<open>The request\<close>

text \<open>
  C10. Points. The answer to a query, and to a set, has the id of the request and one item per item of
  the request, in their order: each has the item's id, a copy of its parameters, and the outcome of
  the method that is bound to the operation on the point, on server and host as the items before left
  them. A point that nothing is bound to is answered in its place, with the code NG.
\<close>

theorem points_answered:
  "(\<forall>q. as_body request = As_Query_Request q \<longrightarrow> (\<exists>v rs srv1 w1. ncl_server_dispatch grant_all env aa request srv w =
      (Some \<lparr>message_id = message_id request, as_body = As_Query_Response v\<rparr>, None, [], srv1, w1)
      \<and> pv_items v = map Some rs \<and> reads_points env srv w (pv_items q) rs srv1 w1))
   \<and> (\<forall>q. as_body request = As_Set_Request q \<longrightarrow> (\<exists>v rs srv1 w1. ncl_server_dispatch grant_all env aa request srv w =
      (Some \<lparr>message_id = message_id request, as_body = As_Set_Response v\<rparr>, None, [], srv1, w1)
      \<and> pv_items v = map Some rs \<and> writes_points env srv w (pv_items q) rs srv1 w1))"
  using invoke_query_exact [of env request srv w] invoke_set_exact [of env request srv w]
  by (auto simp: ncl_server_dispatch_def request_items_def)

lemma unbound_plain: "item_binding grant_all plain_server operation item = None"
  by (simp add: item_binding_def ncl_server_lookup_def ncl_server_find_binding_def plain_server_def blank_server_def split: option.split)

lemma points_answered_witness:
  "\<exists>v. ncl_server_dispatch grant_all counting_env \<lparr>aa_address = 0, aa_random = None, aa_now = 0, aa_pool = False\<rparr>
      \<lparr>message_id = Some ''7'', as_body = As_Query_Request \<lparr>pv_items = [Some \<lparr>qi_id = Some ''/X'', qi_params = None\<rparr>], pv_cap = 8, pv_free = True\<rparr>\<rparr>
      plain_server 5 = (Some \<lparr>message_id = Some ''7'', as_body = As_Query_Response v\<rparr>, None, [], plain_server, 5)
    \<and> map (map_option qr_code) (pv_items v) = [Some (Some ''NG'')]"
proof -
  let ?m = "\<lparr>message_id = Some ''7'', as_body = As_Query_Request \<lparr>pv_items = [Some \<lparr>qi_id = Some ''/X'', qi_params = None\<rparr>], pv_cap = 8, pv_free = True\<rparr>\<rparr>"
  let ?aa = "\<lparr>aa_address = 0, aa_random = None, aa_now = 0, aa_pool = False\<rparr>"
  from points_answered [of ?m counting_env ?aa plain_server 5] obtain v rs srv1 w1 where
    v: "ncl_server_dispatch grant_all counting_env ?aa ?m plain_server 5 =
        (Some \<lparr>message_id = Some ''7'', as_body = As_Query_Response v\<rparr>, None, [], srv1, w1)" "pv_items v = map Some rs"
      "reads_points counting_env plain_server 5 [Some \<lparr>qi_id = Some ''/X'', qi_params = None\<rparr>] rs srv1 w1" by auto
  from v(3) have "map qr_code rs = [Some ''NG''] \<and> srv1 = plain_server \<and> w1 = 5"
    by (auto elim!: reads_item reads_done point_outcome.cases simp: unbound_plain)
  with v show ?thesis by (cases rs) auto
qed

end
