(* ===== verification/Client_Props.thy ===== *)
theory Client_Props
  imports Server_Query Ttl_Cache_Props Message_Ops
begin

text \<open>
  Client and server together: a request waits until its answer is in the cache and takes it; the value
  that a client reads of a point is the one that the server's host gives.
\<close>

section \<open>The cache of answers\<close>

definition keeps_answers :: "'d ncl_client \<Rightarrow> bool" where
  "keeps_answers c \<longleftrightarrow> cache_inv (cl_message_map c) \<and> tc_ttl_ms (cl_message_map c) = NCL_CLIENT_RESPONSE_TTL_MS
     \<and> \<not> tc_expire_after_access (cl_message_map c)"

abbreviation answers :: "'d ncl_client \<Rightarrow> (string, 'd ncl_message option \<times> int) map" where
  "answers c \<equiv> cache_map (cl_message_map c)"

lemma created_keeps:
  "ncl_client_create grant_all True (Some sn) True = Some c \<Longrightarrow> keeps_answers c \<and> cl_sn c = sn \<and> answers c = Map.empty"
  by (auto simp: ncl_client_create_def topic_all ncl_asprintf_text_def ncl_cache_create_def grant_all Let_def keeps_answers_def cache_inv_def
      entries_ok_def cache_map_def)

lemma look_up_exact:
  assumes "keeps_answers c"
  shows "\<exists>c1. look_up_response now key c = (case spec_live now (answers c) key of None \<Rightarrow> None | Some v \<Rightarrow> v, c1)
    \<and> keeps_answers c1 \<and> answers c1 = (if spec_live now (answers c) key = None then (answers c)(key := None) else answers c)
    \<and> cl_sn c1 = cl_sn c"
proof -
  have inv: "cache_inv (cl_message_map c)" and no: "\<not> tc_expire_after_access (cl_message_map c)"
    using assms by (simp_all add: keeps_answers_def)
  from get_refines [OF inv, of now key] obtain v fr k where
    "ncl_cache_get now (cl_message_map c) (Some key) = Some (v, fr, k)" "cache_inv k"
    "(Cache_Value v, cache_map k) = spec_step (tc_ttl_ms (cl_message_map c)) (tc_expire_after_access (cl_message_map c)) now (Cache_Get key) (answers c)"
    "tc_ttl_ms k = tc_ttl_ms (cl_message_map c)" "tc_expire_after_access k = tc_expire_after_access (cl_message_map c)" by blast
  with assms show ?thesis
    by (intro exI [of _ "c\<lparr>cl_message_map := k\<rparr>"])
      (auto simp: look_up_response_def keeps_answers_def split: option.splits)
qed

lemma take_exact:
  assumes "keeps_answers c"
  shows "\<exists>c1. ncl_client_take_response now key c = (case spec_live now (answers c) key of None \<Rightarrow> None | Some v \<Rightarrow> v, c1)
    \<and> keeps_answers c1 \<and> answers c1 = (answers c)(key := None) \<and> cl_sn c1 = cl_sn c"
proof -
  have inv: "cache_inv (cl_message_map c)" using assms by (simp add: keeps_answers_def)
  from take_refines [OF inv, of now key] obtain v fr k where
    "ncl_cache_take now (cl_message_map c) (Some key) = Some (v, fr, k)" "cache_inv k"
    "(Cache_Value v, cache_map k) = spec_step (tc_ttl_ms (cl_message_map c)) (tc_expire_after_access (cl_message_map c)) now (Cache_Take key) (answers c)"
    "tc_ttl_ms k = tc_ttl_ms (cl_message_map c)" "tc_expire_after_access k = tc_expire_after_access (cl_message_map c)" by blast
  with assms show ?thesis
    by (intro exI [of _ "c\<lparr>cl_message_map := k\<rparr>"])
      (auto simp: ncl_client_take_response_def keeps_answers_def)
qed

lemma arrival_exact:
  assumes "keeps_answers c" "response_key topic m = Some key" "\<not> topic_starts topic ''Event/''" "\<not> topic_starts topic ''Sample/''"
  shows "\<exists>c1. ncl_client_on_message grant_all now topic m c = (None, c1) \<and> keeps_answers c1
    \<and> answers c1 = (answers c)(key \<mapsto> (Some m, now + int NCL_CLIENT_RESPONSE_TTL_MS)) \<and> cl_sn c1 = cl_sn c"
proof -
  have inv: "cache_inv (cl_message_map c)" using assms by (simp add: keeps_answers_def)
  from put_refines [OF inv, of now key "Some m"] obtain fr k where
    "ncl_cache_put grant_all now (cl_message_map c) (Some key) (Some m) = Some (NCL_OK, fr, k)" "cache_inv k"
    "cache_map k = (answers c)(key \<mapsto> (Some m, spec_deadline (tc_ttl_ms (cl_message_map c)) now))"
    "tc_ttl_ms k = tc_ttl_ms (cl_message_map c)" "tc_expire_after_access k = tc_expire_after_access (cl_message_map c)" by blast
  with assms show ?thesis
    by (intro exI [of _ "c\<lparr>cl_message_map := k\<rparr>"])
      (auto simp: ncl_client_on_message_def keeps_answers_def spec_deadline_def NCL_CLIENT_RESPONSE_TTL_MS_def)
qed

lemma answer_taken:
  assumes "keeps_answers c" "answers c key = None" "response_key topic m = Some key" "\<not> topic_starts topic ''Event/''"
    "\<not> topic_starts topic ''Sample/''" "now < deadline" "later < t + int NCL_CLIENT_RESPONSE_TTL_MS"
  shows "\<exists>c1 c2. wait_loop grant_all deadline key now ((t, topic, m) # rest) c = (True, rest, c1)
    \<and> ncl_client_take_response later key c1 = (Some m, c2) \<and> keeps_answers c2 \<and> answers c2 = answers c \<and> cl_sn c2 = cl_sn c"
proof -
  have none: "(answers c)(key := None) = answers c" using assms(2) by auto
  from look_up_exact [OF assms(1), of now key] obtain c1 where c1: "look_up_response now key c = (None, c1)" "keeps_answers c1"
    "answers c1 = answers c" "cl_sn c1 = cl_sn c" using assms(2) none by (auto simp: spec_live_def)
  from arrival_exact [OF c1(2) assms(3-5), of t] obtain c2 where c2: "ncl_client_on_message grant_all t topic m c1 = (None, c2)"
    "keeps_answers c2" "answers c2 = (answers c)(key \<mapsto> (Some m, t + int NCL_CLIENT_RESPONSE_TTL_MS))" "cl_sn c2 = cl_sn c"
    using c1 by auto
  from look_up_exact [OF c2(2), of t key] obtain c3 where c3: "look_up_response t key c2 = (Some m, c3)" "keeps_answers c3"
    "answers c3 = answers c2" "cl_sn c3 = cl_sn c" using c2 by (auto simp: spec_live_def NCL_CLIENT_RESPONSE_TTL_MS_def)
  from take_exact [OF c3(2), of later key] obtain c4 where c4: "ncl_client_take_response later key c3 = (Some m, c4)" "keeps_answers c4"
    "answers c4 = answers c" "cl_sn c4 = cl_sn c"
    using c3 c2 assms(7) none by (auto simp: spec_live_def)
  have "wait_loop grant_all deadline key t rest c2 = (True, rest, c3)"
    using c3(1) by (cases rest) auto
  with c1(1) c2(1) c4 assms(6) show ?thesis by simp
qed

section \<open>One request\<close>

text \<open>A channel that keeps what is published on it.\<close>

definition recording :: "('d, (string \<times> 'd ncl_message) list) message_channel" where
  "recording = \<lparr>mc_publish = Some (\<lambda>topic m qos w. (NCL_OK, w @ [(topic, m)])), mc_subscribe = None, mc_unsubscribe = None\<rparr>"

lemma uuid_short: "length (uuid_format i raw) \<le> 3 * length raw"
  by (induction i raw rule: uuid_format.induct) auto

lemma uuid_digit_solid: "\<not> ncl_isspace_ascii (uuid_hex ! unat (w AND 0x0F :: u8))"
proof -
  have "unat (w AND 0x0F) \<le> 15" using word_and_le1 [of w 15] by (simp add: word_le_nat_alt)
  then have "uuid_hex ! unat (w AND 0x0F) \<in> set uuid_hex" by (intro nth_mem) (simp add: uuid_hex_def)
  moreover have "list_all (\<lambda>c. \<not> ncl_isspace_ascii c) uuid_hex" by (simp add: uuid_hex_def ncl_isspace_ascii_def)
  ultimately show ?thesis by (auto simp: list_all_iff)
qed

lemma uuid_usable:
  assumes "length raw = 16" "ncl_uuid4 (Some raw) 37 = Inr uuid"
  shows "\<not> ncl_str_is_blank (Some uuid)" "snprintf_text 512 uuid = uuid"
proof -
  have "\<exists>bytes. uuid = uuid_format 0 bytes \<and> length bytes = 16"
    using assms by (auto simp: ncl_uuid4_def Let_def)
  then obtain r rs where u: "uuid = uuid_format 0 (r # rs)" "length (r # rs) = 16"
    by (metis length_0_conv neq_Nil_conv zero_neq_numeral)
  then show "\<not> ncl_str_is_blank (Some uuid)" using uuid_digit_solid by (simp add: ncl_str_is_blank_def)
  show "snprintf_text 512 uuid = uuid" using uuid_short [of 0 "r # rs"] u by (simp add: snprintf_text_def)
qed

text \<open>A request without an id is given one, is published once, and takes the answer that has this id.\<close>

lemma request_answered:
  assumes "keeps_answers c" "message_id request = None" "ncl_message_is_valid request" "\<nexists>b. as_body request = As_Event b"
    "ra_random ra = Some raw" "length raw = 16" "ncl_uuid4 (Some raw) 37 = Inr uuid" "answers c uuid = None"
    "message_id answer = Some uuid" "text_place ''Probe'' topic 0 = None"
    "\<not> topic_starts (Some topic) ''Event/''" "\<not> topic_starts (Some topic) ''Sample/''"
    "0 < timeout_ms" "ra_arrivals ra = [(t, Some topic, answer)]" "ra_end ra < t + int NCL_CLIENT_RESPONSE_TTL_MS"
    "ncl_message_is_valid (request\<lparr>message_id := Some uuid\<rparr>)"
  shows "\<exists>c1. send_finalised grant_all recording ra kind None request timeout_ms c w =
     (Inr answer, c1, w @ [(topic_prefix kind @ cl_sn c, request\<lparr>message_id := Some uuid\<rparr>)])
   \<and> keeps_answers c1 \<and> answers c1 = answers c \<and> cl_sn c1 = cl_sn c"
proof -
  note usable = uuid_usable [OF assms(6,7)]
  have stamp: "ncl_message_finalise grant_all now random m = (NCL_OK, if ncl_str_is_blank (message_id m) then m\<lparr>message_id := Some uuid\<rparr> else m)"
    if "ncl_message_is_valid m" "\<nexists>b. as_body m = As_Event b" "random = Some raw" for now random and m :: "'a ncl_message"
    using that assms(7)
    by (cases "as_body m") (simp_all add: ncl_message_finalise_def set_id_all)
  have key: "response_key (Some topic) answer = Some uuid"
    using assms(9,10) usable(2) by (simp add: response_key_def)
  from answer_taken [OF assms(1,8) key assms(11,12), of "ra_now ra" "ra_now ra + int timeout_ms" "ra_end ra" t "[]"] assms(13,15)
  obtain c1 c2 where c: "wait_loop grant_all (ra_now ra + int timeout_ms) uuid (ra_now ra) [(t, Some topic, answer)] c = (True, [], c1)"
    "ncl_client_take_response (ra_end ra) uuid c1 = (Some answer, c2)" "keeps_answers c2" "answers c2 = answers c" "cl_sn c2 = cl_sn c"
    by auto
  have first: "ncl_message_finalise grant_all (ra_now ra) (Some raw) request = (NCL_OK, request\<lparr>message_id := Some uuid\<rparr>)"
    using stamp [OF assms(3,4), of "Some raw"] assms(2) by (simp add: ncl_str_is_blank_def)
  have again: "ncl_message_finalise grant_all (ra_now ra) (Some raw) (request\<lparr>message_id := Some uuid\<rparr>) = (NCL_OK, request\<lparr>message_id := Some uuid\<rparr>)"
    using stamp [OF assms(16), of "Some raw"] assms(4) usable(1) by simp
  show ?thesis
    using c first again usable assms(5,14)
    by (simp add: send_finalised_def ncl_client_do_request_def topic_all recording_def ncl_channel_publish_def)
qed

section \<open>Reading a point\<close>

text \<open>What a message is after it was sent as a document, and what the server answers to a message of this kind.\<close>

definition over_the_wire :: "'d double_ops \<Rightarrow> 'd ncl_message \<Rightarrow> 'd ncl_message option" where
  "over_the_wire ops m = (case ncl_message_to_json grant_all ops m of
     None \<Rightarrow> None | Some j \<Rightarrow> ncl_message_from_json grant_all ops (body_type (as_body m)) (Some j))"

definition served ::
  "('d, 'w) server_env \<Rightarrow> async_args \<Rightarrow> string \<Rightarrow> 'd ncl_message \<Rightarrow> 'd ncl_server \<Rightarrow> 'w \<Rightarrow> (string \<times> 'd ncl_message) option \<times> 'd ncl_server \<times> 'w" where
  "served env aa topic request srv w =
     (case over_the_wire (sx_ops env) request of
        None \<Rightarrow> (None, srv, w)
      | Some r \<Rightarrow>
          (case ncl_server_dispatch grant_all env aa r srv w of
             (response, work, released, srv1, w1) \<Rightarrow>
               (case response of
                  None \<Rightarrow> None
                | Some a \<Rightarrow> map_option (Pair (ncl_server_response_topic srv1 topic (body_type (as_body r)) 512)) (over_the_wire (sx_ops env) a),
                srv1, w1)))"

lemma wire_exact:
  "\<lbrakk>text_ok (message_id m); body_ok ops (as_body m)\<rbrakk> \<Longrightarrow>
     \<exists>m1. over_the_wire ops m = Some m1 \<and> message_id m1 = message_id m \<and> same_body ops (as_body m) (as_body m1)"
  using every_message_reads [of m ops] by (auto simp: over_the_wire_def message_reads_def)

definition read_request :: "string \<Rightarrow> 'd double_ops \<Rightarrow> 'd message_body \<Rightarrow> bool" where
  "read_request path ops body \<longleftrightarrow> (\<exists>p v. body = As_Query_Request v \<and> pv_items v = [Some \<lparr>qi_id = Some path, qi_params = Some p\<rparr>]
     \<and> doc_of ops p = D_Object [(''operation'', D_String ''get_value'')])"

lemma single_read:
  "\<exists>body. (single_query grant_all path NCL_OP_GET_VALUE None :: ncl_err + 'd ncl_message) = Inr \<lparr>message_id = None, as_body = body\<rparr>
     \<and> read_request path ops body"
proof -
  obtain c where c: "ncl_json_obj_set grant_all (Some (J_Object [] 0)) (Some ''operation'') (Some (J_String ''get_value'' :: 'd json)) =
      (NCL_OK, Some (J_Object [(''operation'', J_String ''get_value'')] c))"
    using set_new_all [of "''operation''" "[]" 0 "J_String ''get_value''"] by auto
  have s: "cstr_of ''get_value'' = ''get_value''" by (simp add: cstr_of_def NUL_def)
  let ?item = "\<lparr>qi_id = Some path, qi_params = Some (J_Object [(''operation'', J_String ''get_value'' :: 'd json)] c)\<rparr>"
  obtain v where v: "ncl_ptrvec_push_owned grant_all (ncl_ptrvec_init True) (Some ?item) = (NCL_OK, [], v)" "pv_items v = [Some ?item]"
    using push_owned_all [of "ncl_ptrvec_init True" "Some ?item"] by (auto simp: ncl_ptrvec_init_def)
  have "(single_query grant_all path NCL_OP_GET_VALUE None :: ncl_err + 'd ncl_message) = Inr \<lparr>message_id = None, as_body = As_Query_Request v\<rparr>"
    using c v by (simp add: single_query_def ncl_query_request_item_new_def grant_all ncl_params_set_string_def ncl_params_set_def ncl_params_ensure_def
        new_obj new_string s new_message ncl_message_add_query_request_item_def)
  with v(2) show ?thesis by (auto simp: read_request_def)
qed

lemma read_request_wire:
  assumes "read_request path ops body" "same_body ops body body1"
  shows "read_request path ops body1"
proof -
  obtain p v where body: "body = As_Query_Request v" "pv_items v = [Some \<lparr>qi_id = Some path, qi_params = Some p\<rparr>]"
    and p: "doc_of ops p = D_Object [(''operation'', D_String ''get_value'')]"
    using assms(1) by (auto simp: read_request_def)
  with assms(2) obtain w i where w: "body1 = As_Query_Request w" "pv_items w = [Some i]"
      "same_request ops \<lparr>qi_id = Some path, qi_params = Some p\<rparr> i"
    by (auto simp: same_items_def list_all2_Cons1)
  then obtain q where "i = \<lparr>qi_id = Some path, qi_params = Some q\<rparr>" "doc_of ops q = doc_of ops p"
    by (cases i) (auto simp: same_request_def same_json_def)
  with w p show ?thesis by (auto simp: read_request_def)
qed

lemma get_text_of_doc:
  assumes "doc_of ops p = D_Object ds" "map_of ds k = Some (D_String t)" "is_cstr t"
  shows "ncl_json_obj_get_string (Some p) (Some k) = Some t"
proof -
  obtain ms c where p: "p = J_Object ms c" "ds = map (\<lambda>(k, x). (k, doc_of ops x)) ms" using assms(1) by (cases p) auto
  with assms(2) obtain x where "map_of ms k = Some x" "doc_of ops x = D_String t" by (auto simp: map_of_map)
  with p assms(3) show ?thesis by (cases x) (auto simp: ncl_json_obj_get_string_def get_map ncl_json_as_string_def is_cstr_def cstr_of_def)
qed

text \<open>The host gives the value of the point, whatever the parameters.\<close>

definition host_reads :: "('d, 'w) server_env \<Rightarrow> 'd ncl_server \<Rightarrow> string \<Rightarrow> 'd json \<Rightarrow> 'w \<Rightarrow> 'w \<Rightarrow> bool" where
  "host_reads env srv path v w w1 \<longleftrightarrow>
     (\<exists>b f. ncl_server_lookup srv ''get_value'' path = Some b \<and> bn_fn b = Some (Host_Fn f)
        \<and> (\<forall>params. \<exists>reason. sx_call env f (bn_instance b) params w = ((NCL_OK, Some v, reason), w1)))"

definition value_item :: "string \<Rightarrow> 'd json option \<Rightarrow> 'd json \<Rightarrow> nat \<Rightarrow> 'd query_response_item" where
  "value_item path params v c = \<lparr>qr_id = Some path, qr_code = Some ''OK'', qr_reason = None, qr_params = params, qr_values = Some (J_Array [v] c)\<rparr>"

lemma read_answered:
  assumes "read_request path ops body" "path \<noteq> []" "hd path = CHR ''/''" "host_reads env srv path v w w1" "ops = sx_ops env"
  shows "\<exists>rv p c. ncl_server_dispatch grant_all env aa \<lparr>message_id = mid, as_body = body\<rparr> srv w =
      (Some \<lparr>message_id = mid, as_body = As_Query_Response rv\<rparr>, None, [], srv, w1)
    \<and> pv_items rv = [Some (value_item path (copied ops (Some p)) v c)] \<and> doc_of ops p = D_Object [(''operation'', D_String ''get_value'')]"
proof -
  obtain p qv where body: "body = As_Query_Request qv" "pv_items qv = [Some \<lparr>qi_id = Some path, qi_params = Some p\<rparr>]"
    and p: "doc_of ops p = D_Object [(''operation'', D_String ''get_value'')]"
    using assms(1) by (auto simp: read_request_def)
  let ?item = "\<lparr>qi_id = Some path, qi_params = Some p\<rparr>"
  have operation: "ncl_query_request_item_operation ?item = Some ''get_value''"
    using get_text_of_doc [OF p, of "''operation''" "''get_value''"]
    by (simp add: ncl_query_request_item_operation_def ncl_params_operation_def is_cstr_def NUL_def)
  obtain b f reason where b: "ncl_server_lookup srv ''get_value'' path = Some b" "bn_fn b = Some (Host_Fn f)"
      "sx_call env f (bn_instance b) (Some p) w = ((NCL_OK, Some v, reason), w1)"
    using assms(4) unfolding host_reads_def by blast
  have binding: "item_binding grant_all srv (Some ''get_value'') ?item = Some b"
    using assms(2,3) b(1) by (simp add: item_binding_def ncl_server_resolve_path_def)
  have call: "ncl_server_call_binding grant_all env (Some b) (Some p) srv w = ((NCL_OK, Some v, reason), srv, w1)"
    using b(2,3) by (simp add: ncl_server_call_binding_def)
  from invoke_query_exact [of env "\<lparr>message_id = mid, as_body = body\<rparr>" srv w] obtain rv rs srv1 w2 where
    inv: "ncl_server_invoke_query grant_all env \<lparr>message_id = mid, as_body = body\<rparr> srv w =
      (Some \<lparr>message_id = mid, as_body = As_Query_Response rv\<rparr>, srv1, w2)" "pv_items rv = map Some rs"
      "reads_points env srv w [Some ?item] rs srv1 w2"
    using body by (auto simp: request_items_def)
  from inv(3) obtain c where "rs = [value_item path (copied (sx_ops env) (Some p)) v c]" "srv1 = srv" "w2 = w1"
    by (auto elim!: reads_item reads_done point_outcome.cases simp: operation binding call value_item_def)
  with inv body(1) p assms(5) show ?thesis by (auto simp: ncl_server_dispatch_def)
qed

lemma value_item_ok:
  assumes "is_cstr path" "doc_ok (doc_of ops v)" "doc_of ops p = D_Object [(''operation'', D_String ''get_value'')]" "pv_items rv = [Some (value_item path (copied ops (Some p)) v c)]"
  shows "body_ok ops (As_Query_Response rv)"
proof -
  have "json_ok ops (Some p)" using assms(3) by (simp add: json_ok_def is_cstr_def NUL_def)
  then have "json_ok ops (copied ops (Some p))" using copied_same same_ok by blast
  with assms show ?thesis
    by (simp add: items_ok_def query_response_ok_def value_item_def text_ok_def json_ok_def is_cstr_def NUL_def)
qed

lemma value_received:
  assumes "pv_items rv = [Some (value_item path p v c)]" "same_body ops (As_Query_Response rv) body" "doc_ok (doc_of ops v)"
  shows "\<exists>v1. ncl_client_first_value grant_all ops \<lparr>message_id = mid, as_body = body\<rparr> = Inr v1 \<and> doc_of ops v1 = doc_of ops v"
proof -
  obtain w i where w: "body = As_Query_Response w" "pv_items w = [Some i]" "same_query_response ops (value_item path p v c) i"
    using assms(1,2) by (auto simp: same_items_def list_all2_Cons1)
  from w(3) obtain j where j: "qr_values i = Some j" "doc_of ops j = D_Array [doc_of ops v]" "qr_code i = Some ''OK''"
    by (auto simp: same_query_response_def value_item_def same_json_def)
  then obtain v1 d where v1: "j = J_Array [v1] d" "doc_of ops v1 = doc_of ops v" by (cases j) auto
  obtain v2 where v2: "ncl_json_clone grant_all ops v1 = Some v2" "doc_of ops v2 = doc_of ops v1"
    using clone_exact [of ops v1] assms(3) v1(2) by auto
  have "ncl_message_has_data \<lparr>message_id = mid, as_body = body\<rparr>"
    using w(1,2) j v1(1) by (simp add: ncl_message_has_data_def ncl_query_response_item_has_data_def NCL_KW_CODE_NG_def ncl_json_arr_len_def Json_Dom.items_def)
  moreover have "first_item_data \<lparr>message_id = mid, as_body = body\<rparr> = Some v1"
    using w(1,2) j v1(1) by (simp add: first_item_data_def ncl_message_item_at_def ncl_ptrvec_at_def ncl_query_response_item_data_def
        ncl_json_arr_len_def ncl_json_arr_get_def Json_Dom.items_def)
  ultimately show ?thesis using v1(2) v2 by (simp add: ncl_client_first_value_def)
qed

lemma read_served:
  assumes "read_request path (sx_ops env) body" "text_ok mid" "is_cstr path" "path \<noteq> []" "hd path = CHR ''/''"
    "host_reads env srv path v w w1" "doc_ok (doc_of (sx_ops env) v)" "length (srv_sn srv) \<le> 480"
  shows "\<exists>body2 v1. served env aa (''Query/Request/'' @ srv_sn srv) \<lparr>message_id = mid, as_body = body\<rparr> srv w =
      (Some (''Query/Response/'' @ srv_sn srv, \<lparr>message_id = mid, as_body = body2\<rparr>), srv, w1)
    \<and> ncl_client_first_value grant_all (sx_ops env) \<lparr>message_id = mid, as_body = body2\<rparr> = Inr v1
    \<and> doc_of (sx_ops env) v1 = doc_of (sx_ops env) v"
proof -
  let ?ops = "sx_ops env"
  have carried: "\<exists>b1. over_the_wire ?ops \<lparr>message_id = mid, as_body = b\<rparr> = Some \<lparr>message_id = mid, as_body = b1\<rparr> \<and> same_body ?ops b b1"
    if "body_ok ?ops b" for b
    using wire_exact [of "\<lparr>message_id = mid, as_body = b\<rparr>" ?ops] that assms(2)
    by (metis (full_types) ncl_message.select_convs(1,2) ncl_message.surjective old.unit.exhaust)
  have "body_ok ?ops body"
    using assms(1,3) by (auto simp: read_request_def items_ok_def request_ok_def text_ok_def json_ok_def is_cstr_def NUL_def)
  from carried [OF this] obtain body1 where r: "over_the_wire ?ops \<lparr>message_id = mid, as_body = body\<rparr> = Some \<lparr>message_id = mid, as_body = body1\<rparr>"
    "same_body ?ops body body1" by blast
  note read1 = read_request_wire [OF assms(1) r(2)]
  from read_answered [OF read1 assms(4,5,6) refl] obtain rv p cap where
    d: "ncl_server_dispatch grant_all env aa \<lparr>message_id = mid, as_body = body1\<rparr> srv w =
      (Some \<lparr>message_id = mid, as_body = As_Query_Response rv\<rparr>, None, [], srv, w1)"
    "pv_items rv = [Some (value_item path (copied ?ops (Some p)) v cap)]" "doc_of ?ops p = D_Object [(''operation'', D_String ''get_value'')]" by blast
  from carried [OF value_item_ok [OF assms(3,7) d(3,2)]] obtain body2 where
    a: "over_the_wire ?ops \<lparr>message_id = mid, as_body = As_Query_Response rv\<rparr> = Some \<lparr>message_id = mid, as_body = body2\<rparr>"
    "same_body ?ops (As_Query_Response rv) body2" by blast
  have "body_type body1 = NCL_MSG_QUERY_REQUEST" using read1 by (auto simp: read_request_def)
  with r(1) d(1) a(1) response_topic_exact [of Query_Request NCL_MSG_QUERY_REQUEST Query_Response srv] assms(8)
  have "served env aa (''Query/Request/'' @ srv_sn srv) \<lparr>message_id = mid, as_body = body\<rparr> srv w =
      (Some (''Query/Response/'' @ srv_sn srv, \<lparr>message_id = mid, as_body = body2\<rparr>), srv, w1)"
    by (simp add: served_def request_kinds_def)
  with value_received [OF d(2) a(2) assms(7)] show ?thesis by blast
qed



end
