(* ===== verification/Server_Async.thy ===== *)
theory Server_Async
  imports Server_Query "HOL-Library.Multiset"
begin

text \<open>
  Asynchronous method calls: the table of tasks and the workers that end them, under any interleaving of
  messages and workers.
\<close>

section \<open>What leaves the table alone\<close>

named_theorems keeps_tasks

lemma remove_keeps [keeps_tasks]:
  "ncl_server_remove_sample srv ref = (rc, stopped, srv1) \<Longrightarrow> srv_method_tasks srv1 = srv_method_tasks srv"
  by (auto simp: ncl_server_remove_sample_def split: option.splits)

lemma start_keeps [keeps_tasks]:
  "ncl_server_start_sample g env srv tree pos = (rc, stopped, srv1) \<Longrightarrow> srv_method_tasks srv1 = srv_method_tasks srv"
  by (auto simp: ncl_server_start_sample_def dest!: remove_keeps split: option.splits prod.splits sum.splits if_splits)

lemma call_keeps [keeps_tasks]:
  assumes "ncl_server_call_binding g env b params srv w = (outcome, srv1, w1)"
  shows "srv_method_tasks srv1 = srv_method_tasks srv"
  using assms
  by (auto simp: ncl_server_call_binding_def ncl_builtin_add_sample_def ncl_builtin_remove_sample_def ncl_server_add_sample_def
      dest!: remove_keeps start_keeps split: option.splits prod.splits tool_fn.splits if_splits)

lemma query_item_keeps: "answer_query_item g env item blank srv w = (r, srv1, w1) \<Longrightarrow> srv_method_tasks srv1 = srv_method_tasks srv"
  by (auto simp: answer_query_item_def Let_def dest!: call_keeps split: option.splits prod.splits if_splits)

lemma set_item_keeps: "answer_set_item g env item blank1 srv w = (r1, srv1, w1) \<Longrightarrow> srv_method_tasks srv1 = srv_method_tasks srv"
  by (auto simp: answer_set_item_def Let_def dest!: call_keeps split: option.splits prod.splits if_splits)

lemma query_loop_keeps: "query_loop g env xs response srv w = (r, srv1, w1) \<Longrightarrow> srv_method_tasks srv1 = srv_method_tasks srv"
proof (induction xs arbitrary: response srv w)
  case (Cons x xs)
  show ?case
  proof (cases "x = None \<or> (ncl_query_response_item_new g (qi_id (the x)) :: 'a query_response_item option) = None")
    case True
    with Cons show ?thesis by (cases x) auto
  next
    case False
    then obtain i and blank :: "'a query_response_item" where i: "x = Some i" "ncl_query_response_item_new g (qi_id i) = Some blank" by auto
    obtain result srv2 w2 where step: "answer_query_item g env i blank srv w = (result, srv2, w2)"
      by (cases "answer_query_item g env i blank srv w") auto
    obtain rc freed response1 where add: "ncl_message_add_query_response_item g result response = (rc, freed, response1)"
      by (cases "ncl_message_add_query_response_item g result response") auto
    from i step add Cons.prems Cons.IH [of response1 srv2 w2] query_item_keeps [OF step] show ?thesis by (cases "rc = NCL_OK") auto
  qed
qed simp

lemma set_loop_keeps: "set_loop g env xs response srv w = (r, srv1, w1) \<Longrightarrow> srv_method_tasks srv1 = srv_method_tasks srv"
proof (induction xs arbitrary: response srv w)
  case (Cons x xs)
  show ?case
  proof (cases "x = None \<or> (ncl_set_response_item_new g (qi_id (the x)) :: 'a set_response_item option) = None")
    case True
    with Cons show ?thesis by (cases x) auto
  next
    case False
    then obtain i and blank :: "'a set_response_item" where i: "x = Some i" "ncl_set_response_item_new g (qi_id i) = Some blank" by auto
    obtain result srv2 w2 where step: "answer_set_item g env i blank srv w = (result, srv2, w2)"
      by (cases "answer_set_item g env i blank srv w") auto
    obtain rc freed response1 where add: "ncl_message_add_set_response_item g result response = (rc, freed, response1)"
      by (cases "ncl_message_add_set_response_item g result response") auto
    from i step add Cons.prems Cons.IH [of response1 srv2 w2] set_item_keeps [OF step] show ?thesis by (cases "rc = NCL_OK") auto
  qed
qed simp

lemma invoke_keeps [keeps_tasks]:
  "ncl_server_invoke_query g env request srv w = (r, srv1, w1) \<Longrightarrow> srv_method_tasks srv1 = srv_method_tasks srv"
  "ncl_server_invoke_set g env request srv w = (r, srv1, w1) \<Longrightarrow> srv_method_tasks srv1 = srv_method_tasks srv"
  by (auto simp: ncl_server_invoke_query_def ncl_server_invoke_set_def dest!: query_loop_keeps set_loop_keeps split: option.splits prod.splits)

lemma refresh_keeps: "ncl_server_refresh_methods g ops srv = (rc, released, srv1) \<Longrightarrow> srv_method_tasks srv1 = srv_method_tasks srv"
  by (auto simp: ncl_server_refresh_methods_def Let_def split: option.splits prod.splits if_splits)

lemma probe_keeps [keeps_tasks]:
  "answer_probe_query g ops request srv = (r, srv1) \<Longrightarrow> srv_method_tasks srv1 = srv_method_tasks srv"
  by (cases "ncl_server_refresh_methods g ops srv")
    (auto simp: answer_probe_query_def ncl_server_flush_methods_def Let_def dest!: refresh_keeps split: option.splits if_splits)

lemma set_model_keeps: "ncl_server_set_model g ops srv root = (rc, released, srv1) \<Longrightarrow> srv_method_tasks srv1 = srv_method_tasks srv"
  by (auto simp: ncl_server_set_model_def dest!: refresh_keeps split: prod.splits)

lemma save_model_keeps: "ncl_server_save_model g ops mf srv w = (rc, srv1, w1) \<Longrightarrow> srv_method_tasks srv1 = srv_method_tasks srv"
  by (auto simp: ncl_server_save_model_def Let_def split: option.splits prod.splits if_splits)

lemma probe_set_keeps [keeps_tasks]:
  "answer_probe_set g env request model srv w = (r, released, srv1, w1) \<Longrightarrow> srv_method_tasks srv1 = srv_method_tasks srv"
  by (auto simp: answer_probe_set_def Let_def dest!: set_model_keeps save_model_keeps split: option.splits prod.splits if_splits)

lemma check_keeps [keeps_tasks]:
  "ncl_server_check_method_call g env request srv = (r, srv1) \<Longrightarrow> srv_method_tasks srv1 = srv_method_tasks srv"
  by (auto simp: ncl_server_check_method_call_def check_params_def Let_def split: message_body.splits option.splits prod.splits if_splits)

lemma sync_keeps [keeps_tasks]:
  "sync_call g env b params r srv w = (r1, srv1, w1) \<Longrightarrow> srv_method_tasks srv1 = srv_method_tasks srv"
  by (auto simp: sync_call_def dest!: call_keeps split: option.splits prod.splits if_splits)

lemma intern_keeps: "intern_declared g ops mutex t srv = (r, srv1) \<Longrightarrow> srv_method_tasks srv1 = srv_method_tasks srv"
  by (auto simp: intern_declared_def ncl_server_intern_schema_def Let_def split: option.splits)

lemma add_method_keeps:
  "ncl_server_add_method g srv tool inst name fn key params result = (rc, srv1) \<Longrightarrow> srv_method_tasks srv1 = srv_method_tasks srv"
  by (auto simp: ncl_server_add_method_def Let_def split: option.splits)

lemma register_methods_keep:
  "register_methods g ops mutex tool inst ms srv = (rc, srv1) \<Longrightarrow> srv_method_tasks srv1 = srv_method_tasks srv"
proof (induction ms arbitrary: srv)
  case (Cons m ms)
  obtain params s1 where a: "intern_declared g ops mutex (tm_params_schema m) srv = (params, s1)"
    by (cases "intern_declared g ops mutex (tm_params_schema m) srv") auto
  obtain result s2 where b: "intern_declared g ops mutex (tm_result_schema m) s1 = (result, s2)"
    by (cases "intern_declared g ops mutex (tm_result_schema m) s1") auto
  obtain rc2 s3 where c: "ncl_server_add_method g s2 (Some tool) inst (tm_name m) (tm_fn m)
      (snprintf_text 256 (tool @ ''::'' @ tm_name m)) params result = (rc2, s3)" by (metis prod.exhaust)
  from Cons a b c intern_keeps [OF a] intern_keeps [OF b] add_method_keeps [OF c] show ?case by (auto split: if_splits)
qed simp

lemma register_binding_keeps:
  "register_binding g ops mutex tool inst methods spec srv = (rc, srv1) \<Longrightarrow> srv_method_tasks srv1 = srv_method_tasks srv"
  by (auto simp: register_binding_def dest!: intern_keeps add_method_keeps split: option.splits prod.splits if_splits)

lemma register_bindings_keep:
  "register_bindings g ops mutex tool inst methods specs srv = (rc, srv1) \<Longrightarrow> srv_method_tasks srv1 = srv_method_tasks srv"
proof (induction specs arbitrary: srv)
  case (Cons spec specs)
  obtain rc2 s2 where a: "register_binding g ops mutex tool inst methods spec srv = (rc2, s2)" by (metis prod.exhaust)
  from Cons a register_binding_keeps [OF a] show ?case by (auto split: if_splits)
qed simp

lemma register_tool_keeps:
  "ncl_server_register_tool g ops mutex srv tool inst methods bindings = (rc, srv1) \<Longrightarrow> srv_method_tasks srv1 = srv_method_tasks srv"
  by (auto simp: ncl_server_register_tool_def dest!: register_methods_keep register_bindings_keep split: option.splits prod.splits if_splits)

section \<open>The table of tasks\<close>

text \<open>
  The tasks, and the addresses that the workers hold: every task that is not finished has exactly one
  worker, and every worker has its task in the table.
\<close>

definition table_ok :: "'d method_task list \<Rightarrow> nat multiset \<Rightarrow> bool" where
  "table_ok ts ws \<longleftrightarrow> distinct (map mt_address ts) \<and> distinct (map mt_handler ts)
     \<and> list_all (\<lambda>t. mt_handler t \<noteq> None \<and> \<not> mt_abandoned t) ts
     \<and> mset (map mt_address (filter (\<lambda>t. \<not> mt_finished t) ts)) = ws"

lemma table_add:
  assumes "table_ok ts ws" "aa_address aa \<notin> set (map mt_address ts)" "Some handler \<notin> set (map mt_handler ts)"
  shows "table_ok (ts @ [new_task aa handler]) (add_mset (aa_address aa) ws)"
  using assms by (auto simp: table_ok_def new_task_def)

lemma table_split:
  assumes "table_ok ts ws" "t \<in> set ts"
  obtains us vs where "ts = us @ t # vs" "mt_address t \<notin> set (map mt_address (us @ vs))"
proof -
  obtain us vs where "ts = us @ t # vs" using assms(2) by (auto simp: in_set_conv_decomp)
  with assms(1) that show thesis by (auto simp: table_ok_def)
qed

lemma map_address_absent: "a \<notin> set (map mt_address ts) \<Longrightarrow> map (\<lambda>t. if mt_address t = a then f t else t) ts = ts"
  by (induction ts) auto

lemma table_change:
  assumes "table_ok ts ws" "\<And>t. mt_address (f t) = mt_address t \<and> mt_handler (f t) = mt_handler t \<and> mt_abandoned (f t) = mt_abandoned t"
    and "\<And>t. mt_finished (f t) = mt_finished t"
  shows "table_ok (map (\<lambda>t. if mt_address t = a then f t else t) ts) ws"
proof -
  let ?f = "\<lambda>t. if mt_address t = a then f t else t"
  have "map mt_address (map ?f ts) = map mt_address ts" "map mt_handler (map ?f ts) = map mt_handler ts"
    using assms(2) by simp_all
  moreover have "map mt_address (filter (\<lambda>t. \<not> mt_finished t) (map ?f ts)) = map mt_address (filter (\<lambda>t. \<not> mt_finished t) ts)"
    using assms(2,3) by (induction ts) auto
  moreover have "list_all (\<lambda>t. mt_handler t \<noteq> None \<and> \<not> mt_abandoned t) (map ?f ts)"
    using assms(1,2) by (auto simp: table_ok_def list_all_iff)
  ultimately show ?thesis using assms(1) by (simp only: table_ok_def)
qed

lemma table_finish:
  assumes "table_ok ts (add_mset (wk_task work) ws)"
  shows "table_ok (map (\<lambda>t. if mt_address t = wk_task work then (if mt_abandoned t then t
            else t\<lparr>mt_finished := True, mt_rc := rc, mt_value := v, mt_reason := reason, mt_finished_ms := now\<rparr>) else t) ts) ws"
proof -
  have "wk_task work \<in># mset (map mt_address (filter (\<lambda>t. \<not> mt_finished t) ts))"
    using assms by (simp add: table_ok_def)
  then obtain t where t: "t \<in> set ts" "mt_address t = wk_task work" "\<not> mt_finished t" by auto
  from table_split [OF assms t(1)] obtain us vs where split: "ts = us @ t # vs" "wk_task work \<notin> set (map mt_address (us @ vs))"
    using t(2) by metis
  have "\<not> mt_abandoned t" using assms t(1) by (auto simp: table_ok_def list_all_iff)
  with split t(2,3) assms show ?thesis
    by (auto simp: table_ok_def map_address_absent)
qed

lemma drop_exact:
  assumes "ts = us @ t # vs" "mt_address t \<notin> set (map mt_address us)"
  shows "drop_task (mt_address t) (map Some ts) = map Some (us @ vs)"
proof -
  have "drop_task a (map Some us @ Some t # map Some vs) = map Some (us @ vs)" if "a = mt_address t" for a
    using assms(2) that by (induction us) auto
  with assms(1) show ?thesis by simp
qed

lemma table_drop:
  assumes "table_ok ts ws" "ts = us @ t # vs" "mt_finished t"
  shows "table_ok (us @ vs) ws"
  using assms by (auto simp: table_ok_def)

section \<open>Interleavings\<close>

type_synonym 'd call_outcome = "ncl_err \<times> 'd json option \<times> string option"

text \<open>The server, the workers that wait in the pool, those that have made their call, and the host.\<close>

record ('d, 'w) async_sys =
  ay_server :: "'d ncl_server"
  ay_queued :: "'d method_worker list"
  ay_called :: "('d method_worker \<times> 'd call_outcome) list"
  ay_host :: 'w

definition tasks_of :: "'d ncl_server \<Rightarrow> 'd method_task list" where
  "tasks_of srv = map the (pv_items (srv_method_tasks srv))"

text \<open>Workers run in any order; the call is made without the mutex, what came of it is stored under it.\<close>

inductive worker_step :: "grant \<Rightarrow> ('d, 'w) server_env \<Rightarrow> ('d, 'w) async_sys \<Rightarrow> ('d, 'w) async_sys \<Rightarrow> bool" for g env where
  call: "\<lbrakk>ay_queued s = ws1 @ work # ws2; worker_call g env work (ay_server s) (ay_host s) = (outcome, srv1, w1)\<rbrakk> \<Longrightarrow>
     worker_step g env s \<lparr>ay_server = srv1, ay_queued = ws1 @ ws2, ay_called = ay_called s @ [(work, outcome)], ay_host = w1\<rparr>"
| store: "ay_called s = cs1 @ (work, outcome) # cs2 \<Longrightarrow>
     worker_step g env s \<lparr>ay_server = worker_store now work outcome (ay_server s), ay_queued = ay_queued s, ay_called = cs1 @ cs2, ay_host = ay_host s\<rparr>"

text \<open>
  A message of any kind is handled, a worker makes a step, the host reports progress, or the host does
  something with the server that leaves the table alone, as registering a tool or a channel does. The
  address of a new task is not that of a task in the table, and its handle is not in use.
\<close>

inductive async_step :: "grant \<Rightarrow> ('d, 'w) server_env \<Rightarrow> ('d, 'w) async_sys \<Rightarrow> ('d, 'w) async_sys \<Rightarrow> bool" for g env where
  message: "\<lbrakk>ncl_server_dispatch g env aa request (ay_server s) (ay_host s) = (response, work, released, srv1, w1);
     aa_address aa \<notin> set (map mt_address (tasks_of (ay_server s)));
     Some (fst (new_handler aa (ay_server s))) \<notin> set (map mt_handler (tasks_of (ay_server s)))\<rbrakk> \<Longrightarrow>
     async_step g env s \<lparr>ay_server = srv1, ay_queued = ay_queued s @ (case work of None \<Rightarrow> [] | Some k \<Rightarrow> [k]),
       ay_called = ay_called s, ay_host = w1\<rparr>"
| worker: "worker_step g env s s1 \<Longrightarrow> async_step g env s s1"
| progress: "ncl_server_report_method_progress g handler process status (ay_server s) = (rc, srv1) \<Longrightarrow>
     async_step g env s (s\<lparr>ay_server := srv1\<rparr>)"
| elsewhere: "srv_method_tasks srv1 = srv_method_tasks (ay_server s) \<Longrightarrow> async_step g env s (s\<lparr>ay_server := srv1, ay_host := w1\<rparr>)"

inductive async_reach :: "grant \<Rightarrow> ('d, 'w) server_env \<Rightarrow> ('d, 'w) async_sys \<Rightarrow> bool" for g env where
  created: "ncl_server_create g (sx_ops env) mutex options = Some srv \<Longrightarrow>
     async_reach g env \<lparr>ay_server = srv, ay_queued = [], ay_called = [], ay_host = w\<rparr>"
| step: "\<lbrakk>async_reach g env s; async_step g env s s1\<rbrakk> \<Longrightarrow> async_reach g env s1"

definition waiting :: "('d, 'w) async_sys \<Rightarrow> nat multiset" where
  "waiting s = image_mset wk_task (mset (ay_queued s) + mset (map fst (ay_called s)))"

definition async_inv :: "('d, 'w) async_sys \<Rightarrow> bool" where
  "async_inv s \<longleftrightarrow> pv_items (srv_method_tasks (ay_server s)) = map Some (tasks_of (ay_server s))
     \<and> table_ok (tasks_of (ay_server s)) (waiting s)"

section \<open>The invariant\<close>

text \<open>A server whose table is in order, for workers that hold the given addresses.\<close>

definition server_ok :: "'d ncl_server \<Rightarrow> nat multiset \<Rightarrow> bool" where
  "server_ok srv ws \<longleftrightarrow> (\<exists>ts. pv_items (srv_method_tasks srv) = map Some ts \<and> table_ok ts ws)"

lemma inv_server: "async_inv s \<longleftrightarrow> server_ok (ay_server s) (waiting s)"
proof
  assume "async_inv s"
  then show "server_ok (ay_server s) (waiting s)" unfolding async_inv_def server_ok_def by blast
qed (auto simp: async_inv_def server_ok_def tasks_of_def comp_def)

lemma kept_ok: "\<lbrakk>server_ok srv ws; srv_method_tasks srv1 = srv_method_tasks srv\<rbrakk> \<Longrightarrow> server_ok srv1 ws"
  by (simp add: server_ok_def)

lemma change_items:
  "pv_items (srv_method_tasks srv) = map Some ts \<Longrightarrow>
     pv_items (srv_method_tasks (change_task a f srv)) = map Some (map (\<lambda>t. if mt_address t = a then f t else t) ts)"
  by (simp add: change_task_def on_tasks_def)

lemma store_ok:
  assumes "server_ok srv (add_mset (wk_task work) ws)"
  shows "server_ok (worker_store now work outcome srv) ws"
proof -
  obtain ts where ts: "pv_items (srv_method_tasks srv) = map Some ts" "table_ok ts (add_mset (wk_task work) ws)"
    using assms by (auto simp: server_ok_def)
  from change_items [OF ts(1)] table_finish [OF ts(2)] show ?thesis
    unfolding server_ok_def worker_store_def by blast
qed

lemma run_ok:
  assumes "server_ok srv (add_mset (wk_task work) ws)" "ncl_method_worker_run g env now work srv w = (srv1, w1)"
  shows "server_ok srv1 ws"
proof -
  obtain outcome srv2 w2 where call: "worker_call g env work srv w = (outcome, srv2, w2)"
    by (cases "worker_call g env work srv w") auto
  have "srv_method_tasks srv2 = srv_method_tasks srv" using call call_keeps by (simp add: worker_call_def)
  with assms call store_ok [of srv2 work ws now outcome] show ?thesis
    by (auto simp: ncl_method_worker_run_def dest: kept_ok)
qed

lemma handler_keeps: "new_handler aa srv = (handler, srv1) \<Longrightarrow> srv_method_tasks srv1 = srv_method_tasks srv"
  by (auto simp: new_handler_def Let_def split: sum.splits)

lemma push_ok:
  assumes "server_ok srv ws" "aa_address aa \<notin> set (map mt_address (tasks_of srv))" "Some handler \<notin> set (map mt_handler (tasks_of srv))"
    and "ncl_ptrvec_push g (srv_method_tasks srv) (Some (new_task aa handler)) = (NCL_OK, v)" "srv_method_tasks srv1 = v"
  shows "server_ok srv1 (add_mset (aa_address aa) ws)"
proof -
  obtain ts where ts: "pv_items (srv_method_tasks srv) = map Some ts" "table_ok ts ws" using assms(1) by (auto simp: server_ok_def)
  have "pv_items v = map Some (ts @ [new_task aa handler])"
    using assms(4) ts(1) by (auto simp: ncl_ptrvec_push_def Let_def split: if_splits)
  moreover have "table_ok (ts @ [new_task aa handler]) (add_mset (aa_address aa) ws)"
    using ts assms(2,3) by (intro table_add) (simp_all add: tasks_of_def comp_def)
  ultimately show ?thesis using assms(5) unfolding server_ok_def by blast
qed

lemma async_ok:
  assumes "server_ok srv ws" "aa_address aa \<notin> set (map mt_address (tasks_of srv))" "Some (fst (new_handler aa srv)) \<notin> set (map mt_handler (tasks_of srv))"
    and "async_call g env aa b params r srv w = (r1, work, srv1, w1)"
  shows "server_ok srv1 (case work of None \<Rightarrow> ws | Some k \<Rightarrow> add_mset (wk_task k) ws)"
proof -
  obtain handler s1 where h: "new_handler aa srv = (handler, s1)" by (cases "new_handler aa srv") auto
  note same = handler_keeps [OF h]
  let ?s2 = "s1\<lparr>srv_method_seq := (srv_method_seq s1 + 1) mod 2 ^ 64\<rparr>"
  obtain rc v where push: "ncl_ptrvec_push g (srv_method_tasks ?s2) (Some (new_task aa handler)) = (rc, v)"
    by (cases "ncl_ptrvec_push g (srv_method_tasks ?s2) (Some (new_task aa handler))") auto
  show ?thesis
  proof (cases "srv_method_tasks srv1 = srv_method_tasks srv \<and> work = None")
    case True
    with assms(1) show ?thesis by (auto dest: kept_ok)
  next
    case False
    let ?copy = "case params of None \<Rightarrow> None | Some p \<Rightarrow> ncl_json_clone g (sx_ops env) p"
    let ?work = "\<lparr>wk_binding = b, wk_params = ?copy, wk_task = aa_address aa\<rparr>"
    have rc: "rc = NCL_OK" and
      out: "(work = Some ?work \<and> srv1 = ?s2\<lparr>srv_method_tasks := v\<rparr>)
          \<or> (work = None \<and> (\<exists>w2. ncl_method_worker_run g env (aa_now aa) ?work (?s2\<lparr>srv_method_tasks := v\<rparr>) w = (srv1, w2)))"
      using assms(4) False h push same by (auto simp: async_call_def Let_def split: if_splits prod.splits)
    have "server_ok (?s2\<lparr>srv_method_tasks := v\<rparr>) (add_mset (aa_address aa) ws)"
      using assms(1-3) push rc same h by (intro push_ok [of srv ws aa handler g v]) simp_all
    with out run_ok [of "?s2\<lparr>srv_method_tasks := v\<rparr>" ?work ws] show ?thesis by auto
  qed
qed

lemma call_ok:
  assumes "server_ok srv ws" "aa_address aa \<notin> set (map mt_address (tasks_of srv))" "Some (fst (new_handler aa srv)) \<notin> set (map mt_handler (tasks_of srv))"
    and "ncl_server_invoke_method_call g env aa request srv w = (r, work, srv1, w1)"
  shows "server_ok srv1 (case work of None \<Rightarrow> ws | Some k \<Rightarrow> add_mset (wk_task k) ws)"
proof -
  consider "work = None" "srv_method_tasks srv1 = srv_method_tasks srv"
    | b params r0 r1 where "async_call g env aa b params r0 srv w = (r1, work, srv1, w1)"
    using assms(4)
    by (auto simp: ncl_server_invoke_method_call_def dest: check_keeps sync_keeps split: message_body.splits option.splits prod.splits if_splits)
  then show ?thesis
  proof cases
    case 1
    with assms(1) show ?thesis by (auto dest: kept_ok)
  next
    case 2
    from async_ok [OF assms(1-3) this] show ?thesis .
  qed
qed

lemma found_task:
  assumes "ncl_server_find_task_locked srv handler = Some t" "pv_items (srv_method_tasks srv) = map Some ts"
  shows "t \<in> set ts" "mt_handler t = handler" "handler \<noteq> None"
  using assms by (auto simp: ncl_server_find_task_locked_def find_Some_iff split: option.splits)

lemma unlink_items:
  assumes "pv_items (srv_method_tasks srv) = map Some ts" "table_ok ts ws" "t \<in> set ts"
  shows "\<exists>us vs. ts = us @ t # vs \<and> pv_items (srv_method_tasks (ncl_server_unlink_task_locked t srv)) = map Some (us @ vs)"
proof -
  from table_split [OF assms(2,3)] obtain us vs where "ts = us @ t # vs" "mt_address t \<notin> set (map mt_address (us @ vs))" by metis
  with drop_exact [of ts us t vs] assms(1) show ?thesis
    by (auto simp: ncl_server_unlink_task_locked_def on_tasks_def)
qed

lemma result_state:
  "snd (ncl_server_invoke_method_result g ops request srv) =
     (case ncl_server_find_task_locked srv (ncl_message_handler request) of
        None \<Rightarrow> srv
      | Some t \<Rightarrow> if mt_finished t \<and> (ncl_message_new g NCL_MSG_METHOD_RESULT_RESPONSE :: 'd ncl_message option) \<noteq> None
                  then ncl_server_unlink_task_locked t (srv :: 'd ncl_server) else srv)"
  by (cases "ncl_message_new g NCL_MSG_METHOD_RESULT_RESPONSE :: 'd ncl_message option";
      cases "ncl_server_find_task_locked srv (ncl_message_handler request)")
    (simp_all add: ncl_server_invoke_method_result_def Let_def)

lemma result_ok:
  assumes "server_ok srv ws" "ncl_server_invoke_method_result g ops request srv = (r, srv1)"
  shows "server_ok srv1 ws"
proof -
  obtain ts where ts: "pv_items (srv_method_tasks srv) = map Some ts" "table_ok ts ws" using assms(1) by (auto simp: server_ok_def)
  consider "srv1 = srv" | t where "ncl_server_find_task_locked srv (ncl_message_handler request) = Some t" "mt_finished t"
      "srv1 = ncl_server_unlink_task_locked t srv"
    using result_state [of g ops request srv] assms(2) by (auto split: option.splits if_splits)
  then show ?thesis
  proof cases
    case 2
    from unlink_items [OF ts found_task(1) [OF 2(1) ts(1)]] table_drop [OF ts(2)] 2(2,3) show ?thesis
      unfolding server_ok_def by blast
  qed (use assms in simp)
qed

lemma progress_ok:
  assumes "server_ok srv ws" "ncl_server_report_method_progress g handler process status srv = (rc, srv1)"
  shows "server_ok srv1 ws"
proof -
  obtain ts where ts: "pv_items (srv_method_tasks srv) = map Some ts" "table_ok ts ws" using assms(1) by (auto simp: server_ok_def)
  let ?f = "\<lambda>t. t\<lparr>mt_process := process, mt_status := (if status \<noteq> None then status else mt_status t)\<rparr>"
  have "srv1 = srv \<or> (\<exists>a. srv1 = change_task a ?f srv)"
  proof (cases "ncl_server_find_task_locked srv handler")
    case (Some t)
    have "srv1 = srv \<or> srv1 = change_task (mt_address t) ?f srv"
      using assms(2) Some by (auto simp: ncl_server_report_method_progress_def split: if_splits)
    then show ?thesis by blast
  qed (use assms(2) in \<open>auto simp: ncl_server_report_method_progress_def split: if_splits\<close>)
  then consider "srv1 = srv" | a where "srv1 = change_task a ?f srv" by blast
  then show ?thesis
  proof cases
    case 2
    have "table_ok (map (\<lambda>u. if mt_address u = a then u\<lparr>mt_process := process, mt_status := (if status \<noteq> None then status else mt_status u)\<rparr> else u) ts) ws"
      by (rule table_change [OF ts(2)]) simp_all
    with change_items [OF ts(1)] 2 show ?thesis unfolding server_ok_def by blast
  qed (use assms in simp)
qed

lemma dispatch_ok:
  assumes "server_ok srv ws" "aa_address aa \<notin> set (map mt_address (tasks_of srv))" "Some (fst (new_handler aa srv)) \<notin> set (map mt_handler (tasks_of srv))"
    and "ncl_server_dispatch g env aa request srv w = (response, work, released, srv1, w1)"
  shows "server_ok srv1 (case work of None \<Rightarrow> ws | Some k \<Rightarrow> add_mset (wk_task k) ws)"
proof -
  consider "work = None" "srv_method_tasks srv1 = srv_method_tasks srv"
    | "ncl_server_invoke_method_call g env aa request srv w = (response, work, srv1, w1)"
    | "work = None" "ncl_server_invoke_method_result g (sx_ops env) request srv = (response, srv1)"
    using assms(4)
    by (cases "as_body request") (auto simp: ncl_server_dispatch_def dest!: keeps_tasks split: prod.splits)
  then show ?thesis
  proof cases
    case 1
    with assms(1) show ?thesis by (auto dest: kept_ok)
  next
    case 2
    from call_ok [OF assms(1-3) this] show ?thesis .
  next
    case 3
    with result_ok [OF assms(1) 3(2)] show ?thesis by simp
  qed
qed

lemma worker_inv:
  assumes "worker_step g env s s1" "async_inv s"
  shows "async_inv s1"
  using assms
proof (cases rule: worker_step.cases)
  case (call ws1 work ws2 outcome srv1 w1)
  have "waiting s1 = waiting s" using call by (simp add: waiting_def)
  moreover have "srv_method_tasks srv1 = srv_method_tasks (ay_server s)"
    using call(3) call_keeps by (simp add: worker_call_def)
  ultimately show ?thesis using assms(2) call(1) by (auto simp: inv_server dest: kept_ok)
next
  case (store cs1 work outcome cs2 now)
  have "waiting s = add_mset (wk_task work) (waiting s1)" using store by (simp add: waiting_def)
  with assms(2) store(1) show ?thesis by (auto simp: inv_server intro!: store_ok)
qed

lemma step_inv:
  assumes "async_step g env s s1" "async_inv s"
  shows "async_inv s1"
  using assms
proof (cases rule: async_step.cases)
  case (message aa request response work released srv1 w1)
  have "server_ok srv1 (case work of None \<Rightarrow> waiting s | Some k \<Rightarrow> add_mset (wk_task k) (waiting s))"
    using dispatch_ok [OF _ message(3,4,2)] assms(2) by (simp add: inv_server)
  with message(1) show ?thesis by (auto simp: inv_server waiting_def split: option.splits)
next
  case worker
  with assms(2) show ?thesis by (simp add: worker_inv)
next
  case (progress handler process status rc srv1)
  with assms(2) show ?thesis by (auto simp: inv_server waiting_def intro: progress_ok)
next
  case (elsewhere srv1 w1)
  with assms(2) show ?thesis by (auto simp: inv_server waiting_def dest: kept_ok)
qed

lemma async_reach_inv: "async_reach g env s \<Longrightarrow> async_inv s"
proof (induction rule: async_reach.induct)
  case (created mutex options srv w)
  have "srv_method_tasks srv = ncl_ptrvec_init False"
  proof -
    have "srv_method_tasks (snd (snd (ncl_server_load_model g (sx_ops env) b t))) = srv_method_tasks b" for b t
      by (auto simp: ncl_server_load_model_def split: option.split) (metis prod.collapse set_model_keeps)
    with created show ?thesis
      by (auto simp: ncl_server_create_def blank_server_def Let_def split: option.splits if_splits)
  qed
  then show ?case by (auto simp: inv_server server_ok_def waiting_def table_ok_def ncl_ptrvec_init_def)
qed (simp add: step_inv)

section \<open>Workers and their tasks\<close>


text \<open>A call that was handed to the pool.\<close>

definition slow_call :: "int ncl_message" where
  "slow_call = \<lparr>message_id = Some ''1'', as_body = As_Method_Call_Request \<lparr>cq_method = Some ''/t/readX'', cq_params = None, cq_check = False,
     cq_has_check = False, cq_token = None, cq_async = True, cq_has_async = True\<rparr>\<rparr>"

lemma busy_reach:
  "\<exists>s t. async_reach grant_all counting_env s \<and> length (ay_queued s) = 1 \<and> ay_called s = [] \<and> tasks_of (ay_server s) = [t]
     \<and> mt_handler t = Some ''CNC1-1'' \<and> mt_address t = 9 \<and> \<not> mt_finished t"
proof -
  let ?s0 = "\<lparr>ay_server = plain_server, ay_queued = [], ay_called = [], ay_host = (7 :: nat)\<rparr>"
  have "ncl_server_create grant_all (sx_ops counting_env) True
      (Some \<lparr>so_sn = Some ''CNC1'', so_mqtt = True, so_model_json = None, so_publish = None, so_publish_user = None\<rparr>) = Some plain_server"
    by (simp add: ncl_server_create_def plain_server_def grant_all Let_def)
  then have "async_reach grant_all counting_env ?s0" by (rule async_reach.created)
  moreover have "async_step grant_all counting_env ?s0 (?s0\<lparr>ay_server := reading_server, ay_host := 7\<rparr>)"
    by (rule async_step.elsewhere) (simp add: reading_server_def)
  ultimately have s1: "async_reach grant_all counting_env (?s0\<lparr>ay_server := reading_server, ay_host := 7\<rparr>)" by (rule async_reach.step)
  let ?aa = "\<lparr>aa_address = 9, aa_random = None, aa_now = 0, aa_pool = True\<rparr>"
  have none: "tasks_of reading_server = []" by (simp add: tasks_of_def reading_server_def plain_server_def blank_server_def ncl_ptrvec_init_def)
  have "ncl_uuid4 None 64 = Inl NCL_ERR" by (simp add: ncl_uuid4_def)
  moreover have "dec_nat (Suc 0) = ''1''" by code_simp
  ultimately have "\<exists>r work released srv1 t. ncl_server_dispatch grant_all counting_env ?aa slow_call reading_server 7 = (r, Some work, released, srv1, 7)
      \<and> tasks_of srv1 = [t] \<and> mt_handler t = Some ''CNC1-1'' \<and> mt_address t = 9 \<and> \<not> mt_finished t"
    by (simp add: ncl_server_dispatch_def slow_call_def ncl_server_invoke_method_call_def begin_call_response_def new_message call_target_def
        ncl_server_find_method_def reading_server_def ncl_message_async_def async_call_def new_handler_def grant_all Let_def plain_server_def
        blank_server_def snprintf_text_def ncl_ptrvec_push_def ncl_ptrvec_init_def new_task_def tasks_of_def)
  then obtain r work released srv1 t where d: "ncl_server_dispatch grant_all counting_env ?aa slow_call reading_server 7 = (r, Some work, released, srv1, 7)"
    "tasks_of srv1 = [t]" "mt_handler t = Some ''CNC1-1''" "mt_address t = 9" "\<not> mt_finished t" by blast
  have "async_step grant_all counting_env (?s0\<lparr>ay_server := reading_server, ay_host := 7\<rparr>)
      \<lparr>ay_server = srv1, ay_queued = [] @ (case Some work of None \<Rightarrow> [] | Some k \<Rightarrow> [k]), ay_called = [], ay_host = 7\<rparr>"
    using async_step.message [of grant_all counting_env ?aa slow_call "?s0\<lparr>ay_server := reading_server, ay_host := 7\<rparr>"] d(1) none by simp
  from async_reach.step [OF s1 this] d show ?thesis by (intro exI [of _ "\<lparr>ay_server = srv1, ay_queued = [work], ay_called = [], ay_host = 7\<rparr>"] exI [of _ t]) simp
qed


section \<open>Outcomes\<close>

lemma result_setters:
  "ncl_message_set_code grant_all t \<lparr>message_id = i, as_body = As_Method_Result_Response b\<rparr> =
     (NCL_OK, \<lparr>message_id = i, as_body = As_Method_Result_Response (b\<lparr>rr_code := t\<rparr>)\<rparr>)"
  "ncl_message_set_result grant_all t \<lparr>message_id = i, as_body = As_Method_Result_Response b\<rparr> =
     (NCL_OK, \<lparr>message_id = i, as_body = As_Method_Result_Response (b\<lparr>rr_result := t\<rparr>)\<rparr>)"
  "ncl_message_set_request_id grant_all t \<lparr>message_id = i, as_body = As_Method_Result_Response b\<rparr> =
     (NCL_OK, \<lparr>message_id = i, as_body = As_Method_Result_Response (b\<lparr>rr_id := t\<rparr>)\<rparr>)"
  "ncl_message_set_handler grant_all t \<lparr>message_id = i, as_body = As_Method_Result_Response b\<rparr> =
     (NCL_OK, \<lparr>message_id = i, as_body = As_Method_Result_Response (b\<lparr>rr_handler := t\<rparr>)\<rparr>)"
  "ncl_message_set_return v \<lparr>message_id = i, as_body = As_Method_Result_Response b\<rparr> =
     (NCL_OK, \<lparr>message_id = i, as_body = As_Method_Result_Response (b\<lparr>rr_returns := v\<rparr>)\<rparr>)"
  by (auto simp: ncl_message_set_code_def ncl_message_set_result_def ncl_message_set_request_id_def ncl_message_set_handler_def
      ncl_message_set_return_def set_slot_def ncl_msg_set_str_def)

lemma result_exact:
  assumes "as_body request = As_Method_Result_Request q" "ncl_server_find_task_locked srv (co_handler q) = Some t" "mt_finished t"
  shows "ncl_server_invoke_method_result grant_all ops request srv =
     (Some \<lparr>message_id = message_id request, as_body = As_Method_Result_Response
        \<lparr>rr_id = co_id q, rr_handler = co_handler q, rr_code = Some (if mt_rc t = NCL_OK then ''OK'' else ''NG''),
         rr_returns = (if mt_rc t = NCL_OK then copied ops (mt_value t) else None),
         rr_result = Some (if mt_rc t = NCL_OK then ''finished'' else ''error'')\<rparr>\<rparr>,
      ncl_server_unlink_task_locked t srv)"
proof -
  have names: "ncl_message_handler request = co_handler q" "ncl_message_request_id request = co_id q"
    using assms(1) by (simp_all add: ncl_message_handler_def ncl_message_request_id_def)
  show ?thesis
    using assms(2,3)
    by (cases "mt_rc t = NCL_OK"; cases "mt_value t")
      (simp_all add: ncl_server_invoke_method_result_def new_message names Let_def set_id_all result_setters accept_def
        NCL_KW_CODE_OK_def NCL_KW_CODE_NG_def copied_def)
qed

definition pairs :: "'d ncl_server \<Rightarrow> (nat \<times> string option) list" where
  "pairs srv = map (\<lambda>t. (mt_address t, mt_handler t)) (tasks_of srv)"

lemma worker_keeps_pairs:
  assumes "worker_step g env s s1" "async_inv s"
  shows "pairs (ay_server s1) = pairs (ay_server s)"
  using assms(1)
proof (cases rule: worker_step.cases)
  case (call ws1 work ws2 outcome srv1 w1)
  then have "srv_method_tasks srv1 = srv_method_tasks (ay_server s)" using call_keeps by (simp add: worker_call_def)
  with call(1) show ?thesis by (simp add: pairs_def tasks_of_def)
next
  case (store cs1 work outcome cs2 now)
  have items: "pv_items (srv_method_tasks (ay_server s)) = map Some (tasks_of (ay_server s))" using assms(2) by (simp add: async_inv_def)
  have "tasks_of (change_task a f (ay_server s)) = map (\<lambda>t. if mt_address t = a then f t else t) (tasks_of (ay_server s))" for a f
    using change_items [OF items, of a f] by (simp add: tasks_of_def)
  then show ?thesis using store(1) by (simp add: pairs_def worker_store_def)
qed

lemma workers_keep_pairs:
  assumes "(worker_step g env)\<^sup>*\<^sup>* s s1" "async_inv s"
  shows "async_inv s1 \<and> pairs (ay_server s1) = pairs (ay_server s)"
  using assms by (induction rule: rtranclp_induct) (auto dest: worker_inv worker_keeps_pairs)

definition work_left :: "('d, 'w) async_sys \<Rightarrow> nat" where
  "work_left s = 2 * length (ay_queued s) + length (ay_called s)"

lemma worker_step_decreases: "worker_step g env s s1 \<Longrightarrow> work_left s = Suc (work_left s1)"
  by (auto simp: work_left_def elim!: worker_step.cases)

lemma idle_done:
  assumes "\<nexists>s1. worker_step g env s s1"
  shows "ay_queued s = [] \<and> ay_called s = []"
proof -
  have "ay_queued s = []"
  proof (rule ccontr)
    assume "ay_queued s \<noteq> []"
    then obtain work ws where q: "ay_queued s = [] @ work # ws" by (cases "ay_queued s") auto
    obtain outcome srv1 w1 where "worker_call g env work (ay_server s) (ay_host s) = (outcome, srv1, w1)"
      by (cases "worker_call g env work (ay_server s) (ay_host s)") auto
    from worker_step.call [OF q this] assms show False by blast
  qed
  moreover have "ay_called s = []"
  proof (rule ccontr)
    assume "ay_called s \<noteq> []"
    then obtain work outcome cs where "ay_called s = [] @ (work, outcome) # cs" by (cases "ay_called s") auto
    from worker_step.store [where g = g and env = env, OF this] assms show False by blast
  qed
  ultimately show ?thesis by simp
qed

lemma workers_stop: "\<exists>s1. (worker_step g env)\<^sup>*\<^sup>* s s1 \<and> (\<nexists>s2. worker_step g env s1 s2)"
proof (induction "work_left s" arbitrary: s rule: less_induct)
  case less
  show ?case
  proof (cases "\<exists>s1. worker_step g env s s1")
    case True
    then obtain s1 where s1: "worker_step g env s s1" by blast
    with less [of s1] worker_step_decreases [OF s1]
    obtain s2 where "(worker_step g env)\<^sup>*\<^sup>* s1 s2" "\<nexists>s3. worker_step g env s2 s3" by auto
    with s1 show ?thesis by (blast intro: converse_rtranclp_into_rtranclp)
  qed blast
qed

lemma find_task_none:
  assumes "ncl_server_find_task_locked srv (Some h) = None" "pv_items (srv_method_tasks srv) = map Some ts"
  shows "Some h \<notin> set (map mt_handler ts)"
  using assms by (force simp: ncl_server_find_task_locked_def find_None_iff find_Some_iff split: option.splits)

lemma find_by_handler:
  assumes "async_inv s" "(a, Some h) \<in> set (pairs (ay_server s))"
  shows "\<exists>t. ncl_server_find_task_locked (ay_server s) (Some h) = Some t \<and> mt_handler t = Some h \<and> mt_address t = a \<and> t \<in> set (tasks_of (ay_server s))"
proof -
  have items: "pv_items (srv_method_tasks (ay_server s)) = map Some (tasks_of (ay_server s))"
    and distinct: "distinct (map mt_handler (tasks_of (ay_server s)))"
    using assms(1) by (simp_all add: async_inv_def table_ok_def)
  obtain t0 where t0: "t0 \<in> set (tasks_of (ay_server s))" "mt_handler t0 = Some h" "mt_address t0 = a"
    using assms(2) by (auto simp: pairs_def)
  obtain t where t: "ncl_server_find_task_locked (ay_server s) (Some h) = Some t"
    using t0 find_task_none [OF _ items] by (cases "ncl_server_find_task_locked (ay_server s) (Some h)") force+
  from found_task [OF t items] have "t = t0" using t0 distinct by (auto simp: distinct_map inj_on_def)
  with t t0 show ?thesis by auto
qed

lemma handle_released:
  assumes "pv_items (srv_method_tasks srv) = map Some ts" "table_ok ts w" "t \<in> set ts" "mt_handler t = Some h"
  shows "ncl_server_find_task_locked (ncl_server_unlink_task_locked t srv) (Some h) = None"
proof (rule ccontr)
  let ?srv2 = "ncl_server_unlink_task_locked t srv"
  assume "ncl_server_find_task_locked ?srv2 (Some h) \<noteq> None"
  then obtain u where u: "ncl_server_find_task_locked ?srv2 (Some h) = Some u" by auto
  from unlink_items [OF assms(1-3)] obtain us vs where split: "ts = us @ t # vs"
    "pv_items (srv_method_tasks ?srv2) = map Some (us @ vs)" by blast
  have "mt_handler u \<in> set (map mt_handler (us @ vs))" using found_task(1) [OF u split(2)] by auto
  moreover have "Some h \<notin> set (map mt_handler (us @ vs))" using assms(2,4) split(1) by (auto simp: table_ok_def)
  ultimately show False using found_task(2) [OF u split(2)] by simp
qed



end
