(* ===== verification/Server_Collect.thy ===== *)
theory Server_Collect
  imports Server_Dispatch
begin

text \<open>
  \<^verbatim>\<open>stack/src/server/server.c\<close>, last part: what the thread of a sample channel does in one upload window.
  The clock, the wall clock and the flag that stops the thread are functions of the round in which they
  are read; sleeping has no counterpart. The product of the interval and 1000 is not cut to 64 bits.
\<close>

section \<open>Columns\<close>

definition column_at :: "'d ncl_message \<Rightarrow> nat \<Rightarrow> 'd sample_item option" where
  "column_at sample i = (case ncl_message_item_at sample i of Some (Sample_Item c) \<Rightarrow> Some c | _ \<Rightarrow> None)"

definition put_column :: "nat \<Rightarrow> 'd sample_item \<Rightarrow> 'd ncl_message \<Rightarrow> 'd ncl_message" where
  "put_column i c sample =
     (case as_body sample of
        As_Sample b \<Rightarrow> sample\<lparr>as_body := As_Sample (b\<lparr>sa_data := (sa_data b)\<lparr>pv_items := (pv_items (sa_data b))[i := Some c]\<rparr>\<rparr>)\<rparr>
      | _ \<Rightarrow> sample)"

definition add_to_column :: "grant \<Rightarrow> nat \<Rightarrow> 'd json option \<Rightarrow> 'd ncl_message \<Rightarrow> 'd ncl_message" where
  "add_to_column g i value sample =
     (case column_at sample i of
        None \<Rightarrow> sample
      | Some c \<Rightarrow> put_column i (snd (ncl_sample_item_add_value g c value)) sample)"

text \<open>A round that was missed: an empty batch in every column.\<close>

fun miss_round :: "grant \<Rightarrow> nat list \<Rightarrow> 'd ncl_message \<Rightarrow> 'd ncl_message" where
  "miss_round g [] sample = sample"
| "miss_round g (i # is) sample = miss_round g is (add_to_column g i (ncl_json_new_array g) sample)"

text \<open>A round that is taken: one value per column, or null when there is none to be had.\<close>

fun take_round ::
  "grant \<Rightarrow> ('d, 'w) server_env \<Rightarrow> nat \<Rightarrow> string list \<Rightarrow> 'd ncl_message \<Rightarrow> 'd ncl_server \<Rightarrow> 'w \<Rightarrow> 'd ncl_message \<times> 'd ncl_server \<times> 'w" where
  "take_round g env i [] sample srv w = (sample, srv, w)"
| "take_round g env i (path # paths) sample srv w =
     (if column_at sample i = None then take_round g env (Suc i) paths sample srv w
      else case ncl_server_lookup srv ''get_value'' path of
             None \<Rightarrow> take_round g env (Suc i) paths (add_to_column g i None sample) srv w
           | Some b \<Rightarrow>
               (case ncl_server_call_binding g env (Some b) None srv w of
                  ((rc, value, reason), srv1, w1) \<Rightarrow>
                    take_round g env (Suc i) paths
                      (add_to_column g i (if rc = NCL_OK then value else None) sample) srv1 w1))"

section \<open>A window\<close>

definition rounds_of :: "int \<Rightarrow> int \<Rightarrow> nat" where
  "rounds_of sample_interval upload_interval =
     (let rounds = sint (word_of_int (upload_interval div sample_interval) :: 32 word) in if rounds \<le> 0 then 1 else nat rounds)"

text \<open>A round is missed when the clock has passed it by a whole step; \<open>missed\<close> counts those.\<close>

fun rounds_loop ::
  "grant \<Rightarrow> ('d, 'w) server_env \<Rightarrow> 'd sample_task \<Rightarrow> (nat \<Rightarrow> int) \<Rightarrow> (nat \<Rightarrow> bool) \<Rightarrow> int \<Rightarrow> int \<Rightarrow> nat \<Rightarrow> nat \<Rightarrow> nat \<Rightarrow>
   'd ncl_message \<Rightarrow> 'd ncl_server \<Rightarrow> 'w \<Rightarrow> nat \<times> 'd ncl_message \<times> 'd ncl_server \<times> 'w" where
  "rounds_loop g env task clock stop start step 0 r missed sample srv w = (missed, sample, srv, w)"
| "rounds_loop g env task clock stop start step (Suc n) r missed sample srv w =
     (if stop r then (missed, sample, srv, w)
      else (let tick = start + int r * step
            in if \<not> tick - clock r \<ge> 2000 \<and> clock r - tick \<ge> step
               then rounds_loop g env task clock stop start step n (Suc r) (Suc missed)
                      (miss_round g [0..<ncl_strvec_len (ch_paths task)] sample) srv w
               else (case take_round g env 0 (sv_items (ch_paths task)) sample srv w of
                       (sample1, srv1, w1) \<Rightarrow> rounds_loop g env task clock stop start step n (Suc r) missed sample1 srv1 w1)))"

fun add_columns :: "grant \<Rightarrow> nat \<Rightarrow> 'd ncl_message \<Rightarrow> 'd ncl_message" where
  "add_columns g 0 sample = sample"
| "add_columns g (Suc n) sample =
     add_columns g n
       (case ncl_sample_item_new g of
          None \<Rightarrow> sample
        | Some c \<Rightarrow> snd (snd (ncl_message_add_sample_item g (Some c) sample)))"

fun add_header :: "grant \<Rightarrow> char strvec \<Rightarrow> nat list \<Rightarrow> 'd ncl_message \<Rightarrow> 'd ncl_message" where
  "add_header g header [] sample = sample"
| "add_header g header (i # is) sample = add_header g header is (snd (ncl_message_add_sample_path g (ncl_strvec_at header i) sample))"

definition sample_interval_of :: "'d sample_task \<Rightarrow> int" where
  "sample_interval_of task =
     (let i = nd_sample_interval (nf (ch_config task)) in if i \<le> 0 then 1000 else i)"

definition upload_interval_of :: "'d sample_task \<Rightarrow> int" where
  "upload_interval_of task =
     (let u = nd_upload_interval (nf (ch_config task)) in if u \<le> 0 then sample_interval_of task else u)"

definition ncl_sample_collect ::
  "grant \<Rightarrow> ('d, 'w) server_env \<Rightarrow> (nat \<Rightarrow> int) \<Rightarrow> (nat \<Rightarrow> bool) \<Rightarrow> int \<Rightarrow> int \<Rightarrow> 'd sample_task \<Rightarrow> 'd ncl_message \<Rightarrow>
   'd ncl_server \<Rightarrow> 'w \<Rightarrow> 'd sample_task \<times> 'd ncl_message \<times> 'd ncl_server \<times> 'w" where
  "ncl_sample_collect g env clock stop start wall task sample srv w =
     (let count = ncl_strvec_len (ch_paths task);
          every = sample_interval_of task;
          upload = upload_interval_of task
      in case rounds_loop g env task clock stop start (every * 1000) (rounds_of every upload) 0 0 (add_columns g count sample) srv w of
           (missed, s1, srv1, w1) \<Rightarrow>
             (let s2 = snd (ncl_message_set_begin_time g (Some (dec_int wall)) (snd (ncl_message_set_sample_id g (Some (ch_id task)) s1)));
                  s3 = snd (ncl_message_set_upload_interval upload (snd (ncl_message_set_sample_interval every s2)))
              in (task\<lparr>ch_warned_slow := ch_warned_slow task \<or> missed > 0\<rparr>,
                  add_header g (ch_header task) [0..<count] s3, srv1, w1)))"

text \<open>
  One pass of the thread's loop: nothing when no message is to be had, which ends the thread. \<open>stopped\<close>
  is the flag as it is read after the rounds. The count of uploads grows whatever becomes of the upload.
\<close>

definition ncl_sample_window ::
  "grant \<Rightarrow> ('d, 'w) server_env \<Rightarrow> (nat \<Rightarrow> int) \<Rightarrow> (nat \<Rightarrow> bool) \<Rightarrow> bool \<Rightarrow> int \<Rightarrow> int \<Rightarrow> 'd sample_task \<Rightarrow> 'd ncl_server \<Rightarrow> 'w \<Rightarrow>
   ('d sample_task \<times> 'd ncl_server \<times> 'w) option" where
  "ncl_sample_window g env clock stop stopped start wall task srv w =
     (case ncl_message_new g NCL_MSG_SAMPLE of
        None \<Rightarrow> None
      | Some blank \<Rightarrow>
          (case ncl_sample_collect g env clock stop start wall task blank srv w of
             (task1, sample, srv1, w1) \<Rightarrow>
               if stopped then Some (task1, srv1, w1)
               else (let sample1 = snd (ncl_message_sample_fill_empty_columns g sample)
                     in if ncl_message_sample_is_complete sample1
                        then (case ncl_server_publish g env srv1 (Some (ch_topic task1)) sample1 w1 of
                                (_, w2) \<Rightarrow> Some (task1, srv1\<lparr>srv_sample_uploads := srv_sample_uploads srv1 + 1\<rparr>, w2))
                        else Some (task1, srv1, w1))))"

end
