(* ===== verification/Server_Collect_Props.thy ===== *)
theory Server_Collect_Props
  imports Server_Collect Server_Props Message_Sample_Props
begin

text \<open>What a sample channel uploads: one slot per round in every column, under the header of the channel.\<close>

section \<open>The shape of a sample\<close>

text \<open>A sample with the given header whose columns have the given numbers of slots.\<close>

definition shape :: "string list \<Rightarrow> nat list \<Rightarrow> 'd ncl_message \<Rightarrow> bool" where
  "shape header counts sample \<longleftrightarrow> (\<exists>b. as_body sample = As_Sample b \<and> sv_items (sa_paths b) = header
     \<and> list_all2 has_slots counts (pv_items (sa_data b)))"

lemma column_there:
  assumes "shape header counts sample" "i < length counts"
  shows "\<exists>c xs k. column_at sample i = Some c \<and> si_data c = Some (J_Array xs k) \<and> length xs = counts ! i"
proof -
  obtain b where b: "as_body sample = As_Sample b" "list_all2 has_slots counts (pv_items (sa_data b))" using assms(1) by (auto simp: shape_def)
  have "has_slots (counts ! i) (pv_items (sa_data b) ! i)" "i < length (pv_items (sa_data b))"
    using b(2) assms(2) by (auto simp: list_all2_conv_all_nth)
  with b(1) show ?thesis by (auto simp: has_slots_def column_at_def ncl_message_item_at_def ncl_ptrvec_at_def)
qed

lemma add_shape:
  assumes "shape header counts sample" "i < length counts"
  shows "shape header (counts[i := Suc (counts ! i)]) (add_to_column grant_all i v sample)"
proof -
  obtain b where b: "as_body sample = As_Sample b" "sv_items (sa_paths b) = header" "list_all2 has_slots counts (pv_items (sa_data b))"
    using assms(1) by (auto simp: shape_def)
  obtain c xs k where c: "column_at sample i = Some c" "si_data c = Some (J_Array xs k)" "length xs = counts ! i"
    using column_there [OF assms] by blast
  have null: "ncl_json_new_null grant_all = Some J_Null" by (simp add: ncl_json_new_null_def ncl_json_alloc_def grant_all)
  let ?x = "case v of None \<Rightarrow> J_Null | Some a \<Rightarrow> a"
  obtain k1 where "ncl_json_arr_push grant_all (Some (J_Array xs k)) (Some ?x) = (NCL_OK, Some (J_Array (xs @ [?x]) k1))"
    using push_all by blast
  then have "ncl_json_arr_push grant_all (Some (J_Array xs k)) v = (NCL_OK, Some (J_Array (xs @ [?x]) k1))"
    by (cases v) (simp_all add: ncl_json_arr_push_def null)
  then have "add_to_column grant_all i v sample = put_column i (c\<lparr>si_data := Some (J_Array (xs @ [?x]) k1)\<rparr>) sample"
    using c by (simp add: add_to_column_def ncl_sample_item_add_value_def add_to_def)
  with b c show ?thesis
    by (auto simp: shape_def put_column_def has_slots_def intro!: list_all2_update_cong)
qed

lemma next_count: "(replicate i (Suc m) @ replicate (Suc n) m)[i := Suc m] = replicate (Suc i) (Suc m) @ replicate n m"
  by (simp add: list_update_append replicate_append_same)

lemma add_next:
  assumes "shape header (replicate i (Suc m) @ replicate (Suc n) m) sample"
  shows "shape header (replicate (Suc i) (Suc m) @ replicate n m) (add_to_column grant_all i v sample)"
  using add_shape [OF assms, of i v] next_count [of i m n] by (simp add: nth_append)

lemma take_round_shape:
  "shape header (replicate i (Suc m) @ replicate (length paths) m) sample \<Longrightarrow> take_round grant_all env i paths sample srv w = (sample1, srv1, w1) \<Longrightarrow>
     shape header (replicate (i + length paths) (Suc m)) sample1"
proof (induction paths arbitrary: i sample srv w)
  case (Cons path paths)
  have there: "column_at sample i \<noteq> None" using column_there [OF Cons.prems(1), of i] by auto
  have next_shape: "shape header (replicate (Suc i) (Suc m) @ replicate (length paths) m) (add_to_column grant_all i v sample)" for v
    using add_next [of header i m "length paths" sample v] Cons.prems(1) by simp
  obtain v srv2 w2 where "take_round grant_all env (Suc i) paths (add_to_column grant_all i v sample) srv2 w2 = (sample1, srv1, w1)"
    using Cons.prems(2) there by (auto split: option.splits prod.splits)
  from Cons.IH [OF next_shape this] show ?case by simp
qed simp

lemma miss_round_shape:
  "shape header (replicate i (Suc m) @ replicate n m) sample \<Longrightarrow> shape header (replicate (i + n) (Suc m)) (miss_round grant_all [i..<i + n] sample)"
proof (induction n arbitrary: i sample)
  case (Suc n)
  have "[i..<i + Suc n] = i # [Suc i..<Suc i + n]" by (simp add: upt_conv_Cons)
  with Suc.IH [OF add_next [OF Suc.prems]] show ?case by simp
qed simp

lemma rounds_shape:
  assumes "\<And>r. \<not> stop r" "shape header (replicate (length (sv_items (ch_paths task))) m) sample"
    and "rounds_loop grant_all env task clock stop start step n r missed sample srv w = (missed1, sample1, srv1, w1)"
  shows "shape header (replicate (length (sv_items (ch_paths task))) (m + n)) sample1"
  using assms(2,3)
proof (induction n arbitrary: m r missed sample srv w)
  case (Suc n)
  let ?paths = "sv_items (ch_paths task)"
  show ?case
  proof (cases "\<not> start + int r * step - clock r \<ge> 2000 \<and> clock r - (start + int r * step) \<ge> step")
    case True
    have "shape header (replicate (length ?paths) (Suc m)) (miss_round grant_all [0..<length ?paths] sample)"
      using miss_round_shape [of header 0 m "length ?paths" sample] Suc.prems(1) by simp
    with Suc.IH [of "Suc m"] Suc.prems(2) True assms(1) show ?thesis by (simp add: Let_def ncl_strvec_len_def)
  next
    case False
    obtain sample2 srv2 w2 where t: "take_round grant_all env 0 ?paths sample srv w = (sample2, srv2, w2)" by (metis prod_cases3)
    have "shape header (replicate (length ?paths) (Suc m)) sample2"
      using take_round_shape [of header 0 m ?paths sample env srv w] t Suc.prems(1) by simp
    with Suc.IH [of "Suc m"] Suc.prems(2) False t assms(1) show ?thesis by (auto simp: Let_def)
  qed
qed simp

section \<open>The window\<close>

lemma column_shape:
  assumes "shape header counts sample" "si_data c = Some (J_Array [] k)"
  shows "shape header (counts @ [0]) (snd (snd (ncl_message_add_sample_item grant_all (Some c) sample)))"
proof -
  obtain b where b: "as_body sample = As_Sample b" "sv_items (sa_paths b) = header" "list_all2 has_slots counts (pv_items (sa_data b))"
    using assms(1) by (auto simp: shape_def)
  obtain cap where push: "ncl_ptrvec_push_owned grant_all (sa_data b) (Some c) =
      (NCL_OK, [], \<lparr>pv_items = pv_items (sa_data b) @ [Some c], pv_cap = cap, pv_free = pv_free (sa_data b)\<rparr>)"
    using push_owned_all by blast
  have "list_all2 has_slots (counts @ [0]) (pv_items (sa_data b) @ [Some c])"
    using b(3) assms(2) by (simp add: list_all2_appendI has_slots_def)
  with b push show ?thesis by (simp add: shape_def ncl_message_add_sample_item_def ncl_sample_item_is_valid_def)
qed

lemma new_column: "ncl_sample_item_new grant_all = Some \<lparr>si_encoding = None, si_data = Some (J_Array [] 0)\<rparr>"
  by (simp add: ncl_sample_item_new_def grant_all new_arr)

lemma columns_shape:
  "shape header counts sample \<Longrightarrow> shape header (counts @ replicate n 0) (add_columns grant_all n sample)"
proof (induction n arbitrary: counts sample)
  case (Suc n)
  from Suc.IH [OF column_shape [OF Suc.prems, of "\<lparr>si_encoding = None, si_data = Some (J_Array [] 0)\<rparr>" 0]]
  show ?case by (simp add: new_column)
qed simp

lemma setters_shape:
  assumes "shape header counts sample"
  shows "shape header counts (snd (ncl_message_set_sample_id g t sample))" "shape header counts (snd (ncl_message_set_begin_time g t sample))"
    "shape header counts (snd (ncl_message_set_sample_interval i sample))" "shape header counts (snd (ncl_message_set_upload_interval i sample))"
  using assms
  by (auto simp: shape_def ncl_message_set_sample_id_def ncl_message_set_begin_time_def ncl_message_set_sample_interval_def
      ncl_message_set_upload_interval_def set_slot_def split: prod.split)

lemma header_shape:
  "shape header counts sample \<Longrightarrow> \<forall>i \<in> set is. i < length (sv_items v) \<Longrightarrow>
     shape (header @ map ((!) (sv_items v)) is) counts (add_header grant_all v is sample)"
proof (induction "is" arbitrary: header sample)
  case (Cons i "is")
  have "shape (header @ [sv_items v ! i]) counts (snd (ncl_message_add_sample_path grant_all (ncl_strvec_at v i) sample))"
    using Cons.prems by (auto simp: shape_def ncl_message_add_sample_path_def ncl_strvec_at_def case_prod_unfold push_text_all)
  from Cons.IH [OF this] Cons.prems(2) show ?case by simp
qed simp

lemma filled_usable:
  assumes "shape header (replicate n m) sample"
  shows "\<exists>b. as_body (snd (ncl_message_sample_fill_empty_columns grant_all sample)) = As_Sample b \<and> sv_items (sa_paths b) = header
    \<and> length (pv_items (sa_data b)) = n \<and> list_all (usable m) (pv_items (sa_data b))"
proof -
  obtain b where b: "as_body sample = As_Sample b" "sv_items (sa_paths b) = header" "list_all2 has_slots (replicate n m) (pv_items (sa_data b))"
    using assms by (auto simp: shape_def)
  then have slots: "list_all (has_slots m) (pv_items (sa_data b))" "length (pv_items (sa_data b)) = n"
    by (auto simp: list_all2_conv_all_nth list_all_length)
  obtain k ys where ys: "fill_columns grant_all 0 (pv_items (sa_data b)) = (k, ys)" "list_all2 repaired (pv_items (sa_data b)) ys"
    using fill_columns_all [OF slots(1)] by blast
  have "list_all (usable m) ys"
    using ys(2) slots(1) repaired_usable by (fastforce simp: list_all2_conv_all_nth list_all_length)
  with b ys slots(2) show ?thesis by (auto simp: ncl_message_sample_fill_empty_columns_def dest: list_all2_lengthD)
qed

lemma collected_shape:
  assumes "\<And>r. \<not> stop r" "length (sv_items (ch_header task)) = length (sv_items (ch_paths task))"
    and "ncl_sample_collect grant_all env clock stop start wall task \<lparr>message_id = None, as_body = new_body NCL_MSG_SAMPLE\<rparr> srv w = (task1, sample, srv1, w1)"
  shows "shape (sv_items (ch_header task))
     (replicate (length (sv_items (ch_paths task))) (rounds_of (sample_interval_of task) (upload_interval_of task))) sample
    \<and> ch_topic task1 = ch_topic task"
proof -
  let ?n = "length (sv_items (ch_paths task))"
  have "shape [] [] \<lparr>message_id = None, as_body = new_body NCL_MSG_SAMPLE\<rparr>"
    by (simp add: shape_def ncl_strvec_init_def ncl_ptrvec_init_def)
  from columns_shape [OF this, of ?n]
  have blank: "shape [] (replicate ?n 0) (add_columns grant_all ?n \<lparr>message_id = None, as_body = new_body NCL_MSG_SAMPLE\<rparr>)" by simp
  obtain missed s1 srv2 w2 where r: "rounds_loop grant_all env task clock stop start (sample_interval_of task * 1000)
      (rounds_of (sample_interval_of task) (upload_interval_of task)) 0 0
      (add_columns grant_all ?n \<lparr>message_id = None, as_body = new_body NCL_MSG_SAMPLE\<rparr>) srv w = (missed, s1, srv2, w2)"
    by (metis prod_cases4)
  note rounds = rounds_shape [OF assms(1) blank r]
  have "map ((!) (sv_items (ch_header task))) [0..<?n] = sv_items (ch_header task)" using assms(2) by (metis map_nth)
  with assms(2,3) r header_shape [OF setters_shape(4) [OF setters_shape(3) [OF setters_shape(2) [OF setters_shape(1) [OF rounds]]]],
      of "[0..<?n]" "ch_header task"]
  show ?thesis by (auto simp: ncl_sample_collect_def ncl_strvec_len_def Let_def)
qed

text \<open>
  C11. A window of a sample channel. A channel that is not stopped during a window uploads one sample,
  whatever the clock, missed rounds and failing methods: its header is the header of the channel, it
  has a column for each path, and every column has one slot for each round of the window, so that the
  slots of a row belong together. It is published under the channel's topic, and counted whether or
  not that succeeds.
\<close>

theorem window_uploads_aligned:
  assumes "\<And>r. \<not> stop r" "sv_items (ch_paths task) \<noteq> []" "length (sv_items (ch_header task)) = length (sv_items (ch_paths task))"
  shows "\<exists>task1 sample b srv1 w1.
      ncl_sample_window grant_all env clock stop False start wall task srv w =
        Some (task1, srv1\<lparr>srv_sample_uploads := srv_sample_uploads srv1 + 1\<rparr>, snd (ncl_server_publish grant_all env srv1 (Some (ch_topic task)) sample w1))
    \<and> as_body sample = As_Sample b \<and> sv_items (sa_paths b) = sv_items (ch_header task)
    \<and> length (pv_items (sa_data b)) = length (sv_items (ch_paths task))
    \<and> list_all (usable (rounds_of (sample_interval_of task) (upload_interval_of task))) (pv_items (sa_data b))"
proof -
  obtain task1 sample srv1 w1 where c: "ncl_sample_collect grant_all env clock stop start wall task
      \<lparr>message_id = None, as_body = new_body NCL_MSG_SAMPLE\<rparr> srv w = (task1, sample, srv1, w1)" by (metis prod_cases4)
  note shaped = collected_shape [OF assms(1,3) c]
  let ?sample = "snd (ncl_message_sample_fill_empty_columns grant_all sample)"
  from filled_usable [OF conjunct1 [OF shaped]] obtain b where b: "as_body ?sample = As_Sample b" "sv_items (sa_paths b) = sv_items (ch_header task)"
    "length (pv_items (sa_data b)) = length (sv_items (ch_paths task))"
    "list_all (usable (rounds_of (sample_interval_of task) (upload_interval_of task))) (pv_items (sa_data b))" by blast
  have "sv_items (sa_paths b) \<noteq> []" "length (sv_items (sa_paths b)) = length (pv_items (sa_data b))" using assms(2,3) b(2,3) by auto
  from usable_complete [OF b(1) this b(4)] have complete: "ncl_message_sample_is_complete ?sample" .
  have "ncl_sample_window grant_all env clock stop False start wall task srv w =
        Some (task1, srv1\<lparr>srv_sample_uploads := srv_sample_uploads srv1 + 1\<rparr>, snd (ncl_server_publish grant_all env srv1 (Some (ch_topic task)) ?sample w1))"
    using c complete shaped by (simp add: ncl_sample_window_def new_message Let_def split: prod.split)
  with b show ?thesis by blast
qed

text \<open>A channel of two paths; nothing is bound to the second. Two rounds of half a second, on time and far too late.\<close>

definition two_paths :: "int sample_task" where
  "two_paths = \<lparr>ch_id = ''c1'', ch_topic = ''Sample/CNC1/c1'',
     ch_config = Ncl_Node ((blank_fields NCL_NODE_CONFIG)\<lparr>nd_sample_interval := 500, nd_upload_interval := 1000\<rparr>) [] [] [] [],
     ch_paths = \<lparr>sv_items = [''/X'', ''/Y''], sv_cap = 8\<rparr>, ch_header = \<lparr>sv_items = [''X'', ''Y''], sv_cap = 8\<rparr>,
     ch_stop = False, ch_warned_slow = False\<rparr>"

lemma window_uploads_aligned_witness:
  "\<exists>task1 sample b srv1 w1.
      ncl_sample_window grant_all counting_env (\<lambda>r. if r = 0 then 10 else 9000000) (\<lambda>r. False) False 0 1700000000000 two_paths reading_server 7 =
        Some (task1, srv1\<lparr>srv_sample_uploads := srv_sample_uploads srv1 + 1\<rparr>,
          snd (ncl_server_publish grant_all counting_env srv1 (Some ''Sample/CNC1/c1'') sample w1))
    \<and> as_body sample = As_Sample b \<and> sv_items (sa_paths b) = [''X'', ''Y''] \<and> list_all (usable 2) (pv_items (sa_data b))"
proof -
  have rounds: "rounds_of (sample_interval_of two_paths) (upload_interval_of two_paths) = 2"
    by (simp add: two_paths_def sample_interval_of_def upload_interval_of_def rounds_of_def Let_def)
  have header: "sv_items (ch_header two_paths) = [''X'', ''Y'']" "ch_topic two_paths = ''Sample/CNC1/c1''"
    "sv_items (ch_paths two_paths) \<noteq> []" "length (sv_items (ch_header two_paths)) = length (sv_items (ch_paths two_paths))"
    by (simp_all add: two_paths_def)
  from window_uploads_aligned [of "\<lambda>r. False" two_paths counting_env "\<lambda>r. if r = 0 then 10 else 9000000" 0 1700000000000 reading_server 7]
    header rounds show ?thesis by fastforce
qed

end
