(* ===== verification/Spec2Isabelle.thy ===== *)
theory Spec2Isabelle
  imports Mem_Props Codec General_Topic Mqtt_Frames Modbus_Props Sha256_Props Ttl_Cache_Props Thread_Pool_Safe
    Json_Doc Regex_Props Schema_Compile Model_Props Model_Binding Message_Sample_Props
    Message_Match Client_Props Server_Async Server_Collect_Props
begin

text \<open>
  NC-Link in C: a verification library for the parts of the repository that carry its own logic.

  \<^bold>\<open>The program.\<close> The SDK under \<^verbatim>\<open>src/stack\<close> lets machine tool adapters and applications talk NC-Link
  over MQTT: JSON messages in MQTT packets, described by a data model and checked against JSON
  schemas. \<^verbatim>\<open>server/server.c\<close> answers requests for a device: reads and writes of points, method calls that
  may run on a worker, probes of the model, sample channels. \<^verbatim>\<open>client/client.c\<close> sends the requests and waits
  for the answers. \<^verbatim>\<open>model/model.c\<close> is the data model: the tree of devices, components, data items and sample
  channels; \<^verbatim>\<open>message/\<close> has the messages. Everything rests on a static memory pool (\<^verbatim>\<open>core/ncl_mem.c\<close>) and on small containers
  (\<^verbatim>\<open>core/common.c\<close>); \<^verbatim>\<open>core/json.c\<close> holds documents, \<^verbatim>\<open>schema/regex.c\<close> compiles the patterns that
  \<^verbatim>\<open>schema/schema.c\<close> applies to them; \<^verbatim>\<open>mqtt/packet.c\<close> is the wire format of MQTT 5; \<^verbatim>\<open>core/thread_pool.c\<close>
  runs callbacks and keeps a cache of pending answers; \<^verbatim>\<open>general/\<close> names codes, operations and topics;
  \<^verbatim>\<open>codec/codec.c\<close> and \<^verbatim>\<open>file/sha256.c\<close> serve file transfer. The drivers under \<^verbatim>\<open>src/clients\<close> speak the
  protocols of controllers; the byte level of Modbus is modelled.

  \<^bold>\<open>Conventions.\<close> A C string that may be NULL is an \<^verbatim>\<open>option\<close>; fixed width integers are words; a function
  that fails returns \<open>ncl_err + 'a\<close> or a status with the new state. Memory never blocks a model: a
  \<open>grant\<close> (a predicate on request sizes, theory \<open>Prelude\<close>) says which allocations succeed, and
  \<open>grant_all\<close> grants all. Theorems on error paths hold for every grant, round trips for \<open>grant_all\<close>
  or with the refusal as a premise. Code that is not in the repository is an argument: zlib (\<open>Codec\<close>),
  arithmetic and formatting of \<open>double\<close> (\<open>double_ops\<close>, \<open>schema_env\<close>), \<^verbatim>\<open>inet_pton\<close>, clocks,
  mutexes (a critical section is one step) and thread creation.

  \<^bold>\<open>Memory pool\<close> (\<^verbatim>\<open>core/ncl_mem.c\<close>; state \<open>pool\<close> with the arena as a list of headers and the size
  classes as linked lists). \<open>Mem_Pool\<close> has the operations; \<open>Mem_Arena\<close>, \<open>Mem_Classes\<close> the geometry of
  the two areas and \<open>Mem_Inv\<close> the invariant; \<open>Mem_Ops\<close>, \<open>Mem_Step\<close>, \<open>Mem_Steps\<close>, \<open>Mem_Release\<close>,
  \<open>Mem_Realloc\<close> that each operation keeps it; \<open>Mem_Reach\<close> reachability; \<open>Mem_Check\<close> the self check;
  \<open>Mem_Props\<close> the properties. The locale \<open>block_allocator\<close> is what a user of the pool relies on.

  \<^bold>\<open>Containers and codecs\<close>. \<open>Common\<close> (string buffers, vectors, string helpers; locales \<open>byte_sink\<close> and
  \<open>total_sink\<close> for writers), \<open>Codec\<close> (hexadecimal, the zlib driver loop), \<open>General_Topic\<close>, \<open>Sha256\<close> with
  the equivalence to FIPS 180-4 in \<open>Sha256_Props\<close>.

  \<^bold>\<open>MQTT\<close> (\<^verbatim>\<open>mqtt/packet.c\<close>). \<open>Mqtt_Wire\<close> (integers, fields, reader), \<open>Mqtt_Props\<close> (property sets),
  \<open>Mqtt_Packet\<close> (packets); \<open>Mqtt_Roundtrip\<close> and \<open>Mqtt_Frames\<close> show that what is encoded is decoded.

  \<^bold>\<open>Modbus\<close> (\<^verbatim>\<open>modbus_codec.c\<close>). \<open>Modbus\<close> and \<open>Modbus_Props\<close>: frames, CRC as error detection, element
  values in every byte order.

  \<^bold>\<open>Threads and cache\<close> (\<^verbatim>\<open>core/thread_pool.c\<close>). \<open>Ttl_Cache\<close> with its refinement to a map with deadlines;
  \<open>Thread_Pool\<close> with one atomic function per critical section and a step relation for the interleaving,
  its invariant (\<open>Thread_Pool_Inv\<close>), the ring buffer as a bounded queue (\<open>Thread_Pool_Props\<close>, locale
  \<open>bounded_queue\<close>), accounting of tasks and shutdown (\<open>Thread_Pool_Safe\<close>).

  \<^bold>\<open>JSON\<close> (\<^verbatim>\<open>core/json.c\<close>). \<open>Json_Dom\<close> (nodes and editors), \<open>Json_Text\<close> (writer and parser);
  \<open>Json_Props\<close>, \<open>Json_Parse_Props\<close>, \<open>Json_Total\<close> and \<open>Json_Doc\<close>: round trip, totality, objects as ordered
  maps (locale \<open>keyed_store\<close>). The loops of the parser have fuel: one more than the rest of the text is
  enough, and the nesting of values is bounded by \<open>NCL_JSON_MAX_DEPTH\<close> as in the code; \<open>json_parse_total\<close>
  shows that the fuel never runs out.

  \<^bold>\<open>Regular expressions\<close> (\<^verbatim>\<open>schema/regex.c\<close>). \<open>Regex\<close> (parser, code generator, machine), \<open>Regex_Ast\<close>
  (syntax trees, their denotation and their code), \<open>Regex_Compile\<close> (the generator emits that code),
  \<open>Regex_Machine\<close> (the machine decides the denotation), \<open>Regex_Props\<close>. The parser has fuel of four times
  the pattern's length plus four, shown to be enough by \<open>regex_compile_decides\<close>; the machine counts down
  the code's own budget of 2,000,000 steps.

  \<^bold>\<open>JSON Schema\<close> (\<^verbatim>\<open>schema/schema.c\<close>). \<open>Schema\<close> (pointers, types, pattern cache, formats),
  \<open>Schema_Validate\<close> (validators, compiler, public functions), \<open>Schema_Props\<close> (validation decides the
  reference \<open>satisfies\<close>; locale \<open>message_log\<close>), \<open>Schema_Compile\<close>. At most 32 references are followed, as
  in the code.

  \<^bold>\<open>Device model\<close> (\<^verbatim>\<open>model/model.c\<close>; a node is the datatype \<open>ncl_node\<close>, pointers into the tree are
  positions). \<open>Model\<close> (nodes, sample channels, children, lookup, copies), \<open>Model_Paths\<close> (paths,
  validity, the maps from ids and paths), \<open>Model_Json\<close> (JSON both ways, post construction);
  \<open>Model_Roundtrip\<close> shows that a written node is read back, \<open>Model_Props\<close> that paths and lookup are
  exact, \<open>Model_Binding\<close> that post construction resolves every sample channel. \<open>Json_Copy\<close> holds the
  lemmas on copies of documents that these share with the schemas.

  \<^bold>\<open>Messages\<close> (\<^verbatim>\<open>message/items.c\<close>, \<^verbatim>\<open>message/message.c\<close>; the tagged union is the datatype
  \<open>message_body\<close>). \<open>Message_Items\<close> (kinds, items, parameters, which item answers which), \<open>Message\<close>
  (life cycle, setters, validity, matching), \<open>Message_Sample\<close> (samples as tables, completeness and its
  repair from the model), \<open>Message_Json\<close> (JSON both ways, the parser of payloads).
  \<open>Message_Sample_Props\<close> shows the table view of a sample, that a published sample is aligned and what
  the repair puts in; \<open>Message_Roundtrip\<close> that a written message is read back; \<open>Message_Ops\<close> that every
  history of operations keeps kind and invariant; \<open>Message_Match\<close> which answers a client accepts.

  \<^bold>\<open>Server\<close> (\<^verbatim>\<open>server/server.c\<close>; record \<open>ncl_server\<close>). What the server calls outside - host methods, which
  are numbers here, the channel, clocks, files - is the record \<open>server_env\<close>; the state of the host is a
  parameter that is passed along. \<open>Server\<close> (tools, bindings, interned schemas, the list of methods),
  \<open>Server_Model\<close> (interface document, life cycle, the model), \<open>Server_Sample\<close> (sample channels, built in
  tool), \<open>Server_Items\<close> (queries and sets, item by item), \<open>Server_Methods\<close> (method calls, the table of
  running calls, the worker), \<open>Server_Dispatch\<close> (dispatch, topics, publishing), \<open>Server_Collect\<close> (one upload
  window of a sample channel). \<open>Server_Props\<close>: every answer goes where the client listens, and two
  divergences; \<open>Server_Query\<close>: every item of a request gets its answer, in order, from the binding of its
  point; \<open>Server_Async\<close>: the interleaving of requests and workers as a step relation, its invariant, and
  that a call which is run is answered by its result; \<open>Server_Collect_Props\<close>: a window that is uploaded is
  aligned and has one slot per round.

  \<^bold>\<open>Client\<close> (\<^verbatim>\<open>client/client.c\<close>; record \<open>ncl_client\<close>). \<open>Client\<close> (subscriptions, arrivals, the wait of a
  request), \<open>Client_Values\<close> (points, sample channels, the model). What arrives while a request waits is a
  list with times. \<open>Client_Props\<close> composes both sides: a value read by the client is the one the host's
  method returned, through request, JSON, dispatch, binding, answer, JSON, cache and waiting.

  \<^bold>\<open>Not modelled.\<close> The malloc build, exit report and traces of the pool; the printf family; logging;
  sockets, threads, files and processes of the platform layer; the MQTT client and the HTTP and REST
  servers, which drive sockets; the client's operations on files and the table of clients; file transfer
  and FTP; the drivers of the other controllers and the plugins; the command line tools, examples, language bindings
  and the copies under \<^verbatim>\<open>src/dist\<close>. They are listed as components with the reason.
\<close>

end
